(* ===== verification/CStrings.thy ===== *)
theory CStrings
  imports Main "HOL-Library.Word" "HOL-Library.Sublist" "HOL-Library.State_Monad"
begin

text \<open>
  Shared prelude of the development.  It holds

  \<^item> the machine integer types and the byte/character conversions;
  \<^item> the part of the C string library that \<^verbatim>\<open>system_service\<close> uses
    (\<^verbatim>\<open>strchr\<close>, \<^verbatim>\<open>strrchr\<close>, \<^verbatim>\<open>strstr\<close>, \<^verbatim>\<open>strtok_r\<close> on newlines, \<^verbatim>\<open>strtoul\<close>,
    \<^verbatim>\<open>strtol\<close>, \<^verbatim>\<open>atoi\<close>, \<^verbatim>\<open>strtod\<close> followed by a cast to \<^verbatim>\<open>int\<close>,
    \<^verbatim>\<open>snprintf\<close> of one string into a sized buffer, decimal printing);
    a C string is the list of the characters before its terminating NUL;
  \<^item> a small calculus for state-monad programs: a relation between the state before
    and the state after, closed under sequencing, branching and bounded loops, so
    that what a whole workflow does to the world follows from what its calls do.
\<close>

named_theorems io_intros \<open>introduction rules for the relation kept by a monadic program\<close>
named_theorems cstr_simps \<open>rewrite rules on C strings\<close>

section \<open>Machine integers and bytes\<close>

type_synonym u8 = "8 word"
type_synonym u16 = "16 word"
type_synonym u32 = "32 word"
type_synonym u64 = "64 word"

text \<open>The quotient of the magnitudes, negated when the signs differ: C's \<^verbatim>\<open>/\<close> on \<^verbatim>\<open>int\<close>.\<close>

definition c_div :: "int \<Rightarrow> int \<Rightarrow> int" where
  "c_div a b = (let q = \<bar>a\<bar> div \<bar>b\<bar> in if (a < 0) = (b < 0) then q else - q)"

definition byte_of_char :: "char \<Rightarrow> u8" where
  "byte_of_char c = word_of_nat (of_char c)"

definition char_of_byte :: "u8 \<Rightarrow> char" where
  "char_of_byte b = char_of (unat b)"

lemma of_char_less_256: "(of_char c :: nat) < 256"
proof -
  have "(of_char c :: nat) = of_char (char_of (of_char c :: nat))" by simp
  also have "\<dots> = of_char c mod 256" by (simp only: of_char_of)
  finally show ?thesis by (metis mod_less_divisor zero_less_numeral)
qed

lemma unat_byte_of_char [simp]: "unat (byte_of_char c) = of_char c"
  using of_char_less_256 [of c] by (simp add: byte_of_char_def unat_of_nat)

lemma char_of_byte_of_char [simp]: "char_of_byte (byte_of_char c) = c"
  by (simp add: char_of_byte_def)

lemma byte_of_char_of_byte [simp]: "byte_of_char (char_of_byte b) = b"
proof -
  have "unat b < 256" using unsigned_less [of b, where ?'a = nat] by simp
  then show ?thesis by (simp add: byte_of_char_def char_of_byte_def of_char_of)
qed

lemma map_char_byte [simp]: "map char_of_byte (map byte_of_char s) = s"
  by (simp add: comp_def)

lemma map_byte_char [simp]: "map byte_of_char (map char_of_byte bs) = bs"
  by (simp add: comp_def)

section \<open>C strings\<close>

abbreviation chr_nul :: char where "chr_nul \<equiv> CHR 0x00"
abbreviation chr_tab :: char where "chr_tab \<equiv> CHR 0x09"
abbreviation chr_nl :: char where "chr_nl \<equiv> CHR 0x0A"
abbreviation chr_cr :: char where "chr_cr \<equiv> CHR 0x0D"
abbreviation chr_sp :: char where "chr_sp \<equiv> CHR 0x20"
abbreviation chr_dq :: char where "chr_dq \<equiv> CHR 0x22"
abbreviation chr_sq :: char where "chr_sq \<equiv> CHR 0x27"
abbreviation chr_bs :: char where "chr_bs \<equiv> CHR 0x5C"

text \<open>The C string held by a buffer: everything before the first NUL.\<close>

definition cstr :: "string \<Rightarrow> string" where
  "cstr s = takeWhile (\<lambda>c. c \<noteq> chr_nul) s"

text \<open>\<^verbatim>\<open>snprintf(buf, cap, "%s", s)\<close>: what the buffer holds afterwards (\<^verbatim>\<open>cap > 0\<close>).\<close>

definition snprintf_s :: "nat \<Rightarrow> string \<Rightarrow> string" where
  "snprintf_s cap s = take (cap - 1) s"

text \<open>\<^verbatim>\<open>strchr\<close>: the text before the first occurrence and the text after it.\<close>

fun strchr :: "string \<Rightarrow> char \<Rightarrow> (string \<times> string) option" where
  "strchr [] c = None"
| "strchr (x # xs) c =
     (if x = c then Some ([], xs)
      else map_option (\<lambda>(a, b). (x # a, b)) (strchr xs c))"

text \<open>\<^verbatim>\<open>strrchr\<close>: the text after the last occurrence.\<close>

fun strrchr :: "string \<Rightarrow> char \<Rightarrow> string option" where
  "strrchr [] c = None"
| "strrchr (x # xs) c =
     (case strrchr xs c of Some r \<Rightarrow> Some r | None \<Rightarrow> if x = c then Some xs else None)"

text \<open>\<^verbatim>\<open>strncmp(s, p, strlen(p)) == 0\<close>: \<open>s\<close> starts with \<open>p\<close>; the rest is what follows.\<close>

fun after_prefix :: "string \<Rightarrow> string \<Rightarrow> string option" where
  "after_prefix [] s = Some s"
| "after_prefix (p # ps) [] = None"
| "after_prefix (p # ps) (x # xs) = (if p = x then after_prefix ps xs else None)"

definition starts_with :: "string \<Rightarrow> string \<Rightarrow> bool" where
  "starts_with s p = (after_prefix p s \<noteq> None)"

text \<open>\<^verbatim>\<open>strstr\<close>: the text from the first occurrence on.\<close>

fun strstr :: "string \<Rightarrow> string \<Rightarrow> string option" where
  "strstr [] n = (if n = [] then Some [] else None)"
| "strstr (x # xs) n = (if starts_with (x # xs) n then Some (x # xs) else strstr xs n)"

definition has_sub :: "string \<Rightarrow> string \<Rightarrow> bool" where
  "has_sub s n = (strstr s n \<noteq> None)"

text \<open>
  \<^verbatim>\<open>strtok_r(buf, "\n", ...)\<close> called until it returns NULL: the maximal runs of
  characters other than newline, empty ones skipped.
\<close>

fun split_nl :: "string \<Rightarrow> string list" where
  "split_nl [] = [[]]"
| "split_nl (c # cs) =
     (if c = chr_nl then [] # split_nl cs
      else (case split_nl cs of [] \<Rightarrow> [[c]] | l # ls \<Rightarrow> (c # l) # ls))"

definition strtok_nl :: "string \<Rightarrow> string list" where
  "strtok_nl s = filter (\<lambda>l. l \<noteq> []) (split_nl s)"

text \<open>A file body made of lines, each ended by a newline.\<close>

definition render_lines :: "string list \<Rightarrow> string" where
  "render_lines ls = concat (map (\<lambda>l. l @ [chr_nl]) ls)"

subsection \<open>Facts on C strings\<close>

lemma cstr_id [simp]: "chr_nul \<notin> set s \<Longrightarrow> cstr s = s"
  by (auto simp: cstr_def takeWhile_eq_all_conv)

lemma cstr_no_nul [simp]: "chr_nul \<notin> set (cstr s)"
  by (auto simp: cstr_def dest: set_takeWhileD)

lemma length_cstr_le: "length (cstr s) \<le> length s"
  by (simp add: cstr_def length_takeWhile_le)

lemma set_cstr_subset: "set (cstr s) \<subseteq> set s"
  by (auto simp: cstr_def dest: set_takeWhileD)

lemma length_snprintf_s: "0 < cap \<Longrightarrow> length (snprintf_s cap s) < cap"
  by (simp add: snprintf_s_def)

lemma snprintf_s_fits [simp]: "length s < cap \<Longrightarrow> snprintf_s cap s = s"
  by (simp add: snprintf_s_def)

lemma after_prefix_append [simp]: "after_prefix p (p @ s) = Some s"
  by (induction p) auto

lemma after_prefix_Some_iff: "after_prefix p s = Some r \<longleftrightarrow> s = p @ r"
  by (induction p s rule: after_prefix.induct) auto

lemma starts_with_iff: "starts_with s p \<longleftrightarrow> prefix p s"
  unfolding starts_with_def prefix_def
  by (metis after_prefix_Some_iff after_prefix_append not_None_eq)

lemma strchr_append [simp]: "c \<notin> set a \<Longrightarrow> strchr (a @ c # b) c = Some (a, b)"
  by (induction a) auto

lemma strchr_None_iff [simp]: "strchr s c = None \<longleftrightarrow> c \<notin> set s"
  by (induction s) auto

lemma strchr_SomeD: "strchr s c = Some (a, b) \<Longrightarrow> s = a @ c # b \<and> c \<notin> set a"
  by (induction s arbitrary: a) (auto split: if_splits)

lemma has_sub_iff: "has_sub s n \<longleftrightarrow> (\<exists>a b. s = a @ n @ b)"
proof (induction s)
  case Nil
  then show ?case by (auto simp: has_sub_def)
next
  case (Cons x xs)
  have "has_sub (x # xs) n \<longleftrightarrow> prefix n (x # xs) \<or> has_sub xs n"
    by (simp add: has_sub_def starts_with_iff)
  also have "\<dots> \<longleftrightarrow> (\<exists>a b. x # xs = a @ n @ b)"
    unfolding Cons.IH by (auto simp: prefix_def Cons_eq_append_conv)
  finally show ?case .
qed

lemma split_nl_not_Nil [simp]: "split_nl s \<noteq> []"
  by (induction s) (auto split: list.splits)

lemma split_nl_line [simp]: "chr_nl \<notin> set l \<Longrightarrow> split_nl (l @ chr_nl # s) = l # split_nl s"
  by (induction l) auto

lemma split_nl_free [simp]: "chr_nl \<notin> set l \<Longrightarrow> split_nl l = [l]"
  by (induction l) auto

lemma split_nl_lines: "l \<in> set (split_nl s) \<Longrightarrow> chr_nl \<notin> set l \<and> set l \<subseteq> set s"
proof (induction s arbitrary: l)
  case Nil
  then show ?case by simp
next
  case (Cons c s)
  obtain x xs where sp: "split_nl s = x # xs" by (cases "split_nl s") auto
  have x: "chr_nl \<notin> set x \<and> set x \<subseteq> set s" and xs: "\<And>y. y \<in> set xs \<Longrightarrow> chr_nl \<notin> set y \<and> set y \<subseteq> set s"
    using Cons.IH by (auto simp: sp)
  then show ?case
    using Cons.prems by (fastforce simp: sp split: if_splits)
qed

lemma strtok_nl_Nil [simp]: "strtok_nl [] = []"
  by (simp add: strtok_nl_def)

lemma strtok_nl_lines:
  assumes "l \<in> set (strtok_nl s)"
  shows "l \<noteq> []" and "chr_nl \<notin> set l" and "set l \<subseteq> set s"
  using assms split_nl_lines [of l s] by (auto simp: strtok_nl_def)

lemma strtok_nl_line [simp]:
  "chr_nl \<notin> set l \<Longrightarrow> strtok_nl (l @ chr_nl # s) = (if l = [] then strtok_nl s else l # strtok_nl s)"
  by (simp add: strtok_nl_def)

lemma strtok_nl_render [simp]:
  assumes "\<And>l. l \<in> set ls \<Longrightarrow> l \<noteq> [] \<and> chr_nl \<notin> set l"
  shows "strtok_nl (render_lines ls) = ls"
  using assms by (induction ls) (simp_all add: render_lines_def)

lemma strtok_nl_render_filter:
  assumes "\<And>l. l \<in> set ls \<Longrightarrow> chr_nl \<notin> set l"
  shows "strtok_nl (render_lines ls) = filter (\<lambda>l. l \<noteq> []) ls"
  using assms by (induction ls) (simp_all add: render_lines_def)

lemma length_split_nl_sum: "sum_list (map (\<lambda>l. length l + 1) (split_nl s)) = length s + 1"
  by (induction s) (auto split: list.splits)

lemma length_strtok_nl: "sum_list (map (\<lambda>l. length l + 1) (strtok_nl s)) \<le> length s + 1"
proof -
  have "sum_list (map f (filter P xs)) \<le> sum_list (map f xs)" for f :: "string \<Rightarrow> nat" and P xs
    by (induction xs) auto
  then show ?thesis
    using length_split_nl_sum [of s] unfolding strtok_nl_def by metis
qed

section \<open>Numbers in text\<close>

definition isspace :: "char \<Rightarrow> bool" where
  "isspace c \<longleftrightarrow> c = chr_sp \<or> (9 \<le> (of_char c :: nat) \<and> (of_char c :: nat) \<le> 13)"

definition isdigit :: "char \<Rightarrow> bool" where
  "isdigit c \<longleftrightarrow> 48 \<le> (of_char c :: nat) \<and> (of_char c :: nat) \<le> 57"

definition digit_val :: "char \<Rightarrow> nat" where
  "digit_val c = of_char c - 48"

definition isxdigit :: "char \<Rightarrow> bool" where
  "isxdigit c \<longleftrightarrow> isdigit c \<or> (65 \<le> (of_char c :: nat) \<and> (of_char c :: nat) \<le> 70)
     \<or> (97 \<le> (of_char c :: nat) \<and> (of_char c :: nat) \<le> 102)"

definition xdigit_val :: "char \<Rightarrow> nat" where
  "xdigit_val c = (if isdigit c then of_char c - 48
     else if (of_char c :: nat) \<le> 70 then of_char c - 55 else of_char c - 87)"

text \<open>The value of the leading decimal digits, the number of them and the rest.\<close>

fun scan_digits :: "nat \<Rightarrow> nat \<Rightarrow> string \<Rightarrow> nat \<times> nat \<times> string" where
  "scan_digits acc n [] = (acc, n, [])"
| "scan_digits acc n (c # cs) =
     (if isdigit c then scan_digits (10 * acc + digit_val c) (Suc n) cs else (acc, n, c # cs))"

definition scan_sign :: "string \<Rightarrow> bool \<times> string" where
  "scan_sign s = (case s of
       c # cs \<Rightarrow> if c = CHR ''-'' then (True, cs) else if c = CHR ''+'' then (False, cs) else (False, s)
     | [] \<Rightarrow> (False, []))"

text \<open>
  Sign and magnitude of the number \<^verbatim>\<open>strtol\<close> and its kin read in base 10: leading
  white space, an optional sign, digits; no digits give 0.
\<close>

definition scan_number :: "string \<Rightarrow> bool \<times> nat" where
  "scan_number s = (case scan_sign (dropWhile isspace s) of
     (neg, r) \<Rightarrow> (case scan_digits 0 0 r of (v, _, _) \<Rightarrow> (neg, v)))"

text \<open>
  \<^verbatim>\<open>strtoul(s, NULL, 10)\<close> with a 64-bit \<^verbatim>\<open>unsigned long\<close> (the boards are aarch64):
  the value saturates at \<^verbatim>\<open>ULONG_MAX\<close>; a minus sign negates modulo the width.
\<close>

definition strtoul10 :: "string \<Rightarrow> u64" where
  "strtoul10 s = (case scan_number s of
     (neg, v) \<Rightarrow> if v > 2 ^ 64 - 1 then - 1
                 else if neg then - word_of_nat v else word_of_nat v)"

text \<open>\<^verbatim>\<open>strtol\<close> and \<^verbatim>\<open>strtoll\<close>, saturating at the ends of the 64-bit range.\<close>

definition strtol10 :: "string \<Rightarrow> int" where
  "strtol10 s = (case scan_number s of
     (neg, v) \<Rightarrow> let i = (if neg then - int v else int v)
                 in max (- (2 ^ 63)) (min (2 ^ 63 - 1) i))"

text \<open>The cast of a \<^verbatim>\<open>long\<close> to a 32-bit \<^verbatim>\<open>int\<close>, and \<^verbatim>\<open>atoi\<close>.\<close>

definition to_int32 :: "int \<Rightarrow> int" where
  "to_int32 i = sint (word_of_int i :: u32)"

definition atoi :: "string \<Rightarrow> int" where
  "atoi s = to_int32 (strtol10 s)"

text \<open>
  \<^verbatim>\<open>strtod\<close> and \<^verbatim>\<open>atof\<close> on decimal text: mantissa and power of ten, exact (the
  rounding to a binary double is not modelled).
\<close>

definition scan_exponent :: "string \<Rightarrow> int" where
  "scan_exponent s = (case s of
       c # cs \<Rightarrow> if c = CHR ''e'' \<or> c = CHR ''E'' then
           (case scan_sign cs of (neg, r) \<Rightarrow>
              (case scan_digits 0 0 r of (v, n, _) \<Rightarrow>
                 if n = 0 then 0 else if neg then - int v else int v))
         else 0
     | [] \<Rightarrow> 0)"

definition strtod_dec :: "string \<Rightarrow> int \<times> int" where
  "strtod_dec s = (case scan_sign (dropWhile isspace s) of (neg, r) \<Rightarrow>
     (case scan_digits 0 0 r of (v, n, r1) \<Rightarrow>
       (case (case r1 of
                c # cs \<Rightarrow> if c = CHR ''.'' then scan_digits v 0 cs else (v, 0, r1)
              | [] \<Rightarrow> (v, 0, r1)) of (w, k, r2) \<Rightarrow>
          if n + k = 0 then (0, 0)
          else (if neg then - int w else int w, scan_exponent r2 - int k))))"

text \<open>\<^verbatim>\<open>(int)strtod(s, NULL)\<close>: truncation towards zero, saturating at the 32-bit range.\<close>

definition dec_trunc :: "int \<times> int \<Rightarrow> int" where
  "dec_trunc d = (case d of (m, e) \<Rightarrow>
     if e \<ge> 0 then m * 10 ^ nat e else c_div m (10 ^ nat (- e)))"

definition strtod_int :: "string \<Rightarrow> int" where
  "strtod_int s = max (- (2 ^ 31)) (min (2 ^ 31 - 1) (dec_trunc (strtod_dec s)))"

text \<open>Decimal printing, \<^verbatim>\<open>%d\<close>.\<close>

fun dec_of_nat :: "nat \<Rightarrow> string" where
  "dec_of_nat n = (if n < 10 then [char_of (48 + n)] else dec_of_nat (n div 10) @ [char_of (48 + n mod 10)])"

declare dec_of_nat.simps [simp del]

definition dec_of_int :: "int \<Rightarrow> string" where
  "dec_of_int i = (if i < 0 then CHR ''-'' # dec_of_nat (nat (- i)) else dec_of_nat (nat i))"

lemma isdigit_dec_of_nat: "c \<in> set (dec_of_nat n) \<Longrightarrow> isdigit c"
proof (induction n arbitrary: c rule: dec_of_nat.induct)
  case (1 n)
  have d: "isdigit (char_of (48 + k))" if "k < 10" for k :: nat
    using that by (simp add: isdigit_def of_char_of)
  show ?case
  proof (cases "n < 10")
    case True
    with "1.prems" d show ?thesis by (simp add: dec_of_nat.simps [of n])
  next
    case False
    with "1.prems" have "c \<in> set (dec_of_nat (n div 10)) \<or> c = char_of (48 + n mod 10)"
      by (auto simp: dec_of_nat.simps [of n])
    with "1.IH" [OF False] d [of "n mod 10"] show ?thesis by auto
  qed
qed

lemma dec_of_nat_no_nl: "chr_nl \<notin> set (dec_of_nat n)" and dec_of_nat_no_nul: "chr_nul \<notin> set (dec_of_nat n)"
  by (auto dest!: isdigit_dec_of_nat simp: isdigit_def)

lemma scan_digits_append:
  "(\<And>c. c \<in> set a \<Longrightarrow> isdigit c) \<Longrightarrow>
   scan_digits acc n (a @ b) =
     (case scan_digits acc n a of (v, k, _) \<Rightarrow> scan_digits v k b)"
  by (induction a arbitrary: acc n) auto

text \<open>Printing a number and reading it back.\<close>

lemma scan_digits_dec_of_nat:
  "\<exists>k. scan_digits 0 0 (dec_of_nat n) = (n, Suc k, [])"
proof (induction n rule: dec_of_nat.induct)
  case (1 n)
  have d: "isdigit (char_of (48 + k)) \<and> digit_val (char_of (48 + k)) = k" if "k < 10" for k :: nat
    using that by (simp add: isdigit_def digit_val_def of_char_of)
  show ?case
  proof (cases "n < 10")
    case True
    then show ?thesis using d [of n] by (simp add: dec_of_nat.simps [of n])
  next
    case False
    then obtain k where "scan_digits 0 0 (dec_of_nat (n div 10)) = (n div 10, Suc k, [])"
      using "1.IH" by blast
    with False d [of "n mod 10"] show ?thesis
      by (simp add: dec_of_nat.simps [of n] scan_digits_append isdigit_dec_of_nat)
  qed
qed

section \<open>State-monad programs\<close>

abbreviation ret :: "'a \<Rightarrow> ('s, 'a) state" where
  "ret \<equiv> State_Monad.return"

definition modify :: "('s \<Rightarrow> 's) \<Rightarrow> ('s, unit) state" where
  "modify f = State (\<lambda>s. ((), f s))"

definition gets :: "('s \<Rightarrow> 'a) \<Rightarrow> ('s, 'a) state" where
  "gets f = State (\<lambda>s. (f s, s))"

lemma run_state_modify [simp]: "run_state (modify f) s = ((), f s)"
  by (simp add: modify_def)

lemma run_state_gets [simp]: "run_state (gets f) s = (f s, s)"
  by (simp add: gets_def)

text \<open>
  A counting loop with \<^verbatim>\<open>break\<close>: the body sees the index and stops the loop by
  returning \<open>Some\<close>; at most \<open>k\<close> iterations from index \<open>i\<close>.
\<close>

primrec for_loop :: "nat \<Rightarrow> nat \<Rightarrow> (nat \<Rightarrow> ('s, 'a option) state) \<Rightarrow> ('s, 'a option) state" where
  "for_loop 0 i body = ret None"
| "for_loop (Suc k) i body = do {
     r \<leftarrow> body i;
     case r of Some x \<Rightarrow> ret (Some x) | None \<Rightarrow> for_loop k (Suc i) body }"

lemma for_loop_numeral [simp]:
  "for_loop (numeral n) i body = do {
     r \<leftarrow> body i;
     case r of Some x \<Rightarrow> ret (Some x) | None \<Rightarrow> for_loop (pred_numeral n) (Suc i) body }"
  by (simp add: numeral_eq_Suc)

text \<open>One action per element of a list.\<close>

primrec each :: "('a \<Rightarrow> ('s, unit) state) \<Rightarrow> 'a list \<Rightarrow> ('s, unit) state" where
  "each f [] = ret ()"
| "each f (x # xs) = do { _ \<leftarrow> f x; each f xs }"

text \<open>
  A relation between the state before and the state after that every program
  built from the given steps keeps: it must be reflexive and transitive.
\<close>

locale step_rel =
  fixes R :: "'s \<Rightarrow> 's \<Rightarrow> bool"
  assumes R_refl: "R s s"
    and R_trans: "R s t \<Longrightarrow> R t u \<Longrightarrow> R s u"
begin

lemma keep_ret [io_intros]: "state_io_rel R (ret x)"
  by (simp add: state_io_rel_def R_refl)

lemma keep_gets [io_intros]: "state_io_rel R (gets f)"
  by (auto simp: state_io_rel_def intro: R_refl)

lemma keep_bind [io_intros]:
  assumes "state_io_rel R m" and "\<And>x. state_io_rel R (f x)"
  shows "state_io_rel R (State_Monad.bind m f)"
  unfolding state_io_rel_def
proof
  fix s
  obtain a s' where m: "run_state m s = (a, s')" by (cases "run_state m s")
  from assms(1) m have "R s s'" by (rule state_io_relD)
  moreover have "R s' (snd (run_state (f a) s'))"
    using assms(2) by (simp add: state_io_rel_def)
  ultimately show "R s (snd (run_state (State_Monad.bind m f) s))"
    by (simp add: m) (rule R_trans)
qed

lemma keep_for_loop [io_intros]:
  assumes "\<And>i. state_io_rel R (body i)"
  shows "state_io_rel R (for_loop k i body)"
proof (induction k arbitrary: i)
  case 0
  then show ?case by (simp add: keep_ret)
next
  case (Suc k)
  then show ?case
    by (auto intro!: keep_bind assms keep_ret split: option.split)
qed

lemma keep_each [io_intros]:
  assumes "\<And>x. x \<in> set xs \<Longrightarrow> state_io_rel R (f x)"
  shows "state_io_rel R (each f xs)"
  using assms by (induction xs) (auto intro!: keep_bind keep_ret)

end

text \<open>Branching, for any relation.\<close>

lemma keep_if [io_intros]:
  "(b \<Longrightarrow> state_io_rel R m) \<Longrightarrow> (\<not> b \<Longrightarrow> state_io_rel R n) \<Longrightarrow> state_io_rel R (if b then m else n)"
  by simp

lemma keep_case_option [io_intros]:
  "(x = None \<Longrightarrow> state_io_rel R m) \<Longrightarrow> (\<And>y. x = Some y \<Longrightarrow> state_io_rel R (f y)) \<Longrightarrow>
   state_io_rel R (case x of None \<Rightarrow> m | Some y \<Rightarrow> f y)"
  by (cases x) auto

lemma keep_case_list [io_intros]:
  "(x = [] \<Longrightarrow> state_io_rel R m) \<Longrightarrow> (\<And>y ys. x = y # ys \<Longrightarrow> state_io_rel R (f y ys)) \<Longrightarrow>
   state_io_rel R (case x of [] \<Rightarrow> m | y # ys \<Rightarrow> f y ys)"
  by (cases x) auto

lemma keep_case_prod [io_intros]:
  "(\<And>a b. x = (a, b) \<Longrightarrow> state_io_rel R (f a b)) \<Longrightarrow> state_io_rel R (case x of (a, b) \<Rightarrow> f a b)"
  by (cases x) auto

lemma keep_Let [io_intros]: "state_io_rel R (f x) \<Longrightarrow> state_io_rel R (let y = x in f y)"
  by simp

lemma keep_run: "state_io_rel R m \<Longrightarrow> R s (snd (run_state m s))"
  by (simp add: state_io_rel_def)

end
