(* ===== verification/OsWorld.thy ===== *)
theory OsWorld
  imports CStrings
begin

text \<open>
  The world outside the process, as the WiFi code sees it: files, external commands run by
  \<^verbatim>\<open>system()\<close> and \<^verbatim>\<open>popen()\<close>, sleeping, and the mutex that serialises WiFi switches.

  What the shell, the kernel and the daemons do is not part of the repository: it is the
  parameter \<open>os\<close> of every definition that uses it, a record of functions.  The files are
  concrete, because the code reads back what it wrote: a map from paths to contents that
  the C library calls below read and update and that external commands may change too.
  The state records every system call in the order it was issued, so that statements about
  what a workflow does, and in which order, are statements about \<open>w_events\<close>.
  The small I/O helpers of \<^verbatim>\<open>wifi_switch.c\<close> (lines 60--145) and its atomic file
  replacement (lines 222--244) are defined on top of these calls.
\<close>

section \<open>External behaviour and state\<close>

text \<open>
  How \<^verbatim>\<open>system()\<close> and \<^verbatim>\<open>pclose()\<close> report a command: the call itself failed (-1), the
  command exited with a code (\<^verbatim>\<open>WIFEXITED\<close>), or it was ended by a signal.
\<close>

datatype wait_status = Spawn_failed | Exited int | Not_exited

datatype event =
    Ev_system string
  | Ev_popen string
  | Ev_usleep nat
  | Ev_open_w string
  | Ev_write string string
  | Ev_rename string string
  | Ev_unlink string
  | Ev_mkdir string

type_synonym files = "string \<Rightarrow> string option"

record 'e os =
  os_system :: "string \<Rightarrow> files \<times> 'e \<Rightarrow> wait_status \<times> files \<times> 'e"
  os_popen :: "string \<Rightarrow> files \<times> 'e \<Rightarrow> (string \<times> wait_status) option \<times> files \<times> 'e"
  os_usleep :: "nat \<Rightarrow> files \<times> 'e \<Rightarrow> files \<times> 'e"
  os_open_w :: "string \<Rightarrow> 'e \<Rightarrow> bool"
  os_fwrite :: "string \<Rightarrow> string \<Rightarrow> 'e \<Rightarrow> nat \<times> bool"
  os_rename :: "string \<Rightarrow> string \<Rightarrow> 'e \<Rightarrow> bool"
  os_mkdir :: "string \<Rightarrow> 'e \<Rightarrow> bool"
  os_malloc :: "nat \<Rightarrow> 'e \<Rightarrow> bool"
  os_now :: "'e \<Rightarrow> string"
  os_clk_tck :: "'e \<Rightarrow> int"
  os_geteuid :: "'e \<Rightarrow> nat"

record 'e world =
  w_files :: files
  w_env :: 'e
  w_events :: "event list"
  w_mutex :: bool

type_synonym ('e, 'a) io = "('e world, 'a) state"

section \<open>C library and system calls\<close>

definition emit :: "event \<Rightarrow> 'e world \<Rightarrow> 'e world" where
  "emit ev w = w\<lparr>w_events := w_events w @ [ev]\<rparr>"

definition outside :: "files \<times> 'e \<Rightarrow> 'e world \<Rightarrow> 'e world" where
  "outside x w = w\<lparr>w_files := fst x, w_env := snd x\<rparr>"

definition c_system :: "'e os \<Rightarrow> string \<Rightarrow> ('e, wait_status) io" where
  "c_system os cmd = State (\<lambda>w. case os_system os cmd (w_files w, w_env w) of
     (st, x) \<Rightarrow> (st, emit (Ev_system cmd) (outside x w)))"

definition c_popen :: "'e os \<Rightarrow> string \<Rightarrow> ('e, (string \<times> wait_status) option) io" where
  "c_popen os cmd = State (\<lambda>w. case os_popen os cmd (w_files w, w_env w) of
     (r, x) \<Rightarrow> (r, emit (Ev_popen cmd) (outside x w)))"

definition c_usleep :: "'e os \<Rightarrow> nat \<Rightarrow> ('e, unit) io" where
  "c_usleep os us = modify (\<lambda>w. emit (Ev_usleep us) (outside (os_usleep os us (w_files w, w_env w)) w))"

definition c_sleep :: "'e os \<Rightarrow> nat \<Rightarrow> ('e, unit) io" where
  "c_sleep os n = c_usleep os (n * 1000000)"

text \<open>\<^verbatim>\<open>fopen(path, "r")\<close> followed by one \<^verbatim>\<open>fread\<close> of at most \<open>n\<close> bytes.\<close>

definition c_fread :: "string \<Rightarrow> nat \<Rightarrow> ('e, string option) io" where
  "c_fread path n = gets (\<lambda>w. map_option (take n) (w_files w path))"

text \<open>\<^verbatim>\<open>access(path, F_OK) == 0\<close>\<close>

definition c_exists :: "string \<Rightarrow> ('e, bool) io" where
  "c_exists path = gets (\<lambda>w. w_files w path \<noteq> None)"

text \<open>\<^verbatim>\<open>fopen(path, "w")\<close>: on success the file exists and is empty.\<close>

definition c_fopen_w :: "'e os \<Rightarrow> string \<Rightarrow> ('e, bool) io" where
  "c_fopen_w os path = State (\<lambda>w.
     if os_open_w os path (w_env w)
     then (True, emit (Ev_open_w path) (w\<lparr>w_files := (w_files w)(path \<mapsto> [])\<rparr>))
     else (False, emit (Ev_open_w path) w))"

text \<open>
  \<^verbatim>\<open>fwrite\<close> of the data and \<^verbatim>\<open>fclose\<close>: the number of bytes that reached the file and
  whether closing succeeded.
\<close>

definition c_fwrite_close :: "'e os \<Rightarrow> string \<Rightarrow> string \<Rightarrow> ('e, nat \<times> bool) io" where
  "c_fwrite_close os path data = State (\<lambda>w. case os_fwrite os path data (w_env w) of
     (n, ok) \<Rightarrow> ((min n (length data), ok),
        emit (Ev_write path (take n data)) (w\<lparr>w_files := (w_files w)(path \<mapsto> take n data)\<rparr>)))"

definition c_rename :: "'e os \<Rightarrow> string \<Rightarrow> string \<Rightarrow> ('e, bool) io" where
  "c_rename os a b = State (\<lambda>w.
     if os_rename os a b (w_env w) \<and> w_files w a \<noteq> None
     then (True, emit (Ev_rename a b) (w\<lparr>w_files := ((w_files w)(b := w_files w a))(a := None)\<rparr>))
     else (False, emit (Ev_rename a b) w))"

definition c_unlink :: "string \<Rightarrow> ('e, unit) io" where
  "c_unlink path = modify (\<lambda>w. emit (Ev_unlink path) (w\<lparr>w_files := (w_files w)(path := None)\<rparr>))"

text \<open>\<^verbatim>\<open>mkdir(path, mode) == 0 || errno == EEXIST\<close>; directories are not part of the file map.\<close>

definition c_mkdir :: "'e os \<Rightarrow> string \<Rightarrow> ('e, bool) io" where
  "c_mkdir os path = State (\<lambda>w. (os_mkdir os path (w_env w), emit (Ev_mkdir path) w))"

text \<open>
  \<^verbatim>\<open>pthread_mutex_trylock\<close>, \<^verbatim>\<open>pthread_mutex_lock\<close> and \<^verbatim>\<open>pthread_mutex_unlock\<close> on the
  switch mutex.  The blocking call returns only in a state where the mutex was free, so
  the model takes it there.
\<close>

definition c_trylock :: "('e, bool) io" where
  "c_trylock = State (\<lambda>w. if w_mutex w then (False, w) else (True, w\<lparr>w_mutex := True\<rparr>))"

definition c_lock :: "('e, unit) io" where
  "c_lock = modify (\<lambda>w. w\<lparr>w_mutex := True\<rparr>)"

definition c_unlock :: "('e, unit) io" where
  "c_unlock = modify (\<lambda>w. w\<lparr>w_mutex := False\<rparr>)"

lemmas os_call_defs = c_system_def c_popen_def c_usleep_def c_sleep_def c_fread_def c_exists_def
  c_fopen_w_def c_fwrite_close_def c_rename_def c_unlink_def c_mkdir_def c_trylock_def c_lock_def c_unlock_def

section \<open>The I/O helpers of \<^verbatim>\<open>wifi_switch.c\<close>\<close>

definition write_file :: "'e os \<Rightarrow> string \<Rightarrow> string \<Rightarrow> ('e, int) io" where
  "write_file os path data = do {
     opened \<leftarrow> c_fopen_w os path;
     if \<not> opened then ret (-1)
     else do {
       r \<leftarrow> c_fwrite_close os path data;
       ret (if fst r \<noteq> length data \<or> \<not> snd r then -1 else 0) } }"

text \<open>The buffer as a C string (the code only uses it as one) and the byte count, or -1.\<close>

definition read_file_all :: "string \<Rightarrow> nat \<Rightarrow> ('e, (nat \<times> string) option) io" where
  "read_file_all path buf_sz =
     (if buf_sz = 0 then ret None
      else do {
        r \<leftarrow> c_fread path (buf_sz - 1);
        ret (map_option (\<lambda>s. (length s, cstr s)) r) })"

definition exec_cmd :: "'e os \<Rightarrow> string \<Rightarrow> ('e, int) io" where
  "exec_cmd os cmdline = do {
     rc \<leftarrow> c_system os cmdline;
     ret (case rc of Spawn_failed \<Rightarrow> -1 | Exited status \<Rightarrow> status | Not_exited \<Rightarrow> -1) }"

text \<open>Exit status and captured output, the output as a C string cut to the buffer.\<close>

definition exec_capture :: "'e os \<Rightarrow> string \<Rightarrow> nat \<Rightarrow> ('e, int \<times> string) io" where
  "exec_capture os cmdline buf_sz =
     (if buf_sz = 0 then ret (-1, [])
      else do {
        r \<leftarrow> c_popen os cmdline;
        ret (case r of
               None \<Rightarrow> (-1, [])
             | Some (out, rc) \<Rightarrow>
                 (case rc of Spawn_failed \<Rightarrow> -1 | Exited status \<Rightarrow> status | Not_exited \<Rightarrow> -1,
                  cstr (take (buf_sz - 1) out))) })"

definition atomic_write_file :: "'e os \<Rightarrow> string \<Rightarrow> string \<Rightarrow> ('e, int) io" where
  "atomic_write_file os path data =
     (let tmp = path @ ''.new'' in
      if length tmp \<ge> 512 then ret (-1)
      else do {
        rc \<leftarrow> write_file os tmp data;
        if rc \<noteq> 0 then do { c_unlink tmp; ret (-1) }
        else do {
          ok \<leftarrow> c_rename os tmp path;
          if \<not> ok then do { c_unlink tmp; ret (-1) } else ret 0 } })"

section \<open>A concrete environment\<close>

text \<open>
  An environment in which every call succeeds and a command prints what \<open>out\<close> says; it
  shows that statements about an arbitrary \<open>os\<close> can be instantiated.
\<close>

definition ok_os :: "(string \<Rightarrow> string) \<Rightarrow> unit os" where
  "ok_os out = \<lparr>os_system = (\<lambda>_ x. (Exited 0, x)), os_popen = (\<lambda>c x. (Some (out c, Exited 0), x)),
     os_usleep = (\<lambda>_ x. x), os_open_w = (\<lambda>_ _. True), os_fwrite = (\<lambda>_ d _. (length d, True)),
     os_rename = (\<lambda>_ _ _. True), os_mkdir = (\<lambda>_ _. True), os_malloc = (\<lambda>_ _. True), os_now = (\<lambda>_. ''now''),
     os_clk_tck = (\<lambda>_. 100), os_geteuid = (\<lambda>_. 0)\<rparr>"

definition world0 :: "files \<Rightarrow> unit world" where
  "world0 fs = \<lparr>w_files = fs, w_env = (), w_events = [], w_mutex = False\<rparr>"

lemma ok_os_rename [simp]: "os_rename (ok_os out) a b e"
  by (simp add: ok_os_def)

lemma ok_os_sel [simp]:
  "os_system (ok_os out) c x = (Exited 0, x)" "os_popen (ok_os out) c x = (Some (out c, Exited 0), x)"
  "os_usleep (ok_os out) n x = x" "os_open_w (ok_os out) p e" "os_fwrite (ok_os out) p d e = (length d, True)"
  "os_malloc (ok_os out) n e" "os_now (ok_os out) e = ''now''" "os_clk_tck (ok_os out) e = 100"
  "os_geteuid (ok_os out) e = 0"
  by (simp_all add: ok_os_def)

lemma outside_same [simp]: "outside (w_files w, ()) w = w"
  by (simp add: outside_def)

lemma ok_os_runs [simp]:
  "run_state (exec_cmd (ok_os out) c) w = (0, emit (Ev_system c) w)"
  "run_state (exec_capture (ok_os out) c n) w =
     (if n = 0 then ((-1, []), w) else ((0, cstr (take (n - 1) (out c))), emit (Ev_popen c) w))"
  "run_state (c_usleep (ok_os out) us) w = ((), emit (Ev_usleep us) w)"
  "run_state (c_sleep (ok_os out) k) w = ((), emit (Ev_usleep (k * 1000000)) w)"
  by (simp_all add: exec_cmd_def exec_capture_def c_system_def c_popen_def c_usleep_def c_sleep_def)

lemma ok_os_write_file:
  "run_state (write_file (ok_os out) p d) w =
     (0, w\<lparr>w_files := (w_files w)(p \<mapsto> d), w_events := w_events w @ [Ev_open_w p, Ev_write p d]\<rparr>)"
  by (simp add: write_file_def c_fopen_w_def c_fwrite_close_def ok_os_def emit_def)

lemma ok_os_atomic_write_file:
  "length p + 4 < 512 \<Longrightarrow> run_state (atomic_write_file (ok_os out) p d) w =
     (0, w\<lparr>w_files := ((w_files w)(p \<mapsto> d))(p @ ''.new'' := None),
           w_events := w_events w @ [Ev_open_w (p @ ''.new''), Ev_write (p @ ''.new'') d,
                                     Ev_rename (p @ ''.new'') p]\<rparr>)"
  by (simp add: atomic_write_file_def Let_def ok_os_write_file c_rename_def emit_def fun_upd_twist)

section \<open>What a program may do to the world\<close>

text \<open>Only events that satisfy \<open>P\<close> are added.\<close>

definition emits :: "(event \<Rightarrow> bool) \<Rightarrow> 'e world \<Rightarrow> 'e world \<Rightarrow> bool" where
  "emits P w w' \<longleftrightarrow> (\<exists>es. w_events w' = w_events w @ es \<and> list_all P es)"

text \<open>The mutex is as before.\<close>

definition same_mutex :: "'e world \<Rightarrow> 'e world \<Rightarrow> bool" where
  "same_mutex w w' \<longleftrightarrow> w_mutex w' = w_mutex w"

lemma emitsI: "w_events w' = w_events w @ es \<Longrightarrow> list_all P es \<Longrightarrow> emits P w w'"
  by (auto simp: emits_def)

interpretation emits: step_rel "emits P" for P
proof
  fix s t u :: "'a world"
  show "emits P s s" by (simp add: emits_def)
  show "emits P s u" if "emits P s t" "emits P t u"
    using that by (auto simp: emits_def)
qed

interpretation mutex: step_rel same_mutex
  by unfold_locales (simp_all add: same_mutex_def)

lemma events_emit [simp]: "w_events (emit ev w) = w_events w @ [ev]"
  and files_emit [simp]: "w_files (emit ev w) = w_files w"
  and env_emit [simp]: "w_env (emit ev w) = w_env w"
  and mutex_emit [simp]: "w_mutex (emit ev w) = w_mutex w"
  by (simp_all add: emit_def)

lemma events_outside [simp]: "w_events (outside x w) = w_events w"
  and files_outside [simp]: "w_files (outside x w) = fst x"
  and env_outside [simp]: "w_env (outside x w) = snd x"
  and mutex_outside [simp]: "w_mutex (outside x w) = w_mutex w"
  by (simp_all add: outside_def)

lemma emits_calls [io_intros]:
  "P (Ev_system c) \<Longrightarrow> state_io_rel (emits P) (c_system os c)"
  "P (Ev_popen c) \<Longrightarrow> state_io_rel (emits P) (c_popen os c)"
  "P (Ev_usleep n) \<Longrightarrow> state_io_rel (emits P) (c_usleep os n)"
  "P (Ev_open_w p) \<Longrightarrow> state_io_rel (emits P) (c_fopen_w os p)"
  "(\<And>d. P (Ev_write p d)) \<Longrightarrow> state_io_rel (emits P) (c_fwrite_close os p data)"
  "P (Ev_rename p q) \<Longrightarrow> state_io_rel (emits P) (c_rename os p q)"
  "P (Ev_unlink p) \<Longrightarrow> state_io_rel (emits P) (c_unlink p)"
  "P (Ev_mkdir p) \<Longrightarrow> state_io_rel (emits P) (c_mkdir os p)"
  "state_io_rel (emits P) (c_fread p n)"
  "state_io_rel (emits P) (c_exists p)"
  by (auto simp: state_io_rel_def os_call_defs split: prod.split intro!: emitsI)

lemma emits_locks [io_intros]:
  "state_io_rel (emits P) c_trylock" "state_io_rel (emits P) c_lock" "state_io_rel (emits P) c_unlock"
  by (auto simp: state_io_rel_def os_call_defs intro!: emitsI [where es = "[]"])

lemma emits_sleep [io_intros]:
  "P (Ev_usleep (n * 1000000)) \<Longrightarrow> state_io_rel (emits P) (c_sleep os n)"
  unfolding c_sleep_def by (rule emits_calls)

lemma mutex_calls [io_intros]:
  "state_io_rel same_mutex (c_system os c)"
  "state_io_rel same_mutex (c_popen os c)"
  "state_io_rel same_mutex (c_usleep os n)"
  "state_io_rel same_mutex (c_sleep os n)"
  "state_io_rel same_mutex (c_fopen_w os p)"
  "state_io_rel same_mutex (c_fwrite_close os p data)"
  "state_io_rel same_mutex (c_rename os p q)"
  "state_io_rel same_mutex (c_unlink p)"
  "state_io_rel same_mutex (c_mkdir os p)"
  "state_io_rel same_mutex (c_fread p n)"
  "state_io_rel same_mutex (c_exists p)"
  by (auto simp: state_io_rel_def os_call_defs same_mutex_def split: prod.split)

lemma emits_helpers [io_intros]:
  "P (Ev_system c) \<Longrightarrow> state_io_rel (emits P) (exec_cmd os c)"
  "P (Ev_popen c) \<Longrightarrow> state_io_rel (emits P) (exec_capture os c n)"
  "state_io_rel (emits P) (read_file_all p n)"
  "P (Ev_open_w p) \<Longrightarrow> (\<And>d. P (Ev_write p d)) \<Longrightarrow> state_io_rel (emits P) (write_file os p data)"
  unfolding exec_cmd_def exec_capture_def read_file_all_def write_file_def
  by (intro io_intros; assumption)+

lemma emits_atomic_write_file [io_intros]:
  assumes "P (Ev_open_w (p @ ''.new''))" and "\<And>d. P (Ev_write (p @ ''.new'') d)"
    and "P (Ev_rename (p @ ''.new'') p)" and "P (Ev_unlink (p @ ''.new''))"
  shows "state_io_rel (emits P) (atomic_write_file os p data)"
  unfolding atomic_write_file_def by (intro io_intros assms)

lemma mutex_helpers [io_intros]:
  "state_io_rel same_mutex (exec_cmd os c)"
  "state_io_rel same_mutex (exec_capture os c n)"
  "state_io_rel same_mutex (read_file_all p n)"
  "state_io_rel same_mutex (write_file os p data)"
  "state_io_rel same_mutex (atomic_write_file os p data)"
  unfolding exec_cmd_def exec_capture_def read_file_all_def write_file_def atomic_write_file_def
  by (intro io_intros)+

section \<open>Reading and replacing files\<close>

lemma run_read_file_all:
  "0 < n \<Longrightarrow> run_state (read_file_all p n) w =
     (map_option (\<lambda>s. (length (take (n - 1) s), cstr (take (n - 1) s))) (w_files w p), w)"
  by (simp add: read_file_all_def c_fread_def option.map_comp comp_def)

lemma run_write_file:
  assumes "run_state (write_file os p data) w = (rc, w')"
  shows "rc = 0 \<or> rc = -1"
    and "rc = 0 \<Longrightarrow> w_files w' = (w_files w)(p \<mapsto> data)"
    and "q \<noteq> p \<Longrightarrow> w_files w' q = w_files w q"
  using assms
  by (auto simp: write_file_def os_call_defs split: prod.splits if_splits)

lemma run_atomic_write_file:
  assumes "run_state (atomic_write_file os p data) w = (rc, w')"
  shows "rc = 0 \<or> rc = -1"
    and "rc = 0 \<Longrightarrow> w_files w' = ((w_files w)(p \<mapsto> data))(p @ ''.new'' := None)"
    and "rc \<noteq> 0 \<Longrightarrow> w_files w' p = w_files w p"
    and "q \<noteq> p \<Longrightarrow> q \<noteq> p @ ''.new'' \<Longrightarrow> w_files w' q = w_files w q"
proof -
  let ?t = "p @ ''.new''"
  obtain r1 w1 where w1: "run_state (write_file os ?t data) w = (r1, w1)"
    by (cases "run_state (write_file os ?t data) w")
  note W = run_write_file [OF w1]
  have p: "p \<noteq> ?t" by simp
  show "rc = 0 \<or> rc = -1"
    using assms w1
    by (auto simp: atomic_write_file_def Let_def c_rename_def c_unlink_def split: if_splits)
  show "w_files w' = ((w_files w)(p \<mapsto> data))(?t := None)" if "rc = 0"
    using assms w1 W that
    by (auto simp: atomic_write_file_def Let_def c_rename_def c_unlink_def fun_upd_twist split: if_splits)
  show "w_files w' p = w_files w p" if "rc \<noteq> 0"
    using assms w1 W(3) [OF p] that p
    by (auto simp: atomic_write_file_def Let_def c_rename_def c_unlink_def split: if_splits)
  show "w_files w' q = w_files w q" if "q \<noteq> p" "q \<noteq> ?t"
    using assms w1 W(3) [of q] that
    by (auto simp: atomic_write_file_def Let_def c_rename_def c_unlink_def split: if_splits)
qed

section \<open>Properties of file replacement\<close>

text \<open>
  Property C37.  Replacing a configuration file is all or nothing.  \<^verbatim>\<open>atomic_write_file\<close>
  returns 0 or -1; on 0 the target holds exactly the new data; otherwise the target is as
  before; no other file changes except the temporary one; and on no path is the target
  itself opened or written, only renamed over, so a crash leaves the old or the new
  contents, never a truncated file.
\<close>

theorem atomic_write_file_all_or_nothing:
  assumes "run_state (atomic_write_file os path data) w = (rc, w')"
  shows "(rc = 0 \<and> w_files w' path = Some data \<or> rc = -1 \<and> w_files w' path = w_files w path) \<and>
    (q \<noteq> path \<and> q \<noteq> path @ ''.new'' \<longrightarrow> w_files w' q = w_files w q) \<and>
    emits (\<lambda>e. e \<noteq> Ev_open_w path \<and> (\<forall>d. e \<noteq> Ev_write path d)) w w'"
proof (intro conjI)
  note a = run_atomic_write_file [OF assms]
  show "rc = 0 \<and> w_files w' path = Some data \<or> rc = -1 \<and> w_files w' path = w_files w path"
    using a(1,2,3) by auto
  show "q \<noteq> path \<and> q \<noteq> path @ ''.new'' \<longrightarrow> w_files w' q = w_files w q"
    using a(4) by blast
  have "state_io_rel (emits (\<lambda>e. e \<noteq> Ev_open_w path \<and> (\<forall>d. e \<noteq> Ev_write path d)))
          (atomic_write_file os path data)"
    by (intro io_intros) auto
  from keep_run [OF this, of w] show "emits (\<lambda>e. e \<noteq> Ev_open_w path \<and> (\<forall>d. e \<noteq> Ev_write path d)) w w'"
    by (simp add: assms)
qed

theorem atomic_write_file_all_or_nothing_witness:
  "w_files (snd (run_state (atomic_write_file (ok_os (\<lambda>_. [])) ''/f'' ''new'')
     (world0 [''/f'' \<mapsto> ''old'', ''/g'' \<mapsto> ''x'']))) ''/g'' = Some ''x''"
proof -
  let ?m = "atomic_write_file (ok_os (\<lambda>_. [])) ''/f'' ''new''"
  let ?w = "world0 [''/f'' \<mapsto> ''old'', ''/g'' \<mapsto> ''x'']"
  have "run_state ?m ?w = (fst (run_state ?m ?w), snd (run_state ?m ?w))" by simp
  from atomic_write_file_all_or_nothing [OF this, of "''/g''"] show ?thesis
    by (simp add: world0_def)
qed

end
