(* ===== verification/SlotLog.thy ===== *)
theory SlotLog
  imports OsWorld
begin

text \<open>
  The rotated log files: the logger of \<^verbatim>\<open>log.c\<close>, the kernel log of \<^verbatim>\<open>uart_log.c\<close> and the slot
  handling that \<^verbatim>\<open>sys_stat.c\<close> shares with them, and the directory helper of \<^verbatim>\<open>platform.h\<close>.
  The three copies of the slot code keep one contract, the locale \<open>slot_store\<close>; its lemmas
  show that consecutive boots go through all slots in turn.  The other lemmas bound what the
  loggers can write to one slot.
\<close>

section \<open>Directories\<close>

text \<open>The paths given to \<^verbatim>\<open>mkdir\<close>, in order: every prefix that ends before a slash, then the path.\<close>

definition mkdir_paths :: "string \<Rightarrow> string list" where
  "mkdir_paths path = map (\<lambda>i. take i path) (filter (\<lambda>i. path ! i = CHR ''/'') [1..<length path]) @ [path]"

fun mkdir_all :: "'e os \<Rightarrow> string list \<Rightarrow> ('e, int) io" where
  "mkdir_all os [] = ret 0"
| "mkdir_all os (p # ps) = do { ok \<leftarrow> c_mkdir os p; if \<not> ok then ret (-1) else mkdir_all os ps }"

definition system_service_mkdir_p :: "'e os \<Rightarrow> string \<Rightarrow> ('e, int) io" where
  "system_service_mkdir_p os path =
     (if path = [] then ret (-1)
      else if length path \<ge> 512 then ret (-1)
      else mkdir_all os (mkdir_paths path))"

section \<open>The slot index\<close>

text \<open>
  The two functions are repeated in each of the three files; they differ in the path and the
  number of slots, which are parameters here and fixed below.
\<close>

text \<open>\<^verbatim>\<open>fscanf(f, "%d", &idx)\<close>: the number, or \<open>None\<close> when there are no digits.\<close>

definition scanf_d :: "string \<Rightarrow> int option" where
  "scanf_d s = (case scan_sign (dropWhile isspace s) of (neg, r) \<Rightarrow>
     (case scan_digits 0 0 r of (v, n, _) \<Rightarrow>
        if n = 0 then None else Some (to_int32 (if neg then - int v else int v))))"

definition read_index :: "string \<Rightarrow> int \<Rightarrow> ('e, int) io" where
  "read_index index_file max_slots = gets (\<lambda>w.
     let idx = (case w_files w index_file of
                  None \<Rightarrow> 0
                | Some s \<Rightarrow> (case scanf_d s of None \<Rightarrow> 0 | Some i \<Rightarrow> i))
     in if idx < 0 \<or> idx > max_slots then 0 else idx)"

definition write_index :: "'e os \<Rightarrow> string \<Rightarrow> int \<Rightarrow> ('e, unit) io" where
  "write_index os index_file idx = do {
     f \<leftarrow> c_fopen_w os (index_file @ ''.tmp'');
     if \<not> f then ret ()
     else do {
       _ \<leftarrow> c_fwrite_close os (index_file @ ''.tmp'') (dec_of_int idx @ [chr_nl]);
       _ \<leftarrow> c_rename os (index_file @ ''.tmp'') index_file;
       ret () } }"

definition LOG_INDEX_FILE :: string where "LOG_INDEX_FILE = ''/blackbox/system/now_index''"
definition LOG_MAX_SLOTS :: int where "LOG_MAX_SLOTS = 10"
definition UART_INDEX_FILE :: string where "UART_INDEX_FILE = ''/blackbox/uart_log/index_now''"
definition UART_MAX_SLOTS :: int where "UART_MAX_SLOTS = 20"
definition STAT_INDEX_FILE :: string where "STAT_INDEX_FILE = ''/blackbox/sys_stat/index_now''"
definition STAT_MAX_SLOTS :: int where "STAT_MAX_SLOTS = 20"

definition log_slot_path :: "int \<Rightarrow> string" where
  "log_slot_path slot = snprintf_s 128 (''/blackbox/system/system.log.'' @ dec_of_int slot)"
definition uart_slot_path :: "int \<Rightarrow> string" where
  "uart_slot_path slot = snprintf_s 128 (''/blackbox/uart_log/log.'' @ dec_of_int slot)"
definition stat_slot_path :: "int \<Rightarrow> string" where
  "stat_slot_path slot = snprintf_s 128 (''/blackbox/sys_stat/stat.'' @ dec_of_int slot)"

definition log_read_index :: "('e, int) io" where "log_read_index = read_index LOG_INDEX_FILE LOG_MAX_SLOTS"
definition uart_read_index :: "('e, int) io" where "uart_read_index = read_index UART_INDEX_FILE UART_MAX_SLOTS"
definition stat_read_index :: "('e, int) io" where "stat_read_index = read_index STAT_INDEX_FILE STAT_MAX_SLOTS"

definition log_write_index :: "'e os \<Rightarrow> int \<Rightarrow> ('e, unit) io" where
  "log_write_index os = write_index os LOG_INDEX_FILE"
definition uart_write_index :: "'e os \<Rightarrow> int \<Rightarrow> ('e, unit) io" where
  "uart_write_index os = write_index os UART_INDEX_FILE"
definition stat_write_index :: "'e os \<Rightarrow> int \<Rightarrow> ('e, unit) io" where
  "stat_write_index os = write_index os STAT_INDEX_FILE"

lemmas index_defs = log_read_index_def uart_read_index_def stat_read_index_def
  log_write_index_def uart_write_index_def stat_write_index_def

lemmas slot_consts = LOG_INDEX_FILE_def LOG_MAX_SLOTS_def UART_INDEX_FILE_def UART_MAX_SLOTS_def
  STAT_INDEX_FILE_def STAT_MAX_SLOTS_def

text \<open>The slot choice of \<^verbatim>\<open>log_init\<close>; the other two lack the last test, which never applies.\<close>

definition next_slot :: "int \<Rightarrow> int \<Rightarrow> int" where
  "next_slot max_slots prev =
     (let slot = prev + 1;
          slot = (if slot > max_slots then 1 else slot)
      in if slot < 1 then 1 else slot)"

definition next_slot_plain :: "int \<Rightarrow> int \<Rightarrow> int" where
  "next_slot_plain max_slots prev = (let slot = prev + 1 in if slot > max_slots then 1 else slot)"

section \<open>The logger\<close>

datatype log_level = LOG_LEVEL_E | LOG_LEVEL_W | LOG_LEVEL_I | LOG_LEVEL_D

fun level_num :: "log_level \<Rightarrow> nat" where
  "level_num LOG_LEVEL_E = 0"
| "level_num LOG_LEVEL_W = 1"
| "level_num LOG_LEVEL_I = 2"
| "level_num LOG_LEVEL_D = 3"

fun level_char :: "log_level \<Rightarrow> char" where
  "level_char LOG_LEVEL_E = CHR ''E''"
| "level_char LOG_LEVEL_W = CHR ''W''"
| "level_char LOG_LEVEL_I = CHR ''I''"
| "level_char LOG_LEVEL_D = CHR ''D''"

datatype log_out = Out_none | Out_stderr | Out_file string

record logger =
  g_min_level :: log_level
  g_out :: log_out
  g_to_file :: bool
  g_slot :: int
  g_written :: u64
  g_full :: bool

definition logger_start :: logger where
  "logger_start = \<lparr>g_min_level = LOG_LEVEL_I, g_out = Out_none, g_to_file = False, g_slot = 0, g_written = 0, g_full = False\<rparr>"

definition log_set_level :: "log_level \<Rightarrow> logger \<Rightarrow> logger" where
  "log_set_level level g = g\<lparr>g_min_level := level\<rparr>"

definition log_get_level :: "logger \<Rightarrow> log_level" where
  "log_get_level g = g_min_level g"

definition PER_SLOT_CAP :: u64 where "PER_SLOT_CAP = 10 * 1024 * 1024"

definition boot_header :: "int \<Rightarrow> string \<Rightarrow> string" where
  "boot_header slot tbuf = ''==== system_service boot slot='' @ dec_of_int slot @ '' time='' @ tbuf @
     '' cap='' @ dec_of_nat (unat (PER_SLOT_CAP div (1024 * 1024))) @ '' MiB ===='' @ [chr_nl]"

definition log_init :: "'e os \<Rightarrow> bool \<Rightarrow> logger \<Rightarrow> ('e, int \<times> logger) io" where
  "log_init os debug g =
     (if g_out g \<noteq> Out_none then ret (0, g)
      else if debug then ret (0, g\<lparr>g_out := Out_stderr, g_to_file := False, g_min_level := LOG_LEVEL_D\<rparr>)
      else do {
        _ \<leftarrow> system_service_mkdir_p os ''/blackbox/system'';
        prev \<leftarrow> log_read_index;
        (let slot = next_slot LOG_MAX_SLOTS prev;
             path = log_slot_path slot in do {
           _ \<leftarrow> c_unlink path;
           f \<leftarrow> c_fopen_w os path;
           if \<not> f then ret (-1, g\<lparr>g_out := Out_stderr, g_to_file := False\<rparr>)
           else do {
             _ \<leftarrow> log_write_index os slot;
             tbuf \<leftarrow> gets (\<lambda>w. os_now os (w_env w));
             _ \<leftarrow> c_fwrite_close os path (boot_header slot tbuf);
             ret (0, g\<lparr>g_out := Out_file path, g_to_file := True, g_slot := slot, g_written := 0, g_full := False\<rparr>) } }) })"

definition log_shutdown :: "logger \<Rightarrow> logger" where
  "log_shutdown g = g\<lparr>g_out := Out_none, g_to_file := False, g_slot := 0, g_written := 0, g_full := False\<rparr>"

text \<open>
  The line built in \<^verbatim>\<open>line[1280]\<close>: \<open>ts\<close> is the time of day as printed, \<open>msg\<close> the formatted
  message; both \<^verbatim>\<open>snprintf\<close> calls cut at the buffer, and the count is clamped after each.
\<close>

definition log_prefix :: "string \<Rightarrow> log_level \<Rightarrow> string \<Rightarrow> string" where
  "log_prefix ts level module = ''['' @ ts @ ''] ['' @ [level_char level] @ ''] ['' @ module @ ''] ''"

definition log_line :: "string \<Rightarrow> string \<Rightarrow> string" where
  "log_line pre msg =
     (let n0 = (if length pre \<ge> 1280 then 1279 else length pre);
          buf = take n0 pre @ take (1280 - n0 - 1) msg;
          n1 = n0 + length msg;
          n = (if n1 \<ge> 1279 then 1278 else n1)
      in take n buf @ [chr_nl])"

definition full_marker :: string where
  "full_marker = ''==== log slot full '' @ [CHR 0xE2, CHR 0x80, CHR 0x94] @
     '' further messages dropped until next boot ===='' @ [chr_nl]"

text \<open>What is put on the stream, and the new state; a missing module or format is \<open>None\<close>.\<close>

definition log_print ::
  "string \<Rightarrow> log_level \<Rightarrow> string option \<Rightarrow> string option \<Rightarrow> logger \<Rightarrow> string \<times> logger" where
  "log_print ts level module msg g =
     (if level_num level > level_num (g_min_level g) then ([], g)
      else
        let line = log_line (log_prefix ts level (case module of Some m \<Rightarrow> m | None \<Rightarrow> ''?''))
                     (case msg of Some m \<Rightarrow> m | None \<Rightarrow> []) in
        if g_to_file g \<and> g_full g then ([], g)
        else if g_to_file g then
          let written = g_written g + word_of_nat (length line) in
          if \<not> g_full g \<and> written \<ge> PER_SLOT_CAP
          then (line @ full_marker, g\<lparr>g_written := written, g_full := True\<rparr>)
          else (line, g\<lparr>g_written := written\<rparr>)
        else (line, g))"

section \<open>The kernel log\<close>

definition UART_SIZE_CAP :: u64 where "UART_SIZE_CAP = 50 * 1024 * 1024"

datatype kmsg_read = Kmsg_data string | Kmsg_none | Kmsg_epipe | Kmsg_eintr | Kmsg_error

text \<open>
  The inner loop: outcomes of \<^verbatim>\<open>write\<close> are a byte count, an interruption or an error; when
  the list is used up everything is written.
\<close>

datatype uart_write = Uw_bytes nat | Uw_eintr | Uw_error

fun uart_write_loop :: "uart_write list \<Rightarrow> string \<Rightarrow> string \<times> uart_write list" where
  "uart_write_loop rs [] = ([], rs)"
| "uart_write_loop [] buf = (buf, [])"
| "uart_write_loop (Uw_eintr # rs) buf = uart_write_loop rs buf"
| "uart_write_loop (Uw_error # rs) buf = ([], rs)"
| "uart_write_loop (Uw_bytes n # rs) buf =
     (case uart_write_loop rs (drop n buf) of (d, r) \<Rightarrow> (take n buf @ d, r))"

text \<open>\<open>u_file\<close> is what the loop has added to the slot file.\<close>

record uart =
  u_written :: u64
  u_file :: string
  u_writes :: "uart_write list"

text \<open>One pass of the read loop; the flag says whether the loop goes on.\<close>

definition uart_log_step :: "kmsg_read \<Rightarrow> uart \<Rightarrow> uart \<times> bool" where
  "uart_log_step rd u = (case rd of
     Kmsg_data d \<Rightarrow>
       (let buf = take 8192 d in
        if buf = [] then (u, True)
        else if u_written u \<ge> UART_SIZE_CAP then (u, True)
        else (case uart_write_loop (u_writes u) buf of (w, rs) \<Rightarrow>
                (\<lparr>u_written = u_written u + word_of_nat (length w), u_file = u_file u @ w, u_writes = rs\<rparr>, True)))
   | Kmsg_none \<Rightarrow> (u, True)
   | Kmsg_epipe \<Rightarrow> (u, True)
   | Kmsg_eintr \<Rightarrow> (u, True)
   | Kmsg_error \<Rightarrow> (u, False))"

fun uart_log_loop :: "kmsg_read list \<Rightarrow> uart \<Rightarrow> uart" where
  "uart_log_loop [] u = u"
| "uart_log_loop (r # rs) u = (case uart_log_step r u of (u', go) \<Rightarrow> if go then uart_log_loop rs u' else u')"

text \<open>
  The thread up to its loop, on the RK3566 board: the slot file is created and announced;
  \<open>None\<close> where the thread ends, else the slot.  \<open>now\<close> and \<open>ctime\<close> are the two forms of the
  time in the banner, \<open>kmsg_ok\<close> the outcome of opening \<^verbatim>\<open>/dev/kmsg\<close>.
\<close>

definition uart_banner :: "int \<Rightarrow> string \<Rightarrow> string \<Rightarrow> string option" where
  "uart_banner slot now ctime =
     (let s = ''==== uart_log slot='' @ dec_of_int slot @ '' boot_time='' @ now @ '' ('' @ ctime; n = length s in
      if 0 < n \<and> n < 250 then Some (take (n - 1) s @ '') ===='' @ [chr_nl]) else None)"

definition uart_log_open :: "'e os \<Rightarrow> string \<Rightarrow> string \<Rightarrow> bool \<Rightarrow> ('e, int option) io" where
  "uart_log_open os now ctime kmsg_ok = do {
     _ \<leftarrow> system_service_mkdir_p os ''/blackbox/uart_log'';
     prev \<leftarrow> uart_read_index;
     (let slot = next_slot_plain UART_MAX_SLOTS prev;
          path = uart_slot_path slot in do {
        _ \<leftarrow> c_unlink path;
        f \<leftarrow> c_fopen_w os path;
        if \<not> f then ret None
        else do {
          _ \<leftarrow> uart_write_index os slot;
          _ \<leftarrow> (case uart_banner slot now ctime of
                  Some b \<Rightarrow> c_fwrite_close os path b
                | None \<Rightarrow> ret (0, True));
          ret (if kmsg_ok then Some slot else None) } }) }"

text \<open>The whole start of \<^verbatim>\<open>uart_log_thread\<close>: on the A733 board it ends without root, before the slot is taken.\<close>

definition uart_log_start :: "bool \<Rightarrow> 'e os \<Rightarrow> string \<Rightarrow> string \<Rightarrow> bool \<Rightarrow> ('e, int option) io" where
  "uart_log_start is_a733 os now ctime kmsg_ok = do {
     euid \<leftarrow> gets (\<lambda>w. os_geteuid os (w_env w));
     (if is_a733 \<and> euid \<noteq> 0 then do { _ \<leftarrow> system_service_mkdir_p os ''/blackbox/uart_log''; ret None }
      else uart_log_open os now ctime kmsg_ok) }"

section \<open>The slot file of the sampler\<close>

text \<open>The start of \<^verbatim>\<open>sys_stat_thread\<close>: \<open>None\<close> where the thread ends, else the slot.\<close>

definition sys_stat_open :: "'e os \<Rightarrow> ('e, int option) io" where
  "sys_stat_open os = do {
     _ \<leftarrow> system_service_mkdir_p os ''/blackbox/sys_stat'';
     prev \<leftarrow> stat_read_index;
     (let slot = next_slot_plain STAT_MAX_SLOTS prev;
          path = stat_slot_path slot in do {
        _ \<leftarrow> c_unlink path;
        f \<leftarrow> c_fopen_w os path;
        if \<not> f then ret None
        else do { _ \<leftarrow> stat_write_index os slot; ret (Some slot) } }) }"

section \<open>Reading the index back\<close>

text \<open>An environment in which opening, writing and renaming files succeeds.\<close>

definition reliable :: "'e os \<Rightarrow> bool" where
  "reliable os \<longleftrightarrow> (\<forall>p e. os_open_w os p e) \<and> (\<forall>p d e. os_fwrite os p d e = (length d, True)) \<and>
     (\<forall>a b e. os_rename os a b e)"

lemma next_slot_mod:
  "0 \<le> prev \<Longrightarrow> prev \<le> N \<Longrightarrow> 1 \<le> N \<Longrightarrow> next_slot N prev = prev mod N + 1"
  "0 \<le> prev \<Longrightarrow> prev \<le> N \<Longrightarrow> 1 \<le> N \<Longrightarrow> next_slot_plain N prev = prev mod N + 1"
  by (cases "prev = N"; simp add: next_slot_def next_slot_plain_def Let_def)+

lemma dec_of_nat_not_Nil [simp]: "dec_of_nat n \<noteq> []"
  by (subst dec_of_nat.simps) simp

lemma scanf_d_dec_of_int:
  assumes "0 \<le> i" and "i < 2 ^ 31"
  shows "scanf_d (dec_of_int i @ [chr_nl]) = Some i"
proof -
  let ?d = "dec_of_nat (nat i)"
  obtain c cs where d: "?d = c # cs" by (cases ?d) simp_all
  then have "isdigit c" using isdigit_dec_of_nat [of c "nat i"] by simp
  then have c: "\<not> isspace c" "c \<noteq> CHR ''-''" "c \<noteq> CHR ''+''" by (auto simp: isspace_def isdigit_def)
  have sign: "scan_sign (dropWhile isspace (?d @ [chr_nl])) = (False, ?d @ [chr_nl])"
    using c by (simp add: d scan_sign_def)
  obtain k where k: "scan_digits 0 0 ?d = (nat i, Suc k, [])" using scan_digits_dec_of_nat by blast
  have "scan_digits 0 0 (?d @ [chr_nl]) = (nat i, Suc k, [chr_nl])"
    using k isdigit_dec_of_nat by (simp add: scan_digits_append isdigit_def)
  moreover have "to_int32 i = i"
    using assms by (simp add: to_int32_def sint_sbintrunc' signed_take_bit_int_eq_self)
  ultimately show ?thesis
    using assms sign by (simp add: scanf_d_def dec_of_int_def)
qed

definition index_of :: "string \<Rightarrow> int \<Rightarrow> 'e world \<Rightarrow> int" where
  "index_of f N w = fst (run_state (read_index f N) w)"

lemma run_read_index: "run_state (read_index f N) w = (index_of f N w, w)"
  by (simp add: index_of_def read_index_def)

lemma index_of_range: "0 \<le> N \<Longrightarrow> 0 \<le> index_of f N w \<and> index_of f N w \<le> N"
  by (simp add: index_of_def read_index_def Let_def)

lemma run_write_index:
  assumes "reliable os"
  shows "\<exists>w'. run_state (write_index os f i) w = ((), w') \<and> w_env w' = w_env w \<and>
    w_files w' = ((w_files w)(f \<mapsto> dec_of_int i @ [chr_nl]))(f @ ''.tmp'' := None)"
  using assms
  by (auto simp: write_index_def c_fopen_w_def c_fwrite_close_def c_rename_def reliable_def fun_upd_twist)

lemma index_of_written:
  assumes "w_files w f = Some (dec_of_int i @ [chr_nl])" and "0 \<le> i" "i \<le> N" "N < 2 ^ 31"
  shows "index_of f N w = i"
proof -
  have "scanf_d (dec_of_int i @ [chr_nl]) = Some i" using assms by (intro scanf_d_dec_of_int) simp_all
  with assms show ?thesis by (simp add: index_of_def read_index_def)
qed

text \<open>Creating directories leaves the files alone.\<close>

lemma run_mkdir_all: "\<exists>r w'. run_state (mkdir_all os ps) w = (r, w') \<and> w_files w' = w_files w \<and> w_env w' = w_env w"
proof (induction ps arbitrary: w)
  case (Cons p ps)
  from Cons.IH [of "emit (Ev_mkdir p) w"] show ?case by (auto simp: c_mkdir_def)
qed simp

lemma run_mkdir_p:
  "\<exists>r w'. run_state (system_service_mkdir_p os path) w = (r, w') \<and> w_files w' = w_files w \<and> w_env w' = w_env w"
  using run_mkdir_all by (auto simp: system_service_mkdir_p_def)

section \<open>The contract of the slot code\<close>

text \<open>
  A boot of one of the three users, as the slot it chose, and a run of boots with what the
  service does to the world in between.
\<close>

definition log_boot :: "'e os \<Rightarrow> ('e, int option) io" where
  "log_boot os = do { r \<leftarrow> log_init os False logger_start; ret (if fst r = 0 then Some (g_slot (snd r)) else None) }"

primrec boots :: "('e, 'a) io \<Rightarrow> ('e world \<Rightarrow> 'e world) \<Rightarrow> nat \<Rightarrow> ('e, 'a list) io" where
  "boots b life 0 = ret []"
| "boots b life (Suc k) = do { x \<leftarrow> b; _ \<leftarrow> modify life; xs \<leftarrow> boots b life k; ret (x # xs) }"

text \<open>Between boots a logger writes to its current slot only and leaves the index alone.\<close>

definition own_slot_only :: "('e world \<Rightarrow> int) \<Rightarrow> (int \<Rightarrow> string) \<Rightarrow> ('e world \<Rightarrow> 'e world) \<Rightarrow> bool" where
  "own_slot_only index slot_path life \<longleftrightarrow>
     (\<forall>w. index (life w) = index w \<and> (\<forall>s. s \<noteq> index w \<longrightarrow> w_files (life w) (slot_path s) = w_files w (slot_path s)))"

locale slot_store =
  fixes index :: "'e world \<Rightarrow> int" and slot_path :: "int \<Rightarrow> string"
    and boot :: "'e os \<Rightarrow> ('e, int option) io" and N :: int
  assumes slots: "1 \<le> N"
    and index_range: "0 \<le> index w \<and> index w \<le> N"
    and boot_slot: "reliable os \<Longrightarrow> fst (run_state (boot os) w) = Some (index w mod N + 1)"
    and boot_index: "reliable os \<Longrightarrow> index (snd (run_state (boot os) w)) = index w mod N + 1"
    and boot_frame: "reliable os \<Longrightarrow> 1 \<le> s \<Longrightarrow> s \<le> N \<Longrightarrow> s \<noteq> index w mod N + 1 \<Longrightarrow>
      w_files (snd (run_state (boot os) w)) (slot_path s) = w_files w (slot_path s)"
begin

lemma boots_run:
  assumes "reliable os" and "own_slot_only index slot_path life"
  shows "\<exists>w'. run_state (boots (boot os) life k) w =
      (map (\<lambda>j. Some ((index w + int j) mod N + 1)) [0..<k], w') \<and>
    (\<forall>s. 1 \<le> s \<longrightarrow> s \<le> N \<longrightarrow> (\<forall>j < k. s \<noteq> (index w + int j) mod N + 1) \<longrightarrow>
       w_files w' (slot_path s) = w_files w (slot_path s))"
proof (induction k arbitrary: w)
  case (Suc k)
  define w1 where "w1 = snd (run_state (boot os) w)"
  have b: "run_state (boot os) w = (Some (index w mod N + 1), w1)"
    using boot_slot [OF assms(1)] by (simp add: w1_def prod_eq_iff)
  have i1: "index w1 = index w mod N + 1" and i2: "index (life w1) = index w mod N + 1"
    using boot_index [OF assms(1)] assms(2) by (simp_all add: w1_def own_slot_only_def)
  have shift: "(index (life w1) + int j) mod N = (index w + int (Suc j)) mod N" for j
    unfolding i2 using mod_add_left_eq [of "index w" N "1 + int j"] by (simp add: ac_simps)
  from Suc.IH [of "life w1"] obtain w' where r:
    "run_state (boots (boot os) life k) (life w1) =
       (map (\<lambda>j. Some ((index w + int (Suc j)) mod N + 1)) [0..<k], w')" and
    f: "\<And>s. 1 \<le> s \<Longrightarrow> s \<le> N \<Longrightarrow> (\<forall>j < k. s \<noteq> (index w + int (Suc j)) mod N + 1) \<Longrightarrow>
       w_files w' (slot_path s) = w_files (life w1) (slot_path s)"
    unfolding shift by blast
  have "w_files w' (slot_path s) = w_files w (slot_path s)"
    if s: "1 \<le> s" "s \<le> N" "\<forall>j < Suc k. s \<noteq> (index w + int j) mod N + 1" for s
  proof -
    have n0: "s \<noteq> index w mod N + 1" using s(3) by (auto dest: spec [of _ 0])
    have "w_files w' (slot_path s) = w_files (life w1) (slot_path s)" using s by (intro f) auto
    also have "\<dots> = w_files w1 (slot_path s)" using assms(2) n0 i1 by (simp add: own_slot_only_def)
    also have "\<dots> = w_files w (slot_path s)" using boot_frame [OF assms(1) s(1,2) n0] by (simp add: w1_def)
    finally show ?thesis .
  qed
  then show ?case
    by (auto simp: b r upt_conv_Cons map_Suc_upt [symmetric] simp del: upt_Suc)
qed simp

lemma slots_distinct:
  assumes "int k \<le> N"
  shows "distinct (map (\<lambda>j. Some ((i + int j) mod N + 1)) [0..<k])"
proof -
  have "a = b" if "(i + int a) mod N = (i + int b) mod N" "a < k" "b < k" for a b
  proof -
    from that(1) have "N dvd int a - int b" by (simp add: mod_eq_dvd_iff)
    then show "a = b" using that(2,3) assms slots zdvd_imp_le [of N "int a - int b"] zdvd_imp_le [of N "int b - int a"]
      by (cases a b rule: linorder_cases) (auto simp: dvd_diff_commute)
  qed
  then show ?thesis by (auto simp: distinct_map inj_on_def)
qed

lemma current_slot_survives:
  assumes "reliable os" and "own_slot_only index slot_path life" and "int k < N" and "1 \<le> index w"
  shows "w_files (snd (run_state (boots (boot os) life k) w)) (slot_path (index w)) = w_files w (slot_path (index w))"
proof -
  have "index w \<noteq> (index w + int j) mod N + 1" if "j < k" for j
  proof
    assume "index w = (index w + int j) mod N + 1"
    then have "(index w + int j) mod N = index w - 1" by simp
    then have "N dvd int j + 1" using mod_eq_dvd_iff [of "index w + int j" N "index w - 1"] index_range [of w] assms(4)
      by simp
    then show False using that assms(3) zdvd_imp_le [of N "int j + 1"] by simp
  qed
  with boots_run [OF assms(1,2), of k w] index_range [of w] assms(4) show ?thesis by auto
qed

end

section \<open>The three users keep the contract\<close>

lemma length_dec_of_nat_1: "m < 10 \<Longrightarrow> length (dec_of_nat m) = 1"
  by (simp add: dec_of_nat.simps [of m])

lemma length_dec_of_nat_2:
  assumes "n < 100"
  shows "length (dec_of_nat n) \<le> 2"
proof -
  have "n div 10 < 10" using assms less_mult_imp_div_less [of n 10 10] by linarith
  then have "length (dec_of_nat (n div 10)) = 1" by (rule length_dec_of_nat_1)
  then show ?thesis by (cases "n < 10") (simp_all add: dec_of_nat.simps [of n])
qed

lemma length_dec_of_slot: "0 \<le> i \<Longrightarrow> i \<le> 20 \<Longrightarrow> length (dec_of_int i) \<le> 2"
  by (simp add: dec_of_int_def length_dec_of_nat_2)

lemma dec_of_int_inj:
  assumes "0 \<le> i" "i \<le> 20" "0 \<le> j" "j \<le> 20" "dec_of_int i = dec_of_int j"
  shows "i = j"
proof -
  have "i < 2 ^ 31" "j < 2 ^ 31" using assms(2,4) by simp_all
  then have "Some i = scanf_d (dec_of_int j @ [chr_nl])" "Some j = scanf_d (dec_of_int j @ [chr_nl])"
    using scanf_d_dec_of_int [OF assms(1)] scanf_d_dec_of_int [OF assms(3)] assms(5) by (metis, metis)
  then have "Some i = Some j" by (simp only:)
  then show ?thesis by simp
qed

lemma slot_path_simps:
  assumes "0 \<le> i" "i \<le> 20"
  shows "log_slot_path i = ''/blackbox/system/system.log.'' @ dec_of_int i"
    and "uart_slot_path i = ''/blackbox/uart_log/log.'' @ dec_of_int i"
    and "stat_slot_path i = ''/blackbox/sys_stat/stat.'' @ dec_of_int i"
  using length_dec_of_slot [OF assms] by (simp_all add: log_slot_path_def uart_slot_path_def stat_slot_path_def)

lemma slot_path_inj:
  assumes "0 \<le> i" "i \<le> 20" "0 \<le> j" "j \<le> 20"
  shows "log_slot_path i = log_slot_path j \<longleftrightarrow> i = j"
    and "uart_slot_path i = uart_slot_path j \<longleftrightarrow> i = j"
    and "stat_slot_path i = stat_slot_path j \<longleftrightarrow> i = j"
  using assms dec_of_int_inj [OF assms] by (auto simp: slot_path_simps)

lemma slot_path_not_index:
  assumes "0 \<le> i" "i \<le> 20"
  shows "log_slot_path i \<noteq> LOG_INDEX_FILE" "log_slot_path i \<noteq> LOG_INDEX_FILE @ ''.tmp''"
    "uart_slot_path i \<noteq> UART_INDEX_FILE" "uart_slot_path i \<noteq> UART_INDEX_FILE @ ''.tmp''"
    "stat_slot_path i \<noteq> STAT_INDEX_FILE" "stat_slot_path i \<noteq> STAT_INDEX_FILE @ ''.tmp''"
  using assms by (simp_all add: slot_path_simps slot_consts)

text \<open>What each start does to the files when the file calls succeed.\<close>

lemma reliable_calls:
  assumes "reliable os"
  shows "run_state (c_fopen_w os p) w = (True, emit (Ev_open_w p) (w\<lparr>w_files := (w_files w)(p \<mapsto> [])\<rparr>))"
    and "run_state (c_fwrite_close os p d) w =
      ((length d, True), emit (Ev_write p d) (w\<lparr>w_files := (w_files w)(p \<mapsto> d)\<rparr>))"
  using assms by (simp_all add: reliable_def c_fopen_w_def c_fwrite_close_def)

lemma slot_counts [simp]: "1 \<le> LOG_MAX_SLOTS" "1 \<le> UART_MAX_SLOTS" "1 \<le> STAT_MAX_SLOTS"
  by (simp_all add: slot_consts)

definition turn :: "string \<Rightarrow> int \<Rightarrow> 'e world \<Rightarrow> int" where
  "turn f N w = index_of f N w mod N + 1"

lemma turn_range: "1 \<le> N \<Longrightarrow> 1 \<le> turn f N w \<and> turn f N w \<le> N"
  by (simp add: turn_def) (smt (verit) pos_mod_bound)

lemma next_slot_turn:
  "1 \<le> N \<Longrightarrow> next_slot N (index_of f N w) = turn f N w"
  "1 \<le> N \<Longrightarrow> next_slot_plain N (index_of f N w) = turn f N w"
  using index_of_range [of N f w] by (simp_all add: turn_def next_slot_mod)

lemma run_slot_start:
  assumes "reliable os"
  obtains r w1 w2 w3 w4 where
    "run_state (system_service_mkdir_p os dir) w = (r, w1)"
    "turn f N w1 = turn f N w"
    "run_state (c_unlink p) w1 = ((), w2)" "run_state (c_fopen_w os p) w2 = (True, w3)"
    "run_state (write_index os f s) w3 = ((), w4)" "w_env w4 = w_env w"
    "w_files w4 = (w_files w)(p \<mapsto> [], f \<mapsto> dec_of_int s @ [chr_nl], f @ ''.tmp'' := None)"
proof -
  obtain r w1 where 1: "run_state (system_service_mkdir_p os dir) w = (r, w1)"
    "w_files w1 = w_files w" "w_env w1 = w_env w" using run_mkdir_p by metis
  define w2 where "w2 = emit (Ev_unlink p) (w1\<lparr>w_files := (w_files w1)(p := None)\<rparr>)"
  define w3 where "w3 = emit (Ev_open_w p) (w2\<lparr>w_files := (w_files w2)(p \<mapsto> [])\<rparr>)"
  obtain w4 where 4: "run_state (write_index os f s) w3 = ((), w4)" "w_env w4 = w_env w3"
    "w_files w4 = (w_files w3)(f \<mapsto> dec_of_int s @ [chr_nl], f @ ''.tmp'' := None)"
    using run_write_index [OF assms] by metis
  show thesis
  proof (rule that)
    show "run_state (c_unlink p) w1 = ((), w2)" by (simp add: c_unlink_def w2_def)
    show "run_state (c_fopen_w os p) w2 = (True, w3)" by (simp add: reliable_calls [OF assms] w3_def)
  qed (use 1 4 in \<open>simp_all add: turn_def index_of_def read_index_def w2_def w3_def\<close>)
qed

lemma log_boot_run:
  assumes "reliable os"
  defines "t \<equiv> turn LOG_INDEX_FILE LOG_MAX_SLOTS"
  shows "\<exists>w'. run_state (log_boot os) w = (Some (t w), w') \<and>
    (\<forall>p. p \<noteq> log_slot_path (t w) \<longrightarrow> w_files w' p =
      ((w_files w)(LOG_INDEX_FILE \<mapsto> dec_of_int (t w) @ [chr_nl], LOG_INDEX_FILE @ ''.tmp'' := None)) p)"
  by (rule run_slot_start [OF assms(1), of "''/blackbox/system''" w LOG_INDEX_FILE LOG_MAX_SLOTS "log_slot_path (t w)" "t w"])
    (simp add: log_boot_def log_init_def logger_start_def index_defs run_read_index next_slot_turn t_def Let_def
      reliable_calls(2) [OF assms(1)])

text \<open>Without root the thread of the A733 board leaves slots and index as they are.\<close>

lemma uart_log_start_without_root:
  assumes "os_geteuid os (w_env w) \<noteq> 0"
  shows "\<exists>w'. run_state (uart_log_start True os now ct ok) w = (None, w') \<and> w_files w' = w_files w"
proof -
  obtain r w1 where "run_state (system_service_mkdir_p os ''/blackbox/uart_log'') w = (r, w1)" "w_files w1 = w_files w"
    using run_mkdir_p by metis
  with assms show ?thesis by (simp add: uart_log_start_def)
qed

lemma uart_log_start_as_root:
  "\<not> is_a733 \<or> os_geteuid os (w_env w) = 0 \<Longrightarrow>
   run_state (uart_log_start is_a733 os now ct ok) w = run_state (uart_log_open os now ct ok) w"
  by (auto simp: uart_log_start_def)

lemma uart_boot_run:
  assumes "reliable os"
  defines "t \<equiv> turn UART_INDEX_FILE UART_MAX_SLOTS"
  shows "\<exists>w'. run_state (uart_log_open os now ct True) w = (Some (t w), w') \<and>
    (\<forall>p. p \<noteq> uart_slot_path (t w) \<longrightarrow> w_files w' p =
      ((w_files w)(UART_INDEX_FILE \<mapsto> dec_of_int (t w) @ [chr_nl], UART_INDEX_FILE @ ''.tmp'' := None)) p)"
  by (rule run_slot_start [OF assms(1), of "''/blackbox/uart_log''" w UART_INDEX_FILE UART_MAX_SLOTS "uart_slot_path (t w)" "t w"])
    (auto simp: uart_log_open_def index_defs run_read_index next_slot_turn t_def Let_def reliable_calls(2) [OF assms(1)] split: option.splits)

lemma stat_boot_run:
  assumes "reliable os"
  defines "t \<equiv> turn STAT_INDEX_FILE STAT_MAX_SLOTS"
  shows "\<exists>w'. run_state (sys_stat_open os) w = (Some (t w), w') \<and>
    (\<forall>p. p \<noteq> stat_slot_path (t w) \<longrightarrow> w_files w' p =
      ((w_files w)(STAT_INDEX_FILE \<mapsto> dec_of_int (t w) @ [chr_nl], STAT_INDEX_FILE @ ''.tmp'' := None)) p)"
  by (rule run_slot_start [OF assms(1), of "''/blackbox/sys_stat''" w STAT_INDEX_FILE STAT_MAX_SLOTS "stat_slot_path (t w)" "t w"])
    (simp add: sys_stat_open_def index_defs run_read_index next_slot_turn t_def Let_def)

text \<open>From the run of a start to the laws of the contract.\<close>

lemma slot_laws:
  assumes run: "\<And>os w. reliable os \<Longrightarrow> \<exists>w'. run_state (b os) w = (Some (turn f N w), w') \<and>
      (\<forall>p. p \<noteq> path (turn f N w) \<longrightarrow> w_files w' p =
        ((w_files w)(f \<mapsto> dec_of_int (turn f N w) @ [chr_nl], f @ ''.tmp'' := None)) p)"
    and N: "1 \<le> N" "N \<le> 20"
    and inj: "\<And>i j. 0 \<le> i \<Longrightarrow> i \<le> 20 \<Longrightarrow> 0 \<le> j \<Longrightarrow> j \<le> 20 \<Longrightarrow> path i = path j \<longleftrightarrow> i = j"
    and idx: "\<And>i. 0 \<le> i \<Longrightarrow> i \<le> 20 \<Longrightarrow> path i \<noteq> f" "\<And>i. 0 \<le> i \<Longrightarrow> i \<le> 20 \<Longrightarrow> path i \<noteq> f @ ''.tmp''"
  shows "slot_store (index_of f N) path b N"
proof
  fix os :: "'a os" and w :: "'a world" and s :: int
  have t: "1 \<le> turn f N w" "turn f N w \<le> N" using turn_range [OF N(1), of f w] by auto
  show "1 \<le> N" by (rule N(1))
  show "0 \<le> index_of f N w \<and> index_of f N w \<le> N" using N(1) by (intro index_of_range) simp
  assume "reliable os"
  then obtain w' where w': "run_state (b os) w = (Some (turn f N w), w')"
    "\<And>p. p \<noteq> path (turn f N w) \<Longrightarrow> w_files w' p =
        ((w_files w)(f \<mapsto> dec_of_int (turn f N w) @ [chr_nl], f @ ''.tmp'' := None)) p"
    using run by blast
  then show "fst (run_state (b os) w) = Some (index_of f N w mod N + 1)" by (simp add: turn_def)
  have "f \<noteq> path (turn f N w)" using idx(1) [of "turn f N w"] t N by auto
  with w'(2) have "w_files w' f = Some (dec_of_int (turn f N w) @ [chr_nl])" by simp
  then have "index_of f N w' = turn f N w" using t N by (intro index_of_written) simp_all
  with w' show "index_of f N (snd (run_state (b os) w)) = index_of f N w mod N + 1" by (simp add: turn_def)
  assume s: "1 \<le> s" "s \<le> N" "s \<noteq> index_of f N w mod N + 1"
  then have "path s \<noteq> path (turn f N w)" using inj [of s "turn f N w"] t N by (auto simp: turn_def)
  moreover have "path s \<noteq> f" "path s \<noteq> f @ ''.tmp''" using idx [of s] s N by auto
  ultimately show "w_files (snd (run_state (b os) w)) (path s) = w_files w (path s)" using w' by simp
qed

interpretation log_slots: slot_store "index_of LOG_INDEX_FILE LOG_MAX_SLOTS" log_slot_path log_boot LOG_MAX_SLOTS
  by (rule slot_laws [OF log_boot_run]) (simp_all add: LOG_MAX_SLOTS_def slot_path_inj slot_path_not_index)

interpretation uart_slots:
  slot_store "index_of UART_INDEX_FILE UART_MAX_SLOTS" uart_slot_path "\<lambda>os. uart_log_open os now ct True" UART_MAX_SLOTS
  for now ct
  by (rule slot_laws [OF uart_boot_run]) (simp_all add: UART_MAX_SLOTS_def slot_path_inj slot_path_not_index)

interpretation stat_slots: slot_store "index_of STAT_INDEX_FILE STAT_MAX_SLOTS" stat_slot_path sys_stat_open STAT_MAX_SLOTS
  by (rule slot_laws [OF stat_boot_run]) (simp_all add: STAT_MAX_SLOTS_def slot_path_inj slot_path_not_index)

text \<open>
  Property C39. Log rotation: with working file calls, consecutive boots of the logger use the
  slots \<open>i mod 10 + 1\<close>, \<open>(i + 1) mod 10 + 1\<close>, \<dots> where \<open>i\<close> is what the index file gives at the
  start (0 when it is missing or unreadable); ten consecutive boots use ten different slots,
  and the log of the current slot is left untouched by the next nine boots, whatever the
  service writes to its own slot in between.
\<close>

theorem log_rotation:
  fixes w :: "'e world" and k :: nat
  assumes "reliable os" and "own_slot_only (index_of LOG_INDEX_FILE LOG_MAX_SLOTS) log_slot_path life"
  defines "i \<equiv> index_of LOG_INDEX_FILE LOG_MAX_SLOTS" and "run \<equiv> run_state (boots (log_boot os) life k) w"
  shows "fst run = map (\<lambda>j. Some ((i w + int j) mod 10 + 1)) [0..<k] \<and>
    (k \<le> 10 \<longrightarrow> distinct (fst run)) \<and>
    (k < 10 \<and> 1 \<le> i w \<longrightarrow> w_files (snd run) (log_slot_path (i w)) = w_files w (log_slot_path (i w)))"
proof (intro conjI impI)
  have N: "LOG_MAX_SLOTS = 10" by (simp add: LOG_MAX_SLOTS_def)
  show 1: "fst run = map (\<lambda>j. Some ((i w + int j) mod 10 + 1)) [0..<k]"
    using log_slots.boots_run [OF assms(1,2), of k w] by (auto simp: i_def N run_def)
  show "distinct (fst run)" if "k \<le> 10"
    unfolding 1 using log_slots.slots_distinct [of k "i w"] that by (simp add: N)
  show "w_files (snd run) (log_slot_path (i w)) = w_files w (log_slot_path (i w))" if "k < 10 \<and> 1 \<le> i w"
    using log_slots.current_slot_survives [OF assms(1,2), of k w] that by (simp add: i_def N run_def)
qed

theorem log_rotation_witness:
  "fst (run_state (boots (log_boot (ok_os (\<lambda>_. []))) (\<lambda>w. w) 3) (world0 (\<lambda>_. None))) = [Some 1, Some 2, Some 3]"
proof -
  have "reliable (ok_os (\<lambda>_. []))" by (simp add: reliable_def)
  moreover have "own_slot_only (index_of LOG_INDEX_FILE LOG_MAX_SLOTS) log_slot_path (\<lambda>w. w :: unit world)"
    by (simp add: own_slot_only_def)
  moreover have "index_of LOG_INDEX_FILE LOG_MAX_SLOTS (world0 (\<lambda>_. None)) = 0"
    by (simp add: index_of_def read_index_def world0_def slot_consts)
  ultimately show ?thesis
    using log_rotation [of "ok_os (\<lambda>_. [])" "\<lambda>w. w" 3 "world0 (\<lambda>_. None)"] by (simp add: upt_rec)
qed

section \<open>What a logger can write in one boot\<close>

text \<open>A run of log calls: time, level, module, message; the text put on the stream.\<close>

fun log_session :: "(string \<times> log_level \<times> string option \<times> string option) list \<Rightarrow> logger \<Rightarrow> string \<times> logger" where
  "log_session [] g = ([], g)"
| "log_session ((ts, l, m, msg) # cs) g =
     (case log_print ts l m msg g of (out, g') \<Rightarrow> case log_session cs g' of (rest, g'') \<Rightarrow> (out @ rest, g''))"

text \<open>The line is the prefix and the message, cut after 1278 characters, and a newline.\<close>

lemma log_line_eq: "log_line pre msg = take 1278 (pre @ msg) @ [chr_nl]"
  by (simp add: log_line_def Let_def min_def)

lemma length_log_line: "0 < length (log_line pre msg) \<and> length (log_line pre msg) \<le> 1279"
  by (simp add: log_line_eq)

text \<open>
  The counter is exact as long as the slot is open: \<open>n\<close> bytes have been written since the
  header.
\<close>

definition slot_count :: "nat \<Rightarrow> logger \<Rightarrow> bool" where
  "slot_count n g \<longleftrightarrow> g_to_file g \<and>
     (if g_full g then n < unat PER_SLOT_CAP + 1279 + length full_marker
      else unat (g_written g) = n \<and> n < unat PER_SLOT_CAP)"

lemma slot_count_log_print:
  assumes "slot_count n g"
  shows "slot_count (n + length (fst (log_print ts l m msg g))) (snd (log_print ts l m msg g))"
proof -
  let ?line = "log_line (log_prefix ts l (case m of Some m \<Rightarrow> m | None \<Rightarrow> ''?'')) (case msg of Some m \<Rightarrow> m | None \<Rightarrow> [])"
  have cap: "unat PER_SLOT_CAP = 10485760" by (simp add: PER_SLOT_CAP_def)
  have "length ?line \<le> 1279" using length_log_line by blast
  moreover have "unat (g_written g + word_of_nat (length ?line)) = n + length ?line" if "\<not> g_full g"
    using assms that \<open>length ?line \<le> 1279\<close>
    by (simp add: slot_count_def cap unat_word_ariths unat_of_nat take_bit_nat_eq_self)
  ultimately show ?thesis
    using assms by (auto simp: slot_count_def log_print_def Let_def word_le_nat_alt split: if_splits)
qed

lemma slot_count_session: "slot_count n g \<Longrightarrow> slot_count (n + length (fst (log_session cs g))) (snd (log_session cs g))"
proof (induction cs g arbitrary: n rule: log_session.induct)
  case (2 ts l m msg cs g)
  obtain out g' where p: "log_print ts l m msg g = (out, g')" by fastforce
  obtain rest g'' where r: "log_session cs g' = (rest, g'')" by fastforce
  from slot_count_log_print [OF "2.prems", of ts l m msg] have "slot_count (n + length out) g'" by (simp add: p)
  from "2.IH" [OF p [symmetric] this] show ?case by (simp add: p r ac_simps)
qed simp

text \<open>
  The size limit of a log slot: after \<^verbatim>\<open>log_init\<close> opened the slot, no sequence of
  log calls puts 10 MiB, one line (1279 bytes) and the end marker or more into it, and as
  long as the slot is not marked full its counter is the exact number of bytes.
\<close>

theorem log_slot_bounded:
  fixes cs :: "(string \<times> log_level \<times> string option \<times> string option) list"
  assumes "g_to_file g" and "g_written g = 0" and "\<not> g_full g"
  defines "out \<equiv> fst (log_session cs g)" and "g' \<equiv> snd (log_session cs g)"
  shows "length out < 10 * 1024 * 1024 + 1279 + length full_marker \<and>
    (\<not> g_full g' \<longrightarrow> unat (g_written g') = length out \<and> length out < 10 * 1024 * 1024)"
proof -
  have cap: "unat PER_SLOT_CAP = 10485760" by (simp add: PER_SLOT_CAP_def)
  have "slot_count 0 g" using assms(1-3) by (simp add: slot_count_def cap)
  from slot_count_session [OF this, of cs] show ?thesis
    by (auto simp: slot_count_def cap out_def g'_def split: if_splits)
qed

theorem log_slot_bounded_witness:
  "let g = logger_start\<lparr>g_to_file := True\<rparr>; r = log_session [(''10:00:00.000'', LOG_LEVEL_I, None, Some ''hi'')] g in
   fst r = ''[10:00:00.000] [I] [?] hi'' @ [chr_nl] \<and> unat (g_written (snd r)) = 26"
proof -
  let ?g = "logger_start\<lparr>g_to_file := True\<rparr>" and ?c = "[(''10:00:00.000'', LOG_LEVEL_I, None, Some ''hi'')]"
  have r: "fst (log_session ?c ?g) = ''[10:00:00.000] [I] [?] hi'' @ [chr_nl]" "\<not> g_full (snd (log_session ?c ?g))"
    by (simp_all add: logger_start_def log_print_def log_prefix_def log_line_def PER_SLOT_CAP_def)
  then show ?thesis
    using log_slot_bounded [of ?g ?c] by (simp add: logger_start_def Let_def)
qed

section \<open>The kernel log in one boot\<close>

lemma uart_write_loop_take: "\<exists>n. fst (uart_write_loop rs buf) = take n buf"
proof (induction rs buf rule: uart_write_loop.induct)
  case (2 v va)
  show ?case by (rule exI [of _ "Suc (length va)"]) simp
next
  case (4 rs v va)
  show ?case by (rule exI [of _ 0]) simp
next
  case (5 n rs v va)
  then obtain k where "fst (uart_write_loop rs (drop n (v # va))) = take k (drop n (v # va))" by blast
  then show ?case by (intro exI [of _ "n + k"]) (simp add: case_prod_beta take_add)
qed auto

lemma uart_write_loop_all: "Uw_error \<notin> set rs \<Longrightarrow>
    fst (uart_write_loop rs buf) = buf \<and> set (snd (uart_write_loop rs buf)) \<subseteq> set rs"
  by (induction rs buf rule: uart_write_loop.induct) (auto simp: case_prod_beta)

definition uart_count :: "uart \<Rightarrow> bool" where
  "uart_count u \<longleftrightarrow> unat (u_written u) = length (u_file u) \<and> length (u_file u) < unat UART_SIZE_CAP + 8192"

lemma uart_count_step:
  assumes "uart_count u"
  shows "uart_count (fst (uart_log_step r u))"
proof (cases r)
  case (Kmsg_data d)
  obtain w rs where w: "uart_write_loop (u_writes u) (take 8192 d) = (w, rs)" by fastforce
  then obtain n where "w = take n (take 8192 d)" using uart_write_loop_take [of "u_writes u" "take 8192 d"] by auto
  then have len: "length w \<le> 8192" by simp
  have cap: "unat UART_SIZE_CAP = 52428800" by (simp add: UART_SIZE_CAP_def)
  have "unat (u_written u + word_of_nat (length w)) = length (u_file u) + length w"
    using assms len by (simp add: uart_count_def cap unat_word_ariths unat_of_nat take_bit_nat_eq_self)
  then show ?thesis
    using assms len w Kmsg_data by (auto simp: uart_count_def uart_log_step_def Let_def word_le_nat_alt)
qed (use assms in \<open>simp_all add: uart_log_step_def\<close>)

lemma uart_count_loop: "uart_count u \<Longrightarrow> uart_count (uart_log_loop rds u)"
proof (induction rds arbitrary: u)
  case (Cons r rds)
  then show ?case using uart_count_step [OF Cons.prems, of r] by (auto simp: case_prod_beta)
qed simp

definition kmsg_text :: "kmsg_read list \<Rightarrow> string" where
  "kmsg_text rds = concat (map (\<lambda>r. case r of Kmsg_data d \<Rightarrow> d | _ \<Rightarrow> []) rds)"

lemma uart_log_loop_copies:
  assumes "Uw_error \<notin> set (u_writes u)" and "Kmsg_error \<notin> set rds" and "\<forall>d. Kmsg_data d \<in> set rds \<longrightarrow> length d \<le> 8192"
    and "uart_count u" and "length (u_file u) + length (kmsg_text rds) \<le> unat UART_SIZE_CAP"
  shows "u_file (uart_log_loop rds u) = u_file u @ kmsg_text rds"
  using assms
proof (induction rds arbitrary: u)
  case (Cons r rds)
  let ?u' = "fst (uart_log_step r u)"
  have go: "snd (uart_log_step r u)" using Cons.prems(2) by (cases r) (auto simp: uart_log_step_def Let_def case_prod_beta)
  have step: "u_file ?u' = u_file u @ kmsg_text [r] \<and> set (u_writes ?u') \<subseteq> set (u_writes u)"
  proof (cases r)
    case (Kmsg_data d)
    with Cons.prems have "take 8192 d = d" "length (u_file u) + length d \<le> unat UART_SIZE_CAP" by (auto simp: kmsg_text_def)
    moreover from this have "d = [] \<or> length (u_file u) < unat UART_SIZE_CAP" by (cases d) auto
    ultimately show ?thesis
      using Kmsg_data uart_write_loop_all [OF Cons.prems(1), of d] Cons.prems(4)
      by (auto simp: uart_log_step_def kmsg_text_def Let_def case_prod_beta word_le_nat_alt uart_count_def)
  qed (simp_all add: uart_log_step_def kmsg_text_def)
  have "u_file (uart_log_loop rds ?u') = u_file ?u' @ kmsg_text rds"
    using Cons.prems step uart_count_step [OF Cons.prems(4), of r]
    by (intro Cons.IH) (auto simp: kmsg_text_def)
  with step go show ?case by (simp add: case_prod_beta kmsg_text_def)
qed (simp add: kmsg_text_def)

text \<open>
  The kernel log: whatever \<^verbatim>\<open>/dev/kmsg\<close> delivers and however \<^verbatim>\<open>write\<close> splits or
  fails, one boot adds less than 50 MiB and one read buffer to the slot file and the counter
  is the exact number of bytes; and when neither call fails and the text fits, the file
  receives all of it, in order, also when writes are short or interrupted.
\<close>

theorem uart_log_bounded_and_complete:
  fixes rds :: "kmsg_read list" and ws :: "uart_write list"
  defines "u \<equiv> uart_log_loop rds \<lparr>u_written = 0, u_file = [], u_writes = ws\<rparr>"
  shows "length (u_file u) < 50 * 1024 * 1024 + 8192 \<and> unat (u_written u) = length (u_file u) \<and>
    (Uw_error \<notin> set ws \<and> Kmsg_error \<notin> set rds \<and> (\<forall>d. Kmsg_data d \<in> set rds \<longrightarrow> length d \<le> 8192) \<and>
     length (kmsg_text rds) \<le> 50 * 1024 * 1024 \<longrightarrow> u_file u = kmsg_text rds)"
proof -
  let ?u = "\<lparr>u_written = 0, u_file = [], u_writes = ws\<rparr>"
  have cap: "unat UART_SIZE_CAP = 52428800" by (simp add: UART_SIZE_CAP_def)
  have c: "uart_count ?u" by (simp add: uart_count_def cap)
  from uart_count_loop [OF c, of rds] uart_log_loop_copies [of ?u rds] c show ?thesis
    by (auto simp: u_def uart_count_def cap)
qed

theorem uart_log_bounded_and_complete_witness:
  "u_file (uart_log_loop [Kmsg_data ''6,1,0,-;boot'', Kmsg_epipe, Kmsg_data ''4,2,9,-;hi'']
     \<lparr>u_written = 0, u_file = [], u_writes = [Uw_bytes 3, Uw_eintr]\<rparr>) = ''6,1,0,-;boot4,2,9,-;hi''"
  using uart_log_bounded_and_complete [of "[Kmsg_data ''6,1,0,-;boot'', Kmsg_epipe, Kmsg_data ''4,2,9,-;hi'']" "[Uw_bytes 3, Uw_eintr]"]
  by (simp add: kmsg_text_def)

end
