(* ===== verification/SockWorld.thy ===== *)
theory SockWorld
  imports OsWorld
begin

text \<open>
  The system calls of the two components that use sockets, the time synchronisation and the
  Unix-domain server: sockets, the directory entries they create and replace, commands and
  sleeping.  As in theory \<open>OsWorld\<close> the kernel is a parameter, the record \<open>so\<close>; what the process
  itself holds is concrete: the directory entries it makes, the descriptors it has open, and
  the calls it issued with their outcomes.  A descriptor is closed twice exactly if \<open>k_bad\<close> is
  set, so that leaks and double closes are statements about the state.
\<close>

section \<open>Calls and state\<close>

datatype node = Regular string | Symlink string | Socket

datatype conn_result = Conn_ok | Conn_in_progress | Conn_failed

datatype bind_result = Bind_ok | Bind_eacces | Bind_eperm | Bind_error

datatype sock_event =
    Sk_access string bool
  | Sk_unlink string
  | Sk_symlink string string bool
  | Sk_rename string string bool
  | Sk_write string string
  | Sk_setenv string string
  | Sk_socket int
  | Sk_nonblock int
  | Sk_connect int string nat conn_result
  | Sk_select int nat int
  | Sk_sockerr int "int option"
  | Sk_close int
  | Sk_bind int string bind_result
  | Sk_chmod string nat bool
  | Sk_listen int nat bool
  | Sk_system string wait_status
  | Sk_usleep nat

type_synonym nodes = "string \<Rightarrow> node option"

record 'e sock_os =
  so_access :: "nodes \<Rightarrow> string \<Rightarrow> 'e \<Rightarrow> bool"
  so_resolve :: "nodes \<Rightarrow> string \<Rightarrow> 'e \<Rightarrow> string option"
  so_dir_ok :: "string \<Rightarrow> 'e \<Rightarrow> bool"
  so_socket :: "'e \<Rightarrow> int \<times> 'e"
  so_connect :: "int \<Rightarrow> string \<Rightarrow> nat \<Rightarrow> 'e \<Rightarrow> conn_result \<times> 'e"
  so_select :: "int \<Rightarrow> nat \<Rightarrow> 'e \<Rightarrow> int \<times> 'e"
  so_sockerr :: "int \<Rightarrow> 'e \<Rightarrow> int option \<times> 'e"
  so_bind :: "int \<Rightarrow> string \<Rightarrow> 'e \<Rightarrow> bind_result \<times> 'e"
  so_chmod :: "string \<Rightarrow> 'e \<Rightarrow> bool"
  so_listen :: "int \<Rightarrow> nat \<Rightarrow> 'e \<Rightarrow> bool"
  so_system :: "string \<Rightarrow> 'e \<Rightarrow> wait_status \<times> 'e"
  so_usleep :: "nat \<Rightarrow> 'e \<Rightarrow> 'e"
  so_euid :: "'e \<Rightarrow> nat"

record 'e kernel =
  k_env :: 'e
  k_nodes :: nodes
  k_open :: "int list"
  k_bad :: bool
  k_events :: "sock_event list"

type_synonym ('e, 'a) sio = "('e kernel, 'a) state"

definition k_emit :: "sock_event \<Rightarrow> 'e kernel \<Rightarrow> 'e kernel" where
  "k_emit ev w = w\<lparr>k_events := k_events w @ [ev]\<rparr>"

text \<open>\<^verbatim>\<open>access(path, R_OK) == 0\<close>; following links is the kernel's.\<close>

definition k_access :: "'e sock_os \<Rightarrow> string \<Rightarrow> ('e, bool) sio" where
  "k_access so path = State (\<lambda>w. let ok = so_access so (k_nodes w) path (k_env w) in (ok, k_emit (Sk_access path ok) w))"

text \<open>\<^verbatim>\<open>unlink\<close>, \<^verbatim>\<open>symlink\<close> and \<^verbatim>\<open>rename\<close> work on the entry itself, not on what it points to.\<close>

definition k_unlink :: "'e sock_os \<Rightarrow> string \<Rightarrow> ('e, unit) sio" where
  "k_unlink so path = modify (\<lambda>w. k_emit (Sk_unlink path)
     (if so_dir_ok so path (k_env w) then w\<lparr>k_nodes := (k_nodes w)(path := None)\<rparr> else w))"

definition k_symlink :: "'e sock_os \<Rightarrow> string \<Rightarrow> string \<Rightarrow> ('e, bool) sio" where
  "k_symlink so target path = State (\<lambda>w.
     if so_dir_ok so path (k_env w) \<and> k_nodes w path = None
     then (True, k_emit (Sk_symlink target path True) (w\<lparr>k_nodes := (k_nodes w)(path \<mapsto> Symlink target)\<rparr>))
     else (False, k_emit (Sk_symlink target path False) w))"

definition k_rename :: "'e sock_os \<Rightarrow> string \<Rightarrow> string \<Rightarrow> ('e, bool) sio" where
  "k_rename so a b = State (\<lambda>w.
     if so_dir_ok so b (k_env w) \<and> k_nodes w a \<noteq> None
     then (True, k_emit (Sk_rename a b True) (w\<lparr>k_nodes := ((k_nodes w)(b := k_nodes w a))(a := None)\<rparr>))
     else (False, k_emit (Sk_rename a b False) w))"

text \<open>\<^verbatim>\<open>fopen(path, "w")\<close>, a \<^verbatim>\<open>fprintf\<close> and \<^verbatim>\<open>fclose\<close>: the file the path leads to has the text.\<close>

definition k_write_text :: "'e sock_os \<Rightarrow> string \<Rightarrow> string \<Rightarrow> ('e, unit) sio" where
  "k_write_text so path text = modify (\<lambda>w. case so_resolve so (k_nodes w) path (k_env w) of
     None \<Rightarrow> w
   | Some p \<Rightarrow> k_emit (Sk_write path text) (w\<lparr>k_nodes := (k_nodes w)(p \<mapsto> Regular text)\<rparr>))"

definition k_setenv :: "string \<Rightarrow> string \<Rightarrow> ('e, unit) sio" where
  "k_setenv name v = modify (k_emit (Sk_setenv name v))"

definition k_socket :: "'e sock_os \<Rightarrow> ('e, int) sio" where
  "k_socket so = State (\<lambda>w. case so_socket so (k_env w) of
     (fd, e) \<Rightarrow> (fd, k_emit (Sk_socket fd) (w\<lparr>k_env := e, k_open := (if fd < 0 then k_open w else fd # k_open w)\<rparr>)))"

definition k_nonblock :: "int \<Rightarrow> ('e, unit) sio" where
  "k_nonblock fd = modify (k_emit (Sk_nonblock fd))"

definition k_connect :: "'e sock_os \<Rightarrow> int \<Rightarrow> string \<Rightarrow> nat \<Rightarrow> ('e, conn_result) sio" where
  "k_connect so fd host port = State (\<lambda>w. case so_connect so fd host port (k_env w) of
     (r, e) \<Rightarrow> (r, k_emit (Sk_connect fd host port r) (w\<lparr>k_env := e\<rparr>)))"

definition k_select :: "'e sock_os \<Rightarrow> int \<Rightarrow> nat \<Rightarrow> ('e, int) sio" where
  "k_select so fd secs = State (\<lambda>w. case so_select so fd secs (k_env w) of
     (r, e) \<Rightarrow> (r, k_emit (Sk_select fd secs r) (w\<lparr>k_env := e\<rparr>)))"

definition k_sockerr :: "'e sock_os \<Rightarrow> int \<Rightarrow> ('e, int option) sio" where
  "k_sockerr so fd = State (\<lambda>w. case so_sockerr so fd (k_env w) of
     (r, e) \<Rightarrow> (r, k_emit (Sk_sockerr fd r) (w\<lparr>k_env := e\<rparr>)))"

definition k_close :: "int \<Rightarrow> ('e, unit) sio" where
  "k_close fd = modify (\<lambda>w. k_emit (Sk_close fd)
     (if fd \<in> set (k_open w) then w\<lparr>k_open := remove1 fd (k_open w)\<rparr> else w\<lparr>k_bad := True\<rparr>))"

text \<open>\<^verbatim>\<open>bind\<close> makes the socket's entry; it fails when the path exists.\<close>

definition k_bind :: "'e sock_os \<Rightarrow> int \<Rightarrow> string \<Rightarrow> ('e, bind_result) sio" where
  "k_bind so fd path = State (\<lambda>w. case so_bind so fd path (k_env w) of
     (r, e) \<Rightarrow> let r' = (if r = Bind_ok \<and> k_nodes w path \<noteq> None then Bind_error else r)
       in (r', k_emit (Sk_bind fd path r')
         (if r' = Bind_ok then w\<lparr>k_env := e, k_nodes := (k_nodes w)(path \<mapsto> Socket)\<rparr> else w\<lparr>k_env := e\<rparr>)))"

definition k_chmod :: "'e sock_os \<Rightarrow> string \<Rightarrow> nat \<Rightarrow> ('e, bool) sio" where
  "k_chmod so path mode = State (\<lambda>w. let ok = so_chmod so path (k_env w) in (ok, k_emit (Sk_chmod path mode ok) w))"

definition k_listen :: "'e sock_os \<Rightarrow> int \<Rightarrow> nat \<Rightarrow> ('e, bool) sio" where
  "k_listen so fd n = State (\<lambda>w. let ok = so_listen so fd n (k_env w) in (ok, k_emit (Sk_listen fd n ok) w))"

definition k_system :: "'e sock_os \<Rightarrow> string \<Rightarrow> ('e, wait_status) sio" where
  "k_system so cmd = State (\<lambda>w. case so_system so cmd (k_env w) of
     (r, e) \<Rightarrow> (r, k_emit (Sk_system cmd r) (w\<lparr>k_env := e\<rparr>)))"

definition k_usleep :: "'e sock_os \<Rightarrow> nat \<Rightarrow> ('e, unit) sio" where
  "k_usleep so us = modify (\<lambda>w. k_emit (Sk_usleep us) (w\<lparr>k_env := so_usleep so us (k_env w)\<rparr>))"

lemmas k_defs = k_access_def k_unlink_def k_symlink_def k_rename_def k_write_text_def k_setenv_def k_socket_def
  k_nonblock_def k_connect_def k_select_def k_sockerr_def k_close_def k_bind_def k_chmod_def k_listen_def
  k_system_def k_usleep_def

lemma k_emit_sel [simp]:
  "k_env (k_emit ev w) = k_env w" "k_nodes (k_emit ev w) = k_nodes w" "k_open (k_emit ev w) = k_open w"
  "k_bad (k_emit ev w) = k_bad w" "k_events (k_emit ev w) = k_events w @ [ev]"
  by (simp_all add: k_emit_def)

section \<open>Relations kept\<close>

text \<open>The events a program added all satisfy \<open>P\<close>; the descriptors are as before; an entry is kept.\<close>

definition k_adds :: "(sock_event \<Rightarrow> bool) \<Rightarrow> 'e kernel \<Rightarrow> 'e kernel \<Rightarrow> bool" where
  "k_adds P w w' \<longleftrightarrow> (\<exists>es. k_events w' = k_events w @ es \<and> list_all P es)"

definition keeps_open :: "'e kernel \<Rightarrow> 'e kernel \<Rightarrow> bool" where
  "keeps_open w w' \<longleftrightarrow> k_open w' = k_open w \<and> k_bad w' = k_bad w"

lemma k_addsI: "k_events w' = k_events w @ es \<Longrightarrow> list_all P es \<Longrightarrow> k_adds P w w'"
  by (auto simp: k_adds_def)

interpretation k_adds: step_rel "k_adds P" for P
proof
  fix s t u :: "'a kernel"
  show "k_adds P s s" by (simp add: k_adds_def)
  show "k_adds P s u" if "k_adds P s t" "k_adds P t u" using that by (auto simp: k_adds_def)
qed

interpretation fds_kept: step_rel keeps_open
  by unfold_locales (simp_all add: keeps_open_def)

lemma keeps_open_calls [io_intros]:
  "state_io_rel keeps_open (k_access so p)" "state_io_rel keeps_open (k_unlink so p)" "state_io_rel keeps_open (k_symlink so t p)"
  "state_io_rel keeps_open (k_rename so p q)" "state_io_rel keeps_open (k_write_text so p x)" "state_io_rel keeps_open (k_setenv x v)"
  "state_io_rel keeps_open (k_nonblock fd)" "state_io_rel keeps_open (k_connect so fd h n)" "state_io_rel keeps_open (k_select so fd n)"
  "state_io_rel keeps_open (k_sockerr so fd)" "state_io_rel keeps_open (k_system so c)" "state_io_rel keeps_open (k_usleep so n)"
  "state_io_rel keeps_open (k_chmod so p m)" "state_io_rel keeps_open (k_listen so fd n)" "state_io_rel keeps_open (k_bind so fd p)"
  by (auto simp: state_io_rel_def k_defs keeps_open_def Let_def split: prod.split option.split)

text \<open>A kernel on which everything works.\<close>

definition ok_kernel :: "unit sock_os" where
  "ok_kernel = \<lparr>so_access = (\<lambda>ns p _. ns p \<noteq> None), so_resolve = (\<lambda>ns p _. Some p), so_dir_ok = (\<lambda>_ _. True),
     so_socket = (\<lambda>e. (3, e)), so_connect = (\<lambda>_ _ _ e. (Conn_in_progress, e)), so_select = (\<lambda>_ _ e. (1, e)),
     so_sockerr = (\<lambda>_ e. (Some 0, e)), so_bind = (\<lambda>_ _ e. (Bind_ok, e)), so_chmod = (\<lambda>_ _. True),
     so_listen = (\<lambda>_ _ _. True), so_system = (\<lambda>_ e. (Exited 0, e)), so_usleep = (\<lambda>_ e. e), so_euid = (\<lambda>_. 0)\<rparr>"

definition kernel0 :: "nodes \<Rightarrow> unit kernel" where
  "kernel0 ns = \<lparr>k_env = (), k_nodes = ns, k_open = [], k_bad = False, k_events = []\<rparr>"

end
