(* ===== verification/WifiConfig.thy ===== *)
theory WifiConfig
  imports OsWorld
begin

text \<open>
  The configuration files and text parsers of \<^verbatim>\<open>wifi_switch.c\<close>: the stored credentials
  (\<^verbatim>\<open>/etc/taishan_home_wifi.conf\<close>), the band file (\<^verbatim>\<open>/etc/wifi_band.conf\<close>),
  \<^verbatim>\<open>hostapd.conf\<close>, the generated \<^verbatim>\<open>wpa_supplicant.conf\<close>, and the parsers of the
  output of \<^verbatim>\<open>ip\<close> and \<^verbatim>\<open>wpa_cli\<close>.  The lemmas show the round trips between what is
  written and what is read back, that a rewrite changes the intended lines only, and the
  buffer bounds of the renderers.
\<close>

section \<open>Paths and bands\<close>

definition HOME_WIFI_CONF :: string where "HOME_WIFI_CONF = ''/etc/taishan_home_wifi.conf''"
definition WPA_CONF :: string where "WPA_CONF = ''/etc/wpa_supplicant.conf''"
definition HOSTAPD_CONF :: string where "HOSTAPD_CONF = ''/etc/hostapd.conf''"
definition BAND_CONF :: string where "BAND_CONF = ''/etc/wifi_band.conf''"

lemmas path_defs = HOME_WIFI_CONF_def WPA_CONF_def HOSTAPD_CONF_def BAND_CONF_def

datatype band = BAND_24 | BAND_5

definition band_str :: "band \<Rightarrow> string" where
  "band_str b = (if b = BAND_5 then ''5G'' else ''2.4G'')"

section \<open>Configuration lines\<close>

definition lstrip :: "string \<Rightarrow> string" where
  "lstrip s = dropWhile (\<lambda>c. c = chr_sp \<or> c = chr_tab) s"

definition rstrip_char :: "char \<Rightarrow> bool" where
  "rstrip_char c \<longleftrightarrow> c = chr_sp \<or> c = chr_tab \<or> c = chr_cr \<or> c = chr_nl"

definition rstrip :: "string \<Rightarrow> string" where
  "rstrip s = rev (dropWhile rstrip_char (rev s))"

definition strip_quotes :: "string \<Rightarrow> string" where
  "strip_quotes s =
     (if 2 \<le> length s \<and>
         (hd s = chr_dq \<and> last s = chr_dq \<or> hd s = chr_sq \<and> last s = chr_sq)
      then butlast (tl s) else s)"

text \<open>
  The common body of the line loops of \<^verbatim>\<open>read_home_wifi\<close> and \<^verbatim>\<open>read_band\<close>: skip blank
  lines, comments and lines without an equals sign, otherwise give key and value.
\<close>

definition conf_line :: "string \<Rightarrow> (string \<times> string) option" where
  "conf_line line =
     (let t = rstrip (lstrip line) in
      if t = [] \<or> hd t = CHR ''#'' then None
      else (case strchr t (CHR ''='') of
              None \<Rightarrow> None
            | Some (k, v) \<Rightarrow> Some (rstrip k, strip_quotes (rstrip (lstrip v)))))"

section \<open>Stored credentials\<close>

definition home_wifi_line ::
  "nat \<Rightarrow> nat \<Rightarrow> string \<Rightarrow> string \<times> string \<times> bool \<Rightarrow> string \<times> string \<times> bool" where
  "home_wifi_line ssid_sz pwd_sz line acc =
     (case acc of (ssid, pwd, have_ssid) \<Rightarrow>
       (case conf_line line of
          None \<Rightarrow> (ssid, pwd, have_ssid)
        | Some (k, v) \<Rightarrow>
            if k = ''HOME_SSID'' then (snprintf_s ssid_sz v, pwd, True)
            else if k = ''HOME_PASSWORD'' then (ssid, snprintf_s pwd_sz v, have_ssid)
            else (ssid, pwd, have_ssid)))"

text \<open>\<open>Some (ssid, password)\<close> where the C function returns 0.\<close>

definition read_home_wifi :: "nat \<Rightarrow> nat \<Rightarrow> ('e, (string \<times> string) option) io" where
  "read_home_wifi ssid_sz pwd_sz = do {
     r \<leftarrow> read_file_all HOME_WIFI_CONF 2048;
     ret (case r of
            None \<Rightarrow> None
          | Some (_, buf) \<Rightarrow>
              (case fold (home_wifi_line ssid_sz pwd_sz) (strtok_nl buf) ([], [], False) of
                 (ssid, pwd, have_ssid) \<Rightarrow>
                   if \<not> have_ssid \<or> ssid = [] then None else Some (ssid, pwd))) }"

definition home_wifi_body :: "string \<Rightarrow> string \<Rightarrow> string" where
  "home_wifi_body ssid password = render_lines
     [''# Taishan home WiFi credentials.'',
      ''# Managed by system_service; rewritten when BLE provisioning succeeds.'',
      ''HOME_SSID='' @ [chr_dq] @ ssid @ [chr_dq],
      ''HOME_PASSWORD='' @ [chr_dq] @ password @ [chr_dq]]"

text \<open>A NULL argument is \<open>None\<close>.\<close>

definition wifi_switch_persist_home_wifi :: "'e os \<Rightarrow> string option \<Rightarrow> string option \<Rightarrow> ('e, int) io" where
  "wifi_switch_persist_home_wifi os ssid password =
     (case ssid of
        None \<Rightarrow> ret (-1)
      | Some ss \<Rightarrow>
          if ss = [] then ret (-1)
          else if chr_dq \<in> set ss \<or> (case password of Some p \<Rightarrow> chr_dq \<in> set p | None \<Rightarrow> False)
          then ret (-1)
          else (let body = home_wifi_body ss (case password of Some p \<Rightarrow> p | None \<Rightarrow> []) in
                if length body \<ge> 1024 then ret (-1)
                else do {
                  rc \<leftarrow> atomic_write_file os HOME_WIFI_CONF body;
                  ret (if rc \<noteq> 0 then -1 else 0) }))"

section \<open>The band file\<close>

definition band_value :: "string \<Rightarrow> band" where
  "band_value v = (if v = ''5G'' \<or> v = ''5g'' then BAND_5 else BAND_24)"

fun band_of_lines :: "string list \<Rightarrow> band" where
  "band_of_lines [] = BAND_24"
| "band_of_lines (l # ls) =
     (case conf_line l of
        Some (k, v) \<Rightarrow> if k = ''BAND'' then band_value v else band_of_lines ls
      | None \<Rightarrow> band_of_lines ls)"

definition read_band :: "('e, band) io" where
  "read_band = do {
     r \<leftarrow> read_file_all BAND_CONF 2048;
     ret (case r of None \<Rightarrow> BAND_24 | Some (_, buf) \<Rightarrow> band_of_lines (strtok_nl buf)) }"

text \<open>
  \<^verbatim>\<open>snprintf(out + opos, sizeof(out) - opos, ...)\<close> with the check that the text fit:
  the new contents of the buffer, or \<open>None\<close> on overflow.
\<close>

definition put :: "nat \<Rightarrow> string \<Rightarrow> string \<Rightarrow> string option" where
  "put cap out s = (if length s \<ge> cap - length out then None else Some (out @ s))"

definition is_band_line :: "string \<Rightarrow> bool" where
  "is_band_line line = (let t = lstrip line in starts_with t ''BAND='' \<or> starts_with t ''BAND ='')"

definition band_line :: "string \<Rightarrow> string" where
  "band_line new_v = ''BAND='' @ [chr_sq] @ new_v @ [chr_sq]"

fun band_copy :: "string \<Rightarrow> string list \<Rightarrow> string \<Rightarrow> bool \<Rightarrow> (string \<times> bool) option" where
  "band_copy new_v [] out replaced = Some (out, replaced)"
| "band_copy new_v (line # ls) out replaced =
     (case put 3072 out ((if is_band_line line then band_line new_v else line) @ [chr_nl]) of
        None \<Rightarrow> None
      | Some out' \<Rightarrow> band_copy new_v ls out' (replaced \<or> is_band_line line))"

definition band_rewrite :: "string \<Rightarrow> string list \<Rightarrow> string option" where
  "band_rewrite new_v ls =
     (case band_copy new_v ls [] False of
        None \<Rightarrow> None
      | Some (out, replaced) \<Rightarrow>
          if \<not> replaced then put 3072 out (band_line new_v @ [chr_nl]) else Some out)"

definition persist_band :: "'e os \<Rightarrow> band \<Rightarrow> ('e, int) io" where
  "persist_band os band = do {
     cur \<leftarrow> read_band;
     if cur = band then ret 0
     else do {
       r \<leftarrow> read_file_all BAND_CONF 2048;
       (case band_rewrite (band_str band) (case r of Some (_, s) \<Rightarrow> strtok_nl s | None \<Rightarrow> []) of
          None \<Rightarrow> ret (-1)
        | Some out \<Rightarrow> do {
            rc \<leftarrow> atomic_write_file os BAND_CONF out;
            ret (if rc \<noteq> 0 then -1 else 0) }) } }"

section \<open>Channels and \<^verbatim>\<open>hostapd.conf\<close>\<close>

definition freq_to_channel :: "u32 \<Rightarrow> band \<Rightarrow> int" where
  "freq_to_channel freq band =
     (if band = BAND_24 then
        (if 2412 \<le> freq \<and> freq \<le> 2472 then uint ((freq - 2407) div 5)
         else if freq = 2484 then 14 else -1)
      else if 5180 \<le> freq \<and> freq \<le> 5240 then uint ((freq - 5000) div 5)
      else if 5745 \<le> freq \<and> freq \<le> 5825 then uint ((freq - 5000) div 5)
      else -1)"

definition band_to_hw_mode :: "band \<Rightarrow> string" where
  "band_to_hw_mode b = (if b = BAND_5 then ''a'' else ''g'')"

definition ap_cred_line ::
  "nat \<Rightarrow> nat \<Rightarrow> string \<Rightarrow> string \<times> string \<times> bool \<Rightarrow> string \<times> string \<times> bool" where
  "ap_cred_line ssid_sz pwd_sz line acc =
     (case acc of (ssid, pwd, got) \<Rightarrow>
       (let t = lstrip line in
        if t = [] \<or> hd t = CHR ''#'' then (ssid, pwd, got)
        else (case after_prefix ''ssid='' t of
                Some v \<Rightarrow> (snprintf_s ssid_sz (rstrip (lstrip v)), pwd, True)
              | None \<Rightarrow>
                  (case after_prefix ''wpa_passphrase='' t of
                     Some v \<Rightarrow> (ssid, snprintf_s pwd_sz (rstrip (lstrip v)), got)
                   | None \<Rightarrow> (ssid, pwd, got)))))"

text \<open>Return code and the contents of the two output buffers.\<close>

definition wifi_switch_get_ap_credentials :: "nat \<Rightarrow> nat \<Rightarrow> ('e, int \<times> string \<times> string) io" where
  "wifi_switch_get_ap_credentials ssid_sz pwd_sz = do {
     r \<leftarrow> read_file_all HOSTAPD_CONF 8192;
     ret (case r of
            None \<Rightarrow> (-1, [], [])
          | Some (_, buf) \<Rightarrow>
              (case fold (ap_cred_line ssid_sz pwd_sz) (strtok_nl buf) ([], [], False) of
                 (ssid, pwd, got) \<Rightarrow> (if got then 0 else -1, ssid, pwd))) }"

definition is_channel_line :: "string \<Rightarrow> bool" where
  "is_channel_line line = starts_with (lstrip line) ''channel=''"

definition is_hw_mode_line :: "string \<Rightarrow> bool" where
  "is_hw_mode_line line = starts_with (lstrip line) ''hw_mode=''"

definition channel_line :: "int \<Rightarrow> string" where
  "channel_line ch = ''channel='' @ dec_of_int ch"

definition hw_mode_line :: "string \<Rightarrow> string" where
  "hw_mode_line hw = ''hw_mode='' @ hw"

fun hostapd_copy ::
  "int \<Rightarrow> string \<Rightarrow> string list \<Rightarrow> string \<Rightarrow> bool \<Rightarrow> bool \<Rightarrow> (string \<times> bool \<times> bool) option" where
  "hostapd_copy new_ch new_hw [] out rch rhw = Some (out, rch, rhw)"
| "hostapd_copy new_ch new_hw (line # ls) out rch rhw =
     (let ch = is_channel_line line; hw = \<not> ch \<and> is_hw_mode_line line in
      case put 9216 out ((if ch then channel_line new_ch
                          else if hw then hw_mode_line new_hw else line) @ [chr_nl]) of
        None \<Rightarrow> None
      | Some out' \<Rightarrow> hostapd_copy new_ch new_hw ls out' (rch \<or> ch) (rhw \<or> hw))"

definition hostapd_rewrite :: "int \<Rightarrow> string \<Rightarrow> string list \<Rightarrow> string option" where
  "hostapd_rewrite new_ch new_hw ls =
     (case hostapd_copy new_ch new_hw ls [] False False of
        None \<Rightarrow> None
      | Some (out, rch, rhw) \<Rightarrow>
          (case (if rch then Some out else put 9216 out (channel_line new_ch @ [chr_nl])) of
             None \<Rightarrow> None
           | Some out1 \<Rightarrow> if rhw then Some out1 else put 9216 out1 (hw_mode_line new_hw @ [chr_nl])))"

definition rewrite_hostapd_channel :: "'e os \<Rightarrow> int \<Rightarrow> band \<Rightarrow> ('e, int) io" where
  "rewrite_hostapd_channel os new_ch band = do {
     r \<leftarrow> read_file_all HOSTAPD_CONF 8192;
     (case r of
        None \<Rightarrow> ret (-1)
      | Some (_, s) \<Rightarrow>
          (case hostapd_rewrite new_ch (band_to_hw_mode band) (strtok_nl s) of
             None \<Rightarrow> ret (-1)
           | Some out \<Rightarrow> write_file os HOSTAPD_CONF out)) }"

section \<open>\<^verbatim>\<open>wpa_supplicant.conf\<close>\<close>

text \<open>The loop with output position \<open>pos\<close>; what it appends to \<^verbatim>\<open>dst\<close>.\<close>

fun escape_from :: "nat \<Rightarrow> nat \<Rightarrow> string \<Rightarrow> string" where
  "escape_from dst_sz pos [] = []"
| "escape_from dst_sz pos (c # cs) =
     (if pos + 2 < dst_sz then
        (if c = chr_dq then chr_bs # c # escape_from dst_sz (pos + 2) cs
         else c # escape_from dst_sz (pos + 1) cs)
      else [])"

definition escape_quotes :: "string \<Rightarrow> nat \<Rightarrow> string" where
  "escape_quotes s dst_sz = escape_from dst_sz 0 s"

definition freq_list :: "band \<Rightarrow> string" where
  "freq_list band =
     (if band = BAND_5 then ''5180 5200 5220 5240 5745 5765 5785 5805 5825''
      else ''2412 2417 2422 2427 2432 2437 2442 2447 2452 2457 2462'')"

definition wpa_body :: "string \<Rightarrow> string \<Rightarrow> string \<Rightarrow> band \<Rightarrow> string" where
  "wpa_body ssid_esc pwd_esc password band = render_lines (
     [''ctrl_interface=DIR=/var/run/wpa_supplicant GROUP=netdev'',
      ''update_config=1'', ''country=CN'', [], ''network={'',
      ''    ssid='' @ [chr_dq] @ ssid_esc @ [chr_dq]] @
     (if password = [] then [''    key_mgmt=NONE'']
      else [''    psk='' @ [chr_dq] @ pwd_esc @ [chr_dq], ''    key_mgmt=WPA-PSK'']) @
     [''    scan_ssid=1'', ''    freq_list='' @ freq_list band, ''}''])"

definition write_wpa_config :: "'e os \<Rightarrow> string \<Rightarrow> string \<Rightarrow> ('e, int) io" where
  "write_wpa_config os ssid password = do {
     band \<leftarrow> read_band;
     (let body = wpa_body (escape_quotes ssid 256) (escape_quotes password 256) password band in
      if length body \<ge> 1024 then ret (-1) else write_file os WPA_CONF body) }"

section \<open>Parsers of command output\<close>

fun inet4_of_lines :: "nat \<Rightarrow> string list \<Rightarrow> string option" where
  "inet4_of_lines sz [] = None"
| "inet4_of_lines sz (l # ls) =
     (case after_prefix ''inet '' (lstrip l) of
        Some r \<Rightarrow>
          (let p = lstrip r in
           Some (snprintf_s sz (case strchr p chr_sp of Some (a, _) \<Rightarrow> a | None \<Rightarrow> p)))
      | None \<Rightarrow> inet4_of_lines sz ls)"

definition extract_inet4 :: "string \<Rightarrow> nat \<Rightarrow> string option" where
  "extract_inet4 ip_show_out out_ip_sz =
     inet4_of_lines out_ip_sz (strtok_nl (snprintf_s 8192 ip_show_out))"

fun field_of_lines :: "string \<Rightarrow> nat \<Rightarrow> string list \<Rightarrow> string option" where
  "field_of_lines key sz [] = None"
| "field_of_lines key sz (l # ls) =
     (case after_prefix (key @ ''='') l of
        Some v \<Rightarrow> Some (take (sz - 1) v)
      | None \<Rightarrow> field_of_lines key sz ls)"

definition field_value :: "string \<Rightarrow> string \<Rightarrow> nat \<Rightarrow> string option" where
  "field_value txt key value_sz =
     (if value_sz = 0 then None else field_of_lines key value_sz (split_nl txt))"

text \<open>bssid, frequency, signal, flags and SSID of a line of \<^verbatim>\<open>wpa_cli scan_results\<close>.\<close>

definition scan_result_line :: "string \<Rightarrow> (string \<times> string \<times> string) option" where
  "scan_result_line line =
     (case strchr line chr_tab of None \<Rightarrow> None
      | Some (_, r1) \<Rightarrow> (case strchr r1 chr_tab of None \<Rightarrow> None
      | Some (freq_s, r2) \<Rightarrow> (case strchr r2 chr_tab of None \<Rightarrow> None
      | Some (signal_s, r3) \<Rightarrow> (case strchr r3 chr_tab of None \<Rightarrow> None
      | Some (_, ssid_s) \<Rightarrow> Some (freq_s, signal_s, ssid_s)))))"

fun find_ssid_line :: "string \<Rightarrow> string list \<Rightarrow> (u32 \<times> int) option" where
  "find_ssid_line ssid [] = None"
| "find_ssid_line ssid (l # ls) =
     (case scan_result_line l of
        Some (freq_s, signal_s, ssid_s) \<Rightarrow>
          if ssid_s = ssid then Some (ucast (strtoul10 freq_s), to_int32 (strtol10 signal_s))
          else find_ssid_line ssid ls
      | None \<Rightarrow> find_ssid_line ssid ls)"

definition scan_results_find_ssid :: "string \<Rightarrow> string \<Rightarrow> (u32 \<times> int) option" where
  "scan_results_find_ssid scan ssid = find_ssid_line ssid (strtok_nl (snprintf_s 16384 scan))"

section \<open>Connection state\<close>

fun has_real_inet :: "string list \<Rightarrow> bool" where
  "has_real_inet [] = False"
| "has_real_inet (l # ls) =
     (case after_prefix ''inet '' (lstrip l) of
        Some r \<Rightarrow> if starts_with (lstrip r) ''169.254.'' then has_real_inet ls else True
      | None \<Rightarrow> has_real_inet ls)"

definition wifi_switch_is_connected :: "'e os \<Rightarrow> ('e, bool) io" where
  "wifi_switch_is_connected os = do {
     r \<leftarrow> exec_capture os ''ip -4 addr show wlan0'' 8192;
     if fst r \<noteq> 0 then ret False
     else if \<not> has_real_inet (strtok_nl (snd r)) then ret False
     else do {
       l \<leftarrow> exec_capture os ''iw dev wlan0 link 2>/dev/null'' 8192;
       ret (fst l = 0 \<and> has_sub (snd l) ''Connected to'') } }"

definition is_associated :: "'e os \<Rightarrow> string \<Rightarrow> ('e, bool) io" where
  "is_associated os iface = do {
     r \<leftarrow> exec_capture os (snprintf_s 128 (''iw dev '' @ iface @ '' link 2>/dev/null'')) 4096;
     ret (\<not> fst r < 0 \<and> has_sub (snd r) ''Connected to'') }"

section \<open>Facts on lines\<close>

lemma lstrip_id [simp]: "s = [] \<or> (hd s \<noteq> chr_sp \<and> hd s \<noteq> chr_tab) \<Longrightarrow> lstrip s = s"
  by (cases s) (auto simp: lstrip_def)

lemma rstrip_id [simp]: "s = [] \<or> \<not> rstrip_char (last s) \<Longrightarrow> rstrip s = s"
  by (cases s rule: rev_cases) (auto simp: rstrip_def)

lemma strip_quotes_quoted [simp]:
  "q = chr_dq \<or> q = chr_sq \<Longrightarrow> strip_quotes (q # v @ [q]) = v"
  by (auto simp: strip_quotes_def)

text \<open>A plain key: what the writers put before the equals sign.\<close>

definition plain_key :: "string \<Rightarrow> bool" where
  "plain_key k \<longleftrightarrow> k \<noteq> [] \<and> hd k \<noteq> chr_sp \<and> hd k \<noteq> chr_tab \<and> hd k \<noteq> CHR ''#'' \<and>
     CHR ''='' \<notin> set k \<and> \<not> rstrip_char (last k)"

lemma conf_line_quoted:
  assumes "plain_key k" and q: "q = chr_dq \<or> q = chr_sq"
  shows "conf_line (k @ CHR ''='' # q # v @ [q]) = Some (k, v)"
proof -
  let ?l = "k @ CHR ''='' # q # v @ [q]"
  have ne: "?l \<noteq> []" and hd: "hd ?l = hd k" and last: "last ?l = q"
    using assms by (auto simp: plain_key_def)
  have nq: "\<not> rstrip_char q" "q \<noteq> chr_sp" "q \<noteq> chr_tab"
    using q by (auto simp: rstrip_char_def)
  have "lstrip ?l = ?l" using assms hd by (intro lstrip_id) (auto simp: plain_key_def)
  moreover have "rstrip ?l = ?l" using last nq by (intro rstrip_id) auto
  moreover have "strchr ?l (CHR ''='') = Some (k, q # v @ [q])"
    using assms by (intro strchr_append) (auto simp: plain_key_def)
  moreover have "rstrip k = k" using assms by (intro rstrip_id) (auto simp: plain_key_def)
  moreover have "rstrip (lstrip (q # v @ [q])) = q # v @ [q]" using nq by simp
  ultimately show ?thesis
    using assms hd by (auto simp: conf_line_def Let_def plain_key_def)
qed

lemma conf_line_comment: "conf_line (CHR ''#'' # s) = None"
proof -
  have "lstrip (CHR ''#'' # s) = CHR ''#'' # s" by simp
  moreover have "rstrip (CHR ''#'' # s) = CHR ''#'' # rstrip s"
  proof (cases "dropWhile rstrip_char (rev s) = []")
    case True
    then show ?thesis by (simp add: rstrip_def dropWhile_append rstrip_char_def)
  next
    case False
    then show ?thesis by (auto simp: rstrip_def dropWhile_append rstrip_char_def)
  qed
  ultimately show ?thesis by (simp add: conf_line_def Let_def)
qed

section \<open>Credentials: written, then read back\<close>

lemma conf_line_home_wifi:
  "conf_line (''HOME_SSID='' @ [chr_dq] @ v @ [chr_dq]) = Some (''HOME_SSID'', v)"
  "conf_line (''HOME_PASSWORD='' @ [chr_dq] @ v @ [chr_dq]) = Some (''HOME_PASSWORD'', v)"
  using conf_line_quoted [of "''HOME_SSID''" chr_dq v] conf_line_quoted [of "''HOME_PASSWORD''" chr_dq v]
  by (simp_all add: plain_key_def rstrip_char_def)

lemma strtok_home_wifi_body:
  assumes "chr_nl \<notin> set ssid" and "chr_nl \<notin> set pwd"
  shows "strtok_nl (home_wifi_body ssid pwd) =
    [''# Taishan home WiFi credentials.'',
     ''# Managed by system_service; rewritten when BLE provisioning succeeds.'',
     ''HOME_SSID='' @ [chr_dq] @ ssid @ [chr_dq],
     ''HOME_PASSWORD='' @ [chr_dq] @ pwd @ [chr_dq]]"
  unfolding home_wifi_body_def by (rule strtok_nl_render) (use assms in auto)

lemma fold_home_wifi_body:
  assumes "chr_nl \<notin> set ssid" and "chr_nl \<notin> set pwd"
  shows "fold (home_wifi_line m n) (strtok_nl (home_wifi_body ssid pwd)) ([], [], False) =
    (snprintf_s m ssid, snprintf_s n pwd, True)"
  unfolding strtok_home_wifi_body [OF assms]
  by (simp add: home_wifi_line_def conf_line_comment conf_line_home_wifi [simplified])

lemma home_wifi_body_no_nul:
  "chr_nul \<notin> set ssid \<Longrightarrow> chr_nul \<notin> set pwd \<Longrightarrow> chr_nul \<notin> set (home_wifi_body ssid pwd)"
  by (simp add: home_wifi_body_def render_lines_def)

lemma persist_home_wifi_ok:
  assumes "run_state (wifi_switch_persist_home_wifi os (Some ssid) pwd) w = (0, w')"
  shows "w_files w' HOME_WIFI_CONF = Some (home_wifi_body ssid (case pwd of Some p \<Rightarrow> p | None \<Rightarrow> []))"
    and "length (home_wifi_body ssid (case pwd of Some p \<Rightarrow> p | None \<Rightarrow> [])) < 1024"
    and "ssid \<noteq> []"
proof -
  let ?b = "home_wifi_body ssid (case pwd of Some p \<Rightarrow> p | None \<Rightarrow> [])"
  obtain r v where a: "run_state (atomic_write_file os HOME_WIFI_CONF ?b) w = (r, v)"
    by (cases "run_state (atomic_write_file os HOME_WIFI_CONF ?b) w")
  have "r = 0 \<and> v = w' \<and> length ?b < 1024 \<and> ssid \<noteq> []"
    using assms a by (auto simp: wifi_switch_persist_home_wifi_def Let_def split: if_splits)
  then show "w_files w' HOME_WIFI_CONF = Some ?b" "length ?b < 1024" "ssid \<noteq> []"
    using run_atomic_write_file(2) [OF a] by auto
qed

lemma run_read_home_wifi:
  assumes "w_files w HOME_WIFI_CONF = Some (home_wifi_body ssid pwd)"
    and "length (home_wifi_body ssid pwd) < 2048" and "ssid \<noteq> []"
    and "chr_nl \<notin> set ssid" "chr_nl \<notin> set pwd" "chr_nul \<notin> set ssid" "chr_nul \<notin> set pwd"
    and "length ssid < m" "length pwd < n"
  shows "run_state (read_home_wifi m n) w = (Some (ssid, pwd), w)"
  using assms
  by (simp add: read_home_wifi_def run_read_file_all fold_home_wifi_body home_wifi_body_no_nul)

section \<open>The band file: written, then read back\<close>

lemma put_Some_iff: "put cap out s = Some r \<longleftrightarrow> r = out @ s \<and> length s < cap - length out"
  by (auto simp: put_def)

lemma render_lines_append: "render_lines (a @ b) = render_lines a @ render_lines b"
  by (simp add: render_lines_def)

lemma render_lines_Cons: "render_lines (l # ls) = l @ [chr_nl] @ render_lines ls"
  by (simp add: render_lines_def)

lemma render_lines_Nil [simp]: "render_lines [] = []"
  by (simp add: render_lines_def)

lemma band_copy_Some:
  assumes "band_copy v ls out rep = Some (r, rep')"
  shows "r = out @ render_lines (map (\<lambda>l. if is_band_line l then band_line v else l) ls) \<and>
    rep' = (rep \<or> (\<exists>l \<in> set ls. is_band_line l))"
  using assms
  by (induction v ls out rep rule: band_copy.induct)
     (auto simp: put_Some_iff render_lines_Cons split: option.splits)

text \<open>The lines of the rewritten band file.\<close>

definition band_lines :: "string \<Rightarrow> string list \<Rightarrow> string list" where
  "band_lines v ls = map (\<lambda>l. if is_band_line l then band_line v else l) ls @
     (if \<exists>l \<in> set ls. is_band_line l then [] else [band_line v])"

lemma band_rewrite_Some: "band_rewrite v ls = Some r \<Longrightarrow> r = render_lines (band_lines v ls)"
  by (auto simp: band_rewrite_def band_lines_def put_Some_iff render_lines_append render_lines_Cons
      dest!: band_copy_Some split: option.splits if_splits)

lemma conf_line_band_line: "conf_line (band_line v) = Some (''BAND'', v)"
  using conf_line_quoted [of "''BAND''" chr_sq v] by (simp add: band_line_def plain_key_def rstrip_char_def)

text \<open>
  Every line that \<^verbatim>\<open>read_band\<close> would take for the band is one that \<^verbatim>\<open>persist_band\<close>
  recognises.
\<close>

definition band_keys_plain :: "string list \<Rightarrow> bool" where
  "band_keys_plain ls \<longleftrightarrow>
     list_all (\<lambda>l. case conf_line l of Some (k, _) \<Rightarrow> k = ''BAND'' \<longrightarrow> is_band_line l | None \<Rightarrow> True) ls"

lemma band_of_lines_band_lines:
  "band_keys_plain ls \<Longrightarrow> band_of_lines (band_lines v ls) = band_value v"
proof (induction ls)
  case Nil
  then show ?case by (simp add: band_lines_def conf_line_band_line)
next
  case (Cons l ls)
  show ?case
  proof (cases "is_band_line l")
    case True
    then show ?thesis by (simp add: band_lines_def conf_line_band_line)
  next
    case False
    then have step: "band_lines v (l # ls) = l # band_lines v ls" by (simp add: band_lines_def)
    from Cons.prems False have "\<forall>w. conf_line l \<noteq> Some (''BAND'', w)"
      by (auto simp: band_keys_plain_def)
    then have "band_of_lines (l # band_lines v ls) = band_of_lines (band_lines v ls)"
      by (auto split: option.split)
    with Cons show ?thesis by (simp add: step band_keys_plain_def)
  qed
qed

lemma band_value_band_str [simp]: "band_value (band_str b) = b"
  by (cases b) (simp_all add: band_value_def band_str_def)

lemma band_str_chars: "chr_nl \<notin> set (band_str b)" "chr_nul \<notin> set (band_str b)"
  by (cases b; simp add: band_str_def)+

lemma band_lines_lines:
  assumes "\<And>l. l \<in> set ls \<Longrightarrow> l \<noteq> [] \<and> chr_nl \<notin> set l \<and> chr_nul \<notin> set l"
    and "l \<in> set (band_lines (band_str b) ls)"
  shows "l \<noteq> [] \<and> chr_nl \<notin> set l \<and> chr_nul \<notin> set l"
  using assms band_str_chars [of b]
  by (auto simp: band_lines_def band_line_def split: if_splits)

text \<open>The band file as \<^verbatim>\<open>read_band\<close> and \<^verbatim>\<open>persist_band\<close> see it.\<close>

definition band_file_lines :: "'e world \<Rightarrow> string list" where
  "band_file_lines w = (case w_files w BAND_CONF of None \<Rightarrow> [] | Some s \<Rightarrow> strtok_nl (cstr (take 2047 s)))"

lemma band_file_lines_ok:
  "l \<in> set (band_file_lines w) \<Longrightarrow> l \<noteq> [] \<and> chr_nl \<notin> set l \<and> chr_nul \<notin> set l"
  by (auto simp: band_file_lines_def split: option.splits dest: strtok_nl_lines)
     (metis cstr_no_nul strtok_nl_lines(3) subsetD)

lemma run_read_band: "run_state read_band w = (band_of_lines (band_file_lines w), w)"
  by (auto simp: read_band_def run_read_file_all band_file_lines_def split: option.split)

lemma set_render_lines: "c \<in> set (render_lines ls) \<Longrightarrow> c = chr_nl \<or> (\<exists>l \<in> set ls. c \<in> set l)"
  by (auto simp: render_lines_def split: if_splits)

lemma band_file_lines_written:
  assumes "w_files w' BAND_CONF = Some (render_lines ls)" and "length (render_lines ls) < 2048"
    and "\<And>l. l \<in> set ls \<Longrightarrow> l \<noteq> [] \<and> chr_nl \<notin> set l \<and> chr_nul \<notin> set l"
  shows "band_file_lines w' = ls"
proof -
  have "chr_nul \<notin> set (render_lines ls)" using assms(3) by (auto dest: set_render_lines)
  then show ?thesis
    using assms by (simp add: band_file_lines_def)
qed

lemma run_persist_band:
  assumes "run_state (persist_band os b) w = (0, w')"
  shows "(band_of_lines (band_file_lines w) = b \<and> w' = w) \<or>
    w_files w' BAND_CONF = Some (render_lines (band_lines (band_str b) (band_file_lines w)))"
proof (cases "band_of_lines (band_file_lines w) = b")
  case True
  with assms show ?thesis by (simp add: persist_band_def run_read_band)
next
  case False
  have ls: "(case w_files w BAND_CONF of None \<Rightarrow> []
      | Some s \<Rightarrow> strtok_nl (cstr (take 2047 s))) = band_file_lines w"
    by (simp add: band_file_lines_def)
  show ?thesis
  proof (cases "band_rewrite (band_str b) (band_file_lines w)")
    case None
    with assms False show ?thesis
      by (auto simp: persist_band_def run_read_band run_read_file_all band_file_lines_def split: option.splits)
  next
    case (Some out)
    obtain r v where a: "run_state (atomic_write_file os BAND_CONF out) w = (r, v)"
      by (cases "run_state (atomic_write_file os BAND_CONF out) w")
    from assms False Some a have "r = 0 \<and> v = w'"
      by (auto simp: persist_band_def run_read_band run_read_file_all band_file_lines_def
          split: option.splits if_splits)
    with run_atomic_write_file(2) [OF a] band_rewrite_Some [OF Some] show ?thesis by auto
  qed
qed

section \<open>Rewriting \<^verbatim>\<open>hostapd.conf\<close>\<close>

definition hostapd_line :: "int \<Rightarrow> string \<Rightarrow> string \<Rightarrow> string" where
  "hostapd_line ch hw l =
     (if is_channel_line l then channel_line ch else if is_hw_mode_line l then hw_mode_line hw else l)"

definition hostapd_lines :: "int \<Rightarrow> string \<Rightarrow> string list \<Rightarrow> string list" where
  "hostapd_lines ch hw ls = map (hostapd_line ch hw) ls @
     (if \<exists>l \<in> set ls. is_channel_line l then [] else [channel_line ch]) @
     (if \<exists>l \<in> set ls. is_hw_mode_line l then [] else [hw_mode_line hw])"

lemma channel_not_hw_mode: "is_channel_line l \<Longrightarrow> \<not> is_hw_mode_line l"
  unfolding is_channel_line_def is_hw_mode_line_def starts_with_def
  by (cases "lstrip l") auto

lemma hostapd_copy_Some:
  assumes "hostapd_copy ch hw ls out rch rhw = Some (r, rch', rhw')"
  shows "r = out @ render_lines (map (hostapd_line ch hw) ls) \<and>
    rch' = (rch \<or> (\<exists>l \<in> set ls. is_channel_line l)) \<and>
    rhw' = (rhw \<or> (\<exists>l \<in> set ls. is_hw_mode_line l))"
  using assms
  by (induction ch hw ls out rch rhw rule: hostapd_copy.induct)
     (auto simp: put_Some_iff render_lines_Cons hostapd_line_def Let_def
        split: option.splits if_splits dest: channel_not_hw_mode)

lemma hostapd_rewrite_Some: "hostapd_rewrite ch hw ls = Some r \<Longrightarrow> r = render_lines (hostapd_lines ch hw ls)"
  by (auto simp: hostapd_rewrite_def hostapd_lines_def put_Some_iff render_lines_append render_lines_Cons
      dest!: hostapd_copy_Some split: option.splits if_splits)

lemma is_line_of_new [simp]:
  "is_channel_line (channel_line ch)" "is_hw_mode_line (hw_mode_line hw)"
  "\<not> is_hw_mode_line (channel_line ch)" "\<not> is_channel_line (hw_mode_line hw)"
  by (simp_all add: is_channel_line_def is_hw_mode_line_def channel_line_def hw_mode_line_def starts_with_def)

lemma hostapd_lines_channel:
  "l \<in> set (hostapd_lines ch hw ls) \<Longrightarrow> is_channel_line l \<longleftrightarrow> l = channel_line ch"
  and hostapd_lines_hw_mode:
  "l \<in> set (hostapd_lines ch hw ls) \<Longrightarrow> is_hw_mode_line l \<longleftrightarrow> l = hw_mode_line hw"
  by (auto simp: hostapd_lines_def hostapd_line_def split: if_splits)

lemma hostapd_lines_mem:
  "channel_line ch \<in> set (hostapd_lines ch hw ls)" "hw_mode_line hw \<in> set (hostapd_lines ch hw ls)"
  by (auto simp: hostapd_lines_def hostapd_line_def image_iff dest: channel_not_hw_mode)

lemma hostapd_lines_rest:
  "filter (\<lambda>l. \<not> is_channel_line l \<and> \<not> is_hw_mode_line l) (hostapd_lines ch hw ls) =
   filter (\<lambda>l. \<not> is_channel_line l \<and> \<not> is_hw_mode_line l) ls"
  by (induction ls) (auto simp: hostapd_lines_def hostapd_line_def)

definition hostapd_file_lines :: "'e world \<Rightarrow> string list" where
  "hostapd_file_lines w = (case w_files w HOSTAPD_CONF of None \<Rightarrow> [] | Some s \<Rightarrow> strtok_nl (cstr (take 8191 s)))"

lemma run_rewrite_hostapd_channel:
  assumes "run_state (rewrite_hostapd_channel os ch b) w = (0, w')"
  shows "w_files w HOSTAPD_CONF \<noteq> None"
    and "w_files w' = (w_files w)(HOSTAPD_CONF \<mapsto>
           render_lines (hostapd_lines ch (band_to_hw_mode b) (hostapd_file_lines w)))"
proof -
  from assms obtain s where s: "w_files w HOSTAPD_CONF = Some s"
    by (auto simp: rewrite_hostapd_channel_def run_read_file_all split: option.splits)
  then show "w_files w HOSTAPD_CONF \<noteq> None" by simp
  from assms s obtain out where out: "hostapd_rewrite ch (band_to_hw_mode b) (hostapd_file_lines w) = Some out"
    and wr: "run_state (write_file os HOSTAPD_CONF out) w = (0, w')"
    by (auto simp: rewrite_hostapd_channel_def run_read_file_all hostapd_file_lines_def split: option.splits)
  show "w_files w' = (w_files w)(HOSTAPD_CONF \<mapsto>
      render_lines (hostapd_lines ch (band_to_hw_mode b) (hostapd_file_lines w)))"
    using run_write_file(2) [OF wr] hostapd_rewrite_Some [OF out] by simp
qed

text \<open>Channel and mode lines carry no credentials, so the rewrite keeps them.\<close>

lemma ap_cred_line_skip:
  "is_channel_line l \<or> is_hw_mode_line l \<Longrightarrow> ap_cred_line m n l acc = acc"
  unfolding is_channel_line_def is_hw_mode_line_def starts_with_def ap_cred_line_def
  by (cases acc; cases "lstrip l") (auto simp: Let_def)

lemma ap_cred_hostapd_line: "ap_cred_line m n (hostapd_line ch hw l) acc = ap_cred_line m n l acc"
  by (simp add: hostapd_line_def ap_cred_line_skip)

lemma fold_ap_cred_hostapd_lines:
  "fold (ap_cred_line m n) (hostapd_lines ch hw ls) acc = fold (ap_cred_line m n) ls acc"
proof -
  have "fold (ap_cred_line m n) (map (hostapd_line ch hw) ls) acc = fold (ap_cred_line m n) ls acc" for acc
    by (induction ls arbitrary: acc) (simp_all add: ap_cred_hostapd_line)
  then show ?thesis
    by (simp add: hostapd_lines_def ap_cred_line_skip)
qed

lemma hostapd_lines_lines:
  assumes "\<And>l. l \<in> set ls \<Longrightarrow> l \<noteq> [] \<and> chr_nl \<notin> set l \<and> chr_nul \<notin> set l"
    and "l \<in> set (hostapd_lines ch (band_to_hw_mode b) ls)"
  shows "l \<noteq> [] \<and> chr_nl \<notin> set l \<and> chr_nul \<notin> set l"
proof -
  have "chr_nl \<notin> set (dec_of_int ch)" "chr_nul \<notin> set (dec_of_int ch)"
    by (simp_all add: dec_of_int_def dec_of_nat_no_nl dec_of_nat_no_nul)
  moreover have "chr_nl \<notin> set (band_to_hw_mode b)" "chr_nul \<notin> set (band_to_hw_mode b)"
    by (simp_all add: band_to_hw_mode_def)
  ultimately show ?thesis
    using assms
    by (auto simp: hostapd_lines_def hostapd_line_def channel_line_def hw_mode_line_def split: if_splits)
qed

lemma hostapd_file_lines_ok:
  "l \<in> set (hostapd_file_lines w) \<Longrightarrow> l \<noteq> [] \<and> chr_nl \<notin> set l \<and> chr_nul \<notin> set l"
  by (auto simp: hostapd_file_lines_def split: option.splits dest: strtok_nl_lines)
     (metis cstr_no_nul strtok_nl_lines(3) subsetD)

lemma run_get_ap_credentials:
  assumes "w_files w HOSTAPD_CONF \<noteq> None"
  shows "run_state (wifi_switch_get_ap_credentials m n) w =
    (case fold (ap_cred_line m n) (hostapd_file_lines w) ([], [], False) of
       (ssid, pwd, got) \<Rightarrow> (if got then 0 else -1, ssid, pwd), w)"
  using assms
  by (auto simp: wifi_switch_get_ap_credentials_def run_read_file_all hostapd_file_lines_def)

lemma hostapd_file_lines_written:
  assumes "w_files w' HOSTAPD_CONF = Some (render_lines ls)" and "length (render_lines ls) < 8192"
    and "\<And>l. l \<in> set ls \<Longrightarrow> l \<noteq> [] \<and> chr_nl \<notin> set l \<and> chr_nul \<notin> set l"
  shows "hostapd_file_lines w' = ls"
proof -
  have "chr_nul \<notin> set (render_lines ls)" using assms(3) by (auto dest: set_render_lines)
  then show ?thesis using assms by (simp add: hostapd_file_lines_def)
qed

section \<open>Bounds\<close>

lemma length_escape_from: "pos < dst_sz \<Longrightarrow> pos + length (escape_from dst_sz pos s) < dst_sz"
  by (induction dst_sz pos s rule: escape_from.induct) auto

lemma escape_from_plain:
  "chr_dq \<notin> set s \<Longrightarrow> pos + length s + 1 < dst_sz \<Longrightarrow> escape_from dst_sz pos s = s"
  by (induction dst_sz pos s rule: escape_from.induct) auto

lemma freq_to_channel_cases:
  "freq_to_channel f b = -1 \<or>
   (b = BAND_24 \<and> 1 \<le> freq_to_channel f b \<and> freq_to_channel f b \<le> 14) \<or>
   (b = BAND_5 \<and> (36 \<le> freq_to_channel f b \<and> freq_to_channel f b \<le> 48 \<or>
                   149 \<le> freq_to_channel f b \<and> freq_to_channel f b \<le> 165))"
proof -
  have div: "uint ((f - k) div 5) = (uint f - uint k) div 5" if "k \<le> f" for k :: u32
    using that by (simp add: uint_div uint_sub_lem [THEN iffD1] word_le_def)
  have "uint ((f - 2407) div 5) \<in> {1..13}" if "2412 \<le> f" "f \<le> 2472"
  proof -
    have "(2407::u32) \<le> f" using that(1) by (rule order_trans [rotated]) simp
    with that show ?thesis by (simp add: div word_le_def) linarith
  qed
  moreover have "uint ((f - 5000) div 5) \<in> {36..48}" if "5180 \<le> f" "f \<le> 5240"
  proof -
    have "(5000::u32) \<le> f" using that(1) by (rule order_trans [rotated]) simp
    with that show ?thesis by (simp add: div word_le_def) linarith
  qed
  moreover have "uint ((f - 5000) div 5) \<in> {149..165}" if "5745 \<le> f" "f \<le> 5825"
  proof -
    have "(5000::u32) \<le> f" using that(1) by (rule order_trans [rotated]) simp
    with that show ?thesis by (simp add: div word_le_def) linarith
  qed
  ultimately show ?thesis
    by (cases b) (auto simp: freq_to_channel_def)
qed


lemma length_escape_le: "length (escape_quotes s n) < max 1 n"
  using length_escape_from [of 0 n s] by (cases "n = 0"; cases s) (auto simp: escape_quotes_def)

lemma length_render_lines: "length (render_lines ls) = sum_list (map (\<lambda>l. Suc (length l)) ls)"
  by (induction ls) (simp_all add: render_lines_Cons)

text \<open>The wpa configuration for plain credentials of legal length.\<close>

lemma escape_quotes_plain: "chr_dq \<notin> set s \<Longrightarrow> length s < 255 \<Longrightarrow> escape_quotes s 256 = s"
  by (simp add: escape_quotes_def escape_from_plain)

lemma length_wpa_body:
  assumes "length se \<le> 255" and "length pe \<le> 255"
  shows "length (wpa_body se pe pwd b) < 1024"
  using assms by (cases b) (auto simp: wpa_body_def length_render_lines freq_list_def)

section \<open>Properties of the configuration files\<close>

text \<open>
  Provisioned credentials survive a restart: after
  \<^verbatim>\<open>wifi_switch_persist_home_wifi\<close> returned 0, \<^verbatim>\<open>read_home_wifi\<close> returns exactly the SSID and
  password that were stored, for every SSID and password without line breaks that fit the
  buffers of the reader (a missing password is stored as the empty one).
\<close>

theorem persist_home_wifi_roundtrip:
  assumes "run_state (wifi_switch_persist_home_wifi os (Some ssid) pwd) w = (0, w')"
    and "p = (case pwd of Some p \<Rightarrow> p | None \<Rightarrow> [])"
    and "chr_nl \<notin> set ssid" "chr_nl \<notin> set p" "chr_nul \<notin> set ssid" "chr_nul \<notin> set p"
    and "length ssid < m" "length p < n"
  shows "run_state (read_home_wifi m n) w' = (Some (ssid, p), w')"
  using persist_home_wifi_ok [OF assms(1)] assms(2-)
  by (intro run_read_home_wifi) auto

theorem persist_home_wifi_roundtrip_witness:
  "\<exists>w'. run_state (wifi_switch_persist_home_wifi (ok_os (\<lambda>_. [])) (Some ''home'') (Some ''12345678''))
          (world0 (\<lambda>_. None)) = (0, w') \<and>
        run_state (read_home_wifi 128 128) w' = (Some (''home'', ''12345678''), w')"
proof -
  let ?m = "wifi_switch_persist_home_wifi (ok_os (\<lambda>_. [])) (Some ''home'') (Some ''12345678'')"
  obtain w' where w': "run_state ?m (world0 (\<lambda>_. None)) = (0, w')"
    by (simp add: wifi_switch_persist_home_wifi_def home_wifi_body_def render_lines_def
        ok_os_atomic_write_file HOME_WIFI_CONF_def)
  from persist_home_wifi_roundtrip [OF w', of "''12345678''" 128 128] w' show ?thesis by auto
qed

text \<open>
  Storing the band takes effect: after \<^verbatim>\<open>persist_band\<close> returned 0, \<^verbatim>\<open>read_band\<close>
  returns that band, provided the result fits the reader's buffer of 2047 characters and every
  line of the old file that the reader would take for the band is one the writer recognises
  (\<open>BAND=\<close> or \<open>BAND =\<close> at the start of the line).
\<close>

theorem persist_band_effective:
  assumes "run_state (persist_band os b) w = (0, w')"
    and "band_keys_plain (band_file_lines w)"
    and "\<And>s. w_files w' BAND_CONF = Some s \<Longrightarrow> length s < 2048"
  shows "run_state read_band w' = (b, w')"
  using run_persist_band [OF assms(1)]
proof
  assume "band_of_lines (band_file_lines w) = b \<and> w' = w"
  then show ?thesis by (simp add: run_read_band)
next
  let ?ls = "band_lines (band_str b) (band_file_lines w)"
  assume f: "w_files w' BAND_CONF = Some (render_lines ?ls)"
  have "band_file_lines w' = ?ls"
    by (rule band_file_lines_written [OF f assms(3) [OF f]])
       (rule band_lines_lines [OF band_file_lines_ok])
  then show ?thesis
    by (simp add: run_read_band band_of_lines_band_lines assms(2))
qed

definition band_example :: files where
  "band_example = [BAND_CONF \<mapsto> render_lines [''# comment'', ''COUNTRY=CN'', ''BAND=2.4G'']]"

theorem persist_band_effective_witness:
  "\<exists>w'. run_state (persist_band (ok_os (\<lambda>_. [])) BAND_5) (world0 band_example) = (0, w') \<and>
        run_state read_band w' = (BAND_5, w')"
proof -
  let ?w = "world0 band_example"
  let ?ls = "[''# comment'', ''COUNTRY=CN'', ''BAND=2.4G'']"
  have f: "w_files ?w BAND_CONF = Some (render_lines ?ls)" by (simp add: world0_def band_example_def)
  have ls: "band_file_lines ?w = ?ls"
    by (rule band_file_lines_written [OF f]) (auto simp: render_lines_def)
  have old: "band_of_lines ?ls = BAND_24" and keys: "band_keys_plain ?ls"
    by (simp_all add: conf_line_def lstrip_def rstrip_def rstrip_char_def Let_def strip_quotes_def
        band_value_def band_keys_plain_def is_band_line_def starts_with_def)
  have rw: "band_rewrite ''5G'' ?ls = Some (render_lines [''# comment'', ''COUNTRY=CN'', band_line ''5G''])"
    by (simp add: band_rewrite_def is_band_line_def lstrip_def starts_with_def put_def band_line_def render_lines_def)
  obtain w' where w': "run_state (persist_band (ok_os (\<lambda>_. [])) BAND_5) ?w = (0, w')"
    and f': "w_files w' BAND_CONF = Some (render_lines [''# comment'', ''COUNTRY=CN'', band_line ''5G''])"
    using f ls old rw
    by (simp add: persist_band_def run_read_band run_read_file_all band_file_lines_def band_str_def
        ok_os_atomic_write_file BAND_CONF_def)
  from persist_band_effective [OF w'] w' keys f' show ?thesis
    by (auto simp: ls render_lines_def band_line_def)
qed

text \<open>
  The limit of the previous property is real: with a tab between the key and the
  equals sign \<^verbatim>\<open>persist_band\<close> reports success and appends a second line, while
  \<^verbatim>\<open>read_band\<close> keeps answering with the first one, so the change has no effect.
\<close>

theorem persist_band_ineffective:
  "\<exists>w'. run_state (persist_band (ok_os (\<lambda>_. [])) BAND_24)
          (world0 [BAND_CONF \<mapsto> ''BAND'' @ [chr_tab] @ ''=5G'' @ [chr_nl]]) = (0, w') \<and>
        w_files w' BAND_CONF = Some (render_lines [''BAND'' @ [chr_tab] @ ''=5G'', band_line ''2.4G'']) \<and>
        run_state read_band w' = (BAND_5, w')"
proof -
  let ?l = "''BAND'' @ [chr_tab] @ ''=5G''"
  let ?w = "world0 [BAND_CONF \<mapsto> ''BAND'' @ [chr_tab] @ ''=5G'' @ [chr_nl]]"
  have f: "w_files ?w BAND_CONF = Some (render_lines [?l])" by (simp add: world0_def render_lines_def)
  have ls: "band_file_lines ?w = [?l]"
    by (rule band_file_lines_written [OF f]) (auto simp: render_lines_def)
  have bl: "band_of_lines (?l # ls) = BAND_5" for ls
    by (simp add: conf_line_def lstrip_def rstrip_def rstrip_char_def Let_def strip_quotes_def band_value_def)
  let ?out = "render_lines [?l, band_line ''2.4G'']"
  have rw: "band_rewrite ''2.4G'' [?l] = Some ?out"
    by (simp add: band_rewrite_def is_band_line_def lstrip_def starts_with_def put_def band_line_def render_lines_def)
  obtain w' where w': "run_state (persist_band (ok_os (\<lambda>_. [])) BAND_24) ?w = (0, w')"
    and f': "w_files w' BAND_CONF = Some ?out"
    using f ls bl [of "[]"] rw
    by (simp add: persist_band_def run_read_band run_read_file_all band_file_lines_def band_str_def
        ok_os_atomic_write_file BAND_CONF_def)
  have "band_file_lines w' = [?l, band_line ''2.4G'']"
    by (rule band_file_lines_written [OF f']) (auto simp: render_lines_def band_line_def)
  then have "run_state read_band w' = (BAND_5, w')"
    using bl [of "[band_line ''2.4G'']"] by (simp only: run_read_band)
  with w' f' show ?thesis by blast
qed

text \<open>
  Moving the access point to another channel changes nothing else in
  \<^verbatim>\<open>hostapd.conf\<close>: after \<^verbatim>\<open>rewrite_hostapd_channel\<close> returned 0, the non-empty lines of the
  file are the old ones in their order except that every channel and mode line now carries
  the new value (and is there), no other file changed, and, where the file fits the reader's
  buffer, the AP credentials reported by \<^verbatim>\<open>wifi_switch_get_ap_credentials\<close> are the same.
\<close>

theorem rewrite_hostapd_channel_effect:
  assumes "run_state (rewrite_hostapd_channel os ch b) w = (0, w')"
    and "\<And>s. w_files w' HOSTAPD_CONF = Some s \<Longrightarrow> length s < 8192"
  shows "filter (\<lambda>l. \<not> is_channel_line l \<and> \<not> is_hw_mode_line l) (hostapd_file_lines w') =
         filter (\<lambda>l. \<not> is_channel_line l \<and> \<not> is_hw_mode_line l) (hostapd_file_lines w) \<and>
    filter is_channel_line (hostapd_file_lines w') \<noteq> [] \<and>
    filter is_hw_mode_line (hostapd_file_lines w') \<noteq> [] \<and>
    (\<forall>l \<in> set (hostapd_file_lines w'). (is_channel_line l \<longrightarrow> l = ''channel='' @ dec_of_int ch) \<and>
       (is_hw_mode_line l \<longrightarrow> l = ''hw_mode='' @ band_to_hw_mode b)) \<and>
    (\<forall>q. q \<noteq> HOSTAPD_CONF \<longrightarrow> w_files w' q = w_files w q) \<and>
    fst (run_state (wifi_switch_get_ap_credentials m n) w') = fst (run_state (wifi_switch_get_ap_credentials m n) w)"
proof (intro conjI)
  let ?ls = "hostapd_lines ch (band_to_hw_mode b) (hostapd_file_lines w)"
  note r = run_rewrite_hostapd_channel [OF assms(1)]
  have f: "w_files w' HOSTAPD_CONF = Some (render_lines ?ls)" by (simp add: r(2))
  have ls: "hostapd_file_lines w' = ?ls"
    by (rule hostapd_file_lines_written [OF f assms(2) [OF f]])
       (rule hostapd_lines_lines [OF hostapd_file_lines_ok])
  show "filter (\<lambda>l. \<not> is_channel_line l \<and> \<not> is_hw_mode_line l) (hostapd_file_lines w') =
        filter (\<lambda>l. \<not> is_channel_line l \<and> \<not> is_hw_mode_line l) (hostapd_file_lines w)"
    by (simp add: ls hostapd_lines_rest)
  show "filter is_channel_line (hostapd_file_lines w') \<noteq> []" "filter is_hw_mode_line (hostapd_file_lines w') \<noteq> []"
    using hostapd_lines_mem
      is_line_of_new(1,2)
    unfolding ls filter_empty_conv by blast+
  show "\<forall>l \<in> set (hostapd_file_lines w'). (is_channel_line l \<longrightarrow> l = ''channel='' @ dec_of_int ch) \<and>
       (is_hw_mode_line l \<longrightarrow> l = ''hw_mode='' @ band_to_hw_mode b)"
    using hostapd_lines_channel hostapd_lines_hw_mode unfolding ls channel_line_def hw_mode_line_def by blast
  show "\<forall>q. q \<noteq> HOSTAPD_CONF \<longrightarrow> w_files w' q = w_files w q" by (simp add: r(2))
  show "fst (run_state (wifi_switch_get_ap_credentials m n) w') = fst (run_state (wifi_switch_get_ap_credentials m n) w)"
    using f r(1) by (simp add: run_get_ap_credentials ls fold_ap_cred_hostapd_lines)
qed

definition hostapd_example :: files where
  "hostapd_example = [HOSTAPD_CONF \<mapsto>
     render_lines [''interface=wlan0'', ''ssid=Taishan'', ''channel=6'', ''wpa_passphrase=12345678'']]"

theorem rewrite_hostapd_channel_effect_witness:
  "\<exists>w'. run_state (rewrite_hostapd_channel (ok_os (\<lambda>_. [])) 36 BAND_5) (world0 hostapd_example) = (0, w') \<and>
        filter is_hw_mode_line (hostapd_file_lines w') \<noteq> []"
proof -
  let ?m = "rewrite_hostapd_channel (ok_os (\<lambda>_. [])) 36 BAND_5"
  let ?w = "world0 hostapd_example"
  let ?ls = "[''interface=wlan0'', ''ssid=Taishan'', ''channel=6'', ''wpa_passphrase=12345678'']"
  have f: "w_files ?w HOSTAPD_CONF = Some (render_lines ?ls)" by (simp add: world0_def hostapd_example_def)
  have ls: "hostapd_file_lines ?w = ?ls"
    by (rule hostapd_file_lines_written [OF f]) (auto simp: render_lines_def)
  let ?out = "render_lines [''interface=wlan0'', ''ssid=Taishan'', ''channel=36'', ''wpa_passphrase=12345678'',
    ''hw_mode=a'']"
  have "hostapd_rewrite 36 (band_to_hw_mode BAND_5) ?ls = Some ?out"
    by (simp add: hostapd_rewrite_def is_channel_line_def is_hw_mode_line_def lstrip_def starts_with_def put_def
        channel_line_def hw_mode_line_def band_to_hw_mode_def render_lines_def dec_of_int_def dec_of_nat.simps char_of_def bit_0 Let_def)
  then obtain w' where w': "run_state ?m ?w = (0, w')" and f': "w_files w' HOSTAPD_CONF = Some ?out"
    using f ls
    by (simp add: rewrite_hostapd_channel_def run_read_file_all hostapd_file_lines_def ok_os_write_file)
  have "length ?out < 8192" by (simp add: render_lines_def)
  with f' have "filter is_hw_mode_line (hostapd_file_lines w') \<noteq> []"
    using rewrite_hostapd_channel_effect [OF w'] by auto
  with w' show ?thesis by blast
qed

text \<open>
  A channel computed from a scan frequency is one the regulatory table of
  the code allows: -1, or 1 to 14 in the 2.4 GHz band, or 36 to 48 or 149 to 165 in the
  5 GHz band; whatever 32-bit value the scan text held.
\<close>

theorem freq_to_channel_valid:
  "freq_to_channel f b = -1 \<or>
   (b = BAND_24 \<and> freq_to_channel f b \<in> {1..14}) \<or>
   (b = BAND_5 \<and> freq_to_channel f b \<in> {36..48} \<union> {149..165})"
  using freq_to_channel_cases [of f b] by auto

text \<open>
  The generated \<^verbatim>\<open>wpa_supplicant.conf\<close>: for an SSID of at most 32 and a password
  of at most 63 characters without quotes and line breaks the rendered text always fits its
  buffer; when \<^verbatim>\<open>write_wpa_config\<close> returned 0, the file has exactly one network block, with
  that SSID, that passphrase (or no key management for an open network) and the frequencies
  of the band \<^verbatim>\<open>read_band\<close> reports.
\<close>

theorem write_wpa_config_network:
  assumes "length ssid \<le> 32" "length pwd \<le> 63" "chr_dq \<notin> set ssid" "chr_dq \<notin> set pwd"
    and "chr_nl \<notin> set ssid" "chr_nl \<notin> set pwd"
    and "run_state (write_wpa_config os ssid pwd) w = (rc, w')"
  shows "rc = fst (run_state (write_file os WPA_CONF
           (wpa_body ssid pwd pwd (fst (run_state read_band w)))) w) \<and>
    (rc = 0 \<longrightarrow> (\<exists>s. w_files w' WPA_CONF = Some s \<and>
      strtok_nl s = [''ctrl_interface=DIR=/var/run/wpa_supplicant GROUP=netdev'', ''update_config=1'',
        ''country=CN'', ''network={'', ''    ssid='' @ [chr_dq] @ ssid @ [chr_dq]] @
        (if pwd = [] then [''    key_mgmt=NONE'']
         else [''    psk='' @ [chr_dq] @ pwd @ [chr_dq], ''    key_mgmt=WPA-PSK'']) @
        [''    scan_ssid=1'', ''    freq_list='' @ freq_list (fst (run_state read_band w)), ''}'']))"
proof (intro conjI impI)
  let ?b = "fst (run_state read_band w)"
  let ?body = "wpa_body ssid pwd pwd ?b"
  have e: "escape_quotes ssid 256 = ssid" "escape_quotes pwd 256 = pwd"
    using assms by (simp_all add: escape_quotes_plain)
  have len: "length ?body < 1024" using assms by (intro length_wpa_body) auto
  have run: "run_state (write_file os WPA_CONF ?body) w = (rc, w')"
    using assms(7) len by (simp add: write_wpa_config_def run_read_band Let_def e)
  then show "rc = fst (run_state (write_file os WPA_CONF ?body) w)" by simp
  assume "rc = 0"
  then have "w_files w' WPA_CONF = Some ?body" using run_write_file(2) [OF run] by simp
  moreover have "strtok_nl ?body =
      filter (\<lambda>l. l \<noteq> []) ([''ctrl_interface=DIR=/var/run/wpa_supplicant GROUP=netdev'', ''update_config=1'',
        ''country=CN'', [], ''network={'', ''    ssid='' @ [chr_dq] @ ssid @ [chr_dq]] @
        (if pwd = [] then [''    key_mgmt=NONE'']
         else [''    psk='' @ [chr_dq] @ pwd @ [chr_dq], ''    key_mgmt=WPA-PSK'']) @
        [''    scan_ssid=1'', ''    freq_list='' @ freq_list ?b, ''}''])"
    unfolding wpa_body_def
    by (rule strtok_nl_render_filter) (use assms in \<open>auto simp: freq_list_def split: if_splits\<close>)
  ultimately show "\<exists>s. w_files w' WPA_CONF = Some s \<and>
      strtok_nl s = [''ctrl_interface=DIR=/var/run/wpa_supplicant GROUP=netdev'', ''update_config=1'',
        ''country=CN'', ''network={'', ''    ssid='' @ [chr_dq] @ ssid @ [chr_dq]] @
        (if pwd = [] then [''    key_mgmt=NONE'']
         else [''    psk='' @ [chr_dq] @ pwd @ [chr_dq], ''    key_mgmt=WPA-PSK'']) @
        [''    scan_ssid=1'', ''    freq_list='' @ freq_list ?b, ''}'']"
    by (cases "pwd = []") simp_all
qed

theorem write_wpa_config_network_witness:
  "fst (run_state (write_wpa_config (ok_os (\<lambda>_. [])) ''home'' ''12345678'') (world0 (\<lambda>_. None))) = 0"
proof -
  let ?m = "write_wpa_config (ok_os (\<lambda>_. [])) ''home'' ''12345678''"
  let ?w = "world0 (\<lambda>_. None)"
  have "run_state ?m ?w = (fst (run_state ?m ?w), snd (run_state ?m ?w))" by simp
  from write_wpa_config_network [OF _ _ _ _ _ _ this] show ?thesis
    by (simp add: ok_os_write_file)
qed

end
