(* ===== verification/WifiScan.thy ===== *)
theory WifiScan
  imports WifiConfig
begin

text \<open>
  The scan part of \<^verbatim>\<open>wifi_switch.c\<close>: the search for the band of the home network
  (\<^verbatim>\<open>scan_target_band\<close>), the parser of \<^verbatim>\<open>iw dev wlan0 scan\<close> (\<^verbatim>\<open>parse_iw_scan\<close> and its
  helpers) and the scan behind the provisioning command (\<^verbatim>\<open>wifi_switch_scan\<close>).
  The lemmas show that the parser is the concatenation of independent parses of the
  BSS blocks, that every entry handed to the protocol layer is within the wire format's
  limits, and that a scan neither disturbs the radio nor leaks the switch mutex.
\<close>

section \<open>Band search\<close>

definition SCAN_BUF_SZ :: nat where "SCAN_BUF_SZ = 256 * 1024"

definition cmd_iw_scan :: string where "cmd_iw_scan = ''iw dev wlan0 scan 2>&1''"
definition cmd_scan_trigger :: string where "cmd_scan_trigger = ''iw dev wlan0 scan trigger 2>&1''"
definition cmd_set_managed :: string where "cmd_set_managed = ''iw dev wlan0 set type managed 2>/dev/null''"

definition scan_usable :: "int \<times> string \<Rightarrow> bool" where
  "scan_usable r \<longleftrightarrow> fst r = 0 \<and> has_sub (snd r) ''BSS ''"

text \<open>The text after the tag of an \<^verbatim>\<open>SSID:\<close> line, as both scan parsers trim it.\<close>

definition ssid_text :: "string \<Rightarrow> string" where
  "ssid_text r = rstrip (lstrip r)"

text \<open>One line of the band search; the state is \<^verbatim>\<open>(cur_freq, hit_24, hit_5)\<close>.\<close>

definition band_hit_line :: "string \<Rightarrow> string \<Rightarrow> u32 \<times> u32 \<times> u32 \<Rightarrow> u32 \<times> u32 \<times> u32" where
  "band_hit_line ssid line st = (case st of (cur_freq, hit_24, hit_5) \<Rightarrow>
     (if starts_with line ''BSS '' then (0, hit_24, hit_5)
      else (case after_prefix ''freq:'' (lstrip line) of
              Some r \<Rightarrow> (ucast (strtoul10 (lstrip r)), hit_24, hit_5)
            | None \<Rightarrow>
                (case after_prefix ''SSID:'' (lstrip line) of
                   Some r \<Rightarrow>
                     if cur_freq \<noteq> 0 \<and> ssid_text r = ssid then
                       (if 2400 \<le> cur_freq \<and> cur_freq < 2500 then
                          (cur_freq, if hit_24 = 0 then cur_freq else hit_24, hit_5)
                        else if 5000 \<le> cur_freq \<and> cur_freq < 6000 then
                          (cur_freq, hit_24, if hit_5 = 0 then cur_freq else hit_5)
                        else (cur_freq, hit_24, hit_5))
                     else (cur_freq, hit_24, hit_5)
                 | None \<Rightarrow> (cur_freq, hit_24, hit_5)))))"

definition band_hits :: "string \<Rightarrow> string \<Rightarrow> u32 \<times> u32" where
  "band_hits ssid buf = snd (fold (band_hit_line ssid) (strtok_nl buf) (0, 0, 0))"

text \<open>
  What one usable scan decides: \<open>None\<close> for another attempt, \<open>Some None\<close> for a network on
  an unsupported channel, \<open>Some (Some (band, ch))\<close> for a hit.
\<close>

definition band_decision :: "u32 \<times> u32 \<Rightarrow> (band \<times> int) option option" where
  "band_decision hits = (case hits of (hit_24, hit_5) \<Rightarrow>
     if hit_5 \<noteq> 0 \<or> hit_24 \<noteq> 0 then
       (let band = (if hit_5 \<noteq> 0 then BAND_5 else BAND_24);
            freq = (if hit_5 \<noteq> 0 then hit_5 else hit_24);
            ch = freq_to_channel freq band
        in if ch \<le> 0 then Some None else Some (Some (band, ch)))
     else None)"

definition c_malloc :: "'e os \<Rightarrow> nat \<Rightarrow> ('e, bool) io" where
  "c_malloc os n = gets (\<lambda>w. os_malloc os n (w_env w))"

text \<open>\<open>Some (band, channel)\<close> where the C function returns 0.\<close>

definition scan_target_band :: "'e os \<Rightarrow> string \<Rightarrow> ('e, (band \<times> int) option) io" where
  "scan_target_band os ssid = do {
     ok \<leftarrow> c_malloc os SCAN_BUF_SZ;
     if \<not> ok then ret None
     else do {
       _ \<leftarrow> exec_cmd os cmd_set_managed;
       _ \<leftarrow> for_loop 5 0 (\<lambda>attempt. do {
         r \<leftarrow> exec_capture os cmd_scan_trigger 256;
         if fst r = 0 \<or> has_sub (snd r) ''Device or resource busy'' then ret (Some ())
         else do { _ \<leftarrow> c_sleep os 1; ret None } });
       _ \<leftarrow> c_sleep os 3;
       r \<leftarrow> for_loop 6 1 (\<lambda>attempt. do {
         r \<leftarrow> exec_capture os cmd_iw_scan SCAN_BUF_SZ;
         if \<not> scan_usable r then
           (if attempt < 6 then do { _ \<leftarrow> c_sleep os 3; ret None } else ret None)
         else (case band_decision (band_hits ssid (snd r)) of
                 Some d \<Rightarrow> ret (Some d)
               | None \<Rightarrow> if attempt < 6 then do { _ \<leftarrow> c_sleep os 3; ret None } else ret None) });
       ret (case r of Some d \<Rightarrow> d | None \<Rightarrow> None) } }"

section \<open>Scan entries\<close>

definition WIFI_SCAN_AUTH_OPEN :: u8 where "WIFI_SCAN_AUTH_OPEN = 0"
definition WIFI_SCAN_AUTH_WEP :: u8 where "WIFI_SCAN_AUTH_WEP = 1"
definition WIFI_SCAN_AUTH_WPA_PSK :: u8 where "WIFI_SCAN_AUTH_WPA_PSK = 2"
definition WIFI_SCAN_AUTH_WPA2_PSK :: u8 where "WIFI_SCAN_AUTH_WPA2_PSK = 3"
definition WIFI_SCAN_AUTH_WPA3_SAE :: u8 where "WIFI_SCAN_AUTH_WPA3_SAE = 4"
definition WIFI_SCAN_AUTH_ENTERPRISE :: u8 where "WIFI_SCAN_AUTH_ENTERPRISE = 5"
definition WIFI_SCAN_BAND_24G :: int where "WIFI_SCAN_BAND_24G = 0"
definition WIFI_SCAN_BAND_5G :: int where "WIFI_SCAN_BAND_5G = 1"
definition WIFI_SCAN_SSID_MAX :: nat where "WIFI_SCAN_SSID_MAX = 32"
definition MAX_ENTRIES :: nat where "MAX_ENTRIES = 64"

lemmas scan_consts = WIFI_SCAN_AUTH_OPEN_def WIFI_SCAN_AUTH_WEP_def WIFI_SCAN_AUTH_WPA_PSK_def
  WIFI_SCAN_AUTH_WPA2_PSK_def WIFI_SCAN_AUTH_WPA3_SAE_def WIFI_SCAN_AUTH_ENTERPRISE_def
  WIFI_SCAN_BAND_24G_def WIFI_SCAN_BAND_5G_def WIFI_SCAN_SSID_MAX_def MAX_ENTRIES_def

text \<open>
  \<^verbatim>\<open>wifi_scan_entry_t\<close>: the SSID is the list of the first \<^verbatim>\<open>ssid_len\<close> bytes of the array
  (the rest is never read); \<^verbatim>\<open>rssi\<close> is the two's complement byte.
\<close>

record wifi_scan_entry =
  e_ssid :: "u8 list"
  e_rssi :: u8
  e_auth_type :: u8
  e_band :: u8

definition freq_to_scan_band :: "u32 \<Rightarrow> int" where
  "freq_to_scan_band freq =
     (if 2400 \<le> freq \<and> freq < 2500 then WIFI_SCAN_BAND_24G
      else if 5000 \<le> freq \<and> freq < 6000 then WIFI_SCAN_BAND_5G
      else -1)"

record bss_parse =
  b_ssid :: "u8 list"
  b_rssi :: int
  b_freq :: u32
  have_signal :: bool
  have_freq :: bool
  have_ssid :: bool
  has_privacy :: bool
  has_rsn :: bool
  has_wpa :: bool
  has_sae :: bool
  has_psk :: bool
  has_eap :: bool

text \<open>\<^verbatim>\<open>memset(b, 0, sizeof *b)\<close>\<close>

definition bss_zero :: bss_parse where
  "bss_zero = \<lparr>b_ssid = [], b_rssi = 0, b_freq = 0, have_signal = False, have_freq = False,
     have_ssid = False, has_privacy = False, has_rsn = False, has_wpa = False, has_sae = False,
     has_psk = False, has_eap = False\<rparr>"

definition derive_auth_type :: "bss_parse \<Rightarrow> u8" where
  "derive_auth_type b =
     (if has_sae b \<and> \<not> has_psk b then WIFI_SCAN_AUTH_WPA3_SAE
      else if has_eap b then WIFI_SCAN_AUTH_ENTERPRISE
      else if has_rsn b \<and> (has_psk b \<or> has_sae b) then WIFI_SCAN_AUTH_WPA2_PSK
      else if has_wpa b \<and> has_psk b then WIFI_SCAN_AUTH_WPA_PSK
      else if has_privacy b then WIFI_SCAN_AUTH_WEP
      else WIFI_SCAN_AUTH_OPEN)"

text \<open>\<open>dst_cap\<close> is the room left; the result is the bytes stored.\<close>

definition hex_byte :: "char \<Rightarrow> char \<Rightarrow> u8" where
  "hex_byte h l = word_of_nat (16 * xdigit_val h + xdigit_val l)"

text \<open>The escape sequence at the start of the text, if there is one: its byte and the rest.\<close>

definition iw_escape_at :: "string \<Rightarrow> (u8 \<times> string) option" where
  "iw_escape_at src = (case src of
      b # x # h # l # r \<Rightarrow>
        if b = chr_bs \<and> x = CHR ''x'' \<and> isxdigit h \<and> isxdigit l then Some (hex_byte h l, r) else None
    | _ \<Rightarrow> None)"

lemma iw_escape_at_shorter: "iw_escape_at src = Some (b, r) \<Longrightarrow> length r < length src"
  by (auto simp: iw_escape_at_def split: list.splits if_splits)

function decode_iw_ssid :: "string \<Rightarrow> nat \<Rightarrow> u8 list" where
  "decode_iw_ssid src dst_cap =
     (if src = [] \<or> dst_cap = 0 then []
      else (case iw_escape_at src of
              Some (b, r) \<Rightarrow> b # decode_iw_ssid r (dst_cap - 1)
            | None \<Rightarrow> byte_of_char (hd src) # decode_iw_ssid (tl src) (dst_cap - 1)))"
  by pat_completeness auto
termination
  by (relation "measure snd") auto

declare decode_iw_ssid.simps [simp del]

text \<open>\<open>out\<close> is the first \<^verbatim>\<open>*out_count\<close> elements of the result array.\<close>

definition commit_bss :: "nat \<Rightarrow> bss_parse \<Rightarrow> wifi_scan_entry list \<Rightarrow> bss_parse \<times> wifi_scan_entry list" where
  "commit_bss out_cap b out =
     (if \<not> have_ssid b \<or> b_ssid b = [] then (bss_zero, out)
      else if \<not> have_freq b then (bss_zero, out)
      else if freq_to_scan_band (b_freq b) < 0 then (bss_zero, out)
      else if length out \<ge> out_cap then (bss_zero, out)
      else (bss_zero, out @ [\<lparr>e_ssid = b_ssid b,
              e_rssi = word_of_int (if have_signal b then b_rssi b else -100),
              e_auth_type = derive_auth_type b,
              e_band = word_of_int (freq_to_scan_band (b_freq b))\<rparr>]))"

text \<open>
  The tags of a line inside a BSS block, then the keywords looked for in every line.
  The code looks for them after it has cut trailing blanks off an \<^verbatim>\<open>SSID:\<close> line in place;
  no keyword contains a blank, so the uncut line gives the same answers.
\<close>

definition bss_tag_line :: "string \<Rightarrow> bss_parse \<Rightarrow> bss_parse" where
  "bss_tag_line t cur =
     (case after_prefix ''freq:'' t of
        Some r \<Rightarrow> cur\<lparr>b_freq := ucast (strtoul10 (lstrip r)), have_freq := True\<rparr>
      | None \<Rightarrow>
     (case after_prefix ''signal:'' t of
        Some r \<Rightarrow> cur\<lparr>b_rssi := strtod_int (lstrip r), have_signal := True\<rparr>
      | None \<Rightarrow>
     (case after_prefix ''SSID:'' t of
        Some r \<Rightarrow> cur\<lparr>b_ssid := decode_iw_ssid (ssid_text r) WIFI_SCAN_SSID_MAX, have_ssid := True\<rparr>
      | None \<Rightarrow>
     (case after_prefix ''capability:'' t of
        Some r \<Rightarrow> if has_sub r ''Privacy'' then cur\<lparr>has_privacy := True\<rparr> else cur
      | None \<Rightarrow>
        if starts_with t ''RSN:'' then cur\<lparr>has_rsn := True\<rparr>
        else if starts_with t ''WPA:'' then cur\<lparr>has_wpa := True\<rparr>
        else cur))))"

definition bss_keywords :: "string \<Rightarrow> bss_parse \<Rightarrow> bss_parse" where
  "bss_keywords t cur =
     cur\<lparr>has_sae := has_sae cur \<or> has_sub t ''SAE'',
         has_psk := has_psk cur \<or> has_sub t ''PSK'',
         has_eap := has_eap cur \<or> has_sub t ''EAP'' \<or> has_sub t ''802.1X'' \<or> has_sub t ''Enterprise''\<rparr>"

definition bss_line :: "string \<Rightarrow> bss_parse \<Rightarrow> bss_parse" where
  "bss_line line cur = (let t = lstrip line in bss_keywords t (bss_tag_line t cur))"

definition iw_scan_line ::
  "nat \<Rightarrow> string \<Rightarrow> bss_parse \<times> wifi_scan_entry list \<Rightarrow> bss_parse \<times> wifi_scan_entry list" where
  "iw_scan_line out_cap line st = (case st of (cur, out) \<Rightarrow>
     if starts_with line ''BSS '' then commit_bss out_cap cur out
     else (bss_line line cur, out))"

definition parse_iw_scan :: "string \<Rightarrow> nat \<Rightarrow> wifi_scan_entry list" where
  "parse_iw_scan buf out_cap =
     (case fold (iw_scan_line out_cap) (strtok_nl buf) (bss_zero, []) of
        (cur, out) \<Rightarrow> snd (commit_bss out_cap cur out))"

text \<open>
  \<open>Some entries\<close> where the C function returns 0.  The array takes 36 bytes per entry; the
  copy of the text inside \<^verbatim>\<open>parse_iw_scan\<close> is the third allocation that can fail.
\<close>

definition wifi_switch_scan :: "'e os \<Rightarrow> ('e, wifi_scan_entry list option) io" where
  "wifi_switch_scan os = do {
     locked \<leftarrow> c_trylock;
     if \<not> locked then ret None
     else do {
       arr \<leftarrow> c_malloc os (MAX_ENTRIES * 36);
       scan_buf \<leftarrow> c_malloc os SCAN_BUF_SZ;
       result \<leftarrow>
         (if \<not> arr \<or> \<not> scan_buf then ret None
          else do {
            usable \<leftarrow> for_loop 3 1 (\<lambda>attempt. do {
              r \<leftarrow> exec_capture os cmd_iw_scan SCAN_BUF_SZ;
              if scan_usable r then ret (Some (snd r))
              else if attempt < 3 then do { _ \<leftarrow> c_sleep os 2; ret None }
              else ret None });
            case usable of
              None \<Rightarrow> ret None
            | Some buf \<Rightarrow> do {
                work \<leftarrow> c_malloc os (length buf + 1);
                ret (if work then Some (parse_iw_scan buf MAX_ENTRIES) else None) } });
       _ \<leftarrow> c_unlock;
       ret result } }"

section \<open>The parser as independent parses of the BSS blocks\<close>

text \<open>The lines between the BSS headers; the first block is what precedes the first header.\<close>

fun bss_blocks :: "string list \<Rightarrow> string list list" where
  "bss_blocks [] = [[]]"
| "bss_blocks (l # ls) =
     (if starts_with l ''BSS '' then [] # bss_blocks ls
      else (l # hd (bss_blocks ls)) # tl (bss_blocks ls))"

definition entry_of_bss :: "bss_parse \<Rightarrow> wifi_scan_entry list" where
  "entry_of_bss b =
     (if have_ssid b \<and> b_ssid b \<noteq> [] \<and> have_freq b \<and> 0 \<le> freq_to_scan_band (b_freq b)
      then [\<lparr>e_ssid = b_ssid b, e_rssi = word_of_int (if have_signal b then b_rssi b else -100),
              e_auth_type = derive_auth_type b, e_band = word_of_int (freq_to_scan_band (b_freq b))\<rparr>]
      else [])"

definition entries_of_block :: "string list \<Rightarrow> wifi_scan_entry list" where
  "entries_of_block ls = entry_of_bss (fold bss_line ls bss_zero)"

lemma commit_bss_eq:
  "length out \<le> cap \<Longrightarrow> commit_bss cap b out = (bss_zero, take cap (out @ entry_of_bss b))"
  by (auto simp: commit_bss_def entry_of_bss_def)

lemma bss_blocks_not_Nil [simp]: "bss_blocks ls \<noteq> []"
  by (cases ls) auto

section \<open>Entries are within the wire format's limits\<close>

definition valid_entry :: "wifi_scan_entry \<Rightarrow> bool" where
  "valid_entry e \<longleftrightarrow> 1 \<le> length (e_ssid e) \<and> length (e_ssid e) \<le> WIFI_SCAN_SSID_MAX \<and>
     e_auth_type e \<le> WIFI_SCAN_AUTH_ENTERPRISE \<and> e_band e \<le> 1"

lemma length_decode_iw_ssid: "length (decode_iw_ssid s n) \<le> n"
proof (induction n arbitrary: s)
  case 0
  then show ?case by (simp add: decode_iw_ssid.simps)
next
  case (Suc n)
  then show ?case by (simp add: decode_iw_ssid.simps [of s] split: option.split)
qed

lemma derive_auth_type_le: "derive_auth_type b \<le> WIFI_SCAN_AUTH_ENTERPRISE"
  by (simp add: derive_auth_type_def scan_consts)

lemma scan_band_byte: "0 \<le> freq_to_scan_band f \<Longrightarrow> (word_of_int (freq_to_scan_band f) :: u8) \<le> 1"
  by (auto simp: freq_to_scan_band_def scan_consts split: if_splits)

lemma entry_of_bss_valid:
  "e \<in> set (entry_of_bss b) \<Longrightarrow> length (b_ssid b) \<le> WIFI_SCAN_SSID_MAX \<Longrightarrow> valid_entry e"
  by (auto simp: entry_of_bss_def valid_entry_def derive_auth_type_le scan_band_byte Suc_le_eq split: if_splits)

text \<open>
  What the scan parsers of the two boards share: a machine that commits the current block at
  every BSS header and otherwise lets the line update it.  They differ in the white space they
  trim from a line, that is in \<open>line_step\<close>.
\<close>

locale bss_parser =
  fixes line_step :: "string \<Rightarrow> bss_parse \<Rightarrow> bss_parse"
    and scan_line :: "nat \<Rightarrow> string \<Rightarrow> bss_parse \<times> wifi_scan_entry list \<Rightarrow> bss_parse \<times> wifi_scan_entry list"
    and parse :: "string \<Rightarrow> nat \<Rightarrow> wifi_scan_entry list"
  assumes scan_line_eq: "scan_line cap l (cur, out) =
      (if starts_with l ''BSS '' then commit_bss cap cur out else (line_step l cur, out))"
    and parse_eq: "parse buf cap = (case fold (scan_line cap) (strtok_nl buf) (bss_zero, []) of
      (cur, out) \<Rightarrow> snd (commit_bss cap cur out))"
    and line_step_ssid: "length (b_ssid b) \<le> WIFI_SCAN_SSID_MAX \<Longrightarrow>
      length (b_ssid (line_step l b)) \<le> WIFI_SCAN_SSID_MAX"
begin

abbreviation block_entries :: "string list \<Rightarrow> wifi_scan_entry list" where
  "block_entries ls \<equiv> entry_of_bss (fold line_step ls bss_zero)"

lemma fold_scan_line:
  assumes "length out \<le> cap"
  shows "(case fold (scan_line cap) ls (cur, out) of (c, r) \<Rightarrow> snd (commit_bss cap c r)) =
    take cap (out @ entry_of_bss (fold line_step (hd (bss_blocks ls)) cur) @
              concat (map block_entries (tl (bss_blocks ls))))"
  using assms
proof (induction ls arbitrary: cur out)
  case Nil
  then show ?case by (simp add: commit_bss_eq)
next
  case (Cons l ls)
  have blocks: "block_entries (hd (bss_blocks ls)) @ concat (map block_entries (tl (bss_blocks ls))) =
      concat (map block_entries (bss_blocks ls))"
    by (cases "bss_blocks ls") (use bss_blocks_not_Nil in auto)
  show ?case
  proof (cases "starts_with l ''BSS ''")
    case True
    let ?out = "take cap (out @ entry_of_bss cur)"
    have len: "length ?out \<le> cap" by simp
    have cut: "take cap (?out @ x) = take cap (out @ entry_of_bss cur @ x)" for x
      using Cons.prems by (cases "length (out @ entry_of_bss cur) \<le> cap") (simp_all add: take_append min_absorb1)
    have step: "fold (scan_line cap) (l # ls) (cur, out) = fold (scan_line cap) ls (bss_zero, ?out)"
      using True Cons.prems by (simp add: scan_line_eq commit_bss_eq)
    have "bss_blocks (l # ls) = [] # bss_blocks ls" using True by simp
    then show ?thesis
      unfolding step Cons.IH [OF len, of bss_zero] blocks cut by simp
  next
    case False
    with Cons.IH [OF Cons.prems, of "line_step l cur"] show ?thesis
      by (simp add: scan_line_eq)
  qed
qed

lemma parse_blocks: "parse buf cap = take cap (concat (map block_entries (bss_blocks (strtok_nl buf))))"
proof -
  have "concat (map block_entries bs) = block_entries (hd bs) @ concat (map block_entries (tl bs))" if "bs \<noteq> []" for bs
    using that by (cases bs) simp_all
  then show ?thesis
    using fold_scan_line [of "[]" cap "strtok_nl buf" bss_zero] by (simp add: parse_eq)
qed

lemma fold_line_step_ssid:
  "length (b_ssid b) \<le> WIFI_SCAN_SSID_MAX \<Longrightarrow> length (b_ssid (fold line_step ls b)) \<le> WIFI_SCAN_SSID_MAX"
  by (induction ls arbitrary: b) (simp_all add: line_step_ssid)

lemma parse_valid: "length (parse buf cap) \<le> cap \<and> list_all valid_entry (parse buf cap)"
proof -
  have "valid_entry e" if "e \<in> set (block_entries ls)" for e ls
    using that by (rule entry_of_bss_valid) (rule fold_line_step_ssid, simp add: bss_zero_def)
  then show ?thesis by (auto simp: parse_blocks list_all_iff dest!: in_set_takeD)
qed

end

interpretation rk3566_parser: bss_parser bss_line iw_scan_line parse_iw_scan
  by unfold_locales (simp_all add: iw_scan_line_def parse_iw_scan_def bss_line_def bss_tag_line_def
      bss_keywords_def Let_def length_decode_iw_ssid split: option.split)

lemmas parse_iw_scan_blocks = rk3566_parser.parse_blocks [folded entries_of_block_def]

section \<open>What a scan does\<close>

lemma emits_malloc [io_intros]: "state_io_rel (emits P) (c_malloc os n)"
  unfolding c_malloc_def by (intro io_intros)

lemma mutex_malloc [io_intros]: "state_io_rel same_mutex (c_malloc os n)"
  unfolding c_malloc_def by (intro io_intros)

text \<open>Only scan commands and pauses.\<close>

definition scan_event :: "event \<Rightarrow> bool" where
  "scan_event ev \<longleftrightarrow> ev = Ev_popen cmd_iw_scan \<or> (\<exists>us. ev = Ev_usleep us)"

lemma emits_wifi_switch_scan:
  assumes "P (Ev_popen cmd_iw_scan)" and "\<And>us. P (Ev_usleep us)"
  shows "state_io_rel (emits P) (wifi_switch_scan os)"
  unfolding wifi_switch_scan_def by (intro io_intros assms)

lemma emits_scan_target_band [io_intros]:
  assumes "P (Ev_popen cmd_iw_scan)" and "\<And>us. P (Ev_usleep us)"
    and "P (Ev_system cmd_set_managed)" and "P (Ev_popen cmd_scan_trigger)"
  shows "state_io_rel (emits P) (scan_target_band os ssid)"
  unfolding scan_target_band_def by (intro io_intros assms)

lemma mutex_scan_target_band [io_intros]: "state_io_rel same_mutex (scan_target_band os ssid)"
  unfolding scan_target_band_def by (intro io_intros)

lemma scan_mutex:
  assumes "run_state (wifi_switch_scan os) w = (r, w')"
  shows "w_mutex w \<Longrightarrow> r = None \<and> w' = w" and "\<not> w_mutex w \<Longrightarrow> \<not> w_mutex w'"
  using assms
  by (auto simp: wifi_switch_scan_def c_trylock_def c_unlock_def split: prod.splits)

lemma for_loop_ret_shape:
  assumes "\<And>i w r w'. run_state (body i) w = (Some r, w') \<Longrightarrow> Q r"
    and "run_state (for_loop k i body) w = (Some r, w')"
  shows "Q r"
  using assms(2)
proof (induction k arbitrary: i w)
  case 0
  then show ?case by simp
next
  case (Suc k)
  obtain a v where b: "run_state (body i) w = (a, v)" by (cases "run_state (body i) w")
  show ?case
  proof (cases a)
    case None
    with Suc b show ?thesis by auto
  next
    case (Some x)
    with Suc.prems b have "x = r" by simp
    with b Some assms(1) show ?thesis by blast
  qed
qed

lemma scan_result_valid:
  assumes "run_state (wifi_switch_scan os) w = (Some es, w')"
  shows "length es \<le> MAX_ENTRIES \<and> list_all valid_entry es"
proof -
  from assms obtain buf where "es = parse_iw_scan buf MAX_ENTRIES"
    unfolding wifi_switch_scan_def
    by (auto simp: c_malloc_def c_trylock_def c_unlock_def simp del: for_loop_numeral
        split: prod.splits if_splits option.splits)
  then show ?thesis
    by (simp add: rk3566_parser.parse_valid)
qed

section \<open>Escaped SSIDs\<close>

text \<open>
  A text in which every byte of an SSID appears either as itself (not the backslash) or as
  an escape sequence: the convention the comment on \<^verbatim>\<open>decode_iw_ssid\<close> describes.
\<close>

inductive iw_printed :: "u8 list \<Rightarrow> string \<Rightarrow> bool" where
  printed_nil: "iw_printed [] []"
| printed_plain: "iw_printed bs s \<Longrightarrow> c \<noteq> chr_bs \<Longrightarrow> iw_printed (byte_of_char c # bs) (c # s)"
| printed_escape: "iw_printed bs s \<Longrightarrow> isxdigit h \<Longrightarrow> isxdigit l \<Longrightarrow>
    iw_printed (hex_byte h l # bs) (chr_bs # CHR ''x'' # h # l # s)"

lemma iw_escape_at_plain: "c \<noteq> chr_bs \<Longrightarrow> iw_escape_at (c # s) = None"
  by (simp add: iw_escape_at_def split: list.split)

lemma decode_iw_printed: "iw_printed bs s \<Longrightarrow> decode_iw_ssid s n = take n bs"
proof (induction arbitrary: n rule: iw_printed.induct)
  case printed_nil
  then show ?case by (simp add: decode_iw_ssid.simps)
next
  case (printed_plain bs s c)
  then show ?case
    by (cases n) (simp_all add: decode_iw_ssid.simps [of "c # s"] iw_escape_at_plain)
next
  case (printed_escape bs s h l)
  then show ?case
    by (cases n) (simp_all add: decode_iw_ssid.simps [of "chr_bs # CHR ''x'' # h # l # s"] iw_escape_at_def)
qed

section \<open>Properties of the scan\<close>

text \<open>
  Property C38.  \<^verbatim>\<open>parse_iw_scan\<close> is the concatenation of independent parses: the result is the
  first \<open>out_cap\<close> of the usable entries of the BSS blocks in the order of the text, where
  the entry of a block depends on the lines of that block alone, so no flag, SSID or
  frequency of one network leaks into the next.
\<close>

theorem parse_iw_scan_blockwise:
  "parse_iw_scan buf out_cap =
     take out_cap (concat (map entries_of_block (bss_blocks (strtok_nl buf))))"
  by (rule parse_iw_scan_blocks)

text \<open>
  SSIDs come out as broadcast: when every byte of an SSID is printed as itself or as
  an escape sequence with two hexadecimal digits, decoding gives the bytes back, cut to
  the buffer; an SSID of at most 32 bytes is recovered exactly.
\<close>

theorem decode_iw_ssid_roundtrip:
  assumes "iw_printed bs s"
  shows "decode_iw_ssid s n = take n bs \<and>
    (length bs \<le> WIFI_SCAN_SSID_MAX \<longrightarrow> decode_iw_ssid s WIFI_SCAN_SSID_MAX = bs)"
  using decode_iw_printed [OF assms] by simp

theorem decode_iw_ssid_roundtrip_witness:
  "decode_iw_ssid (''caf'' @ chr_bs # ''xc3'' @ chr_bs # ''xA9'') WIFI_SCAN_SSID_MAX = [99, 97, 102, 0xC3, 0xA9]"
proof -
  have "iw_printed [byte_of_char (CHR ''c''), byte_of_char (CHR ''a''), byte_of_char (CHR ''f''),
      hex_byte (CHR ''c'') (CHR ''3''), hex_byte (CHR ''A'') (CHR ''9'')]
      (''caf'' @ chr_bs # ''xc3'' @ chr_bs # ''xA9'')"
    by (simp, (rule iw_printed.intros | simp add: isxdigit_def isdigit_def)+)
  from decode_iw_ssid_roundtrip [OF this] show ?thesis
    by (simp add: byte_of_char_def hex_byte_def xdigit_val_def isdigit_def WIFI_SCAN_SSID_MAX_def)
qed

text \<open>
  A scan requested over the protocol is harmless and its result fits the wire
  format.  While a switch holds the mutex, \<^verbatim>\<open>wifi_switch_scan\<close> fails at once and does nothing;
  otherwise the mutex is free again afterwards, on every path.  It issues no command but
  \<^verbatim>\<open>iw dev wlan0 scan\<close> (no daemon is stopped, the link is never taken down) and pauses.  On
  success there are at most 64 entries, each with 1 to 32 SSID bytes, a defined
  authentication type and band 0 or 1.
\<close>

theorem wifi_switch_scan_safe:
  assumes "run_state (wifi_switch_scan os) w = (r, w')"
  shows "(w_mutex w \<longrightarrow> r = None \<and> w' = w) \<and> (\<not> w_mutex w \<longrightarrow> \<not> w_mutex w') \<and>
    emits scan_event w w' \<and> (r = Some es \<longrightarrow> length es \<le> MAX_ENTRIES \<and> list_all valid_entry es)"
proof (intro conjI impI)
  have "state_io_rel (emits scan_event) (wifi_switch_scan os)"
    by (rule emits_wifi_switch_scan) (simp_all add: scan_event_def)
  from keep_run [OF this, of w] show "emits scan_event w w'" by (simp add: assms)
qed (use scan_mutex [OF assms] scan_result_valid assms in auto)

definition scan_example :: string where
  "scan_example = render_lines [''BSS 00:11:22:33:44:55(on wlan0)'', '' freq: 2437'', '' signal: -47.00 dBm'',
     '' SSID: lab'', '' capability: ESS Privacy (0x0411)'', '' RSN:'', ''  * Authentication suites: PSK'']"

lemmas scan_eval = entries_of_block_def entry_of_bss_def bss_line_def bss_tag_line_def bss_keywords_def
  bss_zero_def starts_with_def has_sub_def lstrip_def rstrip_def rstrip_char_def ssid_text_def Let_def
  strtoul10_def strtod_int_def dec_trunc_def strtod_dec_def scan_number_def scan_sign_def
  scan_exponent_def c_div_def isspace_def isdigit_def digit_val_def decode_iw_ssid.simps iw_escape_at_def
  byte_of_char_def freq_to_scan_band_def derive_auth_type_def scan_consts

lemma scan_example_lines:
  "strtok_nl scan_example = [''BSS 00:11:22:33:44:55(on wlan0)'', '' freq: 2437'', '' signal: -47.00 dBm'',
     '' SSID: lab'', '' capability: ESS Privacy (0x0411)'', '' RSN:'', ''  * Authentication suites: PSK'']"
  unfolding scan_example_def by (rule strtok_nl_render) auto

lemma scan_example_entries:
  "parse_iw_scan scan_example MAX_ENTRIES =
     [\<lparr>e_ssid = [108, 97, 98], e_rssi = - 47, e_auth_type = 3, e_band = 0\<rparr>]"
  unfolding parse_iw_scan_blocks scan_example_lines
  by (simp add: scan_eval)

theorem wifi_switch_scan_safe_witness:
  "list_all valid_entry (the (fst (run_state (wifi_switch_scan (ok_os (\<lambda>_. scan_example))) (world0 (\<lambda>_. None)))))"
proof -
  let ?m = "wifi_switch_scan (ok_os (\<lambda>_. scan_example))"
  have "has_sub scan_example ''BSS ''"
    by (simp add: scan_example_def render_lines_def has_sub_def starts_with_def)
  moreover have "cstr (take (SCAN_BUF_SZ - 1) scan_example) = scan_example"
    by (simp add: SCAN_BUF_SZ_def scan_example_def render_lines_def cstr_def)
  ultimately obtain w' es where r: "run_state ?m (world0 (\<lambda>_. None)) = (Some es, w')"
    by (simp add: wifi_switch_scan_def c_trylock_def c_unlock_def c_malloc_def world0_def
        scan_usable_def SCAN_BUF_SZ_def)
  from wifi_switch_scan_safe [OF r, of es] r show ?thesis by simp
qed

lemma band_decision_channel:
  "band_decision h = Some (Some (b, ch)) \<Longrightarrow>
   0 < ch \<and> ch = freq_to_channel (if b = BAND_5 then snd h else fst h) b \<and> (b = BAND_24 \<longleftrightarrow> snd h = 0)"
  by (auto simp: band_decision_def Let_def split: prod.splits if_splits)

lemma scan_target_band_decided:
  assumes "run_state (scan_target_band os ssid) w = (Some d, w')"
  obtains buf where "scan_usable (0, buf)" and "band_decision (band_hits ssid buf) = Some (Some d)"
proof -
  let ?body = "\<lambda>attempt :: nat. do {
         r \<leftarrow> exec_capture os cmd_iw_scan SCAN_BUF_SZ;
         if \<not> scan_usable r then
           (if attempt < 6 then do { _ \<leftarrow> c_sleep os 3; ret None } else ret None)
         else (case band_decision (band_hits ssid (snd r)) of
                 Some d \<Rightarrow> ret (Some d)
               | None \<Rightarrow> if attempt < 6 then do { _ \<leftarrow> c_sleep os 3; ret None } else ret None) }"
  have body: "\<exists>buf. scan_usable (0, buf) \<and> band_decision (band_hits ssid buf) = Some d"
    if "run_state (?body i) w = (Some d, w')" for i d w w'
    using that by (auto simp: scan_usable_def split: prod.splits if_splits option.splits)
  from assms obtain v v' where "run_state (for_loop 6 1 ?body) v = (Some (Some d), v')"
    unfolding scan_target_band_def
    by (auto simp: c_malloc_def simp del: for_loop_numeral split: prod.splits if_splits option.splits)
  then have "\<exists>buf. scan_usable (0, buf) \<and> band_decision (band_hits ssid buf) = Some (Some d)"
    by (rule for_loop_ret_shape [rotated]) (rule body)
  then show thesis using that by blast
qed

text \<open>
  The band search answers only with a channel the code supports: when
  \<^verbatim>\<open>scan_target_band\<close> succeeds, some usable scan contained the SSID, the channel is that of a
  frequency at which it was seen, it lies in the table of the band, and 2.4 GHz is chosen
  only if the SSID was not seen at 5 GHz.
\<close>

theorem scan_target_band_supported:
  assumes "run_state (scan_target_band os ssid) w = (Some (b, ch), w')"
  shows "(\<exists>buf. scan_usable (0, buf) \<and>
      ch = freq_to_channel ((if b = BAND_5 then snd else fst) (band_hits ssid buf)) b \<and>
      (b = BAND_24 \<longleftrightarrow> snd (band_hits ssid buf) = 0)) \<and>
    (b = BAND_24 \<and> ch \<in> {1..14} \<or> b = BAND_5 \<and> ch \<in> {36..48} \<union> {149..165})"
proof
  from assms obtain buf where u: "scan_usable (0, buf)"
    and d: "band_decision (band_hits ssid buf) = Some (Some (b, ch))"
    by (rule scan_target_band_decided)
  note c = band_decision_channel [OF d]
  from u c show "\<exists>buf. scan_usable (0, buf) \<and>
      ch = freq_to_channel ((if b = BAND_5 then snd else fst) (band_hits ssid buf)) b \<and>
      (b = BAND_24 \<longleftrightarrow> snd (band_hits ssid buf) = 0)"
    by (intro exI [of _ buf]) auto
  from c freq_to_channel_cases [of "if b = BAND_5 then snd (band_hits ssid buf) else fst (band_hits ssid buf)" b]
  show "b = BAND_24 \<and> ch \<in> {1..14} \<or> b = BAND_5 \<and> ch \<in> {36..48} \<union> {149..165}" by auto
qed

lemma scan_example_hits: "band_hits ''lab'' scan_example = (2437, 0)"
  unfolding band_hits_def scan_example_lines
  by (simp add: band_hit_line_def scan_eval)

lemma scan_example_usable:
  "has_sub scan_example ''BSS ''" "cstr (take (SCAN_BUF_SZ - 1) scan_example) = scan_example"
  by (simp_all add: SCAN_BUF_SZ_def scan_example_def render_lines_def has_sub_def starts_with_def cstr_def)

theorem scan_target_band_supported_witness:
  "\<exists>b ch w'. run_state (scan_target_band (ok_os (\<lambda>_. scan_example)) ''lab'') (world0 (\<lambda>_. None)) = (Some (b, ch), w') \<and>
     (b = BAND_24 \<and> ch \<in> {1..14} \<or> b = BAND_5 \<and> ch \<in> {36..48} \<union> {149..165})"
proof -
  let ?m = "scan_target_band (ok_os (\<lambda>_. scan_example)) ''lab''"
  have "band_decision (band_hits ''lab'' scan_example) = Some (Some (BAND_24, 6))"
    by (simp add: scan_example_hits band_decision_def freq_to_channel_def)
  then obtain w' where r: "run_state ?m (world0 (\<lambda>_. None)) = (Some (BAND_24, 6), w')"
    using scan_example_usable
    by (simp add: scan_target_band_def c_malloc_def world0_def scan_usable_def SCAN_BUF_SZ_def)
  from scan_target_band_supported [OF r] r show ?thesis by blast
qed

text \<open>
  The two scans disagree on SSIDs with non-ASCII bytes: the entry shown to the phone has the
  decoded bytes, the band search compares the escaped text, so that network is listed by one
  and never found by the other.
\<close>

definition utf8_scan :: string where
  "utf8_scan = render_lines [''BSS 00:11:22:33:44:55(on wlan0)'', '' freq: 2437'',
     '' SSID: caf'' @ chr_bs # ''xc3'' @ chr_bs # ''xa9'']"

lemma utf8_scan_lines:
  "strtok_nl utf8_scan = [''BSS 00:11:22:33:44:55(on wlan0)'', '' freq: 2437'',
     '' SSID: caf'' @ chr_bs # ''xc3'' @ chr_bs # ''xa9'']"
  unfolding utf8_scan_def by (rule strtok_nl_render) auto

text \<open>
  A network whose name has a non-ASCII byte is listed to the phone and yet not
  found when the phone asks to join it: on the same scan text \<^verbatim>\<open>parse_iw_scan\<close> reports the
  decoded bytes, while \<^verbatim>\<open>scan_target_band\<close> compares the escaped text with those bytes and
  sees no such network.
\<close>

theorem utf8_ssid_listed_not_found:
  "map e_ssid (parse_iw_scan utf8_scan MAX_ENTRIES) = [[99, 97, 102, 0xC3, 0xA9]] \<and>
   band_decision (band_hits (map char_of_byte [99, 97, 102, 0xC3, 0xA9]) utf8_scan) = None"
  unfolding parse_iw_scan_blocks band_hits_def utf8_scan_lines
  by (simp add: scan_eval band_hit_line_def band_decision_def hex_byte_def isxdigit_def xdigit_val_def
      char_of_byte_def)

text \<open>
  The keywords of the authentication suites are looked for in the SSID line too, so
  an open network is reported as enterprise when its name contains \<open>EAP\<close>.
\<close>

theorem open_network_named_eap:
  "map e_auth_type (parse_iw_scan (render_lines [''BSS 00:11:22:33:44:55(on wlan0)'', '' freq: 2437'',
     '' SSID: CHEAP'', '' capability: ESS (0x0401)'']) MAX_ENTRIES) = [WIFI_SCAN_AUTH_ENTERPRISE]"
proof -
  let ?ls = "[''BSS 00:11:22:33:44:55(on wlan0)'', '' freq: 2437'', '' SSID: CHEAP'', '' capability: ESS (0x0401)'']"
  have "strtok_nl (render_lines ?ls) = ?ls" by (rule strtok_nl_render) auto
  then show ?thesis
    unfolding parse_iw_scan_blocks by (simp only:) (simp add: scan_eval)
qed

end
