(* ===== verification/WifiSwitch.thy ===== *)
theory WifiSwitch
  imports WifiScan
begin

text \<open>
  The workflows of \<^verbatim>\<open>wifi_switch.c\<close>: waiting for the radio, joining a network as a station
  (\<^verbatim>\<open>try_sta_only\<close>), the access point fallback (\<^verbatim>\<open>enter_ap_mode\<close>, \<^verbatim>\<open>exit_ap_mode\<close>), recovery,
  the reconnect monitor, the boot thread and the two entry points other threads call.
  Each is a program over the world of \<open>OsWorld\<close>; the endless monitor loop is one step
  function and its iteration.  The lemmas show which commands a workflow can issue and in
  which order, what its results mean, and that the switch mutex is released on every path.
\<close>

datatype wifi_switch_status =
    WIFI_SWITCH_OK
  | WIFI_SWITCH_ERR_NO_SSID
  | WIFI_SWITCH_ERR_BAD_PASSWORD
  | WIFI_SWITCH_ERR_CONNECT_FAIL
  | WIFI_SWITCH_ERR_BUSY
  | WIFI_SWITCH_ERR_UNKNOWN

section \<open>Environment\<close>

definition disable_ipv6 :: "'e os \<Rightarrow> ('e, unit) io" where
  "disable_ipv6 os = do {
     _ \<leftarrow> write_file os ''/proc/sys/net/ipv6/conf/all/disable_ipv6'' (''1'' @ [chr_nl]);
     _ \<leftarrow> write_file os ''/proc/sys/net/ipv6/conf/default/disable_ipv6'' (''1'' @ [chr_nl]);
     _ \<leftarrow> write_file os ''/proc/sys/net/ipv6/conf/wlan0/disable_ipv6'' (''1'' @ [chr_nl]);
     ret () }"

definition print_environment :: "'e os \<Rightarrow> ('e, unit) io" where
  "print_environment os = do {
     _ \<leftarrow> exec_capture os ''ip -br addr'' 8192;
     _ \<leftarrow> exec_capture os ''iw dev'' 8192;
     each (\<lambda>tool. do { _ \<leftarrow> exec_capture os (snprintf_s 96 (''which '' @ tool @ '' 2>/dev/null'')) 8192; ret () })
       [''wpa_supplicant'', ''udhcpc'', ''iw'', ''iptables'', ''ping''] }"

section \<open>Readiness\<close>

definition cmd_pidof_hostapd :: string where "cmd_pidof_hostapd = ''pidof hostapd 2>/dev/null''"

text \<open>One pass of the field loop: the blanks, then the field.\<close>

definition skip_field :: "string \<Rightarrow> string" where
  "skip_field p = dropWhile (\<lambda>c. c \<noteq> chr_sp \<and> c \<noteq> chr_nl) (dropWhile (\<lambda>c. c = chr_sp) p)"

text \<open>The seconds between the start of the process and now, truncated as the cast does.\<close>

definition uptime_diff :: "int \<times> int \<Rightarrow> int \<Rightarrow> int \<Rightarrow> int" where
  "uptime_diff uptime start_ticks ticks_per_sec = (case uptime of (m, e) \<Rightarrow>
     if e \<ge> 0 then c_div (m * 10 ^ nat e * ticks_per_sec - start_ticks) ticks_per_sec
     else c_div (m * ticks_per_sec - start_ticks * 10 ^ nat (- e)) (ticks_per_sec * 10 ^ nat (- e)))"

definition hostapd_uptime_seconds :: "'e os \<Rightarrow> ('e, int) io" where
  "hostapd_uptime_seconds os = do {
     r \<leftarrow> exec_capture os cmd_pidof_hostapd 64;
     if fst r \<noteq> 0 \<or> snd r = [] then ret (-1)
     else (let pid = atoi (snd r) in
       if pid \<le> 0 then ret (-1)
       else do {
         st \<leftarrow> read_file_all (snprintf_s 64 (''/proc/'' @ dec_of_int pid @ ''/stat'')) 1024;
         (case st of
            None \<Rightarrow> ret (-1)
          | Some (n, stat_buf) \<Rightarrow>
              if n = 0 then ret (-1)
              else (case strrchr stat_buf (CHR '')'') of
                 None \<Rightarrow> ret (-1)
               | Some p \<Rightarrow>
                   (let start_ticks = strtol10 (dropWhile (\<lambda>c. c = chr_sp) ((skip_field ^^ 19) p)) in
                    if start_ticks \<le> 0 then ret (-1)
                    else do {
                      up \<leftarrow> read_file_all ''/proc/uptime'' 64;
                      (case up of
                         None \<Rightarrow> ret (-1)
                       | Some (m, uptime_buf) \<Rightarrow>
                           if m = 0 then ret (-1)
                           else do {
                             ticks_per_sec \<leftarrow> gets (\<lambda>w. os_clk_tck os (w_env w));
                             if ticks_per_sec \<le> 0 then ret (-1)
                             else ret (uptime_diff (strtod_dec uptime_buf) start_ticks ticks_per_sec) }) }))) }) }"

definition wait_for_system_ready :: "'e os \<Rightarrow> ('e, int) io" where
  "wait_for_system_ready os = do {
     present \<leftarrow> for_loop 30 1 (\<lambda>i. do {
       here \<leftarrow> c_exists ''/sys/class/net/wlan0'';
       if here then ret (Some True)
       else do { _ \<leftarrow> c_sleep os 1; ret (if i = 30 then Some False else None) } });
     if present = Some False then ret (-1)
     else do {
       _ \<leftarrow> for_loop 20 1 (\<lambda>i. do {
         r \<leftarrow> exec_capture os cmd_scan_trigger 256;
         if fst r = 0 \<or> has_sub (snd r) ''Device or resource busy'' then ret (Some ())
         else do { _ \<leftarrow> c_sleep os 1; ret None } });
       up \<leftarrow> hostapd_uptime_seconds os;
       _ \<leftarrow> (if up < 0 then ret ()
             else if up \<ge> 5 then ret ()
             else c_sleep os (nat (5 - up)));
       ret 0 } }"

section \<open>Association diagnosis\<close>

text \<open>The reason the function reports; the caller only sees whether it is a rejected key.\<close>

datatype assoc_failure =
    Psk_rejected
  | Visible_but_scanning u32 int
  | Not_in_scan_results
  | Timed_out_in string
  | Wpa_disconnected
  | Other_state string

definition explain_sta_assoc_failure :: "'e os \<Rightarrow> string \<Rightarrow> ('e, assoc_failure) io" where
  "explain_sta_assoc_failure os ssid = do {
     status \<leftarrow> exec_capture os ''wpa_cli -i wlan0 status 2>/dev/null'' 4096;
     networks \<leftarrow> exec_capture os ''wpa_cli -i wlan0 list_networks 2>/dev/null'' 4096;
     scans \<leftarrow> exec_capture os ''wpa_cli -i wlan0 scan_results 2>/dev/null'' 16384;
     (let wpa_state = (case field_value (snd status) ''wpa_state'' 64 of Some v \<Rightarrow> v | None \<Rightarrow> ''UNKNOWN'') in
      ret (if has_sub (snd status) ''4WAY_HANDSHAKE'' \<or> has_sub (snd networks) ''TEMP-DISABLED''
           then Psk_rejected
           else if wpa_state = ''SCANNING'' then
             (case scan_results_find_ssid (snd scans) ssid of
                Some (freq, signal) \<Rightarrow> Visible_but_scanning freq signal
              | None \<Rightarrow> Not_in_scan_results)
           else if wpa_state = ''ASSOCIATING'' \<or> wpa_state = ''ASSOCIATED'' then Timed_out_in wpa_state
           else if wpa_state = ''DISCONNECTED'' then Wpa_disconnected
           else Other_state wpa_state)) }"

definition connectivity_check :: "'e os \<Rightarrow> ('e, unit) io" where
  "connectivity_check os = do {
     _ \<leftarrow> exec_capture os ''ip -4 route'' 8192;
     _ \<leftarrow> read_file_all ''/etc/resolv.conf'' 8192;
     _ \<leftarrow> each (\<lambda>t. do { _ \<leftarrow> exec_cmd os (snprintf_s 128 (''ping -4 -c 2 -W 3 '' @ t @ '' >/dev/null 2>&1'')); ret () })
       [''223.5.5.5'', ''114.114.114.114''];
     _ \<leftarrow> exec_cmd os ''ping -4 -c 1 -W 3 www.baidu.com >/dev/null 2>&1'';
     ret () }"

section \<open>Station and access point primitives\<close>

definition kill_wpa :: string where "kill_wpa = ''killall wpa_supplicant 2>/dev/null''"
definition kill_dnsmasq :: string where "kill_dnsmasq = ''killall dnsmasq 2>/dev/null''"
definition kill_hostapd :: string where "kill_hostapd = ''killall hostapd 2>/dev/null''"
definition addr_flush :: string where "addr_flush = ''ip addr flush dev wlan0 2>/dev/null''"
definition link_up :: string where "link_up = ''ip link set wlan0 up''"
definition link_down :: string where "link_down = ''ip link set wlan0 down 2>/dev/null''"
definition start_wpa :: string where
  "start_wpa = ''wpa_supplicant -B -i wlan0 -c /etc/wpa_supplicant.conf -D nl80211 2>&1''"
definition start_hostapd :: string where "start_hostapd = ''hostapd -B /etc/hostapd.conf''"
definition start_dnsmasq :: string where "start_dnsmasq = ''dnsmasq -C /etc/dnsmasq.conf''"
definition dhcp_client :: string where "dhcp_client = ''udhcpc -i wlan0 -q -n -t 10''"

lemmas cmd_defs = kill_wpa_def kill_dnsmasq_def kill_hostapd_def addr_flush_def link_up_def link_down_def
  start_wpa_def start_hostapd_def start_dnsmasq_def dhcp_client_def cmd_pidof_hostapd_def
  cmd_iw_scan_def cmd_scan_trigger_def cmd_set_managed_def

definition is_ap_running :: "'e os \<Rightarrow> ('e, bool) io" where
  "is_ap_running os = do {
     r \<leftarrow> exec_capture os cmd_pidof_hostapd 64;
     ret (fst r = 0 \<and> snd r \<noteq> []) }"

text \<open>Status and the contents of \<^verbatim>\<open>out_ip\<close>.\<close>

definition try_sta_only ::
  "'e os \<Rightarrow> string \<Rightarrow> string \<Rightarrow> nat \<Rightarrow> ('e, wifi_switch_status \<times> string) io" where
  "try_sta_only os ssid password out_ip_sz = do {
     _ \<leftarrow> exec_cmd os kill_wpa;
     _ \<leftarrow> exec_cmd os kill_dnsmasq;
     _ \<leftarrow> exec_cmd os kill_hostapd;
     _ \<leftarrow> exec_cmd os addr_flush;
     _ \<leftarrow> c_usleep os (500 * 1000);
     up \<leftarrow> exec_cmd os link_up;
     if up \<noteq> 0 then ret (WIFI_SWITCH_ERR_CONNECT_FAIL, [])
     else do {
       _ \<leftarrow> exec_capture os ''iw reg set CN 2>&1'' 256;
       _ \<leftarrow> c_usleep os (300 * 1000);
       _ \<leftarrow> exec_capture os ''iw reg get 2>/dev/null'' 512;
       target \<leftarrow> scan_target_band os ssid;
       (case target of
          None \<Rightarrow> ret (WIFI_SWITCH_ERR_NO_SSID, [])
        | Some (target_band, target_ch) \<Rightarrow> do {
            _ \<leftarrow> persist_band os target_band;
            wc \<leftarrow> write_wpa_config os ssid password;
            if wc \<noteq> 0 then ret (WIFI_SWITCH_ERR_UNKNOWN, [])
            else do {
              _ \<leftarrow> exec_capture os start_wpa 1024;
              _ \<leftarrow> c_usleep os (200 * 1000);
              pid \<leftarrow> exec_capture os ''pidof wpa_supplicant 2>/dev/null'' 64;
              if \<not> (fst pid = 0 \<and> snd pid \<noteq> []) then ret (WIFI_SWITCH_ERR_CONNECT_FAIL, [])
              else do {
                associated \<leftarrow> for_loop 60 1 (\<lambda>i. do {
                  _ \<leftarrow> c_usleep os (500 * 1000);
                  a \<leftarrow> is_associated os ''wlan0'';
                  ret (if a then Some () else None) });
                if associated = None then do {
                  reason \<leftarrow> explain_sta_assoc_failure os ssid;
                  ret (if reason = Psk_rejected then WIFI_SWITCH_ERR_BAD_PASSWORD
                       else WIFI_SWITCH_ERR_CONNECT_FAIL, []) }
                else do {
                  _ \<leftarrow> exec_cmd os ''iw dev wlan0 link'';
                  dhcp \<leftarrow> exec_cmd os dhcp_client;
                  if dhcp \<noteq> 0 then ret (WIFI_SWITCH_ERR_CONNECT_FAIL, [])
                  else do {
                    addr \<leftarrow> exec_capture os ''ip -4 addr show wlan0'' 8192;
                    (let ip = (if fst addr = 0 then
                                 (case extract_inet4 (snd addr) out_ip_sz of Some a \<Rightarrow> a | None \<Rightarrow> [])
                               else []) in
                     ret (if ip = [] then WIFI_SWITCH_ERR_CONNECT_FAIL else WIFI_SWITCH_OK, ip)) } } } } }) } }"

definition enter_ap_mode :: "'e os \<Rightarrow> ('e, int) io" where
  "enter_ap_mode os = do {
     band \<leftarrow> read_band;
     (let channel = (if band = BAND_5 then 36 else 6) in do {
       _ \<leftarrow> exec_cmd os kill_wpa;
       _ \<leftarrow> exec_cmd os kill_hostapd;
       _ \<leftarrow> exec_cmd os kill_dnsmasq;
       _ \<leftarrow> exec_cmd os addr_flush;
       _ \<leftarrow> c_usleep os (500 * 1000);
       _ \<leftarrow> exec_cmd os link_up;
       _ \<leftarrow> exec_cmd os ''ip addr flush dev wlan0'';
       _ \<leftarrow> exec_cmd os ''ip addr add 192.168.50.1/24 dev wlan0'';
       rw \<leftarrow> rewrite_hostapd_channel os channel band;
       if rw \<noteq> 0 then ret (-1)
       else do {
         _ \<leftarrow> exec_cmd os kill_hostapd;
         _ \<leftarrow> exec_cmd os kill_dnsmasq;
         _ \<leftarrow> c_usleep os (800 * 1000);
         h \<leftarrow> exec_cmd os start_hostapd;
         if h \<noteq> 0 then ret (-1)
         else do {
           _ \<leftarrow> c_usleep os (800 * 1000);
           p \<leftarrow> exec_capture os cmd_pidof_hostapd 64;
           if fst p \<noteq> 0 \<or> snd p = [] then ret (-1)
           else do {
             _ \<leftarrow> exec_cmd os start_dnsmasq;
             ret 0 } } } }) }"

definition mark_network_ready :: "'e os \<Rightarrow> string \<Rightarrow> string option \<Rightarrow> ('e, unit) io" where
  "mark_network_ready os mode detail = do {
     f \<leftarrow> c_fopen_w os ''/run/wifi_ready'';
     if \<not> f then ret ()
     else do {
       ts \<leftarrow> gets (\<lambda>w. os_now os (w_env w));
       _ \<leftarrow> c_fwrite_close os ''/run/wifi_ready''
         (''mode='' @ mode @ '' detail='' @ (case detail of Some d \<Rightarrow> d | None \<Rightarrow> ''-'') @ '' ts='' @ ts @ [chr_nl]);
       _ \<leftarrow> exec_cmd os ''iw dev wlan0 set power_save off 2>/dev/null'';
       ret () } }"

definition exit_ap_mode :: "'e os \<Rightarrow> ('e, unit) io" where
  "exit_ap_mode os = do {
     _ \<leftarrow> exec_cmd os kill_dnsmasq;
     _ \<leftarrow> exec_cmd os kill_hostapd;
     _ \<leftarrow> exec_cmd os addr_flush;
     _ \<leftarrow> exec_cmd os link_down;
     ret () }"

definition warm_regdom_via_hostapd :: "'e os \<Rightarrow> ('e, unit) io" where
  "warm_regdom_via_hostapd os = do {
     rc \<leftarrow> enter_ap_mode os;
     if rc \<noteq> 0 then ret () else c_sleep os 2 }"

definition rfkill_toggle :: string where
  "rfkill_toggle = ''for f in /sys/class/rfkill/rfkill*/state; do [ -e '' @ [chr_dq] @ ''$f'' @ [chr_dq] @
     '' ] || continue; echo 0 > '' @ [chr_dq] @ ''$f'' @ [chr_dq] @ '' 2>/dev/null; sleep 1; echo 1 > '' @
     [chr_dq] @ ''$f'' @ [chr_dq] @ '' 2>/dev/null; done''"

definition recover_wifi_radio :: "'e os \<Rightarrow> ('e, unit) io" where
  "recover_wifi_radio os = do {
     _ \<leftarrow> exec_cmd os kill_wpa;
     _ \<leftarrow> exec_cmd os kill_hostapd;
     _ \<leftarrow> exec_cmd os kill_dnsmasq;
     _ \<leftarrow> exec_cmd os addr_flush;
     _ \<leftarrow> exec_cmd os link_down;
     _ \<leftarrow> c_usleep os (500 * 1000);
     _ \<leftarrow> exec_cmd os rfkill_toggle;
     _ \<leftarrow> c_sleep os 2;
     _ \<leftarrow> exec_cmd os (link_up @ '' 2>/dev/null'');
     c_sleep os 1 }"

section \<open>The reconnect monitor\<close>

text \<open>\<^verbatim>\<open>(miss_count, retry_delay)\<close>; one pass of the \<^verbatim>\<open>while (1)\<close> body.\<close>

type_synonym monitor = "nat \<times> nat"

definition monitor_start :: monitor where "monitor_start = (0, 10)"

definition next_delay :: "nat \<Rightarrow> nat" where
  "next_delay retry_delay =
     (let d = (if retry_delay < 60 then retry_delay * 2 else retry_delay) in if d > 60 then 60 else d)"

definition wifi_reconnect_step :: "'e os \<Rightarrow> monitor \<Rightarrow> ('e, monitor) io" where
  "wifi_reconnect_step os m = (case m of (miss_count, retry_delay) \<Rightarrow> do {
     _ \<leftarrow> c_sleep os 5;
     ap \<leftarrow> is_ap_running os;
     if ap then ret (0, retry_delay)
     else do {
       connected \<leftarrow> wifi_switch_is_connected os;
       if connected then ret (0, 10)
       else if miss_count + 1 < 2 then ret (miss_count + 1, retry_delay)
       else do {
         locked \<leftarrow> c_trylock;
         if \<not> locked then ret (0, retry_delay)
         else do {
           creds \<leftarrow> read_home_wifi 128 128;
           (case creds of
              None \<Rightarrow> do {
                ap2 \<leftarrow> is_ap_running os;
                _ \<leftarrow> (if \<not> ap2 then enter_ap_mode os else ret 0);
                _ \<leftarrow> c_unlock;
                _ \<leftarrow> c_sleep os 30;
                ret (0, retry_delay) }
            | Some (ssid, password) \<Rightarrow> do {
                _ \<leftarrow> recover_wifi_radio os;
                r \<leftarrow> try_sta_only os ssid password 64;
                if fst r = WIFI_SWITCH_OK then do {
                  _ \<leftarrow> c_unlock;
                  ret (0, 10) }
                else do {
                  _ \<leftarrow> enter_ap_mode os;
                  _ \<leftarrow> c_unlock;
                  _ \<leftarrow> c_sleep os retry_delay;
                  ret (0, next_delay retry_delay) } }) } } } })"

primrec wifi_reconnect_monitor :: "'e os \<Rightarrow> nat \<Rightarrow> monitor \<Rightarrow> ('e, monitor) io" where
  "wifi_reconnect_monitor os 0 m = ret m"
| "wifi_reconnect_monitor os (Suc n) m = do {
     m' \<leftarrow> wifi_reconnect_step os m;
     wifi_reconnect_monitor os n m' }"

section \<open>Entry points\<close>

text \<open>
  The boot thread up to the monitor: \<open>None\<close> when the thread exits because the system never
  became ready.
\<close>

definition wifi_switch_boot :: "'e os \<Rightarrow> ('e, wifi_switch_status option) io" where
  "wifi_switch_boot os = do {
     creds \<leftarrow> read_home_wifi 128 128;
     ready \<leftarrow> wait_for_system_ready os;
     if ready \<noteq> 0 then ret None
     else do {
       _ \<leftarrow> disable_ipv6 os;
       _ \<leftarrow> print_environment os;
       _ \<leftarrow> c_lock;
       band \<leftarrow> read_band;
       _ \<leftarrow> (if creds \<noteq> None \<and> band = BAND_5 then warm_regdom_via_hostapd os else ret ());
       r \<leftarrow> (case creds of
               Some (ssid, password) \<Rightarrow> try_sta_only os ssid password 64
             | None \<Rightarrow> ret (WIFI_SWITCH_ERR_UNKNOWN, []));
       if creds \<noteq> None \<and> fst r = WIFI_SWITCH_OK then do {
         _ \<leftarrow> c_unlock;
         _ \<leftarrow> mark_network_ready os ''STA'' (Some (snd r));
         _ \<leftarrow> connectivity_check os;
         ret (Some WIFI_SWITCH_OK) }
       else do {
         _ \<leftarrow> (if creds \<noteq> None then do { _ \<leftarrow> exec_cmd os kill_wpa; c_usleep os (500 * 1000) } else ret ());
         ap \<leftarrow> enter_ap_mode os;
         _ \<leftarrow> (if ap = 0 then mark_network_ready os ''AP'' (Some ''192.168.50.1'') else ret ());
         _ \<leftarrow> c_unlock;
         ret (Some (fst r)) } } }"

text \<open>The thread with the first \<open>n\<close> passes of its monitor.\<close>

definition wifi_switch_thread :: "'e os \<Rightarrow> nat \<Rightarrow> ('e, unit) io" where
  "wifi_switch_thread os n = do {
     r \<leftarrow> wifi_switch_boot os;
     (case r of
        None \<Rightarrow> ret ()
      | Some _ \<Rightarrow> do { _ \<leftarrow> wifi_reconnect_monitor os n monitor_start; ret () }) }"

definition wifi_switch_run_now ::
  "'e os \<Rightarrow> string option \<Rightarrow> string option \<Rightarrow> ('e, wifi_switch_status) io" where
  "wifi_switch_run_now os ssid password = do {
     locked \<leftarrow> c_trylock;
     if \<not> locked then ret WIFI_SWITCH_ERR_BUSY
     else do {
       creds \<leftarrow> (case ssid of
           Some (c # cs) \<Rightarrow> ret (Some (c # cs, case password of Some p \<Rightarrow> p | None \<Rightarrow> []))
         | _ \<Rightarrow> read_home_wifi 128 128);
       (case creds of
          None \<Rightarrow> do { _ \<leftarrow> c_unlock; ret WIFI_SWITCH_ERR_UNKNOWN }
        | Some (s, p) \<Rightarrow> do {
            ready \<leftarrow> wait_for_system_ready os;
            if ready \<noteq> 0 then do { _ \<leftarrow> c_unlock; ret WIFI_SWITCH_ERR_CONNECT_FAIL }
            else do {
              _ \<leftarrow> disable_ipv6 os;
              ap_was_up \<leftarrow> is_ap_running os;
              _ \<leftarrow> (if ap_was_up then ret () else warm_regdom_via_hostapd os);
              r \<leftarrow> try_sta_only os s p 64;
              _ \<leftarrow> (if fst r = WIFI_SWITCH_OK then mark_network_ready os ''STA'' (Some (snd r))
                    else if ap_was_up then do { _ \<leftarrow> enter_ap_mode os; ret () }
                    else ret ());
              _ \<leftarrow> c_unlock;
              ret (fst r) } }) } }"

definition wifi_switch_ensure_ap_mode :: "'e os \<Rightarrow> ('e, wifi_switch_status) io" where
  "wifi_switch_ensure_ap_mode os = do {
     locked \<leftarrow> c_trylock;
     if \<not> locked then ret WIFI_SWITCH_ERR_BUSY
     else do {
       ap \<leftarrow> is_ap_running os;
       if ap then do { _ \<leftarrow> c_unlock; ret WIFI_SWITCH_OK }
       else do {
         ready \<leftarrow> wait_for_system_ready os;
         if ready \<noteq> 0 then do { _ \<leftarrow> c_unlock; ret WIFI_SWITCH_ERR_CONNECT_FAIL }
         else do {
           _ \<leftarrow> disable_ipv6 os;
           up \<leftarrow> enter_ap_mode os;
           if up \<noteq> 0 then do { _ \<leftarrow> c_unlock; ret WIFI_SWITCH_ERR_CONNECT_FAIL }
           else do {
             _ \<leftarrow> mark_network_ready os ''AP'' (Some ''192.168.50.1'');
             _ \<leftarrow> c_unlock;
             ret WIFI_SWITCH_OK } } } } }"

section \<open>Which commands a workflow can issue\<close>

text \<open>Events other than the commands that matter: taking the link down and starting a daemon.\<close>

definition quiet :: "event \<Rightarrow> bool" where
  "quiet ev \<longleftrightarrow> ev \<noteq> Ev_system link_down \<and> ev \<noteq> Ev_popen start_wpa \<and> ev \<noteq> Ev_system start_hostapd \<and>
     ev \<noteq> Ev_system dhcp_client"

lemmas quiet_simps = quiet_def cmd_defs path_defs

lemma emits_config_ops [io_intros]:
  assumes q: "\<And>ev. quiet ev \<Longrightarrow> P ev"
  shows "state_io_rel (emits P) (read_home_wifi m n)"
    and "state_io_rel (emits P) read_band"
    and "state_io_rel (emits P) (persist_band os b)"
    and "state_io_rel (emits P) (rewrite_hostapd_channel os ch b)"
    and "state_io_rel (emits P) (write_wpa_config os ssid pwd)"
    and "state_io_rel (emits P) (wifi_switch_is_connected os)"
    and "state_io_rel (emits P) (is_associated os ''wlan0'')"
  unfolding read_home_wifi_def read_band_def persist_band_def rewrite_hostapd_channel_def write_wpa_config_def
    wifi_switch_is_connected_def is_associated_def
  by ((intro io_intros q)?; simp_all add: quiet_simps)+

lemma mutex_config_ops [io_intros]:
  "state_io_rel same_mutex (read_home_wifi m n)"
  "state_io_rel same_mutex read_band"
  "state_io_rel same_mutex (persist_band os b)"
  "state_io_rel same_mutex (rewrite_hostapd_channel os ch b)"
  "state_io_rel same_mutex (write_wpa_config os ssid pwd)"
  "state_io_rel same_mutex (wifi_switch_is_connected os)"
  "state_io_rel same_mutex (is_associated os iface)"
  unfolding read_home_wifi_def read_band_def persist_band_def rewrite_hostapd_channel_def write_wpa_config_def
    wifi_switch_is_connected_def is_associated_def
  by (intro io_intros)+

lemma emits_quiet_ops [io_intros]:
  assumes q: "\<And>ev. quiet ev \<Longrightarrow> P ev"
  shows "state_io_rel (emits P) (disable_ipv6 os)"
    and "state_io_rel (emits P) (print_environment os)"
    and "state_io_rel (emits P) (hostapd_uptime_seconds os)"
    and "state_io_rel (emits P) (explain_sta_assoc_failure os ssid)"
    and "state_io_rel (emits P) (connectivity_check os)"
    and "state_io_rel (emits P) (is_ap_running os)"
    and "state_io_rel (emits P) (mark_network_ready os mode detail)"
  unfolding disable_ipv6_def print_environment_def hostapd_uptime_seconds_def explain_sta_assoc_failure_def
    connectivity_check_def is_ap_running_def mark_network_ready_def
  by ((intro io_intros q)?; auto simp: quiet_simps snprintf_s_def)+

lemma emits_wait_for_system_ready [io_intros]:
  assumes q: "\<And>ev. quiet ev \<Longrightarrow> P ev"
  shows "state_io_rel (emits P) (wait_for_system_ready os)"
  unfolding wait_for_system_ready_def
  by (intro io_intros q) (simp_all add: quiet_simps)

lemma emits_try_sta_only [io_intros]:
  assumes q: "\<And>ev. quiet ev \<Longrightarrow> P ev"
    and "P (Ev_popen start_wpa)" and "P (Ev_system dhcp_client)"
  shows "state_io_rel (emits P) (try_sta_only os ssid pwd n)"
  unfolding try_sta_only_def
  by (intro io_intros assms(2,3) q) (simp_all add: quiet_simps)

lemma emits_enter_ap_mode [io_intros]:
  assumes q: "\<And>ev. quiet ev \<Longrightarrow> P ev" and "P (Ev_system start_hostapd)"
  shows "state_io_rel (emits P) (enter_ap_mode os)" "state_io_rel (emits P) (warm_regdom_via_hostapd os)"
  unfolding enter_ap_mode_def warm_regdom_via_hostapd_def
  by ((intro io_intros assms(2) q)?; simp_all add: quiet_simps)+

lemma mutex_ops [io_intros]:
  "state_io_rel same_mutex (disable_ipv6 os)"
  "state_io_rel same_mutex (print_environment os)"
  "state_io_rel same_mutex (hostapd_uptime_seconds os)"
  "state_io_rel same_mutex (explain_sta_assoc_failure os ssid)"
  "state_io_rel same_mutex (connectivity_check os)"
  "state_io_rel same_mutex (is_ap_running os)"
  "state_io_rel same_mutex (mark_network_ready os mode detail)"
  "state_io_rel same_mutex (recover_wifi_radio os)"
  "state_io_rel same_mutex (exit_ap_mode os)"
  unfolding disable_ipv6_def print_environment_def hostapd_uptime_seconds_def explain_sta_assoc_failure_def
    connectivity_check_def is_ap_running_def mark_network_ready_def recover_wifi_radio_def exit_ap_mode_def
  by (intro io_intros)+

lemma mutex_workflows [io_intros]:
  "state_io_rel same_mutex (wait_for_system_ready os)"
  "state_io_rel same_mutex (try_sta_only os ssid pwd n)"
  "state_io_rel same_mutex (enter_ap_mode os)"
  "state_io_rel same_mutex (warm_regdom_via_hostapd os)"
  unfolding wait_for_system_ready_def try_sta_only_def enter_ap_mode_def warm_regdom_via_hostapd_def
  by (intro io_intros)+

section \<open>The switch mutex\<close>

text \<open>Programs after which the mutex is free.\<close>

definition releases :: "('e, 'a) io \<Rightarrow> bool" where
  "releases m \<longleftrightarrow> (\<forall>w. \<not> w_mutex (snd (run_state m w)))"

lemma releases_unlock:
  assumes "\<And>x. state_io_rel same_mutex (f x)"
  shows "releases (State_Monad.bind c_unlock f)"
proof -
  have "w_mutex (snd (run_state (f ()) w)) = w_mutex w" for w
    using keep_run [OF assms, of w "()"] by (simp add: same_mutex_def)
  then show ?thesis by (simp add: releases_def c_unlock_def)
qed

lemma releases_bind: "(\<And>x. releases (f x)) \<Longrightarrow> releases (State_Monad.bind m f)"
  by (auto simp: releases_def split: prod.split)

lemma releases_if: "releases m \<Longrightarrow> releases n \<Longrightarrow> releases (if b then m else n)"
  by simp

lemma releases_case_option:
  "releases m \<Longrightarrow> (\<And>y. releases (f y)) \<Longrightarrow> releases (case x of None \<Rightarrow> m | Some y \<Rightarrow> f y)"
  by (cases x) auto

lemma releases_case_prod: "(\<And>a b. releases (f a b)) \<Longrightarrow> releases (case x of (a, b) \<Rightarrow> f a b)"
  by (cases x) auto

lemmas releases_rules = releases_unlock releases_case_option releases_case_prod releases_if releases_bind

text \<open>The pattern of every entry point: give up when the lock is taken, else release it.\<close>

lemma mutex_trylock:
  assumes "state_io_rel same_mutex m" and "releases n"
  shows "state_io_rel same_mutex (State_Monad.bind c_trylock (\<lambda>locked. if \<not> locked then m else n))"
  unfolding state_io_rel_def
proof
  fix w :: "'a world"
  show "same_mutex w (snd (run_state (State_Monad.bind c_trylock (\<lambda>locked. if \<not> locked then m else n)) w))"
    using assms by (auto simp: c_trylock_def releases_def state_io_rel_def same_mutex_def)
qed

lemma mutex_wifi_reconnect_step [io_intros]: "state_io_rel same_mutex (wifi_reconnect_step os m)"
  unfolding wifi_reconnect_step_def
  by (rule keep_case_prod,
      (rule mutex_trylock releases_rules keep_if mutex.keep_bind | intro io_intros)+)

lemma mutex_wifi_reconnect_monitor [io_intros]: "state_io_rel same_mutex (wifi_reconnect_monitor os n m)"
proof (induction n arbitrary: m)
  case 0
  then show ?case by (simp add: mutex.keep_ret)
next
  case (Suc n)
  then show ?case by (simp add: mutex.keep_bind mutex_wifi_reconnect_step)
qed

lemma mutex_run_now [io_intros]: "state_io_rel same_mutex (wifi_switch_run_now os ssid pwd)"
  unfolding wifi_switch_run_now_def
  by (rule mutex_trylock; (rule releases_rules | intro io_intros)+)

lemma mutex_ensure_ap_mode [io_intros]: "state_io_rel same_mutex (wifi_switch_ensure_ap_mode os)"
  unfolding wifi_switch_ensure_ap_mode_def
  by (rule mutex_trylock; (rule releases_rules | intro io_intros)+)

text \<open>Programs that leave a free mutex free.\<close>

definition frees :: "('e, 'a) io \<Rightarrow> bool" where
  "frees m \<longleftrightarrow> (\<forall>w. \<not> w_mutex w \<longrightarrow> \<not> w_mutex (snd (run_state m w)))"

lemma frees_keep: "state_io_rel same_mutex m \<Longrightarrow> frees m"
  by (simp add: frees_def state_io_rel_def same_mutex_def)

lemma frees_releases: "releases m \<Longrightarrow> frees m"
  by (simp add: frees_def releases_def)

lemma frees_bind: "frees m \<Longrightarrow> (\<And>x. frees (f x)) \<Longrightarrow> frees (State_Monad.bind m f)"
  by (auto simp: frees_def split: prod.split)

lemma frees_if: "frees m \<Longrightarrow> frees n \<Longrightarrow> frees (if b then m else n)"
  by simp

lemma frees_case_option: "frees m \<Longrightarrow> (\<And>y. frees (f y)) \<Longrightarrow> frees (case x of None \<Rightarrow> m | Some y \<Rightarrow> f y)"
  by (cases x) auto

lemma frees_boot: "frees (wifi_switch_boot os)"
  unfolding wifi_switch_boot_def
  by (rule frees_bind [OF frees_keep], intro io_intros, rule frees_bind [OF frees_keep], intro io_intros,
      rule frees_if, rule frees_keep, intro io_intros, rule frees_releases,
      (rule releases_rules | intro io_intros)+)

lemma frees_thread: "frees (wifi_switch_thread os n)"
  unfolding wifi_switch_thread_def
  by (intro frees_bind frees_boot frees_case_option frees_keep io_intros)

section \<open>Results\<close>

text \<open>Every value a program can return satisfies \<open>Q\<close>.\<close>

definition returns :: "('a \<Rightarrow> bool) \<Rightarrow> ('s, 'a) state \<Rightarrow> bool" where
  "returns Q m \<longleftrightarrow> (\<forall>s. Q (fst (run_state m s)))"

lemma returns_ret: "Q x \<Longrightarrow> returns Q (ret x)"
  by (simp add: returns_def)

lemma returns_bind: "(\<And>x. returns Q (f x)) \<Longrightarrow> returns Q (State_Monad.bind m f)"
  by (auto simp: returns_def split: prod.split)

lemma returns_if: "(b \<Longrightarrow> returns Q m) \<Longrightarrow> (\<not> b \<Longrightarrow> returns Q n) \<Longrightarrow> returns Q (if b then m else n)"
  by simp

lemma returns_case_option:
  "returns Q m \<Longrightarrow> (\<And>y. returns Q (f y)) \<Longrightarrow> returns Q (case x of None \<Rightarrow> m | Some y \<Rightarrow> f y)"
  by (cases x) auto

lemma returns_case_prod: "(\<And>a b. returns Q (f a b)) \<Longrightarrow> returns Q (case x of (a, b) \<Rightarrow> f a b)"
  by (cases x) auto

lemma returns_Let: "(\<And>y. y = x \<Longrightarrow> returns Q (f y)) \<Longrightarrow> returns Q (let y = x in f y)"
  by simp

lemmas returns_rules = returns_bind returns_if returns_case_option returns_case_prod returns_Let returns_ret

lemma returnsD: "returns Q m \<Longrightarrow> run_state m s = (x, s') \<Longrightarrow> Q x"
  by (metis fst_conv returns_def)

lemma length_inet4: "inet4_of_lines sz ls = Some a \<Longrightarrow> 0 < sz \<Longrightarrow> length a < sz"
  by (induction sz ls rule: inet4_of_lines.induct)
     (auto simp: Let_def length_snprintf_s split: option.splits)

definition sta_result :: "nat \<Rightarrow> wifi_switch_status \<times> string \<Rightarrow> bool" where
  "sta_result sz r \<longleftrightarrow> fst r \<noteq> WIFI_SWITCH_ERR_BUSY \<and> (fst r = WIFI_SWITCH_OK \<longleftrightarrow> snd r \<noteq> []) \<and> length (snd r) < sz"

lemma returns_try_sta_only:
  assumes "0 < sz"
  shows "returns (sta_result sz) (try_sta_only os ssid pwd sz)"
  unfolding try_sta_only_def
  by (intro returns_rules)
     (auto simp: sta_result_def extract_inet4_def assms dest: length_inet4 split: option.split)

lemma returns_bind_dep:
  "returns Q' m \<Longrightarrow> (\<And>x. Q' x \<Longrightarrow> returns Q (f x)) \<Longrightarrow> returns Q (State_Monad.bind m f)"
  by (auto simp: returns_def split: prod.split) (metis fst_conv)

lemma run_now_not_busy:
  assumes "run_state (wifi_switch_run_now os ssid pwd) w = (st, w')" and "\<not> w_mutex w"
  shows "st \<noteq> WIFI_SWITCH_ERR_BUSY"
proof -
  have sta: "returns (sta_result 64) (try_sta_only os s p 64)" for s p
    by (rule returns_try_sta_only) simp
  have r: "returns (\<lambda>st. st \<noteq> WIFI_SWITCH_ERR_BUSY)
     (case creds of
          None \<Rightarrow> do { _ \<leftarrow> c_unlock; ret WIFI_SWITCH_ERR_UNKNOWN }
        | Some (s, p) \<Rightarrow> do {
            ready \<leftarrow> wait_for_system_ready os;
            if ready \<noteq> 0 then do { _ \<leftarrow> c_unlock; ret WIFI_SWITCH_ERR_CONNECT_FAIL }
            else do {
              _ \<leftarrow> disable_ipv6 os;
              ap_was_up \<leftarrow> is_ap_running os;
              _ \<leftarrow> (if ap_was_up then ret () else warm_regdom_via_hostapd os);
              r \<leftarrow> try_sta_only os s p 64;
              _ \<leftarrow> (if fst r = WIFI_SWITCH_OK then mark_network_ready os ''STA'' (Some (snd r))
                    else if ap_was_up then do { _ \<leftarrow> enter_ap_mode os; ret () }
                    else ret ());
              _ \<leftarrow> c_unlock;
              ret (fst r) } })" for creds
    by (rule returns_case_option returns_case_prod returns_bind_dep [OF sta] returns_bind returns_if returns_ret
        | simp add: sta_result_def)+
  from assms r show ?thesis
    by (auto simp: wifi_switch_run_now_def c_trylock_def split: prod.splits dest: returnsD)
qed

section \<open>The order of the significant commands\<close>

text \<open>
  The subsequence of the events a program adds that \<open>mark\<close> selects, together with its
  result, satisfies \<open>T\<close>.
\<close>

definition marked :: "(event \<Rightarrow> bool) \<Rightarrow> ('a \<Rightarrow> event list \<Rightarrow> bool) \<Rightarrow> ('e, 'a) io \<Rightarrow> bool" where
  "marked mark T m \<longleftrightarrow> (\<forall>w. \<exists>es. w_events (snd (run_state m w)) = w_events w @ es \<and>
     T (fst (run_state m w)) (filter mark es))"

lemma markedE:
  assumes "marked mark T m" and "run_state m w = (x, v)"
  obtains es where "w_events v = w_events w @ es" and "T x (filter mark es)"
proof -
  from assms(1) have "\<exists>es. w_events (snd (run_state m w)) = w_events w @ es \<and>
      T (fst (run_state m w)) (filter mark es)"
    unfolding marked_def by blast
  with assms(2) that show thesis by auto
qed

lemma marked_ret: "T x [] \<Longrightarrow> marked mark T (ret x)"
  by (simp add: marked_def)

lemma marked_bind:
  assumes "marked mark A m" and "\<And>x es. A x es \<Longrightarrow> marked mark (\<lambda>r es'. T r (es @ es')) (f x)"
  shows "marked mark T (State_Monad.bind m f)"
  unfolding marked_def
proof
  fix w
  obtain x v where m: "run_state m w = (x, v)" by (cases "run_state m w")
  from assms(1) m obtain es where es: "w_events v = w_events w @ es" "A x (filter mark es)"
    by (rule markedE)
  obtain y u where f: "run_state (f x) v = (y, u)" by (cases "run_state (f x) v")
  from assms(2) [OF es(2)] f obtain es' where "w_events u = w_events v @ es'"
    "T y (filter mark es @ filter mark es')"
    by (rule markedE)
  with es m f show "\<exists>es. w_events (snd (run_state (State_Monad.bind m f) w)) = w_events w @ es \<and>
      T (fst (run_state (State_Monad.bind m f) w)) (filter mark es)"
    by (intro exI [of _ "es @ es'"]) simp
qed

lemma marked_skip:
  assumes "state_io_rel (emits (\<lambda>ev. \<not> mark ev)) m" and "\<And>x. marked mark T (f x)"
  shows "marked mark T (State_Monad.bind m f)"
proof (rule marked_bind)
  show "marked mark (\<lambda>_ es. es = []) m"
    using assms(1) by (fastforce simp: marked_def state_io_rel_def emits_def list_all_iff filter_empty_conv)
  show "marked mark (\<lambda>r es'. T r (es @ es')) (f x)" if "es = []" for x es
    using assms(2) that by simp
qed

lemma marked_cmd:
  assumes "mark (Ev_system c)" and "\<And>x. marked mark (\<lambda>r es. T r (Ev_system c # es)) (f x)"
  shows "marked mark T (State_Monad.bind (exec_cmd os c) f)"
proof (rule marked_bind)
  show "marked mark (\<lambda>_ es. es = [Ev_system c]) (exec_cmd os c)"
    using assms(1) by (auto simp: marked_def exec_cmd_def c_system_def split: prod.split)
  show "marked mark (\<lambda>r es'. T r (es @ es')) (f x)" if "es = [Ev_system c]" for x es
    using assms(2) that by simp
qed

lemma marked_capture:
  assumes "mark (Ev_popen c)" and "0 < n" and "\<And>x. marked mark (\<lambda>r es. T r (Ev_popen c # es)) (f x)"
  shows "marked mark T (State_Monad.bind (exec_capture os c n) f)"
proof (rule marked_bind)
  show "marked mark (\<lambda>_ es. es = [Ev_popen c]) (exec_capture os c n)"
    using assms(1,2) by (auto simp: marked_def exec_capture_def c_popen_def split: prod.split)
  show "marked mark (\<lambda>r es'. T r (es @ es')) (f x)" if "es = [Ev_popen c]" for x es
    using assms(3) that by simp
qed

lemma marked_if:
  "(b \<Longrightarrow> marked mark T m) \<Longrightarrow> (\<not> b \<Longrightarrow> marked mark T n) \<Longrightarrow> marked mark T (if b then m else n)"
  by simp

lemma marked_case_option:
  "marked mark T m \<Longrightarrow> (\<And>y. marked mark T (f y)) \<Longrightarrow> marked mark T (case x of None \<Rightarrow> m | Some y \<Rightarrow> f y)"
  by (cases x) auto

lemma marked_case_prod: "(\<And>a b. marked mark T (f a b)) \<Longrightarrow> marked mark T (case x of (a, b) \<Rightarrow> f a b)"
  by (cases x) auto

lemma marked_Let: "marked mark T (f x) \<Longrightarrow> marked mark T (let y = x in f y)"
  by simp

text \<open>The commands and the one file write whose order matters in a station join.\<close>

definition sta_mark :: "event \<Rightarrow> bool" where
  "sta_mark ev = (case ev of
     Ev_system c \<Rightarrow> c = kill_wpa \<or> c = kill_dnsmasq \<or> c = kill_hostapd \<or> c = dhcp_client
   | Ev_popen c \<Rightarrow> c = start_wpa
   | Ev_write p _ \<Rightarrow> p = WPA_CONF
   | _ \<Rightarrow> False)"

definition sta_trace :: "string \<Rightarrow> event list" where
  "sta_trace conf = [Ev_system kill_wpa, Ev_system kill_dnsmasq, Ev_system kill_hostapd,
     Ev_write WPA_CONF conf, Ev_popen start_wpa, Ev_system dhcp_client]"

lemma marked_write_wpa_config:
  "marked sta_mark (\<lambda>rc es. \<exists>conf. es = [Ev_write WPA_CONF conf] \<or> rc \<noteq> 0 \<and> es = [])
     (write_wpa_config os ssid pwd)"
  unfolding marked_def
proof
  fix w :: "'a world"
  let ?body = "wpa_body (escape_quotes ssid 256) (escape_quotes pwd 256) pwd (band_of_lines (band_file_lines w))"
  have w: "run_state (write_wpa_config os ssid pwd) w =
      (if length ?body \<ge> 1024 then (-1, w) else run_state (write_file os WPA_CONF ?body) w)"
    by (simp add: write_wpa_config_def run_read_band Let_def)
  show "\<exists>es. w_events (snd (run_state (write_wpa_config os ssid pwd) w)) = w_events w @ es \<and>
      (\<exists>conf. filter sta_mark es = [Ev_write WPA_CONF conf] \<or>
        fst (run_state (write_wpa_config os ssid pwd) w) \<noteq> 0 \<and> filter sta_mark es = [])"
    unfolding w
    by (auto simp: write_file_def c_fopen_w_def c_fwrite_close_def sta_mark_def split: prod.split)
qed

lemma sta_mark_simps [simp]:
  "sta_mark (Ev_system kill_wpa)" "sta_mark (Ev_system kill_dnsmasq)" "sta_mark (Ev_system kill_hostapd)"
  "sta_mark (Ev_system dhcp_client)" "sta_mark (Ev_popen start_wpa)"
  by (simp_all add: sta_mark_def)

definition sta_order :: "wifi_switch_status \<times> string \<Rightarrow> event list \<Rightarrow> bool" where
  "sta_order r es \<longleftrightarrow> (\<exists>conf. prefix es (sta_trace conf) \<and> (fst r = WIFI_SWITCH_OK \<longrightarrow> es = sta_trace conf))"

lemma sta_unmarked:
  "state_io_rel (emits (\<lambda>ev. \<not> sta_mark ev)) (scan_target_band os ssid)"
  "state_io_rel (emits (\<lambda>ev. \<not> sta_mark ev)) (persist_band os b)"
  "state_io_rel (emits (\<lambda>ev. \<not> sta_mark ev)) (explain_sta_assoc_failure os ssid)"
  "state_io_rel (emits (\<lambda>ev. \<not> sta_mark ev)) (is_associated os ''wlan0'')"
  unfolding persist_band_def explain_sta_assoc_failure_def is_associated_def read_band_def
  by ((intro io_intros)?; simp add: sta_mark_def cmd_defs path_defs)+

lemma marked_try_sta_only: "marked sta_mark sta_order (try_sta_only os ssid pwd n)"
  unfolding try_sta_only_def
  by ((rule marked_cmd, rule sta_mark_simps)
      | (rule marked_capture, rule sta_mark_simps, simp)
      | rule marked_bind [OF marked_write_wpa_config]
      | rule marked_if marked_case_option marked_case_prod marked_Let marked_ret
      | (rule marked_skip, (intro io_intros sta_unmarked; simp add: sta_mark_def cmd_defs path_defs))
      | (auto simp: sta_order_def sta_trace_def; fail))+

definition ap_mark :: "event \<Rightarrow> bool" where
  "ap_mark ev = (case ev of
     Ev_system c \<Rightarrow> c = kill_wpa \<or> c = kill_hostapd \<or> c = start_hostapd \<or> c = start_dnsmasq
   | Ev_write p _ \<Rightarrow> p = HOSTAPD_CONF
   | _ \<Rightarrow> False)"

definition ap_trace :: "string \<Rightarrow> event list" where
  "ap_trace conf = [Ev_system kill_wpa, Ev_system kill_hostapd, Ev_write HOSTAPD_CONF conf,
     Ev_system kill_hostapd, Ev_system start_hostapd, Ev_system start_dnsmasq]"

definition ap_order :: "int \<Rightarrow> event list \<Rightarrow> bool" where
  "ap_order rc es \<longleftrightarrow> (\<exists>conf. prefix es (ap_trace conf) \<and> (rc = 0 \<longrightarrow> es = ap_trace conf))"

lemma ap_mark_simps [simp]:
  "ap_mark (Ev_system kill_wpa)" "ap_mark (Ev_system kill_hostapd)" "ap_mark (Ev_system start_hostapd)"
  "ap_mark (Ev_system start_dnsmasq)"
  by (simp_all add: ap_mark_def)

lemma marked_rewrite_hostapd_channel:
  "marked ap_mark (\<lambda>rc es. \<exists>conf. es = [Ev_write HOSTAPD_CONF conf] \<or> rc \<noteq> 0 \<and> es = [])
     (rewrite_hostapd_channel os ch b)"
  by (auto simp: marked_def rewrite_hostapd_channel_def run_read_file_all write_file_def c_fopen_w_def
      c_fwrite_close_def ap_mark_def split: prod.split option.split)

lemma marked_enter_ap_mode: "marked ap_mark ap_order (enter_ap_mode os)"
  unfolding enter_ap_mode_def read_band_def
  by ((rule marked_cmd, rule ap_mark_simps)
      | rule marked_bind [OF marked_rewrite_hostapd_channel]
      | rule marked_if marked_case_option marked_case_prod marked_Let marked_ret
      | (rule marked_skip, (intro io_intros; simp add: ap_mark_def cmd_defs path_defs))
      | (auto simp: ap_order_def ap_trace_def; fail))+

definition monitor_ok :: "monitor \<Rightarrow> bool" where
  "monitor_ok m \<longleftrightarrow> fst m \<le> 1 \<and> snd m \<in> {10, 20, 40, 60}"

lemma next_delay_ok: "d \<in> {10, 20, 40, 60} \<Longrightarrow> next_delay d \<in> {10, 20, 40, 60} \<and> d \<le> next_delay d"
  by (auto simp: next_delay_def)

lemma returns_monitor_step: "monitor_ok m \<Longrightarrow> returns monitor_ok (wifi_reconnect_step os m)"
  unfolding wifi_reconnect_step_def
  by (cases m, simp only: prod.case, intro returns_rules)
     (use next_delay_ok in \<open>auto simp: monitor_ok_def\<close>)

lemma returns_monitor: "monitor_ok m \<Longrightarrow> returns monitor_ok (wifi_reconnect_monitor os n m)"
proof (induction n arbitrary: m)
  case 0
  then show ?case by (simp add: returns_ret)
next
  case (Suc n)
  then show ?case
    by (simp add: returns_bind_dep [OF returns_monitor_step])
qed

section \<open>Properties of the workflows\<close>

lemma ensure_ap_mode_not_busy:
  assumes "\<not> w_mutex w"
  shows "fst (run_state (wifi_switch_ensure_ap_mode os) w) \<noteq> WIFI_SWITCH_ERR_BUSY"
  using assms
  by (auto simp: wifi_switch_ensure_ap_mode_def c_trylock_def split: prod.split)

text \<open>
  Property C7.  Switches exclude each other and none can leave the board locked out.  While
  the mutex is held, \<^verbatim>\<open>wifi_switch_run_now\<close> and \<^verbatim>\<open>wifi_switch_ensure_ap_mode\<close> answer
  BUSY at once and do nothing, \<^verbatim>\<open>wifi_switch_scan\<close> fails at once and does nothing, and any
  number of passes of the reconnect monitor leave the mutex to its holder.  When it is free,
  the first two never answer BUSY, and after each of the three, after the boot thread with
  its fallback and monitor, and after the monitor alone it is free again on every path, errors
  included.
\<close>

theorem switch_mutex_discipline:
  "(w_mutex w \<longrightarrow>
      run_state (wifi_switch_run_now os ssid pwd) w = (WIFI_SWITCH_ERR_BUSY, w) \<and>
      run_state (wifi_switch_ensure_ap_mode os) w = (WIFI_SWITCH_ERR_BUSY, w) \<and>
      run_state (wifi_switch_scan os) w = (None, w) \<and>
      w_mutex (snd (run_state (wifi_reconnect_monitor os n m) w))) \<and>
   (\<not> w_mutex w \<longrightarrow>
      fst (run_state (wifi_switch_run_now os ssid pwd) w) \<noteq> WIFI_SWITCH_ERR_BUSY \<and>
      fst (run_state (wifi_switch_ensure_ap_mode os) w) \<noteq> WIFI_SWITCH_ERR_BUSY \<and>
      \<not> w_mutex (snd (run_state (wifi_switch_run_now os ssid pwd) w)) \<and>
      \<not> w_mutex (snd (run_state (wifi_switch_ensure_ap_mode os) w)) \<and>
      \<not> w_mutex (snd (run_state (wifi_switch_scan os) w)) \<and>
      \<not> w_mutex (snd (run_state (wifi_reconnect_monitor os n m) w)) \<and>
      \<not> w_mutex (snd (run_state (wifi_switch_thread os n) w)))"
proof (intro conjI impI)
  show "w_mutex w \<Longrightarrow> run_state (wifi_switch_run_now os ssid pwd) w = (WIFI_SWITCH_ERR_BUSY, w)"
    "w_mutex w \<Longrightarrow> run_state (wifi_switch_ensure_ap_mode os) w = (WIFI_SWITCH_ERR_BUSY, w)"
    "w_mutex w \<Longrightarrow> run_state (wifi_switch_scan os) w = (None, w)"
    by (simp_all add: wifi_switch_run_now_def wifi_switch_ensure_ap_mode_def wifi_switch_scan_def
        c_trylock_def)
  show "\<not> w_mutex w \<Longrightarrow> fst (run_state (wifi_switch_run_now os ssid pwd) w) \<noteq> WIFI_SWITCH_ERR_BUSY"
    by (cases "run_state (wifi_switch_run_now os ssid pwd) w") (auto dest: run_now_not_busy)
  show "\<not> w_mutex w \<Longrightarrow> fst (run_state (wifi_switch_ensure_ap_mode os) w) \<noteq> WIFI_SWITCH_ERR_BUSY"
    by (rule ensure_ap_mode_not_busy)
  show "\<not> w_mutex w \<Longrightarrow> \<not> w_mutex (snd (run_state (wifi_switch_run_now os ssid pwd) w))"
    using keep_run [OF mutex_run_now, of w] by (simp add: same_mutex_def)
  show "\<not> w_mutex w \<Longrightarrow> \<not> w_mutex (snd (run_state (wifi_switch_ensure_ap_mode os) w))"
    using keep_run [OF mutex_ensure_ap_mode, of w] by (simp add: same_mutex_def)
  show "\<not> w_mutex w \<Longrightarrow> \<not> w_mutex (snd (run_state (wifi_switch_scan os) w))"
    by (cases "run_state (wifi_switch_scan os) w") (simp add: scan_mutex(2))
  show "w_mutex w \<Longrightarrow> w_mutex (snd (run_state (wifi_reconnect_monitor os n m) w))"
    "\<not> w_mutex w \<Longrightarrow> \<not> w_mutex (snd (run_state (wifi_reconnect_monitor os n m) w))"
    using keep_run [OF mutex_wifi_reconnect_monitor, of w] by (simp_all add: same_mutex_def)
  show "\<not> w_mutex w \<Longrightarrow> \<not> w_mutex (snd (run_state (wifi_switch_thread os n) w))"
    using frees_thread by (auto simp: frees_def)
qed

theorem switch_mutex_discipline_witness:
  "\<not> w_mutex (snd (run_state (wifi_switch_run_now (ok_os (\<lambda>_. [])) (Some ''home'') None) (world0 (\<lambda>_. None)))) \<and>
   run_state (wifi_switch_scan (ok_os (\<lambda>_. []))) ((world0 (\<lambda>_. None))\<lparr>w_mutex := True\<rparr>) =
     (None, (world0 (\<lambda>_. None))\<lparr>w_mutex := True\<rparr>)"
  using switch_mutex_discipline [of "world0 (\<lambda>_. None)" "ok_os (\<lambda>_. [])" "Some ''home''" None]
    switch_mutex_discipline [of "(world0 (\<lambda>_. None))\<lparr>w_mutex := True\<rparr>" "ok_os (\<lambda>_. [])"]
  by (simp add: world0_def)

text \<open>
  The order of a station join.  Among the commands that stop daemons, start
  \<^verbatim>\<open>wpa_supplicant\<close> or ask for an address, and the writes of its configuration,
  \<^verbatim>\<open>try_sta_only\<close> always issues an initial part of one sequence: stop
  \<^verbatim>\<open>wpa_supplicant\<close>, \<^verbatim>\<open>dnsmasq\<close> and \<^verbatim>\<open>hostapd\<close>, write the configuration, start
  \<^verbatim>\<open>wpa_supplicant\<close>, run DHCP; success means the whole sequence was issued, each step once.
\<close>

theorem try_sta_only_order:
  assumes "run_state (try_sta_only os ssid pwd n) w = (r, w')"
  shows "\<exists>es conf. w_events w' = w_events w @ es \<and>
    prefix (filter sta_mark es) [Ev_system kill_wpa, Ev_system kill_dnsmasq, Ev_system kill_hostapd,
      Ev_write WPA_CONF conf, Ev_popen start_wpa, Ev_system dhcp_client] \<and>
    (fst r = WIFI_SWITCH_OK \<longrightarrow>
      filter sta_mark es = [Ev_system kill_wpa, Ev_system kill_dnsmasq, Ev_system kill_hostapd,
        Ev_write WPA_CONF conf, Ev_popen start_wpa, Ev_system dhcp_client])"
  using marked_try_sta_only assms
proof (rule markedE)
  fix es
  assume "w_events w' = w_events w @ es" and "sta_order r (filter sta_mark es)"
  then show ?thesis unfolding sta_order_def sta_trace_def by blast
qed

theorem try_sta_only_order_witness:
  "\<exists>es. w_events (snd (run_state (try_sta_only (ok_os (\<lambda>_. [])) ''home'' [] 64) (world0 (\<lambda>_. None)))) = es \<and>
     (\<exists>conf. prefix (filter sta_mark es) [Ev_system kill_wpa, Ev_system kill_dnsmasq, Ev_system kill_hostapd,
      Ev_write WPA_CONF conf, Ev_popen start_wpa, Ev_system dhcp_client])"
proof -
  let ?r = "run_state (try_sta_only (ok_os (\<lambda>_. [])) ''home'' [] 64) (world0 (\<lambda>_. None))"
  have "?r = (fst ?r, snd ?r)" by simp
  from try_sta_only_order [OF this] show ?thesis by (auto simp: world0_def)
qed

text \<open>
  What the result of a join means: \<^verbatim>\<open>try_sta_only\<close> reports OK exactly when it
  leaves an address in the caller's buffer, the address with its terminator fits the buffer,
  and it never reports BUSY.
\<close>

theorem try_sta_only_result:
  assumes "0 < out_ip_sz"
    and "run_state (try_sta_only os ssid pwd out_ip_sz) w = ((st, ip), w')"
  shows "(st = WIFI_SWITCH_OK \<longleftrightarrow> ip \<noteq> []) \<and> length ip < out_ip_sz \<and> st \<noteq> WIFI_SWITCH_ERR_BUSY"
  using returnsD [OF returns_try_sta_only [OF assms(1)] assms(2)] by (simp add: sta_result_def)

theorem try_sta_only_result_witness:
  "snd (fst (run_state (try_sta_only (ok_os (\<lambda>_. [])) ''home'' [] 64) (world0 (\<lambda>_. None)))) = []"
proof -
  let ?r = "run_state (try_sta_only (ok_os (\<lambda>_. [])) ''home'' [] 64) (world0 (\<lambda>_. None))"
  have "?r = ((fst (fst ?r), snd (fst ?r)), snd ?r)" by simp
  from try_sta_only_result [OF _ this] have "fst (fst ?r) = WIFI_SWITCH_OK \<longleftrightarrow> snd (fst ?r) \<noteq> []" by simp
  moreover have "fst (fst ?r) = WIFI_SWITCH_ERR_NO_SSID"
    by (simp add: try_sta_only_def scan_target_band_def c_malloc_def scan_usable_def has_sub_def SCAN_BUF_SZ_def)
  ultimately show ?thesis by simp
qed

text \<open>
  The order of bringing the access point up.  \<^verbatim>\<open>enter_ap_mode\<close> always issues an
  initial part of: stop \<^verbatim>\<open>wpa_supplicant\<close> and \<^verbatim>\<open>hostapd\<close>, write \<^verbatim>\<open>hostapd.conf\<close>, stop
  \<^verbatim>\<open>hostapd\<close> again, start it, start \<^verbatim>\<open>dnsmasq\<close>; it returns 0 only after all of them.
\<close>

theorem enter_ap_mode_order:
  assumes "run_state (enter_ap_mode os) w = (rc, w')"
  shows "\<exists>es conf. w_events w' = w_events w @ es \<and>
    prefix (filter ap_mark es) [Ev_system kill_wpa, Ev_system kill_hostapd, Ev_write HOSTAPD_CONF conf,
      Ev_system kill_hostapd, Ev_system start_hostapd, Ev_system start_dnsmasq] \<and>
    (rc = 0 \<longrightarrow> filter ap_mark es = [Ev_system kill_wpa, Ev_system kill_hostapd, Ev_write HOSTAPD_CONF conf,
      Ev_system kill_hostapd, Ev_system start_hostapd, Ev_system start_dnsmasq])"
  using marked_enter_ap_mode assms
proof (rule markedE)
  fix es
  assume "w_events w' = w_events w @ es" and "ap_order rc (filter ap_mark es)"
  then show ?thesis unfolding ap_order_def ap_trace_def by blast
qed

theorem enter_ap_mode_order_witness:
  "\<exists>es. w_events (snd (run_state (enter_ap_mode (ok_os (\<lambda>_. []))) (world0 (\<lambda>_. None)))) = es \<and>
     (\<exists>conf. prefix (filter ap_mark es) [Ev_system kill_wpa, Ev_system kill_hostapd, Ev_write HOSTAPD_CONF conf,
      Ev_system kill_hostapd, Ev_system start_hostapd, Ev_system start_dnsmasq])"
proof -
  let ?r = "run_state (enter_ap_mode (ok_os (\<lambda>_. []))) (world0 (\<lambda>_. None))"
  have "?r = (fst ?r, snd ?r)" by simp
  from enter_ap_mode_order [OF this] show ?thesis by (auto simp: world0_def)
qed

text \<open>
  Provisioning never takes the interface down.  Neither \<^verbatim>\<open>wifi_switch_run_now\<close> nor
  \<^verbatim>\<open>wifi_switch_ensure_ap_mode\<close>, on any path, issues \<^verbatim>\<open>ip link set wlan0 down\<close>, the
  command the comments forbid there because it resets the radio's 5 GHz state; only the
  monitor's recovery does.
\<close>

theorem provisioning_keeps_link_up:
  "emits (\<lambda>ev. ev \<noteq> Ev_system link_down) w (snd (run_state (wifi_switch_run_now os ssid pwd) w)) \<and>
   emits (\<lambda>ev. ev \<noteq> Ev_system link_down) w (snd (run_state (wifi_switch_ensure_ap_mode os) w))"
proof
  have "state_io_rel (emits (\<lambda>ev. ev \<noteq> Ev_system link_down)) (wifi_switch_run_now os ssid pwd)"
    unfolding wifi_switch_run_now_def
    by (intro io_intros; simp add: quiet_simps)
  then show "emits (\<lambda>ev. ev \<noteq> Ev_system link_down) w (snd (run_state (wifi_switch_run_now os ssid pwd) w))"
    by (rule keep_run)
  have "state_io_rel (emits (\<lambda>ev. ev \<noteq> Ev_system link_down)) (wifi_switch_ensure_ap_mode os)"
    unfolding wifi_switch_ensure_ap_mode_def
    by (intro io_intros; simp add: quiet_simps)
  then show "emits (\<lambda>ev. ev \<noteq> Ev_system link_down) w (snd (run_state (wifi_switch_ensure_ap_mode os) w))"
    by (rule keep_run)
qed

text \<open>
  The monitor's counters stay in range however long it runs: after any number
  of passes the miss count is 0 or 1 and the back-off delay is 10, 20, 40 or 60 seconds;
  and a failed reconnect never shortens the delay.
\<close>

theorem monitor_backoff_bounded:
  "case fst (run_state (wifi_reconnect_monitor os n monitor_start) w) of (miss_count, retry_delay) \<Rightarrow>
     miss_count \<le> 1 \<and> retry_delay \<in> {10, 20, 40, 60} \<and>
     next_delay retry_delay \<in> {10, 20, 40, 60} \<and> retry_delay \<le> next_delay retry_delay"
proof -
  have "monitor_ok monitor_start" by (simp add: monitor_ok_def monitor_start_def)
  from returns_monitor [OF this, of os n]
  have ok: "monitor_ok (fst (run_state (wifi_reconnect_monitor os n monitor_start) w))" by (simp add: returns_def)
  then have d: "snd (fst (run_state (wifi_reconnect_monitor os n monitor_start) w)) \<in> {10, 20, 40, 60}"
    by (simp only: monitor_ok_def)
  from ok next_delay_ok [OF d] show ?thesis unfolding monitor_ok_def case_prod_beta by blast
qed

text \<open>
  A failed join from a state without access point leaves the board without one: here
  the network does not exist, \<^verbatim>\<open>wifi_switch_run_now\<close> reports that, it started \<^verbatim>\<open>hostapd\<close> for
  priming and stopped it again, and nothing starts it afterwards.
\<close>

theorem run_now_without_ap_leaves_none:
  "let (st, w') = run_state (wifi_switch_run_now (ok_os (\<lambda>_. [])) (Some ''home'') (Some ''12345678''))
         (world0 [''/sys/class/net/wlan0'' \<mapsto> [], HOSTAPD_CONF \<mapsto> ''ssid=x'']);
       after_last_kill = takeWhile (\<lambda>ev. ev \<noteq> Ev_system kill_hostapd) (rev (w_events w'))
   in st = WIFI_SWITCH_ERR_NO_SSID \<and> Ev_system start_hostapd \<in> set (w_events w') \<and>
      Ev_system kill_hostapd \<in> set (w_events w') \<and> Ev_system start_hostapd \<notin> set after_last_kill"
proof -
  have rw: "hostapd_rewrite 6 (band_to_hw_mode BAND_24) (strtok_nl ''ssid=x'') =
      Some (render_lines [''ssid=x'', channel_line 6, hw_mode_line ''g''])"
    by (simp add: hostapd_rewrite_def put_def is_channel_line_def is_hw_mode_line_def channel_line_def hw_mode_line_def
        starts_with_def lstrip_def band_to_hw_mode_def render_lines_def Let_def dec_of_int_def dec_of_nat.simps
        strtok_nl_def)
  show ?thesis
    by (simp add: wifi_switch_run_now_def world0_def c_trylock_def wait_for_system_ready_def c_exists_def
      hostapd_uptime_seconds_def disable_ipv6_def is_ap_running_def warm_regdom_via_hostapd_def enter_ap_mode_def
      read_band_def run_read_file_all path_defs rewrite_hostapd_channel_def rw ok_os_write_file emit_def cstr_def
      try_sta_only_def scan_target_band_def c_malloc_def scan_usable_def SCAN_BUF_SZ_def has_sub_def c_unlock_def
      cmd_defs)
qed

end
