(* ===== verification/WifiBackend.thy ===== *)
theory WifiBackend
  imports WifiSwitch
begin

text \<open>
  The interface of \<^verbatim>\<open>wifi_switch.h\<close> as the protocol layer uses it.  Which implementation
  is behind it is decided when the program is linked (\<^verbatim>\<open>wifi_switch.c\<close> on the RK3566 board,
  \<^verbatim>\<open>wifi_switch_a733.c\<close> on the A733 board), so the operations are a record of functions over
  the backend's own state, and what the callers rely on is the locale \<open>wifi_backend\<close>.
  The RK3566 implementation is shown to keep that contract.
\<close>

record 'w wifi_ops =
  wo_run_now :: "string \<Rightarrow> string \<Rightarrow> 'w \<Rightarrow> wifi_switch_status \<times> 'w"
  wo_persist :: "string \<Rightarrow> string \<Rightarrow> 'w \<Rightarrow> int \<times> 'w"
  wo_is_connected :: "'w \<Rightarrow> bool \<times> 'w"
  wo_get_ap_credentials :: "nat \<Rightarrow> nat \<Rightarrow> 'w \<Rightarrow> (int \<times> string \<times> string) \<times> 'w"
  wo_ensure_ap_mode :: "'w \<Rightarrow> wifi_switch_status \<times> 'w"
  wo_scan :: "'w \<Rightarrow> wifi_scan_entry list option \<times> 'w"

text \<open>
  The laws of \<^verbatim>\<open>wifi_switch.h\<close> the protocol layer depends on: a successful scan has at
  most 64 entries within the wire format's limits, and the credential strings fit the
  buffers they are written to.
\<close>

locale wifi_backend =
  fixes ops :: "'w wifi_ops"
  assumes scan_valid: "wo_scan ops w = (Some es, w') \<Longrightarrow> length es \<le> MAX_ENTRIES \<and> list_all valid_entry es"
    and ap_ssid_fits: "wo_get_ap_credentials ops m n w = ((rc, ssid, pwd), w') \<Longrightarrow> 0 < m \<Longrightarrow> length ssid < m"
    and ap_pwd_fits: "wo_get_ap_credentials ops m n w = ((rc, ssid, pwd), w') \<Longrightarrow> 0 < n \<Longrightarrow> length pwd < n"

text \<open>
  A backend that remembers credentials: what it stored is what a later boot reads.  The laws
  speak of texts the configuration file can hold, of the lengths the protocol allows.
\<close>

definition line_text :: "string \<Rightarrow> bool" where
  "line_text s \<longleftrightarrow> chr_nl \<notin> set s \<and> chr_nul \<notin> set s"

locale credential_store = wifi_backend ops for ops :: "'w wifi_ops" +
  fixes stored :: "'w \<Rightarrow> (string \<times> string) option"
  assumes persist_stored: "wo_persist ops s p w = (0, w') \<Longrightarrow> line_text s \<Longrightarrow> line_text p \<Longrightarrow>
      length s \<le> 32 \<Longrightarrow> length p \<le> 63 \<Longrightarrow> stored w' = Some (s, p)"
    and persist_nonempty: "wo_persist ops s p w = (0, w') \<Longrightarrow> s \<noteq> []"
begin

text \<open>Storing is idempotent and the last writer wins.\<close>

lemma persist_twice:
  assumes "wo_persist ops s p w = (0, w1)" "wo_persist ops s' p' w1 = (0, w2)"
    and "line_text s'" "line_text p'" "length s' \<le> 32" "length p' \<le> 63"
  shows "stored w2 = Some (s', p')"
  using assms persist_stored by blast

end

section \<open>The RK3566 backend\<close>

definition rk3566_ops :: "'e os \<Rightarrow> 'e world wifi_ops" where
  "rk3566_ops os = \<lparr>
     wo_run_now = (\<lambda>ssid pwd. run_state (wifi_switch_run_now os (Some ssid) (Some pwd))),
     wo_persist = (\<lambda>ssid pwd. run_state (wifi_switch_persist_home_wifi os (Some ssid) (Some pwd))),
     wo_is_connected = run_state (wifi_switch_is_connected os),
     wo_get_ap_credentials = (\<lambda>m n. run_state (wifi_switch_get_ap_credentials m n)),
     wo_ensure_ap_mode = run_state (wifi_switch_ensure_ap_mode os),
     wo_scan = run_state (wifi_switch_scan os)\<rparr>"

definition creds_fit :: "nat \<Rightarrow> nat \<Rightarrow> string \<times> string \<times> 'a \<Rightarrow> bool" where
  "creds_fit m n acc = (case acc of (s, p, _) \<Rightarrow> (0 < m \<longrightarrow> length s < m) \<and> (0 < n \<longrightarrow> length p < n))"

lemma ap_cred_line_fits: "creds_fit m n acc \<Longrightarrow> creds_fit m n (ap_cred_line m n l acc)"
  by (cases acc) (auto simp: creds_fit_def ap_cred_line_def Let_def length_snprintf_s split: option.split)

lemma fold_ap_cred_fits: "creds_fit m n acc \<Longrightarrow> creds_fit m n (fold (ap_cred_line m n) ls acc)"
  by (induction ls arbitrary: acc) (simp_all add: ap_cred_line_fits)

lemma get_ap_credentials_fits:
  assumes "run_state (wifi_switch_get_ap_credentials m n) w = ((rc, ssid, pwd), w')"
  shows "0 < m \<Longrightarrow> length ssid < m" and "0 < n \<Longrightarrow> length pwd < n"
proof -
  have nil: "creds_fit m n ([], [], g)" for g :: bool by (simp add: creds_fit_def)
  have "creds_fit m n (ssid, pwd, True)"
  proof (cases "w_files w HOSTAPD_CONF")
    case None
    with assms nil show ?thesis
      by (simp add: wifi_switch_get_ap_credentials_def run_read_file_all creds_fit_def)
  next
    case (Some s)
    then have "w_files w HOSTAPD_CONF \<noteq> None" by simp
    from run_get_ap_credentials [OF this, of m n] assms
    have "\<exists>g. fold (ap_cred_line m n) (hostapd_file_lines w) ([], [], False) = (ssid, pwd, g)"
      by (auto split: prod.splits)
    with fold_ap_cred_fits [OF nil, of "hostapd_file_lines w" False] show ?thesis
      by (auto simp: creds_fit_def)
  qed
  then show "0 < m \<Longrightarrow> length ssid < m" and "0 < n \<Longrightarrow> length pwd < n" by (simp_all add: creds_fit_def)
qed

interpretation rk3566: wifi_backend "rk3566_ops os" for os
  by unfold_locales (auto simp: rk3566_ops_def dest: scan_result_valid get_ap_credentials_fits)

definition rk3566_stored :: "'e world \<Rightarrow> (string \<times> string) option" where
  "rk3566_stored w = fst (run_state (read_home_wifi 128 128) w)"

interpretation rk3566_store: credential_store "rk3566_ops os" rk3566_stored for os
proof unfold_locales
  fix s p and w w' :: "'a world"
  assume "wo_persist (rk3566_ops os) s p w = (0, w')"
  then have "run_state (wifi_switch_persist_home_wifi os (Some s) (Some p)) w = (0, w')" by (simp add: rk3566_ops_def)
  note ok = persist_home_wifi_ok [OF this]
  then show "s \<noteq> []" by simp
  show "rk3566_stored w' = Some (s, p)" if "line_text s" "line_text p" "length s \<le> 32" "length p \<le> 63"
    using ok that run_read_home_wifi [of w' s p 128 128] by (simp add: rk3566_stored_def line_text_def)
qed

end
