(* ===== verification/NmShell.thy ===== *)
theory NmShell
  imports CStrings
begin

text \<open>
  The text helpers of \<^verbatim>\<open>wifi_switch_a733.c\<close> that build shell commands and read their output:
  \<^verbatim>\<open>shell_quote\<close> (lines 124--149) and \<^verbatim>\<open>contains_ci\<close> (lines 151--175), white space trimming
  (57--69).  What quoting has to achieve is stated against \<open>sh_lex\<close>, the splitting of a
  simple command into words by a POSIX shell; the lemmas show that a quoted text is exactly
  one word of the command, whatever it contains, and that the case-insensitive search finds
  exactly the occurrences.
\<close>

section \<open>Trimming\<close>

definition a733_lstrip :: "string \<Rightarrow> string" where
  "a733_lstrip s = dropWhile isspace s"

definition a733_rstrip :: "string \<Rightarrow> string" where
  "a733_rstrip s = rev (dropWhile isspace (rev s))"

text \<open>
  The pointer is moved over leading blanks before the quotes are removed, so the blanks stay
  in the caller's buffer.
\<close>

definition a733_strip_quotes :: "string \<Rightarrow> string" where
  "a733_strip_quotes s = (let t = a733_rstrip (a733_lstrip s) in
     takeWhile isspace s @
       (if 2 \<le> length t \<and> (hd t = chr_dq \<and> last t = chr_dq \<or> hd t = chr_sq \<and> last t = chr_sq)
        then butlast (tl t) else t))"

section \<open>Quoting for the shell\<close>

text \<open>The loop of \<^verbatim>\<open>shell_quote\<close> from output position \<open>pos\<close>: what it appends, closing quote included.\<close>

fun quote_from :: "nat \<Rightarrow> nat \<Rightarrow> string \<Rightarrow> string option" where
  "quote_from cap pos [] = (if pos + 2 > cap then None else Some [chr_sq])"
| "quote_from cap pos (c # cs) =
     (if c = chr_sq then
        (if pos + 4 \<ge> cap then None
         else map_option (append [chr_sq, chr_bs, chr_sq, chr_sq]) (quote_from cap (pos + 4) cs))
      else if pos + 1 \<ge> cap then None
      else map_option (Cons c) (quote_from cap (pos + 1) cs))"

definition shell_quote :: "string \<Rightarrow> nat \<Rightarrow> string option" where
  "shell_quote s cap = (if cap < 3 then None else map_option (Cons chr_sq) (quote_from cap 1 s))"

section \<open>Searching command output\<close>

definition tolower :: "char \<Rightarrow> char" where
  "tolower c = (if 65 \<le> (of_char c :: nat) \<and> (of_char c :: nat) \<le> 90 then char_of (of_char c + 32 :: nat) else c)"

text \<open>
  The inner loop of \<^verbatim>\<open>contains_ci\<close>: \<open>None\<close> where it meets the end of the haystack and the
  function returns, \<open>Some\<close> whether the whole needle matched.
\<close>

fun ci_match :: "string \<Rightarrow> string \<Rightarrow> bool option" where
  "ci_match h [] = Some True"
| "ci_match [] (n # ns) = None"
| "ci_match (h # hs) (n # ns) = (if tolower h = tolower n then ci_match hs ns else Some False)"

fun contains_from :: "string \<Rightarrow> string \<Rightarrow> bool" where
  "contains_from [] needle = False"
| "contains_from (h # hs) needle =
     (case ci_match (h # hs) needle of
        None \<Rightarrow> False
      | Some found \<Rightarrow> if found then True else contains_from hs needle)"

definition contains_ci :: "string \<Rightarrow> string \<Rightarrow> bool" where
  "contains_ci haystack needle = (if needle = [] then True else contains_from haystack needle)"

section \<open>The words of a simple command\<close>

text \<open>
  Characters a POSIX shell takes literally outside quotes wherever they stand in a word.
\<close>

definition sh_plain :: "char \<Rightarrow> bool" where
  "sh_plain c \<longleftrightarrow> isdigit c \<or> (65 \<le> (of_char c :: nat) \<and> (of_char c :: nat) \<le> 90) \<or>
     (97 \<le> (of_char c :: nat) \<and> (of_char c :: nat) \<le> 122) \<or> c \<in> set ''-_./:,+@%''"

definition word_so_far :: "string option \<Rightarrow> string" where
  "word_so_far cur = (case cur of Some w \<Rightarrow> w | None \<Rightarrow> [])"

text \<open>
  Splitting into words, section 2.2 of the POSIX shell: inside single quotes every character
  is literal, a backslash outside them quotes the next one, blanks separate words.  \<open>None\<close>
  when a quote is not closed or an unquoted character could mean anything else: an operator,
  an expansion, a comment, the end of the command.
\<close>

fun sh_lex :: "bool \<Rightarrow> string option \<Rightarrow> string \<Rightarrow> string list option" where
  "sh_lex quoted cur [] = (if quoted then None else Some (case cur of None \<Rightarrow> [] | Some w \<Rightarrow> [w]))"
| "sh_lex quoted cur (c # cs) =
     (if quoted then
        (if c = chr_sq then sh_lex False (Some (word_so_far cur)) cs
         else sh_lex True (Some (word_so_far cur @ [c])) cs)
      else if c = chr_sq then sh_lex True (Some (word_so_far cur)) cs
      else if c = chr_bs then
        (case cs of
           [] \<Rightarrow> None
         | d # ds \<Rightarrow> if d = chr_nl then None else sh_lex False (Some (word_so_far cur @ [d])) ds)
      else if c = chr_sp \<or> c = chr_tab then
        (case cur of
           None \<Rightarrow> sh_lex False None cs
         | Some w \<Rightarrow> map_option (Cons w) (sh_lex False None cs))
      else if sh_plain c then sh_lex False (Some (word_so_far cur @ [c])) cs
      else None)"

definition sh_words :: "string \<Rightarrow> string list option" where
  "sh_words s = sh_lex False None s"

section \<open>Lemmas\<close>

lemma word_so_far_simps [simp]: "word_so_far None = []" "word_so_far (Some w) = w"
  by (simp_all add: word_so_far_def)

lemma quote_from_lex:
  "quote_from cap pos s = Some q \<Longrightarrow> sh_lex True (Some w) (q @ rest) = sh_lex False (Some (w @ s)) rest"
proof (induction s arbitrary: pos q w)
  case Nil
  then show ?case by (auto split: if_splits)
next
  case (Cons c s)
  then show ?case by (cases "c = chr_sq") (auto split: if_splits)
qed

lemma shell_quote_lex:
  "shell_quote s cap = Some q \<Longrightarrow> sh_lex False cur (q @ rest) = sh_lex False (Some (word_so_far cur @ s)) rest"
  using quote_from_lex by (auto simp: shell_quote_def split: if_splits)

lemma quote_from_size:
  "quote_from cap pos s = (if pos + length s + 3 * count_list s chr_sq + 2 \<le> cap
     then Some (concat (map (\<lambda>c. if c = chr_sq then [chr_sq, chr_bs, chr_sq, chr_sq] else [c]) s) @ [chr_sq]) else None)"
  by (induction s arbitrary: pos) auto

lemma shell_quote_size:
  "shell_quote s cap = (if length s + 3 * count_list s chr_sq + 3 \<le> cap
     then Some (chr_sq # concat (map (\<lambda>c. if c = chr_sq then [chr_sq, chr_bs, chr_sq, chr_sq] else [c]) s) @ [chr_sq])
     else None)"
  by (auto simp: shell_quote_def quote_from_size)

lemma count_list_length_le: "count_list xs x \<le> length xs"
  by (induction xs) auto

lemma shell_quote_ok: "4 * length s + 3 \<le> cap \<Longrightarrow> \<exists>q. shell_quote s cap = Some q"
  using count_list_length_le [of s chr_sq] by (simp add: shell_quote_size)

lemma shell_quote_length: "shell_quote s cap = Some q \<Longrightarrow> length q < cap"
proof -
  have "length (concat (map (\<lambda>c. if c = chr_sq then [chr_sq, chr_bs, chr_sq, chr_sq] else [c]) s)) =
      length s + 3 * count_list s chr_sq" for s
    by (induction s) auto
  then show "shell_quote s cap = Some q \<Longrightarrow> length q < cap"
    by (auto simp: shell_quote_size split: if_splits)
qed

lemma sh_lex_plain:
  "list_all sh_plain p \<Longrightarrow> chr_sq \<notin> set p \<Longrightarrow> chr_bs \<notin> set p \<Longrightarrow> p \<noteq> [] \<Longrightarrow>
   sh_lex False cur (p @ rest) = sh_lex False (Some (word_so_far cur @ p)) rest"
proof (induction p arbitrary: cur)
  case (Cons c p)
  have "c \<noteq> chr_sp" "c \<noteq> chr_tab" using Cons.prems(1) by (auto simp: sh_plain_def isdigit_def)
  with Cons show ?case by (cases "p = []") auto
qed simp

lemma ci_match_Some: "ci_match h n = Some f \<Longrightarrow> f \<longleftrightarrow> prefix (map tolower n) (map tolower h)"
  by (induction h n rule: ci_match.induct) (auto split: if_splits)

lemma ci_match_None: "ci_match h n = None \<Longrightarrow> length h < length n"
  by (induction h n rule: ci_match.induct) (auto split: if_splits)

lemma has_sub_Cons: "has_sub (x # xs) n \<longleftrightarrow> prefix n (x # xs) \<or> has_sub xs n"
  by (simp add: has_sub_def starts_with_iff)

lemma has_sub_length: "has_sub s n \<Longrightarrow> length n \<le> length s"
  by (auto simp: has_sub_iff)

lemma contains_from_iff: "n \<noteq> [] \<Longrightarrow> contains_from h n \<longleftrightarrow> has_sub (map tolower h) (map tolower n)"
proof (induction h)
  case Nil
  then show ?case by (simp add: has_sub_def)
next
  case (Cons c h)
  show ?case
  proof (cases "ci_match (c # h) n")
    case None
    with ci_match_None [OF None] has_sub_length [of "map tolower (c # h)" "map tolower n"] show ?thesis by auto
  next
    case (Some f)
    with ci_match_Some [OF Some] Cons show ?thesis by (simp add: has_sub_Cons)
  qed
qed

lemma has_sub_map: "has_sub (map f s) (map f n) \<longleftrightarrow> (\<exists>a m b. s = a @ m @ b \<and> map f m = map f n)"
proof
  assume "has_sub (map f s) (map f n)"
  then show "\<exists>a m b. s = a @ m @ b \<and> map f m = map f n" by (fastforce simp: has_sub_iff map_eq_append_conv append_eq_map_conv)
next
  assume "\<exists>a m b. s = a @ m @ b \<and> map f m = map f n"
  then obtain a m b where "s = a @ m @ b" "map f m = map f n" by blast
  then show "has_sub (map f s) (map f n)"
    by (auto simp: has_sub_iff intro: exI [of _ "map f a"] exI [of _ "map f b"])
qed

section \<open>Properties\<close>

text \<open>
  Quoting is exact: \<^verbatim>\<open>shell_quote\<close> succeeds exactly when the text, three more
  characters for every single quote in it, the enclosing quotes and the terminator fit the
  buffer; it never writes past the buffer; and whatever the text contains (quotes, blanks,
  semicolons, dollar signs, newlines), the shell reads the result as one word whose value is
  the text, whatever follows.
\<close>

theorem shell_quote_one_word:
  "(shell_quote s cap \<noteq> None \<longleftrightarrow> length s + 3 * count_list s chr_sq + 3 \<le> cap) \<and>
   (\<forall>q. shell_quote s cap = Some q \<longrightarrow>
      length q < cap \<and> sh_words q = Some [s] \<and>
      sh_words (q @ chr_sp # rest) = map_option (Cons s) (sh_words rest))"
proof (intro conjI allI impI)
  show "shell_quote s cap \<noteq> None \<longleftrightarrow> length s + 3 * count_list s chr_sq + 3 \<le> cap" by (simp add: shell_quote_size)
next
  fix q
  assume q: "shell_quote s cap = Some q"
  show "length q < cap" using q by (rule shell_quote_length)
  show "sh_words q = Some [s]" using shell_quote_lex [OF q, of None "[]"] by (simp add: sh_words_def)
  show "sh_words (q @ chr_sp # rest) = map_option (Cons s) (sh_words rest)"
    using shell_quote_lex [OF q, of None "chr_sp # rest"] by (simp add: sh_words_def)
qed

theorem shell_quote_one_word_witness:
  "sh_words (the (shell_quote (''a'' @ chr_sq # ''; reboot'') 64)) = Some [''a'' @ chr_sq # ''; reboot'']"
proof -
  have "shell_quote (''a'' @ chr_sq # ''; reboot'') 64 \<noteq> None" by (simp add: shell_quote_def)
  with shell_quote_one_word [of "''a'' @ chr_sq # ''; reboot''" 64] show ?thesis by auto
qed

text \<open>
  The case-insensitive search of \<^verbatim>\<open>contains_ci\<close> finds exactly the occurrences: it
  answers yes if and only if some part of the haystack equals the needle up to the case of
  ASCII letters, although it gives up as soon as a partial match runs into the end.
\<close>

theorem contains_ci_exact:
  "contains_ci haystack needle \<longleftrightarrow> (\<exists>a m b. haystack = a @ m @ b \<and> map tolower m = map tolower needle)"
proof (cases "needle = []")
  case True
  then show ?thesis by (auto simp: contains_ci_def)
next
  case False
  then show ?thesis using contains_from_iff [of needle haystack] by (simp add: contains_ci_def has_sub_map)
qed

end
