(* ===== verification/WifiA733.thy ===== *)
theory WifiA733
  imports WifiBackend NmShell
begin

text \<open>
  The second implementation of \<^verbatim>\<open>wifi_switch.h\<close>, \<^verbatim>\<open>wifi_switch_a733.c\<close>: the A733 board runs
  Debian, and WiFi is controlled through \<^verbatim>\<open>nmcli\<close> instead of \<^verbatim>\<open>hostapd\<close> and
  \<^verbatim>\<open>wpa_supplicant\<close>.  A function that has the same name in \<^verbatim>\<open>wifi_switch.c\<close> and another body is
  here under the prefix \<open>a733_\<close>.  The static helpers whose bodies are the same in both files
  (\<^verbatim>\<open>exec_cmd\<close>, \<^verbatim>\<open>exec_capture\<close>, \<^verbatim>\<open>read_file_all\<close>, \<^verbatim>\<open>decode_iw_ssid\<close>, \<^verbatim>\<open>freq_to_scan_band\<close>,
  \<^verbatim>\<open>derive_auth_type\<close>, \<^verbatim>\<open>commit_bss\<close>) are those of the theories \<open>OsWorld\<close> and \<open>WifiScan\<close>.
  The lemmas show that this backend keeps the contract of the interface, its mutex
  discipline, that no credential can break out of a shell command, and that a failed join
  ends with an attempt to bring the access point back.
\<close>

section \<open>Names\<close>

definition STA_IFACE :: string where "STA_IFACE = ''wlan0''"
definition NM_STA_CONN :: string where "NM_STA_CONN = ''system_service_sta''"
definition NM_AP_CONN :: string where "NM_AP_CONN = ''system_service_ap''"
definition AP_SSID :: string where "AP_SSID = ''WFY_TEST''"
definition AP_PASSWD :: string where "AP_PASSWD = ''12345678''"
definition AP_ADDR :: string where "AP_ADDR = ''192.168.50.1''"
definition AP_CIDR :: string where "AP_CIDR = ''192.168.50.1/24''"
definition A733_SSID_MAX :: nat where "A733_SSID_MAX = 32"
definition A733_PASSWD_MAX :: nat where "A733_PASSWD_MAX = 63"

lemmas nm_names = STA_IFACE_def NM_STA_CONN_def NM_AP_CONN_def AP_SSID_def AP_PASSWD_def AP_ADDR_def AP_CIDR_def
  A733_SSID_MAX_def A733_PASSWD_MAX_def

section \<open>Helpers\<close>

definition require_root_for_control :: "'e os \<Rightarrow> ('e, int) io" where
  "require_root_for_control os = gets (\<lambda>w. if os_geteuid os (w_env w) = 0 then 0 else -1)"

definition a733_atomic_write_file :: "'e os \<Rightarrow> string \<Rightarrow> string \<Rightarrow> ('e, int) io" where
  "a733_atomic_write_file os path body =
     (let tmp = path @ ''.tmp'' in
      if length tmp \<ge> 256 then ret (-1)
      else do {
        f \<leftarrow> c_fopen_w os tmp;
        if \<not> f then ret (-1)
        else do {
          r \<leftarrow> c_fwrite_close os tmp body;
          if fst r \<noteq> length body \<or> \<not> snd r then do { c_unlink tmp; ret (-1) }
          else do {
            ok \<leftarrow> c_rename os tmp path;
            if \<not> ok then do { c_unlink tmp; ret (-1) } else ret 0 } } })"

section \<open>Stored credentials\<close>

definition a733_home_wifi_line ::
  "nat \<Rightarrow> nat \<Rightarrow> string \<Rightarrow> string \<times> string \<times> bool \<Rightarrow> string \<times> string \<times> bool" where
  "a733_home_wifi_line ssid_sz password_sz line acc =
     (case acc of (ssid, password, got_ssid) \<Rightarrow>
       (let key = a733_lstrip line in
        if key = [] \<or> hd key = CHR ''#'' then (ssid, password, got_ssid)
        else (case strchr key (CHR ''='') of
                None \<Rightarrow> (ssid, password, got_ssid)
              | Some (k, v) \<Rightarrow>
                  (let val = a733_strip_quotes (a733_lstrip v); key = a733_rstrip k in
                   if key = ''HOME_SSID'' then
                     (snprintf_s ssid_sz val, password, snprintf_s ssid_sz val \<noteq> [])
                   else if key = ''HOME_PASSWORD'' then (ssid, snprintf_s password_sz val, got_ssid)
                   else (ssid, password, got_ssid)))))"

definition a733_read_home_wifi :: "nat \<Rightarrow> nat \<Rightarrow> ('e, (string \<times> string) option) io" where
  "a733_read_home_wifi ssid_sz password_sz =
     (if ssid_sz = 0 \<or> password_sz = 0 then ret None
      else do {
        r \<leftarrow> read_file_all HOME_WIFI_CONF 2048;
        ret (case r of
               None \<Rightarrow> None
             | Some (_, buf) \<Rightarrow>
                 (case fold (a733_home_wifi_line ssid_sz password_sz) (strtok_nl buf) ([], [], False) of
                    (ssid, password, got_ssid) \<Rightarrow> if got_ssid then Some (ssid, password) else None)) })"

definition a733_home_wifi_body :: "string \<Rightarrow> string \<Rightarrow> string" where
  "a733_home_wifi_body ssid password = render_lines
     [''# Managed by system_service; rewritten when BLE provisioning succeeds.'',
      ''HOME_SSID='' @ [chr_dq] @ ssid @ [chr_dq],
      ''HOME_PASSWORD='' @ [chr_dq] @ password @ [chr_dq]]"

definition a733_persist_home_wifi :: "'e os \<Rightarrow> string option \<Rightarrow> string option \<Rightarrow> ('e, int) io" where
  "a733_persist_home_wifi os ssid password =
     (case ssid of
        None \<Rightarrow> ret (-1)
      | Some ss \<Rightarrow>
          if ss = [] then ret (-1)
          else if chr_dq \<in> set ss \<or> (case password of Some p \<Rightarrow> chr_dq \<in> set p | None \<Rightarrow> False) then ret (-1)
          else (let body = a733_home_wifi_body ss (case password of Some p \<Rightarrow> p | None \<Rightarrow> []) in
                if length body \<ge> 512 then ret (-1)
                else do {
                  rc \<leftarrow> a733_atomic_write_file os HOME_WIFI_CONF body;
                  ret (if rc \<noteq> 0 then -1 else 0) }))"

section \<open>NetworkManager\<close>

definition command_exists :: "'e os \<Rightarrow> string \<Rightarrow> ('e, bool) io" where
  "command_exists os tool = do {
     rc \<leftarrow> exec_cmd os (snprintf_s 128 (''command -v '' @ tool @ '' >/dev/null 2>&1''));
     ret (rc = 0) }"

definition cmd_radio_on :: string where "cmd_radio_on = ''nmcli radio wifi on >/dev/null 2>&1''"

definition cmd_managed :: "string \<Rightarrow> nat \<Rightarrow> string" where
  "cmd_managed ifq cap = snprintf_s cap (''nmcli device set '' @ ifq @ '' managed yes >/dev/null 2>&1'')"

definition a733_wait_for_system_ready :: "'e os \<Rightarrow> ('e, int) io" where
  "a733_wait_for_system_ready os = do {
     nmcli \<leftarrow> command_exists os ''nmcli'';
     if \<not> nmcli then ret (-1)
     else do {
       iw \<leftarrow> command_exists os ''iw'';
       if \<not> iw then ret (-1)
       else (case shell_quote STA_IFACE 128 of
         None \<Rightarrow> ret (-1)
       | Some ifq \<Rightarrow> do {
           found \<leftarrow> for_loop 60 0 (\<lambda>i. do {
             here \<leftarrow> c_exists (snprintf_s 128 (''/sys/class/net/'' @ STA_IFACE));
             if here then ret (Some ()) else do { _ \<leftarrow> c_sleep os 1; ret None } });
           (case found of
              None \<Rightarrow> ret (-1)
            | Some _ \<Rightarrow> do {
                _ \<leftarrow> exec_cmd os cmd_radio_on;
                _ \<leftarrow> exec_cmd os (cmd_managed ifq 256);
                ret 0 }) }) } }"

definition a733_mark_network_ready :: "'e os \<Rightarrow> string option \<Rightarrow> string option \<Rightarrow> ('e, unit) io" where
  "a733_mark_network_ready os mode detail = do {
     f \<leftarrow> c_fopen_w os ''/run/wifi_ready'';
     if \<not> f then ret ()
     else do {
       _ \<leftarrow> c_fwrite_close os ''/run/wifi_ready''
         (''mode='' @ (case mode of Some m \<Rightarrow> m | None \<Rightarrow> ''?'') @ [chr_nl] @
          ''detail='' @ (case detail of Some d \<Rightarrow> d | None \<Rightarrow> []) @ [chr_nl]);
       ret () } }"

definition a733_ap_cred_line ::
  "nat \<Rightarrow> nat \<Rightarrow> string \<Rightarrow> string \<times> string \<times> bool \<Rightarrow> string \<times> string \<times> bool" where
  "a733_ap_cred_line ssid_sz pwd_sz line acc =
     (case acc of (ssid, pwd, got_ssid) \<Rightarrow>
       (let t = a733_rstrip (a733_lstrip line) in
        (case after_prefix ''ssid='' t of
           Some v \<Rightarrow> (snprintf_s ssid_sz v, pwd, snprintf_s ssid_sz v \<noteq> [])
         | None \<Rightarrow>
             (case after_prefix ''wpa_passphrase='' t of
                Some v \<Rightarrow> (ssid, snprintf_s pwd_sz v, got_ssid)
              | None \<Rightarrow> (ssid, pwd, got_ssid)))))"

definition parse_hostapd_credentials :: "nat \<Rightarrow> nat \<Rightarrow> ('e, (string \<times> string) option) io" where
  "parse_hostapd_credentials ssid_sz pwd_sz = do {
     r \<leftarrow> read_file_all HOSTAPD_CONF 2048;
     ret (case r of
            None \<Rightarrow> None
          | Some (_, buf) \<Rightarrow>
              (case fold (a733_ap_cred_line ssid_sz pwd_sz) (strtok_nl buf) ([], [], False) of
                 (ssid, pwd, got_ssid) \<Rightarrow> if got_ssid then Some (ssid, pwd) else None)) }"

definition a733_get_ap_credentials :: "nat \<Rightarrow> nat \<Rightarrow> ('e, int \<times> string \<times> string) io" where
  "a733_get_ap_credentials ssid_sz pwd_sz =
     (if ssid_sz = 0 \<or> pwd_sz = 0 then ret (-1, [], [])
      else do {
        r \<leftarrow> parse_hostapd_credentials ssid_sz pwd_sz;
        ret (case r of
               Some (ssid, pwd) \<Rightarrow> (0, ssid, pwd)
             | None \<Rightarrow> (if snprintf_s ssid_sz AP_SSID \<noteq> [] then 0 else -1,
                        snprintf_s ssid_sz AP_SSID, snprintf_s pwd_sz AP_PASSWD)) })"

definition cmd_active :: string where "cmd_active = ''nmcli -t -f NAME connection show --active 2>/dev/null''"

definition nm_connection_active :: "'e os \<Rightarrow> string \<Rightarrow> ('e, bool) io" where
  "nm_connection_active os name = do {
     r \<leftarrow> exec_capture os cmd_active 4096;
     ret (fst r = 0 \<and> name \<in> set (strtok_nl (snd r))) }"

definition cmd_down :: "string \<Rightarrow> nat \<Rightarrow> string" where
  "cmd_down nq cap = snprintf_s cap (''nmcli -w 10 connection down '' @ nq @ '' >/dev/null 2>&1'')"

definition cmd_delete_conn :: "string \<Rightarrow> nat \<Rightarrow> string" where
  "cmd_delete_conn nq cap = snprintf_s cap (''nmcli connection delete '' @ nq @ '' >/dev/null 2>&1'')"

definition nm_down_connection :: "'e os \<Rightarrow> string \<Rightarrow> ('e, unit) io" where
  "nm_down_connection os name =
     (case shell_quote name 256 of
        None \<Rightarrow> ret ()
      | Some nq \<Rightarrow> do { _ \<leftarrow> exec_cmd os (cmd_down nq 512); ret () })"

definition nm_delete_connection :: "'e os \<Rightarrow> string \<Rightarrow> ('e, unit) io" where
  "nm_delete_connection os name =
     (case shell_quote name 256 of
        None \<Rightarrow> ret ()
      | Some nq \<Rightarrow> do { _ \<leftarrow> exec_cmd os (cmd_delete_conn nq 512); ret () })"

text \<open>The text between \<^verbatim>\<open>inet\<close> and the slash of the prefix length.\<close>

definition inet_field :: "string \<Rightarrow> nat \<Rightarrow> string option" where
  "inet_field out ip_sz =
     (case strstr out '' inet '' of
        None \<Rightarrow> None
      | Some p \<Rightarrow>
          (case strchr (drop 6 p) (CHR ''/'') of
             None \<Rightarrow> None
           | Some (a, _) \<Rightarrow>
               (let ip = take (if length a \<ge> ip_sz then ip_sz - 1 else length a) a in
                if ip = [] then None else Some ip)))"

definition get_iface_ipv4 :: "'e os \<Rightarrow> nat \<Rightarrow> ('e, string option) io" where
  "get_iface_ipv4 os ip_sz =
     (if ip_sz = 0 then ret None
      else (case shell_quote STA_IFACE 128 of
              None \<Rightarrow> ret None
            | Some ifq \<Rightarrow> do {
                r \<leftarrow> exec_capture os (snprintf_s 256
                  (''ip -4 -o addr show dev '' @ ifq @ '' scope global 2>/dev/null'')) 1024;
                ret (if fst r \<noteq> 0 \<or> snd r = [] then None else inet_field (snd r) ip_sz) }))"

definition a733_is_connected :: "'e os \<Rightarrow> ('e, bool) io" where
  "a733_is_connected os = do {
     ap \<leftarrow> nm_connection_active os NM_AP_CONN;
     if ap then ret False
     else do {
       ip \<leftarrow> get_iface_ipv4 os 64;
       ret (ip \<noteq> None) } }"

section \<open>Looking for the network\<close>

definition ssid_line_matches :: "string \<Rightarrow> string \<Rightarrow> bool" where
  "ssid_line_matches ssid line =
     (case after_prefix ''SSID:'' (a733_lstrip line) of
        None \<Rightarrow> False
      | Some r \<Rightarrow>
          (let raw = decode_iw_ssid (a733_rstrip (a733_lstrip r)) WIFI_SCAN_SSID_MAX in
           length raw = length ssid \<and> raw = map byte_of_char ssid))"

text \<open>1 when the network is in the scan, 0 when it is not, -1 when no scan could be read.\<close>

definition target_visible_in_scan :: "'e os \<Rightarrow> string \<Rightarrow> ('e, int) io" where
  "target_visible_in_scan os ssid =
     (if ssid = [] then ret 0
      else if length ssid > WIFI_SCAN_SSID_MAX then ret 0
      else (case shell_quote STA_IFACE 128 of
        None \<Rightarrow> ret 0
      | Some ifq \<Rightarrow> do {
          buf \<leftarrow> c_malloc os SCAN_BUF_SZ;
          if \<not> buf then ret (-1)
          else do {
            r \<leftarrow> exec_capture os (snprintf_s 256 (''iw dev '' @ ifq @ '' scan 2>&1'')) SCAN_BUF_SZ;
            r \<leftarrow> (if \<not> scan_usable r then
                     exec_capture os (snprintf_s 256 (''iw '' @ ifq @ '' scan 2>&1'')) SCAN_BUF_SZ
                   else ret r);
            ret (if \<not> scan_usable r then -1
                 else if list_ex (ssid_line_matches ssid) (strtok_nl (snd r)) then 1 else 0) } }))"

section \<open>Joining a network and the access point\<close>

definition nm_not_found :: "string \<Rightarrow> bool" where
  "nm_not_found out \<longleftrightarrow> contains_ci out ''No network with SSID'' \<or> contains_ci out ''not found''"

definition cmd_rescan :: "string \<Rightarrow> nat \<Rightarrow> string" where
  "cmd_rescan ifq cap = snprintf_s cap (''nmcli -w 10 device wifi rescan ifname '' @ ifq @ '' >/dev/null 2>&1'')"

definition cmd_connect :: "string \<Rightarrow> string \<Rightarrow> string \<Rightarrow> string \<Rightarrow> string \<Rightarrow> string" where
  "cmd_connect use_pwd ssidq pwdq ifq connq = snprintf_s 1400
     (if use_pwd \<noteq> [] then ''nmcli -w 70 device wifi connect '' @ ssidq @ '' password '' @ pwdq @
        '' ifname '' @ ifq @ '' name '' @ connq @ '' 2>&1''
      else ''nmcli -w 70 device wifi connect '' @ ssidq @ '' ifname '' @ ifq @ '' name '' @ connq @ '' 2>&1'')"

definition cmd_add :: "string \<Rightarrow> string \<Rightarrow> string \<Rightarrow> string" where
  "cmd_add ssidq ifq connq = snprintf_s 1400
     (''nmcli connection add type wifi ifname '' @ ifq @ '' con-name '' @ connq @ '' ssid '' @ ssidq @ '' 2>&1'')"

definition cmd_set_psk :: "string \<Rightarrow> string \<Rightarrow> string" where
  "cmd_set_psk pwdq connq = snprintf_s 1400
     (''nmcli connection modify '' @ connq @ '' wifi-sec.key-mgmt wpa-psk wifi-sec.psk '' @ pwdq @ '' 2>&1'')"

definition cmd_up :: "string \<Rightarrow> string \<Rightarrow> string" where
  "cmd_up secs connq = snprintf_s 1400 (''nmcli -w '' @ secs @ '' connection up '' @ connq @ '' 2>&1'')"

definition cmd_autoconnect :: "string \<Rightarrow> string" where
  "cmd_autoconnect connq = snprintf_s 1400
     (''nmcli connection modify '' @ connq @ '' connection.autoconnect yes >/dev/null 2>&1'')"

definition cmd_hotspot :: "string \<Rightarrow> string \<Rightarrow> string \<Rightarrow> string \<Rightarrow> string" where
  "cmd_hotspot ifq apq ssidq pwdq = snprintf_s 1400
     (''nmcli -w 40 device wifi hotspot ifname '' @ ifq @ '' con-name '' @ apq @ '' ssid '' @ ssidq @
      '' password '' @ pwdq @ '' 2>&1'')"

definition cmd_shared :: "string \<Rightarrow> string" where
  "cmd_shared apq = snprintf_s 1400
     (''nmcli connection modify '' @ apq @ '' ipv4.method shared ipv4.addresses '' @ AP_CIDR @ '' >/dev/null 2>&1'')"

text \<open>The direct connect and, when \<^verbatim>\<open>nmcli\<close> does not know the SSID, the explicit profile.\<close>

definition nm_connect :: "'e os \<Rightarrow> string \<Rightarrow> string \<Rightarrow> string \<Rightarrow> string \<Rightarrow> string \<Rightarrow> ('e, int \<times> string) io" where
  "nm_connect os use_pwd ssidq pwdq ifq connq = do {
     r \<leftarrow> exec_capture os (cmd_connect use_pwd ssidq pwdq ifq connq) 4096;
     if fst r \<noteq> 0 \<and> nm_not_found (snd r) then do {
       _ \<leftarrow> nm_delete_connection os NM_STA_CONN;
       r \<leftarrow> exec_capture os (cmd_add ssidq ifq connq) 4096;
       r \<leftarrow> (if fst r = 0 \<and> use_pwd \<noteq> [] then exec_capture os (cmd_set_psk pwdq connq) 4096 else ret r);
       if fst r = 0 then exec_capture os (cmd_up ''70'' connq) 4096 else ret r }
     else ret r }"

definition nm_failure_status :: "string \<Rightarrow> wifi_switch_status" where
  "nm_failure_status out =
     (if contains_ci out ''password'' \<or> contains_ci out ''secret'' \<or> contains_ci out ''secrets''
      then WIFI_SWITCH_ERR_BAD_PASSWORD
      else if nm_not_found out then WIFI_SWITCH_ERR_NO_SSID
      else WIFI_SWITCH_ERR_CONNECT_FAIL)"

definition await_address :: "'e os \<Rightarrow> ('e, unit option) io" where
  "await_address os = for_loop 30 0 (\<lambda>i. do {
     connected \<leftarrow> a733_is_connected os;
     ip \<leftarrow> (if connected then get_iface_ipv4 os 64 else ret None);
     (case ip of
        Some a \<Rightarrow> do { _ \<leftarrow> a733_mark_network_ready os (Some ''STA'') (Some a); ret (Some ()) }
      | None \<Rightarrow> do { _ \<leftarrow> c_sleep os 1; ret None }) })"

text \<open>The credentials of the access point, as the caller of \<^verbatim>\<open>hotspot\<close> corrects them.\<close>

definition ap_credentials :: "('e, string \<times> string) io" where
  "ap_credentials = do {
     r \<leftarrow> a733_get_ap_credentials 128 128;
     ret (let (ssid, pwd) = (if fst r \<noteq> 0 then (snprintf_s 128 AP_SSID, snprintf_s 128 AP_PASSWD) else snd r)
          in (ssid, if length pwd < 8 then snprintf_s 128 AP_PASSWD else pwd)) }"

definition ensure_ap_mode_locked :: "'e os \<Rightarrow> ('e, wifi_switch_status) io" where
  "ensure_ap_mode_locked os = do {
     ready \<leftarrow> a733_wait_for_system_ready os;
     if ready \<noteq> 0 then ret WIFI_SWITCH_ERR_UNKNOWN
     else do {
       creds \<leftarrow> ap_credentials;
       (case (shell_quote (fst creds) 256, shell_quote (snd creds) 256, shell_quote STA_IFACE 128,
              shell_quote NM_AP_CONN 256, shell_quote NM_STA_CONN 256) of
          (Some ssidq, Some pwdq, Some ifq, Some apq, Some staq) \<Rightarrow> do {
            _ \<leftarrow> exec_cmd os (cmd_down staq 1400);
            _ \<leftarrow> exec_cmd os (cmd_down apq 1400);
            _ \<leftarrow> exec_cmd os (cmd_delete_conn apq 1400);
            _ \<leftarrow> exec_cmd os cmd_radio_on;
            _ \<leftarrow> exec_cmd os (cmd_managed ifq 1400);
            r \<leftarrow> exec_capture os (cmd_hotspot ifq apq ssidq pwdq) 4096;
            if fst r \<noteq> 0 then ret WIFI_SWITCH_ERR_CONNECT_FAIL
            else do {
              _ \<leftarrow> exec_cmd os (cmd_shared apq);
              _ \<leftarrow> exec_cmd os (cmd_down apq 1400);
              r \<leftarrow> exec_capture os (cmd_up ''40'' apq) 4096;
              if fst r \<noteq> 0 then ret WIFI_SWITCH_ERR_CONNECT_FAIL
              else do {
                _ \<leftarrow> a733_mark_network_ready os (Some ''AP'') (Some AP_ADDR);
                ret WIFI_SWITCH_OK } } }
        | _ \<Rightarrow> ret WIFI_SWITCH_ERR_UNKNOWN) } }"

text \<open>What happens under the mutex once the credentials are known (lines 593 to 689).\<close>

definition a733_join :: "'e os \<Rightarrow> string \<Rightarrow> string \<Rightarrow> ('e, wifi_switch_status) io" where
  "a733_join os use_ssid use_pwd = do {
     ready \<leftarrow> a733_wait_for_system_ready os;
     if ready \<noteq> 0 then ret WIFI_SWITCH_ERR_UNKNOWN
     else (case (shell_quote use_ssid 256, shell_quote use_pwd 512, shell_quote STA_IFACE 128,
                 shell_quote NM_STA_CONN 256) of
       (Some ssidq, Some pwdq, Some ifq, Some connq) \<Rightarrow> do {
         _ \<leftarrow> nm_down_connection os NM_AP_CONN;
         _ \<leftarrow> nm_delete_connection os NM_STA_CONN;
         _ \<leftarrow> exec_cmd os (cmd_rescan ifq 1400);
         _ \<leftarrow> c_sleep os 1;
         _ \<leftarrow> target_visible_in_scan os use_ssid;
         r \<leftarrow> nm_connect os use_pwd ssidq pwdq ifq connq;
         if fst r \<noteq> 0 then do {
           _ \<leftarrow> ensure_ap_mode_locked os;
           ret (nm_failure_status (snd r)) }
         else do {
           _ \<leftarrow> exec_cmd os (cmd_autoconnect connq);
           up \<leftarrow> await_address os;
           (case up of
              Some _ \<Rightarrow> ret WIFI_SWITCH_OK
            | None \<Rightarrow> do {
                _ \<leftarrow> ensure_ap_mode_locked os;
                ret WIFI_SWITCH_ERR_CONNECT_FAIL }) } }
     | _ \<Rightarrow> ret WIFI_SWITCH_ERR_UNKNOWN) }"

definition a733_run_now :: "'e os \<Rightarrow> string option \<Rightarrow> string option \<Rightarrow> ('e, wifi_switch_status) io" where
  "a733_run_now os ssid password = do {
     root \<leftarrow> require_root_for_control os;
     if root \<noteq> 0 then ret WIFI_SWITCH_ERR_UNKNOWN
     else do {
       locked \<leftarrow> c_trylock;
       if \<not> locked then ret WIFI_SWITCH_ERR_BUSY
       else do {
         creds \<leftarrow> (case ssid of
             Some (c # cs) \<Rightarrow> ret (Some (c # cs, case password of Some p \<Rightarrow> p | None \<Rightarrow> []))
           | _ \<Rightarrow> a733_read_home_wifi (A733_SSID_MAX + 1) (A733_PASSWD_MAX + 1));
         st \<leftarrow> (case creds of
                  None \<Rightarrow> ret WIFI_SWITCH_ERR_NO_SSID
                | Some (s, p) \<Rightarrow> a733_join os s p);
         _ \<leftarrow> c_unlock;
         ret st } } }"

definition a733_ensure_ap_mode :: "'e os \<Rightarrow> ('e, wifi_switch_status) io" where
  "a733_ensure_ap_mode os = do {
     root \<leftarrow> require_root_for_control os;
     if root \<noteq> 0 then ret WIFI_SWITCH_ERR_UNKNOWN
     else do {
       locked \<leftarrow> c_trylock;
       if \<not> locked then ret WIFI_SWITCH_ERR_BUSY
       else do {
         active \<leftarrow> nm_connection_active os NM_AP_CONN;
         if active then do { _ \<leftarrow> c_unlock; ret WIFI_SWITCH_OK }
         else do {
           st \<leftarrow> ensure_ap_mode_locked os;
           _ \<leftarrow> c_unlock;
           ret st } } } }"

section \<open>The monitor and the boot thread\<close>

text \<open>One turn of the endless loop; the state is the number of misses.\<close>

definition a733_reconnect_step :: "'e os \<Rightarrow> nat \<Rightarrow> ('e, nat) io" where
  "a733_reconnect_step os miss = do {
     _ \<leftarrow> c_sleep os 30;
     connected \<leftarrow> a733_is_connected os;
     if connected then ret 0
     else if miss + 1 < 2 then ret (miss + 1)
     else do {
       creds \<leftarrow> a733_read_home_wifi (A733_SSID_MAX + 1) (A733_PASSWD_MAX + 1);
       (case creds of
          Some (ssid, pwd) \<Rightarrow> do { _ \<leftarrow> a733_run_now os (Some ssid) (Some pwd); ret 0 }
        | None \<Rightarrow> do {
            ap \<leftarrow> nm_connection_active os NM_AP_CONN;
            _ \<leftarrow> (if \<not> ap then do { _ \<leftarrow> a733_ensure_ap_mode os; ret () } else ret ());
            ret 0 }) } }"

primrec a733_reconnect_monitor :: "'e os \<Rightarrow> nat \<Rightarrow> nat \<Rightarrow> ('e, nat) io" where
  "a733_reconnect_monitor os 0 miss = ret miss"
| "a733_reconnect_monitor os (Suc n) miss = do {
     miss' \<leftarrow> a733_reconnect_step os miss;
     a733_reconnect_monitor os n miss' }"

definition a733_switch_thread :: "'e os \<Rightarrow> nat \<Rightarrow> ('e, unit) io" where
  "a733_switch_thread os n = do {
     root \<leftarrow> require_root_for_control os;
     if root \<noteq> 0 then ret ()
     else do {
       creds \<leftarrow> a733_read_home_wifi (A733_SSID_MAX + 1) (A733_PASSWD_MAX + 1);
       _ \<leftarrow> (case creds of
               Some (ssid, pwd) \<Rightarrow> a733_run_now os (Some ssid) (Some pwd)
             | None \<Rightarrow> a733_ensure_ap_mode os);
       _ \<leftarrow> a733_reconnect_monitor os n 0;
       ret () } }"

section \<open>The scan for the phone\<close>

definition a733_bss_tag_line :: "string \<Rightarrow> bss_parse \<Rightarrow> bss_parse" where
  "a733_bss_tag_line t cur =
     (case after_prefix ''freq:'' t of
        Some r \<Rightarrow> cur\<lparr>b_freq := ucast (strtoul10 (a733_lstrip r)), have_freq := True\<rparr>
      | None \<Rightarrow>
     (case after_prefix ''signal:'' t of
        Some r \<Rightarrow> cur\<lparr>b_rssi := strtod_int (a733_lstrip r), have_signal := True\<rparr>
      | None \<Rightarrow>
     (case after_prefix ''SSID:'' t of
        Some r \<Rightarrow> cur\<lparr>b_ssid := decode_iw_ssid (a733_rstrip (a733_lstrip r)) WIFI_SCAN_SSID_MAX, have_ssid := True\<rparr>
      | None \<Rightarrow>
     (case after_prefix ''capability:'' t of
        Some r \<Rightarrow> if has_sub r ''Privacy'' then cur\<lparr>has_privacy := True\<rparr> else cur
      | None \<Rightarrow>
        if starts_with t ''RSN:'' then cur\<lparr>has_rsn := True\<rparr>
        else if starts_with t ''WPA:'' then cur\<lparr>has_wpa := True\<rparr>
        else cur))))"

definition a733_bss_line :: "string \<Rightarrow> bss_parse \<Rightarrow> bss_parse" where
  "a733_bss_line line cur = (let t = a733_lstrip line in bss_keywords t (a733_bss_tag_line t cur))"

definition a733_iw_scan_line ::
  "nat \<Rightarrow> string \<Rightarrow> bss_parse \<times> wifi_scan_entry list \<Rightarrow> bss_parse \<times> wifi_scan_entry list" where
  "a733_iw_scan_line out_cap line st = (case st of (cur, out) \<Rightarrow>
     if starts_with line ''BSS '' then commit_bss out_cap cur out
     else (a733_bss_line line cur, out))"

definition a733_parse_iw_scan :: "string \<Rightarrow> nat \<Rightarrow> wifi_scan_entry list" where
  "a733_parse_iw_scan buf out_cap =
     (case fold (a733_iw_scan_line out_cap) (strtok_nl buf) (bss_zero, []) of
        (cur, out) \<Rightarrow> snd (commit_bss out_cap cur out))"

definition a733_scan_locked :: "'e os \<Rightarrow> ('e, wifi_scan_entry list option) io" where
  "a733_scan_locked os = do {
     ready \<leftarrow> a733_wait_for_system_ready os;
     if ready \<noteq> 0 then ret None
     else (case shell_quote STA_IFACE 128 of
       None \<Rightarrow> ret None
     | Some ifq \<Rightarrow> do {
         arr \<leftarrow> c_malloc os (MAX_ENTRIES * 36);
         scan_buf \<leftarrow> c_malloc os SCAN_BUF_SZ;
         if \<not> arr \<or> \<not> scan_buf then ret None
         else do {
           _ \<leftarrow> exec_cmd os (cmd_rescan ifq 256);
           _ \<leftarrow> c_sleep os 1;
           usable \<leftarrow> for_loop 3 1 (\<lambda>attempt. do {
             r \<leftarrow> exec_capture os (snprintf_s 256 (''iw dev '' @ ifq @ '' scan 2>&1'')) SCAN_BUF_SZ;
             if scan_usable r then ret (Some (snd r))
             else if attempt < 3 then do { _ \<leftarrow> c_sleep os 2; ret None }
             else ret None });
           (case usable of
              None \<Rightarrow> ret None
            | Some buf \<Rightarrow> do {
                work \<leftarrow> c_malloc os (length buf + 1);
                ret (if work then Some (a733_parse_iw_scan buf MAX_ENTRIES) else None) }) } }) }"

definition a733_scan :: "'e os \<Rightarrow> ('e, wifi_scan_entry list option) io" where
  "a733_scan os = do {
     locked \<leftarrow> c_trylock;
     if \<not> locked then ret None
     else do {
       result \<leftarrow> a733_scan_locked os;
       _ \<leftarrow> c_unlock;
       ret result } }"

section \<open>The backend\<close>

definition a733_ops :: "'e os \<Rightarrow> 'e world wifi_ops" where
  "a733_ops os = \<lparr>
     wo_run_now = (\<lambda>ssid pwd. run_state (a733_run_now os (Some ssid) (Some pwd))),
     wo_persist = (\<lambda>ssid pwd. run_state (a733_persist_home_wifi os (Some ssid) (Some pwd))),
     wo_is_connected = run_state (a733_is_connected os),
     wo_get_ap_credentials = (\<lambda>m n. run_state (a733_get_ap_credentials m n)),
     wo_ensure_ap_mode = run_state (a733_ensure_ap_mode os),
     wo_scan = run_state (a733_scan os)\<rparr>"

section \<open>The quoted names\<close>

lemma quoted_names [simp]:
  "shell_quote STA_IFACE 128 = Some (chr_sq # STA_IFACE @ [chr_sq])"
  "shell_quote NM_AP_CONN 256 = Some (chr_sq # NM_AP_CONN @ [chr_sq])"
  "shell_quote NM_STA_CONN 256 = Some (chr_sq # NM_STA_CONN @ [chr_sq])"
  by (simp_all add: shell_quote_def nm_names)

section \<open>The contract of the interface\<close>

interpretation a733_parser: bss_parser a733_bss_line a733_iw_scan_line a733_parse_iw_scan
  by unfold_locales (simp_all add: a733_iw_scan_line_def a733_parse_iw_scan_def a733_bss_line_def a733_bss_tag_line_def
      bss_keywords_def Let_def length_decode_iw_ssid split: option.split)

lemma a733_scan_result:
  assumes "run_state (a733_scan os) w = (Some es, w')"
  shows "length es \<le> MAX_ENTRIES \<and> list_all valid_entry es"
proof -
  have "returns (\<lambda>r. \<forall>es. r = Some es \<longrightarrow> length es \<le> MAX_ENTRIES \<and> list_all valid_entry es) (a733_scan_locked os)"
    unfolding a733_scan_locked_def
    by (rule returns_rules | simp add: a733_parser.parse_valid del: for_loop_numeral)+
  moreover obtain w1 w2 where "run_state (a733_scan_locked os) w1 = (Some es, w2)"
    using assms by (auto simp: a733_scan_def c_trylock_def split: if_splits prod.splits)
  ultimately show ?thesis by (auto dest: returnsD)
qed

lemma a733_ap_cred_line_fits: "creds_fit m n acc \<Longrightarrow> creds_fit m n (a733_ap_cred_line m n l acc)"
  by (cases acc) (auto simp: creds_fit_def a733_ap_cred_line_def Let_def length_snprintf_s split: option.split)

lemma fold_a733_ap_cred_fits: "creds_fit m n acc \<Longrightarrow> creds_fit m n (fold (a733_ap_cred_line m n) ls acc)"
  by (induction ls arbitrary: acc) (simp_all add: a733_ap_cred_line_fits)

lemma a733_get_ap_credentials_fits:
  assumes "run_state (a733_get_ap_credentials m n) w = ((rc, ssid, pwd), w')"
  shows "0 < m \<Longrightarrow> length ssid < m" and "0 < n \<Longrightarrow> length pwd < n"
proof -
  have fits: "creds_fit m n (s, p, True)" if "fold (a733_ap_cred_line m n) ls ([], [], False) = (s, p, True)" for s p ls
    using fold_a733_ap_cred_fits [of m n "([], [], False)" ls] that by (simp add: creds_fit_def)
  have "creds_fit m n (ssid, pwd, True)"
    using assms
    by (auto dest: fits simp: a733_get_ap_credentials_def parse_hostapd_credentials_def run_read_file_all creds_fit_def
        length_snprintf_s split: if_splits option.splits prod.splits)
  then show "0 < m \<Longrightarrow> length ssid < m" and "0 < n \<Longrightarrow> length pwd < n" by (simp_all add: creds_fit_def)
qed

interpretation a733: wifi_backend "a733_ops os" for os
  by unfold_locales (auto simp: a733_ops_def dest: a733_scan_result a733_get_ap_credentials_fits)

section \<open>The switch mutex\<close>

lemma mutex_a733_helpers [io_intros]:
  "state_io_rel same_mutex (require_root_for_control os)"
  "state_io_rel same_mutex (a733_read_home_wifi m n)"
  "state_io_rel same_mutex (a733_atomic_write_file os p d)"
  "state_io_rel same_mutex (command_exists os tool)"
  "state_io_rel same_mutex (a733_mark_network_ready os mode detail)"
  "state_io_rel same_mutex (a733_get_ap_credentials m n)"
  "state_io_rel same_mutex (nm_connection_active os name)"
  "state_io_rel same_mutex (nm_down_connection os name)"
  "state_io_rel same_mutex (nm_delete_connection os name)"
  "state_io_rel same_mutex (get_iface_ipv4 os k)"
  "state_io_rel same_mutex (target_visible_in_scan os ssid)"
  unfolding require_root_for_control_def a733_read_home_wifi_def a733_atomic_write_file_def command_exists_def
    a733_mark_network_ready_def a733_get_ap_credentials_def parse_hostapd_credentials_def nm_connection_active_def
    nm_down_connection_def nm_delete_connection_def get_iface_ipv4_def target_visible_in_scan_def
  by (intro io_intros)+

lemma mutex_a733_workflows [io_intros]:
  "state_io_rel same_mutex (a733_wait_for_system_ready os)"
  "state_io_rel same_mutex (a733_is_connected os)"
  "state_io_rel same_mutex (nm_connect os p sq pq ifq cq)"
  "state_io_rel same_mutex ap_credentials"
  unfolding a733_wait_for_system_ready_def a733_is_connected_def nm_connect_def ap_credentials_def
  by (intro io_intros)+

lemma mutex_a733_await [io_intros]: "state_io_rel same_mutex (await_address os)"
  unfolding await_address_def by (intro io_intros)

lemma mutex_ensure_ap_mode_locked [io_intros]: "state_io_rel same_mutex (ensure_ap_mode_locked os)"
  unfolding ensure_ap_mode_locked_def by (intro io_intros)

lemma mutex_a733_join [io_intros]: "state_io_rel same_mutex (a733_join os s p)"
  unfolding a733_join_def by (intro io_intros)

lemma mutex_a733_run_now [io_intros]: "state_io_rel same_mutex (a733_run_now os ssid pwd)"
  unfolding a733_run_now_def
  by (rule mutex.keep_bind, intro io_intros, rule keep_if, intro io_intros,
      rule mutex_trylock; (rule releases_rules | intro io_intros)+)

lemma mutex_a733_ensure_ap_mode [io_intros]: "state_io_rel same_mutex (a733_ensure_ap_mode os)"
  unfolding a733_ensure_ap_mode_def
  by (rule mutex.keep_bind, intro io_intros, rule keep_if, intro io_intros,
      rule mutex_trylock; (rule releases_rules | intro io_intros)+)

lemma mutex_a733_scan [io_intros]: "state_io_rel same_mutex (a733_scan os)"
  unfolding a733_scan_def
  by (rule mutex_trylock; (rule releases_rules | intro io_intros)+)

lemma mutex_a733_monitor [io_intros]: "state_io_rel same_mutex (a733_reconnect_monitor os n miss)"
proof (induction n arbitrary: miss)
  case 0
  then show ?case by (simp add: mutex.keep_ret)
next
  case (Suc n)
  have "state_io_rel same_mutex (a733_reconnect_step os miss)"
    unfolding a733_reconnect_step_def by (intro io_intros)
  with Suc show ?case by (simp add: mutex.keep_bind)
qed

lemma mutex_a733_thread: "state_io_rel same_mutex (a733_switch_thread os n)"
  unfolding a733_switch_thread_def by (intro io_intros)

section \<open>Commands are simple commands\<close>

text \<open>
  A command line made of words only, followed by one of the fixed redirections the code
  appends: no part of it is an operator, an expansion or a second command.
\<close>

definition simple_cmd :: "string \<Rightarrow> bool" where
  "simple_cmd c \<longleftrightarrow> (\<exists>base r. c = base @ r \<and> r \<in> {'' 2>&1'', '' >/dev/null 2>&1'', '' 2>/dev/null''} \<and>
     sh_words base \<noteq> None)"

fun simple_event :: "event \<Rightarrow> bool" where
  "simple_event (Ev_system c) = simple_cmd c"
| "simple_event (Ev_popen c) = simple_cmd c"
| "simple_event _ = True"

lemma simple_cmdI: "sh_words base = Some ws \<Longrightarrow> r \<in> {'' 2>&1'', '' >/dev/null 2>&1'', '' 2>/dev/null''} \<Longrightarrow>
    simple_cmd (base @ r)"
  unfolding simple_cmd_def by blast

lemmas sh_eval = sh_words_def sh_plain_def isdigit_def

lemma words_down: "shell_quote n k = Some nq \<Longrightarrow>
    sh_words (''nmcli -w 10 connection down '' @ nq) = Some [''nmcli'', ''-w'', ''10'', ''connection'', ''down'', n]"
  by (simp add: sh_eval shell_quote_lex [where rest = "[]", simplified])

text \<open>The word lists of the commands that carry text from the phone or from a file.\<close>

lemma words_connect:
  assumes "shell_quote s a = Some sq" "shell_quote p b = Some pq"
  shows "sh_words (''nmcli -w 70 device wifi connect '' @ sq @ '' password '' @ pq @ '' ifname '' @
      (chr_sq # STA_IFACE @ [chr_sq]) @ '' name '' @ (chr_sq # NM_STA_CONN @ [chr_sq])) =
    Some [''nmcli'', ''-w'', ''70'', ''device'', ''wifi'', ''connect'', s, ''password'', p, ''ifname'', STA_IFACE,
      ''name'', NM_STA_CONN]"
    and "sh_words (''nmcli -w 70 device wifi connect '' @ sq @ '' ifname '' @
      (chr_sq # STA_IFACE @ [chr_sq]) @ '' name '' @ (chr_sq # NM_STA_CONN @ [chr_sq])) =
    Some [''nmcli'', ''-w'', ''70'', ''device'', ''wifi'', ''connect'', s, ''ifname'', STA_IFACE, ''name'', NM_STA_CONN]"
  by (simp_all add: sh_eval shell_quote_lex [OF assms(1)] shell_quote_lex [OF assms(2)] nm_names)

lemma words_profile:
  assumes "shell_quote s a = Some sq"
  shows "sh_words (''nmcli connection add type wifi ifname '' @ (chr_sq # STA_IFACE @ [chr_sq]) @ '' con-name '' @
      (chr_sq # NM_STA_CONN @ [chr_sq]) @ '' ssid '' @ sq) =
    Some [''nmcli'', ''connection'', ''add'', ''type'', ''wifi'', ''ifname'', STA_IFACE, ''con-name'', NM_STA_CONN, ''ssid'', s]"
    and "sh_words (''nmcli connection modify '' @ (chr_sq # NM_STA_CONN @ [chr_sq]) @
      '' wifi-sec.key-mgmt wpa-psk wifi-sec.psk '' @ sq) =
    Some [''nmcli'', ''connection'', ''modify'', NM_STA_CONN, ''wifi-sec.key-mgmt'', ''wpa-psk'', ''wifi-sec.psk'', s]"
  by (simp_all add: sh_eval shell_quote_lex [OF assms, where rest = "[]", simplified] nm_names)

lemma words_hotspot:
  assumes "shell_quote s a = Some sq" "shell_quote p b = Some pq"
  shows "sh_words (''nmcli -w 40 device wifi hotspot ifname '' @ (chr_sq # STA_IFACE @ [chr_sq]) @ '' con-name '' @
      (chr_sq # NM_AP_CONN @ [chr_sq]) @ '' ssid '' @ sq @ '' password '' @ pq) =
    Some [''nmcli'', ''-w'', ''40'', ''device'', ''wifi'', ''hotspot'', ''ifname'', STA_IFACE, ''con-name'', NM_AP_CONN,
      ''ssid'', s, ''password'', p]"
  by (simp add: sh_eval shell_quote_lex [OF assms(1)] shell_quote_lex [OF assms(2), where rest = "[]", simplified] nm_names)

text \<open>The longest of them fit the buffer of 1400 characters.\<close>

lemma cmds_fit:
  assumes "shell_quote s 256 = Some sq" "shell_quote p 512 = Some pq"
  shows "cmd_connect pw sq pq (chr_sq # STA_IFACE @ [chr_sq]) (chr_sq # NM_STA_CONN @ [chr_sq]) =
      (if pw \<noteq> [] then ''nmcli -w 70 device wifi connect '' @ sq @ '' password '' @ pq @
         '' ifname '' @ (chr_sq # STA_IFACE @ [chr_sq]) @ '' name '' @ (chr_sq # NM_STA_CONN @ [chr_sq])
       else ''nmcli -w 70 device wifi connect '' @ sq @ '' ifname '' @ (chr_sq # STA_IFACE @ [chr_sq]) @
         '' name '' @ (chr_sq # NM_STA_CONN @ [chr_sq])) @ '' 2>&1''"
    and "cmd_add sq (chr_sq # STA_IFACE @ [chr_sq]) (chr_sq # NM_STA_CONN @ [chr_sq]) =
      (''nmcli connection add type wifi ifname '' @ (chr_sq # STA_IFACE @ [chr_sq]) @ '' con-name '' @
         (chr_sq # NM_STA_CONN @ [chr_sq]) @ '' ssid '' @ sq) @ '' 2>&1''"
    and "cmd_set_psk pq (chr_sq # NM_STA_CONN @ [chr_sq]) =
      (''nmcli connection modify '' @ (chr_sq # NM_STA_CONN @ [chr_sq]) @
         '' wifi-sec.key-mgmt wpa-psk wifi-sec.psk '' @ pq) @ '' 2>&1''"
  using shell_quote_length [OF assms(1)] shell_quote_length [OF assms(2)]
  by (simp_all add: cmd_connect_def cmd_add_def cmd_set_psk_def snprintf_s_def nm_names)

lemma hotspot_fits:
  assumes "shell_quote s 256 = Some sq" "shell_quote p 256 = Some pq"
  shows "cmd_hotspot (chr_sq # STA_IFACE @ [chr_sq]) (chr_sq # NM_AP_CONN @ [chr_sq]) sq pq =
    (''nmcli -w 40 device wifi hotspot ifname '' @ (chr_sq # STA_IFACE @ [chr_sq]) @ '' con-name '' @
      (chr_sq # NM_AP_CONN @ [chr_sq]) @ '' ssid '' @ sq @ '' password '' @ pq) @ '' 2>&1''"
  using shell_quote_length [OF assms(1)] shell_quote_length [OF assms(2)]
  by (simp add: cmd_hotspot_def snprintf_s_def nm_names)

lemma simple_join_cmds:
  assumes "shell_quote s 256 = Some sq" "shell_quote p 512 = Some pq"
  shows "simple_cmd (cmd_connect pw sq pq (chr_sq # STA_IFACE @ [chr_sq]) (chr_sq # NM_STA_CONN @ [chr_sq]))"
    and "simple_cmd (cmd_add sq (chr_sq # STA_IFACE @ [chr_sq]) (chr_sq # NM_STA_CONN @ [chr_sq]))"
    and "simple_cmd (cmd_set_psk pq (chr_sq # NM_STA_CONN @ [chr_sq]))"
proof -
  show "simple_cmd (cmd_connect pw sq pq (chr_sq # STA_IFACE @ [chr_sq]) (chr_sq # NM_STA_CONN @ [chr_sq]))"
    unfolding cmds_fit(1) [OF assms]
    by (cases "pw = []", simp_all only: simp_thms if_True if_False)
       (rule simple_cmdI [OF words_connect(2) [OF assms]] simple_cmdI [OF words_connect(1) [OF assms]], simp)+
  show "simple_cmd (cmd_add sq (chr_sq # STA_IFACE @ [chr_sq]) (chr_sq # NM_STA_CONN @ [chr_sq]))"
    unfolding cmds_fit(2) [OF assms] by (rule simple_cmdI [OF words_profile(1) [OF assms(1)]]) simp
  show "simple_cmd (cmd_set_psk pq (chr_sq # NM_STA_CONN @ [chr_sq]))"
    unfolding cmds_fit(3) [OF assms] by (rule simple_cmdI [OF words_profile(2) [OF assms(2)]]) simp
qed

lemma simple_hotspot:
  assumes "shell_quote s 256 = Some sq" "shell_quote p 256 = Some pq"
  shows "simple_cmd (cmd_hotspot (chr_sq # STA_IFACE @ [chr_sq]) (chr_sq # NM_AP_CONN @ [chr_sq]) sq pq)"
  unfolding hotspot_fits [OF assms] by (rule simple_cmdI [OF words_hotspot [OF assms]]) simp

lemma simple_cmd_split:
  "r \<in> {'' 2>&1'', '' >/dev/null 2>&1'', '' 2>/dev/null''} \<Longrightarrow> drop (length c - length r) c = r \<Longrightarrow>
   sh_words (take (length c - length r) c) \<noteq> None \<Longrightarrow> simple_cmd c"
  unfolding simple_cmd_def by (metis append_take_drop_id)

lemmas nm_cmd_defs = cmd_radio_on_def cmd_managed_def cmd_active_def cmd_down_def cmd_delete_conn_def cmd_rescan_def
  cmd_autoconnect_def cmd_shared_def cmd_up_def snprintf_s_def nm_names

lemma fixed_cmds_simple:
  "simple_cmd cmd_radio_on"
  "simple_cmd (cmd_managed (chr_sq # STA_IFACE @ [chr_sq]) 256)"
  "simple_cmd (cmd_managed (chr_sq # STA_IFACE @ [chr_sq]) 1400)"
  "simple_cmd (cmd_down (chr_sq # NM_AP_CONN @ [chr_sq]) 512)"
  "simple_cmd (cmd_down (chr_sq # NM_AP_CONN @ [chr_sq]) 1400)"
  "simple_cmd (cmd_down (chr_sq # NM_STA_CONN @ [chr_sq]) 1400)"
  "simple_cmd (cmd_delete_conn (chr_sq # NM_STA_CONN @ [chr_sq]) 512)"
  "simple_cmd (cmd_delete_conn (chr_sq # NM_AP_CONN @ [chr_sq]) 1400)"
  "simple_cmd (cmd_rescan (chr_sq # STA_IFACE @ [chr_sq]) 1400)"
  "simple_cmd (cmd_rescan (chr_sq # STA_IFACE @ [chr_sq]) 256)"
  "simple_cmd (cmd_autoconnect (chr_sq # NM_STA_CONN @ [chr_sq]))"
  "simple_cmd (cmd_shared (chr_sq # NM_AP_CONN @ [chr_sq]))"
  "simple_cmd (snprintf_s 128 (''command -v '' @ ''nmcli'' @ '' >/dev/null 2>&1''))"
  "simple_cmd (snprintf_s 128 (''command -v '' @ ''iw'' @ '' >/dev/null 2>&1''))"
  by ((rule simple_cmd_split [of "'' >/dev/null 2>&1''"], simp, simp add: nm_cmd_defs, simp add: nm_cmd_defs sh_eval))+

lemma captured_cmds_simple:
  "simple_cmd (cmd_up ''70'' (chr_sq # NM_STA_CONN @ [chr_sq]))"
  "simple_cmd (cmd_up ''40'' (chr_sq # NM_AP_CONN @ [chr_sq]))"
  "simple_cmd (snprintf_s 256 (''iw dev '' @ (chr_sq # STA_IFACE @ [chr_sq]) @ '' scan 2>&1''))"
  "simple_cmd (snprintf_s 256 (''iw '' @ (chr_sq # STA_IFACE @ [chr_sq]) @ '' scan 2>&1''))"
  by ((rule simple_cmd_split [of "'' 2>&1''"], simp, simp add: nm_cmd_defs, simp add: nm_cmd_defs sh_eval))+

lemma quiet_cmds_simple:
  "simple_cmd cmd_active"
  "simple_cmd (snprintf_s 256 (''ip -4 -o addr show dev '' @ (chr_sq # STA_IFACE @ [chr_sq]) @ '' scope global 2>/dev/null''))"
  by ((rule simple_cmd_split [of "'' 2>/dev/null''"], simp, simp add: nm_cmd_defs, simp add: nm_cmd_defs sh_eval))+

lemmas simple_cmds = fixed_cmds_simple captured_cmds_simple quiet_cmds_simple

lemma simple_ops [io_intros]:
  "state_io_rel (emits simple_event) (require_root_for_control os)"
  "state_io_rel (emits simple_event) (a733_read_home_wifi m n)"
  "state_io_rel (emits simple_event) (a733_mark_network_ready os mode detail)"
  "state_io_rel (emits simple_event) (a733_get_ap_credentials m n)"
  "state_io_rel (emits simple_event) (nm_connection_active os name)"
  "state_io_rel (emits simple_event) (nm_down_connection os NM_AP_CONN)"
  "state_io_rel (emits simple_event) (nm_delete_connection os NM_STA_CONN)"
  "state_io_rel (emits simple_event) (get_iface_ipv4 os k)"
  "state_io_rel (emits simple_event) (target_visible_in_scan os ssid)"
  unfolding require_root_for_control_def a733_read_home_wifi_def a733_mark_network_ready_def
    a733_get_ap_credentials_def parse_hostapd_credentials_def nm_connection_active_def
    nm_down_connection_def nm_delete_connection_def get_iface_ipv4_def target_visible_in_scan_def quoted_names option.case
  by ((intro io_intros)?; (simp only: simple_event.simps option.inject)?; rule simple_cmds TrueI)+

lemma simple_workflows [io_intros]:
  "state_io_rel (emits simple_event) (a733_wait_for_system_ready os)"
  "state_io_rel (emits simple_event) (a733_is_connected os)"
  "state_io_rel (emits simple_event) ap_credentials"
  unfolding a733_wait_for_system_ready_def a733_is_connected_def ap_credentials_def command_exists_def quoted_names option.case
  by ((intro io_intros)?; (simp only: simple_event.simps option.inject)?; rule simple_cmds)+

lemma simple_nm_connect [io_intros]:
  assumes "shell_quote s 256 = Some sq" "shell_quote p 512 = Some pq"
  shows "state_io_rel (emits simple_event)
    (nm_connect os pw sq pq (chr_sq # STA_IFACE @ [chr_sq]) (chr_sq # NM_STA_CONN @ [chr_sq]))"
  unfolding nm_connect_def
  by (intro io_intros; (simp only: simple_event.simps)?; rule simple_join_cmds [OF assms] simple_cmds)

lemma simple_await_address [io_intros]: "state_io_rel (emits simple_event) (await_address os)"
  unfolding await_address_def
  by (intro io_intros; (simp only: simple_event.simps)?)

lemma simple_ensure_ap_mode_locked [io_intros]: "state_io_rel (emits simple_event) (ensure_ap_mode_locked os)"
  unfolding ensure_ap_mode_locked_def quoted_names
  by (intro io_intros; (simp only: prod.inject option.inject)?;
      (elim conjE)?; hypsubst_thin?; (simp only: simple_event.simps)?; (rule simple_cmds simple_hotspot; assumption?)?)

lemma simple_a733_join [io_intros]: "state_io_rel (emits simple_event) (a733_join os s p)"
  unfolding a733_join_def quoted_names
  by (intro io_intros; (simp only: prod.inject option.inject)?;
      (elim conjE)?; hypsubst_thin?; (simp only: simple_event.simps)?;
      (rule simple_cmds simple_nm_connect; assumption?)?)

lemma simple_a733_entry_points [io_intros]:
  "state_io_rel (emits simple_event) (a733_run_now os ssid pwd)"
  "state_io_rel (emits simple_event) (a733_ensure_ap_mode os)"
  unfolding a733_run_now_def a733_ensure_ap_mode_def by (intro io_intros)+

lemma simple_a733_scan [io_intros]: "state_io_rel (emits simple_event) (a733_scan os)"
  unfolding a733_scan_def a733_scan_locked_def quoted_names option.case
  by (intro io_intros; (simp only: simple_event.simps)?; rule simple_cmds)

lemma simple_a733_thread: "state_io_rel (emits simple_event) (a733_switch_thread os n)"
proof -
  have "state_io_rel (emits simple_event) (a733_reconnect_monitor os k miss)" for k miss
  proof (induction k arbitrary: miss)
    case 0
    then show ?case by (simp add: emits.keep_ret)
  next
    case (Suc k)
    have "state_io_rel (emits simple_event) (a733_reconnect_step os miss)"
      unfolding a733_reconnect_step_def by (intro io_intros; simp)
    with Suc show ?case by (simp add: emits.keep_bind)
  qed
  then show ?thesis unfolding a733_switch_thread_def by (intro io_intros)
qed

section \<open>Properties of the backend\<close>

text \<open>
  Property C13. No SSID and no password can break out of a shell command.  Whatever credentials
  the phone sent, whatever is stored in the configuration files and whatever the commands
  print, every command line that a join, the access point, a scan or the boot thread with any
  number of passes of its monitor hands to the shell is one simple command made of literal
  words, followed by a fixed redirection; and the command that joins a network has the SSID
  and the password as single words of it, unchanged.
\<close>

theorem a733_no_command_injection:
  "emits simple_event w (snd (run_state (a733_run_now os ssid pwd) w)) \<and>
   emits simple_event w (snd (run_state (a733_ensure_ap_mode os) w)) \<and>
   emits simple_event w (snd (run_state (a733_scan os) w)) \<and>
   emits simple_event w (snd (run_state (a733_switch_thread os n) w)) \<and>
   (\<forall>sq pq. shell_quote s 256 = Some sq \<and> shell_quote p 512 = Some pq \<longrightarrow>
     (\<exists>base. cmd_connect p sq pq (chr_sq # STA_IFACE @ [chr_sq]) (chr_sq # NM_STA_CONN @ [chr_sq]) = base @ '' 2>&1'' \<and>
       sh_words base = Some ([''nmcli'', ''-w'', ''70'', ''device'', ''wifi'', ''connect'', s] @
         (if p = [] then [] else [''password'', p]) @ [''ifname'', STA_IFACE, ''name'', NM_STA_CONN])))"
proof (intro conjI allI impI)
  show "emits simple_event w (snd (run_state (a733_run_now os ssid pwd) w))"
    "emits simple_event w (snd (run_state (a733_ensure_ap_mode os) w))"
    "emits simple_event w (snd (run_state (a733_scan os) w))"
    "emits simple_event w (snd (run_state (a733_switch_thread os n) w))"
    by (rule keep_run, intro io_intros simple_a733_thread)+
next
  fix sq pq
  assume q: "shell_quote s 256 = Some sq \<and> shell_quote p 512 = Some pq"
  show "\<exists>base. cmd_connect p sq pq (chr_sq # STA_IFACE @ [chr_sq]) (chr_sq # NM_STA_CONN @ [chr_sq]) = base @ '' 2>&1'' \<and>
       sh_words base = Some ([''nmcli'', ''-w'', ''70'', ''device'', ''wifi'', ''connect'', s] @
         (if p = [] then [] else [''password'', p]) @ [''ifname'', STA_IFACE, ''name'', NM_STA_CONN])"
    unfolding cmds_fit(1) [OF conjunct1 [OF q] conjunct2 [OF q]]
    by (rule exI, rule conjI, rule refl)
       (simp only: words_connect [OF conjunct1 [OF q] conjunct2 [OF q]] split: if_split, simp)
qed

theorem a733_no_command_injection_witness:
  "\<exists>base. cmd_connect ''12345678'' (chr_sq # ''a; reboot'' @ [chr_sq]) (chr_sq # ''12345678'' @ [chr_sq])
      (chr_sq # STA_IFACE @ [chr_sq]) (chr_sq # NM_STA_CONN @ [chr_sq]) = base @ '' 2>&1'' \<and>
    sh_words base = Some ([''nmcli'', ''-w'', ''70'', ''device'', ''wifi'', ''connect'', ''a; reboot'', ''password'', ''12345678'',
      ''ifname'', STA_IFACE, ''name'', NM_STA_CONN])"
proof -
  have q: "shell_quote ''a; reboot'' 256 = Some (chr_sq # ''a; reboot'' @ [chr_sq]) \<and>
      shell_quote ''12345678'' 512 = Some (chr_sq # ''12345678'' @ [chr_sq])"
    by (simp add: shell_quote_def)
  from a733_no_command_injection [where s = "''a; reboot''" and p = "''12345678''", THEN conjunct2, THEN conjunct2,
      THEN conjunct2, THEN conjunct2, rule_format, OF q]
  show ?thesis by simp
qed

lemma a733_not_busy:
  assumes "\<not> w_mutex w"
  shows "fst (run_state (a733_run_now os ssid pwd) w) \<noteq> WIFI_SWITCH_ERR_BUSY"
    and "fst (run_state (a733_ensure_ap_mode os) w) \<noteq> WIFI_SWITCH_ERR_BUSY"
proof -
  have ap: "returns (\<lambda>st. st \<noteq> WIFI_SWITCH_ERR_BUSY) (ensure_ap_mode_locked os)"
    unfolding ensure_ap_mode_locked_def by (rule returns_rules | simp)+
  have join: "returns (\<lambda>st. st \<noteq> WIFI_SWITCH_ERR_BUSY) (a733_join os s p)" for s p
    unfolding a733_join_def by (rule returns_rules | simp add: nm_failure_status_def)+
  show "fst (run_state (a733_run_now os ssid pwd) w) \<noteq> WIFI_SWITCH_ERR_BUSY"
    using assms by (auto simp: a733_run_now_def require_root_for_control_def c_trylock_def c_unlock_def
        dest: returnsD [OF join] split: prod.splits option.splits)
  show "fst (run_state (a733_ensure_ap_mode os) w) \<noteq> WIFI_SWITCH_ERR_BUSY"
    using assms by (auto simp: a733_ensure_ap_mode_def require_root_for_control_def c_trylock_def c_unlock_def
        dest: returnsD [OF ap] split: prod.splits)
qed

text \<open>
  Property C15. Privileges and exclusion on the A733 board.  Without root privileges a join, the
  access point and the boot thread do nothing at all; while another switch holds the mutex
  the entry points answer BUSY, or no scan, at once and without any effect; the mutex is
  afterwards as it was before, on every path of every entry point and of the boot thread with
  any number of passes of its monitor; BUSY is never answered when the mutex was free.
\<close>

theorem a733_switch_discipline:
  "(os_geteuid os (w_env w) \<noteq> 0 \<longrightarrow>
      run_state (a733_run_now os ssid pwd) w = (WIFI_SWITCH_ERR_UNKNOWN, w) \<and>
      run_state (a733_ensure_ap_mode os) w = (WIFI_SWITCH_ERR_UNKNOWN, w) \<and>
      run_state (a733_switch_thread os n) w = ((), w)) \<and>
   (os_geteuid os (w_env w) = 0 \<and> w_mutex w \<longrightarrow>
      run_state (a733_run_now os ssid pwd) w = (WIFI_SWITCH_ERR_BUSY, w) \<and>
      run_state (a733_ensure_ap_mode os) w = (WIFI_SWITCH_ERR_BUSY, w)) \<and>
   (w_mutex w \<longrightarrow> run_state (a733_scan os) w = (None, w)) \<and>
   same_mutex w (snd (run_state (a733_run_now os ssid pwd) w)) \<and>
   same_mutex w (snd (run_state (a733_ensure_ap_mode os) w)) \<and>
   same_mutex w (snd (run_state (a733_scan os) w)) \<and>
   same_mutex w (snd (run_state (a733_switch_thread os n) w)) \<and>
   (\<not> w_mutex w \<longrightarrow> fst (run_state (a733_run_now os ssid pwd) w) \<noteq> WIFI_SWITCH_ERR_BUSY \<and>
      fst (run_state (a733_ensure_ap_mode os) w) \<noteq> WIFI_SWITCH_ERR_BUSY)"
proof (intro conjI impI)
  show "same_mutex w (snd (run_state (a733_run_now os ssid pwd) w))"
    "same_mutex w (snd (run_state (a733_ensure_ap_mode os) w))" "same_mutex w (snd (run_state (a733_scan os) w))"
    "same_mutex w (snd (run_state (a733_switch_thread os n) w))"
    by (rule keep_run, intro io_intros mutex_a733_thread)+
  show "\<not> w_mutex w \<Longrightarrow> fst (run_state (a733_run_now os ssid pwd) w) \<noteq> WIFI_SWITCH_ERR_BUSY"
    "\<not> w_mutex w \<Longrightarrow> fst (run_state (a733_ensure_ap_mode os) w) \<noteq> WIFI_SWITCH_ERR_BUSY"
    by (simp_all add: a733_not_busy)
qed (simp_all add: a733_run_now_def a733_ensure_ap_mode_def a733_switch_thread_def a733_scan_def
    require_root_for_control_def c_trylock_def)

theorem a733_switch_discipline_witness:
  "\<not> w_mutex (snd (run_state (a733_run_now (ok_os (\<lambda>_. [])) (Some ''home'') None) (world0 (\<lambda>_. None)))) \<and>
   fst (run_state (a733_run_now (ok_os (\<lambda>_. [])) (Some ''home'') None) (world0 (\<lambda>_. None))) \<noteq> WIFI_SWITCH_ERR_BUSY"
  using a733_switch_discipline [of "ok_os (\<lambda>_. [])" "world0 (\<lambda>_. None)" "Some ''home''" None]
  by (simp add: world0_def same_mutex_def)

text \<open>
  A program that ends in one of three ways: with success, without having touched the two
  connections of the service, or with a run of \<open>ensure_ap_mode_locked\<close> as its last action.
\<close>

definition touches :: "event \<Rightarrow> bool" where
  "touches ev \<longleftrightarrow> ev = Ev_system (cmd_down (chr_sq # NM_AP_CONN @ [chr_sq]) 512) \<or>
     ev = Ev_system (cmd_delete_conn (chr_sq # NM_STA_CONN @ [chr_sq]) 512)"

definition ap_last :: "'e os \<Rightarrow> 'e world \<Rightarrow> wifi_switch_status \<times> 'e world \<Rightarrow> bool" where
  "ap_last os w r \<longleftrightarrow> fst r = WIFI_SWITCH_OK \<or> emits (\<lambda>ev. \<not> touches ev) w (snd r) \<or>
     (\<exists>w1 st es. w_events w1 = w_events w @ es \<and> filter touches es \<noteq> [] \<and>
        run_state (ensure_ap_mode_locked os) w1 = (st, snd r))"

lemma untouched_ready: "state_io_rel (emits (\<lambda>ev. \<not> touches ev)) (a733_wait_for_system_ready os)"
  unfolding a733_wait_for_system_ready_def command_exists_def quoted_names option.case
  by (intro io_intros; simp add: touches_def nm_cmd_defs)

text \<open>The part of the join before its result is known takes the access point down.\<close>

definition join_attempt :: "'e os \<Rightarrow> string \<Rightarrow> string \<Rightarrow> string \<Rightarrow> string \<Rightarrow> ('e, int \<times> string) io" where
  "join_attempt os use_ssid use_pwd ssidq pwdq = do {
     _ \<leftarrow> exec_cmd os (cmd_down (chr_sq # NM_AP_CONN @ [chr_sq]) 512);
     _ \<leftarrow> nm_delete_connection os NM_STA_CONN;
     _ \<leftarrow> exec_cmd os (cmd_rescan (chr_sq # STA_IFACE @ [chr_sq]) 1400);
     _ \<leftarrow> c_sleep os 1;
     _ \<leftarrow> target_visible_in_scan os use_ssid;
     nm_connect os use_pwd ssidq pwdq (chr_sq # STA_IFACE @ [chr_sq]) (chr_sq # NM_STA_CONN @ [chr_sq]) }"

lemma marked_any: "state_io_rel (emits (\<lambda>_. True)) m \<Longrightarrow> marked mark (\<lambda>_ _. True) m"
  by (auto simp: marked_def state_io_rel_def emits_def)

lemma join_attempt_touches: "marked touches (\<lambda>_ es. es \<noteq> []) (join_attempt os s p sq pq)"
proof -
  have [simp]: "(\<lambda>r es. Ev_system c # es \<noteq> []) = (\<lambda>_ _. True)" for c by simp
  show ?thesis
    unfolding join_attempt_def nm_delete_connection_def target_visible_in_scan_def nm_connect_def quoted_names
      option.case
    by (rule marked_cmd, simp add: touches_def, simp only: list.distinct simp_thms,
        rule marked_any, intro io_intros TrueI)
qed

lemma grows_await: "state_io_rel (emits (\<lambda>_. True)) (do { _ \<leftarrow> exec_cmd os c; await_address os })"
  unfolding await_address_def a733_is_connected_def nm_connection_active_def get_iface_ipv4_def quoted_names
    option.case a733_mark_network_ready_def
  by (intro io_intros TrueI)

lemma a733_join_ap_last: "ap_last os w (run_state (a733_join os s p) w)"
proof -
  obtain ready v where r: "run_state (a733_wait_for_system_ready os) w = (ready, v)"
    by (cases "run_state (a733_wait_for_system_ready os) w")
  then have u: "emits (\<lambda>ev. \<not> touches ev) w v" using keep_run [OF untouched_ready, of w os] by simp
  then obtain es0 where es0: "w_events v = w_events w @ es0" by (auto simp: emits_def)
  show ?thesis
  proof (cases "ready = 0 \<and> shell_quote s 256 \<noteq> None \<and> shell_quote p 512 \<noteq> None")
    case False
    then show ?thesis using u by (auto simp: a733_join_def r ap_last_def split: option.split)
  next
    case True
    then obtain sq pq where q: "shell_quote s 256 = Some sq" "shell_quote p 512 = Some pq" by blast
    let ?c = "exec_cmd os (cmd_autoconnect (chr_sq # NM_STA_CONN @ [chr_sq]))"
    obtain x w1 where a: "run_state (join_attempt os s p sq pq) v = (x, w1)" by fastforce
    obtain es where es: "w_events w1 = w_events v @ es" "filter touches es \<noteq> []"
      using join_attempt_touches a by (rule markedE)
    obtain up w2 where b: "run_state (do { _ \<leftarrow> ?c; await_address os }) w1 = (up, w2)" by fastforce
    obtain es' where es': "w_events w2 = w_events w1 @ es'"
      using keep_run [OF grows_await, of w1] unfolding emits_def by (metis b snd_conv)
    have "run_state (a733_join os s p) w =
      (if fst x \<noteq> 0 then (nm_failure_status (snd x), snd (run_state (ensure_ap_mode_locked os) w1))
       else case up of Some _ \<Rightarrow> (WIFI_SWITCH_OK, w2)
         | None \<Rightarrow> (WIFI_SWITCH_ERR_CONNECT_FAIL, snd (run_state (ensure_ap_mode_locked os) w2)))"
      using True q r a b
      by (auto simp: a733_join_def join_attempt_def nm_down_connection_def split: prod.splits option.splits)
    then show ?thesis
      using es0 es es' unfolding ap_last_def
      by (auto split: option.split)
         (metis append_assoc append_is_Nil_conv filter_append prod.collapse)+
  qed
qed

text \<open>The commands that change connections while the access point is set up, and their order.\<close>

definition hotspot_mark :: "event \<Rightarrow> bool" where
  "hotspot_mark ev = (case ev of
     Ev_system c \<Rightarrow> starts_with c ''nmcli -w 10 connection'' \<or> starts_with c ''nmcli connection''
   | Ev_popen c \<Rightarrow> starts_with c ''nmcli -w 40''
   | _ \<Rightarrow> False)"

definition hotspot_trace :: "string \<Rightarrow> string \<Rightarrow> event list" where
  "hotspot_trace ssidq pwdq = (let staq = chr_sq # NM_STA_CONN @ [chr_sq]; apq = chr_sq # NM_AP_CONN @ [chr_sq] in
     [Ev_system (cmd_down staq 1400), Ev_system (cmd_down apq 1400), Ev_system (cmd_delete_conn apq 1400),
      Ev_popen (cmd_hotspot (chr_sq # STA_IFACE @ [chr_sq]) apq ssidq pwdq), Ev_system (cmd_shared apq),
      Ev_system (cmd_down apq 1400), Ev_popen (cmd_up ''40'' apq)])"

text \<open>
  What a run of \<^verbatim>\<open>ensure_ap_mode_locked\<close> from \<open>w\<close> answers and issues.  When the board is ready and
  the credentials of the access point can be quoted, the hotspot is asked for with them; the
  rest of the sequence follows unless that command fails, and the answer is OK only at its end.
  Otherwise nothing is issued and the answer is UNKNOWN.
\<close>

definition hotspot_result :: "'e os \<Rightarrow> 'e world \<Rightarrow> wifi_switch_status \<Rightarrow> event list \<Rightarrow> bool" where
  "hotspot_result os w r es =
     (let (ready, v) = run_state (a733_wait_for_system_ready os) w;
          (s, p) = fst (run_state ap_credentials v)
      in if ready = 0 \<and> shell_quote s 256 \<noteq> None \<and> shell_quote p 256 \<noteq> None
         then let trace = hotspot_trace (the (shell_quote s 256)) (the (shell_quote p 256))
              in r = WIFI_SWITCH_OK \<and> es = trace \<or>
                 r = WIFI_SWITCH_ERR_CONNECT_FAIL \<and> (es = trace \<or> es = take 4 trace)
         else r = WIFI_SWITCH_ERR_UNKNOWN \<and> es = [])"

lemma hotspot_marks:
  "hotspot_mark (Ev_system (cmd_down (chr_sq # NM_AP_CONN @ [chr_sq]) 1400))"
  "hotspot_mark (Ev_system (cmd_down (chr_sq # NM_STA_CONN @ [chr_sq]) 1400))"
  "hotspot_mark (Ev_system (cmd_delete_conn (chr_sq # NM_AP_CONN @ [chr_sq]) 1400))"
  "hotspot_mark (Ev_system (cmd_shared (chr_sq # NM_AP_CONN @ [chr_sq])))"
  "hotspot_mark (Ev_popen (cmd_up ''40'' (chr_sq # NM_AP_CONN @ [chr_sq])))"
  "hotspot_mark (Ev_popen (cmd_hotspot (chr_sq # STA_IFACE @ [chr_sq]) (chr_sq # NM_AP_CONN @ [chr_sq]) sq pq))"
  by (simp_all add: hotspot_mark_def nm_cmd_defs cmd_hotspot_def starts_with_def)

lemma hotspot_unmarked:
  "state_io_rel (emits (\<lambda>ev. \<not> hotspot_mark ev)) (a733_wait_for_system_ready os)"
  "state_io_rel (emits (\<lambda>ev. \<not> hotspot_mark ev)) ap_credentials"
  "state_io_rel (emits (\<lambda>ev. \<not> hotspot_mark ev)) (a733_mark_network_ready os mode detail)"
  "state_io_rel (emits (\<lambda>ev. \<not> hotspot_mark ev)) (exec_cmd os cmd_radio_on)"
  "state_io_rel (emits (\<lambda>ev. \<not> hotspot_mark ev)) (exec_cmd os (cmd_managed (chr_sq # STA_IFACE @ [chr_sq]) 1400))"
  unfolding a733_wait_for_system_ready_def command_exists_def ap_credentials_def a733_get_ap_credentials_def
    parse_hostapd_credentials_def a733_mark_network_ready_def quoted_names option.case
  by ((intro io_intros)?; simp add: hotspot_mark_def nm_cmd_defs starts_with_def)+

definition hotspot_setup :: "'e os \<Rightarrow> string \<Rightarrow> string \<Rightarrow> ('e, wifi_switch_status) io" where
  "hotspot_setup os ssidq pwdq = (let staq = chr_sq # NM_STA_CONN @ [chr_sq];
       apq = chr_sq # NM_AP_CONN @ [chr_sq]; ifq = chr_sq # STA_IFACE @ [chr_sq] in do {
     _ \<leftarrow> exec_cmd os (cmd_down staq 1400);
     _ \<leftarrow> exec_cmd os (cmd_down apq 1400);
     _ \<leftarrow> exec_cmd os (cmd_delete_conn apq 1400);
     _ \<leftarrow> exec_cmd os cmd_radio_on;
     _ \<leftarrow> exec_cmd os (cmd_managed ifq 1400);
     r \<leftarrow> exec_capture os (cmd_hotspot ifq apq ssidq pwdq) 4096;
     if fst r \<noteq> 0 then ret WIFI_SWITCH_ERR_CONNECT_FAIL
     else do {
       _ \<leftarrow> exec_cmd os (cmd_shared apq);
       _ \<leftarrow> exec_cmd os (cmd_down apq 1400);
       r \<leftarrow> exec_capture os (cmd_up ''40'' apq) 4096;
       if fst r \<noteq> 0 then ret WIFI_SWITCH_ERR_CONNECT_FAIL
       else do {
         _ \<leftarrow> a733_mark_network_ready os (Some ''AP'') (Some AP_ADDR);
         ret WIFI_SWITCH_OK } } })"

lemma marked_hotspot_setup:
  "marked hotspot_mark (\<lambda>r es. r = WIFI_SWITCH_OK \<and> es = hotspot_trace sq pq \<or>
      r = WIFI_SWITCH_ERR_CONNECT_FAIL \<and> (es = hotspot_trace sq pq \<or> es = take 4 (hotspot_trace sq pq)))
    (hotspot_setup os sq pq)"
  unfolding hotspot_setup_def Let_def
  by ((rule marked_cmd, rule hotspot_marks)
      | (rule marked_capture, rule hotspot_marks, simp)
      | rule marked_if marked_ret
      | (rule marked_skip, rule hotspot_unmarked)
      | (simp add: hotspot_trace_def Let_def; fail))+

lemma ensure_ap_mode_locked_result:
  assumes "run_state (ensure_ap_mode_locked os) w = (r, w')"
  obtains es where "w_events w' = w_events w @ es" and "hotspot_result os w r (filter hotspot_mark es)"
proof -
  obtain ready v where v: "run_state (a733_wait_for_system_ready os) w = (ready, v)"
    by (cases "run_state (a733_wait_for_system_ready os) w")
  obtain s p v' where c: "run_state ap_credentials v = ((s, p), v')" by (metis surj_pair)
  obtain es1 where es1: "w_events v = w_events w @ es1" "filter hotspot_mark es1 = []"
    using keep_run [OF hotspot_unmarked(1), of w os] v by (auto simp: emits_def list_all_iff filter_empty_conv)
  obtain es2 where es2: "w_events v' = w_events v @ es2" "filter hotspot_mark es2 = []"
    using keep_run [OF hotspot_unmarked(2), of v] c by (auto simp: emits_def list_all_iff filter_empty_conv)
  show thesis
  proof (cases "ready = 0 \<and> shell_quote s 256 \<noteq> None \<and> shell_quote p 256 \<noteq> None")
    case False
    then have "r = WIFI_SWITCH_ERR_UNKNOWN \<and> w' = (if ready = 0 then v' else v)"
      using assms v c by (auto simp: ensure_ap_mode_locked_def split: option.splits)
    with False show thesis
      using es1 es2 v c that [of "if ready = 0 then es1 @ es2 else es1"] by (auto simp: hotspot_result_def)
  next
    case True
    then obtain sq pq where q: "shell_quote s 256 = Some sq" "shell_quote p 256 = Some pq" by blast
    have "run_state (hotspot_setup os sq pq) v' = (r, w')"
      using assms v c q True by (simp add: ensure_ap_mode_locked_def hotspot_setup_def Let_def)
    with marked_hotspot_setup obtain es3 where "w_events w' = w_events v' @ es3"
      "r = WIFI_SWITCH_OK \<and> filter hotspot_mark es3 = hotspot_trace sq pq \<or>
       r = WIFI_SWITCH_ERR_CONNECT_FAIL \<and> (filter hotspot_mark es3 = hotspot_trace sq pq \<or>
         filter hotspot_mark es3 = take 4 (hotspot_trace sq pq))"
      by (rule markedE)
    then show thesis
      using True q v c es1 es2 that [of "es1 @ es2 @ es3"] by (auto simp: hotspot_result_def Let_def)
  qed
qed

lemma untouched_read_home_wifi: "state_io_rel (emits (\<lambda>ev. \<not> touches ev)) (a733_read_home_wifi m n)"
  unfolding a733_read_home_wifi_def by (intro io_intros)

lemma emits_mutex_irrelevant [simp]:
  "emits P (w\<lparr>w_mutex := b\<rparr>) w' \<longleftrightarrow> emits P w w'" "emits P w (w'\<lparr>w_mutex := b\<rparr>) \<longleftrightarrow> emits P w w'"
  by (simp_all add: emits_def)

lemma a733_run_now_cases:
  assumes "run_state (a733_run_now os ssid pwd) w = (st, w')"
  shows "emits (\<lambda>ev. \<not> touches ev) w w' \<or>
    (\<exists>s p w1 w2. emits (\<lambda>ev. \<not> touches ev) w w1 \<and> run_state (a733_join os s p) w1 = (st, w2) \<and>
       w' = w2\<lparr>w_mutex := False\<rparr>)"
proof (cases "os_geteuid os (w_env w) = 0 \<and> \<not> w_mutex w")
  case False
  then have "w' = w"
    using assms by (auto simp: a733_run_now_def require_root_for_control_def c_trylock_def split: if_splits)
  then show ?thesis by (simp add: emits.R_refl)
next
  case True
  let ?creds = "case ssid of Some (c # cs) \<Rightarrow> ret (Some (c # cs, case pwd of Some p \<Rightarrow> p | None \<Rightarrow> []))
    | _ \<Rightarrow> a733_read_home_wifi (A733_SSID_MAX + 1) (A733_PASSWD_MAX + 1)"
  obtain creds w1 where c: "run_state ?creds (w\<lparr>w_mutex := True\<rparr>) = (creds, w1)" by (rule prod.exhaust)
  have "state_io_rel (emits (\<lambda>ev. \<not> touches ev)) ?creds"
    by (intro io_intros untouched_read_home_wifi)
  from keep_run [OF this, of "w\<lparr>w_mutex := True\<rparr>"] have u: "emits (\<lambda>ev. \<not> touches ev) w w1" by (simp add: c)
  show ?thesis
  proof (cases creds)
    case None
    with assms True c u show ?thesis
      by (auto simp: a733_run_now_def require_root_for_control_def c_trylock_def c_unlock_def)
  next
    case (Some sp)
    obtain s p where sp: "sp = (s, p)" by (cases sp)
    obtain w2 where "run_state (a733_join os s p) w1 = (st, w2)" "w' = w2\<lparr>w_mutex := False\<rparr>"
      using assms True c Some sp
      by (auto simp: a733_run_now_def require_root_for_control_def c_trylock_def c_unlock_def split: prod.splits)
    with u show ?thesis by blast
  qed
qed


text \<open>An environment in which every captured command fails: no network can be joined.\<close>

definition failing_os :: "unit os" where
  "failing_os = (ok_os (\<lambda>_. []))\<lparr>os_popen := (\<lambda>c x. (Some ([], Exited 1), x))\<rparr>"

lemma failing_os_runs [simp]:
  "run_state (exec_cmd failing_os c) w = (0, emit (Ev_system c) w)"
  "run_state (exec_capture failing_os c n) w = (if n = 0 then ((-1, []), w) else ((1, []), emit (Ev_popen c) w))"
  "run_state (c_sleep failing_os k) w = ((), emit (Ev_usleep (k * 1000000)) w)"
  "os_geteuid failing_os e = 0"
  by (simp_all add: failing_os_def exec_cmd_def exec_capture_def c_system_def c_popen_def c_usleep_def c_sleep_def ok_os_def cstr_def)


section \<open>Credentials: written, then read back\<close>

lemma run_a733_atomic_write_file:
  assumes "run_state (a733_atomic_write_file os p data) w = (0, w')"
  shows "w_files w' p = Some data"
  using assms by (auto simp: a733_atomic_write_file_def Let_def os_call_defs split: prod.splits if_splits)

lemma a733_home_wifi_lines:
  "a733_home_wifi_line m n (CHR ''#'' # c) acc = acc"
  "a733_home_wifi_line m n (''HOME_SSID='' @ [chr_dq] @ v @ [chr_dq]) (s, p, g) =
     (snprintf_s m v, p, snprintf_s m v \<noteq> [])"
  "a733_home_wifi_line m n (''HOME_PASSWORD='' @ [chr_dq] @ v @ [chr_dq]) (s, p, g) = (s, snprintf_s n v, g)"
  by (simp_all add: a733_home_wifi_line_def a733_strip_quotes_def a733_lstrip_def a733_rstrip_def isspace_def Let_def
      split: prod.split)

lemma strtok_a733_home_wifi_body:
  assumes "chr_nl \<notin> set ssid" and "chr_nl \<notin> set pwd"
  shows "strtok_nl (a733_home_wifi_body ssid pwd) =
    [''# Managed by system_service; rewritten when BLE provisioning succeeds.'',
     ''HOME_SSID='' @ [chr_dq] @ ssid @ [chr_dq], ''HOME_PASSWORD='' @ [chr_dq] @ pwd @ [chr_dq]]"
  unfolding a733_home_wifi_body_def by (rule strtok_nl_render) (use assms in auto)

lemma run_a733_read_home_wifi:
  assumes "w_files w HOME_WIFI_CONF = Some (a733_home_wifi_body s p)" "length (a733_home_wifi_body s p) < 512"
    and "line_text s" "line_text p" "s \<noteq> []" "length s < m" "length p < n"
  shows "run_state (a733_read_home_wifi m n) w = (Some (s, p), w)"
proof -
  have nul: "chr_nul \<notin> set (a733_home_wifi_body s p)"
    using assms(3,4) by (simp add: a733_home_wifi_body_def render_lines_def line_text_def)
  have "fold (a733_home_wifi_line m n) (strtok_nl (a733_home_wifi_body s p)) ([], [], False) = (s, p, True)"
    using assms(3-) strtok_a733_home_wifi_body [of s p]
    by (simp add: line_text_def a733_home_wifi_lines [simplified])
  with assms nul show ?thesis by (simp add: a733_read_home_wifi_def run_read_file_all)
qed

lemma a733_persist_ok:
  assumes "run_state (a733_persist_home_wifi os (Some s) (Some p)) w = (0, w')"
  shows "w_files w' HOME_WIFI_CONF = Some (a733_home_wifi_body s p)" "length (a733_home_wifi_body s p) < 512" "s \<noteq> []"
proof -
  let ?b = "a733_home_wifi_body s p"
  obtain r v where a: "run_state (a733_atomic_write_file os HOME_WIFI_CONF ?b) w = (r, v)"
    by (cases "run_state (a733_atomic_write_file os HOME_WIFI_CONF ?b) w")
  have "r = 0 \<and> v = w' \<and> length ?b < 512 \<and> s \<noteq> []"
    using assms a by (auto simp: a733_persist_home_wifi_def Let_def split: if_splits)
  then show "w_files w' HOME_WIFI_CONF = Some ?b" "length ?b < 512" "s \<noteq> []"
    using run_a733_atomic_write_file [of os HOME_WIFI_CONF ?b w w'] a by auto
qed

definition a733_stored :: "'e world \<Rightarrow> (string \<times> string) option" where
  "a733_stored w = fst (run_state (a733_read_home_wifi (A733_SSID_MAX + 1) (A733_PASSWD_MAX + 1)) w)"

interpretation a733_store: credential_store "a733_ops os" a733_stored for os
proof unfold_locales
  fix s p and w w' :: "'a world"
  assume "wo_persist (a733_ops os) s p w = (0, w')"
  then have "run_state (a733_persist_home_wifi os (Some s) (Some p)) w = (0, w')" by (simp add: a733_ops_def)
  note ok = a733_persist_ok [OF this]
  then show "s \<noteq> []" by simp
  show "a733_stored w' = Some (s, p)" if "line_text s" "line_text p" "length s \<le> 32" "length p \<le> 63"
    using ok that run_a733_read_home_wifi [of w' s p 33 64]
    by (simp add: a733_stored_def A733_SSID_MAX_def A733_PASSWD_MAX_def)
qed

text \<open>
  The reason reported for a failed join is read off the text \<^verbatim>\<open>nmcli\<close> printed, in which the SSID
  appears: for a network that is called \<open>secret\<close> the message that it was not found counts as
  a wrong password.
\<close>

theorem a733_ssid_taken_for_reason:
  "nm_failure_status (''Error: No network with SSID '' @ chr_sq # ''lab'' @ chr_sq # '' found.'') = WIFI_SWITCH_ERR_NO_SSID \<and>
   nm_failure_status (''Error: No network with SSID '' @ chr_sq # ''secret'' @ chr_sq # '' found.'') = WIFI_SWITCH_ERR_BAD_PASSWORD"
  by code_simp

end
