(* ===== verification/Boards.thy ===== *)
theory Boards
  imports WifiA733
begin

text \<open>
  The two builds of \<^verbatim>\<open>system_service\<close>.  The makefile links one of the two implementations of
  \<^verbatim>\<open>wifi_switch.h\<close>, chosen by \<^verbatim>\<open>TARGET_PLATFORM\<close>; the protocol layer above is the same, so
  everything it relies on is shown here for whichever backend is linked.
\<close>

datatype board = RK3566 | A733

definition linked_ops :: "board \<Rightarrow> 'e os \<Rightarrow> 'e world wifi_ops" where
  "linked_ops b os = (case b of RK3566 \<Rightarrow> rk3566_ops os | A733 \<Rightarrow> a733_ops os)"

text \<open>What the boot thread of the board reads from \<^verbatim>\<open>/etc/taishan_home_wifi.conf\<close>.\<close>

definition linked_stored :: "board \<Rightarrow> 'e world \<Rightarrow> (string \<times> string) option" where
  "linked_stored b w = (case b of RK3566 \<Rightarrow> rk3566_stored w | A733 \<Rightarrow> a733_stored w)"

interpretation linked: credential_store "linked_ops b os" "linked_stored b" for b os
  using rk3566_store.credential_store_axioms a733_store.credential_store_axioms
  unfolding linked_ops_def linked_stored_def by (cases b) simp_all

end
