(* ===== verification/TimeSync.thy ===== *)
theory TimeSync
  imports SockWorld Boards
begin

text \<open>
  Time synchronisation, \<^verbatim>\<open>time_sync.c\<close> (and its older copy \<^verbatim>\<open>myapp/main.c\<close>): switching the time
  zone, probing whether the Internet is reachable, asking NTP servers and storing the time in
  the hardware clock.  The endless loop is its body, iterated.  The lemmas show that
  \<^verbatim>\<open>/etc/localtime\<close> is replaced atomically, that the probe closes every socket it opens, says
  exactly whether a connection came about and waits at most nine seconds, and that the hardware
  clock is written exactly after a successful NTP run.
\<close>

section \<open>Definitions\<close>

definition set_system_timezone :: "'e sock_os \<Rightarrow> string \<Rightarrow> ('e, int) sio" where
  "set_system_timezone so tz_name =
     (let zonepath = snprintf_s 256 (''/usr/share/zoneinfo/'' @ tz_name) in do {
        found \<leftarrow> k_access so zonepath;
        if \<not> found then ret (-1)
        else do {
          _ \<leftarrow> k_unlink so ''/etc/localtime.new'';
          linked \<leftarrow> k_symlink so zonepath ''/etc/localtime.new'';
          if \<not> linked then ret (-1)
          else do {
            renamed \<leftarrow> k_rename so ''/etc/localtime.new'' ''/etc/localtime'';
            if \<not> renamed then do { _ \<leftarrow> k_unlink so ''/etc/localtime.new''; ret (-1) }
            else do {
              _ \<leftarrow> k_write_text so ''/etc/timezone'' (tz_name @ [chr_nl]);
              _ \<leftarrow> k_setenv ''TZ'' tz_name;
              ret 0 } } } })"

text \<open>One host of the probe: \<open>Some 1\<close> returns from the function, \<open>None\<close> goes on with the next.\<close>

definition probe_host :: "'e sock_os \<Rightarrow> string \<Rightarrow> ('e, int option) sio" where
  "probe_host so host = do {
     sock \<leftarrow> k_socket so;
     if sock < 0 then ret None
     else do {
       _ \<leftarrow> k_nonblock sock;
       r \<leftarrow> k_connect so sock host 53;
       if r = Conn_ok then do { _ \<leftarrow> k_close sock; ret (Some 1) }
       else if r \<noteq> Conn_in_progress then do { _ \<leftarrow> k_close sock; ret None }
       else do {
         n \<leftarrow> k_select so sock 3;
         if n \<le> 0 then do { _ \<leftarrow> k_close sock; ret None }
         else do {
           err \<leftarrow> k_sockerr so sock;
           if err = Some 0 then do { _ \<leftarrow> k_close sock; ret (Some 1) }
           else do { _ \<leftarrow> k_close sock; ret None } } } } }"

primrec probe_hosts :: "'e sock_os \<Rightarrow> string list \<Rightarrow> ('e, int) sio" where
  "probe_hosts so [] = ret 0"
| "probe_hosts so (h # hs) = do {
     r \<leftarrow> probe_host so h;
     case r of Some x \<Rightarrow> ret x | None \<Rightarrow> probe_hosts so hs }"

definition probe_list :: "string list" where
  "probe_list = [''223.5.5.5'', ''119.29.29.29'', ''114.114.114.114'']"

definition check_internet :: "'e sock_os \<Rightarrow> ('e, int) sio" where
  "check_internet so = probe_hosts so probe_list"

definition ntp_cmds :: "string list" where
  "ntp_cmds = [''ntpd -g -q -n -p ntp.aliyun.com -p ntp1.aliyun.com >/dev/null 2>&1'',
     ''ntpd -g -q -n -p cn.pool.ntp.org >/dev/null 2>&1'',
     ''ntpd -g -q -n -p pool.ntp.org >/dev/null 2>&1'']"

primrec try_cmds :: "'e sock_os \<Rightarrow> string list \<Rightarrow> ('e, int) sio" where
  "try_cmds so [] = ret (-1)"
| "try_cmds so (c # cs) = do {
     st \<leftarrow> k_system so c;
     if st = Exited 0 then ret 0 else try_cmds so cs }"

definition sync_time_from_ntp :: "'e sock_os \<Rightarrow> ('e, int) sio" where
  "sync_time_from_ntp so = do {
     _ \<leftarrow> k_system so ''killall -q ntpd'';
     _ \<leftarrow> k_usleep so 100000;
     try_cmds so ntp_cmds }"

definition cmd_hwclock :: string where "cmd_hwclock = ''hwclock -w >/dev/null 2>&1''"

text \<open>The body of the loop.\<close>

definition time_sync_pass :: "'e sock_os \<Rightarrow> ('e, unit) sio" where
  "time_sync_pass so = do {
     up \<leftarrow> check_internet so;
     _ \<leftarrow> (if up = 0 then ret ()
          else do {
            rc \<leftarrow> sync_time_from_ntp so;
            if rc = 0 then do { _ \<leftarrow> k_system so cmd_hwclock; ret () } else ret () });
     k_usleep so (30 * 1000000) }"

primrec time_sync_loop :: "'e sock_os \<Rightarrow> nat \<Rightarrow> ('e, unit) sio" where
  "time_sync_loop so 0 = ret ()"
| "time_sync_loop so (Suc n) = do { _ \<leftarrow> time_sync_pass so; time_sync_loop so n }"

text \<open>The thread with the first \<open>n\<close> passes of its loop; \<open>False\<close> when it ends at once.\<close>

definition time_sync_thread :: "'e sock_os \<Rightarrow> board \<Rightarrow> nat \<Rightarrow> ('e, bool) sio" where
  "time_sync_thread so bd n = do {
     euid \<leftarrow> gets (\<lambda>w. so_euid so (k_env w));
     if bd = A733 \<and> euid \<noteq> 0 then ret False
     else do {
       _ \<leftarrow> set_system_timezone so ''Asia/Shanghai'';
       _ \<leftarrow> time_sync_loop so n;
       ret True } }"

section \<open>The probe\<close>

text \<open>An event that says a connection came about; a wait for one.\<close>

fun connected_event :: "sock_event \<Rightarrow> bool" where
  "connected_event (Sk_connect fd h p r) \<longleftrightarrow> r = Conn_ok"
| "connected_event (Sk_sockerr fd r) \<longleftrightarrow> r = Some 0"
| "connected_event _ \<longleftrightarrow> False"

fun wait_secs :: "sock_event \<Rightarrow> nat" where
  "wait_secs (Sk_select fd n r) = n"
| "wait_secs _ = 0"

definition host_ok :: "sock_event \<Rightarrow> bool" where
  "host_ok e \<longleftrightarrow> (\<forall>fd h p r. e = Sk_connect fd h p r \<longrightarrow> h \<in> set probe_list \<and> p = 53)"

lemma probe_host_trace:
  assumes "run_state (probe_host so host) w = (r, w')"
  shows "\<exists>es. k_events w' = k_events w @ es \<and> keeps_open w w' \<and> k_nodes w' = k_nodes w \<and>
    (r = Some 1 \<and> list_ex connected_event es \<or> r = None \<and> \<not> list_ex connected_event es) \<and>
    sum_list (map wait_secs es) \<le> 3 \<and> (host \<in> set probe_list \<longrightarrow> list_all host_ok es)"
proof -
  obtain sock e1 where s: "so_socket so (k_env w) = (sock, e1)" by (rule prod.exhaust)
  obtain c e2 where c: "so_connect so sock host 53 e1 = (c, e2)" by (rule prod.exhaust)
  obtain n e3 where n: "so_select so sock 3 e2 = (n, e3)" by (rule prod.exhaust)
  obtain x e4 where x: "so_sockerr so sock e3 = (x, e4)" by (rule prod.exhaust)
  show ?thesis
    using assms s c n x
    by (cases c) (auto simp: probe_host_def k_defs keeps_open_def host_ok_def split: if_splits)
qed

lemma probe_hosts_trace:
  assumes "run_state (probe_hosts so hs) w = (r, w')"
  shows "\<exists>es. k_events w' = k_events w @ es \<and> keeps_open w w' \<and> k_nodes w' = k_nodes w \<and>
    (r = 1 \<and> list_ex connected_event es \<or> r = 0 \<and> \<not> list_ex connected_event es) \<and>
    sum_list (map wait_secs es) \<le> 3 * length hs \<and> (set hs \<subseteq> set probe_list \<longrightarrow> list_all host_ok es)"
  using assms
proof (induction hs arbitrary: w)
  case Nil
  then show ?case by (auto simp: keeps_open_def)
next
  case (Cons h hs)
  obtain x w1 where x: "run_state (probe_host so h) w = (x, w1)" by (rule prod.exhaust)
  from probe_host_trace [OF x] obtain es where es: "k_events w1 = k_events w @ es" "keeps_open w w1" "k_nodes w1 = k_nodes w"
    "x = Some 1 \<and> list_ex connected_event es \<or> x = None \<and> \<not> list_ex connected_event es"
    "sum_list (map wait_secs es) \<le> 3" "h \<in> set probe_list \<longrightarrow> list_all host_ok es" by blast
  show ?case
  proof (cases x)
    case (Some y)
    with Cons.prems x es show ?thesis by (intro exI [of _ es]) auto
  next
    case None
    with Cons.prems x have "run_state (probe_hosts so hs) w1 = (r, w')" by simp
    from Cons.IH [OF this] obtain es' where "k_events w' = k_events w1 @ es'" "keeps_open w1 w'" "k_nodes w' = k_nodes w1"
      "r = 1 \<and> list_ex connected_event es' \<or> r = 0 \<and> \<not> list_ex connected_event es'"
      "sum_list (map wait_secs es') \<le> 3 * length hs" "set hs \<subseteq> set probe_list \<longrightarrow> list_all host_ok es'" by blast
    with es None show ?thesis
      by (intro exI [of _ "es @ es'"]) (auto simp: keeps_open_def)
  qed
qed

text \<open>
  The Internet probe.  Whatever the kernel answers, \<^verbatim>\<open>check_internet\<close> returns 1 exactly
  if one of its connection attempts succeeded (at once, or after waiting with no socket error)
  and 0 otherwise, tries only its three hosts on port 53, closes every socket it opened exactly
  once and no other descriptor, and waits for at most nine seconds altogether.
\<close>

lemma check_internet_exact:
  assumes "run_state (check_internet so) w = (r, w')"
  shows "\<exists>es. k_events w' = k_events w @ es \<and> k_open w' = k_open w \<and> k_bad w' = k_bad w \<and>
    (r = 1 \<longleftrightarrow> list_ex connected_event es) \<and> (r = 0 \<longleftrightarrow> \<not> list_ex connected_event es) \<and>
    sum_list (map wait_secs es) \<le> 9 \<and> list_all host_ok es"
  using probe_hosts_trace [OF assms [unfolded check_internet_def]]
  by (auto simp: keeps_open_def probe_list_def)

section \<open>A pass of the loop\<close>

lemma try_cmds_trace:
  assumes "run_state (try_cmds so cs) w = (rc, w')"
  shows "\<exists>sts. k_events w' = k_events w @ map2 Sk_system cs sts \<and> length sts \<le> length cs \<and>
    (rc = 0 \<and> sts \<noteq> [] \<and> last sts = Exited 0 \<and> Exited 0 \<notin> set (butlast sts) \<or>
     rc = -1 \<and> length sts = length cs \<and> Exited 0 \<notin> set sts)"
  using assms
proof (induction cs arbitrary: w)
  case Nil
  then show ?case by auto
next
  case (Cons c cs)
  obtain st e where st: "so_system so c (k_env w) = (st, e)" by (rule prod.exhaust)
  let ?w1 = "k_emit (Sk_system c st) (w\<lparr>k_env := e\<rparr>)"
  show ?case
  proof (cases "st = Exited 0")
    case True
    with Cons.prems st show ?thesis by (intro exI [of _ "[st]"]) (auto simp: k_system_def)
  next
    case False
    with Cons.prems st have "run_state (try_cmds so cs) ?w1 = (rc, w')" by (simp add: k_system_def)
    from Cons.IH [OF this] obtain sts where "k_events w' = k_events ?w1 @ map2 Sk_system cs sts" "length sts \<le> length cs"
      "rc = 0 \<and> sts \<noteq> [] \<and> last sts = Exited 0 \<and> Exited 0 \<notin> set (butlast sts) \<or>
       rc = -1 \<and> length sts = length cs \<and> Exited 0 \<notin> set sts" by blast
    with False show ?thesis by (intro exI [of _ "st # sts"]) auto
  qed
qed

lemma not_system_probe: "state_io_rel (k_adds (\<lambda>e. \<forall>c st. e \<noteq> Sk_system c st)) (probe_host so h)"
  by (auto simp: state_io_rel_def probe_host_def k_defs split: prod.splits intro!: k_addsI)

lemma not_system_probes: "state_io_rel (k_adds (\<lambda>e. \<forall>c st. e \<noteq> Sk_system c st)) (probe_hosts so hs)"
  by (induction hs) (auto intro!: io_intros not_system_probe split: option.split)

lemma keeps_open_sync: "state_io_rel keeps_open (sync_time_from_ntp so)"
proof -
  have "state_io_rel keeps_open (try_cmds so cs)" for cs
    by (induction cs) (auto intro!: io_intros)
  then show ?thesis unfolding sync_time_from_ntp_def by (intro io_intros)
qed

text \<open>
  What a pass of the time loop does, exactly.  It first probes its three hosts, running
  no command and waiting for at most nine seconds, and every socket is closed exactly once; without a connection it only sleeps for 30 seconds; with one it ends a running \<^verbatim>\<open>ntpd\<close>, waits, and
  runs the NTP commands in their order up to the first that succeeds; exactly if one succeeded it
  then stores the time in the hardware clock, once; and it always ends with the 30 seconds of sleep.
\<close>

theorem time_sync_pass_exact:
  assumes "run_state (time_sync_pass so) w = ((), w')"
  shows "\<exists>ps ns. k_events w' = k_events w @ ps @ ns @ [Sk_usleep 30000000] \<and>
    list_all (\<lambda>e. (\<forall>c st. e \<noteq> Sk_system c st) \<and> host_ok e) ps \<and> sum_list (map wait_secs ps) \<le> 9 \<and>
    k_open w' = k_open w \<and> k_bad w' = k_bad w \<and>
    (if \<not> list_ex connected_event ps then ns = []
     else \<exists>st sts st'. ns = [Sk_system ''killall -q ntpd'' st, Sk_usleep 100000] @ map2 Sk_system ntp_cmds sts @
            (if Exited 0 \<in> set sts then [Sk_system cmd_hwclock st'] else []) \<and>
          Exited 0 \<notin> set (butlast sts) \<and> (Exited 0 \<notin> set sts \<longrightarrow> length sts = 3))"
proof -
  obtain up w1 where up: "run_state (check_internet so) w = (up, w1)" by (rule prod.exhaust)
  from check_internet_exact [OF up] obtain ps where ps: "k_events w1 = k_events w @ ps"
    "up = 1 \<longleftrightarrow> list_ex connected_event ps" "up = 0 \<longleftrightarrow> \<not> list_ex connected_event ps"
    "k_open w1 = k_open w" "k_bad w1 = k_bad w" "sum_list (map wait_secs ps) \<le> 9" "list_all host_ok ps" by blast
  have nosys: "list_all (\<lambda>e. (\<forall>c st. e \<noteq> Sk_system c st) \<and> host_ok e) ps"
    using keep_run [OF not_system_probes [of so probe_list], of w] up ps(1,7) by (auto simp: check_internet_def k_adds_def list_all_iff)
  show ?thesis
  proof (cases "up = 0")
    case True
    with assms up have "k_events w' = k_events w1 @ [Sk_usleep 30000000]" "k_open w' = k_open w1" "k_bad w' = k_bad w1" by (auto simp: time_sync_pass_def k_usleep_def)
    with ps nosys True show ?thesis by (intro exI [of _ ps] exI [of _ "[]"]) simp
  next
    case False
    obtain st e where st: "so_system so ''killall -q ntpd'' (k_env w1) = (st, e)" by (rule prod.exhaust)
    let ?w2 = "k_emit (Sk_usleep 100000) (k_emit (Sk_system ''killall -q ntpd'' st) (w1\<lparr>k_env := so_usleep so 100000 e\<rparr>))"
    obtain rc w3 where t: "run_state (try_cmds so ntp_cmds) ?w2 = (rc, w3)" by (rule prod.exhaust)
    have w2: "(k_emit (Sk_system ''killall -q ntpd'' st) (w1\<lparr>k_env := e\<rparr>))\<lparr>k_env := x\<rparr> =
        k_emit (Sk_system ''killall -q ntpd'' st) (w1\<lparr>k_env := x\<rparr>)" for x by (simp add: k_emit_def)
    have sync: "run_state (sync_time_from_ntp so) w1 = (rc, w3)"
      using st t by (simp add: sync_time_from_ntp_def k_system_def k_usleep_def w2)
    from try_cmds_trace [OF t] obtain sts where sts: "k_events w3 = k_events ?w2 @ map2 Sk_system ntp_cmds sts"
      "rc = 0 \<and> sts \<noteq> [] \<and> last sts = Exited 0 \<and> Exited 0 \<notin> set (butlast sts) \<or>
       rc = -1 \<and> length sts = length ntp_cmds \<and> Exited 0 \<notin> set sts" by blast
    obtain st' e' where h: "so_system so cmd_hwclock (k_env w3) = (st', e')" by (rule prod.exhaust)
    have ok: "rc = 0 \<longleftrightarrow> Exited 0 \<in> set sts" using sts(2) by (metis last_in_set zero_neq_neg_one)
    have "keeps_open w1 w3" using keep_run [OF keeps_open_sync, of w1 so] sync by simp
    then have fds: "k_open w' = k_open w" "k_bad w' = k_bad w"
      using assms up False sync h ps(4,5)
      by (auto simp: time_sync_pass_def k_usleep_def k_system_def keeps_open_def split: if_splits)
    have "k_events w' = k_events w3 @ (if rc = 0 then [Sk_system cmd_hwclock st'] else []) @ [Sk_usleep 30000000]"
      using assms up False sync h by (auto simp: time_sync_pass_def k_usleep_def k_system_def split: if_splits)
    moreover have "Exited 0 \<notin> set (butlast sts)" "Exited 0 \<notin> set sts \<longrightarrow> length sts = 3"
      using sts(2) ok by (auto simp: ntp_cmds_def dest: in_set_butlastD)
    ultimately show ?thesis
      using ps nosys False sts(1) ok fds
      by (intro exI [of _ ps] exI [of _ "[Sk_system ''killall -q ntpd'' st, Sk_usleep 100000] @ map2 Sk_system ntp_cmds sts @
            (if Exited 0 \<in> set sts then [Sk_system cmd_hwclock st'] else [])"])
        (auto simp del: map2_map_map intro!: exI [of _ st] exI [of _ sts] exI [of _ st'])
  qed
qed

theorem time_sync_pass_exact_witness:
  "\<exists>ps ns. k_events (snd (run_state (time_sync_pass ok_kernel) (kernel0 (\<lambda>_. None)))) = ps @ ns @ [Sk_usleep 30000000]"
proof -
  let ?w = "kernel0 (\<lambda>_. None)"
  have "run_state (time_sync_pass ok_kernel) ?w = ((), snd (run_state (time_sync_pass ok_kernel) ?w))" by (simp add: prod_eq_iff)
  from time_sync_pass_exact [OF this] show ?thesis by (auto simp: kernel0_def)
qed

section \<open>The time zone\<close>

text \<open>The events that change the entry \<open>p\<close> other than by renaming another entry to it.\<close>

fun disturbs :: "string \<Rightarrow> sock_event \<Rightarrow> bool" where
  "disturbs p (Sk_unlink q) \<longleftrightarrow> q = p"
| "disturbs p (Sk_symlink t q ok) \<longleftrightarrow> q = p"
| "disturbs p (Sk_write q x) \<longleftrightarrow> q = p"
| "disturbs p (Sk_rename q r ok) \<longleftrightarrow> q = p"
| "disturbs p _ \<longleftrightarrow> False"

lemma timezone_undisturbed:
  "state_io_rel (k_adds (\<lambda>e. \<not> disturbs ''/etc/localtime'' e)) (set_system_timezone so tz)"
  by (auto simp: state_io_rel_def set_system_timezone_def k_defs Let_def split: prod.splits option.splits intro!: k_addsI)

text \<open>
  The time zone is switched atomically.  \<^verbatim>\<open>set_system_timezone\<close> returns 0 or -1.  On 0
  \<^verbatim>\<open>/etc/localtime\<close> is a link to the zone's file, which was readable, and \<^verbatim>\<open>/etc/timezone\<close>, when it
  could be opened, holds the name; on -1 \<^verbatim>\<open>/etc/localtime\<close> is what it was.  No call on any path
  removes it, links to it or writes to it, it is only ever renamed over, so other processes always find
  it.  No entry is touched but these two and \<^verbatim>\<open>/etc/localtime.new\<close>.  Here \<^verbatim>\<open>/etc/timezone\<close> is
  not itself a link to another file.
\<close>

theorem timezone_switched_atomically:
  assumes "run_state (set_system_timezone so tz) w = (rc, w')"
    and plain: "\<And>ns e p. so_resolve so ns ''/etc/timezone'' e = Some p \<Longrightarrow> p = ''/etc/timezone''"
  shows "(rc = 0 \<and> k_nodes w' ''/etc/localtime'' = Some (Symlink (take 255 (''/usr/share/zoneinfo/'' @ tz))) \<and>
      so_access so (k_nodes w) (take 255 (''/usr/share/zoneinfo/'' @ tz)) (k_env w) \<and>
      k_nodes w' ''/etc/timezone'' \<in> {k_nodes w ''/etc/timezone'', Some (Regular (tz @ [chr_nl]))} \<or>
    rc = -1 \<and> k_nodes w' ''/etc/localtime'' = k_nodes w ''/etc/localtime'') \<and>
    k_adds (\<lambda>e. \<not> disturbs ''/etc/localtime'' e) w w' \<and>
    (\<forall>p. p \<notin> {''/etc/localtime'', ''/etc/localtime.new'', ''/etc/timezone''} \<longrightarrow> k_nodes w' p = k_nodes w p)"
proof -
  have "k_adds (\<lambda>e. \<not> disturbs ''/etc/localtime'' e) w w'"
    using keep_run [OF timezone_undisturbed, of w so tz] assms(1) by simp
  then show ?thesis
    using assms(1)
    by (auto simp: set_system_timezone_def snprintf_s_def k_defs Let_def split: if_splits option.splits dest!: plain)
qed

theorem timezone_switched_atomically_witness:
  "k_adds (\<lambda>e. \<not> disturbs ''/etc/localtime'' e) (kernel0 [''/usr/share/zoneinfo/UTC'' \<mapsto> Regular []])
     (snd (run_state (set_system_timezone ok_kernel ''UTC'') (kernel0 [''/usr/share/zoneinfo/UTC'' \<mapsto> Regular []])))"
proof -
  let ?r = "run_state (set_system_timezone ok_kernel ''UTC'') (kernel0 [''/usr/share/zoneinfo/UTC'' \<mapsto> Regular []])"
  have "?r = (fst ?r, snd ?r)" by simp
  from timezone_switched_atomically [OF this] show ?thesis by (simp add: ok_kernel_def)
qed

end
