(* ===== verification/Protocol.thy ===== *)
theory Protocol
  imports CStrings
begin

text \<open>
  The \<^verbatim>\<open>0x55AA\<close> frame codec of \<^verbatim>\<open>protocol.h\<close> and \<^verbatim>\<open>protocol.c\<close>: constants, the
  parsed frame view, \<^verbatim>\<open>proto_decode\<close>, \<^verbatim>\<open>proto_encode\<close> and the diagnostic names.
  The lemmas show that the decoder accepts exactly the well-formed frames, that decoding
  an encoded frame gives the frame back, and that encoding a decoded frame gives the
  received bytes back up to the CRC field, which the encoder clears.
\<close>

unbundle bit_operations_syntax

named_theorems proto_defs \<open>definitions of the codec's constants\<close>

section \<open>Constants\<close>

definition PROTO_MAGIC_0 :: u8 where [proto_defs]: "PROTO_MAGIC_0 = 0x55"
definition PROTO_MAGIC_1 :: u8 where [proto_defs]: "PROTO_MAGIC_1 = 0xAA"
definition PROTO_HDR_LEN :: nat where [proto_defs]: "PROTO_HDR_LEN = 10"
definition PROTO_PAYLOAD_MAX :: nat where [proto_defs]: "PROTO_PAYLOAD_MAX = 256"

definition PROTO_TYPE_REQ :: u8 where [proto_defs]: "PROTO_TYPE_REQ = 0"
definition PROTO_TYPE_RESP :: u8 where [proto_defs]: "PROTO_TYPE_RESP = 1"
definition PROTO_CMDSET_NETWORK :: u8 where [proto_defs]: "PROTO_CMDSET_NETWORK = 1"

definition PROTO_CMDID_GET_WIFI_STATE :: u8 where [proto_defs]: "PROTO_CMDID_GET_WIFI_STATE = 0x00"
definition PROTO_CMDID_STATUS :: u8 where [proto_defs]: "PROTO_CMDID_STATUS = 0x01"
definition PROTO_CMDID_SSID :: u8 where [proto_defs]: "PROTO_CMDID_SSID = 0x02"
definition PROTO_CMDID_PASSWD :: u8 where [proto_defs]: "PROTO_CMDID_PASSWD = 0x03"
definition PROTO_CMDID_CONNECT :: u8 where [proto_defs]: "PROTO_CMDID_CONNECT = 0x04"
definition PROTO_CMDID_PUSH_RESULT :: u8 where [proto_defs]: "PROTO_CMDID_PUSH_RESULT = 0x05"
definition PROTO_CMDID_GET_AP_SSID :: u8 where [proto_defs]: "PROTO_CMDID_GET_AP_SSID = 0x06"
definition PROTO_CMDID_GET_AP_PASSWD :: u8 where [proto_defs]: "PROTO_CMDID_GET_AP_PASSWD = 0x07"
definition PROTO_CMDID_SCAN_WIFI :: u8 where [proto_defs]: "PROTO_CMDID_SCAN_WIFI = 0x08"
definition PROTO_CMDID_PUSH_SCAN_RESULT :: u8 where [proto_defs]: "PROTO_CMDID_PUSH_SCAN_RESULT = 0x09"
definition PROTO_CMDID_SWITCH_TO_AP :: u8 where [proto_defs]: "PROTO_CMDID_SWITCH_TO_AP = 0x0A"

definition PROTO_ERRCODE_NONE :: u8 where [proto_defs]: "PROTO_ERRCODE_NONE = 0x00"
definition PROTO_ERRCODE_BAD_CMD :: u8 where [proto_defs]: "PROTO_ERRCODE_BAD_CMD = 0x01"
definition PROTO_ERRCODE_NO_SSID :: u8 where [proto_defs]: "PROTO_ERRCODE_NO_SSID = 0x02"
definition PROTO_ERRCODE_BAD_PASSWORD :: u8 where [proto_defs]: "PROTO_ERRCODE_BAD_PASSWORD = 0x03"
definition PROTO_ERRCODE_CONNECT_FAIL :: u8 where [proto_defs]: "PROTO_ERRCODE_CONNECT_FAIL = 0x04"
definition PROTO_ERRCODE_IN_PROGRESS :: u8 where [proto_defs]: "PROTO_ERRCODE_IN_PROGRESS = 0x05"
definition PROTO_ERRCODE_UNKNOWN :: u8 where [proto_defs]: "PROTO_ERRCODE_UNKNOWN = 0xFF"

definition PROTO_WIFI_CONNECTED :: u8 where [proto_defs]: "PROTO_WIFI_CONNECTED = 0x00"
definition PROTO_WIFI_DISCONNECTED :: u8 where [proto_defs]: "PROTO_WIFI_DISCONNECTED = 0x01"

section \<open>Types\<close>

datatype proto_status =
    PROTO_OK
  | PROTO_ERR_SHORT
  | PROTO_ERR_MAGIC
  | PROTO_ERR_TRUNC
  | PROTO_ERR_NOSPACE
  | PROTO_ERR_ARG

fun proto_status_code :: "proto_status \<Rightarrow> int" where
  "proto_status_code PROTO_OK = 0"
| "proto_status_code PROTO_ERR_SHORT = -1"
| "proto_status_code PROTO_ERR_MAGIC = -2"
| "proto_status_code PROTO_ERR_TRUNC = -3"
| "proto_status_code PROTO_ERR_NOSPACE = -4"
| "proto_status_code PROTO_ERR_ARG = -5"

text \<open>\<open>pf_payload\<close> is \<open>None\<close> where the C pointer is NULL.\<close>

record proto_frame =
  pf_crc :: u16
  pf_type :: u8
  pf_seq :: u8
  pf_command_set :: u8
  pf_command_id :: u8
  pf_msg_len :: u16
  pf_payload :: "u8 list option"
  pf_frame_size :: nat

section \<open>Decoder\<close>

text \<open>\<^verbatim>\<open>(uint16_t)(((uint16_t)hi << 8) | lo)\<close>\<close>

definition be16 :: "u8 \<Rightarrow> u8 \<Rightarrow> u16" where
  "be16 hi lo = push_bit 8 (ucast hi) OR ucast lo"

text \<open>
  A NULL argument is \<open>None\<close> for \<^verbatim>\<open>data\<close> and \<open>False\<close> for \<^verbatim>\<open>out\<close>; \<^verbatim>\<open>len\<close> is the length
  of the buffer.  Every byte is read with \<open>rd\<close>, which is \<open>None\<close> outside the buffer, and so is
  the run of a decoder that reads there; the magic is compared from left to right and the
  second byte is only read when the first one fits.  The payload is a pointer into the buffer
  and is not read; it stands for the bytes it points to.
\<close>

definition rd :: "u8 list \<Rightarrow> nat \<Rightarrow> u8 option" where
  "rd d i = (if i < length d then Some (d ! i) else None)"

definition rd16 :: "u8 list \<Rightarrow> nat \<Rightarrow> u16 option" where
  "rd16 d i = do { hi \<leftarrow> rd d i; lo \<leftarrow> rd d (i + 1); Some (be16 hi lo) }"

definition proto_decode_run :: "u8 list option \<Rightarrow> bool \<Rightarrow> (proto_status + proto_frame) option" where
  "proto_decode_run data out = (case data of
     None \<Rightarrow> Some (Inl PROTO_ERR_ARG)
   | Some d \<Rightarrow>
       if \<not> out then Some (Inl PROTO_ERR_ARG)
       else if length d < PROTO_HDR_LEN then Some (Inl PROTO_ERR_SHORT)
       else do {
         m0 \<leftarrow> rd d 0;
         bad \<leftarrow> (if m0 \<noteq> PROTO_MAGIC_0 then Some True
                else do { m1 \<leftarrow> rd d 1; Some (m1 \<noteq> PROTO_MAGIC_1) });
         if bad then Some (Inl PROTO_ERR_MAGIC)
         else do {
           plen \<leftarrow> rd16 d 8;
           let frame_size = PROTO_HDR_LEN + unat plen;
           if frame_size > length d then Some (Inl PROTO_ERR_TRUNC)
           else if unat plen > PROTO_PAYLOAD_MAX then Some (Inl PROTO_ERR_TRUNC)
           else do {
             crc \<leftarrow> rd16 d 2;
             ty \<leftarrow> rd d 4;
             sq \<leftarrow> rd d 5;
             cs \<leftarrow> rd d 6;
             cid \<leftarrow> rd d 7;
             Some (Inr \<lparr>pf_crc = crc, pf_type = ty, pf_seq = sq,
                        pf_command_set = cs, pf_command_id = cid, pf_msg_len = plen,
                        pf_payload = (if 0 < unat plen
                                      then Some (take (unat plen) (drop PROTO_HDR_LEN d)) else None),
                        pf_frame_size = frame_size\<rparr>)
           }
         }
       })"

text \<open>The result the callers of \<^verbatim>\<open>proto_decode\<close> go on with; the run always has one (below).\<close>

definition proto_decode :: "u8 list option \<Rightarrow> bool \<Rightarrow> proto_status + proto_frame" where
  "proto_decode data out = (case proto_decode_run data out of Some r \<Rightarrow> r | None \<Rightarrow> Inl PROTO_ERR_ARG)"

section \<open>Encoder\<close>

definition hi8 :: "u16 \<Rightarrow> u8" where
  "hi8 n = ucast (drop_bit 8 n AND 0xFF)"

definition lo8 :: "u16 \<Rightarrow> u8" where
  "lo8 n = ucast (n AND 0xFF)"

definition proto_header :: "u8 \<Rightarrow> u8 \<Rightarrow> u8 \<Rightarrow> u8 \<Rightarrow> u16 \<Rightarrow> u8 list" where
  "proto_header ty sq cs cid plen =
     [PROTO_MAGIC_0, PROTO_MAGIC_1, 0, 0, ty, sq, cs, cid, hi8 plen, lo8 plen]"

text \<open>
  \<^verbatim>\<open>out\<close> is \<open>None\<close> for NULL and \<open>Some cap\<close> otherwise; the result is the error or the bytes
  written at the start of \<^verbatim>\<open>out\<close>, whose number is the value the C function returns.
  \<^verbatim>\<open>memcpy\<close> copies the first \<^verbatim>\<open>plen\<close> bytes of the payload.
\<close>

definition proto_encode ::
  "nat option \<Rightarrow> u8 \<Rightarrow> u8 \<Rightarrow> u8 \<Rightarrow> u8 \<Rightarrow> u8 list option \<Rightarrow> u16 \<Rightarrow> proto_status + u8 list" where
  "proto_encode out ty sq cs cid payload plen = (case out of
     None \<Rightarrow> Inl PROTO_ERR_ARG
   | Some out_cap \<Rightarrow>
       if 0 < unat plen \<and> payload = None then Inl PROTO_ERR_ARG
       else if PROTO_HDR_LEN + unat plen > out_cap then Inl PROTO_ERR_NOSPACE
       else Inr (proto_header ty sq cs cid plen @
                 (if 0 < unat plen then take (unat plen) (the payload) else [])))"

section \<open>Names\<close>

definition proto_type_name :: "u8 \<Rightarrow> string" where
  "proto_type_name ty =
     (if ty = PROTO_TYPE_REQ then ''REQ'' else if ty = PROTO_TYPE_RESP then ''RESP'' else ''?'')"

definition proto_command_set_name :: "u8 \<Rightarrow> string" where
  "proto_command_set_name cs = (if cs = PROTO_CMDSET_NETWORK then ''NETWORK'' else ''?'')"

definition proto_command_id_name :: "u8 \<Rightarrow> string" where
  "proto_command_id_name cid =
     (if cid = PROTO_CMDID_GET_WIFI_STATE then ''GET_WIFI_STATE''
      else if cid = PROTO_CMDID_STATUS then ''STATUS''
      else if cid = PROTO_CMDID_SSID then ''SSID''
      else if cid = PROTO_CMDID_PASSWD then ''PASSWD''
      else if cid = PROTO_CMDID_CONNECT then ''CONNECT''
      else if cid = PROTO_CMDID_PUSH_RESULT then ''PUSH_RESULT''
      else if cid = PROTO_CMDID_GET_AP_SSID then ''GET_AP_SSID''
      else if cid = PROTO_CMDID_GET_AP_PASSWD then ''GET_AP_PASSWD''
      else if cid = PROTO_CMDID_SCAN_WIFI then ''SCAN_WIFI''
      else if cid = PROTO_CMDID_PUSH_SCAN_RESULT then ''PUSH_SCAN_RESULT''
      else if cid = PROTO_CMDID_SWITCH_TO_AP then ''SWITCH_TO_AP''
      else ''UNKNOWN'')"

definition proto_errcode_name :: "u8 \<Rightarrow> string" where
  "proto_errcode_name e =
     (if e = PROTO_ERRCODE_NONE then ''NONE''
      else if e = PROTO_ERRCODE_BAD_CMD then ''BAD_CMD''
      else if e = PROTO_ERRCODE_NO_SSID then ''NO_SSID''
      else if e = PROTO_ERRCODE_BAD_PASSWORD then ''BAD_PASSWORD''
      else if e = PROTO_ERRCODE_CONNECT_FAIL then ''CONNECT_FAIL''
      else if e = PROTO_ERRCODE_IN_PROGRESS then ''IN_PROGRESS''
      else if e = PROTO_ERRCODE_UNKNOWN then ''UNKNOWN''
      else ''?'')"

fun proto_status_name :: "proto_status \<Rightarrow> string" where
  "proto_status_name PROTO_OK = ''OK''"
| "proto_status_name PROTO_ERR_SHORT = ''SHORT (buffer < header)''"
| "proto_status_name PROTO_ERR_MAGIC = ''MAGIC mismatch''"
| "proto_status_name PROTO_ERR_TRUNC = ''TRUNC (msg_len > remaining or > PAYLOAD_MAX)''"
| "proto_status_name PROTO_ERR_NOSPACE = ''NOSPACE (output too small)''"
| "proto_status_name PROTO_ERR_ARG = ''ARG (bad argument)''"

section \<open>Big-endian length field\<close>

lemma unat_be16: "unat (be16 hi lo) = 256 * unat hi + unat lo"
proof -
  have lo: "unat lo < 256" using unsigned_less [of lo, where ?'a = nat] by simp
  have hi: "unat hi < 256" using unsigned_less [of hi, where ?'a = nat] by simp
  have "(push_bit 8 (ucast hi) :: u16) AND ucast lo = 0"
    by (auto simp: bit_eq_iff bit_simps dest: bit_imp_le_length)
  then have "be16 hi lo = push_bit 8 (ucast hi) + ucast lo"
    unfolding be16_def by (simp only: disjunctive_add_eq_or)
  then show ?thesis
    using lo hi by (simp add: unat_word_ariths push_bit_eq_mult unsigned_ucast_eq take_bit_nat_eq_self)
qed

lemma and_255: "(k :: nat) AND 255 = k mod 256"
proof -
  have "k mod 256 = k AND mask 8"
    using take_bit_eq_mask [of 8 k] by (simp add: take_bit_eq_mod)
  then show ?thesis by (simp add: mask_eq_exp_minus_1)
qed

lemma unat_hi8: "unat (hi8 n) = unat n div 256"
proof -
  have "unat n < 65536" using unsigned_less [of n, where ?'a = nat] by simp
  then have "unat n div 256 < 256" by simp
  then show ?thesis
    unfolding hi8_def
    by (simp add: unsigned_ucast_eq unsigned_and_eq unsigned_drop_bit_eq drop_bit_eq_div
        take_bit_eq_mod and_255 unat_div)
qed

lemma unat_lo8: "unat (lo8 n) = unat n mod 256"
  unfolding lo8_def
  by (simp add: unsigned_ucast_eq unsigned_and_eq take_bit_eq_mod and_255)

lemma be16_hi8_lo8 [simp]: "be16 (hi8 n) (lo8 n) = n"
  by (rule word_unat_eq_iff [THEN iffD2]) (simp add: unat_be16 unat_hi8 unat_lo8)

lemma hi8_lo8_be16 [simp]: "hi8 (be16 a b) = a" "lo8 (be16 a b) = b"
  using unsigned_less [of b, where ?'a = nat]
  by (simp_all add: word_unat_eq_iff unat_be16 unat_hi8 unat_lo8)

section \<open>Decoding\<close>

text \<open>What a well-formed frame is: the specification of the decoder.\<close>

definition wf_wire :: "u8 list \<Rightarrow> bool" where
  "wf_wire d \<longleftrightarrow> PROTO_HDR_LEN \<le> length d \<and> take 2 d = [PROTO_MAGIC_0, PROTO_MAGIC_1] \<and>
     unat (be16 (d ! 8) (d ! 9)) \<le> PROTO_PAYLOAD_MAX \<and>
     PROTO_HDR_LEN + unat (be16 (d ! 8) (d ! 9)) \<le> length d"

lemma take_2_nth: "2 \<le> length d \<Longrightarrow> take 2 d = [a, b] \<longleftrightarrow> d ! 0 = a \<and> d ! 1 = b"
  by (cases d; cases "tl d") auto

text \<open>The reads of the decoder stay inside the buffer, and what they give.\<close>

lemma proto_decode_reads:
  "proto_decode_run (Some d) True = Some (
     if length d < PROTO_HDR_LEN then Inl PROTO_ERR_SHORT
     else if d ! 0 \<noteq> PROTO_MAGIC_0 \<or> d ! 1 \<noteq> PROTO_MAGIC_1 then Inl PROTO_ERR_MAGIC
     else if PROTO_HDR_LEN + unat (be16 (d ! 8) (d ! 9)) > length d then Inl PROTO_ERR_TRUNC
     else if unat (be16 (d ! 8) (d ! 9)) > PROTO_PAYLOAD_MAX then Inl PROTO_ERR_TRUNC
     else Inr \<lparr>pf_crc = be16 (d ! 2) (d ! 3), pf_type = d ! 4, pf_seq = d ! 5,
               pf_command_set = d ! 6, pf_command_id = d ! 7, pf_msg_len = be16 (d ! 8) (d ! 9),
               pf_payload = (if 0 < unat (be16 (d ! 8) (d ! 9))
                  then Some (take (unat (be16 (d ! 8) (d ! 9))) (drop PROTO_HDR_LEN d)) else None),
               pf_frame_size = PROTO_HDR_LEN + unat (be16 (d ! 8) (d ! 9))\<rparr>)"
  by (simp add: proto_decode_run_def rd_def rd16_def PROTO_HDR_LEN_def Let_def)

lemma proto_decode_out: "proto_decode (Some d) out = Inr f \<Longrightarrow> out"
  by (auto simp: proto_decode_def proto_decode_run_def split: if_splits)

lemmas proto_decode_eq = proto_decode_def [of "Some d" True for d, unfolded proto_decode_reads option.case]

lemma proto_decode_Inr_iff:
  "(\<exists>f. proto_decode (Some d) True = Inr f) \<longleftrightarrow> wf_wire d"
  by (auto simp: proto_decode_eq wf_wire_def Let_def take_2_nth proto_defs)

lemma proto_decode_frame:
  assumes "proto_decode (Some d) out = Inr f"
  shows "pf_frame_size f = PROTO_HDR_LEN + unat (pf_msg_len f)"
    and "pf_frame_size f \<le> length d"
    and "unat (pf_msg_len f) \<le> PROTO_PAYLOAD_MAX"
    and "pf_payload f = (if pf_msg_len f = 0 then None
           else Some (take (unat (pf_msg_len f)) (drop PROTO_HDR_LEN d)))"
  using assms proto_decode_out [OF assms]
  by (auto simp: proto_decode_eq Let_def unat_gt_0 split: if_splits)

lemma proto_decode_payload_length:
  assumes "proto_decode (Some d) out = Inr f" and "pf_payload f = Some p"
  shows "length p = unat (pf_msg_len f)" and "0 < length p"
proof -
  note f = proto_decode_frame [OF assms(1)]
  show l: "length p = unat (pf_msg_len f)"
    using f assms(2) by (auto split: if_splits)
  show "0 < length p"
    unfolding l using f(4) assms(2) by (auto simp: unat_gt_0 split: if_splits)
qed

text \<open>The bytes that a frame is encoded to, without the buffer arguments.\<close>

definition wire_of :: "u8 \<Rightarrow> u8 \<Rightarrow> u8 \<Rightarrow> u8 \<Rightarrow> u8 list \<Rightarrow> u8 list" where
  "wire_of ty sq cs cid p = proto_header ty sq cs cid (word_of_nat (length p)) @ p"

lemma length_wire_of [simp]: "length (wire_of ty sq cs cid p) = PROTO_HDR_LEN + length p"
  by (simp add: wire_of_def proto_header_def proto_defs)

lemma unat_word_of_length:
  "length p \<le> PROTO_PAYLOAD_MAX \<Longrightarrow> unat (word_of_nat (length p) :: u16) = length p"
  by (simp add: unat_of_nat proto_defs)

lemma proto_encode_wire:
  assumes "length p \<le> PROTO_PAYLOAD_MAX" and "PROTO_HDR_LEN + length p \<le> cap"
  shows "proto_encode (Some cap) ty sq cs cid (Some p) (word_of_nat (length p)) = Inr (wire_of ty sq cs cid p)"
  using assms by (simp add: proto_encode_def wire_of_def unat_word_of_length)

text \<open>Decoding a frame followed by any other bytes.\<close>

lemma proto_decode_wire:
  assumes "length p \<le> PROTO_PAYLOAD_MAX"
  shows "proto_decode (Some (wire_of ty sq cs cid p @ rest)) True =
    Inr \<lparr>pf_crc = 0, pf_type = ty, pf_seq = sq, pf_command_set = cs, pf_command_id = cid,
         pf_msg_len = word_of_nat (length p), pf_payload = (if p = [] then None else Some p),
         pf_frame_size = PROTO_HDR_LEN + length p\<rparr>"
proof -
  have "be16 0 0 = 0" by (simp add: be16_def)
  moreover have "unat (word_of_nat (length p) :: u16) = length p"
    by (rule unat_word_of_length [OF assms])
  ultimately show ?thesis
    using assms
    by (simp add: proto_decode_eq wire_of_def proto_header_def Let_def numeral_eq_Suc
        PROTO_HDR_LEN_def PROTO_PAYLOAD_MAX_def)
qed

section \<open>Properties of the codec\<close>

text \<open>
  A buffer of at least ten bytes, by its bytes.
\<close>

lemma header_bytes:
  assumes "PROTO_HDR_LEN \<le> length d"
  shows "d = [d ! 0, d ! 1, d ! 2, d ! 3, d ! 4, d ! 5, d ! 6, d ! 7, d ! 8, d ! 9] @ drop PROTO_HDR_LEN d"
proof -
  obtain a0 a1 a2 a3 a4 a5 a6 a7 a8 a9 r
    where "d = a0 # a1 # a2 # a3 # a4 # a5 # a6 # a7 # a8 # a9 # r"
    using assms by (auto simp: PROTO_HDR_LEN_def numeral_eq_Suc Suc_le_length_iff)
  then show ?thesis by (simp add: PROTO_HDR_LEN_def)
qed

text \<open>
  The bytes of a buffer that a frame \<open>f\<close> is read from, written with the ten header bytes in
  the order of the table in \<^verbatim>\<open>protocol.h\<close>, then the payload, then whatever follows.
\<close>

definition frame_layout :: "proto_frame \<Rightarrow> u8 list \<Rightarrow> u8 list \<Rightarrow> u8 list" where
  "frame_layout f p rest =
     [0x55, 0xAA, hi8 (pf_crc f), lo8 (pf_crc f), pf_type f, pf_seq f,
      pf_command_set f, pf_command_id f, hi8 (pf_msg_len f), lo8 (pf_msg_len f)] @ p @ rest"

lemma proto_decode_of_layout:
  assumes "unat (pf_msg_len f) = length p" and "length p \<le> 256"
    and "pf_payload f = (if p = [] then None else Some p)" and "pf_frame_size f = 10 + length p"
  shows "proto_decode (Some (frame_layout f p rest)) True = Inr f"
  using assms by (simp add: proto_decode_eq frame_layout_def proto_defs)

lemma proto_decode_layout:
  assumes "proto_decode (Some d) True = Inr f"
  obtains p rest where "d = frame_layout f p rest" and "unat (pf_msg_len f) = length p"
    and "length p \<le> 256" and "pf_payload f = (if p = [] then None else Some p)"
    and "pf_frame_size f = 10 + length p"
proof -
  let ?n = "unat (pf_msg_len f)"
  note f = proto_decode_frame [OF assms]
  have n: "?n \<le> length (drop PROTO_HDR_LEN d)" using f(1,2) by simp
  have "PROTO_HDR_LEN \<le> length d" and "d ! 0 = 0x55" "d ! 1 = 0xAA"
    and "pf_crc f = be16 (d ! 2) (d ! 3)" "pf_type f = d ! 4" "pf_seq f = d ! 5"
      "pf_command_set f = d ! 6" "pf_command_id f = d ! 7" "pf_msg_len f = be16 (d ! 8) (d ! 9)"
    using assms by (auto simp: proto_decode_eq PROTO_MAGIC_0_def PROTO_MAGIC_1_def split: if_splits)
  with header_bytes [of d]
  have "d = frame_layout f (take ?n (drop PROTO_HDR_LEN d)) (drop ?n (drop PROTO_HDR_LEN d))"
    by (simp add: frame_layout_def del: drop_drop)
  moreover have "pf_payload f = (if take ?n (drop PROTO_HDR_LEN d) = [] then None
      else Some (take ?n (drop PROTO_HDR_LEN d)))"
    using f(1,2,4) by (auto simp: unat_eq_0 [symmetric] proto_defs)
  ultimately show thesis
    using that [of "take ?n (drop PROTO_HDR_LEN d)" "drop ?n (drop PROTO_HDR_LEN d)"] f n
    by (simp add: proto_defs)
qed

lemma proto_decode_error:
  "proto_decode (Some d) True = Inl e \<longleftrightarrow>
     length d < 10 \<and> e = PROTO_ERR_SHORT
   \<or> 10 \<le> length d \<and> take 2 d \<noteq> [0x55, 0xAA] \<and> e = PROTO_ERR_MAGIC
   \<or> 10 \<le> length d \<and> take 2 d = [0x55, 0xAA] \<and> e = PROTO_ERR_TRUNC \<and>
       (length d < 10 + (256 * unat (d ! 8) + unat (d ! 9)) \<or> 256 < 256 * unat (d ! 8) + unat (d ! 9))"
  by (auto simp: proto_decode_eq take_2_nth proto_defs unat_be16 mult.commute)

text \<open>
  Property C5.  On every buffer the decoder runs to a result: no byte outside the buffer
  is read, whichever check fails.  It accepts a frame \<open>f\<close> exactly when the buffer is the bytes
  \<open>0x55\<close>, \<open>0xAA\<close>, the CRC, the type, the sequence number, the command set, the command id and
  the payload length of \<open>f\<close> (16-bit values with the high byte first), then as many payload
  bytes as that length says, at most 256, then any others; the reported payload is those bytes
  (none for length zero) and the reported frame size the number of bytes up to their end.  It
  answers \<open>PROTO_ERR_SHORT\<close> exactly below ten bytes, otherwise \<open>PROTO_ERR_MAGIC\<close> exactly
  without the two magic bytes, otherwise \<open>PROTO_ERR_TRUNC\<close> exactly when the declared length
  is over 256 or exceeds the buffer.
\<close>

theorem proto_decode_accepts:
  "proto_decode_run (Some d) True = Some (proto_decode (Some d) True) \<and>
   (proto_decode (Some d) True = Inr f \<longleftrightarrow>
      (\<exists>p rest. d = [0x55, 0xAA, hi8 (pf_crc f), lo8 (pf_crc f), pf_type f, pf_seq f,
                   pf_command_set f, pf_command_id f, hi8 (pf_msg_len f), lo8 (pf_msg_len f)] @ p @ rest \<and>
         unat (pf_msg_len f) = length p \<and> length p \<le> 256 \<and>
         pf_payload f = (if p = [] then None else Some p) \<and> pf_frame_size f = 10 + length p)) \<and>
   (proto_decode (Some d) True = Inl e \<longleftrightarrow>
      length d < 10 \<and> e = PROTO_ERR_SHORT
    \<or> 10 \<le> length d \<and> take 2 d \<noteq> [0x55, 0xAA] \<and> e = PROTO_ERR_MAGIC
    \<or> 10 \<le> length d \<and> take 2 d = [0x55, 0xAA] \<and> e = PROTO_ERR_TRUNC \<and>
        (length d < 10 + (256 * unat (d ! 8) + unat (d ! 9)) \<or> 256 < 256 * unat (d ! 8) + unat (d ! 9)))"
  unfolding proto_decode_error frame_layout_def [symmetric]
  by (intro conjI) (simp add: proto_decode_def proto_decode_reads,
      blast intro: proto_decode_of_layout elim: proto_decode_layout, simp)

theorem proto_decode_accepts_witness:
  "\<exists>f. proto_decode (Some [0x55, 0xAA, 0, 0, 0, 7, 1, 2, 0, 1, 65]) True = Inr f \<and>
     pf_type f = 0 \<and> pf_seq f = 7 \<and> pf_command_set f = 1 \<and> pf_command_id f = 2 \<and>
     pf_payload f = Some [65] \<and> pf_frame_size f = 11"
proof -
  define f where "f = \<lparr>pf_crc = 0, pf_type = 0, pf_seq = 7, pf_command_set = 1, pf_command_id = 2,
    pf_msg_len = 1, pf_payload = Some [65], pf_frame_size = 11\<rparr>"
  have "proto_decode (Some [0x55, 0xAA, 0, 0, 0, 7, 1, 2, 0, 1, 65]) True = Inr f"
    using proto_decode_accepts [of "[0x55, 0xAA, 0, 0, 0, 7, 1, 2, 0, 1, 65]" f]
    by (auto simp: f_def hi8_def lo8_def intro: exI [of _ "[65]"])
  then show ?thesis by (auto simp: f_def)
qed

text \<open>
  Round trip: whatever \<^verbatim>\<open>proto_encode\<close> writes for a payload of at most 256
  bytes, \<^verbatim>\<open>proto_decode\<close> reads back with the same type, sequence number, command set,
  command id and payload, and a frame size equal to the number of bytes written, whatever
  bytes follow it in the buffer.
\<close>

theorem proto_roundtrip:
  assumes enc: "proto_encode (Some cap) ty sq cs cid (Some p) (word_of_nat (length p)) = Inr bytes"
    and len: "length p \<le> PROTO_PAYLOAD_MAX"
  shows "\<exists>f. proto_decode (Some (bytes @ rest)) True = Inr f \<and>
    pf_type f = ty \<and> pf_seq f = sq \<and> pf_command_set f = cs \<and> pf_command_id f = cid \<and>
    pf_payload f = (if p = [] then None else Some p) \<and> pf_frame_size f = length bytes"
proof -
  have "unat (word_of_nat (length p) :: u16) = length p"
    by (rule unat_word_of_length [OF len])
  with enc have "PROTO_HDR_LEN + length p \<le> cap"
    by (auto simp: proto_encode_def split: if_splits)
  with enc len have "bytes = wire_of ty sq cs cid p"
    by (simp add: proto_encode_wire)
  then show ?thesis
    by (simp add: proto_decode_wire [OF len])
qed

theorem proto_roundtrip_witness:
  "\<exists>bytes f. proto_encode (Some 266) 1 4 1 4 (Some [5]) (word_of_nat (length [5 :: u8])) = Inr bytes \<and>
     proto_decode (Some (bytes @ [9])) True = Inr f \<and> pf_payload f = Some [5]"
proof -
  have len: "length [5 :: u8] \<le> PROTO_PAYLOAD_MAX" by (simp add: proto_defs)
  have enc: "proto_encode (Some 266) 1 4 1 4 (Some [5]) (word_of_nat (length [5 :: u8]))
      = Inr (wire_of 1 4 1 4 [5])"
    by (rule proto_encode_wire [OF len]) (simp add: proto_defs)
  show ?thesis using enc proto_roundtrip [OF enc len, of "[9]"] by fastforce
qed

text \<open>
  The other direction: encoding the fields of a decoded frame reproduces the
  received bytes of that frame, with the CRC bytes 2 and 3 cleared.
\<close>

theorem proto_reencode:
  assumes "proto_decode (Some d) True = Inr f"
  shows "proto_encode (Some (PROTO_HDR_LEN + PROTO_PAYLOAD_MAX)) (pf_type f) (pf_seq f)
      (pf_command_set f) (pf_command_id f) (pf_payload f) (pf_msg_len f)
    = Inr ((take (pf_frame_size f) d)[2 := 0, 3 := 0])"
proof -
  note f = proto_decode_frame [OF assms]
  have len: "PROTO_HDR_LEN \<le> length d" and hdr: "d ! 0 = PROTO_MAGIC_0" "d ! 1 = PROTO_MAGIC_1"
    and flds: "pf_type f = d ! 4" "pf_seq f = d ! 5" "pf_command_set f = d ! 6"
      "pf_command_id f = d ! 7" "pf_msg_len f = be16 (d ! 8) (d ! 9)"
    using assms by (auto simp: proto_decode_eq Let_def split: if_splits)
  obtain a0 a1 a2 a3 a4 a5 a6 a7 a8 a9 r
    where d: "d = a0 # a1 # a2 # a3 # a4 # a5 # a6 # a7 # a8 # a9 # r"
    using len by (auto simp: PROTO_HDR_LEN_def numeral_eq_Suc Suc_le_length_iff)
  have z: "pf_msg_len f = 0 \<Longrightarrow> be16 a8 a9 = 0" using flds d by simp
  show ?thesis
    using f hdr flds z
    by (auto simp: proto_encode_def proto_header_def d PROTO_HDR_LEN_def numeral_eq_Suc unat_gt_0)
qed

theorem proto_reencode_witness:
  "proto_encode (Some (PROTO_HDR_LEN + PROTO_PAYLOAD_MAX)) 0 1 1 2 (Some [65]) 1
   = Inr ((take 11 [0x55, 0xAA, 3, 4, 0, 1, 1, 2, 0, 1, 65, 66])[2 := 0, 3 := 0])"
proof -
  have "proto_decode (Some [0x55, 0xAA, 3, 4, 0, 1, 1, 2, 0, 1, 65, 66]) True =
    Inr \<lparr>pf_crc = 0x0304, pf_type = 0, pf_seq = 1, pf_command_set = 1, pf_command_id = 2,
         pf_msg_len = 1, pf_payload = Some [65], pf_frame_size = 11\<rparr>"
    by (simp add: proto_decode_eq proto_defs be16_def)
  from proto_reencode [OF this] show ?thesis by simp
qed

end
