(* ===== verification/ProtoDispatch.thy ===== *)
theory ProtoDispatch
  imports Protocol Boards
begin

text \<open>
  The request handler of \<^verbatim>\<open>proto_dispatch.c\<close>, the sink interface of \<^verbatim>\<open>proto_sink.h\<close> and the two
  background workers.  The state holds the pending credentials as the fixed arrays of the
  code, the workers that have been started and not finished, the state of the WiFi backend
  and the calls made on sinks, in order.  A sink is named by a handle; what a transport does
  with the calls is the matter of the transport's theory.  The lemmas are proved once for every
  backend that keeps the contract \<open>wifi_backend\<close> and stated for the RK3566 one.
\<close>

section \<open>State\<close>

definition WIFI_SSID_MAX :: nat where "WIFI_SSID_MAX = 32"
definition WIFI_PASSWD_MAX :: nat where "WIFI_PASSWD_MAX = 63"
definition SCAN_PUSH_PAYLOAD_CAP :: nat where "SCAN_PUSH_PAYLOAD_CAP = 220"
definition SCAN_PUSH_ENTRIES_PER_FRAME :: nat where "SCAN_PUSH_ENTRIES_PER_FRAME = 5"

lemmas dispatch_consts = WIFI_SSID_MAX_def WIFI_PASSWD_MAX_def SCAN_PUSH_PAYLOAD_CAP_def
  SCAN_PUSH_ENTRIES_PER_FRAME_def

datatype sink_call = Snk_send "u8 list" | Snk_retain | Snk_release

record 'k wifi_connect_job =
  cj_seq :: u8
  cj_ssid :: string
  cj_passwd :: string
  cj_sink :: "'k option"

record 'k wifi_scan_job =
  sj_seq :: u8
  sj_sink :: "'k option"

datatype 'k job = Connect_job "'k wifi_connect_job" | Scan_job "'k wifi_scan_job"

text \<open>
  \<open>sv_faults\<close> lists the outcomes of the coming \<^verbatim>\<open>calloc\<close> and \<^verbatim>\<open>pthread_create\<close> calls,
  \<open>True\<close> for a failure; when it is used up they succeed.
\<close>

record ('k, 'w) svc =
  s_pending_ssid :: "u8 list"
  s_pending_ssid_len :: u8
  s_pending_passwd :: "u8 list"
  s_pending_passwd_len :: u8
  sv_jobs :: "'k job list"
  sv_calls :: "('k \<times> sink_call) list"
  sv_world :: 'w
  sv_faults :: "bool list"

definition svc_init :: "'w \<Rightarrow> ('k, 'w) svc" where
  "svc_init w = \<lparr>s_pending_ssid = replicate (WIFI_SSID_MAX + 1) 0, s_pending_ssid_len = 0,
     s_pending_passwd = replicate (WIFI_PASSWD_MAX + 1) 0, s_pending_passwd_len = 0,
     sv_jobs = [], sv_calls = [], sv_world = w, sv_faults = []\<rparr>"

definition fault :: "('k, 'w) svc \<Rightarrow> bool \<times> ('k, 'w) svc" where
  "fault st = (case sv_faults st of [] \<Rightarrow> (False, st) | b # bs \<Rightarrow> (b, st\<lparr>sv_faults := bs\<rparr>))"

text \<open>The text a NUL-terminated byte array holds.\<close>

definition text_of :: "u8 list \<Rightarrow> string" where
  "text_of bs = cstr (map char_of_byte bs)"

section \<open>Sinks and frames\<close>

definition sink_call :: "'k option \<Rightarrow> sink_call \<Rightarrow> ('k, 'w) svc \<Rightarrow> ('k, 'w) svc" where
  "sink_call s c st = (case s of None \<Rightarrow> st | Some k \<Rightarrow> st\<lparr>sv_calls := sv_calls st @ [(k, c)]\<rparr>)"

definition proto_sink_send :: "'k option \<Rightarrow> u8 list \<Rightarrow> ('k, 'w) svc \<Rightarrow> ('k, 'w) svc" where
  "proto_sink_send s d = sink_call s (Snk_send d)"

definition proto_sink_retain :: "'k option \<Rightarrow> ('k, 'w) svc \<Rightarrow> ('k, 'w) svc" where
  "proto_sink_retain s = sink_call s Snk_retain"

definition proto_sink_release :: "'k option \<Rightarrow> ('k, 'w) svc \<Rightarrow> ('k, 'w) svc" where
  "proto_sink_release s = sink_call s Snk_release"

definition send_proto_frame ::
  "'k option \<Rightarrow> u8 \<Rightarrow> u8 \<Rightarrow> u8 \<Rightarrow> u8 \<Rightarrow> u8 list option \<Rightarrow> u16 \<Rightarrow> ('k, 'w) svc \<Rightarrow> ('k, 'w) svc" where
  "send_proto_frame sink ty sq cs cid payload plen st =
     (case proto_encode (Some (PROTO_HDR_LEN + PROTO_PAYLOAD_MAX)) ty sq cs cid payload plen of
        Inl _ \<Rightarrow> st
      | Inr buf \<Rightarrow> proto_sink_send sink buf st)"

definition send_proto_response ::
  "'k option \<Rightarrow> u8 \<Rightarrow> u8 \<Rightarrow> u8 \<Rightarrow> u8 \<Rightarrow> ('k, 'w) svc \<Rightarrow> ('k, 'w) svc" where
  "send_proto_response sink sq cs cid errcode =
     send_proto_frame sink PROTO_TYPE_RESP sq cs cid (Some [errcode]) 1"

definition send_proto_response_data ::
  "'k option \<Rightarrow> u8 \<Rightarrow> u8 \<Rightarrow> u8 \<Rightarrow> u8 \<Rightarrow> u8 list \<Rightarrow> u16 \<Rightarrow> ('k, 'w) svc \<Rightarrow> ('k, 'w) svc" where
  "send_proto_response_data sink sq cs cid errcode data dlen st =
     (if unat dlen + 1 > PROTO_PAYLOAD_MAX then st
      else send_proto_frame sink PROTO_TYPE_RESP sq cs cid
             (Some (errcode # take (unat dlen) data)) (dlen + 1) st)"

definition send_proto_push ::
  "'k option \<Rightarrow> u8 \<Rightarrow> u8 \<Rightarrow> u8 \<Rightarrow> u8 list \<Rightarrow> u16 \<Rightarrow> ('k, 'w) svc \<Rightarrow> ('k, 'w) svc" where
  "send_proto_push sink sq cs cid data dlen =
     send_proto_frame sink PROTO_TYPE_REQ sq cs cid (Some data) dlen"

fun wifi_status_to_errcode :: "wifi_switch_status \<Rightarrow> u8" where
  "wifi_status_to_errcode WIFI_SWITCH_OK = PROTO_ERRCODE_NONE"
| "wifi_status_to_errcode WIFI_SWITCH_ERR_NO_SSID = PROTO_ERRCODE_NO_SSID"
| "wifi_status_to_errcode WIFI_SWITCH_ERR_BAD_PASSWORD = PROTO_ERRCODE_BAD_PASSWORD"
| "wifi_status_to_errcode WIFI_SWITCH_ERR_CONNECT_FAIL = PROTO_ERRCODE_CONNECT_FAIL"
| "wifi_status_to_errcode WIFI_SWITCH_ERR_BUSY = PROTO_ERRCODE_UNKNOWN"
| "wifi_status_to_errcode WIFI_SWITCH_ERR_UNKNOWN = PROTO_ERRCODE_UNKNOWN"

section \<open>The connect worker\<close>

definition wifi_connect_worker ::
  "'w wifi_ops \<Rightarrow> 'k wifi_connect_job \<Rightarrow> ('k, 'w) svc \<Rightarrow> ('k, 'w) svc" where
  "wifi_connect_worker ops job st =
     (case wo_run_now ops (cj_ssid job) (cj_passwd job) (sv_world st) of (status, w1) \<Rightarrow>
      let w2 = (if status = WIFI_SWITCH_OK then snd (wo_persist ops (cj_ssid job) (cj_passwd job) w1) else w1);
          st1 = send_proto_push (cj_sink job) (cj_seq job) PROTO_CMDSET_NETWORK PROTO_CMDID_PUSH_RESULT
                  [wifi_status_to_errcode status] 1 (st\<lparr>sv_world := w2\<rparr>)
      in proto_sink_release (cj_sink job) st1)"

text \<open>\<open>Inl errcode\<close> where the C function returns -1 with an immediate error.\<close>

definition trigger_wifi_connect ::
  "u8 \<Rightarrow> 'k option \<Rightarrow> ('k, 'w) svc \<Rightarrow> (u8 + unit) \<times> ('k, 'w) svc" where
  "trigger_wifi_connect sq sink st =
     (let ssid_len = s_pending_ssid_len st; pwd_len = s_pending_passwd_len st in
      if ssid_len = 0 then (Inl PROTO_ERRCODE_NO_SSID, st)
      else (case fault st of (oom, st1) \<Rightarrow>
        if oom then (Inl PROTO_ERRCODE_UNKNOWN, st1)
        else
          let job = \<lparr>cj_seq = sq, cj_ssid = text_of (take (unat ssid_len) (s_pending_ssid st1)),
                     cj_passwd = text_of (take (unat pwd_len) (s_pending_passwd st1)), cj_sink = sink\<rparr>;
              st2 = proto_sink_retain sink st1
          in (case fault st2 of (fail, st3) \<Rightarrow>
                if fail then (Inl PROTO_ERRCODE_UNKNOWN, proto_sink_release sink st3)
                else (Inr (), st3\<lparr>sv_jobs := sv_jobs st3 @ [Connect_job job]\<rparr>))))"

section \<open>The scan worker\<close>

definition encode_scan_entry :: "wifi_scan_entry \<Rightarrow> nat \<Rightarrow> u8 list option" where
  "encode_scan_entry e dst_cap =
     (if 1 + length (e_ssid e) + 3 > dst_cap then None
      else Some (word_of_nat (length (e_ssid e)) # e_ssid e @ [e_rssi e, e_auth_type e, e_band e]))"

text \<open>The inner loop: \<open>n\<close> entries may still be added at position \<open>pos\<close>; bytes, number and rest.\<close>

fun pack_entries :: "nat \<Rightarrow> nat \<Rightarrow> wifi_scan_entry list \<Rightarrow> u8 list \<times> nat \<times> wifi_scan_entry list" where
  "pack_entries n pos [] = ([], 0, [])"
| "pack_entries 0 pos (e # es) = ([], 0, e # es)"
| "pack_entries (Suc n) pos (e # es) =
     (case encode_scan_entry e (SCAN_PUSH_PAYLOAD_CAP - pos) of
        None \<Rightarrow> ([], 0, e # es)
      | Some b \<Rightarrow> (case pack_entries n (pos + length b) es of (bs, k, rest) \<Rightarrow> (b @ bs, Suc k, rest)))"

definition scan_frame :: "u8 \<Rightarrow> wifi_scan_entry list \<Rightarrow> u8 list" where
  "scan_frame frame_index es =
     (case pack_entries SCAN_PUSH_ENTRIES_PER_FRAME 3 es of (bs, k, rest) \<Rightarrow>
        [frame_index, if rest = [] then 1 else 0, word_of_nat k] @ bs)"

definition scan_rest :: "wifi_scan_entry list \<Rightarrow> wifi_scan_entry list" where
  "scan_rest es = snd (snd (pack_entries SCAN_PUSH_ENTRIES_PER_FRAME 3 es))"

text \<open>
  The outer \<^verbatim>\<open>do ... while (i < count)\<close> loop: the payloads sent.  An entry that does not fit
  an empty frame would make the loop send empty frames for ever, which is the value \<open>None\<close>.
\<close>

partial_function (option) scan_payloads :: "u8 \<Rightarrow> wifi_scan_entry list \<Rightarrow> u8 list list option" where
  "scan_payloads frame_index es =
     (if scan_rest es = [] then Some [scan_frame frame_index es]
      else Option.bind (scan_payloads (frame_index + 1) (scan_rest es))
             (\<lambda>fs. Some (scan_frame frame_index es # fs)))"

definition send_scan_results ::
  "'k option \<Rightarrow> u8 \<Rightarrow> wifi_scan_entry list \<Rightarrow> ('k, 'w) svc \<Rightarrow> ('k, 'w) svc option" where
  "send_scan_results sink sq entries st =
     map_option (\<lambda>ps. fold (\<lambda>p. send_proto_push sink sq PROTO_CMDSET_NETWORK PROTO_CMDID_PUSH_SCAN_RESULT
                              p (word_of_nat (length p))) ps st)
       (scan_payloads 0 entries)"

definition wifi_scan_worker ::
  "'w wifi_ops \<Rightarrow> 'k wifi_scan_job \<Rightarrow> ('k, 'w) svc \<Rightarrow> ('k, 'w) svc option" where
  "wifi_scan_worker ops job st =
     (case wo_scan ops (sv_world st) of (r, w1) \<Rightarrow>
        map_option (proto_sink_release (sj_sink job))
          (send_scan_results (sj_sink job) (sj_seq job) (case r of Some es \<Rightarrow> es | None \<Rightarrow> [])
             (st\<lparr>sv_world := w1\<rparr>)))"

definition trigger_wifi_scan ::
  "u8 \<Rightarrow> 'k option \<Rightarrow> ('k, 'w) svc \<Rightarrow> (u8 + unit) \<times> ('k, 'w) svc" where
  "trigger_wifi_scan sq sink st =
     (case fault st of (oom, st1) \<Rightarrow>
        if oom then (Inl PROTO_ERRCODE_UNKNOWN, st1)
        else
          let job = \<lparr>sj_seq = sq, sj_sink = sink\<rparr>;
              st2 = proto_sink_retain sink st1
          in (case fault st2 of (fail, st3) \<Rightarrow>
                if fail then (Inl PROTO_ERRCODE_UNKNOWN, proto_sink_release sink st3)
                else (Inr (), st3\<lparr>sv_jobs := sv_jobs st3 @ [Scan_job job]\<rparr>)))"

section \<open>The frame dispatcher\<close>

text \<open>\<^verbatim>\<open>memcpy(a, p, n); a[n] = 0\<close>\<close>

definition store_text :: "u8 list \<Rightarrow> u8 list \<Rightarrow> u8 list" where
  "store_text a p = (p @ drop (length p) a)[length p := 0]"

definition frame_bytes :: "proto_frame \<Rightarrow> u8 list" where
  "frame_bytes f = (case pf_payload f of Some p \<Rightarrow> p | None \<Rightarrow> [])"

definition handle_get_wifi_state ::
  "'w wifi_ops \<Rightarrow> proto_frame \<Rightarrow> 'k option \<Rightarrow> ('k, 'w) svc \<Rightarrow> ('k, 'w) svc" where
  "handle_get_wifi_state ops f sink st =
     (case wo_is_connected ops (sv_world st) of (c, w) \<Rightarrow>
        send_proto_frame sink PROTO_TYPE_RESP (pf_seq f) (pf_command_set f) (pf_command_id f)
          (Some [if c then PROTO_WIFI_CONNECTED else PROTO_WIFI_DISCONNECTED]) 1 (st\<lparr>sv_world := w\<rparr>))"

definition handle_ssid :: "proto_frame \<Rightarrow> 'k option \<Rightarrow> ('k, 'w) svc \<Rightarrow> ('k, 'w) svc" where
  "handle_ssid f sink st =
     (let respond = send_proto_response sink (pf_seq f) (pf_command_set f) (pf_command_id f) in
      if pf_msg_len f = 0 \<or> unat (pf_msg_len f) > WIFI_SSID_MAX then respond PROTO_ERRCODE_UNKNOWN st
      else respond PROTO_ERRCODE_NONE
        (st\<lparr>s_pending_ssid := store_text (s_pending_ssid st) (frame_bytes f),
            s_pending_ssid_len := ucast (pf_msg_len f)\<rparr>))"

definition handle_passwd :: "proto_frame \<Rightarrow> 'k option \<Rightarrow> ('k, 'w) svc \<Rightarrow> ('k, 'w) svc" where
  "handle_passwd f sink st =
     (let respond = send_proto_response sink (pf_seq f) (pf_command_set f) (pf_command_id f) in
      if pf_msg_len f = 0 \<or> unat (pf_msg_len f) > WIFI_PASSWD_MAX then respond PROTO_ERRCODE_UNKNOWN st
      else respond PROTO_ERRCODE_NONE
        (st\<lparr>s_pending_passwd := store_text (s_pending_passwd st) (frame_bytes f),
            s_pending_passwd_len := ucast (pf_msg_len f)\<rparr>))"

text \<open>The reply to CONNECT and SCAN_WIFI: in progress, or the immediate error.\<close>

definition reply_trigger ::
  "proto_frame \<Rightarrow> 'k option \<Rightarrow> (u8 + unit) \<times> ('k, 'w) svc \<Rightarrow> ('k, 'w) svc" where
  "reply_trigger f sink r =
     send_proto_response sink (pf_seq f) (pf_command_set f) (pf_command_id f)
       (case fst r of Inr _ \<Rightarrow> PROTO_ERRCODE_IN_PROGRESS | Inl e \<Rightarrow> e) (snd r)"

definition handle_get_ap_ssid ::
  "'w wifi_ops \<Rightarrow> proto_frame \<Rightarrow> 'k option \<Rightarrow> ('k, 'w) svc \<Rightarrow> ('k, 'w) svc" where
  "handle_get_ap_ssid ops f sink st =
     (case wo_get_ap_credentials ops 64 128 (sv_world st) of ((rc, ssid, pwd), w) \<Rightarrow>
      let st1 = st\<lparr>sv_world := w\<rparr>; n = min (length ssid) (PROTO_PAYLOAD_MAX - 1) in
      if rc = 0 \<and> ssid \<noteq> []
      then send_proto_response_data sink (pf_seq f) (pf_command_set f) (pf_command_id f) PROTO_ERRCODE_NONE
             (map byte_of_char ssid) (word_of_nat n) st1
      else send_proto_response sink (pf_seq f) (pf_command_set f) (pf_command_id f) PROTO_ERRCODE_UNKNOWN st1)"

definition handle_get_ap_passwd ::
  "'w wifi_ops \<Rightarrow> proto_frame \<Rightarrow> 'k option \<Rightarrow> ('k, 'w) svc \<Rightarrow> ('k, 'w) svc" where
  "handle_get_ap_passwd ops f sink st =
     (case wo_get_ap_credentials ops 64 128 (sv_world st) of ((rc, ssid, pwd), w) \<Rightarrow>
      let st1 = st\<lparr>sv_world := w\<rparr>; n = min (length pwd) (PROTO_PAYLOAD_MAX - 1) in
      if rc = 0
      then send_proto_response_data sink (pf_seq f) (pf_command_set f) (pf_command_id f) PROTO_ERRCODE_NONE
             (map byte_of_char pwd) (word_of_nat n) st1
      else send_proto_response sink (pf_seq f) (pf_command_set f) (pf_command_id f) PROTO_ERRCODE_UNKNOWN st1)"

definition handle_switch_to_ap ::
  "'w wifi_ops \<Rightarrow> proto_frame \<Rightarrow> 'k option \<Rightarrow> ('k, 'w) svc \<Rightarrow> ('k, 'w) svc" where
  "handle_switch_to_ap ops f sink st =
     (case wo_ensure_ap_mode ops (sv_world st) of (status, w) \<Rightarrow>
        send_proto_response sink (pf_seq f) (pf_command_set f) (pf_command_id f)
          (wifi_status_to_errcode status) (st\<lparr>sv_world := w\<rparr>))"

definition handle_proto_frame ::
  "'w wifi_ops \<Rightarrow> proto_frame \<Rightarrow> 'k option \<Rightarrow> ('k, 'w) svc \<Rightarrow> ('k, 'w) svc" where
  "handle_proto_frame ops f sink st =
     (let cs = pf_command_set f; cid = pf_command_id f;
          respond = send_proto_response sink (pf_seq f) cs cid in
      if pf_type f \<noteq> PROTO_TYPE_REQ then st
      else if cs \<noteq> PROTO_CMDSET_NETWORK then respond PROTO_ERRCODE_BAD_CMD st
      else if cid = PROTO_CMDID_GET_WIFI_STATE then handle_get_wifi_state ops f sink st
      else if cid = PROTO_CMDID_STATUS then respond PROTO_ERRCODE_NONE st
      else if cid = PROTO_CMDID_SSID then handle_ssid f sink st
      else if cid = PROTO_CMDID_PASSWD then handle_passwd f sink st
      else if cid = PROTO_CMDID_CONNECT then reply_trigger f sink (trigger_wifi_connect (pf_seq f) sink st)
      else if cid = PROTO_CMDID_GET_AP_SSID then handle_get_ap_ssid ops f sink st
      else if cid = PROTO_CMDID_SCAN_WIFI then reply_trigger f sink (trigger_wifi_scan (pf_seq f) sink st)
      else if cid = PROTO_CMDID_GET_AP_PASSWD then handle_get_ap_passwd ops f sink st
      else if cid = PROTO_CMDID_SWITCH_TO_AP then handle_switch_to_ap ops f sink st
      else respond PROTO_ERRCODE_BAD_CMD st)"

text \<open>\<open>data\<close> is what remains of the buffer from \<^verbatim>\<open>off\<close> on.\<close>

function proto_dispatch_buffer ::
  "'w wifi_ops \<Rightarrow> u8 list \<Rightarrow> 'k option \<Rightarrow> ('k, 'w) svc \<Rightarrow> ('k, 'w) svc" where
  "proto_dispatch_buffer ops data sink st =
     (if data = [] then st
      else (case proto_decode (Some data) True of
              Inl _ \<Rightarrow> st
            | Inr f \<Rightarrow> proto_dispatch_buffer ops (drop (pf_frame_size f) data) sink
                        (handle_proto_frame ops f sink st)))"
  by pat_completeness auto

termination
proof (relation "measure (\<lambda>(ops, data, sink, st). length data)", goal_cases)
  case 1
  then show ?case by simp
next
  case (2 ops data sink st f)
  then have "0 < pf_frame_size f"
    using proto_decode_frame(1) [OF 2(2)] by (simp add: PROTO_HDR_LEN_def)
  with 2(1) show ?case by simp
qed

declare proto_dispatch_buffer.simps [simp del]

section \<open>The service as a transition system\<close>

text \<open>
  A transport delivers a buffer for a sink, or a worker that was started runs to its end.
  Workers may finish in any order and while requests keep coming.
\<close>

definition run_job :: "'w wifi_ops \<Rightarrow> 'k job \<Rightarrow> ('k, 'w) svc \<Rightarrow> ('k, 'w) svc option" where
  "run_job ops j st = (case j of
     Connect_job job \<Rightarrow> Some (wifi_connect_worker ops job st)
   | Scan_job job \<Rightarrow> wifi_scan_worker ops job st)"

inductive svc_step :: "'w wifi_ops \<Rightarrow> ('k, 'w) svc \<Rightarrow> ('k, 'w) svc \<Rightarrow> bool" for ops where
  step_receive: "svc_step ops st (proto_dispatch_buffer ops data (Some k) st)"
| step_worker: "i < length (sv_jobs st) \<Longrightarrow>
    run_job ops (sv_jobs st ! i)
      (st\<lparr>sv_jobs := take i (sv_jobs st) @ drop (Suc i) (sv_jobs st)\<rparr>) = Some st' \<Longrightarrow>
    svc_step ops st st'"

inductive svc_reachable :: "'w wifi_ops \<Rightarrow> ('k, 'w) svc \<Rightarrow> bool" for ops where
  reach_init: "svc_reachable ops ((svc_init w)\<lparr>sv_faults := fl\<rparr>)"
| reach_step: "svc_reachable ops st \<Longrightarrow> svc_step ops st st' \<Longrightarrow> svc_reachable ops st'"

inductive_cases svc_stepE: "svc_step ops st st'"

section \<open>Sending\<close>

lemma sink_call_Some: "sink_call (Some k) c st = st\<lparr>sv_calls := sv_calls st @ [(k, c)]\<rparr>"
  by (simp add: sink_call_def)

lemmas sink_ops = proto_sink_send_def proto_sink_retain_def proto_sink_release_def sink_call_Some

lemma send_proto_frame_wire:
  assumes "length p \<le> PROTO_PAYLOAD_MAX"
  shows "send_proto_frame (Some k) ty sq cs cid (Some p) (word_of_nat (length p)) st =
    st\<lparr>sv_calls := sv_calls st @ [(k, Snk_send (wire_of ty sq cs cid p))]\<rparr>"
  using assms by (simp add: send_proto_frame_def proto_encode_wire sink_ops)

lemma send_proto_response_wire [simp]:
  "send_proto_response (Some k) sq cs cid e st =
    st\<lparr>sv_calls := sv_calls st @ [(k, Snk_send (wire_of PROTO_TYPE_RESP sq cs cid [e]))]\<rparr>"
  using send_proto_frame_wire [of "[e]" k PROTO_TYPE_RESP sq cs cid st]
  by (simp add: send_proto_response_def PROTO_PAYLOAD_MAX_def)

lemma send_proto_state_wire [simp]:
  "send_proto_frame (Some k) ty sq cs cid (Some [e]) 1 st =
    st\<lparr>sv_calls := sv_calls st @ [(k, Snk_send (wire_of ty sq cs cid [e]))]\<rparr>"
  using send_proto_frame_wire [of "[e]" k ty sq cs cid st] by (simp add: PROTO_PAYLOAD_MAX_def)

lemma send_proto_response_data_wire:
  assumes "length d < PROTO_PAYLOAD_MAX"
  shows "send_proto_response_data (Some k) sq cs cid e d (word_of_nat (length d)) st =
    st\<lparr>sv_calls := sv_calls st @ [(k, Snk_send (wire_of PROTO_TYPE_RESP sq cs cid (e # d)))]\<rparr>"
proof -
  have "unat (word_of_nat (length d) :: u16) = length d"
    using assms by (intro unat_word_of_length) simp
  moreover have "(word_of_nat (length d) + 1 :: u16) = word_of_nat (length (e # d))" by simp
  ultimately show ?thesis
    using assms send_proto_frame_wire [of "e # d" k PROTO_TYPE_RESP sq cs cid st]
    by (simp add: send_proto_response_data_def add.commute)
qed

lemma fault_frame [simp]:
  "sv_calls (snd (fault st)) = sv_calls st" "sv_jobs (snd (fault st)) = sv_jobs st"
  "sv_world (snd (fault st)) = sv_world st"
  "s_pending_ssid (snd (fault st)) = s_pending_ssid st"
  "s_pending_ssid_len (snd (fault st)) = s_pending_ssid_len st"
  "s_pending_passwd (snd (fault st)) = s_pending_passwd st"
  "s_pending_passwd_len (snd (fault st)) = s_pending_passwd_len st"
  by (simp_all add: fault_def split: list.split)

lemma fault_none [simp]: "sv_faults st = [] \<Longrightarrow> fault st = (False, st)"
  by (simp add: fault_def)

section \<open>What handling one frame does\<close>

text \<open>
  The calls a handler makes on its sink, and the workers it leaves behind: references taken
  and given back, then exactly one response.
\<close>

definition ref_count :: "'k \<Rightarrow> ('k \<times> sink_call) list \<Rightarrow> int" where
  "ref_count k cs = int (count_list cs (k, Snk_retain)) - int (count_list cs (k, Snk_release))"

lemma ref_count_append [simp]: "ref_count k (a @ b) = ref_count k a + ref_count k b"
  by (simp add: ref_count_def)

lemma ref_count_Nil [simp]: "ref_count k [] = 0"
  by (simp add: ref_count_def)

lemma ref_count_Cons:
  "ref_count k (c # cs) = (if c = (k, Snk_retain) then 1 else if c = (k, Snk_release) then -1 else 0) + ref_count k cs"
  by (simp add: ref_count_def)

text \<open>Never more references given back than taken, at any point of the sequence.\<close>

definition balanced :: "'k \<Rightarrow> ('k \<times> sink_call) list \<Rightarrow> bool" where
  "balanced k cs \<longleftrightarrow> list_all (\<lambda>c. fst c = k) cs \<and> (\<forall>n \<le> length cs. 0 \<le> ref_count k (take n cs))"

lemma balanced_Nil [simp]: "balanced k []"
  by (simp add: balanced_def)

lemma balanced_append:
  assumes "balanced k a" and "balanced k b"
  shows "balanced k (a @ b)"
proof -
  have "0 \<le> ref_count k a" using assms(1) by (auto simp: balanced_def dest: spec [of _ "length a"])
  moreover have "0 \<le> ref_count k (take (n - length a) b)" if "n \<le> length (a @ b)" for n
    using assms(2) that by (simp add: balanced_def)
  moreover have "0 \<le> ref_count k (take n a)" if "n \<le> length a" for n
    using assms(1) that by (simp add: balanced_def)
  ultimately have "0 \<le> ref_count k (take n (a @ b))" if "n \<le> length (a @ b)" for n
    using that by (cases "n \<le> length a") (simp_all add: add_nonneg_nonneg)
  then show ?thesis using assms by (simp add: balanced_def)
qed

lemma balanced_units:
  "balanced k [(k, Snk_send d)]" "balanced k [(k, Snk_retain)]" "balanced k [(k, Snk_retain), (k, Snk_release)]"
  by (auto simp: balanced_def ref_count_def le_Suc_eq numeral_2_eq_2)

fun job_sink :: "'k job \<Rightarrow> 'k option" where
  "job_sink (Connect_job j) = cj_sink j"
| "job_sink (Scan_job j) = sj_sink j"

text \<open>One response on sink \<open>k\<close>, after reference calls that match the workers started.\<close>

definition answers :: "'k \<Rightarrow> proto_frame \<Rightarrow> ('k, 'w) svc \<Rightarrow> ('k, 'w) svc \<Rightarrow> bool" where
  "answers k f st st' \<longleftrightarrow> (\<exists>refs p js.
     sv_calls st' = sv_calls st @ map (Pair k) refs @
       [(k, Snk_send (wire_of PROTO_TYPE_RESP (pf_seq f) (pf_command_set f) (pf_command_id f) p))] \<and>
     p \<noteq> [] \<and> length p \<le> PROTO_PAYLOAD_MAX \<and> set refs \<subseteq> {Snk_retain, Snk_release} \<and>
     sv_jobs st' = sv_jobs st @ js \<and> list_all (\<lambda>j. job_sink j = Some k) js \<and>
     balanced k (map (Pair k) refs) \<and> ref_count k (map (Pair k) refs) = int (length js))"

lemma answersI:
  assumes "sv_calls st' = sv_calls st @ map (Pair k) refs @
       [(k, Snk_send (wire_of PROTO_TYPE_RESP (pf_seq f) (pf_command_set f) (pf_command_id f) p))]"
    and "p \<noteq> []" "length p \<le> PROTO_PAYLOAD_MAX" "set refs \<subseteq> {Snk_retain, Snk_release}"
    and "sv_jobs st' = sv_jobs st @ js" "list_all (\<lambda>j. job_sink j = Some k) js"
    and "balanced k (map (Pair k) refs)" and "ref_count k (map (Pair k) refs) = int (length js)"
  shows "answers k f st st'"
  using assms unfolding answers_def by blast

lemma answers_simple:
  assumes "sv_calls st' = sv_calls st @
       [(k, Snk_send (wire_of PROTO_TYPE_RESP (pf_seq f) (pf_command_set f) (pf_command_id f) p))]"
    and "p \<noteq> []" "length p \<le> PROTO_PAYLOAD_MAX" "sv_jobs st' = sv_jobs st"
  shows "answers k f st st'"
  by (rule answersI [where refs = "[]" and js = "[]"]) (use assms in simp_all)

text \<open>The three outcomes of starting a worker: refused, no thread, running.\<close>

definition trigger_outcome :: "'k \<Rightarrow> ('k, 'w) svc \<Rightarrow> (u8 + unit) \<times> ('k, 'w) svc \<Rightarrow> bool" where
  "trigger_outcome k st r \<longleftrightarrow>
     (\<exists>e. fst r = Inl e) \<and> sv_calls (snd r) = sv_calls st \<and> sv_jobs (snd r) = sv_jobs st \<or>
     (\<exists>e. fst r = Inl e) \<and> sv_calls (snd r) = sv_calls st @ [(k, Snk_retain), (k, Snk_release)] \<and>
       sv_jobs (snd r) = sv_jobs st \<or>
     fst r = Inr () \<and> sv_calls (snd r) = sv_calls st @ [(k, Snk_retain)] \<and>
       (\<exists>j. sv_jobs (snd r) = sv_jobs st @ [j] \<and> job_sink j = Some k)"

lemma spawn_outcome:
  assumes "sv_calls st1 = sv_calls st" and "sv_jobs st1 = sv_jobs st" and "job_sink j = Some k"
  shows "trigger_outcome k st (case fault (proto_sink_retain (Some k) st1) of (fail, st3) \<Rightarrow>
           if fail then (Inl e, proto_sink_release (Some k) st3)
           else (Inr (), st3\<lparr>sv_jobs := sv_jobs st3 @ [j]\<rparr>))"
proof -
  let ?st2 = "proto_sink_retain (Some k) st1"
  obtain fail st3 where 3: "fault ?st2 = (fail, st3)" by (cases "fault ?st2")
  have "sv_calls st3 = sv_calls ?st2" "sv_jobs st3 = sv_jobs ?st2"
    by (metis 3 fault_frame(1) snd_conv, metis 3 fault_frame(2) snd_conv)
  then have "sv_calls st3 = sv_calls st @ [(k, Snk_retain)]" "sv_jobs st3 = sv_jobs st"
    using assms by (simp_all add: sink_ops)
  then show ?thesis
    unfolding 3 using assms(3) by (auto simp: trigger_outcome_def sink_ops)
qed

lemma trigger_outcomes:
  "trigger_outcome k st (trigger_wifi_connect sq (Some k) st)"
  "trigger_outcome k st (trigger_wifi_scan sq (Some k) st)"
proof -
  obtain oom st1 where 1: "fault st = (oom, st1)" by (cases "fault st")
  have st1: "sv_calls st1 = sv_calls st" "sv_jobs st1 = sv_jobs st"
    by (metis 1 fault_frame(1) snd_conv, metis 1 fault_frame(2) snd_conv)
  note spawn = spawn_outcome [OF st1, where e = PROTO_ERRCODE_UNKNOWN]
  have none: "trigger_outcome k st (Inl e, st)" "trigger_outcome k st (Inl e, st1)" for e
    using st1 by (auto simp: trigger_outcome_def)
  show "trigger_outcome k st (trigger_wifi_connect sq (Some k) st)"
    by (auto simp: trigger_wifi_connect_def Let_def 1 none intro!: spawn)
  show "trigger_outcome k st (trigger_wifi_scan sq (Some k) st)"
    by (auto simp: trigger_wifi_scan_def Let_def 1 none intro!: spawn)
qed

lemma reply_trigger_answers:
  assumes "trigger_outcome k st r"
  shows "answers k f st (reply_trigger f (Some k) r)"
  using assms unfolding trigger_outcome_def
proof (elim disjE exE conjE)
  fix e assume "fst r = Inl e" "sv_calls (snd r) = sv_calls st" "sv_jobs (snd r) = sv_jobs st"
  then show ?thesis
    by (intro answersI [where refs = "[]" and js = "[]"]) (auto simp: reply_trigger_def PROTO_PAYLOAD_MAX_def)
next
  fix e assume "fst r = Inl e" "sv_calls (snd r) = sv_calls st @ [(k, Snk_retain), (k, Snk_release)]"
    "sv_jobs (snd r) = sv_jobs st"
  then show ?thesis
    by (intro answersI [where refs = "[Snk_retain, Snk_release]" and js = "[]"])
       (auto simp: reply_trigger_def PROTO_PAYLOAD_MAX_def ref_count_Cons balanced_units)
next
  fix j assume "fst r = Inr ()" "sv_calls (snd r) = sv_calls st @ [(k, Snk_retain)]"
    "sv_jobs (snd r) = sv_jobs st @ [j]" "job_sink j = Some k"
  then show ?thesis
    by (intro answersI [where refs = "[Snk_retain]" and js = "[j]"])
       (auto simp: reply_trigger_def PROTO_PAYLOAD_MAX_def ref_count_Cons balanced_units)
qed

lemma handle_proto_frame_ignored: "pf_type f \<noteq> PROTO_TYPE_REQ \<Longrightarrow> handle_proto_frame ops f sink st = st"
  by (simp add: handle_proto_frame_def)

lemma answers_text:
  assumes "length s < PROTO_PAYLOAD_MAX"
  shows "answers k f st (send_proto_response_data (Some k) (pf_seq f) (pf_command_set f) (pf_command_id f) e
    (map byte_of_char s) (word_of_nat (min (length s) (PROTO_PAYLOAD_MAX - 1))) (st\<lparr>sv_world := w\<rparr>))"
proof -
  have n: "min (length s) (PROTO_PAYLOAD_MAX - 1) = length (map byte_of_char s)" using assms by simp
  have "length (map byte_of_char s) < PROTO_PAYLOAD_MAX" using assms by simp
  then show ?thesis
    unfolding n send_proto_response_data_wire [OF \<open>length (map byte_of_char s) < PROTO_PAYLOAD_MAX\<close>]
    by (intro answers_simple [where p = "e # map byte_of_char s"]) simp_all
qed

lemma answers_code:
  "sv_calls st' = sv_calls st \<Longrightarrow> sv_jobs st' = sv_jobs st \<Longrightarrow>
   answers k f st (send_proto_response (Some k) (pf_seq f) (pf_command_set f) (pf_command_id f) e st')"
  by (intro answers_simple [where p = "[e]"]) (auto simp: PROTO_PAYLOAD_MAX_def)

lemma answers_if:
  "(b \<Longrightarrow> answers k f st x) \<Longrightarrow> (\<not> b \<Longrightarrow> answers k f st y) \<Longrightarrow> answers k f st (if b then x else y)"
  by simp

context wifi_backend
begin

lemma ap_replies:
  "answers k f st (handle_get_ap_ssid ops f (Some k) st)"
  "answers k f st (handle_get_ap_passwd ops f (Some k) st)"
proof -
  obtain rc ssid pwd w where c: "wo_get_ap_credentials ops 64 128 (sv_world st) = ((rc, ssid, pwd), w)"
    by (metis prod.exhaust)
  have "length ssid < PROTO_PAYLOAD_MAX" "length pwd < PROTO_PAYLOAD_MAX"
    using ap_ssid_fits [OF c] ap_pwd_fits [OF c] by (simp_all add: PROTO_PAYLOAD_MAX_def)
  then show "answers k f st (handle_get_ap_ssid ops f (Some k) st)"
    and "answers k f st (handle_get_ap_passwd ops f (Some k) st)"
    using answers_text answers_code [of "st\<lparr>sv_world := w\<rparr>" st]
    by (auto simp: handle_get_ap_ssid_def handle_get_ap_passwd_def c Let_def simp del: send_proto_response_wire)
qed

lemma handle_answers:
  assumes "pf_type f = PROTO_TYPE_REQ"
  shows "answers k f st (handle_proto_frame ops f (Some k) st)"
proof -
  have "answers k f st (handle_get_wifi_state ops f (Some k) st)"
    by (cases "wo_is_connected ops (sv_world st)")
       (auto simp: handle_get_wifi_state_def PROTO_PAYLOAD_MAX_def intro!: answers_simple)
  moreover have "answers k f st (handle_switch_to_ap ops f (Some k) st)"
    by (cases "wo_ensure_ap_mode ops (sv_world st)")
       (auto simp: handle_switch_to_ap_def simp del: send_proto_response_wire intro!: answers_code)
  moreover have "answers k f st (handle_ssid f (Some k) st)" "answers k f st (handle_passwd f (Some k) st)"
    by (auto simp: handle_ssid_def handle_passwd_def Let_def simp del: send_proto_response_wire intro!: answers_code)
  moreover have "answers k f st (send_proto_response (Some k) (pf_seq f) (pf_command_set f) (pf_command_id f) e st)" for e
    by (rule answers_code) simp_all
  ultimately show ?thesis
    unfolding handle_proto_frame_def Let_def
    by (intro answers_if ap_replies reply_trigger_answers trigger_outcomes) (use assms in simp_all)
qed

end

section \<open>Streams of frames\<close>

text \<open>A frame to be sent: type, sequence number, command set, command and payload.\<close>

type_synonym message = "u8 \<times> u8 \<times> u8 \<times> u8 \<times> u8 list"

fun msg_wire :: "message \<Rightarrow> u8 list" where
  "msg_wire (ty, sq, cs, cid, p) = wire_of ty sq cs cid p"

fun msg_frame :: "message \<Rightarrow> proto_frame" where
  "msg_frame (ty, sq, cs, cid, p) =
     \<lparr>pf_crc = 0, pf_type = ty, pf_seq = sq, pf_command_set = cs, pf_command_id = cid,
      pf_msg_len = word_of_nat (length p), pf_payload = (if p = [] then None else Some p),
      pf_frame_size = PROTO_HDR_LEN + length p\<rparr>"

fun msg_ok :: "message \<Rightarrow> bool" where
  "msg_ok (ty, sq, cs, cid, p) \<longleftrightarrow> length p \<le> PROTO_PAYLOAD_MAX"

lemma dispatch_msg:
  assumes "msg_ok m"
  shows "proto_dispatch_buffer ops (msg_wire m @ rest) sink st =
    proto_dispatch_buffer ops rest sink (handle_proto_frame ops (msg_frame m) sink st)"
proof -
  obtain ty sq cs cid p where m: "m = (ty, sq, cs, cid, p)" by (cases m)
  have len: "length p \<le> PROTO_PAYLOAD_MAX" using assms m by simp
  have "wire_of ty sq cs cid p \<noteq> []" by (simp add: wire_of_def proto_header_def)
  then show ?thesis
    unfolding m proto_dispatch_buffer.simps [of ops "msg_wire (ty, sq, cs, cid, p) @ rest"]
    using proto_decode_wire [OF len] by simp
qed

lemma dispatch_msgs:
  assumes "list_all msg_ok ms"
  shows "proto_dispatch_buffer ops (concat (map msg_wire ms) @ rest) sink st =
    proto_dispatch_buffer ops rest sink (fold (\<lambda>m. handle_proto_frame ops (msg_frame m) sink) ms st)"
  using assms by (induction ms arbitrary: st) (simp_all add: dispatch_msg)

lemma dispatch_garbage:
  "(\<nexists>f. proto_decode (Some d) True = Inr f) \<Longrightarrow> proto_dispatch_buffer ops d sink st = st"
  by (subst proto_dispatch_buffer.simps) (auto split: sum.split)

section \<open>Scan results on the wire\<close>

definition entry_bytes :: "wifi_scan_entry \<Rightarrow> u8 list" where
  "entry_bytes e = word_of_nat (length (e_ssid e)) # e_ssid e @ [e_rssi e, e_auth_type e, e_band e]"

lemma valid_entry_bytes:
  assumes "valid_entry e"
  shows "length (entry_bytes e) \<le> 36" and "36 \<le> cap \<Longrightarrow> encode_scan_entry e cap = Some (entry_bytes e)"
  using assms by (simp_all add: valid_entry_def entry_bytes_def encode_scan_entry_def WIFI_SCAN_SSID_MAX_def)

lemma pack_entries_valid:
  assumes "list_all valid_entry es" and "pos + 36 * n \<le> SCAN_PUSH_PAYLOAD_CAP"
  shows "pack_entries n pos es = (concat (map entry_bytes (take n es)), min n (length es), drop n es)"
  using assms
proof (induction n pos es rule: pack_entries.induct)
  case (3 n pos e es)
  then have v: "valid_entry e" and cap: "36 \<le> SCAN_PUSH_PAYLOAD_CAP - pos" by simp_all
  note b = valid_entry_bytes(2) [OF v cap]
  have "pos + length (entry_bytes e) + 36 * n \<le> SCAN_PUSH_PAYLOAD_CAP"
    using "3.prems" valid_entry_bytes(1) [OF v] by simp
  with 3 b show ?case by simp
qed auto

lemma length_entries:
  "list_all valid_entry es \<Longrightarrow> length (concat (map entry_bytes es)) \<le> 36 * length es"
proof (induction es)
  case (Cons e es)
  then show ?case using valid_entry_bytes(1) [of e] by simp
qed simp

lemma scan_frame_valid:
  assumes "list_all valid_entry es"
  shows "scan_rest es = drop 5 es"
    and "scan_frame i es = [i, if length es \<le> 5 then 1 else 0, word_of_nat (min 5 (length es))] @
           concat (map entry_bytes (take 5 es))"
    and "length (scan_frame i es) \<le> SCAN_PUSH_PAYLOAD_CAP"
proof -
  have p: "pack_entries SCAN_PUSH_ENTRIES_PER_FRAME 3 es =
      (concat (map entry_bytes (take 5 es)), min 5 (length es), drop 5 es)"
    using pack_entries_valid [OF assms, of 3 5] by (simp add: dispatch_consts)
  show "scan_rest es = drop 5 es" by (simp add: scan_rest_def p)
  show f: "scan_frame i es = [i, if length es \<le> 5 then 1 else 0, word_of_nat (min 5 (length es))] @
           concat (map entry_bytes (take 5 es))"
    by (simp add: scan_frame_def p)
  have "list_all valid_entry (take 5 es)" using assms by (auto simp: list_all_iff dest: in_set_takeD)
  from length_entries [OF this] show "length (scan_frame i es) \<le> SCAN_PUSH_PAYLOAD_CAP"
    unfolding f by (simp add: dispatch_consts)
qed

text \<open>The receiver's view: the entries of one payload, and of all payloads of a scan.\<close>

fun read_entries :: "nat \<Rightarrow> u8 list \<Rightarrow> wifi_scan_entry list option" where
  "read_entries 0 bs = (if bs = [] then Some [] else None)"
| "read_entries (Suc n) [] = None"
| "read_entries (Suc n) (l # bs) =
     (let k = unat l; r = drop k bs in
      if length r < 3 then None
      else map_option (Cons \<lparr>e_ssid = take k bs, e_rssi = r ! 0, e_auth_type = r ! 1, e_band = r ! 2\<rparr>)
             (read_entries n (drop 3 r)))"

fun read_payload :: "u8 list \<Rightarrow> wifi_scan_entry list option" where
  "read_payload (idx # flags # n # bs) = read_entries (unat n) bs"
| "read_payload _ = None"

lemma read_entries_bytes:
  assumes "list_all valid_entry es"
  shows "read_entries (length es) (concat (map entry_bytes es)) = Some es"
  using assms
proof (induction es)
  case (Cons e es)
  have "length (e_ssid e) < 256" using Cons.prems by (simp add: valid_entry_def WIFI_SCAN_SSID_MAX_def)
  then have "unat (word_of_nat (length (e_ssid e)) :: u8) = length (e_ssid e)" by (simp add: unat_of_nat)
  with Cons show ?case by (simp add: entry_bytes_def numeral_eq_Suc)
qed simp

lemma read_scan_frame:
  assumes "list_all valid_entry es"
  shows "read_payload (scan_frame i es) = Some (take 5 es)"
proof -
  have "list_all valid_entry (take 5 es)" using assms by (auto simp: list_all_iff dest: in_set_takeD)
  from read_entries_bytes [OF this] show ?thesis
    by (simp add: scan_frame_valid [OF assms] unat_of_nat min.commute)
qed

text \<open>The payloads of a scan, as the receiver expects them from index \<open>i\<close> on.\<close>

definition scan_stream :: "u8 \<Rightarrow> wifi_scan_entry list \<Rightarrow> u8 list list \<Rightarrow> bool" where
  "scan_stream i es fs \<longleftrightarrow> fs \<noteq> [] \<and>
     (\<forall>j < length fs. fs ! j ! 0 = i + word_of_nat j \<and> fs ! j ! 1 = (if Suc j = length fs then 1 else 0) \<and>
        length (fs ! j) \<le> SCAN_PUSH_PAYLOAD_CAP) \<and>
     those (map read_payload fs) \<noteq> None \<and> concat (the (those (map read_payload fs))) = es"

lemma scan_payloads_valid:
  "list_all valid_entry es \<Longrightarrow> \<exists>fs. scan_payloads i es = Some fs \<and> scan_stream i es fs \<and>
     length fs = max 1 ((length es + 4) div 5)"
proof (induction "length es" arbitrary: i es rule: less_induct)
  case less
  note f = scan_frame_valid [OF less.prems] and rd = read_scan_frame [OF less.prems]
  show ?case
  proof (cases "length es \<le> 5")
    case True
    then have "scan_payloads i es = Some [scan_frame i es]"
      by (subst scan_payloads.simps) (simp add: f(1))
    moreover have "scan_stream i es [scan_frame i es]"
      using True f(3) rd by (simp add: scan_stream_def f(2))
    moreover have "(length es + 4) div 5 \<le> 1" using True by linarith
    ultimately show ?thesis by (intro exI [of _ "[scan_frame i es]"]) simp
  next
    case False
    let ?r = "drop 5 es"
    have "list_all valid_entry ?r" using less.prems by (auto simp: list_all_iff dest: in_set_dropD)
    moreover have "length ?r < length es" using False by simp
    ultimately obtain fs where fs: "scan_payloads (i + 1) ?r = Some fs" "scan_stream (i + 1) ?r fs"
        "length fs = max 1 ((length ?r + 4) div 5)"
      using less.hyps by blast
    have "scan_payloads i es = Some (scan_frame i es # fs)"
      using False fs(1) by (subst scan_payloads.simps) (simp add: f(1))
    moreover have "scan_stream i es (scan_frame i es # fs)"
      using fs(2) False f(3) rd
      by (auto simp: scan_stream_def f(2) nth_Cons' less_Suc_eq_0_disj ac_simps split: option.splits)
    moreover have "length (scan_frame i es # fs) = max 1 ((length es + 4) div 5)"
      using False fs(3) by (simp add: max_def) linarith
    ultimately show ?thesis by blast
  qed
qed

section \<open>Invariant of the service\<close>

text \<open>The pending arrays keep their size, stay terminated, and the lengths stay in bounds.\<close>

definition pending :: "('k, 'w) svc \<Rightarrow> u8 list \<times> u8 \<times> u8 list \<times> u8" where
  "pending st = (s_pending_ssid st, s_pending_ssid_len st, s_pending_passwd st, s_pending_passwd_len st)"

definition buffer_ok :: "nat \<Rightarrow> u8 list \<Rightarrow> u8 \<Rightarrow> bool" where
  "buffer_ok cap a n \<longleftrightarrow> length a = cap + 1 \<and> unat n \<le> cap \<and> a ! unat n = 0"

definition pending_ok :: "u8 list \<times> u8 \<times> u8 list \<times> u8 \<Rightarrow> bool" where
  "pending_ok p = (case p of (s, sn, w, wn) \<Rightarrow> buffer_ok WIFI_SSID_MAX s sn \<and> buffer_ok WIFI_PASSWD_MAX w wn)"

definition refs_ok :: "('k, 'w) svc \<Rightarrow> bool" where
  "refs_ok st \<longleftrightarrow> list_all (\<lambda>j. job_sink j \<noteq> None) (sv_jobs st) \<and>
     (\<forall>k. ref_count k (sv_calls st) = int (length (filter (\<lambda>j. job_sink j = Some k) (sv_jobs st))))"

definition svc_inv :: "('k, 'w) svc \<Rightarrow> bool" where
  "svc_inv st \<longleftrightarrow> pending_ok (pending st) \<and> refs_ok st"

lemma store_text_ok:
  assumes "length a = cap + 1" and "length p \<le> cap"
  shows "length (store_text a p) = cap + 1" and "store_text a p ! length p = 0"
    and "take (length p) (store_text a p) = p"
  using assms by (simp_all add: store_text_def)

lemma store_buffer_ok:
  assumes "buffer_ok cap a n" and "length p = unat l" and "unat l \<le> cap" and "cap < 256"
  shows "buffer_ok cap (store_text a p) (ucast (l :: u16))"
proof -
  have "unat (ucast l :: u8) = unat l"
    using assms by (simp add: unsigned_ucast_eq take_bit_nat_eq_self)
  with assms store_text_ok [of a cap p] show ?thesis by (simp add: buffer_ok_def)
qed

lemma pending_send [simp]:
  "pending (send_proto_frame s ty sq cs cid p n st) = pending st"
  "pending (send_proto_response s sq cs cid e st) = pending st"
  "pending (send_proto_response_data s sq cs cid e d m st) = pending st"
  "pending (proto_sink_retain s st) = pending st"
  "pending (proto_sink_release s st) = pending st"
proof -
  have call: "pending (sink_call s c st) = pending st" for s :: "'a option" and c and st :: "('a, 'b) svc"
    by (simp add: pending_def sink_call_def split: option.split)
  show frame: "pending (send_proto_frame s ty sq cs cid p n st) = pending st" for s :: "'a option" and ty sq cs cid p n
    and st :: "('a, 'b) svc"
    by (simp add: send_proto_frame_def proto_sink_send_def call split: sum.split)
  show "pending (send_proto_response s sq cs cid e st) = pending st"
    "pending (send_proto_response_data s sq cs cid e d m st) = pending st"
    by (simp_all add: send_proto_response_def send_proto_response_data_def frame)
  show "pending (proto_sink_retain s st) = pending st" "pending (proto_sink_release s st) = pending st"
    by (simp_all add: proto_sink_retain_def proto_sink_release_def call)
qed

lemma pending_fault [simp]: "fault st = (b, st') \<Longrightarrow> pending st' = pending st"
  by (auto simp: fault_def pending_def split: list.splits)

lemma pending_update [simp]:
  "pending (st\<lparr>sv_world := w\<rparr>) = pending st" "pending (st\<lparr>sv_jobs := js\<rparr>) = pending st"
  by (simp_all add: pending_def)

lemma pending_trigger [simp]:
  "pending (snd (trigger_wifi_connect sq s st)) = pending st"
  "pending (snd (trigger_wifi_scan sq s st)) = pending st"
  by (auto simp: trigger_wifi_connect_def trigger_wifi_scan_def Let_def split: prod.split)

lemma pending_reply_trigger [simp]: "pending (reply_trigger f s r) = pending (snd r)"
  by (simp add: reply_trigger_def)

lemma pending_ok_if:
  "pending_ok (pending x) \<Longrightarrow> pending_ok (pending y) \<Longrightarrow> pending_ok (pending (if b then x else y))"
  by simp

lemma handle_pending_ok:
  assumes "length (frame_bytes f) = unat (pf_msg_len f)" and "pending_ok (pending st)"
  shows "pending_ok (pending (handle_proto_frame ops f s st))"
proof -
  have "pending_ok (pending (handle_ssid f s st))" "pending_ok (pending (handle_passwd f s st))"
    using assms
    by (auto simp: handle_ssid_def handle_passwd_def Let_def pending_ok_def pending_def [of "_\<lparr>s_pending_ssid := _\<rparr>"]
        pending_def [of "_\<lparr>s_pending_passwd_len := _\<rparr>"] pending_def [of "_\<lparr>s_pending_ssid_len := _\<rparr>"]
        pending_def [of st] dispatch_consts intro!: store_buffer_ok)
  moreover have "pending (handle_get_wifi_state ops f s st) = pending st"
    "pending (handle_get_ap_ssid ops f s st) = pending st" "pending (handle_get_ap_passwd ops f s st) = pending st"
    "pending (handle_switch_to_ap ops f s st) = pending st"
    by (simp_all add: handle_get_wifi_state_def handle_get_ap_ssid_def handle_get_ap_passwd_def
        handle_switch_to_ap_def Let_def split: prod.split)
  ultimately show ?thesis
    unfolding handle_proto_frame_def Let_def
    by (intro pending_ok_if) (simp_all add: assms(2))
qed

lemma filter_sink_all:
  "list_all (\<lambda>j. job_sink j = Some k) js \<Longrightarrow>
   length (filter (\<lambda>j. job_sink j = Some k') js) = (if k' = k then length js else 0)"
  by (induction js) auto

lemma ref_count_other: "k' \<noteq> k \<Longrightarrow> ref_count k' (map (Pair k) cs) = 0"
  by (induction cs) (auto simp: ref_count_Cons)

lemma answers_refs:
  assumes "answers k f st st'" and "refs_ok st"
  shows "refs_ok st'"
proof -
  from assms(1) obtain refs p js where
    calls: "sv_calls st' = sv_calls st @ map (Pair k) refs @
       [(k, Snk_send (wire_of PROTO_TYPE_RESP (pf_seq f) (pf_command_set f) (pf_command_id f) p))]"
    and jobs: "sv_jobs st' = sv_jobs st @ js" and js: "list_all (\<lambda>j. job_sink j = Some k) js"
    and n: "ref_count k (map (Pair k) refs) = int (length js)"
    unfolding answers_def by blast
  have "list_all (\<lambda>j. job_sink j \<noteq> None) js" using js by (auto simp: list_all_iff)
  moreover have "ref_count k' (map (Pair k) refs) = int (length (filter (\<lambda>j. job_sink j = Some k') js))" for k'
    using n filter_sink_all [OF js, of k'] ref_count_other [of k' k refs] by auto
  ultimately show ?thesis
    using assms(2) by (auto simp: refs_ok_def calls jobs ref_count_Cons)
qed

text \<open>What a worker adds: messages on its own sink, then one release.\<close>

definition worker_calls :: "'k \<Rightarrow> ('k, 'w) svc \<Rightarrow> ('k, 'w) svc \<Rightarrow> bool" where
  "worker_calls k st st' \<longleftrightarrow> pending st' = pending st \<and> sv_jobs st' = sv_jobs st \<and>
     (\<exists>ds. sv_calls st' = sv_calls st @ map (\<lambda>d. (k, Snk_send d)) ds @ [(k, Snk_release)])"

lemma ref_count_sends [simp]: "ref_count k' (map (\<lambda>d. (k, Snk_send d)) ds) = 0"
  by (induction ds) (auto simp: ref_count_Cons)

lemma connect_worker_run:
  assumes "cj_sink job = Some k" and "wo_run_now ops (cj_ssid job) (cj_passwd job) (sv_world st) = (status, w1)"
  shows "wifi_connect_worker ops job st = st\<lparr>
     sv_world := (if status = WIFI_SWITCH_OK then snd (wo_persist ops (cj_ssid job) (cj_passwd job) w1) else w1),
     sv_calls := sv_calls st @ [(k, Snk_send (wire_of PROTO_TYPE_REQ (cj_seq job) PROTO_CMDSET_NETWORK
       PROTO_CMDID_PUSH_RESULT [wifi_status_to_errcode status])), (k, Snk_release)]\<rparr>"
  using assms by (simp add: wifi_connect_worker_def send_proto_push_def Let_def sink_ops)

lemma send_payloads:
  assumes "\<And>p. p \<in> set ps \<Longrightarrow> length p \<le> PROTO_PAYLOAD_MAX"
  shows "fold (\<lambda>p. send_proto_push (Some k) sq cs cid p (word_of_nat (length p))) ps st =
    st\<lparr>sv_calls := sv_calls st @ map (\<lambda>p. (k, Snk_send (wire_of PROTO_TYPE_REQ sq cs cid p))) ps\<rparr>"
  using assms
proof (induction ps arbitrary: st)
  case (Cons p ps)
  then show ?case by (simp add: send_proto_push_def send_proto_frame_wire)
qed simp

lemma scan_stream_lengths: "scan_stream i es fs \<Longrightarrow> p \<in> set fs \<Longrightarrow> length p \<le> PROTO_PAYLOAD_MAX"
  by (fastforce simp: scan_stream_def in_set_conv_nth dispatch_consts PROTO_PAYLOAD_MAX_def)

context wifi_backend
begin

text \<open>The scan worker returns, and what it sends is the scan.\<close>

lemma scan_worker_run:
  assumes "sj_sink job = Some k" and "wo_scan ops (sv_world st) = (r, w1)"
  shows "\<exists>fs. scan_payloads 0 (case r of Some es \<Rightarrow> es | None \<Rightarrow> []) = Some fs \<and>
    scan_stream 0 (case r of Some es \<Rightarrow> es | None \<Rightarrow> []) fs \<and>
    wifi_scan_worker ops job st = Some (st\<lparr>sv_world := w1,
      sv_calls := sv_calls st @ map (\<lambda>p. (k, Snk_send (wire_of PROTO_TYPE_REQ (sj_seq job) PROTO_CMDSET_NETWORK
        PROTO_CMDID_PUSH_SCAN_RESULT p))) fs @ [(k, Snk_release)]\<rparr>)"
proof -
  let ?es = "case r of Some es \<Rightarrow> es | None \<Rightarrow> []"
  have "list_all valid_entry ?es" using scan_valid assms(2) by (auto split: option.split)
  from scan_payloads_valid [OF this, of 0] obtain fs where
    fs: "scan_payloads 0 ?es = Some fs" "scan_stream 0 ?es fs" by blast
  note send = send_payloads [of fs, OF scan_stream_lengths [OF fs(2)]]
  from fs show ?thesis
    by (auto simp: wifi_scan_worker_def assms send_scan_results_def send sink_ops)
qed

lemma run_job_calls:
  assumes "job_sink j = Some k"
  shows "\<exists>st'. run_job ops j st = Some st' \<and> worker_calls k st st'"
proof (cases j)
  case (Connect_job job)
  obtain status w1 where "wo_run_now ops (cj_ssid job) (cj_passwd job) (sv_world st) = (status, w1)"
    by (cases "wo_run_now ops (cj_ssid job) (cj_passwd job) (sv_world st)")
  from connect_worker_run [OF _ this, of k] assms Connect_job show ?thesis
    by (auto simp: run_job_def worker_calls_def pending_def
        intro!: exI [of _ "[wire_of PROTO_TYPE_REQ (cj_seq job) PROTO_CMDSET_NETWORK
          PROTO_CMDID_PUSH_RESULT [wifi_status_to_errcode status]]"])
next
  case (Scan_job job)
  obtain r w1 where "wo_scan ops (sv_world st) = (r, w1)" by (cases "wo_scan ops (sv_world st)")
  from scan_worker_run [OF _ this, of job k] assms Scan_job obtain fs where
    "wifi_scan_worker ops job st = Some (st\<lparr>sv_world := w1,
      sv_calls := sv_calls st @ map (\<lambda>p. (k, Snk_send (wire_of PROTO_TYPE_REQ (sj_seq job) PROTO_CMDSET_NETWORK
        PROTO_CMDID_PUSH_SCAN_RESULT p))) fs @ [(k, Snk_release)]\<rparr>)" by auto
  with Scan_job show ?thesis
    by (auto simp: run_job_def worker_calls_def pending_def comp_def
        intro!: exI [of _ "map (wire_of PROTO_TYPE_REQ (sj_seq job) PROTO_CMDSET_NETWORK
          PROTO_CMDID_PUSH_SCAN_RESULT) fs"])
qed

end

lemma filter_remove_nth:
  assumes "i < length xs"
  shows "length (filter P xs) = (if P (xs ! i) then 1 else 0) + length (filter P (take i xs @ drop (Suc i) xs))"
proof -
  have "xs = take i xs @ xs ! i # drop (Suc i) xs" using assms by (rule id_take_nth_drop)
  then have "filter P xs = filter P (take i xs) @ filter P (xs ! i # drop (Suc i) xs)"
    by (metis filter_append)
  then show ?thesis by simp
qed

lemma worker_inv:
  assumes i: "i < length (sv_jobs st)" and k: "job_sink (sv_jobs st ! i) = Some k"
    and w: "worker_calls k (st\<lparr>sv_jobs := take i (sv_jobs st) @ drop (Suc i) (sv_jobs st)\<rparr>) st'"
    and inv: "svc_inv st"
  shows "svc_inv st'"
proof -
  from w have p: "pending st' = pending st" and jobs: "sv_jobs st' = take i (sv_jobs st) @ drop (Suc i) (sv_jobs st)"
    and calls: "\<exists>ds. sv_calls st' = sv_calls st @ map (\<lambda>d. (k, Snk_send d)) ds @ [(k, Snk_release)]"
    by (auto simp: worker_calls_def)
  have "list_all (\<lambda>j. job_sink j \<noteq> None) (sv_jobs st')"
    using inv by (auto simp: svc_inv_def refs_ok_def jobs list_all_iff dest: in_set_takeD in_set_dropD)
  moreover have "ref_count k' (sv_calls st') = int (length (filter (\<lambda>j. job_sink j = Some k') (sv_jobs st')))" for k'
  proof -
    have "ref_count k' (sv_calls st') = ref_count k' (sv_calls st) - (if k' = k then 1 else 0)"
      using calls by (auto simp: ref_count_Cons)
    also have "ref_count k' (sv_calls st) = int (length (filter (\<lambda>j. job_sink j = Some k') (sv_jobs st)))"
      using inv by (simp add: svc_inv_def refs_ok_def)
    finally show ?thesis
      using filter_remove_nth [OF i, of "\<lambda>j. job_sink j = Some k'"] k by (simp add: jobs)
  qed
  ultimately show ?thesis using inv p by (simp add: svc_inv_def refs_ok_def)
qed

lemma decode_frame_bytes:
  assumes "proto_decode (Some d) True = Inr f"
  shows "length (frame_bytes f) = unat (pf_msg_len f)"
proof (cases "pf_payload f")
  case None
  with proto_decode_frame(4) [OF assms] have "pf_msg_len f = 0" by (simp split: if_splits)
  with None show ?thesis by (simp add: frame_bytes_def)
next
  case (Some p)
  with proto_decode_payload_length(1) [OF assms Some] show ?thesis by (simp add: frame_bytes_def)
qed

lemma svc_inv_init: "svc_inv ((svc_init w)\<lparr>sv_faults := fl\<rparr>)"
  by (simp add: svc_inv_def refs_ok_def svc_init_def pending_def pending_ok_def buffer_ok_def dispatch_consts)

context wifi_backend
begin

lemma handle_calls:
  assumes "pf_type f = PROTO_TYPE_REQ"
  shows "\<exists>cs js. sv_calls (handle_proto_frame ops f (Some k) st) = sv_calls st @ cs \<and> balanced k cs \<and>
     sv_jobs (handle_proto_frame ops f (Some k) st) = sv_jobs st @ js \<and>
     list_all (\<lambda>j. job_sink j = Some k) js \<and> ref_count k cs = int (length js)"
proof -
  from handle_answers [OF assms, of k st] obtain refs p js where
    calls: "sv_calls (handle_proto_frame ops f (Some k) st) = sv_calls st @ map (Pair k) refs @
       [(k, Snk_send (wire_of PROTO_TYPE_RESP (pf_seq f) (pf_command_set f) (pf_command_id f) p))]"
    and b: "balanced k (map (Pair k) refs)"
    and js: "sv_jobs (handle_proto_frame ops f (Some k) st) = sv_jobs st @ js" "list_all (\<lambda>j. job_sink j = Some k) js"
      "ref_count k (map (Pair k) refs) = int (length js)"
    unfolding answers_def by blast
  from balanced_append [OF b balanced_units(1)] js calls show ?thesis
    by (intro exI [of _ "map (Pair k) refs @ [(k, Snk_send (wire_of PROTO_TYPE_RESP (pf_seq f)
        (pf_command_set f) (pf_command_id f) p))]"] exI [of _ js]) (simp add: ref_count_Cons)
qed

lemma handle_inv:
  assumes "proto_decode (Some d) True = Inr f" and "svc_inv st"
  shows "svc_inv (handle_proto_frame ops f (Some k) st)"
proof (cases "pf_type f = PROTO_TYPE_REQ")
  case True
  from answers_refs [OF handle_answers [OF this]] handle_pending_ok [OF decode_frame_bytes] assms
  show ?thesis by (auto simp: svc_inv_def)
next
  case False
  with assms(2) show ?thesis by (simp add: handle_proto_frame_ignored)
qed

lemma dispatch_calls:
  "\<exists>cs js. sv_calls (proto_dispatch_buffer ops data (Some k) st) = sv_calls st @ cs \<and> balanced k cs \<and>
     sv_jobs (proto_dispatch_buffer ops data (Some k) st) = sv_jobs st @ js \<and>
     list_all (\<lambda>j. job_sink j = Some k) js \<and> ref_count k cs = int (length js)"
proof (induction "length data" arbitrary: data st rule: less_induct)
  case less
  show ?case
  proof (cases "data = [] \<or> (\<nexists>f. proto_decode (Some data) True = Inr f)")
    case True
    then have "proto_dispatch_buffer ops data (Some k) st = st"
      by (auto simp: proto_dispatch_buffer.simps [of ops data] split: sum.split)
    then show ?thesis by simp
  next
    case False
    then obtain f where f: "proto_decode (Some data) True = Inr f" and ne: "data \<noteq> []" by blast
    let ?st = "handle_proto_frame ops f (Some k) st"
    have "0 < pf_frame_size f" using proto_decode_frame(1) [OF f] by (simp add: PROTO_HDR_LEN_def)
    then have "length (drop (pf_frame_size f) data) < length data" using ne by simp
    from less.hyps [OF this, of ?st] obtain cs js where
      rest: "sv_calls (proto_dispatch_buffer ops data (Some k) st) = sv_calls ?st @ cs" "balanced k cs"
        "sv_jobs (proto_dispatch_buffer ops data (Some k) st) = sv_jobs ?st @ js"
        "list_all (\<lambda>j. job_sink j = Some k) js" "ref_count k cs = int (length js)"
      using f ne by (auto simp: proto_dispatch_buffer.simps [of ops data])
    show ?thesis
    proof (cases "pf_type f = PROTO_TYPE_REQ")
      case True
      from handle_calls [OF True, of k st] obtain cs' js' where
        "sv_calls ?st = sv_calls st @ cs'" "balanced k cs'" "sv_jobs ?st = sv_jobs st @ js'"
        "list_all (\<lambda>j. job_sink j = Some k) js'" "ref_count k cs' = int (length js')" by blast
      with rest show ?thesis
        by (intro exI [of _ "cs' @ cs"] exI [of _ "js' @ js"]) (simp add: balanced_append)
    next
      case False
      with rest show ?thesis by (auto simp: handle_proto_frame_ignored)
    qed
  qed
qed

lemma dispatch_inv: "svc_inv st \<Longrightarrow> svc_inv (proto_dispatch_buffer ops data (Some k) st)"
proof (induction "length data" arbitrary: data st rule: less_induct)
  case less
  show ?case
  proof (cases "data = [] \<or> (\<nexists>f. proto_decode (Some data) True = Inr f)")
    case True
    with less.prems show ?thesis by (auto simp: proto_dispatch_buffer.simps [of ops data] split: sum.split)
  next
    case False
    then obtain f where f: "proto_decode (Some data) True = Inr f" and ne: "data \<noteq> []" by blast
    have "0 < pf_frame_size f" using proto_decode_frame(1) [OF f] by (simp add: PROTO_HDR_LEN_def)
    then have "length (drop (pf_frame_size f) data) < length data" using ne by simp
    from less.hyps [OF this handle_inv [OF f less.prems]] show ?thesis
      using f ne by (simp add: proto_dispatch_buffer.simps [of ops data])
  qed
qed

lemma reachable_inv: "svc_reachable ops st \<Longrightarrow> svc_inv st"
proof (induction rule: svc_reachable.induct)
  case (reach_init w fl)
  then show ?case by (rule svc_inv_init)
next
  case (reach_step st st')
  from reach_step.hyps(2) show ?case
  proof (rule svc_stepE)
    fix data k
    assume "st' = proto_dispatch_buffer ops data (Some k) st"
    with reach_step.IH show ?thesis by (simp add: dispatch_inv)
  next
    fix i
    let ?st = "st\<lparr>sv_jobs := take i (sv_jobs st) @ drop (Suc i) (sv_jobs st)\<rparr>"
    assume i: "i < length (sv_jobs st)" and run: "run_job ops (sv_jobs st ! i) ?st = Some st'"
    obtain k where k: "job_sink (sv_jobs st ! i) = Some k"
      using reach_step.IH i by (auto simp: svc_inv_def refs_ok_def list_all_length)
    obtain u where "run_job ops (sv_jobs st ! i) ?st = Some u" "worker_calls k ?st u"
      using run_job_calls [OF k] by blast
    with run have w: "worker_calls k ?st st'" by (simp only: option.inject)
    show ?thesis by (rule worker_inv [OF i k w reach_step.IH])
  qed
qed

end

section \<open>The sink interface\<close>

text \<open>
  What \<^verbatim>\<open>proto_sink.h\<close> asks of a transport.  The operations fail (\<open>None\<close>) where the C code
  would touch memory that was freed; \<open>holds s k n\<close> says that sink \<open>k\<close> is alive with \<open>n\<close>
  references and \<open>stable\<close> relates states with the same connections.  A sink with a reference
  can be sent to and retained, and a release that is not the last leaves it alive; these
  leave the connections and the other sinks as they are.
\<close>

locale proto_sink =
  fixes send :: "'k \<Rightarrow> u8 list \<Rightarrow> 's \<Rightarrow> 's option"
    and retain :: "'k \<Rightarrow> 's \<Rightarrow> 's option"
    and release :: "'k \<Rightarrow> 's \<Rightarrow> 's option"
    and holds :: "'s \<Rightarrow> 'k \<Rightarrow> nat \<Rightarrow> bool"
    and stable :: "'s \<Rightarrow> 's \<Rightarrow> bool"
  assumes stable_refl: "stable s s"
    and stable_trans: "stable s t \<Longrightarrow> stable t u \<Longrightarrow> stable s u"
    and send_ok: "holds s k (Suc n) \<Longrightarrow> \<exists>s'. send k d s = Some s' \<and> holds s' k (Suc n) \<and> stable s s'"
    and retain_ok: "holds s k (Suc n) \<Longrightarrow> \<exists>s'. retain k s = Some s' \<and> holds s' k (Suc (Suc n)) \<and> stable s s'"
    and release_ok: "holds s k (Suc (Suc n)) \<Longrightarrow> \<exists>s'. release k s = Some s' \<and> holds s' k (Suc n) \<and> stable s s'"
    and send_other: "send k d s = Some s' \<Longrightarrow> k' \<noteq> k \<Longrightarrow> holds s' k' m = holds s k' m"
    and retain_other: "retain k s = Some s' \<Longrightarrow> k' \<noteq> k \<Longrightarrow> holds s' k' m = holds s k' m"
    and release_other: "release k s = Some s' \<Longrightarrow> k' \<noteq> k \<Longrightarrow> holds s' k' m = holds s k' m"

text \<open>The calls a service made, carried out on the transport.\<close>

fun apply_call :: "('k \<Rightarrow> u8 list \<Rightarrow> 's \<Rightarrow> 's option) \<Rightarrow> ('k \<Rightarrow> 's \<Rightarrow> 's option) \<Rightarrow> ('k \<Rightarrow> 's \<Rightarrow> 's option) \<Rightarrow>
    'k \<times> sink_call \<Rightarrow> 's \<Rightarrow> 's option" where
  "apply_call send retain release (k, Snk_send d) s = send k d s"
| "apply_call send retain release (k, Snk_retain) s = retain k s"
| "apply_call send retain release (k, Snk_release) s = release k s"

fun apply_calls :: "('k \<Rightarrow> u8 list \<Rightarrow> 's \<Rightarrow> 's option) \<Rightarrow> ('k \<Rightarrow> 's \<Rightarrow> 's option) \<Rightarrow> ('k \<Rightarrow> 's \<Rightarrow> 's option) \<Rightarrow>
    ('k \<times> sink_call) list \<Rightarrow> 's \<Rightarrow> 's option" where
  "apply_calls send retain release [] s = Some s"
| "apply_calls send retain release (c # cs) s =
     Option.bind (apply_call send retain release c s) (apply_calls send retain release cs)"

lemma apply_calls_append:
  "apply_calls send retain release (a @ b) s =
     Option.bind (apply_calls send retain release a s) (apply_calls send retain release b)"
  by (induction a arbitrary: s) (auto split: Option.bind_split)

lemma ref_count_take_Suc: "0 < n \<Longrightarrow> ref_count k (take n (c # cs)) = ref_count k [c] + ref_count k (take (n - 1) cs)"
  by (cases n) (simp_all add: ref_count_Cons [of k c "take _ cs"] ref_count_Cons [of k c "[]"])

context proto_sink
begin

abbreviation run :: "('k \<times> sink_call) list \<Rightarrow> 's \<Rightarrow> 's option" where
  "run \<equiv> apply_calls send retain release"

lemma run_other: "run cs s = Some s' \<Longrightarrow> list_all (\<lambda>c. fst c \<noteq> k) cs \<Longrightarrow> holds s' k m = holds s k m"
proof (induction cs arbitrary: s)
  case (Cons c cs)
  obtain k' x where c: "c = (k', x)" by (cases c)
  from Cons.prems obtain s1 where s1: "apply_call send retain release c s = Some s1" "run cs s1 = Some s'"
    by (auto simp: bind_eq_Some_conv)
  with Cons.prems have "holds s1 k m = holds s k m"
    by (cases x) (auto simp: c dest: send_other retain_other release_other)
  with Cons s1 show ?case by simp
qed simp

text \<open>A sequence that never gives back more than the spare references keeps the sink alive.\<close>

lemma run_alive:
  assumes "holds s k (Suc n)" and "list_all (\<lambda>c. fst c = k) cs"
    and "\<And>j. j \<le> length cs \<Longrightarrow> 0 \<le> int n + ref_count k (take j cs)"
  shows "\<exists>s'. run cs s = Some s' \<and> holds s' k (Suc (nat (int n + ref_count k cs))) \<and> stable s s'"
  using assms
proof (induction cs arbitrary: s n)
  case Nil
  then show ?case by (simp add: stable_refl)
next
  case (Cons c cs)
  obtain x where c: "c = (k, x)" using Cons.prems(2) by (cases c) auto
  have pre: "0 \<le> int n + ref_count k [c] + ref_count k (take j cs)" if "j \<le> length cs" for j
    using Cons.prems(3) [of "Suc j"] that ref_count_take_Suc [of "Suc j" k c cs] by simp
  have n0: "0 \<le> int n + ref_count k [c]" using pre [of 0] by simp
  let ?m = "nat (int n + ref_count k [c])"
  have "\<exists>s1. apply_call send retain release c s = Some s1 \<and> holds s1 k (Suc ?m) \<and> stable s s1"
  proof (cases x)
    case (Snk_send d)
    then show ?thesis using send_ok [OF Cons.prems(1), of d] by (simp add: c ref_count_Cons)
  next
    case Snk_retain
    then show ?thesis using retain_ok [OF Cons.prems(1)] by (simp add: c ref_count_Cons nat_add_distrib)
  next
    case Snk_release
    then obtain j where "n = Suc j" using n0 by (cases n) (auto simp: c ref_count_Cons)
    then show ?thesis using Snk_release release_ok [of s k j] Cons.prems(1) by (simp add: c ref_count_Cons)
  qed
  then obtain s1 where s1: "apply_call send retain release c s = Some s1" "holds s1 k (Suc ?m)" "stable s s1" by blast
  have "0 \<le> int ?m + ref_count k (take j cs)" if "j \<le> length cs" for j
    using pre [OF that] n0 by simp
  from Cons.IH [OF s1(2) _ this] Cons.prems(2) obtain s' where
    "run cs s1 = Some s'" "holds s' k (Suc (nat (int ?m + ref_count k cs)))" "stable s1 s'" by auto
  moreover have "int ?m + ref_count k cs = int n + ref_count k (c # cs)"
    using n0 ref_count_append [of k "[c]" cs] by simp
  ultimately show ?case using s1(1) stable_trans [OF s1(3)] by auto
qed

lemma run_balanced:
  assumes "holds s k (Suc n)" and "balanced k cs"
  shows "\<exists>s'. run cs s = Some s' \<and> holds s' k (Suc n + nat (ref_count k cs)) \<and> stable s s'"
proof -
  have "0 \<le> ref_count k (take j cs)" if "j \<le> length cs" for j
    using assms(2) that by (simp add: balanced_def)
  moreover from this [of "length cs"] have "0 \<le> ref_count k cs" by simp
  ultimately show ?thesis
    using run_alive [OF assms(1), of cs] assms(2) by (auto simp: balanced_def nat_add_distrib)
qed

end

section \<open>Provisioning\<close>

abbreviation request :: "u8 \<Rightarrow> u8 \<Rightarrow> u8 list \<Rightarrow> message" where
  "request sq cid p \<equiv> (PROTO_TYPE_REQ, sq, PROTO_CMDSET_NETWORK, cid, p)"

abbreviation response :: "u8 \<Rightarrow> u8 \<Rightarrow> u8 \<Rightarrow> sink_call" where
  "response sq cid e \<equiv> Snk_send (wire_of PROTO_TYPE_RESP sq PROTO_CMDSET_NETWORK cid [e])"

lemma ucast_length:
  "length p \<le> 255 \<Longrightarrow> unat (ucast (word_of_nat (length p) :: u16) :: u8) = length p"
  by (simp add: unsigned_ucast_eq unat_of_nat take_bit_nat_eq_self)

lemma handle_ssid_request:
  assumes "1 \<le> length s" "length s \<le> WIFI_SSID_MAX"
  shows "handle_proto_frame ops (msg_frame (request sq PROTO_CMDID_SSID s)) (Some k) st =
    st\<lparr>s_pending_ssid := store_text (s_pending_ssid st) s, s_pending_ssid_len := word_of_nat (length s),
       sv_calls := sv_calls st @ [(k, response sq PROTO_CMDID_SSID PROTO_ERRCODE_NONE)]\<rparr>"
proof -
  have l: "unat (word_of_nat (length s) :: u16) = length s"
    using assms by (intro unat_word_of_length) (simp add: dispatch_consts PROTO_PAYLOAD_MAX_def)
  moreover have "ucast (word_of_nat (length s) :: u16) = (word_of_nat (length s) :: u8)"
    using assms by (simp add: word_unat_eq_iff ucast_length dispatch_consts unat_of_nat)
  moreover have "(word_of_nat (length s) :: u16) \<noteq> 0" using l assms by (metis not_one_le_zero unat_0)
  ultimately show ?thesis
    using assms by (auto simp: handle_proto_frame_def handle_ssid_def frame_bytes_def Let_def proto_defs)
qed

lemma handle_passwd_request:
  assumes "1 \<le> length p" "length p \<le> WIFI_PASSWD_MAX"
  shows "handle_proto_frame ops (msg_frame (request sq PROTO_CMDID_PASSWD p)) (Some k) st =
    st\<lparr>s_pending_passwd := store_text (s_pending_passwd st) p, s_pending_passwd_len := word_of_nat (length p),
       sv_calls := sv_calls st @ [(k, response sq PROTO_CMDID_PASSWD PROTO_ERRCODE_NONE)]\<rparr>"
proof -
  have l: "unat (word_of_nat (length p) :: u16) = length p"
    using assms by (intro unat_word_of_length) (simp add: dispatch_consts PROTO_PAYLOAD_MAX_def)
  moreover have "ucast (word_of_nat (length p) :: u16) = (word_of_nat (length p) :: u8)"
    using assms by (simp add: word_unat_eq_iff ucast_length dispatch_consts unat_of_nat)
  moreover have "(word_of_nat (length p) :: u16) \<noteq> 0" using l assms by (metis not_one_le_zero unat_0)
  ultimately show ?thesis
    using assms by (auto simp: handle_proto_frame_def handle_passwd_def frame_bytes_def Let_def proto_defs)
qed

lemma handle_connect_request:
  assumes "sv_faults st = []" and "s_pending_ssid_len st \<noteq> 0"
  shows "handle_proto_frame ops (msg_frame (request sq PROTO_CMDID_CONNECT [])) (Some k) st =
    st\<lparr>sv_jobs := sv_jobs st @ [Connect_job \<lparr>cj_seq = sq,
         cj_ssid = text_of (take (unat (s_pending_ssid_len st)) (s_pending_ssid st)),
         cj_passwd = text_of (take (unat (s_pending_passwd_len st)) (s_pending_passwd st)), cj_sink = Some k\<rparr>],
       sv_calls := sv_calls st @ [(k, Snk_retain), (k, response sq PROTO_CMDID_CONNECT PROTO_ERRCODE_IN_PROGRESS)]\<rparr>"
  using assms
  by (simp add: handle_proto_frame_def trigger_wifi_connect_def reply_trigger_def Let_def sink_ops proto_defs)

lemma provisioning_requests:
  assumes "pending_ok (pending st)" and "sv_faults st = []"
    and s: "1 \<le> length s" "length s \<le> WIFI_SSID_MAX" and p: "1 \<le> length p" "length p \<le> WIFI_PASSWD_MAX"
    and ms: "ms = [request a PROTO_CMDID_SSID s, request b PROTO_CMDID_PASSWD p, request c PROTO_CMDID_CONNECT []]"
  shows "proto_dispatch_buffer ops (concat (map msg_wire ms)) (Some k) st =
    st\<lparr>s_pending_ssid := store_text (s_pending_ssid st) s, s_pending_ssid_len := word_of_nat (length s),
       s_pending_passwd := store_text (s_pending_passwd st) p, s_pending_passwd_len := word_of_nat (length p),
       sv_jobs := sv_jobs st @ [Connect_job \<lparr>cj_seq = c, cj_ssid = text_of s, cj_passwd = text_of p, cj_sink = Some k\<rparr>],
       sv_calls := sv_calls st @ [(k, response a PROTO_CMDID_SSID PROTO_ERRCODE_NONE),
         (k, response b PROTO_CMDID_PASSWD PROTO_ERRCODE_NONE), (k, Snk_retain),
         (k, response c PROTO_CMDID_CONNECT PROTO_ERRCODE_IN_PROGRESS)]\<rparr>"
proof -
  have ok: "list_all msg_ok ms"
    using s p by (simp add: ms dispatch_consts PROTO_PAYLOAD_MAX_def)
  have len: "unat (word_of_nat (length s) :: u8) = length s" "unat (word_of_nat (length p) :: u8) = length p"
    using s p by (simp_all add: unat_of_nat dispatch_consts)
  have ne: "(word_of_nat (length s) :: u8) \<noteq> 0" using len s by (metis not_one_le_zero unat_0)
  have st: "take (length s) (store_text (s_pending_ssid st) s) = s"
    "take (length p) (store_text (s_pending_passwd st) p) = p"
    using assms(1) s p store_text_ok(3)
    by (auto simp: pending_def pending_ok_def buffer_ok_def)
  have "proto_dispatch_buffer ops [] sink u = u" for sink :: "'a option" and u :: "('a, 'b) svc"
    by (simp add: proto_dispatch_buffer.simps)
  then show ?thesis
    using dispatch_msgs [OF ok, of ops "[]" "Some k" st] len ne st assms(2)
    by (simp add: ms handle_ssid_request [OF s] handle_passwd_request [OF p] handle_connect_request del: msg_frame.simps)
qed

section \<open>Properties of the dispatcher\<close>

text \<open>
  Property C11.  Every request is answered exactly once.  For any frame of type REQ, known
  command or not, valid length or not, with allocation failures or without,
  \<^verbatim>\<open>handle_proto_frame\<close> sends one frame to the sink it was given: a RESP with the sequence
  number, command set and command of the request and a payload of 1 to 256 bytes; before it
  there are at most reference calls on that sink.  Any other frame has no effect at all.
\<close>

theorem request_answered_once:
  "(pf_type f = PROTO_TYPE_REQ \<longrightarrow>
     (\<exists>refs p. sv_calls (handle_proto_frame (linked_ops b os) f (Some k) st) =
         sv_calls st @ map (Pair k) refs @
         [(k, Snk_send (wire_of PROTO_TYPE_RESP (pf_seq f) (pf_command_set f) (pf_command_id f) p))] \<and>
       p \<noteq> [] \<and> length p \<le> PROTO_PAYLOAD_MAX \<and> set refs \<subseteq> {Snk_retain, Snk_release})) \<and>
   (pf_type f \<noteq> PROTO_TYPE_REQ \<longrightarrow> handle_proto_frame (linked_ops b os) f (Some k) st = st)"
  using linked.handle_answers [of f k st b os]
  by (auto simp: answers_def handle_proto_frame_ignored)

theorem request_answered_once_witness:
  "\<exists>refs p. sv_calls (handle_proto_frame (linked_ops RK3566 (ok_os (\<lambda>_. []))) (msg_frame (request 7 0x55 []))
       (Some (0 :: nat)) (svc_init (world0 (\<lambda>_. None)))) =
     map (Pair 0) refs @ [(0, Snk_send (wire_of PROTO_TYPE_RESP 7 PROTO_CMDSET_NETWORK 0x55 p))] \<and> p \<noteq> []"
  using request_answered_once [of "msg_frame (request 7 0x55 [])" RK3566 "ok_os (\<lambda>_. [])" "0 :: nat"
      "svc_init (world0 (\<lambda>_. None))"]
  by (auto simp: svc_init_def)

text \<open>
  Property C12.  A buffer is handled frame by frame.  When it is the concatenation of encoded
  frames followed by bytes that do not start with a frame, \<^verbatim>\<open>proto_dispatch_buffer\<close> handles
  exactly those frames in their order and then stops: a damaged tail loses none of the frames
  before it and has no effect itself.
\<close>

theorem dispatch_concatenated_frames:
  assumes "list_all msg_ok ms" and "rest = [] \<or> \<not> wf_wire rest"
  shows "proto_dispatch_buffer ops (concat (map msg_wire ms) @ rest) sink st =
    fold (\<lambda>m. handle_proto_frame ops (msg_frame m) sink) ms st"
proof -
  have "proto_dispatch_buffer ops rest sink u = u" for u
    using assms(2) proto_decode_Inr_iff [of rest] dispatch_garbage [of rest]
    by (auto simp: proto_dispatch_buffer.simps [of ops "[]"])
  then show ?thesis using dispatch_msgs [OF assms(1), of ops rest sink st] by simp
qed

theorem dispatch_concatenated_frames_witness:
  "proto_dispatch_buffer (linked_ops RK3566 (ok_os (\<lambda>_. []))) (msg_wire (request 1 PROTO_CMDID_STATUS []) @ [0x55, 0xAA, 1])
     (Some (0 :: nat)) (svc_init (world0 (\<lambda>_. None))) =
   handle_proto_frame (linked_ops RK3566 (ok_os (\<lambda>_. []))) (msg_frame (request 1 PROTO_CMDID_STATUS [])) (Some 0)
     (svc_init (world0 (\<lambda>_. None)))"
proof -
  have "\<not> wf_wire [0x55, 0xAA, 1]" by (simp add: wf_wire_def PROTO_HDR_LEN_def)
  from dispatch_concatenated_frames [OF _ disjI2 [OF this], of "[request 1 PROTO_CMDID_STATUS []]"]
  show ?thesis by simp
qed

text \<open>
  Property C2.  Credentials travel unchanged from the phone to the join.  From any state in which
  the pending buffers are well-formed and no allocation fails, the frames SSID, PASSWD and
  CONNECT, delivered in one buffer, are answered NONE, NONE and IN_PROGRESS and start one
  worker whose SSID and password are the payload bytes, for every SSID of 1 to 32 and
  password of 1 to 63 bytes; when that worker runs, the WiFi backend is called with exactly
  those strings, they are persisted if and only if it reports OK, and the phone gets one
  PUSH_RESULT with the sequence number of its CONNECT and the code of the status.
\<close>

theorem provisioning_sequence:
  assumes "pending_ok (pending st)" and "sv_faults st = []"
    and "1 \<le> length s" "length s \<le> WIFI_SSID_MAX" "1 \<le> length p" "length p \<le> WIFI_PASSWD_MAX"
    and "st1 = proto_dispatch_buffer ops (concat (map msg_wire [request a PROTO_CMDID_SSID s,
           request b PROTO_CMDID_PASSWD p, request c PROTO_CMDID_CONNECT []])) (Some k) st"
    and "wo_run_now ops (text_of s) (text_of p) (sv_world u) = (status, w1)"
  shows "\<exists>job. sv_jobs st1 = sv_jobs st @ [Connect_job job] \<and>
      sv_calls st1 = sv_calls st @ [(k, response a PROTO_CMDID_SSID PROTO_ERRCODE_NONE),
        (k, response b PROTO_CMDID_PASSWD PROTO_ERRCODE_NONE), (k, Snk_retain),
        (k, response c PROTO_CMDID_CONNECT PROTO_ERRCODE_IN_PROGRESS)] \<and>
      wifi_connect_worker ops job u = u\<lparr>
        sv_world := (if status = WIFI_SWITCH_OK then snd (wo_persist ops (text_of s) (text_of p) w1) else w1),
        sv_calls := sv_calls u @ [(k, Snk_send (wire_of PROTO_TYPE_REQ c PROTO_CMDSET_NETWORK
          PROTO_CMDID_PUSH_RESULT [wifi_status_to_errcode status])), (k, Snk_release)]\<rparr>"
proof -
  let ?job = "\<lparr>cj_seq = c, cj_ssid = text_of s, cj_passwd = text_of p, cj_sink = Some k\<rparr>"
  note r = provisioning_requests [OF assms(1-6) refl, where ops = ops and k = k and a = a and b = b and c = c]
  have "cj_sink ?job = Some k" "wo_run_now ops (cj_ssid ?job) (cj_passwd ?job) (sv_world u) = (status, w1)"
    using assms(8) by simp_all
  from connect_worker_run [OF this] show ?thesis
    unfolding assms(7) r by (intro exI [of _ ?job]) simp
qed

theorem provisioning_sequence_witness:
  "\<exists>job. sv_jobs (proto_dispatch_buffer (linked_ops RK3566 (ok_os (\<lambda>_. [])))
       (concat (map msg_wire [request 1 PROTO_CMDID_SSID [104, 105], request 2 PROTO_CMDID_PASSWD [49, 50],
         request 3 PROTO_CMDID_CONNECT []])) (Some (0 :: nat)) (svc_init (world0 (\<lambda>_. None)))) = [Connect_job job]"
proof -
  let ?st = "svc_init (world0 (\<lambda>_. None)) :: (nat, unit world) svc"
  let ?ops = "linked_ops RK3566 (ok_os (\<lambda>_. []))"
  have "pending_ok (pending ?st)" "sv_faults ?st = []" "sv_jobs ?st = []"
    by (simp_all add: pending_ok_def buffer_ok_def pending_def svc_init_def dispatch_consts)
  moreover obtain status w1 where "wo_run_now ?ops (text_of [104, 105]) (text_of [49, 50]) (sv_world ?st) = (status, w1)"
    by (cases "wo_run_now ?ops (text_of [104, 105]) (text_of [49, 50]) (sv_world ?st)")
  ultimately show ?thesis
    using provisioning_sequence [of ?st "[104, 105]" "[49, 50]" _ ?ops 1 2 3 "0 :: nat" ?st, OF _ _ _ _ _ _ refl]
    by (fastforce simp: dispatch_consts)
qed

text \<open>
  Property C6.  The scan worker always finishes and the phone can rebuild the scan from what it
  sends: whatever the scan returned, the payloads (an empty one for a failed scan) have at
  most 220 bytes, the frame indices count from 0, the last-frame flag is set on the last one
  and only there, reading the entries of all payloads in order gives the list of the scan,
  and the sink is released once, after the last frame.
\<close>

theorem scan_worker_streams_result:
  assumes "sj_sink job = Some k" and "wo_scan (linked_ops b os) (sv_world st) = (r, w1)"
    and "es = (case r of Some es \<Rightarrow> es | None \<Rightarrow> [])"
  shows "\<exists>fs. wifi_scan_worker (linked_ops b os) job st = Some (st\<lparr>sv_world := w1,
      sv_calls := sv_calls st @ map (\<lambda>p. (k, Snk_send (wire_of PROTO_TYPE_REQ (sj_seq job) PROTO_CMDSET_NETWORK
        PROTO_CMDID_PUSH_SCAN_RESULT p))) fs @ [(k, Snk_release)]\<rparr>) \<and>
    fs \<noteq> [] \<and>
    (\<forall>j < length fs. fs ! j ! 0 = word_of_nat j \<and> fs ! j ! 1 = (if Suc j = length fs then 1 else 0) \<and>
       length (fs ! j) \<le> SCAN_PUSH_PAYLOAD_CAP) \<and>
    (\<exists>parts. those (map read_payload fs) = Some parts \<and> concat parts = es)"
  using linked.scan_worker_run [OF assms(1,2)] unfolding assms(3) [symmetric] scan_stream_def
  by auto

theorem scan_worker_streams_result_witness:
  "\<exists>st'. wifi_scan_worker (linked_ops RK3566 (ok_os (\<lambda>_. scan_example))) \<lparr>sj_seq = 9, sj_sink = Some (0 :: nat)\<rparr>
     (svc_init (world0 (\<lambda>_. None))) = Some st'"
proof -
  let ?ops = "linked_ops RK3566 (ok_os (\<lambda>_. scan_example))"
  let ?st = "svc_init (world0 (\<lambda>_. None)) :: (nat, unit world) svc"
  obtain r w1 where "wo_scan ?ops (sv_world ?st) = (r, w1)" by (cases "wo_scan ?ops (sv_world ?st)")
  from scan_worker_streams_result [OF _ this refl, of "\<lparr>sj_seq = 9, sj_sink = Some 0\<rparr>" 0] show ?thesis by auto
qed

text \<open>
  Property C8.  Invariant of the running service.  In every state reachable by receiving arbitrary
  bytes on any sinks and letting started workers finish in any order, with any allocation
  failures: the pending SSID and password buffers are terminated and within their arrays, and
  for every sink the references taken minus the references given back is the number of workers
  that still hold it, so no worker ever uses a sink without a reference and none is leaked.
\<close>

theorem service_invariant:
  assumes "svc_reachable (linked_ops b os) st"
  shows "length (s_pending_ssid st) = 33 \<and> unat (s_pending_ssid_len st) \<le> 32 \<and>
    s_pending_ssid st ! unat (s_pending_ssid_len st) = 0 \<and>
    length (s_pending_passwd st) = 64 \<and> unat (s_pending_passwd_len st) \<le> 63 \<and>
    s_pending_passwd st ! unat (s_pending_passwd_len st) = 0 \<and>
    int (count_list (sv_calls st) (k, Snk_retain)) - int (count_list (sv_calls st) (k, Snk_release)) =
      int (length (filter (\<lambda>j. job_sink j = Some k) (sv_jobs st)))"
  using linked.reachable_inv [OF assms]
  by (simp add: svc_inv_def pending_ok_def pending_def buffer_ok_def dispatch_consts refs_ok_def ref_count_def)

theorem service_invariant_witness:
  "length (s_pending_ssid (proto_dispatch_buffer (linked_ops RK3566 (ok_os (\<lambda>_. []))) [0x55, 0xAA, 3] (Some (0 :: nat))
     ((svc_init (world0 (\<lambda>_. None)))\<lparr>sv_faults := []\<rparr>))) = 33"
  by (rule service_invariant [where os = "ok_os (\<lambda>_. [])", THEN conjunct1]) (rule reach_step [OF reach_init step_receive])

end
