(* ===== verification/UnixIpc.thy ===== *)
theory UnixIpc
  imports ProtoDispatch
begin

text \<open>
  The Unix-domain transport of \<^verbatim>\<open>unix_ipc.c\<close>: reference-counted client structures, the sink
  operations on them, the reader thread and the accept loop.  The heap maps the address of a
  client to its structure; a freed address is absent, and an operation on an absent client is
  \<open>None\<close>, so that a use after free is a value the model can have.  Together with the request
  handler the transport is a transition system; the main lemma is that no reachable state can
  touch a freed client, close a descriptor twice or lose one.
\<close>

section \<open>Clients\<close>

record unix_client =
  cl_fd :: int
  cl_refcount :: int

text \<open>
  \<open>ipc_open\<close> are the descriptors of accepted connections that are open; \<open>ipc_sent\<close> is what was
  written to each descriptor; \<open>ipc_writes\<close> lists the outcomes of the coming \<^verbatim>\<open>write\<close>
  calls, which write everything when it is used up.
\<close>

datatype write_result = Wr_bytes nat | Wr_eintr | Wr_error

record 'k ipc =
  ipc_clients :: "'k \<Rightarrow> unix_client option"
  ipc_open :: "int set"
  ipc_sent :: "(int \<times> u8 list) list"
  ipc_writes :: "write_result list"

text \<open>The loop around \<^verbatim>\<open>write\<close>: the bytes that reached the socket and the outcomes left.\<close>

fun write_loop :: "write_result list \<Rightarrow> u8 list \<Rightarrow> u8 list \<times> write_result list" where
  "write_loop rs [] = ([], rs)"
| "write_loop [] data = (data, [])"
| "write_loop (Wr_eintr # rs) data = write_loop rs data"
| "write_loop (Wr_error # rs) data = ([], rs)"
| "write_loop (Wr_bytes n # rs) data =
     (if n = 0 then ([], rs)
      else (case write_loop rs (drop n data) of (d, r) \<Rightarrow> (take n data @ d, r)))"

definition unix_sink_send :: "'k \<Rightarrow> u8 list \<Rightarrow> 'k ipc \<Rightarrow> 'k ipc option" where
  "unix_sink_send k data s = (case ipc_clients s k of
     None \<Rightarrow> None
   | Some c \<Rightarrow>
       if cl_fd c < 0 then Some s
       else (case write_loop (ipc_writes s) data of (d, rs) \<Rightarrow>
               Some (s\<lparr>ipc_sent := ipc_sent s @ [(cl_fd c, d)], ipc_writes := rs\<rparr>)))"

definition unix_sink_retain :: "'k \<Rightarrow> 'k ipc \<Rightarrow> 'k ipc option" where
  "unix_sink_retain k s = (case ipc_clients s k of
     None \<Rightarrow> None
   | Some c \<Rightarrow> Some (s\<lparr>ipc_clients := (ipc_clients s)(k \<mapsto> c\<lparr>cl_refcount := cl_refcount c + 1\<rparr>)\<rparr>))"

text \<open>\<^verbatim>\<open>close(fd)\<close>: closing a descriptor that is not open is an error the model reports.\<close>

definition close_fd :: "int \<Rightarrow> 'k ipc \<Rightarrow> 'k ipc option" where
  "close_fd fd s = (if fd \<in> ipc_open s then Some (s\<lparr>ipc_open := ipc_open s - {fd}\<rparr>) else None)"

definition unix_sink_release :: "'k \<Rightarrow> 'k ipc \<Rightarrow> 'k ipc option" where
  "unix_sink_release k s = (case ipc_clients s k of
     None \<Rightarrow> None
   | Some c \<Rightarrow>
       let n = cl_refcount c - 1 in
       if n = 0 then
         Option.bind (if cl_fd c \<ge> 0 then close_fd (cl_fd c) s else Some s)
           (\<lambda>s1. Some (s1\<lparr>ipc_clients := (ipc_clients s1)(k := None)\<rparr>))
       else Some (s\<lparr>ipc_clients := (ipc_clients s)(k \<mapsto> c\<lparr>cl_refcount := n\<rparr>)\<rparr>))"

text \<open>The end of \<^verbatim>\<open>client_thread\<close>: the descriptor is marked dead, then the reader's reference goes.\<close>

definition client_thread_exit :: "'k \<Rightarrow> 'k ipc \<Rightarrow> 'k ipc option" where
  "client_thread_exit k s = (case ipc_clients s k of
     None \<Rightarrow> None
   | Some c \<Rightarrow>
       Option.bind
         (if cl_fd c \<ge> 0 then
            map_option (\<lambda>s1. s1\<lparr>ipc_clients := (ipc_clients s1)(k \<mapsto> c\<lparr>cl_fd := -1\<rparr>)\<rparr>) (close_fd (cl_fd c) s)
          else Some s)
         (unix_sink_release k))"

text \<open>
  One pass of the accept loop of \<^verbatim>\<open>unix_ipc_thread\<close> after \<^verbatim>\<open>accept\<close> returned the new
  descriptor \<open>fd\<close>: \<open>k\<close> is the address \<^verbatim>\<open>calloc\<close> gives, \<open>None\<close> when it fails; \<open>thread_ok\<close> is
  the outcome of \<^verbatim>\<open>pthread_create\<close>.  The second result says whether a reader was started.
\<close>

definition accept_client :: "int \<Rightarrow> 'k option \<Rightarrow> bool \<Rightarrow> 'k ipc \<Rightarrow> ('k ipc \<times> bool) option" where
  "accept_client fd addr thread_ok s =
     (let s0 = s\<lparr>ipc_open := insert fd (ipc_open s)\<rparr> in
      case addr of
        None \<Rightarrow> map_option (\<lambda>s1. (s1, False)) (close_fd fd s0)
      | Some k \<Rightarrow>
          let s1 = s0\<lparr>ipc_clients := (ipc_clients s0)(k \<mapsto> \<lparr>cl_fd = fd, cl_refcount = 1\<rparr>)\<rparr> in
          if thread_ok then Some (s1, True)
          else map_option (\<lambda>s2. (s2\<lparr>ipc_clients := (ipc_clients s2)(k := None)\<rparr>, False)) (close_fd fd s1))"

section \<open>The sink contract\<close>

definition client_holds :: "'k ipc \<Rightarrow> 'k \<Rightarrow> nat \<Rightarrow> bool" where
  "client_holds s k n \<longleftrightarrow> (\<exists>c. ipc_clients s k = Some c \<and> cl_refcount c = int n)"

lemma unix_send_clients: "unix_sink_send k d s = Some s' \<Longrightarrow> ipc_clients s' = ipc_clients s \<and> ipc_open s' = ipc_open s"
  by (auto simp: unix_sink_send_def split: option.splits if_splits prod.splits)

lemma unix_release_other: "unix_sink_release k s = Some s' \<Longrightarrow> k' \<noteq> k \<Longrightarrow> ipc_clients s' k' = ipc_clients s k'"
  by (auto simp: unix_sink_release_def close_fd_def Let_def bind_eq_Some_conv split: option.splits if_splits)

text \<open>The same clients on the same descriptors; only counts may differ.\<close>

definition same_fds :: "'k ipc \<Rightarrow> 'k ipc \<Rightarrow> bool" where
  "same_fds s s' \<longleftrightarrow> ipc_open s' = ipc_open s \<and>
     (\<forall>k. map_option cl_fd (ipc_clients s' k) = map_option cl_fd (ipc_clients s k))"

interpretation unix_sink: proto_sink unix_sink_send unix_sink_retain unix_sink_release client_holds same_fds
proof
  fix s s' t u :: "'a ipc" and k k' :: 'a and n m d
  show "same_fds s s" by (simp add: same_fds_def)
  show "same_fds s t \<Longrightarrow> same_fds t u \<Longrightarrow> same_fds s u" by (simp add: same_fds_def)
  show "client_holds s k (Suc n) \<Longrightarrow> \<exists>s'. unix_sink_send k d s = Some s' \<and> client_holds s' k (Suc n) \<and> same_fds s s'"
    by (auto simp: client_holds_def unix_sink_send_def same_fds_def split: prod.split)
  show "client_holds s k (Suc n) \<Longrightarrow>
      \<exists>s'. unix_sink_retain k s = Some s' \<and> client_holds s' k (Suc (Suc n)) \<and> same_fds s s'"
    by (auto simp: client_holds_def unix_sink_retain_def same_fds_def)
  show "client_holds s k (Suc (Suc n)) \<Longrightarrow>
      \<exists>s'. unix_sink_release k s = Some s' \<and> client_holds s' k (Suc n) \<and> same_fds s s'"
    by (auto simp: client_holds_def unix_sink_release_def Let_def same_fds_def)
  show "unix_sink_send k d s = Some s' \<Longrightarrow> k' \<noteq> k \<Longrightarrow> client_holds s' k' m = client_holds s k' m"
    using unix_send_clients [of k d s s'] by (simp add: client_holds_def)
  show "unix_sink_retain k s = Some s' \<Longrightarrow> k' \<noteq> k \<Longrightarrow> client_holds s' k' m = client_holds s k' m"
    by (auto simp: client_holds_def unix_sink_retain_def split: option.splits)
  show "unix_sink_release k s = Some s' \<Longrightarrow> k' \<noteq> k \<Longrightarrow> client_holds s' k' m = client_holds s k' m"
    by (simp add: client_holds_def unix_release_other)
qed

section \<open>The service with its transport\<close>

record ('k, 'w) host =
  h_svc :: "('k, 'w) svc"
  h_ipc :: "'k ipc"
  h_readers :: "'k set"

abbreviation unix_run :: "('k \<times> sink_call) list \<Rightarrow> 'k ipc \<Rightarrow> 'k ipc option" where
  "unix_run \<equiv> apply_calls unix_sink_send unix_sink_retain unix_sink_release"

text \<open>The calls a new service state made since the old one, carried out on the transport.\<close>

definition carry_out :: "('k, 'w) host \<Rightarrow> ('k, 'w) svc \<Rightarrow> ('k, 'w) host option" where
  "carry_out h svc' = map_option (\<lambda>s. h\<lparr>h_svc := svc', h_ipc := s\<rparr>)
     (unix_run (drop (length (sv_calls (h_svc h))) (sv_calls svc')) (h_ipc h))"

text \<open>
  Steps: a connection is accepted; a reader receives bytes and dispatches them; a worker runs;
  a reader ends because its peer closed.  The result \<open>None\<close> is a crash.
\<close>

inductive host_step :: "'w wifi_ops \<Rightarrow> ('k, 'w) host \<Rightarrow> ('k, 'w) host option \<Rightarrow> bool" for ops where
  host_accept: "0 \<le> fd \<Longrightarrow> fd \<notin> ipc_open (h_ipc h) \<Longrightarrow> (\<And>k. addr = Some k \<Longrightarrow> ipc_clients (h_ipc h) k = None) \<Longrightarrow>
    host_step ops h (map_option (\<lambda>(s, started). h\<lparr>h_ipc := s,
      h_readers := (if started then insert (the addr) (h_readers h) else h_readers h)\<rparr>)
      (accept_client fd addr thread_ok (h_ipc h)))"
| host_receive: "k \<in> h_readers h \<Longrightarrow>
    host_step ops h (carry_out h (proto_dispatch_buffer ops data (Some k) (h_svc h)))"
| host_worker: "i < length (sv_jobs (h_svc h)) \<Longrightarrow>
    run_job ops (sv_jobs (h_svc h) ! i)
      ((h_svc h)\<lparr>sv_jobs := take i (sv_jobs (h_svc h)) @ drop (Suc i) (sv_jobs (h_svc h))\<rparr>) = Some svc' \<Longrightarrow>
    host_step ops h (carry_out h svc')"
| host_hangup: "k \<in> h_readers h \<Longrightarrow>
    host_step ops h (map_option (\<lambda>s. h\<lparr>h_ipc := s, h_readers := h_readers h - {k}\<rparr>) (client_thread_exit k (h_ipc h)))"

inductive_cases host_stepE: "host_step ops h r"

definition host_init :: "'w \<Rightarrow> bool list \<Rightarrow> write_result list \<Rightarrow> ('k, 'w) host" where
  "host_init w faults writes = \<lparr>h_svc = (svc_init w)\<lparr>sv_faults := faults\<rparr>,
     h_ipc = \<lparr>ipc_clients = (\<lambda>_. None), ipc_open = {}, ipc_sent = [], ipc_writes = writes\<rparr>, h_readers = {}\<rparr>"

inductive host_reachable :: "'w wifi_ops \<Rightarrow> ('k, 'w) host \<Rightarrow> bool" for ops where
  host_start: "host_reachable ops (host_init w faults writes)"
| host_next: "host_reachable ops h \<Longrightarrow> host_step ops h (Some h') \<Longrightarrow> host_reachable ops h'"

section \<open>Invariant\<close>

definition jobs_on :: "'k \<Rightarrow> ('k, 'w) svc \<Rightarrow> nat" where
  "jobs_on k st = length (filter (\<lambda>j. job_sink j = Some k) (sv_jobs st))"

text \<open>
  A client exists exactly while its reader or a worker needs it, its count is the number of
  them, its descriptor is open exactly while the reader runs; open descriptors belong to one
  client each and none is left over.
\<close>

definition client_ok :: "('k, 'w) host \<Rightarrow> 'k \<Rightarrow> bool" where
  "client_ok h k = (case ipc_clients (h_ipc h) k of
     None \<Rightarrow> k \<notin> h_readers h \<and> jobs_on k (h_svc h) = 0
   | Some c \<Rightarrow> cl_refcount c = int ((if k \<in> h_readers h then 1 else 0) + jobs_on k (h_svc h)) \<and> 0 < cl_refcount c \<and>
       (0 \<le> cl_fd c \<longleftrightarrow> k \<in> h_readers h))"

definition fd_map :: "'k ipc \<Rightarrow> 'k \<Rightarrow> int option" where
  "fd_map s k = map_option cl_fd (ipc_clients s k)"

definition fds_inv :: "('k \<Rightarrow> int option) \<Rightarrow> int set \<Rightarrow> bool" where
  "fds_inv F op \<longleftrightarrow> (\<forall>fd. fd \<in> op \<longrightarrow> 0 \<le> fd \<and> (\<exists>k. F k = Some fd)) \<and>
     (\<forall>k fd. F k = Some fd \<longrightarrow> 0 \<le> fd \<longrightarrow> fd \<in> op) \<and>
     (\<forall>k k' fd. F k = Some fd \<longrightarrow> F k' = Some fd \<longrightarrow> 0 \<le> fd \<longrightarrow> k = k')"

definition fds_ok :: "'k ipc \<Rightarrow> bool" where
  "fds_ok s \<longleftrightarrow> fds_inv (fd_map s) (ipc_open s)"

definition host_inv :: "('k, 'w) host \<Rightarrow> bool" where
  "host_inv h \<longleftrightarrow> (\<forall>k. client_ok h k) \<and> fds_ok (h_ipc h) \<and> list_all (\<lambda>j. job_sink j \<noteq> None) (sv_jobs (h_svc h))"

definition users :: "('k, 'w) host \<Rightarrow> 'k \<Rightarrow> nat" where
  "users h k = (if k \<in> h_readers h then 1 else 0) + jobs_on k (h_svc h)"

lemma client_ok_iff:
  "client_ok h k \<longleftrightarrow> (if users h k = 0 then ipc_clients (h_ipc h) k = None
     else client_holds (h_ipc h) k (users h k) \<and>
       (\<exists>c. ipc_clients (h_ipc h) k = Some c \<and> (0 \<le> cl_fd c \<longleftrightarrow> k \<in> h_readers h)))"
  by (auto simp: client_ok_def users_def client_holds_def split: option.splits)

lemma same_fds_SomeD: "same_fds s s' \<Longrightarrow> ipc_clients s' k = Some c' \<Longrightarrow> \<exists>c. ipc_clients s k = Some c \<and> cl_fd c = cl_fd c'"
  unfolding same_fds_def by (metis (no_types, lifting) map_option_eq_Some option.simps(9))

lemma same_fds_sym: "same_fds s s' \<Longrightarrow> same_fds s' s"
  by (simp add: same_fds_def)

lemma same_fds_None: "same_fds s s' \<Longrightarrow> ipc_clients s' k = None \<longleftrightarrow> ipc_clients s k = None"
  unfolding same_fds_def by (metis option.map_disc_iff)

lemma fds_ok_same: "fds_ok s \<Longrightarrow> same_fds s s' \<Longrightarrow> fds_ok s'"
proof -
  assume ok: "fds_ok s" and "same_fds s s'"
  then have "fd_map s' = fd_map s" "ipc_open s' = ipc_open s" by (auto simp: same_fds_def fd_map_def)
  with ok show ?thesis by (simp add: fds_ok_def)
qed

lemma fds_inv_add:
  assumes "fds_inv F op" "F k = None" "0 \<le> fd" "fd \<notin> op"
  shows "fds_inv (F(k \<mapsto> fd)) (insert fd op)"
  unfolding fds_inv_def
proof (intro conjI allI impI)
  fix x assume "x \<in> insert fd op"
  then show "0 \<le> x" "\<exists>k'. (F(k \<mapsto> fd)) k' = Some x"
    using assms unfolding fds_inv_def by (metis insertE, metis fun_upd_apply insertE option.distinct(1))
next
  fix k' x assume "(F(k \<mapsto> fd)) k' = Some x" "0 \<le> x"
  then show "x \<in> insert fd op" using assms unfolding fds_inv_def by (metis fun_upd_apply insert_iff option.inject)
next
  fix k1 k2 x assume "(F(k \<mapsto> fd)) k1 = Some x" "(F(k \<mapsto> fd)) k2 = Some x" "0 \<le> x"
  then show "k1 = k2" using assms unfolding fds_inv_def by (metis fun_upd_apply option.inject)
qed

lemma fds_inv_close:
  assumes "fds_inv F op" "F k = Some fd" "0 \<le> fd" and v: "\<And>x. v = Some x \<Longrightarrow> x < 0"
  shows "fds_inv (F(k := v)) (op - {fd})"
  unfolding fds_inv_def
proof (intro conjI allI impI)
  fix x assume "x \<in> op - {fd}"
  then show "0 \<le> x" "\<exists>k'. (F(k := v)) k' = Some x"
    using assms(1-3) unfolding fds_inv_def by (blast, metis DiffE fun_upd_apply insertI1 option.inject)
next
  fix k' x assume "(F(k := v)) k' = Some x" "0 \<le> x"
  then show "x \<in> op - {fd}"
    using assms(1-3) v unfolding fds_inv_def by (metis Diff_iff fun_upd_apply not_le singletonD)
next
  fix k1 k2 x assume "(F(k := v)) k1 = Some x" "(F(k := v)) k2 = Some x" "0 \<le> x"
  then show "k1 = k2" using assms(1-3) v unfolding fds_inv_def by (metis fun_upd_apply not_le)
qed

lemma fds_inv_free:
  assumes "fds_inv F op" "F k = Some fd" "fd < 0"
  shows "fds_inv (F(k := None)) op"
  unfolding fds_inv_def
proof (intro conjI allI impI)
  fix x assume "x \<in> op"
  then show "0 \<le> x" "\<exists>k'. (F(k := None)) k' = Some x"
    using assms unfolding fds_inv_def by (blast, metis fun_upd_apply not_le option.inject)
next
  fix k' x assume "(F(k := None)) k' = Some x" "0 \<le> x"
  then show "x \<in> op" using assms unfolding fds_inv_def by (metis fun_upd_apply option.distinct(1))
next
  fix k1 k2 x assume "(F(k := None)) k1 = Some x" "(F(k := None)) k2 = Some x" "0 \<le> x"
  then show "k1 = k2" using assms unfolding fds_inv_def by (metis fun_upd_apply option.distinct(1))
qed

lemma fd_map_upd:
  "fd_map (s\<lparr>ipc_clients := (ipc_clients t)(k := c)\<rparr>) = (fd_map t)(k := map_option cl_fd c)"
  by (auto simp: fd_map_def)

text \<open>A client with users keeps them through calls that keep the connections.\<close>

lemma client_ok_same:
  assumes "client_ok h k" and "same_fds (h_ipc h) s" and "h_readers h' = h_readers h" and "h_ipc h' = s"
    and "users h k = 0 \<Longrightarrow> users h' k = 0"
    and "users h k \<noteq> 0 \<Longrightarrow> users h' k \<noteq> 0 \<and> client_holds s k (users h' k)"
  shows "client_ok h' k"
  using assms same_fds_None [OF assms(2), of k] same_fds_SomeD [OF same_fds_sym [OF assms(2)], of k]
  unfolding client_ok_iff by (metis (no_types, lifting))

lemma client_ok_cong:
  "ipc_clients (h_ipc h') k = ipc_clients (h_ipc h) k \<Longrightarrow> (k \<in> h_readers h') = (k \<in> h_readers h) \<Longrightarrow>
   jobs_on k (h_svc h') = jobs_on k (h_svc h) \<Longrightarrow> client_ok h' k = client_ok h k"
  by (simp add: client_ok_def split: option.split)

lemma accept_inv:
  assumes inv: "host_inv h" and fd: "0 \<le> fd" "fd \<notin> ipc_open (h_ipc h)"
    and fresh: "\<And>k. addr = Some k \<Longrightarrow> ipc_clients (h_ipc h) k = None"
  shows "\<exists>s started. accept_client fd addr ok (h_ipc h) = Some (s, started) \<and>
    host_inv (h\<lparr>h_ipc := s, h_readers := (if started then insert (the addr) (h_readers h) else h_readers h)\<rparr>)"
proof -
  have same: "host_inv (h\<lparr>h_ipc := h_ipc h, h_readers := h_readers h\<rparr>)" using inv by simp
  show ?thesis
  proof (cases addr)
    case None
    with fd same show ?thesis
      by (intro exI [of _ "h_ipc h"] exI [of _ False]) (simp add: accept_client_def close_fd_def Let_def)
  next
    case (Some k)
    with fresh have k: "ipc_clients (h_ipc h) k = None" by simp
    show ?thesis
    proof (cases ok)
      case False
      have "(ipc_clients (h_ipc h))(k := None) = ipc_clients (h_ipc h)" using k by auto
      with Some False fd same show ?thesis
        by (intro exI [of _ "h_ipc h"] exI [of _ False]) (simp add: accept_client_def close_fd_def Let_def)
    next
      case True
      let ?s = "(h_ipc h)\<lparr>ipc_open := insert fd (ipc_open (h_ipc h)),
        ipc_clients := (ipc_clients (h_ipc h))(k \<mapsto> \<lparr>cl_fd = fd, cl_refcount = 1\<rparr>)\<rparr>"
      let ?h = "h\<lparr>h_ipc := ?s, h_readers := insert k (h_readers h)\<rparr>"
      have "client_ok h k" using inv by (simp add: host_inv_def)
      with k have "k \<notin> h_readers h" "jobs_on k (h_svc h) = 0" by (simp_all add: client_ok_def)
      then have "client_ok ?h k" using fd by (simp add: client_ok_def)
      moreover have "client_ok ?h k'" if "k' \<noteq> k" for k'
        using inv that client_ok_cong [of ?h k' h] by (simp add: host_inv_def)
      ultimately have "client_ok ?h k'" for k' by (cases "k' = k") simp_all
      moreover have "fds_ok ?s"
        using inv fd k fds_inv_add [of "fd_map (h_ipc h)" "ipc_open (h_ipc h)" k fd]
        by (simp add: host_inv_def fds_ok_def fd_map_upd) (simp add: fd_map_def)
      ultimately have "host_inv ?h" using inv by (simp add: host_inv_def)
      with Some True show ?thesis
        by (intro exI [of _ ?s] exI [of _ True]) (simp add: accept_client_def Let_def)
    qed
  qed
qed

lemma host_inv_users: "host_inv h \<Longrightarrow> users h k \<noteq> 0 \<Longrightarrow> client_holds (h_ipc h) k (users h k)"
  by (auto simp: host_inv_def client_ok_iff)

lemma jobs_on_append: "sv_jobs st' = sv_jobs st @ js \<Longrightarrow>
    jobs_on k st' = jobs_on k st + length (filter (\<lambda>j. job_sink j = Some k) js)"
  by (simp add: jobs_on_def)

lemma receive_inv:
  assumes inv: "host_inv h" and k: "k \<in> h_readers h" and ops: "wifi_backend ops"
  shows "\<exists>h'. carry_out h (proto_dispatch_buffer ops data (Some k) (h_svc h)) = Some h' \<and> host_inv h'"
proof -
  let ?svc = "proto_dispatch_buffer ops data (Some k) (h_svc h)"
  obtain cs js where cs: "sv_calls ?svc = sv_calls (h_svc h) @ cs" "balanced k cs"
    and js: "sv_jobs ?svc = sv_jobs (h_svc h) @ js" "list_all (\<lambda>j. job_sink j = Some k) js"
      "ref_count k cs = int (length js)"
    using wifi_backend.dispatch_calls [OF ops, where data = data and k = k and st = "h_svc h"] by blast
  have u: "users h k = Suc (jobs_on k (h_svc h))" using k by (simp add: users_def)
  then have "client_holds (h_ipc h) k (Suc (jobs_on k (h_svc h)))" using host_inv_users [OF inv, of k] by simp
  from unix_sink.run_balanced [OF this cs(2)] obtain s where s: "unix_run cs (h_ipc h) = Some s"
    "client_holds s k (Suc (jobs_on k (h_svc h)) + length js)" "same_fds (h_ipc h) s"
    by (auto simp: js(3))
  let ?h = "h\<lparr>h_svc := ?svc, h_ipc := s\<rparr>"
  have on: "jobs_on k' ?svc = jobs_on k' (h_svc h) + (if k' = k then length js else 0)" for k'
    using jobs_on_append [OF js(1), of k'] filter_sink_all [OF js(2), of k'] by simp
  have "client_ok ?h k'" for k'
  proof (rule client_ok_same [where h = h, OF _ s(3)])
    show "client_ok h k'" using inv by (simp add: host_inv_def)
    show "users h k' = 0 \<Longrightarrow> users ?h k' = 0" using k by (auto simp: users_def on split: if_splits)
    show "users h k' \<noteq> 0 \<Longrightarrow> users ?h k' \<noteq> 0 \<and> client_holds s k' (users ?h k')"
    proof (cases "k' = k")
      case True
      with s(2) k show ?thesis by (simp add: users_def on)
    next
      case False
      assume nz: "users h k' \<noteq> 0"
      have "list_all (\<lambda>c. fst c \<noteq> k') cs" using cs(2) False by (auto simp: balanced_def list_all_iff)
      from unix_sink.run_other [OF s(1) this] host_inv_users [OF inv nz] nz False show ?thesis
        by (simp add: users_def on)
    qed
  qed simp_all
  moreover have "list_all (\<lambda>j. job_sink j \<noteq> None) (sv_jobs ?svc)"
    using inv js by (auto simp: host_inv_def list_all_iff)
  moreover have "fds_ok s" using inv s(3) by (auto simp: host_inv_def intro: fds_ok_same)
  ultimately have "host_inv ?h" by (simp add: host_inv_def)
  with s(1) show ?thesis by (simp add: carry_out_def cs(1))
qed

text \<open>The sends of a worker and its release, on a client with \<open>n\<close> references.\<close>

lemma sends_balanced: "balanced k (map (\<lambda>d. (k, Snk_send d)) ds)"
  by (auto simp: balanced_def list_all_iff take_map)

lemma unix_run_worker:
  assumes "client_holds s k (Suc n)" and "n = 0 \<Longrightarrow> ipc_clients s k = Some c \<and> cl_fd c < 0"
  shows "\<exists>s'. unix_run (map (\<lambda>d. (k, Snk_send d)) ds @ [(k, Snk_release)]) s = Some s' \<and>
    (if n = 0 then ipc_open s' = ipc_open s \<and> fd_map s' = (fd_map s)(k := None) \<and> ipc_clients s' k = None
     else client_holds s' k n \<and> same_fds s s')"
proof -
  from unix_sink.run_balanced [OF assms(1) sends_balanced] obtain s1 where
    s1: "unix_run (map (\<lambda>d. (k, Snk_send d)) ds) s = Some s1" "client_holds s1 k (Suc n)" "same_fds s s1" by auto
  show ?thesis
  proof (cases n)
    case 0
    with s1 obtain c1 where c1: "ipc_clients s1 k = Some c1" "cl_refcount c1 = 1" by (auto simp: client_holds_def)
    with assms(2) 0 same_fds_SomeD [OF s1(3) c1(1)] have fd: "cl_fd c1 < 0" by auto
    have m: "fd_map s1 = fd_map s" "ipc_open s1 = ipc_open s" using s1(3) by (auto simp: same_fds_def fd_map_def)
    have "unix_sink_release k s1 = Some (s1\<lparr>ipc_clients := (ipc_clients s1)(k := None)\<rparr>)"
      using c1 fd by (simp add: unix_sink_release_def)
    with s1(1) 0 m show ?thesis by (simp add: apply_calls_append fd_map_upd)
  next
    case (Suc m)
    from unix_sink.release_ok [of s1 k m] s1(2) Suc obtain s2 where
      "unix_sink_release k s1 = Some s2" "client_holds s2 k (Suc m)" "same_fds s1 s2" by blast
    with s1 Suc unix_sink.stable_trans [OF s1(3)] show ?thesis by (auto simp: apply_calls_append)
  qed
qed

lemma unix_run_other:
  assumes "unix_run cs s = Some s'" and "list_all (\<lambda>c. fst c \<noteq> k) cs"
  shows "ipc_clients s' k = ipc_clients s k"
  using assms
proof (induction cs arbitrary: s)
  case (Cons c cs)
  obtain k' x where c: "c = (k', x)" by (cases c)
  from Cons.prems obtain s1 where
    s1: "apply_call unix_sink_send unix_sink_retain unix_sink_release c s = Some s1" "unix_run cs s1 = Some s'"
    by (auto simp: bind_eq_Some_conv)
  with Cons.prems have "ipc_clients s1 k = ipc_clients s k"
    by (cases x) (auto simp: c unix_send_clients unix_sink_retain_def unix_release_other split: option.splits)
  with Cons s1 show ?case by simp
qed simp

lemma jobs_on_removed:
  assumes "i < length (sv_jobs st)" and "job_sink (sv_jobs st ! i) = Some k"
    and "sv_jobs st' = take i (sv_jobs st) @ drop (Suc i) (sv_jobs st)"
  shows "jobs_on k' st = jobs_on k' st' + (if k' = k then 1 else 0)"
  using filter_remove_nth [OF assms(1), of "\<lambda>j. job_sink j = Some k'"] assms(2,3)
  by (simp add: jobs_on_def)

lemma worker_step_inv:
  assumes inv: "host_inv h" and i: "i < length (sv_jobs (h_svc h))" and k: "job_sink (sv_jobs (h_svc h) ! i) = Some k"
    and w: "worker_calls k ((h_svc h)\<lparr>sv_jobs := take i (sv_jobs (h_svc h)) @ drop (Suc i) (sv_jobs (h_svc h))\<rparr>) svc'"
  shows "\<exists>h'. carry_out h svc' = Some h' \<and> host_inv h'"
proof -
  from w obtain ds where calls: "sv_calls svc' = sv_calls (h_svc h) @ map (\<lambda>d. (k, Snk_send d)) ds @ [(k, Snk_release)]"
    and jobs: "sv_jobs svc' = take i (sv_jobs (h_svc h)) @ drop (Suc i) (sv_jobs (h_svc h))"
    by (auto simp: worker_calls_def)
  let ?cs = "map (\<lambda>d. (k, Snk_send d)) ds @ [(k, Snk_release)]"
  note on = jobs_on_removed [OF i k jobs]
  obtain n where n: "users h k = Suc n" using on [of k] by (cases "users h k") (auto simp: users_def)
  have holds: "client_holds (h_ipc h) k (Suc n)" using host_inv_users [OF inv, of k] n by simp
  have "client_ok h k" using inv by (simp add: host_inv_def)
  with n obtain c where c: "ipc_clients (h_ipc h) k = Some c" "0 \<le> cl_fd c \<longleftrightarrow> k \<in> h_readers h"
    by (auto simp: client_ok_iff)
  have no_reader: "k \<notin> h_readers h" if "n = 0" using that n on [of k] by (auto simp: users_def split: if_splits)
  with c have dead: "n = 0 \<Longrightarrow> ipc_clients (h_ipc h) k = Some c \<and> cl_fd c < 0" by auto
  from unix_run_worker [OF holds dead] obtain s where run: "unix_run ?cs (h_ipc h) = Some s"
    and s: "if n = 0 then ipc_open s = ipc_open (h_ipc h) \<and> fd_map s = (fd_map (h_ipc h))(k := None) \<and> ipc_clients s k = None
      else client_holds s k n \<and> same_fds (h_ipc h) s" by blast
  let ?h = "h\<lparr>h_svc := svc', h_ipc := s\<rparr>"
  have users: "users ?h k = n" using n on [of k] by (auto simp: users_def)
  have "client_ok ?h k'" if "k' \<noteq> k" for k'
  proof -
    have "list_all (\<lambda>c. fst c \<noteq> k') ?cs" using that by (auto simp: list_all_iff)
    from unix_run_other [OF run this] on [of k'] that inv show ?thesis
      using client_ok_cong [of ?h k' h] by (simp add: host_inv_def)
  qed
  moreover have "client_ok ?h k"
    using s users c same_fds_SomeD [of s "h_ipc h" k] same_fds_sym [of "h_ipc h" s]
    by (cases n) (auto simp: client_ok_iff)
  ultimately have clients: "client_ok ?h k'" for k' by (cases "k' = k") simp_all
  have "fds_ok (h_ipc h)" using inv by (simp add: host_inv_def)
  then have "fds_ok s"
    using s fds_ok_same [of "h_ipc h" s] fds_inv_free [of "fd_map (h_ipc h)" "ipc_open (h_ipc h)" k "cl_fd c"] dead
    by (cases "n = 0") (auto simp: fds_ok_def fd_map_def [of "h_ipc h" k])
  moreover have "list_all (\<lambda>j. job_sink j \<noteq> None) (sv_jobs svc')"
    using inv by (auto simp: host_inv_def jobs list_all_iff dest: in_set_takeD in_set_dropD)
  ultimately have "host_inv ?h" using clients by (simp add: host_inv_def)
  with run show ?thesis by (simp add: carry_out_def calls)
qed

lemma hangup_inv:
  assumes inv: "host_inv h" and k: "k \<in> h_readers h"
  shows "\<exists>s. client_thread_exit k (h_ipc h) = Some s \<and> host_inv (h\<lparr>h_ipc := s, h_readers := h_readers h - {k}\<rparr>)"
proof -
  let ?s = "h_ipc h" and ?j = "jobs_on k (h_svc h)"
  have ok: "client_ok h k" and fds: "fds_inv (fd_map ?s) (ipc_open ?s)"
    using inv by (auto simp: host_inv_def fds_ok_def)
  then obtain c where c: "ipc_clients ?s k = Some c" "cl_refcount c = int (1 + ?j)" "0 \<le> cl_fd c"
    using k by (auto simp: client_ok_def split: option.splits)
  have F: "fd_map ?s k = Some (cl_fd c)" using c by (simp add: fd_map_def)
  then have op: "cl_fd c \<in> ipc_open ?s" using fds c(3) unfolding fds_inv_def by blast
  let ?new = "if ?j = 0 then None else Some (c\<lparr>cl_fd := -1, cl_refcount := int ?j\<rparr>)"
  let ?t = "?s\<lparr>ipc_open := ipc_open ?s - {cl_fd c}, ipc_clients := (ipc_clients ?s)(k := ?new)\<rparr>"
  have exit: "client_thread_exit k ?s = Some ?t"
    using c op by (auto simp: client_thread_exit_def close_fd_def unix_sink_release_def Let_def)
  let ?h = "h\<lparr>h_ipc := ?t, h_readers := h_readers h - {k}\<rparr>"
  have "client_ok ?h k" by (simp add: client_ok_def)
  moreover have "client_ok ?h k'" if "k' \<noteq> k" for k'
    using inv that client_ok_cong [of ?h k' h] by (simp add: host_inv_def)
  ultimately have clients: "client_ok ?h k'" for k' by (cases "k' = k") simp_all
  have "fd_map ?t = (fd_map ?s)(k := map_option cl_fd ?new)" by (auto simp: fd_map_def)
  moreover have "fds_inv ((fd_map ?s)(k := map_option cl_fd ?new)) (ipc_open ?s - {cl_fd c})"
    by (rule fds_inv_close [OF fds F c(3)]) (auto split: if_splits)
  ultimately have "fds_ok ?t" by (simp add: fds_ok_def)
  with clients inv have "host_inv ?h" by (simp add: host_inv_def)
  with exit show ?thesis by blast
qed

lemma host_init_inv: "host_inv (host_init w faults writes)"
  by (simp add: host_inv_def host_init_def client_ok_def jobs_on_def svc_init_def fds_ok_def fds_inv_def fd_map_def)

lemma host_step_inv:
  assumes ops: "wifi_backend ops" and inv: "host_inv h" and "host_step ops h r"
  shows "\<exists>h'. r = Some h' \<and> host_inv h'"
  using assms(3)
proof (rule host_stepE)
  fix fd addr thread_ok
  assume "0 \<le> fd" "fd \<notin> ipc_open (h_ipc h)" "\<And>k. addr = Some k \<Longrightarrow> ipc_clients (h_ipc h) k = None"
    and r: "r = map_option (\<lambda>(s, started). h\<lparr>h_ipc := s,
      h_readers := if started then insert (the addr) (h_readers h) else h_readers h\<rparr>)
      (accept_client fd addr thread_ok (h_ipc h))"
  from accept_inv [OF inv this(1-3)] obtain s started where
    "accept_client fd addr thread_ok (h_ipc h) = Some (s, started)"
    "host_inv (h\<lparr>h_ipc := s, h_readers := if started then insert (the addr) (h_readers h) else h_readers h\<rparr>)" by blast
  then show ?thesis by (simp add: r)
next
  fix k data
  assume "k \<in> h_readers h" "r = carry_out h (proto_dispatch_buffer ops data (Some k) (h_svc h))"
  then show ?thesis using receive_inv [OF inv _ ops] by blast
next
  fix i svc'
  let ?st = "(h_svc h)\<lparr>sv_jobs := take i (sv_jobs (h_svc h)) @ drop (Suc i) (sv_jobs (h_svc h))\<rparr>"
  assume i: "i < length (sv_jobs (h_svc h))" and run: "run_job ops (sv_jobs (h_svc h) ! i) ?st = Some svc'"
    and r: "r = carry_out h svc'"
  obtain k where k: "job_sink (sv_jobs (h_svc h) ! i) = Some k"
    using inv i by (auto simp: host_inv_def list_all_length)
  obtain u where "run_job ops (sv_jobs (h_svc h) ! i) ?st = Some u" "worker_calls k ?st u"
    using wifi_backend.run_job_calls [OF ops k] by blast
  with run have w: "worker_calls k ?st svc'" by (simp only: option.inject)
  from worker_step_inv [OF inv i k w] r show ?thesis by blast
next
  fix k
  assume "k \<in> h_readers h"
    and r: "r = map_option (\<lambda>s. h\<lparr>h_ipc := s, h_readers := h_readers h - {k}\<rparr>) (client_thread_exit k (h_ipc h))"
  from hangup_inv [OF inv this(1)] show ?thesis by (auto simp: r)
qed

lemma host_reachable_inv:
  assumes "wifi_backend ops"
  shows "host_reachable ops h \<Longrightarrow> host_inv h"
proof (induction rule: host_reachable.induct)
  case (host_start w faults writes)
  then show ?case by (rule host_init_inv)
next
  case (host_next h h')
  then show ?case using host_step_inv [OF assms] by blast
qed

section \<open>Properties of the transport\<close>

text \<open>
  Property C1.  The transport is memory safe.  However connections are accepted, bytes arrive,
  workers finish and peers hang up, in any order and with any allocation, thread or write
  failures: no step touches a freed client or closes a descriptor that is not open (no step
  has the result \<open>None\<close>).
\<close>

theorem unix_ipc_never_crashes:
  assumes "host_reachable (linked_ops b os) h" and "host_step (linked_ops b os) h r"
  shows "r \<noteq> None"
  using host_step_inv [OF linked.wifi_backend_axioms host_reachable_inv [OF linked.wifi_backend_axioms assms(1)] assms(2)]
  by blast

definition ipc_example :: "(nat, unit world) host" where
  "ipc_example = host_init (world0 (\<lambda>_. None)) [] []"

theorem unix_ipc_never_crashes_witness:
  "map_option (\<lambda>(s, started). ipc_example\<lparr>h_ipc := s,
      h_readers := (if started then insert (the (Some 1)) (h_readers ipc_example) else h_readers ipc_example)\<rparr>)
     (accept_client 5 (Some 1) True (h_ipc ipc_example)) \<noteq> None"
proof (rule unix_ipc_never_crashes [where os = "ok_os (\<lambda>_. [])"])
  show "host_reachable (linked_ops RK3566 (ok_os (\<lambda>_. []))) ipc_example"
    unfolding ipc_example_def by (rule host_start)
  show "host_step (linked_ops RK3566 (ok_os (\<lambda>_. []))) ipc_example
     (map_option (\<lambda>(s, started). ipc_example\<lparr>h_ipc := s,
      h_readers := (if started then insert (the (Some 1)) (h_readers ipc_example) else h_readers ipc_example)\<rparr>)
     (accept_client 5 (Some 1) True (h_ipc ipc_example)))"
    by (rule host_accept) (simp_all add: ipc_example_def host_init_def)
qed

text \<open>
  Property C9.  Nothing is leaked and nothing outlives its users.  In every reachable state a client
  structure exists exactly if its reader thread runs or a worker holds its sink, its reference
  count is the number of these, its descriptor is open exactly while the reader runs, and the
  open descriptors are exactly those of running readers; so when all readers and workers are
  gone, every structure is freed and every descriptor closed.
\<close>

theorem unix_ipc_references_exact:
  assumes "host_reachable (linked_ops b os) h"
  shows "(ipc_clients (h_ipc h) k = None \<longleftrightarrow> k \<notin> h_readers h \<and> jobs_on k (h_svc h) = 0) \<and>
    (ipc_clients (h_ipc h) k = Some c \<longrightarrow>
      cl_refcount c = int ((if k \<in> h_readers h then 1 else 0) + jobs_on k (h_svc h)) \<and>
      (0 \<le> cl_fd c \<longleftrightarrow> k \<in> h_readers h)) \<and>
    (fd \<in> ipc_open (h_ipc h) \<longleftrightarrow>
      (\<exists>k c. k \<in> h_readers h \<and> ipc_clients (h_ipc h) k = Some c \<and> cl_fd c = fd))"
proof (intro conjI)
  have inv: "host_inv h" using host_reachable_inv [OF linked.wifi_backend_axioms assms] .
  then have ok: "client_ok h k" for k by (simp add: host_inv_def)
  show "ipc_clients (h_ipc h) k = None \<longleftrightarrow> k \<notin> h_readers h \<and> jobs_on k (h_svc h) = 0"
    using ok [of k] by (auto simp: client_ok_def split: option.splits if_splits)
  show "ipc_clients (h_ipc h) k = Some c \<longrightarrow>
      cl_refcount c = int ((if k \<in> h_readers h then 1 else 0) + jobs_on k (h_svc h)) \<and>
      (0 \<le> cl_fd c \<longleftrightarrow> k \<in> h_readers h)"
    using ok [of k] by (auto simp: client_ok_def)
  have reader: "0 \<le> cl_fd c \<longleftrightarrow> k \<in> h_readers h" if "ipc_clients (h_ipc h) k = Some c" for k c
    using ok [of k] that by (simp add: client_ok_def)
  have fds: "fds_inv (fd_map (h_ipc h)) (ipc_open (h_ipc h))" using inv by (simp add: host_inv_def fds_ok_def)
  show "fd \<in> ipc_open (h_ipc h) \<longleftrightarrow>
      (\<exists>k c. k \<in> h_readers h \<and> ipc_clients (h_ipc h) k = Some c \<and> cl_fd c = fd)"
  proof
    assume "fd \<in> ipc_open (h_ipc h)"
    then obtain k where "0 \<le> fd" "fd_map (h_ipc h) k = Some fd" using fds unfolding fds_inv_def by blast
    then show "\<exists>k c. k \<in> h_readers h \<and> ipc_clients (h_ipc h) k = Some c \<and> cl_fd c = fd"
      using reader by (auto simp: fd_map_def)
  next
    assume "\<exists>k c. k \<in> h_readers h \<and> ipc_clients (h_ipc h) k = Some c \<and> cl_fd c = fd"
    then obtain k c where "k \<in> h_readers h" "ipc_clients (h_ipc h) k = Some c" "cl_fd c = fd" by blast
    with reader have "0 \<le> fd" "fd_map (h_ipc h) k = Some fd" by (auto simp: fd_map_def)
    then show "fd \<in> ipc_open (h_ipc h)" using fds unfolding fds_inv_def by blast
  qed
qed

theorem unix_ipc_references_exact_witness:
  "ipc_clients (h_ipc ipc_example) 3 = None \<longleftrightarrow> 3 \<notin> h_readers ipc_example \<and> jobs_on 3 (h_svc ipc_example) = 0"
  by (rule unix_ipc_references_exact [where os = "ok_os (\<lambda>_. [])", THEN conjunct1])
     (unfold ipc_example_def, rule host_start)

lemma write_loop_prefix: "write_loop rs d = (x, rs') \<Longrightarrow> \<exists>y. d = x @ y"
proof (induction rs d arbitrary: x rule: write_loop.induct)
  case (5 n rs v va)
  then show ?case
    by (auto split: if_splits prod.splits) (metis append_assoc append_take_drop_id)
qed auto

lemma write_loop_complete:
  "list_all (\<lambda>r. r \<noteq> Wr_error \<and> r \<noteq> Wr_bytes 0) rs \<Longrightarrow> fst (write_loop rs d) = d"
proof (induction rs d rule: write_loop.induct)
  case (5 n rs v va)
  then show ?case by (auto split: prod.splits)
qed auto

text \<open>
  Partial writes are completed.  What \<^verbatim>\<open>unix_sink_send\<close> puts on the socket is always
  an initial part of the frame; short writes and interruptions alone never cut it: as long as
  no \<^verbatim>\<open>write\<close> fails or writes nothing, the whole frame is sent, once and in order.
\<close>

theorem unix_sink_send_complete:
  assumes "ipc_clients s k = Some c" and "0 \<le> cl_fd c" and "unix_sink_send k data s = Some s'"
  shows "\<exists>sent rest. ipc_sent s' = ipc_sent s @ [(cl_fd c, sent)] \<and> data = sent @ rest \<and>
    (list_all (\<lambda>r. r \<noteq> Wr_error \<and> r \<noteq> Wr_bytes 0) (ipc_writes s) \<longrightarrow> rest = [])"
proof -
  obtain d rs where w: "write_loop (ipc_writes s) data = (d, rs)" by (cases "write_loop (ipc_writes s) data")
  from write_loop_prefix [OF w] obtain y where "data = d @ y" by blast
  with w assms write_loop_complete [of "ipc_writes s" data] show ?thesis
    by (auto simp: unix_sink_send_def)
qed

theorem unix_sink_send_complete_witness:
  "\<exists>sent rest. ipc_sent (the (unix_sink_send (1 :: nat) [1, 2, 3]
      \<lparr>ipc_clients = [1 \<mapsto> \<lparr>cl_fd = 5, cl_refcount = 1\<rparr>], ipc_open = {5}, ipc_sent = [],
       ipc_writes = [Wr_eintr, Wr_bytes 1]\<rparr>)) = [(5, sent)] \<and> [1, 2, 3] = sent @ rest \<and> rest = []"
proof -
  let ?s = "\<lparr>ipc_clients = [1 \<mapsto> \<lparr>cl_fd = 5, cl_refcount = 1\<rparr>], ipc_open = {5}, ipc_sent = [],
       ipc_writes = [Wr_eintr, Wr_bytes 1]\<rparr>"
  obtain s' where s': "unix_sink_send (1 :: nat) [1, 2, 3] ?s = Some s'"
    by (simp add: unix_sink_send_def)
  from unix_sink_send_complete [OF _ _ this, of "\<lparr>cl_fd = 5, cl_refcount = 1\<rparr>"] s' show ?thesis by simp
qed

text \<open>
  A frame must arrive in one read.  The reader hands each read to the dispatcher on
  its own, so if a frame is split over two reads, neither part is handled: here a STATUS
  request that would be answered when it arrives whole gets no answer at all.
\<close>

theorem split_frame_is_lost:
  "let frame = msg_wire (request 1 PROTO_CMDID_STATUS []); ops = linked_ops RK3566 (ok_os (\<lambda>_. []));
       st = svc_init (world0 (\<lambda>_. None)) :: (nat, unit world) svc
   in sv_calls (proto_dispatch_buffer ops (drop 6 frame) (Some 0)
        (proto_dispatch_buffer ops (take 6 frame) (Some 0) st)) = [] \<and>
      sv_calls (proto_dispatch_buffer ops frame (Some 0) st) \<noteq> []"
proof -
  let ?frame = "msg_wire (request 1 PROTO_CMDID_STATUS [])"
  let ?ops = "linked_ops RK3566 (ok_os (\<lambda>_. []))" and ?st = "svc_init (world0 (\<lambda>_. None)) :: (nat, unit world) svc"
  have short: "\<nexists>f. proto_decode (Some d) True = Inr f" if "length d < 10" for d
    using that by (simp add: proto_decode_Inr_iff wf_wire_def PROTO_HDR_LEN_def)
  have len: "length ?frame = 10" by (simp add: PROTO_HDR_LEN_def)
  have "proto_dispatch_buffer ?ops (drop 6 ?frame) (Some 0) (proto_dispatch_buffer ?ops (take 6 ?frame) (Some 0) ?st) = ?st"
    using len by (simp add: dispatch_garbage [OF short] del: msg_wire.simps)
  moreover have "proto_dispatch_buffer ?ops ?frame (Some 0) ?st =
      handle_proto_frame ?ops (msg_frame (request 1 PROTO_CMDID_STATUS [])) (Some 0) ?st"
    using dispatch_msg [of "request 1 PROTO_CMDID_STATUS []" ?ops "[]"]
    by (simp add: proto_dispatch_buffer.simps [of ?ops "[]"])
  ultimately show ?thesis
    by (simp add: Let_def svc_init_def handle_proto_frame_def proto_defs)
qed

section \<open>Draining\<close>

text \<open>
  The steps that are left when no connection is accepted and nothing more is received: a worker
  finishes or a peer hangs up.  The load is the number of threads that still run.
\<close>

inductive drain_step :: "'w wifi_ops \<Rightarrow> ('k, 'w) host \<Rightarrow> ('k, 'w) host \<Rightarrow> bool" for ops where
  drain_worker: "i < length (sv_jobs (h_svc h)) \<Longrightarrow>
    run_job ops (sv_jobs (h_svc h) ! i)
      ((h_svc h)\<lparr>sv_jobs := take i (sv_jobs (h_svc h)) @ drop (Suc i) (sv_jobs (h_svc h))\<rparr>) = Some svc' \<Longrightarrow>
    carry_out h svc' = Some h' \<Longrightarrow> drain_step ops h h'"
| drain_hangup: "k \<in> h_readers h \<Longrightarrow> client_thread_exit k (h_ipc h) = Some s \<Longrightarrow>
    drain_step ops h (h\<lparr>h_ipc := s, h_readers := h_readers h - {k}\<rparr>)"

inductive_cases drain_stepE: "drain_step ops h h'"

definition host_load :: "('k, 'w) host \<Rightarrow> nat" where
  "host_load h = length (sv_jobs (h_svc h)) + card (h_readers h)"

lemma drain_host_step: "drain_step ops h h' \<Longrightarrow> host_step ops h (Some h')"
proof (induction rule: drain_step.induct)
  case (drain_worker i h svc' h')
  then show ?case using host_worker [of i h ops svc'] by simp
next
  case (drain_hangup k h s)
  then show ?case using host_hangup [of k h ops] by simp
qed

lemma carry_out_fields: "carry_out h svc' = Some h' \<Longrightarrow> h_readers h' = h_readers h \<and> h_svc h' = svc'"
  by (auto simp: carry_out_def)

lemma finite_readers: "host_reachable ops h \<Longrightarrow> finite (h_readers h)"
proof (induction rule: host_reachable.induct)
  case (host_start w faults writes)
  then show ?case by (simp add: host_init_def)
next
  case (host_next h h')
  from host_next.hyps(2) show ?case
    using host_next.IH by (cases rule: host_step.cases) (auto dest!: sym [of "Some h'"] carry_out_fields split: if_splits)
qed

lemma job_sink_known: "host_inv h \<Longrightarrow> i < length (sv_jobs (h_svc h)) \<Longrightarrow> \<exists>k. job_sink (sv_jobs (h_svc h) ! i) = Some k"
  by (auto simp: host_inv_def list_all_length)

lemma drain_step_load:
  assumes ops: "wifi_backend ops" and reach: "host_reachable ops h" and step: "drain_step ops h h'"
  shows "Suc (host_load h') = host_load h"
  using step
proof (rule drain_stepE)
  fix i svc'
  let ?st = "(h_svc h)\<lparr>sv_jobs := take i (sv_jobs (h_svc h)) @ drop (Suc i) (sv_jobs (h_svc h))\<rparr>"
  assume i: "i < length (sv_jobs (h_svc h))" and run: "run_job ops (sv_jobs (h_svc h) ! i) ?st = Some svc'"
    and c: "carry_out h svc' = Some h'"
  obtain k where k: "job_sink (sv_jobs (h_svc h) ! i) = Some k"
    using job_sink_known [OF host_reachable_inv [OF ops reach] i] by blast
  obtain u where u: "run_job ops (sv_jobs (h_svc h) ! i) ?st = Some u" "worker_calls k ?st u"
    using wifi_backend.run_job_calls [OF ops k] by blast
  with run have "sv_jobs svc' = take i (sv_jobs (h_svc h)) @ drop (Suc i) (sv_jobs (h_svc h))"
    by (auto simp: worker_calls_def)
  with i carry_out_fields [OF c] show ?thesis by (simp add: host_load_def)
next
  fix k s
  assume "k \<in> h_readers h" "h' = h\<lparr>h_ipc := s, h_readers := h_readers h - {k}\<rparr>"
  with card_Suc_Diff1 [OF finite_readers [OF reach], of k] show ?thesis
    by (simp add: host_load_def del: card_Diff_insert)
qed

lemma drain_progress:
  assumes ops: "wifi_backend ops" and reach: "host_reachable ops h" and "0 < host_load h"
  shows "\<exists>h'. drain_step ops h h'"
proof (cases "sv_jobs (h_svc h) = []")
  case True
  with assms(3) obtain k where k: "k \<in> h_readers h" by (auto simp: host_load_def card_gt_0_iff)
  from hangup_inv [OF host_reachable_inv [OF ops reach] k] drain_hangup [OF k] show ?thesis by blast
next
  case False
  note inv = host_reachable_inv [OF ops reach]
  let ?st = "(h_svc h)\<lparr>sv_jobs := take 0 (sv_jobs (h_svc h)) @ drop (Suc 0) (sv_jobs (h_svc h))\<rparr>"
  from False have i: "0 < length (sv_jobs (h_svc h))" by simp
  obtain k where k: "job_sink (sv_jobs (h_svc h) ! 0) = Some k" using job_sink_known [OF inv i] by blast
  obtain u where u: "run_job ops (sv_jobs (h_svc h) ! 0) ?st = Some u" "worker_calls k ?st u"
    using wifi_backend.run_job_calls [OF ops k] by blast
  from worker_step_inv [OF inv i k u(2)] obtain h' where "carry_out h u = Some h'" by blast
  from drain_worker [OF i u(1) this] show ?thesis by blast
qed

lemma drain_reachable: "host_reachable ops h \<Longrightarrow> (drain_step ops ^^ n) h h' \<Longrightarrow> host_reachable ops h'"
  by (induction n arbitrary: h') (auto intro: host_next drain_host_step)

lemma drain_load:
  assumes "wifi_backend ops" "host_reachable ops h"
  shows "(drain_step ops ^^ n) h h' \<Longrightarrow> n + host_load h' = host_load h"
proof (induction n arbitrary: h')
  case (Suc n)
  then obtain g where g: "(drain_step ops ^^ n) h g" "drain_step ops g h'" by auto
  with Suc.IH [OF g(1)] drain_step_load [OF assms(1) drain_reachable [OF assms(2) g(1)] g(2)] show ?case by simp
qed simp

lemma drain_exists:
  assumes "wifi_backend ops" "host_reachable ops h"
  shows "n \<le> host_load h \<Longrightarrow> \<exists>h'. (drain_step ops ^^ n) h h'"
proof (induction n)
  case (Suc n)
  then obtain g where g: "(drain_step ops ^^ n) h g" by auto
  with drain_load [OF assms g] Suc.prems have "0 < host_load g" by simp
  from drain_progress [OF assms(1) drain_reachable [OF assms(2) g] this] g show ?case by auto
qed auto

lemma no_load_quiet:
  assumes "host_inv h" "finite (h_readers h)" "host_load h = 0"
  shows "ipc_clients (h_ipc h) = (\<lambda>_. None)" "ipc_open (h_ipc h) = {}" "sv_jobs (h_svc h) = []" "h_readers h = {}"
proof -
  from assms(2,3) show j: "sv_jobs (h_svc h) = []" and r: "h_readers h = {}" by (auto simp: host_load_def)
  show c: "ipc_clients (h_ipc h) = (\<lambda>_. None)"
  proof
    fix k
    have "client_ok h k" using assms(1) by (simp add: host_inv_def)
    with j r show "ipc_clients (h_ipc h) k = None" by (simp add: client_ok_iff users_def jobs_on_def)
  qed
  have "fds_inv (fd_map (h_ipc h)) (ipc_open (h_ipc h))" using assms(1) by (simp add: host_inv_def fds_ok_def)
  with c show "ipc_open (h_ipc h) = {}" by (auto simp: fds_inv_def fd_map_def)
qed

text \<open>
  Property C10. The transport always drains.  From every reachable state, when no new connection is
  accepted and nothing more is received, every sequence of worker ends and hang-ups, in any
  order, can be continued until no thread is left and never beyond: it takes exactly as many steps
  as there were threads, and at its end every client structure is freed and every descriptor of
  a connection closed.
\<close>

theorem ipc_drains:
  assumes "host_reachable (linked_ops b os) h"
  shows "(\<exists>h'. (drain_step (linked_ops b os) ^^ host_load h) h h') \<and>
    (\<forall>n h'. (drain_step (linked_ops b os) ^^ n) h h' \<longrightarrow> n \<le> host_load h \<and>
       (n < host_load h \<longrightarrow> (\<exists>h''. drain_step (linked_ops b os) h' h'')) \<and>
       (n = host_load h \<longrightarrow> ipc_clients (h_ipc h') = (\<lambda>_. None) \<and> ipc_open (h_ipc h') = {} \<and>
          sv_jobs (h_svc h') = [] \<and> h_readers h' = {}))"
proof (intro conjI allI impI)
  note ops = linked.wifi_backend_axioms [of b os]
  show "\<exists>h'. (drain_step (linked_ops b os) ^^ host_load h) h h'" using drain_exists [OF ops assms] by blast
  fix n h'
  assume run: "(drain_step (linked_ops b os) ^^ n) h h'"
  note load = drain_load [OF ops assms run] and r = drain_reachable [OF assms run]
  show "n \<le> host_load h" using load by simp
  show "\<exists>h''. drain_step (linked_ops b os) h' h''" if "n < host_load h"
    using drain_progress [OF ops r] load that by simp
  show "ipc_clients (h_ipc h') = (\<lambda>_. None)" "ipc_open (h_ipc h') = {}" "sv_jobs (h_svc h') = []" "h_readers h' = {}"
    if "n = host_load h"
    using no_load_quiet [OF host_reachable_inv [OF ops r] finite_readers [OF r]] load that by simp_all
qed

theorem ipc_drains_witness:
  "\<exists>h'. (drain_step (linked_ops A733 (ok_os (\<lambda>_. []))) ^^ 1)
     (ipc_example\<lparr>h_ipc := (h_ipc ipc_example)\<lparr>ipc_open := {5}, ipc_clients := (ipc_clients (h_ipc ipc_example))(1 \<mapsto> \<lparr>cl_fd = 5, cl_refcount = 1\<rparr>)\<rparr>,
        h_readers := {1}\<rparr>) h' \<and> ipc_open (h_ipc h') = {}"
proof -
  let ?ops = "linked_ops A733 (ok_os (\<lambda>_. []))"
  let ?h = "ipc_example\<lparr>h_ipc := (h_ipc ipc_example)\<lparr>ipc_open := {5},
     ipc_clients := (ipc_clients (h_ipc ipc_example))(1 \<mapsto> \<lparr>cl_fd = 5, cl_refcount = 1\<rparr>)\<rparr>, h_readers := {1}\<rparr>"
  have "host_step ?ops ipc_example (Some ?h)"
    using host_accept [of 5 ipc_example "Some 1" ?ops True]
    by (simp add: ipc_example_def host_init_def accept_client_def Let_def)
  then have r: "host_reachable ?ops ?h"
    unfolding ipc_example_def by (rule host_next [OF host_start])
  have "host_load ?h = 1" by (simp add: host_load_def ipc_example_def host_init_def svc_init_def)
  with ipc_drains [OF r] show ?thesis by metis
qed

end
