(* ===== verification/IpcServer.thy ===== *)
theory IpcServer
  imports SockWorld UnixIpc
begin

text \<open>
  The listening side of \<^verbatim>\<open>unix_ipc_thread\<close> in \<^verbatim>\<open>unix_ipc.c\<close>: the set-up of the server socket
  with its fallback path, and what the accept loop does with each result of \<^verbatim>\<open>accept\<close>.  The
  clients themselves are in theory \<open>UnixIpc\<close>.
\<close>

section \<open>Definitions\<close>

definition SOCK_PATH :: string where "SOCK_PATH = ''/run/system_service.sock''"

definition SOCK_FALLBACK_PATH :: "board \<Rightarrow> string" where
  "SOCK_FALLBACK_PATH bd = (case bd of A733 \<Rightarrow> ''/tmp/system_service.sock'' | RK3566 \<Rightarrow> SOCK_PATH)"

text \<open>The address is built in \<^verbatim>\<open>sun_path[108]\<close>.\<close>

definition bind_at :: "'e sock_os \<Rightarrow> int \<Rightarrow> string \<Rightarrow> ('e, bind_result) sio" where
  "bind_at so srv sock_path = do {
     _ \<leftarrow> k_unlink so sock_path;
     k_bind so srv (snprintf_s 108 sock_path) }"

definition bind_server :: "'e sock_os \<Rightarrow> board \<Rightarrow> int \<Rightarrow> ('e, string option) sio" where
  "bind_server so bd srv = do {
     r \<leftarrow> bind_at so srv SOCK_PATH;
     if r = Bind_ok then ret (Some SOCK_PATH)
     else if bd = A733 \<and> (r = Bind_eacces \<or> r = Bind_eperm) \<and> SOCK_FALLBACK_PATH bd \<noteq> SOCK_PATH then do {
       r2 \<leftarrow> bind_at so srv (SOCK_FALLBACK_PATH bd);
       ret (if r2 = Bind_ok then Some (SOCK_FALLBACK_PATH bd) else None) }
     else ret None }"

text \<open>The thread up to its accept loop: the server descriptor and its path, or \<open>None\<close> when it returned.\<close>

definition unix_ipc_listen :: "'e sock_os \<Rightarrow> board \<Rightarrow> ('e, (int \<times> string) option) sio" where
  "unix_ipc_listen so bd = do {
     srv \<leftarrow> k_socket so;
     if srv < 0 then ret None
     else do {
       bound \<leftarrow> bind_server so bd srv;
       (case bound of
          None \<Rightarrow> do { _ \<leftarrow> k_close srv; ret None }
        | Some sock_path \<Rightarrow> do {
            _ \<leftarrow> k_chmod so sock_path 438;
            ok \<leftarrow> k_listen so srv 4;
            if \<not> ok then do { _ \<leftarrow> k_close srv; ret None }
            else ret (Some (srv, sock_path)) }) } }"

text \<open>
  One result of \<^verbatim>\<open>accept\<close> with what \<^verbatim>\<open>calloc\<close> and \<^verbatim>\<open>pthread_create\<close> will do; a pass of the loop: the
  clients afterwards, the reader that was started, and whether the loop goes on.
\<close>

datatype 'k accept_result = Acc_fd int "'k option" bool | Acc_eintr | Acc_error

definition accept_pass :: "'k accept_result \<Rightarrow> 'k ipc \<Rightarrow> ('k ipc \<times> 'k option \<times> bool) option" where
  "accept_pass a s = (case a of
     Acc_eintr \<Rightarrow> Some (s, None, True)
   | Acc_error \<Rightarrow> Some (s, None, False)
   | Acc_fd fd addr thread_ok \<Rightarrow>
       map_option (\<lambda>(s', started). (s', if started then addr else None, True)) (accept_client fd addr thread_ok s))"

section \<open>Setting up\<close>

lemma sock_paths_short [simp]:
  "snprintf_s 108 SOCK_PATH = SOCK_PATH" "snprintf_s 108 (SOCK_FALLBACK_PATH bd) = SOCK_FALLBACK_PATH bd"
  by (simp_all add: snprintf_s_def SOCK_PATH_def SOCK_FALLBACK_PATH_def split: board.split)

lemma bind_at_trace:
  assumes "run_state (bind_at so srv p) w = (r, w')" and "snprintf_s 108 p = p"
  shows "k_events w' = k_events w @ [Sk_unlink p, Sk_bind srv p r]" "keeps_open w w'"
    "r = Bind_ok \<Longrightarrow> k_nodes w' p = Some Socket" "q \<noteq> p \<Longrightarrow> k_nodes w' q = k_nodes w q"
  using assms by (auto simp: bind_at_def k_defs keeps_open_def Let_def split: prod.splits if_splits)

definition denied :: "bind_result \<Rightarrow> bool" where
  "denied r \<longleftrightarrow> r = Bind_eacces \<or> r = Bind_eperm"

lemma bind_server_trace:
  assumes "run_state (bind_server so bd srv) w = (r, w')"
  shows "keeps_open w w'" "q \<notin> {SOCK_PATH, SOCK_FALLBACK_PATH bd} \<Longrightarrow> k_nodes w' q = k_nodes w q"
    "r = Some p \<Longrightarrow> k_nodes w' p = Some Socket \<and> (\<exists>es. k_events w' = k_events w @ es @ [Sk_unlink p, Sk_bind srv p Bind_ok] \<and>
       (p = SOCK_PATH \<and> es = [] \<or>
        bd = A733 \<and> p = SOCK_FALLBACK_PATH bd \<and> (\<exists>x. denied x \<and> es = [Sk_unlink SOCK_PATH, Sk_bind srv SOCK_PATH x])))"
proof -
  obtain x w1 where x: "run_state (bind_at so srv SOCK_PATH) w = (x, w1)" by (rule prod.exhaust)
  obtain y w2 where y: "run_state (bind_at so srv (SOCK_FALLBACK_PATH bd)) w1 = (y, w2)" by (rule prod.exhaust)
  note t = bind_at_trace [OF x] bind_at_trace [OF y]
  have w': "w' = (if x \<noteq> Bind_ok \<and> bd = A733 \<and> denied x \<and> SOCK_FALLBACK_PATH bd \<noteq> SOCK_PATH then w2 else w1)"
    using assms x y by (auto simp: bind_server_def denied_def split: if_splits)
  show "keeps_open w w'" using w' t by (auto simp: keeps_open_def)
  show "q \<notin> {SOCK_PATH, SOCK_FALLBACK_PATH bd} \<Longrightarrow> k_nodes w' q = k_nodes w q"
    using t(4) [of q] t(8) [of q] by (simp add: w' split: if_split)
  assume "r = Some p"
  with assms x y have "x = Bind_ok \<and> p = SOCK_PATH \<or>
      x \<noteq> Bind_ok \<and> bd = A733 \<and> denied x \<and> SOCK_FALLBACK_PATH bd \<noteq> SOCK_PATH \<and> y = Bind_ok \<and> p = SOCK_FALLBACK_PATH bd"
    by (auto simp: bind_server_def denied_def split: if_splits)
  then show "k_nodes w' p = Some Socket \<and> (\<exists>es. k_events w' = k_events w @ es @ [Sk_unlink p, Sk_bind srv p Bind_ok] \<and>
       (p = SOCK_PATH \<and> es = [] \<or>
        bd = A733 \<and> p = SOCK_FALLBACK_PATH bd \<and> (\<exists>x. denied x \<and> es = [Sk_unlink SOCK_PATH, Sk_bind srv SOCK_PATH x])))"
    using w' t by auto
qed

text \<open>
  The server socket is set up in order or not at all.  Whatever the kernel answers, when
  the set-up fails every descriptor it opened is closed, once; when it succeeds the one server
  descriptor is open and the socket's entry exists at the path that is listened on, made by
  removing a stale entry, binding, opening it to other users and then listening; the path is
  the configured one, or, on the A733 only and only after binding there was denied, the
  fallback.  No other directory entry is touched.
\<close>

theorem ipc_server_setup:
  assumes "run_state (unix_ipc_listen so bd) w = (r, w')"
  shows "k_bad w' = k_bad w \<and> (\<forall>q. q \<notin> {SOCK_PATH, SOCK_FALLBACK_PATH bd} \<longrightarrow> k_nodes w' q = k_nodes w q) \<and>
    (case r of
       None \<Rightarrow> k_open w' = k_open w
     | Some (srv, path) \<Rightarrow> 0 \<le> srv \<and> k_open w' = srv # k_open w \<and> k_nodes w' path = Some Socket \<and>
         (\<exists>es ok. k_events w' = k_events w @ Sk_socket srv # es @
            [Sk_unlink path, Sk_bind srv path Bind_ok, Sk_chmod path 438 ok, Sk_listen srv 4 True] \<and>
            (path = SOCK_PATH \<and> es = [] \<or> bd = A733 \<and> path = SOCK_FALLBACK_PATH bd \<and>
               (\<exists>x. denied x \<and> es = [Sk_unlink SOCK_PATH, Sk_bind srv SOCK_PATH x]))))"
proof -
  obtain srv e where s: "so_socket so (k_env w) = (srv, e)" by (rule prod.exhaust)
  let ?w1 = "k_emit (Sk_socket srv) (w\<lparr>k_env := e, k_open := (if srv < 0 then k_open w else srv # k_open w)\<rparr>)"
  obtain b w2 where b: "run_state (bind_server so bd srv) ?w1 = (b, w2)" by (rule prod.exhaust)
  note t = bind_server_trace [OF b]
  show ?thesis
  proof (cases "srv < 0")
    case True
    with assms s show ?thesis by (auto simp: unix_ipc_listen_def k_socket_def)
  next
    case False
    show ?thesis
    proof (cases b)
      case None
      with assms s b False t(1,2) show ?thesis
        by (auto simp: unix_ipc_listen_def k_socket_def k_close_def keeps_open_def)
    next
      case (Some path)
      from t(3) [OF Some] obtain es where es: "k_nodes w2 path = Some Socket"
        "k_events w2 = k_events ?w1 @ es @ [Sk_unlink path, Sk_bind srv path Bind_ok]"
        "path = SOCK_PATH \<and> es = [] \<or> bd = A733 \<and> path = SOCK_FALLBACK_PATH bd \<and>
          (\<exists>x. denied x \<and> es = [Sk_unlink SOCK_PATH, Sk_bind srv SOCK_PATH x])" by blast
      show ?thesis
      proof (cases "so_listen so srv 4 (k_env w2)")
        case True
        with assms s b Some False es t(1,2) show ?thesis
          by (auto simp: unix_ipc_listen_def k_socket_def k_chmod_def k_listen_def keeps_open_def Let_def)
      next
        case notl: False
        with assms s b Some False t(1,2) show ?thesis
          by (auto simp: unix_ipc_listen_def k_socket_def k_close_def k_chmod_def k_listen_def keeps_open_def Let_def)
      qed
    qed
  qed
qed

theorem ipc_server_setup_witness:
  "let (r, w') = run_state (unix_ipc_listen ok_kernel RK3566) (kernel0 [SOCK_PATH \<mapsto> Socket])
   in r = Some (3, SOCK_PATH) \<and> k_open w' = [3] \<and> k_nodes w' SOCK_PATH = Some Socket"
proof -
  let ?r = "run_state (unix_ipc_listen ok_kernel RK3566) (kernel0 [SOCK_PATH \<mapsto> Socket])"
  have r: "fst ?r = Some (3, SOCK_PATH)"
    by (simp add: unix_ipc_listen_def bind_server_def bind_at_def k_defs ok_kernel_def kernel0_def Let_def)
  have "?r = (fst ?r, snd ?r)" by simp
  from ipc_server_setup [OF this] r show ?thesis by (simp add: case_prod_unfold Let_def) (simp add: kernel0_def)
qed

section \<open>Accepting\<close>

text \<open>
  A pass of the accept loop is a step of the service with its transport, or changes nothing; so
  it never fails in a reachable state.  The kernel gives a descriptor that is not in use, and
  \<^verbatim>\<open>calloc\<close> an address that is not.
\<close>

lemma accept_pass_step:
  assumes "host_reachable (linked_ops b os) h"
    and "\<And>fd addr t. a = Acc_fd fd addr t \<Longrightarrow> 0 \<le> fd \<and> fd \<notin> ipc_open (h_ipc h) \<and>
      (\<forall>k. addr = Some k \<longrightarrow> ipc_clients (h_ipc h) k = None)"
  shows "\<exists>s started go. accept_pass a (h_ipc h) = Some (s, started, go) \<and> (go \<longleftrightarrow> a \<noteq> Acc_error) \<and>
    host_reachable (linked_ops b os) (h\<lparr>h_ipc := s, h_readers := h_readers h \<union> set_option started\<rparr>)"
proof (cases a)
  case (Acc_fd fd addr t)
  let ?r = "map_option (\<lambda>(s, started). h\<lparr>h_ipc := s, h_readers := (if started then insert (the addr) (h_readers h) else h_readers h)\<rparr>)
      (accept_client fd addr t (h_ipc h))"
  have step: "host_step (linked_ops b os) h ?r"
    using assms(2) [OF Acc_fd] by (intro host_accept) auto
  have "host_inv h" using host_reachable_inv [OF linked.wifi_backend_axioms assms(1)] .
  from host_step_inv [OF linked.wifi_backend_axioms this step] obtain s started where
    s: "accept_client fd addr t (h_ipc h) = Some (s, started)" by auto
  then have "host_reachable (linked_ops b os) (h\<lparr>h_ipc := s, h_readers := (if started then insert (the addr) (h_readers h) else h_readers h)\<rparr>)"
    using host_next [OF assms(1)] step by auto
  moreover have "started \<Longrightarrow> addr \<noteq> None"
    using s by (auto simp: accept_client_def Let_def split: option.splits)
  ultimately show ?thesis using s Acc_fd by (cases started) (auto simp: accept_pass_def)
qed (use assms(1) in \<open>auto simp: accept_pass_def\<close>)

end
