(* ===== verification/BleGatt.thy ===== *)
theory BleGatt
  imports ProtoDispatch
begin

text \<open>
  The Bluetooth transport, \<^verbatim>\<open>ble_gatt.c\<close>: a GATT server with one characteristic the phone
  writes to (RX) and one it is notified on (TX), exported over D-Bus to BlueZ.  Modelled are
  the method and property handlers of the exported objects, the sending of notifications,
  the sink handed to the dispatcher, and the start-up with its registration worker.  The
  D-Bus library and BlueZ are the parameter \<open>db\<close>, a record of functions; values on the bus are
  the datatype \<open>gvar\<close>.  The log output and the text of the introspection XML are left out.
  The lemmas show what the phone is notified of, that the answers to property reads agree with
  the object tree BlueZ reads, the order of the start-up, and that the sink keeps its contract;
  the last section shows the race on the stored TX value.
\<close>

section \<open>Values and state\<close>

datatype gvar =
    V_s string
  | V_o string
  | V_b bool
  | V_u nat
  | V_ay "u8 list"
  | V_as "string list"
  | V_dict "(string \<times> gvar) list"
  | V_tuple "gvar list"

text \<open>How a method call is answered: a value (or none), or an error.\<close>

datatype reply = Return_value "gvar option" | Unknown_method string

definition DEVICE_NAME :: string where "DEVICE_NAME = ''WFY''"
definition NUS_SERVICE_UUID :: string where "NUS_SERVICE_UUID = ''6e400001-b5a3-f393-e0a9-e50e24dcca9e''"
definition NUS_RX_CHAR_UUID :: string where "NUS_RX_CHAR_UUID = ''6e400002-b5a3-f393-e0a9-e50e24dcca9e''"
definition NUS_TX_CHAR_UUID :: string where "NUS_TX_CHAR_UUID = ''6e400003-b5a3-f393-e0a9-e50e24dcca9e''"
definition APP_ROOT_PATH :: string where "APP_ROOT_PATH = ''/com/taishan/ble''"
definition SERVICE_PATH :: string where "SERVICE_PATH = APP_ROOT_PATH @ ''/service0''"
definition RX_CHAR_PATH :: string where "RX_CHAR_PATH = SERVICE_PATH @ ''/rx''"
definition TX_CHAR_PATH :: string where "TX_CHAR_PATH = SERVICE_PATH @ ''/tx''"
definition ADV_PATH :: string where "ADV_PATH = APP_ROOT_PATH @ ''/adv0''"
definition AGENT_PATH :: string where "AGENT_PATH = APP_ROOT_PATH @ ''/agent''"

lemmas ble_paths = APP_ROOT_PATH_def SERVICE_PATH_def RX_CHAR_PATH_def TX_CHAR_PATH_def ADV_PATH_def AGENT_PATH_def

record char_cfg =
  cc_uuid :: string
  cc_flags :: "string list"
  cc_is_tx :: bool

definition g_rx_cfg :: char_cfg where
  "g_rx_cfg = \<lparr>cc_uuid = NUS_RX_CHAR_UUID, cc_flags = [''write'', ''write-without-response''], cc_is_tx = False\<rparr>"

definition g_tx_cfg :: char_cfg where
  "g_tx_cfg = \<lparr>cc_uuid = NUS_TX_CHAR_UUID, cc_flags = [''notify''], cc_is_tx = True\<rparr>"

text \<open>What goes out on the bus, and what the process does besides.\<close>

datatype bus_event =
    Bus_connect
  | Bus_call string string string gvar
  | Bus_signal string string gvar
  | Bus_export string
  | Bus_sleep nat
  | Bus_system string
  | Bus_spawn

record ble =
  s_conn :: bool
  s_adapter_path :: "string option"
  s_rx_value :: "u8 list option"
  s_tx_value :: "u8 list option"
  s_tx_notifying :: bool

definition ble_start :: ble where
  "ble_start = \<lparr>s_conn = False, s_adapter_path = None, s_rx_value = None, s_tx_value = None, s_tx_notifying = False\<rparr>"

text \<open>The D-Bus library, BlueZ and the thread library.\<close>

record 'd dbus =
  db_connect :: "'d \<Rightarrow> bool \<times> 'd"
  db_call :: "string \<Rightarrow> string \<Rightarrow> string \<Rightarrow> gvar \<Rightarrow> 'd \<Rightarrow> gvar option \<times> 'd"
  db_signal :: "string \<Rightarrow> string \<Rightarrow> gvar \<Rightarrow> 'd \<Rightarrow> 'd"
  db_parse_xml :: "string \<Rightarrow> bool"
  db_export :: "string \<Rightarrow> 'd \<Rightarrow> bool \<times> 'd"
  db_sleep :: "nat \<Rightarrow> 'd \<Rightarrow> 'd"
  db_system :: "string \<Rightarrow> 'd \<Rightarrow> 'd"
  db_spawn :: "'d \<Rightarrow> bool"

record 'd busw =
  bw_env :: 'd
  bw_log :: "bus_event list"
  bw_ble :: ble

type_synonym ('d, 'a) bio = "('d busw, 'a) state"

definition bus_put :: "bus_event \<Rightarrow> 'd \<Rightarrow> 'd busw \<Rightarrow> 'd busw" where
  "bus_put ev e w = w\<lparr>bw_env := e, bw_log := bw_log w @ [ev]\<rparr>"

definition b_connect :: "'d dbus \<Rightarrow> ('d, bool) bio" where
  "b_connect db = State (\<lambda>w. case db_connect db (bw_env w) of (r, e) \<Rightarrow> (r, bus_put Bus_connect e w))"

definition b_call :: "'d dbus \<Rightarrow> string \<Rightarrow> string \<Rightarrow> string \<Rightarrow> gvar \<Rightarrow> ('d, gvar option) bio" where
  "b_call db path iface method args = State (\<lambda>w. case db_call db path iface method args (bw_env w) of
     (r, e) \<Rightarrow> (r, bus_put (Bus_call path iface method args) e w))"

definition b_export :: "'d dbus \<Rightarrow> string \<Rightarrow> ('d, bool) bio" where
  "b_export db path = State (\<lambda>w. case db_export db path (bw_env w) of (r, e) \<Rightarrow> (r, bus_put (Bus_export path) e w))"

definition b_sleep :: "'d dbus \<Rightarrow> nat \<Rightarrow> ('d, unit) bio" where
  "b_sleep db n = modify (\<lambda>w. bus_put (Bus_sleep n) (db_sleep db n (bw_env w)) w)"

definition b_system :: "'d dbus \<Rightarrow> string \<Rightarrow> ('d, unit) bio" where
  "b_system db c = modify (\<lambda>w. bus_put (Bus_system c) (db_system db c (bw_env w)) w)"

definition b_spawn :: "'d dbus \<Rightarrow> ('d, bool) bio" where
  "b_spawn db = State (\<lambda>w. (db_spawn db (bw_env w), bus_put Bus_spawn (bw_env w) w))"

section \<open>Handlers of the exported objects\<close>

definition agent_method :: "string \<Rightarrow> reply" where
  "agent_method method =
     (if method \<in> {''Release'', ''Cancel'', ''DisplayPinCode'', ''DisplayPasskey'', ''RequestConfirmation'',
        ''RequestAuthorization'', ''AuthorizeService''} then Return_value None
      else if method = ''RequestPinCode'' then Return_value (Some (V_tuple [V_s ''0000'']))
      else if method = ''RequestPasskey'' then Return_value (Some (V_tuple [V_u 0]))
      else Unknown_method ''unknown agent method'')"

definition service_get :: "string \<Rightarrow> gvar option" where
  "service_get prop =
     (if prop = ''UUID'' then Some (V_s NUS_SERVICE_UUID)
      else if prop = ''Primary'' then Some (V_b True)
      else None)"

definition char_value_variant :: "char_cfg \<Rightarrow> ble \<Rightarrow> gvar" where
  "char_value_variant cfg s =
     V_ay (case if cc_is_tx cfg then s_tx_value s else s_rx_value s of Some v \<Rightarrow> v | None \<Rightarrow> [])"

definition char_flags_variant :: "char_cfg \<Rightarrow> gvar" where
  "char_flags_variant cfg = V_as (cc_flags cfg)"

definition char_get :: "char_cfg \<Rightarrow> string \<Rightarrow> ble \<Rightarrow> gvar option" where
  "char_get cfg prop s =
     (if prop = ''UUID'' then Some (V_s (cc_uuid cfg))
      else if prop = ''Service'' then Some (V_o SERVICE_PATH)
      else if prop = ''Value'' then Some (char_value_variant cfg s)
      else if prop = ''Flags'' then Some (char_flags_variant cfg)
      else if prop = ''Notifying'' then Some (V_b (if cc_is_tx cfg then s_tx_notifying s else False))
      else None)"

definition adv_method :: "string \<Rightarrow> reply" where
  "adv_method method = Return_value None"

definition adv_get :: "string \<Rightarrow> gvar option" where
  "adv_get prop =
     (if prop = ''Type'' then Some (V_s ''peripheral'')
      else if prop = ''LocalName'' then Some (V_s DEVICE_NAME)
      else if prop = ''ServiceUUIDs'' then Some (V_as [NUS_SERVICE_UUID])
      else None)"

definition props_service :: gvar where
  "props_service = V_dict [(''UUID'', V_s NUS_SERVICE_UUID), (''Primary'', V_b True)]"

definition props_char :: "char_cfg \<Rightarrow> ble \<Rightarrow> gvar" where
  "props_char cfg s = V_dict ([(''UUID'', V_s (cc_uuid cfg)), (''Service'', V_o SERVICE_PATH),
     (''Flags'', char_flags_variant cfg), (''Value'', char_value_variant cfg s)] @
     (if cc_is_tx cfg then [(''Notifying'', V_b (s_tx_notifying s))] else []))"

definition ifaces_one :: "string \<Rightarrow> gvar \<Rightarrow> gvar" where
  "ifaces_one iface_name props = V_dict [(iface_name, props)]"

definition om_method :: "string \<Rightarrow> ble \<Rightarrow> reply" where
  "om_method method s =
     (if method \<noteq> ''GetManagedObjects'' then Unknown_method ''unknown''
      else Return_value (Some (V_tuple [V_dict
        [(SERVICE_PATH, ifaces_one ''org.bluez.GattService1'' props_service),
         (RX_CHAR_PATH, ifaces_one ''org.bluez.GattCharacteristic1'' (props_char g_rx_cfg s)),
         (TX_CHAR_PATH, ifaces_one ''org.bluez.GattCharacteristic1'' (props_char g_tx_cfg s))]])))"

text \<open>What BlueZ reads in the object tree is what reading the properties one by one gives.\<close>

lemma tree_agrees_with_service: "props_service = V_dict (map (\<lambda>p. (p, the (service_get p))) [''UUID'', ''Primary''])"
  by (simp add: props_service_def service_get_def)

lemma tree_agrees_with_char:
  "props_char cfg s = V_dict (map (\<lambda>p. (p, the (char_get cfg p s)))
     ([''UUID'', ''Service'', ''Flags'', ''Value''] @ (if cc_is_tx cfg then [''Notifying''] else [])))"
  by (cases "cc_is_tx cfg") (simp_all add: props_char_def char_get_def)

section \<open>Notifications and the sink\<close>

definition value_changed :: "u8 list \<Rightarrow> gvar" where
  "value_changed data = V_tuple [V_s ''org.bluez.GattCharacteristic1'', V_dict [(''Value'', V_ay data)], V_as []]"

definition ble_gatt_send :: "'d dbus \<Rightarrow> u8 list \<Rightarrow> 'd busw \<Rightarrow> 'd busw" where
  "ble_gatt_send db data w =
     (if \<not> s_conn (bw_ble w) then w
      else if \<not> s_tx_notifying (bw_ble w) then w
      else (let w1 = w\<lparr>bw_ble := (bw_ble w)\<lparr>s_tx_value := Some data\<rparr>\<rparr>
            in bus_put (Bus_signal TX_CHAR_PATH ''PropertiesChanged'' (value_changed data))
                 (db_signal db TX_CHAR_PATH ''PropertiesChanged'' (value_changed data) (bw_env w1)) w1))"

text \<open>The one sink; it is never freed, so keeping and giving back a reference do nothing.\<close>

definition ble_sink_send :: "'d dbus \<Rightarrow> unit \<Rightarrow> u8 list \<Rightarrow> 'd busw \<Rightarrow> 'd busw option" where
  "ble_sink_send db self data w = Some (ble_gatt_send db data w)"

definition ble_sink_noop :: "unit \<Rightarrow> 'd busw \<Rightarrow> 'd busw option" where
  "ble_sink_noop self w = Some w"

text \<open>The service and the transport: what the dispatcher called is carried out on the bus.\<close>

record ('d, 'w) ble_host =
  bh_svc :: "(unit, 'w) svc"
  bh_bus :: "'d busw"

definition ble_carry_out :: "'d dbus \<Rightarrow> ('d, 'w) ble_host \<Rightarrow> (unit, 'w) svc \<Rightarrow> ('d, 'w) ble_host option" where
  "ble_carry_out db h st' =
     map_option (\<lambda>b. h\<lparr>bh_svc := st', bh_bus := b\<rparr>)
       (apply_calls (ble_sink_send db) ble_sink_noop ble_sink_noop (drop (length (sv_calls (bh_svc h))) (sv_calls st')) (bh_bus h))"

text \<open>The method calls BlueZ makes on a characteristic; \<open>WriteValue\<close> carries the bytes.\<close>

definition char_method :: "'w wifi_ops \<Rightarrow> 'd dbus \<Rightarrow> char_cfg \<Rightarrow> string \<Rightarrow> u8 list \<Rightarrow> ('d, 'w) ble_host \<Rightarrow>
    (reply \<times> ('d, 'w) ble_host) option" where
  "char_method ops db cfg method data h =
     (let s = bw_ble (bh_bus h); upd = (\<lambda>f. h\<lparr>bh_bus := (bh_bus h)\<lparr>bw_ble := f s\<rparr>\<rparr>) in
      if method = ''ReadValue'' then Some (Return_value (Some (V_tuple [char_value_variant cfg s])), h)
      else if method = ''WriteValue'' then
        (if \<not> cc_is_tx cfg then
           (let h1 = upd (\<lambda>s. s\<lparr>s_rx_value := Some data\<rparr>)
            in map_option (Pair (Return_value None))
                 (ble_carry_out db h1 (proto_dispatch_buffer ops data (Some ()) (bh_svc h1))))
         else Some (Return_value None, h))
      else if method = ''StartNotify'' then
        Some (Return_value None, if cc_is_tx cfg then upd (\<lambda>s. s\<lparr>s_tx_notifying := True\<rparr>) else h)
      else if method = ''StopNotify'' then
        Some (Return_value None, if cc_is_tx cfg then upd (\<lambda>s. s\<lparr>s_tx_notifying := False\<rparr>) else h)
      else Some (Unknown_method ''unknown method'', h))"

section \<open>Start-up\<close>

text \<open>The first object of the reply that has the adapter interface.\<close>

fun adapter_in :: "(string \<times> gvar) list \<Rightarrow> string option" where
  "adapter_in [] = None"
| "adapter_in ((path, ifaces) # objs) =
     (case ifaces of
        V_dict ds \<Rightarrow> if map_of ds ''org.bluez.Adapter1'' \<noteq> None then Some path else adapter_in objs
      | _ \<Rightarrow> adapter_in objs)"

text \<open>A reply has the type the call asked for: a tuple with the dictionary of objects.\<close>

definition managed_objects :: "gvar \<Rightarrow> (string \<times> gvar) list" where
  "managed_objects res = (case res of V_tuple [V_dict objs] \<Rightarrow> objs | _ \<Rightarrow> [])"

definition find_adapter :: "'d dbus \<Rightarrow> ('d, string option) bio" where
  "find_adapter db = do {
     res \<leftarrow> b_call db ''/'' ''org.freedesktop.DBus.ObjectManager'' ''GetManagedObjects'' (V_tuple []);
     ret (case res of None \<Rightarrow> None | Some r \<Rightarrow> adapter_in (managed_objects r)) }"

definition set_adapter_prop :: "'d dbus \<Rightarrow> string \<Rightarrow> string \<Rightarrow> gvar \<Rightarrow> ('d, unit) bio" where
  "set_adapter_prop db adapter prop value = do {
     _ \<leftarrow> b_call db adapter ''org.freedesktop.DBus.Properties'' ''Set'' (V_tuple [V_s ''org.bluez.Adapter1'', V_s prop, value]);
     ret () }"

definition register_agent :: "'d dbus \<Rightarrow> ('d, bool) bio" where
  "register_agent db = do {
     res \<leftarrow> b_call db ''/org/bluez'' ''org.bluez.AgentManager1'' ''RegisterAgent'' (V_tuple [V_o AGENT_PATH, V_s ''NoInputNoOutput'']);
     if res = None then ret False
     else do {
       res \<leftarrow> b_call db ''/org/bluez'' ''org.bluez.AgentManager1'' ''RequestDefaultAgent'' (V_tuple [V_o AGENT_PATH]);
       ret (res \<noteq> None) } }"

definition register_gatt_app :: "'d dbus \<Rightarrow> string \<Rightarrow> ('d, bool) bio" where
  "register_gatt_app db adapter = do {
     res \<leftarrow> b_call db adapter ''org.bluez.GattManager1'' ''RegisterApplication'' (V_tuple [V_o APP_ROOT_PATH, V_dict []]);
     ret (res \<noteq> None) }"

definition register_advertisement :: "'d dbus \<Rightarrow> string \<Rightarrow> ('d, bool) bio" where
  "register_advertisement db adapter = do {
     res \<leftarrow> b_call db adapter ''org.bluez.LEAdvertisingManager1'' ''RegisterAdvertisement'' (V_tuple [V_o ADV_PATH, V_dict []]);
     ret (res \<noteq> None) }"

primrec export_all :: "'d dbus \<Rightarrow> string list \<Rightarrow> ('d, bool) bio" where
  "export_all db [] = ret True"
| "export_all db (p # ps) = do {
     ok \<leftarrow> b_export db p;
     if \<not> ok then ret False else export_all db ps }"

definition register_objects :: "'d dbus \<Rightarrow> ('d, bool) bio" where
  "register_objects db =
     (if \<not> list_all (db_parse_xml db) [''agent_xml'', ''service_xml'', ''char_xml'', ''adv_xml'', ''om_xml''] then ret False
      else export_all db [AGENT_PATH, SERVICE_PATH, RX_CHAR_PATH, TX_CHAR_PATH, ADV_PATH, APP_ROOT_PATH])"

definition bluez_register_worker :: "'d dbus \<Rightarrow> string \<Rightarrow> ('d, unit) bio" where
  "bluez_register_worker db adapter = do {
     _ \<leftarrow> register_agent db;
     ok \<leftarrow> register_gatt_app db adapter;
     if \<not> ok then ret ()
     else do { _ \<leftarrow> register_advertisement db adapter; ret () } }"

definition platform_prepare_bluetooth :: "'d dbus \<Rightarrow> board \<Rightarrow> ('d, unit) bio" where
  "platform_prepare_bluetooth db bd =
     (case bd of
        A733 \<Rightarrow> do {
          _ \<leftarrow> b_system db ''rfkill unblock bluetooth >/dev/null 2>&1'';
          b_system db ''hciconfig hci0 up >/dev/null 2>&1'' }
      | RK3566 \<Rightarrow> ret ())"

definition discover_adapter :: "'d dbus \<Rightarrow> ('d, string option) bio" where
  "discover_adapter db = for_loop 60 0 (\<lambda>retries. do {
     a \<leftarrow> find_adapter db;
     (case a of
        Some p \<Rightarrow> ret (Some p)
      | None \<Rightarrow> do { _ \<leftarrow> b_sleep db 2; ret None }) })"

definition configure_adapter :: "'d dbus \<Rightarrow> string \<Rightarrow> ('d, unit) bio" where
  "configure_adapter db a = do {
     _ \<leftarrow> set_adapter_prop db a ''Alias'' (V_s DEVICE_NAME);
     _ \<leftarrow> set_adapter_prop db a ''Powered'' (V_b True);
     _ \<leftarrow> set_adapter_prop db a ''Pairable'' (V_b True);
     _ \<leftarrow> set_adapter_prop db a ''PairableTimeout'' (V_u 0);
     _ \<leftarrow> set_adapter_prop db a ''Discoverable'' (V_b True);
     set_adapter_prop db a ''DiscoverableTimeout'' (V_u 0) }"

text \<open>
  The thread until it enters its main loop; \<open>True\<close> when it gets there.  The registration worker
  runs on its own thread: its calls are placed after the spawn, where they can start, or it is
  run in line when the thread cannot be created.
\<close>

definition ble_gatt_thread :: "'d dbus \<Rightarrow> board \<Rightarrow> ('d, bool) bio" where
  "ble_gatt_thread db bd = do {
     _ \<leftarrow> platform_prepare_bluetooth db bd;
     conn \<leftarrow> b_connect db;
     if \<not> conn then ret False
     else do {
       _ \<leftarrow> modify (\<lambda>w. w\<lparr>bw_ble := (bw_ble w)\<lparr>s_conn := True\<rparr>\<rparr>);
       adapter \<leftarrow> discover_adapter db;
       _ \<leftarrow> modify (\<lambda>w. w\<lparr>bw_ble := (bw_ble w)\<lparr>s_adapter_path := adapter\<rparr>\<rparr>);
       (case adapter of
          None \<Rightarrow> ret False
        | Some a \<Rightarrow> do {
            _ \<leftarrow> configure_adapter db a;
            ok \<leftarrow> register_objects db;
            if \<not> ok then ret False
            else do {
              _ \<leftarrow> b_spawn db;
              _ \<leftarrow> bluez_register_worker db a;
              ret True } }) } }"

section \<open>What a write to RX does\<close>

interpretation ble_sink: proto_sink "ble_sink_send db" ble_sink_noop ble_sink_noop
    "\<lambda>w k n. True" "\<lambda>w w'. s_conn (bw_ble w') = s_conn (bw_ble w) \<and> s_tx_notifying (bw_ble w') = s_tx_notifying (bw_ble w)"
    for db
  by unfold_locales
     (auto simp: ble_sink_send_def ble_sink_noop_def ble_gatt_send_def bus_put_def Let_def)

text \<open>The frames among the calls a service makes on its sinks.\<close>

definition sent_frames :: "(unit \<times> sink_call) list \<Rightarrow> u8 list list" where
  "sent_frames cs = List.map_filter (\<lambda>c. case c of (_, Snk_send d) \<Rightarrow> Some d | _ \<Rightarrow> None) cs"

lemma sent_frames_simps [simp]:
  "sent_frames [] = []" "sent_frames ((k, Snk_send d) # cs) = d # sent_frames cs"
  "sent_frames ((k, Snk_retain) # cs) = sent_frames cs" "sent_frames ((k, Snk_release) # cs) = sent_frames cs"
  "sent_frames (a @ b) = sent_frames a @ sent_frames b"
  by (simp_all add: sent_frames_def List.map_filter_def)

abbreviation notification :: "u8 list \<Rightarrow> bus_event" where
  "notification d \<equiv> Bus_signal TX_CHAR_PATH ''PropertiesChanged'' (value_changed d)"

definition subscribed :: "'d busw \<Rightarrow> bool" where
  "subscribed w \<longleftrightarrow> s_conn (bw_ble w) \<and> s_tx_notifying (bw_ble w)"

lemma ble_apply_calls:
  "\<exists>w'. apply_calls (ble_sink_send db) ble_sink_noop ble_sink_noop cs w = Some w' \<and> subscribed w' = subscribed w \<and>
     (subscribed w \<longrightarrow> bw_log w' = bw_log w @ map notification (sent_frames cs) \<and>
        bw_ble w' = (bw_ble w)\<lparr>s_tx_value := (if sent_frames cs = [] then s_tx_value (bw_ble w) else Some (last (sent_frames cs)))\<rparr>) \<and>
     (\<not> subscribed w \<longrightarrow> w' = w)"
proof (induction cs arbitrary: w)
  case Nil
  then show ?case by simp
next
  case (Cons c cs)
  obtain k x where c: "c = (k, x)" by (cases c)
  show ?case
  proof (cases x)
    case (Snk_send d)
    from Cons.IH [of "ble_gatt_send db d w"] show ?thesis
      unfolding c Snk_send by (auto simp: ble_sink_send_def ble_gatt_send_def subscribed_def bus_put_def Let_def)
  qed (use Cons.IH [of w] in \<open>auto simp: c ble_sink_noop_def\<close>)
qed

text \<open>The response frame to a message, with the given payload.\<close>

definition resp_wire :: "message \<Rightarrow> u8 list \<Rightarrow> u8 list" where
  "resp_wire m p = (let f = msg_frame m in wire_of PROTO_TYPE_RESP (pf_seq f) (pf_command_set f) (pf_command_id f) p)"

lemma sent_frames_refs: "set refs \<subseteq> {Snk_retain, Snk_release} \<Longrightarrow> sent_frames (map (Pair k) refs) = []"
  by (induction refs) auto

lemma fold_answers:
  assumes "list_all (\<lambda>m. pf_type (msg_frame m) = PROTO_TYPE_REQ) ms"
  shows "\<exists>cs ps. sv_calls (fold (\<lambda>m. handle_proto_frame (linked_ops bd os) (msg_frame m) (Some ())) ms st) = sv_calls st @ cs \<and>
    length ps = length ms \<and> sent_frames cs = map2 resp_wire ms ps \<and>
    list_all (\<lambda>p. p \<noteq> [] \<and> length p \<le> PROTO_PAYLOAD_MAX) ps"
  using assms
proof (induction ms arbitrary: st)
  case Nil
  then show ?case by (intro exI [of _ "[]"]) simp
next
  case (Cons m ms)
  let ?st = "handle_proto_frame (linked_ops bd os) (msg_frame m) (Some ()) st"
  from Cons.prems linked.handle_answers [of "msg_frame m" "()" st bd os] obtain refs p where
    a: "sv_calls ?st = sv_calls st @ map (Pair ()) refs @ [((), Snk_send (resp_wire m p))]"
      "p \<noteq> []" "length p \<le> PROTO_PAYLOAD_MAX" "set refs \<subseteq> {Snk_retain, Snk_release}"
    by (auto simp: answers_def resp_wire_def Let_def)
  from Cons.IH [of ?st] Cons.prems obtain cs ps where
    "sv_calls (fold (\<lambda>m. handle_proto_frame (linked_ops bd os) (msg_frame m) (Some ())) ms ?st) = sv_calls ?st @ cs"
      "length ps = length ms" "sent_frames cs = map2 resp_wire ms ps" "list_all (\<lambda>p. p \<noteq> [] \<and> length p \<le> PROTO_PAYLOAD_MAX) ps"
    by auto
  with a show ?case
    by (intro exI [of _ "map (Pair ()) refs @ [((), Snk_send (resp_wire m p))] @ cs"] exI [of _ "p # ps"])
       (simp add: sent_frames_refs)
qed

section \<open>Properties\<close>

text \<open>
  Property C28. A phone on Bluetooth gets its answers: when it is subscribed and writes a buffer of
  requests to the RX characteristic, the write is acknowledged, the value of RX is the buffer,
  and the phone is notified of exactly one response per request, in the order of the requests,
  each with the sequence number, command set and command of its request; the last one is the
  value of the TX characteristic.  When nobody is subscribed the requests are carried out all
  the same, nothing is sent and the TX value stays.
\<close>

theorem ble_write_notifies:
  assumes "list_all msg_ok ms" "list_all (\<lambda>m. pf_type (msg_frame m) = PROTO_TYPE_REQ) ms" "ms \<noteq> []"
    and "buf = concat (map msg_wire ms)"
  shows "\<exists>h' ps. char_method (linked_ops bd os) db g_rx_cfg ''WriteValue'' buf h = Some (Return_value None, h') \<and>
    bh_svc h' = fold (\<lambda>m. handle_proto_frame (linked_ops bd os) (msg_frame m) (Some ())) ms (bh_svc h) \<and>
    s_rx_value (bw_ble (bh_bus h')) = Some buf \<and>
    length ps = length ms \<and> list_all (\<lambda>p. p \<noteq> [] \<and> length p \<le> PROTO_PAYLOAD_MAX) ps \<and>
    (subscribed (bh_bus h) \<longrightarrow>
       bw_log (bh_bus h') = bw_log (bh_bus h) @ map notification (map2 resp_wire ms ps) \<and>
       s_tx_value (bw_ble (bh_bus h')) = Some (resp_wire (last ms) (last ps))) \<and>
    (\<not> subscribed (bh_bus h) \<longrightarrow>
       bw_log (bh_bus h') = bw_log (bh_bus h) \<and> s_tx_value (bw_ble (bh_bus h')) = s_tx_value (bw_ble (bh_bus h)))"
proof -
  let ?ops = "linked_ops bd os"
  let ?w = "(bh_bus h)\<lparr>bw_ble := (bw_ble (bh_bus h))\<lparr>s_rx_value := Some buf\<rparr>\<rparr>"
  have disp: "proto_dispatch_buffer ?ops buf (Some ()) (bh_svc h) =
      fold (\<lambda>m. handle_proto_frame ?ops (msg_frame m) (Some ())) ms (bh_svc h)"
    using dispatch_msgs [OF assms(1), of ?ops "[]" "Some ()" "bh_svc h"]
    by (simp add: assms(4) proto_dispatch_buffer.simps [of ?ops "[]"])
  from fold_answers [OF assms(2), where bd = bd and os = os and st = "bh_svc h"]
  obtain cs ps where f: "sv_calls (proto_dispatch_buffer ?ops buf (Some ()) (bh_svc h)) = sv_calls (bh_svc h) @ cs"
    "length ps = length ms" "sent_frames cs = map2 resp_wire ms ps" "list_all (\<lambda>p. p \<noteq> [] \<and> length p \<le> PROTO_PAYLOAD_MAX) ps"
    unfolding disp [symmetric] by (elim exE conjE)
  from assms(3) f(2) have ne: "map2 resp_wire ms ps \<noteq> []" "ps \<noteq> []" by auto
  have last: "last (map2 resp_wire ms ps) = resp_wire (last ms) (last ps)"
    using f(2) assms(3) ne(2) by (simp add: last_map last_zip)
  obtain w' where w': "apply_calls (ble_sink_send db) ble_sink_noop ble_sink_noop cs ?w = Some w'"
    "subscribed ?w \<longrightarrow> bw_log w' = bw_log ?w @ map notification (map2 resp_wire ms ps) \<and>
       bw_ble w' = (bw_ble ?w)\<lparr>s_tx_value := Some (resp_wire (last ms) (last ps))\<rparr>" "\<not> subscribed ?w \<longrightarrow> w' = ?w"
    using ble_apply_calls [of db cs ?w] ne f(3) last by auto
  have sub: "subscribed ?w = subscribed (bh_bus h)" by (simp add: subscribed_def)
  show ?thesis
    by (rule exI [of _ "h\<lparr>bh_svc := proto_dispatch_buffer ?ops buf (Some ()) (bh_svc h), bh_bus := w'\<rparr>"], rule exI [of _ ps])
       (use w' f disp sub in \<open>auto simp: char_method_def g_rx_cfg_def ble_carry_out_def Let_def\<close>)
qed

text \<open>A bus on which every call succeeds and BlueZ has one adapter.\<close>

definition ok_bus :: "unit dbus" where
  "ok_bus = \<lparr>db_connect = (\<lambda>_. (True, ())),
     db_call = (\<lambda>path iface method args _. (Some (V_tuple [V_dict [(''/org/bluez/hci0'', V_dict [(''org.bluez.Adapter1'', V_dict [])])]]), ())),
     db_signal = (\<lambda>_ _ _ _. ()), db_parse_xml = (\<lambda>_. True), db_export = (\<lambda>_ _. (True, ())), db_sleep = (\<lambda>_ _. ()),
     db_system = (\<lambda>_ _. ()), db_spawn = (\<lambda>_. True)\<rparr>"

definition ble_example :: "(unit, unit world) ble_host" where
  "ble_example = \<lparr>bh_svc = svc_init (world0 (\<lambda>_. None)),
     bh_bus = \<lparr>bw_env = (), bw_log = [], bw_ble = ble_start\<lparr>s_conn := True, s_tx_notifying := True\<rparr>\<rparr>\<rparr>"

theorem ble_write_notifies_witness:
  "\<exists>h' p. char_method (linked_ops A733 (ok_os (\<lambda>_. []))) ok_bus g_rx_cfg ''WriteValue'' (msg_wire (request 5 PROTO_CMDID_STATUS [])) ble_example =
      Some (Return_value None, h') \<and>
    bw_log (bh_bus h') = [notification (resp_wire (request 5 PROTO_CMDID_STATUS []) p)] \<and> p \<noteq> []"
proof -
  have "subscribed (bh_bus ble_example)" "bw_log (bh_bus ble_example) = []"
    by (simp_all add: ble_example_def subscribed_def ble_start_def)
  moreover have "map2 resp_wire [m] ps = [resp_wire m p]" if "ps = [p]" for m ps p using that by simp
  ultimately show ?thesis
    using ble_write_notifies [of "[request 5 PROTO_CMDID_STATUS []]" _ A733 "ok_os (\<lambda>_. [])" ok_bus ble_example]
    by (fastforce simp: length_Suc_conv)
qed

section \<open>Start-up order\<close>

definition bus_emits :: "(bus_event \<Rightarrow> bool) \<Rightarrow> 'd busw \<Rightarrow> 'd busw \<Rightarrow> bool" where
  "bus_emits P w w' \<longleftrightarrow> (\<exists>es. bw_log w' = bw_log w @ es \<and> list_all P es)"

interpretation bus_emits: step_rel "bus_emits P" for P
proof
  fix s t u :: "'a busw"
  show "bus_emits P s s" by (simp add: bus_emits_def)
  show "bus_emits P s u" if "bus_emits P s t" "bus_emits P t u"
    using that by (auto simp: bus_emits_def)
qed

lemma bus_emits_calls [io_intros]:
  "P Bus_connect \<Longrightarrow> state_io_rel (bus_emits P) (b_connect db)"
  "P (Bus_call a b c d) \<Longrightarrow> state_io_rel (bus_emits P) (b_call db a b c d)"
  "P (Bus_sleep n) \<Longrightarrow> state_io_rel (bus_emits P) (b_sleep db n)"
  "P (Bus_system s) \<Longrightarrow> state_io_rel (bus_emits P) (b_system db s)"
  by (auto simp: state_io_rel_def bus_emits_def b_connect_def b_call_def b_sleep_def b_system_def bus_put_def split: prod.split)

text \<open>Exports and registrations, the events whose order matters.\<close>

fun reg_event :: "bus_event \<Rightarrow> bool" where
  "reg_event (Bus_export p) = True"
| "reg_event (Bus_call path iface method args) = (method \<in> {''RegisterAgent'', ''RequestDefaultAgent'', ''RegisterApplication'', ''RegisterAdvertisement''})"
| "reg_event _ = False"

definition exports :: "bus_event list" where
  "exports = map Bus_export [AGENT_PATH, SERVICE_PATH, RX_CHAR_PATH, TX_CHAR_PATH, ADV_PATH, APP_ROOT_PATH]"

definition registrations :: "bool \<Rightarrow> string \<Rightarrow> bus_event list" where
  "registrations agent a =
     [Bus_call ''/org/bluez'' ''org.bluez.AgentManager1'' ''RegisterAgent'' (V_tuple [V_o AGENT_PATH, V_s ''NoInputNoOutput''])] @
     (if agent then [Bus_call ''/org/bluez'' ''org.bluez.AgentManager1'' ''RequestDefaultAgent'' (V_tuple [V_o AGENT_PATH])] else []) @
     [Bus_call a ''org.bluez.GattManager1'' ''RegisterApplication'' (V_tuple [V_o APP_ROOT_PATH, V_dict []]),
      Bus_call a ''org.bluez.LEAdvertisingManager1'' ''RegisterAdvertisement'' (V_tuple [V_o ADV_PATH, V_dict []])]"

lemma quiet_prepare: "state_io_rel (bus_emits (\<lambda>e. \<not> reg_event e)) (platform_prepare_bluetooth db bd)"
  unfolding platform_prepare_bluetooth_def by (cases bd; simp only: board.case; (intro io_intros)?; simp)

lemma quiet_startup:
  "state_io_rel (bus_emits (\<lambda>e. \<not> reg_event e)) (b_connect db)"
  "state_io_rel (bus_emits (\<lambda>e. \<not> reg_event e)) (discover_adapter db)"
  "state_io_rel (bus_emits (\<lambda>e. \<not> reg_event e)) (set_adapter_prop db a prop v)"
  unfolding discover_adapter_def find_adapter_def set_adapter_prop_def
  by ((intro io_intros)?; simp)+

lemma quiet_configure: "state_io_rel (bus_emits (\<lambda>e. \<not> reg_event e)) (configure_adapter db a)"
  unfolding configure_adapter_def by (intro io_intros quiet_startup)

lemma export_all_log:
  assumes "run_state (export_all db ps) w = (ok, w')"
  shows "\<exists>k. bw_log w' = bw_log w @ map Bus_export (take k ps) \<and> (ok \<longrightarrow> k = length ps) \<and> bw_ble w' = bw_ble w"
  using assms
proof (induction ps arbitrary: w)
  case Nil
  then show ?case by simp
next
  case (Cons p ps)
  obtain r w1 where r: "run_state (b_export db p) w = (r, w1)" by (rule prod.exhaust)
  then have w1: "bw_log w1 = bw_log w @ [Bus_export p]" "bw_ble w1 = bw_ble w"
    by (auto simp: b_export_def bus_put_def split: prod.splits)
  show ?case
  proof (cases r)
    case True
    with Cons.prems r have "run_state (export_all db ps) w1 = (ok, w')" by simp
    from Cons.IH [OF this] w1 obtain k where "bw_log w' = bw_log w @ map Bus_export (take (Suc k) (p # ps))"
      "ok \<longrightarrow> k = length ps" "bw_ble w' = bw_ble w" by auto
    then show ?thesis by (intro exI [of _ "Suc k"]) simp
  next
    case False
    with Cons.prems r w1 show ?thesis by (intro exI [of _ 1]) auto
  qed
qed

lemma worker_log:
  assumes "run_state (bluez_register_worker db a) w = ((), w')"
  shows "\<exists>agent es. bw_log w' = bw_log w @ es \<and> filter reg_event es = es \<and> prefix es (registrations agent a)"
  using assms
  by (auto simp: bluez_register_worker_def register_agent_def register_gatt_app_def register_advertisement_def b_call_def
      bus_put_def registrations_def split: prod.splits if_splits)

interpretation same_ble: step_rel "\<lambda>w w'. bw_ble w' = bw_ble w"
  by unfold_locales simp_all

lemma quietD:
  assumes "state_io_rel (bus_emits (\<lambda>e. \<not> reg_event e)) m" and "run_state m w = (x, w')"
  shows "\<exists>es. bw_log w' = bw_log w @ es \<and> filter reg_event es = []"
  using keep_run [OF assms(1), of w] assms(2) by (auto simp: bus_emits_def list_all_iff filter_empty_conv)

lemma ble_configure_keeps: "run_state (configure_adapter db a) w = (x, w') \<Longrightarrow> bw_ble w' = bw_ble w"
  by (auto simp: configure_adapter_def set_adapter_prop_def b_call_def bus_put_def split: prod.splits)

lemma worker_keeps: "run_state (bluez_register_worker db a) w = (x, w') \<Longrightarrow> bw_ble w' = bw_ble w"
  by (auto simp: bluez_register_worker_def register_agent_def register_gatt_app_def register_advertisement_def b_call_def
      bus_put_def split: prod.splits if_splits)

lemma discover_keeps: "run_state (discover_adapter db) w = (x, w') \<Longrightarrow> bw_ble w' = bw_ble w"
proof -
  have "state_io_rel (\<lambda>w w'. bw_ble w' = bw_ble w) (discover_adapter db)"
    unfolding discover_adapter_def find_adapter_def
    by (intro io_intros same_ble.keep_bind same_ble.keep_for_loop same_ble.keep_ret)
       (auto simp: state_io_rel_def b_call_def b_sleep_def bus_put_def split: prod.split)
  then show "run_state (discover_adapter db) w = (x, w') \<Longrightarrow> bw_ble w' = bw_ble w"
    by (auto dest: state_io_relD)
qed

text \<open>From the adapter on: what is exported and registered.\<close>

lemma register_objects_log:
  assumes "run_state (register_objects db) w = (ok, w')"
  shows "\<exists>k. bw_log w' = bw_log w @ take k exports \<and> (ok \<longrightarrow> take k exports = exports) \<and> bw_ble w' = bw_ble w"
proof (cases "list_all (db_parse_xml db) [''agent_xml'', ''service_xml'', ''char_xml'', ''adv_xml'', ''om_xml'']")
  case False
  with assms show ?thesis by (intro exI [of _ 0]) (auto simp: register_objects_def split: if_splits)
next
  case True
  let ?ps = "[AGENT_PATH, SERVICE_PATH, RX_CHAR_PATH, TX_CHAR_PATH, ADV_PATH, APP_ROOT_PATH]"
  from True assms have "run_state (export_all db ?ps) w = (ok, w')" by (simp only: register_objects_def not_True_eq_False if_False)
  from export_all_log [OF this] show ?thesis unfolding exports_def take_map by auto
qed

lemma filter_exports: "filter reg_event (take k exports) = take k exports"
  by (auto simp: exports_def filter_id_conv dest!: in_set_takeD)

lemma register_log:
  assumes "run_state (do { ok \<leftarrow> register_objects db; if \<not> ok then ret False
      else do { _ \<leftarrow> b_spawn db; _ \<leftarrow> bluez_register_worker db a; ret True } }) w = (r, w')"
  shows "\<exists>agent es. bw_log w' = bw_log w @ es \<and> prefix (filter reg_event es) (exports @ registrations agent a) \<and>
    (r \<longrightarrow> prefix exports (filter reg_event es)) \<and> bw_ble w' = bw_ble w"
proof -
  obtain ok w1 where e: "run_state (register_objects db) w = (ok, w1)" by (rule prod.exhaust)
  from register_objects_log [OF e] obtain k where
    k: "bw_log w1 = bw_log w @ take k exports" "ok \<longrightarrow> take k exports = exports" "bw_ble w1 = bw_ble w" by blast
  show ?thesis
  proof (cases ok)
    case False
    with assms e k show ?thesis
      by (intro exI [of _ True] exI [of _ "take k exports"]) (auto simp: filter_exports take_is_prefix)
  next
    case True
    obtain w2 where b: "run_state (bluez_register_worker db a) (bus_put Bus_spawn (bw_env w1) w1) = ((), w2)"
      by (metis prod.exhaust old.unit.exhaust)
    from worker_log [OF b] obtain agent es where
      es: "bw_log w2 = bw_log w1 @ [Bus_spawn] @ es" "filter reg_event es = es" "prefix es (registrations agent a)"
      by (auto simp: bus_put_def)
    have f: "filter reg_event (exports @ Bus_spawn # es) = exports @ es"
      using es(2) filter_exports [of "length exports"] by simp
    have "w' = w2" "r" using assms e True b by (auto simp: b_spawn_def)
    moreover have "bw_ble w2 = bw_ble w" using worker_keeps [OF b] k(3) by (simp add: bus_put_def)
    ultimately show ?thesis
      using es k True f by (intro exI [of _ agent] exI [of _ "exports @ Bus_spawn # es"]) simp
  qed
qed

text \<open>
  The start-up of the Bluetooth service follows the order BlueZ needs: whatever the bus
  answers, the thread exports its objects (agent, service, both characteristics, advertisement
  and object manager, in this order) before it registers anything, registers the agent before
  the application and the application before the advertisement, and issues none of these calls
  twice; when it enters its main loop, all objects are exported, the connection and an adapter
  are known.
\<close>

theorem ble_startup_order:
  assumes "run_state (ble_gatt_thread db bd) w = (running, w')"
  shows "\<exists>a agent es. bw_log w' = bw_log w @ es \<and> prefix (filter reg_event es) (exports @ registrations agent a) \<and>
    (running \<longrightarrow> prefix exports (filter reg_event es) \<and> s_conn (bw_ble w') \<and> s_adapter_path (bw_ble w') = Some a)"
proof -
  obtain w1 where p: "run_state (platform_prepare_bluetooth db bd) w = ((), w1)" by (metis prod.exhaust old.unit.exhaust)
  obtain c w2 where c: "run_state (b_connect db) w1 = (c, w2)" by (rule prod.exhaust)
  let ?w2 = "w2\<lparr>bw_ble := (bw_ble w2)\<lparr>s_conn := True\<rparr>\<rparr>"
  obtain ad w3 where d: "run_state (discover_adapter db) ?w2 = (ad, w3)" by (rule prod.exhaust)
  let ?w3 = "w3\<lparr>bw_ble := (bw_ble w3)\<lparr>s_adapter_path := ad\<rparr>\<rparr>"
  from quietD [OF quiet_prepare p] quietD [OF quiet_startup(1) c] quietD [OF quiet_startup(2) d]
  obtain es1 es2 es3 where q: "bw_log w1 = bw_log w @ es1" "bw_log w2 = bw_log w1 @ es2" "bw_log w3 = bw_log w2 @ es3"
    "filter reg_event es1 = []" "filter reg_event es2 = []" "filter reg_event es3 = []"
    by auto
  have conn: "s_conn (bw_ble w3)" using discover_keeps [OF d] by simp
  show ?thesis
  proof (cases "c \<and> ad \<noteq> None")
    case False
    with assms p c d q have "\<not> running \<and> (bw_log w' = bw_log w2 \<or> bw_log w' = bw_log w3)"
      by (auto simp: ble_gatt_thread_def split: if_splits)
    with q show ?thesis by (auto intro!: exI [of _ "es1 @ es2"] exI [of _ "es1 @ es2 @ es3"])
  next
    case True
    then obtain a where ad: "ad = Some a" by auto
    obtain w4 where f: "run_state (configure_adapter db a) ?w3 = ((), w4)" by (metis prod.exhaust old.unit.exhaust)
    from quietD [OF quiet_configure f] obtain es4 where q4: "bw_log w4 = bw_log w3 @ es4" "filter reg_event es4 = []" by auto
    have run: "run_state (do { ok \<leftarrow> register_objects db; if \<not> ok then ret False
        else do { _ \<leftarrow> b_spawn db; _ \<leftarrow> bluez_register_worker db a; ret True } }) w4 = (running, w')"
      using assms p c d f True ad by (simp add: ble_gatt_thread_def)
    from register_log [OF run] obtain agent es where
      es: "bw_log w' = bw_log w4 @ es" "prefix (filter reg_event es) (exports @ registrations agent a)"
        "running \<longrightarrow> prefix exports (filter reg_event es)" "bw_ble w' = bw_ble w4" by blast
    with q q4 conn ble_configure_keeps [OF f] ad show ?thesis
      by (intro exI [of _ a] exI [of _ agent] exI [of _ "es1 @ es2 @ es3 @ es4 @ es"]) simp
  qed
qed

theorem ble_startup_order_witness:
  "\<exists>es. bw_log (snd (run_state (ble_gatt_thread ok_bus A733) \<lparr>bw_env = (), bw_log = [], bw_ble = ble_start\<rparr>)) = es \<and>
     prefix exports (filter reg_event es)"
proof -
  let ?w = "\<lparr>bw_env = (), bw_log = [], bw_ble = ble_start\<rparr>"
  have "fst (run_state (ble_gatt_thread ok_bus A733) ?w)"
    by (simp add: ble_gatt_thread_def platform_prepare_bluetooth_def b_system_def b_connect_def discover_adapter_def find_adapter_def
        b_call_def managed_objects_def configure_adapter_def set_adapter_prop_def register_objects_def b_export_def b_spawn_def
        bluez_register_worker_def register_agent_def register_gatt_app_def register_advertisement_def ok_bus_def)
  moreover have "run_state (ble_gatt_thread ok_bus A733) ?w =
      (fst (run_state (ble_gatt_thread ok_bus A733) ?w), snd (run_state (ble_gatt_thread ok_bus A733) ?w))" by simp
  ultimately show ?thesis using ble_startup_order by fastforce
qed

section \<open>The race on the stored TX value\<close>

text \<open>
  \<^verbatim>\<open>ble_gatt_send\<close> is called by the main loop (responses) and by the connect and scan workers
  (pushes), and it replaces \<^verbatim>\<open>s_tx_value\<close> without a lock.  Here the statements that touch that
  pointer are separate steps of interleaved threads: the test for NULL, the call that frees the
  old array, the assignment of a new one, and the append.  Arrays are numbered; \<open>ra_live\<close> holds
  the ones that are allocated.  A step to \<open>None\<close> uses or frees an array that is not.
\<close>

datatype send_pc = Test_old | Free_old | Set_new | Append | Sent

record race =
  ra_tx :: "nat option"
  ra_live :: "nat set"
  ra_next :: nat
  ra_pc :: "nat \<Rightarrow> send_pc"

definition send_stmt :: "nat \<Rightarrow> race \<Rightarrow> race option" where
  "send_stmt t r =
     (case ra_pc r t of
        Test_old \<Rightarrow> Some (r\<lparr>ra_pc := (ra_pc r)(t := if ra_tx r = None then Set_new else Free_old)\<rparr>)
      | Free_old \<Rightarrow>
          (case ra_tx r of
             None \<Rightarrow> None
           | Some p \<Rightarrow> if p \<in> ra_live r then Some (r\<lparr>ra_live := ra_live r - {p}, ra_pc := (ra_pc r)(t := Set_new)\<rparr>) else None)
      | Set_new \<Rightarrow> Some (r\<lparr>ra_tx := Some (ra_next r), ra_live := insert (ra_next r) (ra_live r), ra_next := Suc (ra_next r),
                         ra_pc := (ra_pc r)(t := Append)\<rparr>)
      | Append \<Rightarrow>
          (case ra_tx r of
             None \<Rightarrow> None
           | Some p \<Rightarrow> if p \<in> ra_live r then Some (r\<lparr>ra_pc := (ra_pc r)(t := Sent)\<rparr>) else None)
      | Sent \<Rightarrow> Some r)"

text \<open>A schedule names the thread of each step.\<close>

primrec run_schedule :: "nat list \<Rightarrow> race \<Rightarrow> race option" where
  "run_schedule [] r = Some r"
| "run_schedule (t # ts) r = (case send_stmt t r of None \<Rightarrow> None | Some r' \<Rightarrow> run_schedule ts r')"

definition race_ok :: "race \<Rightarrow> bool" where
  "race_ok r \<longleftrightarrow> (case ra_tx r of None \<Rightarrow> True | Some p \<Rightarrow> p \<in> ra_live r)"

lemma send_alone:
  assumes "race_ok r" and "ra_pc r t = Test_old"
  shows "\<exists>r'. run_schedule (replicate (if ra_tx r = None then 3 else 4) t) r = Some r' \<and> race_ok r' \<and> ra_pc r' t = Sent \<and>
    (\<forall>u. u \<noteq> t \<longrightarrow> ra_pc r' u = ra_pc r u)"
  using assms by (cases "ra_tx r") (auto simp: numeral_eq_Suc send_stmt_def race_ok_def)

text \<open>
  Concurrent notifications can free the stored value twice.  One call of
  \<^verbatim>\<open>ble_gatt_send\<close> that runs alone, from any state in which the stored value is NULL or
  allocated, finishes and leaves such a state; but when a value is stored and two threads send
  at the same time, there is a schedule after which the second one frees an array that is
  already free.
\<close>

theorem ble_send_race:
  assumes "race_ok r" and "ra_pc r t = Test_old" "ra_pc r u = Test_old" "t \<noteq> u" and "ra_tx r \<noteq> None"
  shows "(\<exists>r'. run_schedule (replicate 4 t @ replicate 4 u) r = Some r' \<and> race_ok r' \<and> ra_pc r' t = Sent \<and> ra_pc r' u = Sent) \<and>
    run_schedule [t, u, t, u] r = None"
proof
  have "run_schedule (xs @ ys) r = Option.bind (run_schedule xs r) (run_schedule ys)" for xs ys r
    by (induction xs arbitrary: r) (auto split: option.split)
  moreover from send_alone [OF assms(1,2)] assms(5) obtain r1 where
    r1: "run_schedule (replicate 4 t) r = Some r1" "race_ok r1" "ra_pc r1 t = Sent" "ra_pc r1 u = Test_old"
    using assms(3,4) by auto
  moreover have "ra_tx r1 \<noteq> None"
    using r1(1) assms by (auto simp: numeral_eq_Suc send_stmt_def split: if_splits option.splits)
  with send_alone [OF r1(2,4)] obtain r2 where "run_schedule (replicate 4 u) r1 = Some r2" "race_ok r2" "ra_pc r2 u = Sent"
    "ra_pc r2 t = ra_pc r1 t" using assms(4) by auto
  ultimately show "\<exists>r'. run_schedule (replicate 4 t @ replicate 4 u) r = Some r' \<and> race_ok r' \<and> ra_pc r' t = Sent \<and> ra_pc r' u = Sent"
    by auto
  show "run_schedule [t, u, t, u] r = None"
    using assms by (auto simp: send_stmt_def race_ok_def split: option.splits)
qed

theorem ble_send_race_witness:
  "run_schedule [0, 1, 0, 1] \<lparr>ra_tx = Some 0, ra_live = {0}, ra_next = 1, ra_pc = (\<lambda>_. Test_old)\<rparr> = None"
  using ble_send_race [of "\<lparr>ra_tx = Some 0, ra_live = {0}, ra_next = 1, ra_pc = (\<lambda>_. Test_old)\<rparr>" 0 1]
  by (simp add: race_ok_def)

end
