(* ===== verification/SysStat.thy ===== *)
theory SysStat
  imports Complex_Main SlotLog "HOL-Library.Multiset"
begin

text \<open>
  The sampler of \<^verbatim>\<open>sys_stat.c\<close>: the parsers of the \<^verbatim>\<open>/proc\<close> and \<^verbatim>\<open>/sys\<close> files, the
  differences between two samples, the ranking of processes and one pass of the sampling loop
  with the text it writes.  Counters are 64-bit words and wrap as they do in the code;
  percentages and rates are exact rational numbers, so the rounding of \<^verbatim>\<open>float\<close> and
  \<^verbatim>\<open>double\<close> is not part of the model.  The slot file is opened by \<open>sys_stat_open\<close> of \<open>SlotLog\<close>.
\<close>

definition SAMPLE_SEC :: nat where "SAMPLE_SEC = 5"
definition STAT_SIZE_CAP :: u64 where "STAT_SIZE_CAP = 10 * 1024 * 1024"
definition NUM_CPUS :: nat where "NUM_CPUS = 4"
definition MAX_THERMAL :: nat where "MAX_THERMAL = 8"
definition MAX_IFACES :: nat where "MAX_IFACES = 8"
definition MAX_PROCS :: nat where "MAX_PROCS = 512"
definition TOP_N :: nat where "TOP_N = 5"
definition COMM_LEN :: nat where "COMM_LEN = 16"
definition IFNAMSIZ_LOCAL :: nat where "IFNAMSIZ_LOCAL = 16"

lemmas stat_consts = SAMPLE_SEC_def STAT_SIZE_CAP_def NUM_CPUS_def MAX_THERMAL_def MAX_IFACES_def
  MAX_PROCS_def TOP_N_def COMM_LEN_def IFNAMSIZ_LOCAL_def

section \<open>Reading lines and numbers\<close>

text \<open>
  One \<^verbatim>\<open>fgets\<close> that may store \<open>n\<close> characters, and all lines of a file read with a buffer
  of \<open>cap\<close> bytes; a longer line comes in pieces.
\<close>

fun fgets1 :: "nat \<Rightarrow> string \<Rightarrow> string \<times> string" where
  "fgets1 0 s = ([], s)"
| "fgets1 (Suc n) [] = ([], [])"
| "fgets1 (Suc n) (c # cs) =
     (if c = chr_nl then ([chr_nl], cs) else (case fgets1 n cs of (l, r) \<Rightarrow> (c # l, r)))"

lemma fgets1_length: "length (snd (fgets1 n s)) = length s - length (fst (fgets1 n s))"
  by (induction n s rule: fgets1.induct) (auto split: prod.splits)

lemma fgets1_append: "fst (fgets1 n s) @ snd (fgets1 n s) = s"
  by (induction n s rule: fgets1.induct) (auto split: prod.splits)

lemma fgets1_progress: "0 < n \<Longrightarrow> s \<noteq> [] \<Longrightarrow> length (snd (fgets1 n s)) < length s"
  by (cases n; cases s) (auto simp: fgets1_length split: prod.split, metis fgets1_length diff_le_self le_imp_less_Suc snd_conv)

function fgets_lines :: "nat \<Rightarrow> string \<Rightarrow> string list" where
  "fgets_lines cap s =
     (if cap < 2 \<or> s = [] then []
      else cstr (fst (fgets1 (cap - 1) s)) # fgets_lines cap (snd (fgets1 (cap - 1) s)))"
  by pat_completeness auto

termination
  by (relation "measure (\<lambda>(cap, s). length s)") (auto simp: fgets1_progress)

declare fgets_lines.simps [simp del]

text \<open>
  One \<^verbatim>\<open>%llu\<close> (or \<^verbatim>\<open>%lu\<close>, \<^verbatim>\<open>%u\<close>, \<^verbatim>\<open>%d\<close> where only the extent matters): white space,
  an optional sign, digits; the value and the rest, or \<open>None\<close> when there are no digits.
\<close>

definition scan_u64 :: "string \<Rightarrow> (u64 \<times> string) option" where
  "scan_u64 s = (case scan_sign (dropWhile isspace s) of (neg, r) \<Rightarrow>
     (case scan_digits 0 0 r of (v, n, r') \<Rightarrow>
        if n = 0 then None
        else Some (if v > 2 ^ 64 - 1 then - 1 else if neg then - word_of_nat v else word_of_nat v, r')))"

text \<open>Consecutive number conversions: the values up to the first that fails, at most \<open>n\<close>.\<close>

fun scan_us :: "nat \<Rightarrow> string \<Rightarrow> u64 list" where
  "scan_us 0 s = []"
| "scan_us (Suc n) s = (case scan_u64 s of None \<Rightarrow> [] | Some (v, r) \<Rightarrow> v # scan_us n r)"

text \<open>\<^verbatim>\<open>%ld\<close>, saturating at the ends of the 64-bit range.\<close>

definition scan_long :: "string \<Rightarrow> int option" where
  "scan_long s = (case scan_sign (dropWhile isspace s) of (neg, r) \<Rightarrow>
     (case scan_digits 0 0 r of (v, n, _) \<Rightarrow>
        if n = 0 then None
        else Some (max (- (2 ^ 63)) (min (2 ^ 63 - 1) (if neg then - int v else int v)))))"

definition first_line :: "nat \<Rightarrow> string \<Rightarrow> string" where
  "first_line cap s =
     (let l = cstr (fst (fgets1 (cap - 1) s)) in if l \<noteq> [] \<and> last l = chr_nl then butlast l else l)"

definition read_first_line :: "string \<Rightarrow> nat \<Rightarrow> ('e, string) io" where
  "read_first_line path cap = gets (\<lambda>w. case w_files w path of None \<Rightarrow> [] | Some s \<Rightarrow> first_line cap s)"

definition read_long_from :: "string \<Rightarrow> ('e, int option) io" where
  "read_long_from path = gets (\<lambda>w. Option.bind (w_files w path) scan_long)"

section \<open>Memory\<close>

record meminfo =
  mi_total_kb :: u64
  mi_free_kb :: u64
  mi_avail_kb :: u64
  mi_buffers_kb :: u64
  mi_cached_kb :: u64

definition meminfo_zero :: meminfo where
  "meminfo_zero = \<lparr>mi_total_kb = 0, mi_free_kb = 0, mi_avail_kb = 0, mi_buffers_kb = 0, mi_cached_kb = 0\<rparr>"

text \<open>\<^verbatim>\<open>sscanf(line, "Key: %lu kB", &v) == 1\<close>\<close>

definition scan_kb :: "string \<Rightarrow> string \<Rightarrow> u64 option" where
  "scan_kb key line = Option.bind (after_prefix key line) (\<lambda>r. map_option fst (scan_u64 r))"

definition meminfo_line :: "string \<Rightarrow> meminfo \<Rightarrow> meminfo" where
  "meminfo_line line m =
     (case scan_kb ''MemTotal:'' line of Some v \<Rightarrow> m\<lparr>mi_total_kb := v\<rparr> | None \<Rightarrow>
     (case scan_kb ''MemFree:'' line of Some v \<Rightarrow> m\<lparr>mi_free_kb := v\<rparr> | None \<Rightarrow>
     (case scan_kb ''MemAvailable:'' line of Some v \<Rightarrow> m\<lparr>mi_avail_kb := v\<rparr> | None \<Rightarrow>
     (case scan_kb ''Buffers:'' line of Some v \<Rightarrow> m\<lparr>mi_buffers_kb := v\<rparr> | None \<Rightarrow>
     (case scan_kb ''Cached:'' line of Some v \<Rightarrow> m\<lparr>mi_cached_kb := v\<rparr> | None \<Rightarrow> m)))))"

definition read_meminfo :: "('e, meminfo) io" where
  "read_meminfo = gets (\<lambda>w. case w_files w ''/proc/meminfo'' of
     None \<Rightarrow> meminfo_zero
   | Some s \<Rightarrow> fold meminfo_line (fgets_lines 256 s) meminfo_zero)"

definition mem_used_pct :: "meminfo \<Rightarrow> rat" where
  "mem_used_pct mi =
     (if mi_total_kb mi > 0 then
        (let used = (if mi_avail_kb mi < mi_total_kb mi then mi_total_kb mi - mi_avail_kb mi else 0)
         in 100 * of_nat (unat used) / of_nat (unat (mi_total_kb mi)))
      else 0)"

section \<open>Processor time\<close>

record cpu_stat =
  c_user :: u64
  c_nice :: u64
  c_sys :: u64
  c_idle :: u64
  c_iowait :: u64
  c_irq :: u64
  c_softirq :: u64
  c_steal :: u64

text \<open>The numbers that were read, in order; the rest stay 0.\<close>

definition cpu_stat_of :: "u64 list \<Rightarrow> cpu_stat" where
  "cpu_stat_of vs = (let f = (\<lambda>i. if i < length vs then vs ! i else 0) in
     \<lparr>c_user = f 0, c_nice = f 1, c_sys = f 2, c_idle = f 3, c_iowait = f 4, c_irq = f 5,
      c_softirq = f 6, c_steal = f 7\<rparr>)"

definition parse_cpu_line :: "string \<Rightarrow> cpu_stat" where
  "parse_cpu_line buf = cpu_stat_of (case after_prefix ''cpu'' buf of Some r \<Rightarrow> scan_us 8 r | None \<Rightarrow> [])"

text \<open>\<open>None\<close> where the C function returns -1 and leaves the structure alone.\<close>

definition read_cpu_stat :: "('e, cpu_stat option) io" where
  "read_cpu_stat = gets (\<lambda>w. case w_files w ''/proc/stat'' of
     None \<Rightarrow> None
   | Some s \<Rightarrow> if s = [] then None else Some (parse_cpu_line (cstr (fst (fgets1 255 s)))))"

record cpu_pct =
  p_user :: rat
  p_sys :: rat
  p_iowait :: rat
  p_idle :: rat

definition cpu_stat_diff :: "cpu_stat \<Rightarrow> cpu_stat \<Rightarrow> cpu_pct" where
  "cpu_stat_diff prev cur =
     (let du = c_user cur - c_user prev + c_nice cur - c_nice prev;
          ds = c_sys cur - c_sys prev + c_irq cur - c_irq prev + c_softirq cur - c_softirq prev;
          di = c_idle cur - c_idle prev;
          dw = c_iowait cur - c_iowait prev;
          total = du + ds + di + dw + (c_steal cur - c_steal prev);
          pct = (\<lambda>d :: u64. 100 * of_nat (unat d) / of_nat (unat total))
      in if total = 0 then \<lparr>p_user = 0, p_sys = 0, p_iowait = 0, p_idle = 100\<rparr>
         else \<lparr>p_user = pct du, p_sys = pct ds, p_iowait = pct dw, p_idle = pct di\<rparr>)"

definition read_cpu_freq_mhz :: "nat \<Rightarrow> ('e, int) io" where
  "read_cpu_freq_mhz cpu = do {
     khz \<leftarrow> read_long_from (snprintf_s 128 (''/sys/devices/system/cpu/cpu'' @ dec_of_nat cpu @ ''/cpufreq/scaling_cur_freq''));
     ret (case khz of None \<Rightarrow> -1 | Some k \<Rightarrow> to_int32 (c_div k 1000)) }"

section \<open>Temperatures\<close>

record therm_zone =
  tz_name :: string
  tz_temp_c :: rat

definition zone_path :: "nat \<Rightarrow> string \<Rightarrow> string" where
  "zone_path i leaf = snprintf_s 128 (''/sys/class/thermal/thermal_zone'' @ dec_of_nat i @ leaf)"

definition zone_name :: "nat \<Rightarrow> string \<Rightarrow> string" where
  "zone_name i buf =
     (let b = (case strchr buf (CHR ''-'') of Some (a, _) \<Rightarrow> a | None \<Rightarrow> buf)
      in take 31 (if b = [] then ''zone'' @ dec_of_nat i else b))"

definition read_zone :: "nat \<Rightarrow> ('e, therm_zone option) io" where
  "read_zone i = do {
     mC \<leftarrow> read_long_from (zone_path i ''/temp'');
     (case mC of
        None \<Rightarrow> ret None
      | Some t \<Rightarrow> do {
          buf \<leftarrow> read_first_line (zone_path i ''/type'') 64;
          ret (Some \<lparr>tz_name = zone_name i buf, tz_temp_c = of_int t / 1000\<rparr>) }) }"

text \<open>The entries of a bounded array filled by a loop that skips some of its inputs.\<close>

fun collect :: "('a \<Rightarrow> ('s, 'b option) state) \<Rightarrow> 'a list \<Rightarrow> nat \<Rightarrow> ('s, 'b list) state" where
  "collect f [] n = ret []"
| "collect f (x # xs) n =
     (if n = 0 then ret []
      else do {
        r \<leftarrow> f x;
        (case r of
           None \<Rightarrow> collect f xs n
         | Some y \<Rightarrow> do { ys \<leftarrow> collect f xs (n - 1); ret (y # ys) }) })"

definition read_thermal :: "nat \<Rightarrow> ('e, therm_zone list) io" where
  "read_thermal mx = collect read_zone [0..<MAX_THERMAL] mx"

section \<open>Network counters\<close>

record iface_stat =
  if_name :: string
  if_rx_bytes :: u64
  if_tx_bytes :: u64

definition net_line :: "string \<Rightarrow> iface_stat option" where
  "net_line line =
     (case strchr line (CHR '':'') of
        None \<Rightarrow> None
      | Some (a, r) \<Rightarrow>
          let name = dropWhile (\<lambda>c. c = chr_sp \<or> c = chr_tab) a; vs = scan_us 9 r in
          if name = ''lo'' then None
          else if starts_with name ''dummy'' then None
          else if length vs < 9 then None
          else if vs ! 0 = 0 \<and> vs ! 8 = 0 then None
          else Some \<lparr>if_name = take (IFNAMSIZ_LOCAL - 1) name, if_rx_bytes = vs ! 0, if_tx_bytes = vs ! 8\<rparr>)"

definition read_net_dev :: "nat \<Rightarrow> ('e, iface_stat list) io" where
  "read_net_dev mx = do {
     f \<leftarrow> gets (\<lambda>w. w_files w ''/proc/net/dev'');
     (case f of
        None \<Rightarrow> ret []
      | Some s \<Rightarrow> collect (\<lambda>l. ret (net_line l)) (drop 2 (fgets_lines 512 s)) mx) }"

text \<open>KB/s in both directions since the previous sample; a counter that went back gives 0.\<close>

fun find_iface :: "string \<Rightarrow> iface_stat list \<Rightarrow> u64 \<times> u64" where
  "find_iface n [] = (0, 0)"
| "find_iface n (p # ps) = (if n = if_name p then (if_rx_bytes p, if_tx_bytes p) else find_iface n ps)"

definition kb_rate :: "u64 \<Rightarrow> u64 \<Rightarrow> rat" where
  "kb_rate prev cur = (if cur \<ge> prev then of_nat (unat (cur - prev)) / of_nat SAMPLE_SEC / 1024 else 0)"

definition net_rates :: "iface_stat list \<Rightarrow> iface_stat \<Rightarrow> rat \<times> rat" where
  "net_rates prev c = (case find_iface (if_name c) prev of
     (pr, pt) \<Rightarrow> (kb_rate pr (if_rx_bytes c), kb_rate pt (if_tx_bytes c)))"

section \<open>Processes\<close>

record proc_entry =
  pe_pid :: int
  pe_comm :: string
  pe_ticks :: u64

text \<open>
  The text of \<^verbatim>\<open>/proc/<pid>/stat\<close>: the name is between the first opening and the last
  closing parenthesis; then a state letter and twelve numbers, the last two of which count.
\<close>

definition parse_proc_stat :: "int \<Rightarrow> string \<Rightarrow> proc_entry option" where
  "parse_proc_stat pid buf =
     (case (strchr buf (CHR ''(''), strrchr buf (CHR '')'')) of
        (Some (before, after), Some tail) \<Rightarrow>
          let lparen = length before; rparen = length buf - length tail - 1 in
          if rparen \<le> lparen then None
          else
            let comm = take (min (rparen - lparen - 1) (COMM_LEN - 1)) after;
                p = dropWhile isspace tail;
                vs = scan_us 12 (tl p)
            in if p = [] \<or> length vs < 12 then None
               else Some \<lparr>pe_pid = pid, pe_comm = comm, pe_ticks = vs ! 10 + vs ! 11\<rparr>
      | _ \<Rightarrow> None)"

definition read_proc_stat_one :: "int \<Rightarrow> ('e, proc_entry option) io" where
  "read_proc_stat_one pid = gets (\<lambda>w.
     case w_files w (snprintf_s 64 (''/proc/'' @ dec_of_int pid @ ''/stat'')) of
       None \<Rightarrow> None
     | Some s \<Rightarrow> if s = [] then None else parse_proc_stat pid (cstr (take 511 s)))"

text \<open>\<open>names\<close> are the entries \<^verbatim>\<open>readdir\<close> gives, \<open>None\<close> when \<^verbatim>\<open>opendir\<close> fails.\<close>

definition sample_proc :: "string \<Rightarrow> ('e, proc_entry option) io" where
  "sample_proc name =
     (if name = [] \<or> \<not> isdigit (hd name) then ret None
      else (let pid = atoi name in if pid \<le> 0 then ret None else read_proc_stat_one pid))"

definition sample_all_procs :: "string list option \<Rightarrow> nat \<Rightarrow> ('e, proc_entry list) io" where
  "sample_all_procs names mx = (case names of None \<Rightarrow> ret [] | Some ns \<Rightarrow> collect sample_proc ns mx)"

fun find_prev_ticks :: "proc_entry list \<Rightarrow> int \<Rightarrow> u64" where
  "find_prev_ticks [] pid = 0"
| "find_prev_ticks (p # ps) pid = (if pe_pid p = pid then pe_ticks p else find_prev_ticks ps pid)"

record top_entry =
  te_dt :: u64
  te_pid :: int
  te_comm :: string

record top_result =
  tr_comm :: string
  tr_pid :: int
  tr_pct :: rat

definition top_entry_of :: "proc_entry list \<Rightarrow> proc_entry \<Rightarrow> top_entry option" where
  "top_entry_of prev c = (let pt = find_prev_ticks prev (pe_pid c) in
     if pe_ticks c \<le> pt then None
     else Some \<lparr>te_dt = pe_ticks c - pt, te_pid = pe_pid c, te_comm = take (COMM_LEN - 1) (pe_comm c)\<rparr>)"

definition top_entries :: "proc_entry list \<Rightarrow> proc_entry list \<Rightarrow> top_entry list" where
  "top_entries prev cur = take MAX_PROCS (List.map_filter (top_entry_of prev) cur)"

text \<open>The inner loop of the selection sort, and the exchange.\<close>

definition best_index :: "top_entry list \<Rightarrow> nat \<Rightarrow> nat" where
  "best_index es i = fold (\<lambda>j best. if te_dt (es ! j) > te_dt (es ! best) then j else best) [Suc i..<length es] i"

definition swap_best :: "nat \<Rightarrow> top_entry list \<Rightarrow> top_entry list" where
  "swap_best i es = (let best = best_index es i in if best \<noteq> i then es[i := es ! best, best := es ! i] else es)"

text \<open>\<open>n\<close> rounds from position \<open>i\<close> on: the entries chosen.\<close>

fun select_loop :: "nat \<Rightarrow> nat \<Rightarrow> top_entry list \<Rightarrow> top_entry list" where
  "select_loop 0 i es = []"
| "select_loop (Suc n) i es = (let es' = swap_best i es in es' ! i # select_loop n (Suc i) es')"

definition top_result_of :: "int \<Rightarrow> top_entry \<Rightarrow> top_result" where
  "top_result_of clk_tck e = \<lparr>tr_comm = te_comm e, tr_pid = te_pid e,
     tr_pct = 100 * of_nat (unat (te_dt e)) / (of_nat SAMPLE_SEC * of_int clk_tck)\<rparr>"

definition compute_top5 :: "proc_entry list \<Rightarrow> proc_entry list \<Rightarrow> nat \<Rightarrow> int \<Rightarrow> top_result list" where
  "compute_top5 prev cur out_max clk_tck =
     (let es = top_entries prev cur; k = length es in
      if k = 0 then []
      else map (top_result_of clk_tck) (select_loop (if k < out_max then k else out_max) 0 es))"

section \<open>Uptime\<close>

definition c_rem :: "int \<Rightarrow> int \<Rightarrow> int" where
  "c_rem a b = a - b * c_div a b"

definition read_uptime_sec :: "('e, int \<times> int) io" where
  "read_uptime_sec = gets (\<lambda>w. case w_files w ''/proc/uptime'' of None \<Rightarrow> (0, 0) | Some s \<Rightarrow> strtod_dec s)"

text \<open>\<^verbatim>\<open>%02ld\<close>\<close>

definition pad2 :: "int \<Rightarrow> string" where
  "pad2 i = (if 0 \<le> i \<and> i < 10 then CHR ''0'' # dec_of_int i else dec_of_int i)"

definition format_uptime :: "int \<times> int \<Rightarrow> nat \<Rightarrow> string" where
  "format_uptime up cap =
     (let total = dec_trunc up;
          days = c_div total 86400; total = c_rem total 86400;
          hrs = c_div total 3600; total = c_rem total 3600;
          mins = c_div total 60; secs = c_rem total 60
      in snprintf_s cap (dec_of_int days @ ''d:'' @ pad2 hrs @ '':'' @ pad2 mins @ '':'' @ pad2 secs))"

section \<open>One pass of the sampling loop\<close>

text \<open>\<^verbatim>\<open>%.<d>f\<close> of an exact value, rounding halves to even.\<close>

definition zero_pad :: "nat \<Rightarrow> string \<Rightarrow> string" where
  "zero_pad d s = replicate (d - length s) (CHR ''0'') @ s"

definition fixed :: "nat \<Rightarrow> rat \<Rightarrow> string" where
  "fixed d q =
     (let x = abs q * 10 ^ d; f = floor x; r = x - of_int f;
          n = nat (if r > 1/2 \<or> (r = 1/2 \<and> odd f) then f + 1 else f)
      in (if q < 0 then ''-'' else []) @ dec_of_nat (n div 10 ^ d) @
         (if d = 0 then [] else CHR ''.'' # zero_pad d (dec_of_nat (n mod 10 ^ d))))"

text \<open>
  \<^verbatim>\<open>%f\<close> on decimal text without an exponent: the value and the rest; and the two leading
  numbers of \<^verbatim>\<open>/proc/loadavg\<close>, \<^verbatim>\<open>sscanf(load, "%f %f", &l1, &l5)\<close>, which stay 0 from the
  first conversion that fails.
\<close>

definition scan_float :: "string \<Rightarrow> (rat \<times> string) option" where
  "scan_float s = (case scan_sign (dropWhile isspace s) of (neg, r) \<Rightarrow>
     (case scan_digits 0 0 r of (v, n, r1) \<Rightarrow>
       (case (case r1 of
                c # cs \<Rightarrow> if c = CHR ''.'' then scan_digits v 0 cs else (v, 0, r1)
              | [] \<Rightarrow> (v, 0, r1)) of (w, k, r2) \<Rightarrow>
          if n + k = 0 then None
          else Some ((if neg then - of_nat w else of_nat w) / 10 ^ k, r2))))"

definition load_values :: "string \<Rightarrow> rat \<times> rat" where
  "load_values load =
     (case scan_float load of
        None \<Rightarrow> (0, 0)
      | Some (l1, r) \<Rightarrow> (l1, case scan_float r of None \<Rightarrow> 0 | Some (l5, _) \<Rightarrow> l5))"

record sampler =
  sp_cpu :: cpu_stat
  sp_if :: "iface_stat list"
  sp_procs :: "proc_entry list"
  sp_written :: u64

record sample =
  s_time :: string
  s_uptime :: string
  s_load :: "rat \<times> rat"
  s_cpu :: cpu_pct
  s_freqs :: "int list"
  s_zones :: "therm_zone list"
  s_mem :: meminfo
  s_if :: "iface_stat list"
  s_procs :: "proc_entry list"
  s_top :: "top_result list"

text \<open>
  \<open>names\<close> is what listing \<^verbatim>\<open>/proc\<close> gives, \<open>junk\<close> what the uninitialised \<^verbatim>\<open>cur_cpu\<close> holds;
  it becomes the base of the next sample when \<^verbatim>\<open>/proc/stat\<close> cannot be read.
\<close>

definition clk_tck_of :: "int \<Rightarrow> int" where
  "clk_tck_of t = (if t \<le> 0 then 100 else t)"

fun read_freqs :: "nat list \<Rightarrow> ('e, int list) io" where
  "read_freqs [] = ret []"
| "read_freqs (i # is) = do { f \<leftarrow> read_cpu_freq_mhz i; fs \<leftarrow> read_freqs is; ret (f # fs) }"

definition take_sample :: "'e os \<Rightarrow> string list option \<Rightarrow> cpu_stat \<Rightarrow> sampler \<Rightarrow> ('e, sample \<times> cpu_stat) io" where
  "take_sample os names junk sp = do {
     tbuf \<leftarrow> gets (\<lambda>w. os_now os (w_env w));
     up \<leftarrow> read_uptime_sec;
     load \<leftarrow> read_first_line ''/proc/loadavg'' 128;
     c \<leftarrow> read_cpu_stat;
     (let cur_cpu = (case c of Some c' \<Rightarrow> c' | None \<Rightarrow> junk);
          pct = (case c of Some c' \<Rightarrow> cpu_stat_diff (sp_cpu sp) c'
                 | None \<Rightarrow> \<lparr>p_user = 0, p_sys = 0, p_iowait = 0, p_idle = 0\<rparr>) in do {
       freqs \<leftarrow> read_freqs [0..<NUM_CPUS];
       zones \<leftarrow> read_thermal MAX_THERMAL;
       mi \<leftarrow> read_meminfo;
       cur_if \<leftarrow> read_net_dev MAX_IFACES;
       cur_procs \<leftarrow> sample_all_procs names MAX_PROCS;
       tck \<leftarrow> gets (\<lambda>w. os_clk_tck os (w_env w));
       ret (\<lparr>s_time = tbuf, s_uptime = format_uptime up 32, s_load = load_values load, s_cpu = pct,
             s_freqs = freqs, s_zones = zones, s_mem = mi, s_if = cur_if, s_procs = cur_procs,
             s_top = compute_top5 (sp_procs sp) cur_procs TOP_N (clk_tck_of tck)\<rparr>, cur_cpu) }) }"

definition freq_text :: "nat \<Rightarrow> int \<Rightarrow> string" where
  "freq_text i f = ''  cpu'' @ dec_of_nat i @ ''='' @ (if f < 0 then ''?'' else dec_of_int f)"

text \<open>The interfaces with traffic, separated by bars.\<close>

definition busy_ifaces :: "iface_stat list \<Rightarrow> iface_stat list \<Rightarrow> (string \<times> rat \<times> rat) list" where
  "busy_ifaces prev cur =
     filter (\<lambda>(n, rx, tx). \<not> (rx < 1/100 \<and> tx < 1/100)) (map (\<lambda>c. (if_name c, net_rates prev c)) cur)"

fun net_text :: "bool \<Rightarrow> (string \<times> rat \<times> rat) list \<Rightarrow> string" where
  "net_text printed [] = []"
| "net_text printed ((n, rx, tx) # is) =
     (if printed then ''  |'' else []) @ ''  '' @ n @ '' rx='' @ fixed 1 rx @ ''/tx='' @ fixed 1 tx @ net_text True is"

definition top_text :: "top_result \<Rightarrow> string" where
  "top_text t = ''  '' @ tr_comm t @ ''['' @ dec_of_int (tr_pid t) @ '']='' @ fixed 1 (tr_pct t) @ ''%''"

definition sample_text :: "iface_stat list \<Rightarrow> sample \<Rightarrow> string" where
  "sample_text prev_if s =
     ''['' @ s_time s @ ''] uptime='' @ s_uptime s @ [chr_nl] @
     ''  LOAD : load1='' @ fixed 2 (fst (s_load s)) @ ''  load5='' @ fixed 2 (snd (s_load s)) @ [chr_nl] @
     ''  CPU  : user='' @ fixed 1 (p_user (s_cpu s)) @ ''%  sys='' @ fixed 1 (p_sys (s_cpu s)) @
       ''%  iowait='' @ fixed 1 (p_iowait (s_cpu s)) @ ''%  idle='' @ fixed 1 (p_idle (s_cpu s)) @ ''%'' @ [chr_nl] @
     ''  FREQ :'' @ concat (map2 freq_text [0..<length (s_freqs s)] (s_freqs s)) @ ''  (MHz)'' @ [chr_nl] @
     (if s_zones s = [] then []
      else ''  TEMP :'' @ concat (map (\<lambda>z. ''  '' @ tz_name z @ ''='' @ fixed 1 (tz_temp_c z) @ ''C'') (s_zones s)) @ [chr_nl]) @
     ''  MEM  : total='' @ dec_of_nat (unat (mi_total_kb (s_mem s))) @ ''KB  avail='' @
       dec_of_nat (unat (mi_avail_kb (s_mem s))) @ ''KB  cached='' @ dec_of_nat (unat (mi_cached_kb (s_mem s))) @
       ''KB  used='' @ fixed 1 (mem_used_pct (s_mem s)) @ ''%'' @ [chr_nl] @
     (if s_if s = [] then []
      else ''  NET  :'' @ (let b = busy_ifaces prev_if (s_if s) in if b = [] then ''  (idle)'' else net_text False b) @
        ''  (KB/s)'' @ [chr_nl]) @
     (if s_top s = [] then []
      else ''  TOP5 :'' @ concat (map top_text (takeWhile (\<lambda>t. \<not> tr_pct t < 5/100) (s_top s))) @ [chr_nl]) @
     [chr_nl]"

text \<open>The body of the endless loop: the text added to the file and the base of the next pass.\<close>

definition sys_stat_step ::
  "'e os \<Rightarrow> string list option \<Rightarrow> cpu_stat \<Rightarrow> sampler \<Rightarrow> ('e, string \<times> sampler) io" where
  "sys_stat_step os names junk sp =
     (if sp_written sp \<ge> STAT_SIZE_CAP then do { _ \<leftarrow> c_sleep os SAMPLE_SEC; ret ([], sp) }
      else do {
        r \<leftarrow> take_sample os names junk sp;
        (case r of (s, cur_cpu) \<Rightarrow>
           let txt = sample_text (sp_if sp) s in do {
             _ \<leftarrow> c_sleep os SAMPLE_SEC;
             ret (txt, \<lparr>sp_cpu = cur_cpu, sp_if = s_if s, sp_procs = s_procs s,
                        sp_written = sp_written sp + word_of_nat (length txt)\<rparr>) }) })"

text \<open>
  The start of \<^verbatim>\<open>sys_stat_thread\<close>: the slot file with its header, whose legend is UTF-8 text, the
  first readings as the base of the first differences, two tables of 32-byte entries, and one period of waiting.
\<close>

definition stat_legend :: string where
  "stat_legend =
     ''# '' @ [CHR 0xE5, CHR 0xAD, CHR 0x97, CHR 0xE6, CHR 0xAE, CHR 0xB5, CHR 0xE9, CHR 0x80, CHR 0x9F, CHR 0xE6, CHR 0x9F, CHR 0xA5] @ '':'' @
     [chr_nl] @
     ''#   uptime   '' @
     [CHR 0xE8, CHR 0x87, CHR 0xAA, CHR 0xE5, CHR 0x86, CHR 0x85, CHR 0xE6, CHR 0xA0, CHR 0xB8, CHR 0xE5, CHR 0x90, CHR 0xAF, CHR 0xE5, CHR 0x8A,
       CHR 0xA8, CHR 0xE5, CHR 0x88, CHR 0xB0, CHR 0xE7, CHR 0x8E, CHR 0xB0, CHR 0xE5, CHR 0x9C, CHR 0xA8, CHR 0xE7, CHR 0x9A, CHR 0x84, CHR 0xE6,
       CHR 0x97, CHR 0xB6, CHR 0xE9, CHR 0x97, CHR 0xB4] @
     '' ('' @
     [CHR 0xE4, CHR 0xB8, CHR 0x8E, CHR 0xE7, CHR 0xB3, CHR 0xBB, CHR 0xE7, CHR 0xBB, CHR 0x9F, CHR 0xE6, CHR 0x97, CHR 0xB6, CHR 0xE9, CHR 0x92,
       CHR 0x9F, CHR 0xE6, CHR 0x97, CHR 0xA0, CHR 0xE5, CHR 0x85, CHR 0xB3] @
     '', '' @ [CHR 0xE5, CHR 0xA7, CHR 0x8B, CHR 0xE7, CHR 0xBB, CHR 0x88, CHR 0xE5, CHR 0x87, CHR 0x86] @ '')'' @ [chr_nl] @
     ''#   LOAD     load1/load5 (runqueue '' @
     [CHR 0xE9, CHR 0x95, CHR 0xBF, CHR 0xE5, CHR 0xBA, CHR 0xA6, CHR 0xE5, CHR 0xB9, CHR 0xB3, CHR 0xE5, CHR 0x9D, CHR 0x87] @ '', '' @
     [CHR 0xE4, CHR 0xB8, CHR 0x8D, CHR 0xE6, CHR 0x98, CHR 0xAF] @ '' CPU%)'' @ [chr_nl] @
     ''#   CPU      user/sys/iowait/idle% ('' @
     [CHR 0xE4, CHR 0xB8, CHR 0xA4, CHR 0xE6, CHR 0xAC, CHR 0xA1, CHR 0xE9, CHR 0x87, CHR 0x87, CHR 0xE6, CHR 0xA0, CHR 0xB7, CHR 0xE5, CHR 0xB7,
       CHR 0xAE, CHR 0xE5, CHR 0x88, CHR 0x86] @
     '', '' @ [CHR 0xE5, CHR 0x90, CHR 0x8C] @ '' top)'' @ [chr_nl] @
     ''#   FREQ     '' @
     [CHR 0xE6, CHR 0xAF, CHR 0x8F, CHR 0xE6, CHR 0xA0, CHR 0xB8, CHR 0xE5, CHR 0xBD, CHR 0x93, CHR 0xE5, CHR 0x89, CHR 0x8D, CHR 0xE9, CHR 0xA2,
       CHR 0x91, CHR 0xE7, CHR 0x8E, CHR 0x87] @
     '' MHz ('' @ [CHR 0xE6, CHR 0x9D, CHR 0xA5, CHR 0xE6, CHR 0xBA, CHR 0x90] @ '' cpufreq scaling_cur_freq)'' @ [chr_nl] @
     ''#   TEMP     '' @ [CHR 0xE5, CHR 0x90, CHR 0x84] @ '' thermal_zone '' @ [CHR 0xE6, CHR 0xB8, CHR 0xA9, CHR 0xE5, CHR 0xBA, CHR 0xA6] @ '' '' @
     [CHR 0xC2, CHR 0xB0] @ ''C'' @ [chr_nl] @
     ''#   MEM      total/avail/cached KiB + used% (used '' @ [CHR 0xE6, CHR 0x8C, CHR 0x89] @ '' avail '' @ [CHR 0xE7, CHR 0xAE, CHR 0x97] @ '')'' @
     [chr_nl] @
     ''#   NET      '' @ [CHR 0xE6, CHR 0xAF, CHR 0x8F, CHR 0xE5, CHR 0x8F, CHR 0xA3] @ '' rx/tx KB/s ('' @
     [CHR 0xE5, CHR 0xB7, CHR 0xAE, CHR 0xE5, CHR 0x88, CHR 0x86] @ '', '' @ [CHR 0xE6, CHR 0x9D, CHR 0xA5, CHR 0xE6, CHR 0xBA, CHR 0x90] @
     '' /proc/net/dev)'' @ [chr_nl] @
     ''#   TOP5     CPU '' @
     [CHR 0xE8, CHR 0x80, CHR 0x97, CHR 0xE6, CHR 0x97, CHR 0xB6, CHR 0xE5, CHR 0xA2, CHR 0x9E, CHR 0xE9, CHR 0x87, CHR 0x8F, CHR 0xE6, CHR 0x9C,
       CHR 0x80, CHR 0xE9, CHR 0xAB, CHR 0x98, CHR 0xE7, CHR 0x9A, CHR 0x84] @
     '' 5 '' @ [CHR 0xE4, CHR 0xB8, CHR 0xAA, CHR 0xE8, CHR 0xBF, CHR 0x9B, CHR 0xE7, CHR 0xA8, CHR 0x8B] @ '' (COMM[PID]=%CPU)'' @ [chr_nl] @
     ''# '' @ [CHR 0xE9, CHR 0x87, CHR 0x87, CHR 0xE6, CHR 0xA0, CHR 0xB7, CHR 0xE5, CHR 0x91, CHR 0xA8, CHR 0xE6, CHR 0x9C, CHR 0x9F] @ '' '' @
     dec_of_nat SAMPLE_SEC @ '' '' @ [CHR 0xE7, CHR 0xA7, CHR 0x92] @ '', '' @
     [CHR 0xE5, CHR 0x8D, CHR 0x95, CHR 0xE6, CHR 0x96, CHR 0x87, CHR 0xE4, CHR 0xBB, CHR 0xB6, CHR 0xE4, CHR 0xB8, CHR 0x8A, CHR 0xE9, CHR 0x99, CHR 0x90] @
     '' '' @ dec_of_nat (unat (STAT_SIZE_CAP div (1024 * 1024))) @ '' MiB, '' @
     [CHR 0xE8, CHR 0xBE, CHR 0xBE, CHR 0xE5, CHR 0x88, CHR 0xB0, CHR 0xE4, CHR 0xB8, CHR 0x8A, CHR 0xE9, CHR 0x99, CHR 0x90, CHR 0xE5, CHR 0x90,
       CHR 0x8E, CHR 0xE5, CHR 0x81, CHR 0x9C, CHR 0xE6, CHR 0xAD, CHR 0xA2, CHR 0xE5, CHR 0x86, CHR 0x99, CHR 0xE5, CHR 0x85, CHR 0xA5] @
     ''.'' @ [chr_nl, chr_nl]"

definition stat_header :: "int \<Rightarrow> string \<Rightarrow> string \<Rightarrow> int \<Rightarrow> string" where
  "stat_header slot tbuf epoch clk_tck =
     ''==== sys_stat slot='' @ dec_of_int slot @ ''  start='' @ tbuf @ ''  (epoch='' @ epoch @ '')  CLK_TCK='' @ dec_of_int clk_tck @
     '' ===='' @ [chr_nl] @ stat_legend"

definition sys_stat_start :: "'e os \<Rightarrow> string list option \<Rightarrow> cpu_stat \<Rightarrow> string \<Rightarrow> ('e, sampler option) io" where
  "sys_stat_start os names junk epoch = do {
     r \<leftarrow> sys_stat_open os;
     (case r of
        None \<Rightarrow> ret None
      | Some slot \<Rightarrow> do {
          tck \<leftarrow> gets (\<lambda>w. os_clk_tck os (w_env w));
          tbuf \<leftarrow> gets (\<lambda>w. os_now os (w_env w));
          _ \<leftarrow> c_fwrite_close os (stat_slot_path slot) (stat_header slot tbuf epoch (clk_tck_of tck));
          c \<leftarrow> read_cpu_stat;
          prev_if \<leftarrow> read_net_dev MAX_IFACES;
          ok \<leftarrow> gets (\<lambda>w. os_malloc os (MAX_PROCS * 32) (w_env w));
          (if \<not> ok then ret None
           else do {
             prev_procs \<leftarrow> sample_all_procs names MAX_PROCS;
             _ \<leftarrow> c_sleep os SAMPLE_SEC;
             ret (Some \<lparr>sp_cpu = (case c of Some c' \<Rightarrow> c' | None \<Rightarrow> junk), sp_if = prev_if, sp_procs = prev_procs,
               sp_written = word_of_nat (length (stat_header slot tbuf epoch (clk_tck_of tck)))\<rparr>) }) }) }"

section \<open>Ranking\<close>

text \<open>The inner loop finds an entry of the rest that none exceeds.\<close>

lemma best_index_max:
  assumes "i < length es"
  shows "i \<le> best_index es i \<and> best_index es i < length es \<and>
    (\<forall>j. i \<le> j \<longrightarrow> j < length es \<longrightarrow> te_dt (es ! j) \<le> te_dt (es ! best_index es i))"
proof -
  let ?f = "\<lambda>j best. if te_dt (es ! j) > te_dt (es ! best) then j else best"
  have "i \<le> fold ?f [Suc i..<n] i \<and> fold ?f [Suc i..<n] i < n \<and>
      (\<forall>j. i \<le> j \<longrightarrow> j < n \<longrightarrow> te_dt (es ! j) \<le> te_dt (es ! fold ?f [Suc i..<n] i))"
    if "Suc i \<le> n" for n
    using that
  proof (induction n rule: nat_induct_at_least)
    case base
    then show ?case by (auto simp: le_less_Suc_eq)
  next
    case (Suc n)
    then show ?case by (auto simp: less_Suc_eq intro: order_trans less_imp_le)
  qed
  from this [of "length es"] assms show ?thesis by (simp add: best_index_def)
qed

lemma swap_best_props:
  assumes "i < length es"
  shows "length (swap_best i es) = length es" and "mset (swap_best i es) = mset es"
    and "take i (swap_best i es) = take i es"
    and "\<And>j. i \<le> j \<Longrightarrow> j < length es \<Longrightarrow> te_dt (swap_best i es ! j) \<le> te_dt (swap_best i es ! i)"
proof -
  let ?b = "best_index es i"
  have b: "i \<le> ?b" "?b < length es" "\<And>j. i \<le> j \<Longrightarrow> j < length es \<Longrightarrow> te_dt (es ! j) \<le> te_dt (es ! ?b)"
    using best_index_max [OF assms] by auto
  show "length (swap_best i es) = length es" by (simp add: swap_best_def Let_def)
  show "mset (swap_best i es) = mset es"
    using assms b(2) by (simp add: swap_best_def Let_def mset_swap)
  show "take i (swap_best i es) = take i es"
    using b(1) by (simp add: swap_best_def Let_def)
  show "te_dt (swap_best i es ! j) \<le> te_dt (swap_best i es ! i)" if "i \<le> j" "j < length es" for j
    using that assms b by (auto simp: swap_best_def Let_def nth_list_update)
qed

lemma select_loop_spec:
  assumes "i + n \<le> length es"
  shows "\<exists>rest. mset (drop i es) = mset (select_loop n i es) + mset rest \<and>
    (\<forall>x \<in> set rest. \<forall>y \<in> set (select_loop n i es). te_dt x \<le> te_dt y) \<and>
    sorted_wrt (\<lambda>a b. te_dt b \<le> te_dt a) (select_loop n i es)"
  using assms
proof (induction n arbitrary: i es)
  case 0
  show ?case by (rule exI [of _ "drop i es"]) simp
next
  case (Suc n)
  let ?es = "swap_best i es"
  from Suc.prems have i: "i < length es" by simp
  note sb = swap_best_props [OF i]
  from Suc.IH [of "Suc i" ?es] Suc.prems sb(1) obtain rest where
    m: "mset (drop (Suc i) ?es) = mset (select_loop n (Suc i) ?es) + mset rest" and
    le: "\<forall>x \<in> set rest. \<forall>y \<in> set (select_loop n (Suc i) ?es). te_dt x \<le> te_dt y" and
    srt: "sorted_wrt (\<lambda>a b. te_dt b \<le> te_dt a) (select_loop n (Suc i) ?es)" by auto
  have d: "drop i ?es = ?es ! i # drop (Suc i) ?es" using i sb(1) by (simp add: Cons_nth_drop_Suc)
  have "mset (take i es) + mset (drop i ?es) = mset (take i es) + mset (drop i es)"
    using sb(2,3) by (metis append_take_drop_id mset_append)
  then have drop_eq: "mset (drop i ?es) = mset (drop i es)" by simp
  have top: "te_dt x \<le> te_dt (?es ! i)" if "x \<in> set (drop (Suc i) ?es)" for x
    using that sb(1,4) by (auto simp: in_set_conv_nth)
  have "set (select_loop n (Suc i) ?es) \<union> set rest = set (drop (Suc i) ?es)"
    using m by (metis set_mset_mset set_mset_union)
  with top have "\<forall>x \<in> set (select_loop n (Suc i) ?es) \<union> set rest. te_dt x \<le> te_dt (?es ! i)" by blast
  with m le srt d drop_eq show ?case
    by (intro exI [of _ rest]) (auto simp: Let_def)
qed

lemma length_select_loop [simp]: "length (select_loop n i es) = n"
  by (induction n i es rule: select_loop.induct) (simp_all add: Let_def)

text \<open>What the ranking computes: the values are the largest ones, in descending order.\<close>

lemma select_loop_largest:
  assumes "n \<le> length es"
  shows "\<exists>rest. mset es = mset (select_loop n 0 es) + mset rest \<and>
    map te_dt (select_loop n 0 es) = take n (rev (sort (map te_dt es)))"
proof -
  let ?r = "select_loop n 0 es"
  from select_loop_spec [of 0 n es] assms obtain rest where
    m: "mset es = mset ?r + mset rest" and le: "\<forall>x \<in> set rest. \<forall>y \<in> set ?r. te_dt x \<le> te_dt y" and
    srt: "sorted_wrt (\<lambda>a b. te_dt b \<le> te_dt a) ?r" by auto
  let ?all = "sort (map te_dt rest) @ rev (map te_dt ?r)"
  have "sorted ?all"
    using le srt by (auto simp: sorted_append sorted_wrt_rev sorted_wrt_map)
  moreover have "mset ?all = mset (map te_dt es)" using m by simp
  ultimately have "sort (map te_dt es) = ?all" by (metis properties_for_sort)
  then have "rev (sort (map te_dt es)) = map te_dt ?r @ rev (sort (map te_dt rest))" by simp
  then show ?thesis using m by (intro exI [of _ rest]) simp
qed

section \<open>Parsing a process line\<close>

lemma strrchr_last: "c \<notin> set t \<Longrightarrow> strrchr (a @ c # t) c = Some t"
proof (induction a)
  case Nil
  then have "strrchr t c = None" by (induction t) auto
  then show ?case by simp
qed simp

lemma scan_digits_stop: "r = [] \<or> \<not> isdigit (hd r) \<Longrightarrow> scan_digits v n r = (v, n, r)"
  by (cases r) auto

lemma scan_digits_number:
  assumes "r = [] \<or> \<not> isdigit (hd r)"
  shows "\<exists>k. scan_digits 0 0 (dec_of_nat n @ r) = (n, Suc k, r)"
proof -
  obtain k where k: "scan_digits 0 0 (dec_of_nat n) = (n, Suc k, [])" using scan_digits_dec_of_nat by blast
  have "scan_digits 0 0 (dec_of_nat n @ r) = (n, Suc k, r)"
    using isdigit_dec_of_nat by (simp add: scan_digits_append k scan_digits_stop [OF assms])
  then show ?thesis by blast
qed

lemma dec_of_nat_first: "\<exists>c cs. dec_of_nat n = c # cs \<and> isdigit c"
  using isdigit_dec_of_nat [of "hd (dec_of_nat n)" n] by (cases "dec_of_nat n") auto

lemma scan_u64_number:
  assumes "\<bar>i\<bar> < 2 ^ 64" and r: "r = [] \<or> \<not> isdigit (hd r)"
  shows "scan_u64 (chr_sp # dec_of_int i @ r) = Some (word_of_int i, r)"
proof -
  let ?n = "nat \<bar>i\<bar>"
  obtain c cs where d: "dec_of_nat ?n = c # cs" "isdigit c" using dec_of_nat_first by blast
  then have c: "\<not> isspace c" "c \<noteq> CHR ''-''" "c \<noteq> CHR ''+''" by (auto simp: isspace_def isdigit_def)
  have neg: "\<not> isspace (CHR ''-'')" by (simp add: isspace_def)
  have sp: "isspace chr_sp" by (simp add: isspace_def)
  obtain k where k: "scan_digits 0 0 (dec_of_nat ?n @ r) = (?n, Suc k, r)" using scan_digits_number [OF r] by blast
  have sign: "scan_sign (dropWhile isspace (chr_sp # dec_of_int i @ r)) = (i < 0, dec_of_nat ?n @ r)"
    using c d neg sp by (auto simp: dec_of_int_def scan_sign_def)
  have v: "?n \<le> 2 ^ 64 - 1" using assms(1) by simp
  have w: "(if i < 0 then - word_of_nat ?n else word_of_nat ?n :: u64) = word_of_int i"
    by (simp add: of_nat_nat)
  from v have "\<not> ?n > 2 ^ 64 - 1" by (simp only: not_less)
  then show ?thesis unfolding scan_u64_def sign k prod.case w by (simp only: if_False nat.distinct)
qed

definition fields_text :: "int list \<Rightarrow> string" where
  "fields_text is = concat (map (\<lambda>i. chr_sp # dec_of_int i) is)"

lemma fields_text_head: "r = [] \<or> \<not> isdigit (hd r) \<Longrightarrow> fields_text is @ r = [] \<or> \<not> isdigit (hd (fields_text is @ r))"
  by (cases "is") (auto simp: fields_text_def isdigit_def)

lemma scan_us_fields:
  assumes "\<forall>i \<in> set is. \<bar>i\<bar> < 2 ^ 64" and "r = [] \<or> \<not> isdigit (hd r)"
  shows "scan_us (length is) (fields_text is @ r) = map word_of_int is"
  using assms(1)
proof (induction "is")
  case (Cons i "is")
  have "scan_u64 (chr_sp # dec_of_int i @ (fields_text is @ r)) = Some (word_of_int i, fields_text is @ r)"
    using Cons.prems fields_text_head [OF assms(2)] by (intro scan_u64_number) auto
  with Cons show ?case by (simp add: fields_text_def)
qed (simp add: fields_text_def)

lemma dec_of_int_chars: "c \<in> set (dec_of_int i) \<Longrightarrow> isdigit c \<or> c = CHR ''-''"
  using isdigit_dec_of_nat by (auto simp: dec_of_int_def split: if_splits)

lemma fields_text_chars:
  "chr_nul \<notin> set (fields_text is)" "CHR '')'' \<notin> set (fields_text is)"
  by (auto simp: fields_text_def isdigit_def dest!: dec_of_int_chars)

lemma cstr_append: "chr_nul \<notin> set a \<Longrightarrow> cstr (a @ b) = a @ cstr b"
  by (induction a) (auto simp: cstr_def)

lemma cstr_head: "cstr s = [] \<or> hd (cstr s) = hd s"
  by (cases s) (auto simp: cstr_def)

definition stat_front :: "int \<Rightarrow> string \<Rightarrow> char \<Rightarrow> int list \<Rightarrow> string" where
  "stat_front pid comm c is = dec_of_int pid @ '' ('' @ comm @ '') '' @ [c] @ fields_text is"

lemma parse_proc_stat_line:
  assumes "\<not> isspace c" "c \<noteq> CHR '')''" and "length is = 12" "\<forall>i \<in> set is. \<bar>i\<bar> < 2 ^ 64"
    and "CHR '')'' \<notin> set t" and "t = [] \<or> \<not> isdigit (hd t)"
  shows "parse_proc_stat pid (stat_front pid comm c is @ t) =
    Some \<lparr>pe_pid = pid, pe_comm = take 15 comm, pe_ticks = word_of_int (is ! 10) + word_of_int (is ! 11)\<rparr>"
proof -
  let ?pre = "dec_of_int pid @ '' ''" and ?tail = "chr_sp # c # fields_text is @ t"
  have buf: "stat_front pid comm c is @ t = ?pre @ CHR ''('' # comm @ CHR '')'' # ?tail"
    by (simp add: stat_front_def)
  have "CHR ''('' \<notin> set ?pre" using dec_of_int_chars [of "CHR ''(''" pid] by (auto simp: isdigit_def)
  then have l: "strchr (stat_front pid comm c is @ t) (CHR ''('') = Some (?pre, comm @ CHR '')'' # ?tail)"
    unfolding buf by (rule strchr_append)
  have "CHR '')'' \<notin> set ?tail" using assms(2,5) fields_text_chars(2) by auto
  from strrchr_last [OF this, of "?pre @ CHR ''('' # comm"]
  have r: "strrchr (stat_front pid comm c is @ t) (CHR '')'') = Some ?tail" unfolding buf by simp
  have sp: "isspace chr_sp" by (simp add: isspace_def)
  have p: "dropWhile isspace ?tail = c # fields_text is @ t" using assms(1) sp by simp
  have vs: "scan_us 12 (fields_text is @ t) = map word_of_int is"
    using scan_us_fields [OF assms(4,6)] by (simp add: assms(3))
  have "length (stat_front pid comm c is @ t) - length ?tail - 1 = Suc (length ?pre) + length comm"
    unfolding buf by simp
  with l r p vs assms(3) show ?thesis
    by (simp add: parse_proc_stat_def Let_def COMM_LEN_def min_def)
qed

text \<open>
  Reading a process: for every name the kernel can report, also one with blanks
  and parentheses, and whatever follows the fields, \<^verbatim>\<open>read_proc_stat_one\<close> gives the first 15
  characters of the name and the sum of the user and system ticks (fields 14 and 15), as long
  as these fields are within the 511 bytes that are read.
\<close>

theorem read_proc_stat_any_name:
  assumes "w_files w (''/proc/'' @ dec_of_int pid @ ''/stat'') = Some (stat_front pid comm c is @ t)"
    and "length (''/proc/'' @ dec_of_int pid @ ''/stat'') < 64"
    and "chr_nul \<notin> set comm" "\<not> isspace c" "c \<noteq> CHR '')''" "c \<noteq> chr_nul"
    and "length is = 12" "\<forall>i \<in> set is. \<bar>i\<bar> < 2 ^ 64"
    and "CHR '')'' \<notin> set t" "t = [] \<or> \<not> isdigit (hd t)"
    and "length (stat_front pid comm c is) \<le> 511"
  shows "run_state (read_proc_stat_one pid) w =
    (Some \<lparr>pe_pid = pid, pe_comm = take 15 comm, pe_ticks = word_of_int (is ! 10 + is ! 11)\<rparr>, w)"
proof -
  let ?f = "stat_front pid comm c is"
  define t' where "t' = cstr (take (511 - length ?f) t)"
  have nul: "chr_nul \<notin> set ?f"
    using assms(3,6) fields_text_chars(1) by (auto simp: stat_front_def isdigit_def dest!: dec_of_int_chars)
  have buf: "cstr (take 511 (?f @ t)) = ?f @ t'" using assms(11) by (simp add: cstr_append [OF nul] t'_def)
  have "set t' \<subseteq> set t" unfolding t'_def by (meson set_cstr_subset set_take_subset subset_trans)
  with assms(9) have 1: "CHR '')'' \<notin> set t'" by blast
  have 2: "t' = [] \<or> \<not> isdigit (hd t')"
  proof (cases "t' = []")
    case False
    then have "take (511 - length ?f) t \<noteq> []" by (auto simp: t'_def cstr_def)
    then have "hd t' = hd t" using False cstr_head [of "take (511 - length ?f) t"] by (auto simp: t'_def hd_take)
    with assms(10) False \<open>take _ t \<noteq> []\<close> show ?thesis by auto
  qed simp
  have "?f @ t \<noteq> []" by (simp add: stat_front_def)
  with assms(1,2) buf parse_proc_stat_line [OF assms(4,5,7,8) 1 2] show ?thesis
    by (simp add: read_proc_stat_one_def)
qed

theorem read_proc_stat_any_name_witness:
  "fst (run_state (read_proc_stat_one 7)
     (world0 [''/proc/7/stat'' \<mapsto> stat_front 7 ''a) (b'' (CHR ''S'') [1, 7, 7, 0, -1, 4, 0, 0, 0, 0, 30, 12] @ '' 0 0'']))
   = Some \<lparr>pe_pid = 7, pe_comm = ''a) (b'', pe_ticks = 42\<rparr>"
proof -
  let ?is = "[1, 7, 7, 0, -1, 4, 0, 0, 0, 0, 30, 12]" and ?c = "CHR ''S''"
  have d: "dec_of_int 7 = ''7''" by (simp add: dec_of_int_def dec_of_nat.simps char_of_def bit_0)
  have len: "length (stat_front 7 ''a) (b'' ?c ?is) \<le> 511"
    by (simp add: stat_front_def fields_text_def dec_of_int_def dec_of_nat.simps)
  have c: "\<not> isspace ?c" "\<not> isdigit chr_sp" by (simp_all add: isspace_def isdigit_def)
  show ?thesis
    using read_proc_stat_any_name [of "world0 [''/proc/7/stat'' \<mapsto> stat_front 7 ''a) (b'' ?c ?is @ '' 0 0'']"
        7 "''a) (b''" ?c ?is "'' 0 0''"] len c
    by (simp add: d world0_def)
qed

section \<open>The ranking of processes\<close>

lemma length_map_filter: "length (List.map_filter f xs) \<le> length xs"
  by (induction xs) (auto simp: List.map_filter_simps split: option.split)

text \<open>
  Property C40. The process list: when the table of processes fits (which \<^verbatim>\<open>sample_all_procs\<close>
  sees to), \<^verbatim>\<open>compute_top5\<close> picks its entries among the processes whose ticks grew, never one
  twice, and their growths are the \<open>m\<close> largest ones, in descending order.
\<close>

theorem compute_top5_largest:
  assumes "length cur \<le> MAX_PROCS"
  shows "\<exists>chosen rest. compute_top5 prev cur m clk_tck = map (top_result_of clk_tck) chosen \<and>
    mset (List.map_filter (top_entry_of prev) cur) = mset chosen + mset rest \<and>
    map te_dt chosen = take m (rev (sort (map te_dt (List.map_filter (top_entry_of prev) cur))))"
proof -
  let ?es = "List.map_filter (top_entry_of prev) cur"
  let ?n = "if length ?es < m then length ?es else m"
  have es: "top_entries prev cur = ?es"
    using assms length_map_filter [of "top_entry_of prev" cur] by (simp add: top_entries_def)
  have n: "?n \<le> length ?es" by simp
  from select_loop_largest [OF n] obtain rest where
    r: "mset ?es = mset (select_loop ?n 0 ?es) + mset rest"
      "map te_dt (select_loop ?n 0 ?es) = take ?n (rev (sort (map te_dt ?es)))" by blast
  have "take ?n (rev (sort (map te_dt ?es))) = take m (rev (sort (map te_dt ?es)))" by simp
  with r show ?thesis
    by (intro exI [of _ "select_loop ?n 0 ?es"] exI [of _ rest])
       (auto simp: compute_top5_def es Let_def split: if_splits)
qed

definition ticks_example :: "u64 list \<Rightarrow> proc_entry list" where
  "ticks_example ts = map2 (\<lambda>i t. \<lparr>pe_pid = int i, pe_comm = ''p'', pe_ticks = t\<rparr>) [1..<Suc (length ts)] ts"

theorem compute_top5_largest_witness:
  "\<exists>chosen. compute_top5 (ticks_example [5, 5, 5]) (ticks_example [6, 45, 9]) 2 100 = map (top_result_of 100) chosen \<and>
     map te_dt chosen = [40, 4]"
  using compute_top5_largest [of "ticks_example [6, 45, 9]" "ticks_example [5, 5, 5]" 2 100]
  by (auto simp: ticks_example_def MAX_PROCS_def List.map_filter_simps top_entry_of_def upt_rec)

section \<open>Shares of processor time\<close>

definition cpu_advance :: "cpu_stat \<Rightarrow> nat \<Rightarrow> nat \<Rightarrow> nat \<Rightarrow> nat \<Rightarrow> nat \<Rightarrow> nat \<Rightarrow> nat \<Rightarrow> nat \<Rightarrow> cpu_stat" where
  "cpu_advance c u n s i w q r t = \<lparr>c_user = c_user c + word_of_nat u, c_nice = c_nice c + word_of_nat n,
     c_sys = c_sys c + word_of_nat s, c_idle = c_idle c + word_of_nat i, c_iowait = c_iowait c + word_of_nat w,
     c_irq = c_irq c + word_of_nat q, c_softirq = c_softirq c + word_of_nat r, c_steal = c_steal c + word_of_nat t\<rparr>"

lemma cpu_stat_diff_advance:
  assumes "u + n + s + i + wt + q + r + t < 2 ^ 64"
  shows "cpu_stat_diff prev (cpu_advance prev u n s i wt q r t) =
    (let tot = u + n + s + i + wt + q + r + t in
     if tot = 0 then \<lparr>p_user = 0, p_sys = 0, p_iowait = 0, p_idle = 100\<rparr>
     else \<lparr>p_user = 100 * of_nat (u + n) / of_nat tot, p_sys = 100 * of_nat (s + q + r) / of_nat tot,
        p_iowait = 100 * of_nat wt / of_nat tot, p_idle = 100 * of_nat i / of_nat tot\<rparr>)"
proof -
  define tot where "tot = u + n + s + i + wt + q + r + t"
  have w: "unat (word_of_nat k :: u64) = k" if "k \<le> tot" for k
    using that assms by (simp add: tot_def unat_of_nat take_bit_nat_eq_self)
  have zero: "(word_of_nat tot :: u64) = 0 \<longleftrightarrow> tot = 0" using w [of tot] by (metis order_refl unat_eq_zero of_nat_0)
  let ?c = "cpu_advance prev u n s i wt q r t"
  have d: "c_user ?c - c_user prev + c_nice ?c - c_nice prev = word_of_nat (u + n)"
    "c_sys ?c - c_sys prev + c_irq ?c - c_irq prev + c_softirq ?c - c_softirq prev = word_of_nat (s + q + r)"
    "c_idle ?c - c_idle prev = word_of_nat i" "c_iowait ?c - c_iowait prev = word_of_nat wt"
    "c_steal ?c - c_steal prev = word_of_nat t"
    by (simp_all add: cpu_advance_def)
  have tot: "word_of_nat (u + n) + word_of_nat (s + q + r) + word_of_nat i + word_of_nat wt + word_of_nat t =
      (word_of_nat tot :: u64)" by (simp add: tot_def)
  have "u + n \<le> tot" "s + q + r \<le> tot" "wt \<le> tot" "i \<le> tot" by (simp_all add: tot_def)
  note u = this [THEN w]
  show ?thesis
    unfolding cpu_stat_diff_def d tot Let_def zero tot_def [symmetric] u w [OF order_refl] by simp
qed

lemma shares_sum:
  fixes a b c d e T :: rat
  assumes "T = a + b + c + d + e" and "T \<noteq> 0"
  shows "100 * a / T + 100 * b / T + 100 * c / T + 100 * d / T = 100 - 100 * e / T"
proof -
  have "100 * a / T + 100 * b / T + 100 * c / T + 100 * d / T = 100 * (a + b + c + d) / T"
    by (simp add: add_divide_distrib distrib_left)
  also have "a + b + c + d = T - e" using assms(1) by simp
  also have "100 * (T - e) / T = 100 - 100 * e / T"
    using assms(2) by (simp add: right_diff_distrib diff_divide_distrib)
  finally show ?thesis .
qed

text \<open>
  Processor shares: when every counter grew by some amount since the previous
  sample, wrap-around of the 64-bit counters included, the four percentages are exactly the
  shares of the growths; they are between 0 and 100 and add up to 100 less the stolen share,
  and without any growth the processor is reported idle.
\<close>

theorem cpu_stat_diff_shares:
  fixes u n s i wt q r t :: nat and prev :: cpu_stat
  defines "tot \<equiv> u + n + s + i + wt + q + r + t"
    and "p \<equiv> cpu_stat_diff prev (cpu_advance prev u n s i wt q r t)"
  assumes "tot < 2 ^ 64"
  shows "(tot = 0 \<longrightarrow> p = \<lparr>p_user = 0, p_sys = 0, p_iowait = 0, p_idle = 100\<rparr>) \<and>
    (0 < tot \<longrightarrow> p = \<lparr>p_user = 100 * of_nat (u + n) / of_nat tot, p_sys = 100 * of_nat (s + q + r) / of_nat tot,
        p_iowait = 100 * of_nat wt / of_nat tot, p_idle = 100 * of_nat i / of_nat tot\<rparr> \<and>
      p_user p + p_sys p + p_iowait p + p_idle p = 100 - 100 * of_nat t / of_nat tot) \<and>
    (\<forall>x \<in> {p_user p, p_sys p, p_iowait p, p_idle p}. 0 \<le> x \<and> x \<le> 100)"
proof -
  have p: "p = (if tot = 0 then \<lparr>p_user = 0, p_sys = 0, p_iowait = 0, p_idle = 100\<rparr>
      else \<lparr>p_user = 100 * of_nat (u + n) / of_nat tot, p_sys = 100 * of_nat (s + q + r) / of_nat tot,
        p_iowait = 100 * of_nat wt / of_nat tot, p_idle = 100 * of_nat i / of_nat tot\<rparr>)"
    using cpu_stat_diff_advance [of u n s i wt q r t prev] assms(3) by (simp only: p_def tot_def Let_def)
  have share: "0 \<le> (100 * of_nat k / of_nat tot :: rat) \<and> (100 * of_nat k / of_nat tot :: rat) \<le> 100" if "k \<le> tot" for k
    using that by (cases "tot = 0") (simp_all add: divide_le_eq)
  have "u + n \<le> tot" "s + q + r \<le> tot" "wt \<le> tot" "i \<le> tot" by (simp_all add: tot_def)
  note shares = this [THEN share]
  have "100 * of_nat (u + n) / of_nat tot + 100 * of_nat (s + q + r) / of_nat tot + 100 * of_nat wt / of_nat tot +
      100 * of_nat i / of_nat tot = 100 - 100 * of_nat t / (of_nat tot :: rat)" if "0 < tot"
  proof (rule shares_sum)
    show "(of_nat tot :: rat) = of_nat (u + n) + of_nat (s + q + r) + of_nat wt + of_nat i + of_nat t"
      by (simp add: tot_def)
    show "(of_nat tot :: rat) \<noteq> 0" using that by simp
  qed
  with shares show ?thesis unfolding p by auto
qed

theorem cpu_stat_diff_shares_witness:
  "p_user (cpu_stat_diff (cpu_stat_of [- 1, 7]) (cpu_advance (cpu_stat_of [- 1, 7]) 20 5 0 75 0 0 0 0)) = 25"
  using cpu_stat_diff_shares [of 20 5 0 75 0 0 0 0 "cpu_stat_of [- 1, 7]"] by simp

text \<open>
  A counter that goes back: \<^verbatim>\<open>iowait\<close> can decrease between two reads (the kernel
  documents it as unreliable); a decrease by one tick, with 1000 user ticks in between, makes
  \<^verbatim>\<open>cpu_stat_diff\<close> report more than \<open>10\<close> to the power \<open>18\<close> percent waiting time.
\<close>

theorem iowait_decrease_breaks_shares:
  "p_iowait (cpu_stat_diff (cpu_stat_of [5000, 0, 0, 0, 10]) (cpu_stat_of [6000, 0, 0, 0, 9])) > 10 ^ 18"
  by (simp add: cpu_stat_diff_def cpu_stat_of_def Let_def unsigned_minus_1_eq_mask mask_eq_exp_minus_1 del: of_nat_unat)

lemma mem_used_pct_range: "0 \<le> mem_used_pct mi \<and> mem_used_pct mi \<le> 100"
proof (cases "mi_total_kb mi > 0")
  case True
  let ?u = "if mi_avail_kb mi < mi_total_kb mi then mi_total_kb mi - mi_avail_kb mi else 0"
  have "unat ?u \<le> unat (mi_total_kb mi)" by (simp add: unat_sub less_imp_le)
  moreover have "0 < unat (mi_total_kb mi)" using True by (simp add: unat_gt_0 word_neq_0_conv)
  ultimately show ?thesis using True by (simp add: mem_used_pct_def Let_def divide_le_eq del: of_nat_unat)
qed (simp add: mem_used_pct_def)

section \<open>Reading the network counters\<close>

lemma run_collect_pure: "run_state (collect (\<lambda>x. ret (g x)) xs n) w = (take n (List.map_filter g xs), w)"
proof (induction xs arbitrary: n)
  case (Cons x xs)
  then show ?case by (cases n) (auto simp: List.map_filter_simps split: option.split)
qed (simp add: List.map_filter_simps)

lemma fgets1_line: "chr_nl \<notin> set l \<Longrightarrow> length l < n \<Longrightarrow> fgets1 n (l @ chr_nl # r) = (l @ [chr_nl], r)"
proof (induction l arbitrary: n)
  case Nil
  then show ?case by (cases n) auto
next
  case (Cons c l)
  then show ?case by (cases n) auto
qed

lemma fgets_lines_render:
  assumes "\<And>l. l \<in> set ls \<Longrightarrow> chr_nl \<notin> set l \<and> chr_nul \<notin> set l \<and> length l + 1 < cap"
  shows "fgets_lines cap (render_lines ls) = map (\<lambda>l. l @ [chr_nl]) ls"
  using assms
proof (induction ls)
  case (Cons l ls)
  then have l: "chr_nl \<notin> set l" "chr_nul \<notin> set l" "length l + 1 < cap" by auto
  have "render_lines (l # ls) = l @ chr_nl # render_lines ls" by (simp add: render_lines_def)
  moreover have "fgets1 (cap - 1) (l @ chr_nl # render_lines ls) = (l @ [chr_nl], render_lines ls)"
    using l by (intro fgets1_line) auto
  ultimately have "fgets_lines cap (render_lines (l # ls)) = (l @ [chr_nl]) # fgets_lines cap (render_lines ls)"
    using l by (simp add: fgets_lines.simps [of cap "l @ chr_nl # render_lines ls"])
  with Cons show ?case by simp
qed (simp add: render_lines_def fgets_lines.simps)

text \<open>An interface as the kernel prints it: padding, name, colon, sixteen counters.\<close>

type_synonym iface_text = "nat \<times> string \<times> int list"

definition iface_line :: "iface_text \<Rightarrow> string" where
  "iface_line x = (case x of (k, name, vs) \<Rightarrow> replicate k chr_sp @ name @ CHR '':'' # fields_text vs)"

definition iface_text_ok :: "iface_text \<Rightarrow> bool" where
  "iface_text_ok x = (case x of (k, name, vs) \<Rightarrow>
     name \<noteq> [] \<and> hd name \<noteq> chr_sp \<and> hd name \<noteq> chr_tab \<and> CHR '':'' \<notin> set name \<and> chr_nl \<notin> set name \<and> chr_nul \<notin> set name \<and>
     9 \<le> length vs \<and> list_all (\<lambda>v. 0 \<le> v \<and> v < 2 ^ 64) vs \<and> length (iface_line x) < 511)"

text \<open>What should be recorded of it.\<close>

definition iface_of :: "iface_text \<Rightarrow> iface_stat option" where
  "iface_of x = (case x of (k, name, vs) \<Rightarrow>
     if name = ''lo'' \<or> starts_with name ''dummy'' \<or> (vs ! 0 = 0 \<and> vs ! 8 = 0) then None
     else Some \<lparr>if_name = take 15 name, if_rx_bytes = word_of_int (vs ! 0), if_tx_bytes = word_of_int (vs ! 8)\<rparr>)"

lemma word_of_int_0_iff: "0 \<le> v \<Longrightarrow> v < 2 ^ 64 \<Longrightarrow> (word_of_int v :: u64) = 0 \<longleftrightarrow> v = 0"
  using zdvd_imp_le [of "2 ^ 64" v] by (auto simp: word_of_int_eq_0_iff)

lemma net_line_iface:
  assumes "iface_text_ok x"
  shows "net_line (iface_line x @ [chr_nl]) = iface_of x"
proof -
  obtain k name vs where x: "x = (k, name, vs)" by (cases x)
  note ok = assms [unfolded x iface_text_ok_def prod.case]
  let ?r = "fields_text (drop 9 vs) @ [chr_nl]"
  have "CHR '':'' \<notin> set (replicate k chr_sp @ name)" using ok by auto
  from strchr_append [OF this, of "fields_text vs @ [chr_nl]"]
  have c: "strchr (iface_line x @ [chr_nl]) (CHR '':'') = Some (replicate k chr_sp @ name, fields_text vs @ [chr_nl])"
    by (simp add: x iface_line_def)
  have n: "dropWhile (\<lambda>c. c = chr_sp \<or> c = chr_tab) (replicate k chr_sp @ name) = name"
  proof (induction k)
    case 0
    then show ?case using ok by (cases name) auto
  qed simp
  have "fields_text vs = fields_text (take 9 vs) @ fields_text (drop 9 vs)"
    unfolding fields_text_def by (metis append_take_drop_id concat_append map_append)
  moreover have "scan_us (length (take 9 vs)) (fields_text (take 9 vs) @ ?r) = map word_of_int (take 9 vs)"
  proof (rule scan_us_fields)
    show "\<forall>i \<in> set (take 9 vs). \<bar>i\<bar> < 2 ^ 64" using ok by (auto simp: list_all_iff dest: in_set_takeD)
    show "?r = [] \<or> \<not> isdigit (hd ?r)" by (rule fields_text_head) (simp add: isdigit_def)
  qed
  ultimately have s: "scan_us 9 (fields_text vs @ [chr_nl]) = map word_of_int (take 9 vs)" using ok by simp
  have z: "(word_of_int (vs ! j) :: u64) = 0 \<longleftrightarrow> vs ! j = 0" if "j < 9" for j
    using ok that by (intro word_of_int_0_iff) (auto simp: list_all_length)
  have "length (map (word_of_int :: int \<Rightarrow> u64) (take 9 vs)) = 9" using ok by simp
  then show ?thesis
    using z [of 0] z [of 8]
    unfolding net_line_def c option.case prod.case Let_def n s
    by (auto simp: iface_of_def x IFNAMSIZ_LOCAL_def)
qed

lemma iface_line_ok:
  assumes "iface_text_ok x"
  shows "chr_nl \<notin> set (iface_line x) \<and> chr_nul \<notin> set (iface_line x) \<and> length (iface_line x) + 1 < 512"
proof -
  obtain k name vs where x: "x = (k, name, vs)" by (cases x)
  have "chr_nl \<notin> set (fields_text vs)" by (auto simp: fields_text_def isdigit_def dest!: dec_of_int_chars)
  with assms fields_text_chars(1) [of vs] show ?thesis by (auto simp: x iface_text_ok_def iface_line_def)
qed

lemma map_filter_map: "List.map_filter f (map g xs) = List.map_filter (\<lambda>x. f (g x)) xs"
  by (induction xs) (auto simp: List.map_filter_simps split: option.split)

lemma map_filter_cong: "(\<And>x. x \<in> set xs \<Longrightarrow> f x = g x) \<Longrightarrow> List.map_filter f xs = List.map_filter g xs"
  by (induction xs) (auto simp: List.map_filter_simps split: option.split)

text \<open>
  Reading \<^verbatim>\<open>/proc/net/dev\<close>: of a file with two header lines and one line per
  interface as the kernel prints it, \<^verbatim>\<open>read_net_dev\<close> records exactly the interfaces other
  than \<^verbatim>\<open>lo\<close> and \<^verbatim>\<open>dummy*\<close> that had traffic, in order, at most \<open>mx\<close> of them, each with its
  received and transmitted byte counters.
\<close>

theorem read_net_dev_exact:
  assumes "w_files w ''/proc/net/dev'' = Some (render_lines (h1 # h2 # map iface_line ifs))"
    and "list_all iface_text_ok ifs"
    and "\<forall>h \<in> {h1, h2}. chr_nl \<notin> set h \<and> chr_nul \<notin> set h \<and> length h + 1 < 512"
  shows "run_state (read_net_dev mx) w = (take mx (List.map_filter iface_of ifs), w)"
proof -
  let ?ls = "h1 # h2 # map iface_line ifs"
  have lines: "fgets_lines 512 (render_lines ?ls) = map (\<lambda>l. l @ [chr_nl]) ?ls"
    by (rule fgets_lines_render) (use assms(2,3) iface_line_ok in \<open>auto simp: list_all_iff\<close>)
  have "List.map_filter net_line (map (\<lambda>l. l @ [chr_nl]) (map iface_line ifs)) = List.map_filter iface_of ifs"
    unfolding map_filter_map using assms(2) by (intro map_filter_cong) (simp add: net_line_iface list_all_iff)
  with assms(1) lines show ?thesis
    by (simp add: read_net_dev_def run_collect_pure)
qed

definition net_example :: "iface_text list" where
  "net_example = [(4, ''lo'', [7, 7, 0, 0, 0, 0, 0, 0, 7]), (2, ''eth0'', [100, 1, 0, 0, 0, 0, 0, 0, 200, 2]),
     (1, ''wlan0'', [0, 0, 0, 0, 0, 0, 0, 0, 0])]"

theorem read_net_dev_exact_witness:
  "fst (run_state (read_net_dev 8) (world0 [''/proc/net/dev'' \<mapsto> render_lines (''Inter-'' # '' face'' # map iface_line net_example)]))
   = [\<lparr>if_name = ''eth0'', if_rx_bytes = 100, if_tx_bytes = 200\<rparr>]"
proof -
  have "list_all iface_text_ok net_example"
    by (simp add: net_example_def iface_text_ok_def iface_line_def fields_text_def dec_of_int_def dec_of_nat.simps)
  moreover have "List.map_filter iface_of net_example = [\<lparr>if_name = ''eth0'', if_rx_bytes = 100, if_tx_bytes = 200\<rparr>]"
    by (simp add: net_example_def iface_of_def List.map_filter_simps starts_with_def)
  ultimately show ?thesis
    using read_net_dev_exact [of "world0 [''/proc/net/dev'' \<mapsto> render_lines (''Inter-'' # '' face'' # map iface_line net_example)]"
        "''Inter-''" "'' face''" net_example 8]
    by (simp add: world0_def)
qed

section \<open>Uptime\<close>

lemma c_div_nonneg: "0 \<le> a \<Longrightarrow> 0 < b \<Longrightarrow> c_div a b = a div b \<and> c_rem a b = a mod b"
  by (simp add: c_rem_def c_div_def minus_mult_div_eq_mod)

text \<open>Days, hours, minutes and seconds determine the uptime and are in their ranges.\<close>

lemma format_uptime_fields:
  assumes "dec_trunc up = n" and "0 \<le> n"
  obtains d h m s where "n = 86400 * d + 3600 * h + 60 * m + s" "0 \<le> d" "0 \<le> h" "h < 24" "0 \<le> m" "m < 60" "0 \<le> s" "s < 60"
    "format_uptime up cap = snprintf_s cap (dec_of_int d @ ''d:'' @ pad2 h @ '':'' @ pad2 m @ '':'' @ pad2 s)"
proof -
  define d where "d = n div 86400"
  define a where "a = n mod 86400"
  define h where "h = a div 3600"
  define b where "b = a mod 3600"
  have a: "0 \<le> a" "a < 86400" "n = 86400 * d + a" using assms(2) by (simp_all add: a_def d_def)
  have b: "0 \<le> b" "b < 3600" "a = 3600 * h + b" by (simp_all add: b_def h_def)
  have c1: "c_div n 86400 = d" "c_rem n 86400 = a" using c_div_nonneg [OF assms(2)] by (simp_all add: d_def a_def)
  have c2: "c_div a 3600 = h" "c_rem a 3600 = b" using c_div_nonneg [OF a(1)] by (simp_all add: h_def b_def)
  have c3: "c_div b 60 = b div 60" "c_rem b 60 = b mod 60" using c_div_nonneg [OF b(1)] by simp_all
  have "format_uptime up cap = snprintf_s cap (dec_of_int d @ ''d:'' @ pad2 h @ '':'' @ pad2 (b div 60) @ '':'' @ pad2 (b mod 60))"
    unfolding format_uptime_def assms(1) Let_def c1 c2 c3 ..
  moreover have "n = 86400 * d + 3600 * h + 60 * (b div 60) + b mod 60"
    unfolding a(3) b(3) by simp
  moreover have "0 \<le> d" using assms(2) by (simp add: d_def pos_imp_zdiv_nonneg_iff)
  moreover have "0 \<le> h" using a(1) by (simp add: h_def pos_imp_zdiv_nonneg_iff)
  moreover have "h < 24" using a(2) b(1,3) by linarith
  moreover have "0 \<le> b div 60" "b div 60 < 60" using b(1,2) by (simp_all add: pos_imp_zdiv_nonneg_iff)
  ultimately show thesis by (intro that) simp_all
qed

section \<open>The sampling loop\<close>

text \<open>The file stops growing once the limit is reached, and the counter is what was written.\<close>

lemma sys_stat_step_full:
  "sp_written sp \<ge> STAT_SIZE_CAP \<Longrightarrow> fst (run_state (sys_stat_step os names junk sp) w) = ([], sp)"
  by (simp add: sys_stat_step_def c_sleep_def c_usleep_def)

lemma sys_stat_step_written:
  "sp_written (snd (fst (run_state (sys_stat_step os names junk sp) w))) =
     sp_written sp + word_of_nat (length (fst (fst (run_state (sys_stat_step os names junk sp) w))))"
  by (cases "run_state (take_sample os names junk sp) w")
     (auto simp: sys_stat_step_def c_sleep_def c_usleep_def Let_def split: prod.splits)

lemma collect_length: "length (fst (run_state (collect f xs n) w)) \<le> n"
proof (induction xs arbitrary: n w)
  case (Cons x xs)
  obtain r w1 where 1: "run_state (f x) w = (r, w1)" by fastforce
  show ?case
  proof (cases n)
    case (Suc k)
    then show ?thesis using 1 Cons.IH [of n w1] Cons.IH [of k w1]
      by (cases "run_state (collect f xs k) w1") (auto split: option.split)
  qed simp
qed simp

lemma sample_all_procs_fits: "length (fst (run_state (sample_all_procs names mx) w)) \<le> mx"
  by (simp add: sample_all_procs_def collect_length split: option.split)

text \<open>A start that succeeds has taken its slot and counted its header.\<close>

lemma sys_stat_start_written:
  assumes "run_state (sys_stat_start os names junk epoch) w = (Some sp, w')"
  shows "\<exists>slot w1. run_state (sys_stat_open os) w = (Some slot, w1) \<and> sp_written sp =
    word_of_nat (length (stat_header slot (os_now os (w_env w1)) epoch (clk_tck_of (os_clk_tck os (w_env w1)))))"
  using assms by (auto simp: sys_stat_start_def split: option.splits prod.splits if_splits)

end
