(* ===== verification/Daemon.thy ===== *)
theory Daemon
  imports SlotLog TimeSync IpcServer BleGatt SysStat
begin

text \<open>
  Process start, \<^verbatim>\<open>main.c\<close>: the arguments, the log backend, and the six threads in the order they
  are created.  What each thread does is in the theory of its component; after creating them
  \<^verbatim>\<open>main\<close> only waits.
\<close>

datatype service_thread =
    Time_sync_thread
  | Uart_log_thread
  | Sys_stat_thread
  | Ble_gatt_thread
  | Wifi_switch_thread
  | Unix_ipc_thread

text \<open>The loop over \<^verbatim>\<open>argv[1..]\<close>; \<open>None\<close> is the usage error.\<close>

fun parse_args :: "string list \<Rightarrow> bool \<Rightarrow> bool option" where
  "parse_args [] debug = Some debug"
| "parse_args (a # args) debug = (if a = ''-debug'' then parse_args args True else None)"

definition start_message :: "bool \<Rightarrow> string" where
  "start_message debug = ''system_service starting ('' @ (if debug then ''debug/stderr'' else ''file/rotated'') @
     '' mode) '' @ [CHR 0xE2, CHR 0x80, CHR 0x94] @ '' spawning six worker threads''"

definition start_order :: "service_thread list" where
  "start_order = [Time_sync_thread, Uart_log_thread, Sys_stat_thread, Ble_gatt_thread, Wifi_switch_thread, Unix_ipc_thread]"

text \<open>
  The exit status of a usage error, or the logger the threads find, the line logged before they
  start, and the threads; \<open>ts\<close> is the time of day.
\<close>

definition main_start :: "'e os \<Rightarrow> string \<Rightarrow> string list \<Rightarrow> ('e, int + (logger \<times> string \<times> service_thread list)) io" where
  "main_start os ts args = (case parse_args args False of
     None \<Rightarrow> ret (Inl 1)
   | Some debug \<Rightarrow> do {
       r \<leftarrow> log_init os debug logger_start;
       (let p = log_print ts LOG_LEVEL_I (Some ''main'') (Some (start_message debug)) (snd r)
        in ret (Inr (snd p, fst p, start_order))) })"

lemma parse_args_debug: "parse_args args d = (if set args \<subseteq> {''-debug''} then Some (d \<or> args \<noteq> []) else None)"
  by (induction args arbitrary: d) auto

lemma log_print_out: "g_out (snd (log_print ts l m msg g)) = g_out g"
  by (simp add: log_print_def Let_def)

lemma log_init_ready: "run_state (log_init os debug logger_start) w = (r, w') \<Longrightarrow> g_out (snd r) \<noteq> Out_none"
  by (auto simp: log_init_def logger_start_def Let_def split: if_splits prod.splits)

text \<open>
  The log backend is ready before any thread runs, also when opening the log file failed; and an
  unknown argument ends the process before anything is done.
\<close>

lemma main_start_log_first:
  assumes "run_state (main_start os ts args) w = (r, w')"
  shows "case r of Inl code \<Rightarrow> code = 1 \<and> \<not> set args \<subseteq> {''-debug''} \<and> w' = w
    | Inr (g, line, threads) \<Rightarrow> set args \<subseteq> {''-debug''} \<and> g_out g \<noteq> Out_none \<and> distinct threads \<and> length threads = 6"
proof (cases "parse_args args False")
  case None
  with assms show ?thesis by (auto simp: main_start_def parse_args_debug split: if_splits)
next
  case (Some debug)
  obtain x w1 where x: "run_state (log_init os debug logger_start) w = (x, w1)" by (rule prod.exhaust)
  with assms Some have "r = Inr (let p = log_print ts LOG_LEVEL_I (Some ''main'') (Some (start_message debug)) (snd x)
      in (snd p, fst p, start_order))"
    by (simp add: main_start_def Let_def)
  with log_init_ready [OF x] Some show ?thesis
    by (simp add: Let_def log_print_out start_order_def parse_args_debug split: if_splits)
qed

end
