(* ===== verification/ProvisionSpec.thy ===== *)
theory ProvisionSpec
  imports ProtoDispatch
begin

text \<open>
  What the provisioning service promises, without frames, byte arrays, lengths, references and
  allocation: a session remembers the last accepted SSID and password and the jobs that were
  started and have not finished.  The dispatcher with its workers is shown to refine this
  machine: every state it can reach is, seen through the abstraction, a state of the machine.
\<close>

section \<open>The abstract session\<close>

datatype spec_job = Join string string | Scan

record session =
  ss_ssid :: "u8 list"
  ss_passwd :: "u8 list"
  ss_jobs :: "spec_job list"

definition session_start :: session where
  "session_start = \<lparr>ss_ssid = [], ss_passwd = [], ss_jobs = []\<rparr>"

text \<open>What a request asks for; all other requests only read.\<close>

definition spec_request :: "u8 \<Rightarrow> u8 list \<Rightarrow> session \<Rightarrow> session" where
  "spec_request cid p s =
     (if cid = PROTO_CMDID_SSID \<and> 1 \<le> length p \<and> length p \<le> 32 then s\<lparr>ss_ssid := p\<rparr>
      else if cid = PROTO_CMDID_PASSWD \<and> 1 \<le> length p \<and> length p \<le> 63 then s\<lparr>ss_passwd := p\<rparr>
      else if cid = PROTO_CMDID_CONNECT \<and> ss_ssid s \<noteq> [] then
        s\<lparr>ss_jobs := ss_jobs s @ [Join (text_of (ss_ssid s)) (text_of (ss_passwd s))]\<rparr>
      else if cid = PROTO_CMDID_SCAN_WIFI then s\<lparr>ss_jobs := ss_jobs s @ [Scan]\<rparr>
      else s)"

inductive session_step :: "session \<Rightarrow> session \<Rightarrow> bool" where
  session_request: "session_step s (spec_request cid p s)"
| session_finish: "i < length (ss_jobs s) \<Longrightarrow>
    session_step s (s\<lparr>ss_jobs := take i (ss_jobs s) @ drop (Suc i) (ss_jobs s)\<rparr>)"

inductive session_reachable :: "session \<Rightarrow> bool" where
  session_init: "session_reachable session_start"
| session_more: "session_reachable s \<Longrightarrow> session_step s s' \<Longrightarrow> session_reachable s'"

inductive_cases session_stepE: "session_step s s'"

text \<open>Every job of a session has credentials of the allowed lengths, and so have the pending ones.\<close>

fun spec_job_ok :: "spec_job \<Rightarrow> bool" where
  "spec_job_ok (Join s p) \<longleftrightarrow> length s \<le> 32 \<and> length p \<le> 63"
| "spec_job_ok Scan \<longleftrightarrow> True"

definition session_ok :: "session \<Rightarrow> bool" where
  "session_ok s \<longleftrightarrow> length (ss_ssid s) \<le> 32 \<and> length (ss_passwd s) \<le> 63 \<and> list_all spec_job_ok (ss_jobs s)"

lemma length_text_of: "length (text_of bs) \<le> length bs"
  using length_cstr_le [of "map char_of_byte bs"] by (simp add: text_of_def)

lemma spec_request_ok: "session_ok s \<Longrightarrow> session_ok (spec_request cid p s)"
  using length_text_of [of "ss_ssid s"] length_text_of [of "ss_passwd s"]
  by (auto simp: session_ok_def spec_request_def intro: order_trans)

lemma session_reachable_ok: "session_reachable s \<Longrightarrow> session_ok s"
proof (induction rule: session_reachable.induct)
  case session_init
  then show ?case by (simp add: session_ok_def session_start_def)
next
  case (session_more s s')
  from session_more.hyps(2) show ?case
  proof (rule session_stepE)
    fix i
    assume "s' = s\<lparr>ss_jobs := take i (ss_jobs s) @ drop (Suc i) (ss_jobs s)\<rparr>"
    with session_more.IH show ?thesis
      by (auto simp: session_ok_def list_all_iff dest: in_set_takeD in_set_dropD)
  qed (simp add: session_more.IH spec_request_ok)
qed

section \<open>The abstraction\<close>

fun abs_job :: "'k job \<Rightarrow> spec_job" where
  "abs_job (Connect_job j) = Join (cj_ssid j) (cj_passwd j)"
| "abs_job (Scan_job j) = Scan"

definition abs_session :: "('k, 'w) svc \<Rightarrow> session" where
  "abs_session st = (case pending st of (a, n, b, m) \<Rightarrow>
     \<lparr>ss_ssid = take (unat n) a, ss_passwd = take (unat m) b, ss_jobs = map abs_job (sv_jobs st)\<rparr>)"

lemma jobs_send [simp]:
  "sv_jobs (send_proto_frame s ty sq cs cid p n st) = sv_jobs st"
  "sv_jobs (send_proto_response s sq cs cid e st) = sv_jobs st"
  "sv_jobs (send_proto_response_data s sq cs cid e d m st) = sv_jobs st"
  "sv_jobs (proto_sink_retain s st) = sv_jobs st"
  "sv_jobs (proto_sink_release s st) = sv_jobs st"
  by (simp_all add: send_proto_response_data_def send_proto_response_def send_proto_frame_def proto_sink_send_def
      proto_sink_retain_def proto_sink_release_def sink_call_def split: sum.split option.split)

lemma abs_send [simp]:
  "abs_session (send_proto_frame s ty sq cs cid p n st) = abs_session st"
  "abs_session (send_proto_response s sq cs cid e st) = abs_session st"
  "abs_session (send_proto_response_data s sq cs cid e d m st) = abs_session st"
  "abs_session (proto_sink_retain s st) = abs_session st"
  "abs_session (proto_sink_release s st) = abs_session st"
  "abs_session (st\<lparr>sv_world := w\<rparr>) = abs_session st" "abs_session (st\<lparr>sv_faults := fl\<rparr>) = abs_session st"
  "abs_session (st\<lparr>sv_calls := cs'\<rparr>) = abs_session st"
  by (simp_all add: abs_session_def) (simp_all add: pending_def)

lemma abs_jobs [simp]:
  "abs_session (st\<lparr>sv_jobs := js\<rparr>) = (abs_session st)\<lparr>ss_jobs := map abs_job js\<rparr>"
  by (simp add: abs_session_def pending_def)

lemma abs_pending [simp]:
  "abs_session (st\<lparr>s_pending_ssid := a, s_pending_ssid_len := n\<rparr>) = (abs_session st)\<lparr>ss_ssid := take (unat n) a\<rparr>"
  "abs_session (st\<lparr>s_pending_passwd := a, s_pending_passwd_len := n\<rparr>) = (abs_session st)\<lparr>ss_passwd := take (unat n) a\<rparr>"
  by (simp_all add: abs_session_def pending_def)

section \<open>Requests\<close>

lemma ucast_small: "unat (l :: u16) < 256 \<Longrightarrow> unat (ucast l :: u8) = unat l"
  by (simp add: unsigned_ucast_eq take_bit_nat_eq_self)

lemma abs_handle_ssid:
  assumes "pending_ok (pending st)" "length (frame_bytes f) = unat (pf_msg_len f)"
  shows "abs_session (handle_ssid f sink st) =
    (if 1 \<le> length (frame_bytes f) \<and> length (frame_bytes f) \<le> 32 then (abs_session st)\<lparr>ss_ssid := frame_bytes f\<rparr> else abs_session st)"
proof -
  have "take (length (frame_bytes f)) (store_text (s_pending_ssid st) (frame_bytes f)) = frame_bytes f"
    if "length (frame_bytes f) \<le> 32"
    using assms(1) that by (intro store_text_ok(3) [of _ 32]) (auto simp: pending_ok_def pending_def buffer_ok_def dispatch_consts)
  moreover have "unat (ucast (pf_msg_len f) :: u8) = length (frame_bytes f)" if "length (frame_bytes f) \<le> 32"
    using that assms(2) by (simp add: ucast_small)
  ultimately show ?thesis
    using assms(2) by (auto simp: handle_ssid_def Let_def dispatch_consts unat_eq_zero Suc_le_eq)
qed

lemma abs_handle_passwd:
  assumes "pending_ok (pending st)" "length (frame_bytes f) = unat (pf_msg_len f)"
  shows "abs_session (handle_passwd f sink st) =
    (if 1 \<le> length (frame_bytes f) \<and> length (frame_bytes f) \<le> 63 then (abs_session st)\<lparr>ss_passwd := frame_bytes f\<rparr> else abs_session st)"
proof -
  have "take (length (frame_bytes f)) (store_text (s_pending_passwd st) (frame_bytes f)) = frame_bytes f"
    if "length (frame_bytes f) \<le> 63"
    using assms(1) that by (intro store_text_ok(3) [of _ 63]) (auto simp: pending_ok_def pending_def buffer_ok_def dispatch_consts)
  moreover have "unat (ucast (pf_msg_len f) :: u8) = length (frame_bytes f)" if "length (frame_bytes f) \<le> 63"
    using that assms(2) by (simp add: ucast_small)
  ultimately show ?thesis
    using assms(2) by (auto simp: handle_passwd_def Let_def dispatch_consts unat_eq_zero Suc_le_eq)
qed

lemma pending_ssid_empty: "pending_ok (pending st) \<Longrightarrow> ss_ssid (abs_session st) = [] \<longleftrightarrow> s_pending_ssid_len st = 0"
  by (auto simp: abs_session_def pending_def pending_ok_def buffer_ok_def unat_eq_zero)

lemma abs_trigger_connect:
  assumes "pending_ok (pending st)"
  shows "abs_session (snd (trigger_wifi_connect sq sink st)) = spec_request PROTO_CMDID_CONNECT p (abs_session st) \<or>
    sv_faults st \<noteq> [] \<and> abs_session (snd (trigger_wifi_connect sq sink st)) = abs_session st"
proof (cases "s_pending_ssid_len st = 0")
  case True
  with pending_ssid_empty [OF assms] show ?thesis
    by (simp add: trigger_wifi_connect_def spec_request_def proto_defs)
next
  case False
  have "ss_ssid (abs_session st) = take (unat (s_pending_ssid_len st)) (s_pending_ssid st)"
    "ss_passwd (abs_session st) = take (unat (s_pending_passwd_len st)) (s_pending_passwd st)"
    "ss_jobs (abs_session st) = map abs_job (sv_jobs st)"
    by (simp_all add: abs_session_def pending_def)
  with False pending_ssid_empty [OF assms] show ?thesis
    by (auto simp: trigger_wifi_connect_def spec_request_def proto_defs fault_def Let_def proto_sink_retain_def sink_call_def
        split: list.split option.split prod.split if_split)
qed

lemma abs_trigger_scan:
  "abs_session (snd (trigger_wifi_scan sq sink st)) = spec_request PROTO_CMDID_SCAN_WIFI p (abs_session st) \<or>
   sv_faults st \<noteq> [] \<and> abs_session (snd (trigger_wifi_scan sq sink st)) = abs_session st"
proof -
  have "ss_jobs (abs_session st) = map abs_job (sv_jobs st)" by (simp add: abs_session_def pending_def)
  then show ?thesis
    by (auto simp: trigger_wifi_scan_def spec_request_def proto_defs fault_def Let_def proto_sink_retain_def sink_call_def
        split: list.split option.split prod.split if_split)
qed

definition spec_frame :: "proto_frame \<Rightarrow> session \<Rightarrow> session" where
  "spec_frame f s =
     (if pf_type f = PROTO_TYPE_REQ \<and> pf_command_set f = PROTO_CMDSET_NETWORK
      then spec_request (pf_command_id f) (frame_bytes f) s else s)"

lemma abs_reads [simp]:
  "abs_session (handle_get_wifi_state ops f sink st) = abs_session st"
  "abs_session (handle_get_ap_ssid ops f sink st) = abs_session st"
  "abs_session (handle_get_ap_passwd ops f sink st) = abs_session st"
  "abs_session (handle_switch_to_ap ops f sink st) = abs_session st"
  by (simp_all add: handle_get_wifi_state_def handle_get_ap_ssid_def handle_get_ap_passwd_def handle_switch_to_ap_def Let_def
      split: prod.split)

lemma abs_handle:
  assumes "pending_ok (pending st)" "length (frame_bytes f) = unat (pf_msg_len f)"
  shows "abs_session (handle_proto_frame ops f sink st) = spec_frame f (abs_session st) \<or>
    sv_faults st \<noteq> [] \<and> abs_session (handle_proto_frame ops f sink st) = abs_session st"
proof -
  consider "pf_type f \<noteq> PROTO_TYPE_REQ \<or> pf_command_set f \<noteq> PROTO_CMDSET_NETWORK"
    | (ssid) "pf_type f = PROTO_TYPE_REQ" "pf_command_set f = PROTO_CMDSET_NETWORK" "pf_command_id f = PROTO_CMDID_SSID"
    | (passwd) "pf_type f = PROTO_TYPE_REQ" "pf_command_set f = PROTO_CMDSET_NETWORK" "pf_command_id f = PROTO_CMDID_PASSWD"
    | (connect) "pf_type f = PROTO_TYPE_REQ" "pf_command_set f = PROTO_CMDSET_NETWORK" "pf_command_id f = PROTO_CMDID_CONNECT"
    | (scan) "pf_type f = PROTO_TYPE_REQ" "pf_command_set f = PROTO_CMDSET_NETWORK" "pf_command_id f = PROTO_CMDID_SCAN_WIFI"
    | (other) "pf_type f = PROTO_TYPE_REQ" "pf_command_set f = PROTO_CMDSET_NETWORK"
        "pf_command_id f \<notin> {PROTO_CMDID_SSID, PROTO_CMDID_PASSWD, PROTO_CMDID_CONNECT, PROTO_CMDID_SCAN_WIFI}"
    by blast
  then show ?thesis
  proof cases
    case 1
    then show ?thesis by (auto simp: handle_proto_frame_def spec_frame_def Let_def)
  next
    case ssid
    with abs_handle_ssid [OF assms] show ?thesis
      by (simp add: handle_proto_frame_def spec_frame_def spec_request_def Let_def proto_defs)
  next
    case passwd
    with abs_handle_passwd [OF assms] show ?thesis
      by (simp add: handle_proto_frame_def spec_frame_def spec_request_def Let_def proto_defs)
  next
    case connect
    with abs_trigger_connect [OF assms(1), of "pf_seq f" sink "frame_bytes f"] show ?thesis
      by (simp add: handle_proto_frame_def spec_frame_def Let_def proto_defs reply_trigger_def)
  next
    case scan
    with abs_trigger_scan [of "pf_seq f" sink st "frame_bytes f"] show ?thesis
      by (simp add: handle_proto_frame_def spec_frame_def Let_def proto_defs reply_trigger_def)
  next
    case other
    then have "abs_session (handle_proto_frame ops f sink st) = abs_session st"
      by (auto simp: handle_proto_frame_def Let_def)
    with other show ?thesis by (auto simp: spec_frame_def spec_request_def)
  qed
qed

section \<open>The simulation\<close>

lemma frame_bytes_length: "proto_decode (Some d) True = Inr f \<Longrightarrow> length (frame_bytes f) = unat (pf_msg_len f)"
  using proto_decode_frame [of d True f] by (auto simp: frame_bytes_def)

lemma session_reachable_frame: "session_reachable s \<Longrightarrow> session_reachable (spec_frame f s)"
  by (auto simp: spec_frame_def intro: session_more session_request)

lemma dispatch_refines:
  assumes "session_reachable (abs_session st)" "svc_inv st"
  shows "session_reachable (abs_session (proto_dispatch_buffer (linked_ops bd os) data (Some k) st))"
  using assms
proof (induction "linked_ops bd os" data "Some k" st rule: proto_dispatch_buffer.induct)
  case (1 data st)
  show ?case
  proof (cases "data = [] \<or> (\<nexists>f. proto_decode (Some data) True = Inr f)")
    case True
    with 1 show ?thesis by (subst proto_dispatch_buffer.simps) (auto split: sum.split)
  next
    case False
    then obtain f where f: "data \<noteq> []" "proto_decode (Some data) True = Inr f" by blast
    let ?st = "handle_proto_frame (linked_ops bd os) f (Some k) st"
    from abs_handle [of st f "linked_ops bd os" "Some k"] 1(3) frame_bytes_length [OF f(2)]
    have "session_reachable (abs_session ?st)"
      using 1(2) by (auto simp: svc_inv_def intro: session_reachable_frame)
    moreover have "svc_inv ?st" using linked.handle_inv [OF f(2) 1(3)] .
    ultimately show ?thesis
      using 1(1) [OF f] f by (subst proto_dispatch_buffer.simps) simp
  qed
qed

lemma abs_fold_push [simp]:
  "abs_session (fold (\<lambda>p. send_proto_push s q c i p (word_of_nat (length p))) ps u) = abs_session u"
  by (induction ps arbitrary: u) (simp_all add: send_proto_push_def)

lemma run_job_abs:
  assumes "run_job (linked_ops bd os) j st = Some st'"
  shows "abs_session st' = abs_session st"
proof (cases j)
  case (Connect_job job)
  with assms show ?thesis
    by (auto simp: run_job_def wifi_connect_worker_def send_proto_push_def Let_def split: prod.splits)
next
  case (Scan_job job)
  with assms show ?thesis
    by (auto simp: run_job_def wifi_scan_worker_def send_scan_results_def split: prod.splits)
qed

lemma abs_svc_init: "abs_session (svc_init w) = session_start"
  by (simp add: abs_session_def pending_def svc_init_def session_start_def)

lemma svc_refines: "svc_reachable (linked_ops bd os) st \<Longrightarrow> session_reachable (abs_session st)"
proof (induction rule: svc_reachable.induct)
  case (reach_init fl w)
  then show ?case by (simp add: abs_svc_init session_init)
next
  case (reach_step st st')
  from reach_step.hyps(2) show ?case
  proof (rule svc_stepE)
    fix data k
    assume "st' = proto_dispatch_buffer (linked_ops bd os) data (Some k) st"
    with reach_step.IH linked.reachable_inv [OF reach_step.hyps(1)] show ?thesis by (simp add: dispatch_refines)
  next
    fix i
    let ?st = "st\<lparr>sv_jobs := take i (sv_jobs st) @ drop (Suc i) (sv_jobs st)\<rparr>"
    assume i: "i < length (sv_jobs st)" and "run_job (linked_ops bd os) (sv_jobs st ! i) ?st = Some st'"
    then have "abs_session st' = abs_session ?st" by (simp only: run_job_abs)
    also have "\<dots> = (abs_session st)\<lparr>ss_jobs := take i (ss_jobs (abs_session st)) @ drop (Suc i) (ss_jobs (abs_session st))\<rparr>"
      by (simp add: abs_session_def pending_def take_map drop_map)
    also have "session_step (abs_session st) \<dots>"
      using i by (intro session_finish) (simp add: abs_session_def pending_def)
    finally show ?thesis using reach_step.IH by (rule session_more [rotated])
  qed
qed

text \<open>
  Property C4. The service refines the provisioning session.  Whatever bytes arrive on whatever
  sinks, whatever allocations fail and in whatever order workers finish, every reachable state
  of the service is, through the abstraction, a reachable state of the abstract session, so
  pending credentials and started joins respect the length limits; and without allocation
  failures each decoded frame changes the session exactly as the specification of its command
  says, a frame of another type or command set not at all.
\<close>

theorem service_refines_session:
  assumes "svc_reachable (linked_ops bd os) st"
  shows "session_reachable (abs_session st) \<and> session_ok (abs_session st) \<and>
    (\<forall>d f. proto_decode (Some d) True = Inr f \<and> sv_faults st = [] \<longrightarrow>
       abs_session (handle_proto_frame (linked_ops bd os) f (Some k) st) = spec_frame f (abs_session st))"
proof (intro conjI allI impI)
  show r: "session_reachable (abs_session st)" using svc_refines [OF assms] .
  then show "session_ok (abs_session st)" by (rule session_reachable_ok)
next
  fix d f
  assume "proto_decode (Some d) True = Inr f \<and> sv_faults st = []"
  then show "abs_session (handle_proto_frame (linked_ops bd os) f (Some k) st) = spec_frame f (abs_session st)"
    using abs_handle [of st f "linked_ops bd os" "Some k"] frame_bytes_length [of d f] linked.reachable_inv [OF assms]
    by (auto simp: svc_inv_def)
qed

theorem service_refines_session_witness:
  "ss_ssid (abs_session (proto_dispatch_buffer (linked_ops RK3566 (ok_os (\<lambda>_. []))) (msg_wire (request 1 PROTO_CMDID_SSID [104, 105])) (Some (0 :: nat))
     ((svc_init (world0 (\<lambda>_. None)))\<lparr>sv_faults := []\<rparr>))) = [104, 105]"
proof -
  let ?ops = "linked_ops RK3566 (ok_os (\<lambda>_. []))" and ?m = "request 1 PROTO_CMDID_SSID [104, 105]"
  let ?st = "(svc_init (world0 (\<lambda>_. None)))\<lparr>sv_faults := []\<rparr> :: (nat, unit world) svc"
  have d: "proto_dispatch_buffer ?ops (msg_wire ?m) (Some 0) ?st = handle_proto_frame ?ops (msg_frame ?m) (Some 0) ?st"
    using dispatch_msg [of ?m ?ops "[]" "Some 0" ?st]
    by (simp add: PROTO_PAYLOAD_MAX_def proto_dispatch_buffer.simps [of ?ops "[]"] del: msg_frame.simps msg_wire.simps)
  have "proto_decode (Some (msg_wire ?m @ [])) True = Inr (msg_frame ?m)"
    using proto_decode_wire [of "[104, 105]" PROTO_TYPE_REQ 1 PROTO_CMDSET_NETWORK PROTO_CMDID_SSID "[]"]
    by (simp add: PROTO_PAYLOAD_MAX_def)
  moreover have "sv_faults ?st = []" by simp
  ultimately have "abs_session (handle_proto_frame ?ops (msg_frame ?m) (Some 0) ?st) = spec_frame (msg_frame ?m) (abs_session ?st)"
    using service_refines_session [OF reach_init [of ?ops "[]" "world0 (\<lambda>_. None)"], of 0] by blast
  then show ?thesis unfolding d by (simp add: spec_frame_def spec_request_def frame_bytes_def)
qed

end
