(* ===== verification/RkDb.thy ===== *)
theory RkDb
  imports CStrings
begin

text \<open>
  The database library of the second program of the repository, \<^verbatim>\<open>librkdb/rkdb.c\<close>: SQL statements
  are put together as text, run by \<^verbatim>\<open>sqlite3_exec\<close>, and the rows come back as JSON text.  SQLite
  is the parameter \<open>sq\<close> and json-c the parameter \<open>jl\<close>; what the callers rely on of json-c, that
  parsing printed text gives the value back, is the locale \<open>json_lib\<close>.  A result \<open>None\<close> is a crash:
  a NULL pointer handed to a function that reads it, or a failed assertion.
\<close>

section \<open>JSON values\<close>

text \<open>A NULL \<^verbatim>\<open>json_object\<close> pointer is JSON's null.  A double is kept as its text.\<close>

datatype json =
    J_null
  | J_bool bool
  | J_int int
  | J_double string
  | J_string string
  | J_array "json list"
  | J_object "(string \<times> json) list"

record jsonlib =
  jl_print :: "json \<Rightarrow> string"
  jl_parse :: "string \<Rightarrow> json"
  jl_get_int :: "json \<Rightarrow> int"

definition json_object_object_get :: "json \<Rightarrow> string \<Rightarrow> json" where
  "json_object_object_get j k = (case j of
     J_object kvs \<Rightarrow> (case map_of kvs k of Some v \<Rightarrow> v | None \<Rightarrow> J_null)
   | _ \<Rightarrow> J_null)"

definition json_object_get_string :: "jsonlib \<Rightarrow> json \<Rightarrow> string option" where
  "json_object_get_string jl j = (case j of
     J_null \<Rightarrow> None
   | J_string s \<Rightarrow> Some s
   | _ \<Rightarrow> Some (jl_print jl j))"

text \<open>\<^verbatim>\<open>json_object_object_foreach\<close> reads the table of the object; anything else has none.\<close>

definition json_fields :: "json \<Rightarrow> (string \<times> json) list option" where
  "json_fields j = (case j of J_object kvs \<Rightarrow> Some kvs | _ \<Rightarrow> None)"

text \<open>\<^verbatim>\<open>json_object_object_add\<close>: an existing key gets the new value, a new one goes to the end.\<close>

definition json_add :: "string \<Rightarrow> json \<Rightarrow> (string \<times> json) list \<Rightarrow> (string \<times> json) list" where
  "json_add k v kvs = (if k \<in> fst ` set kvs then map (\<lambda>(k', v'). (k', if k' = k then v else v')) kvs else kvs @ [(k, v)])"

text \<open>\<^verbatim>\<open>%s\<close> in \<^verbatim>\<open>g_strdup_printf\<close>; the C library prints a NULL pointer as below.\<close>

definition fmt_s :: "string option \<Rightarrow> string" where
  "fmt_s p = (case p of None \<Rightarrow> ''(null)'' | Some s \<Rightarrow> cstr s)"

section \<open>Running statements\<close>

text \<open>A row is its column names and values, a value NULL being \<open>None\<close>.\<close>

type_synonym row = "(string \<times> string option) list"

record sql_result =
  sr_rc :: int
  sr_errmsg :: "string option"
  sr_rows :: "row list"

record 'd sqlite =
  sq_exec :: "string \<Rightarrow> 'd \<Rightarrow> sql_result \<times> 'd"
  sq_open :: "string \<Rightarrow> 'd \<Rightarrow> int"

text \<open>The state of the process: the database, the statements run, and the signals sent.\<close>

record 'd dbs =
  db_state :: 'd
  db_ran :: "string list"
  db_signals :: "(string \<times> string) list"

definition callback_cell :: "string \<times> string option \<Rightarrow> (string \<times> json) list \<Rightarrow> (string \<times> json) list option" where
  "callback_cell c j_cfg = (case c of (name, val) \<Rightarrow>
     if take 1 name = ''i'' then
       (case val of None \<Rightarrow> None | Some v \<Rightarrow> Some (json_add name (J_int (atoi v)) j_cfg))
     else Some (json_add name (J_string (case val of Some v \<Rightarrow> v | None \<Rightarrow> [])) j_cfg))"

primrec callback_cells :: "row \<Rightarrow> (string \<times> json) list \<Rightarrow> (string \<times> json) list option" where
  "callback_cells [] j_cfg = Some j_cfg"
| "callback_cells (c # cs) j_cfg = Option.bind (callback_cell c j_cfg) (callback_cells cs)"

definition callback_row :: "row \<Rightarrow> json option" where
  "callback_row r = map_option J_object (callback_cells r [])"

primrec callback_rows :: "row list \<Rightarrow> json list option" where
  "callback_rows [] = Some []"
| "callback_rows (r # rs) = Option.bind (callback_row r) (\<lambda>j. map_option ((#) j) (callback_rows rs))"

definition reply_json :: "int \<Rightarrow> string \<Rightarrow> json list \<Rightarrow> json" where
  "reply_json rc msg rows = J_object [(''iReturn'', J_int rc), (''sErrMsg'', J_string msg), (''jData'', J_array rows)]"

definition rkdb_sql :: "jsonlib \<Rightarrow> 'd sqlite \<Rightarrow> string \<Rightarrow> 'd dbs \<Rightarrow> (string \<times> 'd dbs) option" where
  "rkdb_sql jl sq sql s = (case sq_exec sq sql (db_state s) of (r, d) \<Rightarrow>
     Option.bind (callback_rows (sr_rows r)) (\<lambda>j_array.
       Option.bind (if sr_rc r \<noteq> 0 then sr_errmsg r else Some []) (\<lambda>msg.
         Some (jl_print jl (reply_json (sr_rc r) msg j_array), s\<lparr>db_state := d, db_ran := db_ran s @ [sql]\<rparr>))))"

definition drop_sql :: "string option \<Rightarrow> string" where
  "drop_sql table = ''DROP TABLE '' @ fmt_s table @ '';''"

definition create_sql :: "string option \<Rightarrow> string option \<Rightarrow> string" where
  "create_sql table col_para = ''CREATE TABLE '' @ fmt_s table @ ''('' @ fmt_s col_para @ '');''"

definition insert_sql :: "string option \<Rightarrow> string option \<Rightarrow> string option \<Rightarrow> string" where
  "insert_sql table cols vals = ''INSERT INTO '' @ fmt_s table @ '' ('' @ fmt_s cols @ '') VALUES ('' @ fmt_s vals @ '');''"

definition update_sql :: "string option \<Rightarrow> string option \<Rightarrow> string option \<Rightarrow> string" where
  "update_sql table sets whr = ''UPDATE '' @ fmt_s table @ '' SET '' @ fmt_s sets @ '' WHERE '' @ fmt_s whr @ '';''"

definition delete_sql :: "string option \<Rightarrow> string option \<Rightarrow> string" where
  "delete_sql table whr = (case whr of
     Some w \<Rightarrow> ''DELETE from '' @ fmt_s table @ '' WHERE '' @ cstr w @ '';''
   | None \<Rightarrow> ''DELETE from '' @ fmt_s table @ '';'')"

definition select_sql :: "string option \<Rightarrow> string option \<Rightarrow> string option \<Rightarrow> string option \<Rightarrow> string option \<Rightarrow> string" where
  "select_sql table colname whr order limit =
     (let sql = (case colname of Some c \<Rightarrow> ''SELECT '' @ cstr c @ '' from '' @ fmt_s table | None \<Rightarrow> ''SELECT * from '' @ fmt_s table);
          sql = (case whr of Some w \<Rightarrow> sql @ '' WHERE '' @ cstr w | None \<Rightarrow> sql);
          sql = (case order of Some o' \<Rightarrow> sql @ '' ORDER BY '' @ cstr o' | None \<Rightarrow> sql)
      in (case limit of Some l \<Rightarrow> sql @ '' LIMIT '' @ cstr l | None \<Rightarrow> sql))"

definition rkdb_drop :: "jsonlib \<Rightarrow> 'd sqlite \<Rightarrow> string option \<Rightarrow> 'd dbs \<Rightarrow> (string \<times> 'd dbs) option" where
  "rkdb_drop jl sq table = rkdb_sql jl sq (drop_sql table)"

definition rkdb_create :: "jsonlib \<Rightarrow> 'd sqlite \<Rightarrow> string option \<Rightarrow> string option \<Rightarrow> 'd dbs \<Rightarrow> (string \<times> 'd dbs) option" where
  "rkdb_create jl sq table col_para = rkdb_sql jl sq (create_sql table col_para)"

definition rkdb_insert ::
  "jsonlib \<Rightarrow> 'd sqlite \<Rightarrow> string option \<Rightarrow> string option \<Rightarrow> string option \<Rightarrow> 'd dbs \<Rightarrow> (string \<times> 'd dbs) option" where
  "rkdb_insert jl sq table cols vals = rkdb_sql jl sq (insert_sql table cols vals)"

definition rkdb_update ::
  "jsonlib \<Rightarrow> 'd sqlite \<Rightarrow> string option \<Rightarrow> string option \<Rightarrow> string option \<Rightarrow> 'd dbs \<Rightarrow> (string \<times> 'd dbs) option" where
  "rkdb_update jl sq table sets whr = rkdb_sql jl sq (update_sql table sets whr)"

definition rkdb_delete :: "jsonlib \<Rightarrow> 'd sqlite \<Rightarrow> string option \<Rightarrow> string option \<Rightarrow> 'd dbs \<Rightarrow> (string \<times> 'd dbs) option" where
  "rkdb_delete jl sq table whr = rkdb_sql jl sq (delete_sql table whr)"

definition rkdb_select ::
  "jsonlib \<Rightarrow> 'd sqlite \<Rightarrow> string option \<Rightarrow> string option \<Rightarrow> string option \<Rightarrow> string option \<Rightarrow> string option \<Rightarrow> 'd dbs \<Rightarrow>
   (string \<times> 'd dbs) option" where
  "rkdb_select jl sq table colname whr order limit = rkdb_sql jl sq (select_sql table colname whr order limit)"

text \<open>\<^verbatim>\<open>rkdb_init\<close>: the assertion ends the process when the file cannot be opened.\<close>

definition rkdb_init :: "'d sqlite \<Rightarrow> string \<Rightarrow> 'd dbs \<Rightarrow> 'd dbs option" where
  "rkdb_init sq file s = (if sq_open sq file (db_state s) \<noteq> 0 then None else Some s)"

text \<open>A NULL in a column whose name starts with \<^verbatim>\<open>i\<close> crashes the callback, whatever else the row has.\<close>

lemma null_integer_crashes:
  "(name, None) \<in> set r \<Longrightarrow> take 1 name = ''i'' \<Longrightarrow> callback_row r = None"
proof -
  assume "(name, None) \<in> set r" "take 1 name = ''i''"
  then have "callback_cells r kvs = None" for kvs
    by (induction r arbitrary: kvs) (auto simp: callback_cell_def split: bind_split)
  then show ?thesis by (simp add: callback_row_def)
qed

end
