(* ===== verification/DbServer.thy ===== *)
theory DbServer
  imports RkDb "HOL-Library.Countable"
begin

text \<open>
  The database service, \<^verbatim>\<open>dbserver/common.c\<close>: the commands that arrive as JSON over D-Bus, how
  they become SQL, the change signal, and the version check of the tables at start.
\<close>

section \<open>Clauses\<close>

text \<open>A value in a statement: integers as digits, everything else as its text between quotes.\<close>

definition is_json_int :: "json \<Rightarrow> bool" where
  "is_json_int v = (case v of J_int _ \<Rightarrow> True | _ \<Rightarrow> False)"

definition value_text :: "jsonlib \<Rightarrow> json \<Rightarrow> string" where
  "value_text jl v =
     (if is_json_int v then dec_of_int (jl_get_int jl v)
      else [chr_sq] @ fmt_s (json_object_get_string jl v) @ [chr_sq])"

text \<open>The loops over the fields: \<open>sep\<close> joins what is there to the next piece.\<close>

definition joined :: "string \<Rightarrow> string option \<Rightarrow> string \<Rightarrow> string option" where
  "joined sep acc piece = Some (case acc of None \<Rightarrow> piece | Some a \<Rightarrow> a @ sep @ piece)"

definition assign_text :: "jsonlib \<Rightarrow> string \<times> json \<Rightarrow> string" where
  "assign_text jl kv = fst kv @ ''='' @ value_text jl (snd kv)"

definition where_text :: "jsonlib \<Rightarrow> (string \<times> json) list \<Rightarrow> string option" where
  "where_text jl kvs = foldl (\<lambda>acc kv. joined '' and '' acc (assign_text jl kv)) None kvs"

definition set_text :: "jsonlib \<Rightarrow> (string \<times> json) list \<Rightarrow> string option" where
  "set_text jl kvs = foldl (\<lambda>acc kv. joined '','' acc (assign_text jl kv)) None kvs"

definition cols_text :: "(string \<times> json) list \<Rightarrow> string option" where
  "cols_text kvs = foldl (\<lambda>acc kv. joined '','' acc (fst kv)) None kvs"

definition vals_text :: "jsonlib \<Rightarrow> (string \<times> json) list \<Rightarrow> string option" where
  "vals_text jl kvs = foldl (\<lambda>acc kv. joined '','' acc (value_text jl (snd kv))) None kvs"

section \<open>Commands\<close>

definition table_of :: "jsonlib \<Rightarrow> json \<Rightarrow> string option" where
  "table_of jl j_cfg = json_object_get_string jl (json_object_object_get j_cfg ''table'')"

definition cmd_delete :: "jsonlib \<Rightarrow> 'd sqlite \<Rightarrow> json \<Rightarrow> 'd dbs \<Rightarrow> (string \<times> 'd dbs) option" where
  "cmd_delete jl sq j_cfg s = do {
     key \<leftarrow> json_fields (json_object_object_get j_cfg ''key'');
     rkdb_delete jl sq (table_of jl j_cfg) (where_text jl key) s }"

definition cmd_drop :: "jsonlib \<Rightarrow> 'd sqlite \<Rightarrow> json \<Rightarrow> 'd dbs \<Rightarrow> (string \<times> 'd dbs) option" where
  "cmd_drop jl sq j_cfg s = rkdb_drop jl sq (table_of jl j_cfg) s"

definition cmd_create :: "jsonlib \<Rightarrow> 'd sqlite \<Rightarrow> json \<Rightarrow> 'd dbs \<Rightarrow> (string \<times> 'd dbs) option" where
  "cmd_create jl sq j_cfg s =
     rkdb_create jl sq (table_of jl j_cfg) (json_object_get_string jl (json_object_object_get j_cfg ''col'')) s"

definition cmd_select :: "jsonlib \<Rightarrow> 'd sqlite \<Rightarrow> json \<Rightarrow> 'd dbs \<Rightarrow> (string \<times> 'd dbs) option" where
  "cmd_select jl sq j_cfg s = do {
     key \<leftarrow> json_fields (json_object_object_get j_cfg ''key'');
     rkdb_select jl sq (table_of jl j_cfg) (json_object_get_string jl (json_object_object_get j_cfg ''data''))
       (where_text jl key) None None s }"

definition cmd_insert :: "jsonlib \<Rightarrow> 'd sqlite \<Rightarrow> json \<Rightarrow> 'd dbs \<Rightarrow> (string \<times> 'd dbs) option" where
  "cmd_insert jl sq j_cfg s = do {
     key \<leftarrow> json_fields (json_object_object_get j_cfg ''key'');
     data \<leftarrow> json_fields (json_object_object_get j_cfg ''data'');
     rkdb_insert jl sq (table_of jl j_cfg) (cols_text (key @ data)) (vals_text jl (key @ data)) s }"

text \<open>\<^verbatim>\<open>json_object_array_length\<close> asserts that it is given an array.\<close>

definition json_array_length :: "json \<Rightarrow> nat option" where
  "json_array_length j = (case j of J_array xs \<Rightarrow> Some (length xs) | _ \<Rightarrow> None)"

text \<open>Insert or update: the row with the key is looked up first.\<close>

definition cmd_update :: "jsonlib \<Rightarrow> 'd sqlite \<Rightarrow> json \<Rightarrow> 'd dbs \<Rightarrow> (string \<times> 'd dbs) option" where
  "cmd_update jl sq j_cfg s = do {
     key \<leftarrow> json_fields (json_object_object_get j_cfg ''key'');
     data \<leftarrow> json_fields (json_object_object_get j_cfg ''data'');
     (j_str, s1) \<leftarrow> rkdb_select jl sq (table_of jl j_cfg) (Some ''*'') (where_text jl key) None (Some ''0,1'') s;
     num \<leftarrow> json_array_length (json_object_object_get (jl_parse jl j_str) ''jData'');
     if num = 0
     then rkdb_insert jl sq (table_of jl j_cfg) (cols_text (key @ data)) (vals_text jl (key @ data)) s1
     else rkdb_update jl sq (table_of jl j_cfg) (set_text jl data) (where_text jl key) s1 }"

definition signal_datachanged :: "string option \<Rightarrow> string \<Rightarrow> 'd dbs \<Rightarrow> 'd dbs" where
  "signal_datachanged interface json_str s = (case interface of
     None \<Rightarrow> s
   | Some i \<Rightarrow> s\<lparr>db_signals := db_signals s @ [(i, json_str)]\<rparr>)"

text \<open>
  A command and whether it changes data.  Comparing the NULL pointer of a missing command is a
  crash; so is putting the NULL reply of an unknown command into the message.
\<close>

definition run_cmd :: "jsonlib \<Rightarrow> 'd sqlite \<Rightarrow> json \<Rightarrow> 'd dbs \<Rightarrow> ((string \<times> bool) \<times> 'd dbs) option" where
  "run_cmd jl sq j_cfg s = do {
     cmd \<leftarrow> json_object_get_string jl (json_object_object_get j_cfg ''cmd'');
     (let flag = (\<lambda>b. map_option (\<lambda>(str, s'). ((str, b), s'))); cmd = cstr cmd in
      if cmd = ''Drop'' then flag True (cmd_drop jl sq j_cfg s)
      else if cmd = ''Create'' then flag False (cmd_create jl sq j_cfg s)
      else if cmd = ''Select'' then flag False (cmd_select jl sq j_cfg s)
      else if cmd = ''Delete'' then flag True (cmd_delete jl sq j_cfg s)
      else if cmd = ''Insert'' then flag True (cmd_insert jl sq j_cfg s)
      else if cmd = ''Update'' then flag True (cmd_update jl sq j_cfg s)
      else None) }"

definition method_cmd :: "jsonlib \<Rightarrow> 'd sqlite \<Rightarrow> string option \<Rightarrow> string \<Rightarrow> 'd dbs \<Rightarrow> (string \<times> 'd dbs) option" where
  "method_cmd jl sq data json_str s = do {
     ((str, need_signal), s1) \<leftarrow> run_cmd jl sq (jl_parse jl json_str) s;
     Some (str,
       if need_signal \<and> jl_get_int jl (json_object_object_get (jl_parse jl str) ''iReturn'') = 0
       then signal_datachanged data json_str s1 else s1) }"

definition method_sql :: "jsonlib \<Rightarrow> 'd sqlite \<Rightarrow> string \<Rightarrow> 'd dbs \<Rightarrow> (string \<times> 'd dbs) option" where
  "method_sql jl sq sql s = rkdb_sql jl sq sql s"

section \<open>Versions\<close>

definition creat_version_table :: "jsonlib \<Rightarrow> 'd sqlite \<Rightarrow> string \<Rightarrow> string \<Rightarrow> 'd dbs \<Rightarrow> 'd dbs option" where
  "creat_version_table jl sq table version s = do {
     (_, s1) \<leftarrow> rkdb_create jl sq (Some table) (Some ''id INTEGER PRIMARY KEY,sVersion TEXT NOT NULL'') s;
     (_, s2) \<leftarrow> rkdb_insert jl sq (Some table) (Some ''id,sVersion'') (Some (''0,'' @ [chr_sq] @ version @ [chr_sq])) s1;
     Some s2 }"

definition equal_version :: "jsonlib \<Rightarrow> 'd sqlite \<Rightarrow> string \<Rightarrow> string \<Rightarrow> 'd dbs \<Rightarrow> (bool \<times> 'd dbs) option" where
  "equal_version jl sq table version s = do {
     (j_str, s1) \<leftarrow> rkdb_select jl sq (Some table) (Some ''sVersion'') (Some ''id=0'') None None s;
     (case json_object_object_get (jl_parse jl j_str) ''jData'' of
        J_array [] \<Rightarrow> Some (False, s1)
      | J_array (j_obj # _) \<Rightarrow> do {
          ver \<leftarrow> json_object_get_string jl (json_object_object_get j_obj ''sVersion'');
          Some (cstr ver = version, s1) }
      | _ \<Rightarrow> None) }"

text \<open>The statements of an initialisation after its version table; their replies are not looked at.\<close>

datatype db_step = Drop string | Create string string | Insert string string string

definition step_sql :: "db_step \<Rightarrow> string" where
  "step_sql st = (case st of
     Drop t \<Rightarrow> drop_sql (Some t)
   | Create t cols \<Rightarrow> create_sql (Some t) (Some cols)
   | Insert t cols vals \<Rightarrow> insert_sql (Some t) (Some cols) (Some vals))"

primrec run_steps :: "jsonlib \<Rightarrow> 'd sqlite \<Rightarrow> db_step list \<Rightarrow> 'd dbs \<Rightarrow> 'd dbs option" where
  "run_steps jl sq [] s = Some s"
| "run_steps jl sq (st # sts) s = do { (_, s1) \<leftarrow> rkdb_sql jl sq (step_sql st) s; run_steps jl sq sts s1 }"

text \<open>The common shape of \<^verbatim>\<open>network_init\<close>, \<^verbatim>\<open>storage_init\<close> and the others.\<close>

definition component_init ::
  "jsonlib \<Rightarrow> 'd sqlite \<Rightarrow> string \<Rightarrow> string \<Rightarrow> db_step list \<Rightarrow> db_step list \<Rightarrow> 'd dbs \<Rightarrow> 'd dbs option" where
  "component_init jl sq vtable version drops tables s = do {
     (same, s1) \<leftarrow> equal_version jl sq vtable version s;
     if same then Some s1
     else do {
       s2 \<leftarrow> run_steps jl sq drops s1;
       s3 \<leftarrow> creat_version_table jl sq vtable version s2;
       run_steps jl sq tables s3 } }"

section \<open>What the code relies on\<close>

text \<open>
  json-c gives back what it printed, for the replies of \<^verbatim>\<open>rkdb_sql\<close>: flat objects with integers
  that fit 32 bits and strings.
\<close>

definition int32_ok :: "int \<Rightarrow> bool" where
  "int32_ok i \<longleftrightarrow> - (2 ^ 31) \<le> i \<and> i < 2 ^ 31"

definition flat_cell :: "json \<Rightarrow> bool" where
  "flat_cell v = (case v of J_int i \<Rightarrow> int32_ok i | J_string _ \<Rightarrow> True | _ \<Rightarrow> False)"

definition flat_row :: "json \<Rightarrow> bool" where
  "flat_row j = (case j of J_object kvs \<Rightarrow> distinct (map fst kvs) \<and> list_all (\<lambda>kv. flat_cell (snd kv)) kvs | _ \<Rightarrow> False)"

definition json_ok :: "jsonlib \<Rightarrow> bool" where
  "json_ok jl \<longleftrightarrow>
     (\<forall>rc msg rows. int32_ok rc \<longrightarrow> list_all flat_row rows \<longrightarrow>
        jl_parse jl (jl_print jl (reply_json rc msg rows)) = reply_json rc msg rows) \<and>
     (\<forall>i. int32_ok i \<longrightarrow> jl_get_int jl (J_int i) = i)"

text \<open>
  SQLite's return code is an \<^verbatim>\<open>int\<close>, and an error comes with a message.  Nothing is assumed of the rows:
  a row is \<open>row_ok\<close> when it has no NULL in a column whose name starts with \<^verbatim>\<open>i\<close>, which the callback
  converts with \<^verbatim>\<open>atoi\<close>.
\<close>

definition row_ok :: "row \<Rightarrow> bool" where
  "row_ok r = list_all (\<lambda>(name, val). take 1 name = ''i'' \<longrightarrow> val \<noteq> None) r"

abbreviation rows_ok :: "sql_result \<Rightarrow> bool" where
  "rows_ok r \<equiv> list_all row_ok (sr_rows r)"

definition code_ok :: "sql_result \<Rightarrow> bool" where
  "code_ok r \<longleftrightarrow> int32_ok (sr_rc r) \<and> (sr_rc r \<noteq> 0 \<longrightarrow> sr_errmsg r \<noteq> None)"

definition sane_result :: "sql_result \<Rightarrow> bool" where
  "sane_result r \<longleftrightarrow> int32_ok (sr_rc r) \<and> (sr_rc r \<noteq> 0 \<longrightarrow> sr_errmsg r \<noteq> None) \<and> rows_ok r"

lemma sane_result_iff: "sane_result r \<longleftrightarrow> code_ok r \<and> rows_ok r"
  by (auto simp: sane_result_def code_ok_def)

definition sql_laws :: "'d sqlite \<Rightarrow> bool" where
  "sql_laws sq \<longleftrightarrow> (\<forall>sql d. code_ok (fst (sq_exec sq sql d)))"

text \<open>A statement that gives no rows, as the creation of a table or an insertion.\<close>

definition no_rows :: "'d sqlite \<Rightarrow> string \<Rightarrow> bool" where
  "no_rows sq sql \<longleftrightarrow> (\<forall>d. sr_rows (fst (sq_exec sq sql d)) = [])"

section \<open>Rows\<close>

lemma atoi_int32: "int32_ok (atoi s)"
  using sint_ge [of "word_of_int (strtol10 s) :: u32"] sint_lt [of "word_of_int (strtol10 s) :: u32"]
  by (simp add: atoi_def to_int32_def int32_ok_def)

lemma json_add_fst: "map fst (json_add k v kvs) = (if k \<in> fst ` set kvs then map fst kvs else map fst kvs @ [k])"
  by (auto simp: json_add_def case_prod_unfold comp_def)

lemma json_add_flat:
  "flat_row (J_object kvs) \<Longrightarrow> flat_cell v \<Longrightarrow> flat_row (J_object (json_add k v kvs))"
  using json_add_fst [of k v kvs]
  by (auto simp: flat_row_def json_add_def list_all_iff split: if_splits)

lemma callback_cell_ok:
  "(take 1 (fst c) = ''i'' \<longrightarrow> snd c \<noteq> None) \<Longrightarrow> flat_row (J_object kvs) \<Longrightarrow>
   \<exists>kvs'. callback_cell c kvs = Some kvs' \<and> flat_row (J_object kvs')"
  by (cases c) (auto simp: callback_cell_def intro!: json_add_flat, auto simp: flat_cell_def atoi_int32)

lemma callback_cells_ok:
  "row_ok r \<Longrightarrow> flat_row (J_object kvs) \<Longrightarrow> \<exists>kvs'. callback_cells r kvs = Some kvs' \<and> flat_row (J_object kvs')"
proof (induction r arbitrary: kvs)
  case (Cons c r)
  then obtain kvs1 where "callback_cell c kvs = Some kvs1" "flat_row (J_object kvs1)"
    using callback_cell_ok [of c kvs] by (auto simp: row_ok_def case_prod_unfold)
  with Cons.IH [of kvs1] Cons.prems(1) show ?case by (auto simp: row_ok_def)
qed simp

lemma callback_rows_ok:
  "list_all row_ok rs \<Longrightarrow> \<exists>js. callback_rows rs = Some js \<and> length js = length rs \<and> list_all flat_row js"
proof (induction rs)
  case (Cons r rs)
  then obtain js where "callback_rows rs = Some js" "length js = length rs" "list_all flat_row js" by auto
  moreover from callback_cells_ok [of r "[]"] Cons.prems obtain kvs where
    "callback_cells r [] = Some kvs" "flat_row (J_object kvs)" by (auto simp: flat_row_def)
  ultimately show ?case by (auto simp: callback_row_def)
qed simp

lemma row_ok_iff: "row_ok r \<longleftrightarrow> \<not> (\<exists>name. (name, None) \<in> set r \<and> take 1 name = ''i'')"
proof -
  have "row_ok r \<longleftrightarrow> (\<forall>name val. (name, val) \<in> set r \<longrightarrow> take 1 name = ''i'' \<longrightarrow> val \<noteq> None)"
    unfolding row_ok_def list_all_iff by blast
  then show ?thesis by (metis not_None_eq)
qed

lemma callback_rows_crash: "\<not> list_all row_ok rs \<Longrightarrow> callback_rows rs = None"
proof (induction rs)
  case (Cons r rs)
  show ?case
  proof (cases "row_ok r")
    case True
    with Cons show ?thesis by (simp split: bind_split)
  next
    case False
    then obtain name where "(name, None) \<in> set r" "take 1 name = ''i''"
      by (auto simp: row_ok_iff)
    with null_integer_crashes have "callback_row r = None" by blast
    then show ?thesis by simp
  qed
qed simp

text \<open>What a statement does when the database behaves.\<close>

definition ran :: "string \<Rightarrow> 'd sqlite \<Rightarrow> 'd dbs \<Rightarrow> 'd dbs" where
  "ran sql sq s = s\<lparr>db_state := snd (sq_exec sq sql (db_state s)), db_ran := db_ran s @ [sql]\<rparr>"

abbreviation result :: "string \<Rightarrow> 'd sqlite \<Rightarrow> 'd dbs \<Rightarrow> sql_result" where
  "result sql sq s \<equiv> fst (sq_exec sq sql (db_state s))"

lemma ran_sel [simp]: "db_ran (ran sql sq s) = db_ran s @ [sql]" "db_signals (ran sql sq s) = db_signals s"
  by (simp_all add: ran_def)

definition the_rows :: "sql_result \<Rightarrow> json list" where
  "the_rows r = (case callback_rows (sr_rows r) of Some js \<Rightarrow> js | None \<Rightarrow> [])"

definition the_reply :: "sql_result \<Rightarrow> json" where
  "the_reply r = reply_json (sr_rc r) (if sr_rc r \<noteq> 0 then the (sr_errmsg r) else []) (the_rows r)"

lemma the_rows_ok: "sane_result r \<Longrightarrow> callback_rows (sr_rows r) = Some (the_rows r)"
  "sane_result r \<Longrightarrow> list_all flat_row (the_rows r)" "sane_result r \<Longrightarrow> length (the_rows r) = length (sr_rows r)"
  using callback_rows_ok [of "sr_rows r"] by (auto simp: sane_result_def the_rows_def)

lemma rkdb_sql_at:
  assumes "sane_result (result sql sq s)"
  shows "rkdb_sql jl sq sql s = Some (jl_print jl (the_reply (result sql sq s)), ran sql sq s)"
proof -
  obtain r d where r: "sq_exec sq sql (db_state s) = (r, d)" by (rule prod.exhaust)
  with assms have "sane_result r" by simp
  with the_rows_ok(1) [OF this] r show ?thesis
    by (auto simp: rkdb_sql_def the_reply_def ran_def sane_result_def)
qed

lemma rkdb_sql_crash:
  assumes "\<not> rows_ok (result sql sq s)"
  shows "rkdb_sql jl sq sql s = None"
  using callback_rows_crash [OF assms] by (simp add: rkdb_sql_def case_prod_unfold)

lemma no_rows_sane: "sql_laws sq \<Longrightarrow> no_rows sq sql \<Longrightarrow> sane_result (result sql sq s)"
  by (simp add: sane_result_iff sql_laws_def no_rows_def)

lemma reply_get [simp]:
  "json_object_object_get (the_reply r) ''iReturn'' = J_int (sr_rc r)"
  "json_object_object_get (the_reply r) ''jData'' = J_array (the_rows r)"
  by (simp_all add: the_reply_def reply_json_def json_object_object_get_def)

lemma parse_the_reply: "json_ok jl \<Longrightarrow> sane_result r \<Longrightarrow> jl_parse jl (jl_print jl (the_reply r)) = the_reply r"
  using the_rows_ok(2) [of r] unfolding json_ok_def the_reply_def sane_result_def by blast

lemma reply_code:
  "json_ok jl \<Longrightarrow> sane_result r \<Longrightarrow>
   jl_get_int jl (json_object_object_get (jl_parse jl (jl_print jl (the_reply r))) ''iReturn'') = sr_rc r"
  by (simp add: parse_the_reply) (simp add: sane_result_def json_ok_def)

section \<open>What a command does\<close>

text \<open>The one statement of every command but \<^verbatim>\<open>Update\<close>.\<close>

definition command_sql :: "jsonlib \<Rightarrow> string \<Rightarrow> string option \<Rightarrow> (string \<times> json) list \<Rightarrow> json \<Rightarrow> json \<Rightarrow> string" where
  "command_sql jl cmd table key data col =
     (let dat = (case json_fields data of Some d \<Rightarrow> d | None \<Rightarrow> []) in
      if cmd = ''Drop'' then drop_sql table
      else if cmd = ''Create'' then create_sql table (json_object_get_string jl col)
      else if cmd = ''Select'' then select_sql table (json_object_get_string jl data) (where_text jl key) None None
      else if cmd = ''Delete'' then delete_sql table (where_text jl key)
      else insert_sql table (cols_text (key @ dat)) (vals_text jl (key @ dat)))"

text \<open>A request the service can carry out.\<close>

definition request_ok :: "json \<Rightarrow> string \<Rightarrow> (string \<times> json) list \<Rightarrow> bool" where
  "request_ok j cmd key \<longleftrightarrow> json_object_object_get j ''cmd'' = J_string cmd \<and>
     cmd \<in> {''Drop'', ''Create'', ''Select'', ''Delete'', ''Insert'', ''Update''} \<and>
     (cmd \<in> {''Select'', ''Delete'', ''Insert'', ''Update''} \<longrightarrow> json_object_object_get j ''key'' = J_object key) \<and>
     (cmd \<in> {''Insert'', ''Update''} \<longrightarrow> json_fields (json_object_object_get j ''data'') \<noteq> None)"

definition changes_data :: "string \<Rightarrow> bool" where
  "changes_data cmd \<longleftrightarrow> cmd \<in> {''Drop'', ''Delete'', ''Insert'', ''Update''}"

lemma cstr_all: "list_all (\<lambda>c. c \<noteq> chr_nul) s \<Longrightarrow> cstr s = s"
  by (auto simp: cstr_def list_all_iff takeWhile_eq_all_conv)

lemma cstr_cmds [simp]:
  "cstr ''Drop'' = ''Drop''" "cstr ''Create'' = ''Create''" "cstr ''Select'' = ''Select''" "cstr ''Delete'' = ''Delete''"
  "cstr ''Insert'' = ''Insert''" "cstr ''Update'' = ''Update''"
  by (simp_all add: cstr_all)

lemmas command_defs = rkdb_drop_def rkdb_create_def rkdb_insert_def rkdb_update_def rkdb_delete_def rkdb_select_def
  cmd_drop_def cmd_create_def cmd_select_def cmd_delete_def cmd_insert_def

lemma run_cmd_single:
  fixes jl :: jsonlib
  assumes "request_ok j cmd key" and "cmd \<noteq> ''Update''"
    and "sql = command_sql jl cmd (table_of jl j) key (json_object_object_get j ''data'') (json_object_object_get j ''col'')"
    and "sane_result (result sql sq s)"
  shows "run_cmd jl sq j s = Some ((jl_print jl (the_reply (result sql sq s)), changes_data cmd), ran sql sq s)"
  using assms(1,2,4) unfolding assms(3) request_ok_def
  by (elim conjE, simp only: insert_iff empty_iff simp_thms, elim disjE)
     (auto simp: run_cmd_def command_defs command_sql_def changes_data_def json_object_get_string_def json_fields_def rkdb_sql_at)

lemma run_cmd_update:
  fixes s :: "'d dbs"
  assumes "json_ok jl" and "request_ok j ''Update'' key" and "json_fields (json_object_object_get j ''data'') = Some dat"
    and "look = select_sql (table_of jl j) (Some ''*'') (where_text jl key) None (Some ''0,1'')"
    and "sql = (if sr_rows (result look sq s) = [] then insert_sql (table_of jl j) (cols_text (key @ dat)) (vals_text jl (key @ dat))
     else update_sql (table_of jl j) (set_text jl dat) (where_text jl key))"
    and sane: "sane_result (result look sq s)" "sane_result (result sql sq (ran look sq s))"
  shows "run_cmd jl sq j s =
    Some ((jl_print jl (the_reply (result sql sq (ran look sq s))), True), ran sql sq (ran look sq s))"
proof -
  have len: "length (the_rows (result look sq s)) = length (sr_rows (result look sq s))" by (rule the_rows_ok(3) [OF sane(1)])
  have num: "json_array_length (json_object_object_get (jl_parse jl (jl_print jl (the_reply (result look sq s)))) ''jData'') =
      Some (length (sr_rows (result look sq s)))"
    using len by (simp add: parse_the_reply [OF assms(1) sane(1)] json_array_length_def)
  have key: "json_fields (json_object_object_get j ''key'') = Some key"
    and cmd: "json_object_get_string jl (json_object_object_get j ''cmd'') = Some ''Update''"
    using assms(2) by (simp_all add: request_ok_def json_fields_def json_object_get_string_def)
  have "cmd_update jl sq j s = Some (jl_print jl (the_reply (result sql sq (ran look sq s))), ran sql sq (ran look sq s))"
    using num rkdb_sql_at [OF sane(2)] unfolding cmd_update_def key assms(3) rkdb_select_def rkdb_insert_def rkdb_update_def
    by (simp add: rkdb_sql_at [OF sane(1)] assms(4) [symmetric]) (auto simp: assms(5))
  with cmd show ?thesis by (simp add: run_cmd_def)
qed

text \<open>The crash of the callback takes the command with it.\<close>

lemma run_cmd_single_crash:
  fixes jl :: jsonlib
  assumes "request_ok j cmd key" and "cmd \<noteq> ''Update''"
    and "sql = command_sql jl cmd (table_of jl j) key (json_object_object_get j ''data'') (json_object_object_get j ''col'')"
    and "\<not> rows_ok (result sql sq s)"
  shows "run_cmd jl sq j s = None"
  using assms(1,2) rkdb_sql_crash [OF assms(4), of jl] unfolding assms(3) request_ok_def
  by (elim conjE, simp only: insert_iff empty_iff simp_thms, elim disjE)
     (auto simp: run_cmd_def command_defs command_sql_def json_object_get_string_def json_fields_def)

lemma run_cmd_update_crash:
  fixes s :: "'d dbs"
  assumes "json_ok jl" and "request_ok j ''Update'' key" and "json_fields (json_object_object_get j ''data'') = Some dat"
    and "look = select_sql (table_of jl j) (Some ''*'') (where_text jl key) None (Some ''0,1'')"
    and "sql = (if sr_rows (result look sq s) = [] then insert_sql (table_of jl j) (cols_text (key @ dat)) (vals_text jl (key @ dat))
     else update_sql (table_of jl j) (set_text jl dat) (where_text jl key))"
    and code: "code_ok (result look sq s)"
    and bad: "\<not> rows_ok (result look sq s) \<or> \<not> rows_ok (result sql sq (ran look sq s))"
  shows "run_cmd jl sq j s = None"
proof -
  have key: "json_fields (json_object_object_get j ''key'') = Some key"
    and cmd: "json_object_get_string jl (json_object_object_get j ''cmd'') = Some ''Update''"
    using assms(2) by (simp_all add: request_ok_def json_fields_def json_object_get_string_def)
  have "cmd_update jl sq j s = None"
  proof (cases "rows_ok (result look sq s)")
    case False
    from rkdb_sql_crash [OF this, of jl] show ?thesis
      by (simp add: cmd_update_def key assms(3) rkdb_select_def assms(4))
  next
    case True
    with code have sane: "sane_result (result look sq s)" by (simp add: sane_result_iff)
    have num: "json_array_length (json_object_object_get (jl_parse jl (jl_print jl (the_reply (result look sq s)))) ''jData'') =
        Some (length (sr_rows (result look sq s)))"
      by (simp add: parse_the_reply [OF assms(1) sane] json_array_length_def the_rows_ok(3) [OF sane])
    from True bad have "rkdb_sql jl sq sql (ran look sq s) = None" by (intro rkdb_sql_crash) simp
    with num show ?thesis
      unfolding cmd_update_def key assms(3) rkdb_select_def rkdb_insert_def rkdb_update_def
      by (simp add: rkdb_sql_at [OF sane] assms(4) [symmetric]) (auto simp: assms(5))
  qed
  with cmd show ?thesis by (simp add: run_cmd_def)
qed

text \<open>The method: the reply, and a signal for a successful change.\<close>

lemma method_cmd_at:
  assumes "json_ok jl" and "j = jl_parse jl req" and "run_cmd jl sq j s = Some ((jl_print jl (the_reply r), b), s1)" and "sane_result r"
  shows "method_cmd jl sq (Some iface) req s = Some (jl_print jl (the_reply r),
    s1\<lparr>db_signals := db_signals s1 @ (if b \<and> sr_rc r = 0 then [(iface, req)] else [])\<rparr>)"
  using reply_code [OF assms(1,4)] by (simp add: method_cmd_def assms(2) [symmetric] assms(3) signal_datachanged_def)

text \<open>
  The statement a command ends with and the state it is run in: \<^verbatim>\<open>Update\<close> first looks for a row
  with the key and then inserts or updates.
\<close>

definition last_statement ::
  "jsonlib \<Rightarrow> 'd sqlite \<Rightarrow> json \<Rightarrow> string \<Rightarrow> (string \<times> json) list \<Rightarrow> string \<Rightarrow> 'd dbs \<Rightarrow> string \<times> 'd dbs" where
  "last_statement jl sq j cmd key look s =
     (let dat = (case json_fields (json_object_object_get j ''data'') of Some d \<Rightarrow> d | None \<Rightarrow> []) in
      if cmd = ''Update''
      then (if sr_rows (result look sq s) = []
            then insert_sql (table_of jl j) (cols_text (key @ dat)) (vals_text jl (key @ dat))
            else update_sql (table_of jl j) (set_text jl dat) (where_text jl key), ran look sq s)
      else (command_sql jl cmd (table_of jl j) key (json_object_object_get j ''data'') (json_object_object_get j ''col''), s))"

lemma run_cmd_exact:
  fixes s :: "'d dbs"
  assumes "json_ok jl" and "sql_laws sq" and req: "request_ok j cmd key"
    and look: "look = select_sql (table_of jl j) (Some ''*'') (where_text jl key) None (Some ''0,1'')"
    and last: "last_statement jl sq j cmd key look s = (sql, s1)"
  shows "run_cmd jl sq j s =
    (if (cmd = ''Update'' \<longrightarrow> rows_ok (result look sq s)) \<and> rows_ok (result sql sq s1)
     then Some ((jl_print jl (the_reply (result sql sq s1)), changes_data cmd), ran sql sq s1) else None)"
proof -
  have code: "code_ok (result q sq t)" for q t using assms(2) by (simp add: sql_laws_def)
  show ?thesis
  proof (cases "cmd = ''Update''")
    case True
    then obtain dat where d: "json_fields (json_object_object_get j ''data'') = Some dat"
      using req by (auto simp: request_ok_def)
    have s1: "s1 = ran look sq s" and sql: "sql = (if sr_rows (result look sq s) = []
        then insert_sql (table_of jl j) (cols_text (key @ dat)) (vals_text jl (key @ dat))
        else update_sql (table_of jl j) (set_text jl dat) (where_text jl key))"
      using last True d by (auto simp: last_statement_def)
    note args = assms(1) req [unfolded True] d look sql
    show ?thesis
      using run_cmd_update [OF args] run_cmd_update_crash [OF args code] code True
      unfolding s1 sane_result_iff by (simp add: changes_data_def)
  next
    case False
    with last have s1: "s1 = s"
      and sql: "sql = command_sql jl cmd (table_of jl j) key (json_object_object_get j ''data'') (json_object_object_get j ''col'')"
      by (auto simp: last_statement_def)
    show ?thesis
      using run_cmd_single [OF req False sql, where sq = sq and s = s]
        run_cmd_single_crash [OF req False sql, where sq = sq and s = s] code False
      unfolding s1 sane_result_iff by simp
  qed
qed

lemma if_not: "(if \<not> b then x else y) = (if b then y else x)"
  by simp

text \<open>
  Property C16. What a database command does, on every path.  For a request with a known command and
  the objects that command needs, the service runs exactly the one statement the command stands
  for, except that \<^verbatim>\<open>Update\<close> first looks for a row with the key and then inserts (when there is none) or updates.
  When a row that one of these statements returns has NULL in a column whose name starts with
  \<^verbatim>\<open>i\<close>, the service crashes; in every other case, failed statements included, it answers with the result of the last
  statement, and clients are notified, once and with the request, exactly if the command changes data and
  that statement succeeded.  This relies on json-c giving back the replies it printed and on
  SQLite giving a message with every error code.
\<close>

theorem command_effect:
  fixes s :: "'d dbs"
  assumes "json_ok jl" and "sql_laws sq" and "j = jl_parse jl req" and "request_ok j cmd key"
    and "look = select_sql (table_of jl j) (Some ''*'') (where_text jl key) None (Some ''0,1'')"
    and "dat = (case json_fields (json_object_object_get j ''data'') of Some d \<Rightarrow> d | None \<Rightarrow> [])"
  shows "\<exists>s1 sql. (if cmd = ''Update'' then s1 = ran look sq s \<and>
        sql = (if sr_rows (result look sq s) = [] then insert_sql (table_of jl j) (cols_text (key @ dat)) (vals_text jl (key @ dat))
               else update_sql (table_of jl j) (set_text jl dat) (where_text jl key))
      else s1 = s \<and> sql = command_sql jl cmd (table_of jl j) key (json_object_object_get j ''data'') (json_object_object_get j ''col'')) \<and>
    method_cmd jl sq (Some iface) req s =
      (if (\<exists>row name. (name, None) \<in> set row \<and> take 1 name = ''i'' \<and>
            (row \<in> set (sr_rows (result sql sq s1)) \<or> cmd = ''Update'' \<and> row \<in> set (sr_rows (result look sq s))))
       then None
       else Some (jl_print jl (the_reply (result sql sq s1)),
         (ran sql sq s1)\<lparr>db_signals := db_signals s @
            (if changes_data cmd \<and> sr_rc (result sql sq s1) = 0 then [(iface, req)] else [])\<rparr>))"
proof -
  obtain sql s1 where last: "last_statement jl sq j cmd key look s = (sql, s1)" by (rule prod.exhaust)
  note run = run_cmd_exact [OF assms(1,2,4,5) last]
  let ?ok = "(cmd = ''Update'' \<longrightarrow> rows_ok (result look sq s)) \<and> rows_ok (result sql sq s1)"
  have sg: "db_signals s1 = db_signals s" using last by (auto simp: last_statement_def Let_def split: if_splits)
  have "sane_result (result sql sq s1)" if ?ok
    using assms(2) that by (simp add: sane_result_iff sql_laws_def)
  then have "method_cmd jl sq (Some iface) req s = (if ?ok then Some (jl_print jl (the_reply (result sql sq s1)),
      (ran sql sq s1)\<lparr>db_signals := db_signals s @
         (if changes_data cmd \<and> sr_rc (result sql sq s1) = 0 then [(iface, req)] else [])\<rparr>) else None)"
    using method_cmd_at [OF assms(1,3), of sq s "result sql sq s1" "changes_data cmd" "ran sql sq s1" iface] run sg
    by (auto simp: method_cmd_def assms(3) [symmetric])
  moreover have "?ok = (\<not> (\<exists>row name. (name, None) \<in> set row \<and> take 1 name = ''i'' \<and>
      (row \<in> set (sr_rows (result sql sq s1)) \<or> cmd = ''Update'' \<and> row \<in> set (sr_rows (result look sq s)))))"
    unfolding list_all_iff Ball_def row_ok_iff by blast
  moreover have "if cmd = ''Update'' then s1 = ran look sq s \<and>
        sql = (if sr_rows (result look sq s) = [] then insert_sql (table_of jl j) (cols_text (key @ dat)) (vals_text jl (key @ dat))
               else update_sql (table_of jl j) (set_text jl dat) (where_text jl key))
      else s1 = s \<and> sql = command_sql jl cmd (table_of jl j) key (json_object_object_get j ''data'') (json_object_object_get j ''col'')"
    using last by (auto simp: last_statement_def Let_def assms(6))
  ultimately show ?thesis by (intro exI [of _ s1] exI [of _ sql] conjI) (assumption, simp only: if_not)
qed

text \<open>Functions that keep the laws: values numbered, and a database that answers every statement with success.\<close>

instance json :: countable
  by countable_datatype

definition numbered_json :: jsonlib where
  "numbered_json = \<lparr>jl_print = (\<lambda>j. replicate (to_nat j) CHR ''x''), jl_parse = (\<lambda>s. from_nat (length s)),
     jl_get_int = (\<lambda>j. case j of J_int i \<Rightarrow> i | _ \<Rightarrow> 0)\<rparr>"

definition quiet_db :: "unit sqlite" where
  "quiet_db = \<lparr>sq_exec = (\<lambda>_ d. (\<lparr>sr_rc = 0, sr_errmsg = None, sr_rows = []\<rparr>, d)), sq_open = (\<lambda>_ _. 0)\<rparr>"

lemma numbered_json_ok: "json_ok numbered_json" "jl_parse numbered_json (jl_print numbered_json j) = j"
  by (simp_all add: json_ok_def numbered_json_def)

lemma quiet_db_laws: "sql_laws quiet_db" "no_rows quiet_db sql"
  by (simp_all add: sql_laws_def no_rows_def quiet_db_def code_ok_def int32_ok_def)

definition insert_request :: json where
  "insert_request = J_object [(''cmd'', J_string ''Insert''), (''table'', J_string ''port''),
     (''key'', J_object [(''sProtocol'', J_string ''RTSP'')]), (''data'', J_object [(''iPortNo'', J_int 554)])]"

theorem command_effect_witness:
  "\<exists>s'. method_cmd numbered_json quiet_db (Some ''rockchip.dbserver.net'') (jl_print numbered_json insert_request)
      \<lparr>db_state = (), db_ran = [], db_signals = []\<rparr> = Some (jl_print numbered_json (reply_json 0 [] []), s') \<and>
    length (db_signals s') = 1"
proof -
  let ?s = "\<lparr>db_state = (), db_ran = [], db_signals = []\<rparr>" and ?req = "jl_print numbered_json insert_request"
  have r: "request_ok (jl_parse numbered_json ?req) ''Insert'' [(''sProtocol'', J_string ''RTSP'')]"
    by (simp add: numbered_json_ok request_ok_def insert_request_def json_object_object_get_def json_fields_def)
  have "the_reply (result sql quiet_db s1) = reply_json 0 [] []" "sr_rc (result sql quiet_db s1) = 0"
    "sr_rows (result sql quiet_db s1) = []" for sql s1
    by (simp_all add: quiet_db_def the_reply_def the_rows_def)
  with command_effect [OF numbered_json_ok(1) quiet_db_laws(1) refl r refl refl, of ?s "''rockchip.dbserver.net''"]
  show ?thesis by (auto simp: changes_data_def)
qed

section \<open>Starting a component\<close>

text \<open>The two statements of \<^verbatim>\<open>creat_version_table\<close>, and what the version check looks at.\<close>

definition version_steps :: "string \<Rightarrow> string \<Rightarrow> db_step list" where
  "version_steps t v = [Create t ''id INTEGER PRIMARY KEY,sVersion TEXT NOT NULL'', Insert t ''id,sVersion'' (''0,'' @ [chr_sq] @ v @ [chr_sq])]"

definition version_query :: "string \<Rightarrow> string" where
  "version_query t = select_sql (Some t) (Some ''sVersion'') (Some ''id=0'') None None"

definition version_found :: "sql_result \<Rightarrow> string \<Rightarrow> bool" where
  "version_found r v = (case the_rows r of [] \<Rightarrow> False | j # _ \<Rightarrow> json_object_object_get j ''sVersion'' = J_string v)"

text \<open>The rows of a query for \<^verbatim>\<open>sVersion\<close> have that column, with text of the C kind.\<close>

definition version_rows_ok :: "sql_result \<Rightarrow> bool" where
  "version_rows_ok r = list_all (\<lambda>j. \<exists>v. json_object_object_get j ''sVersion'' = J_string v \<and> chr_nul \<notin> set v) (the_rows r)"

lemma run_steps_ran:
  assumes "sql_laws sq" and "\<forall>st \<in> set sts. no_rows sq (step_sql st)"
  shows "\<exists>s'. run_steps jl sq sts s = Some s' \<and> db_ran s' = db_ran s @ map step_sql sts \<and> db_signals s' = db_signals s"
  using assms(2)
proof (induction sts arbitrary: s)
  case (Cons st sts)
  from Cons.prems have "sane_result (result (step_sql st) sq s)" using no_rows_sane [OF assms(1)] by simp
  with Cons.IH [of "ran (step_sql st) sq s"] Cons.prems rkdb_sql_at [of sq "step_sql st" s jl]
  show ?case by (auto simp: ran_def)
qed simp

lemma creat_version_steps: "creat_version_table jl sq t v s = run_steps jl sq (version_steps t v) s"
  by (simp add: creat_version_table_def version_steps_def rkdb_create_def rkdb_insert_def step_sql_def)

lemma run_steps_append: "run_steps jl sq (xs @ ys) = (\<lambda>s. Option.bind (run_steps jl sq xs s) (run_steps jl sq ys))"
proof
  show "run_steps jl sq (xs @ ys) s = Option.bind (run_steps jl sq xs s) (run_steps jl sq ys)" for s
    by (induction xs arbitrary: s) (auto split: bind_split)
qed

lemma equal_version_runs:
  assumes "json_ok jl" and sane: "sane_result (result (version_query t) sq s)"
    and "version_rows_ok (result (version_query t) sq s)"
  shows "equal_version jl sq t v s = Some (version_found (result (version_query t) sq s) v, ran (version_query t) sq s)"
proof -
  let ?r = "result (version_query t) sq s"
  from parse_the_reply [OF assms(1) sane] have p: "json_object_object_get (jl_parse jl (jl_print jl (the_reply ?r))) ''jData'' = J_array (the_rows ?r)"
    by simp
  have run: "rkdb_select jl sq (Some t) (Some ''sVersion'') (Some ''id=0'') None None s =
      Some (jl_print jl (the_reply ?r), ran (version_query t) sq s)"
    using rkdb_sql_at [OF sane] by (simp add: rkdb_select_def version_query_def)
  show ?thesis
  proof (cases "the_rows ?r")
    case Nil
    with p show ?thesis by (simp add: equal_version_def run version_found_def)
  next
    case (Cons j js)
    with assms(3) obtain x where x: "json_object_object_get j ''sVersion'' = J_string x" "chr_nul \<notin> set x"
      by (auto simp: version_rows_ok_def)
    then have "cstr x = x" by (intro cstr_all) (auto simp: list_all_iff)
    with Cons p x show ?thesis by (simp add: equal_version_def run version_found_def json_object_get_string_def)
  qed
qed

text \<open>
  A component of the database service is set up exactly when its version differs.  Its
  start first asks for the stored version; when the first row has the current one nothing else is
  run, otherwise, also when there is no such table or row, the statements that are run are, in
  this order, the drops, the version table with its row, and the tables with their rows.  No
  change signal is sent.  The query for the version has no NULL in a column named with \<^verbatim>\<open>i\<close>, and the other
  statements give no rows.
\<close>

theorem component_init_statements:
  assumes "json_ok jl" and "sql_laws sq" and "rows_ok (result (version_query vtable) sq s)"
    and "version_rows_ok (result (version_query vtable) sq s)"
    and "\<forall>st \<in> set (drops @ version_steps vtable version @ tables). no_rows sq (step_sql st)"
  shows "\<exists>s'. component_init jl sq vtable version drops tables s = Some s' \<and> db_signals s' = db_signals s \<and>
    db_ran s' = db_ran s @ version_query vtable #
      (if version_found (result (version_query vtable) sq s) version then []
       else map step_sql (drops @ version_steps vtable version @ tables))"
proof -
  let ?s1 = "ran (version_query vtable) sq s"
  have "component_init jl sq vtable version drops tables s =
      (if version_found (result (version_query vtable) sq s) version then Some ?s1
       else run_steps jl sq (drops @ version_steps vtable version @ tables) ?s1)"
    using assms(2,3)
    by (simp add: component_init_def equal_version_runs [OF assms(1) _ assms(4)] sane_result_iff sql_laws_def
        creat_version_steps run_steps_append)
  with run_steps_ran [OF assms(2,5), of jl ?s1] show ?thesis
    by auto
qed

theorem component_init_statements_witness:
  "\<exists>s'. component_init numbered_json quiet_db ''V'' ''1.0'' [Drop ''a''] [] \<lparr>db_state = (), db_ran = [], db_signals = []\<rparr> = Some s' \<and>
    length (db_ran s') = 4"
proof -
  let ?s = "\<lparr>db_state = (), db_ran = [], db_signals = []\<rparr>"
  have "version_rows_ok (result sql quiet_db ?s)" "rows_ok (result sql quiet_db ?s)" "\<not> version_found (result sql quiet_db ?s) v" for sql v
    by (simp_all add: quiet_db_def version_rows_ok_def version_found_def the_rows_def)
  with component_init_statements [OF numbered_json_ok(1) quiet_db_laws(1), of "''V''" ?s "[Drop ''a'']" "''1.0''" "[]"]
  show ?thesis by (auto simp: version_steps_def quiet_db_laws(2))
qed

end
