(* ===== verification/DbSql.thy ===== *)
theory DbSql
  imports DbServer
begin

text \<open>
  How SQLite reads the statements the database service puts together: a small lexer for the part
  of SQL they use (words, quoted text with doubled quotes, and symbols).  Every value is one token
  when it contains no quote (comments cannot arise, no statement has two hyphens outside quotes), so a command is the one statement it is meant to be; a value with a
  quote is not, and can bring statements of its own.
\<close>

section \<open>Reading SQL text\<close>

datatype sql_token = T_word string | T_text string | T_sym char

definition word_char :: "char \<Rightarrow> bool" where
  "word_char c \<longleftrightarrow> (let n = of_char c :: nat in 48 \<le> n \<and> n \<le> 57 \<or> 65 \<le> n \<and> n \<le> 90 \<or> 97 \<le> n \<and> n \<le> 122 \<or> n = 95)"

text \<open>The text after an opening quote: its contents and what follows the closing one.\<close>

fun quoted :: "string \<Rightarrow> (string \<times> string) option" where
  "quoted [] = None"
| "quoted (c # cs) =
     (if c \<noteq> chr_sq then map_option (\<lambda>(a, b). (c # a, b)) (quoted cs)
      else (case cs of
              d # ds \<Rightarrow> if d = chr_sq then map_option (\<lambda>(a, b). (chr_sq # a, b)) (quoted ds) else Some ([], cs)
            | [] \<Rightarrow> Some ([], [])))"

lemma quoted_shorter: "quoted s = Some (a, b) \<Longrightarrow> length b < length s"
  by (induction s arbitrary: a b rule: quoted.induct) (auto split: if_splits list.splits, fastforce+)

function sql_tokens :: "string \<Rightarrow> sql_token list option" where
  "sql_tokens [] = Some []"
| "sql_tokens (c # cs) =
     (if c = chr_sp then sql_tokens cs
      else if c = chr_sq then
        (case quoted cs of None \<Rightarrow> None | Some (a, b) \<Rightarrow> map_option ((#) (T_text a)) (sql_tokens b))
      else if word_char c then
        map_option ((#) (T_word (c # takeWhile word_char cs))) (sql_tokens (dropWhile word_char cs))
      else map_option ((#) (T_sym c)) (sql_tokens cs))"
  by pat_completeness auto
termination
  by (relation "measure length") (auto dest: quoted_shorter intro: le_imp_less_Suc length_dropWhile_le)

definition is_word :: "string \<Rightarrow> bool" where
  "is_word w \<longleftrightarrow> w \<noteq> [] \<and> list_all word_char w"

definition no_word_start :: "string \<Rightarrow> bool" where
  "no_word_start s \<longleftrightarrow> (case s of [] \<Rightarrow> True | c # _ \<Rightarrow> \<not> word_char c)"

lemma word_char_not: "\<not> word_char chr_sp" "\<not> word_char chr_sq"
  by (simp_all add: word_char_def)

text \<open>The text \<open>a\<close>, when \<open>s\<close> follows, is read as the tokens \<open>ts\<close>.\<close>

definition reads :: "string \<Rightarrow> sql_token list \<Rightarrow> string \<Rightarrow> bool" where
  "reads a ts s \<longleftrightarrow> sql_tokens (a @ s) = map_option ((@) ts) (sql_tokens s)"

lemma map_option_Cons_append: "map_option ((#) t) x = map_option ((@) [t]) x"
  by (cases x) simp_all

lemma reads_nil: "reads [] [] s"
  by (cases "sql_tokens s") (simp_all add: reads_def)

lemma reads_append: "reads a ts (b @ s) \<Longrightarrow> reads b us s \<Longrightarrow> reads (a @ b) (ts @ us) s"
  by (cases "sql_tokens s") (simp_all add: reads_def)

lemma reads_word:
  assumes "is_word w" and "no_word_start s"
  shows "reads w [T_word w] s"
proof -
  from assms(1) obtain c cs where w: "w = c # cs" "word_char c" "\<forall>x\<in>set cs. word_char x"
    by (cases w) (auto simp: is_word_def list_all_iff)
  have "takeWhile word_char (cs @ s) = cs" "dropWhile word_char (cs @ s) = s"
    using w(3) assms(2) by (auto simp: no_word_start_def takeWhile_append2 dropWhile_append2 split: list.splits)
  with w(1,2) word_char_not show ?thesis by (auto simp: reads_def map_option_Cons_append)
qed

lemma quoted_plain:
  assumes "chr_sq \<notin> set a" and "take 1 s \<noteq> [chr_sq]"
  shows "quoted (a @ chr_sq # s) = Some (a, s)"
  using assms by (induction a) (auto split: list.split)

lemma reads_text:
  assumes "chr_sq \<notin> set a" and "take 1 s \<noteq> [chr_sq]"
  shows "reads ([chr_sq] @ a @ [chr_sq]) [T_text a] s"
  by (simp add: reads_def quoted_plain [OF assms] map_option_Cons_append)

lemma reads_sym: "c \<noteq> chr_sp \<Longrightarrow> c \<noteq> chr_sq \<Longrightarrow> \<not> word_char c \<Longrightarrow> reads [c] [T_sym c] s"
  by (simp add: reads_def map_option_Cons_append)

lemma reads_space: "reads [chr_sp] [] s"
  by (cases "sql_tokens s") (simp_all add: reads_def)

lemma reads_word_space: "is_word w \<Longrightarrow> reads (w @ [chr_sp]) [T_word w] s"
  using reads_append [OF reads_word reads_space, of w s] by (simp add: no_word_start_def word_char_not)

declare sql_tokens.simps(2) [simp del]

lemma digits_word: "is_word (dec_of_nat n)"
proof -
  have "word_char c" if "isdigit c" for c
    using that by (auto simp: isdigit_def word_char_def Let_def)
  moreover have "dec_of_nat n \<noteq> []" by (simp add: dec_of_nat.simps [of n])
  ultimately show ?thesis using isdigit_dec_of_nat by (auto simp: is_word_def list_all_iff)
qed

section \<open>Clauses\<close>

text \<open>A value that is one literal: an integer, or text without a quote and without NUL.\<close>

definition plain_value :: "jsonlib \<Rightarrow> json \<Rightarrow> bool" where
  "plain_value jl v \<longleftrightarrow> is_json_int v \<or> (\<exists>t. json_object_get_string jl v = Some t \<and> chr_sq \<notin> set t \<and> chr_nul \<notin> set t)"

definition value_tokens :: "jsonlib \<Rightarrow> json \<Rightarrow> sql_token list" where
  "value_tokens jl v =
     (if is_json_int v then
        (let i = jl_get_int jl v in if i < 0 then [T_sym CHR ''-'', T_word (dec_of_nat (nat (- i)))] else [T_word (dec_of_nat (nat i))])
      else (case json_object_get_string jl v of Some t \<Rightarrow> [T_text t] | None \<Rightarrow> []))"

text \<open>What may follow a value: neither a word nor a quote.\<close>

definition stop :: "string \<Rightarrow> bool" where
  "stop s \<longleftrightarrow> no_word_start s \<and> take 1 s \<noteq> [chr_sq]"

lemma cstr_plain: "chr_nul \<notin> set t \<Longrightarrow> cstr t = t"
  by (auto simp: cstr_def takeWhile_eq_all_conv)

lemma reads_value:
  assumes "plain_value jl v" and "stop s"
  shows "reads (value_text jl v) (value_tokens jl v) s"
proof (cases "is_json_int v")
  case True
  have "reads [CHR ''-''] [T_sym CHR ''-''] x" for x
    by (rule reads_sym) (simp_all add: word_char_def)
  from reads_append [OF this reads_word [OF digits_word]] reads_word [OF digits_word] True assms(2) show ?thesis
    by (auto simp: value_text_def value_tokens_def dec_of_int_def stop_def Let_def)
next
  case False
  with assms(1) obtain t where t: "json_object_get_string jl v = Some t" "chr_sq \<notin> set t" "chr_nul \<notin> set t"
    by (auto simp: plain_value_def)
  with False reads_text [of t s] assms(2) show ?thesis
    by (simp add: value_text_def value_tokens_def fmt_s_def cstr_plain stop_def)
qed

text \<open>A field whose name is a word and whose value is a literal.\<close>

definition plain_field :: "jsonlib \<Rightarrow> string \<times> json \<Rightarrow> bool" where
  "plain_field jl kv \<longleftrightarrow> is_word (fst kv) \<and> plain_value jl (snd kv)"

definition assign_tokens :: "jsonlib \<Rightarrow> string \<times> json \<Rightarrow> sql_token list" where
  "assign_tokens jl kv = [T_word (fst kv), T_sym CHR ''=''] @ value_tokens jl (snd kv)"

lemma reads_assign:
  assumes "plain_field jl kv" and "stop s"
  shows "reads (assign_text jl kv) (assign_tokens jl kv) s"
proof -
  have "reads [CHR ''=''] [T_sym CHR ''=''] x" for x by (rule reads_sym) (simp_all add: word_char_def)
  from reads_append [OF this reads_value [of jl "snd kv" s]] assms
  have "reads ([CHR ''=''] @ value_text jl (snd kv)) ([T_sym CHR ''=''] @ value_tokens jl (snd kv)) s"
    by (simp add: plain_field_def)
  from reads_append [OF reads_word this, of "fst kv"] assms show ?thesis
    by (simp add: assign_text_def assign_tokens_def plain_field_def no_word_start_def word_char_def)
qed

section \<open>Lists of fields\<close>

text \<open>Pieces with a separator between them, as text and as tokens.\<close>

fun separated :: "'a list \<Rightarrow> 'a list list \<Rightarrow> 'a list" where
  "separated sep [] = []"
| "separated sep [x] = x"
| "separated sep (x # y # ys) = x @ sep @ separated sep (y # ys)"

lemma joined_separated:
  "foldl (\<lambda>acc kv. joined sep acc (f kv)) (Some a) kvs = Some (separated sep (a # map f kvs))"
proof (induction kvs arbitrary: a)
  case (Cons kv kvs)
  have "separated sep ((a @ sep @ f kv) # map f kvs) = separated sep (a # f kv # map f kvs)"
    by (cases kvs) simp_all
  with Cons show ?case by (simp add: joined_def)
qed simp

lemma joined_fields:
  "kvs \<noteq> [] \<Longrightarrow> foldl (\<lambda>acc kv. joined sep acc (f kv)) None kvs = Some (separated sep (map f kvs))"
  using joined_separated by (cases kvs) (simp_all add: joined_def)

lemma reads_separated:
  assumes "\<And>s. reads sep ts s" and "\<And>s. stop (sep @ s)" and "\<And>kv s. kv \<in> set kvs \<Longrightarrow> stop s \<Longrightarrow> reads (f kv) (g kv) s"
    and "stop s"
  shows "reads (separated sep (map f kvs)) (separated ts (map g kvs)) s"
  using assms(3,4)
proof (induction kvs arbitrary: s rule: induct_list012)
  case 1
  then show ?case by (simp add: reads_nil)
next
  case (2 x)
  then show ?case by simp
next
  case (3 x y zs)
  have "reads (sep @ separated sep (map f (y # zs))) (ts @ separated ts (map g (y # zs))) s"
    by (rule reads_append [OF assms(1) "3.IH"(2)]) (use "3.prems" in auto)
  moreover have "reads (f x) (g x) ((sep @ separated sep (map f (y # zs))) @ s)"
    using "3.prems"(1) assms(2) by simp
  ultimately show ?case using reads_append by fastforce
qed

lemma reads_comma: "reads '','' [T_sym CHR '',''] s"
  by (rule reads_sym) (simp_all add: word_char_def)

lemma reads_and: "reads '' and '' [T_word ''and''] s"
proof -
  have "is_word ''and''" by (simp add: is_word_def word_char_def)
  from reads_append [OF reads_space reads_word_space [OF this]] show ?thesis by simp
qed

definition where_tokens :: "jsonlib \<Rightarrow> (string \<times> json) list \<Rightarrow> sql_token list" where
  "where_tokens jl kvs = separated [T_word ''and''] (map (assign_tokens jl) kvs)"

definition set_tokens :: "jsonlib \<Rightarrow> (string \<times> json) list \<Rightarrow> sql_token list" where
  "set_tokens jl kvs = separated [T_sym CHR '',''] (map (assign_tokens jl) kvs)"

definition cols_tokens :: "(string \<times> json) list \<Rightarrow> sql_token list" where
  "cols_tokens kvs = separated [T_sym CHR '',''] (map (\<lambda>kv. [T_word (fst kv)]) kvs)"

definition vals_tokens :: "jsonlib \<Rightarrow> (string \<times> json) list \<Rightarrow> sql_token list" where
  "vals_tokens jl kvs = separated [T_sym CHR '',''] (map (\<lambda>kv. value_tokens jl (snd kv)) kvs)"

lemma nul_free_value: "plain_value jl v \<Longrightarrow> chr_nul \<notin> set (value_text jl v)"
  using dec_of_nat_no_nul by (auto simp: plain_value_def value_text_def dec_of_int_def fmt_s_def cstr_plain)

lemma nul_free_word: "is_word w \<Longrightarrow> chr_nul \<notin> set w"
  by (auto simp: is_word_def list_all_iff word_char_def)

lemma nul_free_separated:
  "(\<And>x. x \<in> set xs \<Longrightarrow> chr_nul \<notin> set x) \<Longrightarrow> chr_nul \<notin> set sep \<Longrightarrow> chr_nul \<notin> set (separated sep xs)"
  by (induction sep xs rule: separated.induct) auto

text \<open>The clauses are as meant, and \<^verbatim>\<open>%s\<close> copies them whole.\<close>

lemma clause_reads:
  assumes "kvs \<noteq> []" and "list_all (plain_field jl) kvs" and "stop s"
  shows "reads (fmt_s (where_text jl kvs)) (where_tokens jl kvs) s" "reads (fmt_s (set_text jl kvs)) (set_tokens jl kvs) s"
    "reads (fmt_s (cols_text kvs)) (cols_tokens kvs) s" "reads (fmt_s (vals_text jl kvs)) (vals_tokens jl kvs) s"
proof -
  have f: "plain_field jl kv" if "kv \<in> set kvs" for kv using assms(2) that by (auto simp: list_all_iff)
  then have w: "is_word (fst kv)" "plain_value jl (snd kv)" if "kv \<in> set kvs" for kv
    using that by (auto simp: plain_field_def)
  have n: "chr_nul \<notin> set (assign_text jl kv)" "chr_nul \<notin> set (fst kv)" "chr_nul \<notin> set (value_text jl (snd kv))"
    if "kv \<in> set kvs" for kv
    using nul_free_word [OF w(1) [OF that]] nul_free_value [OF w(2) [OF that]] by (auto simp: assign_text_def)
  have fmt: "fmt_s (foldl (\<lambda>acc kv. joined sep acc (h kv)) None kvs) = separated sep (map h kvs)"
    if "\<And>kv. kv \<in> set kvs \<Longrightarrow> chr_nul \<notin> set (h kv)" "chr_nul \<notin> set sep" for sep h
  proof -
    have "chr_nul \<notin> set (separated sep (map h kvs))" by (rule nul_free_separated) (use that in \<open>auto simp del: split_paired_All\<close>)
    then show ?thesis by (simp add: joined_fields [OF assms(1)] fmt_s_def cstr_plain)
  qed
  have st: "stop (CHR '' '' # x)" "stop (CHR '','' # x)" for x by (simp_all add: stop_def no_word_start_def word_char_def)
  have "fmt_s (where_text jl kvs) = separated '' and '' (map (assign_text jl) kvs)"
    unfolding where_text_def by (rule fmt) (simp_all add: n)
  moreover have "reads (separated '' and '' (map (assign_text jl) kvs)) (where_tokens jl kvs) s"
    unfolding where_tokens_def
    by (rule reads_separated [OF reads_and _ _ assms(3)]) (simp_all add: st reads_assign f)
  ultimately show "reads (fmt_s (where_text jl kvs)) (where_tokens jl kvs) s" by simp
  have "fmt_s (set_text jl kvs) = separated '','' (map (assign_text jl) kvs)"
    unfolding set_text_def by (rule fmt) (simp_all add: n)
  moreover have "reads (separated '','' (map (assign_text jl) kvs)) (set_tokens jl kvs) s"
    unfolding set_tokens_def
    by (rule reads_separated [OF reads_comma _ _ assms(3)]) (simp_all add: st reads_assign f)
  ultimately show "reads (fmt_s (set_text jl kvs)) (set_tokens jl kvs) s" by simp
  have "fmt_s (cols_text kvs) = separated '','' (map fst kvs)"
    unfolding cols_text_def by (rule fmt) (simp_all add: n)
  moreover have "reads (separated '','' (map fst kvs)) (cols_tokens kvs) s"
    unfolding cols_tokens_def
    by (rule reads_separated [OF reads_comma _ _ assms(3)]) (simp_all add: reads_word w stop_def no_word_start_def word_char_def)
  ultimately show "reads (fmt_s (cols_text kvs)) (cols_tokens kvs) s" by simp
  have "fmt_s (vals_text jl kvs) = separated '','' (map (\<lambda>kv. value_text jl (snd kv)) kvs)"
    unfolding vals_text_def by (rule fmt) (simp_all add: n)
  moreover have "reads (separated '','' (map (\<lambda>kv. value_text jl (snd kv)) kvs)) (vals_tokens jl kvs) s"
    unfolding vals_tokens_def
    by (rule reads_separated [OF reads_comma _ _ assms(3)]) (simp_all add: st reads_value w)
  ultimately show "reads (fmt_s (vals_text jl kvs)) (vals_tokens jl kvs) s" by simp
qed

section \<open>Statements\<close>

lemma keyword_words:
  "is_word ''INSERT''" "is_word ''INTO''" "is_word ''VALUES''" "is_word ''UPDATE''" "is_word ''SET''" "is_word ''WHERE''"
  "is_word ''DELETE''" "is_word ''from''" "is_word ''SELECT''" "is_word ''LIMIT''" "is_word ''DROP''" "is_word ''TABLE''"
  by (simp_all add: is_word_def word_char_def)

lemma reads_parens: "reads ''('' [T_sym CHR ''(''] s" "reads '')'' [T_sym CHR '')''] s" "reads '';'' [T_sym CHR '';''] s"
    "reads ''*'' [T_sym CHR ''*''] s"
  by (rule reads_sym; simp add: word_char_def)+

lemma reads_keyword:
  "reads ''INSERT '' [T_word ''INSERT''] s" "reads ''INTO '' [T_word ''INTO''] s" "reads ''VALUES '' [T_word ''VALUES''] s"
  "reads ''UPDATE '' [T_word ''UPDATE''] s" "reads ''SET '' [T_word ''SET''] s" "reads ''WHERE '' [T_word ''WHERE''] s"
  "reads ''DELETE '' [T_word ''DELETE''] s" "reads ''from '' [T_word ''from''] s" "reads ''SELECT '' [T_word ''SELECT''] s"
  "reads ''LIMIT '' [T_word ''LIMIT''] s"
  using keyword_words [THEN reads_word_space] by simp_all

lemma reads_end: "reads a ts [] \<Longrightarrow> sql_tokens a = Some ts"
  by (simp add: reads_def)

lemma reads_table: "is_word t \<Longrightarrow> reads (fmt_s (Some t) @ '' '') [T_word t] s"
  using reads_word_space [of t s] nul_free_word [of t] by (simp add: fmt_s_def cstr_plain)

lemma insert_tokens:
  assumes "is_word t" and "kvs \<noteq> []" and "list_all (plain_field jl) kvs"
  shows "sql_tokens (insert_sql (Some t) (cols_text kvs) (vals_text jl kvs)) =
    Some ([T_word ''INSERT'', T_word ''INTO'', T_word t, T_sym CHR ''(''] @ cols_tokens kvs @
      [T_sym CHR '')'', T_word ''VALUES'', T_sym CHR ''(''] @ vals_tokens jl kvs @ [T_sym CHR '')'', T_sym CHR '';''])"
proof -
  note c = clause_reads [OF assms(2,3)]
  have v: "reads (fmt_s (vals_text jl kvs) @ '')'' @ '';'') (vals_tokens jl kvs @ [T_sym CHR '')''] @ [T_sym CHR '';'']) []"
    by (rule reads_append [OF c(4) reads_append [OF reads_parens(2) reads_parens(3)]]) (simp add: stop_def no_word_start_def word_char_def)
  have "reads (fmt_s (cols_text kvs) @ '')'' @ '' '' @ ''VALUES '' @ ''('' @ fmt_s (vals_text jl kvs) @ '')'' @ '';'')
      (cols_tokens kvs @ [T_sym CHR '')''] @ [] @ [T_word ''VALUES''] @ [T_sym CHR ''(''] @ vals_tokens jl kvs @ [T_sym CHR '')''] @ [T_sym CHR '';'']) []"
    by (rule reads_append [OF c(3) reads_append [OF reads_parens(2) reads_append [OF reads_space
          reads_append [OF reads_keyword(3) reads_append [OF reads_parens(1) v]]]]]) (simp add: stop_def no_word_start_def word_char_def)
  from reads_append [OF reads_keyword(1) reads_append [OF reads_keyword(2) reads_append [OF reads_table [OF assms(1)]
          reads_append [OF reads_parens(1) this]]]]
  show ?thesis by (intro reads_end) (simp add: insert_sql_def)
qed

lemma update_tokens:
  assumes "is_word t" and "key \<noteq> []" "list_all (plain_field jl) key" and "dat \<noteq> []" "list_all (plain_field jl) dat"
  shows "sql_tokens (update_sql (Some t) (set_text jl dat) (where_text jl key)) =
    Some ([T_word ''UPDATE'', T_word t, T_word ''SET''] @ set_tokens jl dat @ [T_word ''WHERE''] @ where_tokens jl key @ [T_sym CHR '';''])"
proof -
  have w: "reads (fmt_s (where_text jl key) @ '';'') (where_tokens jl key @ [T_sym CHR '';'']) []"
    by (rule reads_append [OF clause_reads(1) [OF assms(2,3)] reads_parens(3)]) (simp add: stop_def no_word_start_def word_char_def)
  have "reads (fmt_s (set_text jl dat) @ '' '' @ ''WHERE '' @ fmt_s (where_text jl key) @ '';'')
      (set_tokens jl dat @ [] @ [T_word ''WHERE''] @ where_tokens jl key @ [T_sym CHR '';'']) []"
    by (rule reads_append [OF clause_reads(2) [OF assms(4,5)] reads_append [OF reads_space reads_append [OF reads_keyword(6) w]]])
       (simp add: stop_def no_word_start_def word_char_def)
  from reads_append [OF reads_keyword(4) reads_append [OF reads_table [OF assms(1)] reads_append [OF reads_keyword(5) this]]]
  show ?thesis by (intro reads_end) (simp add: update_sql_def)
qed

lemma delete_tokens:
  assumes "is_word t" and "key \<noteq> []" "list_all (plain_field jl) key"
  shows "sql_tokens (delete_sql (Some t) (where_text jl key)) =
    Some ([T_word ''DELETE'', T_word ''from'', T_word t, T_word ''WHERE''] @ where_tokens jl key @ [T_sym CHR '';''])"
proof -
  have "reads (fmt_s (where_text jl key) @ '';'') (where_tokens jl key @ [T_sym CHR '';'']) []"
    by (rule reads_append [OF clause_reads(1) [OF assms(2,3)] reads_parens(3)]) (simp add: stop_def no_word_start_def word_char_def)
  from reads_append [OF reads_keyword(7) reads_append [OF reads_keyword(8) reads_append [OF reads_table [OF assms(1)]
          reads_append [OF reads_keyword(6) this]]]]
  show ?thesis
    using joined_fields [OF assms(2)] by (intro reads_end) (simp add: delete_sql_def where_text_def fmt_s_def)
qed

lemma lookup_tokens:
  assumes "is_word t" and "key \<noteq> []" "list_all (plain_field jl) key"
  shows "sql_tokens (select_sql (Some t) (Some ''*'') (where_text jl key) None (Some ''0,1'')) =
    Some ([T_word ''SELECT'', T_sym CHR ''*'', T_word ''from'', T_word t, T_word ''WHERE''] @ where_tokens jl key @
      [T_word ''LIMIT'', T_word ''0'', T_sym CHR '','', T_word ''1''])"
proof -
  have digits: "is_word ''0''" "is_word ''1''" by (simp_all add: is_word_def word_char_def)
  have "reads (''0'' @ '','' @ ''1'') ([T_word ''0''] @ [T_sym CHR '',''] @ [T_word ''1'']) []"
    by (intro reads_append reads_word reads_comma digits) (simp_all add: no_word_start_def word_char_def)
  from reads_append [OF reads_space reads_append [OF reads_keyword(10) this]]
  have l: "reads ('' LIMIT 0,1'') [T_word ''LIMIT'', T_word ''0'', T_sym CHR '','', T_word ''1''] []" by simp
  have w: "reads (fmt_s (where_text jl key) @ '' LIMIT 0,1'') (where_tokens jl key @ [T_word ''LIMIT'', T_word ''0'', T_sym CHR '','', T_word ''1'']) []"
    by (rule reads_append [OF clause_reads(1) [OF assms(2,3)] l]) (simp add: stop_def no_word_start_def word_char_def)
  have "cstr ''*'' = ''*''" "cstr ''0,1'' = ''0,1''" by (simp_all add: cstr_plain)
  with reads_append [OF reads_keyword(9) reads_append [OF reads_parens(4) reads_append [OF reads_space
          reads_append [OF reads_keyword(8) reads_append [OF reads_table [OF assms(1)] reads_append [OF reads_keyword(6) w]]]]]]
  show ?thesis
    using joined_fields [OF assms(2)] by (intro reads_end) (simp add: select_sql_def where_text_def fmt_s_def Let_def)
qed

text \<open>
  Property C17. Requests do not escape from their statement.  For a table name and field names that are
  words and values that are integers or text without a quote, SQLite reads every statement of the
  \<^verbatim>\<open>Insert\<close>, \<^verbatim>\<open>Update\<close>, \<^verbatim>\<open>Delete\<close> and look-up commands as that one statement, with each value as one
  literal at its place and the only semicolon at the end; what the text values contain, SQL keywords,
  semicolons or comment signs, makes no difference.
\<close>

theorem statements_read_as_meant:
  assumes "is_word t" and "key \<noteq> []" "list_all (plain_field jl) key" and "dat \<noteq> []" "list_all (plain_field jl) dat"
  shows "sql_tokens (insert_sql (Some t) (cols_text (key @ dat)) (vals_text jl (key @ dat))) =
      Some ([T_word ''INSERT'', T_word ''INTO'', T_word t, T_sym CHR ''(''] @ cols_tokens (key @ dat) @
        [T_sym CHR '')'', T_word ''VALUES'', T_sym CHR ''(''] @ vals_tokens jl (key @ dat) @ [T_sym CHR '')'', T_sym CHR '';'']) \<and>
    sql_tokens (update_sql (Some t) (set_text jl dat) (where_text jl key)) =
      Some ([T_word ''UPDATE'', T_word t, T_word ''SET''] @ set_tokens jl dat @ [T_word ''WHERE''] @ where_tokens jl key @ [T_sym CHR '';'']) \<and>
    sql_tokens (delete_sql (Some t) (where_text jl key)) =
      Some ([T_word ''DELETE'', T_word ''from'', T_word t, T_word ''WHERE''] @ where_tokens jl key @ [T_sym CHR '';'']) \<and>
    sql_tokens (select_sql (Some t) (Some ''*'') (where_text jl key) None (Some ''0,1'')) =
      Some ([T_word ''SELECT'', T_sym CHR ''*'', T_word ''from'', T_word t, T_word ''WHERE''] @ where_tokens jl key @
        [T_word ''LIMIT'', T_word ''0'', T_sym CHR '','', T_word ''1''])"
  using insert_tokens [of t "key @ dat" jl] update_tokens [OF assms] delete_tokens [OF assms(1-3)] lookup_tokens [OF assms(1-3)] assms
  by simp

theorem statements_read_as_meant_witness:
  "sql_tokens (delete_sql (Some ''FaceList'') (where_text numbered_json [(''sName'', J_string ''; DROP TABLE x; --'')])) =
    Some ([T_word ''DELETE'', T_word ''from'', T_word ''FaceList'', T_word ''WHERE''] @
      where_tokens numbered_json [(''sName'', J_string ''; DROP TABLE x; --'')] @ [T_sym CHR '';''])"
  using statements_read_as_meant [of "''FaceList''" "[(''sName'', J_string ''; DROP TABLE x; --'')]" numbered_json "[(''iAge'', J_int 3)]"]
  by (simp add: is_word_def word_char_def plain_field_def plain_value_def json_object_get_string_def is_json_int_def)

text \<open>With a quote in a value the rest of it is read as SQL: here a deletion drops another table.\<close>

lemma quote_escapes_statement:
  "sql_tokens (delete_sql (Some ''FaceList'') (where_text numbered_json [(''sName'', J_string ([chr_sq] @ '';DROP TABLE User;'' @ [chr_sq]))])) =
    Some [T_word ''DELETE'', T_word ''from'', T_word ''FaceList'', T_word ''WHERE'', T_word ''sName'', T_sym CHR ''='', T_text [],
      T_sym CHR '';'', T_word ''DROP'', T_word ''TABLE'', T_word ''User'', T_sym CHR '';'', T_text [], T_sym CHR '';'']"
  by (simp add: delete_sql_def where_text_def joined_def assign_text_def value_text_def is_json_int_def json_object_get_string_def
      fmt_s_def cstr_def sql_tokens.simps(2) word_char_def)

end
