(* ===== verification/DbTables.thy ===== *)
theory DbTables
  imports DbSql
begin

text \<open>
  The initial tables of the database service: the statements of \<^verbatim>\<open>network_init\<close>, \<^verbatim>\<open>storage_init\<close>,
  \<^verbatim>\<open>media_init\<close>, \<^verbatim>\<open>system_init\<close>, \<^verbatim>\<open>event_init\<close> and \<^verbatim>\<open>peripherals_init\<close> as lists of steps, in the
  order of the code.  In the texts a single quote is written as a grave accent and a double
  quote as a tilde; \<open>sqt\<close> puts the quotes in.
\<close>

definition sqt :: "string \<Rightarrow> string" where
  "sqt s = map (\<lambda>c. if c = CHR 0x60 then chr_sq else if c = CHR 0x7E then chr_dq else c) s"

section \<open>\<^verbatim>\<open>network.c\<close>\<close>

definition TABLE_NETWORK_IP :: string where "TABLE_NETWORK_IP = ''NetworkIP''"
definition TABLE_NETWORK_SERVICE :: string where "TABLE_NETWORK_SERVICE = ''NetworkService''"
definition TABLE_NETWORK_POWER :: string where "TABLE_NETWORK_POWER = ''NetworkPower''"
definition TABLE_NETWORK_NTP :: string where "TABLE_NETWORK_NTP = ''ntp''"
definition TABLE_NETWORK_ZONE :: string where "TABLE_NETWORK_ZONE = ''zone''"
definition TABLE_NETWORK_PORT :: string where "TABLE_NETWORK_PORT = ''port''"
definition TABLE_NETWORK_VERSION :: string where "TABLE_NETWORK_VERSION = ''NetworkVersion''"
definition NETWORK_VERSION :: string where "NETWORK_VERSION = ''1.0.3''"

definition network_drops :: "db_step list" where
  "network_drops = [Drop TABLE_NETWORK_IP,
     Drop TABLE_NETWORK_SERVICE,
     Drop TABLE_NETWORK_POWER,
     Drop TABLE_NETWORK_NTP,
     Drop TABLE_NETWORK_ZONE,
     Drop TABLE_NETWORK_PORT,
     Drop TABLE_NETWORK_VERSION]"

definition network_tables_1 :: "db_step list" where
  "network_tables_1 = [Create TABLE_NETWORK_SERVICE
       (sqt ''id INTEGER PRIMARY KEY AUTOINCREMENT,sService TEXT NOT NULL UNIQUE,sPassword TEXT DEFAULT ``,iFavorite INT DEFAULT 0,iAutoconnect INT DEFAULT 0''),
     Create TABLE_NETWORK_IP
       (sqt ''id INTEGER PRIMARY KEY AUTOINCREMENT,sInterface TEXT NOT NULL UNIQUE,sType TEXT NOT NULL,sV4Method TEXT DEFAULT ``,sV4Address TEXT DEFAULT ``,sV4Netmask TEXT DEFAULT ``,sV4Gateway TEXT DEFAULT ``,sV6Method TEXT DEFAULT ``,sV6Address TEXT DEFAULT ``,sV6Netmask TEXT DEFAULT ``,sV6Gateway TEXT DEFAULT ``,sNicSpeed TEXT DEFAULT ``,sDNS1 TEXT DEFAULT ``,sDNS2 TEXT DEFAULT ``''),
     Insert TABLE_NETWORK_IP ''sInterface,sType,sV4Method''
       (sqt ''`wlan0`,`wifi`, `dhcp`''),
     Insert TABLE_NETWORK_IP ''sInterface,sType,sV4Method,sNicSpeed''
       (sqt ''`eth0`,`ethernet`, `dhcp`,`Auto`''),
     Create TABLE_NETWORK_POWER
       (''id INTEGER PRIMARY KEY AUTOINCREMENT,sType TEXT NOT NULL UNIQUE,iPower INT DEFAULT 0''),
     Insert TABLE_NETWORK_POWER ''sType,iPower''
       (sqt ''`wifi`,0''),
     Insert TABLE_NETWORK_POWER ''sType,iPower''
       (sqt ''`ethernet`,1''),
     Create TABLE_NETWORK_NTP
       (''id INTEGER PRIMARY KEY,sNtpServers TEXT NOT NULL,sTimeZone TEXT NOT NULL,sTimeZoneFile TEXT NOT NULL,sTimeZoneFileDst TEXT NOT NULL,iAutoMode INT DEFAULT 0,iAutoDst INT DEFAULT 0,iRefreshTime INT DEFAULT 120''),
     Insert TABLE_NETWORK_NTP ''id,sNtpServers,sTimeZone,sTimeZoneFile,sTimeZoneFileDst,iAutoDst,iAutoMode,iRefreshTime''
       (sqt ''0,`122.224.9.29 94.130.49.186`,`ChinaStandardTime-8`,`posix/Etc/GMT-8`,`posix/Asia/Shanghai`,0,1,60'')]"

definition network_tables_2 :: "db_step list" where
  "network_tables_2 = [Create TABLE_NETWORK_ZONE
       (''id INTEGER PRIMARY KEY AUTOINCREMENT,sTimeZone TEXT NOT NULL,sTimeZoneFile TEXT NOT NULL,sTimeZoneFileDst TEXT NOT NULL''),
     Insert TABLE_NETWORK_ZONE ''sTimeZone,sTimeZoneFile,sTimeZoneFileDst''
       (sqt ''`HawaiianStandardTime10`,`posix/Etc/GMT+10`,`posix/US/Hawaii`''),
     Insert TABLE_NETWORK_ZONE ''sTimeZone,sTimeZoneFile,sTimeZoneFileDst''
       (sqt ''`PacificStandardTime8DaylightTime,M3.2.0,M11.1.0`,`posix/Etc/GMT+8`,`posix/US/Pacific`''),
     Insert TABLE_NETWORK_ZONE ''sTimeZone,sTimeZoneFile,sTimeZoneFileDst''
       (sqt ''`GMTStandardTime0DaylightTime,M3.5.0/1,M10.5.0`,`posix/Etc/GMT-0`,`posix/Europe/London`''),
     Insert TABLE_NETWORK_ZONE ''sTimeZone,sTimeZoneFile,sTimeZoneFileDst''
       (sqt ''`ChinaStandardTime-8`,`posix/Etc/GMT-8`,`posix/Asia/Shanghai`''),
     Insert TABLE_NETWORK_ZONE ''sTimeZone,sTimeZoneFile,sTimeZoneFileDst''
       (sqt ''`TokyoStandardTime-9`,`posix/Etc/GMT-9`,`posix/Asia/Tokyo`''),
     Create TABLE_NETWORK_PORT
       (''id INTEGER PRIMARY KEY,sProtocol TEXT NOT NULL,iPortNo INT DEFAULT 0''),
     Insert TABLE_NETWORK_PORT ''id,sProtocol,iPortNo''
       (sqt ''0,`HTTP`,80''),
     Insert TABLE_NETWORK_PORT ''id,sProtocol,iPortNo''
       (sqt ''1,`HTTPS`,443''),
     Insert TABLE_NETWORK_PORT ''id,sProtocol,iPortNo''
       (sqt ''2,`DEV_MANAGE`,8080''),
     Insert TABLE_NETWORK_PORT ''id,sProtocol,iPortNo''
       (sqt ''3,`RTSP`,554''),
     Insert TABLE_NETWORK_PORT ''id,sProtocol,iPortNo''
       (sqt ''4,`RTMP`,1935'')]"

definition network_tables :: "db_step list" where
  "network_tables = network_tables_1 @ network_tables_2"

definition network_init :: "jsonlib \<Rightarrow> 'd sqlite \<Rightarrow> 'd dbs \<Rightarrow> 'd dbs option" where
  "network_init jl db = component_init jl db TABLE_NETWORK_VERSION NETWORK_VERSION network_drops network_tables"

section \<open>\<^verbatim>\<open>storage.c\<close>\<close>

definition TABLE_STORAGE_DISK_PATH :: string where "TABLE_STORAGE_DISK_PATH = ''StorageDiskPath''"
definition TABLE_STORAGE_MEDIA_FOLDER :: string where "TABLE_STORAGE_MEDIA_FOLDER = ''StorageMediaFolder''"
definition TABLE_STORAGE_CONFIG :: string where "TABLE_STORAGE_CONFIG = ''StorageConfig''"
definition TABLE_STORAGE_VERSION :: string where "TABLE_STORAGE_VERSION = ''StorageVersion''"
definition TABLE_STORAGE_PLAN_SNAP :: string where "TABLE_STORAGE_PLAN_SNAP = ''StoragePlanSnap''"
definition TABLE_STORAGE_ADVANCE_PARA :: string where "TABLE_STORAGE_ADVANCE_PARA = ''StorageAdvancePara''"
definition STORAGE_VERSION :: string where "STORAGE_VERSION = ''1.0.3''"

definition storage_drops :: "db_step list" where
  "storage_drops = [Drop TABLE_STORAGE_DISK_PATH,
     Drop TABLE_STORAGE_MEDIA_FOLDER,
     Drop TABLE_STORAGE_CONFIG,
     Drop TABLE_STORAGE_PLAN_SNAP,
     Drop TABLE_STORAGE_ADVANCE_PARA,
     Drop TABLE_STORAGE_VERSION]"

definition storage_tables_1 :: "db_step list" where
  "storage_tables_1 = [Create TABLE_STORAGE_DISK_PATH
       (sqt ''id INTEGER PRIMARY KEY AUTOINCREMENT,sPath TEXT NOT NULL UNIQUE,sName TEXT DEFAULT ``,iMount INT DEFAULT 0''),
     Insert TABLE_STORAGE_DISK_PATH ''sPath,sName,iMount''
       (sqt ''`/mnt/sdcard`,`SD Card`,0''),
     Insert TABLE_STORAGE_DISK_PATH ''sPath,sName,iMount''
       (sqt ''`/media/usb0`,`U Disk`,0''),
     Insert TABLE_STORAGE_DISK_PATH ''sPath,sName,iMount''
       (sqt ''`/userdata/media`,`Emmc`,0''),
     Create TABLE_STORAGE_MEDIA_FOLDER
       (''id INTEGER PRIMARY KEY,sMediaFolder TEXT NOT NULL UNIQUE,sThumbFolder TEXT,sFormat TEXT,iCamId INT,iType INT,iDuty INT,iMaxNum INT''),
     Insert TABLE_STORAGE_MEDIA_FOLDER ''id,sMediaFolder,sThumbFolder,sFormat,iCamId,iType,iDuty,iMaxNum''
       (sqt ''0,`video0`,`video0/.thumb`,`VIDEO_%Y%m%d%H%M%S`,0,0,45,-1''),
     Insert TABLE_STORAGE_MEDIA_FOLDER ''id,sMediaFolder,sThumbFolder,sFormat,iCamId,iType,iDuty,iMaxNum''
       (sqt ''1,`photo0`,`photo0/.thumb`,`PHOTO_%Y%m%d%H%M%S`,0,1,5,-1''),
     Insert TABLE_STORAGE_MEDIA_FOLDER ''id,sMediaFolder,sThumbFolder,sFormat,iCamId,iType,iDuty,iMaxNum''
       (sqt ''2,`video1`,`video1/.thumb`,`VIDEO_%Y%m%d%H%M%S`,1,0,45,-1''),
     Insert TABLE_STORAGE_MEDIA_FOLDER ''id,sMediaFolder,sThumbFolder,sFormat,iCamId,iType,iDuty,iMaxNum''
       (sqt ''3,`photo1`,`photo1/.thumb`,`PHOTO_%Y%m%d%H%M%S`,1,1,5,-1''),
     Insert TABLE_STORAGE_MEDIA_FOLDER ''id,sMediaFolder,sThumbFolder,sFormat,iCamId,iType,iDuty,iMaxNum''
       (sqt ''4,`black_list`,``,`%Y%m%d%H%M%S`,0,2,-1,-1''),
     Insert TABLE_STORAGE_MEDIA_FOLDER ''id,sMediaFolder,sThumbFolder,sFormat,iCamId,iType,iDuty,iMaxNum''
       (sqt ''5,`snapshot`,``,`%Y%m%d%H%M%S`,0,3,0,-1''),
     Insert TABLE_STORAGE_MEDIA_FOLDER ''id,sMediaFolder,sThumbFolder,sFormat,iCamId,iType,iDuty,iMaxNum''
       (sqt ''6,`white_list`,``,`%Y%m%d%H%M%S`,0,4,-1,-1''),
     Create TABLE_STORAGE_CONFIG
       (''id INTEGER PRIMARY KEY,iFreeSize INT DEFAULT -1,iFreeSizeNotice INT,sMountPath TEXT NOT NULL UNIQUE''),
     Insert TABLE_STORAGE_CONFIG ''id,iFreeSize,iFreeSizeNotice,sMountPath''
       (sqt ''0,1024,512,`/userdata/media`'')]"

definition storage_tables_2 :: "db_step list" where
  "storage_tables_2 = [Create TABLE_STORAGE_PLAN_SNAP
       (''id INTEGER PRIMARY KEY,iEnabled INT DEFAULT 0,sImageType TEXT,sResolution TEXT,iImageQuality INT DEFAULT 10,iShotInterval INT DEFAULT 1000,iShotNumber INT DEFAULT 1''),
     Insert TABLE_STORAGE_PLAN_SNAP ''id,iEnabled,sImageType,sResolution,iImageQuality,iShotInterval,iShotNumber''
       (sqt ''0,0,`JPEG`,`2688*1520`,10,10000,1''),
     Insert TABLE_STORAGE_PLAN_SNAP ''id,iEnabled,sImageType,sResolution,iImageQuality,iShotInterval,iShotNumber''
       (sqt ''1,0,`JPEG`,`2688*1520`,10,1000,4''),
     Create TABLE_STORAGE_ADVANCE_PARA
       (''id INTEGER PRIMARY KEY,iEnabled INT DEFAULT 0''),
     Insert TABLE_STORAGE_ADVANCE_PARA ''id''
       ''0'']"

definition storage_tables :: "db_step list" where
  "storage_tables = storage_tables_1 @ storage_tables_2"

definition storage_init :: "jsonlib \<Rightarrow> 'd sqlite \<Rightarrow> 'd dbs \<Rightarrow> 'd dbs option" where
  "storage_init jl db = component_init jl db TABLE_STORAGE_VERSION STORAGE_VERSION storage_drops storage_tables"

section \<open>\<^verbatim>\<open>event.c\<close>\<close>

definition TABLE_EVENT_TRIGGERS :: string where "TABLE_EVENT_TRIGGERS = ''EventTriggers''"
definition TABLE_EVENT_SCHEDULES :: string where "TABLE_EVENT_SCHEDULES = ''EventSchedules''"
definition TABLE_REGIONAL_INVASION :: string where "TABLE_REGIONAL_INVASION = ''RegionalInvasion''"
definition TABLE_MOVE_DETECTION :: string where "TABLE_MOVE_DETECTION = ''MoveDetection''"
definition TABLE_FACE_CONFIG :: string where "TABLE_FACE_CONFIG = ''FaceConfig''"
definition TABLE_FACE_LIST :: string where "TABLE_FACE_LIST = ''FaceList''"
definition TABLE_FACE_SNAPSHOT_RECORD :: string where "TABLE_FACE_SNAPSHOT_RECORD = ''FaceSnapshotRecord''"
definition TABLE_FACE_CONTROL_RECORD :: string where "TABLE_FACE_CONTROL_RECORD = ''FaceControlRecord''"
definition TABLE_SMART_COVER :: string where "TABLE_SMART_COVER = ''SmartCover''"
definition TABLE_SMART_COVER_OVERLAY :: string where "TABLE_SMART_COVER_OVERLAY = ''SmartCoverOverlay''"
definition TABLE_EVENT_VERSION :: string where "TABLE_EVENT_VERSION = ''EventVersion''"
definition TABLE_NOTIFICATION :: string where "TABLE_NOTIFICATION = ''Notification''"
definition EVENT_VERSION :: string where "EVENT_VERSION = ''1.0.1''"

definition event_drops :: "db_step list" where
  "event_drops = [Drop TABLE_EVENT_TRIGGERS,
     Drop TABLE_EVENT_SCHEDULES,
     Drop TABLE_REGIONAL_INVASION,
     Drop TABLE_MOVE_DETECTION,
     Drop TABLE_FACE_CONFIG,
     Drop TABLE_FACE_LIST,
     Drop TABLE_FACE_SNAPSHOT_RECORD,
     Drop TABLE_FACE_CONTROL_RECORD,
     Drop TABLE_SMART_COVER,
     Drop TABLE_SMART_COVER_OVERLAY,
     Drop TABLE_NOTIFICATION,
     Drop TABLE_EVENT_VERSION]"

definition event_tables_1 :: "db_step list" where
  "event_tables_1 = [Create TABLE_EVENT_TRIGGERS
       (''id INTEGER PRIMARY KEY AUTOINCREMENT,sEventType TEXT,iVideoInputChannelID INT DEFAULT 0,iNotificationIO1Enabled INT DEFAULT 0,iNotificationRecord1Enabled INT DEFAULT 0,iNotificationEmailEnabled INT DEFAULT 0,iNotificationCenterEnabled INT DEFAULT 0,iNotificationFTPEnabled INT DEFAULT 0''),
     Insert TABLE_EVENT_TRIGGERS ''id, sEventType''
       (sqt ''0, `VMD`''),
     Insert TABLE_EVENT_TRIGGERS ''id, sEventType''
       (sqt ''1, `VRI`''),
     Create TABLE_EVENT_SCHEDULES
       (''id INTEGER PRIMARY KEY AUTOINCREMENT,sSchedulesJson TEXT''),
     Insert TABLE_EVENT_SCHEDULES ''id, sSchedulesJson''
       (sqt ''0, ``''),
     Insert TABLE_EVENT_SCHEDULES ''id, sSchedulesJson''
       (sqt ''1, ``''),
     Insert TABLE_EVENT_SCHEDULES ''id, sSchedulesJson''
       (sqt ''2, ``''),
     Insert TABLE_EVENT_SCHEDULES ''id, sSchedulesJson''
       (sqt ''3, ``''),
     Create TABLE_REGIONAL_INVASION
       (''id INTEGER PRIMARY KEY AUTOINCREMENT,iEnabled INT DEFAULT 0,iTimeThreshold INT DEFAULT 0,iProportion INT DEFAULT 0,iSensitivityLevel INT DEFAULT 50,iPositionX INT DEFAULT 0,iPositionY INT DEFAULT 0,iWidth INT DEFAULT 0,iHeight INT DEFAULT 0''),
     Insert TABLE_REGIONAL_INVASION ''id''
       ''0'']"

definition event_tables_2 :: "db_step list" where
  "event_tables_2 = [Create TABLE_MOVE_DETECTION
       (sqt ''id INTEGER PRIMARY KEY AUTOINCREMENT,iMotionDetectionEnabled INT DEFAULT 0,iHighlightEnabled INT DEFAULT 0,iSamplingInterval INT DEFAULT 2,iStartTriggerTime INT DEFAULT 500,iEndTriggerTime INT DEFAULT 500,sRegionType TEXT DEFAULT `grid`,iRowGranularity INT DEFAULT 18,iColumnGranularity INT DEFAULT 22,iSensitivityLevel INT DEFAULT 0,sGridMap TEXT DEFAULT `000000000000000000000000000000000000000000000000000000000000000000000000000000000000000000000000000000000000`''),
     Insert TABLE_MOVE_DETECTION ''id''
       ''0'',
     Create TABLE_FACE_CONFIG
       (sqt ''id INTEGER PRIMARY KEY AUTOINCREMENT,iPromptVolume INT DEFAULT 50,sLiveDetect TEXT DEFAULT `open`,sLiveDetectBeginTime TEXT DEFAULT `00:00`,sLiveDetectEndTime TEXT DEFAULT `23:59`,iLiveDetectThreshold INT DEFAULT 50,iFaceDetectionThreshold INT DEFAULT 55,iFaceRecognitionThreshold INT DEFAULT 50,iFaceMinPixel INT DEFAULT 144,iLeftCornerX INT DEFAULT 0,iLeftCornerY INT DEFAULT 0,iDetectWidth INT DEFAULT 720,iDetectHeight INT DEFAULT 1280,iNormalizedHeight INT DEFAULT 1280,iNormalizedWidth INT DEFAULT 720''),
     Insert TABLE_FACE_CONFIG ''id''
       ''0'']"

definition event_tables_3 :: "db_step list" where
  "event_tables_3 = [Create TABLE_FACE_LIST
       (sqt (''id INTEGER PRIMARY KEY AUTOINCREMENT,sPicturePath TEXT DEFAULT ``,sRegistrationTime TEXT DEFAULT `2020-01-01T00:00:00`,iAge INT DEFAULT 20,sListType TEXT DEFAULT `permanent`,sType TEXT DEFAULT `whiteList`,sName TEXT DEFAULT `User`,sGender TEXT DEFAULT `male`,sNation TEXT DEFAULT `'' @ [CHR 0xE6, CHR 0xB1, CHR 0x89] @ ''`,sCertificateType TEXT DEFAULT `identityCard`,sCertificateNumber TEXT DEFAULT ``,sBirthday TEXT DEFAULT `2000-01-01`,sTelephoneNumber TEXT DEFAULT ``,sHometown TEXT DEFAULT ``,sAddress TEXT DEFAULT ``,iAccessCardNumber INT DEFAULT 0,iLoadCompleted INT DEFAULT 0,iFaceDBId INT DEFAULT -1,sNote TEXT DEFAULT ``'')),
     Create TABLE_FACE_SNAPSHOT_RECORD
       (sqt ''id INTEGER PRIMARY KEY AUTOINCREMENT,sTime TEXT DEFAULT `2020-01-01T00:00:00`,sPicturePath TEXT DEFAULT ``,sStatus TEXT DEFAULT `Processed`,sNote TEXT DEFAULT `Snapshot`''),
     Create TABLE_FACE_CONTROL_RECORD
       (sqt ''id INTEGER PRIMARY KEY AUTOINCREMENT,sTime TEXT DEFAULT `2020-01-01T00:00:00`,iFaceId INT DEFAULT 0,sSnapshotPath TEXT DEFAULT ``,sStatus TEXT DEFAULT `open`,sSimilarity TEXT DEFAULT `75.00`'')]"

definition event_tables_4 :: "db_step list" where
  "event_tables_4 = [Create TABLE_SMART_COVER
       (''id INTEGER PRIMARY KEY AUTOINCREMENT,iFaceEnabled INT DEFAULT 0,iFaceRecognitionEnabled INT DEFAULT 0,iStreamOverlayEnabled INT DEFAULT 0,iImageOverlayEnabled INT DEFAULT 0,iInfoOverlayEnabled INT DEFAULT 0,sTargetImageType TEXT,iWidthRatio INT DEFAULT 10,iFaceHeightRatio INT DEFAULT 10,iBodyHeightRatio INT DEFAULT 10,sImageQuality TEXT''),
     Insert TABLE_SMART_COVER ''id, sTargetImageType, sImageQuality''
       (sqt ''0, `head`, `good`''),
     Create TABLE_SMART_COVER_OVERLAY
       (''id INTEGER PRIMARY KEY AUTOINCREMENT,iEnabled INT DEFAULT 0,sName TEXT,sInfo TEXT,iOrder INT''),
     Insert TABLE_SMART_COVER_OVERLAY ''id, sName, sInfo, iOrder''
       (sqt ''0, `deviceNum`, ``, 0''),
     Insert TABLE_SMART_COVER_OVERLAY ''id, sName, sInfo, iOrder''
       (sqt ''1, `snapTime`, ``, 1''),
     Insert TABLE_SMART_COVER_OVERLAY ''id, sName, sInfo, iOrder''
       (sqt ''2, `positonInfo`, ``, 2''),
     Create TABLE_NOTIFICATION
       (sqt ''id INTEGER PRIMARY KEY AUTOINCREMENT,sArrivalTime TEXT DEFAULT ``,sTopic TEXT DEFAULT ``,sOperation TEXT DEFAULT ``,sSource TEXT DEFAULT ``,sKey TEXT DEFAULT ``,sData TEXT DEFAULT ``,sMessage TEXT DEFAULT ``,sDetails TEXT DEFAULT ``'')]"

definition event_tables :: "db_step list" where
  "event_tables = event_tables_1 @ event_tables_2 @ event_tables_3 @ event_tables_4"

definition event_init :: "jsonlib \<Rightarrow> 'd sqlite \<Rightarrow> 'd dbs \<Rightarrow> 'd dbs option" where
  "event_init jl db = component_init jl db TABLE_EVENT_VERSION EVENT_VERSION event_drops event_tables"

section \<open>\<^verbatim>\<open>peripherals.c\<close>\<close>

definition TABLE_PERIPHERALS_RELAY :: string where "TABLE_PERIPHERALS_RELAY = ''PeripheralsRelay''"
definition TABLE_PERIPHERALS_WEIGEN :: string where "TABLE_PERIPHERALS_WEIGEN = ''PeripheralsWeigen''"
definition TABLE_PERIPHERALS_FILL_LIGHT :: string where "TABLE_PERIPHERALS_FILL_LIGHT = ''PeripheralsFillLight''"
definition TABLE_PERIPHERALS_VERSION :: string where "TABLE_PERIPHERALS_VERSION = ''PeripheralsVersion''"
definition PERIPHERALS_VERSION :: string where "PERIPHERALS_VERSION = ''1.0.0''"

definition peripherals_drops :: "db_step list" where
  "peripherals_drops = [Drop TABLE_PERIPHERALS_RELAY,
     Drop TABLE_PERIPHERALS_WEIGEN,
     Drop TABLE_PERIPHERALS_FILL_LIGHT,
     Drop TABLE_PERIPHERALS_VERSION]"

definition peripherals_tables :: "db_step list" where
  "peripherals_tables = [Create TABLE_PERIPHERALS_RELAY
       (''id INTEGER PRIMARY KEY AUTOINCREMENT,iIOIndex INT,iEnable INT DEFAULT 0,iValidLevel INT DEFAULT 1,iDuration INT DEFAULT 500''),
     Insert TABLE_PERIPHERALS_RELAY ''id, iIOIndex''
       ''0, 0'',
     Create TABLE_PERIPHERALS_WEIGEN
       (''id INTEGER PRIMARY KEY AUTOINCREMENT,iEnable INT DEFAULT 0,iWiegandBit INT DEFAULT 26,iDuration INT DEFAULT 0''),
     Insert TABLE_PERIPHERALS_WEIGEN ''id''
       ''0'',
     Create TABLE_PERIPHERALS_FILL_LIGHT
       (''id INTEGER PRIMARY KEY AUTOINCREMENT,iSaveEnergyEnable INT DEFAULT 0,iSaveEnergyBrightness INT DEFAULT 50,iNormalBrightness INT DEFAULT 50''),
     Insert TABLE_PERIPHERALS_FILL_LIGHT ''id''
       ''0'']"

definition peripherals_init :: "jsonlib \<Rightarrow> 'd sqlite \<Rightarrow> 'd dbs \<Rightarrow> 'd dbs option" where
  "peripherals_init jl db = component_init jl db TABLE_PERIPHERALS_VERSION PERIPHERALS_VERSION peripherals_drops peripherals_tables"

section \<open>\<^verbatim>\<open>media.c\<close>\<close>

definition TABLE_VIDEO :: string where "TABLE_VIDEO = ''video''"
definition TABLE_VIDEO_ADVANCED_ENC :: string where "TABLE_VIDEO_ADVANCED_ENC = ''video_advanced_enc''"
definition TABLE_VIDEO_REGION_CLIP :: string where "TABLE_VIDEO_REGION_CLIP = ''video_region_clip''"
definition TABLE_AUDIO :: string where "TABLE_AUDIO = ''audio''"
definition TABLE_STREAM_URL :: string where "TABLE_STREAM_URL = ''stream_url''"
definition TABLE_IMAGE_SCENARIO :: string where "TABLE_IMAGE_SCENARIO = ''image_scenario''"
definition TABLE_IMAGE_ADJUSTMENT :: string where "TABLE_IMAGE_ADJUSTMENT = ''image_adjustment''"
definition TABLE_IMAGE_EXPOSURE :: string where "TABLE_IMAGE_EXPOSURE = ''image_exposure''"
definition TABLE_IMAGE_NIGHT_TO_DAY :: string where "TABLE_IMAGE_NIGHT_TO_DAY = ''image_night_to_day''"
definition TABLE_IMAGE_BLC :: string where "TABLE_IMAGE_BLC = ''image_blc''"
definition TABLE_IMAGE_WHITE_BLANCE :: string where "TABLE_IMAGE_WHITE_BLANCE = ''image_white_blance''"
definition TABLE_IMAGE_ENHANCEMENT :: string where "TABLE_IMAGE_ENHANCEMENT = ''image_enhancement''"
definition TABLE_IMAGE_VIDEO_ADJUSTMEN :: string where "TABLE_IMAGE_VIDEO_ADJUSTMEN = ''image_video_adjustment''"
definition TABLE_NORMALIZED_SCREEN_SIZE :: string where "TABLE_NORMALIZED_SCREEN_SIZE = ''normalized_screen_size''"
definition TABLE_OSD :: string where "TABLE_OSD = ''osd''"
definition TABLE_ROI :: string where "TABLE_ROI = ''roi''"
definition TABLE_PROFILE :: string where "TABLE_PROFILE = ''profile''"
definition TABLE_METADATA :: string where "TABLE_METADATA = ''metadata''"
definition TABLE_VIDEO_SOURCE :: string where "TABLE_VIDEO_SOURCE = ''video_source''"
definition TABLE_VIDEO_SOURCE_CONFIGURATION :: string where "TABLE_VIDEO_SOURCE_CONFIGURATION = ''video_source_configuration''"
definition TABLE_MEDIA_VERSION :: string where "TABLE_MEDIA_VERSION = ''MediaVersion''"
definition MEDIA_VERSION :: string where "MEDIA_VERSION = ''1.0.1''"

definition media_drops :: "db_step list" where
  "media_drops = [Drop TABLE_VIDEO,
     Drop TABLE_VIDEO_ADVANCED_ENC,
     Drop TABLE_VIDEO_REGION_CLIP,
     Drop TABLE_AUDIO,
     Drop TABLE_STREAM_URL,
     Drop TABLE_IMAGE_SCENARIO,
     Drop TABLE_IMAGE_ADJUSTMENT,
     Drop TABLE_IMAGE_EXPOSURE,
     Drop TABLE_IMAGE_NIGHT_TO_DAY,
     Drop TABLE_IMAGE_BLC,
     Drop TABLE_IMAGE_WHITE_BLANCE,
     Drop TABLE_IMAGE_ENHANCEMENT,
     Drop TABLE_IMAGE_VIDEO_ADJUSTMEN,
     Drop TABLE_NORMALIZED_SCREEN_SIZE,
     Drop TABLE_OSD,
     Drop TABLE_ROI,
     Drop TABLE_PROFILE,
     Drop TABLE_VIDEO_SOURCE,
     Drop TABLE_VIDEO_SOURCE_CONFIGURATION,
     Drop TABLE_METADATA,
     Drop TABLE_MEDIA_VERSION]"

definition media_tables_1 :: "db_step list" where
  "media_tables_1 = [Create TABLE_VIDEO
       (sqt ''id INTEGER PRIMARY KEY,sStreamType TEXT DEFAULT `mainStream`,sVideoType TEXT DEFAULT `compositeStream`,sResolution TEXT DEFAULT `2688*1520`,sRCMode TEXT DEFAULT `CBR`,sRCQuality TEXT DEFAULT `high`,sFrameRate TEXT DEFAULT `25`,sFrameRateIn TEXT DEFAULT `25`,iTargetRate INT DEFAULT 0,iMaxRate INT DEFAULT 4096,iMinRate INT DEFAULT 0,sOutputDataType TEXT DEFAULT `H.264`,sSmart TEXT DEFAULT `close`,sH264Profile TEXT DEFAULT `high`,iGOP INT DEFAULT 50,sSVC TEXT DEFAULT `close`,iStreamSmooth INT DEFAULT 50,sVideoSourceToken TEXT DEFAULT `VideoSource_0`,sVideoEncoderConfigurationToken TEXT DEFAULT `VideoEncoderToken_0`,sVideoEncoderConfigurationName TEXT DEFAULT `VideoEncoder_0`''),
     Insert TABLE_VIDEO ''id, sStreamType, sResolution, iMaxRate, sOutputDataType, sVideoEncoderConfigurationToken, sVideoEncoderConfigurationName''
       (sqt ''0, `mainStream`, `2688*1520`, 8192, `H.264`, `VideoEncoderToken_0`, `VideoEncoder_0`''),
     Insert TABLE_VIDEO ''id, sStreamType, sResolution, iMaxRate, sVideoEncoderConfigurationToken, sVideoEncoderConfigurationName''
       (sqt ''1, `subStream`, `640*480`, 1024, `VideoEncoderToken_1`, `VideoEncoder_1`''),
     Insert TABLE_VIDEO ''id, sStreamType, sResolution, iMaxRate, sOutputDataType, sVideoEncoderConfigurationToken, sVideoEncoderConfigurationName''
       (sqt ''2, `thirdStream`, `1920*1080`, 2048, `H.264`, `VideoEncoderToken_2`, `VideoEncoder_2`''),
     Create TABLE_VIDEO_ADVANCED_ENC
       (sqt ''id INTEGER PRIMARY KEY,sStreamType TEXT DEFAULT `mainStream`,sFunction TEXT DEFAULT ``,sParameters TEXT DEFAULT ``''),
     Insert TABLE_VIDEO_ADVANCED_ENC ''id, sStreamType, sFunction, sParameters''
       (sqt ''0, `mainStream`, `qp`, `{~qp_init~:24,~qp_step~:4,~qp_min~:12,~qp_max~:48,~min_i_qp~:10,~max_i_qp~:20}`''),
     Insert TABLE_VIDEO_ADVANCED_ENC ''id, sStreamType, sFunction, sParameters''
       (sqt ''1, `mainStream`, `split`, `{~mode~:0,~size~:1024}`'')]"

definition media_tables_2 :: "db_step list" where
  "media_tables_2 = [Create TABLE_AUDIO
       (sqt ''id INTEGER PRIMARY KEY,sEncodeType TEXT DEFAULT `MP2`,iSampleRate INT DEFAULT 16000,iBitRate INT DEFAULT 32000,sInput TEXT DEFAULT `micIn`,iVolume INT DEFAULT 50,sANS TEXT DEFAULT `close`''),
     Insert TABLE_AUDIO ''id''
       ''0'',
     Create TABLE_STREAM_URL
       (''id INTEGER PRIMARY KEY,sStreamProtocol TEXT NOT NULL''),
     Insert TABLE_STREAM_URL ''id,sStreamProtocol''
       (sqt ''0,`RTSP`''),
     Insert TABLE_STREAM_URL ''id,sStreamProtocol''
       (sqt ''1,`RTMP`''),
     Insert TABLE_STREAM_URL ''id,sStreamProtocol''
       (sqt ''2,`RTMP`''),
     Insert TABLE_STREAM_URL ''id,sStreamProtocol''
       (sqt ''3,`HTTP`''),
     Insert TABLE_STREAM_URL ''id,sStreamProtocol''
       (sqt ''4,`HTTP`''),
     Insert TABLE_STREAM_URL ''id,sStreamProtocol''
       (sqt ''5,`HTTP`''),
     Create TABLE_IMAGE_SCENARIO
       (sqt ''id INTEGER PRIMARY KEY,sScenario TEXT DEFAULT `normal`''),
     Insert TABLE_IMAGE_SCENARIO ''id''
       ''0'',
     Create TABLE_IMAGE_ADJUSTMENT
       (sqt ''id INTEGER PRIMARY KEY,iBrightness INT DEFAULT 50,iContrast INT DEFAULT 50,iSaturation INT DEFAULT 50,iSharpness INT DEFAULT 50,iFPS INT DEFAULT 30,sGridWeight TEXT DEFAULT ``,iEvbias INT DEFAULT 50,iHue INT DEFAULT 50''),
     Insert TABLE_IMAGE_ADJUSTMENT ''id''
       ''0'',
     Insert TABLE_IMAGE_ADJUSTMENT ''id''
       ''1'',
     Insert TABLE_IMAGE_ADJUSTMENT ''id''
       ''2'',
     Insert TABLE_IMAGE_ADJUSTMENT ''id''
       ''3'',
     Insert TABLE_IMAGE_ADJUSTMENT ''id''
       ''4'',
     Insert TABLE_IMAGE_ADJUSTMENT ''id''
       ''5'']"

definition media_tables_3 :: "db_step list" where
  "media_tables_3 = [Create TABLE_IMAGE_EXPOSURE
       (sqt ''id INTEGER PRIMARY KEY,sIrisType TEXT DEFAULT `auto`,sExposureMode TEXT DEFAULT `auto`,sGainMode TEXT DEFAULT `auto`,iAutoIrisLevel INT DEFAULT 5,iAutoExposureEnabled INT DEFAULT 1,iAutoGainEnabled INT DEFAULT 1,sExposureTime TEXT DEFAULT `1/6`,iExposureGain INT DEFAULT 1''),
     Insert TABLE_IMAGE_EXPOSURE ''id''
       ''0'',
     Insert TABLE_IMAGE_EXPOSURE ''id''
       ''1'',
     Insert TABLE_IMAGE_EXPOSURE ''id''
       ''2'',
     Insert TABLE_IMAGE_EXPOSURE ''id''
       ''3'',
     Insert TABLE_IMAGE_EXPOSURE ''id''
       ''4'',
     Insert TABLE_IMAGE_EXPOSURE ''id''
       ''5'',
     Create TABLE_IMAGE_NIGHT_TO_DAY
       (sqt ''id INTEGER PRIMARY KEY,sNightToDay TEXT DEFAULT `auto`,iNightToDayFilterLevel INT DEFAULT 5,iNightToDayFilterTime INT DEFAULT 5,sDawnTime TEXT DEFAULT `07:00:00`,sDuskTime TEXT DEFAULT `18:00:00`,sIrcutFilterAction TEXT DEFAULT `day`,sOverexposeSuppress TEXT DEFAULT `open`,sOverexposeSuppressType TEXT DEFAULT `auto`,sFillLightMode TEXT DEFAULT `IR`,sBrightnessAdjustmentMode TEXT DEFAULT `auto`,iLightBrightness INT DEFAULT 1,iDistanceLevel INT DEFAULT 1''),
     Insert TABLE_IMAGE_NIGHT_TO_DAY ''id''
       ''0'',
     Insert TABLE_IMAGE_NIGHT_TO_DAY ''id''
       ''1'',
     Insert TABLE_IMAGE_NIGHT_TO_DAY ''id''
       ''2'',
     Insert TABLE_IMAGE_NIGHT_TO_DAY ''id''
       ''3'',
     Insert TABLE_IMAGE_NIGHT_TO_DAY ''id''
       ''4'',
     Insert TABLE_IMAGE_NIGHT_TO_DAY ''id''
       ''5'']"

definition media_tables_4 :: "db_step list" where
  "media_tables_4 = [Create TABLE_IMAGE_BLC
       (sqt ''id INTEGER PRIMARY KEY,sBLCRegion TEXT DEFAULT `close`,iBLCStrength INT DEFAULT 1,sWDR TEXT DEFAULT `close`,iWDRLevel INT DEFAULT 0,sHDR TEXT DEFAULT `HDR2`,iHDRLevel INT DEFAULT 1,sHLC TEXT DEFAULT `close`,iHLCLevel INT DEFAULT 0,iDarkBoostLevel INT DEFAULT 0,iPositionX INT DEFAULT 0,iPositionY INT DEFAULT 0,iBLCRegionWidth INT DEFAULT 120,iBLCRegionHeight INT DEFAULT 92''),
     Insert TABLE_IMAGE_BLC ''id''
       ''0'',
     Insert TABLE_IMAGE_BLC ''id''
       ''1'',
     Insert TABLE_IMAGE_BLC ''id''
       ''2'',
     Insert TABLE_IMAGE_BLC ''id''
       ''3'',
     Insert TABLE_IMAGE_BLC ''id''
       ''4'',
     Insert TABLE_IMAGE_BLC ''id''
       ''5'',
     Create TABLE_IMAGE_WHITE_BLANCE
       (sqt ''id INTEGER PRIMARY KEY,sWhiteBlanceStyle TEXT DEFAULT `autoWhiteBalance`,iWhiteBalanceRed INT DEFAULT 50,iWhiteBalanceGreen INT DEFAULT 50,iWhiteBalanceBlue INT DEFAULT 50''),
     Insert TABLE_IMAGE_WHITE_BLANCE ''id''
       ''0'',
     Insert TABLE_IMAGE_WHITE_BLANCE ''id''
       ''1'',
     Insert TABLE_IMAGE_WHITE_BLANCE ''id''
       ''2'',
     Insert TABLE_IMAGE_WHITE_BLANCE ''id''
       ''3'',
     Insert TABLE_IMAGE_WHITE_BLANCE ''id''
       ''4'',
     Insert TABLE_IMAGE_WHITE_BLANCE ''id''
       ''5'']"

definition media_tables_5 :: "db_step list" where
  "media_tables_5 = [Create TABLE_IMAGE_ENHANCEMENT
       (sqt ''id INTEGER PRIMARY KEY,sNoiseReduceMode TEXT DEFAULT `default`,iDenoiseLevel INT DEFAULT 50,iSpatialDenoiseLevel INT DEFAULT 50,iTemporalDenoiseLevel INT DEFAULT 50,sDehaze TEXT DEFAULT `close`,iDehazeLevel INT DEFAULT 0,sDIS TEXT DEFAULT `close`,sGrayScaleMode TEXT DEFAULT `[0-255]`,iImageRotation INT DEFAULT 0,sFEC TEXT DEFAULT `close`,sDistortionCorrection TEXT DEFAULT `close`,iFecLevel INT DEFAULT 100,iLdchLevel INT DEFAULT 0''),
     Insert TABLE_IMAGE_ENHANCEMENT ''id''
       ''0'',
     Insert TABLE_IMAGE_ENHANCEMENT ''id''
       ''1'',
     Insert TABLE_IMAGE_ENHANCEMENT ''id''
       ''2'',
     Insert TABLE_IMAGE_ENHANCEMENT ''id''
       ''3'',
     Insert TABLE_IMAGE_ENHANCEMENT ''id''
       ''4'',
     Insert TABLE_IMAGE_ENHANCEMENT ''id''
       ''5'',
     Create TABLE_IMAGE_VIDEO_ADJUSTMEN
       (sqt ''id INTEGER PRIMARY KEY,sImageFlip TEXT DEFAULT `close`,sSceneMode TEXT DEFAULT `indoor`,sPowerLineFrequencyMode TEXT DEFAULT `PAL(50HZ)`''),
     Insert TABLE_IMAGE_VIDEO_ADJUSTMEN ''id''
       ''0'',
     Insert TABLE_IMAGE_VIDEO_ADJUSTMEN ''id''
       ''1'',
     Insert TABLE_IMAGE_VIDEO_ADJUSTMEN ''id''
       ''2'',
     Insert TABLE_IMAGE_VIDEO_ADJUSTMEN ''id''
       ''3'',
     Insert TABLE_IMAGE_VIDEO_ADJUSTMEN ''id''
       ''4'',
     Insert TABLE_IMAGE_VIDEO_ADJUSTMEN ''id''
       ''5'',
     Create TABLE_NORMALIZED_SCREEN_SIZE
       (''id INTEGER PRIMARY KEY,iNormalizedScreenWidth INT DEFAULT 704,iNormalizedScreenHeight INT DEFAULT 480''),
     Insert TABLE_NORMALIZED_SCREEN_SIZE ''id''
       ''0'']"

definition media_tables_6 :: "db_step list" where
  "media_tables_6 = [Create TABLE_OSD
       (sqt ''id INTEGER PRIMARY KEY,sType TEXT,iEnabled INT DEFAULT 0,iPositionX INT DEFAULT 0,iPositionY INT DEFAULT 0,iWidth INT DEFAULT 0,iHeight INT DEFAULT 0,sIsPersistentText TEXT DEFAULT `true`,sDisplayText TEXT DEFAULT ``,iDisplayWeekEnabled INT DEFAULT 1,sDateStyle TEXT DEFAULT ``,sTimeStyle TEXT DEFAULT ``,iTransparentColorEnabled INT DEFAULT 0,sOSDAttribute TEXT DEFAULT `transparent/not-flashing`,sOSDFontSize TEXT DEFAULT `32*32`,sOSDFrontColorMode TEXT DEFAULT `customize`,sOSDFrontColor TEXT DEFAULT `fff799`,sAlignment TEXT DEFAULT `customize`,iBoundary INT DEFAULT 0''),
     Insert TABLE_OSD ''id,sType,iEnabled,sDisplayText,iPositionX,iPositionY''
       (sqt ''0,`channelName`,1,`Camera 01`,540,432''),
     Insert TABLE_OSD ''id,sType,iEnabled,sDateStyle,sTimeStyle,iPositionX,iPositionY''
       (sqt ''1,`dateTime`,1,`CHR-YYYY-MM-DD`,`24hour`,16,16''),
     Insert TABLE_OSD ''id,sType''
       (sqt ''2,`character`''),
     Insert TABLE_OSD ''id,sType''
       (sqt ''3,`character`''),
     Insert TABLE_OSD ''id,sType''
       (sqt ''4,`character`''),
     Insert TABLE_OSD ''id,sType''
       (sqt ''5,`character`''),
     Insert TABLE_OSD ''id,sType''
       (sqt ''6,`character`''),
     Insert TABLE_OSD ''id,sType''
       (sqt ''7,`character`''),
     Insert TABLE_OSD ''id,sType''
       (sqt ''8,`character`''),
     Insert TABLE_OSD ''id,sType''
       (sqt ''9,`character`''),
     Insert TABLE_OSD ''id,sType''
       (sqt ''10,`privacyMask`''),
     Insert TABLE_OSD ''id,sType''
       (sqt ''11,`privacyMask`''),
     Insert TABLE_OSD ''id,sType''
       (sqt ''12,`privacyMask`''),
     Insert TABLE_OSD ''id,sType''
       (sqt ''13,`privacyMask`''),
     Insert TABLE_OSD ''id,sType,iEnabled,iPositionX,iPositionY''
       (sqt ''14,`image`,1,16,388'')]"

definition media_tables_7 :: "db_step list" where
  "media_tables_7 = [Create TABLE_ROI
       (sqt ''id INTEGER PRIMARY KEY,sStreamType TEXT,iStreamEnabled INT DEFAULT 0,iROIId INT,iROIEnabled INT DEFAULT 0,sName TEXT DEFAULT `test`,iQualityLevelOfROI INT DEFAULT 3,iPositionX INT DEFAULT 0,iPositionY INT DEFAULT 0,iWidth INT DEFAULT 0,iHeight INT DEFAULT 0''),
     Insert TABLE_ROI ''id,sStreamType,iROIId''
       (sqt ''0,`mainStream`,1''),
     Insert TABLE_ROI ''id,sStreamType,iROIId''
       (sqt ''1,`mainStream`,2''),
     Insert TABLE_ROI ''id,sStreamType,iROIId''
       (sqt ''2,`mainStream`,3''),
     Insert TABLE_ROI ''id,sStreamType,iROIId''
       (sqt ''3,`mainStream`,4''),
     Insert TABLE_ROI ''id,sStreamType,iROIId''
       (sqt ''4,`subStream`,1''),
     Insert TABLE_ROI ''id,sStreamType,iROIId''
       (sqt ''5,`subStream`,2''),
     Insert TABLE_ROI ''id,sStreamType,iROIId''
       (sqt ''6,`subStream`,3''),
     Insert TABLE_ROI ''id,sStreamType,iROIId''
       (sqt ''7,`subStream`,4''),
     Insert TABLE_ROI ''id,sStreamType,iROIId''
       (sqt ''8,`thirdStream`,1''),
     Insert TABLE_ROI ''id,sStreamType,iROIId''
       (sqt ''9,`thirdStream`,2''),
     Insert TABLE_ROI ''id,sStreamType,iROIId''
       (sqt ''10,`thirdStream`,3''),
     Insert TABLE_ROI ''id,sStreamType,iROIId''
       (sqt ''11,`thirdStream`,4''),
     Create TABLE_VIDEO_REGION_CLIP
       (''id INTEGER PRIMARY KEY,iRegionClipEnabled INT DEFAULT 0,iPositionX INT DEFAULT 0,iPositionY INT DEFAULT 0,iWidth INT DEFAULT 640,iHeight INT DEFAULT 480''),
     Insert TABLE_VIDEO_REGION_CLIP ''id''
       ''0'']"

definition media_tables_8 :: "db_step list" where
  "media_tables_8 = [Create TABLE_PROFILE
       (sqt ''sToken TEXT PRIMARY KEY,sName TEXT DEFAULT ``,iFixed INT DEFAULT 0,sVideoSourceConfigurationToken TEXT DEFAULT `VideoSourceConfigurationToken`,sAudioSourceConfigurationToken TEXT DEFAULT ``,sVideoEncoderConfigurationToken TEXT DEFAULT ``,sAudioEncoderConfigurationToken TEXT DEFAULT ``,sVideoAnalyticsConfigurationToken TEXT DEFAULT ``,sPTZConfigurationToken TEXT DEFAULT ``,sMetadataConfigurationToken TEXT DEFAULT ``,sAudioOutputConfigurationToken TEXT DEFAULT ``,sAudioDecoderConfigurationToken TEXT DEFAULT ``''),
     Insert TABLE_PROFILE ''sToken, sName, sVideoEncoderConfigurationToken, iFixed''
       (sqt ''`Profile_0`, `mainStream`, `VideoEncoderToken_0`, 1''),
     Insert TABLE_PROFILE ''sToken, sName, sVideoEncoderConfigurationToken, iFixed''
       (sqt ''`Profile_1`, `subStream`, `VideoEncoderToken_1`, 1''),
     Insert TABLE_PROFILE ''sToken, sName, sVideoEncoderConfigurationToken, iFixed''
       (sqt ''`Profile_2`, `thirdStream`, `VideoEncoderToken_2`, 1''),
     Create TABLE_VIDEO_SOURCE
       (sqt ''sToken TEXT PRIMARY KEY,sResolution TEXT DEFAULT `2688*1520`,sFrameRateIn TEXT DEFAULT `25`''),
     Insert TABLE_VIDEO_SOURCE ''sToken''
       (sqt ''`VideoSource_0`''),
     Create TABLE_VIDEO_SOURCE_CONFIGURATION
       (sqt ''sToken TEXT PRIMARY KEY,sName TEXT DEFAULT ``,sSourceToken TEXT DEFAULT ``,iBoundsX INT DEFAULT 0,iBoundsY INT DEFAULT 0,iBoundsWidth INT DEFAULT 2688,iBoundsHeight INT DEFAULT 1520''),
     Insert TABLE_VIDEO_SOURCE_CONFIGURATION ''sToken, sName, sSourceToken''
       (sqt ''`VideoSourceConfigurationToken`, `VideoSourceConfig`, `VideoSource_0`''),
     Create TABLE_METADATA
       (sqt ''sToken TEXT PRIMARY KEY,sName TEXT DEFAULT ``''),
     Insert TABLE_METADATA ''sToken, sName''
       (sqt ''`MetaDataToken0`, `metaData0`'')]"

definition media_tables :: "db_step list" where
  "media_tables = media_tables_1 @ media_tables_2 @ media_tables_3 @ media_tables_4 @ media_tables_5 @ media_tables_6 @ media_tables_7 @ media_tables_8"

definition media_init :: "jsonlib \<Rightarrow> 'd sqlite \<Rightarrow> 'd dbs \<Rightarrow> 'd dbs option" where
  "media_init jl db = component_init jl db TABLE_MEDIA_VERSION MEDIA_VERSION media_drops media_tables"

section \<open>\<^verbatim>\<open>system.c\<close>\<close>

definition TABLE_SYSTEM_DEVICE_INFO :: string where "TABLE_SYSTEM_DEVICE_INFO = ''SystemDeviceInfo''"
definition TABLE_SYSTEM_PARA :: string where "TABLE_SYSTEM_PARA = ''SystemPara''"
definition TABLE_SYSTEM_USER :: string where "TABLE_SYSTEM_USER = ''SystemUser''"
definition TABLE_SYSTEM_DISCOVERY :: string where "TABLE_SYSTEM_DISCOVERY = ''SystemDiscovery''"
definition TABLE_SYSTEM_SCOPES :: string where "TABLE_SYSTEM_SCOPES = ''SystemScopes''"
definition TABLE_SYSTEM_VERSION :: string where "TABLE_SYSTEM_VERSION = ''SystemVersion''"
definition SYSTEM_VERSION :: string where "SYSTEM_VERSION = ''1.0.1''"

definition system_drops :: "db_step list" where
  "system_drops = [Drop TABLE_SYSTEM_DEVICE_INFO,
     Drop TABLE_SYSTEM_PARA,
     Drop TABLE_SYSTEM_USER,
     Drop TABLE_SYSTEM_DISCOVERY,
     Drop TABLE_SYSTEM_SCOPES,
     Drop TABLE_SYSTEM_VERSION]"

definition system_tables_1 :: "db_step list" where
  "system_tables_1 = [Create TABLE_SYSTEM_DEVICE_INFO
       (''id INTEGER PRIMARY KEY AUTOINCREMENT,name TEXT,value TEXT,ro TEXT''),
     Insert TABLE_SYSTEM_DEVICE_INFO ''id, name, value, ro''
       (sqt ''0, `deviceName`, `RK IP Camera`, `false`''),
     Insert TABLE_SYSTEM_DEVICE_INFO ''id, name, value, ro''
       (sqt ''1, `telecontrolID`, `88`, `false`''),
     Insert TABLE_SYSTEM_DEVICE_INFO ''id, name, value, ro''
       (sqt ''2, `model`, `RK-003`, `true`''),
     Insert TABLE_SYSTEM_DEVICE_INFO ''id, name, value, ro''
       (sqt ''3, `serialNumber`, `RK-003-A`, `true`''),
     Insert TABLE_SYSTEM_DEVICE_INFO ''id, name, value, ro''
       (sqt ''4, `firmwareVersion`, `V0.2.6 build 200413`, `true`''),
     Insert TABLE_SYSTEM_DEVICE_INFO ''id, name, value, ro''
       (sqt ''5, `encoderVersion`, `V1.0 build 200413`, `true`''),
     Insert TABLE_SYSTEM_DEVICE_INFO ''id, name, value, ro''
       (sqt ''6, `webVersion`, `V1.12.2 build 200413`, `true`''),
     Insert TABLE_SYSTEM_DEVICE_INFO ''id, name, value, ro''
       (sqt ''7, `pluginVersion`, `V1.0.0.0`, `true`''),
     Insert TABLE_SYSTEM_DEVICE_INFO ''id, name, value, ro''
       (sqt ''8, `channelsNumber`, `1`, `true`''),
     Insert TABLE_SYSTEM_DEVICE_INFO ''id, name, value, ro''
       (sqt ''9, `hardDisksNumber`, `1`, `true`''),
     Insert TABLE_SYSTEM_DEVICE_INFO ''id, name, value, ro''
       (sqt ''10, `alarmInputsNumber`, `0`, `true`''),
     Insert TABLE_SYSTEM_DEVICE_INFO ''id, name, value, ro''
       (sqt ''11, `alarmOutputsNumber`, `0`, `true`''),
     Insert TABLE_SYSTEM_DEVICE_INFO ''id, name, value, ro''
       (sqt ''12, `firmwareVersionInfo`, `CP-3-B`, `true`''),
     Insert TABLE_SYSTEM_DEVICE_INFO ''id, name, value, ro''
       (sqt ''13, `manufacturer`, `Rockchip`, `true`''),
     Insert TABLE_SYSTEM_DEVICE_INFO ''id, name, value, ro''
       (sqt ''14, `hardwareId`, `c3d9b8674f4b94f6`, `true`'')]"

definition system_tables_2 :: "db_step list" where
  "system_tables_2 = [Create TABLE_SYSTEM_PARA
       (''id INTEGER PRIMARY KEY AUTOINCREMENT,name TEXT,para TEXT''),
     Insert TABLE_SYSTEM_PARA ''id, name, para''
       (sqt ''0, `webPage`, `{~auth~:4,~item~:[{~auth~:4,~name~:~preview~},{~auth~:4,~item~:[{~auth~:4,~item~:[{~auth~:0,~name~:~delete~}],~name~:~videoRecord~},{~auth~:4,~item~:[{~auth~:0,~name~:~delete~}],~name~:~pictureRecord~}],~name~:~download~},{~auth~:4,~item~:[{~auth~:4,~item~:[{~auth~:4,~item~:[{~auth~:1,~name~:~modify~}],~name~:~ListManagement~},{~auth~:1,~name~:~AddOne~},{~auth~:1,~name~:~BatchInput~}],~name~:~MemberList~},{~auth~:4,~item~:[{~auth~:4,~item~:[{~auth~:0,~name~:~modify~}],~name~:~SnapShot~}],~name~:~SnapShot~},{~auth~:4,~item~:[{~auth~:4,~item~:[{~auth~:0,~name~:~modify~}],~name~:~Control~}],~name~:~Control~},{~auth~:1,~item~:[{~auth~:1,~name~:~ParaConfig~}],~name~:~Config~}],~name~:~face~},{~auth~:-1,~item~:[{~auth~:1,~item~:[{~auth~:1,~name~:~FacePara~},{~auth~:1,~name~:~ROI~}],~name~:~Config~}],~name~:~face-para~},{~auth~:-1,~item~:[{~auth~:4,~item~:[{~auth~:4,~item~:[{~auth~:1,~name~:~modify~}],~name~:~MemberList~},{~auth~:1,~name~:~AddOne~},{~auth~:1,~name~:~BatchInput~},{~auth~:4,~item~:[{~auth~:0,~name~:~modify~}],~name~:~SnapShot~},{~auth~:4,~item~:[{~auth~:0,~name~:~modify~}],~name~:~Control~}],~name~:~Manage~}],~name~:~face-manage~},{~auth~:1,~item~:[{~auth~:1,~item~:[{~auth~:1,~item~:[{~auth~:1,~name~:~basic~},{~auth~:1,~name~:~time~}],~name~:~Settings~},{~auth~:1,~item~:[{~auth~:1,~name~:~upgrade~},{~auth~:-1,~name~:~log~}],~name~:~Maintain~},{~auth~:-1,~item~:[{~auth~:-1,~name~:~authentication~},{~auth~:-1,~name~:~ipAddrFilter~},{~auth~:-1,~name~:~securityService~}],~name~:~Security~},{~auth~:0,~name~:~User~}],~name~:~System~},{~auth~:1,~item~:[{~auth~:1,~item~:[{~auth~:1,~name~:~TCPIP~},{~auth~:-1,~name~:~DDNS~},{~auth~:-1,~name~:~PPPoE~},{~auth~:1,~name~:~Port~},{~auth~:-1,~name~:~uPnP~}],~name~:~Basic~},{~auth~:1,~item~:[{~auth~:1,~name~:~Wi-Fi~},{~auth~:-1,~name~:~SMTP~},{~auth~:-1,~name~:~FTP~},{~auth~:-1,~name~:~eMail~},{~auth~:-1,~name~:~Cloud~},{~auth~:-1,~name~:~Protocol~},{~auth~:-1,~name~:~QoS~},{~auth~:-1,~name~:~Https~}],~name~:~Advanced~}],~name~:~Network~},{~auth~:1,~item~:[{~auth~:1,~name~:~Encoder~},{~auth~:1,~name~:~AdvancedEncoder~},{~auth~:1,~name~:~ROI~},{~auth~:1,~name~:~RegionCrop~}],~name~:~Video~},{~auth~:1,~item~:[{~auth~:1,~name~:~AudioParam~}],~name~:~Audio~},{~auth~:1,~item~:[{~auth~:1,~name~:~DisplaySettings~},{~auth~:1,~name~:~OSDSettings~},{~auth~:1,~name~:~PrivacyCover~},{~auth~:1,~name~:~PictureMask~}],~name~:~Image~},{~auth~:1,~item~:[{~auth~:1,~name~:~MotionDetect~},{~auth~:1,~name~:~IntrusionDetection~},{~auth~:-1,~name~:~AlarmInput~},{~auth~:-1,~name~:~AlarmOutput~},{~auth~:-1,~name~:~Abnormal~}],~name~:~Event~},{~auth~:1,~item~:[{~auth~:1,~item~:[{~auth~:1,~name~:~VideoPlan~},{~auth~:1,~name~:~ScreenshotPlan~},{~auth~:1,~name~:~ScreenshotPara~}],~name~:~PlanSettings~},{~auth~:1,~item~:[{~auth~:1,~name~:~HardDiskManagement~},{~auth~:-1,~name~:~NAS~},{~auth~:-1,~name~:~CloudStorage~}],~name~:~StorageManage~}],~name~:~Storage~},{~auth~:1,~item~:[{~auth~:1,~name~:~MarkCover~},{~auth~:-1,~name~:~MaskArea~},{~auth~:-1,~name~:~RuleSettings~},{~auth~:-1,~name~:~AdvancedCFG~}],~name~:~Intel~},{~auth~:-1,~item~:[{~auth~:-1,~name~:~GateConfig~},{~auth~:-1,~name~:~ScreenConfig~}],~name~:~Peripherals~}],~name~:~config~},{~auth~:4,~name~:~about~}],~name~:~header~}`''),
     Insert TABLE_SYSTEM_PARA ''id, name, para''
       (sqt ''1, `StoragePlanSnap`, `{~dynamic~:{~id~:{~0~:{~iShotInterval~:{~for~:~timing~,~range~:{~max~:604800000,~min~:1000},~type~:~range~},~timeUnit~:{~for~:~timing~,~options~:[~seconds~,~minutes~,~hours~,~days~],~type~:~options~}},~1~:{~iShotInterval~:{~for~:~timing~,~range~:{~max~:65535,~min~:1000},~type~:~range~},~timeUnit~:{~for~:~timing~,~options~:[~seconds~,~minutes~],~type~:~options~}}}},~relation~:{~iImageQuality~:{~1~:~low~,~10~:~high~,~5~:~middle~}},~static~:{~iImageQuality~:{~options~:[1,5,10],~type~:~options~},~iShotNumber~:{~range~:{~max~:120,~min~:1},~type~:~range~},~sImageType~:{~options~:[~JPEG~],~type~:~options~},~sResolution~:{~refer~:[4,~para~,~dynamic~,~sStreamType~,~mainStream~,~sResolution~],~type~:~refer~}}}`''),
     Insert TABLE_SYSTEM_PARA ''id, name, para''
       (sqt ''2, `screenshotSchedule`, `[{~name~:~timing~,~color~:~#87CEEB~}]`''),
     Insert TABLE_SYSTEM_PARA ''id, name, para''
       (sqt ''3, `videoPlanSchedule`, `[{~name~:~timing~,~color~:~#87CEEB~}, {~name~:~motion-detect~,~color~:~#74B558~},{~name~:~alarm~,~color~:~#D71820~}, {~name~:~motionOrAlarm~,~color~:~#E58705~}, {~name~:~motionAndAlarm~,~color~:~#B9E2FE~},{~name~:~event~,~color~:~#AA6FFF~}]`'')]"

definition system_tables_3 :: "db_step list" where
  "system_tables_3 = [Insert TABLE_SYSTEM_PARA ''id, name, para''
       (sqt ''4, `video`, `{~disabled~:[{~name~:~sStreamType~,~options~:{~subStream~:{~sOutputDataType~:~H.264~,~sSmart~:~close~},~thirdStream~:{~sSmart~:~close~}},~type~:~disabled/limit~},{~name~:~sSmart~,~options~:{~open~:{~iGOP~:null,~iStreamSmooth~:null,~sH264Profile~:null,~sRCMode~:null,~sRCQuality~:null,~sSVC~:null}},~type~:~disabled~},{~name~:~sRCMode~,~options~:{~CBR~:{~sRCQuality~:null}},~type~:~disabled~},{~name~:~sOutputDataType~,~options~:{~H.265~:{~sH264Profile~:null}},~type~:~disabled~},{~name~:~unspport~,~options~:{~iStreamSmooth~:null,~sSVC~:null,~sVideoType~:null},~type~:~disabled~}],~dynamic~:{~sSmart~:{~open~:{~iMinRate~:{~dynamicRange~:{~max~:~iMaxRate~,~maxRate~:1,~min~:~iMaxRate~,~minRate~:0.125},~type~:~dynamicRange~}}},~sStreamType~:{~mainStream~:{~iMaxRate~:{~options~:[256,512,1024,2048,3072,4096,6144,8192,12288,16384],~type~:~options~},~sResolution~:{~options~:[~2688*1520~],~type~:~options~}},~subStream~:{~iMaxRate~:{~options~:[256,512,1024,2048,3072,4096,6144,8192],~type~:~options~},~sResolution~:{~options~:[~640*480~,~704*576~],~type~:~options~}},~thirdStream~:{~iMaxRate~:{~options~:[256,512,1024,2048,3072,4096,6144,8192,12288,16384],~type~:~options~},~sResolution~:{~options~:[~640*480~,~704*576~,~1280*720~,~1920*1080~],~type~:~options~}}}},~layout~:{~encoder~:[~sStreamType~,~sVideoType~,~sResolution~,~sRCMode~,~sRCQuality~,~sFrameRate~,~sOutputDataType~,~sSmart~,~sH264Profile~,~sSVC~,~iMaxRate~,~iMinRate~,~iGOP~,~iStreamSmooth~]},~static~:{~iGOP~:{~range~:{~max~:400,~min~:0},~type~:~range~},~iStreamSmooth~:{~range~:{~max~:100,~min~:1,~step~:1},~type~:~range~},~sFrameRate~:{~dynamicRange~:{~max~:~sFrameRateIn~,~maxRate~:1},~options~:[~1/16~,~1/8~,~1/4~,~1/2~,~1~,~2~,~4~,~6~,~8~,~10~,~12~,~14~,~16~,~18~,~20~,~25~,~30~],~type~:~options/dynamicRange~},~sH264Profile~:{~options~:[~high~,~main~,~baseline~],~type~:~options~},~sOutputDataType~:{~options~:[~H.264~,~H.265~],~type~:~options~},~sRCMode~:{~options~:[~CBR~,~VBR~],~type~:~options~},~sRCQuality~:{~options~:[~lowest~,~lower~,~low~,~medium~,~high~,~higher~,~highest~],~type~:~options~},~sSVC~:{~options~:[~open~,~close~],~type~:~options~},~sSmart~:{~options~:[~open~,~close~],~type~:~options~},~sStreamType~:{~options~:[~mainStream~,~subStream~,~thirdStream~],~type~:~options~},~sVideoType~:{~options~:[~videoStream~,~compositeStream~],~type~:~options~}}}`''),
     Insert TABLE_SYSTEM_PARA ''id, name, para''
       (sqt ''5, `video_advanced_enc`, `{~static~:{~sStreamType~:{~refer~:[4,~para~,~static~,~sStreamType~],~type~:~refer~}}}`''),
     Insert TABLE_SYSTEM_PARA ''id, name, para''
       (sqt ''6, `roi`, `{~static~:{~sStreamType~:{~refer~:[4,~para~,~static~,~sStreamType~],~type~:~refer~}}}`''),
     Insert TABLE_SYSTEM_PARA ''id, name, para''
       (sqt ''7, `image_adjustment`, `{~layout~:{~image_adjustment~:[~iBrightness~,~iContrast~,~iSaturation~,~iSharpness~,~iHue~]},~static~:{~iBrightness~:{~range~:{~max~:100,~min~:0,~step~:1},~type~:~range~},~iContrast~:{~range~:{~max~:100,~min~:0,~step~:1},~type~:~range~},~iSaturation~:{~range~:{~max~:100,~min~:0,~step~:1},~type~:~range~},~iSharpness~:{~range~:{~max~:100,~min~:0,~step~:1},~type~:~range~},~iHue~:{~range~:{~max~:100,~min~:0,~step~:1},~type~:~range~}}}`''),
     Insert TABLE_SYSTEM_PARA ''id, name, para''
       (sqt ''8, `image_exposure`, `{~dynamic~:{~sExposureMode~:{~auto~:{~iAutoIrisLevel~:{~range~:{~max~:100,~min~:0,~step~:1},~type~:~range~}},~manual~:{~sExposureTime~:{~options~:[~1~,~1/3~,~1/6~,~1/12~,~1/25~,~1/50~,~1/100~,~1/150~,~1/200~,~1/250~,~1/500~,~1/750~,~1/1000~,~1/2000~,~1/4000~,~1/10000~,~1/100000~],~type~:~options~},~sGainMode~:{~options~:[~auto~,~manual~],~type~:~options~}}},~sGainMode~:{~manual~:{~iExposureGain~:{~range~:{~max~:100,~min~:1,~step~:1},~type~:~range~}}}},~layout~:{~image_exposure~:[~sExposureMode~,~sExposureTime~,~sGainMode~,~iExposureGain~]},~static~:{~sExposureMode~:{~options~:[~auto~,~manual~],~type~:~options~}}}`''),
     Insert TABLE_SYSTEM_PARA ''id, name, para''
       (sqt ''9, `image_night_to_day`, `{~disabled~:[{~name~:~sNightToDay~,~options~:{~day~:{~iLightBrightness~:null,~sFillLightMode~:null},~night~:{~iDarkBoostLevel~:null,~iHDRLevel~:null,~iHLCLevel~:null,~sHDR~:null,~sHLC~:~close~}},~type~:~disabled~}],~dynamic~:{~sNightToDay~:{~auto~:{~iNightToDayFilterLevel~:{~options~:[0,1,2,3,4,5,6,7],~type~:~options~},~iNightToDayFilterTime~:{~range~:{~max~:10,~min~:3,~step~:1},~type~:~range~}},~schedule~:{~sDawnTime~:{~input~:~time~,~type~:~input~},~sDuskTime~:{~input~:~time~,~type~:~input~}}},~sOverexposeSuppress~:{~open~:{~sOverexposeSuppressType~:{~options~:[~auto~,~manual~],~type~:~options~}}},~sOverexposeSuppressType~:{~manual~:{~iDistanceLevel~:{~range~:{~max~:100,~min~:0,~step~:1},~type~:~range~}}}},~layout~:{~image_night_to_day~:[~sNightToDay~,~iNightToDayFilterLevel~,~iNightToDayFilterTime~,~sDawnTime~,~sDuskTime~,~sFillLightMode~,~iLightBrightness~]},~static~:{~iLightBrightness~:{~range~:{~max~:100,~min~:0,~step~:10},~type~:~range~},~sFillLightMode~:{~options~:[~IR~],~type~:~options~},~sNightToDay~:{~options~:[~auto~,~day~,~night~,~schedule~],~type~:~options~}}}`''),
     Insert TABLE_SYSTEM_PARA ''id, name, para''
       (sqt ''10, `image_blc`, `{~disabled~:[{~name~:~sHLC~,~options~:{~open~:{~sBLCRegion~:null}},~type~:~disabled~},{~name~:~sBLCRegion~,~options~:{~open~:{~iDarkBoostLevel~:null,~iHLCLevel~:null,~sHLC~:null}},~type~:~disabled~}],~dynamic~:{~sBLCRegion~:{~open~:{~iBLCStrength~:{~range~:{~max~:100,~min~:0,~step~:1},~type~:~range~}}},~sHDR~:{~HDR2~:{~iHDRLevel~:{~options~:[1,2,3,4,5],~type~:~options~}},~close~:{~sBLCRegion~:{~options~:[~close~,~open~],~type~:~options~},~sHLC~:{~options~:[~close~,~open~],~type~:~options~}}},~sHLC~:{~open~:{~iDarkBoostLevel~:{~range~:{~max~:100,~min~:0,~step~:1},~type~:~range~},~iHLCLevel~:{~range~:{~max~:100,~min~:0,~step~:1},~type~:~range~}}},~sWDR~:{~open~:{~iWDRLevel~:{~range~:{~max~:100,~min~:0,~step~:1},~type~:~range~}}}},~layout~:{~image_blc~:[~sHDR~,~iHDRLevel~,~sBLCRegion~,~iBLCStrength~,~sHLC~,~iHLCLevel~,~iDarkBoostLevel~]},~static~:{~sHDR~:{~options~:[~close~,~HDR2~],~type~:~options~}}}`''),
     Insert TABLE_SYSTEM_PARA ''id, name, para''
       (sqt ''11, `image_white_blance`, `{~dynamic~:{~sWhiteBlanceStyle~:{~manualWhiteBalance~:{~iWhiteBalanceBlue~:{~range~:{~max~:100,~min~:0,~step~:1},~type~:~range~},~iWhiteBalanceGreen~:{~range~:{~max~:100,~min~:0,~step~:1},~type~:~range~},~iWhiteBalanceRed~:{~range~:{~max~:100,~min~:0,~step~:1},~type~:~range~}}}},~layout~:{~image_white_blance~:[~sWhiteBlanceStyle~,~iWhiteBalanceRed~,~iWhiteBalanceGreen~,~iWhiteBalanceBlue~]},~static~:{~sWhiteBlanceStyle~:{~options~:[~manualWhiteBalance~,~autoWhiteBalance~,~lockingWhiteBalance~,~fluorescentLamp~,~incandescent~,~warmLight~,~naturalLight~],~type~:~options~}}}`'')]"

definition system_tables_4 :: "db_step list" where
  "system_tables_4 = [Insert TABLE_SYSTEM_PARA ''id, name, para''
       (sqt ''12, `image_enhancement`, `{~dynamic~:{~sDehaze~:{~open~:{~iDehazeLevel~:{~range~:{~max~:10,~min~:0,~step~:1},~type~:~range~}}},~sDistortionCorrection~:{~FEC~:{~iFecLevel~:{~range~:{~max~:100,~min~:0,~step~:1},~type~:~range~}},~LDCH~:{~iLdchLevel~:{~range~:{~max~:100,~min~:0,~step~:1},~type~:~range~}}},~sNoiseReduceMode~:{~2dnr~:{~iSpatialDenoiseLevel~:{~range~:{~max~:100,~min~:0,~step~:1},~type~:~range~}},~3dnr~:{~iTemporalDenoiseLevel~:{~range~:{~max~:100,~min~:0,~step~:1},~type~:~range~}},~mixnr~:{~iSpatialDenoiseLevel~:{~range~:{~max~:100,~min~:0,~step~:1},~type~:~range~},~iTemporalDenoiseLevel~:{~range~:{~max~:100,~min~:0,~step~:1},~type~:~range~}}}},~layout~:{~image_enhancement~:[~sNoiseReduceMode~,~iSpatialDenoiseLevel~,~iTemporalDenoiseLevel~,~sDehaze~,~iDehazeLevel~,~sGrayScaleMode~,~sDistortionCorrection~,~iLdchLevel~,~iFecLevel~,~iImageRotation~]},~static~:{~iImageRotation~:{~options~:[0,90,270],~type~:~options~},~sDIS~:{~options~:[~open~,~close~],~type~:~options~},~sDehaze~:{~options~:[~open~,~close~,~auto~],~type~:~options~},~sDistortionCorrection~:{~options~:[~LDCH~,~FEC~,~close~],~type~:~options~},~sFEC~:{~options~:[~open~,~close~],~type~:~options~},~sGrayScaleMode~:{~options~:[~[0-255]~,~[16-235]~],~type~:~options~},~sNoiseReduceMode~:{~options~:[~default~,~2dnr~,~3dnr~,~mixnr~],~type~:~options~}}}`''),
     Insert TABLE_SYSTEM_PARA ''id, name, para''
       (sqt ''13, `image_video_adjustment`, `{~layout~:{~image_video_adjustment~:[~sPowerLineFrequencyMode~,~sImageFlip~]},~static~:{~sImageFlip~:{~options~:[~close~,~flip~,~mirror~,~centrosymmetric~],~type~:~options~},~sPowerLineFrequencyMode~:{~options~:[~PAL(50HZ)~,~NTSC(60HZ)~],~type~:~options~},~sSceneMode~:{~options~:[~indoor~,~outdoor~],~type~:~options~}}}`''),
     Insert TABLE_SYSTEM_PARA ''id, name, para''
       (sqt ''14, `smartCover`, `{~capability~:{~SmartCover~:{~sImageQuality~:[~best~,~good~,~general~],~sTargetImageType~:[~head~]}},~layout~:{~enabled~:[~iFaceRecognitionEnabled~,~iStreamOverlayEnabled~],~infoEnabled~:[~deviceNum~,~positonInfo~],~snap~:[~sTargetImageType~,~iWidthRatio~,~sImageQuality~]}}`'')]"

definition system_tables_5 :: "db_step list" where
  "system_tables_5 = [Create TABLE_SYSTEM_USER
       (''id INTEGER PRIMARY KEY AUTOINCREMENT,sUserName TEXT UNIQUE,sPassword TEXT,iFixed INT DEFAULT 0,iUserLevel INT DEFAULT 1,iAuthLevel INTEGER DEFAULT 1''),
     Insert TABLE_SYSTEM_USER ''id, sUserName, sPassword, iFixed, iUserLevel, iAuthLevel''
       (sqt ''0, `admin`, `YWRtaW4=`, 1, 0, 1''),
     Create TABLE_SYSTEM_DISCOVERY
       (''id INTEGER PRIMARY KEY AUTOINCREMENT,iDiscoveryDisabled INTEGER DEFAULT 0''),
     Insert TABLE_SYSTEM_DISCOVERY ''id''
       ''0'',
     Create TABLE_SYSTEM_SCOPES
       (''id INTEGER PRIMARY KEY AUTOINCREMENT,sScopeItem TEXT,iScopeDef DEFAULT 1''),
     Insert TABLE_SYSTEM_SCOPES ''id, sScopeItem, iScopeDef''
       (sqt ''0, `onvif://www.onvif.org/Profile/S`, 0''),
     Insert TABLE_SYSTEM_SCOPES ''id, sScopeItem, iScopeDef''
       (sqt ''1, `onvif://www.onvif.org/type/video_encoder`, 0''),
     Insert TABLE_SYSTEM_SCOPES ''id, sScopeItem, iScopeDef''
       (sqt ''2, `onvif://www.onvif.org/type/audio_encoder`, 0''),
     Insert TABLE_SYSTEM_SCOPES ''id, sScopeItem, iScopeDef''
       (sqt ''5, `onvif://www.onvif.org/hardware/c3d9b8674f4b94f6`, 1''),
     Insert TABLE_SYSTEM_SCOPES ''id, sScopeItem, iScopeDef''
       (sqt ''6, `onvif://www.onvif.org/location/city/fuzhou`, 1''),
     Insert TABLE_SYSTEM_SCOPES ''id, sScopeItem, iScopeDef''
       (sqt ''7, `onvif://www.onvif.org/name/RK_IPC`, 1'')]"

definition system_tables :: "db_step list" where
  "system_tables = system_tables_1 @ system_tables_2 @ system_tables_3 @ system_tables_4 @ system_tables_5"

definition system_init :: "jsonlib \<Rightarrow> 'd sqlite \<Rightarrow> 'd dbs \<Rightarrow> 'd dbs option" where
  "system_init jl db = component_init jl db TABLE_SYSTEM_VERSION SYSTEM_VERSION system_drops system_tables"

lemmas table_names = TABLE_NETWORK_IP_def TABLE_NETWORK_SERVICE_def TABLE_NETWORK_POWER_def TABLE_NETWORK_NTP_def TABLE_NETWORK_ZONE_def TABLE_NETWORK_PORT_def TABLE_NETWORK_VERSION_def NETWORK_VERSION_def TABLE_STORAGE_DISK_PATH_def TABLE_STORAGE_MEDIA_FOLDER_def TABLE_STORAGE_CONFIG_def TABLE_STORAGE_VERSION_def TABLE_STORAGE_PLAN_SNAP_def TABLE_STORAGE_ADVANCE_PARA_def STORAGE_VERSION_def TABLE_EVENT_TRIGGERS_def TABLE_EVENT_SCHEDULES_def TABLE_REGIONAL_INVASION_def TABLE_MOVE_DETECTION_def TABLE_FACE_CONFIG_def TABLE_FACE_LIST_def TABLE_FACE_SNAPSHOT_RECORD_def TABLE_FACE_CONTROL_RECORD_def TABLE_SMART_COVER_def TABLE_SMART_COVER_OVERLAY_def TABLE_EVENT_VERSION_def TABLE_NOTIFICATION_def EVENT_VERSION_def TABLE_PERIPHERALS_RELAY_def TABLE_PERIPHERALS_WEIGEN_def TABLE_PERIPHERALS_FILL_LIGHT_def TABLE_PERIPHERALS_VERSION_def PERIPHERALS_VERSION_def TABLE_VIDEO_def TABLE_VIDEO_ADVANCED_ENC_def TABLE_VIDEO_REGION_CLIP_def TABLE_AUDIO_def TABLE_STREAM_URL_def TABLE_IMAGE_SCENARIO_def TABLE_IMAGE_ADJUSTMENT_def TABLE_IMAGE_EXPOSURE_def TABLE_IMAGE_NIGHT_TO_DAY_def TABLE_IMAGE_BLC_def TABLE_IMAGE_WHITE_BLANCE_def TABLE_IMAGE_ENHANCEMENT_def TABLE_IMAGE_VIDEO_ADJUSTMEN_def TABLE_NORMALIZED_SCREEN_SIZE_def TABLE_OSD_def TABLE_ROI_def TABLE_PROFILE_def TABLE_METADATA_def TABLE_VIDEO_SOURCE_def TABLE_VIDEO_SOURCE_CONFIGURATION_def TABLE_MEDIA_VERSION_def MEDIA_VERSION_def TABLE_SYSTEM_DEVICE_INFO_def TABLE_SYSTEM_PARA_def TABLE_SYSTEM_USER_def TABLE_SYSTEM_DISCOVERY_def TABLE_SYSTEM_SCOPES_def TABLE_SYSTEM_VERSION_def SYSTEM_VERSION_def

section \<open>\<^verbatim>\<open>main.c\<close>\<close>

text \<open>
  \<^verbatim>\<open>dirname\<close> of the database file: no slash gives the string \<^verbatim>\<open>.\<close>, which is not allocated, and
  \<^verbatim>\<open>g_free\<close> of it is a crash.
\<close>

definition strip_slashes :: "string \<Rightarrow> string" where
  "strip_slashes p = rev (dropWhile (\<lambda>c. c = CHR 0x2F) (rev p))"

definition c_dirname :: "string \<Rightarrow> string option" where
  "c_dirname p = (let q = strip_slashes p in
     if CHR 0x2F \<notin> set p then None
     else if q = [] then Some ''/''
     else if CHR 0x2F \<notin> set q then None
     else (let r = strip_slashes (rev (dropWhile (\<lambda>c. c \<noteq> CHR 0x2F) (rev q))) in Some (if r = [] then ''/'' else r)))"

text \<open>The start of the service up to its main loop; \<open>Some None\<close> is the early return without the folder.\<close>

definition db_main ::
  "jsonlib \<Rightarrow> 'd sqlite \<Rightarrow> (string \<Rightarrow> bool) \<Rightarrow> string list \<Rightarrow> 'd dbs \<Rightarrow> 'd dbs option option" where
  "db_main jl db folder_exists argv s =
     (let db_file = (case argv of [_, f] \<Rightarrow> f | _ \<Rightarrow> ''/userdata/sysconfig.db'');
          path = c_dirname db_file in
      if \<not> folder_exists (case path of Some d \<Rightarrow> d | None \<Rightarrow> ''.'') then Some None
      else (case path of
        None \<Rightarrow> None
      | Some _ \<Rightarrow> do {
          s0 \<leftarrow> rkdb_init db db_file s;
          s1 \<leftarrow> network_init jl db s0;
          s2 \<leftarrow> storage_init jl db s1;
          s3 \<leftarrow> media_init jl db s2;
          s4 \<leftarrow> system_init jl db s3;
          s5 \<leftarrow> event_init jl db s4;
          s6 \<leftarrow> peripherals_init jl db s5;
          Some (Some s6) }))"

end
