(* ===== verification/SqlTables.thy ===== *)
theory SqlTables
  imports DbSql
begin

text \<open>
  A small model of what SQLite documents of typed tables: columns with their types, defaults, keys
  and NOT NULL, and the rows they allow.
\<close>

section \<open>Columns\<close>

datatype coltype = C_text | C_int | C_any

record column =
  co_name :: string
  co_type :: coltype
  co_notnull :: bool
  co_unique :: bool
  co_auto :: bool
  co_default :: "string option"

fun split_commas :: "sql_token list \<Rightarrow> sql_token list list" where
  "split_commas [] = [[]]"
| "split_commas (t # ts) =
     (if t = T_sym CHR '','' then [] # split_commas ts
      else (case split_commas ts of [] \<Rightarrow> [[t]] | g # gs \<Rightarrow> (t # g) # gs))"

fun literal :: "sql_token list \<Rightarrow> (coltype \<times> string) option" where
  "literal [T_text t] = Some (C_text, t)"
| "literal [T_word w] = (if list_all isdigit w then Some (C_int, w) else None)"
| "literal [T_sym c, T_word w] = (if c = CHR ''-'' \<and> list_all isdigit w then Some (C_int, c # w) else None)"
| "literal _ = None"

fun default_of :: "sql_token list \<Rightarrow> string option" where
  "default_of [] = None"
| "default_of (t # ts) =
     (if t = T_word ''DEFAULT'' then
        (case ts of
           T_text v # _ \<Rightarrow> Some v
         | T_word w # _ \<Rightarrow> Some w
         | T_sym c # T_word w # _ \<Rightarrow> Some (c # w)
         | _ \<Rightarrow> None)
      else default_of ts)"

definition parse_column :: "sql_token list \<Rightarrow> column option" where
  "parse_column ts = (case ts of
     T_word name # rest \<Rightarrow> Some \<lparr>co_name = name,
       co_type = (if T_word ''TEXT'' \<in> set rest then C_text
                  else if T_word ''INT'' \<in> set rest \<or> T_word ''INTEGER'' \<in> set rest then C_int else C_any),
       co_notnull = (T_word ''NOT'' \<in> set rest),
       co_unique = (T_word ''UNIQUE'' \<in> set rest \<or> T_word ''PRIMARY'' \<in> set rest),
       co_auto = (T_word ''INTEGER'' \<in> set rest \<and> T_word ''PRIMARY'' \<in> set rest),
       co_default = default_of rest\<rparr>
   | _ \<Rightarrow> None)"

primrec all_some :: "'a option list \<Rightarrow> 'a list option" where
  "all_some [] = Some []"
| "all_some (x # xs) = (case x of None \<Rightarrow> None | Some y \<Rightarrow> map_option ((#) y) (all_some xs))"

definition parse_columns :: "string \<Rightarrow> column list option" where
  "parse_columns s = Option.bind (sql_tokens s) (\<lambda>ts. all_some (map parse_column (split_commas ts)))"

definition parse_names :: "string \<Rightarrow> string list option" where
  "parse_names s = Option.bind (sql_tokens s) (\<lambda>ts.
     all_some (map (\<lambda>g. case g of [T_word w] \<Rightarrow> Some w | _ \<Rightarrow> None) (split_commas ts)))"

definition parse_values :: "string \<Rightarrow> (coltype \<times> string) list option" where
  "parse_values s = Option.bind (sql_tokens s) (\<lambda>ts. all_some (map literal (split_commas ts)))"

section \<open>Tables\<close>

record table =
  tb_cols :: "column list"
  tb_rows :: "row list"

type_synonym store = "(string \<times> table) list"

text \<open>A column whose name starts with \<^verbatim>\<open>i\<close> is read with \<^verbatim>\<open>atoi\<close>; it must hold integers.\<close>

definition column_ok :: "column \<Rightarrow> bool" where
  "column_ok c \<longleftrightarrow> (take 1 (co_name c) = ''i'' \<longrightarrow> co_type c \<noteq> C_text)"

text \<open>The key SQLite gives a row: one more than the largest so far.\<close>

definition next_id :: "string \<Rightarrow> row list \<Rightarrow> string" where
  "next_id name rows = dec_of_int (foldr (\<lambda>r m. case map_of r name of Some (Some v) \<Rightarrow> max (atoi v) m | _ \<Rightarrow> m) rows 0 + 1)"

definition new_row :: "table \<Rightarrow> (string \<times> coltype \<times> string) list \<Rightarrow> row" where
  "new_row t given = map (\<lambda>c. (co_name c,
     case map_of given (co_name c) of
       Some (_, v) \<Rightarrow> Some v
     | None \<Rightarrow> (case co_default c of Some d \<Rightarrow> Some d
                | None \<Rightarrow> if co_auto c then Some (next_id (co_name c) (tb_rows t)) else None))) (tb_cols t)"

definition given_ok :: "table \<Rightarrow> string \<times> coltype \<times> string \<Rightarrow> bool" where
  "given_ok t g = (case g of (name, ty, v) \<Rightarrow>
     list_ex (\<lambda>c. co_name c = name \<and> (co_type c = C_any \<or> co_type c = ty)) (tb_cols t))"

definition constraints_ok :: "table \<Rightarrow> row \<Rightarrow> bool" where
  "constraints_ok t r = list_all (\<lambda>c.
     (co_notnull c \<longrightarrow> map_of r (co_name c) \<noteq> Some None) \<and>
     (co_unique c \<longrightarrow> list_all (\<lambda>r'. map_of r' (co_name c) \<noteq> map_of r (co_name c)) (tb_rows t))) (tb_cols t)"

text \<open>For evaluation: only unique columns are compared.\<close>

lemma constraints_ok_code [code]:
  "constraints_ok t r = list_all (\<lambda>c.
     (if co_notnull c then map_of r (co_name c) \<noteq> Some None else True) \<and>
     (if co_unique c then list_all (\<lambda>r'. map_of r' (co_name c) \<noteq> map_of r (co_name c)) (tb_rows t) else True)) (tb_cols t)"
  by (auto simp: constraints_ok_def list_all_iff)

text \<open>The tests on characters, by their bits.\<close>

lemma word_char_bits [code]:
  "word_char (Char b0 b1 b2 b3 b4 b5 b6 b7) \<longleftrightarrow> \<not> b7 \<and>
     (if b6 then (b0 \<or> b1 \<or> b2 \<or> b3 \<or> b4) \<and> (\<not> (b4 \<and> b3 \<and> (b2 \<or> b1 \<and> b0)) \<or> \<not> b5 \<and> b4 \<and> b3 \<and> b2 \<and> b1 \<and> b0)
      else b5 \<and> b4 \<and> \<not> (b3 \<and> (b2 \<or> b1)))"
  by (cases b0; cases b1; cases b2; cases b3; cases b4; cases b5; cases b6; cases b7; simp add: word_char_def)

lemma isdigit_bits [code]:
  "isdigit (Char b0 b1 b2 b3 b4 b5 b6 b7) \<longleftrightarrow> \<not> b7 \<and> \<not> b6 \<and> b5 \<and> b4 \<and> \<not> (b3 \<and> (b2 \<or> b1))"
  by (cases b0; cases b1; cases b2; cases b3; cases b4; cases b5; cases b6; cases b7; simp add: isdigit_def)

end
