(* ===== verification/DbEngine.thy ===== *)
theory DbEngine
  imports SqlTables
begin

text \<open>
  What SQLite documents of the statements the database service sends: reading their tokens as
  insertions, updates, deletions and queries, and running those on typed tables.  The service is
  linked to any database that behaves like this by \<open>runs_tables\<close>; \<open>table_engine\<close> is one.
\<close>

section \<open>Statements\<close>

type_synonym lit = "coltype \<times> string"

datatype projection = All_columns | One_column string | Count_of string

datatype sql_stmt =
    Q_insert string "(string \<times> lit) list"
  | Q_update string "(string \<times> lit) list" "(string \<times> lit) list"
  | Q_delete string "(string \<times> lit) list"
  | Q_select projection string "(string \<times> lit) list" "nat option"

fun split_on :: "'a \<Rightarrow> 'a list \<Rightarrow> 'a list list" where
  "split_on s [] = [[]]"
| "split_on s (t # ts) =
     (if t = s then [] # split_on s ts
      else (case split_on s ts of [] \<Rightarrow> [[t]] | g # gs \<Rightarrow> (t # g) # gs))"

fun break_at :: "'a \<Rightarrow> 'a list \<Rightarrow> ('a list \<times> 'a list) option" where
  "break_at x [] = None"
| "break_at x (y # ys) = (if y = x then Some ([], ys) else map_option (\<lambda>(a, b). (y # a, b)) (break_at x ys))"

fun strip :: "'a list \<Rightarrow> 'a list \<Rightarrow> 'a list option" where
  "strip [] ys = Some ys"
| "strip (x # xs) [] = None"
| "strip (x # xs) (y # ys) = (if x = y then strip xs ys else None)"

fun the_word :: "sql_token list \<Rightarrow> (string \<times> sql_token list) option" where
  "the_word (T_word w # ts) = Some (w, ts)"
| "the_word _ = None"

fun parse_assign :: "sql_token list \<Rightarrow> (string \<times> lit) option" where
  "parse_assign (T_word n # T_sym c # ts) = (if c = CHR ''='' then map_option (Pair n) (literal ts) else None)"
| "parse_assign _ = None"

definition parse_where :: "sql_token list \<Rightarrow> (string \<times> lit) list option" where
  "parse_where ts = all_some (map parse_assign (split_on (T_word ''and'') ts))"

definition parse_sets :: "sql_token list \<Rightarrow> (string \<times> lit) list option" where
  "parse_sets ts = all_some (map parse_assign (split_on (T_sym CHR '','') ts))"

fun one_word :: "sql_token list \<Rightarrow> string option" where
  "one_word [T_word w] = Some w"
| "one_word _ = None"

definition parse_insert :: "sql_token list \<Rightarrow> sql_stmt option" where
  "parse_insert ts0 = do {
     ts1 \<leftarrow> strip [T_word ''INSERT'', T_word ''INTO''] ts0;
     (t, ts2) \<leftarrow> the_word ts1;
     ts3 \<leftarrow> strip [T_sym CHR ''(''] ts2;
     (cols, ts4) \<leftarrow> break_at (T_sym CHR '')'') ts3;
     ts5 \<leftarrow> strip [T_word ''VALUES'', T_sym CHR ''(''] ts4;
     (vals, ts6) \<leftarrow> break_at (T_sym CHR '')'') ts5;
     ns \<leftarrow> all_some (map one_word (split_on (T_sym CHR '','') cols));
     vs \<leftarrow> all_some (map literal (split_on (T_sym CHR '','') vals));
     (if ts6 = [T_sym CHR '';''] \<and> length ns = length vs then Some (Q_insert t (zip ns vs)) else None) }"

definition parse_update :: "sql_token list \<Rightarrow> sql_stmt option" where
  "parse_update ts0 = do {
     ts1 \<leftarrow> strip [T_word ''UPDATE''] ts0;
     (t, ts2) \<leftarrow> the_word ts1;
     ts3 \<leftarrow> strip [T_word ''SET''] ts2;
     (sets, ts4) \<leftarrow> break_at (T_word ''WHERE'') ts3;
     (whr, ts5) \<leftarrow> break_at (T_sym CHR '';'') ts4;
     s \<leftarrow> parse_sets sets;
     w \<leftarrow> parse_where whr;
     (if ts5 = [] then Some (Q_update t s w) else None) }"

definition parse_delete :: "sql_token list \<Rightarrow> sql_stmt option" where
  "parse_delete ts0 = do {
     ts1 \<leftarrow> strip [T_word ''DELETE'', T_word ''from''] ts0;
     (t, ts2) \<leftarrow> the_word ts1;
     (if ts2 = [T_sym CHR '';''] then Some (Q_delete t [])
      else do {
        ts3 \<leftarrow> strip [T_word ''WHERE''] ts2;
        (whr, ts4) \<leftarrow> break_at (T_sym CHR '';'') ts3;
        w \<leftarrow> parse_where whr;
        (if ts4 = [] then Some (Q_delete t w) else None) }) }"

fun parse_projection :: "sql_token list \<Rightarrow> (projection \<times> sql_token list) option" where
  "parse_projection (T_sym c # ts) = (if c = CHR ''*'' then Some (All_columns, ts) else None)"
| "parse_projection (T_word n # T_sym b # T_word m # T_sym e # ts) =
     (if n = ''count'' \<and> b = CHR ''('' \<and> e = CHR '')'' then Some (Count_of m, ts) else None)"
| "parse_projection (T_word n # ts) = Some (One_column n, ts)"
| "parse_projection _ = None"

fun parse_limit :: "sql_token list \<Rightarrow> nat option" where
  "parse_limit [T_word a, T_sym c, T_word b] = (if a = ''0'' \<and> c = CHR '','' \<and> list_all isdigit b then Some (nat (atoi b)) else None)"
| "parse_limit _ = None"

definition parse_select :: "sql_token list \<Rightarrow> sql_stmt option" where
  "parse_select ts0 = do {
     ts1 \<leftarrow> strip [T_word ''SELECT''] ts0;
     (p, ts2) \<leftarrow> parse_projection ts1;
     ts3 \<leftarrow> strip [T_word ''from''] ts2;
     (t, ts4) \<leftarrow> the_word ts3;
     (if ts4 = [] then Some (Q_select p t [] None)
      else do {
        ts5 \<leftarrow> strip [T_word ''WHERE''] ts4;
        (case break_at (T_word ''LIMIT'') ts5 of
           None \<Rightarrow> map_option (\<lambda>w. Q_select p t w None) (parse_where ts5)
         | Some (whr, lim) \<Rightarrow> do { w \<leftarrow> parse_where whr; n \<leftarrow> parse_limit lim; Some (Q_select p t w (Some n)) }) }) }"

definition first_some :: "'a option \<Rightarrow> 'a option \<Rightarrow> 'a option" where
  "first_some x y = (case x of None \<Rightarrow> y | Some _ \<Rightarrow> x)"

definition parse_stmt :: "sql_token list \<Rightarrow> sql_stmt option" where
  "parse_stmt ts = first_some (parse_insert ts) (first_some (parse_update ts) (first_some (parse_delete ts) (parse_select ts)))"

section \<open>Running them\<close>

definition row_matches :: "(string \<times> lit) list \<Rightarrow> row \<Rightarrow> bool" where
  "row_matches whr r = list_all (\<lambda>(n, l). map_of r n = Some (Some (snd l))) whr"

definition set_cells :: "(string \<times> lit) list \<Rightarrow> row \<Rightarrow> row" where
  "set_cells sets r = map (\<lambda>(n, v). (n, case map_of sets n of Some l \<Rightarrow> Some (snd l) | None \<Rightarrow> v)) r"

definition unique_ok :: "column list \<Rightarrow> row list \<Rightarrow> bool" where
  "unique_ok cols rows = list_all (\<lambda>c. co_unique c \<longrightarrow>
     distinct (filter (\<lambda>v. v \<noteq> Some None) (map (\<lambda>r. map_of r (co_name c)) rows))) cols"

definition project :: "projection \<Rightarrow> row list \<Rightarrow> row list" where
  "project p rows = (case p of
     All_columns \<Rightarrow> rows
   | One_column n \<Rightarrow> map (\<lambda>r. [(n, case map_of r n of Some v \<Rightarrow> v | None \<Rightarrow> None)]) rows
   | Count_of n \<Rightarrow> [[(''count('' @ n @ '')'', Some (dec_of_nat (length (filter (\<lambda>r. map_of r n \<noteq> Some None) rows))))]])"

definition put_rows :: "string \<Rightarrow> row list \<Rightarrow> store \<Rightarrow> store" where
  "put_rows t rows db = map (\<lambda>e. if fst e = t then (t, (snd e)\<lparr>tb_rows := rows\<rparr>) else e) db"

definition sql_ok :: "row list \<Rightarrow> sql_result" where
  "sql_ok rows = \<lparr>sr_rc = 0, sr_errmsg = None, sr_rows = rows\<rparr>"

definition sql_fail :: "int \<Rightarrow> string \<Rightarrow> sql_result" where
  "sql_fail rc msg = \<lparr>sr_rc = rc, sr_errmsg = Some msg, sr_rows = []\<rparr>"

definition stmt_table :: "sql_stmt \<Rightarrow> string" where
  "stmt_table st = (case st of Q_insert t _ \<Rightarrow> t | Q_update t _ _ \<Rightarrow> t | Q_delete t _ \<Rightarrow> t | Q_select _ t _ _ \<Rightarrow> t)"

text \<open>Values of the declared types for columns that are there.\<close>

definition stmt_typed :: "sql_stmt \<Rightarrow> table \<Rightarrow> bool" where
  "stmt_typed st tb = (case st of
     Q_insert _ given \<Rightarrow> distinct (map fst given) \<and> list_all (given_ok tb) given
   | Q_update _ sets whr \<Rightarrow> distinct (map fst sets) \<and> list_all (given_ok tb) sets \<and> list_all (given_ok tb) whr
   | Q_delete _ whr \<Rightarrow> list_all (given_ok tb) whr
   | Q_select p _ whr _ \<Rightarrow> list_all (given_ok tb) whr \<and>
       (case p of All_columns \<Rightarrow> True | One_column n \<Rightarrow> n \<in> co_name ` set (tb_cols tb) | Count_of n \<Rightarrow> n \<in> co_name ` set (tb_cols tb)))"

definition exec_on :: "sql_stmt \<Rightarrow> table \<Rightarrow> sql_result \<times> row list" where
  "exec_on st tb = (let rows = tb_rows tb in case st of
     Q_insert _ given \<Rightarrow>
       (let r = new_row tb given in if constraints_ok tb r then (sql_ok [], rows @ [r]) else (sql_fail 19 ''constraint failed'', rows))
   | Q_update _ sets whr \<Rightarrow>
       (let rows' = map (\<lambda>r. if row_matches whr r then set_cells sets r else r) rows in
        if unique_ok (tb_cols tb) rows' then (sql_ok [], rows') else (sql_fail 19 ''constraint failed'', rows))
   | Q_delete _ whr \<Rightarrow> (sql_ok [], filter (\<lambda>r. \<not> row_matches whr r) rows)
   | Q_select p _ whr lim \<Rightarrow>
       (let found = filter (row_matches whr) rows in
        (sql_ok (project p (case lim of None \<Rightarrow> found | Some n \<Rightarrow> take n found)), rows)))"

text \<open>For evaluation: the new row is computed before it is checked.\<close>

definition insert_row :: "table \<Rightarrow> row \<Rightarrow> sql_result \<times> row list" where
  "insert_row tb r = (if constraints_ok tb r then (sql_ok [], tb_rows tb @ [r]) else (sql_fail 19 ''constraint failed'', tb_rows tb))"

lemma exec_on_code [code]:
  "exec_on (Q_insert t given) tb = insert_row tb (new_row tb given)"
  "exec_on (Q_update t sets whr) tb =
     (let rows' = map (\<lambda>r. if row_matches whr r then set_cells sets r else r) (tb_rows tb) in
      if unique_ok (tb_cols tb) rows' then (sql_ok [], rows') else (sql_fail 19 ''constraint failed'', tb_rows tb))"
  "exec_on (Q_delete t whr) tb = (sql_ok [], filter (\<lambda>r. \<not> row_matches whr r) (tb_rows tb))"
  "exec_on (Q_select p t whr lim) tb =
     (let found = filter (row_matches whr) (tb_rows tb) in
      (sql_ok (project p (case lim of None \<Rightarrow> found | Some n \<Rightarrow> take n found)), tb_rows tb))"
  by (simp_all add: exec_on_def insert_row_def Let_def)

definition exec_stmt :: "sql_stmt \<Rightarrow> store \<Rightarrow> sql_result \<times> store" where
  "exec_stmt st db = (case map_of db (stmt_table st) of
     None \<Rightarrow> (sql_fail 1 ''no such table'', db)
   | Some tb \<Rightarrow>
       if stmt_typed st tb then (case exec_on st tb of (r, rows) \<Rightarrow> (r, put_rows (stmt_table st) rows db))
       else (sql_fail 1 ''no such column'', db))"

text \<open>
  A database whose state stands for tables: a well-typed statement on a table that exists gives
  the documented result, or an error when a constraint fails, which changes nothing.  Nothing is
  said about other statements, or about the text of an error.
\<close>

definition runs_tables :: "'d sqlite \<Rightarrow> ('d \<Rightarrow> store) \<Rightarrow> bool" where
  "runs_tables sq tables \<longleftrightarrow> (\<forall>sql d st tb. Option.bind (sql_tokens sql) parse_stmt = Some st \<longrightarrow>
     map_of (tables d) (stmt_table st) = Some tb \<longrightarrow> stmt_typed st tb \<longrightarrow>
     (let (r, d') = sq_exec sq sql d; (r', db') = exec_stmt st (tables d) in
      (if sr_rc r' = 0 then r = r' else sr_rc r \<noteq> 0 \<and> sr_rows r = []) \<and> tables d' = db'))"

definition table_engine :: "store sqlite" where
  "table_engine = \<lparr>sq_exec = (\<lambda>sql db. case Option.bind (sql_tokens sql) parse_stmt of
       None \<Rightarrow> (sql_fail 1 ''syntax error'', db)
     | Some st \<Rightarrow> exec_stmt st db), sq_open = (\<lambda>_ _. 0)\<rparr>"

lemma table_engine_runs: "runs_tables table_engine id"
  by (auto simp: runs_tables_def table_engine_def exec_stmt_def exec_on_def sql_ok_def sql_fail_def Let_def
      split: sql_stmt.splits if_splits option.splits prod.splits)

section \<open>Reading the statements of the service\<close>

definition lit_of :: "jsonlib \<Rightarrow> json \<Rightarrow> lit" where
  "lit_of jl v = (if is_json_int v then (C_int, dec_of_int (jl_get_int jl v)) else (C_text, the (json_object_get_string jl v)))"

definition lits_of :: "jsonlib \<Rightarrow> (string \<times> json) list \<Rightarrow> (string \<times> lit) list" where
  "lits_of jl kvs = map (\<lambda>kv. (fst kv, lit_of jl (snd kv))) kvs"

lemma lits_of_fst [simp]: "map fst (lits_of jl kvs) = map fst kvs"
  by (simp add: lits_of_def)

lemma lits_of_append [simp]: "lits_of jl (as @ bs) = lits_of jl as @ lits_of jl bs"
  by (simp add: lits_of_def)

text \<open>A name that is no keyword of the statements.\<close>

definition column_word :: "string \<Rightarrow> bool" where
  "column_word n \<longleftrightarrow> is_word n \<and> n \<notin> {''and'', ''WHERE'', ''LIMIT''}"

definition good_field :: "jsonlib \<Rightarrow> string \<times> json \<Rightarrow> bool" where
  "good_field jl kv \<longleftrightarrow> column_word (fst kv) \<and> plain_value jl (snd kv)"

lemma good_plain: "list_all (good_field jl) kvs \<Longrightarrow> list_all (plain_field jl) kvs"
  by (auto simp: list_all_iff good_field_def plain_field_def column_word_def)

lemma dec_digits: "list_all isdigit (dec_of_nat n)" "dec_of_nat n \<noteq> ''and''" "dec_of_nat n \<noteq> ''WHERE''" "dec_of_nat n \<noteq> ''LIMIT''"
proof -
  show d: "list_all isdigit (dec_of_nat n)" using isdigit_dec_of_nat by (auto simp: list_all_iff)
  show "dec_of_nat n \<noteq> ''and''" "dec_of_nat n \<noteq> ''WHERE''" "dec_of_nat n \<noteq> ''LIMIT''"
    using d by (auto simp: isdigit_def)
qed

lemma literal_value: "plain_value jl v \<Longrightarrow> literal (value_tokens jl v) = Some (lit_of jl v)"
  using dec_digits(1) by (auto simp: plain_value_def value_tokens_def lit_of_def dec_of_int_def Let_def)

lemma parse_assign_tokens: "good_field jl kv \<Longrightarrow> parse_assign (assign_tokens jl kv) = Some (fst kv, lit_of jl (snd kv))"
  by (simp add: assign_tokens_def literal_value good_field_def)

lemma value_tokens_digits:
  "T_word w \<in> set (value_tokens jl v) \<Longrightarrow> list_all isdigit w" "T_sym c \<in> set (value_tokens jl v) \<Longrightarrow> c = CHR ''-''"
  using dec_digits(1) by (auto simp: value_tokens_def Let_def split: if_splits option.splits)

lemma not_digits: "\<not> list_all isdigit ''and''" "\<not> list_all isdigit ''WHERE''" "\<not> list_all isdigit ''LIMIT''"
  by (simp_all add: isdigit_def)

definition reserved :: "sql_token set" where
  "reserved = {T_word ''and'', T_word ''WHERE'', T_word ''LIMIT'', T_sym CHR '','', T_sym CHR '';'', T_sym CHR '')''}"

lemma value_tokens_free: "t \<in> set (value_tokens jl v) \<Longrightarrow> t \<notin> reserved"
proof (cases t)
  case (T_word w)
  moreover assume "t \<in> set (value_tokens jl v)"
  ultimately have "list_all isdigit w" using value_tokens_digits(1) by simp
  with T_word not_digits show ?thesis by (auto simp: reserved_def)
next
  case (T_sym c)
  moreover assume "t \<in> set (value_tokens jl v)"
  ultimately have "c = CHR ''-''" using value_tokens_digits(2) by simp
  with T_sym show ?thesis by (simp add: reserved_def)
qed (simp add: reserved_def)

lemma value_free: "t \<in> reserved \<Longrightarrow> t \<notin> set (value_tokens jl v)"
  using value_tokens_free by blast

lemma assign_tokens_free:
  assumes "good_field jl kv" and "t \<in> reserved"
  shows "t \<notin> set (assign_tokens jl kv)"
proof
  assume "t \<in> set (assign_tokens jl kv)"
  then consider "t = T_word (fst kv)" | "t = T_sym CHR ''=''" | "t \<in> set (value_tokens jl (snd kv))"
    by (auto simp: assign_tokens_def)
  then show False
  proof cases
    case 1
    with assms show ?thesis by (auto simp: reserved_def good_field_def column_word_def)
  next
    case 2
    with assms(2) show ?thesis by (simp add: reserved_def)
  next
    case 3
    with value_tokens_free assms(2) show ?thesis by blast
  qed
qed

lemma reserved_tokens [simp]:
  "T_word ''and'' \<in> reserved" "T_word ''WHERE'' \<in> reserved" "T_word ''LIMIT'' \<in> reserved" "T_sym CHR '','' \<in> reserved"
  "T_sym CHR '';'' \<in> reserved" "T_sym CHR '')'' \<in> reserved"
  by (simp_all add: reserved_def)

lemma split_on_free: "sep \<notin> set x \<Longrightarrow> split_on sep x = [x]"
  by (induction x) auto

lemma split_on_sep: "sep \<notin> set x \<Longrightarrow> split_on sep (x @ sep # ys) = x # split_on sep ys"
  by (induction x) auto

lemma split_separated:
  "xss \<noteq> [] \<Longrightarrow> (\<And>x. x \<in> set xss \<Longrightarrow> sep \<notin> set x) \<Longrightarrow> split_on sep (separated [sep] xss) = xss"
proof (induction "[sep]" xss rule: separated.induct)
  case (3 x y ys)
  then show ?case by (simp add: split_on_sep)
qed (simp_all add: split_on_free)

lemma set_separated: "set (separated sep xss) \<subseteq> set sep \<union> \<Union> (set ` set xss)"
  by (induction sep xss rule: separated.induct) auto

lemma all_some_map: "(\<And>x. x \<in> set xs \<Longrightarrow> f x = Some (g x)) \<Longrightarrow> all_some (map f xs) = Some (map g xs)"
  by (induction xs) auto

lemma break_at_append: "x \<notin> set a \<Longrightarrow> break_at x (a @ x # b) = Some (a, b)"
  by (induction a) auto

lemma break_at_none: "x \<notin> set a \<Longrightarrow> break_at x a = None"
  by (induction a) auto

text \<open>Lists of fields are read one by one.\<close>

lemma parse_separated:
  assumes "kvs \<noteq> []" and "\<And>kv. kv \<in> set kvs \<Longrightarrow> sep \<notin> set (f kv)" and "\<And>kv. kv \<in> set kvs \<Longrightarrow> p (f kv) = Some (g kv)"
  shows "all_some (map p (split_on sep (separated [sep] (map f kvs)))) = Some (map g kvs)"
proof -
  have "split_on sep (separated [sep] (map f kvs)) = map f kvs"
    by (rule split_separated) (use assms(1,2) in auto)
  with assms(3) show ?thesis using all_some_map [of kvs "\<lambda>kv. p (f kv)" g] by (simp add: comp_def)
qed

lemma separated_free: "t \<noteq> sep \<Longrightarrow> (\<And>kv. kv \<in> set kvs \<Longrightarrow> t \<notin> set (f kv)) \<Longrightarrow> t \<notin> set (separated [sep] (map f kvs))"
  using set_separated [of "[sep]" "map f kvs"] by auto

lemma parse_where_tokens:
  assumes "kvs \<noteq> []" and "list_all (good_field jl) kvs"
  shows "parse_where (where_tokens jl kvs) = Some (lits_of jl kvs)" "parse_sets (set_tokens jl kvs) = Some (lits_of jl kvs)"
  unfolding parse_where_def parse_sets_def where_tokens_def set_tokens_def lits_of_def
  by (rule parse_separated, use assms in \<open>auto simp: list_all_iff assign_tokens_free parse_assign_tokens\<close>)+

lemma where_tokens_free:
  assumes "list_all (good_field jl) kvs"
  shows "T_word ''LIMIT'' \<notin> set (where_tokens jl kvs)" "T_sym CHR '';'' \<notin> set (where_tokens jl kvs)"
    "T_word ''WHERE'' \<notin> set (set_tokens jl kvs)"
  unfolding where_tokens_def set_tokens_def
  by (rule separated_free; use assms in \<open>auto simp: list_all_iff assign_tokens_free\<close>)+

lemma parse_cols_vals:
  assumes "kvs \<noteq> []" and "list_all (good_field jl) kvs"
  shows "all_some (map one_word (split_on (T_sym CHR '','') (cols_tokens kvs))) = Some (map fst kvs)"
    "all_some (map literal (split_on (T_sym CHR '','') (vals_tokens jl kvs))) = Some (map (\<lambda>kv. lit_of jl (snd kv)) kvs)"
    "T_sym CHR '')'' \<notin> set (cols_tokens kvs)" "T_sym CHR '')'' \<notin> set (vals_tokens jl kvs)"
proof -
  show "all_some (map one_word (split_on (T_sym CHR '','') (cols_tokens kvs))) = Some (map fst kvs)"
    unfolding cols_tokens_def by (rule parse_separated) (use assms in auto)
  show "all_some (map literal (split_on (T_sym CHR '','') (vals_tokens jl kvs))) = Some (map (\<lambda>kv. lit_of jl (snd kv)) kvs)"
    unfolding vals_tokens_def
    by (rule parse_separated) (use assms in \<open>auto simp: list_all_iff good_field_def literal_value value_free\<close>)
  show "T_sym CHR '')'' \<notin> set (cols_tokens kvs)" unfolding cols_tokens_def by (rule separated_free) auto
  show "T_sym CHR '')'' \<notin> set (vals_tokens jl kvs)"
    unfolding vals_tokens_def by (rule separated_free) (auto simp: value_free)
qed

section \<open>The statements of the commands\<close>

text \<open>What SQLite reads in the statements of the service.\<close>

definition reads_as :: "string \<Rightarrow> sql_stmt \<Rightarrow> bool" where
  "reads_as sql st \<longleftrightarrow> Option.bind (sql_tokens sql) parse_stmt = Some st"

lemma reads_insert:
  assumes "is_word t" and "kvs \<noteq> []" and "list_all (good_field jl) kvs"
  shows "reads_as (insert_sql (Some t) (cols_text kvs) (vals_text jl kvs)) (Q_insert t (lits_of jl kvs))"
proof -
  note p = parse_cols_vals [OF assms(2,3)]
  have "parse_insert ([T_word ''INSERT'', T_word ''INTO'', T_word t, T_sym CHR ''(''] @ cols_tokens kvs @
      [T_sym CHR '')'', T_word ''VALUES'', T_sym CHR ''(''] @ vals_tokens jl kvs @ [T_sym CHR '')'', T_sym CHR '';'']) =
    Some (Q_insert t (lits_of jl kvs))"
    by (simp add: parse_insert_def break_at_append p(3,4)) (simp add: p(1,2) lits_of_def zip_map_map zip_same_conv_map)
  then show ?thesis
    by (simp add: reads_as_def insert_tokens [OF assms(1,2) good_plain [OF assms(3)]] parse_stmt_def first_some_def)
qed

lemma reads_update:
  assumes "is_word t" and "key \<noteq> []" "list_all (good_field jl) key" and "dat \<noteq> []" "list_all (good_field jl) dat"
  shows "reads_as (update_sql (Some t) (set_text jl dat) (where_text jl key)) (Q_update t (lits_of jl dat) (lits_of jl key))"
proof -
  have "parse_update ([T_word ''UPDATE'', T_word t, T_word ''SET''] @ set_tokens jl dat @ [T_word ''WHERE''] @ where_tokens jl key @ [T_sym CHR '';'']) =
    Some (Q_update t (lits_of jl dat) (lits_of jl key))"
    using where_tokens_free [OF assms(3)] where_tokens_free [OF assms(5)] parse_where_tokens [OF assms(2,3)] parse_where_tokens [OF assms(4,5)]
    by (simp add: parse_update_def break_at_append)
  then show ?thesis
    by (simp add: reads_as_def update_tokens [OF assms(1,2) good_plain [OF assms(3)] assms(4) good_plain [OF assms(5)]]
        parse_stmt_def first_some_def parse_insert_def)
qed

lemma reads_delete:
  assumes "is_word t" and "key \<noteq> []" "list_all (good_field jl) key"
  shows "reads_as (delete_sql (Some t) (where_text jl key)) (Q_delete t (lits_of jl key))"
proof -
  have "parse_delete ([T_word ''DELETE'', T_word ''from'', T_word t, T_word ''WHERE''] @ where_tokens jl key @ [T_sym CHR '';'']) =
    Some (Q_delete t (lits_of jl key))"
    using where_tokens_free [OF assms(3)] parse_where_tokens [OF assms(2,3)]
    by (simp add: parse_delete_def break_at_append)
  then show ?thesis
    by (simp add: reads_as_def delete_tokens [OF assms(1,2) good_plain [OF assms(3)]] parse_stmt_def first_some_def parse_insert_def parse_update_def)
qed

lemma reads_lookup:
  assumes "is_word t" and "key \<noteq> []" "list_all (good_field jl) key"
  shows "reads_as (select_sql (Some t) (Some ''*'') (where_text jl key) None (Some ''0,1'')) (Q_select All_columns t (lits_of jl key) (Some 1))"
proof -
  have one: "list_all isdigit ''1''" "nat (atoi ''1'') = 1" by code_simp+
  have "parse_select ([T_word ''SELECT'', T_sym CHR ''*'', T_word ''from'', T_word t, T_word ''WHERE''] @ where_tokens jl key @
      [T_word ''LIMIT'', T_word ''0'', T_sym CHR '','', T_word ''1'']) = Some (Q_select All_columns t (lits_of jl key) (Some 1))"
    using where_tokens_free [OF assms(3)] parse_where_tokens [OF assms(2,3)] one
    by (simp add: parse_select_def break_at_append)
  then show ?thesis
    by (simp add: reads_as_def lookup_tokens [OF assms(1,2) good_plain [OF assms(3)]] parse_stmt_def first_some_def parse_insert_def
        parse_update_def parse_delete_def)
qed

lemma reads_from: "reads (''from '' @ fmt_s (Some t)) [T_word ''from'', T_word t] []" if "is_word t" for t
  using reads_append [OF reads_keyword(8) reads_word, of t "[]"] that nul_free_word [OF that]
  by (simp add: fmt_s_def cstr_plain no_word_start_def)

lemma reads_select_all:
  assumes "is_word t"
  shows "reads_as (select_sql (Some t) (Some ''*'') (where_text jl []) None None) (Q_select All_columns t [] None)"
proof -
  have "cstr ''*'' = ''*''" by (simp add: cstr_plain)
  with reads_append [OF reads_keyword(9) reads_append [OF reads_parens(4) reads_append [OF reads_space reads_from [OF assms]]]]
  have "sql_tokens (select_sql (Some t) (Some ''*'') (where_text jl []) None None) =
      Some [T_word ''SELECT'', T_sym CHR ''*'', T_word ''from'', T_word t]"
    by (intro reads_end) (simp add: select_sql_def where_text_def Let_def)
  then show ?thesis
    by (simp add: reads_as_def parse_stmt_def first_some_def parse_insert_def parse_update_def parse_delete_def parse_select_def)
qed

lemma reads_select:
  assumes "is_word t" and "key \<noteq> []" "list_all (good_field jl) key"
  shows "reads_as (select_sql (Some t) (Some ''*'') (where_text jl key) None None) (Q_select All_columns t (lits_of jl key) None)"
proof -
  have c: "cstr ''*'' = ''*''" by (simp add: cstr_plain)
  have w: "reads (fmt_s (where_text jl key)) (where_tokens jl key) []"
    by (rule clause_reads(1) [OF assms(2) good_plain [OF assms(3)]]) (simp add: stop_def no_word_start_def)
  from reads_append [OF reads_keyword(9) reads_append [OF reads_parens(4) reads_append [OF reads_space
          reads_append [OF reads_keyword(8) reads_append [OF reads_table [OF assms(1)] reads_append [OF reads_keyword(6) w]]]]]] c
  have "sql_tokens (select_sql (Some t) (Some ''*'') (where_text jl key) None None) =
      Some ([T_word ''SELECT'', T_sym CHR ''*'', T_word ''from'', T_word t, T_word ''WHERE''] @ where_tokens jl key)"
    using joined_fields [OF assms(2)] by (intro reads_end) (simp add: select_sql_def where_text_def fmt_s_def Let_def)
  moreover have "parse_select ([T_word ''SELECT'', T_sym CHR ''*'', T_word ''from'', T_word t, T_word ''WHERE''] @ where_tokens jl key) =
      Some (Q_select All_columns t (lits_of jl key) None)"
    using where_tokens_free [OF assms(3)] parse_where_tokens [OF assms(2,3)] by (simp add: parse_select_def break_at_none)
  ultimately show ?thesis
    by (simp add: reads_as_def parse_stmt_def first_some_def parse_insert_def parse_update_def parse_delete_def)
qed

lemma reads_delete_all:
  assumes "is_word t"
  shows "reads_as (delete_sql (Some t) (where_text jl [])) (Q_delete t [])"
proof -
  have "reads (fmt_s (Some t)) [T_word t] ('';'' @ [])"
    using reads_word [OF assms, of "'';''"] nul_free_word [OF assms]
    by (simp add: fmt_s_def cstr_plain no_word_start_def word_char_def)
  from reads_append [OF reads_keyword(7) reads_append [OF reads_keyword(8) reads_append [OF this reads_parens(3)]]]
  have "sql_tokens (delete_sql (Some t) (where_text jl [])) = Some [T_word ''DELETE'', T_word ''from'', T_word t, T_sym CHR '';'']"
    by (intro reads_end) (simp add: delete_sql_def where_text_def)
  then show ?thesis
    by (simp add: reads_as_def parse_stmt_def first_some_def parse_insert_def parse_update_def parse_delete_def)
qed

end
