(* ===== verification/SqlScript.thy ===== *)
theory SqlScript
  imports DbEngine
begin

text \<open>
  What SQLite documents of DROP TABLE and CREATE TABLE, and the text of a statement run on typed
  tables.  A drop of a table that is not there and a creation of one that is are refused and
  change nothing.  The initialisations of the service do not look at replies, so a script goes on after a
  refused statement; \<open>exec_script\<close> collects those.  The law \<open>runs_sql\<close> links a database to this.
\<close>

section \<open>Reading and running a statement\<close>

datatype ddl_stmt = D_drop string | D_create string "column list"

definition parse_drop :: "sql_token list \<Rightarrow> ddl_stmt option" where
  "parse_drop ts0 = do {
     ts1 \<leftarrow> strip [T_word ''DROP'', T_word ''TABLE''] ts0;
     (t, ts2) \<leftarrow> the_word ts1;
     (if ts2 = [T_sym CHR '';''] then Some (D_drop t) else None) }"

definition parse_create :: "sql_token list \<Rightarrow> ddl_stmt option" where
  "parse_create ts0 = do {
     ts1 \<leftarrow> strip [T_word ''CREATE'', T_word ''TABLE''] ts0;
     (t, ts2) \<leftarrow> the_word ts1;
     ts3 \<leftarrow> strip [T_sym CHR ''(''] ts2;
     (cols, ts4) \<leftarrow> break_at (T_sym CHR '')'') ts3;
     cs \<leftarrow> all_some (map parse_column (split_commas cols));
     (if ts4 = [T_sym CHR '';''] then Some (D_create t cs) else None) }"

definition parse_ddl :: "sql_token list \<Rightarrow> ddl_stmt option" where
  "parse_ddl ts = first_some (parse_drop ts) (parse_create ts)"

definition exec_ddl :: "ddl_stmt \<Rightarrow> store \<Rightarrow> sql_result \<times> store" where
  "exec_ddl st db = (case st of
     D_drop t \<Rightarrow>
       if map_of db t = None then (sql_fail 1 ''no such table'', db)
       else (sql_ok [], filter (\<lambda>e. fst e \<noteq> t) db)
   | D_create t cs \<Rightarrow>
       if map_of db t \<noteq> None then (sql_fail 1 ''table already exists'', db)
       else if distinct (map co_name cs) then (sql_ok [], (t, \<lparr>tb_cols = cs, tb_rows = []\<rparr>) # db)
       else (sql_fail 1 ''duplicate column name'', db))"

datatype sql_any = Ddl ddl_stmt | Stmt sql_stmt

definition parse_sql :: "string \<Rightarrow> sql_any option" where
  "parse_sql sql = Option.bind (sql_tokens sql) (\<lambda>ts.
     first_some (map_option Ddl (parse_ddl ts)) (map_option Stmt (parse_stmt ts)))"

definition exec_any :: "sql_any option \<Rightarrow> store \<Rightarrow> sql_result \<times> store" where
  "exec_any p db = (case p of
     None \<Rightarrow> (sql_fail 1 ''syntax error'', db)
   | Some (Ddl st) \<Rightarrow> exec_ddl st db
   | Some (Stmt st) \<Rightarrow> exec_stmt st db)"

definition exec_sql :: "string \<Rightarrow> store \<Rightarrow> sql_result \<times> store" where
  "exec_sql sql = exec_any (parse_sql sql)"

definition any_table :: "sql_any option \<Rightarrow> string option" where
  "any_table p = map_option (\<lambda>x. case x of
     Ddl (D_drop t) \<Rightarrow> t | Ddl (D_create t _) \<Rightarrow> t | Stmt st \<Rightarrow> stmt_table st) p"

definition sql_table :: "string \<Rightarrow> string option" where
  "sql_table sql = any_table (parse_sql sql)"

text \<open>
  A database that behaves like this.  Nothing is said of texts outside this part of SQL, and nothing of a statement
  that gives an existing table values of other types or names columns it does not have.
\<close>

definition covered :: "string \<Rightarrow> store \<Rightarrow> bool" where
  "covered sql db = (case parse_sql sql of
     None \<Rightarrow> False
   | Some (Ddl _) \<Rightarrow> True
   | Some (Stmt st) \<Rightarrow> (case map_of db (stmt_table st) of None \<Rightarrow> True | Some tb \<Rightarrow> stmt_typed st tb))"

definition runs_sql :: "'d sqlite \<Rightarrow> ('d \<Rightarrow> store) \<Rightarrow> bool" where
  "runs_sql sq tables \<longleftrightarrow> (\<forall>sql d. covered sql (tables d) \<longrightarrow>
     (let (r, d') = sq_exec sq sql d; (r', db') = exec_sql sql (tables d) in
      (if sr_rc r' = 0 then r = r' else code_ok r \<and> sr_rc r \<noteq> 0 \<and> sr_rows r = []) \<and> tables d' = db'))"

definition script_engine :: "store sqlite" where
  "script_engine = \<lparr>sq_exec = exec_sql, sq_open = (\<lambda>_ _. 0)\<rparr>"

lemma exec_failed:
  "exec_sql sql db = (r, db') \<Longrightarrow> sr_rc r \<noteq> 0 \<Longrightarrow> code_ok r \<and> sr_rows r = [] \<and> map fst db' = map fst db"
  by (auto simp: exec_sql_def exec_any_def exec_ddl_def exec_stmt_def exec_on_def sql_ok_def sql_fail_def code_ok_def int32_ok_def Let_def
      put_rows_def split: sql_any.splits ddl_stmt.splits sql_stmt.splits if_splits option.splits prod.splits)

lemma script_engine_runs: "runs_sql script_engine id"
proof -
  have "code_ok r \<and> sr_rows r = []" if "exec_sql sql db = (r, db')" "sr_rc r \<noteq> 0" for sql db r db'
    using exec_failed [OF that] by simp
  then show ?thesis by (auto simp: runs_sql_def script_engine_def split: prod.split)
qed

lemma accepted_covered: "exec_sql sql db = (r, db') \<Longrightarrow> sr_rc r = 0 \<Longrightarrow> covered sql db"
  by (auto simp: exec_sql_def exec_any_def covered_def exec_stmt_def sql_fail_def split: sql_any.splits option.splits if_splits)

section \<open>Scripts\<close>

primrec exec_script :: "string list \<Rightarrow> store \<Rightarrow> string list \<times> store" where
  "exec_script [] db = ([], db)"
| "exec_script (sql # sqls) db =
     (let (r, db1) = exec_sql sql db; (bad, db2) = exec_script sqls db1
      in (if sr_rc r = 0 then bad else sql # bad, db2))"

text \<open>A column whose name starts with \<^verbatim>\<open>i\<close> is read with \<^verbatim>\<open>atoi\<close>; it must hold integers and no NULL.\<close>

definition store_ok :: "store \<Rightarrow> bool" where
  "store_ok db = list_all (\<lambda>(t, tb). list_all column_ok (tb_cols tb) \<and> list_all row_ok (tb_rows tb)) db"

definition step_table :: "db_step \<Rightarrow> string" where
  "step_table st = (case st of Drop t \<Rightarrow> t | Create t _ \<Rightarrow> t | Insert t _ _ \<Rightarrow> t)"

lemma step_table_simps [simp]:
  "step_table (Drop t) = t" "step_table (Create t cs) = t" "step_table (Insert t cs vs) = t"
  by (simp_all add: step_table_def)

lemma version_names [simp]: "step_table ` set (version_steps t v) = {t}"
  by (simp add: version_steps_def)

text \<open>
  A script that runs on no tables at all: every statement is about the table of its step, none is
  refused, and every table it names is there in the end.
\<close>

definition script_ok :: "db_step list \<Rightarrow> bool" where
  "script_ok sts = (list_all (\<lambda>st. sql_table (step_sql st) = Some (step_table st)) sts \<and>
     (case exec_script (map step_sql sts) [] of (bad, db) \<Rightarrow>
        bad = [] \<and> store_ok db \<and> list_all (\<lambda>st. list_ex (\<lambda>e. fst e = step_table st) db) sts))"

text \<open>Both again with the tables so far as an argument, for evaluation; \<open>script_ok\<close> reads every text once.\<close>

primrec exec_from :: "string list \<Rightarrow> string list \<times> store \<Rightarrow> string list \<times> store" where
  "exec_from [] acc = acc"
| "exec_from (sql # sqls) acc = exec_from sqls
     (case exec_sql sql (snd acc) of (r, db) \<Rightarrow> (if sr_rc r = 0 then fst acc else fst acc @ [sql], db))"

lemma exec_from_eq: "exec_from sqls acc = apfst ((@) (fst acc)) (exec_script sqls (snd acc))"
  by (induction sqls arbitrary: acc) (auto simp: apfst_def map_prod_def split: prod.splits)

lemma exec_script_code [code]: "exec_script sqls db = exec_from sqls ([], db)"
  by (simp add: exec_from_eq apfst_def map_prod_def split: prod.split)

primrec accepted_from :: "sql_any option list \<Rightarrow> bool \<times> store \<Rightarrow> bool \<times> store" where
  "accepted_from [] acc = acc"
| "accepted_from (p # ps) acc =
     accepted_from ps (case exec_any p (snd acc) of (r, db) \<Rightarrow> (fst acc \<and> sr_rc r = 0, db))"

definition parsed_ok :: "(string \<times> sql_any option) list \<Rightarrow> bool" where
  "parsed_ok ps = (list_all (\<lambda>(t, p). any_table p = Some t) ps \<and>
     (case accepted_from (map snd ps) (True, []) of (good, db) \<Rightarrow>
        good \<and> store_ok db \<and> list_all (\<lambda>(t, p). list_ex (\<lambda>e. fst e = t) db) ps))"

lemma accepted_from_eq:
  "accepted_from (map parse_sql sqls) acc =
     (fst acc \<and> fst (exec_script sqls (snd acc)) = [], snd (exec_script sqls (snd acc)))"
  by (induction sqls arbitrary: acc) (auto simp: exec_sql_def Let_def split: prod.splits)

lemma script_ok_code [code]:
  "script_ok sts = parsed_ok (map (\<lambda>st. (step_table st, parse_sql (step_sql st))) sts)"
  using accepted_from_eq [of "map step_sql sts" "(True, [])"]
  by (auto simp: script_ok_def parsed_ok_def sql_table_def list_all_iff comp_def split: prod.splits)

text \<open>Statements on some tables do not see the other tables, so the groups can be run one by one.\<close>

lemma map_of_append_other: "t \<notin> fst ` set b \<Longrightarrow> map_of (a @ b) t = map_of a t"
  using map_of_eq_None_iff [of b t] by (simp add: map_add_def split: option.split)

lemma put_rows_other: "t \<notin> fst ` set b \<Longrightarrow> put_rows t rows b = b"
  unfolding put_rows_def by (rule map_idI) auto

lemma put_rows_append: "put_rows t rows (a @ b) = put_rows t rows a @ put_rows t rows b"
  by (simp add: put_rows_def)

lemma exec_sql_frame:
  assumes "sql_table sql = Some t" and t: "t \<notin> fst ` set b"
  shows "exec_sql sql (a @ b) = apsnd (\<lambda>d. d @ b) (exec_sql sql a)"
proof -
  note other = map_of_append_other [OF t, of a]
  have keep: "filter (\<lambda>e. fst e \<noteq> t) b = b" using t by (auto simp: filter_id_conv)
  from assms(1) obtain x where x: "parse_sql sql = Some x" by (auto simp: sql_table_def any_table_def)
  show ?thesis
  proof (cases x)
    case (Ddl st)
    with assms x other keep show ?thesis
      by (cases st) (auto simp: exec_sql_def exec_any_def exec_ddl_def sql_table_def any_table_def)
  next
    case (Stmt st)
    with assms x other show ?thesis
      by (auto simp: exec_sql_def exec_any_def exec_stmt_def sql_table_def any_table_def put_rows_append put_rows_other split: option.split prod.split)
  qed
qed

lemma exec_script_frame:
  assumes "list_all (\<lambda>sql. \<exists>t. sql_table sql = Some t \<and> t \<notin> fst ` set b) sqls"
  shows "exec_script sqls (a @ b) = apsnd (\<lambda>d. d @ b) (exec_script sqls a)"
  using assms
proof (induction sqls arbitrary: a)
  case (Cons sql sqls)
  then obtain t where "sql_table sql = Some t" "t \<notin> fst ` set b" by auto
  from exec_sql_frame [OF this] Cons show ?case by (auto simp: Let_def split: prod.split)
qed simp

lemma exec_script_append:
  "exec_script (xs @ ys) db = (case exec_script xs db of (bad, db1) \<Rightarrow> apfst ((@) bad) (exec_script ys db1))"
  by (induction xs arbitrary: db) (auto simp: Let_def apfst_def map_prod_def split: prod.splits)

lemma exec_sql_tables:
  assumes "exec_sql sql db = (r, db')" and "sql_table sql = Some t"
  shows "fst ` set db' \<subseteq> insert t (fst ` set db)"
proof -
  have put: "fst ` set (put_rows u rows d) = fst ` set d" for u rows and d :: store
    unfolding put_rows_def set_map image_image by (rule image_cong) auto
  from assms(2) obtain x where x: "parse_sql sql = Some x" by (auto simp: sql_table_def any_table_def)
  show ?thesis
  proof (cases x)
    case (Ddl st)
    with assms x show ?thesis
      by (cases st) (auto simp: exec_sql_def exec_any_def exec_ddl_def sql_table_def any_table_def split: if_splits)
  next
    case (Stmt st)
    then have "db' = db \<or> (\<exists>u rows. db' = put_rows u rows db)"
      using assms x by (auto simp: exec_sql_def exec_any_def exec_stmt_def split: option.splits if_splits prod.splits)
    with put show ?thesis by blast
  qed
qed

lemma exec_script_tables:
  assumes "exec_script sqls db = (bad, db')" and "list_all (\<lambda>sql. \<exists>t \<in> T. sql_table sql = Some t) sqls"
  shows "fst ` set db' \<subseteq> T \<union> fst ` set db"
  using assms
proof (induction sqls arbitrary: db bad)
  case (Cons sql sqls)
  obtain r db1 where 1: "exec_sql sql db = (r, db1)" by (rule prod.exhaust)
  obtain bad2 where 2: "exec_script sqls db1 = (bad2, db')" using Cons.prems(1) 1 by (auto simp: Let_def split: prod.splits)
  from Cons.prems(2) obtain t where "t \<in> T" "sql_table sql = Some t" by auto
  then have "fst ` set db1 \<subseteq> T \<union> fst ` set db" using exec_sql_tables [OF 1] by blast
  moreover have "fst ` set db' \<subseteq> T \<union> fst ` set db1" using Cons.IH [OF 2] Cons.prems(2) by simp
  ultimately show ?case by blast
qed simp

lemma script_okE:
  assumes "script_ok sts"
  obtains db where "exec_script (map step_sql sts) [] = ([], db)" and "store_ok db"
    and "fst ` set db = step_table ` set sts" and "\<And>st. st \<in> set sts \<Longrightarrow> sql_table (step_sql st) = Some (step_table st)"
proof -
  obtain db where db: "exec_script (map step_sql sts) [] = ([], db)" "store_ok db"
    "\<forall>st \<in> set sts. step_table st \<in> fst ` set db"
    and tab: "\<And>st. st \<in> set sts \<Longrightarrow> sql_table (step_sql st) = Some (step_table st)"
    using assms by (auto simp: script_ok_def list_all_iff list_ex_iff image_iff eq_commute split: prod.splits)
  from exec_script_tables [OF db(1), of "step_table ` set sts"] tab have "fst ` set db \<subseteq> step_table ` set sts"
    by (auto simp: list_all_iff)
  with db(3) have "fst ` set db = step_table ` set sts" by blast
  with db tab that show thesis by blast
qed

lemma script_ok_append:
  assumes "script_ok xs" and "script_ok ys" and "step_table ` set xs \<inter> step_table ` set ys = {}"
  shows "script_ok (xs @ ys)"
proof -
  obtain d1 where d1: "exec_script (map step_sql xs) [] = ([], d1)" "store_ok d1" "fst ` set d1 = step_table ` set xs"
    and t1: "\<And>st. st \<in> set xs \<Longrightarrow> sql_table (step_sql st) = Some (step_table st)"
    using script_okE [OF assms(1)] by metis
  obtain d2 where d2: "exec_script (map step_sql ys) [] = ([], d2)" "store_ok d2" "fst ` set d2 = step_table ` set ys"
    and t2: "\<And>st. st \<in> set ys \<Longrightarrow> sql_table (step_sql st) = Some (step_table st)"
    using script_okE [OF assms(2)] by metis
  have "exec_script (map step_sql ys) ([] @ d1) = ([], d2 @ d1)"
    by (subst exec_script_frame) (use t2 d1(3) d2(1) assms(3) in \<open>auto simp: list_all_iff\<close>)
  with d1 have run: "exec_script (map step_sql (xs @ ys)) [] = ([], d2 @ d1)" by (simp add: exec_script_append)
  have "\<exists>e \<in> set (d2 @ d1). fst e = step_table st" if "st \<in> set xs \<union> set ys" for st
  proof -
    have "step_table st \<in> fst ` set (d2 @ d1)" using that d1(3) d2(3) by (simp add: image_Un) blast
    then show ?thesis by force
  qed
  with run d1(2) d2(2) t1 t2 show ?thesis
    unfolding script_ok_def store_ok_def list_all_iff list_ex_iff by auto
qed

section \<open>Drops\<close>

lemma drop_tokens: "is_word t \<Longrightarrow> sql_tokens (drop_sql (Some t)) = Some [T_word ''DROP'', T_word ''TABLE'', T_word t, T_sym CHR '';'']"
proof -
  assume t: "is_word t"
  have k: "reads ''DROP '' [T_word ''DROP''] s" "reads ''TABLE '' [T_word ''TABLE''] s" for s
    using keyword_words(11,12) [THEN reads_word_space] by simp_all
  have "reads t [T_word t] '';''" by (rule reads_word [OF t]) (simp add: no_word_start_def word_char_def)
  then have "reads (t @ '';'') ([T_word t] @ [T_sym CHR '';'']) []"
    by (intro reads_append reads_parens(3)) simp
  then have "reads (''DROP '' @ ''TABLE '' @ t @ '';'') [T_word ''DROP'', T_word ''TABLE'', T_word t, T_sym CHR '';''] []"
    using reads_append [OF k(1) reads_append [OF k(2)], of "t @ '';''" "[T_word t, T_sym CHR '';'']" "[]"] by simp
  then show ?thesis
    using nul_free_word [OF t] by (intro reads_end) (simp add: drop_sql_def fmt_s_def cstr_plain)
qed

lemma parse_drop_sql: "is_word t \<Longrightarrow> parse_sql (drop_sql (Some t)) = Some (Ddl (D_drop t))"
  by (simp add: parse_sql_def drop_tokens parse_ddl_def parse_drop_def first_some_def)

lemma exec_drops:
  assumes "distinct ts" and "list_all is_word ts"
  shows "exec_script (map (\<lambda>t. step_sql (Drop t)) ts) db =
    (map (\<lambda>t. step_sql (Drop t)) (filter (\<lambda>t. t \<notin> fst ` set db) ts), filter (\<lambda>e. fst e \<notin> set ts) db)"
  using assms
proof (induction ts arbitrary: db)
  case (Cons t ts)
  let ?d = "filter (\<lambda>e. fst e \<noteq> t) db"
  have run: "exec_sql (step_sql (Drop t)) db = (if t \<in> fst ` set db then (sql_ok [], ?d) else (sql_fail 1 ''no such table'', ?d))"
  proof -
    have "?d = db" if "t \<notin> fst ` set db" using that by (auto simp: filter_id_conv)
    with Cons.prems(2) show ?thesis by (simp add: exec_sql_def exec_any_def exec_ddl_def step_sql_def parse_drop_sql map_of_eq_None_iff)
  qed
  have "filter (\<lambda>u. u \<notin> fst ` set ?d) ts = filter (\<lambda>u. u \<notin> fst ` set db) ts"
    using Cons.prems(1) by (intro filter_cong) force+
  moreover have "filter (\<lambda>e. fst e \<notin> set ts) ?d = filter (\<lambda>e. fst e \<notin> set (t # ts)) db"
    by (auto intro: filter_cong)
  ultimately show ?case
    using Cons.IH [of ?d] Cons.prems run by (simp add: sql_ok_def sql_fail_def)
qed simp

text \<open>An initialisation leaves what its script makes of nothing, and the tables it does not name.\<close>

lemma init_independent:
  assumes "script_ok sts" and "step_table ` set sts \<subseteq> set ts" and "distinct ts" "list_all is_word ts"
  shows "\<exists>new. store_ok new \<and> fst ` set new = step_table ` set sts \<and>
    (\<forall>db. exec_script (map step_sql (map Drop ts @ sts)) db =
      (map (\<lambda>t. step_sql (Drop t)) (filter (\<lambda>t. t \<notin> fst ` set db) ts), new @ filter (\<lambda>e. fst e \<notin> set ts) db))"
proof -
  obtain new where new: "exec_script (map step_sql sts) [] = ([], new)" "store_ok new" "fst ` set new = step_table ` set sts"
    and tab: "\<And>st. st \<in> set sts \<Longrightarrow> sql_table (step_sql st) = Some (step_table st)"
    using script_okE [OF assms(1)] by metis
  have "exec_script (map step_sql sts) ([] @ filter (\<lambda>e. fst e \<notin> set ts) db) = ([], new @ filter (\<lambda>e. fst e \<notin> set ts) db)" for db :: store
    by (subst exec_script_frame) (use tab new(1) assms(2) in \<open>auto simp: list_all_iff\<close>)
  with new exec_drops [OF assms(3,4)] show ?thesis
    by (intro exI [of _ new]) (simp add: exec_script_append comp_def)
qed

section \<open>The service on such a database\<close>

lemma stmt_kinds:
  "parse_insert ts = Some st \<Longrightarrow> \<exists>t g. st = Q_insert t g" "parse_update ts = Some st \<Longrightarrow> \<exists>t a b. st = Q_update t a b"
  "parse_delete ts = Some st \<Longrightarrow> \<exists>t w. st = Q_delete t w"
  by (auto simp: parse_insert_def parse_update_def parse_delete_def split: bind_splits prod.splits if_splits)

lemma select_first: "parse_select ts = Some st \<Longrightarrow> \<exists>us. ts = T_word ''SELECT'' # us"
  by (cases ts) (auto simp: parse_select_def split: bind_splits if_splits)

lemma select_word: "parse_stmt ts = Some (Q_select p t w l) \<Longrightarrow> \<exists>us. ts = T_word ''SELECT'' # us"
  using stmt_kinds [of ts] select_first [of ts]
  by (auto simp: parse_stmt_def first_some_def split: option.splits)

lemma step_first_word:
  assumes "sql_tokens (step_sql st) = Some ts"
  shows "ts \<noteq> T_word ''SELECT'' # us"
proof -
  have k: "sql_tokens (w @ '' '' @ rest) = map_option ((#) (T_word w)) (sql_tokens rest)" if "is_word w" for w rest
    using reads_word_space [OF that, of rest] by (simp add: reads_def map_option_Cons_append)
  have "is_word ''CREATE''" by (simp add: is_word_def word_char_def)
  with assms k [of "''DROP''"] k [of "''CREATE''"] k [of "''INSERT''"] keyword_words show ?thesis
    by (cases st) (auto simp: step_sql_def drop_sql_def create_sql_def insert_sql_def)
qed

lemma step_no_rows: "exec_sql (step_sql st) db = (r, db') \<Longrightarrow> sr_rows r = []"
  using step_first_word [of st] select_word
  by (fastforce simp: exec_sql_def exec_any_def parse_sql_def exec_ddl_def exec_stmt_def exec_on_def sql_ok_def sql_fail_def Let_def
      first_some_def split: sql_any.splits ddl_stmt.splits sql_stmt.splits if_splits option.splits prod.splits bind_splits)

lemma run_steps_script:
  fixes s :: "'d dbs"
  assumes "runs_sql sq tables" and "exec_script (map step_sql sts) (tables (db_state s)) = (bad, db')"
    and "\<forall>sql \<in> set bad. \<exists>t. is_word t \<and> sql = drop_sql (Some t)"
  shows "\<exists>s'. run_steps jl sq sts s = Some s' \<and> tables (db_state s') = db' \<and>
    db_ran s' = db_ran s @ map step_sql sts \<and> db_signals s' = db_signals s"
  using assms(2,3)
proof (induction sts arbitrary: s bad)
  case (Cons st sts)
  let ?sql = "step_sql st"
  obtain r db1 where 1: "exec_sql ?sql (tables (db_state s)) = (r, db1)" by (rule prod.exhaust)
  obtain bad2 where 2: "exec_script (map step_sql sts) db1 = (bad2, db')" "bad = (if sr_rc r = 0 then bad2 else ?sql # bad2)"
    using Cons.prems(1) 1 by (auto simp: Let_def split: prod.splits)
  have "covered ?sql (tables (db_state s))"
  proof (cases "sr_rc r = 0")
    case False
    with 2(2) Cons.prems(2) show ?thesis by (auto simp: covered_def parse_drop_sql)
  qed (rule accepted_covered [OF 1])
  with assms(1) 1 have law: "if sr_rc r = 0 then result ?sql sq s = r else code_ok (result ?sql sq s) \<and> sr_rows (result ?sql sq s) = []"
    "tables (db_state (ran ?sql sq s)) = db1"
    unfolding runs_sql_def ran_def by (fastforce split: prod.splits)+
  then have "sane_result (result ?sql sq s)"
    using step_no_rows [OF 1] by (auto simp: sane_result_iff code_ok_def int32_ok_def split: if_splits)
  from rkdb_sql_at [OF this, of jl] Cons.IH [of "ran ?sql sq s" bad2] 2 Cons.prems(2) law(2) show ?case
    by (auto simp: ran_def split: if_splits)
qed simp

end
