(* ===== verification/DbSchema.thy ===== *)
theory DbSchema
  imports DbTables SqlScript
begin

text \<open>
  What SQLite makes of the initial tables: the statements of the initialisations run on the typed
  tables of theory \<open>SqlTables\<close>, as texts.  It shows that no statement is refused but drops of missing tables,
  that the values have the declared types, and that reading any initial row back cannot crash the
  row callback of \<^verbatim>\<open>rkdb.c\<close>.
\<close>

section \<open>Groups of statements\<close>

lemma network_group_ok_0: "script_ok (version_steps TABLE_NETWORK_VERSION NETWORK_VERSION)"
  by code_simp

lemma network_group_ok_1: "script_ok network_tables_1"
  by code_simp

lemma network_group_ok_2: "script_ok network_tables_2"
  by code_simp

lemmas network_groups_ok = network_group_ok_0 network_group_ok_1 network_group_ok_2

lemma network_names:
  "step_table ` set network_tables_1 = {TABLE_NETWORK_SERVICE, TABLE_NETWORK_IP, TABLE_NETWORK_POWER, TABLE_NETWORK_NTP}"
  "step_table ` set network_tables_2 = {TABLE_NETWORK_ZONE, TABLE_NETWORK_PORT}"
  by (auto simp: step_table_def network_tables_1_def network_tables_2_def)

lemma network_ok: "script_ok (version_steps TABLE_NETWORK_VERSION NETWORK_VERSION @ network_tables)"
  unfolding network_tables_def
  by (intro script_ok_append network_groups_ok) (simp_all add: network_names image_Un table_names)

lemma storage_group_ok_0: "script_ok (version_steps TABLE_STORAGE_VERSION STORAGE_VERSION)"
  by code_simp

lemma storage_group_ok_1: "script_ok storage_tables_1"
  by code_simp

lemma storage_group_ok_2: "script_ok storage_tables_2"
  by code_simp

lemmas storage_groups_ok = storage_group_ok_0 storage_group_ok_1 storage_group_ok_2

lemma storage_names:
  "step_table ` set storage_tables_1 = {TABLE_STORAGE_DISK_PATH, TABLE_STORAGE_MEDIA_FOLDER, TABLE_STORAGE_CONFIG}"
  "step_table ` set storage_tables_2 = {TABLE_STORAGE_PLAN_SNAP, TABLE_STORAGE_ADVANCE_PARA}"
  by (auto simp: step_table_def storage_tables_1_def storage_tables_2_def)

lemma storage_ok: "script_ok (version_steps TABLE_STORAGE_VERSION STORAGE_VERSION @ storage_tables)"
  unfolding storage_tables_def
  by (intro script_ok_append storage_groups_ok) (simp_all add: storage_names image_Un table_names)

lemma event_group_ok_0: "script_ok (version_steps TABLE_EVENT_VERSION EVENT_VERSION)"
  by code_simp

lemma event_group_ok_1: "script_ok event_tables_1"
  by code_simp

lemma event_group_ok_2: "script_ok event_tables_2"
  by code_simp

lemma event_group_ok_3: "script_ok event_tables_3"
  by code_simp

lemma event_group_ok_4: "script_ok event_tables_4"
  by code_simp

lemmas event_groups_ok = event_group_ok_0 event_group_ok_1 event_group_ok_2 event_group_ok_3 event_group_ok_4

lemma event_names:
  "step_table ` set event_tables_1 = {TABLE_EVENT_TRIGGERS, TABLE_EVENT_SCHEDULES, TABLE_REGIONAL_INVASION}"
  "step_table ` set event_tables_2 = {TABLE_MOVE_DETECTION, TABLE_FACE_CONFIG}"
  "step_table ` set event_tables_3 = {TABLE_FACE_LIST, TABLE_FACE_SNAPSHOT_RECORD, TABLE_FACE_CONTROL_RECORD}"
  "step_table ` set event_tables_4 = {TABLE_SMART_COVER, TABLE_SMART_COVER_OVERLAY, TABLE_NOTIFICATION}"
  by (auto simp: step_table_def event_tables_1_def event_tables_2_def event_tables_3_def event_tables_4_def)

lemma event_ok: "script_ok (version_steps TABLE_EVENT_VERSION EVENT_VERSION @ event_tables)"
  unfolding event_tables_def
  by (intro script_ok_append event_groups_ok) (simp_all add: event_names image_Un table_names)

lemma peripherals_group_ok_0: "script_ok (version_steps TABLE_PERIPHERALS_VERSION PERIPHERALS_VERSION)"
  by code_simp

lemma peripherals_group_ok_1: "script_ok peripherals_tables"
  by code_simp

lemmas peripherals_groups_ok = peripherals_group_ok_0 peripherals_group_ok_1

lemma peripherals_names:
  "step_table ` set peripherals_tables = {TABLE_PERIPHERALS_RELAY, TABLE_PERIPHERALS_WEIGEN, TABLE_PERIPHERALS_FILL_LIGHT}"
  by (auto simp: step_table_def peripherals_tables_def)

lemma peripherals_ok: "script_ok (version_steps TABLE_PERIPHERALS_VERSION PERIPHERALS_VERSION @ peripherals_tables)"
  by (intro script_ok_append peripherals_groups_ok) (simp_all add: peripherals_names image_Un table_names)

lemma media_group_ok_0: "script_ok (version_steps TABLE_MEDIA_VERSION MEDIA_VERSION)"
  by code_simp

lemma media_group_ok_1: "script_ok media_tables_1"
  by code_simp

lemma media_group_ok_2: "script_ok media_tables_2"
  by code_simp

lemma media_group_ok_3: "script_ok media_tables_3"
  by code_simp

lemma media_group_ok_4: "script_ok media_tables_4"
  by code_simp

lemma media_group_ok_5: "script_ok media_tables_5"
  by code_simp

lemma media_group_ok_6: "script_ok media_tables_6"
  by code_simp

lemma media_group_ok_7: "script_ok media_tables_7"
  by code_simp

lemma media_group_ok_8: "script_ok media_tables_8"
  by code_simp

lemmas media_groups_ok = media_group_ok_0 media_group_ok_1 media_group_ok_2 media_group_ok_3 media_group_ok_4 media_group_ok_5 media_group_ok_6 media_group_ok_7 media_group_ok_8

lemma media_names:
  "step_table ` set media_tables_1 = {TABLE_VIDEO, TABLE_VIDEO_ADVANCED_ENC}"
  "step_table ` set media_tables_2 = {TABLE_AUDIO, TABLE_STREAM_URL, TABLE_IMAGE_SCENARIO, TABLE_IMAGE_ADJUSTMENT}"
  "step_table ` set media_tables_3 = {TABLE_IMAGE_EXPOSURE, TABLE_IMAGE_NIGHT_TO_DAY}"
  "step_table ` set media_tables_4 = {TABLE_IMAGE_BLC, TABLE_IMAGE_WHITE_BLANCE}"
  "step_table ` set media_tables_5 = {TABLE_IMAGE_ENHANCEMENT, TABLE_IMAGE_VIDEO_ADJUSTMEN, TABLE_NORMALIZED_SCREEN_SIZE}"
  "step_table ` set media_tables_6 = {TABLE_OSD}"
  "step_table ` set media_tables_7 = {TABLE_ROI, TABLE_VIDEO_REGION_CLIP}"
  "step_table ` set media_tables_8 = {TABLE_PROFILE, TABLE_VIDEO_SOURCE, TABLE_VIDEO_SOURCE_CONFIGURATION, TABLE_METADATA}"
  by (auto simp: step_table_def media_tables_1_def media_tables_2_def media_tables_3_def media_tables_4_def media_tables_5_def media_tables_6_def media_tables_7_def media_tables_8_def)

lemma media_ok: "script_ok (version_steps TABLE_MEDIA_VERSION MEDIA_VERSION @ media_tables)"
  unfolding media_tables_def
  by (intro script_ok_append media_groups_ok) (simp_all add: media_names image_Un table_names)

section \<open>Properties\<close>

definition initialisations :: "(db_step list \<times> string \<times> string \<times> db_step list) list" where
  "initialisations =
     [(network_drops, TABLE_NETWORK_VERSION, NETWORK_VERSION, network_tables),
      (storage_drops, TABLE_STORAGE_VERSION, STORAGE_VERSION, storage_tables),
      (media_drops, TABLE_MEDIA_VERSION, MEDIA_VERSION, media_tables),
      (event_drops, TABLE_EVENT_VERSION, EVENT_VERSION, event_tables),
      (peripherals_drops, TABLE_PERIPHERALS_VERSION, PERIPHERALS_VERSION, peripherals_tables)]"

lemma all_drops: "list_all (\<lambda>st. \<exists>t. st = Drop t) sts \<Longrightarrow> sts = map Drop (map step_table sts)"
  by (induction sts) (auto simp: step_table_def)

lemma drops_are_drops:
  "list_all (\<lambda>st. \<exists>t. st = Drop t) network_drops" "list_all (\<lambda>st. \<exists>t. st = Drop t) storage_drops"
  "list_all (\<lambda>st. \<exists>t. st = Drop t) media_drops" "list_all (\<lambda>st. \<exists>t. st = Drop t) event_drops"
  "list_all (\<lambda>st. \<exists>t. st = Drop t) peripherals_drops"
  by (simp_all add: network_drops_def storage_drops_def media_drops_def event_drops_def peripherals_drops_def)

lemma drop_names:
  "distinct (map step_table network_drops)" "list_all is_word (map step_table network_drops)"
  "distinct (map step_table storage_drops)" "list_all is_word (map step_table storage_drops)"
  "distinct (map step_table media_drops)" "list_all is_word (map step_table media_drops)"
  "distinct (map step_table event_drops)" "list_all is_word (map step_table event_drops)"
  "distinct (map step_table peripherals_drops)" "list_all is_word (map step_table peripherals_drops)"
  by code_simp+

lemma created_are_dropped:
  "step_table ` set (version_steps TABLE_NETWORK_VERSION NETWORK_VERSION @ network_tables) \<subseteq> step_table ` set network_drops"
  "step_table ` set (version_steps TABLE_STORAGE_VERSION STORAGE_VERSION @ storage_tables) \<subseteq> step_table ` set storage_drops"
  "step_table ` set (version_steps TABLE_MEDIA_VERSION MEDIA_VERSION @ media_tables) \<subseteq> step_table ` set media_drops"
  "step_table ` set (version_steps TABLE_EVENT_VERSION EVENT_VERSION @ event_tables) \<subseteq> step_table ` set event_drops"
  "step_table ` set (version_steps TABLE_PERIPHERALS_VERSION PERIPHERALS_VERSION @ peripherals_tables) \<subseteq> step_table ` set peripherals_drops"
  by (simp_all add: image_Un network_tables_def storage_tables_def media_tables_def event_tables_def network_names storage_names
      media_names event_names peripherals_names network_drops_def storage_drops_def media_drops_def event_drops_def
      peripherals_drops_def)

text \<open>What an initialisation does, as a script and as the function of the service.\<close>

definition init_result :: "db_step list \<Rightarrow> string \<Rightarrow> string \<Rightarrow> db_step list \<Rightarrow> store \<Rightarrow> bool" where
  "init_result drops vtable version tables new \<longleftrightarrow> store_ok new \<and>
     fst ` set new = insert vtable (step_table ` set tables) \<and>
     (\<forall>db. exec_script (map step_sql (drops @ version_steps vtable version @ tables)) db =
        (map step_sql (filter (\<lambda>st. step_table st \<notin> fst ` set db) drops),
         new @ filter (\<lambda>e. fst e \<notin> step_table ` set drops) db))"

lemma init_ok:
  assumes "list_all (\<lambda>st. \<exists>t. st = Drop t) drops" and "script_ok (version_steps vtable version @ tables)"
    and "step_table ` set (version_steps vtable version @ tables) \<subseteq> step_table ` set drops"
    and "distinct (map step_table drops)" "list_all is_word (map step_table drops)"
  shows "\<exists>new. init_result drops vtable version tables new"
proof -
  have drops: "map (\<lambda>t. step_sql (Drop t)) (filter P (map step_table drops)) = map step_sql (filter (\<lambda>st. P (step_table st)) drops)" for P
    using assms(1) by (induction drops) auto
  obtain new where "store_ok new" "fst ` set new = step_table ` set (version_steps vtable version @ tables)"
    "\<forall>db. exec_script (map step_sql (map Drop (map step_table drops) @ version_steps vtable version @ tables)) db =
      (map (\<lambda>t. step_sql (Drop t)) (filter (\<lambda>t. t \<notin> fst ` set db) (map step_table drops)),
       new @ filter (\<lambda>e. fst e \<notin> set (map step_table drops)) db)"
    using init_independent [OF assms(2), of "map step_table drops"] assms(3-) by auto
  then show ?thesis
    unfolding init_result_def all_drops [OF assms(1), symmetric] drops by (auto simp: image_Un)
qed

lemma component_init_tables:
  fixes s :: "'d dbs"
  assumes "init_result drops vtable version tables new" and "list_all (\<lambda>st. \<exists>t. st = Drop t) drops"
    and "list_all is_word (map step_table drops)"
    and "runs_sql sq tabs" and "equal_version jl sq vtable version s = Some (False, s1)"
  shows "\<exists>s'. component_init jl sq vtable version drops tables s = Some s' \<and>
    tabs (db_state s') = new @ filter (\<lambda>e. fst e \<notin> step_table ` set drops) (tabs (db_state s1)) \<and>
    db_ran s' = db_ran s1 @ map step_sql (drops @ version_steps vtable version @ tables) \<and>
    db_signals s' = db_signals s1"
proof -
  let ?sts = "drops @ version_steps vtable version @ tables"
  have "component_init jl sq vtable version drops tables s = run_steps jl sq ?sts s1"
    by (simp add: component_init_def assms(5) creat_version_steps run_steps_append)
  moreover have "\<exists>t. is_word t \<and> step_sql st = drop_sql (Some t)" if "st \<in> set drops" for st
  proof -
    from assms(2) that obtain t where "st = Drop t" by (auto simp: list_all_iff)
    with assms(3) that show ?thesis by (auto simp: list_all_iff step_sql_def)
  qed
  ultimately show ?thesis
    using run_steps_script [OF assms(4), of ?sts s1] assms(1) by (auto simp: init_result_def)
qed

lemma initialisations_ok:
  assumes "(drops, vtable, version, tables) \<in> set initialisations"
  shows "\<exists>new. init_result drops vtable version tables new" "list_all (\<lambda>st. \<exists>t. st = Drop t) drops"
    "list_all is_word (map step_table drops)"
  using assms init_ok [OF drops_are_drops(1) network_ok created_are_dropped(1) drop_names(1,2)]
    init_ok [OF drops_are_drops(2) storage_ok created_are_dropped(2) drop_names(3,4)]
    init_ok [OF drops_are_drops(3) media_ok created_are_dropped(3) drop_names(5,6)]
    init_ok [OF drops_are_drops(4) event_ok created_are_dropped(4) drop_names(7,8)]
    init_ok [OF drops_are_drops(5) peripherals_ok created_are_dropped(5) drop_names(9,10)]
    drops_are_drops drop_names
  unfolding initialisations_def by (simp_all only: list.set insert_iff empty_iff prod.inject) blast+

text \<open>
  Property C18. The initial tables of the database service are well typed (network, storage, media,
  event, peripherals).  Whatever tables a database has, of the statements of an initialisation
  SQLite refuses exactly the drops of tables that are not there: \<^verbatim>\<open>DROP TABLE\<close> is sent without
  \<^verbatim>\<open>IF EXISTS\<close>.  (The tables of \<^verbatim>\<open>system.c\<close>, with JSON texts of several thousand characters, are left out.)  Every creation and every insertion is accepted: the table was not there or has been dropped, its columns
  are distinct, and every row names declared columns, has one value for each, of the declared type,
  and respects NOT NULL, UNIQUE and the keys.  All tables of the initialisation are there
  afterwards, the same whatever there was before, no column that the row callback converts with
  \<^verbatim>\<open>atoi\<close> is a text or has a NULL in an initial row, and the other tables of the database stay as they are.  On a database
  that runs these statements so, the function of the service, after a version check that
  failed, runs all of them in spite of refusals and leaves just these tables, without a signal.
\<close>

theorem initial_tables_well_typed:
  assumes "(drops, vtable, version, tables) \<in> set initialisations"
  shows "\<exists>new. store_ok new \<and> fst ` set new = insert vtable (step_table ` set tables) \<and>
    (\<forall>db. exec_script (map step_sql (drops @ version_steps vtable version @ tables)) db =
       (map step_sql (filter (\<lambda>st. step_table st \<notin> fst ` set db) drops),
        new @ filter (\<lambda>e. fst e \<notin> step_table ` set drops) db)) \<and>
    (\<forall>jl (sq :: 'd sqlite) tabs s s1. runs_sql sq tabs \<longrightarrow> equal_version jl sq vtable version s = Some (False, s1) \<longrightarrow>
       (\<exists>s'. component_init jl sq vtable version drops tables s = Some s' \<and>
          tabs (db_state s') = new @ filter (\<lambda>e. fst e \<notin> step_table ` set drops) (tabs (db_state s1)) \<and>
          db_ran s' = db_ran s1 @ map step_sql (drops @ version_steps vtable version @ tables) \<and>
          db_signals s' = db_signals s1))"
proof -
  obtain new where new: "init_result drops vtable version tables new" using initialisations_ok(1) [OF assms] by blast
  note run = component_init_tables [OF new initialisations_ok(2,3) [OF assms]]
  from new show ?thesis
    unfolding init_result_def by (intro exI [of _ new] conjI allI impI run) simp_all
qed

theorem initial_tables_well_typed_witness:
  "\<exists>new. store_ok new \<and> exec_script (map step_sql (peripherals_drops @ version_steps TABLE_PERIPHERALS_VERSION PERIPHERALS_VERSION @ peripherals_tables))
     [(''x'', \<lparr>tb_cols = [], tb_rows = []\<rparr>)] = (map step_sql peripherals_drops, new @ [(''x'', \<lparr>tb_cols = [], tb_rows = []\<rparr>)]) \<and>
   (\<exists>s'. component_init numbered_json script_engine TABLE_PERIPHERALS_VERSION PERIPHERALS_VERSION peripherals_drops peripherals_tables
      \<lparr>db_state = [], db_ran = [], db_signals = []\<rparr> = Some s' \<and> db_state s' = new)"
proof -
  let ?s = "\<lparr>db_state = [], db_ran = [], db_signals = []\<rparr> :: store dbs"
  let ?q = "version_query TABLE_PERIPHERALS_VERSION"
  have i: "(peripherals_drops, TABLE_PERIPHERALS_VERSION, PERIPHERALS_VERSION, peripherals_tables) \<in> set initialisations"
    by (simp add: initialisations_def)
  have f: "exec_sql ?q [] = (sql_fail 1 ''no such table'', [])" by code_simp
  have "equal_version numbered_json script_engine TABLE_PERIPHERALS_VERSION v ?s = Some (False, ran ?q script_engine ?s)" for v
    by (subst equal_version_runs)
       (simp_all add: numbered_json_ok script_engine_def f sql_fail_def sane_result_def int32_ok_def version_rows_ok_def
         version_found_def the_rows_def)
  moreover have "db_state (ran ?q script_engine ?s) = []" by (simp add: ran_def script_engine_def f)
  ultimately show ?thesis
    using initial_tables_well_typed [OF i, where ?'d = store] script_engine_runs
    by (fastforce simp: peripherals_drops_def table_names)
qed

end
