(* ===== verification/DbClient.thy ===== *)
theory DbClient
  imports DbTables
begin

text \<open>
  The client library of the database service, \<^verbatim>\<open>libIPCProtocol/dbserver.cc\<close> with
  \<^verbatim>\<open>dbus_connection.cc\<close>: every function of its interface builds a JSON request and sends it over
  D-Bus.  The bus with what is behind it is the parameter \<open>bus\<close>.  A pointer argument that the code
  tests against NULL is an option; one that it reads without a test is the value.  A result
  \<open>None\<close> is a crash, or a lock that is never released.
\<close>

section \<open>Connection\<close>

definition DBSERVER :: string where "DBSERVER = ''rockchip.dbserver''"
definition DBSERVER_NET_INTERFACE :: string where "DBSERVER_NET_INTERFACE = DBSERVER @ ''.net''"
definition DBSERVER_STORAGE_INTERFACE :: string where "DBSERVER_STORAGE_INTERFACE = DBSERVER @ ''.storage''"
definition DBSERVER_MEDIA_INTERFACE :: string where "DBSERVER_MEDIA_INTERFACE = DBSERVER @ ''.media''"
definition DBSERVER_SYSTEM_INTERFACE :: string where "DBSERVER_SYSTEM_INTERFACE = DBSERVER @ ''.system''"
definition DBSERVER_EVENT_INTERFACE :: string where "DBSERVER_EVENT_INTERFACE = DBSERVER @ ''.event''"
definition DBSERVER_PERIPHERALS_INTERFACE :: string where "DBSERVER_PERIPHERALS_INTERFACE = DBSERVER @ ''.peripherals''"
definition DS_SIGNAL_DATACHANGED :: string where "DS_SIGNAL_DATACHANGED = ''DataChanged''"

text \<open>The header of the library has the names of the tables again; these differ from the server's.\<close>

definition TABLE_NTP :: string where "TABLE_NTP = ''ntp''"
definition TABLE_ZONE :: string where "TABLE_ZONE = ''zone''"
definition TABLE_PORT :: string where "TABLE_PORT = ''port''"
definition MAX_OSD_NUM :: nat where "MAX_OSD_NUM = 15"

text \<open>
  The bus: whether a connection can be had, and a method call with interface, member and text.
  A call without a result is one for which the library throws an error.
\<close>

record 's bus =
  bu_connect :: "'s \<Rightarrow> bool"
  bu_call :: "string \<Rightarrow> string \<Rightarrow> string \<Rightarrow> 's \<Rightarrow> string option \<times> 's"

record 's cl =
  cl_mutex :: bool
  dbus_conn_flag :: bool
  cl_peer :: 's

type_synonym ('s, 'a) client = "'s cl \<Rightarrow> ('a \<times> 's cl) option"

definition dbus_mutex_lock :: "('s, unit) client" where
  "dbus_mutex_lock w = (if cl_mutex w then None else Some ((), w\<lparr>cl_mutex := True\<rparr>))"

definition dbus_mutex_unlock :: "'s cl \<Rightarrow> 's cl" where
  "dbus_mutex_unlock w = w\<lparr>cl_mutex := False\<rparr>"

text \<open>\<^verbatim>\<open>get_dbus_conn\<close>: connects once; \<open>False\<close> is the exception of the bus.\<close>

definition get_dbus_conn :: "'s bus \<Rightarrow> 's cl \<Rightarrow> bool \<times> 's cl" where
  "get_dbus_conn bus w =
     (if dbus_conn_flag w then (True, w)
      else if bu_connect bus (cl_peer w) then (True, w\<lparr>dbus_conn_flag := True\<rparr>) else (False, w))"

text \<open>\<^verbatim>\<open>DBSERVER_DBUSSEND\<close> with the proxy method: locked, and NULL after an exception.\<close>

definition DBSERVER_DBUSSEND :: "'s bus \<Rightarrow> string \<Rightarrow> string \<Rightarrow> string \<Rightarrow> ('s, string option) client" where
  "DBSERVER_DBUSSEND bus member json interface w = do {
     (_, w1) \<leftarrow> dbus_mutex_lock w;
     (case get_dbus_conn bus w1 of (ok, w2) \<Rightarrow>
       (case (if ok then bu_call bus interface member json (cl_peer w2) else (None, cl_peer w2)) of
          (reply, p) \<Rightarrow> Some (map_option cstr reply, dbus_mutex_unlock (w2\<lparr>cl_peer := p\<rparr>)))) }"

definition dbserver_cmd :: "'s bus \<Rightarrow> string \<Rightarrow> string \<Rightarrow> ('s, string option) client" where
  "dbserver_cmd bus json interface = DBSERVER_DBUSSEND bus ''Cmd'' json interface"

definition dbserver_sql :: "'s bus \<Rightarrow> string \<Rightarrow> string \<Rightarrow> ('s, string option) client" where
  "dbserver_sql bus json interface = DBSERVER_DBUSSEND bus ''Sql'' json interface"

definition IPCProtocol_init :: "'s bus \<Rightarrow> 's cl \<Rightarrow> int \<times> 's cl" where
  "IPCProtocol_init bus w = (case get_dbus_conn bus w of (ok, w1) \<Rightarrow> (if ok then 0 else -1, w1))"

section \<open>Requests\<close>

definition j_request :: "string \<Rightarrow> json \<Rightarrow> json \<Rightarrow> string \<Rightarrow> json" where
  "j_request table key data cmd =
     J_object [(''table'', J_string table), (''key'', key), (''data'', data), (''cmd'', J_string cmd)]"

text \<open>The common end of the functions: print the request, send it, and return the reply.\<close>

definition send_cmd :: "jsonlib \<Rightarrow> 's bus \<Rightarrow> json \<Rightarrow> string \<Rightarrow> ('s, string option) client" where
  "send_cmd jl bus j_cfg interface = dbserver_cmd bus (jl_print jl j_cfg) interface"

definition discard :: "('s, 'a) client \<Rightarrow> ('s, unit) client" where
  "discard f w = map_option (\<lambda>(_, w'). ((), w')) (f w)"

text \<open>Fields that are added only for a pointer that is not NULL.\<close>

definition opt_s :: "string \<Rightarrow> string option \<Rightarrow> (string \<times> json) list" where
  "opt_s name p = (case p of None \<Rightarrow> [] | Some s \<Rightarrow> [(name, J_string s)])"

definition opt_i :: "string \<Rightarrow> int option \<Rightarrow> (string \<times> json) list" where
  "opt_i name p = (case p of None \<Rightarrow> [] | Some i \<Rightarrow> [(name, J_int i)])"

text \<open>The three shapes most functions have: all rows, rows with a key, and insert or update by key.\<close>

definition select_cmd :: "jsonlib \<Rightarrow> 's bus \<Rightarrow> string \<Rightarrow> (string \<times> json) list \<Rightarrow> string \<Rightarrow> ('s, string option) client" where
  "select_cmd jl bus table key interface = send_cmd jl bus (j_request table (J_object key) (J_string ''*'') ''Select'') interface"

definition update_cmd ::
  "jsonlib \<Rightarrow> 's bus \<Rightarrow> string \<Rightarrow> (string \<times> json) list \<Rightarrow> json \<Rightarrow> string \<Rightarrow> ('s, string option) client" where
  "update_cmd jl bus table key data interface = send_cmd jl bus (j_request table (J_object key) data ''Update'') interface"

definition delete_cmd ::
  "jsonlib \<Rightarrow> 's bus \<Rightarrow> string \<Rightarrow> (string \<times> json) list \<Rightarrow> json \<Rightarrow> string \<Rightarrow> ('s, string option) client" where
  "delete_cmd jl bus table key data interface = send_cmd jl bus (j_request table (J_object key) data ''Delete'') interface"

definition insert_cmd :: "jsonlib \<Rightarrow> 's bus \<Rightarrow> string \<Rightarrow> (string \<times> json) list \<Rightarrow> string \<Rightarrow> ('s, string option) client" where
  "insert_cmd jl bus table data interface = send_cmd jl bus (j_request table (J_object []) (J_object data) ''Insert'') interface"

text \<open>An update with the row number as key and the caller's JSON text as data; NULL text is refused.\<close>

definition set_json_cmd :: "jsonlib \<Rightarrow> 's bus \<Rightarrow> string \<Rightarrow> string option \<Rightarrow> (string \<times> json) list \<Rightarrow> string \<Rightarrow> ('s, string option) client" where
  "set_json_cmd jl bus table json key interface w = (case json of
     None \<Rightarrow> Some (None, w)
   | Some text \<Rightarrow> update_cmd jl bus table key (jl_parse jl text) interface w)"

section \<open>System\<close>

definition dbserver_system_user_add ::
  "jsonlib \<Rightarrow> 's bus \<Rightarrow> string option \<Rightarrow> string option \<Rightarrow> int option \<Rightarrow> int option \<Rightarrow> int option \<Rightarrow> ('s, string option) client" where
  "dbserver_system_user_add jl bus username password authlevel userlevel fixed =
     insert_cmd jl bus TABLE_SYSTEM_USER
       (opt_s ''sUserName'' username @ opt_s ''sPassword'' password @ opt_i ''iAuthLevel'' authlevel @
        opt_i ''iUserLevel'' userlevel @ opt_i ''iFixed'' fixed) DBSERVER_SYSTEM_INTERFACE"

definition dbserver_system_user_del_username :: "jsonlib \<Rightarrow> 's bus \<Rightarrow> string option \<Rightarrow> ('s, string option) client" where
  "dbserver_system_user_del_username jl bus username =
     delete_cmd jl bus TABLE_SYSTEM_USER (opt_s ''sUserName'' username) (J_object []) DBSERVER_SYSTEM_INTERFACE"

definition dbserver_system_user_set ::
  "jsonlib \<Rightarrow> 's bus \<Rightarrow> string option \<Rightarrow> string option \<Rightarrow> int option \<Rightarrow> int option \<Rightarrow> ('s, string option) client" where
  "dbserver_system_user_set jl bus username password authlevel userlevel =
     update_cmd jl bus TABLE_SYSTEM_USER (opt_s ''sUserName'' username)
       (J_object (opt_s ''sPassword'' password @ opt_i ''iAuthLevel'' authlevel @ opt_i ''iUserLevel'' userlevel))
       DBSERVER_SYSTEM_INTERFACE"

definition user_key :: "string option \<Rightarrow> string option \<Rightarrow> int option \<Rightarrow> int option \<Rightarrow> (string \<times> json) list" where
  "user_key username password authlevel userlevel =
     opt_s ''sUserName'' username @ opt_s ''sPassword'' password @ opt_i ''iAuthLevel'' authlevel @ opt_i ''iUserLevel'' userlevel"

definition dbserver_system_user_get ::
  "jsonlib \<Rightarrow> 's bus \<Rightarrow> string option \<Rightarrow> string option \<Rightarrow> int option \<Rightarrow> int option \<Rightarrow> ('s, string option) client" where
  "dbserver_system_user_get jl bus username password authlevel userlevel =
     select_cmd jl bus TABLE_SYSTEM_USER (user_key username password authlevel userlevel) DBSERVER_SYSTEM_INTERFACE"

text \<open>\<^verbatim>\<open>json_object_array_get_idx\<close> asserts an array; behind its end there is NULL.\<close>

definition json_object_array_get_idx :: "json \<Rightarrow> nat \<Rightarrow> json option" where
  "json_object_array_get_idx j i = (case j of J_array xs \<Rightarrow> Some (if i < length xs then xs ! i else J_null) | _ \<Rightarrow> None)"

definition dbserver_system_user_num_get ::
  "jsonlib \<Rightarrow> 's bus \<Rightarrow> string option \<Rightarrow> string option \<Rightarrow> int option \<Rightarrow> int option \<Rightarrow> ('s, int) client" where
  "dbserver_system_user_num_get jl bus username password authlevel userlevel w = do {
     (ret, w1) \<leftarrow> send_cmd jl bus (j_request TABLE_SYSTEM_USER (J_object (user_key username password authlevel userlevel))
       (J_string ''count(id)'') ''Select'') DBSERVER_SYSTEM_INTERFACE w;
     (case ret of
        None \<Rightarrow> Some (-1, w1)
      | Some text \<Rightarrow> (case json_object_object_get (jl_parse jl text) ''jData'' of
          J_array rows \<Rightarrow> Some (foldl (\<lambda>num j_data. jl_get_int jl (json_object_object_get j_data ''count(id)'')) (-1) rows, w1)
        | _ \<Rightarrow> None)) }"

definition dbserver_scopes_add :: "jsonlib \<Rightarrow> 's bus \<Rightarrow> string option \<Rightarrow> ('s, unit) client" where
  "dbserver_scopes_add jl bus scopesItem w = (case scopesItem of
     None \<Rightarrow> Some ((), w)
   | Some item \<Rightarrow> discard (insert_cmd jl bus TABLE_SYSTEM_SCOPES [(''sScopeItem'', J_string item)] DBSERVER_SYSTEM_INTERFACE) w)"

definition dbserver_system_del_by_key_char ::
  "jsonlib \<Rightarrow> 's bus \<Rightarrow> string \<Rightarrow> string option \<Rightarrow> string \<Rightarrow> ('s, unit) client" where
  "dbserver_system_del_by_key_char jl bus table key_word key_content w = (case key_word of
     None \<Rightarrow> Some ((), w)
   | Some k \<Rightarrow> discard (delete_cmd jl bus table [(k, J_string key_content)] (J_object []) DBSERVER_SYSTEM_INTERFACE) w)"

definition dbserver_system_del_by_key_int ::
  "jsonlib \<Rightarrow> 's bus \<Rightarrow> string \<Rightarrow> string option \<Rightarrow> int \<Rightarrow> ('s, unit) client" where
  "dbserver_system_del_by_key_int jl bus table key_word key_content w = (case key_word of
     None \<Rightarrow> Some ((), w)
   | Some k \<Rightarrow> discard (delete_cmd jl bus table [(k, J_int key_content)] (J_object []) DBSERVER_SYSTEM_INTERFACE) w)"

definition dbserver_system_set :: "jsonlib \<Rightarrow> 's bus \<Rightarrow> string \<Rightarrow> string option \<Rightarrow> int \<Rightarrow> ('s, string option) client" where
  "dbserver_system_set jl bus table json id' = set_json_cmd jl bus table json [(''id'', J_int id')] DBSERVER_SYSTEM_INTERFACE"

definition dbserver_system_get :: "jsonlib \<Rightarrow> 's bus \<Rightarrow> string \<Rightarrow> ('s, string option) client" where
  "dbserver_system_get jl bus table = select_cmd jl bus table [] DBSERVER_SYSTEM_INTERFACE"

definition dbserver_system_get_by_key_char :: "jsonlib \<Rightarrow> 's bus \<Rightarrow> string \<Rightarrow> string \<Rightarrow> string \<Rightarrow> ('s, string option) client" where
  "dbserver_system_get_by_key_char jl bus table key_word val =
     select_cmd jl bus table [(key_word, J_string val)] DBSERVER_SYSTEM_INTERFACE"

definition dbserver_system_para_get_by_name :: "jsonlib \<Rightarrow> 's bus \<Rightarrow> string \<Rightarrow> ('s, string option) client" where
  "dbserver_system_para_get_by_name jl bus para_name =
     send_cmd jl bus (j_request TABLE_SYSTEM_PARA (J_object [(''name'', J_string para_name)]) (J_string ''para'') ''Select'')
       DBSERVER_SYSTEM_INTERFACE"

definition dbserver_system_para_set_by_name :: "jsonlib \<Rightarrow> 's bus \<Rightarrow> string \<Rightarrow> string option \<Rightarrow> ('s, string option) client" where
  "dbserver_system_para_set_by_name jl bus para_name para w = (case para of
     None \<Rightarrow> Some (None, w)
   | Some p \<Rightarrow> update_cmd jl bus TABLE_SYSTEM_PARA [(''name'', J_string para_name)] (J_object [(''para'', J_string p)])
       DBSERVER_SYSTEM_INTERFACE w)"

definition dbserver_system_user_delete :: "jsonlib \<Rightarrow> 's bus \<Rightarrow> int \<Rightarrow> ('s, unit) client" where
  "dbserver_system_user_delete jl bus id' =
     discard (delete_cmd jl bus TABLE_SYSTEM_USER [(''id'', J_int id')] (J_string ''*'') DBSERVER_SYSTEM_INTERFACE)"

section \<open>Storage\<close>

definition dbserver_storage_set :: "jsonlib \<Rightarrow> 's bus \<Rightarrow> string \<Rightarrow> string option \<Rightarrow> int \<Rightarrow> ('s, string option) client" where
  "dbserver_storage_set jl bus table json id' = set_json_cmd jl bus table json [(''id'', J_int id')] DBSERVER_STORAGE_INTERFACE"

definition dbserver_storage_disk_path_get_by_name :: "jsonlib \<Rightarrow> 's bus \<Rightarrow> string option \<Rightarrow> ('s, string option) client" where
  "dbserver_storage_disk_path_get_by_name jl bus name w = (case name of
     None \<Rightarrow> Some (None, w)
   | Some n \<Rightarrow> select_cmd jl bus TABLE_STORAGE_DISK_PATH [(''sName'', J_string n)] DBSERVER_STORAGE_INTERFACE w)"

definition dbserver_storage_disk_path_set_by_name ::
  "jsonlib \<Rightarrow> 's bus \<Rightarrow> string option \<Rightarrow> string option \<Rightarrow> ('s, string option) client" where
  "dbserver_storage_disk_path_set_by_name jl bus name mountpath w = (case (mountpath, name) of
     (Some m, Some n) \<Rightarrow> update_cmd jl bus TABLE_STORAGE_DISK_PATH [(''sName'', J_string n)] (J_object [(''sPath'', J_string m)])
       DBSERVER_STORAGE_INTERFACE w
   | _ \<Rightarrow> Some (None, w))"

definition dbserver_storage_get :: "jsonlib \<Rightarrow> 's bus \<Rightarrow> string \<Rightarrow> ('s, string option) client" where
  "dbserver_storage_get jl bus table = select_cmd jl bus table [] DBSERVER_STORAGE_INTERFACE"

definition dbserver_get_storage_disk_path :: "jsonlib \<Rightarrow> 's bus \<Rightarrow> string option \<Rightarrow> ('s, string option) client" where
  "dbserver_get_storage_disk_path jl bus mountpath =
     select_cmd jl bus TABLE_STORAGE_DISK_PATH (opt_s ''sMOUNTPATH'' mountpath) DBSERVER_STORAGE_INTERFACE"

definition dbserver_get_storage_media_folder :: "jsonlib \<Rightarrow> 's bus \<Rightarrow> ('s, string option) client" where
  "dbserver_get_storage_media_folder jl bus = select_cmd jl bus TABLE_STORAGE_MEDIA_FOLDER [] DBSERVER_STORAGE_INTERFACE"

definition dbserver_update_storage_media_folder_duty ::
  "jsonlib \<Rightarrow> 's bus \<Rightarrow> int \<Rightarrow> int \<Rightarrow> int \<Rightarrow> int \<Rightarrow> ('s, string option) client" where
  "dbserver_update_storage_media_folder_duty jl bus camid type duty maxnum =
     update_cmd jl bus TABLE_STORAGE_MEDIA_FOLDER [(''iCamId'', J_int camid), (''iType'', J_int type)]
       (J_object [(''iDuty'', J_int duty), (''iMaxNum'', J_int maxnum)]) DBSERVER_STORAGE_INTERFACE"

definition dbserver_get_storage_config :: "jsonlib \<Rightarrow> 's bus \<Rightarrow> ('s, string option) client" where
  "dbserver_get_storage_config jl bus = select_cmd jl bus TABLE_STORAGE_CONFIG [(''id'', J_int 0)] DBSERVER_STORAGE_INTERFACE"

definition dbserver_update_storage_config_mountpath :: "jsonlib \<Rightarrow> 's bus \<Rightarrow> string option \<Rightarrow> ('s, string option) client" where
  "dbserver_update_storage_config_mountpath jl bus path w = (case path of
     None \<Rightarrow> Some (None, w)
   | Some p \<Rightarrow> update_cmd jl bus TABLE_STORAGE_CONFIG [(''id'', J_int 0)] (J_object [(''sMountPath'', J_string p)])
       DBSERVER_STORAGE_INTERFACE w)"

definition dbserver_update_storage_config_freesize :: "jsonlib \<Rightarrow> 's bus \<Rightarrow> int \<Rightarrow> ('s, string option) client" where
  "dbserver_update_storage_config_freesize jl bus freesize =
     update_cmd jl bus TABLE_STORAGE_CONFIG [(''id'', J_int 0)] (J_object [(''iFreeSize'', J_int freesize)])
       DBSERVER_STORAGE_INTERFACE"

definition dbserver_get_storage_plan_snap :: "jsonlib \<Rightarrow> 's bus \<Rightarrow> int \<Rightarrow> ('s, string option) client" where
  "dbserver_get_storage_plan_snap jl bus id' =
     select_cmd jl bus TABLE_STORAGE_PLAN_SNAP [(''id'', J_int id')] DBSERVER_STORAGE_INTERFACE"

definition dbserver_set_storage_plan_snap :: "jsonlib \<Rightarrow> 's bus \<Rightarrow> string option \<Rightarrow> int \<Rightarrow> ('s, string option) client" where
  "dbserver_set_storage_plan_snap jl bus json id' =
     set_json_cmd jl bus TABLE_STORAGE_PLAN_SNAP json [(''id'', J_int id')] DBSERVER_STORAGE_INTERFACE"

text \<open>
  Reading one row of a reply.  \<open>Some None\<close> are the early returns (no reply, or text that is not
  JSON); a reply without the array is a failed assertion.
\<close>

definition reply_row :: "jsonlib \<Rightarrow> string option \<Rightarrow> nat \<Rightarrow> json option option" where
  "reply_row jl str i = (case str of
     None \<Rightarrow> Some None
   | Some t \<Rightarrow>
       if jl_parse jl t = J_null then Some None
       else map_option Some (json_object_array_get_idx (json_object_object_get (jl_parse jl t) ''jData'') i))"

text \<open>The values written through the pointers; \<open>None\<close> when nothing is written.\<close>

definition dbserver_storage_snap_plan_parse ::
  "jsonlib \<Rightarrow> 's bus \<Rightarrow> int \<Rightarrow> bool \<Rightarrow> ('s, (int \<times> int \<times> int \<times> int option) option) client" where
  "dbserver_storage_snap_plan_parse jl bus type_id num w = do {
     (str, w1) \<leftarrow> dbserver_get_storage_plan_snap jl bus type_id w;
     row \<leftarrow> reply_row jl str 0;
     Some (map_option (\<lambda>snap_plan. let get = (\<lambda>k. jl_get_int jl (json_object_object_get snap_plan k)) in
       (get ''iEnabled'', get ''iImageQuality'', get ''iShotInterval'', if num then Some (get ''iShotNumber'') else None)) row, w1) }"

definition dbserver_storage_video_plan_parse :: "jsonlib \<Rightarrow> 's bus \<Rightarrow> ('s, int option) client" where
  "dbserver_storage_video_plan_parse jl bus w = do {
     (str, w1) \<leftarrow> dbserver_storage_get jl bus TABLE_STORAGE_ADVANCE_PARA w;
     row \<leftarrow> reply_row jl str 0;
     Some (map_option (\<lambda>video_plan. jl_get_int jl (json_object_object_get video_plan ''iEnabled'')) row, w1) }"

section \<open>Network\<close>

definition dbserver_network_ipv4_set ::
  "jsonlib \<Rightarrow> 's bus \<Rightarrow> string \<Rightarrow> string option \<Rightarrow> string option \<Rightarrow> string option \<Rightarrow> string option \<Rightarrow> ('s, string option) client" where
  "dbserver_network_ipv4_set jl bus interface Method Address Netmask Gateway =
     update_cmd jl bus TABLE_NETWORK_IP [(''sInterface'', J_string interface)]
       (J_object (opt_s ''sV4Method'' Method @ opt_s ''sV4Address'' Address @ opt_s ''sV4Netmask'' Netmask @ opt_s ''sV4Gateway'' Gateway))
       DBSERVER_NET_INTERFACE"

definition dbserver_network_dns_set ::
  "jsonlib \<Rightarrow> 's bus \<Rightarrow> string \<Rightarrow> string option \<Rightarrow> string option \<Rightarrow> ('s, string option) client" where
  "dbserver_network_dns_set jl bus interface dns1 dns2 =
     update_cmd jl bus TABLE_NETWORK_IP [(''sInterface'', J_string interface)]
       (J_object (opt_s ''sDNS1'' dns1 @ opt_s ''sDNS2'' dns2)) DBSERVER_NET_INTERFACE"

definition dbserver_network_nicspeed_set :: "jsonlib \<Rightarrow> 's bus \<Rightarrow> string \<Rightarrow> string option \<Rightarrow> ('s, string option) client" where
  "dbserver_network_nicspeed_set jl bus interface nicspeed =
     update_cmd jl bus TABLE_NETWORK_IP [(''sInterface'', J_string interface)] (J_object (opt_s ''sNicSpeed'' nicspeed))
       DBSERVER_NET_INTERFACE"

definition dbserver_network_ip_get :: "jsonlib \<Rightarrow> 's bus \<Rightarrow> string option \<Rightarrow> ('s, string option) client" where
  "dbserver_network_ip_get jl bus interface =
     select_cmd jl bus TABLE_NETWORK_IP (opt_s ''sInterface'' interface) DBSERVER_NET_INTERFACE"

text \<open>This request has no data.\<close>

definition dbserver_network_service_delete :: "jsonlib \<Rightarrow> 's bus \<Rightarrow> string \<Rightarrow> ('s, string option) client" where
  "dbserver_network_service_delete jl bus service =
     send_cmd jl bus (J_object [(''table'', J_string TABLE_NETWORK_SERVICE), (''key'', J_object [(''sService'', J_string service)]),
       (''cmd'', J_string ''Delete'')]) DBSERVER_NET_INTERFACE"

definition dbserver_network_service_connect_set ::
  "jsonlib \<Rightarrow> 's bus \<Rightarrow> string \<Rightarrow> string option \<Rightarrow> int option \<Rightarrow> int option \<Rightarrow> ('s, string option) client" where
  "dbserver_network_service_connect_set jl bus service password favorite autoconnect =
     update_cmd jl bus TABLE_NETWORK_SERVICE [(''sService'', J_string service)]
       (J_object (opt_s ''sPassword'' password @ opt_i ''iFavorite'' favorite @ opt_i ''iAutoconnect'' autoconnect))
       DBSERVER_NET_INTERFACE"

definition dbserver_network_service_get :: "jsonlib \<Rightarrow> 's bus \<Rightarrow> string option \<Rightarrow> ('s, string option) client" where
  "dbserver_network_service_get jl bus service =
     select_cmd jl bus TABLE_NETWORK_SERVICE (opt_s ''sService'' service) DBSERVER_NET_INTERFACE"

definition dbserver_network_power_get :: "jsonlib \<Rightarrow> 's bus \<Rightarrow> string option \<Rightarrow> ('s, string option) client" where
  "dbserver_network_power_get jl bus type = select_cmd jl bus TABLE_NETWORK_POWER (opt_s ''sType'' type) DBSERVER_NET_INTERFACE"

definition dbserver_network_power_set :: "jsonlib \<Rightarrow> 's bus \<Rightarrow> string \<Rightarrow> int \<Rightarrow> ('s, string option) client" where
  "dbserver_network_power_set jl bus type pw =
     update_cmd jl bus TABLE_NETWORK_POWER [(''sType'', J_string type)] (J_object [(''iPower'', J_int pw)]) DBSERVER_NET_INTERFACE"

definition dbserver_wifi_power_set :: "jsonlib \<Rightarrow> 's bus \<Rightarrow> int \<Rightarrow> ('s, string option) client" where
  "dbserver_wifi_power_set jl bus pw = dbserver_network_power_set jl bus ''wifi'' pw"

definition dbserver_ethernet_power_set :: "jsonlib \<Rightarrow> 's bus \<Rightarrow> int \<Rightarrow> ('s, string option) client" where
  "dbserver_ethernet_power_set jl bus pw = dbserver_network_power_set jl bus ''ethernet'' pw"

definition dbserver_wifi_power_get :: "jsonlib \<Rightarrow> 's bus \<Rightarrow> ('s, string option) client" where
  "dbserver_wifi_power_get jl bus = dbserver_network_power_get jl bus (Some ''wifi'')"

definition dbserver_ethernet_power_get :: "jsonlib \<Rightarrow> 's bus \<Rightarrow> ('s, string option) client" where
  "dbserver_ethernet_power_get jl bus = dbserver_network_power_get jl bus (Some ''ethernet'')"

definition dbserver_ntp_set ::
  "jsonlib \<Rightarrow> 's bus \<Rightarrow> string option \<Rightarrow> string option \<Rightarrow> string option \<Rightarrow> string option \<Rightarrow> int option \<Rightarrow> int option \<Rightarrow> int option \<Rightarrow>
   ('s, string option) client" where
  "dbserver_ntp_set jl bus servers timezone timezonefile timezonefiledst autodst automode time =
     update_cmd jl bus TABLE_NTP [(''id'', J_int 0)]
       (J_object (opt_s ''sNtpServers'' servers @ opt_s ''sTimeZone'' timezone @ opt_s ''sTimeZoneFile'' timezonefile @
          opt_s ''sTimeZoneFileDst'' timezonefiledst @ opt_i ''iAutoDst'' autodst @ opt_i ''iAutoMode'' automode @
          opt_i ''iRefreshTime'' time)) DBSERVER_NET_INTERFACE"

definition dbserver_ntp_get :: "jsonlib \<Rightarrow> 's bus \<Rightarrow> ('s, string option) client" where
  "dbserver_ntp_get jl bus = select_cmd jl bus TABLE_NTP [] DBSERVER_NET_INTERFACE"

definition dbserver_zone_get :: "jsonlib \<Rightarrow> 's bus \<Rightarrow> ('s, string option) client" where
  "dbserver_zone_get jl bus = select_cmd jl bus TABLE_ZONE [] DBSERVER_NET_INTERFACE"

definition dbserver_port_set :: "jsonlib \<Rightarrow> 's bus \<Rightarrow> string option \<Rightarrow> int \<Rightarrow> ('s, string option) client" where
  "dbserver_port_set jl bus json id' = set_json_cmd jl bus TABLE_PORT json [(''id'', J_int id')] DBSERVER_NET_INTERFACE"

definition dbserver_port_get :: "jsonlib \<Rightarrow> 's bus \<Rightarrow> ('s, string option) client" where
  "dbserver_port_get jl bus = select_cmd jl bus TABLE_PORT [] DBSERVER_NET_INTERFACE"

section \<open>Media\<close>

definition dbserver_media_set :: "jsonlib \<Rightarrow> 's bus \<Rightarrow> string \<Rightarrow> string option \<Rightarrow> int \<Rightarrow> ('s, string option) client" where
  "dbserver_media_set jl bus table json id' = set_json_cmd jl bus table json [(''id'', J_int id')] DBSERVER_MEDIA_INTERFACE"

text \<open>The tables with tokens.\<close>

definition token_table :: "string \<Rightarrow> bool" where
  "token_table table \<longleftrightarrow> \<not> (table \<noteq> TABLE_PROFILE \<and> table \<noteq> TABLE_VIDEO_SOURCE \<and> table \<noteq> TABLE_VIDEO_SOURCE_CONFIGURATION)"

definition dbserver_media_set_by_token :: "jsonlib \<Rightarrow> 's bus \<Rightarrow> string \<Rightarrow> string option \<Rightarrow> string \<Rightarrow> ('s, string option) client" where
  "dbserver_media_set_by_token jl bus table json token w =
     (if \<not> token_table table then Some (None, w)
      else set_json_cmd jl bus table json [(''sToken'', J_string token)] DBSERVER_MEDIA_INTERFACE w)"

definition dbserver_media_del_by_token :: "jsonlib \<Rightarrow> 's bus \<Rightarrow> string \<Rightarrow> string \<Rightarrow> ('s, unit) client" where
  "dbserver_media_del_by_token jl bus table token w =
     (if \<not> token_table table then Some ((), w)
      else discard (delete_cmd jl bus table [(''sToken'', J_string token)] (J_string ''*'') DBSERVER_MEDIA_INTERFACE) w)"

definition dbserver_media_get :: "jsonlib \<Rightarrow> 's bus \<Rightarrow> string \<Rightarrow> ('s, string option) client" where
  "dbserver_media_get jl bus table = select_cmd jl bus table [] DBSERVER_MEDIA_INTERFACE"

definition dbserver_media_get_by_id :: "jsonlib \<Rightarrow> 's bus \<Rightarrow> string \<Rightarrow> int \<Rightarrow> ('s, string option) client" where
  "dbserver_media_get_by_id jl bus table id' = select_cmd jl bus table [(''id'', J_int id')] DBSERVER_MEDIA_INTERFACE"

definition dbserver_audio_set :: "jsonlib \<Rightarrow> 's bus \<Rightarrow> string option \<Rightarrow> ('s, string option) client" where
  "dbserver_audio_set jl bus json = dbserver_media_set jl bus TABLE_AUDIO json 0"

definition dbserver_audio_get :: "jsonlib \<Rightarrow> 's bus \<Rightarrow> ('s, string option) client" where
  "dbserver_audio_get jl bus = dbserver_media_get jl bus TABLE_AUDIO"

definition video_key :: "string \<Rightarrow> (string \<times> json) list" where
  "video_key stream_type =
     (if stream_type = ''mainStream'' then [(''id'', J_int 0)] else []) @
     (if stream_type = ''subStream'' then [(''id'', J_int 1)] else []) @
     (if stream_type = ''thirdStream'' then [(''id'', J_int 2)] else [])"

definition dbserver_video_set :: "jsonlib \<Rightarrow> 's bus \<Rightarrow> string option \<Rightarrow> string \<Rightarrow> ('s, string option) client" where
  "dbserver_video_set jl bus json stream_type =
     set_json_cmd jl bus TABLE_VIDEO json (video_key stream_type) DBSERVER_MEDIA_INTERFACE"

definition dbserver_video_get :: "jsonlib \<Rightarrow> 's bus \<Rightarrow> ('s, string option) client" where
  "dbserver_video_get jl bus = dbserver_media_get jl bus TABLE_VIDEO"

definition dbserver_video_region_clip_set :: "jsonlib \<Rightarrow> 's bus \<Rightarrow> string option \<Rightarrow> int \<Rightarrow> ('s, string option) client" where
  "dbserver_video_region_clip_set jl bus json id' = dbserver_media_set jl bus TABLE_VIDEO_REGION_CLIP json id'"

definition dbserver_video_region_clip_get :: "jsonlib \<Rightarrow> 's bus \<Rightarrow> ('s, string option) client" where
  "dbserver_video_region_clip_get jl bus = dbserver_media_get jl bus TABLE_VIDEO_REGION_CLIP"

definition dbserver_stream_url_set :: "jsonlib \<Rightarrow> 's bus \<Rightarrow> string option \<Rightarrow> int \<Rightarrow> ('s, string option) client" where
  "dbserver_stream_url_set jl bus json id' = dbserver_media_set jl bus TABLE_STREAM_URL json id'"

definition dbserver_stream_url_get :: "jsonlib \<Rightarrow> 's bus \<Rightarrow> ('s, string option) client" where
  "dbserver_stream_url_get jl bus = dbserver_media_get jl bus TABLE_STREAM_URL"

definition dbserver_media_get_by_key_char :: "jsonlib \<Rightarrow> 's bus \<Rightarrow> string \<Rightarrow> string \<Rightarrow> string \<Rightarrow> ('s, string option) client" where
  "dbserver_media_get_by_key_char jl bus table key_word val =
     select_cmd jl bus table [(key_word, J_string val)] DBSERVER_MEDIA_INTERFACE"

definition dbserver_media_profile_get :: "jsonlib \<Rightarrow> 's bus \<Rightarrow> string option \<Rightarrow> ('s, string option) client" where
  "dbserver_media_profile_get jl bus token = select_cmd jl bus TABLE_PROFILE (opt_s ''sToken'' token) DBSERVER_MEDIA_INTERFACE"

definition dbserver_video_source_cfg_get :: "jsonlib \<Rightarrow> 's bus \<Rightarrow> string option \<Rightarrow> ('s, string option) client" where
  "dbserver_video_source_cfg_get jl bus token =
     select_cmd jl bus TABLE_VIDEO_SOURCE_CONFIGURATION (opt_s ''sToken'' token) DBSERVER_MEDIA_INTERFACE"

definition dbserver_video_source_get :: "jsonlib \<Rightarrow> 's bus \<Rightarrow> string option \<Rightarrow> ('s, string option) client" where
  "dbserver_video_source_get jl bus token =
     select_cmd jl bus TABLE_VIDEO_SOURCE (opt_s ''sVideoSourceToken'' token) DBSERVER_MEDIA_INTERFACE"

definition dbserver_video_enc_cfg_get :: "jsonlib \<Rightarrow> 's bus \<Rightarrow> string option \<Rightarrow> ('s, string option) client" where
  "dbserver_video_enc_cfg_get jl bus token =
     select_cmd jl bus TABLE_VIDEO (opt_s ''sVideoEncoderConfigurationToken'' token) DBSERVER_MEDIA_INTERFACE"

end
