(* ===== verification/DbEvents.thy ===== *)
theory DbEvents
  imports DbClient
begin

text \<open>
  The rest of the client library \<^verbatim>\<open>libIPCProtocol/dbserver.cc\<close>: events, faces and peripherals,
  the weekly schedule, the overlay list, the capability texts, and the tables that are made anew.
\<close>

section \<open>Events\<close>

definition dbserver_event_set :: "jsonlib \<Rightarrow> 's bus \<Rightarrow> string \<Rightarrow> string option \<Rightarrow> int \<Rightarrow> ('s, string option) client" where
  "dbserver_event_set jl bus table json id' = set_json_cmd jl bus table json [(''id'', J_int id')] DBSERVER_EVENT_INTERFACE"

definition dbserver_event_set_by_char_key ::
  "jsonlib \<Rightarrow> 's bus \<Rightarrow> string \<Rightarrow> string option \<Rightarrow> string \<Rightarrow> string \<Rightarrow> ('s, string option) client" where
  "dbserver_event_set_by_char_key jl bus table json key_name key_content =
     set_json_cmd jl bus table json [(key_name, J_string key_content)] DBSERVER_EVENT_INTERFACE"

definition dbserver_event_get :: "jsonlib \<Rightarrow> 's bus \<Rightarrow> string \<Rightarrow> ('s, string option) client" where
  "dbserver_event_get jl bus table = select_cmd jl bus table [] DBSERVER_EVENT_INTERFACE"

definition dbserver_event_get_by_id :: "jsonlib \<Rightarrow> 's bus \<Rightarrow> string \<Rightarrow> int \<Rightarrow> ('s, string option) client" where
  "dbserver_event_get_by_id jl bus table id' = select_cmd jl bus table [(''id'', J_int id')] DBSERVER_EVENT_INTERFACE"

definition dbserver_event_get_by_key_int :: "jsonlib \<Rightarrow> 's bus \<Rightarrow> string \<Rightarrow> string \<Rightarrow> int \<Rightarrow> ('s, string option) client" where
  "dbserver_event_get_by_key_int jl bus table key_word val =
     select_cmd jl bus table [(key_word, J_int val)] DBSERVER_EVENT_INTERFACE"

definition dbserver_event_get_by_key_char :: "jsonlib \<Rightarrow> 's bus \<Rightarrow> string \<Rightarrow> string \<Rightarrow> string \<Rightarrow> ('s, string option) client" where
  "dbserver_event_get_by_key_char jl bus table key_word val =
     select_cmd jl bus table [(key_word, J_string val)] DBSERVER_EVENT_INTERFACE"

definition dbserver_event_delete_by_key_int :: "jsonlib \<Rightarrow> 's bus \<Rightarrow> string \<Rightarrow> string \<Rightarrow> int \<Rightarrow> ('s, unit) client" where
  "dbserver_event_delete_by_key_int jl bus table key_word val =
     discard (delete_cmd jl bus table [(key_word, J_int val)] (J_string ''*'') DBSERVER_EVENT_INTERFACE)"

definition dbserver_event_delete_by_key_char :: "jsonlib \<Rightarrow> 's bus \<Rightarrow> string \<Rightarrow> string \<Rightarrow> string \<Rightarrow> ('s, unit) client" where
  "dbserver_event_delete_by_key_char jl bus table key_word val =
     discard (delete_cmd jl bus table [(key_word, J_string val)] (J_string ''*'') DBSERVER_EVENT_INTERFACE)"

text \<open>The local time, as \<^verbatim>\<open>strftime\<close> prints it, is the argument \<open>now\<close> of the functions that store it.\<close>

definition dbserver_face_list_add ::
  "jsonlib \<Rightarrow> 's bus \<Rightarrow> string \<Rightarrow> int \<Rightarrow> string \<Rightarrow> string \<Rightarrow> string \<Rightarrow> ('s, unit) client" where
  "dbserver_face_list_add jl bus now id' path name type =
     discard (dbserver_event_set jl bus TABLE_FACE_LIST
       (Some (jl_print jl (J_object [(''sRegistrationTime'', J_string now), (''sPicturePath'', J_string path),
         (''sName'', J_string name), (''sType'', J_string type), (''sNote'', J_string ''undone'')]))) id')"

definition dbserver_face_load_complete :: "jsonlib \<Rightarrow> 's bus \<Rightarrow> int \<Rightarrow> int \<Rightarrow> ('s, unit) client" where
  "dbserver_face_load_complete jl bus id' flag =
     discard (dbserver_event_set jl bus TABLE_FACE_LIST
       (Some (jl_print jl (J_object [(''iLoadCompleted'', J_int flag), (''sNote'', J_string ''undone'')]))) id')"

definition dbserver_face_load_complete_by_path :: "jsonlib \<Rightarrow> 's bus \<Rightarrow> string \<Rightarrow> int \<Rightarrow> int \<Rightarrow> ('s, unit) client" where
  "dbserver_face_load_complete_by_path jl bus path flag face_db_id =
     discard (dbserver_event_set_by_char_key jl bus TABLE_FACE_LIST
       (Some (jl_print jl (J_object [(''iLoadCompleted'', J_int flag), (''iFaceDBId'', J_int face_db_id), (''sNote'', J_string ''undone'')])))
       ''sPicturePath'' path)"

text \<open>
  What a returned pointer is: NULL, memory the caller frees, memory inside a JSON object that
  is never freed, or memory that was freed already.
\<close>

datatype cptr = P_null | P_owned string | P_inside string | P_freed

definition dbserver_face_list_delete :: "jsonlib \<Rightarrow> 's bus \<Rightarrow> int \<Rightarrow> ('s, cptr) client" where
  "dbserver_face_list_delete jl bus id' w = do {
     (str, w1) \<leftarrow> dbserver_event_get_by_id jl bus TABLE_FACE_LIST id' w;
     row \<leftarrow> reply_row jl str 0;
     (case row of
        None \<Rightarrow> Some (P_null, w1)
      | Some face \<Rightarrow>
          (case json_object_get_string jl (json_object_object_get face ''sPicturePath'') of
             None \<Rightarrow> Some (P_null, w1)
           | Some path \<Rightarrow> do {
               (_, w2) \<leftarrow> delete_cmd jl bus TABLE_FACE_LIST [(''id'', J_int id'), (''sPicturePath'', J_string path)] (J_string ''*'')
                 DBSERVER_EVENT_INTERFACE w1;
               Some (P_inside (jl_print jl (jl_parse jl (the str))), w2) })) }"

definition dbserver_face_reset :: "jsonlib \<Rightarrow> 's bus \<Rightarrow> string \<Rightarrow> ('s, unit) client" where
  "dbserver_face_reset jl bus table = discard (delete_cmd jl bus table [] (J_string ''*'') DBSERVER_EVENT_INTERFACE)"

definition dbserver_snapshot_record_set :: "jsonlib \<Rightarrow> 's bus \<Rightarrow> string \<Rightarrow> string \<Rightarrow> ('s, unit) client" where
  "dbserver_snapshot_record_set jl bus now path =
     discard (insert_cmd jl bus TABLE_FACE_SNAPSHOT_RECORD
       [(''sTime'', J_string now), (''sPicturePath'', J_string path), (''sStatus'', J_string ''Processed''), (''sNote'', J_string ''Snapshot'')]
       DBSERVER_EVENT_INTERFACE)"

definition dbserver_control_record_set ::
  "jsonlib \<Rightarrow> 's bus \<Rightarrow> string \<Rightarrow> int \<Rightarrow> string \<Rightarrow> string \<Rightarrow> string \<Rightarrow> ('s, unit) client" where
  "dbserver_control_record_set jl bus now face_id path status similarity =
     discard (insert_cmd jl bus TABLE_FACE_CONTROL_RECORD
       [(''sTime'', J_string now), (''iFaceId'', J_int face_id), (''sSnapshotPath'', J_string path), (''sStatus'', J_string status),
        (''sSimilarity'', J_string similarity)] DBSERVER_EVENT_INTERFACE)"

definition dbserver_event_triggers_parse :: "jsonlib \<Rightarrow> 's bus \<Rightarrow> nat \<Rightarrow> ('s, int option) client" where
  "dbserver_event_triggers_parse jl bus id' w = do {
     (str, w1) \<leftarrow> dbserver_event_get jl bus TABLE_EVENT_TRIGGERS w;
     row \<leftarrow> reply_row jl str id';
     Some (map_option (\<lambda>trigger. jl_get_int jl (json_object_object_get trigger ''iNotificationRecord1Enabled'')) row, w1) }"

section \<open>The weekly schedule\<close>

text \<open>
  \<^verbatim>\<open>struct week\<close> is seven days of eight periods, one after the other in memory: period \<open>j\<close> of day \<open>i\<close>
  is number \<open>8 * i + j\<close>, also for a \<open>j\<close> that is too large.
\<close>

record period =
  start_minute :: int
  end_minute :: int
  ptype :: string

definition PERIODS_PER_DAY :: nat where "PERIODS_PER_DAY = 8"
definition DAYS_PER_WEEK :: nat where "DAYS_PER_WEEK = 7"
definition TYPE_SIZE :: nat where "TYPE_SIZE = 20"

type_synonym week = "period list"

text \<open>\<^verbatim>\<open>round\<close> is to the nearest integer, halves away from zero.\<close>

definition c_round :: "rat \<Rightarrow> int" where
  "c_round x = (if x \<ge> 0 then \<lfloor>x + 1 / 2\<rfloor> else - \<lfloor>- x + 1 / 2\<rfloor>)"

text \<open>
  The rounded value goes into a 32-bit \<^verbatim>\<open>int\<close>; converting one that does not fit is undefined (\<open>None\<close>).
\<close>

definition minute_of :: "(json \<Rightarrow> rat) \<Rightarrow> json \<Rightarrow> int option" where
  "minute_of dbl j = (let m = c_round (dbl j * 1440) in if int32_ok m then Some m else None)"

text \<open>One period: a write behind the structure, or a type that does not fit, is out of bounds.\<close>

definition store_period :: "jsonlib \<Rightarrow> (json \<Rightarrow> rat) \<Rightarrow> nat \<Rightarrow> json \<Rightarrow> week \<Rightarrow> week option" where
  "store_period jl dbl k period_js wk =
     (if k \<ge> DAYS_PER_WEEK * PERIODS_PER_DAY \<or> k \<ge> length wk then None
      else do {
        start \<leftarrow> minute_of dbl (json_object_object_get period_js ''start'');
        stop' \<leftarrow> minute_of dbl (json_object_object_get period_js ''end'');
        (let p = (wk ! k)\<lparr>start_minute := start, end_minute := stop'\<rparr> in
         case json_object_get_string jl (json_object_object_get period_js ''type'') of
           None \<Rightarrow> Some (wk[k := p])
         | Some t \<Rightarrow> if length (cstr t) \<ge> TYPE_SIZE then None else Some (wk[k := p\<lparr>ptype := cstr t\<rparr>])) })"

primrec store_periods :: "jsonlib \<Rightarrow> (json \<Rightarrow> rat) \<Rightarrow> nat \<Rightarrow> json list \<Rightarrow> week \<Rightarrow> week option" where
  "store_periods jl dbl k [] wk = Some wk"
| "store_periods jl dbl k (p # ps) wk = Option.bind (store_period jl dbl k p wk) (store_periods jl dbl (Suc k) ps)"

text \<open>The days \<open>i, \<dots>, 6\<close>; a missing day, or one that is no array, is a failed assertion.\<close>

function store_days :: "jsonlib \<Rightarrow> (json \<Rightarrow> rat) \<Rightarrow> nat \<Rightarrow> json \<Rightarrow> week \<Rightarrow> week option" where
  "store_days jl dbl i week_js wk =
     (if i \<ge> DAYS_PER_WEEK then Some wk
      else do {
        day_js \<leftarrow> json_object_array_get_idx week_js i;
        (case day_js of
           J_array periods \<Rightarrow> do { wk1 \<leftarrow> store_periods jl dbl (PERIODS_PER_DAY * i) periods wk; store_days jl dbl (Suc i) week_js wk1 }
         | _ \<Rightarrow> None) })"
  by pat_completeness auto
termination
  by (relation "measure (\<lambda>(_, _, i, _). DAYS_PER_WEEK - i)") auto

declare store_days.simps [simp del]

text \<open>
  A row without the schedule makes the code print with a format that has no argument, which is
  undefined; otherwise the early exits leave the structure alone.
\<close>

definition dbserver_event_schedules_parse ::
  "jsonlib \<Rightarrow> (json \<Rightarrow> rat) \<Rightarrow> 's bus \<Rightarrow> int \<Rightarrow> week \<Rightarrow> ('s, week) client" where
  "dbserver_event_schedules_parse jl dbl bus type_id wk w = do {
     (str, w1) \<leftarrow> dbserver_event_get_by_id jl bus TABLE_EVENT_SCHEDULES type_id w;
     row \<leftarrow> reply_row jl str 0;
     (case row of
        None \<Rightarrow> Some (wk, w1)
      | Some schedule \<Rightarrow> do {
          week_s \<leftarrow> json_object_get_string jl (json_object_object_get schedule ''sSchedulesJson'');
          (if jl_parse jl week_s = J_null then Some (wk, w1)
           else do { wk1 \<leftarrow> store_days jl dbl 0 (jl_parse jl week_s) wk; Some (wk1, w1) }) }) }"

section \<open>Overlays\<close>

text \<open>The rows of the overlay table, one request each; parsing the NULL text of a failed request is a crash.\<close>

primrec osd_rows :: "jsonlib \<Rightarrow> 's bus \<Rightarrow> nat list \<Rightarrow> ('s, json list) client" where
  "osd_rows jl bus [] w = Some ([], w)"
| "osd_rows jl bus (i # is) w = do {
     (str, w1) \<leftarrow> dbserver_media_get_by_id jl bus TABLE_OSD (int i) w;
     s \<leftarrow> str;
     row \<leftarrow> json_object_array_get_idx (json_object_object_get (jl_parse jl s) ''jData'') 0;
     (rows, w2) \<leftarrow> osd_rows jl bus is w1;
     Some (row # rows, w2) }"

text \<open>The text belongs to the array, which is freed before the function returns.\<close>

definition dbserver_osd_get :: "jsonlib \<Rightarrow> 's bus \<Rightarrow> ('s, cptr) client" where
  "dbserver_osd_get jl bus w = do {
     (rows, w1) \<leftarrow> osd_rows jl bus [0..<MAX_OSD_NUM] w;
     Some (P_freed, w1) }"

definition dbserver_free :: "cptr \<Rightarrow> bool" where
  "dbserver_free p = (case p of P_null \<Rightarrow> True | P_owned _ \<Rightarrow> True | P_inside _ \<Rightarrow> False | P_freed \<Rightarrow> False)"

section \<open>Peripherals and tables\<close>

definition dbserver_peripherals_set :: "jsonlib \<Rightarrow> 's bus \<Rightarrow> string \<Rightarrow> string option \<Rightarrow> int \<Rightarrow> ('s, string option) client" where
  "dbserver_peripherals_set jl bus table json id' =
     set_json_cmd jl bus table json [(''id'', J_int id')] DBSERVER_PERIPHERALS_INTERFACE"

definition dbserver_peripherals_get :: "jsonlib \<Rightarrow> 's bus \<Rightarrow> string \<Rightarrow> ('s, string option) client" where
  "dbserver_peripherals_get jl bus table = select_cmd jl bus table [] DBSERVER_PERIPHERALS_INTERFACE"

definition dbserver_drop_table :: "jsonlib \<Rightarrow> 's bus \<Rightarrow> string \<Rightarrow> string \<Rightarrow> ('s, string option) client" where
  "dbserver_drop_table jl bus table interface =
     send_cmd jl bus (J_object [(''table'', J_string table), (''cmd'', J_string ''Drop'')]) interface"

definition dbserver_create_table :: "jsonlib \<Rightarrow> 's bus \<Rightarrow> string \<Rightarrow> string \<Rightarrow> string \<Rightarrow> ('s, string option) client" where
  "dbserver_create_table jl bus table col interface =
     send_cmd jl bus (J_object [(''table'', J_string table), (''col'', J_string col), (''cmd'', J_string ''Create'')]) interface"

definition face_list_cols :: string where
  "face_list_cols = sqt (''id INTEGER PRIMARY KEY AUTOINCREMENT,'' @
     ''sPicturePath TEXT DEFAULT ``,'' @
     ''sRegistrationTime TEXT DEFAULT `2020-01-01T00:00:00`,'' @
     ''iAge INT DEFAULT 20,'' @
     ''sListType TEXT DEFAULT `permanent`,'' @
     ''sType TEXT DEFAULT `whiteList`,'' @
     ''sName TEXT DEFAULT `User`,'' @
     ''sGender TEXT DEFAULT `male`,'' @
     ''sNation TEXT DEFAULT `'' @ [CHR 0xE6, CHR 0xB1, CHR 0x89] @ ''`,'' @
     ''sCertificateType TEXT DEFAULT `identityCard`,'' @
     ''sCertificateNumber TEXT DEFAULT ``,'' @
     ''sBirthday TEXT DEFAULT `2000-01-01`,'' @
     ''sTelephoneNumber TEXT DEFAULT ``,'' @
     ''sHometown TEXT DEFAULT ``,'' @
     ''sAddress TEXT DEFAULT ``,'' @
     ''iAccessCardNumber INT DEFAULT 0,'' @
     ''iLoadCompleted INT DEFAULT 0,'' @
     ''iFaceDBId INT DEFAULT -1,'' @
     ''sNote TEXT DEFAULT ``'')"

definition face_snapshot_cols :: string where
  "face_snapshot_cols = sqt (''id INTEGER PRIMARY KEY AUTOINCREMENT,'' @
     ''sTime TEXT DEFAULT `2020-01-01T00:00:00`,'' @
     ''sPicturePath TEXT DEFAULT ``,'' @
     ''sStatus TEXT DEFAULT `Processed`,'' @
     ''sNote TEXT DEFAULT `Snapshot`'')"

definition face_control_cols :: string where
  "face_control_cols = sqt (''id INTEGER PRIMARY KEY AUTOINCREMENT,'' @
     ''sTime TEXT DEFAULT `2020-01-01T00:00:00`,'' @
     ''iFaceId INT DEFAULT 0,'' @
     ''sSnapshotPath TEXT DEFAULT ``,'' @
     ''sStatus TEXT DEFAULT `open`,'' @
     ''sSimilarity TEXT DEFAULT `75.00`'')"

definition face_table_cols :: "string \<Rightarrow> string option" where
  "face_table_cols table =
     (if table = TABLE_FACE_LIST then Some face_list_cols
      else if table = TABLE_FACE_SNAPSHOT_RECORD then Some face_snapshot_cols
      else if table = TABLE_FACE_CONTROL_RECORD then Some face_control_cols
      else None)"

definition dbserver_reset_face_table :: "jsonlib \<Rightarrow> 's bus \<Rightarrow> string \<Rightarrow> ('s, int) client" where
  "dbserver_reset_face_table jl bus table w = (case face_table_cols table of
     None \<Rightarrow> Some (-1, w)
   | Some col_para \<Rightarrow> do {
       (_, w1) \<leftarrow> dbserver_drop_table jl bus table DBSERVER_EVENT_INTERFACE w;
       (_, w2) \<leftarrow> dbserver_create_table jl bus table col_para DBSERVER_EVENT_INTERFACE w1;
       Some (0, w2) })"

section \<open>Capability texts\<close>

text \<open>\<^verbatim>\<open>json_object_object_add\<close> and \<^verbatim>\<open>json_object_object_del\<close> assert that they are given an object.\<close>

definition obj_add :: "string \<Rightarrow> json \<Rightarrow> json \<Rightarrow> json option" where
  "obj_add k v j = (case j of J_object kvs \<Rightarrow> Some (J_object (json_add k v kvs)) | _ \<Rightarrow> None)"

definition obj_del :: "string \<Rightarrow> json \<Rightarrow> json option" where
  "obj_del k j = (case j of J_object kvs \<Rightarrow> Some (J_object (filter (\<lambda>kv. fst kv \<noteq> k) kvs)) | _ \<Rightarrow> None)"

text \<open>The text of a capability as it is stored now; a missing row, or no reply, is a crash.\<close>

definition read_cap :: "jsonlib \<Rightarrow> 's bus \<Rightarrow> string \<Rightarrow> ('s, json) client" where
  "read_cap jl bus cap_name w = do {
     (para_str, w1) \<leftarrow> dbserver_system_para_get_by_name jl bus cap_name w;
     s \<leftarrow> para_str;
     para_cap_0 \<leftarrow> json_object_array_get_idx (json_object_object_get (jl_parse jl s) ''jData'') 0;
     old_str \<leftarrow> json_object_get_string jl (json_object_object_get para_cap_0 ''para'');
     Some (jl_parse jl old_str, w1) }"

definition options_cap :: "jsonlib \<Rightarrow> string \<Rightarrow> json" where
  "options_cap jl options = J_object [(''type'', J_string ''options''), (''options'', jl_parse jl options)]"

record range_para =
  rp_min :: int
  rp_max :: int
  rp_step :: int

definition range_cap :: "range_para \<Rightarrow> json" where
  "range_cap r = J_object [(''type'', J_string ''range''),
     (''range'', J_object ([(''min'', J_int (rp_min r)), (''max'', J_int (rp_max r))] @
        (if rp_step r \<noteq> 0 then [(''step'', J_int (rp_step r))] else [])))]"

text \<open>The member \<open>target_key\<close> of an object: deleted, then added again if there is a new value.\<close>

definition replace_member :: "string \<Rightarrow> json option \<Rightarrow> json \<Rightarrow> json option" where
  "replace_member target_key new j = do {
     j1 \<leftarrow> (if json_object_object_get j target_key \<noteq> J_null then obj_del target_key j else Some j);
     (case new of None \<Rightarrow> Some j1 | Some c \<Rightarrow> obj_add target_key c j1) }"

text \<open>
  The object \<open>name\<close> inside an object, changed by \<open>f\<close>.  If it is missing it is made first.  The C code
  holds a pointer into the object; here the changed member is put back in its place.
\<close>

definition change_member :: "string \<Rightarrow> (json \<Rightarrow> json option) \<Rightarrow> json \<Rightarrow> json option" where
  "change_member name f j = do {
     j1 \<leftarrow> (if json_object_object_get j name = J_null then obj_add name (J_object []) j else Some j);
     m \<leftarrow> f (json_object_object_get j1 name);
     obj_add name m j1 }"

definition set_static :: "string \<Rightarrow> json option \<Rightarrow> json \<Rightarrow> json option" where
  "set_static target_key new old_cap = change_member ''static'' (replace_member target_key new) old_cap"

text \<open>
  With no new value a missing object on the way is not made, and then there is nothing to delete;
  \<open>Some None\<close> is the early return without the object of dynamic capabilities.
\<close>

definition set_dynamic :: "string \<Rightarrow> string \<Rightarrow> string \<Rightarrow> json option \<Rightarrow> json \<Rightarrow> json option option" where
  "set_dynamic dynamic_key dynamic_val target_key new old_cap =
     (case new of
        Some c \<Rightarrow> map_option Some (change_member ''dynamic'' (change_member dynamic_key (change_member dynamic_val
          (replace_member target_key new))) old_cap)
      | None \<Rightarrow>
          (let dynamic_cap = json_object_object_get old_cap ''dynamic'';
               content = json_object_object_get dynamic_cap dynamic_key in
           if dynamic_cap = J_null then Some None
           else if content = J_null \<or> json_object_object_get content dynamic_val = J_null then Some (Some old_cap)
           else map_option Some (change_member ''dynamic'' (change_member dynamic_key (change_member dynamic_val
                  (replace_member target_key None))) old_cap)))"

definition store_static :: "jsonlib \<Rightarrow> 's bus \<Rightarrow> string \<Rightarrow> string \<Rightarrow> json option \<Rightarrow> ('s, unit) client" where
  "store_static jl bus cap_name target_key new w = do {
     (old_cap, w1) \<leftarrow> read_cap jl bus cap_name w;
     new_cap \<leftarrow> set_static target_key new old_cap;
     discard (dbserver_system_para_set_by_name jl bus cap_name (Some (jl_print jl new_cap))) w1 }"

definition store_dynamic ::
  "jsonlib \<Rightarrow> 's bus \<Rightarrow> string \<Rightarrow> string \<Rightarrow> string \<Rightarrow> string \<Rightarrow> json option \<Rightarrow> ('s, unit) client" where
  "store_dynamic jl bus cap_name dynamic_key dynamic_val target_key new w = do {
     (old_cap, w1) \<leftarrow> read_cap jl bus cap_name w;
     new_cap \<leftarrow> set_dynamic dynamic_key dynamic_val target_key new old_cap;
     (case new_cap of
        None \<Rightarrow> Some ((), w1)
      | Some c \<Rightarrow> discard (dbserver_system_para_set_by_name jl bus cap_name (Some (jl_print jl c))) w1) }"

definition dbserver_set_static_cap_option ::
  "jsonlib \<Rightarrow> 's bus \<Rightarrow> string \<Rightarrow> string \<Rightarrow> string option \<Rightarrow> ('s, unit) client" where
  "dbserver_set_static_cap_option jl bus cap_name target_key options =
     store_static jl bus cap_name target_key (map_option (options_cap jl) options)"

definition dbserver_set_dynamic_cap_option ::
  "jsonlib \<Rightarrow> 's bus \<Rightarrow> string \<Rightarrow> string \<Rightarrow> string \<Rightarrow> string \<Rightarrow> string option \<Rightarrow> ('s, unit) client" where
  "dbserver_set_dynamic_cap_option jl bus cap_name dynamic_key dynamic_val target_key options =
     store_dynamic jl bus cap_name dynamic_key dynamic_val target_key (map_option (options_cap jl) options)"

text \<open>A negative step stands for no range.\<close>

definition dbserver_set_static_cap_range :: "jsonlib \<Rightarrow> 's bus \<Rightarrow> string \<Rightarrow> string \<Rightarrow> range_para \<Rightarrow> ('s, unit) client" where
  "dbserver_set_static_cap_range jl bus cap_name target_key rng =
     store_static jl bus cap_name target_key (if rp_step rng \<ge> 0 then Some (range_cap rng) else None)"

definition dbserver_set_dynamic_cap_range ::
  "jsonlib \<Rightarrow> 's bus \<Rightarrow> string \<Rightarrow> string \<Rightarrow> string \<Rightarrow> string \<Rightarrow> range_para \<Rightarrow> ('s, unit) client" where
  "dbserver_set_dynamic_cap_range jl bus cap_name dynamic_key dynamic_val target_key rng =
     store_dynamic jl bus cap_name dynamic_key dynamic_val target_key (if rp_step rng \<ge> 0 then Some (range_cap rng) else None)"

end
