(* ===== verification/DbusSignal.thy ===== *)
theory DbusSignal
  imports CStrings "HOL-Library.Multiset"
begin

text \<open>
  Change signals on the client side, \<^verbatim>\<open>libIPCProtocol/dbus_signal.cc\<close>: the linked list of
  registrations, its operations, and the filter that calls the registered functions.  The nodes
  are kept in a heap, so that a pointer to a freed node is visible, and the copies of strings that nodes
  own are counted; a result \<open>None\<close> is a loop or a lock that never ends, and \<open>Crash\<close> is the use of memory that
  is not allocated, freeing a string that is not there, or giving libdbus a NULL connection.
\<close>

section \<open>State\<close>

datatype 'a run = Crash | Ret 'a

type_synonym ptr = "nat option"

text \<open>\<^verbatim>\<open>struct DbusSignal\<close>; a callback is a number, a NULL callback is \<open>None\<close>.\<close>

record signode =
  sn_interface :: string
  sn_signal :: string
  sn_cb :: "nat option"
  sn_next :: ptr

type_synonym sigheap = "nat \<Rightarrow> signode option"

text \<open>
  The static variables of the file, the heap, the strings that \<^verbatim>\<open>g_strdup\<close> has copied and nobody has freed, the
  match rules sent to the bus, and the callbacks run so far with their text.
\<close>

record sigw =
  sg_heap :: sigheap
  sg_strings :: "string multiset"
  dbus_signal_list :: ptr
  sg_mutex :: bool
  sg_conn :: bool
  need_loop :: bool
  sg_main_loop :: bool
  sg_threads :: nat
  sg_matches :: "string list"
  sg_calls :: "(nat \<times> string) list"

definition sig_start :: sigw where
  "sig_start = \<lparr>sg_heap = Map.empty, sg_strings = {#}, dbus_signal_list = None, sg_mutex = False, sg_conn = False, need_loop = True,
     sg_main_loop = False, sg_threads = 0, sg_matches = [], sg_calls = []\<rparr>"

text \<open>What identifies a registration.\<close>

type_synonym reg = "string \<times> string \<times> nat option"

definition reg_of :: "signode \<Rightarrow> reg" where
  "reg_of n = (sn_interface n, sn_signal n, sn_cb n)"

section \<open>Loops\<close>

text \<open>The loop of \<^verbatim>\<open>dbus_monitor_changed\<close>: whether a node matched, and the callbacks that were run.\<close>

partial_function (option) notify_loop ::
  "sigheap \<Rightarrow> string \<Rightarrow> string \<Rightarrow> string \<Rightarrow> ptr \<Rightarrow> bool \<Rightarrow> (nat \<times> string) list \<Rightarrow> (bool \<times> (nat \<times> string) list) run option" where
  "notify_loop h iface sig body p handled calls = (case p of
     None \<Rightarrow> Some (Ret (handled, calls))
   | Some a \<Rightarrow> (case h a of
       None \<Rightarrow> Some Crash
     | Some n \<Rightarrow>
         if sn_interface n = iface \<and> sn_signal n = sig
         then notify_loop h iface sig body (sn_next n) True
           (calls @ (case sn_cb n of None \<Rightarrow> [] | Some f \<Rightarrow> [(f, body)]))
         else notify_loop h iface sig body (sn_next n) handled calls))"

partial_function (option) check_dbus_signel :: "sigheap \<Rightarrow> reg \<Rightarrow> ptr \<Rightarrow> ptr run option" where
  "check_dbus_signel h r p = (case p of
     None \<Rightarrow> Some (Ret None)
   | Some a \<Rightarrow> (case h a of
       None \<Rightarrow> Some Crash
     | Some n \<Rightarrow> if reg_of n = r then Some (Ret p) else check_dbus_signel h r (sn_next n)))"

text \<open>The loop to the last node in \<^verbatim>\<open>add_dbus_sigal\<close>.\<close>

partial_function (option) last_node :: "sigheap \<Rightarrow> nat \<Rightarrow> nat run option" where
  "last_node h a = (case h a of
     None \<Rightarrow> Some Crash
   | Some n \<Rightarrow> (case sn_next n of None \<Rightarrow> Some (Ret a) | Some b \<Rightarrow> last_node h b))"

definition set_next :: "nat \<Rightarrow> ptr \<Rightarrow> sigheap \<Rightarrow> sigheap" where
  "set_next a p h = (case h a of None \<Rightarrow> h | Some n \<Rightarrow> h(a \<mapsto> n\<lparr>sn_next := p\<rparr>))"

definition add_dbus_sigal :: "nat \<Rightarrow> sigw \<Rightarrow> sigw run option" where
  "add_dbus_sigal a s = (case dbus_signal_list s of
     None \<Rightarrow> Some (Ret (s\<lparr>dbus_signal_list := Some a\<rparr>))
   | Some b \<Rightarrow> (case last_node (sg_heap s) b of
       None \<Rightarrow> None
     | Some Crash \<Rightarrow> Some Crash
     | Some (Ret l) \<Rightarrow> Some (Ret (s\<lparr>sg_heap := set_next l (Some a) (sg_heap s)\<rparr>))))"

text \<open>What a removal frees: first the two strings of the node, then the node.\<close>

definition g_free :: "string \<Rightarrow> string multiset \<Rightarrow> string multiset run" where
  "g_free x strs = (if x \<in># strs then Ret (strs - {#x#}) else Crash)"

definition free_node :: "nat \<Rightarrow> signode \<Rightarrow> sigheap \<times> string multiset \<Rightarrow> (sigheap \<times> string multiset) run" where
  "free_node a n hs = (case g_free (sn_interface n) (snd hs) of
     Crash \<Rightarrow> Crash
   | Ret strs \<Rightarrow> (case g_free (sn_signal n) strs of
       Crash \<Rightarrow> Crash
     | Ret strs' \<Rightarrow> Ret ((fst hs)(a := None), strs')))"

text \<open>
  The loop of \<^verbatim>\<open>dbus_monitor_signal_unregistered\<close> behind the first node.  The found node is freed;
  the assignment to \<^verbatim>\<open>tmp_pre\<close> changes a local variable only.
\<close>

partial_function (option) unregister_loop ::
  "reg \<Rightarrow> ptr \<Rightarrow> sigheap \<times> string multiset \<Rightarrow> (sigheap \<times> string multiset) run option" where
  "unregister_loop r p hs = (case p of
     None \<Rightarrow> Some (Ret hs)
   | Some a \<Rightarrow> (case fst hs a of
       None \<Rightarrow> Some Crash
     | Some n \<Rightarrow> if reg_of n = r then Some (free_node a n hs) else unregister_loop r (sn_next n) hs))"

section \<open>Operations\<close>

text \<open>\<^verbatim>\<open>pthread_mutex_lock\<close> of a mutex that is held does not return.\<close>

definition sig_lock :: "sigw \<Rightarrow> sigw option" where
  "sig_lock s = (if sg_mutex s then None else Some (s\<lparr>sg_mutex := True\<rparr>))"

text \<open>The filter function, for a signal message with its interface, its member and its text.\<close>

definition dbus_monitor_changed :: "string \<Rightarrow> string \<Rightarrow> string \<Rightarrow> sigw \<Rightarrow> (bool \<times> sigw) run option" where
  "dbus_monitor_changed iface sig body s = (case sig_lock s of
     None \<Rightarrow> None
   | Some s1 \<Rightarrow> (case notify_loop (sg_heap s1) iface sig body (dbus_signal_list s1) False [] of
       None \<Rightarrow> None
     | Some Crash \<Rightarrow> Some Crash
     | Some (Ret (handled, calls)) \<Rightarrow> Some (Ret (handled, s1\<lparr>sg_calls := sg_calls s1 @ calls, sg_mutex := False\<rparr>))))"

definition match_rule :: "string \<Rightarrow> string" where
  "match_rule iface = ''type='' @ [chr_sq] @ ''signal'' @ [chr_sq] @ '',interface='' @ [chr_sq] @ iface @ [chr_sq]"

text \<open>
  The first part of a registration: the thread of the main loop (unless one is up or it was
  disabled) and the connection, whose set-up initialises the mutex.  When the bus cannot be reached, the NULL
  connection goes to \<^verbatim>\<open>dbus_connection_add_filter\<close> all the same.
\<close>

definition signal_connect :: "bool \<Rightarrow> sigw \<Rightarrow> sigw run" where
  "signal_connect bus s =
     (let s1 = (if need_loop s \<and> \<not> sg_main_loop s then s\<lparr>sg_threads := sg_threads s + 1\<rparr> else s)
      in if sg_conn s1 then Ret s1
         else if bus then Ret (s1\<lparr>sg_mutex := False, sg_conn := True\<rparr>) else Crash)"

text \<open>\<open>bus\<close> is whether the bus could be reached, \<open>mem\<close> what \<^verbatim>\<open>malloc\<close> returns.\<close>

definition dbus_monitor_signal_registered ::
  "bool \<Rightarrow> ptr \<Rightarrow> string \<Rightarrow> string \<Rightarrow> nat option \<Rightarrow> sigw \<Rightarrow> sigw run option" where
  "dbus_monitor_signal_registered bus mem iface sig cb s = (case signal_connect bus s of
     Crash \<Rightarrow> Some Crash
   | Ret s1 \<Rightarrow> (case check_dbus_signel (sg_heap s1) (iface, sig, cb) (dbus_signal_list s1) of
        None \<Rightarrow> None
      | Some Crash \<Rightarrow> Some Crash
      | Some (Ret (Some _)) \<Rightarrow> Some (Ret s1)
      | Some (Ret None) \<Rightarrow> (case mem of
          None \<Rightarrow> Some Crash
        | Some a \<Rightarrow>
            (case add_dbus_sigal a (s1\<lparr>sg_strings := add_mset iface (add_mset sig (sg_strings s1)),
                sg_heap := (sg_heap s1)(a \<mapsto>
                \<lparr>sn_interface = iface, sn_signal = sig, sn_cb = cb, sn_next = None\<rparr>)\<rparr>) of
               None \<Rightarrow> None
             | Some Crash \<Rightarrow> Some Crash
             | Some (Ret s2) \<Rightarrow> Some (Ret (s2\<lparr>sg_matches := sg_matches s2 @ [match_rule iface]\<rparr>))))))"

definition dbus_monitor_signal_unregistered :: "string \<Rightarrow> string \<Rightarrow> nat option \<Rightarrow> sigw \<Rightarrow> sigw run option" where
  "dbus_monitor_signal_unregistered iface sig cb s = (case dbus_signal_list s of
     None \<Rightarrow> Some (Ret s)
   | Some a \<Rightarrow> (case sig_lock s of
       None \<Rightarrow> None
     | Some s1 \<Rightarrow> (case sg_heap s1 a of
         None \<Rightarrow> Some Crash
       | Some n \<Rightarrow>
           if reg_of n = (iface, sig, cb)
           then (case free_node a n (sg_heap s1, sg_strings s1) of
                   Crash \<Rightarrow> Some Crash
                 | Ret (h, strs) \<Rightarrow> Some (Ret (s1\<lparr>dbus_signal_list := sn_next n, sg_heap := h, sg_strings := strs, sg_mutex := False\<rparr>)))
           else (case unregister_loop (iface, sig, cb) (sn_next n) (sg_heap s1, sg_strings s1) of
                   None \<Rightarrow> None
                 | Some Crash \<Rightarrow> Some Crash
                 | Some (Ret (h, strs)) \<Rightarrow> Some (Ret (s1\<lparr>sg_heap := h, sg_strings := strs, sg_mutex := False\<rparr>))))))"

definition disable_loop :: "sigw \<Rightarrow> sigw" where
  "disable_loop s = s\<lparr>need_loop := False\<rparr>"

text \<open>\<^verbatim>\<open>loop_thread\<close>: the main loop is there while it runs.\<close>

definition loop_thread_start :: "sigw \<Rightarrow> sigw" where
  "loop_thread_start s = s\<lparr>sg_main_loop := True\<rparr>"

definition loop_thread_end :: "sigw \<Rightarrow> sigw" where
  "loop_thread_end s = s\<lparr>sg_main_loop := False\<rparr>"

section \<open>The list in the heap\<close>

primrec chain :: "sigheap \<Rightarrow> ptr \<Rightarrow> nat list \<Rightarrow> bool" where
  "chain h p [] \<longleftrightarrow> p = None"
| "chain h p (a # as) \<longleftrightarrow> p = Some a \<and> (\<exists>n. h a = Some n \<and> chain h (sn_next n) as)"

definition regs_at :: "sigheap \<Rightarrow> nat list \<Rightarrow> reg list" where
  "regs_at h as = map (\<lambda>a. reg_of (the (h a))) as"

lemma regs_at_simps [simp]:
  "regs_at h [] = []" "regs_at h (a # as) = reg_of (the (h a)) # regs_at h as" "regs_at h (as @ bs) = regs_at h as @ regs_at h bs"
  by (simp_all add: regs_at_def)

lemma regs_at_upd: "a \<notin> set as \<Longrightarrow> regs_at (h(a := x)) as = regs_at h as"
  by (auto simp: regs_at_def)

lemma chain_upd: "a \<notin> set as \<Longrightarrow> chain (h(a := x)) p as = chain h p as"
  by (induction as arbitrary: p) auto

lemma chain_None [simp]: "chain h None as \<longleftrightarrow> as = []"
  by (cases as) auto

lemma chain_allocated: "chain h p as \<Longrightarrow> set as \<subseteq> dom h"
  by (induction as arbitrary: p) auto

text \<open>The strings that registrations own: a copy of the interface and one of the signal each.\<close>

primrec strings_of :: "reg list \<Rightarrow> string multiset" where
  "strings_of [] = {#}"
| "strings_of (r # rs) = add_mset (fst r) (add_mset (fst (snd r)) (strings_of rs))"

lemma strings_of_append [simp]: "strings_of (xs @ ys) = strings_of xs + strings_of ys"
  by (induction xs) auto

text \<open>The state stands for the registrations \<open>rs\<close>, oldest first; no other node or string is allocated.\<close>

definition represents :: "sigw \<Rightarrow> reg list \<Rightarrow> bool" where
  "represents s rs \<longleftrightarrow> \<not> sg_mutex s \<and> distinct rs \<and> sg_strings s = strings_of rs \<and>
     (\<exists>as. chain (sg_heap s) (dbus_signal_list s) as \<and> distinct as \<and>
       set as = dom (sg_heap s) \<and> regs_at (sg_heap s) as = rs)"

lemma representsE:
  assumes "represents s rs"
  obtains as where "chain (sg_heap s) (dbus_signal_list s) as" "distinct as" "set as = dom (sg_heap s)"
    "regs_at (sg_heap s) as = rs" "\<not> sg_mutex s" "distinct rs" "sg_strings s = strings_of rs"
  using assms unfolding represents_def by blast

lemma represents_start: "represents sig_start []"
  by (auto simp: represents_def sig_start_def)

lemma reg_strings: "r \<in> set rs \<Longrightarrow> \<exists>strs. strings_of rs = add_mset (fst r) (add_mset (fst (snd r)) strs)"
  by (induction rs) (force simp: add_mset_commute)+

text \<open>The node of a registration that is still there can be freed.\<close>

lemma free_node_there:
  assumes "reg_of n \<in> set rs"
  shows "\<exists>strs. free_node a n (h, strings_of rs) = Ret (h(a := None), strs) \<and>
    strings_of rs = add_mset (sn_interface n) (add_mset (sn_signal n) strs)"
  using reg_strings [OF assms] by (auto simp: free_node_def g_free_def reg_of_def)

text \<open>The calls a signal makes, registration by registration.\<close>

definition due_calls :: "string \<Rightarrow> string \<Rightarrow> string \<Rightarrow> reg list \<Rightarrow> (nat \<times> string) list" where
  "due_calls iface sig body rs =
     concat (map (\<lambda>(i, g, cb). if i = iface \<and> g = sig then (case cb of None \<Rightarrow> [] | Some f \<Rightarrow> [(f, body)]) else []) rs)"

lemma notify_chain:
  "chain h p as \<Longrightarrow> notify_loop h iface sig body p handled calls =
     Some (Ret (handled \<or> (\<exists>cb. (iface, sig, cb) \<in> set (regs_at h as)), calls @ due_calls iface sig body (regs_at h as)))"
proof (induction as arbitrary: p handled calls)
  case Nil
  then show ?case by (simp add: notify_loop.simps [of _ _ _ _ None] due_calls_def)
next
  case (Cons a as)
  then obtain n where n: "p = Some a" "h a = Some n" "chain h (sn_next n) as" by auto
  show ?case
    by (subst notify_loop.simps) (auto simp: n Cons.IH [OF n(3)] reg_of_def due_calls_def)
qed

lemma check_chain:
  "chain h p as \<Longrightarrow> \<exists>q. check_dbus_signel h r p = Some (Ret q) \<and> (q = None \<longleftrightarrow> r \<notin> set (regs_at h as))"
proof (induction as arbitrary: p)
  case Nil
  then show ?case by (simp add: check_dbus_signel.simps [of _ _ None])
next
  case (Cons a as)
  then obtain n where n: "p = Some a" "h a = Some n" "chain h (sn_next n) as" by auto
  from Cons.IH [OF n(3)] show ?case by (subst check_dbus_signel.simps) (auto simp: n)
qed

lemma last_chain: "chain h (Some a) (a # as) \<Longrightarrow> last_node h a = Some (Ret (last (a # as)))"
proof (induction as arbitrary: a)
  case Nil
  then show ?case by (auto simp: last_node.simps [of _ a])
next
  case (Cons b as)
  then obtain n where n: "h a = Some n" "sn_next n = Some b" "chain h (Some b) (b # as)" by auto
  with Cons.IH [OF n(3)] show ?case by (simp add: last_node.simps [of _ a])
qed

lemma chain_extend:
  assumes "chain h p (as @ [l])" and "distinct (as @ [l])" and "a \<notin> set (as @ [l])" and "h a = Some n" "sn_next n = None"
  shows "chain (set_next l (Some a) h) p (as @ [l, a])"
  using assms
proof (induction as arbitrary: p)
  case Nil
  then show ?case by (auto simp: set_next_def)
next
  case (Cons b as)
  then have "set_next l (Some a) h b = h b" by (auto simp: set_next_def split: option.splits)
  with Cons show ?case by auto
qed

lemma regs_at_set_next: "regs_at (set_next l p h) as = regs_at h as"
  by (auto simp: regs_at_def set_next_def reg_of_def split: option.splits)

lemma dom_set_next [simp]: "dom (set_next l p h) = dom h"
  by (auto simp: set_next_def split: option.splits if_splits)

text \<open>Appending a node that \<^verbatim>\<open>malloc\<close> has just returned.\<close>

lemma add_chain:
  assumes "chain (sg_heap s) (dbus_signal_list s) as" "distinct as" "set as = dom (sg_heap s)" and "a \<notin> set as" and "sn_next n = None"
  shows "\<exists>h p. add_dbus_sigal a (s\<lparr>sg_heap := (sg_heap s)(a \<mapsto> n)\<rparr>) = Some (Ret (s\<lparr>sg_heap := h, dbus_signal_list := p\<rparr>)) \<and>
    chain h p (as @ [a]) \<and> set (as @ [a]) = dom h \<and> regs_at h (as @ [a]) = regs_at (sg_heap s) as @ [reg_of n]"
proof -
  let ?h = "(sg_heap s)(a \<mapsto> n)"
  have c: "chain ?h (dbus_signal_list s) as" and r: "regs_at ?h as = regs_at (sg_heap s) as"
    using assms(1,4) by (simp_all add: chain_upd regs_at_upd)
  show ?thesis
  proof (cases as rule: rev_cases)
    case Nil
    with assms c r show ?thesis
      by (intro exI [of _ ?h] exI [of _ "Some a"]) (auto simp: add_dbus_sigal_def)
  next
    case (snoc bs l)
    obtain b cs where b: "as = b # cs" using snoc by (metis neq_Nil_conv snoc_eq_iff_butlast)
    with c have p: "dbus_signal_list s = Some b" by simp
    have "last (b # cs) = l" using snoc b by (metis last_snoc)
    with last_chain [of ?h b cs] c b p have l: "last_node ?h b = Some (Ret l)" by simp
    from chain_extend [of ?h "Some b" bs l a n] c snoc assms(2,4,5) p
    have "chain (set_next l (Some a) ?h) (Some b) (as @ [a])" by simp
    moreover have "regs_at (set_next l (Some a) ?h) (as @ [a]) = regs_at (sg_heap s) as @ [reg_of n]"
      unfolding regs_at_set_next using r by simp
    ultimately show ?thesis
      using l p assms(3) by (intro exI [of _ "set_next l (Some a) ?h"] exI [of _ "Some b"]) (auto simp: add_dbus_sigal_def)
  qed
qed

section \<open>What the operations do to the registrations\<close>

text \<open>The interface of a registry: the laws hold whatever addresses the allocator chooses.\<close>

locale signal_registry =
  fixes reps :: "'s \<Rightarrow> reg list \<Rightarrow> bool"
    and register :: "reg \<Rightarrow> 's \<Rightarrow> 's \<Rightarrow> bool"
    and notify :: "string \<Rightarrow> string \<Rightarrow> string \<Rightarrow> 's \<Rightarrow> 's option"
    and calls :: "'s \<Rightarrow> (nat \<times> string) list"
  assumes register_adds: "reps s rs \<Longrightarrow> register r s s' \<Longrightarrow> reps s' (if r \<in> set rs then rs else rs @ [r])"
    and register_quiet: "reps s rs \<Longrightarrow> register r s s' \<Longrightarrow> calls s' = calls s"
    and notify_calls: "reps s rs \<Longrightarrow>
      \<exists>s'. notify iface sig body s = Some s' \<and> reps s' rs \<and> calls s' = calls s @ due_calls iface sig body rs"
begin

text \<open>Several signals, one after the other.\<close>

primrec notify_all :: "string \<Rightarrow> (string \<times> string) list \<Rightarrow> 's \<Rightarrow> 's option" where
  "notify_all sig [] s = Some s"
| "notify_all sig (m # ms) s = Option.bind (notify (fst m) sig (snd m) s) (notify_all sig ms)"

lemma notify_all_calls:
  "reps s rs \<Longrightarrow> \<exists>s'. notify_all sig ms s = Some s' \<and> reps s' rs \<and>
     calls s' = calls s @ concat (map (\<lambda>m. due_calls (fst m) sig (snd m) rs) ms)"
proof (induction ms arbitrary: s)
  case (Cons m ms)
  from notify_calls [OF Cons.prems, of "fst m" sig "snd m"] obtain s1 where
    "notify (fst m) sig (snd m) s = Some s1" "reps s1 rs" "calls s1 = calls s @ due_calls (fst m) sig (snd m) rs" by blast
  with Cons.IH [of s1] show ?case by auto
qed simp

lemma registered_once_called_once:
  assumes "reps s []" and "register (iface, sig, Some f) s s1" and "register (iface, sig, Some f) s1 s2"
  shows "\<exists>s3. notify iface sig body s2 = Some s3 \<and> calls s3 = calls s @ [(f, body)]"
proof -
  have "reps s1 [(iface, sig, Some f)]" using register_adds [OF assms(1,2)] by simp
  from register_adds [OF this assms(3)] have "reps s2 [(iface, sig, Some f)]" by simp
  from notify_calls [OF this, of iface sig body] register_quiet [OF assms(1,2)]
    register_quiet [OF \<open>reps s1 [(iface, sig, Some f)]\<close> assms(3)]
  show ?thesis by (auto simp: due_calls_def)
qed

end

text \<open>A registration with some memory that was free, and a signal that is handled to the end.\<close>

definition registers :: "reg \<Rightarrow> sigw \<Rightarrow> sigw \<Rightarrow> bool" where
  "registers r s s' \<longleftrightarrow> (\<exists>bus a. sg_heap s a = None \<and>
     dbus_monitor_signal_registered bus (Some a) (fst r) (fst (snd r)) (snd (snd r)) s = Some (Ret s'))"

definition delivers :: "string \<Rightarrow> string \<Rightarrow> string \<Rightarrow> sigw \<Rightarrow> sigw option" where
  "delivers iface sig body s = (case dbus_monitor_changed iface sig body s of Some (Ret (_, s')) \<Rightarrow> Some s' | _ \<Rightarrow> None)"

lemma connect_keeps:
  assumes "signal_connect bus s = Ret s1"
  shows "sg_heap s1 = sg_heap s" "dbus_signal_list s1 = dbus_signal_list s" "sg_strings s1 = sg_strings s"
    "sg_calls s1 = sg_calls s" "sg_matches s1 = sg_matches s" "\<not> sg_mutex s \<Longrightarrow> \<not> sg_mutex s1" "sg_conn s1" "sg_conn s \<or> bus"
  using assms by (auto simp: signal_connect_def Let_def split: if_splits)

lemma connect_cases:
  "sg_conn s \<or> bus \<Longrightarrow> \<exists>s1. signal_connect bus s = Ret s1" "\<not> (sg_conn s \<or> bus) \<Longrightarrow> signal_connect bus s = Crash"
  by (auto simp: signal_connect_def Let_def)

lemma register_without_bus:
  "\<not> (sg_conn s \<or> bus) \<Longrightarrow> dbus_monitor_signal_registered bus mem iface sig cb s = Some Crash"
  by (simp add: dbus_monitor_signal_registered_def connect_cases(2))

lemma register_effect:
  assumes "represents s rs" and "sg_heap s a = None" and "sg_conn s \<or> bus"
  shows "\<exists>s'. dbus_monitor_signal_registered bus (Some a) iface sig cb s = Some (Ret s') \<and>
    represents s' (if (iface, sig, cb) \<in> set rs then rs else rs @ [(iface, sig, cb)]) \<and> sg_calls s' = sg_calls s \<and>
    sg_matches s' = (if (iface, sig, cb) \<in> set rs then sg_matches s else sg_matches s @ [match_rule iface]) \<and> sg_conn s'"
proof -
  obtain as where as: "chain (sg_heap s) (dbus_signal_list s) as" "distinct as" "set as = dom (sg_heap s)"
    "regs_at (sg_heap s) as = rs" "\<not> sg_mutex s" "distinct rs" "sg_strings s = strings_of rs" using assms(1) by (rule representsE)
  obtain s1 where s1: "signal_connect bus s = Ret s1" using connect_cases(1) [OF assms(3)] by blast
  note k = connect_keeps [OF s1]
  let ?r = "(iface, sig, cb)" and ?n = "\<lparr>sn_interface = iface, sn_signal = sig, sn_cb = cb, sn_next = None\<rparr>"
  let ?s2 = "s1\<lparr>sg_strings := add_mset iface (add_mset sig (sg_strings s1))\<rparr>"
  obtain q where q: "check_dbus_signel (sg_heap s) ?r (dbus_signal_list s) = Some (Ret q)" "q = None \<longleftrightarrow> ?r \<notin> set rs"
    using check_chain [OF as(1), of ?r] as(4) by auto
  show ?thesis
  proof (cases "?r \<in> set rs")
    case True
    with q as assms s1 k show ?thesis
      by (auto simp: dbus_monitor_signal_registered_def represents_def)
  next
    case False
    from add_chain [of ?s2 as a ?n] as assms(2) k obtain h p where
      h: "add_dbus_sigal a (?s2\<lparr>sg_heap := (sg_heap s)(a \<mapsto> ?n)\<rparr>) = Some (Ret (?s2\<lparr>sg_heap := h, dbus_signal_list := p\<rparr>))"
      "chain h p (as @ [a])" "set (as @ [a]) = dom h" "regs_at h (as @ [a]) = rs @ [?r]"
      by (auto simp: reg_of_def)
    have "represents (?s2\<lparr>sg_heap := h, dbus_signal_list := p, sg_matches := m\<rparr>) (rs @ [?r])" for m
      unfolding represents_def using h(2-4) as False assms(2) k by (auto intro!: exI [of _ "as @ [a]"])
    with False q h(1) s1 k show ?thesis by (simp add: dbus_monitor_signal_registered_def)
  qed
qed

lemma notify_effect:
  assumes "represents s rs"
  shows "\<exists>s'. dbus_monitor_changed iface sig body s = Some (Ret (\<exists>cb. (iface, sig, cb) \<in> set rs, s')) \<and> represents s' rs \<and>
    sg_calls s' = sg_calls s @ due_calls iface sig body rs"
  using assms
  by (elim representsE) (auto simp: dbus_monitor_changed_def sig_lock_def notify_chain represents_def)

lemma unregister_first_effect:
  assumes "represents s ((iface, sig, cb) # rs)"
  shows "\<exists>s'. dbus_monitor_signal_unregistered iface sig cb s = Some (Ret s') \<and> represents s' rs \<and> sg_calls s' = sg_calls s"
proof -
  obtain as where as: "chain (sg_heap s) (dbus_signal_list s) as" "distinct as" "set as = dom (sg_heap s)"
    "regs_at (sg_heap s) as = (iface, sig, cb) # rs" "\<not> sg_mutex s" "distinct ((iface, sig, cb) # rs)"
    "sg_strings s = strings_of ((iface, sig, cb) # rs)"
    using assms by (rule representsE)
  then obtain a bs n where a: "as = a # bs" "dbus_signal_list s = Some a" "sg_heap s a = Some n" "chain (sg_heap s) (sn_next n) bs"
    by (cases as) auto
  then have r: "reg_of n = (iface, sig, cb)" using as(4) by simp
  with free_node_there [of n "(iface, sig, cb) # rs" a "sg_heap s"]
  have "free_node a n (sg_heap s, sg_strings s) = Ret ((sg_heap s)(a := None), strings_of rs)"
    unfolding as(7) by (auto simp: reg_of_def)
  with as a r show ?thesis
    by (auto simp: dbus_monitor_signal_unregistered_def sig_lock_def represents_def chain_upd regs_at_upd intro!: exI [of _ bs])
qed

lemma unregister_absent_loop:
  "chain h p as \<Longrightarrow> r \<notin> set (regs_at h as) \<Longrightarrow> unregister_loop r p (h, strs) = Some (Ret (h, strs))"
proof (induction as arbitrary: p)
  case Nil
  then show ?case by (simp add: unregister_loop.simps [of _ None])
next
  case (Cons a as)
  then obtain n where n: "p = Some a" "h a = Some n" "chain h (sn_next n) as" by auto
  from Cons.IH [OF n(3)] Cons.prems(2) show ?case by (subst unregister_loop.simps) (auto simp: n)
qed

lemma unregister_absent_effect:
  assumes "represents s rs" and "(iface, sig, cb) \<notin> set rs"
  shows "dbus_monitor_signal_unregistered iface sig cb s = Some (Ret s)"
proof -
  obtain as where as: "chain (sg_heap s) (dbus_signal_list s) as" "regs_at (sg_heap s) as = rs" "\<not> sg_mutex s"
    using assms(1) by (rule representsE)
  show ?thesis
  proof (cases as)
    case Nil
    with as show ?thesis by (simp add: dbus_monitor_signal_unregistered_def)
  next
    case (Cons a bs)
    with as obtain n where n: "dbus_signal_list s = Some a" "sg_heap s a = Some n" "chain (sg_heap s) (sn_next n) bs" by auto
    have "reg_of n \<noteq> (iface, sig, cb)" "(iface, sig, cb) \<notin> set (regs_at (sg_heap s) bs)"
      using as(2) assms(2) Cons n(2) by auto
    with unregister_absent_loop [OF n(3)] n as(3) show ?thesis
      by (simp add: dbus_monitor_signal_unregistered_def sig_lock_def)
  qed
qed

interpretation sreg: signal_registry represents registers delivers sg_calls
proof
  fix s rs r s' assume "represents s rs" and r: "registers r s s'"
  from register_effect [OF \<open>represents s rs\<close>] have "\<exists>s1. dbus_monitor_signal_registered bus (Some a) (fst r) (fst (snd r)) (snd (snd r)) s = Some (Ret s1) \<and>
      represents s1 (if r \<in> set rs then rs else rs @ [r]) \<and> sg_calls s1 = sg_calls s" if "sg_heap s a = None" "sg_conn s \<or> bus" for a bus
    using that by (metis prod.collapse)
  with r have "represents s' (if r \<in> set rs then rs else rs @ [r]) \<and> sg_calls s' = sg_calls s"
    unfolding registers_def by (metis option.inject register_without_bus run.distinct(1) run.inject)
  then show "represents s' (if r \<in> set rs then rs else rs @ [r])" "sg_calls s' = sg_calls s" by simp_all
next
  show "\<exists>s'. delivers iface sig body s = Some s' \<and> represents s' rs \<and> sg_calls s' = sg_calls s @ due_calls iface sig body rs"
    if "represents s rs" for s rs iface sig body
    using notify_effect [OF that, of iface sig body] by (auto simp: delivers_def)
qed

section \<open>Unregistering a later entry\<close>

text \<open>A walk that reaches memory that is not allocated.\<close>

primrec broken :: "sigheap \<Rightarrow> ptr \<Rightarrow> nat list \<Rightarrow> bool" where
  "broken h p [] \<longleftrightarrow> (\<exists>a. p = Some a \<and> h a = None)"
| "broken h p (a # as) \<longleftrightarrow> p = Some a \<and> (\<exists>n. h a = Some n \<and> broken h (sn_next n) as)"

lemma notify_broken: "broken h p as \<Longrightarrow> notify_loop h iface sig body p handled calls = Some Crash"
proof (induction as arbitrary: p handled calls)
  case Nil
  then show ?case by (subst notify_loop.simps) auto
next
  case (Cons a as)
  then show ?case by (subst notify_loop.simps) (auto split: option.split)
qed

lemma check_broken: "broken h p as \<Longrightarrow> r \<notin> set (regs_at h as) \<Longrightarrow> check_dbus_signel h r p = Some Crash"
proof (induction as arbitrary: p)
  case Nil
  then show ?case by (subst check_dbus_signel.simps) auto
next
  case (Cons a as)
  then show ?case by (subst check_dbus_signel.simps) auto
qed

lemma unregister_breaks:
  assumes "reg_of (the (h b)) = r" and "free_node b (the (h b)) (h, strs) = Ret (h(b := None), strs')"
  shows "chain h p (as @ b # bs) \<Longrightarrow> distinct (as @ b # bs) \<Longrightarrow> regs_at h (as @ b # bs) = xs @ r # ys \<Longrightarrow> length as = length xs \<Longrightarrow>
   r \<notin> set xs \<Longrightarrow> unregister_loop r p (h, strs) = Some (Ret (h(b := None), strs')) \<and> broken (h(b := None)) p as"
proof (induction as arbitrary: p xs)
  case Nil
  with assms show ?case by (subst unregister_loop.simps) auto
next
  case (Cons a as)
  obtain x xs' where "xs = x # xs'" using Cons.prems(4) by (cases xs) auto
  with Cons.prems obtain n where n: "p = Some a" "h a = Some n" "chain h (sn_next n) (as @ b # bs)" "xs = x # xs'" by auto
  have "unregister_loop r (sn_next n) (h, strs) = Some (Ret (h(b := None), strs')) \<and> broken (h(b := None)) (sn_next n) as"
    by (rule Cons.IH [OF n(3), of xs']) (use Cons.prems n in auto)
  with Cons.prems n show ?case by (subst unregister_loop.simps) auto
qed

lemma represents_size:
  assumes "represents s rs"
  shows "card (dom (sg_heap s)) = length rs" "size (sg_strings s) = 2 * length rs"
proof -
  obtain as where as: "distinct as" "set as = dom (sg_heap s)" "regs_at (sg_heap s) as = rs" "sg_strings s = strings_of rs"
    using assms by (rule representsE)
  have "length as = length rs" using as(3) by (auto simp: regs_at_def)
  with as(1,2) show "card (dom (sg_heap s)) = length rs" using distinct_card by metis
  show "size (sg_strings s) = 2 * length rs" unfolding as(4) by (induction rs) auto
qed

text \<open>
  Property C26. The list of signal registrations does what its callers expect, as long as there is a bus.
  With a connection, or when it can be set up, registering appends
  an entry with its match rule unless the same interface, signal and callback are already there;
  when there is none and the bus cannot be reached, the NULL connection is used and the process crashes.
  A signal calls exactly the registered functions for it, once each and in the order of their
  registration, with its text, and leaves the list and the mutex as they were; unregistering the
  oldest entry, or one that is not there, removes just that.  These operations touch no memory that is
  not allocated and lose none, neither nodes nor the copies of their strings, whatever addresses the
  allocator chooses: after each of them exactly the nodes of the list are allocated, and two strings for each.
\<close>

theorem signal_registrations:
  assumes "represents s rs"
  shows "(\<forall>a bus iface sig cb. sg_heap s a = None \<longrightarrow>
      (if sg_conn s \<or> bus
       then (\<exists>s'. dbus_monitor_signal_registered bus (Some a) iface sig cb s = Some (Ret s') \<and>
         represents s' (if (iface, sig, cb) \<in> set rs then rs else rs @ [(iface, sig, cb)]) \<and> sg_calls s' = sg_calls s \<and>
         sg_matches s' = (if (iface, sig, cb) \<in> set rs then sg_matches s else sg_matches s @ [match_rule iface]) \<and> sg_conn s')
       else dbus_monitor_signal_registered bus (Some a) iface sig cb s = Some Crash)) \<and>
    (\<forall>iface sig body. \<exists>s'. dbus_monitor_changed iface sig body s = Some (Ret (\<exists>cb. (iface, sig, cb) \<in> set rs, s')) \<and>
        represents s' rs \<and> sg_calls s' = sg_calls s @ due_calls iface sig body rs) \<and>
    (\<forall>iface sig cb. (iface, sig, cb) \<in> set rs \<longrightarrow> (iface, sig, cb) = hd rs \<longrightarrow>
      (\<exists>s'. dbus_monitor_signal_unregistered iface sig cb s = Some (Ret s') \<and> represents s' (tl rs) \<and> sg_calls s' = sg_calls s)) \<and>
    (\<forall>iface sig cb. (iface, sig, cb) \<notin> set rs \<longrightarrow> dbus_monitor_signal_unregistered iface sig cb s = Some (Ret s)) \<and>
    card (dom (sg_heap s)) = length rs \<and> size (sg_strings s) = 2 * length rs"
proof (intro conjI allI impI)
  fix a bus iface sig cb assume "sg_heap s a = None"
  with assms register_effect [OF assms] register_without_bus [of s bus] show "if sg_conn s \<or> bus
       then (\<exists>s'. dbus_monitor_signal_registered bus (Some a) iface sig cb s = Some (Ret s') \<and>
         represents s' (if (iface, sig, cb) \<in> set rs then rs else rs @ [(iface, sig, cb)]) \<and> sg_calls s' = sg_calls s \<and>
         sg_matches s' = (if (iface, sig, cb) \<in> set rs then sg_matches s else sg_matches s @ [match_rule iface]) \<and> sg_conn s')
       else dbus_monitor_signal_registered bus (Some a) iface sig cb s = Some Crash" by simp
next
  fix iface sig cb assume "(iface, sig, cb) \<in> set rs" "(iface, sig, cb) = hd rs"
  then have "rs = (iface, sig, cb) # tl rs" by (cases rs) auto
  with assms unregister_first_effect [of s iface sig cb "tl rs"] show
    "\<exists>s'. dbus_monitor_signal_unregistered iface sig cb s = Some (Ret s') \<and> represents s' (tl rs) \<and> sg_calls s' = sg_calls s" by simp
next
  show "card (dom (sg_heap s)) = length rs" "size (sg_strings s) = 2 * length rs" by (rule represents_size [OF assms])+
qed (use assms notify_effect unregister_absent_effect in blast)+

theorem signal_registrations_witness:
  "(\<exists>s'. dbus_monitor_signal_registered True (Some 4) ''net'' ''DataChanged'' (Some 7) sig_start = Some (Ret s') \<and>
     represents s' [(''net'', ''DataChanged'', Some 7)]) \<and>
   dbus_monitor_signal_registered False (Some 4) ''net'' ''DataChanged'' (Some 7) sig_start = Some Crash"
proof -
  have s: "sg_heap sig_start 4 = None" "\<not> sg_conn sig_start" by (simp_all add: sig_start_def)
  note r = signal_registrations [OF represents_start, THEN conjunct1, rule_format, OF s(1), of _ "''net''" "''DataChanged''" "Some 7"]
  from r [of True] r [of False] s(2) show ?thesis by auto
qed

text \<open>
  Property C29. Unregistering any entry but the oldest leaves the list pointing to freed memory.
  The call returns normally, because the assignment that should unlink the node changes a local
  variable; after that every signal, whatever its interface, and every registration of something
  that was not before the removed entry reads the freed node.
\<close>

theorem unregister_later_entry_dangles:
  assumes "represents s (r # rs @ (iface, sig, cb) # rs')"
  shows "\<exists>s'. dbus_monitor_signal_unregistered iface sig cb s = Some (Ret s') \<and>
    (\<forall>i g t. dbus_monitor_changed i g t s' = Some Crash) \<and>
    (\<forall>bus mem i g f. (i, g, f) \<notin> set (r # rs) \<longrightarrow> dbus_monitor_signal_registered bus mem i g f s' = Some Crash)"
proof -
  let ?q = "(iface, sig, cb)"
  obtain as where as: "chain (sg_heap s) (dbus_signal_list s) as" "distinct as" "regs_at (sg_heap s) as = r # rs @ ?q # rs'"
    "\<not> sg_mutex s" "distinct (r # rs @ ?q # rs')" "sg_strings s = strings_of (r # rs @ ?q # rs')" using assms by (rule representsE)
  then obtain a bs where a: "as = a # bs" "regs_at (sg_heap s) bs = rs @ ?q # rs'" by (cases as) auto
  with as(1) obtain n where n: "dbus_signal_list s = Some a" "sg_heap s a = Some n" "chain (sg_heap s) (sn_next n) bs" by auto
  define cs b ds where "cs = take (length rs) bs" and "b = bs ! length rs" and "ds = drop (Suc (length rs)) bs"
  have len: "length bs = length rs + Suc (length rs')" using arg_cong [OF a(2), of length] by (simp add: regs_at_def)
  then have bs: "bs = cs @ b # ds" "length cs = length rs" by (auto simp: cs_def b_def ds_def id_take_nth_drop [symmetric])
  have q: "reg_of (the (sg_heap s b)) = ?q"
    using a(2) bs by (simp add: regs_at_def append_eq_append_conv)
  then obtain strs where f: "free_node b (the (sg_heap s b)) (sg_heap s, sg_strings s) = Ret ((sg_heap s)(b := None), strs)"
    unfolding as(6) using free_node_there [of "the (sg_heap s b)" "r # rs @ ?q # rs'" b "sg_heap s"] by auto
  from unregister_breaks [OF q f, of "sn_next n" cs ds rs rs'] bs n(3) a(2) as(2,5) a(1)
  have u: "unregister_loop ?q (sn_next n) (sg_heap s, sg_strings s) = Some (Ret ((sg_heap s)(b := None), strs))"
    "broken ((sg_heap s)(b := None)) (sn_next n) cs" by auto
  have r: "reg_of n = r" "a \<noteq> b" "b \<notin> set cs" "regs_at (sg_heap s) cs = rs"
    using as(2,3) a bs n(2) by (auto simp: regs_at_def append_eq_append_conv)
  define s' where "s' = s\<lparr>sg_heap := (sg_heap s)(b := None), sg_strings := strs, sg_mutex := False\<rparr>"
  have br: "broken (sg_heap s') (dbus_signal_list s') (a # cs)" "regs_at (sg_heap s') (a # cs) = r # rs"
    using u(2) n r by (auto simp: s'_def regs_at_upd)
  have "dbus_monitor_signal_unregistered iface sig cb s = Some (Ret s')"
    using n u(1) r(1) as(4,5) by (simp add: dbus_monitor_signal_unregistered_def sig_lock_def s'_def)
  moreover have "dbus_monitor_changed i g t s' = Some Crash" for i g t
    using notify_broken [OF br(1)] by (simp add: dbus_monitor_changed_def sig_lock_def s'_def)
  moreover have "dbus_monitor_signal_registered bus mem i g f s' = Some Crash" if "(i, g, f) \<notin> set (r # rs)" for bus mem i g f
  proof (cases "signal_connect bus s'")
    case (Ret s1)
    with check_broken [OF br(1), of "(i, g, f)"] br(2) that connect_keeps(1,2) [OF Ret] show ?thesis
      by (simp add: dbus_monitor_signal_registered_def)
  qed (simp add: dbus_monitor_signal_registered_def)
  ultimately show ?thesis by blast
qed

theorem unregister_later_entry_dangles_witness:
  "\<exists>s s'. represents s [(''net'', ''DataChanged'', Some 1), (''net'', ''DataChanged'', Some 2)] \<and>
     dbus_monitor_signal_unregistered ''net'' ''DataChanged'' (Some 2) s = Some (Ret s') \<and>
     dbus_monitor_changed ''media'' ''DataChanged'' ''x'' s' = Some Crash"
proof -
  obtain s1 where s1: "represents s1 [(''net'', ''DataChanged'', Some 1)]"
    using register_effect [OF represents_start, of 0 True "''net''" "''DataChanged''" "Some 1"] by (auto simp: sig_start_def)
  obtain a where "sg_heap s1 a = None"
    using representsE [OF s1] by (metis finite_set domIff ex_new_if_finite infinite_UNIV_nat)
  from register_effect [OF s1 this, of True "''net''" "''DataChanged''" "Some 2"] obtain s where
    s: "represents s ((''net'', ''DataChanged'', Some 1) # [] @ (''net'', ''DataChanged'', Some 2) # [])" by auto
  from unregister_later_entry_dangles [OF this] s show ?thesis by auto
qed

section \<open>Every walk ends\<close>

lemma unregister_ends:
  "chain h p as \<Longrightarrow> set (regs_at h as) \<subseteq> set rs \<Longrightarrow> \<exists>hs'. unregister_loop r p (h, strings_of rs) = Some (Ret hs')"
proof (induction as arbitrary: p)
  case Nil
  then show ?case by (simp add: unregister_loop.simps [of _ None])
next
  case (Cons a as)
  then obtain n where n: "p = Some a" "h a = Some n" "chain h (sn_next n) as" "reg_of n \<in> set rs" by auto
  from Cons.IH [OF n(3)] Cons.prems(2) free_node_there [OF n(4), of a h] show ?case by (subst unregister_loop.simps) (auto simp: n)
qed

lemma chain_last: "chain h p (as @ [l]) \<Longrightarrow> \<exists>n. h l = Some n \<and> sn_next n = None"
  by (induction as arbitrary: p) auto

text \<open>
  Property C27. None of the loops over the registrations runs forever or reads memory that is not
  allocated: while the list is intact, the filter's walk, the search for a registration, the
  search for the last node (which ends at a node without successor) and the search of the
  unregistration return.  Unregistering any entry, not only the oldest, returns, with the
  mutex released.
\<close>

theorem signal_walks_end:
  assumes "represents s rs"
  shows "(\<exists>handled' calls'. notify_loop (sg_heap s) iface sig body (dbus_signal_list s) handled calls = Some (Ret (handled', calls'))) \<and>
    (\<exists>q. check_dbus_signel (sg_heap s) r (dbus_signal_list s) = Some (Ret q)) \<and>
    (\<exists>hs. unregister_loop r (dbus_signal_list s) (sg_heap s, sg_strings s) = Some (Ret hs)) \<and>
    (\<forall>a. dbus_signal_list s = Some a \<longrightarrow> (\<exists>l n. last_node (sg_heap s) a = Some (Ret l) \<and> sg_heap s l = Some n \<and> sn_next n = None)) \<and>
    (\<exists>s'. dbus_monitor_signal_unregistered iface sig cb s = Some (Ret s') \<and> \<not> sg_mutex s')"
proof (intro conjI allI impI)
  obtain as where as: "chain (sg_heap s) (dbus_signal_list s) as" and free: "\<not> sg_mutex s"
    and rs: "regs_at (sg_heap s) as = rs" "sg_strings s = strings_of rs" using assms by (rule representsE)
  show "\<exists>handled' calls'. notify_loop (sg_heap s) iface sig body (dbus_signal_list s) handled calls = Some (Ret (handled', calls'))"
    using notify_chain [OF as] by blast
  show "\<exists>q. check_dbus_signel (sg_heap s) r (dbus_signal_list s) = Some (Ret q)"
    using check_chain [OF as] by blast
  show "\<exists>hs. unregister_loop r (dbus_signal_list s) (sg_heap s, sg_strings s) = Some (Ret hs)"
    unfolding rs(2) using as by (rule unregister_ends) (simp add: rs(1))
  show "\<exists>l n. last_node (sg_heap s) a = Some (Ret l) \<and> sg_heap s l = Some n \<and> sn_next n = None" if "dbus_signal_list s = Some a" for a
  proof -
    from as that obtain bs where bs: "as = a # bs" by (cases as) auto
    with as that have "last_node (sg_heap s) a = Some (Ret (last (a # bs)))" by (intro last_chain) simp
    moreover have "chain (sg_heap s) (Some a) (butlast (a # bs) @ [last (a # bs)])"
      using as that bs by (metis append_butlast_last_id list.distinct(1))
    ultimately show ?thesis using chain_last by blast
  qed
  show "\<exists>s'. dbus_monitor_signal_unregistered iface sig cb s = Some (Ret s') \<and> \<not> sg_mutex s'"
  proof (cases as)
    case Nil
    with as free show ?thesis by (simp add: dbus_monitor_signal_unregistered_def)
  next
    case (Cons b bs)
    with as obtain n where n: "dbus_signal_list s = Some b" "sg_heap s b = Some n" "chain (sg_heap s) (sn_next n) bs" by auto
    have sub: "set (regs_at (sg_heap s) bs) \<subseteq> set rs" "reg_of n \<in> set rs" using rs(1) Cons n(2) by auto
    from unregister_ends [OF n(3) sub(1)] obtain h strs where
      "unregister_loop (iface, sig, cb) (sn_next n) (sg_heap s, strings_of rs) = Some (Ret (h, strs))" by fastforce
    with n free free_node_there [OF sub(2), of b "sg_heap s"] show ?thesis
      by (auto simp: dbus_monitor_signal_unregistered_def sig_lock_def rs(2))
  qed
qed

theorem signal_walks_end_witness:
  "\<exists>s q l. represents s [(''net'', ''DataChanged'', Some 1)] \<and>
     check_dbus_signel (sg_heap s) (''net'', ''DataChanged'', None) (dbus_signal_list s) = Some (Ret q) \<and>
     last_node (sg_heap s) (the (dbus_signal_list s)) = Some (Ret l)"
proof -
  obtain s where s: "represents s [(''net'', ''DataChanged'', Some 1)]"
    using register_effect [OF represents_start, of 0 True "''net''" "''DataChanged''" "Some 1"] by (auto simp: sig_start_def)
  obtain a where a: "dbus_signal_list s = Some a" using s
    by (elim representsE) (metis chain_None list.distinct(1) not_None_eq regs_at_simps(1))
  from signal_walks_end [OF s, of "[]" "[]" "[]" False "[]" "(''net'', ''DataChanged'', None)" None] s a show ?thesis by auto
qed

end
