(* ===== verification/DbSettings.thy ===== *)
theory DbSettings
  imports DbEvents SqlScript DbusSignal
begin

text \<open>
  The database service and its clients together: a request goes from the client library over the
  bus to the command handler, as SQL text to a database that runs typed tables, and back.
\<close>

section \<open>The service behind the bus\<close>

definition db_interfaces :: "string list" where
  "db_interfaces = [DBSERVER_NET_INTERFACE, DBSERVER_STORAGE_INTERFACE, DBSERVER_MEDIA_INTERFACE, DBSERVER_SYSTEM_INTERFACE,
     DBSERVER_EVENT_INTERFACE, DBSERVER_PERIPHERALS_INTERFACE]"

text \<open>The state is \<open>None\<close> after the service has crashed; then, and for unknown methods, calls give an error.\<close>

definition db_bus_call :: "jsonlib \<Rightarrow> 'd sqlite \<Rightarrow> string \<Rightarrow> string \<Rightarrow> string \<Rightarrow> 'd dbs option \<Rightarrow> string option \<times> 'd dbs option" where
  "db_bus_call jl sq interface member json p = (case p of
     None \<Rightarrow> (None, None)
   | Some s \<Rightarrow>
       if interface \<notin> set db_interfaces then (None, p)
       else (case (if member = ''Cmd'' then Some (method_cmd jl sq (Some interface) json s)
                   else if member = ''Sql'' then Some (method_sql jl sq json s) else None) of
               None \<Rightarrow> (None, p)
             | Some None \<Rightarrow> (None, None)
             | Some (Some (reply, s')) \<Rightarrow> (Some reply, Some s')))"

definition db_bus :: "jsonlib \<Rightarrow> 'd sqlite \<Rightarrow> 'd dbs option bus" where
  "db_bus jl sq = \<lparr>bu_connect = (\<lambda>_. True), bu_call = db_bus_call jl sq\<rparr>"

text \<open>
  What the code relies on of json-c besides \<open>json_ok\<close>: flat objects, and requests with flat keys and
  data, are read as they were printed, and printed text is a C string.
\<close>

definition json_codec :: "jsonlib \<Rightarrow> bool" where
  "json_codec jl \<longleftrightarrow> json_ok jl \<and> (\<forall>j. chr_nul \<notin> set (jl_print jl j)) \<and>
     (\<forall>j. flat_row j \<longrightarrow> jl_parse jl (jl_print jl j) = j) \<and>
     (\<forall>table key data cmd. flat_row (J_object key) \<longrightarrow> flat_row data \<or> (\<exists>s. data = J_string s) \<longrightarrow>
        jl_parse jl (jl_print jl (j_request table (J_object key) data cmd)) = j_request table (J_object key) data cmd)"

lemma numbered_json_codec: "json_codec numbered_json"
  by (auto simp: json_codec_def numbered_json_ok) (auto simp: numbered_json_def)

lemma json_codecD:
  assumes "json_codec jl"
  shows "json_ok jl" "chr_nul \<notin> set (jl_print jl j)" "cstr (jl_print jl j) = jl_print jl j"
  using assms by (auto simp: json_codec_def cstr_plain)

text \<open>A command that the service carries out, seen by the client.\<close>

lemma send_cmd_answered:
  assumes "json_codec jl" and "\<not> cl_mutex w" and "cl_peer w = Some s" and "interface \<in> set db_interfaces"
    and "method_cmd jl sq (Some interface) (jl_print jl j) s = Some (jl_print jl r, s')"
  shows "send_cmd jl (db_bus jl sq) j interface w =
    Some (Some (jl_print jl r), w\<lparr>dbus_conn_flag := True, cl_peer := Some s'\<rparr>)"
  using assms json_codecD(3) [OF assms(1)]
  by (cases w) (simp add: send_cmd_def dbserver_cmd_def DBSERVER_DBUSSEND_def dbus_mutex_lock_def get_dbus_conn_def db_bus_def
      db_bus_call_def dbus_mutex_unlock_def)

section \<open>Rows as JSON\<close>

lemma dec_of_nat_head: "\<exists>c cs. dec_of_nat n = c # cs \<and> isdigit c"
proof -
  have "dec_of_nat n \<noteq> []" by (simp add: dec_of_nat.simps [of n])
  then obtain c cs where "dec_of_nat n = c # cs" by (cases "dec_of_nat n") auto
  with isdigit_dec_of_nat [of c n] show ?thesis by simp
qed

lemma scan_number_dec: "scan_number (dec_of_nat n) = (False, n)" "scan_number (CHR ''-'' # dec_of_nat n) = (True, n)"
proof -
  obtain c cs where c: "dec_of_nat n = c # cs" "isdigit c" using dec_of_nat_head by blast
  then have "\<not> isspace c" "c \<noteq> CHR ''-''" "c \<noteq> CHR ''+''" by (auto simp: isdigit_def isspace_def)
  with c scan_digits_dec_of_nat [of n] show "scan_number (dec_of_nat n) = (False, n)"
    by (auto simp: scan_number_def scan_sign_def)
  show "scan_number (CHR ''-'' # dec_of_nat n) = (True, n)"
    using scan_digits_dec_of_nat [of n] by (auto simp: scan_number_def scan_sign_def isspace_def)
qed

lemma atoi_dec_of_int: "int32_ok i \<Longrightarrow> atoi (dec_of_int i) = i"
proof -
  assume i: "int32_ok i"
  then have "strtol10 (dec_of_int i) = i"
    by (auto simp: strtol10_def dec_of_int_def scan_number_dec int32_ok_def)
  with i show ?thesis
    by (simp add: atoi_def to_int32_def int32_ok_def signed_of_int signed_take_bit_int_eq_self)
qed

definition cell_json :: "string \<Rightarrow> string option \<Rightarrow> json" where
  "cell_json n v = (if take 1 n = ''i'' then J_int (atoi (the v)) else J_string (case v of Some x \<Rightarrow> x | None \<Rightarrow> []))"

lemma callback_cells_eq:
  "row_ok r \<Longrightarrow> distinct (map fst acc @ map fst r) \<Longrightarrow> callback_cells r acc = Some (acc @ map (\<lambda>(n, v). (n, cell_json n v)) r)"
proof (induction r arbitrary: acc)
  case (Cons c r)
  obtain n v where c: "c = (n, v)" by (rule prod.exhaust)
  with Cons.prems have "callback_cell c acc = Some (acc @ [(n, cell_json n v)])"
    by (auto simp: callback_cell_def json_add_def cell_json_def row_ok_def split: option.split)
  moreover have "callback_cells r (acc @ [(n, cell_json n v)]) = Some ((acc @ [(n, cell_json n v)]) @ map (\<lambda>(n, v). (n, cell_json n v)) r)"
    by (rule Cons.IH) (use Cons.prems c in \<open>auto simp: row_ok_def\<close>)
  ultimately show ?case by (simp add: c)
qed simp

definition row_json :: "row \<Rightarrow> json" where
  "row_json r = J_object (map (\<lambda>(n, v). (n, cell_json n v)) r)"

lemma callback_rows_eq:
  "\<forall>r\<in>set rows. row_ok r \<and> distinct (map fst r) \<Longrightarrow> callback_rows rows = Some (map row_json rows)"
  by (induction rows) (simp_all add: callback_row_def callback_cells_eq [where acc = "[]", simplified] row_json_def)

lemma row_json_get: "map_of r n = Some v \<Longrightarrow> json_object_object_get (row_json r) n = cell_json n v"
proof -
  have "map_of (map (\<lambda>(n, v). (n, cell_json n v)) r) n = map_option (cell_json n) (map_of r n)" by (induction r) auto
  then show "map_of r n = Some v \<Longrightarrow> ?thesis" by (simp add: row_json_def json_object_object_get_def)
qed

section \<open>Statements on a table\<close>

text \<open>Rows have the declared columns, in their order, and no NULL the row callback would trip over.\<close>

definition rows_wf :: "column list \<Rightarrow> row list \<Rightarrow> bool" where
  "rows_wf cols rows \<longleftrightarrow> (\<forall>r\<in>set rows. map fst r = map co_name cols \<and> row_ok r)"

definition table_wf :: "table \<Rightarrow> bool" where
  "table_wf tb \<longleftrightarrow> distinct (map co_name (tb_cols tb)) \<and> rows_wf (tb_cols tb) (tb_rows tb) \<and> unique_ok (tb_cols tb) (tb_rows tb)"

lemma put_rows_get:
  "map_of (put_rows t rows db) t' = (if t' = t then map_option (\<lambda>tb. tb\<lparr>tb_rows := rows\<rparr>) (map_of db t) else map_of db t')"
  by (induction db) (auto simp: put_rows_def)

text \<open>A statement that succeeds, as the service sees it.\<close>

lemma exec_at:
  assumes "runs_tables sq tables" and "reads_as sql st" and "map_of (tables (db_state s)) (stmt_table st) = Some tb"
    and "stmt_typed st tb" and "exec_on st tb = (sql_ok rows, rows')"
  shows "result sql sq s = sql_ok rows" "tables (db_state (ran sql sq s)) = put_rows (stmt_table st) rows' (tables (db_state s))"
proof -
  obtain r d where d: "sq_exec sq sql (db_state s) = (r, d)" by (rule prod.exhaust)
  have "exec_stmt st (tables (db_state s)) = (sql_ok rows, put_rows (stmt_table st) rows' (tables (db_state s)))"
    by (simp add: exec_stmt_def assms(3-5))
  with assms(1-4) d show "result sql sq s = sql_ok rows" "tables (db_state (ran sql sq s)) = put_rows (stmt_table st) rows' (tables (db_state s))"
    unfolding runs_tables_def reads_as_def by (fastforce simp: ran_def sql_ok_def)+
qed

lemma sane_ok: "rows_wf cols rows \<Longrightarrow> sane_result (sql_ok rows)" "sane_result (sql_ok [])"
  by (auto simp: sane_result_def sql_ok_def int32_ok_def rows_wf_def list_all_iff)

lemma reply_ok:
  assumes "rows_wf cols rows" and "distinct (map co_name cols)"
  shows "the_reply (sql_ok rows) = reply_json 0 [] (map row_json rows)"
proof -
  have "callback_rows rows = Some (map row_json rows)"
    by (rule callback_rows_eq) (use assms in \<open>auto simp: rows_wf_def\<close>)
  then show ?thesis by (simp add: the_reply_def sql_ok_def the_rows_def)
qed

text \<open>A field of a request that fits its column: integers in the columns whose names start with \<^verbatim>\<open>i\<close>.\<close>

definition field_fits :: "table \<Rightarrow> string \<times> json \<Rightarrow> bool" where
  "field_fits tb kv \<longleftrightarrow> column_word (fst kv) \<and> (\<exists>c\<in>set (tb_cols tb). co_name c = fst kv \<and>
     (case snd kv of
        J_int i \<Rightarrow> int32_ok i \<and> take 1 (fst kv) = ''i'' \<and> co_type c \<noteq> C_text
      | J_string t \<Rightarrow> take 1 (fst kv) \<noteq> ''i'' \<and> chr_sq \<notin> set t \<and> chr_nul \<notin> set t \<and> co_type c \<noteq> C_int
      | _ \<Rightarrow> False))"

lemma field_fits_rows [simp]: "field_fits (tb\<lparr>tb_rows := rs\<rparr>) = field_fits tb"
  by (simp add: field_fits_def fun_eq_iff)

lemma field_fitsD:
  assumes "json_ok jl" and "field_fits tb kv"
  shows "good_field jl kv" "given_ok tb (fst kv, lit_of jl (snd kv))" "flat_cell (snd kv)"
    "fst kv \<in> co_name ` set (tb_cols tb)" "cell_json (fst kv) (Some (snd (lit_of jl (snd kv)))) = snd kv"
proof -
  from assms(2) obtain c where c: "c \<in> set (tb_cols tb)" "co_name c = fst kv" "column_word (fst kv)"
    and v: "(\<exists>i. snd kv = J_int i \<and> int32_ok i \<and> take 1 (fst kv) = ''i'' \<and> co_type c \<noteq> C_text) \<or>
      (\<exists>t. snd kv = J_string t \<and> take 1 (fst kv) \<noteq> ''i'' \<and> chr_sq \<notin> set t \<and> chr_nul \<notin> set t \<and> co_type c \<noteq> C_int)"
    unfolding field_fits_def by (cases "snd kv") auto
  have g: "jl_get_int jl (J_int i) = i" if "int32_ok i" for i using assms(1) that by (simp add: json_ok_def)
  have ty: "co_type c = C_any \<or> co_type c = fst (lit_of jl (snd kv))"
    using v by (cases "co_type c") (auto simp: lit_of_def is_json_int_def)
  with c show "given_ok tb (fst kv, lit_of jl (snd kv))"
    by (cases "lit_of jl (snd kv)") (auto simp: given_ok_def list_ex_iff)
  show "fst kv \<in> co_name ` set (tb_cols tb)" using c(1,2) by (metis imageI)
  show "good_field jl kv" "flat_cell (snd kv)"
    using c v by (auto simp: good_field_def plain_value_def is_json_int_def json_object_get_string_def flat_cell_def)
  show "cell_json (fst kv) (Some (snd (lit_of jl (snd kv)))) = snd kv"
    using v g atoi_dec_of_int by (auto simp: cell_json_def lit_of_def is_json_int_def json_object_get_string_def)
qed

lemma fields_fit:
  assumes "json_ok jl" and "list_all (field_fits tb) kvs"
  shows "list_all (good_field jl) kvs" "list_all (given_ok tb) (lits_of jl kvs)"
    "distinct (map fst kvs) \<Longrightarrow> flat_row (J_object kvs)"
  using assms field_fitsD [OF assms(1)] by (auto simp: list_all_iff lits_of_def flat_row_def)

text \<open>A row with the values of the fields shows them in its JSON object.\<close>

lemma row_shows_fields:
  assumes "json_ok jl" and "list_all (field_fits tb) kvs" and "row_matches (lits_of jl kvs) r" and "(k, v) \<in> set kvs"
  shows "json_object_object_get (row_json r) k = v"
proof -
  have "map_of r k = Some (Some (snd (lit_of jl v)))"
    using assms(3,4) by (auto simp: row_matches_def lits_of_def list_all_iff)
  with row_json_get field_fitsD(5) [OF assms(1), of tb "(k, v)"] assms(2,4) show ?thesis by (auto simp: list_all_iff)
qed

lemma set_cells_get: "map_of (set_cells sets r) n = map_option (\<lambda>v. case map_of sets n of Some l \<Rightarrow> Some (snd l) | None \<Rightarrow> v) (map_of r n)"
  by (induction r) (auto simp: set_cells_def split: option.split)

lemma set_cells_fst: "map fst (set_cells sets r) = map fst r"
  by (induction r) (auto simp: set_cells_def)

lemma set_cells_row_ok: "row_ok r \<Longrightarrow> row_ok (set_cells sets r)"
  by (auto simp: row_ok_def set_cells_def list_all_iff split: option.splits)

lemma row_matches_append [simp]: "row_matches (a @ b) r \<longleftrightarrow> row_matches a r \<and> row_matches b r"
  by (simp add: row_matches_def)

lemma row_matches_other:
  "fst ` set whr \<inter> fst ` set sets = {} \<Longrightarrow> row_matches whr (set_cells sets r) = row_matches whr r"
proof -
  assume d: "fst ` set whr \<inter> fst ` set sets = {}"
  have "map_of (set_cells sets r) n = map_of r n" if "n \<in> fst ` set whr" for n
  proof -
    have "map_of sets n = None" using d that by (auto simp: map_of_eq_None_iff)
    then show ?thesis by (cases "map_of r n") (simp_all add: set_cells_get)
  qed
  then show ?thesis by (auto simp: row_matches_def list_all_iff rev_image_eqI)
qed

lemma row_matches_set:
  assumes "distinct (map fst sets)" and "fst ` set sets \<subseteq> fst ` set r"
  shows "row_matches sets (set_cells sets r)"
proof -
  have "map_of (set_cells sets r) n = Some (Some (snd l))" if "(n, l) \<in> set sets" for n l
  proof -
    have "n \<in> fst ` set r" using assms(2) that by force
    then obtain v where "map_of r n = Some v" by (metis domD dom_map_of_conv_image_fst)
    moreover have "map_of sets n = Some l" using assms(1) that by simp
    ultimately show ?thesis by (simp add: set_cells_get)
  qed
  then show ?thesis by (auto simp: row_matches_def list_all_iff)
qed

section \<open>Insert or update\<close>

text \<open>Key and data of a request for a table; columns that must be unique are not among the data.\<close>

definition request_fits :: "table \<Rightarrow> (string \<times> json) list \<Rightarrow> (string \<times> json) list \<Rightarrow> bool" where
  "request_fits tb key dat \<longleftrightarrow> key \<noteq> [] \<and> dat \<noteq> [] \<and> distinct (map fst (key @ dat)) \<and> list_all (field_fits tb) (key @ dat) \<and>
     (\<forall>c\<in>set (tb_cols tb). co_unique c \<longrightarrow> co_name c \<notin> fst ` set dat)"

definition has_row :: "jsonlib \<Rightarrow> table \<Rightarrow> (string \<times> json) list \<Rightarrow> bool" where
  "has_row jl tb key \<longleftrightarrow> list_ex (row_matches (lits_of jl key)) (tb_rows tb)"

text \<open>A row with the key is there, or one can be added: the columns that are not given have defaults.\<close>

definition writable :: "jsonlib \<Rightarrow> table \<Rightarrow> (string \<times> json) list \<Rightarrow> (string \<times> json) list \<Rightarrow> bool" where
  "writable jl tb key dat \<longleftrightarrow> has_row jl tb key \<or>
     (constraints_ok tb (new_row tb (lits_of jl (key @ dat))) \<and> row_ok (new_row tb (lits_of jl (key @ dat))))"

definition rows_after :: "jsonlib \<Rightarrow> table \<Rightarrow> (string \<times> json) list \<Rightarrow> (string \<times> json) list \<Rightarrow> row list" where
  "rows_after jl tb key dat =
     (if has_row jl tb key
      then map (\<lambda>r. if row_matches (lits_of jl key) r then set_cells (lits_of jl dat) r else r) (tb_rows tb)
      else tb_rows tb @ [new_row tb (lits_of jl (key @ dat))])"

lemma lits_fst_set: "fst ` set (lits_of jl kvs) = fst ` set kvs"
  by (force simp: lits_of_def)

lemma new_row_fst: "map fst (new_row tb given) = map co_name (tb_cols tb)"
  by (simp add: new_row_def comp_def)

lemma new_row_get:
  assumes "distinct (map co_name (tb_cols tb))" and "distinct (map fst given)" and "(n, l) \<in> set given" and "n \<in> co_name ` set (tb_cols tb)"
  shows "map_of (new_row tb given) n = Some (Some (snd l))"
proof -
  obtain c where c: "c \<in> set (tb_cols tb)" "n = co_name c" using assms(4) by auto
  have "map_of given n = Some l" using assms(2,3) by simp
  with c have "(n, Some (snd l)) \<in> set (new_row tb given)" by (force simp: new_row_def split: prod.splits)
  moreover have "distinct (map fst (new_row tb given))" using assms(1) by (simp add: new_row_fst)
  ultimately show ?thesis by simp
qed

lemma new_row_matches:
  assumes "distinct (map co_name (tb_cols tb))" and "distinct (map fst given)" and "fst ` set given \<subseteq> co_name ` set (tb_cols tb)"
  shows "row_matches given (new_row tb given)"
proof -
  have "map_of (new_row tb given) n = Some (Some (snd l))" if "(n, l) \<in> set given" for n l
    by (rule new_row_get [OF assms(1,2) that]) (use assms(3) that in force)
  then show ?thesis by (auto simp: row_matches_def list_all_iff)
qed

lemma unique_ok_other:
  assumes "unique_ok cols rows" and "\<forall>c\<in>set cols. co_unique c \<longrightarrow> co_name c \<notin> fst ` set sets"
  shows "unique_ok cols (map (\<lambda>r. if p r then set_cells sets r else r) rows)"
proof -
  have "map_of (if p r then set_cells sets r else r) n = map_of r n" if "n \<notin> fst ` set sets" for n r
  proof -
    have "map_of sets n = None" using that by (simp add: map_of_eq_None_iff)
    then show ?thesis by (cases "map_of r n") (simp_all add: set_cells_get)
  qed
  with assms show ?thesis by (auto simp: unique_ok_def list_all_iff comp_def)
qed

lemma unique_ok_new:
  assumes "unique_ok (tb_cols tb) (tb_rows tb)" and "constraints_ok tb r"
  shows "unique_ok (tb_cols tb) (tb_rows tb @ [r])"
proof -
  have "map_of r n \<notin> (\<lambda>r. map_of r n) ` set (tb_rows tb)" if "c \<in> set (tb_cols tb)" "co_unique c" "n = co_name c" for c n
    using assms(2) that by (fastforce simp: constraints_ok_def list_all_iff)
  with assms(1) show ?thesis by (fastforce simp: unique_ok_def list_all_iff)
qed

lemma rows_after_wf:
  assumes "table_wf tb" and "request_fits tb key dat" and "writable jl tb key dat"
  shows "table_wf (tb\<lparr>tb_rows := rows_after jl tb key dat\<rparr>)"
proof -
  have "rows_wf (tb_cols tb) (rows_after jl tb key dat)"
    using assms by (auto simp: table_wf_def rows_wf_def rows_after_def writable_def set_cells_fst set_cells_row_ok new_row_fst)
  moreover have "unique_ok (tb_cols tb) (rows_after jl tb key dat)"
    using assms unique_ok_other [of "tb_cols tb" "tb_rows tb" "lits_of jl dat"] unique_ok_new [of tb]
    by (auto simp: table_wf_def rows_after_def writable_def request_fits_def lits_fst_set)
  ultimately show ?thesis using assms(1) by (simp add: table_wf_def)
qed

lemma rows_after_found:
  assumes "json_ok jl" "table_wf tb" and "request_fits tb key dat"
  defines "found \<equiv> filter (row_matches (lits_of jl key)) (rows_after jl tb key dat)"
  shows "found \<noteq> []" "\<forall>r\<in>set found. row_matches (lits_of jl (key @ dat)) r"
    "filter (\<lambda>r. \<not> row_matches (lits_of jl key) r) (rows_after jl tb key dat) = filter (\<lambda>r. \<not> row_matches (lits_of jl key) r) (tb_rows tb)"
proof -
  let ?K = "lits_of jl key" and ?D = "lits_of jl dat"
  have fits: "list_all (field_fits tb) (key @ dat)" and dist: "distinct (map fst (key @ dat))"
    using assms(3) by (simp_all add: request_fits_def)
  have disj: "fst ` set ?K \<inter> fst ` set ?D = {}" using dist by (simp add: lits_fst_set)
  have cols: "fst ` set (key @ dat) \<subseteq> co_name ` set (tb_cols tb)"
    using fits field_fitsD(4) [OF assms(1), of tb] unfolding list_all_iff by blast
  have names: "fst ` set r = co_name ` set (tb_cols tb)" if "r \<in> set (tb_rows tb)" for r
  proof -
    have "map fst r = map co_name (tb_cols tb)" using assms(2) that by (simp add: table_wf_def rows_wf_def)
    then show ?thesis by (metis list.set_map)
  qed
  have dset: "row_matches ?D (set_cells ?D r)" if "r \<in> set (tb_rows tb)" for r
    by (rule row_matches_set) (use dist cols names [OF that] in \<open>auto simp: lits_fst_set\<close>)
  have "distinct (map co_name (tb_cols tb))" using assms(2) by (simp add: table_wf_def)
  then have new: "row_matches (lits_of jl (key @ dat)) (new_row tb (lits_of jl (key @ dat)))"
    by (intro new_row_matches) (use dist cols in \<open>simp_all add: lits_fst_set image_Un del: lits_of_append\<close>)
  have found: "found = (if has_row jl tb key then map (set_cells ?D) (filter (row_matches ?K) (tb_rows tb)) else [new_row tb (lits_of jl (key @ dat))])"
  proof (cases "has_row jl tb key")
    case True
    have "filter (row_matches ?K) (map (\<lambda>r. if row_matches ?K r then set_cells ?D r else r) rs) = map (set_cells ?D) (filter (row_matches ?K) rs)" for rs
      by (induction rs) (auto simp: row_matches_other [OF disj])
    with True show ?thesis by (simp add: found_def rows_after_def)
  next
    case False
    then have "filter (row_matches ?K) (tb_rows tb) = []" by (auto simp: has_row_def list_ex_iff filter_empty_conv)
    with False new show ?thesis by (simp add: found_def rows_after_def)
  qed
  show "found \<noteq> []" by (auto simp: found has_row_def list_ex_iff filter_empty_conv)
  show "\<forall>r\<in>set found. row_matches (lits_of jl (key @ dat)) r"
    using new dset by (auto simp: found row_matches_other [OF disj])
  have "filter (\<lambda>r. \<not> row_matches ?K r) (map (\<lambda>r. if row_matches ?K r then set_cells ?D r else r) rs) = filter (\<lambda>r. \<not> row_matches ?K r) rs" for rs
    by (induction rs) (auto simp: row_matches_other [OF disj])
  with new show "filter (\<lambda>r. \<not> row_matches ?K r) (rows_after jl tb key dat) = filter (\<lambda>r. \<not> row_matches ?K r) (tb_rows tb)"
    by (auto simp: rows_after_def)
qed

section \<open>Commands of the service on a table\<close>

lemma request_get [simp]:
  "json_object_object_get (j_request table key data cmd) ''table'' = J_string table"
  "json_object_object_get (j_request table key data cmd) ''key'' = key"
  "json_object_object_get (j_request table key data cmd) ''data'' = data"
  "json_object_object_get (j_request table key data cmd) ''cmd'' = J_string cmd"
  by (simp_all add: j_request_def json_object_object_get_def)

lemma request_table [simp]: "table_of jl (j_request table key data cmd) = Some table"
  by (simp add: table_of_def json_object_get_string_def)

text \<open>The database, the table and a request for it.\<close>

definition db_has :: "('d \<Rightarrow> store) \<Rightarrow> 'd dbs \<Rightarrow> string \<Rightarrow> table \<Rightarrow> bool" where
  "db_has tables s t tb \<longleftrightarrow> map_of (tables (db_state s)) t = Some tb"

lemma select_result:
  fixes s :: "'d dbs"
  assumes "json_codec jl" and "runs_tables sq tables" and "is_word t" and "db_has tables s t tb" and "list_all (field_fits tb) key"
  defines "sql \<equiv> select_sql (Some t) (Some ''*'') (where_text jl key) None None"
  shows "result sql sq s = sql_ok (filter (row_matches (lits_of jl key)) (tb_rows tb))"
    "tables (db_state (ran sql sq s)) = put_rows t (tb_rows tb) (tables (db_state s))"
proof -
  let ?st = "Q_select All_columns t (lits_of jl key) None"
  note fits = fields_fit [OF json_codecD(1) [OF assms(1)] assms(5)]
  have "reads_as sql ?st"
    using reads_select [OF assms(3) _ fits(1)] reads_select_all [OF assms(3), of jl] unfolding sql_def
    by (cases "key = []") (simp_all add: lits_of_def)
  then show "result sql sq s = sql_ok (filter (row_matches (lits_of jl key)) (tb_rows tb))"
    "tables (db_state (ran sql sq s)) = put_rows t (tb_rows tb) (tables (db_state s))"
    using exec_at [OF assms(2), of sql ?st s tb "filter (row_matches (lits_of jl key)) (tb_rows tb)" "tb_rows tb"] assms(4) fits(2)
    by (simp_all add: db_has_def stmt_table_def stmt_typed_def exec_on_def Let_def project_def)
qed

lemma select_command:
  fixes s :: "'d dbs"
  assumes "json_codec jl" and "runs_tables sq tables" and "is_word t" and "db_has tables s t tb" "table_wf tb"
    and "list_all (field_fits tb) key" "distinct (map fst key)"
  defines "found \<equiv> filter (row_matches (lits_of jl key)) (tb_rows tb)"
  shows "\<exists>s'. method_cmd jl sq (Some iface) (jl_print jl (j_request t (J_object key) (J_string ''*'') ''Select'')) s =
      Some (jl_print jl (reply_json 0 [] (map row_json found)), s') \<and> db_signals s' = db_signals s \<and> db_has tables s' t tb \<and>
      (\<forall>t'. t' \<noteq> t \<longrightarrow> map_of (tables (db_state s')) t' = map_of (tables (db_state s)) t')"
proof -
  let ?j = "j_request t (J_object key) (J_string ''*'') ''Select''" and ?sql = "select_sql (Some t) (Some ''*'') (where_text jl key) None None"
  note jl = json_codecD(1) [OF assms(1)]
  note fits = fields_fit [OF jl assms(6)]
  have ex: "result ?sql sq s = sql_ok found" "tables (db_state (ran ?sql sq s)) = put_rows t (tb_rows tb) (tables (db_state s))"
    using select_result [OF assms(1-4,6)] by (simp_all add: found_def)
  have wf: "rows_wf (tb_cols tb) found" "distinct (map co_name (tb_cols tb))" using assms(5) by (auto simp: table_wf_def rows_wf_def found_def)
  have "request_ok ?j ''Select'' key" by (simp add: request_ok_def)
  then have "run_cmd jl sq ?j s = Some ((jl_print jl (the_reply (result ?sql sq s)), changes_data ''Select''), ran ?sql sq s)"
    by (rule run_cmd_single) (simp_all add: command_sql_def json_object_get_string_def ex(1) sane_ok(1) [OF wf(1)])
  moreover have "jl_parse jl (jl_print jl ?j) = ?j"
    using assms(1) fits(3) [OF assms(7)] by (auto simp: json_codec_def)
  ultimately have "method_cmd jl sq (Some iface) (jl_print jl ?j) s =
      Some (jl_print jl (reply_json 0 [] (map row_json found)), ran ?sql sq s)"
    using method_cmd_at [OF jl, of ?j "jl_print jl ?j" sq s "result ?sql sq s" "changes_data ''Select''" "ran ?sql sq s" iface] sane_ok(1) [OF wf(1)]
    by (simp add: ex(1) reply_ok [OF wf] changes_data_def)
  moreover have "tb\<lparr>tb_rows := tb_rows tb\<rparr> = tb" by simp
  ultimately show ?thesis using ex(2) assms(4) by (auto simp: db_has_def put_rows_get)
qed

lemma update_command:
  fixes s :: "'d dbs"
  assumes "json_codec jl" and "runs_tables sq tables" and "is_word t" and "db_has tables s t tb" "table_wf tb"
    and "request_fits tb key dat" and "has_row jl tb key \<or> constraints_ok tb (new_row tb (lits_of jl (key @ dat)))"
  defines "req \<equiv> jl_print jl (j_request t (J_object key) (J_object dat) ''Update'')"
  shows "\<exists>s'. method_cmd jl sq (Some iface) req s = Some (jl_print jl (reply_json 0 [] []), s') \<and>
      db_signals s' = db_signals s @ [(iface, req)] \<and> db_has tables s' t (tb\<lparr>tb_rows := rows_after jl tb key dat\<rparr>) \<and>
      (\<forall>t'. t' \<noteq> t \<longrightarrow> map_of (tables (db_state s')) t' = map_of (tables (db_state s)) t')"
proof -
  let ?K = "lits_of jl key" and ?D = "lits_of jl dat"
  let ?j = "j_request t (J_object key) (J_object dat) ''Update''"
  let ?look = "select_sql (Some t) (Some ''*'') (where_text jl key) None (Some ''0,1'')"
  let ?ins = "insert_sql (Some t) (cols_text (key @ dat)) (vals_text jl (key @ dat))"
  let ?upd = "update_sql (Some t) (set_text jl dat) (where_text jl key)"
  let ?found = "take 1 (filter (row_matches ?K) (tb_rows tb))"
  note jl = json_codecD(1) [OF assms(1)]
  have ne: "key \<noteq> []" "dat \<noteq> []" and dist: "distinct (map fst key)" "distinct (map fst dat)" "distinct (map fst (key @ dat))"
    and ff: "list_all (field_fits tb) key" "list_all (field_fits tb) dat" "list_all (field_fits tb) (key @ dat)"
    using assms(6) by (auto simp: request_fits_def)
  note fk = fields_fit [OF jl ff(1)] and fd = fields_fit [OF jl ff(2)] and fa = fields_fit [OF jl ff(3)]
  have look: "result ?look sq s = sql_ok ?found" "tables (db_state (ran ?look sq s)) = put_rows t (tb_rows tb) (tables (db_state s))"
    using exec_at [OF assms(2) reads_lookup [OF assms(3) ne(1) fk(1)], of s tb ?found "tb_rows tb"] assms(4) fk(2)
    by (simp_all add: db_has_def stmt_table_def stmt_typed_def exec_on_def Let_def project_def)
  have here: "map_of (tables (db_state (ran ?look sq s))) t = Some tb"
    using look(2) assms(4) by (simp add: put_rows_get db_has_def)
  have sane: "sane_result (sql_ok ?found)"
    using assms(5) by (intro sane_ok(1) [of "tb_cols tb"]) (auto simp: table_wf_def rows_wf_def dest: in_set_takeD)
  have empty: "?found = [] \<longleftrightarrow> \<not> has_row jl tb key" by (auto simp: has_row_def list_ex_iff filter_empty_conv)
  define sql where "sql = (if sr_rows (result ?look sq s) = [] then ?ins else ?upd)"
  have chosen: "sql = (if has_row jl tb key then ?upd else ?ins)" using look(1) empty by (simp add: sql_def sql_ok_def)
  have stored: "result sql sq (ran ?look sq s) = sql_ok [] \<and>
    tables (db_state (ran sql sq (ran ?look sq s))) = put_rows t (rows_after jl tb key dat) (tables (db_state (ran ?look sq s)))"
  proof (cases "has_row jl tb key")
    case True
    have "exec_on (Q_update t ?D ?K) tb = (sql_ok [], rows_after jl tb key dat)"
      using True unique_ok_other [of "tb_cols tb" "tb_rows tb" ?D "row_matches ?K"] assms(5,6)
      by (simp add: exec_on_def Let_def rows_after_def table_wf_def request_fits_def lits_fst_set)
    with exec_at [OF assms(2) reads_update [OF assms(3) ne(1) fk(1) ne(2) fd(1)], of "ran ?look sq s" tb "[]" "rows_after jl tb key dat"]
      here fk(2) fd(2) dist True chosen
    show ?thesis
      by (simp add: stmt_table_def stmt_typed_def)
  next
    case False
    then have "exec_on (Q_insert t (lits_of jl (key @ dat))) tb = (sql_ok [], rows_after jl tb key dat)"
      using assms(7) by (simp add: exec_on_def rows_after_def Let_def)
    with exec_at [OF assms(2) reads_insert [OF assms(3) _ fa(1)], of "ran ?look sq s" tb "[]" "rows_after jl tb key dat"]
      here fa(2) dist ne False chosen
    show ?thesis
      by (simp add: stmt_table_def stmt_typed_def del: lits_of_append)
  qed
  have "request_ok ?j ''Update'' key" by (simp add: request_ok_def json_fields_def)
  then have "run_cmd jl sq ?j s = Some ((jl_print jl (the_reply (result sql sq (ran ?look sq s))), True), ran sql sq (ran ?look sq s))"
  proof (rule run_cmd_update [OF jl])
    show "sql = (if sr_rows (result ?look sq s) = [] then insert_sql (table_of jl ?j) (cols_text (key @ dat)) (vals_text jl (key @ dat))
        else update_sql (table_of jl ?j) (set_text jl dat) (where_text jl key))" by (simp add: sql_def)
    show "sane_result (result ?look sq s)" unfolding look(1) by (rule sane)
  qed (simp_all add: json_fields_def stored sane_ok(2))
  moreover have "jl_parse jl req = ?j"
    using assms(1) fk(3) [OF dist(1)] fd(3) [OF dist(2)] by (auto simp: json_codec_def req_def)
  ultimately have "method_cmd jl sq (Some iface) req s = Some (jl_print jl (reply_json 0 [] []),
      (ran sql sq (ran ?look sq s))\<lparr>db_signals := db_signals s @ [(iface, req)]\<rparr>)"
    using method_cmd_at [OF jl, of ?j req sq s "sql_ok []" True "ran sql sq (ran ?look sq s)" iface] sane_ok(2) stored
    by (simp add: reply_ok [of "[]" "[]", simplified rows_wf_def, simplified]) (simp add: sql_ok_def)
  with stored look(2) assms(4) show ?thesis by (auto simp: db_has_def put_rows_get)
qed

section \<open>Settings through the whole system\<close>

lemmas client_defs = select_cmd_def update_cmd_def delete_cmd_def insert_cmd_def

text \<open>
  Property C21. A setting that is written is what is read, through the whole system.  When a
  client updates a table of the database service by key (the row exists, or a new one can be
  added), the update is reported as a success; a query with the same key then returns at least
  one row, and every row it returns has the values of the key and of the data; all rows with
  another key and all other tables are as before, and the table is well formed again.  Every
  program with a registration for that interface has its functions called once with the text of
  the request, in the order of their registration.  Values pass through JSON, D-Bus, SQL text,
  typed columns and the row callback on the way, so they are texts without a quote, or 32-bit
  integers in columns whose names start with \<^verbatim>\<open>i\<close>.
\<close>

theorem settings_roundtrip:
  fixes s :: "'d dbs"
  assumes "json_codec jl" and "runs_tables sq tables" and "iface \<in> set db_interfaces"
    and "\<not> cl_mutex w" "cl_peer w = Some s" and "is_word t" "db_has tables s t tb" "table_wf tb"
    and "request_fits tb key dat" and "writable jl tb key dat" and "represents g regs"
  shows "\<exists>w1 w2 s2 rows tb2 g'.
    update_cmd jl (db_bus jl sq) t key (J_object dat) iface w = Some (Some (jl_print jl (reply_json 0 [] [])), w1) \<and>
    select_cmd jl (db_bus jl sq) t key iface w1 = Some (Some (jl_print jl (reply_json 0 [] rows)), w2) \<and>
    rows \<noteq> [] \<and> (\<forall>j\<in>set rows. \<forall>(k, v)\<in>set (key @ dat). json_object_object_get j k = v) \<and>
    \<not> cl_mutex w2 \<and> cl_peer w2 = Some s2 \<and> db_has tables s2 t tb2 \<and> table_wf tb2 \<and>
    filter (\<lambda>r. \<not> row_matches (lits_of jl key) r) (tb_rows tb2) = filter (\<lambda>r. \<not> row_matches (lits_of jl key) r) (tb_rows tb) \<and>
    (\<forall>t'. t' \<noteq> t \<longrightarrow> map_of (tables (db_state s2)) t' = map_of (tables (db_state s)) t') \<and>
    db_signals s2 = db_signals s @ [(iface, jl_print jl (j_request t (J_object key) (J_object dat) ''Update''))] \<and>
    delivers iface DS_SIGNAL_DATACHANGED (jl_print jl (j_request t (J_object key) (J_object dat) ''Update'')) g = Some g' \<and>
    sg_calls g' = sg_calls g @ due_calls iface DS_SIGNAL_DATACHANGED (jl_print jl (j_request t (J_object key) (J_object dat) ''Update'')) regs"
proof -
  let ?req = "jl_print jl (j_request t (J_object key) (J_object dat) ''Update'')"
  let ?tb = "tb\<lparr>tb_rows := rows_after jl tb key dat\<rparr>"
  let ?rows = "map row_json (filter (row_matches (lits_of jl key)) (tb_rows ?tb))"
  note jl = json_codecD(1) [OF assms(1)]
  note found = rows_after_found [OF jl assms(8,9)]
  have fits: "list_all (field_fits tb) (key @ dat)" "list_all (field_fits ?tb) key" "distinct (map fst key)"
    using assms(9) by (auto simp: request_fits_def field_fits_def)
  have wf: "table_wf ?tb" by (rule rows_after_wf [OF assms(8-10)])
  obtain s1 where s1: "method_cmd jl sq (Some iface) ?req s = Some (jl_print jl (reply_json 0 [] []), s1)"
    "db_signals s1 = db_signals s @ [(iface, ?req)]" "db_has tables s1 t ?tb"
    "\<forall>t'. t' \<noteq> t \<longrightarrow> map_of (tables (db_state s1)) t' = map_of (tables (db_state s)) t'"
    using update_command [OF assms(1,2,6-9), of iface] assms(10) by (auto simp: writable_def)
  let ?w1 = "w\<lparr>dbus_conn_flag := True, cl_peer := Some s1\<rparr>"
  have c1: "update_cmd jl (db_bus jl sq) t key (J_object dat) iface w = Some (Some (jl_print jl (reply_json 0 [] [])), ?w1)"
    unfolding client_defs by (rule send_cmd_answered [OF assms(1,4,5,3) s1(1)])
  obtain s2 where s2: "method_cmd jl sq (Some iface) (jl_print jl (j_request t (J_object key) (J_string ''*'') ''Select'')) s1 =
      Some (jl_print jl (reply_json 0 [] ?rows), s2)" "db_signals s2 = db_signals s1" "db_has tables s2 t ?tb"
    "\<forall>t'. t' \<noteq> t \<longrightarrow> map_of (tables (db_state s2)) t' = map_of (tables (db_state s1)) t'"
    using select_command [OF assms(1,2,6) s1(3) wf fits(2,3)] by blast
  let ?w2 = "?w1\<lparr>dbus_conn_flag := True, cl_peer := Some s2\<rparr>"
  have c2: "select_cmd jl (db_bus jl sq) t key iface ?w1 = Some (Some (jl_print jl (reply_json 0 [] ?rows)), ?w2)"
    unfolding client_defs by (rule send_cmd_answered [OF assms(1) _ _ assms(3) s2(1)]) (simp_all add: assms(4))
  have vals: "\<forall>j\<in>set ?rows. \<forall>(k, v)\<in>set (key @ dat). json_object_object_get j k = v"
    using found(2) row_shows_fields [OF jl fits(1)] by (fastforce simp del: lits_of_append)
  from sreg.notify_calls [OF assms(11), of iface DS_SIGNAL_DATACHANGED ?req]
  obtain g' where g': "delivers iface DS_SIGNAL_DATACHANGED ?req g = Some g'"
    "sg_calls g' = sg_calls g @ due_calls iface DS_SIGNAL_DATACHANGED ?req regs" by auto
  show ?thesis
    using c1 c2 found(1,3) vals wf s1 s2 g' assms(4)
    by (intro exI [of _ ?w1] exI [of _ ?w2] exI [of _ s2] exI [of _ ?rows] exI [of _ ?tb] exI [of _ g'] conjI) simp_all
qed

text \<open>The table of the network powers as \<^verbatim>\<open>network_init\<close> makes it, and a client of a service with it.\<close>

definition power_table :: table where
  "power_table = \<lparr>tb_cols =
      [\<lparr>co_name = ''id'', co_type = C_int, co_notnull = False, co_unique = True, co_auto = True, co_default = None\<rparr>,
       \<lparr>co_name = ''sType'', co_type = C_text, co_notnull = True, co_unique = True, co_auto = False, co_default = None\<rparr>,
       \<lparr>co_name = ''iPower'', co_type = C_int, co_notnull = False, co_unique = False, co_auto = False, co_default = Some ''0''\<rparr>],
     tb_rows = [[(''id'', Some ''1''), (''sType'', Some ''wifi''), (''iPower'', Some ''0'')],
       [(''id'', Some ''2''), (''sType'', Some ''ethernet''), (''iPower'', Some ''1'')]]\<rparr>"

lemma power_table_initial:
  "exec_script (map step_sql (filter (\<lambda>st. step_table st = TABLE_NETWORK_POWER) network_tables_1)) [] =
     ([], [(TABLE_NETWORK_POWER, power_table)])"
  by code_simp

definition power_world :: "store dbs option cl" where
  "power_world = \<lparr>cl_mutex = False, dbus_conn_flag = False,
     cl_peer = Some \<lparr>db_state = [(TABLE_NETWORK_POWER, power_table)], db_ran = [], db_signals = []\<rparr>\<rparr>"

lemma power_table_wf: "table_wf power_table"
  by (simp add: table_wf_def rows_wf_def power_table_def unique_ok_def row_ok_def)

lemma power_request: "request_fits power_table [(''sType'', J_string ''wifi'')] [(''iPower'', J_int 1)]"
  by (simp add: request_fits_def field_fits_def power_table_def column_word_def is_word_def word_char_def int32_ok_def)

lemma power_writable: "writable jl power_table [(''sType'', J_string ''wifi'')] dat"
  by (simp add: writable_def has_row_def row_matches_def power_table_def lits_of_def lit_of_def is_json_int_def json_object_get_string_def)

theorem settings_roundtrip_witness:
  "\<exists>r w1 w2 rows. dbserver_wifi_power_set numbered_json (db_bus numbered_json table_engine) 1 power_world = Some (r, w1) \<and>
     dbserver_wifi_power_get numbered_json (db_bus numbered_json table_engine) w1 =
       Some (Some (jl_print numbered_json (reply_json 0 [] rows)), w2) \<and>
     rows \<noteq> [] \<and> (\<forall>j\<in>set rows. json_object_object_get j ''iPower'' = J_int 1)"
proof -
  have t: "is_word TABLE_NETWORK_POWER" "DBSERVER_NET_INTERFACE \<in> set db_interfaces" "\<not> cl_mutex power_world"
    by (simp_all add: is_word_def word_char_def TABLE_NETWORK_POWER_def db_interfaces_def power_world_def)
  let ?s = "\<lparr>db_state = [(TABLE_NETWORK_POWER, power_table)], db_ran = [], db_signals = []\<rparr>"
  have s: "cl_peer power_world = Some ?s" "db_has id ?s TABLE_NETWORK_POWER power_table"
    by (simp_all add: power_world_def db_has_def)
  let ?bus = "db_bus numbered_json table_engine" and ?key = "[(''sType'', J_string ''wifi'')]" and ?dat = "[(''iPower'', J_int 1)]"
  obtain w1 w2 rows where
    u: "update_cmd numbered_json ?bus TABLE_NETWORK_POWER ?key (J_object ?dat) DBSERVER_NET_INTERFACE power_world =
      Some (Some (jl_print numbered_json (reply_json 0 [] [])), w1)"
    and g: "select_cmd numbered_json ?bus TABLE_NETWORK_POWER ?key DBSERVER_NET_INTERFACE w1 =
      Some (Some (jl_print numbered_json (reply_json 0 [] rows)), w2)"
    and r: "rows \<noteq> []" "\<forall>j\<in>set rows. \<forall>(k, v)\<in>set (?key @ ?dat). json_object_object_get j k = v"
    using settings_roundtrip [OF numbered_json_codec table_engine_runs t(2,3) s(1) t(1) s(2) power_table_wf power_request power_writable represents_start]
    by (elim exE conjE) (rule that)
  from r(2) have "\<forall>j\<in>set rows. json_object_object_get j ''iPower'' = J_int 1" by auto
  with u g r(1) show ?thesis
    unfolding dbserver_wifi_power_set_def dbserver_wifi_power_get_def dbserver_network_power_set_def dbserver_network_power_get_def
      opt_s_def option.case by blast
qed

section \<open>Rows that end the service\<close>

lemma callback_rows_none: "r \<in> set rows \<Longrightarrow> callback_row r = None \<Longrightarrow> callback_rows rows = None"
  by (induction rows) (auto split: bind_split)

lemma send_cmd_lost:
  assumes "\<not> cl_mutex w" and "cl_peer w = Some s" and "interface \<in> set db_interfaces"
    and "method_cmd jl sq (Some interface) (jl_print jl j) s = None"
  shows "send_cmd jl (db_bus jl sq) j interface w = Some (None, w\<lparr>dbus_conn_flag := True, cl_peer := None\<rparr>)"
  using assms
  by (cases w) (simp add: send_cmd_def dbserver_cmd_def DBSERVER_DBUSSEND_def dbus_mutex_lock_def get_dbus_conn_def db_bus_def
      db_bus_call_def dbus_mutex_unlock_def)

text \<open>
  Property C30. A column for integers without a default value can end the database service.  When
  an update by key finds no row and leaves such a column out, a row with NULL in it is added and
  the update is reported as a success; the next query that returns this row makes the row
  callback convert the NULL: the service is gone, and the client gets NULL for an answer.
\<close>

theorem null_integer_kills_service:
  fixes s :: "'d dbs"
  assumes "json_codec jl" and "runs_tables sq tables" and "iface \<in> set db_interfaces"
    and "\<not> cl_mutex w" "cl_peer w = Some s" and "is_word t" "db_has tables s t tb" "table_wf tb"
    and "request_fits tb key dat" and "\<not> has_row jl tb key" "constraints_ok tb (new_row tb (lits_of jl (key @ dat)))"
    and "c \<in> set (tb_cols tb)" "take 1 (co_name c) = ''i''" "co_default c = None" "\<not> co_auto c" "co_name c \<notin> fst ` set (key @ dat)"
  shows "\<exists>w1 w2. update_cmd jl (db_bus jl sq) t key (J_object dat) iface w = Some (Some (jl_print jl (reply_json 0 [] [])), w1) \<and>
    select_cmd jl (db_bus jl sq) t key iface w1 = Some (None, w2) \<and> cl_peer w2 = None"
proof -
  let ?tb = "tb\<lparr>tb_rows := rows_after jl tb key dat\<rparr>" and ?r = "new_row tb (lits_of jl (key @ dat))"
  let ?j = "j_request t (J_object key) (J_string ''*'') ''Select''"
  let ?sql = "select_sql (Some t) (Some ''*'') (where_text jl key) None None"
  note jl = json_codecD(1) [OF assms(1)]
  have fits: "list_all (field_fits ?tb) key" "distinct (map fst key)" using assms(9) by (auto simp: request_fits_def)
  obtain s1 where s1: "method_cmd jl sq (Some iface) (jl_print jl (j_request t (J_object key) (J_object dat) ''Update'')) s =
      Some (jl_print jl (reply_json 0 [] []), s1)" "db_has tables s1 t ?tb"
    using update_command [OF assms(1,2,6-9), of iface] assms(11) by auto
  let ?w1 = "w\<lparr>dbus_conn_flag := True, cl_peer := Some s1\<rparr>"
  have c1: "update_cmd jl (db_bus jl sq) t key (J_object dat) iface w = Some (Some (jl_print jl (reply_json 0 [] [])), ?w1)"
    unfolding client_defs by (rule send_cmd_answered [OF assms(1,4,5,3) s1(1)])
  have "map_of (lits_of jl (key @ dat)) (co_name c) = None"
    unfolding map_of_eq_None_iff lits_fst_set by (rule assms(16))
  then have "(co_name c, None) \<in> set ?r" unfolding new_row_def using assms(12,14,15) by (force simp del: lits_of_append)
  from null_integer_crashes [OF this assms(13)] have crash: "callback_row ?r = None" .
  have "?r \<in> set (rows_after jl tb key dat)" using assms(10) by (simp add: rows_after_def del: lits_of_append)
  moreover have "row_matches (lits_of jl key) ?r"
  proof -
    have "fst ` set (lits_of jl (key @ dat)) \<subseteq> co_name ` set (tb_cols tb)"
      using assms(9) field_fitsD(4) [OF jl, of tb] unfolding lits_fst_set request_fits_def list_all_iff by blast
    moreover have "distinct (map co_name (tb_cols tb))" "distinct (map fst (lits_of jl (key @ dat)))"
      using assms(8,9) by (simp_all add: table_wf_def request_fits_def)
    ultimately have "row_matches (lits_of jl (key @ dat)) ?r" by (intro new_row_matches)
    then show ?thesis by simp
  qed
  ultimately have "callback_rows (filter (row_matches (lits_of jl key)) (tb_rows ?tb)) = None"
    by (intro callback_rows_none [OF _ crash]) simp
  moreover have "result ?sql sq s1 = sql_ok (filter (row_matches (lits_of jl key)) (tb_rows ?tb))"
    by (rule select_result(1) [OF assms(1,2,6) s1(2) fits(1)])
  ultimately have "rkdb_sql jl sq ?sql s1 = None"
    by (auto simp: rkdb_sql_def sql_ok_def split: prod.split)
  then have "run_cmd jl sq ?j s1 = None"
    by (simp add: run_cmd_def cmd_select_def json_object_get_string_def json_fields_def rkdb_select_def)
  moreover have "jl_parse jl (jl_print jl ?j) = ?j"
    using assms(1) fields_fit(3) [OF jl fits(1)] fits(2) by (auto simp: json_codec_def)
  ultimately have "method_cmd jl sq (Some iface) (jl_print jl ?j) s1 = None" by (simp add: method_cmd_def)
  from send_cmd_lost [OF _ _ assms(3) this, of ?w1] c1 assms(4) show ?thesis by (simp add: client_defs)
qed

text \<open>The table of the overlay texts as \<^verbatim>\<open>event_init\<close> makes it; its column \<^verbatim>\<open>iOrder\<close> has no default.\<close>

definition overlay_table :: table where
  "overlay_table = \<lparr>tb_cols =
      [\<lparr>co_name = ''id'', co_type = C_int, co_notnull = False, co_unique = True, co_auto = True, co_default = None\<rparr>,
       \<lparr>co_name = ''iEnabled'', co_type = C_int, co_notnull = False, co_unique = False, co_auto = False, co_default = Some ''0''\<rparr>,
       \<lparr>co_name = ''sName'', co_type = C_text, co_notnull = False, co_unique = False, co_auto = False, co_default = None\<rparr>,
       \<lparr>co_name = ''sInfo'', co_type = C_text, co_notnull = False, co_unique = False, co_auto = False, co_default = None\<rparr>,
       \<lparr>co_name = ''iOrder'', co_type = C_int, co_notnull = False, co_unique = False, co_auto = False, co_default = None\<rparr>],
     tb_rows =
      [[(''id'', Some ''0''), (''iEnabled'', Some ''0''), (''sName'', Some ''deviceNum''), (''sInfo'', Some []), (''iOrder'', Some ''0'')],
       [(''id'', Some ''1''), (''iEnabled'', Some ''0''), (''sName'', Some ''snapTime''), (''sInfo'', Some []), (''iOrder'', Some ''1'')],
       [(''id'', Some ''2''), (''iEnabled'', Some ''0''), (''sName'', Some ''positonInfo''), (''sInfo'', Some []), (''iOrder'', Some ''2'')]]\<rparr>"

lemma overlay_table_initial:
  "exec_script (map step_sql (filter (\<lambda>st. step_table st = TABLE_SMART_COVER_OVERLAY) event_tables_4)) [] =
     ([], [(TABLE_SMART_COVER_OVERLAY, overlay_table)])"
  by code_simp

lemma overlay_table_wf: "table_wf overlay_table"
  by (simp add: table_wf_def rows_wf_def overlay_table_def unique_ok_def row_ok_def)

lemma overlay_request: "request_fits overlay_table [(''id'', J_int 9)] [(''sName'', J_string ''lens'')]"
  by (simp add: request_fits_def field_fits_def overlay_table_def column_word_def is_word_def word_char_def int32_ok_def)

lemma overlay_new_row:
  "\<not> has_row numbered_json overlay_table [(''id'', J_int 9)]"
  "constraints_ok overlay_table (new_row overlay_table (lits_of numbered_json ([(''id'', J_int 9)] @ [(''sName'', J_string ''lens'')])))"
proof -
  have "char_of (57::nat) = CHR ''9''" by code_simp
  then have "lit_of numbered_json (J_int 9) = (C_int, ''9'')" "lit_of numbered_json (J_string ''lens'') = (C_text, ''lens'')"
    by (simp_all add: lit_of_def is_json_int_def numbered_json_def json_object_get_string_def dec_of_int_def dec_of_nat.simps)
  then show "\<not> has_row numbered_json overlay_table [(''id'', J_int 9)]"
    "constraints_ok overlay_table (new_row overlay_table (lits_of numbered_json ([(''id'', J_int 9)] @ [(''sName'', J_string ''lens'')])))"
    by (simp_all add: has_row_def row_matches_def lits_of_def overlay_table_def constraints_ok_def new_row_def)
qed

theorem null_integer_kills_service_witness:
  "\<exists>r w1 w2. update_cmd numbered_json (db_bus numbered_json table_engine) TABLE_SMART_COVER_OVERLAY [(''id'', J_int 9)]
      (J_object [(''sName'', J_string ''lens'')]) DBSERVER_EVENT_INTERFACE
      \<lparr>cl_mutex = False, dbus_conn_flag = False,
       cl_peer = Some \<lparr>db_state = [(TABLE_SMART_COVER_OVERLAY, overlay_table)], db_ran = [], db_signals = []\<rparr>\<rparr> = Some (Some r, w1) \<and>
    select_cmd numbered_json (db_bus numbered_json table_engine) TABLE_SMART_COVER_OVERLAY [(''id'', J_int 9)] DBSERVER_EVENT_INTERFACE w1 =
      Some (None, w2) \<and> cl_peer w2 = None"
proof -
  let ?s = "\<lparr>db_state = [(TABLE_SMART_COVER_OVERLAY, overlay_table)], db_ran = [], db_signals = []\<rparr>"
  let ?w = "\<lparr>cl_mutex = False, dbus_conn_flag = False, cl_peer = Some ?s\<rparr>"
  have a: "DBSERVER_EVENT_INTERFACE \<in> set db_interfaces" "\<not> cl_mutex ?w" "cl_peer ?w = Some ?s" "is_word TABLE_SMART_COVER_OVERLAY"
    "db_has id ?s TABLE_SMART_COVER_OVERLAY overlay_table"
    by (simp_all add: db_interfaces_def is_word_def word_char_def TABLE_SMART_COVER_OVERLAY_def db_has_def)
  let ?c = "tb_cols overlay_table ! 4"
  have c: "?c \<in> set (tb_cols overlay_table)" "take 1 (co_name ?c) = ''i''" "co_default ?c = None" "\<not> co_auto ?c"
    "co_name ?c \<notin> fst ` set ([(''id'', J_int 9)] @ [(''sName'', J_string ''lens'')])"
    by (simp_all add: overlay_table_def)
  show ?thesis
    using null_integer_kills_service [OF numbered_json_codec table_engine_runs a overlay_table_wf overlay_request overlay_new_row c] by blast
qed

section \<open>Deletions\<close>

lemma delete_command:
  fixes s :: "'d dbs"
  assumes "json_codec jl" and "runs_tables sq tables" and "is_word t" and "db_has tables s t tb"
    and "list_all (field_fits tb) key" "distinct (map fst key)"
  defines "req \<equiv> jl_print jl (j_request t (J_object key) (J_object []) ''Delete'')"
  shows "\<exists>s'. method_cmd jl sq (Some iface) req s = Some (jl_print jl (reply_json 0 [] []), s') \<and>
      db_signals s' = db_signals s @ [(iface, req)] \<and>
      db_has tables s' t (tb\<lparr>tb_rows := filter (\<lambda>r. \<not> row_matches (lits_of jl key) r) (tb_rows tb)\<rparr>) \<and>
      (\<forall>t'. t' \<noteq> t \<longrightarrow> map_of (tables (db_state s')) t' = map_of (tables (db_state s)) t')"
proof -
  let ?j = "j_request t (J_object key) (J_object []) ''Delete''" and ?sql = "delete_sql (Some t) (where_text jl key)"
  let ?st = "Q_delete t (lits_of jl key)" and ?rest = "filter (\<lambda>r. \<not> row_matches (lits_of jl key) r) (tb_rows tb)"
  note jl = json_codecD(1) [OF assms(1)]
  note fits = fields_fit [OF jl assms(5)]
  have "reads_as ?sql ?st"
    using reads_delete [OF assms(3) _ fits(1)] reads_delete_all [OF assms(3), of jl] by (cases "key = []") (simp_all add: lits_of_def)
  then have ex: "result ?sql sq s = sql_ok []" "tables (db_state (ran ?sql sq s)) = put_rows t ?rest (tables (db_state s))"
    using exec_at [OF assms(2), of ?sql ?st s tb "[]" ?rest] assms(4) fits(2)
    by (simp_all add: db_has_def stmt_table_def stmt_typed_def exec_on_def Let_def)
  have "request_ok ?j ''Delete'' key" by (simp add: request_ok_def)
  then have "run_cmd jl sq ?j s = Some ((jl_print jl (the_reply (result ?sql sq s)), changes_data ''Delete''), ran ?sql sq s)"
    by (rule run_cmd_single) (simp_all add: command_sql_def ex(1) sane_ok(2))
  moreover have "jl_parse jl req = ?j"
    using assms(1) fits(3) [OF assms(6)] by (auto simp: json_codec_def req_def flat_row_def)
  ultimately have "method_cmd jl sq (Some iface) req s = Some (jl_print jl (reply_json 0 [] []),
      (ran ?sql sq s)\<lparr>db_signals := db_signals s @ [(iface, req)]\<rparr>)"
    using method_cmd_at [OF jl, of ?j req sq s "sql_ok []" True "ran ?sql sq s" iface] sane_ok(2)
    by (simp add: ex(1) changes_data_def reply_ok [of "[]" "[]", simplified rows_wf_def, simplified]) (simp add: sql_ok_def)
  with ex(2) assms(4) show ?thesis by (auto simp: db_has_def put_rows_get)
qed

text \<open>The columns of the users' table, as \<^verbatim>\<open>system_init\<close> makes it.\<close>

definition user_cols :: "column list" where
  "user_cols =
      [\<lparr>co_name = ''id'', co_type = C_int, co_notnull = False, co_unique = True, co_auto = True, co_default = None\<rparr>,
       \<lparr>co_name = ''sUserName'', co_type = C_text, co_notnull = False, co_unique = True, co_auto = False, co_default = None\<rparr>,
       \<lparr>co_name = ''sPassword'', co_type = C_text, co_notnull = False, co_unique = False, co_auto = False, co_default = None\<rparr>,
       \<lparr>co_name = ''iFixed'', co_type = C_int, co_notnull = False, co_unique = False, co_auto = False, co_default = Some ''0''\<rparr>,
       \<lparr>co_name = ''iUserLevel'', co_type = C_int, co_notnull = False, co_unique = False, co_auto = False, co_default = Some ''1''\<rparr>,
       \<lparr>co_name = ''iAuthLevel'', co_type = C_int, co_notnull = False, co_unique = False, co_auto = False, co_default = Some ''1''\<rparr>]"

definition admin_row :: row where
  "admin_row = [(''id'', Some ''0''), (''sUserName'', Some ''admin''), (''sPassword'', Some ''YWRtaW4=''), (''iFixed'', Some ''1''),
     (''iUserLevel'', Some ''0''), (''iAuthLevel'', Some ''1'')]"

lemma user_table_initial:
  "exec_script (map step_sql (filter (\<lambda>st. step_table st = TABLE_SYSTEM_USER) system_tables_5)) [] =
     ([], [(TABLE_SYSTEM_USER, \<lparr>tb_cols = user_cols, tb_rows = [admin_row]\<rparr>)])"
  by code_simp

text \<open>
  Which users a deletion by name deletes.  With a name (without a quote) exactly the
  rows of that user go, every other row and table stays as it is, and the change is announced.
  With NULL for the name the request has no key: every user is deleted, the administrator
  with \<^verbatim>\<open>iFixed\<close> set too, and this is reported as a success.
\<close>

theorem user_deletion:
  fixes s :: "'d dbs"
  assumes "json_codec jl" and "runs_tables sq tables" and "\<not> cl_mutex w" "cl_peer w = Some s"
    and "db_has tables s TABLE_SYSTEM_USER tb" "tb_cols tb = user_cols" and "\<forall>u\<in>set_option name. chr_sq \<notin> set u \<and> chr_nul \<notin> set u"
  shows "\<exists>w1 s1. dbserver_system_user_del_username jl (db_bus jl sq) name w = Some (Some (jl_print jl (reply_json 0 [] [])), w1) \<and>
    cl_peer w1 = Some s1 \<and> length (db_signals s1) = Suc (length (db_signals s)) \<and>
    db_has tables s1 TABLE_SYSTEM_USER (tb\<lparr>tb_rows :=
      (case name of Some u \<Rightarrow> filter (\<lambda>r. map_of r ''sUserName'' \<noteq> Some (Some u)) (tb_rows tb) | None \<Rightarrow> [])\<rparr>) \<and>
    (\<forall>t. t \<noteq> TABLE_SYSTEM_USER \<longrightarrow> map_of (tables (db_state s1)) t = map_of (tables (db_state s)) t)"
proof -
  let ?key = "opt_s ''sUserName'' name"
  have fits: "list_all (field_fits tb) ?key" "distinct (map fst ?key)"
    using assms(6,7) by (auto simp: opt_s_def field_fits_def user_cols_def column_word_def is_word_def word_char_def split: option.split)
  have t: "is_word TABLE_SYSTEM_USER" "DBSERVER_SYSTEM_INTERFACE \<in> set db_interfaces"
    by (simp_all add: is_word_def word_char_def TABLE_SYSTEM_USER_def db_interfaces_def)
  have rest: "filter (\<lambda>r. \<not> row_matches (lits_of jl ?key) r) rs =
      (case name of Some u \<Rightarrow> filter (\<lambda>r. map_of r ''sUserName'' \<noteq> Some (Some u)) rs | None \<Rightarrow> [])" for rs
    by (simp add: opt_s_def lits_of_def lit_of_def row_matches_def is_json_int_def json_object_get_string_def split: option.split)
  let ?req = "jl_print jl (j_request TABLE_SYSTEM_USER (J_object ?key) (J_object []) ''Delete'')"
  obtain s1 where s1: "method_cmd jl sq (Some DBSERVER_SYSTEM_INTERFACE) ?req s = Some (jl_print jl (reply_json 0 [] []), s1)"
    "db_signals s1 = db_signals s @ [(DBSERVER_SYSTEM_INTERFACE, ?req)]"
    "db_has tables s1 TABLE_SYSTEM_USER (tb\<lparr>tb_rows := filter (\<lambda>r. \<not> row_matches (lits_of jl ?key) r) (tb_rows tb)\<rparr>)"
    "\<forall>t'. t' \<noteq> TABLE_SYSTEM_USER \<longrightarrow> map_of (tables (db_state s1)) t' = map_of (tables (db_state s)) t'"
    using delete_command [OF assms(1,2) t(1) assms(5) fits] by blast
  from send_cmd_answered [OF assms(1,3,4) t(2) s1(1)] s1(2-4) show ?thesis
    by (simp add: dbserver_system_user_del_username_def client_defs rest)
qed

theorem user_deletion_witness:
  "\<exists>r w1 s1. dbserver_system_user_del_username numbered_json (db_bus numbered_json table_engine) None
      \<lparr>cl_mutex = False, dbus_conn_flag = False, cl_peer = Some \<lparr>db_state =
        [(TABLE_SYSTEM_USER, \<lparr>tb_cols = user_cols, tb_rows = [admin_row]\<rparr>)], db_ran = [], db_signals = []\<rparr>\<rparr> = Some (Some r, w1) \<and>
    cl_peer w1 = Some s1 \<and> map_of (db_state s1) TABLE_SYSTEM_USER = Some \<lparr>tb_cols = user_cols, tb_rows = []\<rparr>"
proof -
  let ?tb = "\<lparr>tb_cols = user_cols, tb_rows = [admin_row]\<rparr>"
  let ?s = "\<lparr>db_state = [(TABLE_SYSTEM_USER, ?tb)], db_ran = [], db_signals = []\<rparr>"
  let ?w = "\<lparr>cl_mutex = False, dbus_conn_flag = False, cl_peer = Some ?s\<rparr>"
  have "\<not> cl_mutex ?w" "cl_peer ?w = Some ?s" "db_has id ?s TABLE_SYSTEM_USER ?tb" "tb_cols ?tb = user_cols"
    by (simp_all add: db_has_def)
  from user_deletion [OF numbered_json_codec table_engine_runs this, of None]
  show ?thesis by (auto simp: db_has_def)
qed

end
