(* ===== verification/DbSchedule.thy ===== *)
theory DbSchedule
  imports DbSettings
begin

text \<open>
  Weekly schedules: what the client library stores of the schedule of an event, and where it
  stores too much.
\<close>

section \<open>What is stored of a schedule\<close>

text \<open>
  A period the code can store: its type fits its field, and its times, fractions of a day, have minutes
  that fit an \<^verbatim>\<open>int\<close>.
\<close>

definition time_fits :: "rat \<Rightarrow> bool" where
  "time_fits x \<longleftrightarrow> \<bar>24 * 60 * x\<bar> \<le> 2 ^ 31 - 1"

definition period_fits :: "jsonlib \<Rightarrow> (json \<Rightarrow> rat) \<Rightarrow> json \<Rightarrow> bool" where
  "period_fits jl dbl period_js \<longleftrightarrow>
     (case json_object_get_string jl (json_object_object_get period_js ''type'') of
        None \<Rightarrow> True | Some t \<Rightarrow> length (cstr t) < TYPE_SIZE) \<and>
     time_fits (dbl (json_object_object_get period_js ''start'')) \<and> time_fits (dbl (json_object_object_get period_js ''end''))"

text \<open>
  The minute of a day nearest to a time, the one further from zero between two; and the entry of
  the structure that a period leaves.
\<close>

definition nearest_minute :: "rat \<Rightarrow> int \<Rightarrow> bool" where
  "nearest_minute x m \<longleftrightarrow> \<bar>24 * 60 * x - of_int m\<bar> \<le> 1 / 2 \<and>
     (\<bar>24 * 60 * x - of_int m\<bar> = 1 / 2 \<longrightarrow> \<bar>24 * 60 * x\<bar> < \<bar>of_int m\<bar>)"

definition period_stored :: "jsonlib \<Rightarrow> (json \<Rightarrow> rat) \<Rightarrow> json \<Rightarrow> period \<Rightarrow> period \<Rightarrow> bool" where
  "period_stored jl dbl period_js old new \<longleftrightarrow>
     nearest_minute (dbl (json_object_object_get period_js ''start'')) (start_minute new) \<and>
     nearest_minute (dbl (json_object_object_get period_js ''end'')) (end_minute new) \<and>
     ptype new = (case json_object_get_string jl (json_object_object_get period_js ''type'') of
        None \<Rightarrow> ptype old | Some t \<Rightarrow> cstr t)"

definition period_after :: "jsonlib \<Rightarrow> (json \<Rightarrow> rat) \<Rightarrow> json \<Rightarrow> period \<Rightarrow> period" where
  "period_after jl dbl period_js p =
     \<lparr>start_minute = c_round (dbl (json_object_object_get period_js ''start'') * 1440),
      end_minute = c_round (dbl (json_object_object_get period_js ''end'') * 1440),
      ptype = (case json_object_get_string jl (json_object_object_get period_js ''type'') of None \<Rightarrow> ptype p | Some t \<Rightarrow> cstr t)\<rparr>"

lemma near_half:
  fixes y f :: rat
  assumes "f \<le> y + 1 / 2" and "y - 1 / 2 < f" and "0 \<le> y"
  shows "\<bar>y - f\<bar> \<le> 1 / 2" and "\<bar>y - f\<bar> = 1 / 2 \<longrightarrow> \<bar>y\<bar> < \<bar>f\<bar>"
proof -
  show "\<bar>y - f\<bar> \<le> 1 / 2" using assms by linarith
  show "\<bar>y - f\<bar> = 1 / 2 \<longrightarrow> \<bar>y\<bar> < \<bar>f\<bar>"
  proof
    assume "\<bar>y - f\<bar> = 1 / 2"
    with assms have "f = y + 1 / 2" by linarith
    with assms(3) show "\<bar>y\<bar> < \<bar>f\<bar>" by simp
  qed
qed

lemma floor_half: "of_int \<lfloor>y + 1 / 2\<rfloor> \<le> y + 1 / 2" "y - 1 / 2 < of_int \<lfloor>y + 1 / 2\<rfloor>" for y :: rat
  using floor_correct [of "y + 1 / 2"] by linarith+

lemma round_nearest: "nearest_minute x (c_round (x * 1440))"
proof -
  define y where "y = x * 1440"
  have n: "\<bar>y - of_int (c_round y)\<bar> \<le> 1 / 2 \<and> (\<bar>y - of_int (c_round y)\<bar> = 1 / 2 \<longrightarrow> \<bar>y\<bar> < \<bar>of_int (c_round y)\<bar>)"
  proof (cases "0 \<le> y")
    case True
    with near_half [OF floor_half, of y] show ?thesis by (simp add: c_round_def)
  next
    case False
    then have "0 \<le> - y" by simp
    note near_half [OF floor_half this]
    moreover have "\<bar>- y - of_int \<lfloor>- y + 1 / 2\<rfloor>\<bar> = \<bar>y - of_int (c_round y)\<bar>" "\<bar>- y\<bar> = \<bar>y\<bar>"
      "\<bar>of_int \<lfloor>- y + 1 / 2\<rfloor>\<bar> = \<bar>rat_of_int (c_round y)\<bar>"
      using False by (simp_all add: c_round_def)
    ultimately show ?thesis by simp
  qed
  have e: "24 * 60 * x = y" by (simp add: y_def)
  show ?thesis unfolding nearest_minute_def e y_def [symmetric] by (rule n)
qed

lemma round_int32: "time_fits x \<Longrightarrow> int32_ok (c_round (x * 1440))"
proof -
  assume f: "time_fits x"
  let ?m = "c_round (x * 1440)"
  have "\<bar>24 * 60 * x - of_int ?m\<bar> \<le> 1 / 2" using round_nearest [of x] by (simp only: nearest_minute_def)
  with f have "rat_of_int ?m < of_int (2 ^ 31)" "of_int (- (2 ^ 31)) < rat_of_int ?m"
    unfolding time_fits_def by (simp_all, linarith+)
  then have "?m < 2 ^ 31" "- (2 ^ 31) < ?m" by (simp_all only: of_int_less_iff)
  then show ?thesis by (simp add: int32_ok_def)
qed

lemma period_after_stored: "period_stored jl dbl p old (period_after jl dbl p old)"
  by (simp add: period_stored_def period_after_def round_nearest)

lemma store_period_at:
  assumes "period_fits jl dbl p" and "length wk = DAYS_PER_WEEK * PERIODS_PER_DAY"
  shows "store_period jl dbl k p wk = (if k < length wk then Some (wk[k := period_after jl dbl p (wk ! k)]) else None)"
  using assms
  by (cases "wk ! k")
     (auto simp: store_period_def period_fits_def period_after_def minute_of_def round_int32 Let_def split: option.splits)

lemma store_periods_at:
  assumes "list_all (period_fits jl dbl) ps" and "length wk = DAYS_PER_WEEK * PERIODS_PER_DAY" and "k + length ps \<le> length wk"
  shows "\<exists>wk'. store_periods jl dbl k ps wk = Some wk' \<and> length wk' = length wk \<and>
    (\<forall>m<length wk. wk' ! m = (if k \<le> m \<and> m < k + length ps then period_after jl dbl (ps ! (m - k)) (wk ! m) else wk ! m))"
  using assms
proof (induction ps arbitrary: k wk)
  case (Cons p ps)
  let ?wk = "wk[k := period_after jl dbl p (wk ! k)]"
  have s: "store_period jl dbl k p wk = Some ?wk" using store_period_at [of jl dbl p wk k] Cons.prems by simp
  from Cons.IH [of ?wk "Suc k"] Cons.prems obtain wk' where wk': "store_periods jl dbl (Suc k) ps ?wk = Some wk'" "length wk' = length wk"
    "\<forall>m<length wk. wk' ! m = (if Suc k \<le> m \<and> m < Suc k + length ps then period_after jl dbl (ps ! (m - Suc k)) (?wk ! m) else ?wk ! m)"
    by auto
  have "wk' ! m = (if k \<le> m \<and> m < k + length (p # ps) then period_after jl dbl ((p # ps) ! (m - k)) (wk ! m) else wk ! m)"
    if "m < length wk" for m
    using wk'(3) that by (cases "m = k") (auto simp: nth_list_update nth_Cons' Suc_diff_le)
  with s wk'(1,2) show ?case by auto
qed auto

lemma store_periods_over:
  assumes "list_all (period_fits jl dbl) ps" and "length wk = DAYS_PER_WEEK * PERIODS_PER_DAY" and "k + length ps > length wk" and "ps \<noteq> []"
  shows "store_periods jl dbl k ps wk = None"
  using assms
proof (induction ps arbitrary: k wk)
  case (Cons p ps)
  then show ?case
    by (cases "ps = []") (auto simp: store_period_at split: bind_splits if_splits)
qed simp

lemma store_day:
  assumes "i < DAYS_PER_WEEK" and "length days = DAYS_PER_WEEK"
  shows "store_days jl dbl i (J_array (map J_array days)) wk =
    Option.bind (store_periods jl dbl (PERIODS_PER_DAY * i) (days ! i) wk) (store_days jl dbl (Suc i) (J_array (map J_array days)))"
  using assms by (subst store_days.simps) (simp add: json_object_array_get_idx_def)

lemma in_day: "n \<le> 8 \<Longrightarrow> 8 * i \<le> m \<and> m < 8 * i + n \<longleftrightarrow> m div 8 = i \<and> m mod 8 < n" for m :: nat
proof -
  assume "n \<le> 8"
  moreover have "m = 8 * (m div 8) + m mod 8" "m mod 8 < 8" by simp_all
  ultimately show ?thesis by (cases i "m div 8" rule: linorder_cases) linarith+
qed

definition days_fit :: "jsonlib \<Rightarrow> (json \<Rightarrow> rat) \<Rightarrow> json list list \<Rightarrow> bool" where
  "days_fit jl dbl days \<longleftrightarrow> length days = DAYS_PER_WEEK \<and> list_all (list_all (period_fits jl dbl)) days"

definition stored_at :: "jsonlib \<Rightarrow> (json \<Rightarrow> rat) \<Rightarrow> json list list \<Rightarrow> nat \<Rightarrow> nat \<Rightarrow> period \<Rightarrow> period" where
  "stored_at jl dbl days i j p = (if j < length (days ! i) then period_after jl dbl (days ! i ! j) p else p)"

lemma store_days_from:
  assumes "days_fit jl dbl days" and "length wk = DAYS_PER_WEEK * PERIODS_PER_DAY" and "i \<le> DAYS_PER_WEEK"
    and "\<forall>d<DAYS_PER_WEEK. i \<le> d \<longrightarrow> length (days ! d) \<le> PERIODS_PER_DAY"
  shows "\<exists>wk'. store_days jl dbl i (J_array (map J_array days)) wk = Some wk' \<and> length wk' = length wk \<and>
    (\<forall>m<length wk. wk' ! m = (if m div PERIODS_PER_DAY < i then wk ! m
       else stored_at jl dbl days (m div PERIODS_PER_DAY) (m mod PERIODS_PER_DAY) (wk ! m)))"
  using assms(2,3,4)
proof (induction "DAYS_PER_WEEK - i" arbitrary: i wk)
  case 0
  then show ?case
    by (subst store_days.simps) (auto simp: DAYS_PER_WEEK_def PERIODS_PER_DAY_def)
next
  case (Suc n)
  then have i: "i < DAYS_PER_WEEK" by simp
  have day: "list_all (period_fits jl dbl) (days ! i)" "length (days ! i) \<le> PERIODS_PER_DAY" "length days = DAYS_PER_WEEK"
    using assms(1) Suc.prems(3) i by (auto simp: days_fit_def list_all_length)
  have room: "PERIODS_PER_DAY * i + length (days ! i) \<le> length wk"
    using day(2) i Suc.prems(1) by (simp add: DAYS_PER_WEEK_def PERIODS_PER_DAY_def)
  from store_periods_at [OF day(1) Suc.prems(1) room] obtain wk1 where
    wk1: "store_periods jl dbl (PERIODS_PER_DAY * i) (days ! i) wk = Some wk1" "length wk1 = length wk"
      "\<forall>m<length wk. wk1 ! m = (if PERIODS_PER_DAY * i \<le> m \<and> m < PERIODS_PER_DAY * i + length (days ! i)
         then period_after jl dbl (days ! i ! (m - PERIODS_PER_DAY * i)) (wk ! m) else wk ! m)" by blast
  have at: "wk1 ! m = (if m div PERIODS_PER_DAY = i then stored_at jl dbl days i (m mod PERIODS_PER_DAY) (wk ! m) else wk ! m)"
    if "m < length wk" for m
  proof -
    have "PERIODS_PER_DAY * i \<le> m \<and> m < PERIODS_PER_DAY * i + length (days ! i) \<longleftrightarrow>
        m div PERIODS_PER_DAY = i \<and> m mod PERIODS_PER_DAY < length (days ! i)"
      using day(2) unfolding PERIODS_PER_DAY_def by (rule in_day)
    moreover have "m - PERIODS_PER_DAY * i = m mod PERIODS_PER_DAY" if "m div PERIODS_PER_DAY = i"
      using that by (simp add: modulo_nat_def mult.commute)
    ultimately show ?thesis using wk1(3) that by (auto simp: stored_at_def)
  qed
  have "n = DAYS_PER_WEEK - Suc i" "length wk1 = DAYS_PER_WEEK * PERIODS_PER_DAY" "Suc i \<le> DAYS_PER_WEEK"
    "\<forall>d<DAYS_PER_WEEK. Suc i \<le> d \<longrightarrow> length (days ! d) \<le> PERIODS_PER_DAY"
    using Suc.hyps(2) Suc.prems wk1(2) i by auto
  from Suc.hyps(1) [OF this] wk1(1,2) at show ?case
    by (auto simp: store_day [OF i day(3)] less_Suc_eq)
qed

text \<open>The days before \<open>n\<close> leave the later ones alone.\<close>

lemma store_days_until:
  assumes "days_fit jl dbl days" and "length wk = DAYS_PER_WEEK * PERIODS_PER_DAY" and "n \<le> DAYS_PER_WEEK"
    and "\<forall>d<n. length (days ! d) \<le> PERIODS_PER_DAY"
  shows "\<exists>wk'. store_days jl dbl 0 (J_array (map J_array days)) wk = store_days jl dbl n (J_array (map J_array days)) wk' \<and>
    length wk' = length wk \<and> (\<forall>m<length wk. n \<le> m div PERIODS_PER_DAY \<longrightarrow> wk' ! m = wk ! m)"
  using assms(3,4)
proof (induction n)
  case (Suc n)
  then obtain wk1 where wk1: "store_days jl dbl 0 (J_array (map J_array days)) wk = store_days jl dbl n (J_array (map J_array days)) wk1"
    "length wk1 = length wk" "\<forall>m<length wk. n \<le> m div PERIODS_PER_DAY \<longrightarrow> wk1 ! m = wk ! m" by auto
  from Suc.prems have n: "n < DAYS_PER_WEEK" by simp
  have day: "list_all (period_fits jl dbl) (days ! n)" "length (days ! n) \<le> PERIODS_PER_DAY" "length days = DAYS_PER_WEEK"
    using assms(1) Suc.prems n by (auto simp: days_fit_def list_all_length)
  have room: "length wk1 = DAYS_PER_WEEK * PERIODS_PER_DAY" "PERIODS_PER_DAY * n + length (days ! n) \<le> length wk1"
    using day(2) n assms(2) wk1(2) by (simp_all add: DAYS_PER_WEEK_def PERIODS_PER_DAY_def)
  from store_periods_at [OF day(1) room] obtain wk2 where
    wk2: "store_periods jl dbl (PERIODS_PER_DAY * n) (days ! n) wk1 = Some wk2" "length wk2 = length wk1"
      "\<forall>m<length wk1. wk2 ! m = (if PERIODS_PER_DAY * n \<le> m \<and> m < PERIODS_PER_DAY * n + length (days ! n)
         then period_after jl dbl (days ! n ! (m - PERIODS_PER_DAY * n)) (wk1 ! m) else wk1 ! m)" by blast
  have "wk2 ! m = wk ! m" if "m < length wk" "Suc n \<le> m div PERIODS_PER_DAY" for m
  proof -
    have "\<not> m < PERIODS_PER_DAY * n + length (days ! n)" using that(2) day(2) by (simp add: PERIODS_PER_DAY_def)
    with that wk1 wk2 show ?thesis by auto
  qed
  with wk1(1,2) wk2(1,2) show ?case by (auto simp: store_day [OF n day(3)])
qed auto


text \<open>A schedule with one period on the first day, and a service that has it.\<close>

definition noon_period :: json where
  "noon_period = J_object [(''start'', J_int 12), (''end'', J_int 18), (''type'', J_string ''closed'')]"

definition no_week :: week where
  "no_week = replicate 56 \<lparr>start_minute = 0, end_minute = 0, ptype = []\<rparr>"

definition hours :: "json \<Rightarrow> rat" where
  "hours j = (case j of J_int h \<Rightarrow> of_int h / 24 | _ \<Rightarrow> 0)"

definition schedule_row :: "json list list \<Rightarrow> json" where
  "schedule_row days = J_object [(''sSchedulesJson'', J_string (jl_print numbered_json (J_array (map J_array days))))]"

definition schedule_bus :: "json list list \<Rightarrow> unit bus" where
  "schedule_bus days = \<lparr>bu_connect = (\<lambda>_. True), bu_call = (\<lambda>_ _ _ p.
     (Some (jl_print numbered_json (J_object [(''jData'', J_array [schedule_row days])])), p))\<rparr>"

lemma noon_fits: "period_fits numbered_json hours noon_period"
  by (simp add: period_fits_def time_fits_def hours_def noon_period_def json_object_object_get_def json_object_get_string_def TYPE_SIZE_def cstr_def)

lemma noon_after: "period_after numbered_json hours noon_period p = \<lparr>start_minute = 720, end_minute = 1080, ptype = ''closed''\<rparr>"
  by (simp add: period_after_def noon_period_def json_object_object_get_def json_object_get_string_def hours_def c_round_def
      cstr_def floor_eq_iff)

lemma noon_stored: "period_stored numbered_json hours noon_period old p \<Longrightarrow>
    p = \<lparr>start_minute = 720, end_minute = 1080, ptype = ''closed''\<rparr>"
proof -
  have one: "m = n" if "nearest_minute x m" "24 * 60 * x = of_int n" for x m n
  proof -
    have "\<bar>rat_of_int n - of_int m\<bar> \<le> 1 / 2" using that by (simp only: nearest_minute_def)
    then have "\<bar>rat_of_int (n - m)\<bar> < of_int 1" by simp
    then show ?thesis by (simp add: of_int_abs [symmetric] del: of_int_abs of_int_diff)
  qed
  assume "period_stored numbered_json hours noon_period old p"
  then have "nearest_minute (12 / 24) (start_minute p)" "nearest_minute (18 / 24) (end_minute p)" "ptype p = ''closed''"
    by (simp_all add: period_stored_def noon_period_def json_object_object_get_def json_object_get_string_def hours_def cstr_def)
  with one [of "12 / 24" "start_minute p" 720] one [of "18 / 24" "end_minute p" 1080] show ?thesis by simp
qed


text \<open>
  A day with more than eight periods is stored outside its day.  The number of periods
  is not limited by the code: a ninth period of one of the first six days becomes the first
  period of the next day, when that day has none of its own; a ninth period of the last day
  is a write behind the caller's structure.
\<close>

theorem schedule_ninth_period:
  assumes "days_fit jl dbl days" and "length wk = DAYS_PER_WEEK * PERIODS_PER_DAY" and "i < DAYS_PER_WEEK"
    and "\<forall>d<DAYS_PER_WEEK. d \<noteq> i \<longrightarrow> length (days ! d) \<le> PERIODS_PER_DAY" and "length (days ! i) = PERIODS_PER_DAY + 1"
    and "Suc i < DAYS_PER_WEEK \<longrightarrow> days ! Suc i = []"
  shows "if Suc i < DAYS_PER_WEEK
    then \<exists>wk'. store_days jl dbl 0 (J_array (map J_array days)) wk = Some wk' \<and>
      wk' ! (PERIODS_PER_DAY * Suc i) = period_after jl dbl (days ! i ! PERIODS_PER_DAY) (wk ! (PERIODS_PER_DAY * Suc i))
    else store_days jl dbl 0 (J_array (map J_array days)) wk = None"
proof -
  have len: "length days = DAYS_PER_WEEK" and day: "list_all (period_fits jl dbl) (days ! i)" "days ! i \<noteq> []"
    using assms(1,3,5) by (auto simp: days_fit_def list_all_length)
  obtain wk1 where wk1: "store_days jl dbl 0 (J_array (map J_array days)) wk = store_days jl dbl i (J_array (map J_array days)) wk1"
    "length wk1 = length wk" "\<forall>m<length wk. i \<le> m div PERIODS_PER_DAY \<longrightarrow> wk1 ! m = wk ! m"
    using store_days_until [OF assms(1,2), of i] assms(3,4) by auto
  let ?k = "PERIODS_PER_DAY * i"
  show ?thesis
  proof (cases "Suc i < DAYS_PER_WEEK")
    case True
    then have "?k + length (days ! i) \<le> length wk1" "length wk1 = DAYS_PER_WEEK * PERIODS_PER_DAY"
      using assms(2,5) wk1(2) by (simp_all add: DAYS_PER_WEEK_def PERIODS_PER_DAY_def)
    moreover have over: "?k + PERIODS_PER_DAY < length wk" using True assms(2) by (simp add: DAYS_PER_WEEK_def PERIODS_PER_DAY_def)
    ultimately obtain wk2 where
      wk2: "store_periods jl dbl ?k (days ! i) wk1 = Some wk2" "length wk2 = length wk"
        "wk2 ! (?k + PERIODS_PER_DAY) = period_after jl dbl (days ! i ! PERIODS_PER_DAY) (wk1 ! (?k + PERIODS_PER_DAY))"
      using store_periods_at [OF day(1), of wk1 ?k] assms(5) wk1(2) over by auto
    have "length wk2 = DAYS_PER_WEEK * PERIODS_PER_DAY" "Suc i \<le> DAYS_PER_WEEK"
      "\<forall>d<DAYS_PER_WEEK. Suc i \<le> d \<longrightarrow> length (days ! d) \<le> PERIODS_PER_DAY"
      using wk2(2) assms(2,4) True by auto
    from store_days_from [OF assms(1) this] obtain wk' where
      wk': "store_days jl dbl (Suc i) (J_array (map J_array days)) wk2 = Some wk'"
        "wk' ! (?k + PERIODS_PER_DAY) = stored_at jl dbl days (Suc i) 0 (wk2 ! (?k + PERIODS_PER_DAY))"
      using True wk2(2) assms(2) by (auto simp: DAYS_PER_WEEK_def PERIODS_PER_DAY_def)
    have "wk1 ! (?k + PERIODS_PER_DAY) = wk ! (?k + PERIODS_PER_DAY)"
      using wk1(3) True assms(2) by (auto simp: DAYS_PER_WEEK_def PERIODS_PER_DAY_def)
    with True wk1(1) wk2 wk' assms(6) show ?thesis
      by (auto simp: store_day [OF assms(3) len] stored_at_def add.commute)
  next
    case False
    then have "?k + length (days ! i) > length wk1" "length wk1 = DAYS_PER_WEEK * PERIODS_PER_DAY"
      using assms(2,3,5) wk1(2) by (simp_all add: DAYS_PER_WEEK_def PERIODS_PER_DAY_def)
    from store_periods_over [OF day(1) this(2,1) day(2)] False wk1(1) show ?thesis
      by (simp add: store_day [OF assms(3) len])
  qed
qed

theorem schedule_ninth_period_witness:
  "(\<exists>wk'. store_days numbered_json hours 0 (J_array (map J_array (replicate 9 noon_period # replicate 6 []))) no_week = Some wk' \<and>
     start_minute (wk' ! 8) = 720) \<and>
   store_days numbered_json hours 0 (J_array (map J_array (replicate 6 [] @ [replicate 9 noon_period]))) no_week = None"
proof -
  let ?first = "replicate 9 noon_period # replicate 6 []" and ?last = "replicate 6 [] @ [replicate 9 noon_period]"
  note defs = days_fit_def noon_fits DAYS_PER_WEEK_def PERIODS_PER_DAY_def no_week_def list_all_iff
  have fit: "days_fit numbered_json hours ?first" "days_fit numbered_json hours ?last" "length no_week = DAYS_PER_WEEK * PERIODS_PER_DAY"
    by (auto simp: defs)
  have first: "\<forall>d<DAYS_PER_WEEK. d \<noteq> 0 \<longrightarrow> length (?first ! d) \<le> PERIODS_PER_DAY" "length (?first ! 0) = PERIODS_PER_DAY + 1"
    "Suc 0 < DAYS_PER_WEEK \<longrightarrow> ?first ! Suc 0 = []" "0 < DAYS_PER_WEEK"
    by (auto simp: defs nth_Cons')
  have last: "\<forall>d<DAYS_PER_WEEK. d \<noteq> 6 \<longrightarrow> length (?last ! d) \<le> PERIODS_PER_DAY" "length (?last ! 6) = PERIODS_PER_DAY + 1"
    "Suc 6 < DAYS_PER_WEEK \<longrightarrow> ?last ! Suc 6 = []" "6 < DAYS_PER_WEEK"
    by (auto simp: defs nth_append)
  from schedule_ninth_period [OF fit(1,3) first(4,1,2,3)] schedule_ninth_period [OF fit(2,3) last(4,1,2,3)]
  show ?thesis by (auto simp: DAYS_PER_WEEK_def PERIODS_PER_DAY_def noon_after)
qed

end
