(* ===== verification/DbCapability.thy ===== *)
theory DbCapability
  imports DbSettings "HOL-Library.Sublist"
begin

text \<open>
  Capability texts: the functions that set one capability in a JSON text of the database, against
  a reference that replaces the value at a path.
\<close>

section \<open>Capabilities\<close>

text \<open>The value at a path of names; members on the way that are not there count as null.\<close>

definition json_at :: "json \<Rightarrow> string list \<Rightarrow> json" where
  "json_at j path = foldl json_object_object_get j path"

lemma json_at_simps [simp]: "json_at j [] = j" "json_at j (k # ks) = json_at (json_object_object_get j k) ks"
  by (simp_all add: json_at_def)

lemma json_at_null [simp]: "json_at J_null ks = J_null"
  by (induction ks) (simp_all add: json_object_object_get_def)

text \<open>Reference: the value at a path replaced or removed, with the objects on the way made if they are missing.\<close>

fun set_path :: "string list \<Rightarrow> json option \<Rightarrow> json \<Rightarrow> json option" where
  "set_path [] new = (\<lambda>_. None)"
| "set_path [k] new = replace_member k new"
| "set_path (k # ks) new = change_member k (set_path ks new)"

fun route_ok :: "string list \<Rightarrow> json \<Rightarrow> bool" where
  "route_ok [] j = True"
| "route_ok (k # ks) j = ((case j of J_object _ \<Rightarrow> True | _ \<Rightarrow> False) \<and>
     (json_object_object_get j k = J_null \<or> route_ok ks (json_object_object_get j k)))"

lemma map_of_json_add: "map_of (json_add k v kvs) k' = (if k' = k then Some v else map_of kvs k')"
proof -
  have same: "k \<in> fst ` set xs \<Longrightarrow> map_of (map (\<lambda>(k1, v1). (k1, if k1 = k then v else v1)) xs) k = Some v" for xs
    by (induction xs) auto
  have other: "k' \<noteq> k \<Longrightarrow> map_of (map (\<lambda>(k1, v1). (k1, if k1 = k then v else v1)) xs) k' = map_of xs k'" for xs
    by (induction xs) auto
  show ?thesis
  proof (cases "k \<in> fst ` set kvs")
    case False
    then have "map_of kvs k = None" by (simp add: map_of_eq_None_iff)
    with False show ?thesis by (simp add: json_add_def map_add_def split: option.split)
  qed (simp add: json_add_def same other)
qed

definition the_new :: "json option \<Rightarrow> json" where
  "the_new new = (case new of Some c \<Rightarrow> c | None \<Rightarrow> J_null)"

lemma obj_get: "json_object_object_get (J_object kvs) k = (case map_of kvs k of Some v \<Rightarrow> v | None \<Rightarrow> J_null)"
  by (simp add: json_object_object_get_def)

lemma map_of_del: "map_of (filter (\<lambda>kv. fst kv \<noteq> k) kvs) k' = (if k' = k then None else map_of kvs k')"
  by (induction kvs) auto

lemma replace_member_spec:
  "\<exists>kvs'. replace_member k new (J_object kvs) = Some (J_object kvs') \<and>
     (\<forall>k'. json_object_object_get (J_object kvs') k' = (if k' = k then the_new new else json_object_object_get (J_object kvs) k'))"
proof -
  define kvs1 where "kvs1 = (if json_object_object_get (J_object kvs) k \<noteq> J_null then filter (\<lambda>kv. fst kv \<noteq> k) kvs else kvs)"
  have 1: "json_object_object_get (J_object kvs1) k' = (if k' = k then J_null else json_object_object_get (J_object kvs) k')" for k'
    by (auto simp: kvs1_def obj_get map_of_del)
  have 2: "replace_member k new (J_object kvs) = (case new of None \<Rightarrow> Some (J_object kvs1) | Some c \<Rightarrow> Some (J_object (json_add k c kvs1)))"
    by (simp add: replace_member_def kvs1_def obj_del_def obj_add_def split: option.split)
  show ?thesis
  proof (cases new)
    case None
    with 1 2 show ?thesis by (simp add: the_new_def)
  next
    case (Some c)
    have "json_object_object_get (J_object (json_add k c kvs1)) k' = (if k' = k then c else json_object_object_get (J_object kvs1) k')" for k'
      by (simp add: obj_get map_of_json_add)
    with Some 1 2 show ?thesis by (simp add: the_new_def)
  qed
qed

lemma change_member_spec:
  assumes "f (if json_object_object_get (J_object kvs) k = J_null then J_object [] else json_object_object_get (J_object kvs) k) = Some m"
  shows "\<exists>kvs'. change_member k f (J_object kvs) = Some (J_object kvs') \<and>
     (\<forall>k'. json_object_object_get (J_object kvs') k' = (if k' = k then m else json_object_object_get (J_object kvs) k'))"
proof -
  define kvs1 where "kvs1 = (if json_object_object_get (J_object kvs) k = J_null then json_add k (J_object []) kvs else kvs)"
  have get: "json_object_object_get (J_object kvs1) k' =
      (if k' = k \<and> json_object_object_get (J_object kvs) k = J_null then J_object [] else json_object_object_get (J_object kvs) k')" for k'
    by (auto simp: kvs1_def obj_get map_of_json_add)
  have "change_member k f (J_object kvs) = Some (J_object (json_add k m kvs1))"
    using assms get [of k] by (cases "json_object_object_get (J_object kvs) k = J_null") (simp_all add: change_member_def kvs1_def obj_add_def)
  moreover have "json_object_object_get (J_object (json_add k m kvs1)) k' = (if k' = k then m else json_object_object_get (J_object kvs1) k')" for k'
    by (simp add: obj_get map_of_json_add)
  ultimately show ?thesis using get by simp
qed

lemma route_empty: "route_ok ks (J_object [])"
  by (cases ks) (simp_all add: json_object_object_get_def)

lemma json_at_empty [simp]: "q \<noteq> [] \<Longrightarrow> json_at (J_object []) q = J_null"
  by (cases q) (simp_all add: json_object_object_get_def)

lemma set_path_spec:
  "path \<noteq> [] \<Longrightarrow> route_ok path j \<Longrightarrow>
   \<exists>j'. set_path path new j = Some j' \<and> json_at j' path = the_new new \<and> (\<forall>q. path \<parallel> q \<longrightarrow> json_at j' q = json_at j q)"
proof (induction path new arbitrary: j rule: set_path.induct)
  case (2 k new)
  then obtain kvs where j: "j = J_object kvs" by (auto split: json.splits)
  obtain kvs' where k: "replace_member k new j = Some (J_object kvs')"
    "\<forall>k'. json_object_object_get (J_object kvs') k' = (if k' = k then the_new new else json_object_object_get j k')"
    using replace_member_spec [of k new kvs] unfolding j by blast
  have "json_at (J_object kvs') q = json_at j q" if "[k] \<parallel> q" for q
    using that k(2) by (cases q) (auto simp: parallel_def)
  with k show ?case by auto
next
  case (3 k k2 ks new)
  then obtain kvs where j: "j = J_object kvs" by (auto split: json.splits)
  let ?m = "if json_object_object_get j k = J_null then J_object [] else json_object_object_get j k"
  have "route_ok (k2 # ks) ?m"
    using 3(3) route_empty [of "k2 # ks"] unfolding route_ok.simps(2) [of k "k2 # ks"] by (auto simp del: route_ok.simps)
  from 3(1) [OF _ this] obtain m where m: "set_path (k2 # ks) new ?m = Some m" "json_at m (k2 # ks) = the_new new"
    "\<forall>q. k2 # ks \<parallel> q \<longrightarrow> json_at m q = json_at ?m q" by auto
  obtain kvs' where k: "change_member k (set_path (k2 # ks) new) j = Some (J_object kvs')"
    "\<forall>k'. json_object_object_get (J_object kvs') k' = (if k' = k then m else json_object_object_get j k')"
    using change_member_spec [of "set_path (k2 # ks) new" kvs k m] m(1) unfolding j by blast
  have "json_at (J_object kvs') q = json_at j q" if "k # k2 # ks \<parallel> q" for q
  proof (cases q)
    case (Cons x xs)
    show ?thesis
    proof (cases "x = k")
      case True
      with that Cons have "k2 # ks \<parallel> xs" by (auto simp: parallel_def)
      with m(3) have "json_at m xs = json_at ?m xs" "xs \<noteq> []" by (auto simp: parallel_def)
      with k(2) Cons True show ?thesis by (simp split: if_splits)
    qed (use k(2) Cons in simp)
  qed (use that in \<open>simp add: parallel_def\<close>)
  with k m(2) show ?case by auto
qed simp

lemma caps_are_paths:
  "set_static target_key new old_cap = set_path [''static'', target_key] new old_cap"
  "set_dynamic dynamic_key dynamic_val target_key (Some c) old_cap =
     map_option Some (set_path [''dynamic'', dynamic_key, dynamic_val, target_key] (Some c) old_cap)"
  by (simp_all add: set_static_def set_dynamic_def)

text \<open>
  Property C23. What changing a capability changes.  The capability text is read from the
  database; when the members on the way to the target are objects or missing, the new text has
  the new value (or nothing, when it is to be removed) exactly at the target, which is
  \<^verbatim>\<open>static\<close>, name or \<^verbatim>\<open>dynamic\<close>, key, value, name, and every path that leads
  elsewhere has its old value; this text is what is stored under the same name.  Only a removal
  from a text without dynamic capabilities stores nothing, and then there was nothing to remove.
\<close>

theorem capability_update:
  assumes "read_cap jl bus cap_name w = Some (old, w1)" and "route_ok path old"
    and "path = (case dyn of None \<Rightarrow> [''static'', key] | Some (dk, dv) \<Rightarrow> [''dynamic'', dk, dv, key])"
  shows "\<exists>stored. (case dyn of None \<Rightarrow> store_static jl bus cap_name key new w
                 | Some (dk, dv) \<Rightarrow> store_dynamic jl bus cap_name dk dv key new w) =
      (case stored of None \<Rightarrow> Some ((), w1)
                    | Some c \<Rightarrow> discard (dbserver_system_para_set_by_name jl bus cap_name (Some (jl_print jl c))) w1) \<and>
    (let c = (case stored of None \<Rightarrow> old | Some c \<Rightarrow> c) in
     json_at c path = (case new of Some v \<Rightarrow> v | None \<Rightarrow> J_null) \<and> (\<forall>q. path \<parallel> q \<longrightarrow> json_at c q = json_at old q))"
proof -
  from set_path_spec [OF _ assms(2), of new] assms(3) obtain c where
    c: "set_path path new old = Some c" "json_at c path = the_new new" "\<forall>q. path \<parallel> q \<longrightarrow> json_at c q = json_at old q"
    by (auto split: option.splits)
  consider (static) "dyn = None" | (dynamic) dk dv where "dyn = Some (dk, dv)" by (cases dyn) auto
  then show ?thesis
  proof cases
    case static
    with c assms(1,3) show ?thesis
      by (intro exI [of _ "Some c"]) (simp add: store_static_def caps_are_paths the_new_def)
  next
    case dynamic
    let ?d = "json_object_object_get old ''dynamic''"
    have put: "set_dynamic dk dv key new old = Some (Some c)"
      if "new \<noteq> None \<or> (?d \<noteq> J_null \<and> json_object_object_get ?d dk \<noteq> J_null \<and>
        json_object_object_get (json_object_object_get ?d dk) dv \<noteq> J_null)"
      using that c(1) assms(3) dynamic by (cases new) (auto simp: caps_are_paths set_dynamic_def Let_def)
    show ?thesis
    proof (cases "new = None \<and> (?d = J_null \<or> json_object_object_get ?d dk = J_null \<or>
        json_object_object_get (json_object_object_get ?d dk) dv = J_null)")
      case True
      then have "json_at old path = J_null" using assms(3) dynamic by (auto simp: json_object_object_get_def)
      moreover have "set_dynamic dk dv key new old = Some (if ?d = J_null then None else Some old)"
        using True by (auto simp: set_dynamic_def Let_def)
      ultimately show ?thesis using True assms(1) dynamic
        by (intro exI [of _ "if ?d = J_null then None else Some old"]) (simp add: store_dynamic_def)
    next
      case False
      with put c assms(1) dynamic show ?thesis
        by (intro exI [of _ "Some c"]) (simp add: store_dynamic_def the_new_def)
    qed
  qed
qed

text \<open>A capability text, and a service that has it.\<close>

definition zoom_cap :: json where
  "zoom_cap = J_object [(''static'', J_object [(''codec'', J_int 1)]), (''layout'', J_int 2)]"

definition cap_bus :: "unit bus" where
  "cap_bus = \<lparr>bu_connect = (\<lambda>_. True), bu_call = (\<lambda>_ _ _ p. (Some (jl_print numbered_json
     (J_object [(''jData'', J_array [J_object [(''para'', J_string (jl_print numbered_json zoom_cap))]])])), p))\<rparr>"

theorem capability_update_witness:
  "\<exists>c. dbserver_set_static_cap_range numbered_json cap_bus ''zoom'' ''step'' \<lparr>rp_min = 1, rp_max = 9, rp_step = 0\<rparr>
      \<lparr>cl_mutex = False, dbus_conn_flag = True, cl_peer = ()\<rparr> =
      discard (dbserver_system_para_set_by_name numbered_json cap_bus ''zoom'' (Some (jl_print numbered_json c)))
        \<lparr>cl_mutex = False, dbus_conn_flag = True, cl_peer = ()\<rparr> \<and>
    json_at c [''static'', ''step'', ''range'', ''max''] = J_int 9 \<and> json_at c [''static'', ''codec''] = J_int 1 \<and> json_at c [''layout''] = J_int 2"
proof -
  let ?w = "\<lparr>cl_mutex = False, dbus_conn_flag = True, cl_peer = ()\<rparr>" and ?rng = "\<lparr>rp_min = 1, rp_max = 9, rp_step = 0\<rparr>"
  have read: "read_cap numbered_json cap_bus ''zoom'' ?w = Some (zoom_cap, ?w)"
    by (simp add: read_cap_def dbserver_system_para_get_by_name_def send_cmd_def dbserver_cmd_def DBSERVER_DBUSSEND_def
        dbus_mutex_lock_def get_dbus_conn_def cap_bus_def dbus_mutex_unlock_def json_codecD(3) [OF numbered_json_codec]
        numbered_json_ok(2) json_object_object_get_def json_object_array_get_idx_def json_object_get_string_def)
  have route: "route_ok [''static'', ''step''] zoom_cap" by (simp add: zoom_cap_def json_object_object_get_def)
  from capability_update [OF read route, where dyn = None and key = "''step''" and new = "Some (range_cap ?rng)"] obtain stored where
    st: "store_static numbered_json cap_bus ''zoom'' ''step'' (Some (range_cap ?rng)) ?w =
      (case stored of None \<Rightarrow> Some ((), ?w)
         | Some c \<Rightarrow> discard (dbserver_system_para_set_by_name numbered_json cap_bus ''zoom'' (Some (jl_print numbered_json c))) ?w)"
    and at: "json_at (case stored of None \<Rightarrow> zoom_cap | Some c \<Rightarrow> c) [''static'', ''step''] = range_cap ?rng"
    and others: "\<forall>q. [''static'', ''step''] \<parallel> q \<longrightarrow> json_at (case stored of None \<Rightarrow> zoom_cap | Some c \<Rightarrow> c) q = json_at zoom_cap q"
    by (auto simp: Let_def)
  have "json_at zoom_cap [''static'', ''step''] \<noteq> range_cap ?rng" by (simp add: zoom_cap_def json_object_object_get_def range_cap_def)
  with at obtain c where c: "stored = Some c" by (cases stored) auto
  have "[''static'', ''step''] \<parallel> [''static'', ''codec'']" "[''static'', ''step''] \<parallel> [''layout'']" by (auto simp: parallel_def)
  then have "json_at c [''static'', ''codec''] = J_int 1" "json_at c [''layout''] = J_int 2"
    using others c by (simp_all add: zoom_cap_def json_object_object_get_def del: json_at_simps(2), simp_all add: json_object_object_get_def)
  moreover have "json_at c [''static'', ''step'', ''range'', ''max''] = J_int 9"
    using at c by (simp add: range_cap_def json_object_object_get_def [of "J_object _"])
  ultimately show ?thesis using st c by (auto simp: dbserver_set_static_cap_range_def)
qed

end
