(* ===== verification/DbRequests.thy ===== *)
theory DbRequests
  imports DbSettings
begin

text \<open>
  The requests of the client library against the tables of the service: their tables, columns and
  types, and the face tables that the library makes anew.
\<close>

section \<open>The requests of the client library and the tables of the service\<close>

text \<open>The tables of an interface, and the columns a table is created with.\<close>

definition service_tables :: "string \<Rightarrow> db_step list" where
  "service_tables iface =
     (if iface = DBSERVER_NET_INTERFACE then network_tables
      else if iface = DBSERVER_STORAGE_INTERFACE then storage_tables
      else if iface = DBSERVER_MEDIA_INTERFACE then media_tables
      else if iface = DBSERVER_SYSTEM_INTERFACE then system_tables
      else if iface = DBSERVER_EVENT_INTERFACE then event_tables
      else if iface = DBSERVER_PERIPHERALS_INTERFACE then peripherals_tables else [])"

definition text_has :: "string \<Rightarrow> (string \<times> coltype) list \<Rightarrow> bool" where
  "text_has cols kts = (case parse_columns cols of
     None \<Rightarrow> False
   | Some cs \<Rightarrow> list_all (\<lambda>(n, ty). list_ex (\<lambda>c. co_name c = n \<and> (co_type c = C_any \<or> co_type c = ty)) cs) kts)"

definition has_columns :: "db_step list \<Rightarrow> string \<Rightarrow> (string \<times> coltype) list \<Rightarrow> bool" where
  "has_columns sts t kts = list_ex (\<lambda>st. case st of Create t' cols \<Rightarrow> t' = t \<and> text_has cols kts | _ \<Rightarrow> False) sts"

lemma text_has_fewer: "text_has cols kts \<Longrightarrow> set kts' \<subseteq> set kts \<Longrightarrow> text_has cols kts'"
  unfolding text_has_def list_all_iff by (auto split: option.splits)

lemma has_columns_fewer: "has_columns sts t kts \<Longrightarrow> set kts' \<subseteq> set kts \<Longrightarrow> has_columns sts t kts'"
  unfolding has_columns_def list_ex_iff by (elim bexE) (auto split: db_step.splits intro: text_has_fewer)

lemma service_tables_at:
  "service_tables DBSERVER_NET_INTERFACE = network_tables" "service_tables DBSERVER_STORAGE_INTERFACE = storage_tables"
  "service_tables DBSERVER_MEDIA_INTERFACE = media_tables" "service_tables DBSERVER_SYSTEM_INTERFACE = system_tables"
  "service_tables DBSERVER_EVENT_INTERFACE = event_tables" "service_tables DBSERVER_PERIPHERALS_INTERFACE = peripherals_tables"
  by (simp_all add: service_tables_def DBSERVER_def DBSERVER_NET_INTERFACE_def DBSERVER_STORAGE_INTERFACE_def DBSERVER_MEDIA_INTERFACE_def
      DBSERVER_SYSTEM_INTERFACE_def DBSERVER_EVENT_INTERFACE_def DBSERVER_PERIPHERALS_INTERFACE_def)

lemma has_columns_part: "set part \<subseteq> set sts \<Longrightarrow> has_columns part t kts \<Longrightarrow> has_columns sts t kts"
  by (auto simp: has_columns_def list_ex_iff)

lemma find_create:
  "text_has cols kts \<Longrightarrow> has_columns (Create t cols # sts) t kts" "has_columns sts t kts \<Longrightarrow> has_columns (st # sts) t kts"
  by (simp_all add: has_columns_def)

lemma table_parts:
  "set system_tables_5 \<subseteq> set (service_tables DBSERVER_SYSTEM_INTERFACE)"
  "set system_tables_2 \<subseteq> set (service_tables DBSERVER_SYSTEM_INTERFACE)"
  "set storage_tables_1 \<subseteq> set (service_tables DBSERVER_STORAGE_INTERFACE)"
  "set storage_tables_2 \<subseteq> set (service_tables DBSERVER_STORAGE_INTERFACE)"
  "set network_tables_1 \<subseteq> set (service_tables DBSERVER_NET_INTERFACE)"
  "set network_tables_2 \<subseteq> set (service_tables DBSERVER_NET_INTERFACE)"
  "set media_tables_2 \<subseteq> set (service_tables DBSERVER_MEDIA_INTERFACE)"
  "set media_tables_1 \<subseteq> set (service_tables DBSERVER_MEDIA_INTERFACE)"
  "set media_tables_7 \<subseteq> set (service_tables DBSERVER_MEDIA_INTERFACE)"
  "set media_tables_6 \<subseteq> set (service_tables DBSERVER_MEDIA_INTERFACE)"
  "set media_tables_8 \<subseteq> set (service_tables DBSERVER_MEDIA_INTERFACE)"
  "set event_tables_1 \<subseteq> set (service_tables DBSERVER_EVENT_INTERFACE)"
  "set event_tables_3 \<subseteq> set (service_tables DBSERVER_EVENT_INTERFACE)"
  by (auto simp: service_tables_at network_tables_def storage_tables_def media_tables_def system_tables_def event_tables_def)

lemma system_columns_5:
  "has_columns system_tables_5 TABLE_SYSTEM_USER [(''id'', C_int), (''sUserName'', C_text), (''sPassword'', C_text), (''iFixed'', C_int),
     (''iUserLevel'', C_int), (''iAuthLevel'', C_int)]"
  "has_columns system_tables_5 TABLE_SYSTEM_SCOPES [(''sScopeItem'', C_text)]"
  unfolding system_tables_5_def by ((rule find_create)+, code_simp)+

lemma system_columns_2:
  "has_columns system_tables_2 TABLE_SYSTEM_PARA [(''name'', C_text), (''para'', C_text)]"
  unfolding system_tables_2_def by ((rule find_create)+, code_simp)+

lemma storage_columns_1:
  "has_columns storage_tables_1 TABLE_STORAGE_DISK_PATH [(''sName'', C_text), (''sPath'', C_text)]"
  "has_columns storage_tables_1 TABLE_STORAGE_MEDIA_FOLDER [(''iCamId'', C_int), (''iType'', C_int), (''iDuty'', C_int), (''iMaxNum'', C_int)]"
  "has_columns storage_tables_1 TABLE_STORAGE_CONFIG [(''id'', C_int), (''sMountPath'', C_text), (''iFreeSize'', C_int)]"
  unfolding storage_tables_1_def by ((rule find_create)+, code_simp)+

lemma storage_columns_2:
  "has_columns storage_tables_2 TABLE_STORAGE_PLAN_SNAP [(''id'', C_int)]"
  "has_columns storage_tables_2 TABLE_STORAGE_ADVANCE_PARA []"
  unfolding storage_tables_2_def by ((rule find_create)+, code_simp)+

lemma network_columns_1:
  "has_columns network_tables_1 TABLE_NETWORK_IP [(''sInterface'', C_text), (''sV4Method'', C_text), (''sV4Address'', C_text), (''sV4Netmask'', C_text),
     (''sV4Gateway'', C_text), (''sDNS1'', C_text), (''sDNS2'', C_text), (''sNicSpeed'', C_text)]"
  "has_columns network_tables_1 TABLE_NETWORK_SERVICE [(''sService'', C_text), (''sPassword'', C_text), (''iFavorite'', C_int), (''iAutoconnect'',
     C_int)]"
  "has_columns network_tables_1 TABLE_NETWORK_POWER [(''sType'', C_text), (''iPower'', C_int)]"
  "has_columns network_tables_1 TABLE_NETWORK_NTP [(''id'', C_int), (''sNtpServers'', C_text), (''sTimeZone'', C_text), (''sTimeZoneFile'', C_text),
     (''sTimeZoneFileDst'', C_text), (''iAutoDst'', C_int), (''iAutoMode'', C_int), (''iRefreshTime'', C_int)]"
  unfolding network_tables_1_def by ((rule find_create)+, code_simp)+

lemma network_columns_2:
  "has_columns network_tables_2 TABLE_NETWORK_ZONE []"
  "has_columns network_tables_2 TABLE_NETWORK_PORT []"
  unfolding network_tables_2_def by ((rule find_create)+, code_simp)+

lemma media_columns_2:
  "has_columns media_tables_2 TABLE_AUDIO []"
  "has_columns media_tables_2 TABLE_STREAM_URL []"
  unfolding media_tables_2_def by ((rule find_create)+, code_simp)+

lemma media_columns_1:
  "has_columns media_tables_1 TABLE_VIDEO [(''sVideoEncoderConfigurationToken'', C_text)]"
  unfolding media_tables_1_def by ((rule find_create)+, code_simp)+

lemma media_columns_7:
  "has_columns media_tables_7 TABLE_VIDEO_REGION_CLIP []"
  unfolding media_tables_7_def by ((rule find_create)+, code_simp)+

lemma media_columns_6:
  "has_columns media_tables_6 TABLE_OSD [(''id'', C_int)]"
  unfolding media_tables_6_def by ((rule find_create)+, code_simp)+

lemma media_columns_8:
  "has_columns media_tables_8 TABLE_PROFILE [(''sToken'', C_text)]"
  "has_columns media_tables_8 TABLE_VIDEO_SOURCE_CONFIGURATION [(''sToken'', C_text)]"
  "has_columns media_tables_8 TABLE_VIDEO_SOURCE [(''sToken'', C_text)]"
  unfolding media_tables_8_def by ((rule find_create)+, code_simp)+

lemma event_columns_1:
  "has_columns event_tables_1 TABLE_EVENT_TRIGGERS []"
  "has_columns event_tables_1 TABLE_EVENT_SCHEDULES [(''id'', C_int)]"
  unfolding event_tables_1_def by ((rule find_create)+, code_simp)+

lemma event_columns_3:
  "has_columns event_tables_3 TABLE_FACE_LIST [(''id'', C_int), (''sRegistrationTime'', C_text), (''sPicturePath'', C_text), (''sName'', C_text),
     (''sType'', C_text), (''sNote'', C_text), (''iLoadCompleted'', C_int), (''iFaceDBId'', C_int)]"
  "has_columns event_tables_3 TABLE_FACE_SNAPSHOT_RECORD [(''sTime'', C_text), (''sPicturePath'', C_text), (''sStatus'', C_text), (''sNote'', C_text)]"
  "has_columns event_tables_3 TABLE_FACE_CONTROL_RECORD [(''sTime'', C_text), (''iFaceId'', C_int), (''sSnapshotPath'', C_text), (''sStatus'', C_text),
     (''sSimilarity'', C_text)]"
  unfolding event_tables_3_def by ((rule find_create)+, code_simp)+

lemmas client_columns =
  system_columns_5 [THEN has_columns_part [OF table_parts(1)]]
  system_columns_2 [THEN has_columns_part [OF table_parts(2)]]
  storage_columns_1 [THEN has_columns_part [OF table_parts(3)]]
  storage_columns_2 [THEN has_columns_part [OF table_parts(4)]]
  network_columns_1 [THEN has_columns_part [OF table_parts(5)]]
  network_columns_2 [THEN has_columns_part [OF table_parts(6)]]
  media_columns_2 [THEN has_columns_part [OF table_parts(7)]]
  media_columns_1 [THEN has_columns_part [OF table_parts(8)]]
  media_columns_7 [THEN has_columns_part [OF table_parts(9)]]
  media_columns_6 [THEN has_columns_part [OF table_parts(10)]]
  media_columns_8 [THEN has_columns_part [OF table_parts(11)]]
  event_columns_1 [THEN has_columns_part [OF table_parts(12)]]
  event_columns_3 [THEN has_columns_part [OF table_parts(13)]]


text \<open>What a request asks of a table: its fields with their kinds; the data of a query are columns.\<close>

fun field_kind :: "string \<times> json \<Rightarrow> (string \<times> coltype) option" where
  "field_kind (k, J_int i) = (if take 1 k = ''i'' then Some (k, C_int) else None)"
| "field_kind (k, J_string s) = (if take 1 k \<noteq> ''i'' then Some (k, C_text) else None)"
| "field_kind _ = None"

definition data_kinds :: "json \<Rightarrow> (string \<times> coltype) list option" where
  "data_kinds data = (case data of
     J_null \<Rightarrow> Some []
   | J_object kvs \<Rightarrow> all_some (map field_kind kvs)
   | J_string s \<Rightarrow> if s = ''*'' then Some [] else if s = ''count(id)'' then Some [(''id'', C_int)] else Some [(s, C_text)]
   | _ \<Rightarrow> None)"

definition typed_request :: "string \<Rightarrow> json \<Rightarrow> bool" where
  "typed_request iface j \<longleftrightarrow> (\<exists>t key ks ds cmd. json_object_object_get j ''table'' = J_string t \<and>
     json_object_object_get j ''key'' = J_object key \<and> json_object_object_get j ''cmd'' = J_string cmd \<and>
     cmd \<in> {''Select'', ''Update'', ''Insert'', ''Delete''} \<and>
     all_some (map field_kind key) = Some ks \<and> data_kinds (json_object_object_get j ''data'') = Some ds \<and>
     has_columns (service_tables iface) t (ks @ ds))"

text \<open>A bus that records the calls and answers none.\<close>

definition recorder :: "(string \<times> string \<times> string) list bus" where
  "recorder = \<lparr>bu_connect = (\<lambda>_. True), bu_call = (\<lambda>iface member json calls. (None, calls @ [(iface, member, json)]))\<rparr>"

definition sends_typed :: "jsonlib \<Rightarrow> ((string \<times> string \<times> string) list, 'a) client \<Rightarrow> bool" where
  "sends_typed jl f \<longleftrightarrow> (\<forall>w. \<not> cl_mutex w \<longrightarrow> (\<exists>r w' calls. f w = Some (r, w') \<and> \<not> cl_mutex w' \<and> cl_peer w' = cl_peer w @ calls \<and>
     list_all (\<lambda>(iface, member, json). member = ''Cmd'' \<and> (\<exists>j. json = jl_print jl j \<and> typed_request iface j)) calls))"

lemma send_cmd_recorded:
  "\<not> cl_mutex w \<Longrightarrow> send_cmd jl recorder j iface w =
     Some (None, w\<lparr>dbus_conn_flag := True, cl_peer := cl_peer w @ [(iface, ''Cmd'', jl_print jl j)]\<rparr>)"
  by (cases w) (simp add: send_cmd_def dbserver_cmd_def DBSERVER_DBUSSEND_def dbus_mutex_lock_def get_dbus_conn_def recorder_def
      dbus_mutex_unlock_def)

lemma send_cmd_typed: "typed_request iface j \<Longrightarrow> sends_typed jl (send_cmd jl recorder j iface)"
  unfolding sends_typed_def by (auto simp: send_cmd_recorded)

lemma discard_typed: "sends_typed jl f \<Longrightarrow> sends_typed jl (discard f)"
  unfolding sends_typed_def discard_def by fastforce

lemma no_call_typed: "sends_typed jl (\<lambda>w. Some (x, w))"
  unfolding sends_typed_def by auto

lemma request_typed:
  assumes "has_columns (service_tables iface) t kts" and "cmd \<in> {''Select'', ''Update'', ''Insert'', ''Delete''}"
    and "case (all_some (map field_kind key), data_kinds data) of
      (Some ks, Some ds) \<Rightarrow> list_all (\<lambda>kt. kt \<in> set kts) (ks @ ds) | _ \<Rightarrow> False"
  shows "typed_request iface (j_request t (J_object key) data cmd)"
proof -
  from assms(3) obtain ks ds where k: "all_some (map field_kind key) = Some ks" "data_kinds data = Some ds" "set (ks @ ds) \<subseteq> set kts"
    by (auto simp: list_all_iff split: option.splits)
  with has_columns_fewer [OF assms(1) k(3)] assms(2) show ?thesis
    unfolding typed_request_def by (auto simp: j_request_def json_object_object_get_def)
qed

lemma all_some_append:
  "all_some (xs @ ys) = (case all_some xs of None \<Rightarrow> None | Some a \<Rightarrow> (case all_some ys of None \<Rightarrow> None | Some b \<Rightarrow> Some (a @ b)))"
  by (induction xs) (auto split: option.split)

text \<open>Data that the library prints and reads again first.\<close>

lemma set_json_typed:
  assumes "json_codec jl" and "flat_row data" and "typed_request iface (j_request t (J_object key) data ''Update'')"
  shows "sends_typed jl (set_json_cmd jl recorder t (Some (jl_print jl data)) key iface)"
proof -
  have "jl_parse jl (jl_print jl data) = data" using assms(1,2) by (simp add: json_codec_def)
  with send_cmd_typed [OF assms(3), of jl] show ?thesis by (simp add: set_json_cmd_def client_defs sends_typed_def)
qed

lemma opt_kinds:
  "take 1 n \<noteq> ''i'' \<Longrightarrow> all_some (map field_kind (opt_s n p)) = Some (case p of None \<Rightarrow> [] | Some _ \<Rightarrow> [(n, C_text)])"
  "take 1 n = ''i'' \<Longrightarrow> all_some (map field_kind (opt_i n q)) = Some (case q of None \<Rightarrow> [] | Some _ \<Rightarrow> [(n, C_int)])"
  by (simp_all add: opt_s_def opt_i_def split: option.split)

lemma same_names: "TABLE_NTP = TABLE_NETWORK_NTP" "TABLE_ZONE = TABLE_NETWORK_ZONE" "TABLE_PORT = TABLE_NETWORK_PORT"
  by (simp_all add: TABLE_NTP_def TABLE_ZONE_def TABLE_PORT_def TABLE_NETWORK_NTP_def TABLE_NETWORK_ZONE_def TABLE_NETWORK_PORT_def)

lemmas kind_simps = data_kinds_def all_some_append opt_kinds user_key_def

lemma system_requests:
  "sends_typed jl (dbserver_system_user_add jl recorder u p a l f)"
  "sends_typed jl (dbserver_system_user_del_username jl recorder u)"
  "sends_typed jl (dbserver_system_user_set jl recorder u p a l)"
  "sends_typed jl (dbserver_system_user_get jl recorder u p a l)"
  "sends_typed jl (dbserver_system_user_delete jl recorder i)"
  "sends_typed jl (dbserver_system_para_get_by_name jl recorder n)"
  unfolding dbserver_system_user_add_def dbserver_system_user_del_username_def dbserver_system_user_set_def dbserver_system_user_get_def dbserver_system_user_delete_def dbserver_system_para_get_by_name_def client_defs same_names
  by (intro discard_typed send_cmd_typed client_columns [THEN request_typed]; simp add: kind_simps split: option.split)+

lemma storage_requests:
  "sends_typed jl (dbserver_get_storage_disk_path jl recorder None)"
  "sends_typed jl (dbserver_get_storage_media_folder jl recorder)"
  "sends_typed jl (dbserver_update_storage_media_folder_duty jl recorder i i2 i3 i4)"
  "sends_typed jl (dbserver_get_storage_config jl recorder)"
  "sends_typed jl (dbserver_update_storage_config_freesize jl recorder i)"
  "sends_typed jl (dbserver_get_storage_plan_snap jl recorder i)"
  unfolding dbserver_get_storage_disk_path_def dbserver_get_storage_media_folder_def dbserver_update_storage_media_folder_duty_def dbserver_get_storage_config_def dbserver_update_storage_config_freesize_def dbserver_get_storage_plan_snap_def client_defs same_names opt_s_def option.case
  by (intro discard_typed send_cmd_typed client_columns [THEN request_typed]; simp add: kind_simps split: option.split)+

lemma network_requests:
  "sends_typed jl (dbserver_network_ipv4_set jl recorder n u p u2 p2)"
  "sends_typed jl (dbserver_network_dns_set jl recorder n u p)"
  "sends_typed jl (dbserver_network_nicspeed_set jl recorder n u)"
  "sends_typed jl (dbserver_network_ip_get jl recorder u)"
  "sends_typed jl (dbserver_network_service_connect_set jl recorder n p a l)"
  "sends_typed jl (dbserver_network_service_get jl recorder u)"
  "sends_typed jl (dbserver_network_power_get jl recorder u)"
  "sends_typed jl (dbserver_network_power_set jl recorder n i)"
  "sends_typed jl (dbserver_ntp_set jl recorder u p u2 p2 a l f)"
  "sends_typed jl (dbserver_ntp_get jl recorder)"
  "sends_typed jl (dbserver_zone_get jl recorder)"
  "sends_typed jl (dbserver_port_get jl recorder)"
  unfolding dbserver_network_ipv4_set_def dbserver_network_dns_set_def dbserver_network_nicspeed_set_def dbserver_network_ip_get_def dbserver_network_service_connect_set_def dbserver_network_service_get_def dbserver_network_power_get_def dbserver_network_power_set_def dbserver_ntp_set_def dbserver_ntp_get_def dbserver_zone_get_def dbserver_port_get_def client_defs same_names
  by (intro discard_typed send_cmd_typed client_columns [THEN request_typed]; simp add: kind_simps split: option.split)+

lemma media_requests:
  "sends_typed jl (dbserver_audio_get jl recorder)"
  "sends_typed jl (dbserver_video_get jl recorder)"
  "sends_typed jl (dbserver_video_region_clip_get jl recorder)"
  "sends_typed jl (dbserver_stream_url_get jl recorder)"
  "sends_typed jl (dbserver_media_profile_get jl recorder u)"
  "sends_typed jl (dbserver_video_source_cfg_get jl recorder u)"
  "sends_typed jl (dbserver_video_enc_cfg_get jl recorder u)"
  "sends_typed jl (dbserver_snapshot_record_set jl recorder n n2)"
  "sends_typed jl (dbserver_control_record_set jl recorder n i n2 n3 n4)"
  unfolding dbserver_audio_get_def dbserver_video_get_def dbserver_video_region_clip_get_def dbserver_stream_url_get_def dbserver_media_profile_get_def dbserver_video_source_cfg_get_def dbserver_video_enc_cfg_get_def dbserver_snapshot_record_set_def dbserver_control_record_set_def client_defs same_names dbserver_media_get_def
  by (intro discard_typed send_cmd_typed client_columns [THEN request_typed]; simp add: kind_simps split: option.split)+

lemma optional_requests:
  "sends_typed jl (dbserver_scopes_add jl recorder u)" "sends_typed jl (dbserver_system_para_set_by_name jl recorder n u)"
  "sends_typed jl (dbserver_storage_disk_path_get_by_name jl recorder u)" "sends_typed jl (dbserver_storage_disk_path_set_by_name jl recorder u p)"
  "sends_typed jl (dbserver_update_storage_config_mountpath jl recorder u)"
proof -
  have scope: "sends_typed jl (discard (insert_cmd jl recorder TABLE_SYSTEM_SCOPES [(''sScopeItem'', J_string x)] DBSERVER_SYSTEM_INTERFACE))"
    and para: "sends_typed jl (update_cmd jl recorder TABLE_SYSTEM_PARA [(''name'', J_string n)] (J_object [(''para'', J_string x)]) DBSERVER_SYSTEM_INTERFACE)"
    and get: "sends_typed jl (select_cmd jl recorder TABLE_STORAGE_DISK_PATH [(''sName'', J_string x)] DBSERVER_STORAGE_INTERFACE)"
    and put: "sends_typed jl (update_cmd jl recorder TABLE_STORAGE_DISK_PATH [(''sName'', J_string x)] (J_object [(''sPath'', J_string y)]) DBSERVER_STORAGE_INTERFACE)"
    and mnt: "sends_typed jl (update_cmd jl recorder TABLE_STORAGE_CONFIG [(''id'', J_int 0)] (J_object [(''sMountPath'', J_string x)]) DBSERVER_STORAGE_INTERFACE)"
    for x y
    unfolding client_defs by (intro discard_typed send_cmd_typed client_columns [THEN request_typed]; simp add: kind_simps)+
  show "sends_typed jl (dbserver_scopes_add jl recorder u)"
    using scope no_call_typed by (cases u) (simp_all add: dbserver_scopes_add_def sends_typed_def)
  show "sends_typed jl (dbserver_system_para_set_by_name jl recorder n u)"
    using para no_call_typed by (cases u) (simp_all add: dbserver_system_para_set_by_name_def sends_typed_def)
  show "sends_typed jl (dbserver_storage_disk_path_get_by_name jl recorder u)"
    using get no_call_typed by (cases u) (simp_all add: dbserver_storage_disk_path_get_by_name_def sends_typed_def)
  show "sends_typed jl (dbserver_storage_disk_path_set_by_name jl recorder u p)"
    using put no_call_typed by (cases u; cases p) (simp_all add: dbserver_storage_disk_path_set_by_name_def sends_typed_def)
  show "sends_typed jl (dbserver_update_storage_config_mountpath jl recorder u)"
    using mnt no_call_typed by (cases u) (simp_all add: dbserver_update_storage_config_mountpath_def sends_typed_def)
qed

lemma special_requests:
  "sends_typed jl (dbserver_system_user_num_get jl recorder u p a l)" "sends_typed jl (dbserver_network_service_delete jl recorder n)"
proof -
  have "typed_request DBSERVER_SYSTEM_INTERFACE (j_request TABLE_SYSTEM_USER (J_object (user_key u p a l)) (J_string ''count(id)'') ''Select'')"
    by (intro client_columns [THEN request_typed]) (simp_all add: kind_simps split: option.split)
  then show "sends_typed jl (dbserver_system_user_num_get jl recorder u p a l)"
    unfolding sends_typed_def dbserver_system_user_num_get_def by (auto simp: send_cmd_recorded)
  have "has_columns (service_tables DBSERVER_NET_INTERFACE) TABLE_NETWORK_SERVICE [(''sService'', C_text)]"
    by (rule has_columns_fewer [OF network_columns_1(2) [THEN has_columns_part [OF table_parts(5)]]]) simp
  then show "sends_typed jl (dbserver_network_service_delete jl recorder n)"
    unfolding dbserver_network_service_delete_def
    by (intro send_cmd_typed) (simp add: typed_request_def json_object_object_get_def data_kinds_def)
qed

lemma face_requests:
  assumes "json_codec jl" and "int32_ok flag" "int32_ok face_id"
  shows "sends_typed jl (dbserver_face_list_add jl recorder n i n2 n3 n4)" "sends_typed jl (dbserver_face_load_complete jl recorder i flag)"
    "sends_typed jl (dbserver_face_load_complete_by_path jl recorder n flag face_id)"
  unfolding dbserver_face_list_add_def dbserver_face_load_complete_def dbserver_face_load_complete_by_path_def dbserver_event_set_def
    dbserver_event_set_by_char_key_def
  by (intro discard_typed set_json_typed [OF assms(1)] client_columns [THEN request_typed]; simp add: kind_simps flat_row_def flat_cell_def assms)+

text \<open>Requests whose table, column or values come from the caller.\<close>

lemma chosen_typed:
  assumes "has_columns (service_tables iface) t (ks @ ds)" and "cmd \<in> {''Select'', ''Update'', ''Insert'', ''Delete''}"
    and "all_some (map field_kind key) = Some ks" "data_kinds data = Some ds"
  shows "sends_typed jl (send_cmd jl recorder (j_request t (J_object key) data cmd) iface)"
  by (rule send_cmd_typed, rule request_typed [OF assms(1,2)]) (simp add: assms(3,4) list_all_iff)

lemma query_kinds: "data_kinds (J_string ''*'') = Some []" "data_kinds (J_object []) = Some []"
  by (simp_all add: data_kinds_def)

lemma table_chosen:
  assumes "has_columns (service_tables iface) t []"
  shows "sends_typed jl (select_cmd jl recorder t [] iface)" "sends_typed jl (delete_cmd jl recorder t [] (J_string ''*'') iface)"
  unfolding select_cmd_def delete_cmd_def
  by (rule chosen_typed [where ks = "[]" and ds = "[]"]; simp add: assms query_kinds)+

lemma text_key_chosen:
  assumes "has_columns (service_tables iface) t [(k, C_text)]" and "take 1 k \<noteq> ''i''"
  shows "sends_typed jl (select_cmd jl recorder t [(k, J_string v)] iface)"
    "sends_typed jl (delete_cmd jl recorder t [(k, J_string v)] (J_string ''*'') iface)"
    "sends_typed jl (delete_cmd jl recorder t [(k, J_string v)] (J_object []) iface)"
  unfolding select_cmd_def delete_cmd_def
  by (rule chosen_typed [where ks = "[(k, C_text)]" and ds = "[]"]; use assms in \<open>simp add: query_kinds\<close>)+

lemma int_key_chosen:
  assumes "has_columns (service_tables iface) t [(k, C_int)]" and "take 1 k = ''i''"
  shows "sends_typed jl (select_cmd jl recorder t [(k, J_int v)] iface)"
    "sends_typed jl (delete_cmd jl recorder t [(k, J_int v)] (J_string ''*'') iface)"
    "sends_typed jl (delete_cmd jl recorder t [(k, J_int v)] (J_object []) iface)"
  unfolding select_cmd_def delete_cmd_def
  by (rule chosen_typed [where ks = "[(k, C_int)]" and ds = "[]"]; use assms in \<open>simp add: query_kinds\<close>)+

text \<open>A document of the caller that, with the columns of the key, fits a table; NULL is not sent.\<close>

definition document_fits :: "jsonlib \<Rightarrow> string \<Rightarrow> string \<Rightarrow> (string \<times> coltype) list \<Rightarrow> string option \<Rightarrow> bool" where
  "document_fits jl iface t ks json = (case json of
     None \<Rightarrow> True
   | Some doc \<Rightarrow> (case data_kinds (jl_parse jl doc) of
       None \<Rightarrow> False | Some ds \<Rightarrow> has_columns (service_tables iface) t (ks @ ds)))"

lemma document_chosen:
  assumes "document_fits jl iface t ks json" and "all_some (map field_kind key) = Some ks'" "set ks' \<subseteq> set ks"
  shows "sends_typed jl (set_json_cmd jl recorder t json key iface)"
proof (cases json)
  case None
  then show ?thesis by (simp add: set_json_cmd_def sends_typed_def)
next
  case (Some doc)
  with assms(1) obtain ds where ds: "data_kinds (jl_parse jl doc) = Some ds" "has_columns (service_tables iface) t (ks @ ds)"
    by (auto simp: document_fits_def split: option.splits)
  from ds(2) have "has_columns (service_tables iface) t (ks' @ ds)" by (rule has_columns_fewer) (use assms(3) in auto)
  from chosen_typed [OF this _ assms(2) ds(1), of "''Update''" jl] Some show ?thesis
    by (simp add: set_json_cmd_def update_cmd_def sends_typed_def)
qed

lemma video_key_kinds: "\<exists>ks. all_some (map field_kind (video_key st)) = Some ks \<and> set ks \<subseteq> {(''id'', C_int)}"
  by (auto simp: video_key_def)

text \<open>The functions that leave the table, a column or the values to the caller, when these fit.\<close>

definition chosen_requests_typed :: "jsonlib \<Rightarrow> string \<Rightarrow> bool" where
  "chosen_requests_typed jl t \<longleftrightarrow>
    (has_columns (service_tables DBSERVER_EVENT_INTERFACE) t [] \<longrightarrow>
       sends_typed jl (dbserver_event_get jl recorder t) \<and> sends_typed jl (dbserver_face_reset jl recorder t)) \<and>
    (has_columns (service_tables DBSERVER_MEDIA_INTERFACE) t [] \<longrightarrow> sends_typed jl (dbserver_media_get jl recorder t)) \<and>
    (has_columns (service_tables DBSERVER_STORAGE_INTERFACE) t [] \<longrightarrow> sends_typed jl (dbserver_storage_get jl recorder t)) \<and>
    (has_columns (service_tables DBSERVER_SYSTEM_INTERFACE) t [] \<longrightarrow> sends_typed jl (dbserver_system_get jl recorder t)) \<and>
    (has_columns (service_tables DBSERVER_PERIPHERALS_INTERFACE) t [] \<longrightarrow> sends_typed jl (dbserver_peripherals_get jl recorder t)) \<and>
    (\<forall>i. has_columns (service_tables DBSERVER_EVENT_INTERFACE) t [(''id'', C_int)] \<longrightarrow> sends_typed jl (dbserver_event_get_by_id jl recorder t i)) \<and>
    (\<forall>i. has_columns (service_tables DBSERVER_MEDIA_INTERFACE) t [(''id'', C_int)] \<longrightarrow> sends_typed jl (dbserver_media_get_by_id jl recorder t i)) \<and>
    (\<forall>k v. take 1 k \<noteq> ''i'' \<longrightarrow>
      (has_columns (service_tables DBSERVER_EVENT_INTERFACE) t [(k, C_text)] \<longrightarrow>
        sends_typed jl (dbserver_event_get_by_key_char jl recorder t k v) \<and> sends_typed jl (dbserver_event_delete_by_key_char jl recorder t k v)) \<and>
      (has_columns (service_tables DBSERVER_MEDIA_INTERFACE) t [(k, C_text)] \<longrightarrow> sends_typed jl (dbserver_media_get_by_key_char jl recorder t k v)) \<and>
      (has_columns (service_tables DBSERVER_SYSTEM_INTERFACE) t [(k, C_text)] \<longrightarrow>
        sends_typed jl (dbserver_system_get_by_key_char jl recorder t k v) \<and> sends_typed jl (dbserver_system_del_by_key_char jl recorder t (Some k) v))) \<and>
    (\<forall>k i. take 1 k = ''i'' \<longrightarrow>
      (has_columns (service_tables DBSERVER_EVENT_INTERFACE) t [(k, C_int)] \<longrightarrow>
        sends_typed jl (dbserver_event_get_by_key_int jl recorder t k i) \<and> sends_typed jl (dbserver_event_delete_by_key_int jl recorder t k i)) \<and>
      (has_columns (service_tables DBSERVER_SYSTEM_INTERFACE) t [(k, C_int)] \<longrightarrow> sends_typed jl (dbserver_system_del_by_key_int jl recorder t (Some k) i)))"

definition document_requests_typed :: "jsonlib \<Rightarrow> string \<Rightarrow> string option \<Rightarrow> bool" where
  "document_requests_typed jl t json \<longleftrightarrow>
    (\<forall>i. document_fits jl DBSERVER_EVENT_INTERFACE t [(''id'', C_int)] json \<longrightarrow> sends_typed jl (dbserver_event_set jl recorder t json i)) \<and>
    (\<forall>i. document_fits jl DBSERVER_MEDIA_INTERFACE t [(''id'', C_int)] json \<longrightarrow> sends_typed jl (dbserver_media_set jl recorder t json i)) \<and>
    (\<forall>i. document_fits jl DBSERVER_STORAGE_INTERFACE t [(''id'', C_int)] json \<longrightarrow> sends_typed jl (dbserver_storage_set jl recorder t json i)) \<and>
    (\<forall>i. document_fits jl DBSERVER_SYSTEM_INTERFACE t [(''id'', C_int)] json \<longrightarrow> sends_typed jl (dbserver_system_set jl recorder t json i)) \<and>
    (\<forall>i. document_fits jl DBSERVER_PERIPHERALS_INTERFACE t [(''id'', C_int)] json \<longrightarrow> sends_typed jl (dbserver_peripherals_set jl recorder t json i)) \<and>
    (\<forall>k v. take 1 k \<noteq> ''i'' \<longrightarrow> document_fits jl DBSERVER_EVENT_INTERFACE t [(k, C_text)] json \<longrightarrow>
      sends_typed jl (dbserver_event_set_by_char_key jl recorder t json k v)) \<and>
    (\<forall>tok. document_fits jl DBSERVER_MEDIA_INTERFACE t [(''sToken'', C_text)] json \<longrightarrow>
      sends_typed jl (dbserver_media_set_by_token jl recorder t json tok)) \<and>
    (\<forall>i. document_fits jl DBSERVER_NET_INTERFACE TABLE_NETWORK_PORT [(''id'', C_int)] json \<longrightarrow> sends_typed jl (dbserver_port_set jl recorder json i)) \<and>
    (\<forall>i. document_fits jl DBSERVER_STORAGE_INTERFACE TABLE_STORAGE_PLAN_SNAP [(''id'', C_int)] json \<longrightarrow>
      sends_typed jl (dbserver_set_storage_plan_snap jl recorder json i)) \<and>
    (document_fits jl DBSERVER_MEDIA_INTERFACE TABLE_AUDIO [(''id'', C_int)] json \<longrightarrow> sends_typed jl (dbserver_audio_set jl recorder json)) \<and>
    (\<forall>i. document_fits jl DBSERVER_MEDIA_INTERFACE TABLE_STREAM_URL [(''id'', C_int)] json \<longrightarrow> sends_typed jl (dbserver_stream_url_set jl recorder json i)) \<and>
    (\<forall>i. document_fits jl DBSERVER_MEDIA_INTERFACE TABLE_VIDEO_REGION_CLIP [(''id'', C_int)] json \<longrightarrow>
      sends_typed jl (dbserver_video_region_clip_set jl recorder json i)) \<and>
    (\<forall>st. document_fits jl DBSERVER_MEDIA_INTERFACE TABLE_VIDEO [(''id'', C_int)] json \<longrightarrow> sends_typed jl (dbserver_video_set jl recorder json st))"

lemma chosen_requests: "chosen_requests_typed jl t"
proof -
  have drop_t: "sends_typed jl (dbserver_system_del_by_key_char jl recorder t (Some k) v)"
    if "has_columns (service_tables DBSERVER_SYSTEM_INTERFACE) t [(k, C_text)]" "take 1 k \<noteq> ''i''" for k v
    using discard_typed [OF text_key_chosen(3) [OF that]] by (simp add: dbserver_system_del_by_key_char_def sends_typed_def)
  have drop_i: "sends_typed jl (dbserver_system_del_by_key_int jl recorder t (Some k) v)"
    if "has_columns (service_tables DBSERVER_SYSTEM_INTERFACE) t [(k, C_int)]" "take 1 k = ''i''" for k v
    using discard_typed [OF int_key_chosen(3) [OF that]] by (simp add: dbserver_system_del_by_key_int_def sends_typed_def)
  show ?thesis
    unfolding chosen_requests_typed_def dbserver_event_get_def dbserver_face_reset_def dbserver_media_get_def dbserver_storage_get_def
      dbserver_system_get_def dbserver_peripherals_get_def dbserver_event_get_by_id_def dbserver_media_get_by_id_def
      dbserver_event_get_by_key_char_def dbserver_event_delete_by_key_char_def dbserver_media_get_by_key_char_def
      dbserver_system_get_by_key_char_def dbserver_event_get_by_key_int_def dbserver_event_delete_by_key_int_def
    by (intro conjI allI impI; (rule discard_typed)?;
        (rule table_chosen text_key_chosen int_key_chosen drop_t drop_i; (assumption | simp)))
qed

lemma document_requests: "document_requests_typed jl t json"
proof -
  have tok: "sends_typed jl (dbserver_media_set_by_token jl recorder t json k)"
    if "document_fits jl DBSERVER_MEDIA_INTERFACE t [(''sToken'', C_text)] json" for k
    using document_chosen [OF that, of "[(''sToken'', J_string k)]"] no_call_typed
    by (cases "token_table t") (simp_all add: dbserver_media_set_by_token_def sends_typed_def)
  have vid: "sends_typed jl (dbserver_video_set jl recorder json st)"
    if "document_fits jl DBSERVER_MEDIA_INTERFACE TABLE_VIDEO [(''id'', C_int)] json" for st
    using video_key_kinds [of st] document_chosen [OF that] by (auto simp: dbserver_video_set_def)
  show ?thesis
    unfolding document_requests_typed_def dbserver_event_set_def dbserver_media_set_def dbserver_storage_set_def dbserver_system_set_def
      dbserver_peripherals_set_def dbserver_event_set_by_char_key_def dbserver_port_set_def dbserver_set_storage_plan_snap_def
      dbserver_audio_set_def dbserver_stream_url_set_def dbserver_video_region_clip_set_def same_names
    by (intro conjI allI impI; (rule tok vid, assumption)?; rule document_chosen, assumption, simp, simp)
qed

lemma token_tables: "token_table t \<Longrightarrow> has_columns (service_tables DBSERVER_MEDIA_INTERFACE) t [(''sToken'', C_text)]"
  using media_columns_8 [THEN has_columns_part [OF table_parts(11)]] by (auto simp: token_table_def)

lemma single_requests:
  "sends_typed jl (dbserver_media_del_by_token jl recorder t n)"
  "sends_typed jl (dbserver_event_triggers_parse jl recorder k)"
  "sends_typed jl (dbserver_event_schedules_parse jl dbl recorder i wk)"
  "sends_typed jl (dbserver_storage_snap_plan_parse jl recorder i b)"
  "sends_typed jl (dbserver_storage_video_plan_parse jl recorder)"
proof -
  have parse: "sends_typed jl (\<lambda>w. Option.bind (f w) (\<lambda>(str, w1). g str w1))"
    if "\<And>w. \<not> cl_mutex w \<Longrightarrow> \<exists>w'. f w = Some (None, w')" "sends_typed jl f" "\<And>w1. \<exists>x. g None w1 = Some (x, w1)" for f and g
    unfolding sends_typed_def
  proof (intro allI impI)
    fix w :: "(string \<times> string \<times> string) list cl"
    assume w: "\<not> cl_mutex w"
    from that(1) [OF w] obtain w1 where f: "f w = Some (None, w1)" by blast
    from that(3) [of w1] obtain x where "Option.bind (f w) (\<lambda>(str, w1). g str w1) = Some (x, w1)" by (auto simp: f)
    with that(2) w f show "\<exists>r w' calls. Option.bind (f w) (\<lambda>(str, w1). g str w1) = Some (r, w') \<and> \<not> cl_mutex w' \<and>
        cl_peer w' = cl_peer w @ calls \<and>
        list_all (\<lambda>(iface, member, json). member = ''Cmd'' \<and> (\<exists>j. json = jl_print jl j \<and> typed_request iface j)) calls"
      unfolding sends_typed_def by fastforce
  qed
  have none: "\<exists>w'. send_cmd jl recorder j iface w = Some (None, w')" if "\<not> cl_mutex w" for j iface w
    using send_cmd_recorded [OF that] by simp
  note tables = client_columns [THEN has_columns_fewer, of "[]"]
  show "sends_typed jl (dbserver_media_del_by_token jl recorder t n)"
    using discard_typed [OF text_key_chosen(2) [OF token_tables]] no_call_typed
    by (cases "token_table t") (simp_all add: dbserver_media_del_by_token_def sends_typed_def)
  show "sends_typed jl (dbserver_event_triggers_parse jl recorder k)"
    unfolding dbserver_event_triggers_parse_def
    by (rule parse) (auto simp: reply_row_def dbserver_event_get_def client_defs none
        intro!: send_cmd_typed client_columns [THEN request_typed] simp: kind_simps)
  show "sends_typed jl (dbserver_event_schedules_parse jl dbl recorder i wk)"
    unfolding dbserver_event_schedules_parse_def
    by (rule parse) (auto simp: reply_row_def dbserver_event_get_by_id_def client_defs none
        intro!: send_cmd_typed client_columns [THEN request_typed] simp: kind_simps)
  show "sends_typed jl (dbserver_storage_snap_plan_parse jl recorder i b)"
    unfolding dbserver_storage_snap_plan_parse_def
    by (rule parse) (auto simp: reply_row_def dbserver_get_storage_plan_snap_def client_defs none
        intro!: send_cmd_typed client_columns [THEN request_typed] simp: kind_simps)
  show "sends_typed jl (dbserver_storage_video_plan_parse jl recorder)"
    unfolding dbserver_storage_video_plan_parse_def
    by (rule parse) (auto simp: reply_row_def dbserver_storage_get_def client_defs none
        intro!: send_cmd_typed client_columns [THEN request_typed] simp: kind_simps)
qed

lemma power_requests:
  "sends_typed jl (dbserver_wifi_power_set jl recorder i)" "sends_typed jl (dbserver_wifi_power_get jl recorder)"
  "sends_typed jl (dbserver_ethernet_power_set jl recorder i)" "sends_typed jl (dbserver_ethernet_power_get jl recorder)"
  unfolding dbserver_wifi_power_set_def dbserver_wifi_power_get_def dbserver_ethernet_power_set_def dbserver_ethernet_power_get_def
  by (rule network_requests)+

lemma unkeyed_requests:
  "sends_typed jl (dbserver_get_storage_disk_path jl recorder None)" "sends_typed jl (dbserver_video_source_get jl recorder None)"
  unfolding dbserver_get_storage_disk_path_def dbserver_video_source_get_def opt_s_def option.case
  by (rule table_chosen(1), rule client_columns [THEN has_columns_fewer], simp)+

lemma has_columns_steps:
  "has_columns (xs @ ys) t kts \<longleftrightarrow> has_columns xs t kts \<or> has_columns ys t kts"
  "has_columns [] t kts \<longleftrightarrow> False"
  "has_columns (Create t' cols # sts) t kts \<longleftrightarrow> (t' = t \<and> text_has cols kts) \<or> has_columns sts t kts"
  "has_columns (Insert t' ns vs # sts) t kts \<longleftrightarrow> has_columns sts t kts"
  by (simp_all add: has_columns_def)

lemma source_names:
  "TABLE_VIDEO \<noteq> TABLE_VIDEO_SOURCE" "TABLE_VIDEO_ADVANCED_ENC \<noteq> TABLE_VIDEO_SOURCE" "TABLE_AUDIO \<noteq> TABLE_VIDEO_SOURCE"
  "TABLE_STREAM_URL \<noteq> TABLE_VIDEO_SOURCE" "TABLE_IMAGE_SCENARIO \<noteq> TABLE_VIDEO_SOURCE" "TABLE_IMAGE_ADJUSTMENT \<noteq> TABLE_VIDEO_SOURCE"
  "TABLE_IMAGE_EXPOSURE \<noteq> TABLE_VIDEO_SOURCE" "TABLE_IMAGE_NIGHT_TO_DAY \<noteq> TABLE_VIDEO_SOURCE" "TABLE_IMAGE_BLC \<noteq> TABLE_VIDEO_SOURCE"
  "TABLE_IMAGE_WHITE_BLANCE \<noteq> TABLE_VIDEO_SOURCE" "TABLE_IMAGE_ENHANCEMENT \<noteq> TABLE_VIDEO_SOURCE"
  "TABLE_IMAGE_VIDEO_ADJUSTMEN \<noteq> TABLE_VIDEO_SOURCE" "TABLE_NORMALIZED_SCREEN_SIZE \<noteq> TABLE_VIDEO_SOURCE" "TABLE_OSD \<noteq> TABLE_VIDEO_SOURCE"
  "TABLE_ROI \<noteq> TABLE_VIDEO_SOURCE" "TABLE_VIDEO_REGION_CLIP \<noteq> TABLE_VIDEO_SOURCE" "TABLE_PROFILE \<noteq> TABLE_VIDEO_SOURCE"
  "TABLE_VIDEO_SOURCE_CONFIGURATION \<noteq> TABLE_VIDEO_SOURCE" "TABLE_METADATA \<noteq> TABLE_VIDEO_SOURCE"
  by (simp_all add: table_names)

lemma disk_names: "TABLE_STORAGE_MEDIA_FOLDER \<noteq> TABLE_STORAGE_DISK_PATH" "TABLE_STORAGE_CONFIG \<noteq> TABLE_STORAGE_DISK_PATH"
  "TABLE_STORAGE_PLAN_SNAP \<noteq> TABLE_STORAGE_DISK_PATH" "TABLE_STORAGE_ADVANCE_PARA \<noteq> TABLE_STORAGE_DISK_PATH"
  by (simp_all add: table_names)

lemma no_mountpath: "\<not> has_columns storage_tables TABLE_STORAGE_DISK_PATH [(''sMOUNTPATH'', C_text)]"
  unfolding storage_tables_def storage_tables_1_def storage_tables_2_def has_columns_steps disk_names [THEN eq_False [THEN iffD2]] simp_thms
  by code_simp

lemma no_source_token: "\<not> has_columns media_tables TABLE_VIDEO_SOURCE [(''sVideoSourceToken'', C_text)]"
  unfolding media_tables_def media_tables_1_def media_tables_2_def media_tables_3_def media_tables_4_def media_tables_5_def media_tables_6_def
    media_tables_7_def media_tables_8_def has_columns_steps source_names [THEN eq_False [THEN iffD2]] simp_thms
  by code_simp

lemma unknown_columns:
  "dbserver_get_storage_disk_path jl bus (Some path) =
     select_cmd jl bus TABLE_STORAGE_DISK_PATH [(''sMOUNTPATH'', J_string path)] DBSERVER_STORAGE_INTERFACE"
  "\<not> has_columns (service_tables DBSERVER_STORAGE_INTERFACE) TABLE_STORAGE_DISK_PATH [(''sMOUNTPATH'', C_text)]"
  "dbserver_video_source_get jl bus (Some tok) =
     select_cmd jl bus TABLE_VIDEO_SOURCE [(''sVideoSourceToken'', J_string tok)] DBSERVER_MEDIA_INTERFACE"
  "\<not> has_columns (service_tables DBSERVER_MEDIA_INTERFACE) TABLE_VIDEO_SOURCE [(''sVideoSourceToken'', C_text)]"
  unfolding service_tables_at using no_mountpath no_source_token
  by (simp_all add: dbserver_get_storage_disk_path_def dbserver_video_source_get_def opt_s_def)



section \<open>Making the face tables anew\<close>

lemma command_answered:
  fixes s :: "'d dbs"
  assumes "json_codec jl" and "sql_laws sq" and "flat_row (J_object kvs)" and "cmd = ''Drop'' \<or> cmd = ''Create''"
    and "json_object_object_get (J_object kvs) ''cmd'' = J_string cmd" and "json_object_object_get (J_object kvs) ''table'' = J_string t"
    and "iface \<in> set db_interfaces" and "\<not> cl_mutex w" "cl_peer w = Some s"
    and "sql = command_sql jl cmd (Some t) [] J_null (json_object_object_get (J_object kvs) ''col'')"
    and "no_rows sq sql"
  shows "\<exists>r w' s'. send_cmd jl (db_bus jl sq) (J_object kvs) iface w = Some (Some r, w') \<and> \<not> cl_mutex w' \<and> cl_peer w' = Some s' \<and>
    db_ran s' = db_ran s @ [sql]"
proof -
  let ?j = "J_object kvs"
  have sql: "command_sql jl cmd (table_of jl ?j) [] (json_object_object_get ?j ''data'') (json_object_object_get ?j ''col'') = sql"
    using assms(4,6,10) by (auto simp: command_sql_def table_of_def json_object_get_string_def)
  have ok: "request_ok ?j cmd []" "cmd \<noteq> ''Update''" using assms(4,5) by (auto simp: request_ok_def)
  have sane: "sane_result (result sql sq s)" by (rule no_rows_sane [OF assms(2) assms(11)])
  have run: "run_cmd jl sq ?j s = Some ((jl_print jl (the_reply (result sql sq s)), changes_data cmd), ran sql sq s)"
    by (rule run_cmd_single [OF ok sql [symmetric] sane])
  have "jl_parse jl (jl_print jl ?j) = ?j" using assms(1,3) by (auto simp: json_codec_def)
  from method_cmd_at [OF json_codecD(1) [OF assms(1)] this [symmetric] run sane, of iface]
  obtain s' where "method_cmd jl sq (Some iface) (jl_print jl ?j) s = Some (jl_print jl (the_reply (result sql sq s)), s')"
    "db_ran s' = db_ran s @ [sql]" by (auto simp: ran_def)
  with send_cmd_answered [OF assms(1,8,9,7)] assms(8) show ?thesis by fastforce
qed

lemma face_cols_are_the_servers: "face_table_cols t = Some cols \<Longrightarrow> Create t cols \<in> set event_tables"
  by (auto simp: face_table_cols_def event_tables_def event_tables_3_def face_list_cols_def face_snapshot_cols_def face_control_cols_def
      sqt_def split: if_splits)

text \<open>
  Resetting a face table makes it as the service did.  For the three face tables the
  client library has two statements run, the drop of the table and its creation, with the same
  text of columns as in the initialisation of the service, and returns 0; for any other table it returns
  -1 and sends nothing.
\<close>

theorem face_table_reset:
  assumes "json_codec jl" and "sql_laws sq" and "\<not> cl_mutex w" "cl_peer w = Some s"
    and n: "no_rows sq (drop_sql (Some t))" "\<And>cols. no_rows sq (create_sql (Some t) (Some cols))"
  shows "case face_table_cols t of
      None \<Rightarrow> dbserver_reset_face_table jl (db_bus jl sq) t w = Some (-1, w)
    | Some cols \<Rightarrow> Create t cols \<in> set event_tables \<and>
        (\<exists>w' s'. dbserver_reset_face_table jl (db_bus jl sq) t w = Some (0, w') \<and> cl_peer w' = Some s' \<and>
          db_ran s' = db_ran s @ map step_sql [Drop t, Create t cols])"
proof (cases "face_table_cols t")
  case (Some cols)
  have e: "DBSERVER_EVENT_INTERFACE \<in> set db_interfaces" by (simp add: db_interfaces_def)
  let ?drop = "[(''table'', J_string t), (''cmd'', J_string ''Drop'')]"
  let ?create = "[(''table'', J_string t), (''col'', J_string cols), (''cmd'', J_string ''Create'')]"
  have flat: "flat_row (J_object ?drop)" "flat_row (J_object ?create)" by (simp_all add: flat_row_def flat_cell_def)
  obtain r1 w1 s1 where 1: "dbserver_drop_table jl (db_bus jl sq) t DBSERVER_EVENT_INTERFACE w = Some (r1, w1)"
    "\<not> cl_mutex w1" "cl_peer w1 = Some s1" "db_ran s1 = db_ran s @ [drop_sql (Some t)]"
    using command_answered [OF assms(1,2) flat(1), of "''Drop''" t DBSERVER_EVENT_INTERFACE w s "drop_sql (Some t)"] e assms(3,4) n
    by (auto simp: json_object_object_get_def command_sql_def dbserver_drop_table_def)
  obtain r2 w2 s2 where 2: "dbserver_create_table jl (db_bus jl sq) t cols DBSERVER_EVENT_INTERFACE w1 = Some (r2, w2)"
    "cl_peer w2 = Some s2" "db_ran s2 = db_ran s1 @ [create_sql (Some t) (Some cols)]"
    using command_answered [OF assms(1,2) flat(2), of "''Create''" t DBSERVER_EVENT_INTERFACE w1 s1 "create_sql (Some t) (Some cols)"] e 1 n
    by (auto simp: json_object_object_get_def command_sql_def dbserver_create_table_def json_object_get_string_def)
  from 1 2 Some show ?thesis
    by (simp add: dbserver_reset_face_table_def face_cols_are_the_servers step_sql_def)
qed (simp add: dbserver_reset_face_table_def)

theorem face_table_reset_witness:
  "\<exists>w' s'. dbserver_reset_face_table numbered_json (db_bus numbered_json quiet_db) TABLE_FACE_LIST
      \<lparr>cl_mutex = False, dbus_conn_flag = False, cl_peer = Some \<lparr>db_state = (), db_ran = [], db_signals = []\<rparr>\<rparr> = Some (0, w') \<and>
    cl_peer w' = Some s' \<and> length (db_ran s') = 2"
proof -
  let ?s = "\<lparr>db_state = (), db_ran = [], db_signals = []\<rparr>"
  let ?w = "\<lparr>cl_mutex = False, dbus_conn_flag = False, cl_peer = Some ?s\<rparr>"
  have "face_table_cols TABLE_FACE_LIST = Some face_list_cols" by (simp add: face_table_cols_def)
  with face_table_reset [OF numbered_json_codec quiet_db_laws(1), of ?w ?s TABLE_FACE_LIST] quiet_db_laws(2) show ?thesis by auto
qed
end
