(* ===== verification/IpcClients.thy ===== *)
theory IpcClients
  imports DbRequests
begin

text \<open>
  The other clients of \<^verbatim>\<open>libIPCProtocol\<close>: the media server (\<^verbatim>\<open>mediaserver.cc\<close>), which turns a
  changed database row into method calls by tables, and the network, storage, system and camera
  services (\<^verbatim>\<open>netserver.cc\<close>, \<^verbatim>\<open>storage_manager.cc\<close>, \<^verbatim>\<open>system_manager.cc\<close>, \<^verbatim>\<open>ispserver.cc\<close>).  As in the
  database client, a result \<open>None\<close> is a crash or a lock that is never released.
\<close>

section \<open>Method calls\<close>

datatype dbus_arg = A_int int | A_string string | A_ints "int list" | A_dict "string \<rightharpoonup> string"

text \<open>The bus: bus name, path, interface, member and arguments; no result is a thrown \<^verbatim>\<open>DBus::Error\<close>.\<close>

record 's ipc_bus =
  ib_connect :: "'s \<Rightarrow> bool"
  ib_call :: "string \<Rightarrow> string \<Rightarrow> string \<Rightarrow> string \<Rightarrow> dbus_arg list \<Rightarrow> 's \<Rightarrow> dbus_arg list option \<times> 's"

text \<open>What all the \<^verbatim>\<open>DBUSSEND\<close> macros do: lock, connect, call, unlock; an error is caught and printed.\<close>

definition ipc_send :: "'s ipc_bus \<Rightarrow> string \<Rightarrow> string \<Rightarrow> string \<Rightarrow> string \<Rightarrow> dbus_arg list \<Rightarrow> ('s, dbus_arg list option) client" where
  "ipc_send bus name path interface member args w = do {
     (_, w1) \<leftarrow> dbus_mutex_lock w;
     (case get_dbus_conn \<lparr>bu_connect = ib_connect bus, bu_call = (\<lambda>_ _ _ p. (None, p))\<rparr> w1 of (ok, w2) \<Rightarrow>
       (case (if ok then ib_call bus name path interface member args (cl_peer w2) else (None, cl_peer w2)) of
          (reply, p) \<Rightarrow> Some (reply, dbus_mutex_unlock (w2\<lparr>cl_peer := p\<rparr>)))) }"

text \<open>A method with a text for an argument and a text for a result; a reply of another type is an error too.\<close>

definition ipc_text :: "'s ipc_bus \<Rightarrow> string \<Rightarrow> string \<Rightarrow> string \<Rightarrow> string \<Rightarrow> dbus_arg list \<Rightarrow> ('s, string option) client" where
  "ipc_text bus name path interface member args w = do {
     (reply, w1) \<leftarrow> ipc_send bus name path interface member args w;
     Some (case reply of Some [A_string s] \<Rightarrow> Some (cstr s) | _ \<Rightarrow> None, w1) }"

section \<open>Media server\<close>

definition MEDIASERVER :: string where "MEDIASERVER = ''rockchip.mediaserver.control''"
definition MEDIASERVER_ENCODER_PATH :: string where "MEDIASERVER_ENCODER_PATH = ''/rockchip/mediaserver/control/encoder''"
definition MEDIASERVER_ENCODER_INTERFACE :: string where "MEDIASERVER_ENCODER_INTERFACE = ''rockchip.mediaserver.control.encoder''"
definition MEDIASERVER_AUDIO_PATH :: string where "MEDIASERVER_AUDIO_PATH = ''/rockchip/mediaserver/control/audio''"
definition MEDIASERVER_AUDIO_INTERFACE :: string where "MEDIASERVER_AUDIO_INTERFACE = ''rockchip.mediaserver.control.audio''"
definition MEDIASERVER_FEATURE_PATH :: string where "MEDIASERVER_FEATURE_PATH = ''/rockchip/mediaserver/control/feature''"
definition MEDIASERVER_FEATURE_INTERFACE :: string where "MEDIASERVER_FEATURE_INTERFACE = ''rockchip.mediaserver.control.feature''"
definition MEDIASERVER_ADVANCED_ENCODER_PATH :: string where
  "MEDIASERVER_ADVANCED_ENCODER_PATH = ''/rockchip/mediaserver/control/advancedencoder''"
definition MEDIASERVER_ADVANCED_ENCODER_INTERFACE :: string where
  "MEDIASERVER_ADVANCED_ENCODER_INTERFACE = ''rockchip.mediaserver.control.advancedencoder''"
definition MEDIASERVER_FACE_RECOGNIZE_PATH :: string where
  "MEDIASERVER_FACE_RECOGNIZE_PATH = ''/rockchip/mediaserver/control/facerecognize''"
definition MEDIASERVER_FACE_RECOGNIZE_INTERFACE :: string where
  "MEDIASERVER_FACE_RECOGNIZE_INTERFACE = ''rockchip.mediaserver.control.facerecognize''"

datatype ParamType = PARAM_TYPE_NONE | PARAM_TYPE_INT | PARAM_TYPE_STRING | PARAM_TYPE_ARRAY | PARAM_TYPE_ARRAY_DICT | PARAM_TYPE_STRUCT

datatype ActionType = ACTION_TYPE_NONE | ACTION_TYPE_SET | ACTION_TYPE_RESET_PIPE | ACTION_TYPE_REBOOT

datatype KeyTable = KeyTable (kt_name: "string option") (kt_method: string) (kt_param: ParamType) (kt_action: ActionType)

definition g_encoder_table :: "KeyTable list" where
  "g_encoder_table =
    [KeyTable (Some ''iGOP'') ''SetGOP'' PARAM_TYPE_INT ACTION_TYPE_SET,
     KeyTable (Some ''iStreamSmooth'') ''SetStreamSmooth'' PARAM_TYPE_INT ACTION_TYPE_SET,
     KeyTable (Some ''sFrameRate'') ''SetFrameRate'' PARAM_TYPE_STRING ACTION_TYPE_SET,
     KeyTable (Some ''sResolution'') ''SetResolution'' PARAM_TYPE_STRING ACTION_TYPE_RESET_PIPE,
     KeyTable (Some ''sRCQuality'') ''SetRCQuality'' PARAM_TYPE_STRING ACTION_TYPE_SET,
     KeyTable (Some ''sOutputDataType'') ''SetOutputDataType'' PARAM_TYPE_STRING ACTION_TYPE_RESET_PIPE,
     KeyTable (Some ''sRCMode'') ''SetRCMode'' PARAM_TYPE_STRING ACTION_TYPE_SET,
     KeyTable (Some ''sH264Profile'') ''SetH264Profile'' PARAM_TYPE_STRING ACTION_TYPE_SET,
     KeyTable (Some ''sSmart'') ''SetSmart'' PARAM_TYPE_STRING ACTION_TYPE_RESET_PIPE,
     KeyTable (Some ''sSVC'') ''SetSVC'' PARAM_TYPE_STRING ACTION_TYPE_SET,
     KeyTable (Some ''sVideoType'') ''SetVideoType'' PARAM_TYPE_STRING ACTION_TYPE_SET,
     KeyTable (Some ''sGrayScaleMode'') ''SetFullRange'' PARAM_TYPE_STRING ACTION_TYPE_RESET_PIPE]"

definition g_advanced_encoder_table :: "KeyTable list" where
  "g_advanced_encoder_table =
    [KeyTable None ''SSetQp'' PARAM_TYPE_ARRAY ACTION_TYPE_SET,
     KeyTable None ''SSetSplit'' PARAM_TYPE_ARRAY ACTION_TYPE_SET]"

definition g_audio_table :: "KeyTable list" where
  "g_audio_table =
    [KeyTable (Some ''iSampleRate'') ''SetSampleRate'' PARAM_TYPE_INT ACTION_TYPE_SET,
     KeyTable (Some ''iVolume'') ''SetVolume'' PARAM_TYPE_INT ACTION_TYPE_SET,
     KeyTable (Some ''iBitRate'') ''SetBitRate'' PARAM_TYPE_INT ACTION_TYPE_SET,
     KeyTable (Some ''sInput'') ''SetInput'' PARAM_TYPE_STRING ACTION_TYPE_SET,
     KeyTable (Some ''sEncodeType'') ''SetEncodeType'' PARAM_TYPE_STRING ACTION_TYPE_SET,
     KeyTable (Some ''sANS'') ''SetANS'' PARAM_TYPE_STRING ACTION_TYPE_SET]"

definition g_face_config_table :: "KeyTable list" where
  "g_face_config_table =
    [KeyTable (Some ''iPromptVolume'') ''SetPromptVolume'' PARAM_TYPE_INT ACTION_TYPE_SET,
     KeyTable (Some ''iLiveDetectThreshold'') ''SetLiveDetectThreshold'' PARAM_TYPE_INT ACTION_TYPE_SET,
     KeyTable (Some ''iFaceDetectionThreshold'') ''SetFaceDetectionThreshold'' PARAM_TYPE_INT ACTION_TYPE_SET,
     KeyTable (Some ''iFaceRecognitionThreshold'') ''SetFaceRecognitionThreshold'' PARAM_TYPE_INT ACTION_TYPE_SET,
     KeyTable (Some ''iFaceMinPixel'') ''SetFaceMinPixel'' PARAM_TYPE_INT ACTION_TYPE_SET,
     KeyTable (Some ''iLeftCornerX'') ''SetLeftCornerX'' PARAM_TYPE_INT ACTION_TYPE_SET,
     KeyTable (Some ''iLeftCornerY'') ''SetLeftCornerY'' PARAM_TYPE_INT ACTION_TYPE_SET,
     KeyTable (Some ''iDetectWidth'') ''SetDetectWidth'' PARAM_TYPE_INT ACTION_TYPE_SET,
     KeyTable (Some ''iDetectHeight'') ''SetDetectHeight'' PARAM_TYPE_INT ACTION_TYPE_SET,
     KeyTable (Some ''sLiveDetect'') ''SetLiveDetectEn'' PARAM_TYPE_STRING ACTION_TYPE_SET,
     KeyTable (Some ''sLiveDetectBeginTime'') ''SetLiveDetectBeginTime'' PARAM_TYPE_STRING ACTION_TYPE_SET,
     KeyTable (Some ''sLiveDetectEndTime'') ''SetLiveDetectEndTime'' PARAM_TYPE_STRING ACTION_TYPE_SET]"

text \<open>
  \<^verbatim>\<open>int ret\<close> of the functions below is not initialised: after an error its value is indeterminate,
  which is the result \<open>None\<close> of type \<open>int option\<close>.
\<close>

type_synonym indet = "int option"

definition media_send :: "'s ipc_bus \<Rightarrow> string \<Rightarrow> string \<Rightarrow> string \<Rightarrow> dbus_arg list \<Rightarrow> ('s, indet) client" where
  "media_send bus path interface cmd args w = do {
     (reply, w1) \<leftarrow> ipc_send bus MEDIASERVER path interface cmd args w;
     Some (case reply of Some [A_int i] \<Rightarrow> Some i | _ \<Rightarrow> None, w1) }"

definition mediaserver_cmd :: "'s ipc_bus \<Rightarrow> string \<Rightarrow> string \<Rightarrow> string \<Rightarrow> int \<Rightarrow> ('s, indet) client" where
  "mediaserver_cmd bus path interface cmd id' = media_send bus path interface cmd [A_int id']"

definition mediaserver_cmd_int :: "'s ipc_bus \<Rightarrow> string \<Rightarrow> string \<Rightarrow> string \<Rightarrow> int \<Rightarrow> int \<Rightarrow> ('s, indet) client" where
  "mediaserver_cmd_int bus path interface cmd id' param = media_send bus path interface cmd [A_int id', A_int param]"

definition mediaserver_cmd_array :: "'s ipc_bus \<Rightarrow> string \<Rightarrow> string \<Rightarrow> string \<Rightarrow> int \<Rightarrow> int list \<Rightarrow> int \<Rightarrow> ('s, indet) client" where
  "mediaserver_cmd_array bus path interface cmd id' param size' w =
     (if size' > int (length param) then None
      else media_send bus path interface cmd [A_int id', A_ints (take (nat size') param)] w)"

text \<open>A C++ string cannot be made of NULL.\<close>

definition mediaserver_cmd_string :: "'s ipc_bus \<Rightarrow> string \<Rightarrow> string \<Rightarrow> string \<Rightarrow> int \<Rightarrow> string option \<Rightarrow> ('s, indet) client" where
  "mediaserver_cmd_string bus path interface cmd id' param w = (case param of
     None \<Rightarrow> None
   | Some s \<Rightarrow> media_send bus path interface cmd [A_int id', A_string (cstr s)] w)"

text \<open>\<^verbatim>\<open>std::map::emplace\<close> keeps a key that is there already.\<close>

primrec dict_of :: "jsonlib \<Rightarrow> (string \<times> json) list \<Rightarrow> (string \<rightharpoonup> string) \<Rightarrow> (string \<rightharpoonup> string) option" where
  "dict_of jl [] params = Some params"
| "dict_of jl (kv # kvs) params = (case json_object_get_string jl (snd kv) of
     None \<Rightarrow> None
   | Some v \<Rightarrow> dict_of jl kvs (if params (cstr (fst kv)) = None then params(cstr (fst kv) \<mapsto> cstr v) else params))"

definition mediaserver_cmd_array_dict ::
  "jsonlib \<Rightarrow> 's ipc_bus \<Rightarrow> string \<Rightarrow> string \<Rightarrow> string \<Rightarrow> int \<Rightarrow> string option \<Rightarrow> ('s, indet) client" where
  "mediaserver_cmd_array_dict jl bus path interface cmd id' param w = do {
     s \<leftarrow> param;
     kvs \<leftarrow> json_fields (jl_parse jl s);
     params \<leftarrow> dict_of jl kvs Map.empty;
     media_send bus path interface cmd [A_int id', A_dict params] w }"

text \<open>The searches; \<^verbatim>\<open>strcmp\<close> with a name that is NULL is a crash.\<close>

fun find_method_from :: "int \<Rightarrow> KeyTable list \<Rightarrow> string \<Rightarrow> int option" where
  "find_method_from index [] key = Some (-1)"
| "find_method_from index (t # ts) key = (case kt_name t of
     None \<Rightarrow> None
   | Some n \<Rightarrow> if cstr key = n then Some index else find_method_from (index + 1) ts key)"

definition find_method_index :: "KeyTable list \<Rightarrow> string \<Rightarrow> int option" where
  "find_method_index table key = find_method_from 0 table key"

fun find_need_reset_from :: "int \<Rightarrow> KeyTable list \<Rightarrow> string \<Rightarrow> int option" where
  "find_need_reset_from index [] key = Some (-1)"
| "find_need_reset_from index (t # ts) key = (case kt_name t of
     None \<Rightarrow> None
   | Some n \<Rightarrow> if cstr key = n \<and> kt_action t = ACTION_TYPE_RESET_PIPE then Some index else find_need_reset_from (index + 1) ts key)"

definition find_need_reset_index :: "KeyTable list \<Rightarrow> string \<Rightarrow> int option" where
  "find_need_reset_index table key = find_need_reset_from 0 table key"

definition do_mediaserver_cmd ::
  "jsonlib \<Rightarrow> 's ipc_bus \<Rightarrow> string \<Rightarrow> string \<Rightarrow> string \<Rightarrow> ParamType \<Rightarrow> int \<Rightarrow> string option \<Rightarrow> ('s, indet) client" where
  "do_mediaserver_cmd jl bus path interface meth type id' value_str w =
     (if type = PARAM_TYPE_STRING then mediaserver_cmd_string bus path interface meth id' value_str w
      else if type = PARAM_TYPE_INT then do { v \<leftarrow> value_str; mediaserver_cmd_int bus path interface meth id' (atoi v) w }
      else if type = PARAM_TYPE_NONE then mediaserver_cmd bus path interface meth id' w
      else if type = PARAM_TYPE_ARRAY_DICT then mediaserver_cmd_array_dict jl bus path interface meth id' value_str w
      else Some (Some 0, w))"

definition send_entry ::
  "jsonlib \<Rightarrow> 's ipc_bus \<Rightarrow> string \<Rightarrow> string \<Rightarrow> KeyTable list \<Rightarrow> int \<Rightarrow> int \<Rightarrow> json \<Rightarrow> ('s, indet) client" where
  "send_entry jl bus path interface table id' index val =
     do_mediaserver_cmd jl bus path interface (kt_method (table ! nat index)) (kt_param (table ! nat index)) id'
       (json_object_get_string jl val)"

text \<open>The first loop: the first field that needs a reset, if there is one.\<close>

primrec reset_loop :: "KeyTable list \<Rightarrow> (string \<times> json) list \<Rightarrow> (int \<times> json) option option" where
  "reset_loop table [] = Some None"
| "reset_loop table (kv # kvs) = do {
     index \<leftarrow> find_need_reset_index table (fst kv);
     (if index \<ge> 0 then Some (Some (index, snd kv)) else reset_loop table kvs) }"

primrec set_loop ::
  "jsonlib \<Rightarrow> 's ipc_bus \<Rightarrow> string \<Rightarrow> string \<Rightarrow> KeyTable list \<Rightarrow> int \<Rightarrow> (string \<times> json) list \<Rightarrow> indet \<Rightarrow> ('s, indet) client" where
  "set_loop jl bus path interface table id' [] res w = Some (res, w)"
| "set_loop jl bus path interface table id' (kv # kvs) res w = do {
     index \<leftarrow> find_method_index table (fst kv);
     (if index \<ge> 0 then do {
        (r, w1) \<leftarrow> send_entry jl bus path interface table id' index (snd kv) w;
        set_loop jl bus path interface table id' kvs r w1 }
      else set_loop jl bus path interface table id' kvs res w) }"

definition do_mediaserver_set ::
  "jsonlib \<Rightarrow> 's ipc_bus \<Rightarrow> string \<Rightarrow> string \<Rightarrow> KeyTable list \<Rightarrow> int \<Rightarrow> string \<Rightarrow> ('s, indet) client" where
  "do_mediaserver_set jl bus path interface table id' data w = do {
     kvs \<leftarrow> json_fields (jl_parse jl data);
     reset \<leftarrow> reset_loop table kvs;
     (case reset of
        Some (index, val) \<Rightarrow> send_entry jl bus path interface table id' index val w
      | None \<Rightarrow> set_loop jl bus path interface table id' kvs (Some 0) w) }"

definition mediaserver_video_set :: "jsonlib \<Rightarrow> 's ipc_bus \<Rightarrow> int \<Rightarrow> string \<Rightarrow> ('s, indet) client" where
  "mediaserver_video_set jl bus id' data =
     do_mediaserver_set jl bus MEDIASERVER_ENCODER_PATH MEDIASERVER_ENCODER_INTERFACE g_encoder_table id' data"

definition mediaserver_audio_set :: "jsonlib \<Rightarrow> 's ipc_bus \<Rightarrow> int \<Rightarrow> string \<Rightarrow> ('s, indet) client" where
  "mediaserver_audio_set jl bus id' data =
     do_mediaserver_set jl bus MEDIASERVER_AUDIO_PATH MEDIASERVER_AUDIO_INTERFACE g_audio_table id' data"

definition mediaserver_osd_set :: "jsonlib \<Rightarrow> 's ipc_bus \<Rightarrow> int \<Rightarrow> string \<Rightarrow> ('s, indet) client" where
  "mediaserver_osd_set jl bus id' data =
     mediaserver_cmd_array_dict jl bus MEDIASERVER_FEATURE_PATH MEDIASERVER_FEATURE_INTERFACE ''SetOsd'' id' (Some data)"

definition mediaserver_roi_set :: "'s ipc_bus \<Rightarrow> int \<Rightarrow> string \<Rightarrow> ('s, indet) client" where
  "mediaserver_roi_set bus id' data =
     mediaserver_cmd_string bus MEDIASERVER_FEATURE_PATH MEDIASERVER_FEATURE_INTERFACE ''SetRoi'' id' (Some data)"

definition mediaserver_move_detect_set :: "jsonlib \<Rightarrow> 's ipc_bus \<Rightarrow> int \<Rightarrow> string \<Rightarrow> ('s, indet) client" where
  "mediaserver_move_detect_set jl bus id' data =
     mediaserver_cmd_array_dict jl bus MEDIASERVER_FEATURE_PATH MEDIASERVER_FEATURE_INTERFACE ''SetMoveDetect'' id' (Some data)"

definition mediaserver_region_invade_set :: "jsonlib \<Rightarrow> 's ipc_bus \<Rightarrow> int \<Rightarrow> string \<Rightarrow> ('s, indet) client" where
  "mediaserver_region_invade_set jl bus id' data =
     mediaserver_cmd_array_dict jl bus MEDIASERVER_FEATURE_PATH MEDIASERVER_FEATURE_INTERFACE ''SetRegionInvade'' id' (Some data)"

definition mediaserver_face_config_set :: "jsonlib \<Rightarrow> 's ipc_bus \<Rightarrow> int \<Rightarrow> string \<Rightarrow> ('s, indet) client" where
  "mediaserver_face_config_set jl bus id' data =
     do_mediaserver_set jl bus MEDIASERVER_FACE_RECOGNIZE_PATH MEDIASERVER_FACE_RECOGNIZE_INTERFACE g_face_config_table id' data"

text \<open>The result for the face configuration is dropped.\<close>

definition mediaserver_set :: "jsonlib \<Rightarrow> 's ipc_bus \<Rightarrow> string \<Rightarrow> int \<Rightarrow> string \<Rightarrow> ('s, indet) client" where
  "mediaserver_set jl bus table id' data w =
     (if table = TABLE_VIDEO then mediaserver_video_set jl bus id' data w
      else if table = TABLE_AUDIO then mediaserver_audio_set jl bus id' data w
      else if table = TABLE_OSD then mediaserver_osd_set jl bus id' data w
      else if table = TABLE_ROI then mediaserver_roi_set bus id' data w
      else if table = TABLE_MOVE_DETECTION then mediaserver_move_detect_set jl bus id' data w
      else if table = TABLE_REGIONAL_INVASION then mediaserver_region_invade_set jl bus id' data w
      else if table = TABLE_FACE_CONFIG then do { (_, w1) \<leftarrow> mediaserver_face_config_set jl bus id' data w; Some (Some 0, w1) }
      else Some (Some 0, w))"

definition mediaserver_bitrate_set :: "'s ipc_bus \<Rightarrow> int \<Rightarrow> string option \<Rightarrow> ('s, indet) client" where
  "mediaserver_bitrate_set bus id' json =
     mediaserver_cmd_string bus MEDIASERVER_ENCODER_PATH MEDIASERVER_ENCODER_INTERFACE ''SetBitRate'' id' json"

text \<open>The number of the entry is not checked: another one is a read behind the table.\<close>

definition mediaserver_advanced_enc_set :: "'s ipc_bus \<Rightarrow> int \<Rightarrow> int \<Rightarrow> int list \<Rightarrow> int \<Rightarrow> ('s, indet) client" where
  "mediaserver_advanced_enc_set bus id' table_id param size' w =
     (if table_id < 0 \<or> table_id \<ge> int (length g_advanced_encoder_table) then None
      else mediaserver_cmd_array bus MEDIASERVER_ADVANCED_ENCODER_PATH MEDIASERVER_ADVANCED_ENCODER_INTERFACE
        (kt_method (g_advanced_encoder_table ! nat table_id)) id' param size' w)"

definition mediaserver_take_photo :: "'s ipc_bus \<Rightarrow> int \<Rightarrow> int \<Rightarrow> ('s, indet) client" where
  "mediaserver_take_photo bus id' cnt =
     mediaserver_cmd_int bus MEDIASERVER_FEATURE_PATH MEDIASERVER_FEATURE_INTERFACE ''TakePicture'' id' cnt"

definition mediaserver_start_record :: "'s ipc_bus \<Rightarrow> int \<Rightarrow> ('s, indet) client" where
  "mediaserver_start_record bus id' =
     mediaserver_cmd bus MEDIASERVER_FEATURE_PATH MEDIASERVER_FEATURE_INTERFACE ''StartRecord'' id'"

definition mediaserver_stop_record :: "'s ipc_bus \<Rightarrow> int \<Rightarrow> ('s, indet) client" where
  "mediaserver_stop_record bus id' =
     mediaserver_cmd bus MEDIASERVER_FEATURE_PATH MEDIASERVER_FEATURE_INTERFACE ''StopRecord'' id'"

definition mediaserver_get_record_status :: "'s ipc_bus \<Rightarrow> int \<Rightarrow> ('s, indet) client" where
  "mediaserver_get_record_status bus id' =
     mediaserver_cmd bus MEDIASERVER_FEATURE_PATH MEDIASERVER_FEATURE_INTERFACE ''GetRecordStatus'' id'"

definition mediaserver_feature_id_int :: "'s ipc_bus \<Rightarrow> string \<Rightarrow> int \<Rightarrow> int \<Rightarrow> ('s, indet) client" where
  "mediaserver_feature_id_int bus meth id' enable =
     mediaserver_cmd_int bus MEDIASERVER_FEATURE_PATH MEDIASERVER_FEATURE_INTERFACE meth id' enable"

definition mediaserver_sync_schedules :: "'s ipc_bus \<Rightarrow> ('s, indet) client" where
  "mediaserver_sync_schedules bus =
     mediaserver_cmd bus MEDIASERVER_FEATURE_PATH MEDIASERVER_FEATURE_INTERFACE ''SyncSchedules'' 0"

definition mediaserver_set_face_image :: "'s ipc_bus \<Rightarrow> int \<Rightarrow> string option \<Rightarrow> ('s, indet) client" where
  "mediaserver_set_face_image bus id' path =
     mediaserver_cmd_string bus MEDIASERVER_FACE_RECOGNIZE_PATH MEDIASERVER_FACE_RECOGNIZE_INTERFACE ''SetImageToRegn'' id' path"

definition mediaserver_delete_face :: "'s ipc_bus \<Rightarrow> int \<Rightarrow> int \<Rightarrow> ('s, indet) client" where
  "mediaserver_delete_face bus id' face_id =
     mediaserver_cmd_int bus MEDIASERVER_FACE_RECOGNIZE_PATH MEDIASERVER_FACE_RECOGNIZE_INTERFACE ''DeleteFaceInfo'' id' face_id"

definition mediaserver_clear_face_db :: "'s ipc_bus \<Rightarrow> ('s, indet) client" where
  "mediaserver_clear_face_db bus =
     mediaserver_cmd_int bus MEDIASERVER_FACE_RECOGNIZE_PATH MEDIASERVER_FACE_RECOGNIZE_INTERFACE ''ClearFaceDB'' 0 0"

definition mediaserver_stop_flow :: "'s ipc_bus \<Rightarrow> ('s, unit) client" where
  "mediaserver_stop_flow bus =
     discard (mediaserver_cmd bus MEDIASERVER_ENCODER_PATH MEDIASERVER_ENCODER_INTERFACE ''StopFlow'' 0)"

definition mediaserver_restart_flow :: "'s ipc_bus \<Rightarrow> ('s, unit) client" where
  "mediaserver_restart_flow bus =
     discard (mediaserver_cmd bus MEDIASERVER_ENCODER_PATH MEDIASERVER_ENCODER_INTERFACE ''RestartFlow'' 0)"

section \<open>Network, storage, system and camera services\<close>

definition NETSERVER_BUS_NAME :: string where "NETSERVER_BUS_NAME = ''rockchip.netserver''"
definition NETSERVER_PATH :: string where "NETSERVER_PATH = ''/''"
definition NETSERVER_INTERFACE :: string where "NETSERVER_INTERFACE = NETSERVER_BUS_NAME @ ''.server''"
definition STORAGEMANAGER :: string where "STORAGEMANAGER = ''rockchip.StorageManager''"
definition STORAGEMANAGER_PATH :: string where "STORAGEMANAGER_PATH = ''/''"
definition STORAGEMANAGER_INTERFACE :: string where "STORAGEMANAGER_INTERFACE = STORAGEMANAGER @ ''.file''"
definition SYSTEM_MANAGER :: string where "SYSTEM_MANAGER = ''rockchip.system''"
definition SYSTEM_MANAGER_PATH :: string where "SYSTEM_MANAGER_PATH = ''/''"
definition SYSTEM_MANAGER_INTERFACE :: string where "SYSTEM_MANAGER_INTERFACE = SYSTEM_MANAGER @ ''.server''"
definition ISPSERVER_BUS_NAME :: string where "ISPSERVER_BUS_NAME = ''rockchip.ispserver''"
definition ISPSERVER_PATH :: string where "ISPSERVER_PATH = ''/''"
definition ISPSERVER_INTERFACE :: string where "ISPSERVER_INTERFACE = ISPSERVER_BUS_NAME @ ''.server''"

definition NETSERVER_DBUSSEND :: "'s ipc_bus \<Rightarrow> string \<Rightarrow> string \<Rightarrow> ('s, string option) client" where
  "NETSERVER_DBUSSEND bus func json = ipc_text bus NETSERVER_BUS_NAME NETSERVER_PATH NETSERVER_INTERFACE func [A_string (cstr json)]"

definition netserver_scan_wifi :: "'s ipc_bus \<Rightarrow> ('s, unit) client" where
  "netserver_scan_wifi bus = discard (ipc_send bus NETSERVER_BUS_NAME NETSERVER_PATH NETSERVER_INTERFACE ''ScanWifi'' [])"

definition netserver_get_service :: "'s ipc_bus \<Rightarrow> string \<Rightarrow> ('s, string option) client" where
  "netserver_get_service bus type = NETSERVER_DBUSSEND bus ''GetService'' type"

definition netserver_get_config :: "'s ipc_bus \<Rightarrow> string \<Rightarrow> ('s, string option) client" where
  "netserver_get_config bus service = NETSERVER_DBUSSEND bus ''GetConfig'' service"

definition netserver_get_networkip :: "'s ipc_bus \<Rightarrow> string \<Rightarrow> ('s, string option) client" where
  "netserver_get_networkip bus interface = NETSERVER_DBUSSEND bus ''GetNetworkIP'' interface"

text \<open>
  The search through the services.  \<open>Some None\<close> leaves the caller's buffer alone; copying a service
  that is NULL, or one that does not fit the buffer of \<open>size'\<close> bytes, is \<open>None\<close>.
\<close>

definition copy_service :: "jsonlib \<Rightarrow> nat \<Rightarrow> json \<Rightarrow> string option option" where
  "copy_service jl size' j_cfg = (case json_object_get_string jl (json_object_object_get j_cfg ''sService'') of
     None \<Rightarrow> None
   | Some s \<Rightarrow> if length (cstr s) \<ge> size' then None else Some (Some (cstr s)))"

primrec ssid_loop :: "jsonlib \<Rightarrow> nat \<Rightarrow> string option \<Rightarrow> json list \<Rightarrow> string option option" where
  "ssid_loop jl size' ssid [] = Some None"
| "ssid_loop jl size' ssid (j_cfg # js) =
     (case (json_object_get_string jl (json_object_object_get j_cfg ''sName''), ssid) of
        (None, None) \<Rightarrow> copy_service jl size' j_cfg
      | (Some sName, Some s) \<Rightarrow> if cstr sName = s then copy_service jl size' j_cfg else ssid_loop jl size' ssid js
      | _ \<Rightarrow> ssid_loop jl size' ssid js)"

definition netserver_get_service_by_ssid :: "jsonlib \<Rightarrow> 's ipc_bus \<Rightarrow> string option \<Rightarrow> nat \<Rightarrow> ('s, string option) client" where
  "netserver_get_service_by_ssid jl bus ssid size' w = do {
     (json_str, w1) \<leftarrow> netserver_get_service bus ''wifi'' w;
     s \<leftarrow> json_str;
     (case jl_parse jl s of
        J_array js \<Rightarrow> do { service \<leftarrow> ssid_loop jl size' ssid js; Some (service, w1) }
      | _ \<Rightarrow> None) }"

definition STORAGEMANAGER_DBUSSEND :: "'s ipc_bus \<Rightarrow> string \<Rightarrow> string \<Rightarrow> ('s, string option) client" where
  "STORAGEMANAGER_DBUSSEND bus func json =
     ipc_text bus STORAGEMANAGER STORAGEMANAGER_PATH STORAGEMANAGER_INTERFACE func [A_string (cstr json)]"

definition storage_manager_diskformat :: "jsonlib \<Rightarrow> 's ipc_bus \<Rightarrow> string \<Rightarrow> string \<Rightarrow> ('s, string option) client" where
  "storage_manager_diskformat jl bus mountpath type = STORAGEMANAGER_DBUSSEND bus ''DiskFormat''
     (jl_print jl (J_object [(''sMountPath'', J_string mountpath), (''sType'', J_string type)]))"

definition storage_manager_get_media_path :: "'s ipc_bus \<Rightarrow> ('s, string option) client" where
  "storage_manager_get_media_path bus = STORAGEMANAGER_DBUSSEND bus ''GetMediaPath'' []"

definition storage_manager_get_disks_status :: "jsonlib \<Rightarrow> 's ipc_bus \<Rightarrow> string \<Rightarrow> ('s, string option) client" where
  "storage_manager_get_disks_status jl bus mountpath = STORAGEMANAGER_DBUSSEND bus ''GetDisksStatus''
     (jl_print jl (J_object [(''sMountPath'', J_string mountpath)]))"

definition storage_manager_get_filelist_id ::
  "jsonlib \<Rightarrow> 's ipc_bus \<Rightarrow> int \<Rightarrow> int \<Rightarrow> int \<Rightarrow> string option \<Rightarrow> ('s, string option) client" where
  "storage_manager_get_filelist_id jl bus rootid pathid order limit = STORAGEMANAGER_DBUSSEND bus ''GetFileList''
     (jl_print jl (J_object ([(''rootid'', J_int rootid), (''pathid'', J_int pathid), (''order'', J_int order)] @ opt_s ''limit'' limit)))"

definition storage_manager_get_filelist_path ::
  "jsonlib \<Rightarrow> 's ipc_bus \<Rightarrow> string \<Rightarrow> int option \<Rightarrow> int option \<Rightarrow> int \<Rightarrow> string option \<Rightarrow> ('s, string option) client" where
  "storage_manager_get_filelist_path jl bus path StartTime EndTime order limit = STORAGEMANAGER_DBUSSEND bus ''GetFileList''
     (jl_print jl (J_object ([(''path'', J_string path), (''order'', J_int order)] @ opt_i ''starttime'' StartTime @
        opt_i ''endtime'' EndTime @ opt_s ''limit'' limit)))"

definition storage_storage_manager_media_storage_stop_notify :: "jsonlib \<Rightarrow> 's ipc_bus \<Rightarrow> string \<Rightarrow> ('s, string option) client" where
  "storage_storage_manager_media_storage_stop_notify jl bus server_name = STORAGEMANAGER_DBUSSEND bus ''MediaStorageStopNotify''
     (jl_print jl (J_object [(''server'', J_string server_name)]))"

text \<open>The two methods without a result return NULL, whether they succeed or not.\<close>

definition SYSTEMMANAGER_DBUSSEND_1 :: "'s ipc_bus \<Rightarrow> string \<Rightarrow> ('s, string option) client" where
  "SYSTEMMANAGER_DBUSSEND_1 bus func w = do {
     (_, w1) \<leftarrow> ipc_send bus SYSTEM_MANAGER SYSTEM_MANAGER_PATH SYSTEM_MANAGER_INTERFACE func [] w;
     Some (None, w1) }"

definition SYSTEMMANAGER_DBUSSEND_2 :: "'s ipc_bus \<Rightarrow> string \<Rightarrow> string \<Rightarrow> ('s, string option) client" where
  "SYSTEMMANAGER_DBUSSEND_2 bus func json =
     ipc_text bus SYSTEM_MANAGER SYSTEM_MANAGER_PATH SYSTEM_MANAGER_INTERFACE func [A_string (cstr json)]"

definition system_reboot :: "'s ipc_bus \<Rightarrow> ('s, string option) client" where
  "system_reboot bus = SYSTEMMANAGER_DBUSSEND_1 bus ''Reboot''"

definition system_factory_reset :: "'s ipc_bus \<Rightarrow> ('s, string option) client" where
  "system_factory_reset bus = SYSTEMMANAGER_DBUSSEND_1 bus ''FactoryReset''"

definition system_export_db :: "jsonlib \<Rightarrow> 's ipc_bus \<Rightarrow> string \<Rightarrow> ('s, string option) client" where
  "system_export_db jl bus path = SYSTEMMANAGER_DBUSSEND_2 bus ''ExportDB'' (jl_print jl (J_object [(''sPath'', J_string path)]))"

definition system_import_db :: "jsonlib \<Rightarrow> 's ipc_bus \<Rightarrow> string \<Rightarrow> ('s, string option) client" where
  "system_import_db jl bus path = SYSTEMMANAGER_DBUSSEND_2 bus ''ImportDB'' (jl_print jl (J_object [(''sPath'', J_string path)]))"

definition system_export_log :: "jsonlib \<Rightarrow> 's ipc_bus \<Rightarrow> string \<Rightarrow> ('s, string option) client" where
  "system_export_log jl bus path = SYSTEMMANAGER_DBUSSEND_2 bus ''ExportLog'' (jl_print jl (J_object [(''sPath'', J_string path)]))"

definition system_upgrade :: "jsonlib \<Rightarrow> 's ipc_bus \<Rightarrow> string \<Rightarrow> ('s, string option) client" where
  "system_upgrade jl bus path = SYSTEMMANAGER_DBUSSEND_2 bus ''Upgrade'' (jl_print jl (J_object [(''sPath'', J_string path)]))"

definition ispserver_turnoff_signal_send :: "'s ipc_bus \<Rightarrow> ('s, unit) client" where
  "ispserver_turnoff_signal_send bus =
     discard (ipc_send bus ISPSERVER_BUS_NAME ISPSERVER_PATH ISPSERVER_INTERFACE ''SendTurnoffIspSignal'' [])"

text \<open>The proxy does not pass on the text it is given.\<close>

definition ispserver_expo_info_get :: "'s ipc_bus \<Rightarrow> ('s, string option) client" where
  "ispserver_expo_info_get bus = ipc_text bus ISPSERVER_BUS_NAME ISPSERVER_PATH ISPSERVER_INTERFACE ''GetDumpExposureInfo'' []"

section \<open>What a changed row sends to the media server\<close>

text \<open>
  Reference: the entries that are sent for the fields of a row.  If a field needs a new pipeline,
  the first such field is all that is sent; otherwise each known field is sent, in order.
\<close>

definition entry_of :: "KeyTable list \<Rightarrow> string \<Rightarrow> KeyTable option" where
  "entry_of table key = List.find (\<lambda>t. kt_name t = Some (cstr key)) table"

definition reset_of :: "KeyTable list \<Rightarrow> string \<Rightarrow> KeyTable option" where
  "reset_of table key = List.find (\<lambda>t. kt_name t = Some (cstr key) \<and> kt_action t = ACTION_TYPE_RESET_PIPE) table"

definition known_fields :: "(string \<Rightarrow> KeyTable option) \<Rightarrow> (string \<times> json) list \<Rightarrow> (KeyTable \<times> json) list" where
  "known_fields f kvs = List.map_filter (\<lambda>(k, v). map_option (\<lambda>t. (t, v)) (f k)) kvs"

definition media_plan :: "KeyTable list \<Rightarrow> (string \<times> json) list \<Rightarrow> (KeyTable \<times> json) list" where
  "media_plan table kvs = (case known_fields (reset_of table) kvs of
     tv # _ \<Rightarrow> [tv]
   | [] \<Rightarrow> known_fields (entry_of table) kvs)"

definition media_arg :: "KeyTable \<Rightarrow> string \<Rightarrow> dbus_arg" where
  "media_arg t s = (if kt_param t = PARAM_TYPE_INT then A_int (atoi s) else A_string (cstr s))"

text \<open>Tables whose entries have names, and take a number or a text.\<close>

definition plain_table :: "KeyTable list \<Rightarrow> bool" where
  "plain_table table \<longleftrightarrow> list_all (\<lambda>t. kt_name t \<noteq> None \<and> kt_param t \<in> {PARAM_TYPE_INT, PARAM_TYPE_STRING}) table"

lemma known_fields_simps [simp]:
  "known_fields f [] = []"
  "known_fields f (kv # kvs) = (case f (fst kv) of None \<Rightarrow> known_fields f kvs | Some t \<Rightarrow> (t, snd kv) # known_fields f kvs)"
  by (auto simp: known_fields_def map_filter_simps split: prod.split option.split)

text \<open>Both searches are one search.\<close>

fun find_from :: "('a \<Rightarrow> bool) \<Rightarrow> int \<Rightarrow> 'a list \<Rightarrow> int" where
  "find_from p index [] = -1"
| "find_from p index (t # ts) = (if p t then index else find_from p (index + 1) ts)"

lemma find_from_spec:
  "case List.find p ts of None \<Rightarrow> find_from p index ts = -1
    | Some t \<Rightarrow> \<exists>k<length ts. find_from p index ts = index + int k \<and> ts ! k = t"
proof (induction ts arbitrary: index)
  case (Cons t ts)
  show ?case
  proof (cases "p t")
    case False
    with Cons.IH [of "index + 1"] show ?thesis
      by (auto split: option.splits intro: exI [of _ "Suc _"])
  qed (auto intro: exI [of _ 0])
qed simp

lemma searches:
  assumes "list_all (\<lambda>t. kt_name t \<noteq> None) table"
  shows "find_method_from index table key = Some (find_from (\<lambda>t. kt_name t = Some (cstr key)) index table)"
    "find_need_reset_from index table key =
       Some (find_from (\<lambda>t. kt_name t = Some (cstr key) \<and> kt_action t = ACTION_TYPE_RESET_PIPE) index table)"
  using assms by (induction table arbitrary: index) (auto split: option.split)

lemma search_results:
  assumes "list_all (\<lambda>t. kt_name t \<noteq> None) table"
  shows "\<exists>i. find_method_index table key = Some i \<and>
      (case entry_of table key of None \<Rightarrow> i < 0 | Some t \<Rightarrow> i \<ge> 0 \<and> table ! nat i = t)"
    "\<exists>i. find_need_reset_index table key = Some i \<and>
      (case reset_of table key of None \<Rightarrow> i < 0 | Some t \<Rightarrow> i \<ge> 0 \<and> table ! nat i = t)"
  using find_from_spec [where ts = table and index = 0 and p = "\<lambda>t. kt_name t = Some (cstr key)"]
    find_from_spec [where ts = table and index = 0 and p = "\<lambda>t. kt_name t = Some (cstr key) \<and> kt_action t = ACTION_TYPE_RESET_PIPE"]
  by (auto simp: find_method_index_def find_need_reset_index_def searches [OF assms] entry_of_def reset_of_def split: option.splits)

text \<open>The calls of a plan, one after the other; the result is that of the last.\<close>

primrec send_plan ::
  "jsonlib \<Rightarrow> 's ipc_bus \<Rightarrow> string \<Rightarrow> string \<Rightarrow> int \<Rightarrow> (KeyTable \<times> json) list \<Rightarrow> indet \<Rightarrow> ('s, indet) client" where
  "send_plan jl bus path interface id' [] res w = Some (res, w)"
| "send_plan jl bus path interface id' (tv # tvs) res w = do {
     (r, w1) \<leftarrow> do_mediaserver_cmd jl bus path interface (kt_method (fst tv)) (kt_param (fst tv)) id' (json_object_get_string jl (snd tv)) w;
     send_plan jl bus path interface id' tvs r w1 }"

lemma reset_loop_plan:
  assumes "list_all (\<lambda>t. kt_name t \<noteq> None) table"
  shows "case known_fields (reset_of table) kvs of
      [] \<Rightarrow> reset_loop table kvs = Some None
    | (t, v) # _ \<Rightarrow> \<exists>i. reset_loop table kvs = Some (Some (i, v)) \<and> table ! nat i = t"
proof (induction kvs)
  case (Cons kv kvs)
  obtain i where "find_need_reset_index table (fst kv) = Some i"
    "case reset_of table (fst kv) of None \<Rightarrow> i < 0 | Some t \<Rightarrow> i \<ge> 0 \<and> table ! nat i = t"
    using search_results(2) [OF assms] by blast
  with Cons.IH show ?case by (auto split: option.splits list.splits)
qed simp

lemma set_loop_plan:
  assumes "list_all (\<lambda>t. kt_name t \<noteq> None) table"
  shows "set_loop jl bus path interface table id' kvs res w =
    send_plan jl bus path interface id' (known_fields (entry_of table) kvs) res w"
proof (induction kvs arbitrary: res w)
  case (Cons kv kvs)
  obtain i where "find_method_index table (fst kv) = Some i"
    "case entry_of table (fst kv) of None \<Rightarrow> i < 0 | Some t \<Rightarrow> i \<ge> 0 \<and> table ! nat i = t"
    using search_results(1) [OF assms] by blast
  moreover have "set_loop jl bus path interface table id' kvs = send_plan jl bus path interface id' (known_fields (entry_of table) kvs)"
    by (intro ext) (rule Cons.IH)
  ultimately show ?case by (auto simp: send_entry_def split: option.splits)
qed simp

lemma do_mediaserver_set_plan:
  assumes "list_all (\<lambda>t. kt_name t \<noteq> None) table" and "jl_parse jl data = J_object kvs"
  shows "do_mediaserver_set jl bus path interface table id' data w =
    send_plan jl bus path interface id' (media_plan table kvs) (Some 0) w"
proof (cases "known_fields (reset_of table) kvs")
  case Nil
  with reset_loop_plan [OF assms(1), of kvs] assms(2) show ?thesis
    by (simp add: do_mediaserver_set_def json_fields_def media_plan_def set_loop_plan [OF assms(1)])
next
  case (Cons tv rest)
  obtain t v where tv: "tv = (t, v)" by (rule prod.exhaust)
  with Cons reset_loop_plan [OF assms(1), of kvs] obtain i where "reset_loop table kvs = Some (Some (i, v))" "table ! nat i = t" by auto
  with Cons tv assms(2) show ?thesis
    by (simp add: do_mediaserver_set_def json_fields_def media_plan_def send_entry_def bind_def split: Option.bind_split)
qed

lemma media_cmd_runs:
  assumes "kt_param t \<in> {PARAM_TYPE_INT, PARAM_TYPE_STRING}" and "\<not> cl_mutex w" "dbus_conn_flag w"
    and "ib_call bus MEDIASERVER path interface (kt_method t) [A_int id', media_arg t s] (cl_peer w) = (reply, p)"
  shows "do_mediaserver_cmd jl bus path interface (kt_method t) (kt_param t) id' (Some s) w =
    Some (case reply of Some [A_int i] \<Rightarrow> Some i | _ \<Rightarrow> None, w\<lparr>cl_peer := p\<rparr>)"
  using assms
  by (cases w) (auto simp: do_mediaserver_cmd_def mediaserver_cmd_string_def mediaserver_cmd_int_def media_send_def ipc_send_def
      dbus_mutex_lock_def get_dbus_conn_def dbus_mutex_unlock_def media_arg_def)

text \<open>The peer after a list of calls, and the calls of a plan whose values are not null.\<close>

definition after_calls :: "'s ipc_bus \<Rightarrow> string \<Rightarrow> string \<Rightarrow> (string \<times> dbus_arg list) list \<Rightarrow> 's \<Rightarrow> 's" where
  "after_calls bus path interface calls p = foldl (\<lambda>p (m, args). snd (ib_call bus MEDIASERVER path interface m args p)) p calls"

definition plan_calls :: "jsonlib \<Rightarrow> int \<Rightarrow> (KeyTable \<times> json) list \<Rightarrow> (string \<times> dbus_arg list) list" where
  "plan_calls jl id' plan = map (\<lambda>(t, v). (kt_method t, [A_int id', media_arg t (the (json_object_get_string jl v))])) plan"

lemma send_plan_runs:
  assumes "\<not> cl_mutex w" "dbus_conn_flag w"
    and "list_all (\<lambda>(t, v). kt_param t \<in> {PARAM_TYPE_INT, PARAM_TYPE_STRING} \<and> json_object_get_string jl v \<noteq> None) plan"
  shows "\<exists>r. send_plan jl bus path interface id' plan res w =
      Some (r, w\<lparr>cl_peer := after_calls bus path interface (plan_calls jl id' plan) (cl_peer w)\<rparr>) \<and>
    ((\<forall>m args p. fst (ib_call bus MEDIASERVER path interface m args p) = None) \<longrightarrow> r = (if plan = [] then res else None))"
  using assms
proof (induction plan arbitrary: res w)
  case (Cons tv plan)
  obtain t v where tv: "tv = (t, v)" by (rule prod.exhaust)
  with Cons.prems obtain s where s: "json_object_get_string jl v = Some s" "kt_param t \<in> {PARAM_TYPE_INT, PARAM_TYPE_STRING}" by auto
  obtain reply p where call: "ib_call bus MEDIASERVER path interface (kt_method t) [A_int id', media_arg t s] (cl_peer w) = (reply, p)"
    by (rule prod.exhaust)
  from Cons.IH [of "w\<lparr>cl_peer := p\<rparr>" "case reply of Some [A_int i] \<Rightarrow> Some i | _ \<Rightarrow> None"] Cons.prems obtain r where
    r: "send_plan jl bus path interface id' plan (case reply of Some [A_int i] \<Rightarrow> Some i | _ \<Rightarrow> None) (w\<lparr>cl_peer := p\<rparr>) =
      Some (r, w\<lparr>cl_peer := after_calls bus path interface (plan_calls jl id' plan) p\<rparr>)"
    "(\<forall>m args p. fst (ib_call bus MEDIASERVER path interface m args p) = None) \<longrightarrow>
       r = (if plan = [] then (case reply of Some [A_int i] \<Rightarrow> Some i | _ \<Rightarrow> None) else None)"
    by auto
  have reply: "(\<forall>m args p. fst (ib_call bus MEDIASERVER path interface m args p) = None) \<longrightarrow> reply = None"
    using call by (metis fst_conv)
  show ?case
    using r reply media_cmd_runs [OF s(2) Cons.prems(1,2) call, of jl] call s(1)
    by (intro exI [of _ r]) (auto simp: tv after_calls_def plan_calls_def)
qed (simp add: after_calls_def plan_calls_def)

lemma known_fields_in: "(t, v) \<in> set (known_fields f kvs) \<Longrightarrow> \<exists>k. (k, v) \<in> set kvs \<and> f k = Some t"
  by (induction kvs) (auto split: option.splits)

lemma find_in: "List.find p xs = Some x \<Longrightarrow> x \<in> set xs"
  by (induction xs) (auto split: if_splits)

lemma plan_entries:
  assumes "(t, v) \<in> set (media_plan table kvs)"
  shows "t \<in> set table \<and> (\<exists>k. (k, v) \<in> set kvs \<and> kt_name t = Some (cstr k))"
proof -
  have "(t, v) \<in> set (known_fields (reset_of table) kvs) \<or> (t, v) \<in> set (known_fields (entry_of table) kvs)"
    using assms by (auto simp: media_plan_def split: list.splits)
  then obtain k where "(k, v) \<in> set kvs" "reset_of table k = Some t \<or> entry_of table k = Some t"
    using known_fields_in by metis
  moreover have "kt_name t = Some (cstr k)" using calculation(2)
    by (auto simp: reset_of_def entry_of_def find_Some_iff)
  ultimately show ?thesis using find_in by (fastforce simp: reset_of_def entry_of_def)
qed

lemma do_mediaserver_set_runs:
  assumes "plain_table table" and "jl_parse jl data = J_object kvs" and "\<forall>(k, v)\<in>set kvs. v \<noteq> J_null" and "\<not> cl_mutex w" "dbus_conn_flag w"
  shows "\<exists>r. do_mediaserver_set jl bus path interface table id' data w =
      Some (r, w\<lparr>cl_peer := after_calls bus path interface (plan_calls jl id' (media_plan table kvs)) (cl_peer w)\<rparr>) \<and>
    ((\<forall>m args p. fst (ib_call bus MEDIASERVER path interface m args p) = None) \<longrightarrow> r = (if media_plan table kvs = [] then Some 0 else None))"
proof -
  have names: "list_all (\<lambda>t. kt_name t \<noteq> None) table" using assms(1) by (auto simp: plain_table_def list_all_iff)
  have "json_object_get_string jl v \<noteq> None" if "v \<noteq> J_null" for v
    using that by (cases v) (simp_all add: json_object_get_string_def)
  then have "list_all (\<lambda>(t, v). kt_param t \<in> {PARAM_TYPE_INT, PARAM_TYPE_STRING} \<and> json_object_get_string jl v \<noteq> None) (media_plan table kvs)"
    using assms(1,3) plan_entries unfolding plain_table_def list_all_iff by fast
  from send_plan_runs [OF assms(4,5) this] show ?thesis unfolding do_mediaserver_set_plan [OF names assms(2)] by blast
qed

lemma media_tables_plain: "plain_table g_encoder_table" "plain_table g_audio_table" "plain_table g_face_config_table"
  by (simp_all add: plain_table_def g_encoder_table_def g_audio_table_def g_face_config_table_def)

lemma media_set_at:
  "mediaserver_set jl bus TABLE_VIDEO id' data w =
     do_mediaserver_set jl bus MEDIASERVER_ENCODER_PATH MEDIASERVER_ENCODER_INTERFACE g_encoder_table id' data w"
  "mediaserver_set jl bus TABLE_AUDIO id' data w =
     do_mediaserver_set jl bus MEDIASERVER_AUDIO_PATH MEDIASERVER_AUDIO_INTERFACE g_audio_table id' data w"
  "mediaserver_set jl bus TABLE_FACE_CONFIG id' data w = map_option (\<lambda>(_, w1). (Some 0, w1))
     (do_mediaserver_set jl bus MEDIASERVER_FACE_RECOGNIZE_PATH MEDIASERVER_FACE_RECOGNIZE_INTERFACE g_face_config_table id' data w)"
proof -
  have "TABLE_AUDIO \<noteq> TABLE_VIDEO" "TABLE_FACE_CONFIG \<notin> {TABLE_VIDEO, TABLE_AUDIO, TABLE_OSD, TABLE_ROI, TABLE_MOVE_DETECTION, TABLE_REGIONAL_INVASION}"
    by (simp_all add: TABLE_AUDIO_def TABLE_VIDEO_def TABLE_FACE_CONFIG_def TABLE_OSD_def TABLE_ROI_def TABLE_MOVE_DETECTION_def
        TABLE_REGIONAL_INVASION_def)
  then show "mediaserver_set jl bus TABLE_VIDEO id' data w =
     do_mediaserver_set jl bus MEDIASERVER_ENCODER_PATH MEDIASERVER_ENCODER_INTERFACE g_encoder_table id' data w"
    "mediaserver_set jl bus TABLE_AUDIO id' data w =
     do_mediaserver_set jl bus MEDIASERVER_AUDIO_PATH MEDIASERVER_AUDIO_INTERFACE g_audio_table id' data w"
    "mediaserver_set jl bus TABLE_FACE_CONFIG id' data w = map_option (\<lambda>(_, w1). (Some 0, w1))
     (do_mediaserver_set jl bus MEDIASERVER_FACE_RECOGNIZE_PATH MEDIASERVER_FACE_RECOGNIZE_INTERFACE g_face_config_table id' data w)"
    by (simp_all add: mediaserver_set_def mediaserver_video_set_def mediaserver_audio_set_def mediaserver_face_config_set_def)
      (auto split: bind_split option.split)
qed

text \<open>
  Property C24. Which calls a changed row makes.  For the video, audio and face tables, with a
  connection and a row without null values, the library makes exactly the calls of the reference, in its
  order: one for each known field with its method and its value as number or text, or, when a
  field needs a new pipeline, only the one for the first such field.  Fields the table does not
  know are not sent, and the lock is free again.
\<close>

theorem media_settings_sent:
  assumes "jl_parse jl data = J_object kvs" and "\<forall>(k, v)\<in>set kvs. v \<noteq> J_null" and "\<not> cl_mutex w" "dbus_conn_flag w"
    and "(table, path, interface, keys) \<in>
      {(TABLE_VIDEO, MEDIASERVER_ENCODER_PATH, MEDIASERVER_ENCODER_INTERFACE, g_encoder_table),
       (TABLE_AUDIO, MEDIASERVER_AUDIO_PATH, MEDIASERVER_AUDIO_INTERFACE, g_audio_table),
       (TABLE_FACE_CONFIG, MEDIASERVER_FACE_RECOGNIZE_PATH, MEDIASERVER_FACE_RECOGNIZE_INTERFACE, g_face_config_table)}"
  shows "\<exists>r. mediaserver_set jl bus table id' data w =
    Some (r, w\<lparr>cl_peer := after_calls bus path interface (plan_calls jl id' (media_plan keys kvs)) (cl_peer w)\<rparr>)"
proof -
  have plain: "plain_table keys" using assms(5) media_tables_plain by auto
  from do_mediaserver_set_runs [OF plain assms(1-4), of bus path interface id'] obtain r where
    run: "do_mediaserver_set jl bus path interface keys id' data w =
      Some (r, w\<lparr>cl_peer := after_calls bus path interface (plan_calls jl id' (media_plan keys kvs)) (cl_peer w)\<rparr>)" by blast
  consider "table = TABLE_VIDEO" "path = MEDIASERVER_ENCODER_PATH" "interface = MEDIASERVER_ENCODER_INTERFACE" "keys = g_encoder_table"
    | "table = TABLE_AUDIO" "path = MEDIASERVER_AUDIO_PATH" "interface = MEDIASERVER_AUDIO_INTERFACE" "keys = g_audio_table"
    | "table = TABLE_FACE_CONFIG" "path = MEDIASERVER_FACE_RECOGNIZE_PATH" "interface = MEDIASERVER_FACE_RECOGNIZE_INTERFACE"
      "keys = g_face_config_table"
    using assms(5) by auto
  then show ?thesis by cases (use run in \<open>simp_all add: media_set_at\<close>)
qed

text \<open>A media server that answers every call, and one that is not there.\<close>

definition media_recorder :: "(string \<times> dbus_arg list) list ipc_bus" where
  "media_recorder = \<lparr>ib_connect = (\<lambda>_. True), ib_call = (\<lambda>_ _ _ m args p. (Some [A_int 0], p @ [(m, args)]))\<rparr>"

definition dead_bus :: "unit ipc_bus" where
  "dead_bus = \<lparr>ib_connect = (\<lambda>_. True), ib_call = (\<lambda>_ _ _ _ _ p. (None, p))\<rparr>"

definition audio_row :: json where
  "audio_row = J_object [(''sInput'', J_string ''lineIn''), (''sNone'', J_string ''x''), (''sANS'', J_string ''open'')]"

lemma audio_row_plan: "media_plan g_audio_table [(''sInput'', J_string ''lineIn''), (''sNone'', J_string ''x''), (''sANS'', J_string ''open'')] =
    [(KeyTable (Some ''sInput'') ''SetInput'' PARAM_TYPE_STRING ACTION_TYPE_SET, J_string ''lineIn''),
     (KeyTable (Some ''sANS'') ''SetANS'' PARAM_TYPE_STRING ACTION_TYPE_SET, J_string ''open'')]"
  by (simp add: media_plan_def reset_of_def entry_of_def g_audio_table_def cstr_plain)

theorem media_settings_sent_witness:
  "\<exists>r w'. mediaserver_set numbered_json media_recorder TABLE_AUDIO 1 (jl_print numbered_json audio_row)
      \<lparr>cl_mutex = False, dbus_conn_flag = True, cl_peer = []\<rparr> = Some (r, w') \<and>
    cl_peer w' = [(''SetInput'', [A_int 1, A_string ''lineIn'']), (''SetANS'', [A_int 1, A_string ''open''])]"
proof -
  let ?kvs = "[(''sInput'', J_string ''lineIn''), (''sNone'', J_string ''x''), (''sANS'', J_string ''open'')]"
  let ?w = "\<lparr>cl_mutex = False, dbus_conn_flag = True, cl_peer = []\<rparr>"
  have "jl_parse numbered_json (jl_print numbered_json audio_row) = J_object ?kvs" by (simp add: numbered_json_ok(2) audio_row_def)
  moreover have "\<forall>(k, v)\<in>set ?kvs. v \<noteq> J_null" "\<not> cl_mutex ?w" "dbus_conn_flag ?w" by simp_all
  ultimately obtain r where "mediaserver_set numbered_json media_recorder TABLE_AUDIO 1 (jl_print numbered_json audio_row) ?w =
      Some (r, ?w\<lparr>cl_peer := after_calls media_recorder MEDIASERVER_AUDIO_PATH MEDIASERVER_AUDIO_INTERFACE
        (plan_calls numbered_json 1 (media_plan g_audio_table ?kvs)) (cl_peer ?w)\<rparr>)"
    using media_settings_sent [of numbered_json _ ?kvs ?w TABLE_AUDIO MEDIASERVER_AUDIO_PATH MEDIASERVER_AUDIO_INTERFACE g_audio_table media_recorder 1]
    by blast
  then show ?thesis unfolding audio_row_plan
    by (simp add: after_calls_def plan_calls_def media_recorder_def media_arg_def json_object_get_string_def cstr_plain)
qed

text \<open>
  Errors of the media server do not reach the caller.  When every call fails, setting
  a video or audio row returns a value that was never set, as soon as there is a field to send, and setting the face configuration
  returns 0.
\<close>

theorem media_errors_unseen:
  assumes "jl_parse jl data = J_object kvs" and "\<forall>(k, v)\<in>set kvs. v \<noteq> J_null" and "\<not> cl_mutex w" "dbus_conn_flag w"
    and "\<forall>path interface m args p. ib_call bus MEDIASERVER path interface m args p = (None, p)"
  shows "mediaserver_set jl bus TABLE_VIDEO id' data w = Some (if media_plan g_encoder_table kvs = [] then Some 0 else None, w) \<and>
    mediaserver_set jl bus TABLE_AUDIO id' data w = Some (if media_plan g_audio_table kvs = [] then Some 0 else None, w) \<and>
    mediaserver_set jl bus TABLE_FACE_CONFIG id' data w = Some (Some 0, w)"
proof -
  have peer: "after_calls bus path interface calls p = p" for path interface calls p
    using assms(5) by (induction calls) (auto simp: after_calls_def)
  have same: "w\<lparr>cl_peer := cl_peer w\<rparr> = w" by simp
  have "do_mediaserver_set jl bus path interface keys id' data w = Some (if media_plan keys kvs = [] then Some 0 else None, w)"
    if "plain_table keys" for keys path interface
    using do_mediaserver_set_runs [OF that assms(1-4), of bus path interface id'] assms(5) by (auto simp: peer same)
  with media_tables_plain show ?thesis by (simp add: media_set_at)
qed

theorem media_errors_unseen_witness:
  "mediaserver_set numbered_json dead_bus TABLE_AUDIO 1 (jl_print numbered_json audio_row)
      \<lparr>cl_mutex = False, dbus_conn_flag = True, cl_peer = ()\<rparr> = Some (None, \<lparr>cl_mutex = False, dbus_conn_flag = True, cl_peer = ()\<rparr>)"
proof -
  let ?kvs = "[(''sInput'', J_string ''lineIn''), (''sNone'', J_string ''x''), (''sANS'', J_string ''open'')]"
  let ?w = "\<lparr>cl_mutex = False, dbus_conn_flag = True, cl_peer = ()\<rparr>"
  have "jl_parse numbered_json (jl_print numbered_json audio_row) = J_object ?kvs" by (simp add: numbered_json_ok(2) audio_row_def)
  from media_errors_unseen [OF this, of ?w dead_bus 1] audio_row_plan show ?thesis by (simp add: dead_bus_def)
qed

section \<open>The settings of the media server and the columns of the tables\<close>

definition kt_kind :: "KeyTable \<Rightarrow> string \<times> coltype" where
  "kt_kind t = (the (kt_name t), if kt_param t = PARAM_TYPE_INT then C_int else C_text)"

lemma video_names:
  "TABLE_VIDEO_ADVANCED_ENC \<noteq> TABLE_VIDEO" "TABLE_AUDIO \<noteq> TABLE_VIDEO" "TABLE_STREAM_URL \<noteq> TABLE_VIDEO"
  "TABLE_IMAGE_SCENARIO \<noteq> TABLE_VIDEO" "TABLE_IMAGE_ADJUSTMENT \<noteq> TABLE_VIDEO" "TABLE_IMAGE_EXPOSURE \<noteq> TABLE_VIDEO"
  "TABLE_IMAGE_NIGHT_TO_DAY \<noteq> TABLE_VIDEO" "TABLE_IMAGE_BLC \<noteq> TABLE_VIDEO" "TABLE_IMAGE_WHITE_BLANCE \<noteq> TABLE_VIDEO"
  "TABLE_IMAGE_ENHANCEMENT \<noteq> TABLE_VIDEO" "TABLE_IMAGE_VIDEO_ADJUSTMEN \<noteq> TABLE_VIDEO" "TABLE_NORMALIZED_SCREEN_SIZE \<noteq> TABLE_VIDEO"
  "TABLE_OSD \<noteq> TABLE_VIDEO" "TABLE_ROI \<noteq> TABLE_VIDEO" "TABLE_VIDEO_REGION_CLIP \<noteq> TABLE_VIDEO"
  "TABLE_PROFILE \<noteq> TABLE_VIDEO" "TABLE_VIDEO_SOURCE \<noteq> TABLE_VIDEO" "TABLE_VIDEO_SOURCE_CONFIGURATION \<noteq> TABLE_VIDEO"
  "TABLE_METADATA \<noteq> TABLE_VIDEO"
  by (simp_all add: table_names)

text \<open>
  The settings of the media server are columns of the tables.  Every name in the tables
  of audio and face settings, and every name but one in the table of encoder settings, is a
  column of the database table whose changes it is used for, an integer column exactly when the
  method takes a number.  The one exception is \<^verbatim>\<open>sGrayScaleMode\<close>: the video table has no such column.
\<close>

theorem media_keys_are_columns:
  "has_columns media_tables TABLE_VIDEO (map kt_kind (filter (\<lambda>t. kt_name t \<noteq> Some ''sGrayScaleMode'') g_encoder_table)) \<and>
   has_columns media_tables TABLE_AUDIO (map kt_kind g_audio_table) \<and>
   has_columns event_tables TABLE_FACE_CONFIG (map kt_kind g_face_config_table) \<and>
   \<not> has_columns media_tables TABLE_VIDEO [(''sGrayScaleMode'', C_text)]"
proof (intro conjI)
  have parts: "set media_tables_1 \<subseteq> set media_tables" "set media_tables_2 \<subseteq> set media_tables" "set event_tables_2 \<subseteq> set event_tables"
    by (auto simp: media_tables_def event_tables_def)
  show "has_columns media_tables TABLE_VIDEO (map kt_kind (filter (\<lambda>t. kt_name t \<noteq> Some ''sGrayScaleMode'') g_encoder_table))"
    by (rule has_columns_part [OF parts(1)]) (unfold media_tables_1_def, (rule find_create)+, code_simp)
  show "has_columns media_tables TABLE_AUDIO (map kt_kind g_audio_table)"
    by (rule has_columns_part [OF parts(2)]) (unfold media_tables_2_def, (rule find_create)+, code_simp)
  show "has_columns event_tables TABLE_FACE_CONFIG (map kt_kind g_face_config_table)"
    by (rule has_columns_part [OF parts(3)]) (unfold event_tables_2_def, (rule find_create)+, code_simp)
  show "\<not> has_columns media_tables TABLE_VIDEO [(''sGrayScaleMode'', C_text)]"
    unfolding media_tables_def media_tables_1_def media_tables_2_def media_tables_3_def media_tables_4_def media_tables_5_def
      media_tables_6_def media_tables_7_def media_tables_8_def has_columns_steps video_names [THEN eq_False [THEN iffD2]] simp_thms
    by code_simp
qed

section \<open>The service of a network\<close>

text \<open>
  Which service is found for a network name.  When every service of the reply has a path
  that fits the caller's buffer, the first one whose name is the one asked for is copied, and with
  NULL for the name the first one without a name; if there is none, the buffer is left alone.
\<close>

theorem service_by_ssid:
  assumes "netserver_get_service bus ''wifi'' w = Some (Some reply, w1)" and "jl_parse jl reply = J_array js"
    and "\<forall>j\<in>set js. \<exists>s. json_object_object_get j ''sService'' = J_string s \<and> chr_nul \<notin> set s \<and> length s < size'"
    and "\<forall>j\<in>set js. \<forall>s. json_object_get_string jl (json_object_object_get j ''sName'') = Some s \<longrightarrow> chr_nul \<notin> set s"
  shows "netserver_get_service_by_ssid jl bus ssid size' w =
    Some (map_option (\<lambda>j. the (json_object_get_string jl (json_object_object_get j ''sService'')))
      (List.find (\<lambda>j. json_object_get_string jl (json_object_object_get j ''sName'') = ssid) js), w1)"
proof -
  have "ssid_loop jl size' ssid js = Some (map_option (\<lambda>j. the (json_object_get_string jl (json_object_object_get j ''sService'')))
      (List.find (\<lambda>j. json_object_get_string jl (json_object_object_get j ''sName'') = ssid) js))"
    using assms(3,4)
  proof (induction js)
    case (Cons j js)
    then obtain s where s: "json_object_object_get j ''sService'' = J_string s" "chr_nul \<notin> set s" "length s < size'" by auto
    then have "copy_service jl size' j = Some (Some s)" by (simp add: copy_service_def json_object_get_string_def cstr_plain)
    with Cons s(1) show ?case
      by (cases "json_object_get_string jl (json_object_object_get j ''sName'')"; cases ssid)
         (auto simp: cstr_plain json_object_get_string_def [of jl "J_string s"])
  qed simp
  with assms(1,2) show ?thesis by (simp add: netserver_get_service_by_ssid_def)
qed

definition home_service :: json where
  "home_service = J_object [(''sName'', J_string ''home''), (''sService'', J_string ''wifi_1'')]"

definition home_bus :: "unit ipc_bus" where
  "home_bus = \<lparr>ib_connect = (\<lambda>_. True), ib_call = (\<lambda>_ _ _ _ _ p. (Some [A_string (jl_print numbered_json (J_array [home_service]))], p))\<rparr>"

theorem service_by_ssid_witness:
  "netserver_get_service_by_ssid numbered_json home_bus (Some ''home'') 64 \<lparr>cl_mutex = False, dbus_conn_flag = True, cl_peer = ()\<rparr> =
    Some (Some ''wifi_1'', \<lparr>cl_mutex = False, dbus_conn_flag = True, cl_peer = ()\<rparr>)"
proof -
  let ?w = "\<lparr>cl_mutex = False, dbus_conn_flag = True, cl_peer = ()\<rparr>"
  have get: "netserver_get_service home_bus ''wifi'' ?w = Some (Some (jl_print numbered_json (J_array [home_service])), ?w)"
    by (simp add: netserver_get_service_def NETSERVER_DBUSSEND_def ipc_text_def ipc_send_def dbus_mutex_lock_def get_dbus_conn_def
        home_bus_def dbus_mutex_unlock_def json_codecD(3) [OF numbered_json_codec])
  have "\<forall>j\<in>set [home_service]. \<exists>s. json_object_object_get j ''sService'' = J_string s \<and> chr_nul \<notin> set s \<and> length s < 64"
    "\<forall>j\<in>set [home_service]. \<forall>s. json_object_get_string numbered_json (json_object_object_get j ''sName'') = Some s \<longrightarrow> chr_nul \<notin> set s"
    by (simp_all add: home_service_def json_object_object_get_def json_object_get_string_def)
  from service_by_ssid [OF get numbered_json_ok(2) this, of "Some ''home''"] show ?thesis
    by (simp add: home_service_def json_object_object_get_def json_object_get_string_def)
qed

end
