(* ===== verification/Buffers.thy ===== *)
theory Buffers
  imports CStrings
begin

text \<open>
  Buffers of the image code: loops over index ranges that may fail, and writes of bytes with a check
  of the bounds.  \<open>None\<close> is an access outside of the buffer.
\<close>

section \<open>Loops\<close>

primrec each_opt :: "('a \<Rightarrow> 's \<Rightarrow> 's option) \<Rightarrow> 'a list \<Rightarrow> 's \<Rightarrow> 's option" where
  "each_opt f [] s = Some s"
| "each_opt f (x # xs) s = Option.bind (f x s) (each_opt f xs)"

lemma each_opt_append: "each_opt f (xs @ ys) s = Option.bind (each_opt f xs s) (each_opt f ys)"
  by (induction xs arbitrary: s) (auto split: bind_splits)

text \<open>A \<^verbatim>\<open>for\<close> loop from \<open>a\<close> up to \<open>b\<close> that keeps an assertion about the index and the state.\<close>

lemma for_range:
  assumes "a \<le> b" and "P a s"
    and step: "\<And>i s. a \<le> i \<Longrightarrow> i < b \<Longrightarrow> P i s \<Longrightarrow> \<exists>s'. f i s = Some s' \<and> P (Suc i) s'"
  shows "\<exists>s'. each_opt f [a..<b] s = Some s' \<and> P b s'"
  using assms
proof (induction b rule: dec_induct)
  case base
  then show ?case by simp
next
  case (step n)
  then obtain s1 where s1: "each_opt f [a..<n] s = Some s1" "P n s1" by (metis less_SucI)
  with step.prems step.hyps obtain s2 where "f n s1 = Some s2" "P (Suc n) s2" by (meson lessI)
  with s1 step.hyps show ?case by (simp add: each_opt_append)
qed

section \<open>Writes\<close>

definition put_byte :: "nat \<Rightarrow> u8 \<Rightarrow> u8 list \<Rightarrow> u8 list option" where
  "put_byte i v mem = (if i < length mem then Some (mem[i := v]) else None)"

definition get_byte :: "u8 list \<Rightarrow> int \<Rightarrow> u8 option" where
  "get_byte mem i = (if 0 \<le> i \<and> i < int (length mem) then Some (mem ! nat i) else None)"

text \<open>The bytes \<open>vs\<close> one after the other from \<open>i\<close> on.\<close>

primrec put_bytes :: "nat \<Rightarrow> u8 list \<Rightarrow> u8 list \<Rightarrow> u8 list option" where
  "put_bytes i [] mem = Some mem"
| "put_bytes i (v # vs) mem = Option.bind (put_byte i v mem) (put_bytes (Suc i) vs)"

lemma put_bytes_one: "put_bytes i [v] mem = put_byte i v mem"
  by (cases "put_byte i v mem") simp_all

lemma put_bytes_two: "put_bytes i [u, v] mem = Option.bind (put_byte i u mem) (put_byte (Suc i) v)"
proof -
  have "put_bytes i [u, v] mem = Option.bind (put_byte i u mem) (put_bytes (Suc i) [v])" by (simp only: put_bytes.simps)
  also have "put_bytes (Suc i) [v] = put_byte (Suc i) v" by (rule ext) (rule put_bytes_one)
  finally show ?thesis .
qed

lemma put_bytes_at:
  "i + length vs \<le> length mem \<Longrightarrow> put_bytes i vs mem = Some (take i mem @ vs @ drop (i + length vs) mem)"
proof (induction vs arbitrary: i mem)
  case (Cons v vs)
  then show ?case
    by (simp add: put_byte_def take_Suc_conv_app_nth drop_update_swap)
qed simp

lemma put_bytes_out: "i + length vs > length mem \<Longrightarrow> vs \<noteq> [] \<Longrightarrow> put_bytes i vs mem = None"
proof (induction vs arbitrary: i mem)
  case (Cons v vs)
  then show ?case by (cases "vs = []") (auto simp: put_byte_def)
qed simp

lemma put_bytes_nth:
  assumes "i + length vs \<le> length mem"
  shows "\<exists>mem'. put_bytes i vs mem = Some mem' \<and> length mem' = length mem \<and>
    (\<forall>k<length mem. mem' ! k = (if i \<le> k \<and> k < i + length vs then vs ! (k - i) else mem ! k))"
  using assms by (auto simp: put_bytes_at nth_append)

end
