(* ===== verification/DrmBo.thy ===== *)
theory DrmBo
  imports Buffers "HOL-Library.Multiset"
begin

text \<open>
  Display buffers, \<^verbatim>\<open>aiserver/src/vendor/filter/rkvo/drmDsp/bo.c\<close>, and the world the display code
  works on: the kernel's display interface and libdrm are the parameter \<open>drm\<close>, and every resource that
  is acquired or released is accounted for.  A pointer to a structure that has one owner is
  the structure itself, with the address of its memory.
\<close>

section \<open>The kernel and its resources\<close>

definition fourcc_code :: "char \<Rightarrow> char \<Rightarrow> char \<Rightarrow> char \<Rightarrow> u32" where
  "fourcc_code a b c d = word_of_nat (of_char a + 2 ^ 8 * of_char b + 2 ^ 16 * of_char c + 2 ^ 24 * of_char d)"

definition DRM_FORMAT_XRGB8888 :: u32 where "DRM_FORMAT_XRGB8888 = fourcc_code (CHR ''X'') (CHR ''R'') (CHR ''2'') (CHR ''4'')"
definition DRM_FORMAT_ARGB8888 :: u32 where "DRM_FORMAT_ARGB8888 = fourcc_code (CHR ''A'') (CHR ''R'') (CHR ''2'') (CHR ''4'')"
definition DRM_FORMAT_RGBA8888 :: u32 where "DRM_FORMAT_RGBA8888 = fourcc_code (CHR ''R'') (CHR ''A'') (CHR ''2'') (CHR ''4'')"
definition DRM_FORMAT_NV12 :: u32 where "DRM_FORMAT_NV12 = fourcc_code (CHR ''N'') (CHR ''V'') (CHR ''1'') (CHR ''2'')"

lemmas drm_formats = DRM_FORMAT_XRGB8888_def DRM_FORMAT_ARGB8888_def DRM_FORMAT_RGBA8888_def DRM_FORMAT_NV12_def fourcc_code_def

text \<open>Memory from \<^verbatim>\<open>calloc\<close>, objects of libdrm, descriptors, and the kernel's buffers, framebuffers and mappings.\<close>

datatype res = R_mem nat | R_drm nat | R_fd int | R_dumb u32 | R_fb u32 | R_map nat

text \<open>What libdrm reports, with the address of the reported object.\<close>

record drm_mode =
  hdisplay :: nat
  vdisplay :: nat
  mode_type :: u32

record connector =
  cn_ptr :: nat
  connector_id :: u32
  connected :: bool
  cn_modes :: "drm_mode list"
  cn_encoder_id :: u32

record encoder =
  en_ptr :: nat
  encoder_id :: u32
  en_crtc_id :: u32

record crtc =
  cr_ptr :: nat
  crtc_id :: u32
  crtc_mode :: drm_mode

record drm_plane =
  pl_ptr :: nat
  plane_id :: u32
  pl_crtc_id :: u32
  possible_crtcs :: u32
  pl_formats :: "u32 list"

text \<open>
  The calls.  Failures are negative descriptors, results that are not 0, and \<open>None\<close> for NULL or
  \<^verbatim>\<open>MAP_FAILED\<close>; \<open>dr_release\<close> is what a release of any kind does to the environment.
\<close>

record 's drm =
  dr_open :: "'s \<Rightarrow> int \<times> 's"
  dr_calloc :: "'s \<Rightarrow> nat option \<times> 's"
  dr_cap :: "int \<Rightarrow> nat \<Rightarrow> 's \<Rightarrow> int \<times> 's"
  dr_resources :: "int \<Rightarrow> 's \<Rightarrow> (nat \<times> u32 list \<times> u32 list \<times> u32 list) option \<times> 's"
  dr_connector :: "int \<Rightarrow> u32 \<Rightarrow> 's \<Rightarrow> connector option \<times> 's"
  dr_encoder :: "int \<Rightarrow> u32 \<Rightarrow> 's \<Rightarrow> encoder option \<times> 's"
  dr_crtc :: "int \<Rightarrow> u32 \<Rightarrow> 's \<Rightarrow> crtc option \<times> 's"
  dr_plane_resources :: "int \<Rightarrow> 's \<Rightarrow> (nat \<times> u32 list) option \<times> 's"
  dr_plane :: "int \<Rightarrow> u32 \<Rightarrow> 's \<Rightarrow> drm_plane option \<times> 's"
  dr_props :: "int \<Rightarrow> u32 \<Rightarrow> 's \<Rightarrow> nat option \<times> 's"
  dr_create :: "int \<Rightarrow> u32 \<Rightarrow> u32 \<Rightarrow> u32 \<Rightarrow> u32 \<Rightarrow> 's \<Rightarrow> (int \<times> u32 \<times> u32 \<times> u64) \<times> 's"
  dr_map :: "int \<Rightarrow> u32 \<Rightarrow> 's \<Rightarrow> (int \<times> u64) \<times> 's"
  dr_mmap :: "u32 \<Rightarrow> int \<Rightarrow> u64 \<Rightarrow> 's \<Rightarrow> nat option \<times> 's"
  dr_addfb :: "int \<Rightarrow> u32 \<Rightarrow> u32 \<Rightarrow> u32 \<Rightarrow> (u32 \<times> u32 \<times> u32) list \<Rightarrow> u32 \<Rightarrow> 's \<Rightarrow> (int \<times> u32) \<times> 's"
  dr_setcrtc :: "int \<Rightarrow> u32 \<Rightarrow> u32 \<Rightarrow> u32 \<Rightarrow> drm_mode \<Rightarrow> 's \<Rightarrow> int \<times> 's"
  dr_setplane :: "int \<Rightarrow> u32 \<Rightarrow> u32 \<Rightarrow> u32 \<Rightarrow> int list \<Rightarrow> 's \<Rightarrow> int \<times> 's"
  dr_release :: "res \<Rightarrow> 's \<Rightarrow> 's"

text \<open>
  The world: what is acquired and not yet released, what was released without being there, and the
  contents of the mappings by their addresses.
\<close>

record 's dw =
  dw_env :: 's
  dw_live :: "res multiset"
  dw_stray :: "res list"
  dw_pix :: "nat \<Rightarrow> u8 list"

definition call :: "('s \<Rightarrow> 'a \<times> 's) \<Rightarrow> 's dw \<Rightarrow> 'a \<times> 's dw" where
  "call f w = (case f (dw_env w) of (x, e) \<Rightarrow> (x, w\<lparr>dw_env := e\<rparr>))"

definition acquire :: "res \<Rightarrow> 's dw \<Rightarrow> 's dw" where
  "acquire r w = w\<lparr>dw_live := add_mset r (dw_live w)\<rparr>"

definition release :: "'s drm \<Rightarrow> res \<Rightarrow> 's dw \<Rightarrow> 's dw" where
  "release dr r w = (let w1 = w\<lparr>dw_env := dr_release dr r (dw_env w)\<rparr> in
     if r \<in># dw_live w then w1\<lparr>dw_live := dw_live w - {#r#}\<rparr> else w1\<lparr>dw_stray := dw_stray w @ [r]\<rparr>)"

text \<open>An allocation that succeeds is accounted for.\<close>

definition calloc :: "'s drm \<Rightarrow> 's dw \<Rightarrow> nat option \<times> 's dw" where
  "calloc dr w = (case call (dr_calloc dr) w of
     (None, w1) \<Rightarrow> (None, w1)
   | (Some a, w1) \<Rightarrow> (Some a, acquire (R_mem a) w1))"

section \<open>Operations\<close>

record sp_bo =
  bo_addr :: nat
  bo_fd :: int
  bo_width :: u32
  bo_height :: u32
  bo_depth :: u32
  bo_bpp :: u32
  bo_format :: u32
  bo_flags :: u32
  bo_fb_id :: u32
  bo_handle :: u32
  bo_map_addr :: nat
  bo_pitch :: u32
  bo_size :: u32

definition MAP_FAILED :: nat where "MAP_FAILED = 2 ^ 64 - 1"

text \<open>The bytes of one pixel; another format is not written.\<close>

definition pixel_bytes :: "u32 \<Rightarrow> u8 \<Rightarrow> u8 \<Rightarrow> u8 \<Rightarrow> u8 \<Rightarrow> u8 list" where
  "pixel_bytes format a r g b =
     (if format = DRM_FORMAT_ARGB8888 \<or> format = DRM_FORMAT_XRGB8888 then [b, g, r, a]
      else if format = DRM_FORMAT_RGBA8888 then [r, g, b, a]
      else [])"

definition draw_pixel :: "sp_bo \<Rightarrow> u8 list \<Rightarrow> u32 \<Rightarrow> u32 \<Rightarrow> u8 list \<Rightarrow> u8 list option" where
  "draw_pixel bo px i j = put_bytes (unat (i * bo_pitch bo) + unat (j * 4)) px"

definition draw_rect :: "sp_bo \<Rightarrow> u32 \<Rightarrow> u32 \<Rightarrow> u32 \<Rightarrow> u32 \<Rightarrow> u8 \<Rightarrow> u8 \<Rightarrow> u8 \<Rightarrow> u8 \<Rightarrow> u8 list \<Rightarrow> u8 list option" where
  "draw_rect bo x y width height a r g b =
     (let xmax = (if x + width > bo_width bo then bo_width bo else x + width);
          ymax = (if y + height > bo_height bo then bo_height bo else y + height);
          px = pixel_bytes (bo_format bo) a r g b
      in each_opt (\<lambda>i. each_opt (\<lambda>j. draw_pixel bo px (word_of_nat i) (word_of_nat j)) [unat x..<unat xmax]) [unat y..<unat ymax])"

text \<open>The contents of the mapping before and after.\<close>

definition fill_bo :: "sp_bo \<Rightarrow> u8 \<Rightarrow> u8 \<Rightarrow> u8 \<Rightarrow> u8 \<Rightarrow> 's dw \<Rightarrow> 's dw option" where
  "fill_bo bo a r g b w =
     map_option (\<lambda>mem. w\<lparr>dw_pix := (dw_pix w)(bo_map_addr bo := mem)\<rparr>)
       (draw_rect bo 0 0 (bo_width bo) (bo_height bo) a r g b (dw_pix w (bo_map_addr bo)))"

text \<open>A framebuffer with the given planes (handle, pitch, offset); its number is stored in the buffer.\<close>

definition add_fb :: "'s drm \<Rightarrow> sp_bo \<Rightarrow> u32 \<Rightarrow> (u32 \<times> u32 \<times> u32) list \<Rightarrow> 's dw \<Rightarrow> (int \<times> sp_bo) \<times> 's dw" where
  "add_fb dr bo format planes w =
     (case call (dr_addfb dr (bo_fd bo) (bo_width bo) (bo_height bo) format planes (bo_flags bo)) w of
        ((rc, fb), w1) \<Rightarrow> if rc \<noteq> 0 then ((rc, bo), w1) else ((0, bo\<lparr>bo_fb_id := fb\<rparr>), acquire (R_fb fb) w1))"

definition add_fb_sp_bo :: "'s drm \<Rightarrow> sp_bo \<Rightarrow> u32 \<Rightarrow> 's dw \<Rightarrow> (int \<times> sp_bo) \<times> 's dw" where
  "add_fb_sp_bo dr bo format w = add_fb dr bo format [(bo_handle bo, bo_pitch bo, 0)] w"

text \<open>\<^verbatim>\<open>-errno\<close> is some number that is not 0.  A dumb buffer is zero when it is mapped first.\<close>

definition map_sp_bo :: "'s drm \<Rightarrow> sp_bo \<Rightarrow> 's dw \<Rightarrow> (int \<times> sp_bo) \<times> 's dw" where
  "map_sp_bo dr bo w =
     (if bo_map_addr bo \<noteq> 0 then ((0, bo), w)
      else (case call (dr_map dr (bo_fd bo) (bo_handle bo)) w of ((rc, offset), w1) \<Rightarrow>
        if rc \<noteq> 0 then ((rc, bo), w1)
        else (case call (dr_mmap dr (bo_size bo) (bo_fd bo) offset) w1 of
                (None, w2) \<Rightarrow> ((-1, bo\<lparr>bo_map_addr := MAP_FAILED\<rparr>), w2)
              | (Some a, w2) \<Rightarrow> ((0, bo\<lparr>bo_map_addr := a\<rparr>),
                  acquire (R_map a) (w2\<lparr>dw_pix := (dw_pix w2)(a := replicate (unat (bo_size bo)) 0)\<rparr>)))))"

definition free_sp_bo :: "'s drm \<Rightarrow> sp_bo \<Rightarrow> 's dw \<Rightarrow> 's dw" where
  "free_sp_bo dr bo w =
     (let w1 = (if bo_map_addr bo \<noteq> 0 then release dr (R_map (bo_map_addr bo)) w else w);
          w2 = (if bo_fb_id bo \<noteq> 0 then release dr (R_fb (bo_fb_id bo)) w1 else w1);
          w3 = (if bo_handle bo \<noteq> 0 then release dr (R_dumb (bo_handle bo)) w2 else w2)
      in release dr (R_mem (bo_addr bo)) w3)"

definition create_sp_bo ::
  "'s drm \<Rightarrow> int \<Rightarrow> u32 \<Rightarrow> u32 \<Rightarrow> u32 \<Rightarrow> u32 \<Rightarrow> u32 \<Rightarrow> u32 \<Rightarrow> 's dw \<Rightarrow> sp_bo option \<times> 's dw" where
  "create_sp_bo dr fd width height depth bpp format flags w = (case calloc dr w of
     (None, w1) \<Rightarrow> (None, w1)
   | (Some a, w1) \<Rightarrow>
       (let bo0 = \<lparr>bo_addr = a, bo_fd = 0, bo_width = 0, bo_height = 0, bo_depth = 0, bo_bpp = 0, bo_format = 0,
          bo_flags = 0, bo_fb_id = 0, bo_handle = 0, bo_map_addr = 0, bo_pitch = 0, bo_size = 0\<rparr>
        in (case call (dr_create dr fd height width bpp flags) w1 of ((rc, handle, pitch, sz), w2) \<Rightarrow>
          if rc \<noteq> 0 then (None, free_sp_bo dr bo0 w2)
          else (case map_sp_bo dr (bo0\<lparr>bo_fd := fd, bo_width := width, bo_height := height, bo_depth := depth, bo_bpp := bpp,
                    bo_format := format, bo_flags := flags, bo_handle := handle, bo_pitch := pitch, bo_size := ucast sz\<rparr>)
                  (acquire (R_dumb handle) w2) of
                  ((rc, bo), w3) \<Rightarrow> if rc \<noteq> 0 then (None, free_sp_bo dr bo w3) else (Some bo, w3)))))"

section \<open>Accounting\<close>

text \<open>
  What the code relies on: addresses, handles and framebuffers that are handed out are not 0, and a
  buffer has room for its lines of four bytes a pixel.
\<close>

definition drm_laws :: "'s drm \<Rightarrow> bool" where
  "drm_laws dr \<longleftrightarrow>
     (\<forall>e a e'. dr_calloc dr e = (Some a, e') \<longrightarrow> a \<noteq> 0) \<and>
     (\<forall>sz fd off e a e'. dr_mmap dr sz fd off e = (Some a, e') \<longrightarrow> a \<noteq> 0 \<and> a \<noteq> MAP_FAILED) \<and>
     (\<forall>fd h wd bpp flags e handle pitch sz e'. dr_create dr fd h wd bpp flags e = ((0, handle, pitch, sz), e') \<longrightarrow>
        handle \<noteq> 0 \<and> (unat wd * unat bpp + 7) div 8 \<le> unat pitch \<and> unat pitch * unat h \<le> unat sz \<and> unat sz < 2 ^ 32) \<and>
     (\<forall>fd wd h format ps flags e fb e'. dr_addfb dr fd wd h format ps flags e = ((0, fb), e') \<longrightarrow> fb \<noteq> 0)"

lemma call_env: "call f w = (x, w') \<Longrightarrow> f (dw_env w) = (x, dw_env w')"
  by (auto simp: call_def split: prod.splits)

lemma drm_lawsD:
  assumes "drm_laws dr"
  shows "call (dr_calloc dr) w = (Some a, w') \<Longrightarrow> a \<noteq> 0"
    and "call (dr_mmap dr sz fd off) w = (Some a, w') \<Longrightarrow> a \<noteq> 0 \<and> a \<noteq> MAP_FAILED"
    and "call (dr_create dr fd h wd bpp flags) w = ((0, handle, pitch, sz'), w') \<Longrightarrow>
      handle \<noteq> 0 \<and> (unat wd * unat bpp + 7) div 8 \<le> unat pitch \<and> unat pitch * unat h \<le> unat sz' \<and> unat sz' < 2 ^ 32"
    and "call (dr_addfb dr fd wd h format ps flags) w = ((0, fb), w') \<Longrightarrow> fb \<noteq> 0"
proof -
  show "a \<noteq> 0" if "call (dr_calloc dr) w = (Some a, w')" using assms call_env [OF that] unfolding drm_laws_def by metis
  show "a \<noteq> 0 \<and> a \<noteq> MAP_FAILED" if "call (dr_mmap dr sz fd off) w = (Some a, w')" using assms call_env [OF that] unfolding drm_laws_def by metis
  show "handle \<noteq> 0 \<and> (unat wd * unat bpp + 7) div 8 \<le> unat pitch \<and> unat pitch * unat h \<le> unat sz' \<and> unat sz' < 2 ^ 32"
    if "call (dr_create dr fd h wd bpp flags) w = ((0, handle, pitch, sz'), w')"
    using assms call_env [OF that] unfolding drm_laws_def by metis
  show "fb \<noteq> 0" if "call (dr_addfb dr fd wd h format ps flags) w = ((0, fb), w')"
    using assms call_env [OF that] unfolding drm_laws_def by metis
qed

text \<open>The resources behind a buffer.\<close>

definition bo_owned :: "sp_bo \<Rightarrow> res multiset" where
  "bo_owned bo = {#R_mem (bo_addr bo), R_dumb (bo_handle bo), R_map (bo_map_addr bo)#} +
     (if bo_fb_id bo = 0 then {#} else {#R_fb (bo_fb_id bo)#})"

definition bo_ok :: "sp_bo \<Rightarrow> bool" where
  "bo_ok bo \<longleftrightarrow> bo_handle bo \<noteq> 0 \<and> bo_map_addr bo \<noteq> 0 \<and> bo_map_addr bo \<noteq> MAP_FAILED"

lemma call_keeps:
  assumes "call f w = (x, w')"
  shows "dw_live w' = dw_live w" "dw_stray w' = dw_stray w" "dw_pix w' = dw_pix w"
  using assms by (auto simp: call_def split: prod.splits)

lemma acquire_simps [simp]:
  "dw_live (acquire r w) = add_mset r (dw_live w)" "dw_stray (acquire r w) = dw_stray w"
  "dw_pix (acquire r w) = dw_pix w" "dw_env (acquire r w) = dw_env w"
  by (simp_all add: acquire_def)

lemma release_live:
  assumes "dw_live w = add_mset r L"
  shows "dw_live (release dr r w) = L" "dw_stray (release dr r w) = dw_stray w" "dw_pix (release dr r w) = dw_pix w"
  using assms by (simp_all add: release_def Let_def)

lemma release_stray:
  assumes "r \<notin># dw_live w"
  shows "dw_live (release dr r w) = dw_live w" "dw_stray (release dr r w) = dw_stray w @ [r]" "dw_pix (release dr r w) = dw_pix w"
  using assms by (simp_all add: release_def Let_def)

lemma release_pix [simp]: "dw_pix (release dr r w) = dw_pix w"
  by (simp add: release_def Let_def)

lemma calloc_effect:
  assumes "calloc dr w = (p, w')"
  shows "dw_live w' = (case p of None \<Rightarrow> {#} | Some a \<Rightarrow> {#R_mem a#}) + dw_live w" "dw_stray w' = dw_stray w" "dw_pix w' = dw_pix w"
  using assms by (auto simp: calloc_def split: prod.splits option.splits dest: call_keeps)

text \<open>Freeing a buffer releases exactly what is behind it.\<close>

lemma free_sp_bo_effect:
  assumes "bo_ok bo" and "dw_live w = bo_owned bo + L"
  shows "dw_live (free_sp_bo dr bo w) = L" "dw_stray (free_sp_bo dr bo w) = dw_stray w" "dw_pix (free_sp_bo dr bo w) = dw_pix w"
proof -
  define w1 where "w1 = release dr (R_map (bo_map_addr bo)) w"
  define w2 where "w2 = (if bo_fb_id bo \<noteq> 0 then release dr (R_fb (bo_fb_id bo)) w1 else w1)"
  define w3 where "w3 = release dr (R_dumb (bo_handle bo)) w2"
  have 1: "dw_live w1 = (if bo_fb_id bo = 0 then {#} else {#R_fb (bo_fb_id bo)#}) +
      ({#R_dumb (bo_handle bo), R_mem (bo_addr bo)#} + L)" "dw_stray w1 = dw_stray w"
    using release_live [of w "R_map (bo_map_addr bo)" _ dr] assms(2) by (simp_all add: w1_def bo_owned_def)
  then have 2: "dw_live w2 = {#R_dumb (bo_handle bo), R_mem (bo_addr bo)#} + L" "dw_stray w2 = dw_stray w"
    by (auto simp: w2_def release_live)
  then have 3: "dw_live w3 = add_mset (R_mem (bo_addr bo)) L" "dw_stray w3 = dw_stray w"
    by (simp_all add: w3_def release_live)
  have "free_sp_bo dr bo w = release dr (R_mem (bo_addr bo)) w3"
    using assms(1) by (simp add: free_sp_bo_def Let_def w1_def w2_def w3_def bo_ok_def)
  with 3 release_live [OF 3(1), of dr]
  show "dw_live (free_sp_bo dr bo w) = L" "dw_stray (free_sp_bo dr bo w) = dw_stray w" "dw_pix (free_sp_bo dr bo w) = dw_pix w"
    by (simp_all add: w3_def w2_def w1_def)
qed

lemma map_sp_bo_effect:
  assumes "drm_laws dr" and "bo_map_addr bo = 0" and m: "map_sp_bo dr bo w = ((rc, bo'), w')"
  shows "dw_stray w' = dw_stray w" "bo' = bo\<lparr>bo_map_addr := bo_map_addr bo'\<rparr>"
    and "rc = 0 \<Longrightarrow> bo_map_addr bo' \<noteq> 0 \<and> bo_map_addr bo' \<noteq> MAP_FAILED \<and> dw_live w' = add_mset (R_map (bo_map_addr bo')) (dw_live w) \<and>
           dw_pix w' = (dw_pix w)(bo_map_addr bo' := replicate (unat (bo_size bo)) 0)"
    and "rc \<noteq> 0 \<Longrightarrow> dw_live w' = dw_live w \<and> bo_map_addr bo' \<in> {0, MAP_FAILED}"
proof -
  obtain rc1 offset w1 where 1: "call (dr_map dr (bo_fd bo) (bo_handle bo)) w = ((rc1, offset), w1)" by (metis prod.exhaust)
  obtain p w2 where 2: "call (dr_mmap dr (bo_size bo) (bo_fd bo) offset) w1 = (p, w2)" by (metis prod.exhaust)
  have "a \<noteq> 0 \<and> a \<noteq> MAP_FAILED" if "p = Some a" for a
    using drm_lawsD(2) [OF assms(1)] 2 that by blast
  moreover note call_keeps [OF 1] call_keeps [OF 2] m 1 2 assms(2)
  ultimately show "dw_stray w' = dw_stray w" "bo' = bo\<lparr>bo_map_addr := bo_map_addr bo'\<rparr>"
    and "rc = 0 \<Longrightarrow> bo_map_addr bo' \<noteq> 0 \<and> bo_map_addr bo' \<noteq> MAP_FAILED \<and> dw_live w' = add_mset (R_map (bo_map_addr bo')) (dw_live w) \<and>
           dw_pix w' = (dw_pix w)(bo_map_addr bo' := replicate (unat (bo_size bo)) 0)"
    and "rc \<noteq> 0 \<Longrightarrow> dw_live w' = dw_live w \<and> bo_map_addr bo' \<in> {0, MAP_FAILED}"
    by (auto simp: map_sp_bo_def split: if_splits option.splits)
qed

text \<open>
  Creating a buffer: with success it has the asked geometry and is accounted for; a failure leaves
  nothing behind.  A failed mapping is unmapped all the same, at \<^verbatim>\<open>MAP_FAILED\<close>.
\<close>

lemma create_sp_bo_effect:
  assumes laws: "drm_laws dr" and c: "create_sp_bo dr fd width height depth bpp format flags w = (res, w')"
    and "R_map MAP_FAILED \<notin># dw_live w"
  shows "case res of
      Some bo \<Rightarrow> bo_ok bo \<and> bo_fb_id bo = 0 \<and> bo_fd bo = fd \<and> bo_width bo = width \<and> bo_height bo = height \<and> bo_format bo = format \<and>
        bo_flags bo = flags \<and> (unat width * unat bpp + 7) div 8 \<le> unat (bo_pitch bo) \<and>
        unat (bo_pitch bo) * unat height \<le> unat (bo_size bo) \<and> dw_live w' = bo_owned bo + dw_live w \<and> dw_stray w' = dw_stray w \<and>
        dw_pix w' = (dw_pix w)(bo_map_addr bo := replicate (unat (bo_size bo)) 0)
    | None \<Rightarrow> dw_live w' = dw_live w \<and> dw_stray w' \<in> {dw_stray w, dw_stray w @ [R_map MAP_FAILED]} \<and> dw_pix w' = dw_pix w"
proof -
  obtain p w1 where 1: "calloc dr w = (p, w1)" by (metis prod.exhaust)
  note e1 = calloc_effect [OF 1]
  show ?thesis
  proof (cases p)
    case None
    with 1 c e1 show ?thesis by (auto simp: create_sp_bo_def)
  next
    case (Some a)
    obtain rc handle pitch sz w2 where 2: "call (dr_create dr fd height width bpp flags) w1 = ((rc, handle, pitch, sz), w2)"
      by (metis prod.exhaust)
    note e2 = call_keeps [OF 2]
    show ?thesis
    proof (cases "rc = 0")
      case False
      have "dw_live w2 = add_mset (R_mem a) (dw_live w)" using e1 e2 Some by simp
      from release_live [OF this, of dr] False Some 1 2 c e1 e2 show ?thesis
        by (auto simp: create_sp_bo_def Let_def free_sp_bo_def)
    next
      case True
      let ?bo = "\<lparr>bo_addr = a, bo_fd = fd, bo_width = width, bo_height = height, bo_depth = depth, bo_bpp = bpp, bo_format = format,
          bo_flags = flags, bo_fb_id = 0, bo_handle = handle, bo_map_addr = 0, bo_pitch = pitch, bo_size = ucast sz\<rparr>"
      have h: "handle \<noteq> 0" "(unat width * unat bpp + 7) div 8 \<le> unat pitch" "unat pitch * unat height \<le> unat sz" "unat sz < 2 ^ 32"
        using drm_lawsD(3) [OF laws] 2 True by blast+
      then have sz: "unat (ucast sz :: u32) = unat sz" by (simp add: unsigned_ucast_eq take_bit_nat_eq_self)
      obtain rc' bo w3 where 3: "map_sp_bo dr ?bo (acquire (R_dumb handle) w2) = ((rc', bo), w3)" by (metis prod.exhaust)
      from map_sp_bo_effect [OF laws _ 3] have e3: "dw_stray w3 = dw_stray w" "bo = ?bo\<lparr>bo_map_addr := bo_map_addr bo\<rparr>"
        "rc' = 0 \<Longrightarrow> bo_map_addr bo \<noteq> 0 \<and> bo_map_addr bo \<noteq> MAP_FAILED \<and> dw_live w3 = {#R_map (bo_map_addr bo), R_dumb handle, R_mem a#} + dw_live w \<and>
           dw_pix w3 = (dw_pix w)(bo_map_addr bo := replicate (unat sz) 0)"
        "rc' \<noteq> 0 \<Longrightarrow> dw_live w3 = {#R_dumb handle, R_mem a#} + dw_live w \<and> bo_map_addr bo \<in> {0, MAP_FAILED}"
        using e1 e2 Some sz by auto
      have r: "(res, w') = (if rc' \<noteq> 0 then (None, free_sp_bo dr bo w3) else (Some bo, w3))"
        using c 1 2 3 Some True by (simp add: create_sp_bo_def Let_def)
      show ?thesis
      proof (cases "rc' = 0")
        case True
        with r e3 h sz show ?thesis by (cases bo) (auto simp: bo_ok_def bo_owned_def)
      next
        case False
        note e4 = e3(4) [OF False]
        have pix: "dw_pix w3 = dw_pix w"
          using 3 False e1 e2 by (auto simp: map_sp_bo_def call_def split: prod.splits if_splits option.splits)
        define w4 where "w4 = (if bo_map_addr bo \<noteq> 0 then release dr (R_map (bo_map_addr bo)) w3 else w3)"
        have w4: "dw_live w4 = add_mset (R_dumb handle) (add_mset (R_mem a) (dw_live w))" "dw_pix w4 = dw_pix w"
          "dw_stray w4 \<in> {dw_stray w, dw_stray w @ [R_map MAP_FAILED]}"
          using e4 assms(3) pix e3(1) by (auto simp: w4_def release_stray MAP_FAILED_def)
        have bo: "bo_fb_id bo = 0" "bo_handle bo = handle" "bo_addr bo = a" using e3(2) by (metis sp_bo.select_convs sp_bo.update_convs)+
        then have "free_sp_bo dr bo w3 = release dr (R_mem a) (release dr (R_dumb handle) w4)"
          using h(1) by (simp add: free_sp_bo_def Let_def w4_def)
        with release_live [OF w4(1), of dr] release_live [of "release dr (R_dumb handle) w4" "R_mem a" "dw_live w" dr] w4(2,3) r False
        show ?thesis by auto
      qed
    qed
  qed
qed

lemma add_fb_effect:
  assumes "drm_laws dr" and "add_fb dr bo format planes w = ((rc, bo'), w')" and "bo_fb_id bo = 0"
  shows "dw_stray w' = dw_stray w" "dw_pix w' = dw_pix w" "bo_ok bo' = bo_ok bo" "bo' = bo\<lparr>bo_fb_id := bo_fb_id bo'\<rparr>"
    and "dw_live w = bo_owned bo + L \<Longrightarrow> dw_live w' = bo_owned bo' + L"
    and "rc = 0 \<longleftrightarrow> bo_fb_id bo' \<noteq> 0"
proof -
  obtain rc1 fb w1 where 1: "call (dr_addfb dr (bo_fd bo) (bo_width bo) (bo_height bo) format planes (bo_flags bo)) w = ((rc1, fb), w1)"
    by (metis prod.exhaust)
  have "rc1 = 0 \<Longrightarrow> fb \<noteq> 0" using drm_lawsD(4) [OF assms(1)] 1 by blast
  with 1 call_keeps [OF 1] assms(2,3)
  show "dw_stray w' = dw_stray w" "dw_pix w' = dw_pix w" "bo_ok bo' = bo_ok bo" "bo' = bo\<lparr>bo_fb_id := bo_fb_id bo'\<rparr>"
    and "dw_live w = bo_owned bo + L \<Longrightarrow> dw_live w' = bo_owned bo' + L"
    and "rc = 0 \<longleftrightarrow> bo_fb_id bo' \<noteq> 0"
    by (auto simp: add_fb_def bo_ok_def bo_owned_def split: if_splits)
qed

section \<open>Drawing\<close>

lemma pixel_index:
  fixes p i j pitch :: nat
  assumes "4 * j + 4 \<le> pitch"
  shows "i * pitch + 4 * j \<le> p \<and> p < i * pitch + 4 * j + 4 \<longleftrightarrow> p div pitch = i \<and> p mod pitch div 4 = j"
proof
  assume "i * pitch + 4 * j \<le> p \<and> p < i * pitch + 4 * j + 4"
  then obtain q where q: "p = i * pitch + (4 * j + q)" "q < 4"
    by (metis add.assoc le_add_diff_inverse nat_add_left_cancel_less)
  then have "4 * j + q < pitch" using assms by simp
  with q show "p div pitch = i \<and> p mod pitch div 4 = j" by simp
next
  assume a: "p div pitch = i \<and> p mod pitch div 4 = j"
  have "p = i * pitch + p mod pitch" using a by (metis div_mult_mod_eq)
  moreover have "p mod pitch = 4 * j + p mod pitch mod 4" using a by (metis mult.commute div_mult_mod_eq)
  ultimately show "i * pitch + 4 * j \<le> p \<and> p < i * pitch + 4 * j + 4" by (metis add_le_cancel_left le_add1 mod_less_divisor nat_add_left_cancel_less add.assoc zero_less_numeral)
qed

text \<open>The bytes of the pixels of lines \<open>y\<close> to \<open>i\<close> (not included), columns \<open>x\<close> to \<open>j\<close>.\<close>

definition in_rect :: "nat \<Rightarrow> nat \<Rightarrow> nat \<Rightarrow> nat \<Rightarrow> nat \<Rightarrow> nat \<Rightarrow> bool" where
  "in_rect pitch x j y i p \<longleftrightarrow> y \<le> p div pitch \<and> p div pitch < i \<and> x \<le> p mod pitch div 4 \<and> p mod pitch div 4 < j"

definition painted :: "u8 list \<Rightarrow> (nat \<Rightarrow> bool) \<Rightarrow> nat \<Rightarrow> u8 list \<Rightarrow> u8 list \<Rightarrow> bool" where
  "painted px inside pitch old new \<longleftrightarrow> length new = length old \<and>
     (\<forall>p<length old. new ! p = (if inside p \<and> px \<noteq> [] then px ! (p mod pitch mod 4) else old ! p))"

lemma painted_refl: "painted px (\<lambda>_. False) pitch mem mem"
  by (simp add: painted_def)

lemma painted_cong: "painted px P pitch old new \<Longrightarrow> (\<And>p. P p = Q p) \<Longrightarrow> painted px Q pitch old new"
  by (simp add: painted_def)

lemma painted_some:
  "\<exists>m. r = Some m \<and> painted px P pitch old m \<Longrightarrow> (\<And>p. P p = Q p) \<Longrightarrow> \<exists>m. r = Some m \<and> painted px Q pitch old m"
  by (blast intro: painted_cong)

lemma pixel_bytes_length: "length (pixel_bytes format a r g b) \<in> {0, 4}"
  by (simp add: pixel_bytes_def)

text \<open>One more pixel of the line.\<close>

lemma draw_pixel_painted:
  fixes i j :: nat
  assumes fit: "4 * unat (bo_width bo) \<le> unat (bo_pitch bo)" "unat (bo_pitch bo) * unat (bo_height bo) \<le> length old"
      "unat (bo_pitch bo) * unat (bo_height bo) < 2 ^ 32"
    and at: "i < unat (bo_height bo)" "j < unat (bo_width bo)" and px: "length px \<in> {0, 4}"
    and old: "painted px P (unat (bo_pitch bo)) old mem"
  shows "\<exists>mem'. draw_pixel bo px (word_of_nat i) (word_of_nat j) mem = Some mem' \<and>
    painted px (\<lambda>p. P p \<or> p div unat (bo_pitch bo) = i \<and> p mod unat (bo_pitch bo) div 4 = j) (unat (bo_pitch bo)) old mem'"
proof -
  let ?p = "unat (bo_pitch bo)" and ?h = "unat (bo_height bo)"
  have j4: "4 * j + 4 \<le> ?p" using at(2) fit(1) by simp
  have line: "i * ?p + ?p \<le> ?p * ?h" using at(1) by (metis Suc_leI mult.commute mult_Suc_right add.commute mult_le_mono1)
  have w: "unat (word_of_nat i :: u32) = i" "unat (word_of_nat j :: u32) = j"
    using at unsigned_less [of "bo_height bo", where ?'a = nat] unsigned_less [of "bo_width bo", where ?'a = nat] by (simp_all add: unsigned_of_nat take_bit_nat_eq_self)
  have o: "unat (word_of_nat i * bo_pitch bo) = i * ?p" "unat ((word_of_nat j :: u32) * 4) = 4 * j"
    using w line j4 fit(3) by (simp_all add: unat_word_ariths mod_less)
  have len: "length mem = length old" using old by (simp add: painted_def)
  show ?thesis
  proof (cases "px = []")
    case True
    with old show ?thesis by (auto simp: draw_pixel_def painted_def)
  next
    case False
    with px have l4: "length px = 4" by simp
    with put_bytes_nth [of "i * ?p + 4 * j" px mem] line j4 fit(2) len obtain mem' where
      m: "put_bytes (i * ?p + 4 * j) px mem = Some mem'" "length mem' = length old"
      "\<forall>k<length old. mem' ! k = (if i * ?p + 4 * j \<le> k \<and> k < i * ?p + 4 * j + 4 then px ! (k - (i * ?p + 4 * j)) else mem ! k)"
      by auto
    have pos: "k - (i * ?p + 4 * j) = k mod ?p mod 4" if "k div ?p = i \<and> k mod ?p div 4 = j" for k
    proof -
      have "k = i * ?p + (4 * j + k mod ?p mod 4)"
        using that by (metis div_mult_mod_eq mult.commute)
      then show ?thesis by (metis add_diff_cancel_left' add.assoc)
    qed
    have "painted px (\<lambda>p. P p \<or> p div ?p = i \<and> p mod ?p div 4 = j) ?p old mem'"
      using m(2,3) old False pos unfolding pixel_index [OF j4] painted_def by auto
    with m(1) show ?thesis by (auto simp: draw_pixel_def o)
  qed
qed

lemma draw_rect_painted:
  assumes "4 * unat (bo_width bo) \<le> unat (bo_pitch bo)" "unat (bo_pitch bo) * unat (bo_height bo) \<le> length mem"
    and "length mem < 2 ^ 32" and "unat x + unat width < 2 ^ 32" "unat y + unat height < 2 ^ 32"
  shows "\<exists>mem'. draw_rect bo x y width height a r g b mem = Some mem' \<and>
    painted (pixel_bytes (bo_format bo) a r g b)
      (in_rect (unat (bo_pitch bo)) (unat x) (min (unat x + unat width) (unat (bo_width bo)))
        (unat y) (min (unat y + unat height) (unat (bo_height bo)))) (unat (bo_pitch bo)) mem mem'"
proof -
  let ?p = "unat (bo_pitch bo)" and ?px = "pixel_bytes (bo_format bo) a r g b"
  define xmax where "xmax = (if x + width > bo_width bo then bo_width bo else x + width)"
  define ymax where "ymax = (if y + height > bo_height bo then bo_height bo else y + height)"
  have sums: "unat (x + width) = unat x + unat width" "unat (y + height) = unat y + unat height"
    using assms(4,5) by (simp_all add: unat_word_ariths)
  have mx: "unat xmax = min (unat x + unat width) (unat (bo_width bo))" "unat ymax = min (unat y + unat height) (unat (bo_height bo))"
    using sums by (auto simp: xmax_def ymax_def word_less_nat_alt)
  have fit: "?p * unat (bo_height bo) < 2 ^ 32" using assms(2,3) by simp
  let ?line = "\<lambda>i. each_opt (\<lambda>j. draw_pixel bo ?px (word_of_nat i) (word_of_nat j)) [unat x..<unat xmax]"
  have line: "\<exists>s'. ?line i s = Some s' \<and> painted ?px (in_rect ?p (unat x) (unat xmax) (unat y) (Suc i)) ?p mem s'"
    if i: "unat y \<le> i" "i < unat ymax" and s: "painted ?px (in_rect ?p (unat x) (unat xmax) (unat y) i) ?p mem s" for i s
  proof (cases "unat x \<le> unat xmax")
    case False
    have "in_rect ?p (unat x) (unat xmax) (unat y) k p = False" for k p using False by (auto simp: in_rect_def)
    with False s show ?thesis by (simp add: painted_cong [OF s])
  next
    case True
    let ?Q = "\<lambda>j p. in_rect ?p (unat x) (unat xmax) (unat y) i p \<or> p div ?p = i \<and> unat x \<le> p mod ?p div 4 \<and> p mod ?p div 4 < j"
    have "\<exists>s'. ?line i s = Some s' \<and> painted ?px (?Q (unat xmax)) ?p mem s'"
    proof (rule for_range [OF True, where P = "\<lambda>j. painted ?px (?Q j) ?p mem"])
      show "painted ?px (?Q (unat x)) ?p mem s" by (rule painted_cong [OF s]) auto
      fix j t assume j: "unat x \<le> j" "j < unat xmax" and t: "painted ?px (?Q j) ?p mem t"
      have "i < unat (bo_height bo)" "j < unat (bo_width bo)" using i j mx by auto
      from draw_pixel_painted [OF assms(1,2) fit this pixel_bytes_length t]
      show "\<exists>s'. draw_pixel bo ?px (word_of_nat i) (word_of_nat j) t = Some s' \<and> painted ?px (?Q (Suc j)) ?p mem s'"
        by (rule painted_some) (use j in auto)
    qed
    then show ?thesis
      by (rule painted_some) (use i in \<open>auto simp: in_rect_def less_Suc_eq\<close>)
  qed
  have "\<exists>mem'. each_opt ?line [unat y..<unat ymax] mem = Some mem' \<and> painted ?px (in_rect ?p (unat x) (unat xmax) (unat y) (unat ymax)) ?p mem mem'"
  proof (cases "unat y \<le> unat ymax")
    case True
    show ?thesis
      by (rule for_range [OF True, where P = "\<lambda>i. painted ?px (in_rect ?p (unat x) (unat xmax) (unat y) i) ?p mem"])
         (use line in \<open>auto simp: painted_def in_rect_def\<close>)
  next
    case False
    then have "in_rect ?p (unat x) (unat xmax) (unat y) (unat ymax) p = False" for p by (auto simp: in_rect_def)
    with False show ?thesis by (auto intro: painted_cong [OF painted_refl])
  qed
  then show ?thesis
    unfolding draw_rect_def Let_def xmax_def [symmetric] ymax_def [symmetric] mx .
qed

lemma fill_bo_effect:
  assumes "4 * unat (bo_width bo) \<le> unat (bo_pitch bo)" "unat (bo_pitch bo) * unat (bo_height bo) \<le> length (dw_pix w (bo_map_addr bo))"
    and "length (dw_pix w (bo_map_addr bo)) < 2 ^ 32"
  shows "\<exists>w'. fill_bo bo a r g b w = Some w' \<and> dw_live w' = dw_live w \<and> dw_stray w' = dw_stray w \<and> dw_env w' = dw_env w"
  using draw_rect_painted [OF assms, of 0 "bo_width bo" 0 "bo_height bo" a r g b]
    unsigned_less [of "bo_width bo", where ?'a = nat] unsigned_less [of "bo_height bo", where ?'a = nat]
  by (auto simp: fill_bo_def)

text \<open>
  Property C36. A rectangle is drawn exactly, and inside the buffer.  For a buffer with room for its
  lines and a rectangle whose right and lower edges do not wrap, drawing never writes outside of
  the mapping; afterwards the four bytes of a pixel that is in the rectangle and in the buffer are
  blue, green, red, alpha for \<^verbatim>\<open>ARGB8888\<close> and \<^verbatim>\<open>XRGB8888\<close>, and red, green, blue, alpha for
  \<^verbatim>\<open>RGBA8888\<close>, as \<^verbatim>\<open>bo.c\<close> writes them (the comment in \<^verbatim>\<open>drm_fourcc.h\<close> asks for alpha, blue, green,
  red there); every other byte (pixels outside, the rest of the lines, what follows the last line)
  is as before.  A format that is not one of the three leaves everything as it was.
\<close>

theorem draw_rect_exact:
  assumes "4 * unat (bo_width bo) \<le> unat (bo_pitch bo)" "unat (bo_pitch bo) * unat (bo_height bo) \<le> length mem"
    and "length mem < 2 ^ 32" and "unat x + unat width < 2 ^ 32" "unat y + unat height < 2 ^ 32"
  shows "\<exists>mem'. draw_rect bo x y width height a r g b mem = Some mem' \<and> length mem' = length mem \<and>
    (\<forall>p<length mem. let line = p div unat (bo_pitch bo); column = p mod unat (bo_pitch bo) div 4; 
         px = (if bo_format bo = DRM_FORMAT_ARGB8888 \<or> bo_format bo = DRM_FORMAT_XRGB8888 then [b, g, r, a]
               else if bo_format bo = DRM_FORMAT_RGBA8888 then [r, g, b, a] else []) in
       mem' ! p = (if unat x \<le> column \<and> column < min (unat x + unat width) (unat (bo_width bo)) \<and>
                      unat y \<le> line \<and> line < min (unat y + unat height) (unat (bo_height bo)) \<and> px \<noteq> []
                   then px ! (p mod unat (bo_pitch bo) mod 4) else mem ! p))"
  using draw_rect_painted [OF assms, of a r g b] 
  unfolding painted_def in_rect_def Let_def pixel_bytes_def by (auto simp: conj_ac)

definition small_bo :: sp_bo where
  "small_bo = \<lparr>bo_addr = 1, bo_fd = 3, bo_width = 2, bo_height = 2, bo_depth = 24, bo_bpp = 32, bo_format = DRM_FORMAT_XRGB8888,
     bo_flags = 0, bo_fb_id = 0, bo_handle = 1, bo_map_addr = 4096, bo_pitch = 8, bo_size = 16\<rparr>"

theorem draw_rect_exact_witness:
  "\<exists>mem'. draw_rect small_bo 1 0 1 1 255 1 2 3 (replicate 16 0) = Some mem' \<and> mem' ! 5 = 2 \<and> mem' ! 0 = 0"
  using draw_rect_exact [of small_bo "replicate 16 0" 1 1 0 1 255 1 2 3] by (auto simp: small_bo_def Let_def)

end
