(* ===== verification/DrmDev.thy ===== *)
theory DrmDev
  imports DrmBo
begin

text \<open>
  The display device, \<^verbatim>\<open>drmDsp/dev.c\<close> and \<^verbatim>\<open>drmDsp/modeset.c\<close>: opening it and collecting its
  connectors, encoders, controllers and planes, showing a first picture, handing out planes, and giving
  everything back.  \<open>None\<close> as a result is a NULL pointer that is followed or an index
  outside of its array.
\<close>

section \<open>Data\<close>

record sp_plane =
  sp_plane :: "drm_plane option"
  sp_bo :: "sp_bo option"
  in_use :: bool
  sp_format :: u32

record sp_crtc =
  sc_crtc :: "crtc option"
  pipe :: nat
  num_planes :: nat
  scanout :: "sp_bo option"

text \<open>An array is its address, \<open>None\<close> for NULL, and its elements; its length is the stored number.\<close>

record sp_dev =
  sd_addr :: nat
  sd_fd :: int
  connectors_arr :: "nat option"
  connectors :: "connector option list"
  encoders_arr :: "nat option"
  encoders :: "encoder option list"
  crtcs_arr :: "nat option"
  crtcs :: "sp_crtc list"
  planes_arr :: "nat option"
  planes :: "sp_plane list"

definition somes :: "'a option list \<Rightarrow> 'a list" where
  "somes xs = concat (map (\<lambda>x. case x of None \<Rightarrow> [] | Some y \<Rightarrow> [y]) xs)"

lemma somes_simps [simp]: "somes [] = []" "somes (Some x # xs) = x # somes xs" "somes (None # xs) = somes xs"
    "somes (replicate n None) = []"
proof -
  show "somes (replicate n None) = []" by (induction n) (simp_all add: somes_def)
qed (simp_all add: somes_def)

section \<open>Formats\<close>

definition is_supported_format :: "drm_plane \<Rightarrow> u32 \<Rightarrow> bool" where
  "is_supported_format p format = list_ex (\<lambda>f. f = format) (pl_formats p)"

definition get_supported_format :: "drm_plane \<Rightarrow> u32 option" where
  "get_supported_format p =
     find (\<lambda>f. f = DRM_FORMAT_XRGB8888 \<or> f = DRM_FORMAT_ARGB8888 \<or> f = DRM_FORMAT_RGBA8888) (pl_formats p)"

definition possible_on :: "drm_plane \<Rightarrow> nat \<Rightarrow> bool" where
  "possible_on p j \<longleftrightarrow> and (possible_crtcs p) (push_bit j 1) \<noteq> 0"

section \<open>Giving back\<close>

definition put_sp_plane :: "'s drm \<Rightarrow> int \<Rightarrow> sp_plane \<Rightarrow> 's dw \<Rightarrow> (sp_plane \<times> 's dw) option" where
  "put_sp_plane dr fd pl w = (case sp_plane pl of
     None \<Rightarrow> None
   | Some p \<Rightarrow>
       (let w1 = (if pl_crtc_id p \<noteq> 0 then snd (call (dr_setplane dr fd (plane_id p) (pl_crtc_id p) 0 (replicate 8 0)) w) else w);
            w2 = (case sp_bo pl of None \<Rightarrow> w1 | Some bo \<Rightarrow> free_sp_bo dr bo w1)
        in Some (pl\<lparr>sp_bo := None, in_use := False\<rparr>, w2)))"

definition free_crtc :: "'s drm \<Rightarrow> sp_crtc \<Rightarrow> 's dw \<Rightarrow> 's dw option" where
  "free_crtc dr c w =
     (let w1 = (case scanout c of None \<Rightarrow> w | Some bo \<Rightarrow> free_sp_bo dr bo w)
      in Some (case sc_crtc c of None \<Rightarrow> w1 | Some x \<Rightarrow> release dr (R_drm (cr_ptr x)) w1))"

text \<open>A buffer of the plane is freed here and, when the plane is in use, once more by \<^verbatim>\<open>put_sp_plane\<close>.\<close>

definition free_plane :: "'s drm \<Rightarrow> int \<Rightarrow> sp_plane \<Rightarrow> 's dw \<Rightarrow> 's dw option" where
  "free_plane dr fd pl w =
     (let w1 = (case sp_bo pl of None \<Rightarrow> w | Some bo \<Rightarrow> free_sp_bo dr bo w)
      in map_option (\<lambda>w2. case sp_plane pl of None \<Rightarrow> w2 | Some p \<Rightarrow> release dr (R_drm (pl_ptr p)) w2)
           (if in_use pl then map_option snd (put_sp_plane dr fd pl w1) else Some w1))"

definition free_array :: "'s drm \<Rightarrow> nat option \<Rightarrow> ('a \<Rightarrow> 's dw \<Rightarrow> 's dw option) \<Rightarrow> 'a list \<Rightarrow> 's dw \<Rightarrow> 's dw option" where
  "free_array dr arr f xs w = (case arr of
     None \<Rightarrow> Some w
   | Some a \<Rightarrow> map_option (release dr (R_mem a)) (each_opt f xs w))"

definition free_object :: "'s drm \<Rightarrow> ('a \<Rightarrow> nat) \<Rightarrow> 'a option \<Rightarrow> 's dw \<Rightarrow> 's dw option" where
  "free_object dr ptr x w = Some (case x of None \<Rightarrow> w | Some y \<Rightarrow> release dr (R_drm (ptr y)) w)"

definition destroy_sp_dev :: "'s drm \<Rightarrow> sp_dev \<Rightarrow> 's dw \<Rightarrow> 's dw option" where
  "destroy_sp_dev dr d w = do {
     w1 \<leftarrow> free_array dr (connectors_arr d) (free_object dr cn_ptr) (connectors d) w;
     w2 \<leftarrow> free_array dr (encoders_arr d) (free_object dr en_ptr) (encoders d) w1;
     w3 \<leftarrow> free_array dr (crtcs_arr d) (free_crtc dr) (crtcs d) w2;
     w4 \<leftarrow> free_array dr (planes_arr d) (free_plane dr (sd_fd d)) (planes d) w3;
     Some (release dr (R_mem (sd_addr d)) (release dr (R_fd (sd_fd d)) w4)) }"

section \<open>Collecting\<close>

text \<open>An object of libdrm that is accounted for when it is there.\<close>

definition get_object :: "('s \<Rightarrow> 'a option \<times> 's) \<Rightarrow> ('a \<Rightarrow> nat) \<Rightarrow> 's dw \<Rightarrow> 'a option \<times> 's dw" where
  "get_object f ptr w = (case call f w of
     (None, w1) \<Rightarrow> (None, w1)
   | (Some x, w1) \<Rightarrow> (Some x, acquire (R_drm (ptr x)) w1))"

text \<open>The objects for a list of numbers, up to the first that fails; the rest of the array is NULL.\<close>

primrec fetch :: "('i \<Rightarrow> 's dw \<Rightarrow> 'a option \<times> 's dw) \<Rightarrow> 'i list \<Rightarrow> 's dw \<Rightarrow> ('a option list \<times> bool) \<times> 's dw" where
  "fetch f [] w = (([], True), w)"
| "fetch f (i # is) w = (case f i w of
     (None, w1) \<Rightarrow> ((replicate (Suc (length is)) None, False), w1)
   | (Some x, w1) \<Rightarrow> (case fetch f is w1 of ((xs, ok), w2) \<Rightarrow> ((Some x # xs, ok), w2)))"

definition no_plane :: sp_plane where
  "no_plane = \<lparr>sp_plane = None, sp_bo = None, in_use = False, sp_format = 0\<rparr>"

definition new_crtcs :: "crtc option list \<Rightarrow> sp_crtc list" where
  "new_crtcs cs = map (\<lambda>(i, c). \<lparr>sc_crtc = c, pipe = (case c of None \<Rightarrow> 0 | Some _ \<Rightarrow> i), num_planes = 0, scanout = None\<rparr>) (enumerate 0 cs)"

definition count_plane :: "drm_plane \<Rightarrow> sp_crtc list \<Rightarrow> sp_crtc list" where
  "count_plane p cs = map (\<lambda>(j, c). if possible_on p j then c\<lparr>num_planes := num_planes c + 1\<rparr> else c) (enumerate 0 cs)"

primrec fetch_planes ::
  "'s drm \<Rightarrow> int \<Rightarrow> u32 list \<Rightarrow> sp_crtc list \<Rightarrow> 's dw \<Rightarrow> (sp_plane list \<times> sp_crtc list \<times> bool) \<times> 's dw" where
  "fetch_planes dr fd [] cs w = (([], cs, True), w)"
| "fetch_planes dr fd (i # is) cs w = (case get_object (dr_plane dr fd i) pl_ptr w of
     (None, w1) \<Rightarrow> ((replicate (Suc (length is)) no_plane, cs, False), w1)
   | (Some p, w1) \<Rightarrow> (case get_supported_format p of
       None \<Rightarrow> ((no_plane\<lparr>sp_plane := Some p\<rparr> # replicate (length is) no_plane, cs, False), w1)
     | Some format \<Rightarrow> (case get_object (dr_props dr fd i) (\<lambda>a. a) w1 of
         (None, w2) \<Rightarrow> ((no_plane\<lparr>sp_plane := Some p, sp_format := format\<rparr> # replicate (length is) no_plane, count_plane p cs, False), w2)
       | (Some a, w2) \<Rightarrow> (case fetch_planes dr fd is (count_plane p cs) (release dr (R_drm a) w2) of
           ((ps, cs', ok), w3) \<Rightarrow> ((no_plane\<lparr>sp_plane := Some p, sp_format := format\<rparr> # ps, cs', ok), w3)))))"

text \<open>The label \<^verbatim>\<open>err\<close>: the lists of numbers are freed, then the device as far as it got.\<close>

definition give_up :: "'s drm \<Rightarrow> nat list \<Rightarrow> sp_dev \<Rightarrow> 's dw \<Rightarrow> (sp_dev option \<times> 's dw) option" where
  "give_up dr objs d w = map_option (Pair None) (destroy_sp_dev dr d (fold (\<lambda>a. release dr (R_drm a)) objs w))"

definition dev_planes :: "'s drm \<Rightarrow> nat \<Rightarrow> sp_dev \<Rightarrow> 's dw \<Rightarrow> (sp_dev option \<times> 's dw) option" where
  "dev_planes dr r d w = (case get_object (dr_plane_resources dr (sd_fd d)) fst w of
     (None, w1) \<Rightarrow> give_up dr [r] d w1
   | (Some (pr, ids), w1) \<Rightarrow> (case calloc dr w1 of
       (None, w2) \<Rightarrow> if ids = [] then Some (Some d, release dr (R_drm r) (release dr (R_drm pr) w2)) else None
     | (Some a, w2) \<Rightarrow> (case fetch_planes dr (sd_fd d) ids (crtcs d) w2 of ((ps, cs, ok), w3) \<Rightarrow>
         (let d1 = d\<lparr>planes_arr := Some a, planes := ps, crtcs := cs\<rparr> in
          if ok then Some (Some d1, release dr (R_drm r) (release dr (R_drm pr) w3)) else give_up dr [pr, r] d1 w3))))"

text \<open>
  What is done for connectors, encoders and controllers: the array, then its objects; \<open>put\<close> stores
  them in the device and \<open>cont\<close> is the rest of the function.
\<close>

definition dev_array ::
  "'s drm \<Rightarrow> nat \<Rightarrow> (u32 \<Rightarrow> 's \<Rightarrow> 'a option \<times> 's) \<Rightarrow> ('a \<Rightarrow> nat) \<Rightarrow> u32 list \<Rightarrow> (nat \<Rightarrow> 'a option list \<Rightarrow> sp_dev \<Rightarrow> sp_dev) \<Rightarrow>
   (sp_dev \<Rightarrow> 's dw \<Rightarrow> (sp_dev option \<times> 's dw) option) \<Rightarrow> sp_dev \<Rightarrow> 's dw \<Rightarrow> (sp_dev option \<times> 's dw) option" where
  "dev_array dr r f ptr ids put cont d w = (case calloc dr w of
     (None, w1) \<Rightarrow> give_up dr [r] d w1
   | (Some a, w1) \<Rightarrow> (case fetch (\<lambda>i. get_object (f i) ptr) ids w1 of ((xs, ok), w2) \<Rightarrow>
       if ok then cont (put a xs d) w2 else give_up dr [r] (put a xs d) w2))"

definition dev_crtcs :: "'s drm \<Rightarrow> nat \<Rightarrow> u32 list \<Rightarrow> sp_dev \<Rightarrow> 's dw \<Rightarrow> (sp_dev option \<times> 's dw) option" where
  "dev_crtcs dr r ids d = dev_array dr r (dr_crtc dr (sd_fd d)) cr_ptr ids
     (\<lambda>a cs d. d\<lparr>crtcs_arr := Some a, crtcs := new_crtcs cs\<rparr>) (dev_planes dr r) d"

definition dev_encoders :: "'s drm \<Rightarrow> nat \<Rightarrow> u32 list \<Rightarrow> u32 list \<Rightarrow> sp_dev \<Rightarrow> 's dw \<Rightarrow> (sp_dev option \<times> 's dw) option" where
  "dev_encoders dr r ids cids d = dev_array dr r (dr_encoder dr (sd_fd d)) en_ptr ids
     (\<lambda>a es d. d\<lparr>encoders_arr := Some a, encoders := es\<rparr>) (dev_crtcs dr r cids) d"

definition dev_connectors ::
  "'s drm \<Rightarrow> nat \<Rightarrow> u32 list \<Rightarrow> u32 list \<Rightarrow> u32 list \<Rightarrow> sp_dev \<Rightarrow> 's dw \<Rightarrow> (sp_dev option \<times> 's dw) option" where
  "dev_connectors dr r ids eids cids d = dev_array dr r (dr_connector dr (sd_fd d)) cn_ptr ids
     (\<lambda>a cs d. d\<lparr>connectors_arr := Some a, connectors := cs\<rparr>) (dev_encoders dr r eids cids) d"

definition DRM_CLIENT_CAP_UNIVERSAL_PLANES :: nat where "DRM_CLIENT_CAP_UNIVERSAL_PLANES = 2"
definition DRM_CLIENT_CAP_ATOMIC :: nat where "DRM_CLIENT_CAP_ATOMIC = 3"

definition create_sp_dev :: "'s drm \<Rightarrow> 's dw \<Rightarrow> (sp_dev option \<times> 's dw) option" where
  "create_sp_dev dr w = (case call (dr_open dr) w of (fd, w1) \<Rightarrow>
     if fd < 0 then Some (None, w1)
     else (case calloc dr (acquire (R_fd fd) w1) of
       (None, w2) \<Rightarrow> Some (None, w2)
     | (Some a, w2) \<Rightarrow>
         (let d = \<lparr>sd_addr = a, sd_fd = fd, connectors_arr = None, connectors = [], encoders_arr = None, encoders = [],
            crtcs_arr = None, crtcs = [], planes_arr = None, planes = []\<rparr>
          in (case call (dr_cap dr fd DRM_CLIENT_CAP_ATOMIC) w2 of (rc, w3) \<Rightarrow>
            if rc \<noteq> 0 then give_up dr [] d w3
            else (case call (dr_cap dr fd DRM_CLIENT_CAP_UNIVERSAL_PLANES) w3 of (rc, w4) \<Rightarrow>
              if rc \<noteq> 0 then give_up dr [] d w4
              else (case get_object (dr_resources dr fd) fst w4 of
                  (None, w5) \<Rightarrow> give_up dr [] d w5
                | (Some (r, ids, eids, cids), w5) \<Rightarrow> dev_connectors dr r ids eids cids d w5))))))"

section \<open>The first picture\<close>

definition DRM_MODE_TYPE_PREFERRED :: u32 where "DRM_MODE_TYPE_PREFERRED = 8"

definition pick_mode :: "drm_mode list \<Rightarrow> drm_mode" where
  "pick_mode ms = (case find (\<lambda>m. and (mode_type m) DRM_MODE_TYPE_PREFERRED \<noteq> 0) ms of Some m \<Rightarrow> m | None \<Rightarrow> hd ms)"

primrec index_where :: "('a \<Rightarrow> bool) \<Rightarrow> 'a list \<Rightarrow> nat option" where
  "index_where P [] = None"
| "index_where P (x # xs) = (if P x then Some 0 else map_option Suc (index_where P xs))"

text \<open>The loops that compare a number of the elements; an element that is NULL is followed.\<close>

primrec search :: "('a \<Rightarrow> bool) \<Rightarrow> 'a option list \<Rightarrow> nat option option" where
  "search P [] = Some None"
| "search P (x # xs) = (case x of
     None \<Rightarrow> None
   | Some y \<Rightarrow> if P y then Some (Some 0) else map_option (map_option Suc) (search P xs))"

text \<open>
  The encoder of a connector: the attached one, or the first one, which is then attached.  The outer
  \<open>None\<close> is a NULL pointer, the inner one a \<^verbatim>\<open>continue\<close>.
\<close>

definition find_encoder :: "nat \<Rightarrow> connector \<Rightarrow> sp_dev \<Rightarrow> ((nat \<times> sp_dev) option) option" where
  "find_encoder i c d =
     (if cn_encoder_id c = 0 \<and> encoders d = [] then Some None
      else do {
        d1 \<leftarrow> (if cn_encoder_id c \<noteq> 0 then Some d
               else map_option (\<lambda>e. d\<lparr>connectors := (connectors d)[i := Some (c\<lparr>cn_encoder_id := encoder_id e\<rparr>)]\<rparr>) (hd (encoders d)));
        eid \<leftarrow> (if cn_encoder_id c \<noteq> 0 then Some (cn_encoder_id c) else map_option encoder_id (hd (encoders d)));
        map_option (map_option (\<lambda>j. (j, d1))) (search (\<lambda>e. encoder_id e = eid) (encoders d)) })"

text \<open>
  The controller of the encoder with number \<open>j\<close>: the attached one, or the one with the number
  \<^emph>\<open>of the encoder\<close>, although the comment speaks of the first one.
\<close>

definition find_crtc :: "nat \<Rightarrow> sp_dev \<Rightarrow> ((nat \<times> sp_dev) option) option" where
  "find_crtc j d = do {
     e \<leftarrow> encoders d ! j;
     (if en_crtc_id e = 0 \<and> crtcs d = [] then Some None
      else if en_crtc_id e = 0 \<and> j \<ge> length (crtcs d) then None
      else do {
        cid \<leftarrow> (if en_crtc_id e \<noteq> 0 then Some (en_crtc_id e) else map_option crtc_id (sc_crtc (crtcs d ! j)));
        map_option (map_option (\<lambda>k. (k, d\<lparr>encoders := (encoders d)[j := Some (e\<lparr>en_crtc_id := cid\<rparr>)]\<rparr>)))
          (search (\<lambda>c. crtc_id c = cid) (map sc_crtc (crtcs d))) }) }"

definition set_scanout :: "nat \<Rightarrow> sp_bo option \<Rightarrow> sp_dev \<Rightarrow> sp_dev" where
  "set_scanout k bo d = d\<lparr>crtcs := (crtcs d)[k := (crtcs d ! k)\<lparr>scanout := bo\<rparr>]\<rparr>"

definition set_mode :: "nat \<Rightarrow> drm_mode \<Rightarrow> sp_dev \<Rightarrow> sp_dev" where
  "set_mode k m d = d\<lparr>crtcs := (crtcs d)[k := (crtcs d ! k)\<lparr>sc_crtc := map_option (\<lambda>c. c\<lparr>crtc_mode := m\<rparr>) (sc_crtc (crtcs d ! k))\<rparr>]\<rparr>"

text \<open>A blue picture on the controller \<open>k\<close>.\<close>

definition show_first :: "'s drm \<Rightarrow> u32 \<Rightarrow> drm_mode \<Rightarrow> nat \<Rightarrow> sp_dev \<Rightarrow> 's dw \<Rightarrow> (sp_dev \<times> 's dw) option" where
  "show_first dr conn m k d w =
     (case create_sp_bo dr (sd_fd d) (word_of_nat (hdisplay m)) (word_of_nat (vdisplay m)) 24 32 DRM_FORMAT_XRGB8888 0 w of
        (None, w1) \<Rightarrow> Some (set_scanout k None d, w1)
      | (Some bo, w1) \<Rightarrow> (case add_fb_sp_bo dr bo DRM_FORMAT_XRGB8888 w1 of ((rc, bo1), w2) \<Rightarrow>
          (let d1 = set_scanout k (Some bo1) d in
           if rc \<noteq> 0 then Some (d1, w2)
           else do {
             w3 \<leftarrow> fill_bo bo1 0xFF 0 0 0xFF w2;
             cr \<leftarrow> sc_crtc (crtcs d ! k);
             (case call (dr_setcrtc dr (sd_fd d) (crtc_id cr) (bo_fb_id bo1) conn m) w3 of (rc, w4) \<Rightarrow>
               Some (if rc \<noteq> 0 then d1 else set_mode k m d1, w4)) })))"

definition screen_step :: "'s drm \<Rightarrow> nat \<Rightarrow> sp_dev \<times> 's dw \<Rightarrow> (sp_dev \<times> 's dw) option" where
  "screen_step dr i dw = (case dw of (d, w) \<Rightarrow> do {
     c \<leftarrow> connectors d ! i;
     (if \<not> connected c \<or> cn_modes c = [] then Some (d, w)
      else do {
        fe \<leftarrow> find_encoder i c d;
        (case fe of
           None \<Rightarrow> Some (d, w)
         | Some (j, d1) \<Rightarrow> do {
             fc \<leftarrow> find_crtc j d1;
             (case fc of
                None \<Rightarrow> Some (d1, w)
              | Some (k, d2) \<Rightarrow>
                  if scanout (crtcs d2 ! k) \<noteq> None then Some (d2, w)
                  else show_first dr (connector_id c) (pick_mode (cn_modes c)) k d2 w) }) }) })"

definition initialize_screens :: "'s drm \<Rightarrow> sp_dev \<Rightarrow> 's dw \<Rightarrow> (sp_dev \<times> 's dw) option" where
  "initialize_screens dr d w = each_opt (screen_step dr) [0..<length (connectors d)] (d, w)"

section \<open>Planes\<close>

text \<open>
  The index of the first plane that is free and can be shown by the controller; it is marked.  The
  planes of a device that was created are not NULL.
\<close>

definition get_sp_plane :: "sp_dev \<Rightarrow> nat \<Rightarrow> nat option \<times> sp_dev" where
  "get_sp_plane d crtc_pipe =
     (case index_where (\<lambda>p. \<not> in_use p \<and> (\<exists>x\<in>set_option (sp_plane p). possible_on x crtc_pipe)) (planes d) of
        None \<Rightarrow> (None, d)
      | Some i \<Rightarrow> (Some i, d\<lparr>planes := (planes d)[i := (planes d ! i)\<lparr>in_use := True\<rparr>]\<rparr>))"

text \<open>The part of the plane's buffer that is on the screen; the arithmetic is on unsigned numbers.\<close>

definition visible_part :: "u32 \<Rightarrow> int \<Rightarrow> nat \<Rightarrow> u32" where
  "visible_part len pos display = (if word_of_nat display < len + word_of_int pos then word_of_nat display - word_of_int pos else len)"

definition set_sp_plane :: "'s drm \<Rightarrow> sp_dev \<Rightarrow> sp_plane \<Rightarrow> sp_crtc \<Rightarrow> int \<Rightarrow> int \<Rightarrow> 's dw \<Rightarrow> (int \<times> 's dw) option" where
  "set_sp_plane dr d pl c x y w = do {
     bo \<leftarrow> sp_bo pl;
     p \<leftarrow> sp_plane pl;
     cr \<leftarrow> sc_crtc c;
     (let wd = visible_part (bo_width bo) x (hdisplay (crtc_mode cr));
          ht = visible_part (bo_height bo) y (vdisplay (crtc_mode cr))
      in Some (call (dr_setplane dr (sd_fd d) (plane_id p) (crtc_id cr) (bo_fb_id bo)
           [x, y, uint wd, uint ht, 0, 0, uint (push_bit 16 wd), uint (push_bit 16 ht)]) w)) }"

section \<open>Accounting\<close>

text \<open>
  A kind of object that owns resources: freeing one that is accounted for releases exactly these, and
  so does freeing a list of them.
\<close>

locale owner =
  fixes owned :: "'a \<Rightarrow> res multiset"
    and ok :: "'a \<Rightarrow> bool"
    and free :: "'a \<Rightarrow> 's dw \<Rightarrow> 's dw option"
  assumes free_releases: "ok x \<Longrightarrow> dw_live w = owned x + L \<Longrightarrow>
    \<exists>w'. free x w = Some w' \<and> dw_live w' = L \<and> dw_stray w' = dw_stray w"
begin

lemma free_list_releases:
  "list_all ok xs \<Longrightarrow> dw_live w = sum_list (map owned xs) + L \<Longrightarrow>
   \<exists>w'. each_opt free xs w = Some w' \<and> dw_live w' = L \<and> dw_stray w' = dw_stray w"
proof (induction xs arbitrary: w)
  case (Cons x xs)
  then have "dw_live w = owned x + (sum_list (map owned xs) + L)" by (simp add: ac_simps)
  with free_releases Cons.prems(1) obtain w1 where
    w1: "free x w = Some w1" "dw_live w1 = sum_list (map owned xs) + L" "dw_stray w1 = dw_stray w"
    by (metis list.pred_inject(2))
  with Cons.IH [of w1] Cons.prems(1) show ?case by auto
qed simp

lemma free_array_releases:
  assumes "list_all ok xs" and "dw_live w = (case arr of None \<Rightarrow> {#} | Some a \<Rightarrow> {#R_mem a#} + sum_list (map owned xs)) + L"
  shows "\<exists>w'. free_array dr arr free xs w = Some w' \<and> dw_live w' = L \<and> dw_stray w' = dw_stray w"
proof (cases arr)
  case None
  with assms show ?thesis by (simp add: free_array_def)
next
  case (Some a)
  then have "dw_live w = sum_list (map owned xs) + add_mset (R_mem a) L" using assms(2) by simp
  from free_list_releases [OF assms(1) this] obtain w1 where
    "each_opt free xs w = Some w1" "dw_live w1 = add_mset (R_mem a) L" "dw_stray w1 = dw_stray w" by blast
  with Some release_live [of w1 "R_mem a" L dr] show ?thesis by (simp add: free_array_def)
qed

end

definition obj_owned :: "('a \<Rightarrow> nat) \<Rightarrow> 'a option \<Rightarrow> res multiset" where
  "obj_owned ptr x = (case x of None \<Rightarrow> {#} | Some y \<Rightarrow> {#R_drm (ptr y)#})"

definition crtc_owned :: "sp_crtc \<Rightarrow> res multiset" where
  "crtc_owned c = (case scanout c of None \<Rightarrow> {#} | Some bo \<Rightarrow> bo_owned bo) + obj_owned cr_ptr (sc_crtc c)"

definition crtc_ok :: "sp_crtc \<Rightarrow> bool" where
  "crtc_ok c \<longleftrightarrow> (\<forall>bo\<in>set_option (scanout c). bo_ok bo)"

definition plane_owned :: "sp_plane \<Rightarrow> res multiset" where
  "plane_owned p = obj_owned pl_ptr (sp_plane p)"

text \<open>No function of the program gives a plane a buffer of its own.\<close>

definition plane_ok :: "sp_plane \<Rightarrow> bool" where
  "plane_ok p \<longleftrightarrow> sp_bo p = None \<and> (in_use p \<longrightarrow> sp_plane p \<noteq> None)"

interpretation objs: owner "obj_owned ptr" "\<lambda>_. True" "free_object dr ptr"
  by unfold_locales (auto simp: obj_owned_def free_object_def release_live split: option.split)

interpretation cr: owner crtc_owned crtc_ok "free_crtc dr"
proof
  fix x :: sp_crtc and w :: "'a dw" and L assume "crtc_ok x" and l: "dw_live w = crtc_owned x + L"
  let ?w = "case scanout x of None \<Rightarrow> w | Some bo \<Rightarrow> free_sp_bo dr bo w"
  have "dw_live ?w = obj_owned cr_ptr (sc_crtc x) + L \<and> dw_stray ?w = dw_stray w"
    using \<open>crtc_ok x\<close> l free_sp_bo_effect [of _ w "obj_owned cr_ptr (sc_crtc x) + L" dr]
    by (auto simp: crtc_owned_def crtc_ok_def ac_simps split: option.split)
  then show "\<exists>w'. free_crtc dr x w = Some w' \<and> dw_live w' = L \<and> dw_stray w' = dw_stray w"
    by (auto simp: free_crtc_def Let_def obj_owned_def release_live split: option.split)
qed

interpretation pl: owner plane_owned plane_ok "free_plane dr fd"
proof
  fix x :: sp_plane and w :: "'a dw" and L assume x: "plane_ok x" and l: "dw_live w = plane_owned x + L"
  have keep: "dw_live (snd (call f w)) = dw_live w \<and> dw_stray (snd (call f w)) = dw_stray w" for f :: "'a \<Rightarrow> int \<times> 'a" and w :: "'a dw"
    by (metis call_keeps(1,2) prod.collapse)
  show "\<exists>w'. free_plane dr fd x w = Some w' \<and> dw_live w' = L \<and> dw_stray w' = dw_stray w"
    using x l keep
    by (cases "sp_plane x")
       (auto simp: free_plane_def put_sp_plane_def plane_ok_def plane_owned_def obj_owned_def Let_def release_live)
qed

definition arr_owned :: "nat option \<Rightarrow> ('a \<Rightarrow> res multiset) \<Rightarrow> 'a list \<Rightarrow> res multiset" where
  "arr_owned arr owned xs = (case arr of None \<Rightarrow> {#} | Some a \<Rightarrow> {#R_mem a#} + sum_list (map owned xs))"

definition dev_owned :: "sp_dev \<Rightarrow> res multiset" where
  "dev_owned d = {#R_mem (sd_addr d), R_fd (sd_fd d)#} + arr_owned (connectors_arr d) (obj_owned cn_ptr) (connectors d) +
     arr_owned (encoders_arr d) (obj_owned en_ptr) (encoders d) + arr_owned (crtcs_arr d) crtc_owned (crtcs d) +
     arr_owned (planes_arr d) plane_owned (planes d)"

definition dev_ok :: "sp_dev \<Rightarrow> bool" where
  "dev_ok d \<longleftrightarrow> list_all crtc_ok (crtcs d) \<and> list_all plane_ok (planes d)"

lemma destroy_effect:
  assumes "dev_ok d" and "dw_live w = dev_owned d + L"
  shows "\<exists>w'. destroy_sp_dev dr d w = Some w' \<and> dw_live w' = L \<and> dw_stray w' = dw_stray w"
proof -
  note ow = arr_owned_def
  let ?p = "arr_owned (planes_arr d) plane_owned (planes d)" and ?c = "arr_owned (crtcs_arr d) crtc_owned (crtcs d)"
    and ?e = "arr_owned (encoders_arr d) (obj_owned en_ptr) (encoders d)" and ?r = "{#R_mem (sd_addr d), R_fd (sd_fd d)#} + L"
  have "dw_live w = arr_owned (connectors_arr d) (obj_owned cn_ptr) (connectors d) + (?e + (?c + (?p + ?r)))"
    using assms(2) by (simp add: dev_owned_def ac_simps)
  from objs.free_array_releases [OF _ this [unfolded ow [of "connectors_arr d"]], of dr dr] obtain w1 where
    w1: "free_array dr (connectors_arr d) (free_object dr cn_ptr) (connectors d) w = Some w1" "dw_live w1 = ?e + (?c + (?p + ?r))"
    "dw_stray w1 = dw_stray w" by (auto simp: list_all_iff)
  from objs.free_array_releases [OF _ w1(2) [unfolded ow [of "encoders_arr d"]], of dr dr] obtain w2 where
    w2: "free_array dr (encoders_arr d) (free_object dr en_ptr) (encoders d) w1 = Some w2" "dw_live w2 = ?c + (?p + ?r)"
    "dw_stray w2 = dw_stray w" using w1(3) by (auto simp: list_all_iff)
  from cr.free_array_releases [OF _ w2(2) [unfolded ow [of "crtcs_arr d"]], of dr dr] assms(1) obtain w3 where
    w3: "free_array dr (crtcs_arr d) (free_crtc dr) (crtcs d) w2 = Some w3" "dw_live w3 = ?p + ?r" "dw_stray w3 = dw_stray w"
    using w2(3) by (auto simp: dev_ok_def)
  from pl.free_array_releases [OF _ w3(2) [unfolded ow [of "planes_arr d"]], of dr dr "sd_fd d"] assms(1) obtain w4 where
    w4: "free_array dr (planes_arr d) (free_plane dr (sd_fd d)) (planes d) w3 = Some w4" "dw_live w4 = ?r" "dw_stray w4 = dw_stray w"
    using w3(3) by (auto simp: dev_ok_def)
  have "dw_live w4 = add_mset (R_fd (sd_fd d)) (add_mset (R_mem (sd_addr d)) L)" using w4(2) by (simp add: add_mset_commute)
  note r = release_live [OF this, of dr]
  from w1(1) w2(1) w3(1) w4(1,3) r release_live [OF r(1), of dr] show ?thesis
    by (simp add: destroy_sp_dev_def)
qed

lemma release_objs:
  "dw_live w = mset (map R_drm objs) + L \<Longrightarrow>
   dw_live (fold (\<lambda>a. release dr (R_drm a)) objs w) = L \<and> dw_stray (fold (\<lambda>a. release dr (R_drm a)) objs w) = dw_stray w"
  by (induction objs arbitrary: w) (auto simp: release_live)

lemma give_up_effect:
  assumes "dev_ok d" and "dw_live w = mset (map R_drm objs) + (dev_owned d + L)"
  shows "\<exists>w'. give_up dr objs d w = Some (None, w') \<and> dw_live w' = L \<and> dw_stray w' = dw_stray w"
  using release_objs [OF assms(2), of dr] destroy_effect [OF assms(1), of "fold (\<lambda>a. release dr (R_drm a)) objs w" L dr]
  by (auto simp: give_up_def)

lemma get_object_effect:
  assumes "get_object f ptr w = (x, w')"
  shows "dw_live w' = obj_owned ptr x + dw_live w" "dw_stray w' = dw_stray w"
  using assms by (auto simp: get_object_def obj_owned_def split: prod.splits option.splits dest: call_keeps)

lemma sum_replicate_empty [simp]: "sum_list (replicate n {#}) = {#}"
  by (induction n) simp_all

lemma fetch_effect:
  assumes "fetch (\<lambda>i. get_object (f i) ptr) ids w = ((xs, ok), w')"
  shows "dw_live w' = sum_list (map (obj_owned ptr) xs) + dw_live w \<and> dw_stray w' = dw_stray w \<and> length xs = length ids \<and>
    (ok \<longrightarrow> None \<notin> set xs)"
  using assms
proof (induction ids arbitrary: w xs w')
  case (Cons i ids)
  obtain x w1 where 1: "get_object (f i) ptr w = (x, w1)" by (metis prod.exhaust)
  note e = get_object_effect [OF 1]
  show ?case
  proof (cases x)
    case None
    with Cons.prems 1 e show ?thesis by (auto simp: obj_owned_def simp del: replicate.simps)
  next
    case (Some y)
    obtain ys ok' w2 where 2: "fetch (\<lambda>i. get_object (f i) ptr) ids w1 = ((ys, ok'), w2)" by (metis prod.exhaust)
    with Cons.prems 1 Some have "xs = Some y # ys" "ok = ok'" "w' = w2" by auto
    with Cons.IH 2 e Some show ?thesis by (auto simp: ac_simps)
  qed
qed auto

text \<open>The controllers after planes were counted: only the numbers of planes have changed.\<close>

lemma length_count_plane [simp]: "length (count_plane p cs) = length cs"
  by (simp add: count_plane_def)

lemma nth_count_plane:
  "j < length cs \<Longrightarrow> count_plane p cs ! j = (if possible_on p j then (cs ! j)\<lparr>num_planes := num_planes (cs ! j) + 1\<rparr> else cs ! j)"
  by (simp add: count_plane_def nth_enumerate_eq)

definition same_crtcs :: "sp_crtc list \<Rightarrow> sp_crtc list \<Rightarrow> bool" where
  "same_crtcs cs cs' \<longleftrightarrow> length cs' = length cs \<and> (\<forall>j<length cs. cs' ! j = (cs ! j)\<lparr>num_planes := num_planes (cs' ! j)\<rparr>)"

lemma same_crtcs_refl: "same_crtcs cs cs"
  by (simp add: same_crtcs_def)

lemma same_crtcs_trans: "same_crtcs a b \<Longrightarrow> same_crtcs b c \<Longrightarrow> same_crtcs a c"
  by (auto simp: same_crtcs_def) (metis sp_crtc.surjective sp_crtc.update_convs(3) sp_crtc.select_convs)

lemma same_crtcs_count: "same_crtcs cs (count_plane p cs)"
  by (auto simp: same_crtcs_def nth_count_plane)

lemma same_crtcs_sum: "same_crtcs cs cs' \<Longrightarrow> sum_list (map crtc_owned cs') = sum_list (map crtc_owned cs)"
proof -
  assume "same_crtcs cs cs'"
  then have "map crtc_owned cs' = map crtc_owned cs"
    by (intro nth_equalityI) (auto simp: same_crtcs_def crtc_owned_def, (metis sp_crtc.select_convs(1,4) sp_crtc.surjective sp_crtc.update_convs(3))+)
  then show ?thesis by simp
qed

definition can_show :: "nat \<Rightarrow> sp_plane \<Rightarrow> bool" where
  "can_show j p \<longleftrightarrow> (\<exists>x\<in>set_option (sp_plane p). possible_on x j)"

lemma no_plane_simps [simp]:
  "plane_owned no_plane = {#}" "plane_ok no_plane" "\<not> in_use no_plane" "sp_plane no_plane = None"
  "plane_owned (no_plane\<lparr>sp_plane := Some p, sp_format := f\<rparr>) = {#R_drm (pl_ptr p)#}"
  "plane_owned (no_plane\<lparr>sp_plane := Some p\<rparr>) = {#R_drm (pl_ptr p)#}"
  "plane_ok (no_plane\<lparr>sp_plane := Some p, sp_format := f\<rparr>)" "plane_ok (no_plane\<lparr>sp_plane := Some p\<rparr>)"
  "\<not> in_use (no_plane\<lparr>sp_plane := Some p, sp_format := f\<rparr>)" "\<not> in_use (no_plane\<lparr>sp_plane := Some p\<rparr>)"
  by (simp_all add: no_plane_def plane_owned_def obj_owned_def plane_ok_def)

definition planes_fetched :: "sp_crtc list \<Rightarrow> sp_plane list \<Rightarrow> sp_crtc list \<Rightarrow> bool \<Rightarrow> bool" where
  "planes_fetched cs ps cs' ok \<longleftrightarrow> (\<forall>p\<in>set ps. plane_ok p \<and> \<not> in_use p) \<and> same_crtcs cs cs' \<and>
     (ok \<longrightarrow> (\<forall>p\<in>set ps. sp_plane p \<noteq> None) \<and>
       (\<forall>j<length cs. num_planes (cs' ! j) = num_planes (cs ! j) + length (filter (can_show j) ps)))"

lemma fetch_planes_effect:
  assumes "fetch_planes dr fd ids cs w = ((ps, cs', ok), w')"
  shows "dw_live w' = sum_list (map plane_owned ps) + dw_live w \<and> dw_stray w' = dw_stray w \<and> planes_fetched cs ps cs' ok"
  using assms
proof (induction ids arbitrary: cs w ps cs' ok w')
  case Nil
  then show ?case by (simp add: planes_fetched_def same_crtcs_refl)
next
  case (Cons i ids)
  obtain x w1 where 1: "get_object (dr_plane dr fd i) pl_ptr w = (x, w1)" by (metis prod.exhaust)
  note e1 = get_object_effect [OF 1]
  show ?case
  proof (cases x)
    case None
    with Cons.prems 1 e1 show ?thesis
      by (auto simp: obj_owned_def planes_fetched_def same_crtcs_refl simp del: replicate.simps)
  next
    case (Some p)
    obtain a w2 where 2: "get_object (dr_props dr fd i) (\<lambda>a. a) w1 = (a, w2)" by (metis prod.exhaust)
    note e2 = get_object_effect [OF 2]
    consider "get_supported_format p = None" | f where "get_supported_format p = Some f" "a = None"
      | f b where "get_supported_format p = Some f" "a = Some b" by (cases "get_supported_format p"; cases a) auto
    then show ?thesis
    proof cases
      case 1
      with Cons.prems \<open>get_object _ _ w = _\<close> Some e1 show ?thesis
        by (auto simp: obj_owned_def planes_fetched_def same_crtcs_refl)
    next
      case 2
      with Cons.prems 1 \<open>get_object _ _ w1 = _\<close> Some e1 e2 show ?thesis
        by (auto simp: obj_owned_def planes_fetched_def same_crtcs_count)
    next
      case 3
      obtain qs cs2 ok2 w3 where 4: "fetch_planes dr fd ids (count_plane p cs) (release dr (R_drm b) w2) = ((qs, cs2, ok2), w3)"
        by (metis prod.exhaust)
      have "dw_live w2 = add_mset (R_drm b) (add_mset (R_drm (pl_ptr p)) (dw_live w))"
        using e1 e2 Some 3 by (simp add: obj_owned_def)
      note e3 = release_live [OF this, of dr]
      have r: "ps = no_plane\<lparr>sp_plane := Some p, sp_format := f\<rparr> # qs" "cs' = cs2" "ok = ok2" "w' = w3"
        using Cons.prems 1 2 3 4 Some by auto
      have q: "planes_fetched (count_plane p cs) qs cs2 ok2" "dw_live w3 = sum_list (map plane_owned qs) + add_mset (R_drm (pl_ptr p)) (dw_live w)"
        "dw_stray w3 = dw_stray w"
        using Cons.IH [OF 4] e1 e2 e3 by auto
      have "num_planes (cs2 ! j) = num_planes (cs ! j) + length (filter (can_show j) ps)" if "ok2" "j < length cs" for j
        using q(1) that r(1) by (auto simp: planes_fetched_def nth_count_plane can_show_def no_plane_def)
      then have "planes_fetched cs ps cs' ok"
        using q(1) same_crtcs_trans [OF same_crtcs_count] r by (auto simp: planes_fetched_def no_plane_def plane_ok_def)
      with q(2,3) r show ?thesis by simp
    qed
  qed
qed

text \<open>A device as \<^verbatim>\<open>create_sp_dev\<close> returns it, and what stays true of it.\<close>

definition dev_wf :: "sp_dev \<Rightarrow> bool" where
  "dev_wf d \<longleftrightarrow> None \<notin> set (connectors d) \<and> None \<notin> set (encoders d) \<and> (\<forall>c\<in>set (crtcs d). sc_crtc c \<noteq> None \<and> crtc_ok c) \<and>
     (\<forall>p\<in>set (planes d). sp_plane p \<noteq> None \<and> plane_ok p) \<and> connectors_arr d \<noteq> None \<and> encoders_arr d \<noteq> None \<and> crtcs_arr d \<noteq> None \<and>
     (planes_arr d = None \<longrightarrow> planes d = [])"

definition planes_counted :: "sp_dev \<Rightarrow> bool" where
  "planes_counted d \<longleftrightarrow> (\<forall>j<length (crtcs d). pipe (crtcs d ! j) = j \<and> num_planes (crtcs d ! j) = length (filter (can_show j) (planes d)))"

lemma dev_wf_ok: "dev_wf d \<Longrightarrow> dev_ok d"
  by (auto simp: dev_wf_def dev_ok_def list_all_iff)

lemma new_crtcs_nth [simp]:
  "length (new_crtcs cs) = length cs"
  "j < length cs \<Longrightarrow> new_crtcs cs ! j = \<lparr>sc_crtc = cs ! j, pipe = (case cs ! j of None \<Rightarrow> 0 | Some _ \<Rightarrow> j), num_planes = 0, scanout = None\<rparr>"
  by (simp_all add: new_crtcs_def nth_enumerate_eq)

lemma new_crtcs_owned: "map crtc_owned (new_crtcs cs) = map (obj_owned cr_ptr) cs"
  by (rule nth_equalityI) (simp_all add: crtc_owned_def)

lemma new_crtcs_ok: "list_all crtc_ok (new_crtcs cs)"
  by (auto simp: list_all_length crtc_ok_def)

text \<open>The result of the parts of \<^verbatim>\<open>create_sp_dev\<close>: a device, or nothing and nothing left.\<close>

definition dev_result :: "res multiset \<Rightarrow> res list \<Rightarrow> (sp_dev option \<times> 's dw) option \<Rightarrow> bool" where
  "dev_result L st res \<longleftrightarrow> (case res of
     None \<Rightarrow> True
   | Some (None, w') \<Rightarrow> dw_live w' = L \<and> dw_stray w' = st
   | Some (Some d, w') \<Rightarrow> dw_live w' = dev_owned d + L \<and> dw_stray w' = st \<and> dev_wf d \<and> planes_counted d \<and>
       (\<forall>p\<in>set (planes d). \<not> in_use p) \<and> (\<forall>c\<in>set (crtcs d). scanout c = None))"

lemma give_up_result:
  assumes "dev_ok d" and "dw_live w = mset (map R_drm objs) + (dev_owned d + L)" and "dw_stray w = st"
  shows "dev_result L st (give_up dr objs d w)"
  using give_up_effect [OF assms(1,2), of dr] assms(3) by (auto simp: dev_result_def)

lemma dev_planes_result:
  assumes "dw_live w = add_mset (R_drm r) (dev_owned d + L)" "dw_stray w = st" and "planes_arr d = None" "planes d = []"
    and "crtcs_arr d \<noteq> None" "connectors_arr d \<noteq> None" "encoders_arr d \<noteq> None"
    and "None \<notin> set (connectors d)" "None \<notin> set (encoders d)" and cs: "crtcs d = new_crtcs xs" "None \<notin> set xs"
  shows "dev_result L st (dev_planes dr r d w)"
proof -
  have dok: "dev_ok d" using cs(1) new_crtcs_ok assms(4) by (simp add: dev_ok_def)
  obtain q w1 where 1: "get_object (dr_plane_resources dr (sd_fd d)) fst w = (q, w1)" by (metis prod.exhaust)
  note e1 = get_object_effect [OF 1]
  have some: "xs ! j \<noteq> None" if "j < length xs" for j using cs(2) that nth_mem by metis
  have wf0: "\<forall>c\<in>set (new_crtcs xs). sc_crtc c \<noteq> None \<and> crtc_ok c \<and> scanout c = None" "\<forall>j<length xs. pipe (new_crtcs xs ! j) = j"
    using some by (auto simp: in_set_conv_nth crtc_ok_def split: option.split) fastforce
  show ?thesis
  proof (cases q)
    case None
    with 1 e1 assms(1,2) give_up_result [OF dok, of w1 "[r]" L st dr] show ?thesis
      by (simp add: dev_planes_def obj_owned_def)
  next
    case (Some pq)
    then obtain pr ids where q: "q = Some (pr, ids)" by (cases pq) auto
    obtain a w2 where 2: "calloc dr w1 = (a, w2)" by (metis prod.exhaust)
    note e2 = calloc_effect [OF 2]
    have l2: "dw_live w2 = (case a of None \<Rightarrow> {#} | Some x \<Rightarrow> {#R_mem x#}) + (add_mset (R_drm pr) (add_mset (R_drm r) (dev_owned d + L)))"
      "dw_stray w2 = st" using e1 e2 q assms(1,2) by (simp_all add: obj_owned_def)
    have rel: "dw_live (release dr (R_drm r) (release dr (R_drm pr) v)) = M \<and> dw_stray (release dr (R_drm r) (release dr (R_drm pr) v)) = dw_stray v"
      if "dw_live v = add_mset (R_drm pr) (add_mset (R_drm r) M)" for v M
      using release_live [OF that, of dr] release_live [of "release dr (R_drm pr) v" "R_drm r" M dr] by simp
    show ?thesis
    proof (cases a)
      case None
      have "planes_counted d" if "ids = []" using wf0(2) assms(4) cs(1) by (auto simp: planes_counted_def)
      with None 1 2 q l2 rel [of w2 "dev_owned d + L"] assms(3-9) wf0(1) cs(1) show ?thesis
        by (auto simp: dev_planes_def dev_result_def dev_wf_def)
    next
      case (Some x)
      obtain ps cs' ok w3 where 3: "fetch_planes dr (sd_fd d) ids (crtcs d) w2 = ((ps, cs', ok), w3)" by (metis prod.exhaust)
      note e3 = fetch_planes_effect [OF 3]
      let ?d = "d\<lparr>planes_arr := Some x, planes := ps, crtcs := cs'\<rparr>"
      have pf: "planes_fetched (new_crtcs xs) ps cs' ok" using e3 cs(1) by simp
      then have sc: "same_crtcs (new_crtcs xs) cs'" by (simp add: planes_fetched_def)
      have c': "sc_crtc c \<noteq> None \<and> crtc_ok c \<and> scanout c = None" if "c \<in> set cs'" for c
      proof -
        from that obtain j where j: "j < length cs'" "c = cs' ! j" by (auto simp: in_set_conv_nth)
        with sc have "c = (new_crtcs xs ! j)\<lparr>num_planes := num_planes c\<rparr>" "j < length (new_crtcs xs)" by (auto simp: same_crtcs_def)
        with wf0(1) show ?thesis by (metis crtc_ok_def nth_mem sp_crtc.select_convs(1,4) sp_crtc.surjective sp_crtc.update_convs(3))
      qed
      have ow: "dev_owned ?d = {#R_mem x#} + sum_list (map plane_owned ps) + dev_owned d"
        using same_crtcs_sum [OF sc] assms(3,5) cs(1) by (auto simp: dev_owned_def arr_owned_def ac_simps split: option.split)
      have l3: "dw_live w3 = add_mset (R_drm pr) (add_mset (R_drm r) (dev_owned ?d + L))" "dw_stray w3 = st"
        using e3 l2 Some ow by (simp_all add: ac_simps)
      show ?thesis
      proof (cases ok)
        case False
        have "dev_ok ?d" using pf c' by (auto simp: dev_ok_def list_all_iff planes_fetched_def)
        from give_up_result [OF this, of w3 "[pr, r]" L st dr] l3 False 1 2 3 q Some show ?thesis
          by (simp add: dev_planes_def)
      next
        case True
        have "planes_counted ?d"
          using pf True sc wf0(2) some by (auto simp: planes_counted_def planes_fetched_def same_crtcs_def)
        moreover have "dev_wf ?d" using pf True c' assms(5-9) by (auto simp: dev_wf_def planes_fetched_def)
        ultimately show ?thesis
          using True rel [OF l3(1)] l3(2) 1 2 3 q Some pf c' by (auto simp: dev_planes_def dev_result_def planes_fetched_def)
      qed
    qed
  qed
qed

lemma dev_array_result:
  assumes "dw_live w = add_mset (R_drm r) (dev_owned d + L)" "dw_stray w = st" "dev_ok d"
    and ow: "\<And>a xs. dev_owned (put a xs d) = {#R_mem a#} + sum_list (map (obj_owned ptr) xs) + dev_owned d" "\<And>a xs. dev_ok (put a xs d)"
    and cont: "\<And>a xs w. None \<notin> set xs \<Longrightarrow> dw_live w = add_mset (R_drm r) (dev_owned (put a xs d) + L) \<Longrightarrow> dw_stray w = st \<Longrightarrow>
      dev_result L st (cont (put a xs d) w)"
  shows "dev_result L st (dev_array dr r f ptr ids put cont d w)"
proof -
  obtain a w1 where 1: "calloc dr w = (a, w1)" by (metis prod.exhaust)
  note e1 = calloc_effect [OF 1]
  show ?thesis
  proof (cases a)
    case None
    with 1 e1 assms(1,2) give_up_result [OF assms(3), of w1 "[r]" L st dr] show ?thesis by (simp add: dev_array_def)
  next
    case (Some x)
    obtain xs ok w2 where 2: "fetch (\<lambda>i. get_object (f i) ptr) ids w1 = ((xs, ok), w2)" by (metis prod.exhaust)
    note e2 = fetch_effect [OF 2]
    have l: "dw_live w2 = add_mset (R_drm r) (dev_owned (put x xs d) + L)" "dw_stray w2 = st"
      using e1 e2 Some assms(1,2) ow(1) by (simp_all add: ac_simps)
    with 1 2 e2 Some cont [OF _ l] give_up_result [OF ow(2), of w2 "[r]" x xs L st dr] show ?thesis
      by (simp add: dev_array_def)
  qed
qed

lemma dev_connectors_result:
  assumes "dw_live w = add_mset (R_drm r) (dev_owned d + L)" "dw_stray w = st" and "planes_arr d = None" "planes d = []"
    and "crtcs_arr d = None" "crtcs d = []" "connectors_arr d = None" "encoders_arr d = None"
  shows "dev_result L st (dev_connectors dr r ids eids cids d w)"
  unfolding dev_connectors_def
proof (rule dev_array_result [OF assms(1,2)])
  fix a cs and w :: "'a dw"
  let ?d = "d\<lparr>connectors_arr := Some a, connectors := cs\<rparr>"
  assume cs: "None \<notin> set cs" and 1: "dw_live w = add_mset (R_drm r) (dev_owned ?d + L)" "dw_stray w = st"
  show "dev_result L st (dev_encoders dr r eids cids ?d w)"
    unfolding dev_encoders_def
  proof (rule dev_array_result [OF 1])
    fix b es and w :: "'a dw"
    let ?e = "?d\<lparr>encoders_arr := Some b, encoders := es\<rparr>"
    assume es: "None \<notin> set es" and 2: "dw_live w = add_mset (R_drm r) (dev_owned ?e + L)" "dw_stray w = st"
    show "dev_result L st (dev_crtcs dr r cids ?e w)"
      unfolding dev_crtcs_def
    proof (rule dev_array_result [OF 2])
      fix c xs and w :: "'a dw"
      let ?f = "?e\<lparr>crtcs_arr := Some c, crtcs := new_crtcs xs\<rparr>"
      assume "None \<notin> set xs" and "dw_live w = add_mset (R_drm r) (dev_owned ?f + L)" "dw_stray w = st"
      then show "dev_result L st (dev_planes dr r ?f w)"
        by (intro dev_planes_result [of w r ?f L st xs dr]) (use assms cs es in simp_all)
    qed (use assms new_crtcs_ok in \<open>simp_all add: dev_owned_def arr_owned_def dev_ok_def new_crtcs_owned ac_simps\<close>)
  qed (use assms in \<open>simp_all add: dev_owned_def arr_owned_def dev_ok_def ac_simps\<close>)
qed (use assms in \<open>simp_all add: dev_owned_def arr_owned_def dev_ok_def ac_simps\<close>)

text \<open>The descriptor is lost exactly when the memory for the device is refused.\<close>

lemma create_sp_dev_result:
  "dev_result (dw_live w) (dw_stray w) (create_sp_dev dr w) \<or>
   (\<exists>fd w1 w2. call (dr_open dr) w = (fd, w1) \<and> 0 \<le> fd \<and> calloc dr (acquire (R_fd fd) w1) = (None, w2) \<and>
      create_sp_dev dr w = Some (None, w2) \<and> dw_live w2 = add_mset (R_fd fd) (dw_live w) \<and> dw_stray w2 = dw_stray w)"
proof -
  obtain fd w1 where 1: "call (dr_open dr) w = (fd, w1)" by (metis prod.exhaust)
  note e1 = call_keeps [OF 1]
  obtain a w2 where 2: "calloc dr (acquire (R_fd fd) w1) = (a, w2)" by (metis prod.exhaust)
  note e2 = calloc_effect [OF 2]
  show ?thesis
  proof (cases "fd < 0 \<or> a = None")
    case True
    with 1 2 e1 e2 show ?thesis by (cases "fd < 0") (auto simp: create_sp_dev_def dev_result_def)
  next
    case False
    then obtain x where x: "a = Some x" by auto
    let ?d = "\<lparr>sd_addr = x, sd_fd = fd, connectors_arr = None, connectors = [], encoders_arr = None, encoders = [],
        crtcs_arr = None, crtcs = [], planes_arr = None, planes = []\<rparr>"
    obtain rc w3 where 3: "call (dr_cap dr fd DRM_CLIENT_CAP_ATOMIC) w2 = (rc, w3)" by (metis prod.exhaust)
    obtain rc' w4 where 4: "call (dr_cap dr fd DRM_CLIENT_CAP_UNIVERSAL_PLANES) w3 = (rc', w4)" by (metis prod.exhaust)
    obtain q w5 where 5: "get_object (dr_resources dr fd) fst w4 = (q, w5)" by (metis prod.exhaust)
    note e = call_keeps [OF 3] call_keeps [OF 4] get_object_effect [OF 5]
    have dev: "dw_live w2 = dev_owned ?d + dw_live w" "dw_stray w2 = dw_stray w" "dev_ok ?d"
      using e1 e2 x by (simp_all add: dev_owned_def arr_owned_def dev_ok_def)
    have g: "dev_result (dw_live w) (dw_stray w) (give_up dr [] ?d v)" if "dw_live v = dw_live w2" "dw_stray v = dw_stray w2" for v
      by (rule give_up_result [OF dev(3)]) (use that dev in simp_all)
    have "dev_result (dw_live w) (dw_stray w) (create_sp_dev dr w)"
    proof (cases q)
      case None
      with 1 2 3 4 5 False x e g show ?thesis by (auto simp: create_sp_dev_def Let_def obj_owned_def)
    next
      case (Some z)
      obtain r ids eids cids where z: "z = (r, ids, eids, cids)" by (metis prod.exhaust)
      have "dev_result (dw_live w) (dw_stray w) (dev_connectors dr r ids eids cids ?d w5)"
        by (rule dev_connectors_result) (use e dev Some z in \<open>simp_all add: obj_owned_def\<close>)
      with 1 2 3 4 5 False x e g Some z show ?thesis by (auto simp: create_sp_dev_def Let_def)
    qed
    then show ?thesis ..
  qed
qed

section \<open>Showing a first picture keeps the account\<close>

lemma search_Some:
  assumes "None \<notin> set xs"
  shows "\<exists>r. search P xs = Some r \<and> (\<forall>k. r = Some k \<longrightarrow> k < length xs)"
  using assms
proof (induction xs)
  case (Cons x xs)
  then obtain r where "search P xs = Some r" "\<forall>k. r = Some k \<longrightarrow> k < length xs" by auto
  moreover obtain y where "x = Some y" using Cons.prems by (cases x) auto
  ultimately show ?case by auto
qed simp

text \<open>An encoder that has no controller of its own is among the first ones, as many as there are controllers.\<close>

definition encoders_covered :: "sp_dev \<Rightarrow> bool" where
  "encoders_covered d \<longleftrightarrow> (\<forall>j<length (encoders d). \<forall>e. encoders d ! j = Some e \<longrightarrow> en_crtc_id e = 0 \<longrightarrow> crtcs d = [] \<or> j < length (crtcs d))"

text \<open>
  What holds between the connectors: everything that is held belongs to the device or was there before, and
  nothing else was released but failed mappings.
\<close>

definition screens_inv :: "nat \<times> nat \<Rightarrow> sp_plane list \<Rightarrow> res multiset \<Rightarrow> res list \<Rightarrow> sp_dev \<times> 's dw \<Rightarrow> bool" where
  "screens_inv n ps L st = (\<lambda>(d, w). dw_live w = dev_owned d + L \<and> dev_wf d \<and> planes_counted d \<and> planes d = ps \<and>
     R_map MAP_FAILED \<notin># dw_live w \<and> (\<exists>m. dw_stray w = st @ replicate m (R_map MAP_FAILED)) \<and>
     (length (connectors d), length (crtcs d)) = n \<and> encoders_covered d)"

lemma arr_owned_cong: "map f xs = map f ys \<Longrightarrow> arr_owned a f xs = arr_owned a f ys"
  by (simp add: arr_owned_def split: option.split)

lemma dev_wf_nth:
  assumes "dev_wf d"
  shows "i < length (connectors d) \<Longrightarrow> \<exists>c. connectors d ! i = Some c"
    and "j < length (encoders d) \<Longrightarrow> \<exists>e. encoders d ! j = Some e"
    and "k < length (crtcs d) \<Longrightarrow> \<exists>c. sc_crtc (crtcs d ! k) = Some c"
    and "k < length (crtcs d) \<Longrightarrow> crtc_ok (crtcs d ! k)"
proof -
  have "None \<notin> set (connectors d)" "None \<notin> set (encoders d)" "\<forall>c\<in>set (crtcs d). sc_crtc c \<noteq> None \<and> crtc_ok c"
    using assms by (simp_all add: dev_wf_def)
  then show "i < length (connectors d) \<Longrightarrow> \<exists>c. connectors d ! i = Some c"
    and "j < length (encoders d) \<Longrightarrow> \<exists>e. encoders d ! j = Some e"
    and "k < length (crtcs d) \<Longrightarrow> \<exists>c. sc_crtc (crtcs d ! k) = Some c"
    and "k < length (crtcs d) \<Longrightarrow> crtc_ok (crtcs d ! k)"
    by (metis not_None_eq nth_mem)+
qed

lemma screens_inv_cong:
  assumes "screens_inv n ps L st (d, w)" and "dev_owned d' = dev_owned d" "dev_wf d'" "planes_counted d'" "planes d' = planes d"
    and "length (connectors d') = length (connectors d)" "length (crtcs d') = length (crtcs d)" "encoders_covered d'"
  shows "screens_inv n ps L st (d', w)"
  using assms by (auto simp: screens_inv_def)

lemma sum_list_update_same: "i < length xs \<Longrightarrow> f y = f (xs ! i) \<Longrightarrow> map f (xs[i := y]) = map f xs"
  by (metis list_update_id map_update)

lemma find_encoder_keeps:
  assumes inv: "screens_inv n ps L st (d, w)" and i: "i < length (connectors d)" "connectors d ! i = Some c"
  shows "\<exists>r. find_encoder i c d = Some r \<and> (\<forall>j d1. r = Some (j, d1) \<longrightarrow> j < length (encoders d1) \<and> screens_inv n ps L st (d1, w))"
proof -
  have wf: "dev_wf d" using inv by (simp add: screens_inv_def)
  then have ne: "None \<notin> set (encoders d)" by (simp add: dev_wf_def)
  have up: "screens_inv n ps L st (d\<lparr>connectors := (connectors d)[i := Some (c\<lparr>cn_encoder_id := x\<rparr>)]\<rparr>, w)" (is "screens_inv n ps L st (?d, w)") for x
  proof (rule screens_inv_cong [OF inv])
    have "map (obj_owned cn_ptr) ((connectors d)[i := Some (c\<lparr>cn_encoder_id := x\<rparr>)]) = map (obj_owned cn_ptr) (connectors d)"
      using i by (intro sum_list_update_same) (simp_all add: obj_owned_def)
    from arr_owned_cong [OF this] show "dev_owned ?d = dev_owned d" by (simp add: dev_owned_def)
    show "dev_wf ?d" using wf set_update_subset_insert [of "connectors d" i "Some (c\<lparr>cn_encoder_id := x\<rparr>)"] by (auto simp: dev_wf_def)
  qed (use inv in \<open>simp_all add: screens_inv_def planes_counted_def encoders_covered_def\<close>)
  show ?thesis
  proof (cases "cn_encoder_id c = 0 \<and> encoders d = []")
    case True
    then show ?thesis by (simp add: find_encoder_def)
  next
    case False
    then obtain e es where e: "cn_encoder_id c = 0 \<Longrightarrow> encoders d = Some e # es"
      using ne by (cases "encoders d"; cases "hd (encoders d)") auto
    obtain x where x: "x = (if cn_encoder_id c \<noteq> 0 then cn_encoder_id c else encoder_id e)" by blast
    from search_Some [OF ne, of "\<lambda>e. encoder_id e = x"] obtain r where
      "search (\<lambda>e. encoder_id e = x) (encoders d) = Some r" "\<forall>k. r = Some k \<longrightarrow> k < length (encoders d)" by blast
    with False e x up inv show ?thesis by (auto simp: find_encoder_def)
  qed
qed

lemma find_crtc_keeps:
  assumes inv: "screens_inv n ps L st (d, w)" and j: "j < length (encoders d)"
  shows "\<exists>r. find_crtc j d = Some r \<and> (\<forall>k d1. r = Some (k, d1) \<longrightarrow> k < length (crtcs d1) \<and> screens_inv n ps L st (d1, w))"
proof -
  have wf: "dev_wf d" and cov: "encoders_covered d" using inv by (simp_all add: screens_inv_def)
  then have nc: "None \<notin> set (map sc_crtc (crtcs d))" by (auto simp: dev_wf_def)
  obtain e where e: "encoders d ! j = Some e" using dev_wf_nth(2) [OF wf j] by blast
  have up: "screens_inv n ps L st (d\<lparr>encoders := (encoders d)[j := Some (e\<lparr>en_crtc_id := x\<rparr>)]\<rparr>, w)" (is "screens_inv n ps L st (?d, w)")
    if "x = 0 \<Longrightarrow> j < length (crtcs d)" for x
  proof (rule screens_inv_cong [OF inv])
    have "map (obj_owned en_ptr) ((encoders d)[j := Some (e\<lparr>en_crtc_id := x\<rparr>)]) = map (obj_owned en_ptr) (encoders d)"
      using j e by (intro sum_list_update_same) (simp_all add: obj_owned_def)
    from arr_owned_cong [OF this] show "dev_owned ?d = dev_owned d" by (simp add: dev_owned_def)
    show "dev_wf ?d" using wf set_update_subset_insert [of "encoders d" j "Some (e\<lparr>en_crtc_id := x\<rparr>)"] by (auto simp: dev_wf_def)
    show "encoders_covered ?d" using cov that j by (auto simp: encoders_covered_def nth_list_update split: if_splits)
  qed (use inv in \<open>simp_all add: screens_inv_def planes_counted_def\<close>)
  consider (none) "en_crtc_id e = 0" "crtcs d = []" | (own) "en_crtc_id e \<noteq> 0" | (nth) "en_crtc_id e = 0" "j < length (crtcs d)"
    using cov j e by (auto simp: encoders_covered_def)
  then show ?thesis
  proof cases
    case none
    with e show ?thesis by (simp add: find_crtc_def)
  next
    case own
    from search_Some [OF nc, of "\<lambda>c. crtc_id c = en_crtc_id e"] own e up [of "en_crtc_id e"] show ?thesis
      by (auto simp: find_crtc_def)
  next
    case nth
    obtain c where c: "sc_crtc (crtcs d ! j) = Some c" using dev_wf_nth(3) [OF wf nth(2)] by blast
    from search_Some [OF nc, of "\<lambda>x. crtc_id x = crtc_id c"] nth e c up [of "crtc_id c"] show ?thesis
      by (auto simp: find_crtc_def)
  qed
qed

text \<open>A controller that is exchanged for one with the same place and count.\<close>

lemma crtcs_update:
  assumes wf: "dev_wf d" "planes_counted d" and k: "k < length (crtcs d)"
    and c: "pipe c = pipe (crtcs d ! k)" "num_planes c = num_planes (crtcs d ! k)" "sc_crtc c \<noteq> None" "crtc_ok c"
    and own: "crtc_owned c = X + crtc_owned (crtcs d ! k)"
  shows "dev_wf (d\<lparr>crtcs := (crtcs d)[k := c]\<rparr>)" "planes_counted (d\<lparr>crtcs := (crtcs d)[k := c]\<rparr>)"
    "dev_owned (d\<lparr>crtcs := (crtcs d)[k := c]\<rparr>) = X + dev_owned d"
proof -
  show "dev_wf (d\<lparr>crtcs := (crtcs d)[k := c]\<rparr>)"
    using wf(1) c set_update_subset_insert [of "crtcs d" k c] by (auto simp: dev_wf_def)
  show "planes_counted (d\<lparr>crtcs := (crtcs d)[k := c]\<rparr>)"
    using wf(2) c(1,2) k by (auto simp: planes_counted_def nth_list_update)
  have "crtcs d = take k (crtcs d) @ (crtcs d ! k) # drop (Suc k) (crtcs d)" using k by (simp add: id_take_nth_drop)
  then have "sum_list (map crtc_owned (crtcs d)) = sum_list (map crtc_owned (take k (crtcs d))) +
      (crtc_owned (crtcs d ! k) + sum_list (map crtc_owned (drop (Suc k) (crtcs d))))"
    by (metis list.simps(9) map_append sum_list.Cons sum_list.append)
  then have "sum_list (map crtc_owned ((crtcs d)[k := c])) = X + sum_list (map crtc_owned (crtcs d))"
    using k own by (simp add: upd_conv_take_nth_drop ac_simps)
  moreover obtain a where "crtcs_arr d = Some a" using wf(1) by (auto simp: dev_wf_def)
  ultimately show "dev_owned (d\<lparr>crtcs := (crtcs d)[k := c]\<rparr>) = X + dev_owned d"
    by (simp add: dev_owned_def arr_owned_def ac_simps)
qed

lemma bo_owned_mapped: "bo_ok bo \<Longrightarrow> R_map MAP_FAILED \<notin># bo_owned bo"
  by (auto simp: bo_ok_def bo_owned_def)

lemma show_first_keeps:
  assumes laws: "drm_laws dr" and inv: "screens_inv n ps L st (d, w)" and k: "k < length (crtcs d)" and free: "scanout (crtcs d ! k) = None"
  shows "\<exists>r. show_first dr conn m k d w = Some r \<and> screens_inv n ps L st r"
proof -
  let ?wd = "word_of_nat (hdisplay m) :: u32" and ?ht = "word_of_nat (vdisplay m) :: u32"
  note [simp] = set_scanout_def set_mode_def
  have wf: "dev_wf d" "planes_counted d" and l: "dw_live w = dev_owned d + L" "R_map MAP_FAILED \<notin># dw_live w"
    and rest: "planes d = ps" "\<exists>q. dw_stray w = st @ replicate q (R_map MAP_FAILED)" "(length (connectors d), length (crtcs d)) = n" "encoders_covered d"
    using inv by (auto simp: screens_inv_def)
  obtain c where c: "sc_crtc (crtcs d ! k) = Some c" using dev_wf_nth(3) [OF wf(1) k] by blast
  obtain bo w1 where 1: "create_sp_bo dr (sd_fd d) ?wd ?ht 24 32 DRM_FORMAT_XRGB8888 0 w = (bo, w1)" by (metis prod.exhaust)
  note e1 = create_sp_bo_effect [OF laws 1 l(2)]
  have cov: "encoders_covered (d\<lparr>crtcs := (crtcs d)[k := x]\<rparr>)" for x
    using rest(4) by (auto simp: encoders_covered_def)
  show ?thesis
  proof (cases bo)
    case None
    have "(crtcs d ! k)\<lparr>scanout := None\<rparr> = crtcs d ! k" using free by (metis sp_crtc.surjective sp_crtc.update_convs(4) sp_crtc.select_convs(4))
    then have "set_scanout k None d = d" by simp
    moreover have "\<exists>q'. dw_stray w1 = st @ replicate q' (R_map MAP_FAILED)"
      using e1 None rest(2) by (auto simp: replicate_append_same) (metis replicate_Suc replicate_append_same)
    ultimately show ?thesis using e1 None 1 inv by (auto simp: show_first_def screens_inv_def)
  next
    case (Some b)
    with e1 have b: "bo_ok b" "bo_fb_id b = 0" "bo_width b = ?wd" "bo_height b = ?ht" "dw_live w1 = bo_owned b + dw_live w" "dw_stray w1 = dw_stray w"
      "dw_pix w1 (bo_map_addr b) = replicate (unat (bo_size b)) 0" "(unat ?wd * 32 + 7) div 8 \<le> unat (bo_pitch b)"
      "unat (bo_pitch b) * unat ?ht \<le> unat (bo_size b)" by simp_all
    obtain rc b1 w2 where 2: "add_fb dr b DRM_FORMAT_XRGB8888 [(bo_handle b, bo_pitch b, 0)] w1 = ((rc, b1), w2)" by (metis prod.exhaust)
    note e2 = add_fb_effect [OF laws 2 b(2)]
    have same: "bo_width b1 = ?wd" "bo_height b1 = ?ht" "bo_pitch b1 = bo_pitch b" "bo_map_addr b1 = bo_map_addr b"
      using e2(4) b(3,4) by (metis sp_bo.select_convs sp_bo.surjective sp_bo.update_convs(9))+
    have fin: "screens_inv n ps L st (d\<lparr>crtcs := (crtcs d)[k := (crtcs d ! k)\<lparr>scanout := Some b1, sc_crtc := Some c'\<rparr>]\<rparr>, v)"
      if "cr_ptr c' = cr_ptr c" "dw_live v = dw_live w2" "dw_stray v = dw_stray w2" for c' v
    proof -
      let ?c = "(crtcs d ! k)\<lparr>scanout := Some b1, sc_crtc := Some c'\<rparr>"
      have "crtc_owned ?c = bo_owned b1 + crtc_owned (crtcs d ! k)" using that(1) free c by (simp add: crtc_owned_def obj_owned_def)
      note u = crtcs_update [OF wf k _ _ _ _ this]
      moreover have "crtc_ok ?c" using b(1) e2(3) by (simp add: crtc_ok_def)
      moreover have "dw_live v = bo_owned b1 + (dev_owned d + L)" using that(2) e2(5) [OF b(5)] l(1) by simp
      moreover have "R_map MAP_FAILED \<notin># dw_live v" using calculation(4,5) bo_owned_mapped [of b1] l e2(3) b(1) by auto
      ultimately show ?thesis using that(3) e2(1) b(6) rest cov by (auto simp: screens_inv_def ac_simps)
    qed
    have c0: "(crtcs d ! k)\<lparr>scanout := Some b1\<rparr> = (crtcs d ! k)\<lparr>scanout := Some b1, sc_crtc := Some c\<rparr>" using c by simp
    show ?thesis
    proof (cases "rc = 0")
      case False
      with 1 2 Some fin [of c w2] c0 show ?thesis by (auto simp: show_first_def add_fb_sp_bo_def)
    next
      case True
      have "\<exists>w3. fill_bo b1 0xFF 0 0 0xFF w2 = Some w3 \<and> dw_live w3 = dw_live w2 \<and> dw_stray w3 = dw_stray w2 \<and> dw_env w3 = dw_env w2"
        by (rule fill_bo_effect) (use same b e2(2) unsigned_less [of "bo_size b", where ?'a = nat] in auto)
      then obtain w3 where 3: "fill_bo b1 0xFF 0 0 0xFF w2 = Some w3" "dw_live w3 = dw_live w2" "dw_stray w3 = dw_stray w2" by blast
      obtain rc' w4 where 4: "call (dr_setcrtc dr (sd_fd d) (crtc_id c) (bo_fb_id b1) conn m) w3 = (rc', w4)" by (metis prod.exhaust)
      note e4 = call_keeps [OF 4]
      from 1 2 3 4 e4 Some True c k fin [of c w4] fin [of "c\<lparr>crtc_mode := m\<rparr>" w4] c0 show ?thesis
        by (auto simp: show_first_def add_fb_sp_bo_def Let_def)
    qed
  qed
qed

lemma screen_step_keeps:
  assumes "drm_laws dr" and inv: "screens_inv n ps L st (d, w)" and i: "i < fst n"
  shows "\<exists>r. screen_step dr i (d, w) = Some r \<and> screens_inv n ps L st r"
proof -
  have "i < length (connectors d)" "dev_wf d" using inv i by (auto simp: screens_inv_def)
  then obtain c where c: "connectors d ! i = Some c" using dev_wf_nth(1) by blast
  from find_encoder_keeps [OF inv \<open>i < length (connectors d)\<close> c] obtain r where
    r: "find_encoder i c d = Some r" "\<forall>j d1. r = Some (j, d1) \<longrightarrow> j < length (encoders d1) \<and> screens_inv n ps L st (d1, w)" by blast
  show ?thesis
  proof (cases r)
    case None
    with r c inv show ?thesis by (simp add: screen_step_def)
  next
    case (Some p)
    obtain j d1 where p: "p = (j, d1)" by (cases p)
    with r Some have 1: "j < length (encoders d1)" "screens_inv n ps L st (d1, w)" by auto
    from find_crtc_keeps [OF 1(2,1)] obtain q where
      q: "find_crtc j d1 = Some q" "\<forall>k d2. q = Some (k, d2) \<longrightarrow> k < length (crtcs d2) \<and> screens_inv n ps L st (d2, w)" by blast
    show ?thesis
    proof (cases q)
      case None
      with r c Some p q inv 1 show ?thesis by (simp add: screen_step_def)
    next
      case (Some u)
      obtain k d2 where u: "u = (k, d2)" by (cases u)
      with q Some have 2: "k < length (crtcs d2)" "screens_inv n ps L st (d2, w)" by auto
      show ?thesis
      proof (cases "scanout (crtcs d2 ! k) = None")
        case True
        from show_first_keeps [OF assms(1) 2(2,1) True, of "connector_id c" "pick_mode (cn_modes c)"] r c \<open>r = Some p\<close> p q Some u True inv
        show ?thesis by (auto simp: screen_step_def)
      next
        case False
        with r c \<open>r = Some p\<close> p q Some u inv 2 show ?thesis by (auto simp: screen_step_def)
      qed
    qed
  qed
qed

text \<open>Started on a device as it is created, the loop ends and everything is accounted for.\<close>

lemma initialize_screens_keeps:
  assumes "drm_laws dr" and inv: "screens_inv n ps L st (d, w)"
  shows "\<exists>d' w'. initialize_screens dr d w = Some (d', w') \<and> screens_inv n ps L st (d', w')"
proof -
  have "length (connectors d) = fst n" using inv by (auto simp: screens_inv_def)
  moreover have "\<exists>s'. each_opt (screen_step dr) [0..<fst n] (d, w) = Some s' \<and> screens_inv n ps L st s'"
    by (rule for_range [where P = "\<lambda>_. screens_inv n ps L st"]) (use inv screen_step_keeps [OF assms(1), of n ps L st] in auto)
  ultimately show ?thesis by (auto simp: initialize_screens_def)
qed

end
