(* ===== verification/DrmScale.thy ===== *)
theory DrmScale
  imports Buffers
begin

unbundle bit_operations_syntax

text \<open>
  The picture scaler of \<^verbatim>\<open>drmDsp.c\<close>, \<^verbatim>\<open>arm_camera_yuv420_scale_arm\<close>: a crop to the shape of the
  target and a bilinear interpolation with 16 fractional bits, for a plane of brightness followed by a plane
  of interleaved colour pairs at half the size.  \<open>None\<close> is a division by zero or an access outside
  of a buffer.  The local switches \<^verbatim>\<open>mirror\<close> and \<^verbatim>\<open>nv21DstFmt\<close> of the code are constants 0, so
  their branches are not taken.  Sizes are unbounded numbers here; products of sizes up to 32768 fit the code's
  types.
\<close>

section \<open>The scaler\<close>

text \<open>The size of the cropped part, and its left and upper edges.\<close>

definition crop :: "int \<Rightarrow> int \<Rightarrow> int \<Rightarrow> int \<Rightarrow> (int \<times> int \<times> int \<times> int) option" where
  "crop src_w src_h dst_w dst_h =
     (if src_h = 0 \<or> dst_h = 0 then None
      else if c_div (src_w * 100) src_h \<noteq> c_div (dst_w * 100) dst_h then
        (if dst_w = 0 then None
         else (let ratio = (if c_div (src_w * 100) dst_w \<ge> c_div (src_h * 100) dst_h then c_div (src_h * 100) dst_h
                            else c_div (src_w * 100) dst_w);
                   cropW = c_div (ratio * dst_w) 100;
                   cropH = c_div (ratio * dst_h) 100
               in Some (cropW, cropH, drop_bit 1 (src_w - cropW) AND NOT 1, drop_bit 1 (src_h - cropH) AND NOT 1)))
      else Some (src_w, src_h, 0, 0))"

text \<open>The step in the source per pixel of the target; the quotient is computed on \<^verbatim>\<open>unsigned long\<close>.\<close>

definition zoom :: "int \<Rightarrow> int \<Rightarrow> int" where
  "zoom cropped dst = signed_take_bit 63 (take_bit 64 (push_bit 16 (take_bit 64 cropped)) div take_bit 64 dst + 1)"

definition start_at :: "int \<Rightarrow> int \<Rightarrow> int \<Rightarrow> int" where
  "start_at z n i = (let s = drop_bit 16 (i * z) in if s \<ge> n - 1 then n - 2 else s)"

definition coeff :: "int \<Rightarrow> int \<Rightarrow> int" where
  "coeff z i = (i * z) AND 0xffff"

definition mix :: "int \<Rightarrow> int \<Rightarrow> int \<Rightarrow> int" where
  "mix a b k = drop_bit 16 (a * (0xffff - k) + b * k)"

text \<open>One value of the target, from four of the source; \<open>pos\<close> is the place of a line and a column in the buffer.\<close>

definition sample :: "u8 list \<Rightarrow> (int \<Rightarrow> int \<Rightarrow> int) \<Rightarrow> int \<Rightarrow> int \<Rightarrow> int \<Rightarrow> int \<Rightarrow> int \<Rightarrow> int \<Rightarrow> u8 option" where
  "sample src pos zx zy srcW srcH x y =
     (let sY = start_at zy srcH y; sX = start_at zx srcW x in do {
        a \<leftarrow> get_byte src (pos sY sX);
        b \<leftarrow> get_byte src (pos sY (sX + 1));
        c \<leftarrow> get_byte src (pos (sY + 1) sX);
        d \<leftarrow> get_byte src (pos (sY + 1) (sX + 1));
        Some (word_of_int (mix (mix (uint a) (uint b) (coeff zx x)) (mix (uint c) (uint d) (coeff zx x)) (coeff zy y))) })"

definition scale_luma :: "u8 list \<Rightarrow> int \<Rightarrow> int \<Rightarrow> int \<Rightarrow> int \<Rightarrow> int \<Rightarrow> nat \<Rightarrow> nat \<Rightarrow> u8 list \<Rightarrow> u8 list option" where
  "scale_luma src psY zx zy srcW srcH dstW dstH =
     each_opt (\<lambda>y. each_opt (\<lambda>x mem. do {
       r \<leftarrow> sample src (\<lambda>sY sX. psY + (sY * srcW + sX)) zx zy srcW srcH (int x) (int y);
       put_byte (y * dstW + x) r mem }) [0..<dstW]) [0..<dstH]"

definition scale_chroma :: "u8 list \<Rightarrow> int \<Rightarrow> int \<Rightarrow> int \<Rightarrow> int \<Rightarrow> int \<Rightarrow> nat \<Rightarrow> nat \<Rightarrow> nat \<Rightarrow> u8 list \<Rightarrow> u8 list option" where
  "scale_chroma src psUV zx zy srcW srcH pdUV dstW dstH =
     each_opt (\<lambda>y. each_opt (\<lambda>x mem. do {
       u \<leftarrow> sample src (\<lambda>sY sX. psUV + (sY * srcW + sX) * 2) zx zy srcW srcH (int x) (int y);
       mem1 \<leftarrow> put_byte (pdUV + y * (dstW * 2) + x * 2) u mem;
       v \<leftarrow> sample src (\<lambda>sY sX. psUV + (sY * srcW + sX) * 2 + 1) zx zy srcW srcH (int x) (int y);
       put_byte (pdUV + y * (dstW * 2) + (x * 2 + 1)) v mem1 }) [0..<dstW]) [0..<dstH]"

definition arm_camera_yuv420_scale_arm :: "u8 list \<Rightarrow> int \<Rightarrow> int \<Rightarrow> int \<Rightarrow> int \<Rightarrow> u8 list \<Rightarrow> u8 list option" where
  "arm_camera_yuv420_scale_arm srcbuf src_w src_h dst_w dst_h dstbuf = do {
     (cropW, cropH, left_offset, top_offset) \<leftarrow> crop src_w src_h dst_w dst_h;
     (if dst_w = 0 then None
      else (let zx = zoom cropW dst_w; zy = zoom cropH dst_h in do {
        dst \<leftarrow> scale_luma srcbuf (top_offset * src_w + left_offset) zx zy src_w src_h (nat dst_w) (nat dst_h) dstbuf;
        scale_chroma srcbuf (src_w * src_h + c_div (top_offset * src_w) 2 + left_offset) zx zy (c_div src_w 2) (c_div src_h 2)
          (nat (dst_w * dst_h)) (nat (c_div dst_w 2)) (nat (c_div dst_h 2)) dst })) }"

section \<open>Loops over a rectangle\<close>

text \<open>The first \<open>n\<close> cells of \<open>k\<close> bytes from \<open>base\<close> on are written, and nothing else.\<close>

definition cells_written :: "(nat \<Rightarrow> u8 list) \<Rightarrow> nat \<Rightarrow> nat \<Rightarrow> nat \<Rightarrow> u8 list \<Rightarrow> u8 list \<Rightarrow> bool" where
  "cells_written cell k base n old new \<longleftrightarrow> length new = length old \<and>
     (\<forall>p<length old. new ! p = (if base \<le> p \<and> p < base + n * k then cell ((p - base) div k) ! ((p - base) mod k) else old ! p))"

lemma cells_written_0: "cells_written cell k base 0 old old"
  by (auto simp: cells_written_def)

lemma cells_written_Suc:
  assumes w: "cells_written cell k base n old m" and k: "length (cell n) = k" "0 < k" and room: "base + Suc n * k \<le> length old"
  shows "\<exists>m'. put_bytes (base + n * k) (cell n) m = Some m' \<and> cells_written cell k base (Suc n) old m'"
proof -
  have len: "length m = length old" using w by (simp add: cells_written_def)
  obtain m' where m': "put_bytes (base + n * k) (cell n) m = Some m'" "length m' = length m"
    "\<forall>p<length m. m' ! p = (if base + n * k \<le> p \<and> p < base + n * k + length (cell n) then cell n ! (p - (base + n * k)) else m ! p)"
    using put_bytes_nth [of "base + n * k" "cell n" m] k room len by auto
  have "m' ! p = (if base \<le> p \<and> p < base + Suc n * k then cell ((p - base) div k) ! ((p - base) mod k) else old ! p)" if p: "p < length old" for p
  proof (cases "base + n * k \<le> p \<and> p < base + n * k + k")
    case True
    then obtain q where q: "p = base + (n * k + q)" "q < k"
      by (metis add.assoc le_add_diff_inverse nat_add_left_cancel_less)
    then have "(p - base) div k = n" "(p - base) mod k = q" "p - (base + n * k) = q" by simp_all
    with True m'(3) p len k q show ?thesis by simp
  next
    case False
    then have "m' ! p = m ! p" using m'(3) p len k by auto
    also have "\<dots> = (if base \<le> p \<and> p < base + n * k then cell ((p - base) div k) ! ((p - base) mod k) else old ! p)"
      using w p by (simp add: cells_written_def)
    finally show ?thesis using False by auto
  qed
  with m'(1,2) len show ?thesis by (auto simp: cells_written_def)
qed

lemma raster:
  assumes step: "\<And>y x m. y < H \<Longrightarrow> x < W \<Longrightarrow> g y x m = put_bytes (base + (y * W + x) * k) (cell (y * W + x)) m"
    and k: "\<And>n. n < H * W \<Longrightarrow> length (cell n) = k" "0 < k" and room: "base + H * W * k \<le> length mem"
  shows "\<exists>mem'. each_opt (\<lambda>y. each_opt (g y) [0..<W]) [0..<H] mem = Some mem' \<and> cells_written cell k base (H * W) mem mem'"
proof (rule for_range [where P = "\<lambda>y. cells_written cell k base (y * W) mem"])
  fix y m assume y: "0 \<le> y" "y < H" and m: "cells_written cell k base (y * W) mem m"
  have "\<exists>m'. each_opt (g y) [0..<W] m = Some m' \<and> cells_written cell k base (y * W + W) mem m'"
  proof (rule for_range [where P = "\<lambda>x. cells_written cell k base (y * W + x) mem"])
    fix x m assume x: "x < W" and m: "cells_written cell k base (y * W + x) mem m"
    have "Suc (y * W + x) \<le> Suc y * W" using x by simp
    also have "\<dots> \<le> H * W" using y(2) by (intro mult_le_mono1) simp
    finally have i: "Suc (y * W + x) \<le> H * W" .
    then have "Suc (y * W + x) * k \<le> H * W * k" by (rule mult_le_mono1)
    with cells_written_Suc [OF m k(1) k(2)] i room step [OF y(2) x] show
      "\<exists>m'. g y x m = Some m' \<and> cells_written cell k base (y * W + Suc x) mem m'" by simp
  qed (use m in simp_all)
  then show "\<exists>m'. each_opt (g y) [0..<W] m = Some m' \<and> cells_written cell k base (Suc y * W) mem m'" by (simp add: add.commute)
qed (simp_all add: cells_written_0)

section \<open>Places in the source\<close>

lemma c_div_pos: "0 \<le> a \<Longrightarrow> 0 < b \<Longrightarrow> c_div a b = a div b"
  by (cases "a = 0") (auto simp: c_div_def Let_def)

lemma even_part: "(a :: int) AND - 2 = 2 * (a div 2)"
  using unset_bit_0 [of a] by (simp add: unset_bit_eq_and_not)

lemma zoom_eq:
  assumes "0 \<le> c" "c \<le> 32768" "0 < d" "d \<le> 32768"
  shows "zoom c d = c * 65536 div d + 1"
proof -
  have "c * 65536 div d \<le> c * 65536" using assms by (metis div_by_1 zdiv_mono2 zero_less_one int_one_le_iff_zero_less mult_nonneg_nonneg zero_le_numeral)
  moreover have "0 \<le> c * 65536 div d" using assms by (simp add: pos_imp_zdiv_nonneg_iff)
  ultimately have "signed_take_bit 63 (c * 65536 div d + 1) = c * 65536 div d + 1"
    using assms by (intro signed_take_bit_int_eq_self) simp_all
  moreover have "take_bit 64 c = c" "take_bit 64 d = d" "take_bit 64 (c * 65536) = c * 65536"
    using assms by (simp_all add: take_bit_int_eq_self)
  ultimately show ?thesis by (simp add: zoom_def push_bit_eq_mult)
qed

text \<open>What the crop promises for one direction: an even offset, with the same room behind the cropped part.\<close>

definition cropped :: "int \<Rightarrow> int \<Rightarrow> int \<Rightarrow> bool" where
  "cropped s c off \<longleftrightarrow> 0 \<le> c \<and> c \<le> s \<and> 0 \<le> off \<and> even off \<and> 2 * off \<le> s - c"

lemma crop_cropped:
  assumes pos: "0 < src_w" "0 < src_h" "0 < dst_w" "0 < dst_h"
  obtains cw ch l t where "crop src_w src_h dst_w dst_h = Some (cw, ch, l, t)" "cropped src_w cw l" "cropped src_h ch t"
    "3 * dst_w \<le> 100 * src_w \<and> 3 * dst_h \<le> 100 * src_h \<longrightarrow> 3 * dst_w div 100 \<le> cw \<and> 3 * dst_h div 100 \<le> ch"
proof (cases "c_div (src_w * 100) src_h \<noteq> c_div (dst_w * 100) dst_h")
  case False
  moreover have "3 * dst_w div 100 \<le> src_w" if "3 * dst_w \<le> 100 * src_w" using that by linarith
  moreover have "3 * dst_h div 100 \<le> src_h" if "3 * dst_h \<le> 100 * src_h" using that by linarith
  ultimately show ?thesis using pos that [of src_w src_h 0 0] by (simp add: crop_def cropped_def)
next
  case True
  define ratio where "ratio = (if src_w * 100 div dst_w \<ge> src_h * 100 div dst_h then src_h * 100 div dst_h else src_w * 100 div dst_w)"
  have r: "0 \<le> ratio" "ratio \<le> src_w * 100 div dst_w" "ratio \<le> src_h * 100 div dst_h"
    using pos by (auto simp: ratio_def pos_imp_zdiv_nonneg_iff)
  have part: "cropped s (ratio * d div 100) (2 * ((s - ratio * d div 100) div 2 div 2))" if "0 < s" "0 < d" "ratio \<le> s * 100 div d" for s d
  proof -
    have "ratio * d \<le> s * 100 div d * d" using that by (simp add: mult_right_mono)
    also have "\<dots> \<le> s * 100" using that by (metis div_mult_mod_eq le_add_same_cancel1 pos_mod_sign)
    finally have "ratio * d div 100 \<le> s" by simp
    moreover have "0 \<le> ratio * d div 100" using r that by (simp add: pos_imp_zdiv_nonneg_iff)
    ultimately show ?thesis by (simp add: cropped_def)
  qed
  have ratio: "(if c_div (src_w * 100) dst_w \<ge> c_div (src_h * 100) dst_h then c_div (src_h * 100) dst_h else c_div (src_w * 100) dst_w) = ratio"
    using pos by (simp add: ratio_def c_div_pos)
  have "crop src_w src_h dst_w dst_h = Some (ratio * dst_w div 100, ratio * dst_h div 100,
      2 * ((src_w - ratio * dst_w div 100) div 2 div 2), 2 * ((src_h - ratio * dst_h div 100) div 2 div 2))"
    using True pos r(1) unfolding crop_def ratio by (simp add: Let_def c_div_pos even_part drop_bit_eq_div)
  moreover have "3 * dst_w div 100 \<le> ratio * dst_w div 100 \<and> 3 * dst_h div 100 \<le> ratio * dst_h div 100"
    if "3 * dst_w \<le> 100 * src_w" "3 * dst_h \<le> 100 * src_h"
  proof -
    have "3 * dst_w div dst_w \<le> src_w * 100 div dst_w" "3 * dst_h div dst_h \<le> src_h * 100 div dst_h"
      by (rule zdiv_mono1; use that pos in simp)+
    then have "3 \<le> ratio" using pos by (simp add: ratio_def)
    with pos show ?thesis by (simp add: zdiv_mono1)
  qed
  ultimately show ?thesis using that part pos r by blast
qed

lemma shifted_le:
  fixes c d z i :: int
  assumes z: "z = c * 65536 div d + 1" and d: "0 < d" "d * d \<le> c * 65536" and i: "0 \<le> i"
  shows "i < d \<Longrightarrow> drop_bit 16 (i * z) \<le> c - 1" and "2 * i + 2 \<le> d \<Longrightarrow> 2 * drop_bit 16 (i * z) \<le> c - 1" and "0 \<le> drop_bit 16 (i * z)"
proof -
  have "d \<le> c * 65536 div d" using d zdiv_mono1 [OF d(2) d(1)] by simp
  then have zd: "d \<le> z - 1" using z by simp
  have "d * (c * 65536 div d) \<le> c * 65536" using d(1) by (metis mult.commute div_mult_mod_eq le_add_same_cancel1 pos_mod_sign)
  then have dz: "d * (z - 1) \<le> c * 65536" using z by simp
  show "0 \<le> drop_bit 16 (i * z)" using i zd d by (simp add: drop_bit_eq_div pos_imp_zdiv_nonneg_iff)
  show "drop_bit 16 (i * z) \<le> c - 1" if "i < d"
  proof -
    have "i * z \<le> (d - 1) * z" using that zd d by (intro mult_right_mono) auto
    also have "\<dots> < c * 65536" using dz zd by (simp add: algebra_simps)
    finally show ?thesis by (simp add: drop_bit_eq_div)
  qed
  show "2 * drop_bit 16 (i * z) \<le> c - 1" if "2 * i + 2 \<le> d"
  proof -
    have "2 * i * z \<le> (d - 2) * z" using that zd d by (intro mult_right_mono) auto
    also have "\<dots> < c * 65536" using dz zd d by (simp add: algebra_simps)
    finally have "2 * (i * z) < c * 65536" by (simp add: mult.assoc)
    moreover have "i * z div 65536 * 65536 \<le> i * z" by (metis div_mult_mod_eq le_add_same_cancel1 pos_mod_sign zero_less_numeral)
    ultimately show ?thesis by (simp add: drop_bit_eq_div)
  qed
qed

lemma luma_place:
  assumes "cropped s c off" "z = c * 65536 div d + 1" "0 < d" "d * d \<le> c * 65536" "0 \<le> i" "i < d" "2 \<le> s"
  shows "0 \<le> start_at z s i" "off + start_at z s i + 1 < s"
  using shifted_le [OF assms(2-5)] assms(1,6,7) by (auto simp: start_at_def Let_def cropped_def)

lemma chroma_place:
  assumes "cropped s c off" "z = c * 65536 div d + 1" "0 < d" "d * d \<le> c * 65536" "0 \<le> i" "2 * i + 2 \<le> d" "4 \<le> s" "even s"
  shows "0 \<le> start_at z (s div 2) i" "off div 2 + start_at z (s div 2) i + 1 < s div 2"
proof -
  note b = shifted_le(2,3) [OF assms(2-5)]
  obtain s' off' where h: "s = 2 * s'" "off = 2 * off'" using assms(1,8) by (auto simp: cropped_def elim!: evenE)
  show "0 \<le> start_at z (s div 2) i" using b(2) assms(7) h by (auto simp: start_at_def Let_def)
  show "off div 2 + start_at z (s div 2) i + 1 < s div 2"
    using b(1) assms(1,6,7) h by (auto simp: start_at_def Let_def cropped_def)
qed

section \<open>Values\<close>

lemma coeff_range: "0 \<le> coeff z i" "coeff z i \<le> 0xffff"
proof -
  have "(0xffff :: int) = mask 16" by (simp add: mask_eq_exp_minus_1)
  then have "coeff z i = take_bit 16 (i * z)" by (simp add: coeff_def take_bit_eq_mask)
  then show "0 \<le> coeff z i" "coeff z i \<le> 0xffff" using take_bit_int_less_exp [of 16 "i * z"] by simp_all
qed

text \<open>A mixture of two values, with weights that add up to a little less than 1.\<close>

lemma mix_range:
  assumes "0 \<le> k" "k \<le> 0xffff" and "lo \<le> a" "lo \<le> b" "a \<le> hi" "b \<le> hi" "0 \<le> hi" "lo \<le> 65536"
  shows "lo - 1 \<le> mix a b k" "mix a b k \<le> hi"
proof -
  let ?s = "a * (0xffff - k) + b * k"
  have lo: "lo * 0xffff \<le> ?s"
  proof -
    have "lo * 0xffff = lo * (0xffff - k) + lo * k" by (simp add: algebra_simps)
    also have "\<dots> \<le> ?s" using assms by (intro add_mono mult_right_mono) auto
    finally show ?thesis .
  qed
  have hi: "?s \<le> hi * 0xffff"
  proof -
    have "?s \<le> hi * (0xffff - k) + hi * k" using assms by (intro add_mono mult_right_mono) auto
    also have "\<dots> = hi * 0xffff" by (simp add: algebra_simps)
    finally show ?thesis .
  qed
  have "(lo - 1) * 65536 \<le> ?s" using lo assms(8) by (simp add: algebra_simps)
  from zdiv_mono1 [OF this, of 65536] show "lo - 1 \<le> mix a b k" by (simp add: mix_def drop_bit_eq_div)
  have "?s div 65536 \<le> hi * 65536 div 65536" using hi assms(7) by (intro zdiv_mono1) simp_all
  then show "mix a b k \<le> hi" by (simp add: mix_def drop_bit_eq_div)
qed

lemma mix_nonneg: "0 \<le> a \<Longrightarrow> 0 \<le> b \<Longrightarrow> 0 \<le> k \<Longrightarrow> k \<le> 0xffff \<Longrightarrow> 0 \<le> mix a b k"
  by (simp add: mix_def drop_bit_eq_div pos_imp_zdiv_nonneg_iff)

text \<open>The value is one of the range of the four, or up to two less.\<close>

definition blend_of :: "u8 list \<Rightarrow> nat list \<Rightarrow> u8 \<Rightarrow> bool" where
  "blend_of src ps v \<longleftrightarrow> (\<forall>p\<in>set ps. p < length src) \<and>
     Min (set (map (\<lambda>p. unat (src ! p)) ps)) \<le> unat v + 2 \<and> unat v \<le> Max (set (map (\<lambda>p. unat (src ! p)) ps))"

lemma blend:
  fixes a b c d v :: u8
  assumes k: "0 \<le> kx" "kx \<le> 0xffff" "0 \<le> ky" "ky \<le> 0xffff" and v: "v = word_of_int (mix (mix (uint a) (uint b) kx) (mix (uint c) (uint d) kx) ky)"
  shows "Min {unat a, unat b, unat c, unat d} \<le> unat v + 2" "unat v \<le> Max {unat a, unat b, unat c, unat d}"
proof -
  define S where "S = {unat a, unat b, unat c, unat d}"
  have S: "finite S" "S \<noteq> {}" "\<forall>n\<in>S. n < 256"
    using unsigned_less [of a, where ?'a = nat] unsigned_less [of b, where ?'a = nat]
      unsigned_less [of c, where ?'a = nat] unsigned_less [of d, where ?'a = nat] by (simp_all add: S_def)
  let ?lo = "int (Min S)" and ?hi = "int (Max S)"
  have x: "?lo \<le> uint x" "uint x \<le> ?hi" if "x \<in> {a, b, c, d}" for x
  proof -
    have "unat x \<in> S" using that by (auto simp: S_def)
    from Min_le [OF S(1) this] Max_ge [OF S(1) this] show "?lo \<le> uint x" "uint x \<le> ?hi" unfolding uint_nat by linarith+
  qed
  have hi: "0 \<le> ?hi" "?hi \<le> 255" "?lo \<le> 65536"
    using S(3) Max_in [OF S(1,2)] Min_in [OF S(1,2)] by fastforce+
  have m: "?lo - 1 \<le> mix (uint x) (uint y) kx" "mix (uint x) (uint y) kx \<le> ?hi" "0 \<le> mix (uint x) (uint y) kx"
    if "x \<in> {a, b, c, d}" "y \<in> {a, b, c, d}" for x y
    using mix_range [OF k(1,2) x(1) x(1) x(2) x(2) hi(1) hi(3)] mix_nonneg [OF _ _ k(1,2)] that by auto
  let ?v = "mix (mix (uint a) (uint b) kx) (mix (uint c) (uint d) kx) ky"
  have r: "?lo - 1 - 1 \<le> ?v" "?v \<le> ?hi"
    using mix_range [OF k(3,4) m(1) [of a b] m(1) [of c d] m(2) [of a b] m(2) [of c d] hi(1)] hi(3) by simp_all
  have n: "0 \<le> ?v" by (rule mix_nonneg) (use m k in simp_all)
  then have "uint v = ?v" using r(2) hi(2) v by (simp add: unsigned_of_int take_bit_int_eq_self)
  then have u: "int (unat v) = ?v" by (simp only: uint_nat)
  then show "Min {unat a, unat b, unat c, unat d} \<le> unat v + 2" using r(1) unfolding S_def by linarith
  show "unat v \<le> Max {unat a, unat b, unat c, unat d}" using u r(2) unfolding S_def by linarith
qed

lemma sample_blend:
  assumes "\<forall>i\<in>{0, 1}. \<forall>j\<in>{0, 1}. pos (start_at zy srcH y + i) (start_at zx srcW x + j) = int (q (nat i) (nat j)) \<and> q (nat i) (nat j) < length src"
  shows "\<exists>v. sample src pos zx zy srcW srcH x y = Some v \<and> blend_of src [q 0 0, q 0 1, q 1 0, q 1 1] v"
proof -
  let ?b = "\<lambda>i j. src ! q i j"
  define v :: u8 where "v = word_of_int (mix (mix (uint (?b 0 0)) (uint (?b 0 1)) (coeff zx x)) (mix (uint (?b 1 0)) (uint (?b 1 1)) (coeff zx x)) (coeff zy y))"
  have g: "get_byte src (pos (start_at zy srcH y + i) (start_at zx srcW x + j)) = Some (?b (nat i) (nat j))" "q (nat i) (nat j) < length src"
    if "i \<in> {0, 1}" "j \<in> {0, 1}" for i j using assms that by (auto simp: get_byte_def)
  have "sample src pos zx zy srcW srcH x y = Some v"
    using g(1) [of 0 0] g(1) [of 0 1] g(1) [of 1 0] g(1) [of 1 1] by (simp add: sample_def v_def)
  moreover have "\<forall>p\<in>set [q 0 0, q 0 1, q 1 0, q 1 1]. p < length src"
    using g(2) [of 0 0] g(2) [of 0 1] g(2) [of 1 0] g(2) [of 1 1] by simp
  ultimately show ?thesis
    using blend [OF coeff_range coeff_range v_def] by (simp add: blend_of_def)
qed

section \<open>The whole picture\<close>

lemma scale_luma_cells:
  assumes "\<And>x y. x < W \<Longrightarrow> y < H \<Longrightarrow> sample src (\<lambda>sY sX. psY + (sY * srcW + sX)) zx zy srcW srcH (int x) (int y) = Some (f y x)"
    and "H * W \<le> length mem"
  shows "\<exists>mem'. scale_luma src psY zx zy srcW srcH W H mem = Some mem' \<and> cells_written (\<lambda>n. [f (n div W) (n mod W)]) 1 0 (H * W) mem mem'"
  unfolding scale_luma_def by (rule raster) (use assms in \<open>simp_all add: put_bytes_one del: put_bytes.simps\<close>)

lemma scale_chroma_cells:
  assumes "\<And>x y. x < W \<Longrightarrow> y < H \<Longrightarrow> sample src (\<lambda>sY sX. psUV + (sY * srcW + sX) * 2) zx zy srcW srcH (int x) (int y) = Some (f y x)"
    and "\<And>x y. x < W \<Longrightarrow> y < H \<Longrightarrow> sample src (\<lambda>sY sX. psUV + (sY * srcW + sX) * 2 + 1) zx zy srcW srcH (int x) (int y) = Some (g y x)"
    and "base + H * W * 2 \<le> length mem"
  shows "\<exists>mem'. scale_chroma src psUV zx zy srcW srcH base W H mem = Some mem' \<and>
    cells_written (\<lambda>n. [f (n div W) (n mod W), g (n div W) (n mod W)]) 2 base (H * W) mem mem'"
  unfolding scale_chroma_def
proof (rule raster)
  fix y x m assume "y < H" "x < W"
  then show "do { u \<leftarrow> sample src (\<lambda>sY sX. psUV + (sY * srcW + sX) * 2) zx zy srcW srcH (int x) (int y);
       mem1 \<leftarrow> put_byte (base + y * (W * 2) + x * 2) u m;
       v \<leftarrow> sample src (\<lambda>sY sX. psUV + (sY * srcW + sX) * 2 + 1) zx zy srcW srcH (int x) (int y);
       put_byte (base + y * (W * 2) + (x * 2 + 1)) v mem1 } =
     put_bytes (base + (y * W + x) * 2) [f ((y * W + x) div W) ((y * W + x) mod W), g ((y * W + x) div W) ((y * W + x) mod W)] m"
    using assms(1,2) by (simp add: put_bytes_two mult.assoc add.assoc del: put_bytes.simps)
qed (use assms(3) in simp_all)

text \<open>Four neighbours: two lines of \<open>pitch\<close> bytes, two columns of \<open>step\<close> bytes.\<close>

definition quad :: "nat \<Rightarrow> nat \<Rightarrow> nat \<Rightarrow> nat \<Rightarrow> nat \<Rightarrow> nat list" where
  "quad base pitch step r c =
     [base + r * pitch + c * step, base + r * pitch + (c + 1) * step, base + (r + 1) * pitch + c * step, base + (r + 1) * pitch + (c + 1) * step]"

lemma quad_sample:
  assumes at: "\<And>i j. 0 \<le> i \<Longrightarrow> 0 \<le> j \<Longrightarrow> pos (start_at zy srcH y + i) (start_at zx srcW x + j) = int base + (R + i) * int pitch + (C + j) * int step"
    and "0 \<le> R" "0 \<le> C" and last: "base + (nat R + 1) * pitch + (nat C + 1) * step < length src"
  shows "\<exists>v. sample src pos zx zy srcW srcH x y = Some v \<and> blend_of src (quad base pitch step (nat R) (nat C)) v"
proof -
  define q where "q i j = base + (nat R + i) * pitch + (nat C + j) * step" for i j
  have le: "q i j \<le> q 1 1" if "i \<le> 1" "j \<le> 1" for i j
    using that unfolding q_def by (intro add_mono mult_le_mono) simp_all
  have "pos (start_at zy srcH y + i) (start_at zx srcW x + j) = int (q (nat i) (nat j)) \<and> q (nat i) (nat j) < length src"
    if "i \<in> {0, 1}" "j \<in> {0, 1}" for i j
    using at [of i j] assms(2,3) last that le [of "nat i" "nat j"] by (auto simp: q_def)
  then have "\<exists>v. sample src pos zx zy srcW srcH x y = Some v \<and> blend_of src [q 0 0, q 0 1, q 1 0, q 1 1] v"
    by (intro sample_blend) blast
  then show ?thesis by (simp add: q_def quad_def)
qed

text \<open>
  The values of a target picture: brightness of \<open>dw\<close> by \<open>dh\<close>, then colour pairs, each blended
  from the source around the place that the crop and the step give.
\<close>

definition scaled :: "int \<Rightarrow> int \<Rightarrow> int \<times> int \<times> int \<times> int \<Rightarrow> nat \<Rightarrow> nat \<Rightarrow> u8 list \<Rightarrow> u8 list \<Rightarrow> bool" where
  "scaled src_w src_h = (\<lambda>(cw, ch, l, t) dw dh src dst.
     (\<forall>x<dw. \<forall>y<dh.
        let c = l + start_at (zoom cw (int dw)) src_w (int x); r = t + start_at (zoom ch (int dh)) src_h (int y) in
          0 \<le> c \<and> c + 1 < src_w \<and> 0 \<le> r \<and> r + 1 < src_h \<and> blend_of src (quad 0 (nat src_w) 1 (nat r) (nat c)) (dst ! (y * dw + x))) \<and>
     (\<forall>x<dw div 2. \<forall>y<dh div 2. \<forall>k<2.
        let c = l div 2 + start_at (zoom cw (int dw)) (src_w div 2) (int x); r = t div 2 + start_at (zoom ch (int dh)) (src_h div 2) (int y) in
          0 \<le> c \<and> c + 1 < src_w div 2 \<and> 0 \<le> r \<and> r + 1 < src_h div 2 \<and>
          blend_of src (quad (nat (src_w * src_h) + k) (nat src_w) 2 (nat r) (nat c)) (dst ! (dw * dh + y * dw + 2 * x + k))))"

lemma last_byte:
  fixes r c w h :: nat
  assumes "r + 1 < h" "c + 1 < w"
  shows "(r + 1) * w + (c + 1) < h * w"
proof -
  have "(r + 1) * w + (c + 1) < (r + 1) * w + w" using assms(2) by simp
  also have "\<dots> = (r + 2) * w" by simp
  also have "\<dots> \<le> h * w" using assms(1) by (intro mult_le_mono1) simp
  finally show ?thesis .
qed

lemma luma_sample:
  fixes w h :: nat
  assumes c: "cropped (int w) cw l" "zoom cw (int dw) = cw * 65536 div int dw + 1" "0 < dw" "int dw * int dw \<le> cw * 65536"
    and d: "cropped (int h) ch t" "zoom ch (int dh) = ch * 65536 div int dh + 1" "0 < dh" "int dh * int dh \<le> ch * 65536"
    and s: "2 \<le> w" "2 \<le> h" "w * h \<le> length src" and xy: "x < dw" "y < dh"
  defines "C \<equiv> l + start_at (zoom cw (int dw)) (int w) (int x)" and "R \<equiv> t + start_at (zoom ch (int dh)) (int h) (int y)"
  shows "0 \<le> C \<and> C + 1 < int w \<and> 0 \<le> R \<and> R + 1 < int h \<and>
    (\<exists>v. sample src (\<lambda>sY sX. t * int w + l + (sY * int w + sX)) (zoom cw (int dw)) (zoom ch (int dh)) (int w) (int h) (int x) (int y) = Some v \<and>
      blend_of src (quad 0 w 1 (nat R) (nat C)) v)"
proof -
  have rc: "0 \<le> C" "C + 1 < int w" "0 \<le> R" "R + 1 < int h"
    using luma_place [OF c(1,2) _ c(4), of "int x"] luma_place [OF d(1,2) _ d(4), of "int y"] c d s xy
    by (simp_all add: C_def R_def cropped_def)
  have "\<exists>v. sample src (\<lambda>sY sX. t * int w + l + (sY * int w + sX)) (zoom cw (int dw)) (zoom ch (int dh)) (int w) (int h) (int x) (int y) = Some v \<and>
      blend_of src (quad 0 w 1 (nat R) (nat C)) v"
  proof (rule quad_sample)
    have "nat R + 1 < h" "nat C + 1 < w" using rc by linarith+
    from last_byte [OF this] s(3) show "0 + (nat R + 1) * w + (nat C + 1) * 1 < length src" by (simp add: mult.commute)
  qed (use rc in \<open>simp_all add: C_def R_def algebra_simps\<close>)
  with rc show ?thesis by blast
qed

lemma chroma_sample:
  fixes w h k :: nat
  assumes c: "cropped (int w) cw l" "zoom cw (int dw) = cw * 65536 div int dw + 1" "0 < dw" "int dw * int dw \<le> cw * 65536"
    and d: "cropped (int h) ch t" "zoom ch (int dh) = ch * 65536 div int dh + 1" "0 < dh" "int dh * int dh \<le> ch * 65536"
    and s: "4 \<le> w" "4 \<le> h" "even w" "even h" "w * h + w * h div 2 \<le> length src" and xy: "x < dw div 2" "y < dh div 2" and k: "k < 2"
  defines "C \<equiv> l div 2 + start_at (zoom cw (int dw)) (int w div 2) (int x)" and "R \<equiv> t div 2 + start_at (zoom ch (int dh)) (int h div 2) (int y)"
  shows "0 \<le> C \<and> C + 1 < int w div 2 \<and> 0 \<le> R \<and> R + 1 < int h div 2 \<and>
    (\<exists>v. sample src (\<lambda>sY sX. int w * int h + (t * int w) div 2 + l + (sY * (int w div 2) + sX) * 2 + int k)
        (zoom cw (int dw)) (zoom ch (int dh)) (int w div 2) (int h div 2) (int x) (int y) = Some v \<and>
      blend_of src (quad (w * h + k) w 2 (nat R) (nat C)) v)"
proof -
  have rc: "0 \<le> C" "C + 1 < int w div 2" "0 \<le> R" "R + 1 < int h div 2"
    using chroma_place [OF c(1,2) _ c(4), of "int x"] chroma_place [OF d(1,2) _ d(4), of "int y"] c d s xy
    by (auto simp: C_def R_def cropped_def)
  obtain w' h' t' l' where e: "w = 2 * w'" "h = 2 * h'" "t = 2 * t'" "l = 2 * l'"
    using s(3,4) c(1) d(1) by (auto simp: cropped_def elim!: evenE)
  have "\<exists>v. sample src (\<lambda>sY sX. int w * int h + (t * int w) div 2 + l + (sY * (int w div 2) + sX) * 2 + int k)
        (zoom cw (int dw)) (zoom ch (int dh)) (int w div 2) (int h div 2) (int x) (int y) = Some v \<and>
      blend_of src (quad (w * h + k) w 2 (nat R) (nat C)) v"
  proof (rule quad_sample)
    have "nat R + 1 < h'" "nat C + 1 < w'" using rc e(1,2) by simp_all
    from last_byte [OF this] have "(nat R + 1) * w + (nat C + 1) * 2 + 2 \<le> h' * w" using e(1) by (simp add: algebra_simps)
    moreover have "w * h div 2 = h' * w" using e(2) by simp
    ultimately show "w * h + k + (nat R + 1) * w + (nat C + 1) * 2 < length src" using s(5) k by simp
  qed (use rc e in \<open>simp_all add: C_def R_def algebra_simps\<close>)
  with rc show ?thesis by blast
qed

lemma cells_written_nth:
  assumes "cells_written (\<lambda>n. cell (n div W) (n mod W)) k base (H * W) old new" and "y < H" "x < W" "j < k" "base + H * W * k \<le> length old"
  shows "new ! (base + (y * W + x) * k + j) = cell y x ! j"
proof -
  have "y * W + x < Suc y * W" using assms(3) by simp
  also have "\<dots> \<le> H * W" using assms(2) by (intro mult_le_mono1) simp
  finally have "Suc (y * W + x) * k \<le> H * W * k" by (intro mult_le_mono1) simp
  then have "base + (y * W + x) * k + j < base + H * W * k" using assms(4) by simp
  moreover have "((y * W + x) * k + j) div k = y * W + x" "((y * W + x) * k + j) mod k = j" using assms(4) by simp_all
  ultimately show ?thesis using assms(1,3,5) by (simp add: cells_written_def add.assoc)
qed

lemma scale_effect:
  fixes w h dw dh :: nat
  assumes crop: "crop (int w) (int h) (int dw) (int dh) = Some (cw, ch, l, t)"
    and c: "cropped (int w) cw l" "cropped (int h) ch t" "int dw * int dw \<le> cw * 65536" "int dh * int dh \<le> ch * 65536"
    and d: "0 < dw" "dw \<le> 32768" "even dw" "0 < dh" "dh \<le> 32768" "even dh"
    and s: "4 \<le> w" "w \<le> 32768" "even w" "4 \<le> h" "h \<le> 32768" "even h" "w * h + w * h div 2 \<le> length src"
    and room: "dw * dh + dw * dh div 2 \<le> length dst"
  shows "\<exists>dst'. arm_camera_yuv420_scale_arm src (int w) (int h) (int dw) (int dh) dst = Some dst' \<and> length dst' = length dst \<and>
    scaled (int w) (int h) (cw, ch, l, t) dw dh src dst' \<and> (\<forall>p<length dst. dw * dh + dw * dh div 2 \<le> p \<longrightarrow> dst' ! p = dst ! p)"
proof -
  let ?zx = "zoom cw (int dw)" and ?zy = "zoom ch (int dh)" and ?uv = "int w * int h + t * int w div 2 + l"
  have z: "?zx = cw * 65536 div int dw + 1" "?zy = ch * 65536 div int dh + 1"
    by (rule zoom_eq; use c d s in \<open>simp add: cropped_def\<close>)+
  define f where "f y x = the (sample src (\<lambda>sY sX. t * int w + l + (sY * int w + sX)) ?zx ?zy (int w) (int h) (int x) (int y))" for y x :: nat
  define g where "g k y x = the (sample src (\<lambda>sY sX. ?uv + (sY * (int w div 2) + sX) * 2 + int k) ?zx ?zy (int w div 2) (int h div 2) (int x) (int y))" for k y x :: nat
  let ?C = "\<lambda>x. l + start_at ?zx (int w) (int x)" and ?R = "\<lambda>y. t + start_at ?zy (int h) (int y)"
  let ?C' = "\<lambda>x. l div 2 + start_at ?zx (int w div 2) (int x)" and ?R' = "\<lambda>y. t div 2 + start_at ?zy (int h div 2) (int y)"
  have Y: "0 \<le> ?C x \<and> ?C x + 1 < int w \<and> 0 \<le> ?R y \<and> ?R y + 1 < int h"
      "sample src (\<lambda>sY sX. t * int w + l + (sY * int w + sX)) ?zx ?zy (int w) (int h) (int x) (int y) = Some (f y x)"
      "blend_of src (quad 0 w 1 (nat (?R y)) (nat (?C x))) (f y x)" if "x < dw" "y < dh" for x y :: nat
    using luma_sample [OF c(1) z(1) d(1) c(3) c(2) z(2) d(4) c(4) _ _ _ that, of src] s by (auto simp: f_def)
  have UV: "0 \<le> ?C' x \<and> ?C' x + 1 < int w div 2 \<and> 0 \<le> ?R' y \<and> ?R' y + 1 < int h div 2"
      "sample src (\<lambda>sY sX. ?uv + (sY * (int w div 2) + sX) * 2 + int k) ?zx ?zy (int w div 2) (int h div 2) (int x) (int y) = Some (g k y x)"
      "blend_of src (quad (w * h + k) w 2 (nat (?R' y)) (nat (?C' x))) (g k y x)" if "x < dw div 2" "y < dh div 2" "k < 2" for x y k :: nat
    using chroma_sample [OF c(1) z(1) d(1) c(3) c(2) z(2) d(4) c(4) s(1,4,3,6,7) that] by (auto simp: g_def)
  obtain W H where e: "dw = 2 * W" "dh = 2 * H" using d(3,6) by (auto elim!: evenE)
  have size: "dw * dh + H * W * 2 = dw * dh + dw * dh div 2" using e by simp
  have "\<exists>m. scale_luma src (t * int w + l) ?zx ?zy (int w) (int h) dw dh dst = Some m \<and> cells_written (\<lambda>n. [f (n div dw) (n mod dw)]) 1 0 (dh * dw) dst m"
    by (rule scale_luma_cells) (use Y(2) room in \<open>simp_all add: mult.commute\<close>)
  then obtain m where m: "scale_luma src (t * int w + l) ?zx ?zy (int w) (int h) dw dh dst = Some m"
    "cells_written (\<lambda>n. [f (n div dw) (n mod dw)]) 1 0 (dh * dw) dst m" by blast
  have len: "length m = length dst" using m(2) by (simp add: cells_written_def)
  have "\<exists>m'. scale_chroma src ?uv ?zx ?zy (int w div 2) (int h div 2) (dw * dh) W H m = Some m' \<and>
      cells_written (\<lambda>n. [g 0 (n div W) (n mod W), g 1 (n div W) (n mod W)]) 2 (dw * dh) (H * W) m m'"
  proof (rule scale_chroma_cells)
    show "dw * dh + H * W * 2 \<le> length m" using room len size by simp
  qed (use UV(2) [where k = 0] UV(2) [where k = 1] e in simp_all)
  then obtain m' where m': "scale_chroma src ?uv ?zx ?zy (int w div 2) (int h div 2) (dw * dh) W H m = Some m'"
    "cells_written (\<lambda>n. [g 0 (n div W) (n mod W), g 1 (n div W) (n mod W)]) 2 (dw * dh) (H * W) m m'" by blast
  have run: "arm_camera_yuv420_scale_arm src (int w) (int h) (int dw) (int dh) dst = Some m'"
    using crop m(1) m'(1) d e c(2) by (simp add: arm_camera_yuv420_scale_arm_def c_div_pos cropped_def nat_mult_distrib)
  have y: "m' ! (y * dw + x) = f y x" if "x < dw" "y < dh" for x y
  proof -
    have "y * dw + x < Suc y * dw" using that by simp
    also have "\<dots> \<le> dh * dw" using that by (intro mult_le_mono1) simp
    finally have "y * dw + x < dh * dw" .
    then have "m' ! (y * dw + x) = m ! (y * dw + x)" using m'(2) len room by (simp add: cells_written_def mult.commute)
    also have "\<dots> = f y x" using cells_written_nth [OF m(2) that(2,1), of 0] room by (simp add: mult.commute)
    finally show ?thesis .
  qed
  have uv: "m' ! (dw * dh + y * dw + 2 * x + k) = g k y x" if "x < W" "y < H" "k < 2" for x y k
  proof -
    have "dw * dh + y * dw + 2 * x + k = dw * dh + (y * W + x) * 2 + k" using e(1) by (simp add: algebra_simps)
    moreover have "m' ! (dw * dh + (y * W + x) * 2 + k) = [g 0 y x, g 1 y x] ! k"
      using cells_written_nth [OF m'(2) that(2,1,3)] room len size by simp
    moreover have "[g 0 y x, g 1 y x] ! k = g k y x" using that(3) by (auto simp: less_2_cases_iff)
    ultimately show ?thesis by metis
  qed
  have "scaled (int w) (int h) (cw, ch, l, t) dw dh src m'"
    using Y(1,3) UV(1,3) y uv e by (simp add: scaled_def Let_def nat_mult_distrib)
  moreover have "m' ! p = dst ! p" if "p < length dst" "dw * dh + dw * dh div 2 \<le> p" for p
    using that m(2) m'(2) size by (auto simp: cells_written_def mult.commute)
  ultimately show ?thesis using run m'(2) len by (auto simp: cells_written_def)
qed

lemma scale_1080:
  assumes "1920 < w" "w \<le> 32768" "even w" "34 \<le> h" "h \<le> 32768" "even h"
    and "w * h + w * h div 2 \<le> length src" "3110400 \<le> length dst"
  shows "\<exists>dst' cr. arm_camera_yuv420_scale_arm src (int w) (int h) 1920 1080 dst = Some dst' \<and> length dst' = length dst \<and>
    crop (int w) (int h) 1920 1080 = Some cr \<and> scaled (int w) (int h) cr 1920 1080 src dst' \<and>
    (\<forall>p<length dst. 3110400 \<le> p \<longrightarrow> dst' ! p = dst ! p)"
proof -
  have pos: "0 < int w" "0 < int h" "(0 :: int) < 1920" "(0 :: int) < 1080" using assms by simp_all
  obtain cw ch l t where c: "crop (int w) (int h) 1920 1080 = Some (cw, ch, l, t)" "cropped (int w) cw l" "cropped (int h) ch t"
    "3 * 1920 \<le> 100 * int w \<and> 3 * 1080 \<le> 100 * int h \<longrightarrow> 3 * 1920 div 100 \<le> cw \<and> 3 * 1080 div 100 \<le> ch"
    by (rule crop_cropped [OF pos])
  have "57 \<le> cw" "32 \<le> ch" using c(4) assms(1,4) by simp_all
  with scale_effect [of w h 1920 1080 cw ch l t src dst] c(1-3) assms show ?thesis by auto
qed

text \<open>
  Property C33. The scaler stays inside both pictures and interpolates.  For a picture of even size, wider
  than 1920 and at least 34 lines high, scaled to 1920 by 1080, every read is inside of the source and every write
  inside of the first 3110400 bytes of the target; the rest of the target is as before.  Every
  brightness value is a blend of four neighbouring pixels that lie in the picture (not above the
  largest, at most two below the smallest), and every colour value one of four neighbouring pairs of the
  same channel; the place of the neighbours is the one of the crop and the step.
\<close>

theorem scale_inside_and_blended:
  assumes "1920 < w" "w \<le> 32768" "even w" "34 \<le> h" "h \<le> 32768" "even h"
    and "w * h + w * h div 2 \<le> length src" "3110400 \<le> length dst"
  shows "\<exists>dst' cr. arm_camera_yuv420_scale_arm src (int w) (int h) 1920 1080 dst = Some dst' \<and> length dst' = length dst \<and>
    crop (int w) (int h) 1920 1080 = Some cr \<and> scaled (int w) (int h) cr 1920 1080 src dst' \<and>
    (\<forall>p<length dst. 3110400 \<le> p \<longrightarrow> dst' ! p = dst ! p)"
  by (rule scale_1080 [OF assms])

theorem scale_inside_and_blended_witness:
  "\<exists>dst' cr. arm_camera_yuv420_scale_arm (replicate 4147200 7) 2560 1080 1920 1080 (replicate 3110400 0) = Some dst' \<and>
     crop 2560 1080 1920 1080 = Some cr \<and> scaled 2560 1080 cr 1920 1080 (replicate 4147200 7) dst'"
  using scale_inside_and_blended [of 2560 1080 "replicate 4147200 7" "replicate 3110400 0"] by auto

end
