(* ===== verification/DrmDsp.thy ===== *)
theory DrmDsp
  imports DrmDev DrmScale
begin

unbundle bit_operations_syntax

text \<open>
  The display of frames, \<^verbatim>\<open>aiserver/src/vendor/filter/rkvo/drmDsp.c\<close>: opening the display and choosing a
  plane for pictures in the format NV12, showing frames with two buffers in turn, and closing it.  The global
  \<^verbatim>\<open>gDrmDsp\<close> is passed and returned.  \<open>None\<close> is a NULL pointer that is followed or an
  access outside of an array, a mapping or a frame.
\<close>

section \<open>Operations\<close>

text \<open>
  Pointers into the device are indices, and \<^verbatim>\<open>nextbo\<close> tells which of the two buffers it points to.  The
  members \<^verbatim>\<open>vinfo\<close>, \<^verbatim>\<open>screensize\<close> and \<^verbatim>\<open>fbp\<close> are never used.
\<close>

record drmDsp =
  dd_dev :: "sp_dev option"
  dd_plane :: "nat option"
  dd_planes :: "nat option list"
  test_crtc :: "nat option"
  test_plane :: "nat option"
  num_test_planes :: nat
  bo0 :: "sp_bo option"
  bo1 :: "sp_bo option"
  nextbo :: "bool option"

definition no_dsp :: drmDsp where
  "no_dsp = \<lparr>dd_dev = None, dd_plane = None, dd_planes = [], test_crtc = None, test_plane = None, num_test_planes = 0,
     bo0 = None, bo1 = None, nextbo = None\<rparr>"

text \<open>One plane: its pointer is stored, its formats are searched.\<close>

definition pick_plane :: "nat \<Rightarrow> nat \<Rightarrow> sp_dev \<times> nat option list \<times> nat option \<Rightarrow> (sp_dev \<times> nat option list \<times> nat option) option" where
  "pick_plane crtc_pipe i st = (case st of (d, ps, tp) \<Rightarrow>
     (case get_sp_plane d crtc_pipe of
        (None, d1) \<Rightarrow> None
      | (Some k, d1) \<Rightarrow> if i \<ge> length ps then None
          else map_option (\<lambda>p. (d1, ps[i := Some k], if is_supported_format p DRM_FORMAT_NV12 then Some k else tp)) (sp_plane (planes d1 ! k))))"

definition initDrmDsp :: "'s drm \<Rightarrow> 's dw \<Rightarrow> (int \<times> drmDsp \<times> 's dw) option" where
  "initDrmDsp dr w = do {
     (dev, w1) \<leftarrow> create_sp_dev dr w;
     (case dev of
        None \<Rightarrow> Some (-1, no_dsp, w1)
      | Some d0 \<Rightarrow> do {
          (d, w2) \<leftarrow> initialize_screens dr d0 w1;
          (case calloc dr w2 of
             (None, w3) \<Rightarrow> Some (-1, no_dsp\<lparr>dd_dev := Some d\<rparr>, w3)
           | (Some a, w3) \<Rightarrow>
               if crtcs d = [] then None
               else do {
                 (d1, ps, tp) \<leftarrow> each_opt (pick_plane (pipe (crtcs d ! 0))) [0..<num_planes (crtcs d ! 0)]
                                   (d, replicate (length (planes d)) None, None);
                 Some (if tp = None then -1 else 0,
                   no_dsp\<lparr>dd_dev := Some d1, dd_plane := Some a, dd_planes := ps, test_crtc := Some 0, test_plane := tp,
                     num_test_planes := num_planes (crtcs d ! 0)\<rparr>, w3) }) }) }"

definition drop_bo :: "'s drm \<Rightarrow> sp_bo option \<Rightarrow> 's dw \<Rightarrow> 's dw" where
  "drop_bo dr bo w = (case bo of None \<Rightarrow> w | Some b \<Rightarrow> free_sp_bo dr b (release dr (R_fb (bo_fb_id b)) w))"

definition deInitDrmDsp :: "'s drm \<Rightarrow> drmDsp \<Rightarrow> 's dw \<Rightarrow> (drmDsp \<times> 's dw) option" where
  "deInitDrmDsp dr g w = do {
     d \<leftarrow> dd_dev g;
     w1 \<leftarrow> destroy_sp_dev dr d
       (drop_bo dr (bo1 g) (drop_bo dr (bo0 g) (case dd_plane g of None \<Rightarrow> w | Some a \<Rightarrow> release dr (R_mem a) w)));
     Some (no_dsp, w1) }"

definition align16 :: "int \<Rightarrow> int" where
  "align16 n = (n + 15) AND NOT 15"

text \<open>The two buffers are created with the size of the first frame; the value is whether the function goes on.\<close>

definition frame_buffers :: "'s drm \<Rightarrow> int \<Rightarrow> int \<Rightarrow> drmDsp \<Rightarrow> 's dw \<Rightarrow> (bool \<times> drmDsp \<times> 's dw) option" where
  "frame_buffers dr wAlign16 hAlign16 g w =
     (if bo0 g \<noteq> None then Some (nextbo g \<noteq> None, g, w)
      else do {
        d \<leftarrow> dd_dev g;
        (case create_sp_bo dr (sd_fd d) (word_of_int wAlign16) (word_of_int hAlign16) 16 32 DRM_FORMAT_NV12 0 w of (b0, w1) \<Rightarrow>
          (case create_sp_bo dr (sd_fd d) (word_of_int wAlign16) (word_of_int hAlign16) 16 32 DRM_FORMAT_NV12 0 w1 of (b1, w2) \<Rightarrow>
            (let g1 = g\<lparr>bo0 := b0, bo1 := b1\<rparr> in
             Some (if b0 = None \<or> b1 = None then (False, g1, w2) else (True, g1\<lparr>nextbo := Some False\<rparr>, w2))))) })"

text \<open>The picture is copied as it is, or scaled to 1920 by 1080.\<close>

definition copy_frame :: "int \<Rightarrow> int \<Rightarrow> int \<Rightarrow> int \<Rightarrow> u8 list \<Rightarrow> u8 list \<Rightarrow> u8 list option" where
  "copy_frame ori_width ori_height width height frame mem =
     (if ori_width = width then
        (let n = c_div (align16 width * align16 height * 3) 2 in
         if n < 0 \<or> nat n > length frame then None else put_bytes 0 (take (nat n) frame) mem)
      else arm_camera_yuv420_scale_arm frame ori_width ori_height width height mem)"

definition put_bo :: "bool \<Rightarrow> sp_bo \<Rightarrow> drmDsp \<Rightarrow> drmDsp" where
  "put_bo second b g = (if second then g\<lparr>bo1 := Some b\<rparr> else g\<lparr>bo0 := Some b\<rparr>)"

text \<open>A framebuffer for the first frame in a buffer; the planes are the brightness and the colours.\<close>

definition frame_fb :: "'s drm \<Rightarrow> int \<Rightarrow> int \<Rightarrow> sp_bo \<Rightarrow> 's dw \<Rightarrow> (int \<times> sp_bo) \<times> 's dw" where
  "frame_fb dr width height b w =
     (if bo_fb_id b = 0
      then add_fb dr b (bo_format b) [(bo_handle b, word_of_int (align16 width), 0), (bo_handle b, word_of_int (align16 width), word_of_int (width * height))] w
      else ((0, b), w))"

text \<open>The buffer \<open>b\<close> is shown and the other one is the next.  A call that succeeds ends without a value.\<close>

definition show_frame :: "'s drm \<Rightarrow> int \<Rightarrow> int \<Rightarrow> sp_bo \<Rightarrow> drmDsp \<Rightarrow> 's dw \<Rightarrow> (int option \<times> drmDsp \<times> 's dw) option" where
  "show_frame dr width height b g w = do {
     d \<leftarrow> dd_dev g;
     k \<leftarrow> test_plane g;
     p \<leftarrow> sp_plane (planes d ! k);
     c \<leftarrow> test_crtc g;
     cr \<leftarrow> sc_crtc (crtcs d ! c);
     (case call (dr_setplane dr (sd_fd d) (plane_id p) (crtc_id cr) (bo_fb_id b)
        [0, 0, align16 width, align16 height, 0, 0, push_bit 16 width, push_bit 16 height]) w of (rc, w1) \<Rightarrow>
       Some (if rc \<noteq> 0 then (Some rc, g, w1) else (None, g\<lparr>nextbo := Some (nextbo g = Some False)\<rparr>, w1))) }"

definition drmDspFrame :: "'s drm \<Rightarrow> int \<Rightarrow> int \<Rightarrow> u8 list \<Rightarrow> u32 \<Rightarrow> drmDsp \<Rightarrow> 's dw \<Rightarrow> (int option \<times> drmDsp \<times> 's dw) option" where
  "drmDspFrame dr ori_width ori_height frame fmt g w =
     (let (width, height) = (if ori_width > 1920 then (1920, 1080) else (ori_width, ori_height)) in
      if DRM_FORMAT_NV12 \<noteq> fmt then Some (Some (-1), g, w)
      else do {
        (go, g1, w1) \<leftarrow> frame_buffers dr (align16 width) (align16 height) g w;
        (if \<not> go then Some (Some (-1), g1, w1)
         else do {
           second \<leftarrow> nextbo g1;
           b \<leftarrow> (if second then bo1 g1 else bo0 g1);
           mem \<leftarrow> copy_frame ori_width ori_height width height frame (dw_pix w1 (bo_map_addr b));
           (case frame_fb dr width height b (w1\<lparr>dw_pix := (dw_pix w1)(bo_map_addr b := mem)\<rparr>) of ((rc, b1), w2) \<Rightarrow>
              if rc \<noteq> 0 then Some (Some rc, g1, w2)
              else show_frame dr width height b1 (put_bo second b1 g1) w2) }) })"

section \<open>Choosing the planes\<close>

lemma index_where_iff: "index_where P xs = Some k \<longleftrightarrow> k < length xs \<and> P (xs ! k) \<and> (\<forall>j<k. \<not> P (xs ! j))"
proof (induction xs arbitrary: k)
  case (Cons x xs)
  show ?case
  proof (cases k)
    case (Suc k')
    with Cons show ?thesis by (auto simp: less_Suc_eq_0_disj)
  qed (use Cons in auto)
qed simp

text \<open>The planes that the first controller can show, in their order, and the last of the first \<open>i\<close> that takes NV12.\<close>

definition shown_planes :: "sp_plane list \<Rightarrow> nat list" where
  "shown_planes ps = filter (\<lambda>k. can_show 0 (ps ! k)) [0..<length ps]"

definition takes_nv12 :: "sp_plane \<Rightarrow> bool" where
  "takes_nv12 p \<longleftrightarrow> (\<exists>x\<in>set_option (sp_plane p). is_supported_format x DRM_FORMAT_NV12)"

definition last_nv12 :: "sp_plane list \<Rightarrow> nat list \<Rightarrow> nat option" where
  "last_nv12 ps is = (let js = filter (\<lambda>k. takes_nv12 (ps ! k)) is in if js = [] then None else Some (last js))"

lemma shown_planes_length: "length (shown_planes ps) = length (filter (can_show 0) ps)"
proof -
  have "filter (can_show 0) (map ((!) ps) [0..<length ps]) = map ((!) ps) (shown_planes ps)"
    by (simp only: shown_planes_def filter_map comp_def)
  then show ?thesis by (metis length_map map_nth)
qed

lemma shown_planes_nth:
  assumes "i < length (shown_planes ps)"
  shows "shown_planes ps ! i < length ps" "can_show 0 (ps ! (shown_planes ps ! i))"
    and "j < shown_planes ps ! i \<Longrightarrow> j < length ps \<Longrightarrow> can_show 0 (ps ! j) \<Longrightarrow> j \<in> set (take i (shown_planes ps))"
    and "shown_planes ps ! i \<notin> set (take i (shown_planes ps))"
proof -
  let ?s = "shown_planes ps"
  have mem: "?s ! i \<in> set ?s" using assms by simp
  show "?s ! i < length ps" "can_show 0 (ps ! (?s ! i))" using mem by (auto simp: shown_planes_def)
  have sorted: "sorted_wrt (<) ?s" by (simp add: shown_planes_def sorted_wrt_filter)
  show "?s ! i \<notin> set (take i ?s)"
    using assms sorted by (auto simp: in_set_conv_nth sorted_wrt_iff_nth_less) fastforce
  show "j \<in> set (take i ?s)" if j: "j < ?s ! i" "j < length ps" "can_show 0 (ps ! j)"
  proof -
    have "j \<in> set ?s" using j by (auto simp: shown_planes_def)
    then obtain k where k: "k < length ?s" "j = ?s ! k" by (auto simp: in_set_conv_nth)
    have "k < i"
    proof (rule ccontr)
      assume "\<not> k < i"
      then have "?s ! i \<le> ?s ! k" using sorted k(1) by (metis le_less linorder_neqE_nat sorted_wrt_iff_nth_less)
      with j k show False by simp
    qed
    with k assms show ?thesis by (auto simp: in_set_conv_nth)
  qed
qed

definition mark :: "nat set \<Rightarrow> sp_plane list \<Rightarrow> sp_plane list" where
  "mark S ps = map (\<lambda>(k, p). if k \<in> S then p\<lparr>in_use := True\<rparr> else p) (enumerate 0 ps)"

lemma mark_nth [simp]:
  "length (mark S ps) = length ps"
  "k < length ps \<Longrightarrow> mark S ps ! k = (if k \<in> S then (ps ! k)\<lparr>in_use := True\<rparr> else ps ! k)"
  by (simp_all add: mark_def nth_enumerate_eq)

lemma mark_insert: "k < length ps \<Longrightarrow> (mark S ps)[k := (mark S ps ! k)\<lparr>in_use := True\<rparr>] = mark (insert k S) ps"
  by (rule nth_equalityI) (auto simp: nth_list_update)

lemma mark_empty [simp]: "mark {} ps = ps"
  by (rule nth_equalityI) auto

lemma get_sp_plane_next:
  assumes free: "\<forall>p\<in>set ps. \<not> in_use p" and i: "i < length (shown_planes ps)" and d: "planes d = mark (set (take i (shown_planes ps))) ps"
  shows "get_sp_plane d 0 = (Some (shown_planes ps ! i), d\<lparr>planes := mark (set (take (Suc i) (shown_planes ps))) ps\<rparr>)"
proof -
  let ?k = "shown_planes ps ! i" and ?S = "set (take i (shown_planes ps))"
  note s = shown_planes_nth [OF i]
  have nu: "\<not> in_use (ps ! j)" if "j < length ps" for j using free that by simp
  have "index_where (\<lambda>p. \<not> in_use p \<and> (\<exists>x\<in>set_option (sp_plane p). possible_on x 0)) (mark ?S ps) = Some ?k"
    using s nu unfolding index_where_iff can_show_def by (auto simp: order.strict_trans)
  moreover have "insert ?k ?S = set (take (Suc i) (shown_planes ps))" using i by (simp add: take_Suc_conv_app_nth)
  ultimately show ?thesis using d mark_insert [OF s(1), of ?S] by (simp add: get_sp_plane_def)
qed

text \<open>The loop hands out all planes of the controller, and none twice.\<close>

lemma pick_planes:
  assumes free: "\<forall>p\<in>set ps. \<not> in_use p" and there: "\<forall>p\<in>set ps. sp_plane p \<noteq> None" and d: "planes d = ps"
  defines "n \<equiv> length (shown_planes ps)"
  shows "each_opt (pick_plane 0) [0..<n] (d, replicate (length ps) None, None) =
    Some (d\<lparr>planes := mark (set (shown_planes ps)) ps\<rparr>, map Some (shown_planes ps) @ replicate (length ps - n) None, last_nv12 ps (shown_planes ps))"
proof -
  let ?s = "shown_planes ps"
  have nl: "n \<le> length ps" by (simp add: n_def shown_planes_length)
  let ?P = "\<lambda>i st. st = (d\<lparr>planes := mark (set (take i ?s)) ps\<rparr>, map Some (take i ?s) @ replicate (length ps - i) None, last_nv12 ps (take i ?s))"
  have "\<exists>st. each_opt (pick_plane 0) [0..<n] (d, replicate (length ps) None, None) = Some st \<and> ?P n st"
  proof (rule for_range [where P = ?P])
    show "(d, replicate (length ps) None, None) = (d\<lparr>planes := mark (set (take 0 ?s)) ps\<rparr>, map Some (take 0 ?s) @ replicate (length ps - 0) None, last_nv12 ps (take 0 ?s))"
      using d by (simp add: last_nv12_def)
    fix i st assume i: "i < n" and st: "?P i st"
    have il: "i < length ?s" using i by (simp add: n_def)
    note g = get_sp_plane_next [OF free il, of "d\<lparr>planes := mark (set (take i ?s)) ps\<rparr>"]
    have k: "?s ! i < length ps" using shown_planes_nth(1) [OF il] .
    obtain x where x: "sp_plane (ps ! (?s ! i)) = Some x" using there nth_mem [OF k] by blast
    have upd: "(map Some (take i ?s) @ replicate (length ps - i) None)[i := Some (?s ! i)] = map Some (take (Suc i) ?s) @ replicate (length ps - Suc i) None"
      using il i nl by (simp add: list_update_append take_Suc_conv_app_nth Suc_diff_Suc flip: replicate_Suc)
         (metis Suc_diff_Suc list_update_code(2) order_less_le_trans replicate_Suc)
    have tp: "last_nv12 ps (take (Suc i) ?s) = (if takes_nv12 (ps ! (?s ! i)) then Some (?s ! i) else last_nv12 ps (take i ?s))"
      using il by (simp add: last_nv12_def take_Suc_conv_app_nth Let_def)
    show "\<exists>st'. pick_plane 0 i st = Some st' \<and> ?P (Suc i) st'"
      using st g k x upd tp il i nl by (simp add: pick_plane_def takes_nv12_def)
  qed simp
  then show ?thesis by (simp add: n_def)
qed

section \<open>Opening\<close>

text \<open>The resources behind the global state.\<close>

definition opt_bo_owned :: "sp_bo option \<Rightarrow> res multiset" where
  "opt_bo_owned b = (case b of None \<Rightarrow> {#} | Some x \<Rightarrow> bo_owned x)"

definition dsp_owned :: "drmDsp \<Rightarrow> res multiset" where
  "dsp_owned g = (case dd_dev g of None \<Rightarrow> {#} | Some d \<Rightarrow> dev_owned d) + (case dd_plane g of None \<Rightarrow> {#} | Some a \<Rightarrow> {#R_mem a#}) +
     opt_bo_owned (bo0 g) + opt_bo_owned (bo1 g)"

text \<open>
  Everything that is held belongs to the global state or was there before the display was opened (\<open>L\<close>), and
  nothing but failed mappings was released without being there.
\<close>

definition dsp_account :: "res multiset \<Rightarrow> res list \<Rightarrow> drmDsp \<Rightarrow> 's dw \<Rightarrow> bool" where
  "dsp_account L st g w \<longleftrightarrow> dw_live w = dsp_owned g + L \<and> R_map MAP_FAILED \<notin># dw_live w \<and>
     (\<exists>m. dw_stray w = st @ replicate m (R_map MAP_FAILED)) \<and>
     (\<exists>d. dd_dev g = Some d \<and> dev_wf d \<and> crtcs d \<noteq> []) \<and> (\<forall>b\<in>set_option (bo0 g) \<union> set_option (bo1 g). bo_ok b)"

lemma created_screens_inv:
  assumes c: "create_sp_dev dr w = Some (Some d, w1)" and m: "R_map MAP_FAILED \<notin># dw_live w" and e: "encoders_covered d"
  shows "screens_inv (length (connectors d), length (crtcs d)) (planes d) (dw_live w) (dw_stray w) (d, w1) \<and> (\<forall>p\<in>set (planes d). \<not> in_use p)"
proof -
  have r: "dw_live w1 = dev_owned d + dw_live w" "dw_stray w1 = dw_stray w" "dev_wf d" "planes_counted d"
    "\<forall>p\<in>set (planes d). \<not> in_use p" "\<forall>c\<in>set (crtcs d). scanout c = None"
    using create_sp_dev_result [of w dr] c by (auto simp: dev_result_def)
  have "R_map MAP_FAILED \<notin># dev_owned d"
    using r(6) by (auto simp: dev_owned_def arr_owned_def crtc_owned_def plane_owned_def obj_owned_def split: option.split)
  moreover have "\<exists>q. dw_stray w1 = dw_stray w @ replicate q (R_map MAP_FAILED)" using r(2) by (intro exI [of _ 0]) simp
  ultimately show ?thesis using r m e by (simp add: screens_inv_def)
qed

lemma marked_dev:
  assumes "dev_wf d"
  shows "dev_wf (d\<lparr>planes := mark S (planes d)\<rparr>)" "dev_owned (d\<lparr>planes := mark S (planes d)\<rparr>) = dev_owned d"
proof -
  have "sp_plane p \<noteq> None \<and> plane_ok p" if "p \<in> set (mark S (planes d))" for p
  proof -
    from that obtain k where k: "k < length (planes d)" "p = mark S (planes d) ! k" by (auto simp: in_set_conv_nth)
    then have "planes d ! k \<in> set (planes d)" by simp
    with assms have "sp_plane (planes d ! k) \<noteq> None \<and> plane_ok (planes d ! k)" by (auto simp: dev_wf_def)
    with k show ?thesis by (auto simp: plane_ok_def)
  qed
  moreover have "mark S (planes d) = []" if "planes d = []" using that by (simp add: mark_def)
  ultimately show "dev_wf (d\<lparr>planes := mark S (planes d)\<rparr>)" using assms by (simp add: dev_wf_def)
  have "map plane_owned (mark S (planes d)) = map plane_owned (planes d)" by (rule nth_equalityI) (auto simp: plane_owned_def)
  from arr_owned_cong [OF this] show "dev_owned (d\<lparr>planes := mark S (planes d)\<rparr>) = dev_owned d" by (simp add: dev_owned_def)
qed

lemma initDrmDsp_result:
  assumes laws: "drm_laws dr" and m: "R_map MAP_FAILED \<notin># dw_live w"
    and c: "create_sp_dev dr w = Some (Some d, w1)" and e: "encoders_covered d" and nc: "crtcs d \<noteq> []"
  shows "\<exists>rc g w'. initDrmDsp dr w = Some (rc, g, w') \<and> dsp_account (dw_live w) (dw_stray w) g w' \<and> bo0 g = None \<and> bo1 g = None \<and> nextbo g = None \<and>
    (rc \<noteq> 0 \<longrightarrow> rc = -1 \<and> (dd_plane g = None \<or> last_nv12 (planes d) (shown_planes (planes d)) = None)) \<and>
    (rc = 0 \<longrightarrow> test_crtc g = Some 0 \<and> test_plane g = last_nv12 (planes d) (shown_planes (planes d)) \<and> test_plane g \<noteq> None \<and>
       num_test_planes g = length (shown_planes (planes d)) \<and> planes (the (dd_dev g)) = mark (set (shown_planes (planes d))) (planes d))"
proof -
  let ?n = "(length (connectors d), length (crtcs d))" and ?ps = "planes d"
  note i = created_screens_inv [OF c m e]
  obtain d' w2 where s: "initialize_screens dr d w1 = Some (d', w2)" "screens_inv ?n ?ps (dw_live w) (dw_stray w) (d', w2)"
    using initialize_screens_keeps [OF laws conjunct1 [OF i]] by blast
  then have d': "dev_wf d'" "planes_counted d'" "planes d' = ?ps" "dw_live w2 = dev_owned d' + dw_live w" "R_map MAP_FAILED \<notin># dw_live w2"
    "\<exists>q. dw_stray w2 = dw_stray w @ replicate q (R_map MAP_FAILED)" "crtcs d' \<noteq> []"
    using nc by (auto simp: screens_inv_def)
  obtain a w3 where 3: "calloc dr w2 = (a, w3)" by (metis prod.exhaust)
  note e3 = calloc_effect [OF 3]
  show ?thesis
  proof (cases a)
    case None
    with c s 3 e3 d' show ?thesis
      by (auto simp: initDrmDsp_def no_dsp_def dsp_account_def dsp_owned_def opt_bo_owned_def)
  next
    case (Some x)
    have first: "pipe (crtcs d' ! 0) = 0" "num_planes (crtcs d' ! 0) = length (shown_planes ?ps)"
      using d'(2,3,7) by (simp_all add: planes_counted_def shown_planes_length)
    have there: "\<forall>p\<in>set ?ps. sp_plane p \<noteq> None" using d'(1,3) by (auto simp: dev_wf_def)
    note p = pick_planes [OF conjunct2 [OF i] there d'(3)]
    note mk = marked_dev [OF d'(1), of "set (shown_planes ?ps)"]
    have "dw_live w3 = add_mset (R_mem x) (dev_owned d' + dw_live w)" using e3 Some d'(4) by simp
    then show ?thesis
      using Some c s 3 e3 d' first p mk
      by (auto simp: initDrmDsp_def no_dsp_def dsp_account_def dsp_owned_def opt_bo_owned_def)
  qed
qed

section \<open>Showing frames\<close>

lemma align16_eq: "align16 n = (n + 15) div 16 * 16"
proof -
  have "(15 :: int) = mask 4" by (simp add: mask_eq_exp_minus_1)
  then have "align16 n = (n + 15) AND NOT (mask 4)" by (simp add: align16_def)
  also have "\<dots> = push_bit 4 (drop_bit 4 (n + 15))"
    by (rule bit_eqI) (auto simp: bit_and_iff bit_not_iff bit_mask_iff bit_push_bit_iff bit_drop_bit_eq)
  finally show ?thesis by (simp add: push_bit_eq_mult drop_bit_eq_div)
qed

lemma align16_bounds: "n \<le> align16 n" "align16 n < n + 16" "16 dvd align16 n"
  by (simp_all add: align16_eq)

text \<open>
  A frame that the function can show: not empty, up to 32768 in both directions, and large enough in memory; a picture
  that is scaled has an even size and 34 lines.
\<close>

definition frame_ok :: "int \<Rightarrow> int \<Rightarrow> u8 list \<Rightarrow> bool" where
  "frame_ok width height frame \<longleftrightarrow> 0 < width \<and> width \<le> 32768 \<and> 0 < height \<and> height \<le> 32752 \<and>
     (if width \<le> 1920 then nat (align16 width * align16 height * 3 div 2) \<le> length frame
      else even width \<and> even height \<and> 34 \<le> height \<and> nat (width * height) + nat (width * height) div 2 \<le> length frame)"

text \<open>The size of the picture that is shown.\<close>

definition shown_size :: "int \<Rightarrow> int \<Rightarrow> int \<times> int" where
  "shown_size width height = (if width > 1920 then (1920, 1080) else (width, height))"

definition room_for :: "int \<Rightarrow> int \<Rightarrow> nat" where
  "room_for width height = (case shown_size width height of (w, h) \<Rightarrow> nat (4 * align16 w * align16 h))"

text \<open>Between frames of one size: both buffers have room, and a buffer that is next is there.\<close>

definition dsp_ready :: "int \<Rightarrow> int \<Rightarrow> drmDsp \<Rightarrow> 's dw \<Rightarrow> bool" where
  "dsp_ready width height g w \<longleftrightarrow>
     test_crtc g = Some 0 \<and> (\<exists>k d. test_plane g = Some k \<and> dd_dev g = Some d \<and> k < length (planes d)) \<and>
     (nextbo g \<noteq> None \<longrightarrow> bo0 g \<noteq> None \<and> bo1 g \<noteq> None) \<and> (bo0 g = None \<longrightarrow> bo1 g = None) \<and>
     (\<forall>b\<in>set_option (bo0 g) \<union> set_option (bo1 g). room_for width height \<le> length (dw_pix w (bo_map_addr b)))"

lemma copy_frame_fits:
  assumes f: "frame_ok width height frame" and s: "shown_size width height = (wd, ht)" and room: "room_for width height \<le> length mem"
  shows "\<exists>mem'. copy_frame width height wd ht frame mem = Some mem' \<and> length mem' = length mem"
proof (cases "width \<le> 1920")
  case True
  let ?n = "align16 width * align16 height * 3 div 2"
  have pos: "0 \<le> align16 width" "0 \<le> align16 height"
    using f align16_bounds(1) [of width] align16_bounds(1) [of height] by (simp_all add: frame_ok_def)
  then have q: "0 \<le> align16 width * align16 height" by simp
  have "wd = width" "ht = height" using True s by (simp_all add: shown_size_def)
  moreover have "nat ?n \<le> length frame" using f True by (simp add: frame_ok_def)
  moreover have "nat ?n \<le> length mem" using True room q by (simp add: room_for_def shown_size_def mult.assoc)
  moreover have "0 + length (take (nat ?n) frame) \<le> length mem" using calculation(4) by simp
  from put_bytes_nth [OF this] obtain mem' where "put_bytes 0 (take (nat ?n) frame) mem = Some mem'" "length mem' = length mem" by blast
  moreover have "c_div (align16 width * align16 height * 3) 2 = ?n" "0 \<le> ?n" using q by (simp_all add: c_div_pos)
  ultimately show ?thesis by (simp add: copy_frame_def Let_def)
next
  case False
  then have z: "wd = 1920" "ht = 1080" using s by (simp_all add: shown_size_def)
  have "room_for width height = 8355840" using False by (simp add: room_for_def shown_size_def align16_eq)
  then have l: "3110400 \<le> length mem" using room by simp
  obtain w h where wh: "width = int w" "height = int h" using f by (metis frame_ok_def less_imp_le nonneg_int_cases)
  have h: "1920 < w" "w \<le> 32768" "even w" "34 \<le> h" "h \<le> 32768" "even h" "w * h + w * h div 2 \<le> length frame"
    using f False wh by (simp_all add: frame_ok_def nat_mult_distrib)
  from scale_1080 [OF h l] show ?thesis using False z wh by (auto simp: copy_frame_def)
qed

lemma create_nv12_bo:
  assumes laws: "drm_laws dr" and c: "create_sp_bo dr fd wd ht 16 32 format 0 w = (b, w')" and m: "R_map MAP_FAILED \<notin># dw_live w"
    and st: "\<exists>q. dw_stray w = st @ replicate q (R_map MAP_FAILED)"
  shows "dw_live w' = opt_bo_owned b + dw_live w" "R_map MAP_FAILED \<notin># dw_live w'" "\<exists>q. dw_stray w' = st @ replicate q (R_map MAP_FAILED)"
    and "x \<in> set_option b \<Longrightarrow> bo_ok x \<and> 4 * unat wd * unat ht \<le> length (dw_pix w' (bo_map_addr x))"
    and "K \<le> length (dw_pix w a) \<Longrightarrow> K \<le> 4 * unat wd * unat ht \<Longrightarrow> K \<le> length (dw_pix w' a)"
proof -
  note e = create_sp_bo_effect [OF laws c m]
  have area: "4 * unat wd * unat ht \<le> unat (bo_size x)" if "b = Some x" for x
  proof -
    have "4 * unat wd * unat ht \<le> unat (bo_pitch x) * unat ht" using e that by (intro mult_le_mono1) auto
    also have "\<dots> \<le> unat (bo_size x)" using e that by auto
    finally show ?thesis .
  qed
  show "dw_live w' = opt_bo_owned b + dw_live w" using e by (auto simp: opt_bo_owned_def split: option.splits)
  then show "R_map MAP_FAILED \<notin># dw_live w'" using m e bo_owned_mapped by (auto simp: opt_bo_owned_def split: option.splits)
  show "\<exists>q. dw_stray w' = st @ replicate q (R_map MAP_FAILED)"
  proof -
    obtain q where q: "dw_stray w = st @ replicate q (R_map MAP_FAILED)" using st by blast
    have "dw_stray w' = dw_stray w \<or> dw_stray w' = dw_stray w @ [R_map MAP_FAILED]" using e by (auto split: option.splits)
    with q have "dw_stray w' = st @ replicate q (R_map MAP_FAILED) \<or> dw_stray w' = st @ replicate (Suc q) (R_map MAP_FAILED)"
      by (auto simp: replicate_append_same)
    then show ?thesis by blast
  qed
  show "bo_ok x \<and> 4 * unat wd * unat ht \<le> length (dw_pix w' (bo_map_addr x))" if "x \<in> set_option b"
    using e that area by (cases b) auto
  show "K \<le> length (dw_pix w' a)" if "K \<le> length (dw_pix w a)" "K \<le> 4 * unat wd * unat ht"
    using e that area by (cases b) auto
qed

lemma shown_size_words:
  assumes "frame_ok width height frame" "shown_size width height = (wd, ht)"
  shows "4 * unat (word_of_int (align16 wd) :: u32) * unat (word_of_int (align16 ht) :: u32) = room_for width height"
proof -
  have b: "0 < wd" "wd \<le> 1920" "0 < ht" "ht \<le> 32752"
    using assms by (auto simp: frame_ok_def shown_size_def split: if_splits)
  then have r: "0 \<le> align16 wd" "align16 wd < 2 ^ 32" "0 \<le> align16 ht" "align16 ht < 2 ^ 32"
    using align16_bounds(1,2) [of wd] align16_bounds(1,2) [of ht] by simp_all
  have "unat (word_of_int (align16 wd) :: u32) = nat (align16 wd)" "unat (word_of_int (align16 ht) :: u32) = nat (align16 ht)"
    using r by (simp_all add: unsigned_of_int take_bit_int_eq_self)
  then show ?thesis using assms(2) r by (simp add: room_for_def nat_mult_distrib)
qed

lemma frame_buffers_keeps:
  assumes laws: "drm_laws dr" and acc: "dsp_account L st g w" and ready: "dsp_ready width height g w"
    and f: "frame_ok width height frame" "shown_size width height = (wd, ht)"
  shows "\<exists>go g1 w1. frame_buffers dr (align16 wd) (align16 ht) g w = Some (go, g1, w1) \<and> dsp_account L st g1 w1 \<and>
    (go \<longrightarrow> dsp_ready width height g1 w1 \<and> nextbo g1 \<noteq> None)"
proof (cases "bo0 g")
  case (Some b)
  with acc ready show ?thesis by (simp add: frame_buffers_def)
next
  case None
  then have n: "bo1 g = None" "nextbo g = None" using ready by (auto simp: dsp_ready_def)
  obtain d where d: "dd_dev g = Some d" "dev_wf d" "crtcs d \<noteq> []" using acc by (auto simp: dsp_account_def)
  let ?create = "create_sp_bo dr (sd_fd d) (word_of_int (align16 wd)) (word_of_int (align16 ht)) 16 32 DRM_FORMAT_NV12 0"
  obtain b0 w1 where 1: "?create w = (b0, w1)" by (metis prod.exhaust)
  obtain b1 w2 where 2: "?create w1 = (b1, w2)" by (metis prod.exhaust)
  have m: "R_map MAP_FAILED \<notin># dw_live w" "\<exists>q. dw_stray w = st @ replicate q (R_map MAP_FAILED)" using acc by (auto simp: dsp_account_def)
  note size = shown_size_words [OF f]
  note e1 = create_nv12_bo [OF laws 1 m, unfolded size]
  note e2 = create_nv12_bo [OF laws 2 e1(2,3), unfolded size]
  let ?g = "g\<lparr>bo0 := b0, bo1 := b1\<rparr>"
  have "dw_live w2 = dsp_owned ?g + L"
    using e1(1) e2(1) acc None n by (simp add: dsp_account_def dsp_owned_def opt_bo_owned_def [of None] ac_simps)
  then have acc': "dsp_account L st (?g\<lparr>nextbo := x\<rparr>) w2" for x
    using e2(2,3) e1(4) e2(4) d by (auto simp: dsp_account_def dsp_owned_def)
  from this [of "nextbo g"] have acc0: "dsp_account L st ?g w2" by simp
  have rm: "room_for width height \<le> length (dw_pix w2 (bo_map_addr b))" if "b \<in> set_option b0 \<union> set_option b1" for b
    using that e1(4) e2(4) e2(5) by auto
  then have "dsp_ready width height (?g\<lparr>nextbo := Some False\<rparr>) w2" if "b0 \<noteq> None" "b1 \<noteq> None"
    using ready that by (auto simp: dsp_ready_def)
  with 1 2 None d(1) acc0 acc' [of "Some False"] show ?thesis by (auto simp: frame_buffers_def Let_def)
qed

lemma frame_fb_effect:
  assumes laws: "drm_laws dr" and f: "frame_fb dr width height b w = ((rc, b'), w')"
  shows "dw_live w = bo_owned b + M \<Longrightarrow> dw_live w' = bo_owned b' + M" "dw_stray w' = dw_stray w" "dw_pix w' = dw_pix w"
    "bo_ok b' = bo_ok b" "bo_map_addr b' = bo_map_addr b" "rc \<noteq> 0 \<Longrightarrow> b' = b" "rc = 0 \<Longrightarrow> bo_fb_id b' \<noteq> 0"
proof -
  have "(dw_live w = bo_owned b + M \<longrightarrow> dw_live w' = bo_owned b' + M) \<and> dw_stray w' = dw_stray w \<and> dw_pix w' = dw_pix w \<and>
      bo_ok b' = bo_ok b \<and> bo_map_addr b' = bo_map_addr b \<and> (rc \<noteq> 0 \<longrightarrow> b' = b) \<and> (rc = 0 \<longrightarrow> bo_fb_id b' \<noteq> 0)"
  proof (cases "bo_fb_id b = 0")
    case True
    then obtain ps where a: "add_fb dr b (bo_format b) ps w = ((rc, b'), w')" using f by (auto simp: frame_fb_def)
    note e = add_fb_effect [OF laws a True]
    have "b' = b" if "rc \<noteq> 0"
    proof -
      have "bo_fb_id b' = bo_fb_id b" using e(6) that True by simp
      with e(4) have "b' = b\<lparr>bo_fb_id := bo_fb_id b\<rparr>" by simp
      then show ?thesis by simp
    qed
    moreover have "bo_map_addr b' = bo_map_addr b" using e(4) by (metis sp_bo.select_convs(11) sp_bo.surjective sp_bo.update_convs(9))
    ultimately show ?thesis using e(1,2,3,5,6) by blast
  next
    case False
    with f show ?thesis by (auto simp: frame_fb_def)
  qed
  then show "dw_live w = bo_owned b + M \<Longrightarrow> dw_live w' = bo_owned b' + M" "dw_stray w' = dw_stray w" "dw_pix w' = dw_pix w"
    "bo_ok b' = bo_ok b" "bo_map_addr b' = bo_map_addr b" "rc \<noteq> 0 \<Longrightarrow> b' = b" "rc = 0 \<Longrightarrow> bo_fb_id b' \<noteq> 0" by blast+
qed

lemma put_bo_owned:
  assumes "(if second then bo1 g else bo0 g) = Some b"
  obtains X where "dsp_owned g = bo_owned b + X" "\<And>b'. dsp_owned (put_bo second b' g) = bo_owned b' + X"
proof -
  let ?X = "(case dd_dev g of None \<Rightarrow> {#} | Some d \<Rightarrow> dev_owned d) + (case dd_plane g of None \<Rightarrow> {#} | Some a \<Rightarrow> {#R_mem a#}) +
     opt_bo_owned (if second then bo0 g else bo1 g)"
  have "dsp_owned g = bo_owned b + ?X" using assms by (cases second) (simp_all add: dsp_owned_def opt_bo_owned_def [of "Some b"])
  moreover have "dsp_owned (put_bo second b' g) = bo_owned b' + ?X" for b'
    by (simp add: dsp_owned_def put_bo_def opt_bo_owned_def [of "Some b'"])
  ultimately show thesis using that by blast
qed

lemma put_bo_simps [simp]:
  "dd_dev (put_bo s b g) = dd_dev g" "test_crtc (put_bo s b g) = test_crtc g" "test_plane (put_bo s b g) = test_plane g"
  "nextbo (put_bo s b g) = nextbo g"
  by (simp_all add: put_bo_def)

lemma show_frame_keeps:
  assumes acc: "dsp_account L st g w" and ready: "dsp_ready width height g w" and "nextbo g \<noteq> None"
  shows "\<exists>r g' w'. show_frame dr wd ht b g w = Some (r, g', w') \<and> dsp_account L st g' w' \<and> dsp_ready width height g' w'"
proof -
  obtain d k where d: "dd_dev g = Some d" "dev_wf d" "crtcs d \<noteq> []" "test_plane g = Some k" "k < length (planes d)" "test_crtc g = Some 0"
    using acc ready by (auto simp: dsp_account_def dsp_ready_def)
  then obtain cr where cr: "sc_crtc (crtcs d ! 0) = Some cr" using dev_wf_nth(3) [of d 0] by auto
  have "\<forall>p\<in>set (planes d). sp_plane p \<noteq> None" using d(2) by (simp add: dev_wf_def)
  then obtain p where p: "sp_plane (planes d ! k) = Some p" using nth_mem [OF d(5)] by blast
  obtain rc w1 where 1: "call (dr_setplane dr (sd_fd d) (plane_id p) (crtc_id cr) (bo_fb_id b)
      [0, 0, align16 wd, align16 ht, 0, 0, push_bit 16 wd, push_bit 16 ht]) w = (rc, w1)" by (metis prod.exhaust)
  note e = call_keeps [OF 1]
  have "dsp_account L st (g\<lparr>nextbo := x\<rparr>) w1" for x using acc e by (auto simp: dsp_account_def dsp_owned_def)
  moreover have "dsp_account L st g w1" using acc e by (auto simp: dsp_account_def)
  moreover have "dsp_ready width height g w1" "dsp_ready width height (g\<lparr>nextbo := Some y\<rparr>) w1" for y
    using ready e assms(3) by (auto simp: dsp_ready_def)
  ultimately show ?thesis using d cr p 1 by (auto simp: show_frame_def)
qed

lemma drmDspFrame_keeps:
  assumes laws: "drm_laws dr" and acc: "dsp_account L st g w" and ready: "dsp_ready width height g w" and f: "frame_ok width height frame"
  shows "\<exists>r g' w'. drmDspFrame dr width height frame fmt g w = Some (r, g', w') \<and> dsp_account L st g' w' \<and>
    (r \<noteq> Some (-1) \<longrightarrow> dsp_ready width height g' w')"
proof -
  obtain wd ht where s: "shown_size width height = (wd, ht)" by (metis prod.exhaust)
  from frame_buffers_keeps [OF laws acc ready f s] obtain go g1 w1 where
    1: "frame_buffers dr (align16 wd) (align16 ht) g w = Some (go, g1, w1)" "dsp_account L st g1 w1"
    "go \<longrightarrow> dsp_ready width height g1 w1 \<and> nextbo g1 \<noteq> None" by blast
  show ?thesis
  proof (cases "fmt = DRM_FORMAT_NV12 \<and> go")
    case False
    with 1 s acc show ?thesis by (auto simp: drmDspFrame_def shown_size_def)
  next
    case True
    with 1 have r1: "dsp_ready width height g1 w1" "nextbo g1 \<noteq> None" by simp_all
    then obtain second where "nextbo g1 = Some second" by blast
    with r1 obtain b where b: "nextbo g1 = Some second" "(if second then bo1 g1 else bo0 g1) = Some b"
      by (cases second) (auto simp: dsp_ready_def)
    then have "b \<in> set_option (bo0 g1) \<union> set_option (bo1 g1)" by (cases second) auto
    with r1 have room: "room_for width height \<le> length (dw_pix w1 (bo_map_addr b))" and ok: "bo_ok b"
      using 1(2) by (auto simp: dsp_ready_def dsp_account_def)
    from copy_frame_fits [OF f s room] obtain mem where
      2: "copy_frame width height wd ht frame (dw_pix w1 (bo_map_addr b)) = Some mem" "length mem = length (dw_pix w1 (bo_map_addr b))" by blast
    let ?w = "w1\<lparr>dw_pix := (dw_pix w1)(bo_map_addr b := mem)\<rparr>"
    obtain rc b' w2 where 3: "frame_fb dr wd ht b ?w = ((rc, b'), w2)" by (metis prod.exhaust)
    obtain X where X: "dsp_owned g1 = bo_owned b + X" "\<And>b'. dsp_owned (put_bo second b' g1) = bo_owned b' + X"
      using put_bo_owned [OF b(2)] by blast
    have l1: "dw_live ?w = bo_owned b + (X + L)" using 1(2) X by (simp add: dsp_account_def)
    note e = frame_fb_effect [OF laws 3]
    have "dw_live w2 = bo_owned b' + (X + L)" by (rule e(1) [OF l1])
    moreover have "R_map MAP_FAILED \<notin># X + L" using 1(2) X by (auto simp: dsp_account_def)
    moreover have "bo_ok b'" using e(4) ok by simp
    ultimately have acc2: "dsp_account L st (put_bo second b' g1) w2"
      using 1(2) X(2) e(2) bo_owned_mapped [of b'] by (auto simp: dsp_account_def put_bo_def split: if_splits)
    have ready2: "dsp_ready width height (put_bo second b' g1) w2"
      using r1(1) e(3,5) 2(2) b(2) by (auto simp: dsp_ready_def put_bo_def split: if_splits)
    have "put_bo second b g1 = g1" using b(2) by (auto simp: put_bo_def)
    with acc2 ready2 e(6) have "rc \<noteq> 0 \<Longrightarrow> dsp_account L st g1 w2 \<and> dsp_ready width height g1 w2" by simp
    moreover obtain r g' w' where "show_frame dr wd ht b' (put_bo second b' g1) w2 = Some (r, g', w')" "dsp_account L st g' w'" "dsp_ready width height g' w'"
      using show_frame_keeps [OF acc2 ready2, of dr wd ht b'] b(1) by auto
    moreover have "(if width > 1920 then (1920, 1080) else (width, height)) = (wd, ht)" using s by (simp add: shown_size_def)
    ultimately show ?thesis using True 1(1) b 2(1) 3 by (auto simp: drmDspFrame_def)
  qed
qed

section \<open>Closing\<close>

text \<open>The framebuffer is removed twice, the second time when it is gone.\<close>

lemma drop_bo_effect:
  assumes ok: "bo_ok b" and l: "dw_live w = bo_owned b + M" and fb: "R_fb (bo_fb_id b) \<notin># M"
  shows "dw_live (drop_bo dr (Some b) w) = M" "dw_stray (drop_bo dr (Some b) w) = dw_stray w @ [R_fb (bo_fb_id b)]"
proof -
  define w1 where "w1 = release dr (R_fb (bo_fb_id b)) w"
  have "dw_live (free_sp_bo dr b w1) = M \<and> dw_stray (free_sp_bo dr b w1) = dw_stray w @ [R_fb (bo_fb_id b)]"
  proof (cases "bo_fb_id b = 0")
    case True
    have "R_fb (bo_fb_id b) \<notin># dw_live w" using l fb True by (auto simp: bo_owned_def)
    note e = release_stray [OF this, of dr, folded w1_def]
    with free_sp_bo_effect [OF ok, of w1 M dr] l show ?thesis by simp
  next
    case False
    define w2 where "w2 = release dr (R_map (bo_map_addr b)) w1"
    define w3 where "w3 = release dr (R_fb (bo_fb_id b)) w2"
    define w4 where "w4 = release dr (R_dumb (bo_handle b)) w3"
    have "dw_live w = add_mset (R_fb (bo_fb_id b)) ({#R_map (bo_map_addr b), R_dumb (bo_handle b), R_mem (bo_addr b)#} + M)"
      using l False by (simp add: bo_owned_def)
    note e1 = release_live [OF this, of dr, folded w1_def]
    have "dw_live w1 = add_mset (R_map (bo_map_addr b)) ({#R_dumb (bo_handle b), R_mem (bo_addr b)#} + M)" using e1 by simp
    note e2 = release_live [OF this, of dr, folded w2_def]
    have "R_fb (bo_fb_id b) \<notin># dw_live w2" using e2 fb by auto
    note e3 = release_stray [OF this, of dr, folded w3_def]
    have "dw_live w3 = add_mset (R_dumb (bo_handle b)) (add_mset (R_mem (bo_addr b)) M)" using e2 e3 by simp
    note e4 = release_live [OF this, of dr, folded w4_def]
    have "free_sp_bo dr b w1 = release dr (R_mem (bo_addr b)) w4"
      using ok False by (simp add: free_sp_bo_def Let_def w2_def w3_def w4_def bo_ok_def)
    with release_live [OF e4(1), of dr] e1 e2 e3 e4 show ?thesis by simp
  qed
  then show "dw_live (drop_bo dr (Some b) w) = M" "dw_stray (drop_bo dr (Some b) w) = dw_stray w @ [R_fb (bo_fb_id b)]"
    by (simp_all add: drop_bo_def w1_def)
qed

text \<open>The kernel numbers framebuffers from 1 on and does not give out a number that is in use.\<close>

definition fb_numbers :: "'s dw \<Rightarrow> bool" where
  "fb_numbers w \<longleftrightarrow> R_fb 0 \<notin># dw_live w \<and> (\<forall>n. count (dw_live w) (R_fb n) \<le> 1)"

lemma fb_numbers_bo:
  assumes "fb_numbers w" and "dw_live w = bo_owned b + M"
  shows "R_fb (bo_fb_id b) \<notin># M"
proof (cases "bo_fb_id b = 0")
  case True
  with assms show ?thesis by (auto simp: fb_numbers_def)
next
  case False
  then have "count (bo_owned b) (R_fb (bo_fb_id b)) = 1" by (simp add: bo_owned_def)
  moreover have "count (dw_live w) (R_fb (bo_fb_id b)) \<le> 1" using assms(1) by (simp add: fb_numbers_def)
  ultimately show ?thesis using assms(2) by (simp add: not_in_iff)
qed

definition opt_fb :: "sp_bo option \<Rightarrow> res list" where
  "opt_fb b = (case b of None \<Rightarrow> [] | Some x \<Rightarrow> [R_fb (bo_fb_id x)])"

lemma drop_opt_bo:
  assumes "\<forall>x\<in>set_option b. bo_ok x" and "dw_live w = opt_bo_owned b + M" and "\<forall>x\<in>set_option b. R_fb (bo_fb_id x) \<notin># M"
  shows "dw_live (drop_bo dr b w) = M" "dw_stray (drop_bo dr b w) = dw_stray w @ opt_fb b"
  using assms drop_bo_effect [of _ w M dr]
  by (cases b; simp add: opt_bo_owned_def opt_fb_def drop_bo_def [of dr None])+

lemma deInitDrmDsp_effect:
  assumes acc: "dsp_account L st g w" and fb: "fb_numbers w"
  shows "\<exists>w' m. deInitDrmDsp dr g w = Some (no_dsp, w') \<and> dw_live w' = L \<and>
    dw_stray w' = st @ replicate m (R_map MAP_FAILED) @ opt_fb (bo0 g) @ opt_fb (bo1 g)"
proof -
  obtain d m where d: "dd_dev g = Some d" "dev_wf d" "dw_stray w = st @ replicate m (R_map MAP_FAILED)" using acc by (auto simp: dsp_account_def)
  have l: "dw_live w = (case dd_plane g of None \<Rightarrow> {#} | Some a \<Rightarrow> {#R_mem a#}) + (opt_bo_owned (bo0 g) + (opt_bo_owned (bo1 g) + (dev_owned d + L)))"
  proof -
    have "dw_live w = dsp_owned g + L" using acc unfolding dsp_account_def by (rule conjunct1)
    then show ?thesis unfolding dsp_owned_def d(1) by (simp add: ac_simps)
  qed
  define w1 where "w1 = (case dd_plane g of None \<Rightarrow> w | Some a \<Rightarrow> release dr (R_mem a) w)"
  have w1: "dw_live w1 = opt_bo_owned (bo0 g) + (opt_bo_owned (bo1 g) + (dev_owned d + L))" "dw_stray w1 = dw_stray w"
    using l release_live [of w _ _ dr] by (cases "dd_plane g"; simp add: w1_def)+
  define w2 where "w2 = drop_bo dr (bo0 g) w1"
  have n0: "R_fb (bo_fb_id x) \<notin># opt_bo_owned (bo1 g) + (dev_owned d + L)" if "bo0 g = Some x" for x
    using fb_numbers_bo [OF fb, of x] l that by (auto simp: opt_bo_owned_def)
  have w2: "dw_live w2 = opt_bo_owned (bo1 g) + (dev_owned d + L)" "dw_stray w2 = dw_stray w @ opt_fb (bo0 g)"
    using drop_opt_bo [OF _ w1(1), of dr] n0 acc w1(2) by (auto simp: w2_def dsp_account_def)
  define w3 where "w3 = drop_bo dr (bo1 g) w2"
  have n1: "R_fb (bo_fb_id x) \<notin># dev_owned d + L" if "bo1 g = Some x" for x
  proof -
    have "dw_live w = bo_owned x + ((case dd_plane g of None \<Rightarrow> {#} | Some a \<Rightarrow> {#R_mem a#}) + opt_bo_owned (bo0 g) + (dev_owned d + L))"
      using l that by (simp add: opt_bo_owned_def [of "Some x"] ac_simps)
    from fb_numbers_bo [OF fb this] show ?thesis by auto
  qed
  have w3: "dw_live w3 = dev_owned d + L" "dw_stray w3 = dw_stray w @ opt_fb (bo0 g) @ opt_fb (bo1 g)"
    using drop_opt_bo [OF _ w2(1), of dr] n1 acc w2(2) by (auto simp: w3_def dsp_account_def)
  obtain w4 where "destroy_sp_dev dr d w3 = Some w4" "dw_live w4 = L" "dw_stray w4 = dw_stray w3"
    using destroy_effect [OF dev_wf_ok [OF d(2)] w3(1), of dr] by blast
  with d w3(2) show ?thesis by (auto simp: deInitDrmDsp_def w1_def w2_def w3_def)
qed

section \<open>Sessions\<close>

lemma last_nv12_Some:
  assumes "last_nv12 ps (shown_planes ps) = Some k"
  shows "k < length ps" "can_show 0 (ps ! k)" "takes_nv12 (ps ! k)" "\<forall>j<length ps. can_show 0 (ps ! j) \<and> takes_nv12 (ps ! j) \<longrightarrow> j \<le> k"
proof -
  let ?js = "filter (\<lambda>k. takes_nv12 (ps ! k)) (shown_planes ps)"
  have js: "?js \<noteq> []" "k = last ?js" using assms by (auto simp: last_nv12_def Let_def split: if_splits)
  then have "k \<in> set ?js" using last_in_set [OF js(1)] by (simp only:)
  then show "k < length ps" "can_show 0 (ps ! k)" "takes_nv12 (ps ! k)" by (auto simp: shown_planes_def)
  have "sorted ?js" by (simp add: shown_planes_def sorted_wrt_filter)
  then have "\<forall>j\<in>set ?js. j \<le> k" using js by (metis sorted_append sorted_simps(2) append_butlast_last_id in_set_conv_decomp le_refl set_ConsD Un_iff set_append empty_iff list.set(1))
  then show "\<forall>j<length ps. can_show 0 (ps ! j) \<and> takes_nv12 (ps ! j) \<longrightarrow> j \<le> k" by (simp add: shown_planes_def)
qed

lemma last_nv12_None:
  "last_nv12 ps (shown_planes ps) = None \<Longrightarrow> j < length ps \<Longrightarrow> \<not> (can_show 0 (ps ! j) \<and> takes_nv12 (ps ! j))"
  by (auto simp: last_nv12_def shown_planes_def Let_def filter_empty_conv split: if_splits)

text \<open>Frames of one size, up to the first one that is refused.\<close>

primrec show_frames :: "'s drm \<Rightarrow> int \<Rightarrow> int \<Rightarrow> u8 list list \<Rightarrow> drmDsp \<Rightarrow> 's dw \<Rightarrow> (drmDsp \<times> 's dw) option" where
  "show_frames dr width height [] g w = Some (g, w)"
| "show_frames dr width height (f # fs) g w = (case drmDspFrame dr width height f DRM_FORMAT_NV12 g w of
     None \<Rightarrow> None
   | Some (r, g1, w1) \<Rightarrow> if r = Some (-1) then Some (g1, w1) else show_frames dr width height fs g1 w1)"

lemma show_frames_keeps:
  assumes laws: "drm_laws dr" and "dsp_account L st g w" "dsp_ready width height g w" "\<forall>f\<in>set fs. frame_ok width height f"
  shows "\<exists>g' w'. show_frames dr width height fs g w = Some (g', w') \<and> dsp_account L st g' w'"
  using assms(2-4)
proof (induction fs arbitrary: g w)
  case (Cons f fs)
  have "frame_ok width height f" using Cons.prems(3) by simp
  from drmDspFrame_keeps [OF laws Cons.prems(1,2) this, of DRM_FORMAT_NV12] obtain r g1 w1 where
    "drmDspFrame dr width height f DRM_FORMAT_NV12 g w = Some (r, g1, w1)" "dsp_account L st g1 w1" "r \<noteq> Some (-1) \<longrightarrow> dsp_ready width height g1 w1"
    by blast
  with Cons.IH [of g1 w1] Cons.prems(3) show ?case by auto
qed simp

end
