(* ===== verification/DrmDisplay.thy ===== *)
theory DrmDisplay
  imports DrmDsp
begin

text \<open>
  What the display code guarantees from opening to closing, and a small display that fulfils what the code relies on: one
  connector with a picture of 2 by 1, one encoder, one controller and one plane.
\<close>

section \<open>A small display\<close>

definition demo_mode :: drm_mode where
  "demo_mode = \<lparr>hdisplay = 2, vdisplay = 1, mode_type = 8\<rparr>"

text \<open>The state counts the objects that were handed out.\<close>

definition demo_drm :: "nat drm" where
  "demo_drm = \<lparr>dr_open = (\<lambda>e. (3, e)), dr_calloc = (\<lambda>e. (Some (Suc e), Suc e)), dr_cap = (\<lambda>_ _ e. (0, e)),
     dr_resources = (\<lambda>_ e. (Some (1, [7], [8], [9]), e)),
     dr_connector = (\<lambda>_ i e. (Some \<lparr>cn_ptr = 2, connector_id = i, connected = True, cn_modes = [demo_mode], cn_encoder_id = 0\<rparr>, e)),
     dr_encoder = (\<lambda>_ i e. (Some \<lparr>en_ptr = 3, encoder_id = i, en_crtc_id = 0\<rparr>, e)),
     dr_crtc = (\<lambda>_ i e. (Some \<lparr>cr_ptr = 4, crtc_id = i, crtc_mode = demo_mode\<rparr>, e)),
     dr_plane_resources = (\<lambda>_ e. (Some (5, [10]), e)),
     dr_plane = (\<lambda>_ i e. (Some \<lparr>pl_ptr = 6, plane_id = i, pl_crtc_id = 0, possible_crtcs = 1, pl_formats = [DRM_FORMAT_NV12, DRM_FORMAT_XRGB8888]\<rparr>, e)),
     dr_props = (\<lambda>_ _ e. (Some 7, e)),
     dr_create = (\<lambda>_ h wd bpp _ e. if unat wd * unat bpp < 2 ^ 16 \<and> unat h < 2 ^ 10
        then ((0, 1, word_of_nat ((unat wd * unat bpp + 7) div 8), word_of_nat ((unat wd * unat bpp + 7) div 8 * unat h)), e) else ((-1, 0, 0, 0), e)),
     dr_map = (\<lambda>_ _ e. ((0, 0), e)), dr_mmap = (\<lambda>_ _ _ e. (Some (2 * e + 2), Suc e)),
     dr_addfb = (\<lambda>_ _ _ _ _ _ e. ((0, word_of_nat (2 * e + 1)), Suc e)),
     dr_setcrtc = (\<lambda>_ _ _ _ _ e. (0, e)), dr_setplane = (\<lambda>_ _ _ _ _ e. (0, e)), dr_release = (\<lambda>_ e. e)\<rparr>"

lemma demo_laws: "drm_laws demo_drm"
proof -
  have "2 * e + 2 \<noteq> MAP_FAILED" for e :: nat
  proof -
    have "odd MAP_FAILED" by (simp add: MAP_FAILED_def)
    then show ?thesis by (metis even_add even_mult_iff even_numeral)
  qed
  moreover have "(word_of_nat (2 * e + 1) :: u32) \<noteq> 0" for e :: nat
  proof
    assume "(word_of_nat (2 * e + 1) :: u32) = 0"
    then have "2 ^ 32 dvd 2 * e + 1" by (simp only: word_of_nat_eq_0_iff, simp)
    then have "even (2 * e + 1)" by (rule dvd_trans [rotated]) simp
    then show False by simp
  qed
  moreover have "unat (word_of_nat ((unat wd * unat bpp + 7) div 8) :: u32) = (unat wd * unat bpp + 7) div 8 \<and>
      unat (word_of_nat ((unat wd * unat bpp + 7) div 8 * unat h) :: u64) = (unat wd * unat bpp + 7) div 8 * unat h \<and>
      (unat wd * unat bpp + 7) div 8 * unat h < 2 ^ 32"
    if "unat wd * unat bpp < 2 ^ 16" "unat h < 2 ^ 10" for wd bpp h :: u32
  proof -
    have "(unat wd * unat bpp + 7) div 8 < 2 ^ 14" using that(1) by simp
    moreover from this have "(unat wd * unat bpp + 7) div 8 * unat h \<le> 2 ^ 14 * 2 ^ 10" using that(2) by (intro mult_le_mono) simp_all
    ultimately have "(unat wd * unat bpp + 7) div 8 < 2 ^ 32" "(unat wd * unat bpp + 7) div 8 * unat h < 2 ^ 64"
      "(unat wd * unat bpp + 7) div 8 * unat h < 2 ^ 32" by simp_all
    then show ?thesis by (simp add: unsigned_of_nat take_bit_nat_eq_self del: of_nat_mult)
  qed
  ultimately show ?thesis by (auto simp: drm_laws_def demo_drm_def split: if_splits)
qed

definition demo_world :: "nat dw" where
  "demo_world = \<lparr>dw_env = 100, dw_live = {#}, dw_stray = [], dw_pix = (\<lambda>_. [])\<rparr>"

lemma demo_calls [simp]:
  "dr_create demo_drm fd 1 2 32 0 e = ((0, 1, 8, 8), e)" "dr_map demo_drm fd h e = ((0, 0), e)" "dr_mmap demo_drm sz fd off e = (Some (2 * e + 2), Suc e)"
  "dr_addfb demo_drm fd wd ht f ps fl e = ((0, word_of_nat (2 * e + 1)), Suc e)" "dr_setcrtc demo_drm fd i fb cn md e = (0, e)"
  "dr_setplane demo_drm fd i ci fb geometry e = (0, e)"
  "dr_open demo_drm e = (3, e)" "dr_calloc demo_drm e = (Some (Suc e), Suc e)" "dr_cap demo_drm fd c e = (0, e)"
  "dr_resources demo_drm fd e = (Some (1, [7], [8], [9]), e)"
  "dr_connector demo_drm fd i e = (Some \<lparr>cn_ptr = 2, connector_id = i, connected = True, cn_modes = [demo_mode], cn_encoder_id = 0\<rparr>, e)"
  "dr_encoder demo_drm fd i e = (Some \<lparr>en_ptr = 3, encoder_id = i, en_crtc_id = 0\<rparr>, e)"
  "dr_crtc demo_drm fd i e = (Some \<lparr>cr_ptr = 4, crtc_id = i, crtc_mode = demo_mode\<rparr>, e)"
  "dr_plane_resources demo_drm fd e = (Some (5, [10]), e)"
  "dr_plane demo_drm fd i e = (Some \<lparr>pl_ptr = 6, plane_id = i, pl_crtc_id = 0, possible_crtcs = 1, pl_formats = [DRM_FORMAT_NV12, DRM_FORMAT_XRGB8888]\<rparr>, e)"
  "dr_props demo_drm fd i e = (Some 7, e)" "dr_release demo_drm r e = e"
  by (simp_all add: demo_drm_def)

lemma demo_formats [simp]: "DRM_FORMAT_NV12 = 0x3231564E" "DRM_FORMAT_XRGB8888 = 0x34325258" "DRM_FORMAT_ARGB8888 = 0x34325241" "DRM_FORMAT_RGBA8888 = 0x34324152"
  by (simp_all add: drm_formats)

definition demo_dev :: sp_dev where
  "demo_dev = \<lparr>sd_addr = 101, sd_fd = 3,
     connectors_arr = Some 102, connectors = [Some \<lparr>cn_ptr = 2, connector_id = 7, connected = True, cn_modes = [demo_mode], cn_encoder_id = 0\<rparr>],
     encoders_arr = Some 103, encoders = [Some \<lparr>en_ptr = 3, encoder_id = 8, en_crtc_id = 0\<rparr>],
     crtcs_arr = Some 104, crtcs = [\<lparr>sc_crtc = Some \<lparr>cr_ptr = 4, crtc_id = 9, crtc_mode = demo_mode\<rparr>, pipe = 0, num_planes = 1, scanout = None\<rparr>],
     planes_arr = Some 105, planes = [\<lparr>sp_plane = Some \<lparr>pl_ptr = 6, plane_id = 10, pl_crtc_id = 0, possible_crtcs = 1,
       pl_formats = [DRM_FORMAT_NV12, DRM_FORMAT_XRGB8888]\<rparr>, sp_bo = None, in_use = False, sp_format = DRM_FORMAT_XRGB8888\<rparr>]\<rparr>"

definition demo_live :: "res multiset" where
  "demo_live = {#R_mem 101, R_fd 3, R_mem 102, R_drm 2, R_mem 103, R_drm 3, R_mem 104, R_drm 4, R_mem 105, R_drm 6#}"

lemma demo_created: "create_sp_dev demo_drm demo_world = Some (Some demo_dev, \<lparr>dw_env = 105, dw_live = demo_live, dw_stray = [], dw_pix = (\<lambda>_. [])\<rparr>)"
  by (simp add: create_sp_dev_def dev_connectors_def dev_encoders_def dev_crtcs_def dev_planes_def dev_array_def get_object_def calloc_def call_def
      demo_world_def acquire_def release_def Let_def new_crtcs_def count_plane_def possible_on_def get_supported_format_def no_plane_def demo_dev_def
      demo_live_def add_mset_commute)

lemma demo_screen:
  "\<exists>d w. initialize_screens demo_drm demo_dev \<lparr>dw_env = 105, dw_live = demo_live, dw_stray = [], dw_pix = (\<lambda>_. [])\<rparr> = Some (d, w) \<and>
     planes d = planes demo_dev \<and> crtcs d \<noteq> [] \<and> pipe (crtcs d ! 0) = 0 \<and> num_planes (crtcs d ! 0) = 1 \<and>
     sd_fd d = 3 \<and> sc_crtc (crtcs d ! 0) \<noteq> None \<and> dw_live w = demo_live + {#R_mem 106, R_dumb 1, R_map 214, R_fb 215#} \<and> dw_env w = 108"
  by (simp add: initialize_screens_def screen_step_def find_encoder_def find_crtc_def show_first_def create_sp_bo_def calloc_def call_def acquire_def
      map_sp_bo_def add_fb_sp_bo_def add_fb_def fill_bo_def draw_rect_def draw_pixel_def pixel_bytes_def pick_mode_def DRM_MODE_TYPE_PREFERRED_def
      demo_mode_def Let_def put_byte_def demo_dev_def upt_rec add_mset_commute set_mode_def set_scanout_def)

lemma demo_opened:
  "\<exists>g w1 d. initDrmDsp demo_drm demo_world = Some (0, g, w1) \<and> dd_dev g = Some d \<and> sd_fd d = 3 \<and> sc_crtc (crtcs d ! 0) \<noteq> None \<and>
     sp_plane (planes d ! 0) \<noteq> None \<and> test_plane g = Some 0 \<and> test_crtc g = Some 0 \<and> bo0 g = None \<and> dw_env w1 = 109 \<and>
     dw_live w1 = add_mset (R_mem 109) (demo_live + {#R_mem 106, R_dumb 1, R_map 214, R_fb 215#})"
proof -
  obtain d w where d: "initialize_screens demo_drm demo_dev \<lparr>dw_env = 105, dw_live = demo_live, dw_stray = [], dw_pix = (\<lambda>_. [])\<rparr> = Some (d, w)"
    "planes d = planes demo_dev" "crtcs d \<noteq> []" "pipe (crtcs d ! 0) = 0" "num_planes (crtcs d ! 0) = 1" "sd_fd d = 3" "sc_crtc (crtcs d ! 0) \<noteq> None"
    "dw_live w = demo_live + {#R_mem 106, R_dumb 1, R_map 214, R_fb 215#}" "dw_env w = 108" using demo_screen by blast
  then show ?thesis
    by (simp add: initDrmDsp_def demo_created calloc_def call_def acquire_def pick_plane_def get_sp_plane_def demo_dev_def possible_on_def
        is_supported_format_def demo_live_def no_dsp_def)
qed

text \<open>The two buffers of a display that has just been opened, and two frames in them.\<close>

lemma demo_buffer:
  "\<exists>b w'. create_sp_bo demo_drm 3 16 16 16 32 DRM_FORMAT_NV12 0 w = (Some b, w') \<and> bo_fb_id b = 0 \<and> bo_map_addr b = 2 * dw_env w + 4 \<and>
     length (dw_pix w' (bo_map_addr b)) = 1024 \<and> (\<forall>a. a \<noteq> bo_map_addr b \<longrightarrow> dw_pix w' a = dw_pix w a) \<and> dw_env w' = dw_env w + 2 \<and>
     dw_live w' = dw_live w + {#R_mem (Suc (dw_env w)), R_dumb 1, R_map (2 * dw_env w + 4)#}"
  by (simp add: create_sp_bo_def calloc_def call_def acquire_def map_sp_bo_def demo_drm_def)

lemma demo_frames:
  "\<exists>g w1 g2 w2. initDrmDsp demo_drm demo_world = Some (0, g, w1) \<and>
     show_frames demo_drm 16 16 [replicate 384 0, replicate 384 0] g w1 = Some (g2, w2) \<and> bo0 g2 \<noteq> None \<and> bo1 g2 \<noteq> None \<and> fb_numbers w2"
proof -
  obtain g w1 d where i: "initDrmDsp demo_drm demo_world = Some (0, g, w1)" "dd_dev g = Some d" "sd_fd d = 3" "sc_crtc (crtcs d ! 0) \<noteq> None"
     "sp_plane (planes d ! 0) \<noteq> None" "test_plane g = Some 0" "test_crtc g = Some 0" "bo0 g = None" "dw_env w1 = 109"
     "dw_live w1 = add_mset (R_mem 109) (demo_live + {#R_mem 106, R_dumb 1, R_map 214, R_fb 215#})" using demo_opened by blast
  obtain b0 v where b0: "create_sp_bo demo_drm 3 16 16 16 32 DRM_FORMAT_NV12 0 w1 = (Some b0, v)" "bo_fb_id b0 = 0" "bo_map_addr b0 = 222"
     "length (dw_pix v 222) = 1024" "dw_env v = 111" "dw_live v = dw_live w1 + {#R_mem 110, R_dumb 1, R_map 222#}"
    using demo_buffer [of w1] i(9) by auto
  obtain b1 v' where b1: "create_sp_bo demo_drm 3 16 16 16 32 DRM_FORMAT_NV12 0 v = (Some b1, v')" "bo_fb_id b1 = 0" "bo_map_addr b1 = 226"
     "length (dw_pix v' 226) = 1024" "length (dw_pix v' 222) = 1024" "dw_env v' = 113" "dw_live v' = dw_live v + {#R_mem 112, R_dumb 1, R_map 226#}"
    using demo_buffer [of v] b0(4,5) by auto
  have f0: "frame_buffers demo_drm 16 16 g w1 = Some (True, g\<lparr>bo0 := Some b0, bo1 := Some b1, nextbo := Some False\<rparr>, v')"
    using b0(1) b1(1) i(2,3,8) by (simp add: frame_buffers_def)
  show ?thesis
    using i b0 b1 f0
    by (auto simp: drmDspFrame_def align16_eq copy_frame_def c_div_pos put_bytes_at frame_fb_def add_fb_def call_def acquire_def put_bo_def
        show_frame_def frame_buffers_def fb_numbers_def demo_live_def)
qed

lemma demo_ready: "R_map MAP_FAILED \<notin># dw_live demo_world" "encoders_covered demo_dev" "crtcs demo_dev \<noteq> []" "frame_ok 16 16 (replicate 384 0)"
  by (simp_all add: demo_world_def encoders_covered_def demo_dev_def frame_ok_def align16_eq)

section \<open>Properties\<close>

text \<open>
  Property C19. A display session gives everything back.  For a device that can be opened, with a controller, on
  which no encoder refers to a controller that is not there: after opening, any number of frames of one
  size (up to the first one that is refused) and closing, nothing crashes, no access is outside of a
  buffer, and exactly the resources that were held before are held again.  What was released without
  being there are mappings that had failed and one removal of the framebuffer of each of the two
  buffers, because closing removes it and so does freeing the buffer.
\<close>

theorem display_session_releases:
  assumes "drm_laws dr" and "R_map MAP_FAILED \<notin># dw_live w" and "create_sp_dev dr w = Some (Some d, w0)"
    and "encoders_covered d" and "crtcs d \<noteq> []" and "\<forall>f\<in>set fs. frame_ok width height f"
  shows "\<exists>rc g w1. initDrmDsp dr w = Some (rc, g, w1) \<and>
    (rc = 0 \<or> fs = [] \<longrightarrow> (\<exists>g2 w2. show_frames dr width height fs g w1 = Some (g2, w2) \<and>
       (fb_numbers w2 \<longrightarrow> (\<exists>w3 m. deInitDrmDsp dr g2 w2 = Some (no_dsp, w3) \<and> dw_live w3 = dw_live w \<and>
          dw_stray w3 = dw_stray w @ replicate m (R_map MAP_FAILED) @ opt_fb (bo0 g2) @ opt_fb (bo1 g2)))))"
proof -
  obtain rc g w1 where i: "initDrmDsp dr w = Some (rc, g, w1)" "dsp_account (dw_live w) (dw_stray w) g w1" "bo0 g = None" "bo1 g = None" "nextbo g = None"
    "rc = 0 \<longrightarrow> test_crtc g = Some 0 \<and> test_plane g = last_nv12 (planes d) (shown_planes (planes d)) \<and> test_plane g \<noteq> None \<and>
       num_test_planes g = length (shown_planes (planes d)) \<and> planes (the (dd_dev g)) = mark (set (shown_planes (planes d))) (planes d)"
    using initDrmDsp_result [OF assms(1-5)] by blast
  have ready: "dsp_ready width height g w1" if "rc = 0"
  proof -
    have t: "test_crtc g = Some 0" "test_plane g = last_nv12 (planes d) (shown_planes (planes d))" "test_plane g \<noteq> None"
      "planes (the (dd_dev g)) = mark (set (shown_planes (planes d))) (planes d)" using i(6) that by blast+
    then obtain k where k: "test_plane g = Some k" "last_nv12 (planes d) (shown_planes (planes d)) = Some k" by (metis not_None_eq)
    obtain d' where "dd_dev g = Some d'" using i(2) by (auto simp: dsp_account_def)
    with k(1) t(1,4) last_nv12_Some(1) [OF k(2)] i(3-5) show ?thesis by (simp add: dsp_ready_def)
  qed
  have fin: "\<exists>g2 w2. show_frames dr width height fs g w1 = Some (g2, w2) \<and>
      (fb_numbers w2 \<longrightarrow> (\<exists>w3 m. deInitDrmDsp dr g2 w2 = Some (no_dsp, w3) \<and> dw_live w3 = dw_live w \<and>
          dw_stray w3 = dw_stray w @ replicate m (R_map MAP_FAILED) @ opt_fb (bo0 g2) @ opt_fb (bo1 g2)))" if run: "rc = 0 \<or> fs = []"
  proof -
    obtain g2 w2 where g2: "show_frames dr width height fs g w1 = Some (g2, w2)" "dsp_account (dw_live w) (dw_stray w) g2 w2"
      using show_frames_keeps [OF assms(1) i(2) ready assms(6)] i(2) run by auto
    from g2(1) deInitDrmDsp_effect [OF g2(2), of dr] show ?thesis by simp
  qed
  show ?thesis by (rule exI [of _ rc], rule exI [of _ g], rule exI [of _ w1], rule conjI [OF i(1)], rule impI, rule fin)
qed

theorem display_session_releases_witness:
  "\<exists>g w1 g2 w2 w3. initDrmDsp demo_drm demo_world = Some (0, g, w1) \<and>
     show_frames demo_drm 16 16 [replicate 384 0, replicate 384 0] g w1 = Some (g2, w2) \<and> bo0 g2 \<noteq> None \<and> bo1 g2 \<noteq> None \<and>
     deInitDrmDsp demo_drm g2 w2 = Some (no_dsp, w3) \<and> dw_live w3 = {#}"
proof -
  obtain g w1 g2 w2 where i: "initDrmDsp demo_drm demo_world = Some (0, g, w1)" "bo0 g2 \<noteq> None" "bo1 g2 \<noteq> None" "fb_numbers w2"
    "show_frames demo_drm 16 16 [replicate 384 0, replicate 384 0] g w1 = Some (g2, w2)" using demo_frames by blast
  then have "\<exists>w3. deInitDrmDsp demo_drm g2 w2 = Some (no_dsp, w3) \<and> dw_live w3 = {#}"
    using display_session_releases [OF demo_laws demo_ready(1) demo_created demo_ready(2,3), of "[replicate 384 0, replicate 384 0]" 16 16]
      demo_ready(4) by (auto simp: demo_world_def)
  with i show ?thesis by blast
qed

text \<open>
  Property C34. Opening chooses the right plane.  Under the same conditions opening does not follow a NULL
  pointer: the number of planes that was counted for the first controller is the number of planes that are handed
  out.  It succeeds with the last plane that the first controller can show and that takes NV12, all
  planes of that controller are handed out once and marked as in use, and the others are free.  It
  fails only without memory for the array or when there is no such plane.
\<close>

theorem init_chooses_nv12_plane:
  assumes "drm_laws dr" and "R_map MAP_FAILED \<notin># dw_live w" and "create_sp_dev dr w = Some (Some d, w0)"
    and "encoders_covered d" and "crtcs d \<noteq> []"
  shows "\<exists>rc g w1. initDrmDsp dr w = Some (rc, g, w1) \<and>
    (rc = 0 \<and> num_test_planes g = length (filter (can_show 0) (planes d)) \<and>
       (\<exists>k. test_plane g = Some k \<and> k < length (planes d) \<and> can_show 0 (planes d ! k) \<and> takes_nv12 (planes d ! k) \<and>
          (\<forall>j<length (planes d). can_show 0 (planes d ! j) \<and> takes_nv12 (planes d ! j) \<longrightarrow> j \<le> k)) \<and>
       (\<exists>d1. dd_dev g = Some d1 \<and> length (planes d1) = length (planes d) \<and>
          (\<forall>j<length (planes d). in_use (planes d1 ! j) = can_show 0 (planes d ! j))) \<or>
     rc = -1 \<and> (dd_plane g = None \<or> (\<forall>j<length (planes d). \<not> (can_show 0 (planes d ! j) \<and> takes_nv12 (planes d ! j)))))"
proof -
  have free: "\<forall>p\<in>set (planes d). \<not> in_use p" using created_screens_inv [OF assms(3,2,4)] by blast
  obtain rc g w1 where i: "initDrmDsp dr w = Some (rc, g, w1)" "dsp_account (dw_live w) (dw_stray w) g w1"
    "rc \<noteq> 0 \<longrightarrow> rc = -1 \<and> (dd_plane g = None \<or> last_nv12 (planes d) (shown_planes (planes d)) = None)"
    "rc = 0 \<longrightarrow> test_crtc g = Some 0 \<and> test_plane g = last_nv12 (planes d) (shown_planes (planes d)) \<and> test_plane g \<noteq> None \<and>
       num_test_planes g = length (shown_planes (planes d)) \<and> planes (the (dd_dev g)) = mark (set (shown_planes (planes d))) (planes d)"
    using initDrmDsp_result [OF assms(1-5)] by blast
  show ?thesis
  proof (cases "rc = 0")
    case True
    with i(4) have t: "test_plane g = last_nv12 (planes d) (shown_planes (planes d))" "test_plane g \<noteq> None"
      "num_test_planes g = length (shown_planes (planes d))" "planes (the (dd_dev g)) = mark (set (shown_planes (planes d))) (planes d)" by blast+
    then obtain k where k: "test_plane g = Some k" "last_nv12 (planes d) (shown_planes (planes d)) = Some k" by (metis not_None_eq)
    obtain d1 where d1: "dd_dev g = Some d1" using i(2) by (auto simp: dsp_account_def)
    then have pl: "planes d1 = mark (set (shown_planes (planes d))) (planes d)" using t(4) by simp
    have "in_use (planes d1 ! j) = can_show 0 (planes d ! j)" if "j < length (planes d)" for j
    proof -
      have "\<not> in_use (planes d ! j)" using free that by simp
      with pl that show ?thesis by (auto simp: shown_planes_def)
    qed
    moreover have "length (planes d1) = length (planes d)" using pl by simp
    ultimately show ?thesis using True i(1) t(3) k d1 last_nv12_Some [OF k(2)] shown_planes_length by metis
  next
    case False
    with i last_nv12_None [of "planes d"] show ?thesis by auto
  qed
qed

theorem init_chooses_nv12_plane_witness:
  "\<exists>g w1. initDrmDsp demo_drm demo_world = Some (0, g, w1) \<and> num_test_planes g = 1 \<and> test_plane g = Some 0"
proof -
  obtain g w1 where i: "initDrmDsp demo_drm demo_world = Some (0, g, w1)" using demo_opened by blast
  have "can_show 0 (planes demo_dev ! 0)" "length (planes demo_dev) = 1" by (simp_all add: can_show_def possible_on_def demo_dev_def)
  then have "length (filter (can_show 0) (planes demo_dev)) = 1" by (cases "planes demo_dev") simp_all
  with init_chooses_nv12_plane [OF demo_laws demo_ready(1) demo_created demo_ready(2,3)] i \<open>length (planes demo_dev) = 1\<close>
  show ?thesis by auto
qed

text \<open>
  Property C35. Opening the device is all or nothing.  When it fails, nothing that was acquired on the way is still
  held and nothing is released twice, with one exception: when the memory for the device itself is
  refused, the descriptor stays open.  When it succeeds, destroying the device releases exactly what
  opening acquired.
\<close>

theorem create_destroy_balance:
  "(\<forall>w'. create_sp_dev dr w = Some (None, w') \<longrightarrow> dw_stray w' = dw_stray w \<and>
      (dw_live w' = dw_live w \<or>
       (\<exists>fd w1. call (dr_open dr) w = (fd, w1) \<and> 0 \<le> fd \<and> fst (calloc dr (acquire (R_fd fd) w1)) = None \<and> dw_live w' = add_mset (R_fd fd) (dw_live w)))) \<and>
   (\<forall>d w'. create_sp_dev dr w = Some (Some d, w') \<longrightarrow>
      (\<exists>w2. destroy_sp_dev dr d w' = Some w2 \<and> dw_live w2 = dw_live w \<and> dw_stray w2 = dw_stray w))"
proof (intro conjI allI impI)
  fix w' assume "create_sp_dev dr w = Some (None, w')"
  with create_sp_dev_result [of w dr]
  show "dw_stray w' = dw_stray w" "dw_live w' = dw_live w \<or>
      (\<exists>fd w1. call (dr_open dr) w = (fd, w1) \<and> 0 \<le> fd \<and> fst (calloc dr (acquire (R_fd fd) w1)) = None \<and> dw_live w' = add_mset (R_fd fd) (dw_live w))"
    by (auto simp: dev_result_def)
next
  fix d w' assume "create_sp_dev dr w = Some (Some d, w')"
  with create_sp_dev_result [of w dr] have "dw_live w' = dev_owned d + dw_live w" "dw_stray w' = dw_stray w" "dev_wf d"
    by (auto simp: dev_result_def)
  with destroy_effect [OF dev_wf_ok, of d w' "dw_live w" dr]
  show "\<exists>w2. destroy_sp_dev dr d w' = Some w2 \<and> dw_live w2 = dw_live w \<and> dw_stray w2 = dw_stray w" by simp
qed

theorem create_destroy_balance_witness:
  "\<exists>w' w2. create_sp_dev demo_drm demo_world = Some (Some demo_dev, w') \<and> destroy_sp_dev demo_drm demo_dev w' = Some w2 \<and> dw_live w2 = {#}"
  using create_destroy_balance [of demo_drm demo_world] demo_created by (auto simp: demo_world_def)

text \<open>
  A buffer is never enlarged.  The two buffers have the size of the first frame; a later
  frame whose aligned size does not fit the mapping of the buffer that is next is written beyond its
  end.
\<close>

theorem larger_frame_overflows:
  assumes "bo0 g \<noteq> None" and "nextbo g = Some second" and "(if second then bo1 g else bo0 g) = Some b"
    and "0 < width" "width \<le> 1920" "0 < height"
    and "int (length (dw_pix w (bo_map_addr b))) < align16 width * align16 height * 3 div 2"
    and "align16 width * align16 height * 3 div 2 \<le> int (length frame)"
  shows "drmDspFrame dr width height frame DRM_FORMAT_NV12 g w = None"
proof -
  let ?n = "align16 width * align16 height * 3 div 2"
  have n: "0 < ?n" using assms(7) by linarith
  have "0 \<le> align16 width" "0 \<le> align16 height" using align16_bounds(1) [of width] align16_bounds(1) [of height] assms(4,6) by simp_all
  then have c: "c_div (align16 width * align16 height * 3) 2 = ?n" by (simp add: c_div_pos)
  have "length (take (nat ?n) frame) = nat ?n" using assms(8) n by simp
  then have "put_bytes 0 (take (nat ?n) frame) (dw_pix w (bo_map_addr b)) = None"
    using assms(7) n by (intro put_bytes_out) auto
  then have "copy_frame width height width height frame (dw_pix w (bo_map_addr b)) = None"
    using c n by (simp add: copy_frame_def Let_def)
  with assms(1-5) show ?thesis by (simp add: drmDspFrame_def frame_buffers_def)
qed

definition small_dsp :: drmDsp where
  "small_dsp = no_dsp\<lparr>bo0 := Some small_bo, bo1 := Some small_bo, nextbo := Some False\<rparr>"

theorem larger_frame_overflows_witness:
  "drmDspFrame demo_drm 32 32 (replicate 1536 0) DRM_FORMAT_NV12 small_dsp (demo_world\<lparr>dw_pix := (\<lambda>_. replicate 1024 0)\<rparr>) = None"
  by (rule larger_frame_overflows [where second = False and b = small_bo]) (simp_all add: small_dsp_def small_bo_def align16_eq)

end
