(* ===== verification/MultiFrame.thy ===== *)
theory MultiFrame
  imports Buffers
begin

unbundle bit_operations_syntax

text \<open>
  Adding and averaging raw frames, \<^verbatim>\<open>rkaiq_tool_server/rkaiq/multiframe_process.cpp\<close>.  A frame is an array of 16-bit
  values, the running sum an array of 32-bit values; arrays are lists and \<open>None\<close> is an access outside of an array or
  a signed overflow.
\<close>

section \<open>Operations\<close>

text \<open>An array is updated at one index from its old value there.\<close>

definition modify_at :: "nat \<Rightarrow> ('a \<Rightarrow> 'a) \<Rightarrow> 'a list \<Rightarrow> 'a list option" where
  "modify_at i f xs = (if i < length xs then Some (xs[i := f (xs ! i)]) else None)"

definition read_at :: "'a list \<Rightarrow> nat \<Rightarrow> 'a option" where
  "read_at xs i = (if i < length xs then Some (xs ! i) else None)"

text \<open>The two dump functions read at most \<open>plen\<close> of \<open>len\<close> values for the log.\<close>

definition DumpRawData :: "'a list \<Rightarrow> nat \<Rightarrow> nat \<Rightarrow> nat \<Rightarrow> unit option" where
  "DumpRawData arr offset len plen =
     each_opt (\<lambda>n u. map_option (\<lambda>_. ()) (read_at arr (offset + n))) [0..<min len plen] ()"

definition swap16 :: "u16 \<Rightarrow> u16" where
  "swap16 v = (let a = (ucast v :: u32) in ucast (push_bit 8 a OR drop_bit 8 a))"

definition ConverToLE :: "nat \<Rightarrow> u16 list \<Rightarrow> u16 list option" where
  "ConverToLE len = each_opt (\<lambda>n. modify_at n swap16) [0..<len]"

text \<open>\<^verbatim>\<open>height * width\<close> is computed on \<^verbatim>\<open>int\<close>.\<close>

definition frame_len :: "u16 \<Rightarrow> u16 \<Rightarrow> nat option" where
  "frame_len width height = (let n = unat height * unat width in if n < 2 ^ 31 then Some n else None)"

definition average_shift :: "u8 \<Rightarrow> nat option" where
  "average_shift frameNumber =
     (if frameNumber = 128 then Some 7 else if frameNumber = 64 then Some 6 else if frameNumber = 32 then Some 5
      else if frameNumber = 16 then Some 4 else if frameNumber = 8 then Some 3 else if frameNumber = 4 then Some 2
      else if frameNumber = 2 then Some 1 else None)"

definition average_pixel :: "nat \<Rightarrow> u32 \<Rightarrow> u32" where
  "average_pixel n x = (let roundOffset = (2 ^ (n - 1) :: u16) in drop_bit n (x + ucast roundOffset))"

definition MultiFrameAverage :: "u16 \<Rightarrow> u16 \<Rightarrow> u8 \<Rightarrow> u32 list \<times> u16 list \<Rightarrow> (u32 list \<times> u16 list) option" where
  "MultiFrameAverage width height frameNumber fs = (case average_shift frameNumber of
     None \<Rightarrow> Some fs
   | Some n \<Rightarrow> do {
       len \<leftarrow> frame_len width height;
       each_opt (\<lambda>i (pIn1_pOut, POut). do {
         p \<leftarrow> modify_at i (average_pixel n) pIn1_pOut;
         q \<leftarrow> modify_at i (\<lambda>_. ucast (p ! i)) POut;
         Some (p, q) }) [0..<len] fs })"

text \<open>The value of a pixel of the second frame, with its bytes swapped if the frame is big-endian.\<close>

definition pixel_in :: "bool \<Rightarrow> u16 \<Rightarrow> u16" where
  "pixel_in biToLi v =
     (if biToLi then (push_bit 8 (v AND 0xff) AND 0xff00) OR (drop_bit 8 (v AND 0xff00) AND 0xff) else v AND 0xffff)"

definition MultiFrameAddition :: "u16 \<Rightarrow> u16 \<Rightarrow> bool \<Rightarrow> u16 list \<Rightarrow> u32 list \<Rightarrow> u32 list option" where
  "MultiFrameAddition width height biToLi pIn2 pIn1_pOut = do {
     len \<leftarrow> frame_len width height;
     each_opt (\<lambda>n acc. do { v \<leftarrow> read_at pIn2 n; modify_at n (\<lambda>x. x + ucast (pixel_in biToLi v)) acc }) [0..<len] pIn1_pOut }"

definition FrameU32ToU16 :: "u16 \<Rightarrow> u16 \<Rightarrow> u32 list \<Rightarrow> u16 list \<Rightarrow> u16 list option" where
  "FrameU32ToU16 width height pIn pOut = do {
     len \<leftarrow> frame_len width height;
     each_opt (\<lambda>n acc. do { v \<leftarrow> read_at pIn n; modify_at n (\<lambda>x. ucast (ucast x + v)) acc }) [0..<len] pOut }"

definition FrameU16ToU32 :: "u16 \<Rightarrow> u16 \<Rightarrow> u16 list \<Rightarrow> u32 list \<Rightarrow> u32 list option" where
  "FrameU16ToU32 width height pIn pOut = do {
     len \<leftarrow> frame_len width height;
     each_opt (\<lambda>n acc. do { v \<leftarrow> read_at pIn n; modify_at n (\<lambda>x. x + ucast v) acc }) [0..<len] pOut }"

section \<open>The loops, pixel by pixel\<close>

text \<open>A loop that changes each element once, from its index and old value.\<close>

lemma each_modify:
  assumes "len \<le> length xs" and "\<And>i acc. i < len \<Longrightarrow> f i acc = modify_at i (g i) acc"
  shows "each_opt f [0..<len] xs = Some (map (\<lambda>i. g i (xs ! i)) [0..<len] @ drop len xs)"
  using assms
proof (induction len)
  case (Suc n)
  let ?l = "map (\<lambda>i. g i (xs ! i)) [0..<n]"
  have IH: "each_opt f [0..<n] xs = Some (?l @ drop n xs)" using Suc by simp
  have d: "drop n xs = xs ! n # drop (Suc n) xs" using Suc.prems(1) by (simp add: Cons_nth_drop_Suc)
  have "modify_at n (g n) (?l @ drop n xs) = Some (?l @ g n (xs ! n) # drop (Suc n) xs)"
    using d by (simp add: modify_at_def nth_append list_update_append)
  with Suc.prems(2) IH show ?case by (simp add: each_opt_append)
qed simp

lemma ConverToLE_exact: "len \<le> length buf \<Longrightarrow> ConverToLE len buf = Some (map swap16 (take len buf) @ drop len buf)"
proof -
  assume "len \<le> length buf"
  moreover from this have "map (\<lambda>i. swap16 (buf ! i)) [0..<len] = map swap16 (take len buf)" by (intro nth_equalityI) simp_all
  ultimately show ?thesis unfolding ConverToLE_def by (subst each_modify [of len buf _ "\<lambda>_. swap16"]) simp_all
qed

lemma addition_exact:
  assumes "frame_len width height = Some len" "len \<le> length acc" "len \<le> length frame"
  shows "MultiFrameAddition width height sw frame acc =
    Some (map (\<lambda>i. acc ! i + ucast (pixel_in sw (frame ! i))) [0..<len] @ drop len acc)"
  using each_modify [of len acc _ "\<lambda>i x. x + ucast (pixel_in sw (frame ! i))"] assms
  by (simp add: MultiFrameAddition_def read_at_def)

lemma average_exact:
  assumes "average_shift k = Some n" "frame_len width height = Some len" "len \<le> length acc" "len \<le> length out"
  shows "MultiFrameAverage width height k (acc, out) =
    Some (map (\<lambda>i. average_pixel n (acc ! i)) [0..<len] @ drop len acc, map (\<lambda>i. ucast (average_pixel n (acc ! i))) [0..<len] @ drop len out)"
proof -
  let ?P = "\<lambda>j (p, q). p = map (\<lambda>i. average_pixel n (acc ! i)) [0..<j] @ drop j acc \<and>
    q = map (\<lambda>i. ucast (average_pixel n (acc ! i))) [0..<j] @ drop j out"
  have step: "\<exists>s'. (case s of (p, q) \<Rightarrow> do {
         p' \<leftarrow> modify_at j (average_pixel n) p; q' \<leftarrow> modify_at j (\<lambda>_. ucast (p' ! j)) q; Some (p', q') }) = Some s' \<and> ?P (Suc j) s'"
    if "0 \<le> j" "j < len" "?P j s" for j s
  proof -
    have "drop j acc = acc ! j # drop (Suc j) acc" "drop j out = out ! j # drop (Suc j) out"
      using that(2) assms(3,4) by (simp_all add: Cons_nth_drop_Suc)
    with that(3) show ?thesis by (cases s) (simp add: modify_at_def nth_append list_update_append)
  qed
  obtain s where "each_opt (\<lambda>i (pIn1_pOut, POut). do {
         p \<leftarrow> modify_at i (average_pixel n) pIn1_pOut; q \<leftarrow> modify_at i (\<lambda>_. ucast (p ! i)) POut; Some (p, q) }) [0..<len] (acc, out) = Some s" "?P len s"
    using for_range [of 0 len ?P "(acc, out)", OF _ _ step] by auto
  with assms(1,2) show ?thesis by (cases s) (simp add: MultiFrameAverage_def)
qed

lemma average_other: "average_shift k = None \<Longrightarrow> MultiFrameAverage width height k fs = Some fs"
  by (simp add: MultiFrameAverage_def)

section \<open>Bytes\<close>

lemma byte_masks: "(0xff :: u16) = mask 8" "(0xff00 :: u16) = push_bit 8 (mask 8)" "(0xffff :: u16) = mask 16"
  by (simp_all add: mask_eq_exp_minus_1)

lemma no_high_bit [simp]: "\<not> bit (v :: u16) (16 + n)"
  using bit_imp_le_length [of v "16 + n"] by auto

lemma pixel_in_plain [simp]: "pixel_in False v = v"
  by (rule bit_word_eqI) (simp add: pixel_in_def byte_masks bit_simps)

lemma swap16_swap16: "swap16 (swap16 v) = v"
  by (rule bit_word_eqI) (auto simp: swap16_def Let_def bit_simps)

lemma pixel_in_swapped: "pixel_in True v = swap16 v"
proof (rule bit_word_eqI)
  fix n
  assume n: "n < LENGTH(16)"
  have "\<not> bit v (8 + n)" if "8 \<le> n" using bit_imp_le_length [of v "8 + n"] that by auto
  with n show "bit (pixel_in True v) n \<longleftrightarrow> bit (swap16 v) n"
    by (auto simp: pixel_in_def byte_masks swap16_def Let_def bit_simps)
qed

section \<open>Sums and means\<close>

text \<open>The frames added one after the other; the sum of one pixel over the frames.\<close>

definition add_frames :: "u16 \<Rightarrow> u16 \<Rightarrow> bool \<Rightarrow> u16 list list \<Rightarrow> u32 list \<Rightarrow> u32 list option" where
  "add_frames width height sw = each_opt (MultiFrameAddition width height sw)"

definition pixel_sum :: "bool \<Rightarrow> u16 list list \<Rightarrow> nat \<Rightarrow> nat" where
  "pixel_sum sw frames i = (\<Sum>f\<leftarrow>frames. unat (pixel_in sw (f ! i)))"

definition pixel_mean :: "bool \<Rightarrow> u16 list list \<Rightarrow> nat \<Rightarrow> nat" where
  "pixel_mean sw frames i = (pixel_sum sw frames i + length frames div 2) div length frames"

lemma pixel_sum_le: "pixel_sum sw frames i \<le> length frames * 65535"
proof (induction frames)
  case (Cons f frames)
  have "unat (pixel_in sw (f ! i)) < 2 ^ LENGTH(16)" by (rule unsigned_less)
  with Cons show ?case by (simp add: pixel_sum_def)
qed (simp add: pixel_sum_def)

lemma add_frames_exact:
  assumes "frame_len width height = Some len" "length acc = len" "\<forall>f\<in>set frames. len \<le> length f"
  shows "add_frames width height sw frames acc = Some (map (\<lambda>i. acc ! i + word_of_nat (pixel_sum sw frames i)) [0..<len])"
  using assms(2,3)
proof (induction frames arbitrary: acc)
  case Nil
  then show ?case by (auto simp: add_frames_def pixel_sum_def intro: nth_equalityI)
next
  case (Cons f fs)
  let ?a = "map (\<lambda>i. acc ! i + ucast (pixel_in sw (f ! i))) [0..<len]"
  have "MultiFrameAddition width height sw f acc = Some ?a" using addition_exact [OF assms(1), of acc f sw] Cons.prems by simp
  moreover have "add_frames width height sw fs ?a = Some (map (\<lambda>i. ?a ! i + word_of_nat (pixel_sum sw fs i)) [0..<len])"
    using Cons by simp
  moreover have "?a ! i + word_of_nat (pixel_sum sw fs i) = acc ! i + word_of_nat (pixel_sum sw (f # fs) i)" if "i < len" for i
    using that by (simp add: pixel_sum_def unsigned_ucast_eq add.assoc)
  ultimately show ?case by (simp add: add_frames_def)
qed

lemma average_shift_power: "average_shift k = Some n \<Longrightarrow> unat k = 2 ^ n \<and> 1 \<le> n \<and> n \<le> 7"
  by (auto simp: average_shift_def split: if_splits)

lemma average_shift_frames:
  assumes "average_shift (word_of_nat k) = Some n" and "k < 256"
  shows "k = 2 ^ n" "1 \<le> n" "n \<le> 7"
proof -
  have "unat (word_of_nat k :: u8) = k" using assms(2) by (simp add: unsigned_of_nat take_bit_nat_eq_self)
  with average_shift_power [OF assms(1)] show "k = 2 ^ n" "1 \<le> n" "n \<le> 7" by auto
qed

text \<open>One pixel: no sum of up to 128 values wraps, and the shift rounds to the nearest.\<close>

lemma average_pixel_mean:
  assumes "x \<le> 2 ^ n * 65535" "1 \<le> n" "n \<le> 7"
  shows "unat (average_pixel n (word_of_nat x)) = (x + 2 ^ n div 2) div 2 ^ n" "(x + 2 ^ n div 2) div 2 ^ n < 65536"
proof -
  obtain m where m: "n = Suc m" using assms(2) by (cases n) auto
  have "(2::nat) ^ n \<le> 2 ^ 7" using assms(3) by (intro power_increasing) simp_all
  then have b: "(2::nat) ^ n \<le> 128" by simp
  then have x: "x + 2 ^ m < 2 ^ 32" using assms(1) m by simp
  have m16: "(2::nat) ^ m < 2 ^ 16" using b m by simp
  have "ucast (2 ^ m :: u16) = (2 ^ m :: u32)"
    using assms(3) m by (intro bit_word_eqI) (auto simp: bit_simps)
  then have "average_pixel n (word_of_nat x) = drop_bit n (word_of_nat (x + 2 ^ m))" by (simp add: average_pixel_def m)
  then have "unat (average_pixel n (word_of_nat x)) = drop_bit n (take_bit 32 (unat (word_of_nat (x + 2 ^ m) :: u32)))"
    by (simp only: unsigned_drop_bit_eq) simp
  also have "unat (word_of_nat (x + 2 ^ m) :: u32) = x + 2 ^ m" using x by (simp only: unsigned_of_nat) (simp add: take_bit_nat_eq_self)
  also have "drop_bit n (take_bit 32 (x + 2 ^ m)) = (x + 2 ^ m) div 2 ^ n" using x by (simp add: take_bit_nat_eq_self drop_bit_eq_div)
  finally show "unat (average_pixel n (word_of_nat x)) = (x + 2 ^ n div 2) div 2 ^ n" by (simp add: m)
  have "(0::nat) < 2 ^ m" by simp
  with assms(1) have "x + 2 ^ n div 2 < 65536 * 2 ^ n" unfolding m power_Suc by linarith
  then show "(x + 2 ^ n div 2) div 2 ^ n < 65536" by (simp add: less_mult_imp_div_less)
qed

definition frame_sums :: "bool \<Rightarrow> u16 list list \<Rightarrow> nat \<Rightarrow> u32 list" where
  "frame_sums sw frames len = map (\<lambda>i. word_of_nat (pixel_sum sw frames i)) [0..<len]"

text \<open>The numbers of frames that are averaged.\<close>

definition frame_counts :: "nat set" where
  "frame_counts = {2, 4, 8, 16, 32, 64, 128}"

lemma average_of_sums:
  assumes "length frames \<in> frame_counts" and "frame_len width height = Some len" and "length out = len"
  shows "\<exists>p q. MultiFrameAverage width height (word_of_nat (length frames)) (frame_sums sw frames len, out) = Some (p, q) \<and>
    length p = len \<and> length q = len \<and> (\<forall>i<len. unat (q ! i) = pixel_mean sw frames i)"
proof -
  let ?K = "length frames"
  obtain n where n: "average_shift (word_of_nat ?K) = Some n" using assms(1) by (auto simp: average_shift_def frame_counts_def)
  have K: "?K = 2 ^ n" "1 \<le> n" "n \<le> 7" using average_shift_frames [OF n] assms(1) by (auto simp: frame_counts_def)
  have "unat (ucast (average_pixel n (frame_sums sw frames len ! i)) :: u16) = pixel_mean sw frames i" if "i < len" for i
  proof -
    from average_pixel_mean [of "pixel_sum sw frames i", OF _ K(2,3)] pixel_sum_le [of sw frames i] K(1)
    have "unat (average_pixel n (frame_sums sw frames len ! i)) = pixel_mean sw frames i" "pixel_mean sw frames i < 2 ^ 16"
      using that by (simp_all add: pixel_mean_def frame_sums_def)
    then show ?thesis by (simp add: unsigned_ucast_eq take_bit_nat_eq_self)
  qed
  with average_exact [OF n assms(2), of "frame_sums sw frames len" out] assms(3) show ?thesis by (simp add: frame_sums_def)
qed

text \<open>
  Property C31. A multi-frame capture computes the mean.  For 2, 4, 8, 16, 32, 64 or 128 frames the sums do not
  wrap around and every pixel of the result is the mean of that pixel over the frames, rounded to the nearest and
  upwards in the middle, with the bytes of each pixel swapped first if asked for.
\<close>

theorem multi_frame_mean:
  assumes "length frames \<in> {2, 4, 8, 16, 32, 64, 128}" and "unat height * unat width = len" "len < 2 ^ 31"
    and "\<forall>f\<in>set frames. len \<le> length f" and "length out = len"
  shows "\<exists>sums p q. add_frames width height sw frames (replicate len 0) = Some sums \<and>
    MultiFrameAverage width height (word_of_nat (length frames)) (sums, out) = Some (p, q) \<and> length q = len \<and>
    (\<forall>i<len. unat (q ! i) = pixel_mean sw frames i)"
proof -
  have len: "frame_len width height = Some len" using assms(2,3) by (simp add: frame_len_def)
  then have "add_frames width height sw frames (replicate len 0) = Some (frame_sums sw frames len)"
    using add_frames_exact [OF len, of "replicate len 0" frames sw] assms(4) by (simp add: frame_sums_def)
  with average_of_sums [OF _ len assms(5), of frames sw] assms(1) show ?thesis by (auto simp: frame_counts_def)
qed

theorem multi_frame_mean_witness:
  "\<exists>sums p q. add_frames 2 1 True [[0x0100, 0xFFFF], [0x0400, 0xFFFE]] (replicate 2 0) = Some sums \<and>
    MultiFrameAverage 2 1 2 (sums, [0, 0]) = Some (p, q) \<and> length q = 2 \<and>
    unat (q ! 0) = 3 \<and> unat (q ! 1) = 65407"
proof -
  let ?fs = "[[0x0100, 0xFFFF], [0x0400, 0xFFFE]] :: u16 list list"
  have "pixel_mean True ?fs 0 = 3" "pixel_mean True ?fs 1 = 65407"
    by (simp_all add: pixel_mean_def pixel_sum_def pixel_in_swapped swap16_def numeral_2_eq_2 [symmetric])
  with multi_frame_mean [of ?fs 1 2 2 "[0, 0]" True] show ?thesis by fastforce
qed

end
