(* ===== verification/RawCapture.thy ===== *)
theory RawCapture
  imports MultiFrame
begin

unbundle bit_operations_syntax

text \<open>
  Capturing raw frames from the camera and sending them to the tuning tool, \<^verbatim>\<open>rkaiq_tool_server/rkaiq/rkaiq_raw_protocol.cpp\<close>
  with \<^verbatim>\<open>camera/camera_capture.cpp\<close> and \<^verbatim>\<open>camera/camera_memory.cpp\<close>.  The static variables of the first file
  and the frame buffers are the state; \<open>None\<close> is the end of the process: \<^verbatim>\<open>exit(EXIT_FAILURE)\<close>, a failed assertion, an
  access outside of a buffer or to a buffer that was freed.  The method of the capture is always memory mapping, as every
  caller sets it.
\<close>

section \<open>Camera and state\<close>

text \<open>
  The operations of the system, with a state of their own.  Calls whose result the code only logs have none.  A capture
  that is dequeued has the index of a buffer, the number of bytes used and what the driver wrote into the buffer.
  The device is opened for blocking calls, so that dequeuing does not report \<^verbatim>\<open>EAGAIN\<close>.
\<close>

datatype control = Exposure | Analogue_gain | Vblank | Focus_absolute

record 's cam =
  char_signed :: bool
  g_mmapNumber :: nat
  cm_open :: "string \<Rightarrow> 's \<Rightarrow> int \<times> 's"
  cm_close :: "int \<Rightarrow> 's \<Rightarrow> 's"
  cm_gain :: "int \<Rightarrow> int \<Rightarrow> 's \<Rightarrow> 's"
  cm_querycap :: "int \<Rightarrow> 's \<Rightarrow> (int \<times> u32) \<times> 's"
  cm_crop :: "int \<Rightarrow> bool \<Rightarrow> int \<Rightarrow> int \<Rightarrow> 's \<Rightarrow> 's"
  cm_setformat :: "int \<Rightarrow> bool \<Rightarrow> int \<Rightarrow> int \<Rightarrow> u32 \<Rightarrow> 's \<Rightarrow> 's"
  cm_getformat :: "int \<Rightarrow> 's \<Rightarrow> 's"
  cm_reqbufs :: "int \<Rightarrow> bool \<Rightarrow> nat \<Rightarrow> 's \<Rightarrow> (int \<times> bool \<times> nat) \<times> 's"
  cm_malloc :: "nat \<Rightarrow> 's \<Rightarrow> bool \<times> 's"
  cm_querybuf :: "int \<Rightarrow> bool \<Rightarrow> nat \<Rightarrow> 's \<Rightarrow> (nat \<times> nat) option \<times> 's"
  cm_mmap :: "nat \<Rightarrow> int \<Rightarrow> nat \<Rightarrow> 's \<Rightarrow> bool \<times> 's"
  cm_munmap :: "nat \<Rightarrow> 's \<Rightarrow> 's"
  cm_qbuf :: "int \<Rightarrow> bool \<Rightarrow> nat \<Rightarrow> 's \<Rightarrow> 's"
  cm_streamon :: "int \<Rightarrow> bool \<Rightarrow> 's \<Rightarrow> 's"
  cm_streamoff :: "int \<Rightarrow> bool \<Rightarrow> 's \<Rightarrow> 's"
  cm_dqbuf :: "int \<Rightarrow> bool \<Rightarrow> 's \<Rightarrow> (nat \<times> nat \<times> u8 list) option \<times> 's"
  cm_send :: "u8 list \<Rightarrow> 's \<Rightarrow> int \<times> 's"
  cm_openrw :: "string \<Rightarrow> 's \<Rightarrow> int \<times> 's"
  cm_low_align :: "int \<Rightarrow> 's \<Rightarrow> 's"
  cm_popen :: "string \<Rightarrow> 's \<Rightarrow> string list option \<times> 's"
  cm_queryfocus :: "int \<Rightarrow> 's \<Rightarrow> (int \<times> int) option \<times> 's"
  cm_setctrl :: "int \<Rightarrow> control \<Rightarrow> int \<Rightarrow> 's \<Rightarrow> int \<times> 's"

datatype sensor_link = Link_to_vicap | Link_to_isp | Link_to_dvp

text \<open>The array of buffers: never allocated, with the contents of the mappings, or freed with the pointer still there.\<close>

datatype bufs = No_bufs | Bufs "u8 list list" | Freed

record capture_info =
  dev_name :: string
  dev_fd :: int
  subdev_fd :: int
  buffers :: bufs
  n_buffers :: nat
  sensor_path :: string
  cap_format :: u32
  cap_width :: int
  cap_height :: int
  lhcg :: int
  sensor_link :: sensor_link
  mplane :: bool
  frame_count :: int
  lens_path :: string
  lensdev_fd :: int

record 's cap =
  cp_env :: 's
  cp_sent :: "u8 list"
  capture_mode :: int
  capture_frames :: int
  capture_frames_index :: int
  capture_check_sum :: u16
  cap_info :: capture_info
  averge_frame0 :: "u32 list option"
  averge_frame1 :: "u16 list option"
  needSetParamFlag :: int
  g_sensorHdrMode :: u32

definition env_do :: "('s \<Rightarrow> 's) \<Rightarrow> 's cap \<Rightarrow> 's cap" where
  "env_do f s = s\<lparr>cp_env := f (cp_env s)\<rparr>"

definition info_do :: "(capture_info \<Rightarrow> capture_info) \<Rightarrow> 's cap \<Rightarrow> 's cap" where
  "info_do f s = s\<lparr>cap_info := f (cap_info s)\<rparr>"

section \<open>Buffers and streaming\<close>

text \<open>One buffer of \<^verbatim>\<open>init_mmap\<close>; after a query that failed the structure is still cleared.\<close>

definition map_buffer :: "'s cam \<Rightarrow> nat \<Rightarrow> u8 list list \<times> 's cap \<Rightarrow> (u8 list list \<times> 's cap) option" where
  "map_buffer cam i st = (case st of (bs, s) \<Rightarrow>
     (case cm_querybuf cam (dev_fd (cap_info s)) (mplane (cap_info s)) i (cp_env s) of (q, e1) \<Rightarrow>
       (case (case q of None \<Rightarrow> (0, 0) | Some x \<Rightarrow> x) of (len, off) \<Rightarrow>
         (case cm_mmap cam len (dev_fd (cap_info s)) off e1 of (ok, e2) \<Rightarrow>
           if \<not> ok \<and> len > 0 then None else Some (bs @ [replicate len 0], s\<lparr>cp_env := e2\<rparr>)))))"

definition init_mmap :: "'s cam \<Rightarrow> 's cap \<Rightarrow> 's cap option" where
  "init_mmap cam s =
     (case cm_reqbufs cam (dev_fd (cap_info s)) (mplane (cap_info s)) (g_mmapNumber cam) (cp_env s) of ((rc, einval, granted), e1) \<Rightarrow>
       if rc = -1 \<and> einval then None
       else (let count = (if rc = -1 then g_mmapNumber cam else granted) in
         if count < 2 then None
         else (case cm_malloc cam count e1 of (ok, e2) \<Rightarrow>
           if \<not> ok then None
           else do {
             (bs, s1) \<leftarrow> each_opt (map_buffer cam) [0..<count] ([], s\<lparr>cp_env := e2\<rparr>);
             Some (info_do (\<lambda>c. c\<lparr>buffers := Bufs bs, n_buffers := count\<rparr>) s1) })))"

definition V4L2_CAP_VIDEO_CAPTURE :: u32 where
  "V4L2_CAP_VIDEO_CAPTURE = 0x00000001"

definition V4L2_CAP_VIDEO_CAPTURE_MPLANE :: u32 where
  "V4L2_CAP_VIDEO_CAPTURE_MPLANE = 0x00001000"

definition V4L2_CAP_STREAMING :: u32 where
  "V4L2_CAP_STREAMING = 0x04000000"

text \<open>
  The part of \<^verbatim>\<open>init_device\<close> that tells the device what is wanted.  The sizes of the format are only used by the other
  methods of capture.
\<close>

definition set_up :: "'s cam \<Rightarrow> int \<Rightarrow> u32 \<Rightarrow> 's cap \<Rightarrow> 's cap" where
  "set_up cam fd caps s =
     (let c = cap_info s;
          s1 = (if sensor_link c = Link_to_isp then env_do (cm_crop cam fd (mplane c) (cap_width c) (cap_height c)) s else s);
          s2 = (if caps AND V4L2_CAP_VIDEO_CAPTURE \<noteq> 0 then info_do (\<lambda>c. c\<lparr>mplane := False\<rparr>) s1
                else if caps AND V4L2_CAP_VIDEO_CAPTURE_MPLANE \<noteq> 0 then info_do (\<lambda>c. c\<lparr>mplane := True\<rparr>) s1
                else s1)
      in if cap_format c \<noteq> 0
         then env_do (cm_setformat cam fd (mplane (cap_info s2)) (cap_width c) (cap_height c) (cap_format c)) s2
         else env_do (cm_getformat cam fd) s2)"

text \<open>The first component is the result, which no caller looks at.\<close>

definition init_device :: "'s cam \<Rightarrow> 's cap \<Rightarrow> (int \<times> 's cap) option" where
  "init_device cam s =
     (case cm_open cam (dev_name (cap_info s)) (cp_env s) of (fd, e1) \<Rightarrow>
       (case cm_querycap cam fd e1 of ((rc, caps), e2) \<Rightarrow>
         (let s1 = info_do (\<lambda>c. c\<lparr>dev_fd := fd\<rparr>) (s\<lparr>cp_env := e2\<rparr>) in
          if rc \<noteq> -1 \<and> caps AND V4L2_CAP_VIDEO_CAPTURE = 0 \<and> caps AND V4L2_CAP_VIDEO_CAPTURE_MPLANE = 0 then Some (-1, s1)
          else if caps AND V4L2_CAP_STREAMING = 0 then Some (-1, s1)
          else map_option (\<lambda>s2. (0, s2)) (init_mmap cam (set_up cam fd caps s1)))))"

definition start_capturing :: "'s cam \<Rightarrow> 's cap \<Rightarrow> 's cap" where
  "start_capturing cam s =
     (let c = cap_info s in
      env_do (cm_streamon cam (dev_fd c) (mplane c)) (fold (\<lambda>i. env_do (cm_qbuf cam (dev_fd c) (mplane c) i)) [0..<n_buffers c] s))"

definition stop_capturing :: "'s cam \<Rightarrow> 's cap \<Rightarrow> 's cap" where
  "stop_capturing cam s = env_do (cm_streamoff cam (dev_fd (cap_info s)) (mplane (cap_info s))) s"

definition uninit_device :: "'s cam \<Rightarrow> 's cap \<Rightarrow> 's cap option" where
  "uninit_device cam s = do {
     s1 \<leftarrow> (case buffers (cap_info s) of
              No_bufs \<Rightarrow> if n_buffers (cap_info s) = 0 then Some s else None
            | Bufs bs \<Rightarrow> if n_buffers (cap_info s) > length bs then None
                else Some (info_do (\<lambda>c. c\<lparr>buffers := Freed\<rparr>)
                  (fold (\<lambda>b. env_do (cm_munmap cam (length b))) (take (n_buffers (cap_info s)) bs) s))
            | Freed \<Rightarrow> None);
     Some (info_do (\<lambda>c. c\<lparr>dev_fd := -1\<rparr>) (env_do (cm_close cam (dev_fd (cap_info s1))) s1)) }"

text \<open>What the driver wrote into a mapping.\<close>

definition overlay :: "'a list \<Rightarrow> 'a list \<Rightarrow> 'a list" where
  "overlay new old = take (length old) new @ drop (length new) old"

definition set_buffer :: "nat \<Rightarrow> u8 list \<Rightarrow> u8 list list \<Rightarrow> 's cap \<Rightarrow> 's cap" where
  "set_buffer k b bs = info_do (\<lambda>c. c\<lparr>buffers := Bufs (bs[k := b])\<rparr>)"

text \<open>A callback gets the number of the frame, the buffer and its size as \<^verbatim>\<open>int\<close>.\<close>

type_synonym 's callback = "int \<Rightarrow> u8 list \<Rightarrow> int \<Rightarrow> 's cap \<Rightarrow> 's cap option"

definition read_frame :: "'s cam \<Rightarrow> 's callback option \<Rightarrow> int \<Rightarrow> 's cap \<Rightarrow> 's cap option" where
  "read_frame cam callback index s =
     (case cm_dqbuf cam (dev_fd (cap_info s)) (mplane (cap_info s)) (cp_env s) of
        (None, e) \<Rightarrow> Some (s\<lparr>cp_env := e\<rparr>)
      | (Some (k, bytesused, new), e) \<Rightarrow>
          (case buffers (cap_info s) of
             Bufs bs \<Rightarrow>
               if k \<ge> n_buffers (cap_info s) \<or> k \<ge> length bs then None
               else (let b = overlay new (bs ! k) in do {
                 s1 \<leftarrow> (case callback of
                          None \<Rightarrow> Some (set_buffer k b bs (s\<lparr>cp_env := e\<rparr>))
                        | Some f \<Rightarrow> f index b (signed_take_bit 31 (int bytesused)) (set_buffer k b bs (s\<lparr>cp_env := e\<rparr>)));
                 (if bytesused > length b then None
                  else Some (env_do (cm_qbuf cam (dev_fd (cap_info s)) (mplane (cap_info s)) k)
                         (set_buffer k (replicate bytesused 0 @ drop bytesused b) bs s1))) })
           | _ \<Rightarrow> None))"

section \<open>Sending\<close>

definition MAXPACKETSIZE :: nat where
  "MAXPACKETSIZE = 8192"

text \<open>
  The loop of \<^verbatim>\<open>SendRawData\<close> on a buffer: \<open>pos\<close> is \<^verbatim>\<open>buf\<close>.  It counts what it wanted to send and moves on by what
  \<^verbatim>\<open>send\<close> returned, -1 included.
\<close>

function send_loop :: "'s cam \<Rightarrow> u8 list \<Rightarrow> nat \<Rightarrow> int \<Rightarrow> 's cap \<Rightarrow> 's cap option" where
  "send_loop cam mem togo pos s =
     (if togo = 0 then Some s
      else (let send_size = min togo MAXPACKETSIZE in
        if pos < 0 \<or> nat pos + send_size > length mem then None
        else (let part = take send_size (drop (nat pos) mem) in
          (case cm_send cam part (cp_env s) of (r, e) \<Rightarrow>
            send_loop cam mem (togo - send_size) (pos + r) (s\<lparr>cp_env := e, cp_sent := cp_sent s @ take (nat r) part\<rparr>)))))"
  by pat_completeness auto
termination by (relation "measure (\<lambda>(_, _, togo, _). togo)") (auto simp: MAXPACKETSIZE_def)

declare send_loop.simps [simp del]

text \<open>\<^verbatim>\<open>char\<close> is signed on some machines.\<close>

definition char_value :: "bool \<Rightarrow> u8 \<Rightarrow> u16" where
  "char_value sg b = (if sg then scast b else ucast b)"

definition sum16 :: "bool \<Rightarrow> u8 list \<Rightarrow> u16" where
  "sum16 sg mem = fold (\<lambda>b c. c + char_value sg b) mem 0"

definition SendRawData :: "'s cam \<Rightarrow> u8 list \<Rightarrow> int \<Rightarrow> 's cap \<Rightarrow> 's cap option" where
  "SendRawData cam mem sz s = do {
     s1 \<leftarrow> send_loop cam mem (nat sz) 0 s;
     (if nat sz > length mem then None
      else Some (s1\<lparr>capture_check_sum := sum16 (char_signed cam) (take (nat sz) mem)\<rparr>)) }"

text \<open>The 16-bit values in memory, low byte first.\<close>

fun words16 :: "u8 list \<Rightarrow> u16 list" where
  "words16 (a # b # r) = (ucast a OR push_bit 8 (ucast b)) # words16 r"
| "words16 r = []"

definition bytes16 :: "u16 list \<Rightarrow> u8 list" where
  "bytes16 vs = concat (map (\<lambda>v. [ucast v, ucast (drop_bit 8 v)]) vs)"

section \<open>Capturing\<close>

text \<open>\<^verbatim>\<open>width * height * 2\<close> on \<^verbatim>\<open>int\<close>.\<close>

definition frame_bytes :: "'s cap \<Rightarrow> int option" where
  "frame_bytes s = (let n = cap_width (cap_info s) * cap_height (cap_info s) * 2 in if n < 2 ^ 31 then Some n else None)"

definition NO_HDR :: u32 where
  "NO_HDR = 0"

definition DoCaptureCallBack :: "'s cam \<Rightarrow> 's callback" where
  "DoCaptureCallBack cam index mem sz s = do {
     n \<leftarrow> (if g_sensorHdrMode s = NO_HDR then frame_bytes s else Some sz);
     (if g_sensorHdrMode s = NO_HDR \<and> sz > n then Some s else SendRawData cam mem sz s) }"

text \<open>The average of the frames when the last one has come, and the frame in the middle as it is.\<close>

definition after_addition :: "'s cam \<Rightarrow> 's callback" where
  "after_addition cam index mem sz s =
     (let c = cap_info s; offset = (cap_height c div 2 + 10) * cap_width c + cap_width c div 2 in
      if index = capture_frames s - 1 then do {
        f0 \<leftarrow> averge_frame0 s;
        f1 \<leftarrow> averge_frame1 s;
        (g0, g1) \<leftarrow> MultiFrameAverage (word_of_int (cap_width c)) (word_of_int (cap_height c)) (word_of_int (capture_frames s)) (f0, f1);
        DumpRawData g0 (nat offset) (nat (take_bit 32 sz)) 2;
        DumpRawData g1 (nat offset) (nat (take_bit 32 sz)) 2;
        SendRawData cam (bytes16 g1) sz (s\<lparr>averge_frame0 := Some g0, averge_frame1 := Some g1\<rparr>) }
      else if index = drop_bit 1 (capture_frames s) - 1 then SendRawData cam mem sz s
      else Some s)"

definition DoMultiFrameCallBack :: "'s cam \<Rightarrow> 's callback" where
  "DoMultiFrameCallBack cam index mem sz s = do {
     n \<leftarrow> frame_bytes s;
     (if sz > n then Some s
      else (let c = cap_info s; offset = (cap_height c div 2 + 10) * cap_width c + cap_width c div 2 in do {
        DumpRawData (words16 mem) (nat offset) (nat (take_bit 32 sz)) 2;
        f0 \<leftarrow> averge_frame0 s;
        g0 \<leftarrow> MultiFrameAddition (word_of_int (cap_width c)) (word_of_int (cap_height c)) (sensor_link c \<noteq> Link_to_vicap) (words16 mem) f0;
        DumpRawData g0 (nat offset) (nat (take_bit 32 sz)) 2;
        after_addition cam index mem sz (s\<lparr>averge_frame0 := Some g0\<rparr>) })) }"

definition InitMultiFrame :: "'s cam \<Rightarrow> 's cap \<Rightarrow> 's cap option" where
  "InitMultiFrame cam s =
     (let n = cap_width (cap_info s) * cap_height (cap_info s) in
      if n \<ge> 2 ^ 31 then None
      else (let one_frame_size = nat (take_bit 32 (n * 4)) in
        (case cm_malloc cam one_frame_size (cp_env s) of (ok, e1) \<Rightarrow>
          if \<not> ok \<and> one_frame_size > 0 then None
          else (case cm_malloc cam (one_frame_size div 2) e1 of (ok, e2) \<Rightarrow>
            if \<not> ok \<and> one_frame_size div 2 > 0 then None
            else Some (s\<lparr>cp_env := e2, averge_frame0 := Some (replicate (one_frame_size div 4) 0),
                   averge_frame1 := Some (replicate (one_frame_size div 2 div 2) 0)\<rparr>)))))"

definition deInitMultiFrame :: "'s cap \<Rightarrow> 's cap" where
  "deInitMultiFrame s = s\<lparr>averge_frame0 := None, averge_frame1 := None\<rparr>"

definition SetLHcg :: "'s cam \<Rightarrow> int \<Rightarrow> 's cap \<Rightarrow> 's cap" where
  "SetLHcg cam m s =
     (if needSetParamFlag s = 0 then s
      else (case cm_open cam (sensor_path (cap_info s)) (cp_env s) of (fd, e) \<Rightarrow>
        s\<lparr>cp_env := cm_close cam fd (if fd < 0 then e else cm_gain cam fd m e)\<rparr>))"

text \<open>Five frames are skipped before the first one.\<close>

definition skip_frames :: "'s cam \<Rightarrow> 's cap \<Rightarrow> 's cap option" where
  "skip_frames cam s =
     (if capture_frames_index s = 0
      then each_opt (\<lambda>i s. read_frame cam None (int i)
             (if i = 0 \<and> lhcg (cap_info s) \<noteq> 2 then SetLHcg cam (lhcg (cap_info s)) s else s)) [0..<5] s
      else Some s)"

definition next_index :: "'s cap \<Rightarrow> 's cap" where
  "next_index s = s\<lparr>capture_frames_index := capture_frames_index s + 1\<rparr>"

definition DoCapture :: "'s cam \<Rightarrow> 's cap \<Rightarrow> 's cap option" where
  "DoCapture cam s = do {
     s1 \<leftarrow> skip_frames cam s;
     s2 \<leftarrow> read_frame cam (Some (DoCaptureCallBack cam)) (capture_frames_index s1) s1;
     Some (next_index s2) }"

definition multi_step :: "'s cam \<Rightarrow> int \<Rightarrow> 's cap \<Rightarrow> 's cap option" where
  "multi_step cam i s = map_option next_index (read_frame cam (Some (DoMultiFrameCallBack cam)) i s)"

definition DoMultiFrameCapture :: "'s cam \<Rightarrow> 's cap \<Rightarrow> 's cap option" where
  "DoMultiFrameCapture cam s = do {
     s1 \<leftarrow> skip_frames cam s;
     (let half = drop_bit 1 (capture_frames s1) in
      if capture_frames_index s1 = 0 then each_opt (multi_step cam) [0..half - 1] s1
      else if capture_frames_index s1 = half then each_opt (multi_step cam) [half..capture_frames s1 - 1] s1
      else Some s1) }"

definition CAPTURE_NORMAL :: int where
  "CAPTURE_NORMAL = 0"

definition StartCapture :: "'s cam \<Rightarrow> 's cap \<Rightarrow> 's cap option" where
  "StartCapture cam s = do {
     (_, s1) \<leftarrow> init_device cam s;
     let s2 = start_capturing cam s1;
     (if capture_mode s2 \<noteq> CAPTURE_NORMAL then InitMultiFrame cam s2 else Some s2) }"

definition RawCaptureDeinit :: "'s cam \<Rightarrow> 's cap \<Rightarrow> 's cap" where
  "RawCaptureDeinit cam s =
     (let s1 = (if subdev_fd (cap_info s) > 0
                then info_do (\<lambda>c. c\<lparr>subdev_fd := -1\<rparr>) (env_do (cm_close cam (subdev_fd (cap_info s))) s) else s)
      in if dev_fd (cap_info s1) > 0
         then info_do (\<lambda>c. c\<lparr>dev_fd := -1\<rparr>) (env_do (cm_close cam (dev_fd (cap_info s1))) s1) else s1)"

definition StopCapture :: "'s cam \<Rightarrow> 's cap \<Rightarrow> 's cap option" where
  "StopCapture cam s = do {
     s1 \<leftarrow> uninit_device cam (stop_capturing cam s);
     let s2 = RawCaptureDeinit cam s1;
     Some (if capture_mode s2 \<noteq> CAPTURE_NORMAL then deInitMultiFrame s2 else s2) }"

definition RawCaputure :: "'s cam \<Rightarrow> 's cap \<Rightarrow> 's cap option" where
  "RawCaputure cam s = do {
     s1 \<leftarrow> (if capture_frames_index s = 0 then StartCapture cam s else Some s);
     s2 \<leftarrow> (if capture_mode s1 = CAPTURE_NORMAL then DoCapture cam s1 else DoMultiFrameCapture cam s1);
     (if capture_frames_index s2 = capture_frames s2 then StopCapture cam s2 else Some s2) }"

section \<open>Answers\<close>

text \<open>The fields of a message that the answers set; the version stays as it is.\<close>

record command =
  RKID :: string
  cmdType :: u16
  cmdID :: u16
  cmd_dat :: "u8 list"
  checkSum :: u16

definition READY :: u8 where
  "READY = 0x81"

definition RES_FAILED :: u8 where
  "RES_FAILED = 0x00"

definition RES_SUCCESS :: u8 where
  "RES_SUCCESS = 0x01"

definition CMD_TYPE_STREAMING :: u16 where
  "CMD_TYPE_STREAMING = 0xff"

definition DEVICE_TO_PC :: u16 where
  "DEVICE_TO_PC = 1"

definition CMD_ID_CAPTURE_STATUS :: u16 where
  "CMD_ID_CAPTURE_STATUS = 1"

definition CMD_ID_CAPTURE_RAW_CAPTURE :: u16 where
  "CMD_ID_CAPTURE_RAW_CAPTURE = 2"

text \<open>\<open>dat\<close> has the bytes up to \<^verbatim>\<open>datLen\<close>; the rest is zero.\<close>

definition answer :: "u16 \<Rightarrow> u16 \<Rightarrow> u8 list \<Rightarrow> command" where
  "answer ty i dat = \<lparr>RKID = ''ISP_OFF'', cmdType = ty, cmdID = i, cmd_dat = dat, checkSum = sum16 False dat\<rparr>"

definition InitCommandStreamingAns :: "u8 \<Rightarrow> command" where
  "InitCommandStreamingAns ret_status = answer CMD_TYPE_STREAMING 0xffff [ret_status]"

definition InitCommandPingAns :: "u8 \<Rightarrow> command" where
  "InitCommandPingAns ret_status = answer DEVICE_TO_PC CMD_ID_CAPTURE_STATUS [ret_status]"

definition InitCommandRawCapAns :: "u8 \<Rightarrow> command" where
  "InitCommandRawCapAns ret_status = answer DEVICE_TO_PC CMD_ID_CAPTURE_RAW_CAPTURE [0x00, ret_status]"

text \<open>The checksum of the tool is in two bytes of its message.\<close>

definition SendRawDataResult :: "'s cam \<Rightarrow> u8 list \<Rightarrow> 's cap \<Rightarrow> (command \<times> 's cap) option" where
  "SendRawDataResult cam recv_dat s =
     (if length recv_dat < 3 then None
      else if capture_check_sum s = ucast (recv_dat ! 1) OR push_bit 8 (ucast (recv_dat ! 2))
      then Some (answer DEVICE_TO_PC CMD_ID_CAPTURE_RAW_CAPTURE [0x04, RES_SUCCESS], s)
      else map_option (\<lambda>s1. (answer DEVICE_TO_PC CMD_ID_CAPTURE_RAW_CAPTURE [0x04, RES_FAILED], s1)) (StopCapture cam s))"

section \<open>Values in memory\<close>

lemma words16_length: "length (words16 bs) = length bs div 2"
  by (induction bs rule: words16.induct) auto

lemma words16_append: "even (length xs) \<Longrightarrow> words16 (xs @ ys) = words16 xs @ words16 ys"
  by (induction xs rule: words16.induct) auto

lemma bytes16_length: "length (bytes16 vs) = 2 * length vs"
  by (induction vs) (simp_all add: bytes16_def)

text \<open>What is written is what is read.\<close>

lemma words16_bytes16: "words16 (bytes16 vs) = vs"
proof (induction vs)
  case (Cons v vs)
  have "(ucast (ucast v :: u8) :: u16) OR push_bit 8 (ucast (ucast (drop_bit 8 v) :: u8)) = v"
    by (rule bit_word_eqI) (auto simp: bit_simps)
  with Cons show ?case by (simp add: bytes16_def)
qed (simp add: bytes16_def)

lemma overlay_prefix: "length new \<le> length old \<Longrightarrow> overlay new old = new @ drop (length new) old"
  by (simp add: overlay_def)

section \<open>A camera that works\<close>

text \<open>
  What the capture relies on for its result: a device of one of the two kinds that streams, at least two buffers
  with room for \<open>used\<close> bytes, allocations that succeed, frames of \<open>used\<close> bytes that come one after the other,
  and a socket that takes what it is given.  \<open>pos\<close> is the number of frames that have come.
\<close>

definition camera_laws :: "'s cam \<Rightarrow> ('s \<Rightarrow> nat) \<Rightarrow> (nat \<Rightarrow> u8 list) \<Rightarrow> nat \<Rightarrow> nat \<Rightarrow> bool" where
  "camera_laws cam pos fr n used \<longleftrightarrow> 2 \<le> n \<and> (\<forall>i. length (fr i) = used) \<and>
     (\<forall>nm e. pos (snd (cm_open cam nm e)) = pos e) \<and> (\<forall>fd e. pos (cm_close cam fd e) = pos e) \<and>
     (\<forall>fd m e. pos (cm_gain cam fd m e) = pos e) \<and> (\<forall>fd p a b e. pos (cm_crop cam fd p a b e) = pos e) \<and>
     (\<forall>fd p a b f e. pos (cm_setformat cam fd p a b f e) = pos e) \<and> (\<forall>fd e. pos (cm_getformat cam fd e) = pos e) \<and>
     (\<forall>k e. pos (cm_munmap cam k e) = pos e) \<and> (\<forall>fd p k e. pos (cm_qbuf cam fd p k e) = pos e) \<and>
     (\<forall>fd p e. pos (cm_streamon cam fd p e) = pos e) \<and> (\<forall>fd p e. pos (cm_streamoff cam fd p e) = pos e) \<and>
     (\<forall>fd e. \<exists>caps e'. cm_querycap cam fd e = ((0, caps), e') \<and> pos e' = pos e \<and> caps AND V4L2_CAP_STREAMING \<noteq> 0 \<and>
        (caps AND V4L2_CAP_VIDEO_CAPTURE \<noteq> 0 \<or> caps AND V4L2_CAP_VIDEO_CAPTURE_MPLANE \<noteq> 0)) \<and>
     (\<forall>fd p m e. \<exists>e'. cm_reqbufs cam fd p m e = ((0, False, n), e') \<and> pos e' = pos e) \<and>
     (\<forall>k e. \<exists>e'. cm_malloc cam k e = (True, e') \<and> pos e' = pos e) \<and>
     (\<forall>fd p i e. \<exists>len off e'. cm_querybuf cam fd p i e = (Some (len, off), e') \<and> used \<le> len \<and> pos e' = pos e) \<and>
     (\<forall>len fd off e. \<exists>e'. cm_mmap cam len fd off e = (True, e') \<and> pos e' = pos e) \<and>
     (\<forall>fd p e. \<exists>k e'. cm_dqbuf cam fd p e = (Some (k, used, fr (pos e)), e') \<and> k < n \<and> pos e' = Suc (pos e)) \<and>
     (\<forall>bs e. \<exists>e'. cm_send cam bs e = (int (length bs), e') \<and> pos e' = pos e) \<and>
     (\<forall>nm e. pos (snd (cm_openrw cam nm e)) = pos e) \<and> (\<forall>fd e. pos (cm_low_align cam fd e) = pos e) \<and>
     (\<forall>c e. pos (snd (cm_popen cam c e)) = pos e) \<and> (\<forall>fd e. pos (snd (cm_queryfocus cam fd e)) = pos e) \<and>
     (\<forall>fd c v e. pos (snd (cm_setctrl cam fd c v e)) = pos e)"

lemma camera_keeps:
  assumes "camera_laws cam pos fr n used"
  shows "pos (cm_close cam fd e) = pos e" "pos (cm_gain cam fd m e) = pos e" "pos (cm_crop cam fd p a b e) = pos e"
    "pos (cm_setformat cam fd p a b f e) = pos e" "pos (cm_getformat cam fd e) = pos e" "pos (cm_munmap cam k e) = pos e"
    "pos (cm_qbuf cam fd p k e) = pos e" "pos (cm_streamon cam fd p e) = pos e" "pos (cm_streamoff cam fd p e) = pos e"
    "cm_open cam nm e = (fd, e') \<Longrightarrow> pos e' = pos e" "pos (cm_low_align cam fd e) = pos e"
proof -
  show "pos e' = pos e" if "cm_open cam nm e = (fd, e')" using assms that unfolding camera_laws_def by (metis snd_conv)
qed (use assms in \<open>simp_all add: camera_laws_def\<close>)

lemma camera_moves:
  assumes "camera_laws cam pos fr n used"
  shows "cm_openrw cam nm e = (fd, e') \<Longrightarrow> pos e' = pos e" "cm_popen cam nm e = (ls, e') \<Longrightarrow> pos e' = pos e"
    "cm_queryfocus cam fd e = (q, e') \<Longrightarrow> pos e' = pos e" "cm_setctrl cam fd ct v e = (r, e') \<Longrightarrow> pos e' = pos e"
  using assms unfolding camera_laws_def by (metis snd_conv)+

lemma camera_gives:
  assumes "camera_laws cam pos fr n used"
  shows "2 \<le> n" "length (fr i) = used"
    "\<exists>caps e'. cm_querycap cam fd e = ((0, caps), e') \<and> pos e' = pos e \<and> caps AND V4L2_CAP_STREAMING \<noteq> 0 \<and>
        (caps AND V4L2_CAP_VIDEO_CAPTURE \<noteq> 0 \<or> caps AND V4L2_CAP_VIDEO_CAPTURE_MPLANE \<noteq> 0)"
    "\<exists>e'. cm_reqbufs cam fd p m e = ((0, False, n), e') \<and> pos e' = pos e"
    "\<exists>e'. cm_malloc cam k e = (True, e') \<and> pos e' = pos e"
    "\<exists>len off e'. cm_querybuf cam fd p i e = (Some (len, off), e') \<and> used \<le> len \<and> pos e' = pos e"
    "\<exists>e'. cm_mmap cam len fd off e = (True, e') \<and> pos e' = pos e"
    "\<exists>k e'. cm_dqbuf cam fd p e = (Some (k, used, fr (pos e)), e') \<and> k < n \<and> pos e' = Suc (pos e)"
    "\<exists>e'. cm_send cam bs e = (int (length bs), e') \<and> pos e' = pos e"
  using assms by (simp_all add: camera_laws_def)

text \<open>Everything is sent, in packets of at most 8192 bytes.\<close>

lemma send_loop_all:
  assumes "camera_laws cam pos fr n used" and "at_pos + togo \<le> length mem"
  shows "\<exists>e. send_loop cam mem togo (int at_pos) s = Some (s\<lparr>cp_env := e, cp_sent := cp_sent s @ take togo (drop at_pos mem)\<rparr>) \<and> pos e = pos (cp_env s)"
  using assms(2)
proof (induction togo arbitrary: at_pos s rule: less_induct)
  case (less togo)
  show ?case
  proof (cases "togo = 0")
    case True
    then show ?thesis by (auto simp: send_loop.simps intro: exI [of _ "cp_env s"])
  next
    case False
    let ?k = "min togo MAXPACKETSIZE"
    let ?part = "take ?k (drop at_pos mem)"
    have k: "0 < ?k" "?k \<le> togo" "\<not> length mem < at_pos + ?k" using less.prems False by (simp_all add: MAXPACKETSIZE_def)
    have lp: "length ?part = ?k" using less.prems by simp
    obtain e where e: "cm_send cam ?part (cp_env s) = (int ?k, e)" "pos e = pos (cp_env s)"
      using camera_gives(9) [OF assms(1), of ?part "cp_env s"] lp by auto
    let ?s = "s\<lparr>cp_env := e, cp_sent := cp_sent s @ ?part\<rparr>"
    have "\<exists>e'. send_loop cam mem (togo - ?k) (int (at_pos + ?k)) ?s =
        Some (?s\<lparr>cp_env := e', cp_sent := cp_sent ?s @ take (togo - ?k) (drop (at_pos + ?k) mem)\<rparr>) \<and> pos e' = pos (cp_env ?s)"
      using k less.prems by (intro less.IH) auto
    moreover have "take togo (drop at_pos mem) = ?part @ take (togo - ?k) (drop (at_pos + ?k) mem)"
      using k(2) by (metis add.commute drop_drop le_add_diff_inverse take_add)
    moreover have "send_loop cam mem togo (int at_pos) s = send_loop cam mem (togo - ?k) (int (at_pos + ?k)) ?s"
      using False k(3) e(1) by (subst send_loop.simps) (simp add: Let_def del: min_less_iff_conj)
    ultimately show ?thesis using e(2) by simp
  qed
qed

lemma SendRawData_all:
  assumes "camera_laws cam pos fr n used" and "k \<le> length mem"
  shows "\<exists>e. SendRawData cam mem (int k) s = Some (s\<lparr>cp_env := e, cp_sent := cp_sent s @ take k mem,
    capture_check_sum := sum16 (char_signed cam) (take k mem)\<rparr>) \<and> pos e = pos (cp_env s)"
  using send_loop_all [OF assms(1), of 0 k mem s] assms(2) by (auto simp: SendRawData_def)

lemma DumpRawData_inside: "off + plen \<le> length arr \<Longrightarrow> DumpRawData arr off len plen = Some ()"
proof -
  assume "off + plen \<le> length arr"
  then have "each_opt (\<lambda>n u. map_option (\<lambda>_. ()) (read_at arr (off + n))) [0..<k] () = Some ()" if "k \<le> plen" for k
    using that by (induction k) (simp_all add: each_opt_append read_at_def)
  from this [of "min len plen"] show ?thesis by (simp add: DumpRawData_def)
qed

section \<open>Reading frames\<close>

definition streaming :: "nat \<Rightarrow> nat \<Rightarrow> 's cap \<Rightarrow> bool" where
  "streaming n used s \<longleftrightarrow>
     (\<exists>bs. buffers (cap_info s) = Bufs bs \<and> length bs = n \<and> n_buffers (cap_info s) = n \<and> (\<forall>b\<in>set bs. used \<le> length b))"

text \<open>What a capture was asked for, and what it has produced.\<close>

definition settings :: "'s cap \<Rightarrow> int \<times> int \<times> int \<times> int \<times> sensor_link" where
  "settings s = (capture_mode s, capture_frames s, cap_width (cap_info s), cap_height (cap_info s), sensor_link (cap_info s))"

definition outs :: "'s cap \<Rightarrow> u8 list \<times> u32 list option \<times> u16 list option \<times> int \<times> u16" where
  "outs s = (cp_sent s, averge_frame0 s, averge_frame1 s, capture_frames_index s, capture_check_sum s)"

lemmas view_defs = settings_def outs_def

definition run_callback :: "'s callback option \<Rightarrow> 's callback" where
  "run_callback callback index mem sz s = (case callback of None \<Rightarrow> Some s | Some f \<Rightarrow> f index mem sz s)"

lemma read_frame_effect:
  assumes laws: "camera_laws cam pos fr n used" and "streaming n used s" and "used < 2 ^ 31"
    and cb: "\<And>b t. take used b = fr (pos (cp_env s)) \<Longrightarrow> used \<le> length b \<Longrightarrow> settings t = settings s \<Longrightarrow> outs t = outs s \<Longrightarrow>
      \<exists>t'. run_callback callback i b (int used) t = Some t' \<and> cap_info t' = cap_info t \<and> settings t' = settings t \<and>
        pos (cp_env t') = pos (cp_env t) \<and> Q (outs t')"
  shows "\<exists>s'. read_frame cam callback i s = Some s' \<and> streaming n used s' \<and> settings s' = settings s \<and>
    pos (cp_env s') = Suc (pos (cp_env s)) \<and> Q (outs s')"
proof -
  obtain bs where bs: "buffers (cap_info s) = Bufs bs" "length bs = n" "n_buffers (cap_info s) = n" "\<forall>b\<in>set bs. used \<le> length b"
    using assms(2) by (auto simp: streaming_def)
  obtain k e where k: "cm_dqbuf cam (dev_fd (cap_info s)) (mplane (cap_info s)) (cp_env s) = (Some (k, used, fr (pos (cp_env s))), e)" "k < n"
    "pos e = Suc (pos (cp_env s))" using camera_gives(8) [OF laws] by blast
  let ?b = "overlay (fr (pos (cp_env s))) (bs ! k)"
  let ?t = "set_buffer k ?b bs (s\<lparr>cp_env := e\<rparr>)"
  have lk: "used \<le> length (bs ! k)" using bs(2,4) k(2) by simp
  have b: "take used ?b = fr (pos (cp_env s))" "used \<le> length ?b"
    using lk camera_gives(2) [OF laws, of "pos (cp_env s)"] by (simp_all add: overlay_prefix)
  have sg: "signed_take_bit 31 (int used) = int used" using assms(3) by (simp add: signed_take_bit_int_eq_self)
  obtain t' where t': "run_callback callback i ?b (int used) ?t = Some t'" "cap_info t' = cap_info ?t" "settings t' = settings ?t"
    "pos (cp_env t') = pos (cp_env ?t)" "Q (outs t')"
    using cb [OF b, of ?t] by (auto simp: view_defs set_buffer_def info_do_def)
  let ?s = "env_do (cm_qbuf cam (dev_fd (cap_info s)) (mplane (cap_info s)) k) (set_buffer k (replicate used 0 @ drop used ?b) bs t')"
  have "read_frame cam callback i s = Some ?s"
    using bs k t'(1) b(2) sg by (cases callback) (simp_all add: read_frame_def run_callback_def Let_def)
  moreover have "streaming n used ?s"
  proof -
    have "\<forall>x\<in>set (bs[k := replicate used 0 @ drop used ?b]). used \<le> length x"
      using bs(4) set_update_subset_insert [of bs k "replicate used 0 @ drop used ?b"] by auto
    with bs t'(2) show ?thesis by (auto simp: streaming_def env_do_def set_buffer_def info_do_def)
  qed
  moreover have "settings ?s = settings s" "outs ?s = outs t'" "pos (cp_env ?s) = Suc (pos (cp_env s))"
    using t'(3,4) k(3) camera_keeps(7) [OF laws] by (simp_all add: view_defs env_do_def set_buffer_def info_do_def)
  ultimately show ?thesis using t'(5) by auto
qed

lemma read_frame_skips:
  assumes "camera_laws cam pos fr n used" and "streaming n used s" and "used < 2 ^ 31"
  shows "\<exists>s'. read_frame cam None i s = Some s' \<and> streaming n used s' \<and> settings s' = settings s \<and>
    pos (cp_env s') = Suc (pos (cp_env s)) \<and> outs s' = outs s"
  using read_frame_effect [OF assms, of None i "\<lambda>x. x = outs s"] by (simp add: run_callback_def)

lemma SetLHcg_keeps:
  assumes "camera_laws cam pos fr n used"
  shows "cap_info (SetLHcg cam m s) = cap_info s" "settings (SetLHcg cam m s) = settings s" "outs (SetLHcg cam m s) = outs s"
    "pos (cp_env (SetLHcg cam m s)) = pos (cp_env s)"
  using camera_keeps [OF assms] by (auto simp: SetLHcg_def view_defs split: prod.splits)

lemma skip_frames_five:
  assumes laws: "camera_laws cam pos fr n used" and "streaming n used s" and "used < 2 ^ 31" and "capture_frames_index s = 0"
  shows "\<exists>s'. skip_frames cam s = Some s' \<and> streaming n used s' \<and> settings s' = settings s \<and>
    pos (cp_env s') = pos (cp_env s) + 5 \<and> outs s' = outs s"
proof -
  let ?f = "\<lambda>i s. read_frame cam None (int i) (if i = 0 \<and> lhcg (cap_info s) \<noteq> 2 then SetLHcg cam (lhcg (cap_info s)) s else s)"
  let ?P = "\<lambda>i t. streaming n used t \<and> settings t = settings s \<and> pos (cp_env t) = pos (cp_env s) + i \<and> outs t = outs s"
  have "\<exists>t'. ?f i t = Some t' \<and> ?P (Suc i) t'" if "?P i t" for i t
  proof -
    let ?t = "if i = 0 \<and> lhcg (cap_info t) \<noteq> 2 then SetLHcg cam (lhcg (cap_info t)) t else t"
    have "?P i ?t" using that SetLHcg_keeps [OF laws] by (auto simp: streaming_def)
    with read_frame_skips [OF laws, of ?t "int i"] assms(3) show ?thesis by auto
  qed
  with for_range [of 0 5 ?P s ?f] assms(2,4) show ?thesis by (auto simp: skip_frames_def)
qed

section \<open>One frame of many\<close>

text \<open>A picture large enough for the two values in its lower half that are logged, whose size in bytes is an \<^verbatim>\<open>int\<close>.\<close>

definition geometry :: "int \<Rightarrow> int \<Rightarrow> nat \<Rightarrow> bool" where
  "geometry w h len \<longleftrightarrow> 3 \<le> w \<and> w < 65536 \<and> 21 \<le> h \<and> h < 65536 \<and> w * h < 2 ^ 30 \<and> int len = w * h"

lemma geometry_facts:
  assumes "geometry w h len"
  shows "frame_len (word_of_int w) (word_of_int h) = Some len" "2 * len < 2 ^ 31"
    "nat ((h div 2 + 10) * w + w div 2) + 2 \<le> len" "w * h * 2 = int (2 * len)"
proof -
  note g = assms [unfolded geometry_def]
  have l: "int len < 2 ^ 30" using g by simp
  then show "2 * len < 2 ^ 31" by simp
  show "w * h * 2 = int (2 * len)" using g by simp
  have "unat (word_of_int w :: u16) = nat w" "unat (word_of_int h :: u16) = nat h"
    using g by (simp_all add: unsigned_of_int take_bit_int_eq_self)
  moreover have "nat h * nat w = nat (int len)" using g nat_mult_distrib [of h w] by (simp only: mult.commute [of w h], linarith)
  ultimately show "frame_len (word_of_int w) (word_of_int h) = Some len" using l by (simp add: frame_len_def)
  have "(h div 2 + 10) * w \<le> (h - 1) * w" using g by (intro mult_right_mono) linarith+
  moreover have "(h - 1) * w = int len - w" using g by (simp add: algebra_simps)
  moreover have "w div 2 + 2 \<le> w" using g by linarith
  ultimately have "(h div 2 + 10) * w + w div 2 + 2 \<le> int len" by linarith
  moreover have "0 \<le> (h div 2 + 10) * w + w div 2" using g by simp
  ultimately show "nat ((h div 2 + 10) * w + w div 2) + 2 \<le> len" by linarith
qed

definition swaps :: "sensor_link \<Rightarrow> bool" where
  "swaps lk \<longleftrightarrow> lk \<noteq> Link_to_vicap"

definition add_frame :: "sensor_link \<Rightarrow> u8 list \<Rightarrow> u32 list \<Rightarrow> u32 list" where
  "add_frame lk fr f0 = map (\<lambda>i. f0 ! i + ucast (pixel_in (swaps lk) (words16 fr ! i))) [0..<length f0]"

lemma words16_take:
  assumes "take (2 * len) b = fr" and "2 * len \<le> length b" and "i < len"
  shows "words16 b ! i = words16 fr ! i"
proof -
  have "b = fr @ drop (2 * len) b" "length fr = 2 * len" using assms(1,2) by auto
  then have "words16 b = words16 fr @ words16 (drop (2 * len) b)" by (metis dvd_triv_left words16_append)
  with assms(3) \<open>length fr = 2 * len\<close> show ?thesis by (simp add: nth_append words16_length)
qed

lemma callback_adds:
  assumes "settings t = (m, K, w, h, lk)" and "geometry w h len" and "averge_frame0 t = Some f0" "length f0 = len"
    and "take (2 * len) b = fr" "2 * len \<le> length b"
  shows "DoMultiFrameCallBack cam i b (int (2 * len)) t = after_addition cam i b (int (2 * len)) (t\<lparr>averge_frame0 := Some (add_frame lk fr f0)\<rparr>)"
proof -
  note g = geometry_facts [OF assms(2)]
  have t: "cap_width (cap_info t) = w" "cap_height (cap_info t) = h" "sensor_link (cap_info t) = lk" using assms(1) by (simp_all add: settings_def)
  have fb: "frame_bytes t = Some (int (2 * len))" using t g(2,4) by (simp add: frame_bytes_def)
  have l: "len \<le> length (words16 b)" using assms(6) by (simp add: words16_length)
  have "MultiFrameAddition (word_of_int w) (word_of_int h) (swaps lk) (words16 b) f0 = Some (add_frame lk fr f0)"
    using addition_exact [OF g(1), of f0 "words16 b" "swaps lk"] assms(4) l words16_take [OF assms(5,6)] by (simp add: add_frame_def)
  moreover have "DumpRawData (words16 b) (nat ((h div 2 + 10) * w + w div 2)) k 2 = Some ()"
    "DumpRawData (add_frame lk fr f0) (nat ((h div 2 + 10) * w + w div 2)) k 2 = Some ()" for k
    using g(3) l assms(4) by (auto intro!: DumpRawData_inside simp: add_frame_def)
  ultimately show ?thesis using t assms(3) fb by (simp add: DoMultiFrameCallBack_def Let_def swaps_def)
qed

lemma after_plain: "settings t = (m, K, w, h, lk) \<Longrightarrow> i \<noteq> K - 1 \<Longrightarrow> i \<noteq> drop_bit 1 K - 1 \<Longrightarrow> after_addition cam i b sz t = Some t"
  by (simp add: after_addition_def settings_def)

lemma after_middle:
  assumes "camera_laws cam pos fr n used" and "settings t = (m, K, w, h, lk)" and "i \<noteq> K - 1" "i = drop_bit 1 K - 1" and "k \<le> length b"
  shows "\<exists>e. after_addition cam i b (int k) t = Some (t\<lparr>cp_env := e, cp_sent := cp_sent t @ take k b,
    capture_check_sum := sum16 (char_signed cam) (take k b)\<rparr>) \<and> pos e = pos (cp_env t)"
  using SendRawData_all [OF assms(1,5), of t] assms(2-4) by (simp add: after_addition_def settings_def)

lemma after_last:
  assumes laws: "camera_laws cam pos fr n used" and "settings t = (m, K, w, h, lk)" "i = K - 1" and "geometry w h len"
    and "averge_frame0 t = Some f0" "averge_frame1 t = Some f1" "length f0 = len"
    and avg: "MultiFrameAverage (word_of_int w) (word_of_int h) (word_of_int K) (f0, f1) = Some (g0, g1)" "length g0 = len" "length g1 = len"
  shows "\<exists>e. after_addition cam i b (int (2 * len)) t = Some (t\<lparr>averge_frame0 := Some g0, averge_frame1 := Some g1, cp_env := e,
    cp_sent := cp_sent t @ bytes16 g1, capture_check_sum := sum16 (char_signed cam) (bytes16 g1)\<rparr>) \<and> pos e = pos (cp_env t)"
proof -
  note g = geometry_facts [OF assms(4)]
  have "DumpRawData g0 (nat ((h div 2 + 10) * w + w div 2)) k 2 = Some ()" "DumpRawData g1 (nat ((h div 2 + 10) * w + w div 2)) k 2 = Some ()" for k
    using g(3) avg(2,3) by (auto intro!: DumpRawData_inside)
  with SendRawData_all [OF laws, of "2 * len" "bytes16 g1" "t\<lparr>averge_frame0 := Some g0, averge_frame1 := Some g1\<rparr>"] assms avg
  show ?thesis by (simp add: after_addition_def settings_def Let_def bytes16_length)
qed

section \<open>Many frames\<close>

definition frames_from :: "(nat \<Rightarrow> u8 list) \<Rightarrow> nat \<Rightarrow> nat \<Rightarrow> u16 list list" where
  "frames_from fr p j = map (\<lambda>i. words16 (fr (p + i))) [0..<j]"

definition sum_after :: "sensor_link \<Rightarrow> (nat \<Rightarrow> u8 list) \<Rightarrow> nat \<Rightarrow> nat \<Rightarrow> nat \<Rightarrow> u32 list" where
  "sum_after lk fr p len j = frame_sums (swaps lk) (frames_from fr p j) len"

lemma sums_length [simp]: "length (sum_after lk fr p len j) = len"
  by (simp add: sum_after_def frame_sums_def)

lemma sums_Suc: "add_frame lk (fr (p + j)) (sum_after lk fr p len j) = sum_after lk fr p len (Suc j)"
  by (simp add: add_frame_def sum_after_def frame_sums_def frames_from_def pixel_sum_def unsigned_ucast_eq)

lemma sums_zero: "sum_after lk fr p len 0 = replicate len 0"
  by (simp add: sum_after_def frame_sums_def frames_from_def pixel_sum_def map_replicate_const)

text \<open>The state after \<open>j\<close> of the frames from \<open>p\<close> on have been added.\<close>

definition multi_at ::
  "('s \<Rightarrow> nat) \<Rightarrow> (nat \<Rightarrow> u8 list) \<Rightarrow> nat \<Rightarrow> nat \<Rightarrow> int \<times> int \<times> int \<times> int \<times> sensor_link \<Rightarrow> nat \<Rightarrow> u16 list \<Rightarrow> nat \<Rightarrow> u8 list \<times> u16 \<Rightarrow> 's cap \<Rightarrow> bool" where
  "multi_at pos fr n len st p f1 j r s \<longleftrightarrow> streaming n (2 * len) s \<and> settings s = st \<and> pos (cp_env s) = p + j \<and>
     outs s = (fst r, Some (sum_after (snd (snd (snd (snd st)))) fr p len j), Some f1, int j, snd r)"

lemma multi_step_effect:
  assumes laws: "camera_laws cam pos fr n (2 * len)" and "geometry w h len" and st: "st = (m, K, w, h, lk)" and "multi_at pos fr n len st p f1 j r s"
    and cb: "\<And>b t. take (2 * len) b = fr (p + j) \<Longrightarrow> 2 * len \<le> length b \<Longrightarrow> settings t = st \<Longrightarrow>
      outs t = (fst r, Some (sum_after lk fr p len (Suc j)), Some f1, int j, snd r) \<Longrightarrow>
      \<exists>t'. after_addition cam (int j) b (int (2 * len)) t = Some t' \<and> cap_info t' = cap_info t \<and> settings t' = settings t \<and>
        pos (cp_env t') = pos (cp_env t) \<and> outs t' = (out, f0', f1', int j, cs)"
  shows "\<exists>s'. multi_step cam (int j) s = Some s' \<and> streaming n (2 * len) s' \<and> settings s' = st \<and> pos (cp_env s') = p + Suc j \<and>
    outs s' = (out, f0', f1', int (Suc j), cs)"
proof -
  have s: "streaming n (2 * len) s" "settings s = st" "pos (cp_env s) = p + j" "outs s = (fst r, Some (sum_after lk fr p len j), Some f1, int j, snd r)"
    using assms(4) st by (simp_all add: multi_at_def)
  have "\<exists>t'. run_callback (Some (DoMultiFrameCallBack cam)) (int j) b (int (2 * len)) t = Some t' \<and> cap_info t' = cap_info t \<and> settings t' = settings t \<and>
        pos (cp_env t') = pos (cp_env t) \<and> outs t' = (out, f0', f1', int j, cs)"
    if b: "take (2 * len) b = fr (pos (cp_env s))" "2 * len \<le> length b" and t: "settings t = settings s" "outs t = outs s" for b t
  proof -
    let ?t = "t\<lparr>averge_frame0 := Some (sum_after lk fr p len (Suc j))\<rparr>"
    have f: "take (2 * len) b = fr (p + j)" using b(1) s(3) by simp
    have "settings t = (m, K, w, h, lk)" "averge_frame0 t = Some (sum_after lk fr p len j)" using t s(2,4) st by (simp_all add: outs_def)
    from callback_adds [OF this(1) assms(2) this(2) sums_length f b(2)]
    have "run_callback (Some (DoMultiFrameCallBack cam)) (int j) b (int (2 * len)) t = after_addition cam (int j) b (int (2 * len)) ?t"
      by (simp add: run_callback_def sums_Suc)
    moreover have "settings ?t = st" "outs ?t = (fst r, Some (sum_after lk fr p len (Suc j)), Some f1, int j, snd r)"
      using t s(2,4) by (simp_all add: view_defs)
    ultimately show ?thesis using cb [OF f b(2), of ?t] t(1) s(2) by auto
  qed
  from read_frame_effect [where Q = "\<lambda>x. x = (out, f0', f1', int j, cs)", OF laws s(1) geometry_facts(2) [OF assms(2)] this] obtain s' where
    "read_frame cam (Some (DoMultiFrameCallBack cam)) (int j) s = Some s'" "streaming n (2 * len) s'" "settings s' = settings s"
    "pos (cp_env s') = Suc (pos (cp_env s))" "outs s' = (out, f0', f1', int j, cs)" by blast
  then show ?thesis using s(2,3) by (auto simp: multi_step_def next_index_def view_defs streaming_def)
qed

lemma multi_step_plain:
  assumes "camera_laws cam pos fr n (2 * len)" "geometry w h len" "st = (m, K, w, h, lk)" "multi_at pos fr n len st p f1 j r s"
    and "int j \<noteq> K - 1" "int j \<noteq> drop_bit 1 K - 1"
  shows "\<exists>s'. multi_step cam (int j) s = Some s' \<and> multi_at pos fr n len st p f1 (Suc j) r s'"
  using multi_step_effect [OF assms(1-4), of "fst r" "Some (sum_after lk fr p len (Suc j))" "Some f1" "snd r"] assms(3,5,6)
  by (simp add: after_plain multi_at_def)

lemma multi_step_middle:
  assumes "camera_laws cam pos fr n (2 * len)" "geometry w h len" "st = (m, K, w, h, lk)" "multi_at pos fr n len st p f1 j r s"
    and "int j \<noteq> K - 1" "int j = drop_bit 1 K - 1"
  shows "\<exists>s'. multi_step cam (int j) s = Some s' \<and>
    multi_at pos fr n len st p f1 (Suc j) (fst r @ fr (p + j), sum16 (char_signed cam) (fr (p + j))) s'"
proof -
  have "\<exists>t'. after_addition cam (int j) b (int (2 * len)) t = Some t' \<and> cap_info t' = cap_info t \<and> settings t' = settings t \<and>
        pos (cp_env t') = pos (cp_env t) \<and> outs t' = (fst r @ fr (p + j), Some (sum_after lk fr p len (Suc j)), Some f1, int j, sum16 (char_signed cam) (fr (p + j)))"
    if H: "take (2 * len) b = fr (p + j)" "2 * len \<le> length b" "settings t = st"
      "outs t = (fst r, Some (sum_after lk fr p len (Suc j)), Some f1, int j, snd r)" for b t
  proof -
    obtain e where "after_addition cam (int j) b (int (2 * len)) t = Some (t\<lparr>cp_env := e, cp_sent := cp_sent t @ fr (p + j),
      capture_check_sum := sum16 (char_signed cam) (fr (p + j))\<rparr>)" "pos e = pos (cp_env t)"
      using after_middle [OF assms(1) H(3) [unfolded assms(3)] assms(5,6) H(2)] unfolding H(1) by blast
    then show ?thesis
      by (intro exI conjI) (assumption, use H(4) in \<open>simp_all add: view_defs\<close>)
  qed
  from multi_step_effect [OF assms(1-4) this] obtain s' where "multi_step cam (int j) s = Some s'" "streaming n (2 * len) s'" "settings s' = st"
    "pos (cp_env s') = p + Suc j"
    "outs s' = (fst r @ fr (p + j), Some (sum_after lk fr p len (Suc j)), Some f1, int (Suc j), sum16 (char_signed cam) (fr (p + j)))" by blast
  with assms(3) show ?thesis by (intro exI [of _ s']) (simp add: multi_at_def)
qed

lemma multi_step_last:
  assumes "camera_laws cam pos fr n (2 * len)" "geometry w h len" "st = (m, int k, w, h, lk)" "multi_at pos fr n len st p f1 j r s"
    and "k \<in> frame_counts" "Suc j = k" "length f1 = len"
  shows "\<exists>s' q g0. multi_step cam (int j) s = Some s' \<and> streaming n (2 * len) s' \<and> settings s' = st \<and> pos (cp_env s') = p + k \<and>
    outs s' = (fst r @ bytes16 q, Some g0, Some q, int k, sum16 (char_signed cam) (bytes16 q)) \<and>
    length q = len \<and> (\<forall>i<len. unat (q ! i) = pixel_mean (swaps lk) (frames_from fr p k) i)"
proof -
  have "length (frames_from fr p k) \<in> frame_counts" using assms(5) by (simp add: frames_from_def)
  from average_of_sums [OF this geometry_facts(1) [OF assms(2)] assms(7), of "swaps lk"] obtain g0 q where
    q: "MultiFrameAverage (word_of_int w) (word_of_int h) (word_of_int (int k)) (sum_after lk fr p len k, f1) = Some (g0, q)"
      "length g0 = len" "length q = len" "\<forall>i<len. unat (q ! i) = pixel_mean (swaps lk) (frames_from fr p k) i"
    by (auto simp: sum_after_def frames_from_def)
  have "\<exists>t'. after_addition cam (int j) b (int (2 * len)) t = Some t' \<and> cap_info t' = cap_info t \<and> settings t' = settings t \<and>
        pos (cp_env t') = pos (cp_env t) \<and> outs t' = (fst r @ bytes16 q, Some g0, Some q, int j, sum16 (char_signed cam) (bytes16 q))"
    if H: "take (2 * len) b = fr (p + j)" "2 * len \<le> length b" "settings t = st"
      "outs t = (fst r, Some (sum_after lk fr p len (Suc j)), Some f1, int j, snd r)" for b t
  proof -
    have f: "averge_frame0 t = Some (sum_after lk fr p len k)" "averge_frame1 t = Some f1" "int j = int k - 1"
      using H(4) assms(6) by (auto simp: outs_def)
    from after_last [OF assms(1) H(3) [unfolded assms(3)] f(3) assms(2) f(1,2) sums_length q(1-3)] obtain e where
      "after_addition cam (int j) b (int (2 * len)) t = Some (t\<lparr>averge_frame0 := Some g0, averge_frame1 := Some q, cp_env := e,
         cp_sent := cp_sent t @ bytes16 q, capture_check_sum := sum16 (char_signed cam) (bytes16 q)\<rparr>)" "pos e = pos (cp_env t)" by blast
    then show ?thesis
      by (intro exI conjI) (assumption, use H(4) in \<open>simp_all add: view_defs\<close>)
  qed
  from multi_step_effect [OF assms(1-4) this] obtain s' where "multi_step cam (int j) s = Some s'" "streaming n (2 * len) s'" "settings s' = st"
    "pos (cp_env s') = p + Suc j"
    "outs s' = (fst r @ bytes16 q, Some g0, Some q, int (Suc j), sum16 (char_signed cam) (bytes16 q))" by blast
  with q(3,4) assms(6) show ?thesis by (intro exI [of _ s'] exI [of _ q] exI [of _ g0]) simp
qed

text \<open>The loop over whole numbers, as a loop over indices.\<close>

lemma each_opt_map: "each_opt f (map g xs) = each_opt (\<lambda>x. f (g x)) xs"
  by (induction xs) simp_all

lemma upto_map: "[int a..int b - 1] = map int [a..<b]"
  by (induction b) (auto simp: upto_rec2)

lemma half_frames:
  assumes "k \<in> frame_counts"
  shows "drop_bit 1 (int k) = int (k div 2)" "1 \<le> k div 2" "2 * (k div 2) = k" "k div 2 < k" "k < 256"
  using assms by (auto simp: frame_counts_def drop_bit_eq_div)

text \<open>The first request adds the first half of the frames and sends the last of them.\<close>

lemma first_half:
  assumes laws: "camera_laws cam pos fr n (2 * len)" "geometry w h len" "st = (m, int k, w, h, lk)" "k \<in> frame_counts"
    and "multi_at pos fr n len st p f1 0 r s"
  shows "\<exists>s'. each_opt (multi_step cam) [0..int (k div 2) - 1] s = Some s' \<and>
    multi_at pos fr n len st p f1 (k div 2) (fst r @ fr (p + (k div 2 - 1)), sum16 (char_signed cam) (fr (p + (k div 2 - 1)))) s'"
proof -
  let ?h = "k div 2"
  note hf = half_frames [OF assms(4)]
  obtain s1 where s1: "each_opt (\<lambda>i. multi_step cam (int i)) [0..<?h - 1] s = Some s1" "multi_at pos fr n len st p f1 (?h - 1) r s1"
    using for_range [of 0 "?h - 1" "\<lambda>j. multi_at pos fr n len st p f1 j r" s "\<lambda>i. multi_step cam (int i)"]
      multi_step_plain [OF laws(1-3)] assms(5) hf by (auto simp: of_nat_diff)
  have "\<exists>s'. multi_step cam (int (?h - 1)) s1 = Some s' \<and>
      multi_at pos fr n len st p f1 (Suc (?h - 1)) (fst r @ fr (p + (?h - 1)), sum16 (char_signed cam) (fr (p + (?h - 1)))) s'"
    using hf by (intro multi_step_middle [OF laws(1-3) s1(2)]) (simp_all add: of_nat_diff)
  moreover have "[0..<?h] = [0..<?h - 1] @ [?h - 1]" using hf(2) by (metis One_nat_def Suc_le_D diff_Suc_1 upt_Suc_append zero_le)
  ultimately show ?thesis using s1(1) hf(2) upto_map [of 0 ?h] by (auto simp: each_opt_map each_opt_append)
qed

lemma second_half:
  assumes laws: "camera_laws cam pos fr n (2 * len)" "geometry w h len" "st = (m, int k, w, h, lk)" "k \<in> frame_counts"
    and "multi_at pos fr n len st p f1 (k div 2) r s" "length f1 = len"
  shows "\<exists>s' q g0. each_opt (multi_step cam) [int (k div 2)..int k - 1] s = Some s' \<and> streaming n (2 * len) s' \<and> settings s' = st \<and>
    outs s' = (fst r @ bytes16 q, Some g0, Some q, int k, sum16 (char_signed cam) (bytes16 q)) \<and>
    length q = len \<and> (\<forall>i<len. unat (q ! i) = pixel_mean (swaps lk) (frames_from fr p k) i)"
proof -
  note hf = half_frames [OF assms(4)]
  have le: "k div 2 \<le> k - 1" using hf by linarith
  obtain s1 where s1: "each_opt (\<lambda>i. multi_step cam (int i)) [k div 2..<k - 1] s = Some s1" "multi_at pos fr n len st p f1 (k - 1) r s1"
    using for_range [of "k div 2" "k - 1" "\<lambda>j. multi_at pos fr n len st p f1 j r" s "\<lambda>i. multi_step cam (int i)"]
      multi_step_plain [OF laws(1-3)] assms(5) hf le by (auto simp: of_nat_diff)
  have "Suc (k - 1) = k" using hf by simp
  from multi_step_last [OF laws(1-3) s1(2) assms(4) this assms(6)] obtain s' q g0 where
    s': "multi_step cam (int (k - 1)) s1 = Some s'" "streaming n (2 * len) s'" "settings s' = st"
    "outs s' = (fst r @ bytes16 q, Some g0, Some q, int k, sum16 (char_signed cam) (bytes16 q))"
    "length q = len" "\<forall>i<len. unat (q ! i) = pixel_mean (swaps lk) (frames_from fr p k) i" by blast
  have "[k div 2..<k] = [k div 2..<k - 1] @ [k - 1]" using hf \<open>Suc (k - 1) = k\<close> by (metis less_Suc_eq_le upt_Suc_append)
  then have "each_opt (multi_step cam) [int (k div 2)..int k - 1] s = Some s'"
    using s1(1) s'(1) by (simp add: upto_map each_opt_map each_opt_append)
  with s'(2-6) show ?thesis by blast
qed

section \<open>From start to stop\<close>

lemma init_mmap_effect:
  assumes laws: "camera_laws cam pos fr n used"
  shows "\<exists>s'. init_mmap cam s = Some s' \<and> streaming n used s' \<and> settings s' = settings s \<and> outs s' = outs s \<and> pos (cp_env s') = pos (cp_env s)"
proof -
  obtain e1 where e1: "cm_reqbufs cam (dev_fd (cap_info s)) (mplane (cap_info s)) (g_mmapNumber cam) (cp_env s) = ((0, False, n), e1)"
    "pos e1 = pos (cp_env s)" using camera_gives(4) [OF laws] by blast
  obtain e2 where e2: "cm_malloc cam n e1 = (True, e2)" "pos e2 = pos e1" using camera_gives(5) [OF laws] by blast
  let ?P = "\<lambda>i (bs, t). length bs = i \<and> (\<forall>b\<in>set bs. used \<le> length b) \<and> (\<exists>e. t = s\<lparr>cp_env := e\<rparr> \<and> pos e = pos (cp_env s))"
  have step: "\<exists>st'. map_buffer cam i st = Some st' \<and> ?P (Suc i) st'" if "0 \<le> i" "i < n" "?P i st" for i st
  proof -
    from that(3) obtain bs e where st: "st = (bs, s\<lparr>cp_env := e\<rparr>)" "length bs = i" "\<forall>b\<in>set bs. used \<le> length b" "pos e = pos (cp_env s)" by auto
    obtain len off e1 where q: "cm_querybuf cam (dev_fd (cap_info s)) (mplane (cap_info s)) i e = (Some (len, off), e1)" "used \<le> len" "pos e1 = pos e"
      using camera_gives(6) [OF laws] by blast
    obtain e2 where m: "cm_mmap cam len (dev_fd (cap_info s)) off e1 = (True, e2)" "pos e2 = pos e1" using camera_gives(7) [OF laws] by blast
    have "map_buffer cam i st = Some (bs @ [replicate len 0], s\<lparr>cp_env := e2\<rparr>)" using st(1) q(1) m(1) by (simp add: map_buffer_def)
    then show ?thesis using st q(2,3) m(2) by auto
  qed
  have "?P 0 ([], s\<lparr>cp_env := e2\<rparr>)" using e1(2) e2(2) by auto
  from for_range [of 0 n ?P _ "map_buffer cam", OF _ this step] obtain bs e where
    r: "each_opt (map_buffer cam) [0..<n] ([], s\<lparr>cp_env := e2\<rparr>) = Some (bs, s\<lparr>cp_env := e\<rparr>)"
      "length bs = n" "\<forall>b\<in>set bs. used \<le> length b" "pos e = pos (cp_env s)" by auto
  have "init_mmap cam s = Some (info_do (\<lambda>c. c\<lparr>buffers := Bufs bs, n_buffers := n\<rparr>) (s\<lparr>cp_env := e\<rparr>))"
    using e1(1) e2(1) r(1) camera_gives(1) [OF laws] by (simp add: init_mmap_def)
  with r(2-4) show ?thesis by (simp add: streaming_def info_do_def view_defs)
qed

lemma set_up_keeps:
  assumes "camera_laws cam pos fr n used"
  shows "settings (set_up cam fd caps s) = settings s" "outs (set_up cam fd caps s) = outs s" "pos (cp_env (set_up cam fd caps s)) = pos (cp_env s)"
  using camera_keeps [OF assms] by (simp_all add: set_up_def view_defs env_do_def info_do_def Let_def)

lemma init_device_effect:
  assumes laws: "camera_laws cam pos fr n used"
  shows "\<exists>s'. init_device cam s = Some (0, s') \<and> streaming n used s' \<and> settings s' = settings s \<and> outs s' = outs s \<and> pos (cp_env s') = pos (cp_env s)"
proof -
  obtain fd e1 where o: "cm_open cam (dev_name (cap_info s)) (cp_env s) = (fd, e1)" by (cases "cm_open cam (dev_name (cap_info s)) (cp_env s)")
  obtain caps e2 where c: "cm_querycap cam fd e1 = ((0, caps), e2)" "pos e2 = pos e1" "caps AND V4L2_CAP_STREAMING \<noteq> 0"
    "caps AND V4L2_CAP_VIDEO_CAPTURE \<noteq> 0 \<or> caps AND V4L2_CAP_VIDEO_CAPTURE_MPLANE \<noteq> 0" using camera_gives(3) [OF laws] by blast
  let ?t = "info_do (\<lambda>c. c\<lparr>dev_fd := fd\<rparr>) (s\<lparr>cp_env := e2\<rparr>)"
  have "init_device cam s = map_option (\<lambda>s2. (0, s2)) (init_mmap cam (set_up cam fd caps ?t))"
    using o c by (auto simp: init_device_def Let_def)
  moreover have "settings ?t = settings s" "outs ?t = outs s" "pos (cp_env ?t) = pos (cp_env s)"
    using camera_keeps(10) [OF laws o] c(2) by (simp_all add: view_defs info_do_def)
  ultimately show ?thesis using init_mmap_effect [OF laws, of "set_up cam fd caps ?t"] set_up_keeps [OF laws, of fd caps ?t] by auto
qed

lemma fold_env_keeps:
  assumes "\<And>x e. pos (f x e) = pos e"
  shows "cap_info (fold (\<lambda>x. env_do (f x)) xs s) = cap_info s" "settings (fold (\<lambda>x. env_do (f x)) xs s) = settings s"
    "outs (fold (\<lambda>x. env_do (f x)) xs s) = outs s" "pos (cp_env (fold (\<lambda>x. env_do (f x)) xs s)) = pos (cp_env s)"
  using assms by (induction xs arbitrary: s) (simp_all add: env_do_def view_defs)

lemma start_capturing_keeps:
  assumes "camera_laws cam pos fr n used"
  shows "cap_info (start_capturing cam s) = cap_info s" "settings (start_capturing cam s) = settings s" "outs (start_capturing cam s) = outs s"
    "pos (cp_env (start_capturing cam s)) = pos (cp_env s)"
proof -
  let ?t = "fold (\<lambda>i. env_do (cm_qbuf cam (dev_fd (cap_info s)) (mplane (cap_info s)) i)) [0..<n_buffers (cap_info s)] s"
  have st: "start_capturing cam s = env_do (cm_streamon cam (dev_fd (cap_info s)) (mplane (cap_info s))) ?t"
    by (simp add: start_capturing_def Let_def)
  have "cap_info ?t = cap_info s" "settings ?t = settings s" "outs ?t = outs s" "pos (cp_env ?t) = pos (cp_env s)"
    by (rule fold_env_keeps [where pos = pos], rule camera_keeps(7) [OF assms])+
  then show "cap_info (start_capturing cam s) = cap_info s" "settings (start_capturing cam s) = settings s" "outs (start_capturing cam s) = outs s"
    "pos (cp_env (start_capturing cam s)) = pos (cp_env s)"
    using camera_keeps(8) [OF assms] unfolding st by (simp_all add: env_do_def view_defs)
qed

lemma StartCapture_effect:
  assumes laws: "camera_laws cam pos fr n (2 * len)" and "settings s = (m, K, w, h, lk)" "m \<noteq> CAPTURE_NORMAL" "geometry w h len" "capture_frames_index s = 0"
  shows "\<exists>s'. StartCapture cam s = Some s' \<and> streaming n (2 * len) s' \<and> settings s' = settings s \<and> pos (cp_env s') = pos (cp_env s) \<and>
    outs s' = (cp_sent s, Some (replicate len 0), Some (replicate len 0), 0, capture_check_sum s)"
proof -
  obtain t where t: "init_device cam s = Some (0, t)" "streaming n (2 * len) t" "settings t = settings s" "outs t = outs s" "pos (cp_env t) = pos (cp_env s)"
    using init_device_effect [OF laws, of s] by blast
  let ?u = "start_capturing cam t"
  have u: "cap_info ?u = cap_info t" "settings ?u = (m, K, w, h, lk)" "outs ?u = outs s" "pos (cp_env ?u) = pos (cp_env s)"
    using start_capturing_keeps [OF laws, of t] t(3-5) assms(2) by simp_all
  have d: "cap_width (cap_info ?u) = w" "cap_height (cap_info ?u) = h" "capture_mode ?u = m" using u(2) by (simp_all add: settings_def)
  have g: "w * h = int len" "w * h < 2 ^ 30" using assms(4) by (simp_all add: geometry_def)
  then have sz: "nat (take_bit 32 (w * h * 4)) = 4 * len" "\<not> 2 ^ 31 \<le> w * h" by (simp_all add: take_bit_int_eq_self)
  obtain e1 where e1: "cm_malloc cam (4 * len) (cp_env ?u) = (True, e1)" "pos e1 = pos (cp_env ?u)" using camera_gives(5) [OF laws] by blast
  obtain e2 where e2: "cm_malloc cam (2 * len) e1 = (True, e2)" "pos e2 = pos e1" using camera_gives(5) [OF laws] by blast
  have "InitMultiFrame cam ?u = Some (?u\<lparr>cp_env := e2, averge_frame0 := Some (replicate len 0), averge_frame1 := Some (replicate len 0)\<rparr>)"
    using sz e1(1) e2(1) d by (simp add: InitMultiFrame_def Let_def)
  then have "StartCapture cam s = Some (?u\<lparr>cp_env := e2, averge_frame0 := Some (replicate len 0), averge_frame1 := Some (replicate len 0)\<rparr>)"
    using t(1) assms(3) d(3) by (simp add: StartCapture_def Let_def)
  then show ?thesis using u e1(2) e2(2) t(2) assms(2,5) by (simp add: view_defs streaming_def)
qed

text \<open>Stopping frees the buffers, and it does not return when they are already freed.\<close>

lemma StopCapture_effect:
  assumes "streaming n used s" and "capture_mode s \<noteq> CAPTURE_NORMAL"
  shows "\<exists>s'. StopCapture cam s = Some s' \<and> buffers (cap_info s') = Freed \<and> dev_fd (cap_info s') = -1 \<and> settings s' = settings s \<and>
    outs s' = (cp_sent s, None, None, capture_frames_index s, capture_check_sum s)"
proof -
  obtain bs where bs: "buffers (cap_info s) = Bufs bs" "length bs = n" "n_buffers (cap_info s) = n" using assms(1) by (auto simp: streaming_def)
  let ?t = "stop_capturing cam s"
  let ?u = "fold (\<lambda>b. env_do (cm_munmap cam (length b))) bs ?t"
  have t: "cap_info ?t = cap_info s" "settings ?t = settings s" "outs ?t = outs s" by (simp_all add: stop_capturing_def env_do_def view_defs)
  have u: "cap_info ?u = cap_info s" "settings ?u = settings s" "outs ?u = outs s"
    using fold_env_keeps [where pos = "\<lambda>_. ()" and xs = bs and s = ?t and f = "\<lambda>b. cm_munmap cam (length b)"] t by simp_all
  have "uninit_device cam ?t = Some (info_do (\<lambda>c. c\<lparr>dev_fd := -1\<rparr>) (env_do (cm_close cam (dev_fd (cap_info s))) (info_do (\<lambda>c. c\<lparr>buffers := Freed\<rparr>) ?u)))"
    using bs t(1) u(1) by (simp add: uninit_device_def info_do_def)
  with u assms(2) show ?thesis
    by (auto simp: StopCapture_def RawCaptureDeinit_def Let_def info_do_def env_do_def deInitMultiFrame_def view_defs)
qed

lemma StopCapture_freed: "buffers (cap_info s) = Freed \<Longrightarrow> StopCapture cam s = None"
  by (simp add: StopCapture_def uninit_device_def stop_capturing_def env_do_def)

section \<open>A whole capture\<close>

text \<open>What a capture of \<open>k\<close> frames has been asked for.\<close>

definition multi_request :: "nat \<Rightarrow> nat \<Rightarrow> 's cap \<Rightarrow> bool" where
  "multi_request k len s \<longleftrightarrow> capture_mode s \<noteq> CAPTURE_NORMAL \<and> capture_frames s = int k \<and> k \<in> frame_counts \<and>
     capture_frames_index s = 0 \<and> geometry (cap_width (cap_info s)) (cap_height (cap_info s)) len"

lemma first_request:
  assumes laws: "camera_laws cam pos fr n (2 * len)" and "multi_request k len s"
  defines "mid \<equiv> fr (pos (cp_env s) + 5 + (k div 2 - 1))"
  shows "\<exists>s1. RawCaputure cam s = Some s1 \<and>
    multi_at pos fr n len (settings s) (pos (cp_env s) + 5) (replicate len 0) (k div 2) (cp_sent s @ mid, sum16 (char_signed cam) mid) s1"
proof -
  let ?p = "pos (cp_env s) + 5"
  obtain m K w h lk where st: "settings s = (m, K, w, h, lk)" by (metis prod_cases5)
  have r: "m \<noteq> CAPTURE_NORMAL" "K = int k" "geometry w h len" "k \<in> frame_counts" "capture_frames_index s = 0" "capture_mode s = m"
    using assms(2) st by (auto simp: multi_request_def settings_def)
  note hf = half_frames [OF r(4)] and g = geometry_facts [OF r(3)]
  obtain a where a: "StartCapture cam s = Some a" "streaming n (2 * len) a" "settings a = settings s" "pos (cp_env a) = pos (cp_env s)"
    "outs a = (cp_sent s, Some (replicate len 0), Some (replicate len 0), 0, capture_check_sum s)"
    using StartCapture_effect [OF laws st r(1,3,5)] by blast
  have "capture_frames_index a = 0" using a(5) by (simp add: outs_def)
  then obtain b where b: "skip_frames cam a = Some b" "streaming n (2 * len) b" "settings b = settings a" "pos (cp_env b) = pos (cp_env a) + 5" "outs b = outs a"
    using skip_frames_five [OF laws a(2) g(2)] by blast
  have "multi_at pos fr n len (settings s) ?p (replicate len 0) 0 (cp_sent s, capture_check_sum s) b"
    using a b st by (simp add: multi_at_def sums_zero)
  from first_half [OF laws r(3) _ r(4) this] st r(2) obtain c where
    c: "each_opt (multi_step cam) [0..int (k div 2) - 1] b = Some c"
      "multi_at pos fr n len (settings s) ?p (replicate len 0) (k div 2) (cp_sent s @ mid, sum16 (char_signed cam) mid) c"
    unfolding mid_def by auto
  have ca: "capture_frames b = int k" "capture_frames_index b = 0" "capture_mode a = m"
    using a(3,5) b(3,5) st r(2) by (auto simp: view_defs)
  have cc: "capture_frames_index c = int (k div 2)" "capture_frames c = int k" using c(2) st r(2) by (auto simp: multi_at_def view_defs)
  have "DoMultiFrameCapture cam a = Some c" using b(1) c(1) ca hf(1) by (simp add: DoMultiFrameCapture_def Let_def)
  then have "RawCaputure cam s = Some c" using a(1) r(1,5) ca cc hf(4) by (simp add: RawCaputure_def)
  with c(2) show ?thesis by blast
qed

lemma second_request:
  assumes laws: "camera_laws cam pos fr n (2 * len)" and "multi_request k len s"
    and "multi_at pos fr n len (settings s) p (replicate len 0) (k div 2) r s1"
  shows "\<exists>s2 q. RawCaputure cam s1 = Some s2 \<and> buffers (cap_info s2) = Freed \<and> dev_fd (cap_info s2) = -1 \<and>
    outs s2 = (fst r @ bytes16 q, None, None, int k, sum16 (char_signed cam) (bytes16 q)) \<and>
    length q = len \<and> (\<forall>i<len. unat (q ! i) = pixel_mean (swaps (sensor_link (cap_info s))) (frames_from fr p k) i)"
proof -
  obtain m K w h lk where st: "settings s = (m, K, w, h, lk)" by (metis prod_cases5)
  have e: "m \<noteq> CAPTURE_NORMAL" "K = int k" "geometry w h len" "k \<in> frame_counts" "sensor_link (cap_info s) = lk"
    using assms(2) st by (auto simp: multi_request_def settings_def)
  note hf = half_frames [OF e(4)]
  have a: "capture_frames_index s1 = int (k div 2)" "capture_mode s1 = m" "capture_frames s1 = int k" "settings s1 = settings s"
    using assms(3) st e(2) by (auto simp: multi_at_def view_defs)
  from second_half [OF laws e(3) _ e(4) assms(3)] st e(2) obtain t q g0 where
    t: "each_opt (multi_step cam) [int (k div 2)..int k - 1] s1 = Some t" "streaming n (2 * len) t" "settings t = settings s"
      "outs t = (fst r @ bytes16 q, Some g0, Some q, int k, sum16 (char_signed cam) (bytes16 q))"
      "length q = len" "\<forall>i<len. unat (q ! i) = pixel_mean (swaps lk) (frames_from fr p k) i" by auto
  have ni: "capture_frames_index s1 \<noteq> 0" using a(1) hf(2) by simp
  then have d: "DoMultiFrameCapture cam s1 = Some t" using t(1) a hf(1) by (simp add: DoMultiFrameCapture_def skip_frames_def Let_def)
  have b: "capture_frames_index t = int k" "capture_frames t = int k" "capture_mode t = m" using t(3,4) st e(2) by (auto simp: view_defs)
  have "capture_mode t \<noteq> CAPTURE_NORMAL" using b(3) e(1) by simp
  from StopCapture_effect [OF t(2) this, of cam] obtain u where u: "StopCapture cam t = Some u" "buffers (cap_info u) = Freed" "dev_fd (cap_info u) = -1"
    "outs u = (cp_sent t, None, None, capture_frames_index t, capture_check_sum t)" by blast
  have "RawCaputure cam s1 = Some u" using ni a(2) e(1) d b u(1) by (simp add: RawCaputure_def)
  moreover have "outs u = (fst r @ bytes16 q, None, None, int k, sum16 (char_signed cam) (bytes16 q))" using u(4) t(4) by (simp add: outs_def)
  ultimately show ?thesis using u(2,3) t(5,6) e(5) by blast
qed

section \<open>After the buffers are freed\<close>

lemma freed_steps:
  assumes "buffers (cap_info s) = Freed" and "each_opt (multi_step cam) xs s = Some s'"
  shows "buffers (cap_info s') = Freed \<and> capture_frames_index s' = capture_frames_index s + int (length xs) \<and> capture_frames s' = capture_frames s"
  using assms
proof (induction xs arbitrary: s)
  case (Cons x xs)
  obtain t where t: "multi_step cam x s = Some t" "each_opt (multi_step cam) xs t = Some s'" using Cons.prems(2) by (auto simp: bind_eq_Some_conv)
  have "buffers (cap_info t) = Freed \<and> capture_frames_index t = capture_frames_index s + 1 \<and> capture_frames t = capture_frames s"
    using t(1) Cons.prems(1) by (auto simp: multi_step_def read_frame_def next_index_def split: option.splits prod.splits)
  with Cons.IH [OF _ t(2)] show ?case by simp
qed simp

text \<open>The second request ends the process, whatever the camera answers.\<close>

lemma freed_request:
  assumes "buffers (cap_info s) = Freed" and "capture_mode s \<noteq> CAPTURE_NORMAL" "capture_frames s = int k" "k \<in> frame_counts"
    and "capture_frames_index s = int (k div 2)"
  shows "RawCaputure cam s = None"
proof (rule ccontr)
  note hf = half_frames [OF assms(4)]
  assume "RawCaputure cam s \<noteq> None"
  then obtain t where t: "DoMultiFrameCapture cam s = Some t" "capture_frames_index t = capture_frames t \<longrightarrow> StopCapture cam t \<noteq> None"
    using assms hf(2) by (auto simp: RawCaputure_def bind_eq_Some_conv split: if_splits)
  then have "each_opt (multi_step cam) (map int [k div 2..<k]) s = Some t"
    using assms hf by (simp add: DoMultiFrameCapture_def skip_frames_def Let_def upto_map del: upt_Suc)
  from freed_steps [OF assms(1) this] have "buffers (cap_info t) = Freed" "capture_frames_index t = capture_frames t"
    using assms(3,5) hf(4) by simp_all
  with t(2) StopCapture_freed [of t cam] show False by simp
qed

section \<open>A small camera\<close>

definition demo_cam :: "nat cam" where
  "demo_cam = \<lparr>char_signed = False, g_mmapNumber = 4, cm_open = (\<lambda>_ e. (5, e)), cm_close = (\<lambda>_ e. e), cm_gain = (\<lambda>_ _ e. e),
     cm_querycap = (\<lambda>_ e. ((0, 0x04000001), e)), cm_crop = (\<lambda>_ _ _ _ e. e), cm_setformat = (\<lambda>_ _ _ _ _ e. e), cm_getformat = (\<lambda>_ e. e),
     cm_reqbufs = (\<lambda>_ _ _ e. ((0, False, 4), e)), cm_malloc = (\<lambda>_ e. (True, e)), cm_querybuf = (\<lambda>_ _ _ e. (Some (128, 0), e)),
     cm_mmap = (\<lambda>_ _ _ e. (True, e)), cm_munmap = (\<lambda>_ e. e), cm_qbuf = (\<lambda>_ _ _ e. e), cm_streamon = (\<lambda>_ _ e. e), cm_streamoff = (\<lambda>_ _ e. e),
     cm_dqbuf = (\<lambda>_ _ e. (Some (e mod 4, 126, replicate 126 (word_of_nat e)), Suc e)), cm_send = (\<lambda>bs e. (int (length bs), e)),
     cm_openrw = (\<lambda>_ e. (6, e)), cm_low_align = (\<lambda>_ e. e), cm_popen = (\<lambda>_ e. (Some [''Isp offline''], e)),
     cm_queryfocus = (\<lambda>_ e. (Some (0, 64), e)), cm_setctrl = (\<lambda>_ _ _ e. (0, e))\<rparr>"

definition demo_cap :: "nat cap" where
  "demo_cap = \<lparr>cp_env = 0, cp_sent = [], capture_mode = 1, capture_frames = 2, capture_frames_index = 0, capture_check_sum = 0,
     cap_info = \<lparr>dev_name = ''/dev/video0'', dev_fd = -1, subdev_fd = -1, buffers = No_bufs, n_buffers = 0, sensor_path = ''/dev/v4l-subdev0'',
       cap_format = 0, cap_width = 3, cap_height = 21, lhcg = 2, sensor_link = Link_to_isp, mplane = False,
       frame_count = 0, lens_path = '''', lensdev_fd = -1\<rparr>,
     averge_frame0 = None, averge_frame1 = None, needSetParamFlag = 1, g_sensorHdrMode = NO_HDR\<rparr>"

lemma demo_camera: "camera_laws demo_cam id (\<lambda>i. replicate 126 (word_of_nat i)) 4 (2 * 63)" "multi_request 2 63 demo_cap"
  by (simp_all add: camera_laws_def demo_cam_def multi_request_def demo_cap_def CAPTURE_NORMAL_def frame_counts_def geometry_def
      V4L2_CAP_STREAMING_def V4L2_CAP_VIDEO_CAPTURE_def)

section \<open>Properties\<close>

text \<open>The two requests of a capture of several frames.\<close>

lemma multi_capture_session:
  assumes "camera_laws cam pos fr n (2 * len)" and "multi_request k len s"
  shows "\<exists>s1 s2 q mid. RawCaputure cam s = Some s1 \<and> RawCaputure cam s1 = Some s2 \<and> mid = fr (pos (cp_env s) + 5 + (k div 2 - 1)) \<and>
    cp_sent s1 = cp_sent s @ mid \<and> capture_check_sum s1 = sum16 (char_signed cam) mid \<and>
    cp_sent s2 = cp_sent s1 @ bytes16 q \<and> capture_check_sum s2 = sum16 (char_signed cam) (bytes16 q) \<and>
    length q = len \<and> (\<forall>i<len. unat (q ! i) = pixel_mean (swaps (sensor_link (cap_info s))) (frames_from fr (pos (cp_env s) + 5) k) i) \<and>
    capture_frames_index s2 = capture_frames s \<and> buffers (cap_info s2) = Freed \<and> dev_fd (cap_info s2) = -1 \<and>
    averge_frame0 s2 = None \<and> averge_frame1 s2 = None"
proof -
  let ?mid = "fr (pos (cp_env s) + 5 + (k div 2 - 1))"
  obtain s1 where s1: "RawCaputure cam s = Some s1"
    "multi_at pos fr n len (settings s) (pos (cp_env s) + 5) (replicate len 0) (k div 2) (cp_sent s @ ?mid, sum16 (char_signed cam) ?mid) s1"
    using first_request [OF assms] by blast
  obtain s2 q where s2: "RawCaputure cam s1 = Some s2" "buffers (cap_info s2) = Freed" "dev_fd (cap_info s2) = -1"
    "outs s2 = ((cp_sent s @ ?mid) @ bytes16 q, None, None, int k, sum16 (char_signed cam) (bytes16 q))" "length q = len"
    "\<forall>i<len. unat (q ! i) = pixel_mean (swaps (sensor_link (cap_info s))) (frames_from fr (pos (cp_env s) + 5) k) i"
    using second_request [OF assms s1(2)] by auto
  have "cp_sent s1 = cp_sent s @ ?mid" "capture_check_sum s1 = sum16 (char_signed cam) ?mid" using s1(2) by (simp_all add: multi_at_def outs_def)
  with s1(1) s2 assms(2) show ?thesis
    by (intro exI [of _ s1] exI [of _ s2] exI [of _ q] exI [of _ ?mid]) (simp add: outs_def multi_request_def)
qed

lemma demo_mean: "pixel_mean True (frames_from (\<lambda>i. replicate 126 (word_of_nat i)) 5 2) 0 = 1414"
proof -
  have "replicate 126 v = v # v # replicate 124 v" for v :: u8 by (simp add: numeral_eq_Suc)
  then have v: "words16 (replicate 126 v) ! 0 = ucast v OR push_bit 8 (ucast v)" for v by simp
  have "frames_from (\<lambda>i. replicate 126 (word_of_nat i)) 5 2 = [words16 (replicate 126 5), words16 (replicate 126 6)]"
    by (simp add: frames_from_def numeral_2_eq_2)
  then have "pixel_mean True (frames_from (\<lambda>i. replicate 126 (word_of_nat i)) 5 2) 0 = (unat (swap16 0x505) + unat (swap16 0x606) + 1) div 2"
    by (simp only: pixel_mean_def) (simp add: pixel_sum_def pixel_in_swapped v flip: numeral_2_eq_2)
  also have "\<dots> = 1414" by (simp add: swap16_def)
  finally show ?thesis .
qed

text \<open>
  Property C32. A wrong checksum ends the process.  If the checksum of the tool is the one that was computed, the answer
  is success and nothing changes.  If it is not, the capture is stopped, which frees the buffers: after the second request they
  were freed already, and after the first request the next one, which still counts the frames, frees them again.
\<close>

theorem checksum_mismatch_fatal:
  assumes "camera_laws cam pos fr n (2 * len)" and "multi_request k len s" and "3 \<le> length recv"
  shows "\<exists>s1 s2. RawCaputure cam s = Some s1 \<and> RawCaputure cam s1 = Some s2 \<and>
    (if words16 (drop 1 recv) ! 0 = capture_check_sum s1
     then SendRawDataResult cam recv s1 = Some (answer DEVICE_TO_PC CMD_ID_CAPTURE_RAW_CAPTURE [0x04, RES_SUCCESS], s1)
     else \<exists>s'. SendRawDataResult cam recv s1 = Some (answer DEVICE_TO_PC CMD_ID_CAPTURE_RAW_CAPTURE [0x04, RES_FAILED], s') \<and> RawCaputure cam s' = None) \<and>
    (if words16 (drop 1 recv) ! 0 = capture_check_sum s2
     then SendRawDataResult cam recv s2 = Some (answer DEVICE_TO_PC CMD_ID_CAPTURE_RAW_CAPTURE [0x04, RES_SUCCESS], s2)
     else SendRawDataResult cam recv s2 = None)"
proof -
  obtain a b c r where "recv = a # b # c # r" using assms(3) by (metis Suc_le_length_iff numeral_3_eq_3)
  then have res: "SendRawDataResult cam recv t = (if words16 (drop 1 recv) ! 0 = capture_check_sum t
      then Some (answer DEVICE_TO_PC CMD_ID_CAPTURE_RAW_CAPTURE [0x04, RES_SUCCESS], t)
      else map_option (\<lambda>s1. (answer DEVICE_TO_PC CMD_ID_CAPTURE_RAW_CAPTURE [0x04, RES_FAILED], s1)) (StopCapture cam t))" for t
    by (auto simp: SendRawDataResult_def)
  obtain s1 u where s1: "RawCaputure cam s = Some s1" "multi_at pos fr n len (settings s) (pos (cp_env s) + 5) (replicate len 0) (k div 2) u s1"
    using first_request [OF assms(1,2)] by blast
  obtain s2 where s2: "RawCaputure cam s1 = Some s2" "buffers (cap_info s2) = Freed" using second_request [OF assms(1,2) s1(2)] by blast
  have r: "capture_mode s1 \<noteq> CAPTURE_NORMAL" "capture_frames s1 = int k" "k \<in> frame_counts" "streaming n (2 * len) s1" "capture_frames_index s1 = int (k div 2)"
    using s1(2) assms(2) by (auto simp: multi_at_def view_defs multi_request_def)
  from StopCapture_effect [OF r(4,1), of cam] obtain t where t: "StopCapture cam s1 = Some t" "buffers (cap_info t) = Freed" "settings t = settings s1"
    "outs t = (cp_sent s1, None, None, capture_frames_index s1, capture_check_sum s1)" by blast
  have "RawCaputure cam t = None" using freed_request [OF t(2) _ _ r(3)] t(3,4) r by (simp add: view_defs)
  with s1(1) s2 t(1) StopCapture_freed [OF s2(2), of cam] show ?thesis by (intro exI [of _ s1] exI [of _ s2]) (simp add: res)
qed

theorem checksum_mismatch_fatal_witness:
  "\<exists>s1 s'. RawCaputure demo_cam demo_cap = Some s1 \<and> capture_check_sum s1 = 630 \<and>
    SendRawDataResult demo_cam [4, 1, 2] s1 = Some (answer DEVICE_TO_PC CMD_ID_CAPTURE_RAW_CAPTURE [0x04, RES_FAILED], s') \<and> RawCaputure demo_cam s' = None"
proof -
  obtain s1 where s1: "RawCaputure demo_cam demo_cap = Some s1" "capture_check_sum s1 = sum16 False (replicate 126 5)"
    using first_request [OF demo_camera] by (auto simp: multi_at_def outs_def demo_cam_def demo_cap_def)
  have "fold (\<lambda>b c. c + char_value False b) (replicate k 5) x = x + word_of_nat k * 5" for k and x :: u16
  proof (induction k arbitrary: x)
    case (Suc k)
    have "char_value False 5 = 5" by (simp add: char_value_def)
    with Suc [of "x + 5"] show ?case by (simp add: distrib_right)
  qed simp
  then have "sum16 False (replicate 126 5) = 630" by (simp add: sum16_def)
  with s1 checksum_mismatch_fatal [OF demo_camera, of "[4, 1, 2]"] show ?thesis by (auto split: if_splits)
qed

end
