(* ===== verification/RawProtocol.thy ===== *)
theory RawProtocol
  imports RawCapture "HOL-Library.Sublist"
begin

unbundle bit_operations_syntax

text \<open>
  The parameters of a capture, \<^verbatim>\<open>SetCapConf\<close> of \<^verbatim>\<open>rkaiq_raw_protocol.cpp\<close>, and what follows from them: a capture of
  several frames from the message with the parameters to the mean that is sent.
\<close>

section \<open>Operations\<close>

text \<open>
  The output of a command comes in lines of less than 2048 bytes that are appended to a buffer of 2048.  \<open>None\<close> is a
  write beyond that buffer; the check of the length is made after the append.
\<close>

fun append_lines :: "string \<Rightarrow> string list \<Rightarrow> string option" where
  "append_lines acc [] = Some acc"
| "append_lines acc (l # ls) = (if length (acc @ l) \<ge> 2048 then None else append_lines (acc @ l) ls)"

definition ExecuteCMD :: "'s cam \<Rightarrow> string \<Rightarrow> 's cap \<Rightarrow> (string \<times> 's cap) option" where
  "ExecuteCMD cam cmd s = (case cm_popen cam cmd (cp_env s) of
     (None, e) \<Rightarrow> Some ([], s\<lparr>cp_env := e\<rparr>)
   | (Some ls, e) \<Rightarrow> map_option (\<lambda>r. (r, s\<lparr>cp_env := e\<rparr>)) (append_lines [] ls))"

text \<open>A sensor whose frames go straight to the image processor keeps its own parameters.\<close>

definition check_online :: "'s cam \<Rightarrow> string \<Rightarrow> 's cap \<Rightarrow> 's cap option" where
  "check_online cam path s = do {
     (r, s1) \<leftarrow> ExecuteCMD cam (''cat '' @ path) s;
     Some (if sublist ''Isp online'' r then s1\<lparr>needSetParamFlag := 0\<rparr> else s1) }"

definition no_compact :: "'s cam \<Rightarrow> 's cap \<Rightarrow> 's cap" where
  "no_compact cam s = (case cm_openrw cam (dev_name (cap_info s)) (cp_env s) of (fd, e) \<Rightarrow>
     s\<lparr>cp_env := cm_close cam fd (if fd \<ge> 0 \<and> g_sensorHdrMode s = NO_HDR then cm_low_align cam fd e else e)\<rparr>)"

record capture_params =
  cpar_gain :: u32
  cpar_time :: u32
  cpar_lhcg :: u8
  cpar_bits :: u8
  cpar_framenumber :: u8
  cpar_multiframe :: u8
  cpar_vblank :: u32
  cpar_focus :: u32

definition get32 :: "u8 list \<Rightarrow> nat \<Rightarrow> u32" where
  "get32 d i = ucast (d ! i) OR push_bit 8 (ucast (d ! (i + 1))) OR push_bit 16 (ucast (d ! (i + 2))) OR push_bit 24 (ucast (d ! (i + 3)))"

definition cap_param :: "u8 list \<Rightarrow> capture_params" where
  "cap_param dat = (let d = drop 1 dat in
     \<lparr>cpar_gain = get32 d 0, cpar_time = get32 d 4, cpar_lhcg = d ! 8, cpar_bits = d ! 9, cpar_framenumber = d ! 10, cpar_multiframe = d ! 11,
      cpar_vblank = get32 d 12, cpar_focus = get32 d 16\<rparr>)"

text \<open>One control of a device; the status is failed when it is refused.\<close>

definition set_control :: "'s cam \<Rightarrow> int \<Rightarrow> control \<Rightarrow> int \<Rightarrow> u8 \<times> 's cap \<Rightarrow> u8 \<times> 's cap" where
  "set_control cam fd ct v rs = (case cm_setctrl cam fd ct v (cp_env (snd rs)) of (r, e) \<Rightarrow>
     (if r < 0 then RES_FAILED else fst rs, (snd rs)\<lparr>cp_env := e\<rparr>))"

text \<open>The position is unsigned, so it is compared with the limits as unsigned numbers.\<close>

definition focus_value :: "u32 \<Rightarrow> int \<times> int \<Rightarrow> int" where
  "focus_value p limits = (case limits of (mi, ma) \<Rightarrow>
     (if p < word_of_int mi then mi else if p > word_of_int ma then ma else sint p))"

definition set_params :: "'s cam \<Rightarrow> bool \<Rightarrow> capture_params \<Rightarrow> u8 \<Rightarrow> 's cap \<Rightarrow> u8 \<times> 's cap" where
  "set_params cam focus_enable c status s =
     (let (focus, s1) = (if focus_enable
            then (case cm_queryfocus cam (lensdev_fd (cap_info s)) (cp_env s) of (q, e) \<Rightarrow>
                    (map_option (focus_value (cpar_focus c)) q, s\<lparr>cp_env := e\<rparr>))
            else (None, s));
          sub = subdev_fd (cap_info s);
          r1 = set_control cam sub Analogue_gain (sint (cpar_gain c))
                 (set_control cam sub Exposure (sint (cpar_time c)) (set_control cam sub Vblank (sint (cpar_vblank c)) (status, s1)))
      in (case focus of None \<Rightarrow> r1 | Some v \<Rightarrow> set_control cam (lensdev_fd (cap_info s)) Focus_absolute v r1))"

definition open_devices :: "'s cam \<Rightarrow> 's cap \<Rightarrow> 's cap" where
  "open_devices cam s = (case cm_open cam (sensor_path (cap_info s)) (cp_env s) of (fd, e) \<Rightarrow>
     (let s1 = info_do (\<lambda>c. c\<lparr>subdev_fd := fd\<rparr>) (s\<lparr>cp_env := e\<rparr>) in
      if lens_path (cap_info s) = [] then s1
      else (case cm_open cam (lens_path (cap_info s)) e of (lfd, e1) \<Rightarrow>
        info_do (\<lambda>c. c\<lparr>lensdev_fd := lfd\<rparr>) (s1\<lparr>cp_env := e1\<rparr>))))"

definition take_params :: "capture_params \<Rightarrow> 's cap \<Rightarrow> 's cap" where
  "take_params c s = info_do (\<lambda>i. i\<lparr>frame_count := int (unat (cpar_framenumber c)), lhcg := int (unat (cpar_lhcg c))\<rparr>)
     (s\<lparr>capture_frames := int (unat (cpar_framenumber c)), capture_frames_index := 0, capture_mode := int (unat (cpar_multiframe c)),
        capture_check_sum := 0\<rparr>)"

text \<open>\<open>dat\<close> are the 48 data bytes of the message.\<close>

definition SetCapConf :: "'s cam \<Rightarrow> u8 list \<Rightarrow> u8 \<Rightarrow> 's cap \<Rightarrow> (command \<times> 's cap) option" where
  "SetCapConf cam dat ret_status s = do {
     s1 \<leftarrow> each_opt (check_online cam) [''/proc/rkisp0-vir0'', ''/proc/rkisp1-vir0'', ''/proc/rkisp-vir0'', ''/proc/rkisp-unite'']
             ((no_compact cam s)\<lparr>needSetParamFlag := 1\<rparr>);
     let c = cap_param dat;
     let s2 = take_params c (open_devices cam s1);
     let (st, s3) = (if needSetParamFlag s2 = 1 then set_params cam (lens_path (cap_info s2) \<noteq> []) c ret_status s2 else (ret_status, s2));
     let s4 = (if subdev_fd (cap_info s3) > 0
               then info_do (\<lambda>c. c\<lparr>subdev_fd := -1\<rparr>) (env_do (cm_close cam (subdev_fd (cap_info s3))) s3) else s3);
     Some (answer DEVICE_TO_PC CMD_ID_CAPTURE_RAW_CAPTURE [0x02, st], s4) }"

section \<open>What the parameters change\<close>

text \<open>Output that fits the buffer.\<close>

definition short_output :: "'s cam \<Rightarrow> bool" where
  "short_output cam \<longleftrightarrow> (\<forall>c e ls e'. cm_popen cam c e = (Some ls, e') \<longrightarrow> length (concat ls) < 2048)"

lemma append_lines_fits: "length (acc @ concat ls) < 2048 \<Longrightarrow> append_lines acc ls = Some (acc @ concat ls)"
  by (induction ls arbitrary: acc) simp_all

text \<open>What the setting of devices leaves as it is.\<close>

definition same_capture :: "('s \<Rightarrow> nat) \<Rightarrow> 's cap \<Rightarrow> 's cap \<Rightarrow> bool" where
  "same_capture pos s s' \<longleftrightarrow> settings s' = settings s \<and> outs s' = outs s \<and> pos (cp_env s') = pos (cp_env s)"

lemma same_capture_trans: "same_capture pos s t \<Longrightarrow> same_capture pos t u \<Longrightarrow> same_capture pos s u"
  by (simp add: same_capture_def)

lemma check_online_keeps:
  assumes laws: "camera_laws cam pos fr n used" and "short_output cam"
  shows "\<exists>s'. check_online cam path s = Some s' \<and> same_capture pos s s'"
proof (cases "cm_popen cam (''cat '' @ path) (cp_env s)")
  case (Pair out e)
  have "append_lines [] ls = Some (concat ls)" if "out = Some ls" for ls
  proof -
    have "length (concat ls) < 2048" using assms(2) Pair that unfolding short_output_def by blast
    then show ?thesis using append_lines_fits [of "[]" ls] by simp
  qed
  with Pair camera_moves(2) [OF laws Pair] show ?thesis
    by (cases out) (auto simp: check_online_def ExecuteCMD_def same_capture_def view_defs)
qed

lemma check_all_keep:
  assumes "camera_laws cam pos fr n used" and "short_output cam"
  shows "\<exists>s'. each_opt (check_online cam) paths s = Some s' \<and> same_capture pos s s'"
proof (induction paths arbitrary: s)
  case Nil
  then show ?case by (simp add: same_capture_def)
next
  case (Cons p ps)
  obtain t where "check_online cam p s = Some t" "same_capture pos s t" using check_online_keeps [OF assms] by blast
  with Cons [of t] same_capture_trans show ?case by fastforce
qed

lemma device_steps_keep:
  assumes "camera_laws cam pos fr n used"
  shows "same_capture pos s (no_compact cam s)" "same_capture pos s (open_devices cam s)" "same_capture pos (snd rs) (snd (set_control cam fd ct v rs))"
  using camera_keeps [OF assms]
  by (auto simp: no_compact_def open_devices_def set_control_def same_capture_def view_defs info_do_def Let_def split: prod.split
      dest!: camera_moves [OF assms])

lemma set_params_keep:
  assumes laws: "camera_laws cam pos fr n used"
  shows "same_capture pos s (snd (set_params cam foc c status s))"
proof -
  have q: "cm_queryfocus cam fd (cp_env s) = (x, e) \<Longrightarrow> same_capture pos s (s\<lparr>cp_env := e\<rparr>)" for fd x e
    using camera_moves(3) [OF laws] by (simp add: same_capture_def view_defs)
  have c: "same_capture pos t (snd rs) \<Longrightarrow> same_capture pos t (snd (set_control cam fd ct v rs))" for t rs fd ct v
    using device_steps_keep(3) [OF laws] same_capture_trans by blast
  have "same_capture pos s s" by (simp add: same_capture_def)
  then show ?thesis
    by (auto simp: set_params_def Let_def split: prod.split option.split intro!: c intro: q)
qed

lemma set_control_status: "fst (set_control cam fd ct v rs) \<in> {fst rs, RES_FAILED}"
  by (simp add: set_control_def split: prod.split)

lemma set_params_status: "fst (set_params cam foc c status s) \<in> {status, RES_FAILED}"
proof -
  have c: "fst rs \<in> {status, RES_FAILED} \<Longrightarrow> fst (set_control cam fd ct v rs) \<in> {status, RES_FAILED}" for rs fd ct v
    using set_control_status [of cam fd ct v rs] by auto
  show ?thesis by (simp add: set_params_def Let_def del: insert_iff split: prod.split option.split) (auto simp del: insert_iff intro!: c)
qed

lemma SetCapConf_effect:
  assumes laws: "camera_laws cam pos fr n used" and "short_output cam" and "13 \<le> length dat"
  shows "\<exists>st s'. SetCapConf cam dat status s = Some (answer DEVICE_TO_PC CMD_ID_CAPTURE_RAW_CAPTURE [0x02, st], s') \<and> st \<in> {status, RES_FAILED} \<and>
    settings s' = (int (unat (dat ! 12)), int (unat (dat ! 11)), cap_width (cap_info s), cap_height (cap_info s), sensor_link (cap_info s)) \<and>
    outs s' = (cp_sent s, averge_frame0 s, averge_frame1 s, 0, 0) \<and> pos (cp_env s') = pos (cp_env s)"
proof -
  let ?c = "cap_param dat"
  obtain a where a: "each_opt (check_online cam) [''/proc/rkisp0-vir0'', ''/proc/rkisp1-vir0'', ''/proc/rkisp-vir0'', ''/proc/rkisp-unite'']
             ((no_compact cam s)\<lparr>needSetParamFlag := 1\<rparr>) = Some a" "same_capture pos ((no_compact cam s)\<lparr>needSetParamFlag := 1\<rparr>) a"
    using check_all_keep [OF assms(1,2)] by blast
  have "same_capture pos s (open_devices cam a)"
    using device_steps_keep(1) [OF laws, of s] a(2) device_steps_keep(2) [OF laws, of a] by (simp add: same_capture_def view_defs)
  moreover let ?b = "take_params ?c (open_devices cam a)"
  have "unat (cpar_framenumber ?c) = unat (dat ! 11)" "unat (cpar_multiframe ?c) = unat (dat ! 12)"
    using assms(3) by (simp_all add: cap_param_def Let_def)
  ultimately have b: "settings ?b = (int (unat (dat ! 12)), int (unat (dat ! 11)), cap_width (cap_info s), cap_height (cap_info s), sensor_link (cap_info s))"
    "outs ?b = (cp_sent s, averge_frame0 s, averge_frame1 s, 0, 0)" "pos (cp_env ?b) = pos (cp_env s)"
    by (simp_all add: same_capture_def view_defs take_params_def info_do_def)
  let ?p = "if needSetParamFlag ?b = 1 then set_params cam (lens_path (cap_info ?b) \<noteq> []) ?c status ?b else (status, ?b)"
  have p: "fst ?p \<in> {status, RES_FAILED}" "same_capture pos ?b (snd ?p)"
    by (cases "needSetParamFlag ?b = 1"; simp only: if_True if_False refl set_params_status set_params_keep [OF laws] fst_conv snd_conv insertI1;
        simp add: same_capture_def)+
  let ?d = "if subdev_fd (cap_info (snd ?p)) > 0
      then info_do (\<lambda>c. c\<lparr>subdev_fd := -1\<rparr>) (env_do (cm_close cam (subdev_fd (cap_info (snd ?p)))) (snd ?p)) else snd ?p"
  have "same_capture pos (snd ?p) ?d" using camera_keeps(1) [OF laws] by (simp add: same_capture_def view_defs info_do_def env_do_def)
  with p(2) b have "settings ?d = settings ?b" "outs ?d = outs ?b" "pos (cp_env ?d) = pos (cp_env s)" by (auto simp: same_capture_def)
  moreover have "SetCapConf cam dat status s = Some (answer DEVICE_TO_PC CMD_ID_CAPTURE_RAW_CAPTURE [0x02, fst ?p], ?d)"
    using a(1) by (simp add: SetCapConf_def Let_def case_prod_unfold)
  ultimately show ?thesis using p(1) b by metis
qed

section \<open>Limits\<close>

text \<open>With a negative lower limit every position the device could have is replaced by that limit.\<close>

lemma focus_negative_minimum:
  assumes "- (2 ^ 31) \<le> mi" "mi < 0" "uint p < 2 ^ 31"
  shows "focus_value p (mi, ma) = mi"
proof -
  have "uint (word_of_int mi :: u32) = mi mod 2 ^ 32" by (simp add: unsigned_of_int take_bit_eq_mod)
  also have "\<dots> = (mi + 2 ^ 32) mod 2 ^ 32" by simp
  also have "\<dots> = mi + 2 ^ 32" using assms(1,2) by (intro mod_pos_pos_trivial) simp_all
  finally have "p < word_of_int mi" using assms(1,3) unfolding word_less_def by simp
  then show ?thesis by (simp add: focus_value_def)
qed

text \<open>A text of 2048 bytes or more in the file that is read is written beyond the buffer.\<close>

lemma long_output_overflows: "length (acc @ concat ls) \<ge> 2048 \<Longrightarrow> ls \<noteq> [] \<Longrightarrow> append_lines acc ls = None"
proof (induction ls arbitrary: acc)
  case (Cons l ls)
  then show ?case by (cases "ls = []") (auto simp: not_le)
qed simp

section \<open>Properties\<close>

text \<open>
  Property C20. From the parameters to the mean.  A message with the parameters, for a picture of at least 3 by 21 pixels, a
  capture of several frames and 2, 4, 8, 16, 32, 64 or 128 of them, is answered with ready or failed, and with a camera that
  works two requests follow it: the first one skips five frames and sends the frame before the middle as it came, the second one
  sends the mean of all frames, pixel by pixel, swapped to little-endian unless the sensor is linked to the capture unit.  Each time
  the checksum is that of the bytes that were sent.  After the second one the device is closed, and the buffers
  and the sums are freed.
\<close>

theorem requested_capture_mean:
  assumes "camera_laws cam pos fr n (2 * len)" and "short_output cam"
    and "geometry (cap_width (cap_info s)) (cap_height (cap_info s)) len"
    and "13 \<le> length dat" "unat (dat ! 11) \<in> frame_counts" "dat ! 12 \<noteq> 0"
  shows "\<exists>st s0 s1 s2 q mid. SetCapConf cam dat READY s = Some (answer DEVICE_TO_PC CMD_ID_CAPTURE_RAW_CAPTURE [0x02, st], s0) \<and> st \<in> {READY, RES_FAILED} \<and>
    RawCaputure cam s0 = Some s1 \<and> RawCaputure cam s1 = Some s2 \<and> mid = fr (pos (cp_env s) + 5 + (unat (dat ! 11) div 2 - 1)) \<and>
    cp_sent s1 = cp_sent s @ mid \<and> capture_check_sum s1 = sum16 (char_signed cam) mid \<and>
    cp_sent s2 = cp_sent s @ mid @ bytes16 q \<and> capture_check_sum s2 = sum16 (char_signed cam) (bytes16 q) \<and>
    length q = len \<and> (\<forall>i<len. unat (q ! i) = pixel_mean (swaps (sensor_link (cap_info s))) (frames_from fr (pos (cp_env s) + 5) (unat (dat ! 11))) i) \<and>
    capture_frames_index s2 = int (unat (dat ! 11)) \<and> buffers (cap_info s2) = Freed \<and> dev_fd (cap_info s2) = -1 \<and>
    averge_frame0 s2 = None \<and> averge_frame1 s2 = None"
proof -
  let ?k = "unat (dat ! 11)"
  obtain st s0 where s0: "SetCapConf cam dat READY s = Some (answer DEVICE_TO_PC CMD_ID_CAPTURE_RAW_CAPTURE [0x02, st], s0)" "st \<in> {READY, RES_FAILED}"
    "settings s0 = (int (unat (dat ! 12)), int ?k, cap_width (cap_info s), cap_height (cap_info s), sensor_link (cap_info s))"
    "outs s0 = (cp_sent s, averge_frame0 s, averge_frame1 s, 0, 0)" "pos (cp_env s0) = pos (cp_env s)"
    using SetCapConf_effect [OF assms(1,2,4)] by blast
  have "uint (dat ! 12) \<noteq> 0" using assms(6) by (simp add: uint_0_iff)
  with assms(3,5) s0(3,4) have "multi_request ?k len s0" by (auto simp: multi_request_def view_defs CAPTURE_NORMAL_def)
  from multi_capture_session [OF assms(1) this] obtain s1 s2 q mid where
    r: "RawCaputure cam s0 = Some s1" "RawCaputure cam s1 = Some s2" "mid = fr (pos (cp_env s0) + 5 + (?k div 2 - 1))"
    "cp_sent s1 = cp_sent s0 @ mid" "capture_check_sum s1 = sum16 (char_signed cam) mid"
    "cp_sent s2 = cp_sent s1 @ bytes16 q" "capture_check_sum s2 = sum16 (char_signed cam) (bytes16 q)" "length q = len"
    "\<forall>i<len. unat (q ! i) = pixel_mean (swaps (sensor_link (cap_info s0))) (frames_from fr (pos (cp_env s0) + 5) ?k) i"
    "capture_frames_index s2 = capture_frames s0" "buffers (cap_info s2) = Freed" "dev_fd (cap_info s2) = -1"
    "averge_frame0 s2 = None" "averge_frame1 s2 = None" by blast
  moreover have "cp_sent s0 = cp_sent s" "capture_frames s0 = int ?k" "sensor_link (cap_info s0) = sensor_link (cap_info s)"
    using s0(3,4) by (simp_all add: view_defs)
  ultimately show ?thesis
    using s0(1,2,5)
    by (intro exI [of _ st] exI [of _ s0] exI [of _ s1] exI [of _ s2] exI [of _ q] exI [of _ mid]) simp
qed

theorem requested_capture_mean_witness:
  "\<exists>st s0 s1 s2 q. SetCapConf demo_cam (replicate 11 0 @ [2, 1] @ replicate 35 0) READY demo_cap =
      Some (answer DEVICE_TO_PC CMD_ID_CAPTURE_RAW_CAPTURE [2, st], s0) \<and>
    RawCaputure demo_cam s0 = Some s1 \<and> RawCaputure demo_cam s1 = Some s2 \<and> cp_sent s1 = replicate 126 5 \<and>
    cp_sent s2 = replicate 126 5 @ bytes16 q \<and> length q = 63 \<and> unat (q ! 0) = 1414"
proof -
  let ?dat = "replicate 11 0 @ [2, 1] @ replicate 35 0 :: u8 list"
  have "short_output demo_cam" by (simp add: short_output_def demo_cam_def)
  moreover have "geometry (cap_width (cap_info demo_cap)) (cap_height (cap_info demo_cap)) 63" by (simp add: geometry_def demo_cap_def)
  moreover have "?dat ! 11 = 2" "?dat ! 12 = 1" "13 \<le> length ?dat" by (simp_all add: nth_append)
  ultimately show ?thesis
    using requested_capture_mean [OF demo_camera(1), of demo_cap ?dat] demo_mean by (fastforce simp: frame_counts_def demo_cap_def swaps_def)
qed

end
