(* ===== verification/Spec2Isabelle.thy ===== *)
theory Spec2Isabelle
  imports Daemon ProvisionSpec DbSchema DbSchedule DbCapability IpcClients DrmDisplay RawProtocol
begin

text \<open>
  A verification of the C programs of this repository: \<^verbatim>\<open>system_service\<close>, the daemon that provisions
  and supervises a board, \<^verbatim>\<open>dbserver\<close>, the settings database behind D-Bus, \<^verbatim>\<open>libIPCProtocol\<close>, the
  library through which the applications reach that database and the other services, the display
  code of the AI server, and the raw capture of the camera tuning tool.

  \<^bold>\<open>The programs.\<close>  \<^verbatim>\<open>system_service\<close> (\<^verbatim>\<open>src/system_service\<close>) is one process with six threads that
  \<^verbatim>\<open>main.c\<close> starts after the log backend.  A phone (Bluetooth, \<^verbatim>\<open>ble_gatt.c\<close>) or a local program
  (Unix-domain socket, \<^verbatim>\<open>unix_ipc.c\<close>) sends frames that start with 55 AA.  \<^verbatim>\<open>protocol.c\<close> decodes them,
  \<^verbatim>\<open>proto_dispatch.c\<close> answers each request, remembers SSID and password, and starts workers for
  joining and scanning; answers go back through a sink, a record of three functions that each
  transport supplies (\<^verbatim>\<open>proto_sink.h\<close>).  The workers call \<^verbatim>\<open>wifi_switch.h\<close>, which has two
  implementations, \<^verbatim>\<open>wifi_switch.c\<close> (hostapd, wpa_supplicant) and \<^verbatim>\<open>wifi_switch_a733.c\<close>
  (NetworkManager); the makefile links one of them.  The remaining threads log
  (\<^verbatim>\<open>log.c\<close>, \<^verbatim>\<open>uart_log.c\<close>), sample the system (\<^verbatim>\<open>sys_stat.c\<close>) and keep the clock (\<^verbatim>\<open>time_sync.c\<close>).
  \<^verbatim>\<open>dbserver\<close> (\<^verbatim>\<open>src/dbserver\<close>, with \<^verbatim>\<open>src/librkdb\<close>) turns JSON commands into SQL text and creates
  its tables when their version changes.  The applications call \<^verbatim>\<open>libIPCProtocol\<close> (\<^verbatim>\<open>src/libIPCProtocol\<close>):
  \<^verbatim>\<open>dbserver.cc\<close> builds those commands, \<^verbatim>\<open>dbus_connection.cc\<close> has the connection and the lock,
  \<^verbatim>\<open>dbus_signal.cc\<close> calls the functions registered for a change, and \<^verbatim>\<open>mediaserver.cc\<close>, \<^verbatim>\<open>netserver.cc\<close>,
  \<^verbatim>\<open>storage_manager.cc\<close>, \<^verbatim>\<open>system_manager.cc\<close> and \<^verbatim>\<open>ispserver.cc\<close> call the other services.  The AI
  server shows camera frames through \<^verbatim>\<open>drmDsp.c\<close> (\<^verbatim>\<open>src/aiserver/src/vendor/filter/rkvo\<close>): it opens the
  display (\<^verbatim>\<open>drmDsp/dev.c\<close>), shows a first picture and hands out planes (\<^verbatim>\<open>drmDsp/modeset.c\<close>), and copies
  or scales each frame into one of two buffers (\<^verbatim>\<open>drmDsp/bo.c\<close>).  The tuning tool's server (\<^verbatim>\<open>src/rkaiq_tool_server\<close>)
  takes raw frames from the camera (\<^verbatim>\<open>camera_capture.cpp\<close>, \<^verbatim>\<open>camera_memory.cpp\<close>), adds and averages them
  (\<^verbatim>\<open>multiframe_process.cpp\<close>) and sends them with a checksum (\<^verbatim>\<open>rkaiq_raw_protocol.cpp\<close>).

  \<^bold>\<open>How code becomes definitions.\<close>  A C function is a definition of the same name, with a prefix where
  two files use one name.  What the repository does not contain is a parameter: the record \<open>os\<close>
  (commands, files, time; theory \<open>OsWorld\<close>), the kernel's sockets \<open>so\<close> (\<open>SockWorld\<close>), D-Bus and
  BlueZ \<open>db\<close> (\<open>BleGatt\<close>), SQLite \<open>sq\<close> and json-c \<open>jl\<close> (\<open>RkDb\<close>), libdrm with the kernel's display interface
  \<open>drm\<close> (\<open>DrmBo\<close>), the camera devices and the socket of the tool \<open>cam\<close> (\<open>RawCapture\<close>).  For the display every acquired resource is kept in a multiset and every release takes it out
  or, when it is not there, is recorded as stray.  Every call is recorded, so order
  and absence of calls are statements about the record.  Code that can fail in memory (use after
  free, double close, NULL) returns \<open>None\<close> there.  Machine integers keep their width (\<open>u8\<close> to \<open>u64\<close>).
  In the client library the bus is a parameter too (\<open>bus\<close>, \<open>ipc_bus\<close>); a pointer the code tests is an
  option and one it does not test is a value, \<open>None\<close> as the result of a call is a crash or a lock
  that is never free, and an integer the code may leave uninitialised is \<open>None\<close> of type \<open>indet\<close>.

  \<^bold>\<open>Theories\<close>, in the order of the code:
  \<^item> \<open>CStrings\<close>: the prelude; C string and number functions, bounded loops, and the calculus of
    relations that programs keep (locale \<open>step_rel\<close>, rules \<open>io_intros\<close>).
  \<^item> \<open>Protocol\<close>: \<^verbatim>\<open>protocol.c\<close>.  The decoder, whose reads outside the buffer would be \<open>None\<close>, has none and accepts
    exactly the well-formed frames; round trips.
  \<^item> \<open>OsWorld\<close>: files and commands with the helpers of \<^verbatim>\<open>wifi_switch.c\<close>; replacing a file is all or nothing.
  \<^item> \<open>WifiConfig\<close>, \<open>WifiScan\<close>, \<open>WifiSwitch\<close>: \<^verbatim>\<open>wifi_switch.c\<close>.  Configuration files read back as written;
    the scan parser as blocks (locale \<open>bss_parser\<close>), SSID decoding, band choice; joining, access
    point, reconnect monitor: order of commands, mutex, delays.
  \<^item> \<open>NmShell\<close>, \<open>WifiA733\<close>: \<^verbatim>\<open>wifi_switch_a733.c\<close>.  Shell quoting against a small reader of shell words;
    no credentials can inject a command; failed joins fall back to the hotspot.
  \<^item> \<open>WifiBackend\<close>, \<open>Boards\<close>: what \<^verbatim>\<open>wifi_switch.h\<close> promises its client (locales \<open>wifi_backend\<close>,
    \<open>credential_store\<close>), shown for both backends and for the one that is linked.
  \<^item> \<open>ProtoDispatch\<close>: \<^verbatim>\<open>proto_dispatch.c\<close> and \<^verbatim>\<open>proto_sink.h\<close> (locale \<open>proto_sink\<close>).  Invariant of the buffers and
    references, one answer per request, the provisioning sequence, scan results in frames.
  \<^item> \<open>ProvisionSpec\<close>: an abstract provisioning session without bytes and references; the dispatcher with
    its workers refines it.
  \<^item> \<open>UnixIpc\<close>, \<open>SockWorld\<close>, \<open>IpcServer\<close>: \<^verbatim>\<open>unix_ipc.c\<close>.  Service and transport as one transition system: no
    use after free, exact reference counts, no leaks, and it always drains; the server socket.
  \<^item> \<open>BleGatt\<close>: \<^verbatim>\<open>ble_gatt.c\<close>.  What a subscribed phone is notified of, the order of the start-up, and the
    race on the stored value.
  \<^item> \<open>SlotLog\<close>, \<open>SysStat\<close>: the loggers and the sampler.  Slot rotation, size limits, parsing of \<^verbatim>\<open>/proc\<close>,
    top processes, CPU shares.
  \<^item> \<open>TimeSync\<close>, \<open>Daemon\<close>: \<^verbatim>\<open>time_sync.c\<close> and \<^verbatim>\<open>main.c\<close>.
  \<^item> \<open>RkDb\<close>, \<open>DbServer\<close>, \<open>DbSql\<close>, \<open>DbTables\<close>, \<open>DbSchema\<close>: \<^verbatim>\<open>rkdb.c\<close>, \<^verbatim>\<open>common.c\<close> and the six initialisations.
    What each command runs, replies and signals, and when a NULL crashes it; how the statements are read; the
    initial tables are well typed.
  \<^item> \<open>SqlTables\<close>, \<open>DbEngine\<close>, \<open>SqlScript\<close>: tables of typed columns and a reader of the statements the service builds,
    as an executable engine, with the creation and dropping of tables (a drop of a missing table is refused); the laws
    \<open>runs_tables\<close> and \<open>runs_sql\<close> that a database follows it.
  \<^item> \<open>DbusSignal\<close>: \<^verbatim>\<open>dbus_signal.cc\<close> with its nodes in a heap (locale \<open>signal_registry\<close>).  The linked list refines a
    list of registrations without losing nodes or strings, every walk ends, and unregistering a later entry leaves a
    dangling pointer.
  \<^item> \<open>DbClient\<close>, \<open>DbEvents\<close>: \<^verbatim>\<open>dbserver.cc\<close>, \<^verbatim>\<open>dbus_connection.cc\<close> and \<^verbatim>\<open>IPCProtocol.cc\<close>, every function.
  \<^item> \<open>DbSettings\<close>: the service behind the client's bus.  What is written is read back through both
    programs and the engine; deletions; the NULL in an integer column that ends the service.
  \<^item> \<open>DbRequests\<close>, \<open>DbSchedule\<close>, \<open>DbCapability\<close>: requests fit the tables the service creates; weekly
    schedules are stored within bounds; capability texts change at one path only.
  \<^item> \<open>IpcClients\<close>: the clients of the other services.  A changed row makes exactly the planned calls.
  \<^item> \<open>Buffers\<close>, \<open>DrmBo\<close>, \<open>DrmDev\<close>, \<open>DrmScale\<close>, \<open>DrmDsp\<close>, \<open>DrmDisplay\<close>: the display.  Writes with a check of bounds; buffers
    and the device with an account of what they own (locale \<open>owner\<close> for everything that is freed in
    lists); the scaler stays inside both pictures and interpolates; frames keep the account; opening chooses
    the right plane; a whole session releases what it acquired, on a small display as an instance.
  \<^item> \<open>MultiFrame\<close>, \<open>RawCapture\<close>, \<open>RawProtocol\<close>: raw capture.  Sums of frames do not wrap and the average is the rounded
    mean; buffers, streaming, sending in packets and the two requests of a capture of several frames; the message with
    the parameters; a wrong checksum frees the buffers twice.
  \<^item> this theory: the property that spans dispatcher, worker, backend and configuration file.

  \<^bold>\<open>Loops and bounds.\<close>  Loops with a constant bound are \<open>for_loop\<close> with that bound.  The frame loop of a
  scan result is a \<open>partial_function\<close>, shown to return for every list of entries.  Endless loops
  (monitors, the sampler, time synchronisation) are their body and its iteration for any number
  of passes; statements about them hold for every number.  The reader of SQL and the dispatch of a
  buffer recurse on the length of what is left.  The walks over the linked list of registrations are
  \<open>partial_function\<close>s, since the list could be cyclic; they are shown to return on every list that
  the operations build.

  \<^bold>\<open>Assumptions.\<close>  They are hypotheses of the statements: that a file system or kernel behaves as
  described by the hypotheses of round trips (\<open>reliable\<close>), that \<^verbatim>\<open>/etc/timezone\<close> is not a link, that json-c gives
  back printed replies and SQLite reports errors with a message (\<open>json_ok\<close>, \<open>sql_laws\<close>), and for the
  properties of client and service together that it also reads back requests (\<open>json_codec\<close>) and that
  the database runs statements on tables (\<open>runs_tables\<close>; \<open>runs_sql\<close> with the statements that create and drop them).
  The engine is an idealisation: it does not keep numbers of deleted rows from being used again, keeps numbers as written and
  returns rows in the order of their insertion.  For the display: that addresses, handles and
  framebuffer numbers are not 0 and a buffer has room for its lines (\<open>drm_laws\<close>), and that a framebuffer number
  is not given out twice (\<open>fb_numbers\<close>).  For raw capture: a camera that delivers frames of one size and a socket that
  takes what it is given, in every state and for every descriptor (\<open>camera_laws\<close>), and files under \<^verbatim>\<open>/proc\<close> below 2048 bytes (\<open>short_output\<close>).  Each has an instance in the development
  (\<open>ok_os\<close>, \<open>numbered_json\<close>, \<open>table_engine\<close>, \<open>script_engine\<close>, \<open>demo_drm\<close>, \<open>demo_cam\<close>), on which the witnesses run.

  \<^bold>\<open>Not modelled.\<close>  Text that only goes to logs; the rounding of floating-point numbers, which are rationals
  here (their conversion to a 32-bit integer is undefined out of range, as in C); the directory \<^verbatim>\<open>/home/radxa/blackbox\<close> of
  the logs on the A733, which is \<^verbatim>\<open>/blackbox\<close> here as on the RK3566; the check of D-Bus that strings are UTF-8; the introspection XML; interleaving inside one WiFi operation, which
  its mutex excludes, and inside one log line.  The check of the initial tables leaves out
  \<^verbatim>\<open>system.c\<close>, whose rows hold JSON texts of several thousand characters.  In the display code \<^verbatim>\<open>set_sp_plane_pset\<close>, which an undefined macro
  excludes, and products of sizes above 32768, which overflow the code's integers.  In the tuning tool the methods of capture other than memory mapping, which no
  caller chooses, the reading of the sensor's properties, the choice of the device and the dispatch of messages, which
  belong to the control of other processes.  The other C++ programs (the rest
  of the tool and of the AI server, Qt applications), the vendored libraries (\<^verbatim>\<open>libgdbus\<close>, v4l-utils),
  \<^verbatim>\<open>dbus_helpers.c\<close> and the demonstration programs are outside this development.
\<close>

section \<open>From the phone to the next boot\<close>

lemma write_reliable:
  assumes "reliable os"
  shows "fst (run_state (atomic_write_file os HOME_WIFI_CONF body) w) = 0"
    and "fst (run_state (a733_atomic_write_file os HOME_WIFI_CONF body) w) = 0"
  using assms
  by (simp_all add: atomic_write_file_def a733_atomic_write_file_def write_file_def reliable_calls c_rename_def
      HOME_WIFI_CONF_def reliable_def Let_def)

lemma persist_reliable:
  assumes "reliable os" and "s \<noteq> []" "chr_dq \<notin> set s" "chr_dq \<notin> set p" and "length s \<le> 32" "length p \<le> 63"
  shows "fst (wo_persist (linked_ops b os) s p w) = 0"
proof (cases b)
  case RK3566
  have "length (home_wifi_body s p) < 1024"
    using assms(5,6) by (simp add: home_wifi_body_def render_lines_def)
  with assms RK3566 write_reliable(1) [OF assms(1)] show ?thesis
    by (simp add: linked_ops_def rk3566_ops_def wifi_switch_persist_home_wifi_def Let_def split: prod.split)
       (metis fst_conv)
next
  case A733
  have "length (a733_home_wifi_body s p) < 512"
    using assms(5,6) by (simp add: a733_home_wifi_body_def render_lines_def)
  with assms A733 write_reliable(2) [OF assms(1)] show ?thesis
    by (simp add: linked_ops_def a733_ops_def a733_persist_home_wifi_def Let_def split: prod.split)
       (metis fst_conv)
qed

lemma reachable_pending: "svc_reachable (linked_ops b os) st \<Longrightarrow> pending_ok (pending st)"
  using linked.reachable_inv by (auto simp: svc_inv_def)

text \<open>The bytes that may be in credentials the configuration file can hold.\<close>

definition storable :: "u8 list \<Rightarrow> bool" where
  "storable bs = list_all (\<lambda>b. b \<noteq> 0 \<and> b \<noteq> 0x0A \<and> b \<noteq> 0x22) bs"

lemma char_of_byte_eq_iff: "char_of_byte b = c \<longleftrightarrow> b = byte_of_char c"
  by (metis byte_of_char_of_byte char_of_byte_of_char)

lemma storable_no_special:
  assumes "storable bs"
  shows "chr_nul \<notin> set (map char_of_byte bs)" "chr_nl \<notin> set (map char_of_byte bs)" "chr_dq \<notin> set (map char_of_byte bs)"
proof -
  have "byte_of_char chr_nul = 0" "byte_of_char chr_nl = 0x0A" "byte_of_char chr_dq = 0x22" by (simp_all add: byte_of_char_def)
  with assms show "chr_nul \<notin> set (map char_of_byte bs)" "chr_nl \<notin> set (map char_of_byte bs)"
    "chr_dq \<notin> set (map char_of_byte bs)"
    by (auto simp: storable_def list_all_iff dest: sym [THEN char_of_byte_eq_iff [THEN iffD1]])
qed

lemma storable_text:
  assumes "storable bs"
  shows "text_of bs = map char_of_byte bs"
  using storable_no_special(1) [OF assms] by (simp add: text_of_def)

text \<open>
  Property C3. Provisioning, end to end, on either board: in every reachable state of the
  service, without allocation failures, a phone that sends an SSID of 1 to 32 and a password of
  1 to 63 bytes without NUL, newline and double quote and then CONNECT starts a worker; when
  that worker runs and the join succeeds, the phone is told so and a boot after that reads
  exactly these credentials (file operations working); when the join fails, the phone is told
  the reason and nothing is written: the state is the one in which the join ended.
\<close>

theorem provisioning_end_to_end:
  assumes "svc_reachable (linked_ops bd os) st" "sv_faults st = []" "reliable os"
    and "1 \<le> length s" "length s \<le> WIFI_SSID_MAX" "1 \<le> length p" "length p \<le> WIFI_PASSWD_MAX"
    and "storable s" "storable p"
    and "wo_run_now (linked_ops bd os) (map char_of_byte s) (map char_of_byte p) (sv_world u) = (status, w1)"
  shows "\<exists>job. sv_jobs (proto_dispatch_buffer (linked_ops bd os) (concat (map msg_wire [request a PROTO_CMDID_SSID s,
        request b PROTO_CMDID_PASSWD p, request c PROTO_CMDID_CONNECT []])) (Some k) st) = sv_jobs st @ [Connect_job job] \<and>
    (let u' = wifi_connect_worker (linked_ops bd os) job u in
       sv_calls u' = sv_calls u @ [(k, Snk_send (wire_of PROTO_TYPE_REQ c PROTO_CMDSET_NETWORK PROTO_CMDID_PUSH_RESULT
         [wifi_status_to_errcode status])), (k, Snk_release)] \<and>
       (status = WIFI_SWITCH_OK \<longrightarrow> linked_stored bd (sv_world u') = Some (map char_of_byte s, map char_of_byte p)) \<and>
       (status \<noteq> WIFI_SWITCH_OK \<longrightarrow> sv_world u' = w1))"
proof -
  let ?ops = "linked_ops bd os" and ?s = "map char_of_byte s" and ?p = "map char_of_byte p"
  let ?job = "\<lparr>cj_seq = c, cj_ssid = text_of s, cj_passwd = text_of p, cj_sink = Some k\<rparr>"
  note ts = storable_text [OF assms(8)] storable_no_special [OF assms(8)]
    and tp = storable_text [OF assms(9)] storable_no_special [OF assms(9)]
  have len: "?s \<noteq> []" "length ?s \<le> 32" "length ?p \<le> 63" using assms(4-7) by (auto simp: dispatch_consts)
  have run: "wo_run_now ?ops (cj_ssid ?job) (cj_passwd ?job) (sv_world u) = (status, w1)"
    using assms(10) ts(1) tp(1) by simp
  have "wo_persist ?ops ?s ?p w1 = (0, snd (wo_persist ?ops ?s ?p w1))"
    using persist_reliable [OF assms(3) len(1) ts(4) tp(4) len(2,3), of bd w1] by (simp add: prod_eq_iff)
  then have "linked_stored bd (snd (wo_persist ?ops ?s ?p w1)) = Some (?s, ?p)"
    by (rule linked.persist_stored) (use ts tp len in \<open>simp_all add: line_text_def\<close>)
  with connect_worker_run [OF _ run, of k] ts(1) tp(1)
    provisioning_requests [OF reachable_pending [OF assms(1)] assms(2,4-7) refl,
      where ops = ?ops and k = k and a = a and b = b and c = c]
  show ?thesis
    by (intro exI [of _ ?job]) (simp add: Let_def)
qed

theorem provisioning_end_to_end_witness:
  "\<exists>job. sv_jobs (proto_dispatch_buffer (linked_ops A733 (ok_os (\<lambda>_. []))) (concat (map msg_wire
       [request 1 PROTO_CMDID_SSID [104, 105], request 2 PROTO_CMDID_PASSWD [49, 50], request 3 PROTO_CMDID_CONNECT []]))
       (Some (0 :: nat)) ((svc_init (world0 (\<lambda>_. None)))\<lparr>sv_faults := []\<rparr>)) = [Connect_job job]"
proof -
  let ?st = "(svc_init (world0 (\<lambda>_. None)))\<lparr>sv_faults := []\<rparr> :: (nat, unit world) svc"
  let ?os = "ok_os (\<lambda>_. [])"
  obtain status w1 where run: "wo_run_now (linked_ops A733 ?os) (map char_of_byte [104, 105])
      (map char_of_byte [49, 50]) (sv_world ?st) = (status, w1)"
    by (metis surj_pair)
  have "svc_reachable (linked_ops A733 ?os) ?st" by (rule reach_init)
  moreover have "reliable ?os" "storable [104, 105]" "storable [49, 50]" by (simp_all add: reliable_def storable_def)
  moreover have "sv_jobs ?st = []" by (simp add: svc_init_def)
  ultimately show ?thesis
    using provisioning_end_to_end [OF _ _ _ _ _ _ _ _ _ run, of ?st 1 2 3 0] by (auto simp: dispatch_consts)
qed

end
